(* ===== verification/Prelude.thy ===== *)
theory Prelude
  imports Complex_Main "HOL-Library.Word" "HOL-Library.AList"
begin

section \<open>Shared vocabulary of the DoubleSlash development\<close>

text \<open>
  What every component theory uses of Rust and of its standard library:
  \<^item> machine integers and byte buffers (\<open>u8\<close>, \<open>u16\<close>, \<open>u32\<close>, \<open>u64\<close>, \<open>bytes\<close>), the
    big-endian codecs \<open>to_be_bytes\<close> / \<open>from_be_bytes\<close>, \<open>str::as_bytes\<close>,
    \<open>str::from_utf8\<close> and \<open>trim_end_matches\<close>;
  \<^item> \<open>HashMap\<close> and \<open>BTreeMap\<close> as association lists with distinct keys, with the operations
    the sources call (\<open>get\<close>, \<open>insert\<close>, \<open>remove\<close>, \<open>retain\<close>, \<open>get_mut\<close>) and \<open>HashSet\<close> as
    duplicate-free lists; the iteration order of a hash container is the list order, and
    nothing proved about a component depends on it;
  \<^item> the locale \<open>finite_map\<close>, the contract of those maps, and the locale \<open>invariant_system\<close>,
    the contract of a component with a state invariant, which gives the invariant for every
    sequence of operations.
  A Rust \<open>String\<close> is a \<open>string\<close> whose characters are its UTF-8 bytes. An \<open>f64\<close> clock or
  counter is an exact \<open>real\<close>: rounding is not modelled.
\<close>

named_theorems coll_simps "rewriting of the container operations"
named_theorems wf_intros "well-formedness of the containers"

type_synonym u8 = "8 word"
type_synonym u16 = "16 word"
type_synonym u32 = "32 word"
type_synonym u64 = "64 word"
type_synonym bytes = "u8 list"

subsection \<open>Maps: association lists with distinct keys\<close>

type_synonym ('k, 'v) hmap = "('k \<times> 'v) list"

definition hm_wf :: "('k, 'v) hmap \<Rightarrow> bool" where
  "hm_wf m \<longleftrightarrow> distinct (map fst m)"

definition hm_get :: "('k, 'v) hmap \<Rightarrow> 'k \<Rightarrow> 'v option" where
  "hm_get m k = map_of m k"

definition hm_contains :: "('k, 'v) hmap \<Rightarrow> 'k \<Rightarrow> bool" where
  "hm_contains m k \<longleftrightarrow> k \<in> set (map fst m)"

fun hm_insert :: "'k \<Rightarrow> 'v \<Rightarrow> ('k, 'v) hmap \<Rightarrow> ('k, 'v) hmap" where
  "hm_insert k v [] = [(k, v)]"
| "hm_insert k v ((k', v') # m) = (if k = k' then (k, v) # m else (k', v') # hm_insert k v m)"

definition hm_remove :: "'k \<Rightarrow> ('k, 'v) hmap \<Rightarrow> ('k, 'v) hmap" where
  "hm_remove k m = filter (\<lambda>p. fst p \<noteq> k) m"

definition hm_retain :: "('k \<Rightarrow> 'v \<Rightarrow> bool) \<Rightarrow> ('k, 'v) hmap \<Rightarrow> ('k, 'v) hmap" where
  "hm_retain P m = filter (\<lambda>p. P (fst p) (snd p)) m"

text \<open>\<open>if let Some(v) = m.get_mut(k) { *v = f(*v) }\<close>\<close>

definition hm_modify :: "'k \<Rightarrow> ('v \<Rightarrow> 'v) \<Rightarrow> ('k, 'v) hmap \<Rightarrow> ('k, 'v) hmap" where
  "hm_modify k f m = map (\<lambda>p. if fst p = k then (fst p, f (snd p)) else p) m"

definition hm_keys :: "('k, 'v) hmap \<Rightarrow> 'k list" where
  "hm_keys m = map fst m"

definition hm_values :: "('k, 'v) hmap \<Rightarrow> 'v list" where
  "hm_values m = map snd m"

lemma hm_wf_Nil [wf_intros, simp]: "hm_wf []"
  by (simp add: hm_wf_def)

lemma set_fst_hm_insert [coll_simps]: "fst ` set (hm_insert k v m) = insert k (fst ` set m)"
  by (induction k v m rule: hm_insert.induct) (simp_all add: insert_commute)

lemma hm_wf_insert [wf_intros]: "hm_wf m \<Longrightarrow> hm_wf (hm_insert k v m)"
  by (induction m) (auto simp: hm_wf_def set_fst_hm_insert)

lemma hm_wf_filter: "hm_wf m \<Longrightarrow> hm_wf (filter P m)"
  by (simp add: hm_wf_def distinct_map_filter)

lemma hm_wf_remove [wf_intros]: "hm_wf m \<Longrightarrow> hm_wf (hm_remove k m)"
  by (simp add: hm_remove_def hm_wf_filter)

lemma hm_wf_retain [wf_intros]: "hm_wf m \<Longrightarrow> hm_wf (hm_retain P m)"
  by (simp add: hm_retain_def hm_wf_filter)

lemma fst_hm_modify [simp]: "map fst (hm_modify k f m) = map fst m"
  by (induction m) (auto simp: hm_modify_def)

lemma hm_wf_modify [wf_intros]: "hm_wf m \<Longrightarrow> hm_wf (hm_modify k f m)"
  by (simp add: hm_wf_def)

lemma hm_get_Nil [simp]: "hm_get [] k = None"
  by (simp add: hm_get_def)

lemma hm_get_Cons: "hm_get ((k, v) # m) x = (if x = k then Some v else hm_get m x)"
  by (simp add: hm_get_def)

lemma hm_contains_Nil [simp]: "\<not> hm_contains [] k"
  by (simp add: hm_contains_def)

lemma hm_get_insert [coll_simps]:
  "hm_get (hm_insert k v m) k' = (if k' = k then Some v else hm_get m k')"
  by (induction m) (auto simp: hm_get_def)

lemma hm_get_remove [coll_simps]:
  "hm_get (hm_remove k m) k' = (if k' = k then None else hm_get m k')"
  by (induction m) (auto simp: hm_get_def hm_remove_def)

lemma hm_get_modify [coll_simps]:
  "hm_get (hm_modify k f m) k' = (if k' = k then map_option f (hm_get m k') else hm_get m k')"
  by (induction m) (auto simp: hm_get_def hm_modify_def)

lemma hm_get_None_iff: "hm_get m k = None \<longleftrightarrow> k \<notin> fst ` set m"
  by (simp add: hm_get_def map_of_eq_None_iff)

lemma hm_get_retain [coll_simps]:
  "hm_wf m \<Longrightarrow> hm_get (hm_retain P m) k =
     (case hm_get m k of Some v \<Rightarrow> if P k v then Some v else None | None \<Rightarrow> None)"
proof (induction m)
  case Nil
  then show ?case by (simp add: hm_retain_def)
next
  case (Cons p m)
  obtain k' v' where p: "p = (k', v')" by (cases p)
  have "k' \<notin> fst ` set m" "hm_wf m"
    using Cons.prems p by (auto simp: hm_wf_def)
  moreover from this have "hm_get m k' = None"
    by (simp add: hm_get_None_iff)
  ultimately show ?case
    using Cons.IH p by (auto simp: hm_retain_def hm_get_def map_of_eq_None_iff split: option.splits)
qed

lemma hm_contains_iff [coll_simps]: "hm_contains m k \<longleftrightarrow> hm_get m k \<noteq> None"
  by (simp add: hm_contains_def hm_get_None_iff)

lemma hm_get_in: "hm_wf m \<Longrightarrow> hm_get m k = Some v \<longleftrightarrow> (k, v) \<in> set m"
  by (simp add: hm_wf_def hm_get_def)

lemma hm_get_SomeD: "hm_get m k = Some v \<Longrightarrow> (k, v) \<in> set m"
  by (simp add: hm_get_def map_of_SomeD)

lemma length_hm_insert:
  "length (hm_insert k v m) = (if hm_contains m k then length m else Suc (length m))"
  by (induction m) (auto simp: hm_contains_def image_iff split: if_splits)

lemma length_hm_insert_le: "length (hm_insert k v m) \<le> Suc (length m)"
  by (simp add: length_hm_insert)

lemma length_hm_remove_le: "length (hm_remove k m) \<le> length m"
  by (simp add: hm_remove_def)

lemma length_hm_remove:
  "hm_wf m \<Longrightarrow> hm_contains m k \<Longrightarrow> Suc (length (hm_remove k m)) = length m"
proof (induction m)
  case Nil
  then show ?case by simp
next
  case (Cons p m)
  show ?case
  proof (cases "fst p = k")
    case True
    with Cons.prems have "filter (\<lambda>p. fst p \<noteq> k) m = m"
      by (auto simp: hm_wf_def filter_id_conv image_iff)
    with True show ?thesis by (simp add: hm_remove_def)
  next
    case False
    with Cons show ?thesis by (auto simp: hm_remove_def hm_wf_def hm_contains_def)
  qed
qed

lemma length_hm_retain_le: "length (hm_retain P m) \<le> length m"
  by (simp add: hm_retain_def)

lemma length_hm_modify [simp]: "length (hm_modify k f m) = length m"
  by (simp add: hm_modify_def)

lemma set_hm_insert:
  "set (hm_insert k v m) \<subseteq> insert (k, v) (set m)"
  by (induction m) (auto split: if_splits)

lemma hm_keys_set [simp]: "set (hm_keys m) = fst ` set m"
  by (simp add: hm_keys_def)

lemma hm_keys_iff: "k \<in> set (hm_keys m) \<longleftrightarrow> hm_contains m k"
  by (simp add: hm_contains_def)

text \<open>Sums over the entries, for the byte counters that a map's owner keeps.\<close>

lemma hm_remove_absent: "k \<notin> fst ` set m \<Longrightarrow> hm_remove k m = m"
  by (auto simp: hm_remove_def filter_id_conv)

lemma hm_remove_Cons:
  "hm_remove k (p # m) = (if fst p = k then hm_remove k m else p # hm_remove k m)"
  by (simp add: hm_remove_def)

lemma sum_hm_remove:
  fixes f :: "'k \<times> 'v \<Rightarrow> nat"
  shows "hm_wf m \<Longrightarrow> hm_get m k = Some v \<Longrightarrow>
    sum_list (map f m) = f (k, v) + sum_list (map f (hm_remove k m))"
proof (induction m)
  case (Cons p m)
  show ?case
  proof (cases "fst p = k")
    case True
    with Cons.prems have "k \<notin> fst ` set m" "p = (k, v)"
      by (auto simp: hm_wf_def hm_get_def split: if_splits)
    then show ?thesis by (simp add: hm_remove_Cons hm_remove_absent)
  next
    case False
    with Cons show ?thesis by (auto simp: hm_remove_Cons hm_wf_def hm_get_def)
  qed
qed simp

lemma sum_hm_insert_new:
  fixes f :: "'k \<times> 'v \<Rightarrow> nat"
  shows "k \<notin> fst ` set m \<Longrightarrow> sum_list (map f (hm_insert k v m)) = sum_list (map f m) + f (k, v)"
  by (induction k v m rule: hm_insert.induct) auto

lemma sum_hm_modify:
  fixes f :: "'k \<times> 'v \<Rightarrow> nat"
  assumes "hm_wf m" "hm_get m k = Some v"
  shows "sum_list (map f (hm_modify k g m)) + f (k, v) = sum_list (map f m) + f (k, g v)"
  using assms
proof (induction m)
  case (Cons p m)
  show ?case
  proof (cases "fst p = k")
    case True
    with Cons.prems have "k \<notin> fst ` set m" "p = (k, v)"
      by (auto simp: hm_wf_def hm_get_def split: if_splits)
    moreover from this have "hm_modify k g m = m"
      by (force simp: hm_modify_def intro!: map_idI)
    ultimately show ?thesis by (simp add: hm_modify_def)
  next
    case False
    with Cons have "sum_list (map f (hm_modify k g m)) + f (k, v) = sum_list (map f m) + f (k, g v)"
      by (auto simp: hm_wf_def hm_get_def)
    with False show ?thesis by (simp add: hm_modify_def)
  qed
qed simp

subsection \<open>The contract of a map\<close>

locale finite_map =
  fixes get :: "'m \<Rightarrow> 'k \<Rightarrow> 'v option"
    and ins :: "'k \<Rightarrow> 'v \<Rightarrow> 'm \<Rightarrow> 'm"
    and rem :: "'k \<Rightarrow> 'm \<Rightarrow> 'm"
    and wf :: "'m \<Rightarrow> bool"
    and size_of :: "'m \<Rightarrow> nat"
  assumes get_ins: "get (ins k v m) k' = (if k' = k then Some v else get m k')"
    and get_rem: "get (rem k m) k' = (if k' = k then None else get m k')"
    and wf_ins: "wf m \<Longrightarrow> wf (ins k v m)"
    and wf_rem: "wf m \<Longrightarrow> wf (rem k m)"
    and dom_finite: "finite (dom (get m))"
    and size_dom: "wf m \<Longrightarrow> size_of m = card (dom (get m))"
begin

lemma get_rem_ins: "get (rem k (ins k v m)) = (get m)(k := None)"
  by (auto simp: get_ins get_rem)

lemma dom_ins: "dom (get (ins k v m)) = insert k (dom (get m))"
  by (auto simp: get_ins dom_def)

lemma dom_rem: "dom (get (rem k m)) = dom (get m) - {k}"
  by (auto simp: get_rem dom_def)

lemma size_ins: "wf m \<Longrightarrow> size_of (ins k v m) = (if get m k = None then Suc (size_of m) else size_of m)"
  by (auto simp: size_dom wf_ins dom_ins card_insert_if dom_finite)

lemma size_rem: "wf m \<Longrightarrow> size_of (rem k m) = (if get m k = None then size_of m else size_of m - 1)"
  by (auto simp: size_dom wf_rem dom_rem card_Diff_singleton_if dom_finite)

lemma size_bounded:
  assumes "wf m" and "dom (get m) \<subseteq> A" and "finite A"
  shows "size_of m \<le> card A"
  using assms by (simp add: size_dom card_mono)

end

lemma length_hm_card: "hm_wf m \<Longrightarrow> length m = card (fst ` set m)"
  by (metis distinct_card hm_wf_def length_map list.set_map)

lemma dom_hm_get: "dom (hm_get m) = fst ` set m"
  by (simp add: hm_get_def [abs_def] dom_map_of_conv_image_fst)

interpretation hm: finite_map hm_get hm_insert hm_remove hm_wf length
proof unfold_locales
  fix m :: "('k \<times> 'v) list"
  show "finite (dom (hm_get m))" by (simp add: dom_hm_get)
  assume "hm_wf m"
  then show "length m = card (dom (hm_get m))" by (simp add: dom_hm_get length_hm_card)
qed (auto simp: coll_simps intro: wf_intros)

subsection \<open>Sets: duplicate-free lists\<close>

definition hs_insert :: "'a \<Rightarrow> 'a list \<Rightarrow> 'a list" where
  "hs_insert x xs = (if x \<in> set xs then xs else xs @ [x])"

definition hs_remove :: "'a \<Rightarrow> 'a list \<Rightarrow> 'a list" where
  "hs_remove x xs = filter (\<lambda>y. y \<noteq> x) xs"

lemma set_hs_insert [simp]: "set (hs_insert x xs) = insert x (set xs)"
  by (auto simp: hs_insert_def)

lemma set_hs_remove [simp]: "set (hs_remove x xs) = set xs - {x}"
  by (auto simp: hs_remove_def)

lemma distinct_hs_insert [wf_intros]: "distinct xs \<Longrightarrow> distinct (hs_insert x xs)"
  by (auto simp: hs_insert_def)

lemma distinct_hs_remove [wf_intros]: "distinct xs \<Longrightarrow> distinct (hs_remove x xs)"
  by (simp add: hs_remove_def)

subsection \<open>Components with an invariant\<close>

text \<open>
  A component is a start state and a step function over its operations. When the start state
  satisfies the invariant and every operation keeps it, every sequence of operations does.
\<close>

locale invariant_system =
  fixes init :: "'s" and step :: "'s \<Rightarrow> 'e \<Rightarrow> 's" and inv :: "'s \<Rightarrow> bool"
  assumes inv_init: "inv init"
    and inv_step: "inv s \<Longrightarrow> inv (step s e)"
begin

lemma inv_run: "inv s \<Longrightarrow> inv (foldl step s es)"
  by (induction es arbitrary: s) (auto intro: inv_step)

lemma inv_reachable: "inv (foldl step init es)"
  by (rule inv_run [OF inv_init])

end

subsection \<open>Bytes\<close>

lemma unat_bound: "unat (w :: 'a::len word) < 2 ^ LENGTH('a)"
  by (rule unsigned_less)

definition byte_of_char :: "char \<Rightarrow> u8" where
  "byte_of_char c = word_of_nat (of_char c)"

definition char_of_byte :: "u8 \<Rightarrow> char" where
  "char_of_byte b = char_of (unat b)"

definition as_bytes :: "string \<Rightarrow> bytes" where
  "as_bytes s = map byte_of_char s"

definition string_of_bytes :: "bytes \<Rightarrow> string" where
  "string_of_bytes bs = map char_of_byte bs"

lemma char_of_byte_of_char [simp]: "char_of_byte (byte_of_char c) = c"
  by (simp add: char_of_byte_def byte_of_char_def unat_of_nat)

lemma byte_of_char_of_byte [simp]: "byte_of_char (char_of_byte b) = b"
proof -
  have "unat b < 256" using unat_bound [of b] by simp
  then show ?thesis by (simp add: char_of_byte_def byte_of_char_def)
qed

lemma string_of_as_bytes [simp]: "string_of_bytes (as_bytes s) = s"
  by (induction s) (simp_all add: string_of_bytes_def as_bytes_def)

lemma as_bytes_string_of [simp]: "as_bytes (string_of_bytes bs) = bs"
  by (induction bs) (simp_all add: string_of_bytes_def as_bytes_def)

lemma string_of_bytes_empty [simp]: "string_of_bytes bs = [] \<longleftrightarrow> bs = []"
  by (simp add: string_of_bytes_def)

lemma length_as_bytes [simp]: "length (as_bytes s) = length s"
  by (simp add: as_bytes_def)

text \<open>\<open>uN::to_be_bytes\<close> and \<open>uN::from_be_bytes\<close>, on the value of the integer.\<close>

fun be_bytes :: "nat \<Rightarrow> nat \<Rightarrow> bytes" where
  "be_bytes 0 x = []"
| "be_bytes (Suc n) x = be_bytes n (x div 256) @ [word_of_nat (x mod 256)]"

definition from_be :: "bytes \<Rightarrow> nat" where
  "from_be bs = foldl (\<lambda>a b. a * 256 + unat b) 0 bs"

lemma length_be_bytes [simp]: "length (be_bytes n x) = n"
  by (induction n arbitrary: x) auto

lemma unat_byte_mod [simp]: "unat (word_of_nat (x mod 256) :: u8) = x mod 256"
  by (simp add: unat_of_nat)

lemma from_be_bytes: "x < 256 ^ n \<Longrightarrow> from_be (be_bytes n x) = x"
proof (induction n arbitrary: x)
  case 0
  then show ?case by (simp add: from_be_def)
next
  case (Suc n)
  then have "x div 256 < 256 ^ n"
    by (simp add: less_mult_imp_div_less mult.commute)
  then have "from_be (be_bytes n (x div 256)) = x div 256" by (rule Suc.IH)
  then show ?case by (simp add: from_be_def)
qed

lemma from_be_u16 [simp]: "word_of_nat (from_be (be_bytes 2 (unat (w :: u16)))) = w"
  using unat_bound [of w] by (simp add: from_be_bytes)

lemma from_be_u32 [simp]: "word_of_nat (from_be (be_bytes 4 (unat (w :: u32)))) = w"
  using unat_bound [of w] by (simp add: from_be_bytes)

lemma from_be_u64 [simp]: "word_of_nat (from_be (be_bytes 8 (unat (w :: u64)))) = w"
  using unat_bound [of w] by (simp add: from_be_bytes)

subsection \<open>Strings\<close>

text \<open>\<open>str::trim_end_matches(c)\<close>: all trailing copies of one character are dropped.\<close>

definition trim_end_matches :: "char \<Rightarrow> string \<Rightarrow> string" where
  "trim_end_matches c s = rev (dropWhile ((=) c) (rev s))"

lemma trim_end_matches_idem [simp]:
  "trim_end_matches c (trim_end_matches c s) = trim_end_matches c s"
proof -
  have "dropWhile ((=) c) (dropWhile ((=) c) (rev s)) = dropWhile ((=) c) (rev s)"
    by (induction "rev s") (auto simp: dropWhile_idem)
  then show ?thesis by (simp add: trim_end_matches_def)
qed

lemma trim_end_matches_snoc [simp]: "trim_end_matches c (s @ [c]) = trim_end_matches c s"
  by (simp add: trim_end_matches_def)

text \<open>\<open>str::from_utf8\<close> accepts exactly the well-formed UTF-8 byte sequences.\<close>

definition utf8_cont :: "u8 \<Rightarrow> bool" where
  "utf8_cont b \<longleftrightarrow> 0x80 \<le> b \<and> b \<le> 0xBF"

definition utf8_lead3 :: "u8 \<Rightarrow> u8 \<Rightarrow> bool" where
  "utf8_lead3 b0 b1 \<longleftrightarrow>
     b0 = 0xE0 \<and> 0xA0 \<le> b1 \<and> b1 \<le> 0xBF \<or>
     0xE1 \<le> b0 \<and> b0 \<le> 0xEC \<and> utf8_cont b1 \<or>
     b0 = 0xED \<and> 0x80 \<le> b1 \<and> b1 \<le> 0x9F \<or>
     0xEE \<le> b0 \<and> b0 \<le> 0xEF \<and> utf8_cont b1"

definition utf8_lead4 :: "u8 \<Rightarrow> u8 \<Rightarrow> bool" where
  "utf8_lead4 b0 b1 \<longleftrightarrow>
     b0 = 0xF0 \<and> 0x90 \<le> b1 \<and> b1 \<le> 0xBF \<or>
     0xF1 \<le> b0 \<and> b0 \<le> 0xF3 \<and> utf8_cont b1 \<or>
     b0 = 0xF4 \<and> 0x80 \<le> b1 \<and> b1 \<le> 0x8F"

fun utf8_valid :: "bytes \<Rightarrow> bool" where
  "utf8_valid [] = True"
| "utf8_valid (b0 # bs) =
     (if b0 < 0x80 then utf8_valid bs
      else case bs of
        [] \<Rightarrow> False
      | b1 # bs1 \<Rightarrow>
          if 0xC2 \<le> b0 \<and> b0 \<le> 0xDF then utf8_cont b1 \<and> utf8_valid bs1
          else case bs1 of
            [] \<Rightarrow> False
          | b2 # bs2 \<Rightarrow>
              if utf8_lead3 b0 b1 then utf8_cont b2 \<and> utf8_valid bs2
              else case bs2 of
                [] \<Rightarrow> False
              | b3 # bs3 \<Rightarrow>
                  utf8_lead4 b0 b1 \<and> utf8_cont b2 \<and> utf8_cont b3 \<and> utf8_valid bs3)"

lemma utf8_valid_ascii: "list_all (\<lambda>b. b < 0x80) bs \<Longrightarrow> utf8_valid bs"
  by (induction bs) auto

definition from_utf8 :: "bytes \<Rightarrow> string option" where
  "from_utf8 bs = (if utf8_valid bs then Some (string_of_bytes bs) else None)"

subsection \<open>JSON values and decimal numbers\<close>

text \<open>The scalar values the sources put into \<open>serde_json\<close> maps, and \<open>Display\<close> of an unsigned integer.\<close>

datatype json_value = JStr string | JBool bool | JNum nat

fun show_dec :: "nat \<Rightarrow> string" where
  "show_dec n = (if n < 10 then [char_of (48 + n)] else show_dec (n div 10) @ [char_of (48 + n mod 10)])"

declare show_dec.simps [simp del]

lemma show_dec_digits: "c \<in> set (show_dec n) \<Longrightarrow> \<exists>d<10. c = char_of (48 + d :: nat)"
proof (induction n rule: show_dec.induct)
  case (1 n)
  then show ?case by (subst (asm) show_dec.simps) (auto split: if_splits intro: exI [of _ "n mod 10"])
qed

end
