(* ===== verification/Channel_Frame.thy ===== *)
theory Channel_Frame
  imports Prelude
begin

section \<open>Fixed channel tags and the tagged-frame codec (\<open>channel_frame.rs\<close>)\<close>

text \<open>
  The one-byte tag that heads every frame of the QUIC peer fabric: the fixed first-party tags,
  the two tables between tags and feature ids, the frame codec and the classification of an
  inbound frame.
\<close>

definition CONTROL_TAG :: u8 where "CONTROL_TAG = 0x00"
definition AUDIO_TAG :: u8 where "AUDIO_TAG = 0x01"
definition CHAT_TAG :: u8 where "CHAT_TAG = 0x02"
definition FILE_TAG :: u8 where "FILE_TAG = 0x03"
definition ROOM_AUDIO_TAG :: u8 where "ROOM_AUDIO_TAG = 0x04"
definition GAME_RELAY_TAG :: u8 where "GAME_RELAY_TAG = 0x05"
definition VIDEO_TAG :: u8 where "VIDEO_TAG = 0x06"
definition ROOM_VIDEO_TAG :: u8 where "ROOM_VIDEO_TAG = 0x07"
definition CONTENT_AUDIO_TAG :: u8 where "CONTENT_AUDIO_TAG = 0x08"
definition ROOM_CONTENT_AUDIO_TAG :: u8 where "ROOM_CONTENT_AUDIO_TAG = 0x09"
definition MAX_FIRST_PARTY_TAG :: u8 where "MAX_FIRST_PARTY_TAG = 0x0F"

lemmas tag_defs = CONTROL_TAG_def AUDIO_TAG_def CHAT_TAG_def FILE_TAG_def ROOM_AUDIO_TAG_def
  GAME_RELAY_TAG_def VIDEO_TAG_def ROOM_VIDEO_TAG_def CONTENT_AUDIO_TAG_def
  ROOM_CONTENT_AUDIO_TAG_def MAX_FIRST_PARTY_TAG_def

definition fixed_tag_for :: "string \<Rightarrow> u8 option" where
  "fixed_tag_for feature_id =
     (if feature_id = ''core.audio.opus'' then Some AUDIO_TAG
      else if feature_id = ''core.chat.v1'' then Some CHAT_TAG
      else if feature_id = ''core.file.v1'' then Some FILE_TAG
      else if feature_id = ''room.audio.sfu'' then Some ROOM_AUDIO_TAG
      else if feature_id = ''game.relay.v1'' then Some GAME_RELAY_TAG
      else if feature_id = ''core.video.v1'' then Some VIDEO_TAG
      else if feature_id = ''room.video.sfu'' then Some ROOM_VIDEO_TAG
      else if feature_id = ''core.audio.content.v1'' then Some CONTENT_AUDIO_TAG
      else if feature_id = ''room.audio.content.sfu'' then Some ROOM_CONTENT_AUDIO_TAG
      else None)"

definition feature_for_fixed_tag :: "u8 \<Rightarrow> string option" where
  "feature_for_fixed_tag tag =
     (if tag = AUDIO_TAG then Some ''core.audio.opus''
      else if tag = CHAT_TAG then Some ''core.chat.v1''
      else if tag = FILE_TAG then Some ''core.file.v1''
      else if tag = ROOM_AUDIO_TAG then Some ''room.audio.sfu''
      else if tag = GAME_RELAY_TAG then Some ''game.relay.v1''
      else if tag = VIDEO_TAG then Some ''core.video.v1''
      else if tag = ROOM_VIDEO_TAG then Some ''room.video.sfu''
      else if tag = CONTENT_AUDIO_TAG then Some ''core.audio.content.v1''
      else if tag = ROOM_CONTENT_AUDIO_TAG then Some ''room.audio.content.sfu''
      else None)"

definition encode_frame :: "u8 \<Rightarrow> bytes \<Rightarrow> bytes" where
  "encode_frame tag payload = tag # payload"

fun decode_frame :: "bytes \<Rightarrow> (u8 \<times> bytes) option" where
  "decode_frame [] = None"
| "decode_frame (tag # rest) = Some (tag, rest)"

datatype FrameClass =
    Control bytes
  | Audio bytes
  | Chat bytes
  | File bytes
  | Video bytes
  | ContentAudio bytes
  | Other u8 bytes

fun classify :: "bytes \<Rightarrow> FrameClass option" where
  "classify [] = None"
| "classify (first # rest) = Some
     (if first = CONTROL_TAG then Control rest
      else if first = AUDIO_TAG then Audio rest
      else if first = CHAT_TAG then Chat rest
      else if first = FILE_TAG then File rest
      else if first = VIDEO_TAG then Video rest
      else if first = CONTENT_AUDIO_TAG then ContentAudio rest
      else Other first rest)"

text \<open>The feature that a class of frame belongs to, as the table of the module documents it.\<close>

fun class_feature :: "FrameClass \<Rightarrow> string option" where
  "class_feature (Control _) = None"
| "class_feature (Audio _) = Some ''core.audio.opus''"
| "class_feature (Chat _) = Some ''core.chat.v1''"
| "class_feature (File _) = Some ''core.file.v1''"
| "class_feature (Video _) = Some ''core.video.v1''"
| "class_feature (ContentAudio _) = Some ''core.audio.content.v1''"
| "class_feature (Other t _) = feature_for_fixed_tag t"

fun class_payload :: "FrameClass \<Rightarrow> bytes" where
  "class_payload (Control p) = p"
| "class_payload (Audio p) = p"
| "class_payload (Chat p) = p"
| "class_payload (File p) = p"
| "class_payload (Video p) = p"
| "class_payload (ContentAudio p) = p"
| "class_payload (Other _ p) = p"

lemma decode_encode_frame [simp]: "decode_frame (encode_frame t p) = Some (t, p)"
  by (simp add: encode_frame_def)

lemma fixed_tag_for_Some:
  "fixed_tag_for f = Some t \<longleftrightarrow> feature_for_fixed_tag t = Some f"
  by (auto simp: fixed_tag_for_def feature_for_fixed_tag_def tag_defs split: if_splits)

lemma feature_for_fixed_tag_le:
  "feature_for_fixed_tag t = Some f \<Longrightarrow> t \<le> MAX_FIRST_PARTY_TAG"
  by (auto simp: feature_for_fixed_tag_def tag_defs split: if_splits)

text \<open>
  Tags and features correspond one to one. A frame encoded under a feature's fixed tag is
  classified by the receiver as a frame of that feature, with the payload intact; the tag is in
  the reserved range and maps back to the feature; and a feature without a fixed tag is the
  feature of no tag.
\<close>

theorem classify_encode_frame:
  "case fixed_tag_for f of
     None \<Rightarrow> f \<notin> ran feature_for_fixed_tag
   | Some t \<Rightarrow> feature_for_fixed_tag t = Some f \<and> t \<le> MAX_FIRST_PARTY_TAG \<and>
       map_option (\<lambda>c. (class_feature c, class_payload c)) (classify (encode_frame t p)) = Some (Some f, p)"
proof (cases "fixed_tag_for f")
  case None
  then show ?thesis by (auto simp: ran_def fixed_tag_for_Some [symmetric])
next
  case (Some t)
  then have f: "feature_for_fixed_tag t = Some f" by (simp add: fixed_tag_for_Some)
  then have "class_feature (the (classify (encode_frame t p))) = Some f"
    by (auto simp: encode_frame_def feature_for_fixed_tag_def tag_defs split: if_splits)
  moreover have "class_payload (the (classify (encode_frame t p))) = p"
    by (simp add: encode_frame_def)
  ultimately show ?thesis
    using Some f feature_for_fixed_tag_le [OF f] by (simp add: encode_frame_def)
qed

end
