(* ===== verification/Channel_Tag.thy ===== *)
theory Channel_Tag
  imports Channel_Frame
begin

section \<open>The channel-tag registry (\<open>channel_tag.rs\<close>)\<close>

text \<open>
  The per-session allocator that binds datagram features to one-byte tags of the dynamic range
  \<open>0x10..=0xEF\<close>. The mutex-protected \<open>Inner\<close> is the record \<open>tag_registry\<close>; every method is a
  function on it. The invariant says that the two maps are inverse to each other and that the
  set of tags in use is their common range.
\<close>

definition DYNAMIC_TAG_START :: u8 where "DYNAMIC_TAG_START = 0x10"
definition DYNAMIC_TAG_END :: u8 where "DYNAMIC_TAG_END = 0xEF"
definition BROADCAST_TAG :: u8 where "BROADCAST_TAG = 0xFF"

datatype ChannelTagError =
    Exhausted
  | AlreadyBound string
  | NotBound string
  | OutOfRange u8
  | TagInUse u8

record tag_registry =
  by_feature :: "(string, u8) hmap"
  by_tag :: "(u8, string) hmap"
  in_use :: "u8 list"

definition tag_registry_new :: tag_registry where
  "tag_registry_new = \<lparr>by_feature = [], by_tag = [], in_use = []\<rparr>"

text \<open>The inclusive range \<open>DYNAMIC_TAG_START..=DYNAMIC_TAG_END\<close>, in iteration order.\<close>

definition dynamic_tags :: "u8 list" where
  "dynamic_tags = map word_of_nat [unat DYNAMIC_TAG_START ..< Suc (unat DYNAMIC_TAG_END)]"

definition tag_bind :: "tag_registry \<Rightarrow> string \<Rightarrow> (ChannelTagError + u8) \<times> tag_registry" where
  "tag_bind g feature_id =
     (if hm_contains (by_feature g) feature_id then (Inl (AlreadyBound feature_id), g)
      else case find (\<lambda>t. t \<notin> set (in_use g)) dynamic_tags of
        None \<Rightarrow> (Inl Exhausted, g)
      | Some tag \<Rightarrow> (Inr tag,
          g\<lparr>in_use := hs_insert tag (in_use g),
            by_feature := hm_insert feature_id tag (by_feature g),
            by_tag := hm_insert tag feature_id (by_tag g)\<rparr>))"

definition tag_bind_to ::
  "tag_registry \<Rightarrow> string \<Rightarrow> u8 \<Rightarrow> (ChannelTagError + unit) \<times> tag_registry" where
  "tag_bind_to g feature_id tag =
     (if \<not> (DYNAMIC_TAG_START \<le> tag \<and> tag \<le> DYNAMIC_TAG_END) then (Inl (OutOfRange tag), g)
      else if hm_contains (by_feature g) feature_id then (Inl (AlreadyBound feature_id), g)
      else if tag \<in> set (in_use g) then (Inl (TagInUse tag), g)
      else (Inr (),
          g\<lparr>in_use := hs_insert tag (in_use g),
            by_feature := hm_insert feature_id tag (by_feature g),
            by_tag := hm_insert tag feature_id (by_tag g)\<rparr>))"

definition tag_release :: "tag_registry \<Rightarrow> string \<Rightarrow> (ChannelTagError + u8) \<times> tag_registry" where
  "tag_release g feature_id =
     (case hm_get (by_feature g) feature_id of
        None \<Rightarrow> (Inl (NotBound feature_id), g)
      | Some tag \<Rightarrow> (Inr tag,
          g\<lparr>by_feature := hm_remove feature_id (by_feature g),
            by_tag := hm_remove tag (by_tag g),
            in_use := hs_remove tag (in_use g)\<rparr>))"

definition tag_for :: "tag_registry \<Rightarrow> string \<Rightarrow> u8 option" where
  "tag_for g feature_id = hm_get (by_feature g) feature_id"

definition feature_for :: "tag_registry \<Rightarrow> u8 \<Rightarrow> string option" where
  "feature_for g tag = hm_get (by_tag g) tag"

definition bound_count :: "tag_registry \<Rightarrow> nat" where
  "bound_count g = length (by_feature g)"

datatype tag_op = BindOp string | BindToOp string u8 | ReleaseOp string

fun tag_step :: "tag_registry \<Rightarrow> tag_op \<Rightarrow> tag_registry" where
  "tag_step g (BindOp f) = snd (tag_bind g f)"
| "tag_step g (BindToOp f t) = snd (tag_bind_to g f t)"
| "tag_step g (ReleaseOp f) = snd (tag_release g f)"

subsection \<open>The invariant\<close>

definition tag_inv :: "tag_registry \<Rightarrow> bool" where
  "tag_inv g \<longleftrightarrow>
     hm_wf (by_feature g) \<and> hm_wf (by_tag g) \<and> distinct (in_use g) \<and>
     (\<forall>f t. hm_get (by_feature g) f = Some t \<longleftrightarrow> hm_get (by_tag g) t = Some f) \<and>
     set (in_use g) = dom (hm_get (by_tag g)) \<and>
     set (in_use g) \<subseteq> set dynamic_tags"

lemma dynamic_tags_upt: "dynamic_tags = map word_of_nat [16 ..< 240]"
  by (simp only: dynamic_tags_def DYNAMIC_TAG_START_def DYNAMIC_TAG_END_def) simp

lemma tag_invD:
  assumes "tag_inv g"
  shows "hm_wf (by_feature g)" "distinct (in_use g)"
    "set (in_use g) = dom (hm_get (by_tag g))" "set (in_use g) \<subseteq> set dynamic_tags"
  using assms unfolding tag_inv_def by blast+

lemma set_dynamic_tags: "t \<in> set dynamic_tags \<longleftrightarrow> DYNAMIC_TAG_START \<le> t \<and> t \<le> DYNAMIC_TAG_END"
proof -
  have "t \<in> set dynamic_tags \<longleftrightarrow> (\<exists>n. 16 \<le> n \<and> n < 240 \<and> t = word_of_nat n)"
    by (auto simp only: dynamic_tags_upt set_map set_upt image_iff atLeastLessThan_iff Bex_def)
  also have "\<dots> \<longleftrightarrow> 16 \<le> unat t \<and> unat t < 240"
  proof
    assume "\<exists>n. 16 \<le> n \<and> n < 240 \<and> t = word_of_nat n"
    then obtain n where "16 \<le> n" "n < 240" "t = word_of_nat n" by blast
    then show "16 \<le> unat t \<and> unat t < 240" by (simp add: unat_of_nat)
  next
    assume "16 \<le> unat t \<and> unat t < 240"
    then show "\<exists>n. 16 \<le> n \<and> n < 240 \<and> t = word_of_nat n"
      by (intro exI [of _ "unat t"]) simp
  qed
  also have "\<dots> \<longleftrightarrow> DYNAMIC_TAG_START \<le> t \<and> t \<le> DYNAMIC_TAG_END"
    by (auto simp: DYNAMIC_TAG_START_def DYNAMIC_TAG_END_def word_le_nat_alt)
  finally show ?thesis .
qed

lemma distinct_dynamic_tags: "distinct dynamic_tags"
proof -
  have "inj_on (word_of_nat :: nat \<Rightarrow> u8) {16 ..< 240}"
  proof (rule inj_onI)
    fix x y :: nat
    assume xy: "x \<in> {16 ..< 240}" "y \<in> {16 ..< 240}" "(word_of_nat x :: u8) = word_of_nat y"
    from xy(3) have "unat (word_of_nat x :: u8) = unat (word_of_nat y :: u8)" by (rule arg_cong)
    with xy(1,2) show "x = y" by (simp add: unat_of_nat)
  qed
  then show ?thesis
    by (simp only: dynamic_tags_upt distinct_map distinct_upt set_upt simp_thms)
qed

lemma length_dynamic_tags: "length dynamic_tags = 224"
  unfolding dynamic_tags_upt length_map length_upt by simp

lemma dynamic_not_fixed: "t \<in> set dynamic_tags \<Longrightarrow> feature_for_fixed_tag t = None"
  using feature_for_fixed_tag_le [of t]
  by (cases "feature_for_fixed_tag t")
    (auto simp: set_dynamic_tags DYNAMIC_TAG_START_def MAX_FIRST_PARTY_TAG_def word_le_nat_alt)

lemma dynamic_tags_range:
  "set dynamic_tags \<subseteq> {DYNAMIC_TAG_START .. DYNAMIC_TAG_END} - dom feature_for_fixed_tag"
proof
  fix t
  assume "t \<in> set dynamic_tags"
  then show "t \<in> {DYNAMIC_TAG_START .. DYNAMIC_TAG_END} - dom feature_for_fixed_tag"
    using dynamic_not_fixed [of t] by (simp add: set_dynamic_tags domIff)
qed

lemma tag_inv_add:
  assumes inv: "tag_inv g" and f: "hm_get (by_feature g) f = None"
    and t: "t \<notin> set (in_use g)" "t \<in> set dynamic_tags"
  shows "tag_inv (g\<lparr>in_use := hs_insert t (in_use g),
            by_feature := hm_insert f t (by_feature g), by_tag := hm_insert t f (by_tag g)\<rparr>)"
proof -
  have "hm_get (by_tag g) t = None" using inv t by (auto simp: tag_inv_def)
  moreover have "\<And>t'. hm_get (by_tag g) t' \<noteq> Some f"
    using inv f unfolding tag_inv_def by (metis option.distinct(1))
  ultimately show ?thesis
    using inv f t by (auto simp: tag_inv_def coll_simps hm.dom_ins intro: wf_intros)
qed

lemma find_freshD:
  "find (\<lambda>t. t \<notin> set xs) ts = Some t \<Longrightarrow> t \<notin> set xs \<and> t \<in> set ts"
  by (auto simp: find_Some_iff)

lemma tag_bind_inv: "tag_inv g \<Longrightarrow> tag_inv (snd (tag_bind g f))"
  by (auto simp: tag_bind_def coll_simps dest: find_freshD intro: tag_inv_add split: option.splits)

lemma tag_bind_to_inv: "tag_inv g \<Longrightarrow> tag_inv (snd (tag_bind_to g f t))"
  by (auto simp: tag_bind_to_def coll_simps set_dynamic_tags intro: tag_inv_add)

lemma tag_inv_unique:
  "tag_inv g \<Longrightarrow> hm_get (by_tag g) t = Some f \<Longrightarrow> hm_get (by_tag g) t' = Some f \<Longrightarrow> t = t'"
  unfolding tag_inv_def by (metis option.inject)

lemma tag_release_inv:
  assumes "tag_inv g"
  shows "tag_inv (snd (tag_release g f))"
  using assms tag_inv_unique [OF assms]
  by (auto simp: tag_release_def tag_inv_def coll_simps hm.dom_rem intro: wf_intros
      split: option.splits)

lemma tag_new_inv: "tag_inv tag_registry_new"
  by (simp add: tag_inv_def tag_registry_new_def dom_def)

interpretation tags: invariant_system tag_registry_new tag_step tag_inv
proof
  show "tag_inv tag_registry_new" by (rule tag_new_inv)
  fix s e
  assume "tag_inv s"
  then show "tag_inv (tag_step s e)"
    by (cases e) (simp_all add: tag_bind_inv tag_bind_to_inv tag_release_inv)
qed

lemma tag_inv_count:
  assumes inv: "tag_inv g"
  shows "bound_count g = length (in_use g)"
proof -
  let ?f = "\<lambda>f. the (hm_get (by_feature g) f)"
  have "inj_on ?f (dom (hm_get (by_feature g)))"
    using inv unfolding inj_on_def tag_inv_def by (metis domIff option.collapse option.inject)
  moreover have "?f ` dom (hm_get (by_feature g)) = dom (hm_get (by_tag g))"
    using inv unfolding tag_inv_def image_def by (auto simp: dom_def) (metis option.sel)+
  ultimately have "card (dom (hm_get (by_feature g))) = card (set (in_use g))"
    using inv card_image [of ?f "dom (hm_get (by_feature g))"] by (simp add: tag_inv_def)
  moreover have "card (set (in_use g)) = length (in_use g)"
    using inv by (intro distinct_card) (simp add: tag_inv_def)
  moreover have "bound_count g = card (dom (hm_get (by_feature g)))"
    using inv unfolding bound_count_def tag_inv_def by (intro hm.size_dom) simp
  ultimately show ?thesis by simp
qed

lemma find_None_iff_subset: "find (\<lambda>t. t \<notin> set xs) ts = None \<longleftrightarrow> set ts \<subseteq> set xs"
  by (auto simp: find_None_iff)

lemma tag_inv_full_iff:
  assumes inv: "tag_inv g"
  shows "set dynamic_tags \<subseteq> set (in_use g) \<longleftrightarrow> bound_count g = 224"
proof -
  have sub: "set (in_use g) \<subseteq> set dynamic_tags" by (rule tag_invD(4) [OF inv])
  have "card (set dynamic_tags) = 224"
    using distinct_card [OF distinct_dynamic_tags] length_dynamic_tags by simp
  moreover have "card (set (in_use g)) = bound_count g"
    using tag_inv_count [OF inv] distinct_card [OF tag_invD(2) [OF inv]] by simp
  ultimately have "set (in_use g) = set dynamic_tags \<longleftrightarrow> bound_count g = 224"
    using sub card_subset_eq [of "set dynamic_tags" "set (in_use g)"] by (metis List.finite_set)
  then show ?thesis using sub by blast
qed

lemma tag_inv_count_le:
  assumes inv: "tag_inv g"
  shows "bound_count g \<le> 224"
proof -
  have "set (in_use g) \<subseteq> set dynamic_tags" by (rule tag_invD(4) [OF inv])
  then have "card (set (in_use g)) \<le> card (set dynamic_tags)" by (rule card_mono [rotated]) simp
  then show ?thesis
    using tag_inv_count [OF inv] distinct_card [OF distinct_dynamic_tags]
      distinct_card [OF tag_invD(2) [OF inv]]
    by (simp add: length_dynamic_tags)
qed

lemma sorted_dynamic_tags: "sorted dynamic_tags"
proof -
  have "x < y \<Longrightarrow> y < 240 \<Longrightarrow> (word_of_nat x :: u8) \<le> word_of_nat y" for x y :: nat
    by (simp add: word_le_nat_alt unat_of_nat)
  then have "sorted_wrt (\<lambda>x y. (word_of_nat x :: u8) \<le> word_of_nat y) [16 ..< 240]"
    using sorted_wrt_mono_rel [of "[16 ..< 240]" "(<)" "\<lambda>x y. (word_of_nat x :: u8) \<le> word_of_nat y"]
    by (simp only: set_upt atLeastLessThan_iff sorted_wrt_upt simp_thms)
  then show ?thesis
    unfolding dynamic_tags_upt by (simp only: sorted_map)
qed

lemma find_first_smallest:
  "sorted xs \<Longrightarrow> find P xs = Some t \<Longrightarrow> t' \<in> set xs \<Longrightarrow> t' < t \<Longrightarrow> \<not> P t'"
  by (induction xs) (auto split: if_splits)

subsection \<open>What the registry promises\<close>

text \<open>
  In every state the registry can reach, the map from features to tags and the map from tags
  to features are inverse to each other, only dynamic tags are bound, none of them is the fixed
  tag of a first-party feature, and at most 224 features are bound: an incoming datagram is
  dispatched to at most one feature.
\<close>

theorem tag_registry_bijection:
  "let g = foldl tag_step tag_registry_new ops in
     (tag_for g f = Some t \<longleftrightarrow> feature_for g t = Some f) \<and>
     dom (feature_for g) \<subseteq> {DYNAMIC_TAG_START .. DYNAMIC_TAG_END} - dom feature_for_fixed_tag \<and>
     bound_count g \<le> 224"
proof -
  define g where "g = foldl tag_step tag_registry_new ops"
  have inv: "tag_inv g" unfolding g_def by (rule tags.inv_reachable)
  have "dom (feature_for g) \<subseteq> set dynamic_tags"
    using tag_invD(3,4) [OF inv] by (auto simp: feature_for_def)
  then have "dom (feature_for g) \<subseteq> {DYNAMIC_TAG_START .. DYNAMIC_TAG_END} - dom feature_for_fixed_tag"
    using dynamic_tags_range by (rule subset_trans)
  moreover have "bound_count g \<le> 224" by (rule tag_inv_count_le [OF inv])
  moreover have "tag_for g f = Some t \<longleftrightarrow> feature_for g t = Some f"
    using inv by (simp add: tag_inv_def tag_for_def feature_for_def)
  ultimately show ?thesis unfolding g_def [symmetric] Let_def by blast
qed

lemma tag_bind_fresh:
  assumes inv: "tag_inv g" and f: "tag_for g f = None"
    and t: "find (\<lambda>t. t \<notin> set (in_use g)) dynamic_tags = Some t"
  shows "feature_for g t = None" "bound_count g < 224" "t \<in> {DYNAMIC_TAG_START .. DYNAMIC_TAG_END}"
    "{DYNAMIC_TAG_START ..< t} \<subseteq> dom (feature_for g)"
proof -
  have used: "t \<in> set (in_use g) \<longleftrightarrow> feature_for g t \<noteq> None" for t
    using tag_invD(3) [OF inv] by (auto simp: feature_for_def)
  have t': "t \<notin> set (in_use g)" "t \<in> set dynamic_tags" using find_freshD [OF t] by auto
  then have "bound_count g \<noteq> 224" using tag_inv_full_iff [OF inv] by blast
  then show "bound_count g < 224" using tag_inv_count_le [OF inv] by simp
  show "feature_for g t = None" "t \<in> {DYNAMIC_TAG_START .. DYNAMIC_TAG_END}"
    using t' used by (auto simp: set_dynamic_tags)
  show "{DYNAMIC_TAG_START ..< t} \<subseteq> dom (feature_for g)"
    using find_first_smallest [OF sorted_dynamic_tags t] t'(2) used by (auto simp: set_dynamic_tags)
qed

lemma tag_bind_inv_spec:
  assumes inv: "tag_inv g"
  shows "case tag_bind g f of
      (Inl e, g') \<Rightarrow> g' = g \<and>
        (if tag_for g f \<noteq> None then e = AlreadyBound f else e = Exhausted \<and> bound_count g = 224)
    | (Inr t, g') \<Rightarrow> tag_for g f = None \<and> feature_for g t = None \<and> bound_count g < 224 \<and>
        t \<in> {DYNAMIC_TAG_START .. DYNAMIC_TAG_END} \<and>
        {DYNAMIC_TAG_START ..< t} \<subseteq> dom (feature_for g) \<and>
        tag_for g' = (tag_for g)(f \<mapsto> t) \<and> feature_for g' = (feature_for g)(t \<mapsto> f)"
proof (cases "tag_for g f")
  case (Some t)
  then show ?thesis by (simp add: tag_bind_def tag_for_def coll_simps)
next
  case f: None
  show ?thesis
  proof (cases "find (\<lambda>t. t \<notin> set (in_use g)) dynamic_tags")
    case None
    then have "bound_count g = 224"
      using tag_inv_full_iff [OF inv] by (simp add: find_None_iff_subset)
    with f None show ?thesis by (simp add: tag_bind_def tag_for_def coll_simps)
  next
    case (Some t)
    with f tag_bind_fresh [OF inv f Some] show ?thesis
      by (simp add: tag_bind_def tag_for_def feature_for_def fun_eq_iff coll_simps)
  qed
qed

text \<open>
  \<open>bind\<close> gives an unbound feature the smallest dynamic tag that is not in use and routes the
  tag to the feature, leaving every other binding alone; it fails with \<open>AlreadyBound\<close> exactly for
  a bound feature and with \<open>Exhausted\<close> exactly when all 224 dynamic tags are bound.
\<close>

theorem tag_bind_spec:
  "let g = foldl tag_step tag_registry_new ops in
   case tag_bind g f of
      (Inl e, g') \<Rightarrow> g' = g \<and>
        (if tag_for g f \<noteq> None then e = AlreadyBound f else e = Exhausted \<and> bound_count g = 224)
    | (Inr t, g') \<Rightarrow> tag_for g f = None \<and> feature_for g t = None \<and> bound_count g < 224 \<and>
        t \<in> {DYNAMIC_TAG_START .. DYNAMIC_TAG_END} \<and>
        {DYNAMIC_TAG_START ..< t} \<subseteq> dom (feature_for g) \<and>
        tag_for g' = (tag_for g)(f \<mapsto> t) \<and> feature_for g' = (feature_for g)(t \<mapsto> f)"
  unfolding Let_def by (intro tag_bind_inv_spec tags.inv_reachable)

end
