(* ===== verification/Replay_Guard.thy ===== *)
theory Replay_Guard
  imports Prelude
begin

section \<open>The replay guard (\<open>replay.rs\<close>)\<close>

text \<open>
  The sliding-window guard that every inbound signaling path consults after the signature and
  freshness checks. Per sender it remembers the keys of the accepted signatures with the instant
  of their acceptance. Instants and durations are seconds; \<open>duration_since\<close> saturates at zero.
  The contract is stated as the locale \<open>replay_filter\<close>, which gives "no message is accepted twice
  inside the window" for every interleaving of checks and disconnects.
\<close>

definition DEFAULT_REPLAY_WINDOW_SECS :: real where "DEFAULT_REPLAY_WINDOW_SECS = 300"
definition MAX_ENTRIES_PER_SENDER :: nat where "MAX_ENTRIES_PER_SENDER = 16384"

text \<open>The argument of \<open>new\<close> is an \<open>f64\<close>, of which the code asks whether it is finite.\<close>

datatype f64_arg = Finite real | NonFinite

type_synonym sig_key_t = bytes
type_synonym sender_window = "(sig_key_t, real) hmap"

definition sig_key :: "bytes \<Rightarrow> sig_key_t" where
  "sig_key signature =
     (let n = min (length signature) 16 in take n signature @ replicate (16 - n) 0)"

definition duration_since :: "real \<Rightarrow> real \<Rightarrow> real" where
  "duration_since now earlier = max 0 (now - earlier)"

definition prune :: "sender_window \<Rightarrow> real \<Rightarrow> real \<Rightarrow> sender_window" where
  "prune seen now window = hm_retain (\<lambda>_ first_seen. duration_since now first_seen \<le> window) seen"

record replay_guard =
  windows :: "(string, sender_window) hmap"
  window :: real

definition replay_new :: "f64_arg \<Rightarrow> replay_guard" where
  "replay_new window_secs =
     \<lparr>windows = [],
      window = (case window_secs of
          Finite r \<Rightarrow> if r > 0 then r else DEFAULT_REPLAY_WINDOW_SECS
        | NonFinite \<Rightarrow> DEFAULT_REPLAY_WINDOW_SECS)\<rparr>"

definition check_and_record_at ::
  "replay_guard \<Rightarrow> string \<Rightarrow> bytes \<Rightarrow> real \<Rightarrow> bool \<times> replay_guard" where
  "check_and_record_at g sender signature now =
     (if signature = [] then (False, g)
      else
        let key = sig_key signature;
            win = (case hm_get (windows g) sender of Some w \<Rightarrow> w | None \<Rightarrow> []);
            win = prune win now (window g)
        in if hm_contains win key
           then (False, g\<lparr>windows := hm_insert sender win (windows g)\<rparr>)
           else if length win \<ge> MAX_ENTRIES_PER_SENDER
           then (False, g\<lparr>windows := hm_insert sender win (windows g)\<rparr>)
           else (True, g\<lparr>windows := hm_insert sender (hm_insert key now win) (windows g)\<rparr>))"

definition forget_peer :: "replay_guard \<Rightarrow> string \<Rightarrow> replay_guard" where
  "forget_peer g sender = g\<lparr>windows := hm_remove sender (windows g)\<rparr>"

definition tracked_senders :: "replay_guard \<Rightarrow> nat" where
  "tracked_senders g = length (windows g)"

datatype replay_op = CheckOp string bytes real | ForgetOp string

fun replay_step :: "replay_guard \<Rightarrow> replay_op \<Rightarrow> replay_guard" where
  "replay_step g (CheckOp s sig t) = snd (check_and_record_at g s sig t)"
| "replay_step g (ForgetOp s) = forget_peer g s"

fun replay_accepts :: "replay_guard \<Rightarrow> replay_op \<Rightarrow> bool" where
  "replay_accepts g (CheckOp s sig t) = fst (check_and_record_at g s sig t)"
| "replay_accepts g (ForgetOp s) = False"

text \<open>The accept decision of every operation of a run.\<close>

fun replay_trace :: "replay_guard \<Rightarrow> replay_op list \<Rightarrow> (replay_op \<times> bool) list" where
  "replay_trace g [] = []"
| "replay_trace g (e # es) = (e, replay_accepts g e) # replay_trace (replay_step g e) es"

subsection \<open>Memory is bounded\<close>

definition replay_inv :: "replay_guard \<Rightarrow> bool" where
  "replay_inv g \<longleftrightarrow> hm_wf (windows g) \<and> window g > 0 \<and>
     (\<forall>s w. hm_get (windows g) s = Some w \<longrightarrow> hm_wf w \<and> length w \<le> MAX_ENTRIES_PER_SENDER)"

lemma prune_wf: "hm_wf w \<Longrightarrow> hm_wf (prune w now d)"
  by (simp add: prune_def hm_wf_retain)

lemma length_prune: "length (prune w now d) \<le> length w"
  by (simp add: prune_def length_hm_retain_le)

lemma hm_get_prune:
  "hm_wf w \<Longrightarrow> hm_get (prune w now d) k =
     (case hm_get w k of Some t \<Rightarrow> if duration_since now t \<le> d then Some t else None | None \<Rightarrow> None)"
  by (simp add: prune_def coll_simps)

lemma replay_inv_insert:
  "replay_inv g \<Longrightarrow> hm_wf w \<Longrightarrow> length w \<le> MAX_ENTRIES_PER_SENDER \<Longrightarrow>
     replay_inv (g\<lparr>windows := hm_insert s w (windows g)\<rparr>)"
  by (auto simp: replay_inv_def coll_simps intro: wf_intros)

lemma check_inv:
  assumes inv: "replay_inv g"
  shows "replay_inv (snd (check_and_record_at g s sig t))"
proof -
  define w where "w = (case hm_get (windows g) s of Some w \<Rightarrow> w | None \<Rightarrow> [])"
  define p where "p = prune w t (window g)"
  have "hm_wf w" "length w \<le> MAX_ENTRIES_PER_SENDER"
    using inv by (auto simp: w_def replay_inv_def split: option.splits)
  then have p: "hm_wf p" "length p \<le> MAX_ENTRIES_PER_SENDER"
    using length_prune [of w t "window g"] by (auto simp: p_def prune_wf)
  have "length (hm_insert (sig_key sig) t p) \<le> MAX_ENTRIES_PER_SENDER"
    if "\<not> length p \<ge> MAX_ENTRIES_PER_SENDER"
    using that length_hm_insert_le [of "sig_key sig" t p] by simp
  then show ?thesis
    using inv p unfolding check_and_record_at_def w_def [symmetric] p_def [symmetric] Let_def
    by (auto intro!: replay_inv_insert intro: wf_intros)
qed

lemma forget_inv: "replay_inv g \<Longrightarrow> replay_inv (forget_peer g s)"
  by (auto simp: replay_inv_def forget_peer_def coll_simps intro: wf_intros)

interpretation replay: invariant_system "replay_new ws" replay_step replay_inv for ws
proof
  show "replay_inv (replay_new ws)"
    by (auto simp: replay_inv_def replay_new_def DEFAULT_REPLAY_WINDOW_SECS_def split: f64_arg.splits)
  fix s e
  assume "replay_inv s"
  then show "replay_inv (replay_step s e)"
    by (cases e) (simp_all add: check_inv forget_inv)
qed

lemma window_step [simp]: "window (replay_step g e) = window g"
  by (cases e) (auto simp: check_and_record_at_def forget_peer_def Let_def)

lemma window_run [simp]: "window (foldl replay_step g es) = window g"
  by (induction es arbitrary: g) auto

subsection \<open>The contract of a replay filter\<close>

locale replay_filter =
  fixes step :: "'s \<Rightarrow> 'e \<Rightarrow> 's"
    and accepts :: "'s \<Rightarrow> 'e \<Rightarrow> bool"
    and same :: "'e \<Rightarrow> 'e \<Rightarrow> bool"
    and keeps :: "'e \<Rightarrow> 'e \<Rightarrow> bool"
    and remembers :: "'s \<Rightarrow> 'e \<Rightarrow> bool"
    and good :: "'s \<Rightarrow> bool"
  assumes good_step: "good s \<Longrightarrow> good (step s e)"
    and accept_remembers: "good s \<Longrightarrow> accepts s e \<Longrightarrow> remembers (step s e) e"
    and remembers_keeps: "good s \<Longrightarrow> remembers s e \<Longrightarrow> keeps e e' \<Longrightarrow> remembers (step s e') e"
    and remembers_rejects: "good s \<Longrightarrow> remembers s e \<Longrightarrow> keeps e e' \<Longrightarrow> same e e' \<Longrightarrow> \<not> accepts s e'"
begin

fun trace :: "'s \<Rightarrow> 'e list \<Rightarrow> ('e \<times> bool) list" where
  "trace s [] = []"
| "trace s (e # es) = (e, accepts s e) # trace (step s e) es"

lemma remembered_never_accepted:
  "good s \<Longrightarrow> remembers s e \<Longrightarrow> \<forall>e' \<in> set es. keeps e e' \<Longrightarrow>
     (e', b) \<in> set (trace s es) \<Longrightarrow> same e e' \<Longrightarrow> \<not> b"
proof (induction es arbitrary: s)
  case Nil
  then show ?case by simp
next
  case (Cons x es)
  have "good (step s x)" "remembers (step s x) e"
    using Cons.prems by (auto intro: good_step remembers_keeps)
  then show ?case
    using Cons.prems Cons.IH [of "step s x"] remembers_rejects [of s e x] by auto
qed

lemma no_double_accept:
  assumes "good s" "accepts s e" "\<forall>e' \<in> set es. keeps e e'"
    "(e', b) \<in> set (trace (step s e) es)" "same e e'"
  shows "\<not> b"
  using assms by (intro remembered_never_accepted [of "step s e" e es e']) (auto intro: good_step accept_remembers)

end

text \<open>
  \<open>replay_same\<close> relates two checks of one sender whose signatures have the same key, and
  \<open>replay_keeps w\<close> says that the second operation does not happen later than the window after the
  first and does not forget its sender.
\<close>

fun replay_same :: "replay_op \<Rightarrow> replay_op \<Rightarrow> bool" where
  "replay_same (CheckOp s sig t) (CheckOp s' sig' t') \<longleftrightarrow> s = s' \<and> sig_key sig = sig_key sig'"
| "replay_same _ _ \<longleftrightarrow> False"

fun replay_keeps :: "real \<Rightarrow> replay_op \<Rightarrow> replay_op \<Rightarrow> bool" where
  "replay_keeps w (CheckOp s sig t) (CheckOp s' sig' t') \<longleftrightarrow> t' - t \<le> w"
| "replay_keeps w (CheckOp s sig t) (ForgetOp s') \<longleftrightarrow> s \<noteq> s'"
| "replay_keeps w (ForgetOp s) _ \<longleftrightarrow> True"

fun replay_remembers :: "replay_guard \<Rightarrow> replay_op \<Rightarrow> bool" where
  "replay_remembers g (CheckOp s sig t) \<longleftrightarrow>
     (\<exists>win t'. hm_get (windows g) s = Some win \<and> hm_get win (sig_key sig) = Some t' \<and> t \<le> t')"
| "replay_remembers g (ForgetOp s) \<longleftrightarrow> True"

lemma check_remembers:
  "fst (check_and_record_at g s sig t) \<Longrightarrow>
     replay_remembers (snd (check_and_record_at g s sig t)) (CheckOp s sig t)"
  by (auto simp: check_and_record_at_def Let_def coll_simps split: if_splits)

lemma check_keeps:
  assumes inv: "replay_inv g" and rem: "replay_remembers g (CheckOp s sig t)"
    and t': "t' - t \<le> window g"
  shows "replay_remembers (snd (check_and_record_at g s' sig' t')) (CheckOp s sig t)"
proof (cases "s' = s \<and> sig' \<noteq> []")
  case True
  from rem obtain win u where win: "hm_get (windows g) s = Some win"
    and u: "hm_get win (sig_key sig) = Some u" "t \<le> u" by auto
  have "hm_wf win" using inv win by (auto simp: replay_inv_def)
  moreover have "duration_since t' u \<le> window g"
    using t' u(2) inv by (auto simp: duration_since_def replay_inv_def)
  ultimately have "hm_get (prune win t' (window g)) (sig_key sig) = Some u"
    using u(1) by (simp add: hm_get_prune)
  then show ?thesis
    using True win u by (auto simp: check_and_record_at_def Let_def coll_simps)
next
  case False
  with rem show ?thesis by (auto simp: check_and_record_at_def Let_def coll_simps)
qed

lemma forget_keeps:
  "s' \<noteq> s \<Longrightarrow> replay_remembers g (CheckOp s sig t) \<Longrightarrow>
     replay_remembers (g\<lparr>windows := hm_remove s' (windows g)\<rparr>) (CheckOp s sig t)"
  by (simp add: coll_simps)

lemma check_rejects:
  assumes inv: "replay_inv g" and rem: "replay_remembers g (CheckOp s sig t)"
    and t': "t' - t \<le> window g" and key: "sig_key sig' = sig_key sig"
  shows "\<not> fst (check_and_record_at g s sig' t')"
proof -
  from rem obtain win u where win: "hm_get (windows g) s = Some win"
    and u: "hm_get win (sig_key sig) = Some u" "t \<le> u" by auto
  have "hm_wf win" using inv win by (auto simp: replay_inv_def)
  moreover have "duration_since t' u \<le> window g"
    using t' u(2) inv by (auto simp: duration_since_def replay_inv_def)
  ultimately have "hm_contains (prune win t' (window g)) (sig_key sig)"
    using u(1) by (simp add: hm_get_prune coll_simps)
  then show ?thesis using win key by (simp add: check_and_record_at_def Let_def)
qed

interpretation rf: replay_filter replay_step replay_accepts replay_same "replay_keeps w"
    replay_remembers "\<lambda>g. replay_inv g \<and> window g = w" for w
proof unfold_locales
  fix s e
  assume "replay_inv s \<and> window s = w"
  then show "replay_inv (replay_step s e) \<and> window (replay_step s e) = w"
    using replay.inv_step by simp
next
  fix s e
  assume "replay_inv s \<and> window s = w" "replay_accepts s e"
  then show "replay_remembers (replay_step s e) e"
    by (cases e) (simp_all add: check_remembers del: replay_remembers.simps)
next
  fix s e e'
  assume "replay_inv s \<and> window s = w" "replay_remembers s e" "replay_keeps w e e'"
  then show "replay_remembers (replay_step s e') e"
    by (cases e; cases e')
      (auto simp: forget_peer_def coll_simps simp del: replay_remembers.simps(1)
        intro: check_keeps forget_keeps)
next
  fix s e e'
  assume "replay_inv s \<and> window s = w" "replay_remembers s e" "replay_keeps w e e'" "replay_same e e'"
  then show "\<not> replay_accepts s e'"
    by (cases e; cases e') (auto simp del: replay_remembers.simps dest: check_rejects)
qed

lemma rf_trace: "rf.trace g es = replay_trace g es"
  by (induction es arbitrary: g) auto

subsection \<open>What the guard promises\<close>

text \<open>
  C22: a message that the guard accepted is never accepted again: in any run that follows, as long
  as its sender is not forgotten and no check is later than the window after the acceptance, every
  check of the same sender with the same signature is rejected, whatever else is checked in
  between and in whatever order the clock readings arrive.
\<close>

theorem replay_no_double_accept:
  assumes g: "g = foldl replay_step (replay_new ws) pre"
    and acc: "fst (check_and_record_at g s sig t)"
    and later: "\<forall>e \<in> set es. replay_keeps (window g) (CheckOp s sig t) e"
    and e: "(CheckOp s sig t', b) \<in> set (replay_trace (snd (check_and_record_at g s sig t)) es)"
  shows "\<not> b"
proof -
  have "replay_inv g \<and> window g = window g"
    unfolding g by (auto intro: replay.inv_reachable)
  moreover have "replay_accepts g (CheckOp s sig t)" using acc by simp
  moreover have "(CheckOp s sig t', b) \<in> set (rf.trace (replay_step g (CheckOp s sig t)) es)"
    using e by (simp add: rf_trace)
  ultimately show ?thesis
    using later by (intro rf.no_double_accept [of g "window g" "CheckOp s sig t" es]) auto
qed

theorem replay_no_double_accept_witness:
  "let g = replay_new (Finite 10); g1 = snd (check_and_record_at g ''p'' [1] 0);
       g2 = snd (check_and_record_at g1 ''q'' [1] 2) in
     fst (check_and_record_at g ''p'' [1] 0) \<and> fst (check_and_record_at g1 ''q'' [1] 2) \<and>
     \<not> fst (check_and_record_at g2 ''p'' [1] 9)"
proof -
  define g where "g = replay_new (Finite 10)"
  define g1 where "g1 = snd (check_and_record_at g ''p'' [1] 0)"
  define g2 where "g2 = snd (check_and_record_at g1 ''q'' [1] 2)"
  have "fst (check_and_record_at g ''p'' [1] 0)" "fst (check_and_record_at g1 ''q'' [1] 2)"
    unfolding g1_def g_def by code_simp+
  moreover have "window g = 10" by (simp add: g_def replay_new_def)
  ultimately show ?thesis
    using replay_no_double_accept [of g "Finite 10" "[]" "''p''" "[1]" 0
        "[CheckOp ''q'' [1] 2, CheckOp ''p'' [1] 9]" 9 "fst (check_and_record_at g2 ''p'' [1] 9)"]
    by (simp add: g_def [symmetric] g1_def [symmetric] g2_def [symmetric] Let_def)
qed

text \<open>
  The guard's memory is bounded: in every reachable state each sender has at most 16384
  remembered signatures, and the guard fails closed at the cap, so it never drops a live entry to
  make room.
\<close>

theorem replay_memory_bounded:
  "let g = foldl replay_step (replay_new ws) es in
     list_all (\<lambda>p. length (snd p) \<le> MAX_ENTRIES_PER_SENDER) (windows g) \<and> window g > 0"
proof -
  have "replay_inv (foldl replay_step (replay_new ws) es)" by (rule replay.inv_reachable)
  then show ?thesis
    by (auto simp: Let_def replay_inv_def list_all_iff hm_get_in)
qed

end
