(* ===== verification/Quota.thy ===== *)
theory Quota
  imports Prelude
begin

section \<open>Token-bucket quotas (\<open>quota.rs\<close>)\<close>

text \<open>
  Every (feature, peer) pair has two token buckets, one for bytes and one for datagrams, refilled
  in proportion to elapsed time and capped at one second's worth. Rates and token counts are
  \<open>f64\<close> in the code and exact reals here; \<open>Instant::now()\<close> is the argument \<open>now\<close>, and the
  difference of two instants saturates at zero. The free-form JSON parameters of a descriptor are
  a function from a key to the number stored under it (\<open>None\<close>: absent or not a number).
\<close>

type_synonym json_params = "string \<Rightarrow> real option"

definition DEFAULT_BYTES_PER_SEC :: real where "DEFAULT_BYTES_PER_SEC = 64 * 1024"
definition DEFAULT_DATAGRAMS_PER_SEC :: real where "DEFAULT_DATAGRAMS_PER_SEC = 256"

record QuotaParams =
  bytes_per_sec :: real
  datagrams_per_sec :: real

definition quota_read ::
  "json_params \<Rightarrow> string \<Rightarrow> string \<Rightarrow> real \<Rightarrow> real \<Rightarrow> QuotaParams" where
  "quota_read params bytes_key datagrams_key default_bytes default_datagrams =
     (let raw_bytes = (case params bytes_key of Some v \<Rightarrow> v | None \<Rightarrow> default_bytes);
          raw_dg = (case params datagrams_key of Some v \<Rightarrow> v | None \<Rightarrow> default_datagrams)
      in \<lparr>bytes_per_sec = (if raw_bytes = 0 then 0 else max raw_bytes 1),
          datagrams_per_sec = (if raw_dg = 0 then 0 else max raw_dg 1)\<rparr>)"

definition from_params :: "json_params \<Rightarrow> QuotaParams" where
  "from_params params = quota_read params ''quota_bytes_per_sec'' ''quota_datagrams_per_sec''
     DEFAULT_BYTES_PER_SEC DEFAULT_DATAGRAMS_PER_SEC"

definition from_params_outbound :: "json_params \<Rightarrow> QuotaParams" where
  "from_params_outbound params =
     (let inbound = from_params params
      in quota_read params ''quota_bytes_per_sec_outbound'' ''quota_datagrams_per_sec_outbound''
           (bytes_per_sec inbound) (datagrams_per_sec inbound))"

definition is_unbounded :: "QuotaParams \<Rightarrow> bool" where
  "is_unbounded p \<longleftrightarrow> bytes_per_sec p = 0 \<and> datagrams_per_sec p = 0"

record QuotaState =
  bytes_tokens :: real
  datagram_tokens :: real
  last_refill :: real
  qparams :: QuotaParams

definition quota_state_new :: "QuotaParams \<Rightarrow> real \<Rightarrow> QuotaState" where
  "quota_state_new params now =
     \<lparr>bytes_tokens = bytes_per_sec params, datagram_tokens = datagrams_per_sec params,
      last_refill = now, qparams = params\<rparr>"

definition refill :: "QuotaState \<Rightarrow> real \<Rightarrow> QuotaState" where
  "refill s now =
     (let elapsed = max 0 (now - last_refill s);
          s = s\<lparr>last_refill := now\<rparr>;
          br = bytes_per_sec (qparams s);
          dr = datagrams_per_sec (qparams s);
          s = (if br > 0 then s\<lparr>bytes_tokens := min (bytes_tokens s + br * elapsed) br\<rparr> else s)
      in (if dr > 0 then s\<lparr>datagram_tokens := min (datagram_tokens s + dr * elapsed) dr\<rparr> else s))"

definition state_try_consume :: "QuotaState \<Rightarrow> nat \<Rightarrow> real \<Rightarrow> bool \<times> QuotaState" where
  "state_try_consume s byte_count now =
     (if is_unbounded (qparams s) then (True, s)
      else
        let s = refill s now;
            br = bytes_per_sec (qparams s);
            dr = datagrams_per_sec (qparams s);
            bytes_ok = (br = 0 \<or> bytes_tokens s \<ge> real byte_count);
            dg_ok = (dr = 0 \<or> datagram_tokens s \<ge> 1)
        in if bytes_ok \<and> dg_ok
           then let s = (if br > 0 then s\<lparr>bytes_tokens := bytes_tokens s - real byte_count\<rparr> else s);
                    s = (if dr > 0 then s\<lparr>datagram_tokens := datagram_tokens s - 1\<rparr> else s)
                in (True, s)
           else (False, s))"

definition state_try_consume_datagram :: "QuotaState \<Rightarrow> real \<Rightarrow> bool \<times> QuotaState" where
  "state_try_consume_datagram s now =
     (if datagrams_per_sec (qparams s) = 0 then (True, s)
      else
        let s = refill s now
        in if datagram_tokens s \<ge> 1
           then (True, s\<lparr>datagram_tokens := datagram_tokens s - 1\<rparr>)
           else (False, s))"

subsection \<open>The registry of buckets\<close>

type_synonym QuotaRegistry = "(string \<times> string, QuotaState) hmap"

definition quota_entry ::
  "QuotaRegistry \<Rightarrow> string \<Rightarrow> string \<Rightarrow> QuotaParams \<Rightarrow> real \<Rightarrow> QuotaState" where
  "quota_entry g feature_id peer_id params now =
     (case hm_get g (feature_id, peer_id) of
        Some s \<Rightarrow> s | None \<Rightarrow> quota_state_new params now)"

definition try_consume ::
  "QuotaRegistry \<Rightarrow> string \<Rightarrow> string \<Rightarrow> nat \<Rightarrow> QuotaParams \<Rightarrow> real \<Rightarrow> bool \<times> QuotaRegistry" where
  "try_consume g feature_id peer_id byte_count params now =
     (let (ok, s) = state_try_consume (quota_entry g feature_id peer_id params now) byte_count now
      in (ok, hm_insert (feature_id, peer_id) s g))"

definition try_consume_datagram ::
  "QuotaRegistry \<Rightarrow> string \<Rightarrow> string \<Rightarrow> QuotaParams \<Rightarrow> real \<Rightarrow> bool \<times> QuotaRegistry" where
  "try_consume_datagram g feature_id peer_id params now =
     (let (ok, s) = state_try_consume_datagram (quota_entry g feature_id peer_id params now) now
      in (ok, hm_insert (feature_id, peer_id) s g))"

definition clear_peer :: "QuotaRegistry \<Rightarrow> string \<Rightarrow> QuotaRegistry" where
  "clear_peer g peer_id = hm_retain (\<lambda>k _. snd k \<noteq> peer_id) g"

subsection \<open>A bucket never over-spends\<close>

text \<open>
  The abstract contract of one axis of a bucket: a level, a clock and a rate, such that a step may
  spend what is in the bucket and what flows in while its clock advances. Whatever the sequence of
  requests, what has been spent is then bounded by the initial level and the elapsed time.
\<close>

locale token_bucket =
  fixes step :: "'s \<Rightarrow> 'e \<Rightarrow> 's" and spent :: "'s \<Rightarrow> 'e \<Rightarrow> real"
    and level :: "'s \<Rightarrow> real" and clock :: "'s \<Rightarrow> real" and stamp :: "'e \<Rightarrow> real"
    and good :: "'s \<Rightarrow> bool" and admissible :: "'e \<Rightarrow> bool" and rate :: real
  assumes good_step: "good s \<Longrightarrow> admissible e \<Longrightarrow> good (step s e)"
    and level_nonneg: "good s \<Longrightarrow> 0 \<le> level s"
    and clock_step: "good s \<Longrightarrow> admissible e \<Longrightarrow> clock s \<le> stamp e \<Longrightarrow>
      clock s \<le> clock (step s e) \<and> clock (step s e) \<le> stamp e"
    and conservation: "good s \<Longrightarrow> admissible e \<Longrightarrow> clock s \<le> stamp e \<Longrightarrow>
      level (step s e) + spent s e \<le> level s + rate * (clock (step s e) - clock s)"
    and rate_nonneg: "0 \<le> rate"
begin

fun total :: "'s \<Rightarrow> 'e list \<Rightarrow> real" where
  "total s [] = 0"
| "total s (e # es) = spent s e + total (step s e) es"

lemma total_bound:
  assumes "good s" "list_all admissible es" "sorted (map stamp es)"
    "\<forall>e \<in> set es. clock s \<le> stamp e \<and> stamp e \<le> t" "clock s \<le> t"
  shows "total s es \<le> level s + rate * (t - clock s)"
  using assms
proof (induction es arbitrary: s)
  case Nil
  then show ?case using level_nonneg rate_nonneg by (simp add: mult_nonneg_nonneg)
next
  case (Cons e es)
  let ?s = "step s e"
  have c: "clock s \<le> clock ?s" "clock ?s \<le> stamp e"
    using clock_step [of s e] Cons.prems by auto
  have "total ?s es \<le> level ?s + rate * (t - clock ?s)"
  proof (rule Cons.IH)
    show "good ?s" using Cons.prems by (auto intro: good_step)
    show "list_all admissible es" "sorted (map stamp es)" using Cons.prems by simp_all
    show "clock ?s \<le> t" using c Cons.prems by auto
    show "\<forall>e' \<in> set es. clock ?s \<le> stamp e' \<and> stamp e' \<le> t"
      using c Cons.prems by fastforce
  qed
  moreover have "level ?s + spent s e \<le> level s + rate * (clock ?s - clock s)"
    using Cons.prems by (intro conservation) auto
  ultimately show ?case by (simp add: algebra_simps)
qed

end

subsection \<open>Invariant of one bucket\<close>

definition quota_inv :: "QuotaParams \<Rightarrow> QuotaState \<Rightarrow> bool" where
  "quota_inv p s \<longleftrightarrow> qparams s = p \<and>
     0 \<le> bytes_tokens s \<and> bytes_tokens s \<le> bytes_per_sec p \<and>
     0 \<le> datagram_tokens s \<and> datagram_tokens s \<le> datagrams_per_sec p"

lemma refill_simps [simp]:
  "qparams (refill s now) = qparams s"
  "last_refill (refill s now) = now"
  "bytes_tokens (refill s now) =
     (let r = bytes_per_sec (qparams s) in
      if r > 0 then min (bytes_tokens s + r * max 0 (now - last_refill s)) r else bytes_tokens s)"
  "datagram_tokens (refill s now) =
     (let r = datagrams_per_sec (qparams s) in
      if r > 0 then min (datagram_tokens s + r * max 0 (now - last_refill s)) r else datagram_tokens s)"
  by (auto simp: refill_def Let_def)

lemmas refill_frame = refill_simps(1,2)
lemmas consume_defs = state_try_consume_def state_try_consume_datagram_def is_unbounded_def Let_def

lemma refill_inv: "quota_inv p s \<Longrightarrow> quota_inv p (refill s now)"
  by (auto simp: quota_inv_def Let_def min_def mult_nonneg_nonneg)

lemma new_inv:
  "0 \<le> bytes_per_sec p \<Longrightarrow> 0 \<le> datagrams_per_sec p \<Longrightarrow> quota_inv p (quota_state_new p now)"
  by (simp add: quota_inv_def quota_state_new_def)

lemma consume_inv: "quota_inv p s \<Longrightarrow> quota_inv p (snd (state_try_consume s n t))"
  using refill_inv [of p s t]
  by (auto simp: quota_inv_def consume_defs simp del: refill_simps(3,4))

lemma consume_datagram_inv: "quota_inv p s \<Longrightarrow> quota_inv p (snd (state_try_consume_datagram s t))"
  using refill_inv [of p s t]
  by (auto simp: quota_inv_def consume_defs simp del: refill_simps(3,4))

lemma refill_bytes:
  "bytes_per_sec (qparams s) > 0 \<Longrightarrow> last_refill s \<le> t \<Longrightarrow>
     bytes_tokens (refill s t) \<le> bytes_tokens s + bytes_per_sec (qparams s) * (t - last_refill s)"
  by (simp add: Let_def)

lemma refill_datagrams:
  "datagrams_per_sec (qparams s) > 0 \<Longrightarrow> last_refill s \<le> t \<Longrightarrow>
     datagram_tokens (refill s t) \<le> datagram_tokens s + datagrams_per_sec (qparams s) * (t - last_refill s)"
  by (simp add: Let_def)

lemma consume_conserves_bytes:
  fixes n :: nat
  assumes "bytes_per_sec (qparams s) > 0" "last_refill s \<le> t"
  defines "s' \<equiv> snd (state_try_consume s n t)"
  shows "bytes_tokens s' + (if fst (state_try_consume s n t) then real n else 0) \<le>
    bytes_tokens s + bytes_per_sec (qparams s) * (last_refill s' - last_refill s)"
  using assms(1,2) refill_bytes [OF assms(1,2)]
  by (auto simp: s'_def consume_defs simp del: refill_simps(3,4))

lemma consume_conserves_datagrams:
  fixes n :: nat
  assumes "datagrams_per_sec (qparams s) > 0" "last_refill s \<le> t"
  defines "s' \<equiv> snd (state_try_consume s n t)"
  shows "datagram_tokens s' + (if fst (state_try_consume s n t) then 1 else 0) \<le>
    datagram_tokens s + datagrams_per_sec (qparams s) * (last_refill s' - last_refill s)"
  using assms(1,2) refill_datagrams [OF assms(1,2)]
  by (auto simp: s'_def consume_defs simp del: refill_simps(3,4))

lemma datagram_conserves_bytes:
  assumes "bytes_per_sec (qparams s) > 0" "last_refill s \<le> t"
  defines "s' \<equiv> snd (state_try_consume_datagram s t)"
  shows "bytes_tokens s' \<le> bytes_tokens s + bytes_per_sec (qparams s) * (last_refill s' - last_refill s)"
  using assms(1,2) refill_bytes [OF assms(1,2)]
  by (auto simp: s'_def consume_defs simp del: refill_simps(3,4))

lemma datagram_conserves_datagrams:
  assumes "datagrams_per_sec (qparams s) > 0" "last_refill s \<le> t"
  defines "s' \<equiv> snd (state_try_consume_datagram s t)"
  shows "datagram_tokens s' + (if fst (state_try_consume_datagram s t) then 1 else 0) \<le>
    datagram_tokens s + datagrams_per_sec (qparams s) * (last_refill s' - last_refill s)"
  using assms(1,2) refill_datagrams [OF assms(1,2)]
  by (auto simp: s'_def consume_defs simp del: refill_simps(3,4))

lemma consume_clock:
  "last_refill s \<le> t \<Longrightarrow> last_refill s \<le> last_refill (snd (state_try_consume s n t)) \<and>
     last_refill (snd (state_try_consume s n t)) \<le> t"
  by (auto simp: consume_defs simp del: refill_simps(3,4))

lemma datagram_clock:
  "last_refill s \<le> t \<Longrightarrow> last_refill s \<le> last_refill (snd (state_try_consume_datagram s t)) \<and>
     last_refill (snd (state_try_consume_datagram s t)) \<le> t"
  by (auto simp: consume_defs simp del: refill_simps(3,4))

subsection \<open>Runs of the registry\<close>

text \<open>
  A run interleaves requests of any peers for any features with the clearing of peers; \<open>P\<close> gives
  the rates of each feature (the registry passes the rates of the feature's descriptor).
\<close>

datatype quota_op =
    Consume string string nat real
  | ConsumeDatagram string string real
  | ClearPeer string real

fun quota_step :: "(string \<Rightarrow> QuotaParams) \<Rightarrow> QuotaRegistry \<Rightarrow> quota_op \<Rightarrow> QuotaRegistry" where
  "quota_step P g (Consume f p n t) = snd (try_consume g f p n (P f) t)"
| "quota_step P g (ConsumeDatagram f p t) = snd (try_consume_datagram g f p (P f) t)"
| "quota_step P g (ClearPeer p t) = clear_peer g p"

fun quota_stamp :: "quota_op \<Rightarrow> real" where
  "quota_stamp (Consume f p n t) = t"
| "quota_stamp (ConsumeDatagram f p t) = t"
| "quota_stamp (ClearPeer p t) = t"

text \<open>The bytes and datagrams of pair \<open>k\<close> that an operation admits.\<close>

fun bytes_spent :: "(string \<Rightarrow> QuotaParams) \<Rightarrow> string \<times> string \<Rightarrow> QuotaRegistry \<Rightarrow> quota_op \<Rightarrow> real" where
  "bytes_spent P k g (Consume f p n t) =
     (if (f, p) = k \<and> fst (try_consume g f p n (P f) t) then real n else 0)"
| "bytes_spent P k g _ = 0"

fun datagrams_spent :: "(string \<Rightarrow> QuotaParams) \<Rightarrow> string \<times> string \<Rightarrow> QuotaRegistry \<Rightarrow> quota_op \<Rightarrow> real" where
  "datagrams_spent P k g (Consume f p n t) =
     (if (f, p) = k \<and> fst (try_consume g f p n (P f) t) then 1 else 0)"
| "datagrams_spent P k g (ConsumeDatagram f p t) =
     (if (f, p) = k \<and> fst (try_consume_datagram g f p (P f) t) then 1 else 0)"
| "datagrams_spent P k g (ClearPeer p t) = 0"

fun bytes_total :: "(string \<Rightarrow> QuotaParams) \<Rightarrow> string \<times> string \<Rightarrow> QuotaRegistry \<Rightarrow> quota_op list \<Rightarrow> real" where
  "bytes_total P k g [] = 0"
| "bytes_total P k g (e # es) = bytes_spent P k g e + bytes_total P k (quota_step P g e) es"

fun datagrams_total :: "(string \<Rightarrow> QuotaParams) \<Rightarrow> string \<times> string \<Rightarrow> QuotaRegistry \<Rightarrow> quota_op list \<Rightarrow> real" where
  "datagrams_total P k g [] = 0"
| "datagrams_total P k g (e # es) = datagrams_spent P k g e + datagrams_total P k (quota_step P g e) es"

fun keeps_peer :: "string \<Rightarrow> quota_op \<Rightarrow> bool" where
  "keeps_peer p (ClearPeer q t) \<longleftrightarrow> q \<noteq> p"
| "keeps_peer p _ \<longleftrightarrow> True"

definition key_inv :: "(string \<Rightarrow> QuotaParams) \<Rightarrow> string \<times> string \<Rightarrow> QuotaRegistry \<Rightarrow> bool" where
  "key_inv P k g \<longleftrightarrow> hm_wf g \<and> (case hm_get g k of Some s \<Rightarrow> quota_inv (P (fst k)) s | None \<Rightarrow> True)"

definition key_bucket :: "(string \<Rightarrow> QuotaParams) \<Rightarrow> string \<times> string \<Rightarrow> real \<Rightarrow> QuotaRegistry \<Rightarrow> QuotaState" where
  "key_bucket P k t0 g = quota_entry g (fst k) (snd k) (P (fst k)) t0"

lemma key_other:
  "(f, p) \<noteq> k \<Longrightarrow> hm_get (snd (try_consume g f p n q t)) k = hm_get g k"
  "(f, p) \<noteq> k \<Longrightarrow> hm_get (snd (try_consume_datagram g f p q t)) k = hm_get g k"
  "hm_wf g \<Longrightarrow> q' \<noteq> snd k \<Longrightarrow> hm_get (clear_peer g q') k = hm_get g k"
  by (auto simp: try_consume_def try_consume_datagram_def clear_peer_def coll_simps
      split: prod.splits option.splits)

lemma key_self:
  "hm_get (snd (try_consume g f p n q t)) (f, p) = Some (snd (state_try_consume (quota_entry g f p q t) n t))"
  "fst (try_consume g f p n q t) = fst (state_try_consume (quota_entry g f p q t) n t)"
  "hm_get (snd (try_consume_datagram g f p q t)) (f, p) =
     Some (snd (state_try_consume_datagram (quota_entry g f p q t) t))"
  "fst (try_consume_datagram g f p q t) = fst (state_try_consume_datagram (quota_entry g f p q t) t)"
  by (auto simp: try_consume_def try_consume_datagram_def coll_simps split: prod.splits)

lemma quota_step_wf: "hm_wf g \<Longrightarrow> hm_wf (quota_step P g e)"
  by (cases e) (auto simp: try_consume_def try_consume_datagram_def clear_peer_def
      intro: wf_intros split: prod.splits)

lemma quota_entry_inv:
  "key_inv P (f, p) g \<Longrightarrow> 0 \<le> bytes_per_sec (P f) \<Longrightarrow> 0 \<le> datagrams_per_sec (P f) \<Longrightarrow>
     quota_inv (P f) (quota_entry g f p (P f) t)"
  by (auto simp: key_inv_def quota_entry_def new_inv split: option.splits)

lemma key_inv_step:
  assumes "key_inv P k g" "keeps_peer (snd k) e"
    and "0 \<le> bytes_per_sec (P (fst k))" "0 \<le> datagrams_per_sec (P (fst k))"
  shows "key_inv P k (quota_step P g e)"
proof -
  have wf: "hm_wf (quota_step P g e)" using assms(1) by (simp add: key_inv_def quota_step_wf)
  obtain f p where k: "k = (f, p)" by (cases k)
  have inv: "quota_inv (P f) (quota_entry g f p (P f) t)" for t
    using assms k quota_entry_inv by simp
  show ?thesis
  proof (cases e)
    case (Consume f' p' n t)
    then show ?thesis
      using wf assms(1) key_other(1) [of f' p' k g n "P f'" t] consume_inv [OF inv [of t], where n = n and t = t]
      by (cases "(f', p') = k") (auto simp: key_inv_def k key_self)
  next
    case (ConsumeDatagram f' p' t)
    then show ?thesis
      using wf assms(1) key_other(2) [of f' p' k g "P f'" t] consume_datagram_inv [OF inv [of t], where t = t]
      by (cases "(f', p') = k") (auto simp: key_inv_def k key_self)
  next
    case (ClearPeer q t)
    then show ?thesis
      using wf assms(1,2) by (simp add: key_inv_def key_other(3))
  qed
qed

text \<open>
  The bucket of a pair seen from an instant \<open>t0\<close> before which nothing happened: a bucket that does
  not exist yet is a full one of that instant. The bucket that a request works on is the same one
  with a clock that may be later.
\<close>

lemma key_bucket_entry:
  assumes "last_refill (key_bucket P (f, p) t0 g) \<le> t" "t0 \<le> t"
  shows "bytes_tokens (quota_entry g f p (P f) t) = bytes_tokens (key_bucket P (f, p) t0 g)"
    "datagram_tokens (quota_entry g f p (P f) t) = datagram_tokens (key_bucket P (f, p) t0 g)"
    "last_refill (key_bucket P (f, p) t0 g) \<le> last_refill (quota_entry g f p (P f) t)"
    "last_refill (quota_entry g f p (P f) t) \<le> t"
  using assms by (auto simp: key_bucket_def quota_entry_def quota_state_new_def split: option.splits)

lemma key_bucket_step_self:
  "key_bucket P (f, p) t0 (quota_step P g (Consume f p n t)) =
     snd (state_try_consume (quota_entry g f p (P f) t) n t)"
  "key_bucket P (f, p) t0 (quota_step P g (ConsumeDatagram f p t)) =
     snd (state_try_consume_datagram (quota_entry g f p (P f) t) t)"
  by (simp_all add: key_bucket_def quota_entry_def [of "snd _"] key_self)

lemma key_bucket_step_other:
  "(f, p) \<noteq> k \<Longrightarrow> key_bucket P k t0 (quota_step P g (Consume f p n t)) = key_bucket P k t0 g"
  "(f, p) \<noteq> k \<Longrightarrow> key_bucket P k t0 (quota_step P g (ConsumeDatagram f p t)) = key_bucket P k t0 g"
  "hm_wf g \<Longrightarrow> q \<noteq> snd k \<Longrightarrow> key_bucket P k t0 (quota_step P g (ClearPeer q t)) = key_bucket P k t0 g"
  by (simp_all add: key_bucket_def quota_entry_def key_other)

lemma earlier_clock:
  fixes r x y A ls lb :: real
  assumes "A \<le> x + r * (y - ls)" "0 < r" "lb \<le> ls"
  shows "A \<le> x + r * (y - lb)"
proof -
  have "r * (y - ls) \<le> r * (y - lb)" using assms(2,3) by (intro mult_left_mono) auto
  with assms(1) show ?thesis by linarith
qed

text \<open>What one request of the pair itself does to its bucket.\<close>

lemma key_self_conserves:
  assumes inv: "key_inv P (f, p) g" and e: "e = Consume f p n t \<or> e = ConsumeDatagram f p t"
    and nonneg: "0 \<le> bytes_per_sec (P f)" "0 \<le> datagrams_per_sec (P f)"
    and t0: "t0 \<le> t" and clock: "last_refill (key_bucket P (f, p) t0 g) \<le> t"
  defines "b \<equiv> key_bucket P (f, p) t0 g" and "b' \<equiv> key_bucket P (f, p) t0 (quota_step P g e)"
  shows "last_refill b \<le> last_refill b' \<and> last_refill b' \<le> t" (is ?clock)
    and "0 < bytes_per_sec (P f) \<Longrightarrow> bytes_tokens b' + bytes_spent P (f, p) g e \<le>
      bytes_tokens b + bytes_per_sec (P f) * (last_refill b' - last_refill b)"
      (is "_ \<Longrightarrow> ?bytes")
    and "0 < datagrams_per_sec (P f) \<Longrightarrow> datagram_tokens b' + datagrams_spent P (f, p) g e \<le>
      datagram_tokens b + datagrams_per_sec (P f) * (last_refill b' - last_refill b)"
      (is "_ \<Longrightarrow> ?dgs")
proof -
  define s where "s = quota_entry g f p (P f) t"
  have q: "qparams s = P f"
    using quota_entry_inv [of P f p g t] inv nonneg by (simp add: s_def quota_inv_def)
  have s: "bytes_tokens s = bytes_tokens b" "datagram_tokens s = datagram_tokens b"
    "last_refill b \<le> last_refill s" "last_refill s \<le> t"
    using key_bucket_entry [OF clock t0] by (simp_all add: s_def b_def)
  note step = key_bucket_step_self [where P = P and f = f and p = p and t = t, folded s_def]
    key_self [where f = f and p = p and q = "P f" and t = t, folded s_def]
  have conserve: "0 < bytes_per_sec (P f) \<Longrightarrow> bytes_tokens b' + bytes_spent P (f, p) g e \<le>
      bytes_tokens b + bytes_per_sec (P f) * (last_refill b' - last_refill s)"
    "0 < datagrams_per_sec (P f) \<Longrightarrow> datagram_tokens b' + datagrams_spent P (f, p) g e \<le>
      datagram_tokens b + datagrams_per_sec (P f) * (last_refill b' - last_refill s)"
    using e consume_conserves_bytes [of s t n] consume_conserves_datagrams [of s t n]
      datagram_conserves_bytes [of s t] datagram_conserves_datagrams [of s t] s q
    by (auto simp: b'_def step simp flip: s_def simp del: quota_step.simps)
  show ?clock
    using e consume_clock [OF s(4), of n] datagram_clock [OF s(4)] s(3)
    by (auto simp: b'_def step simp flip: s_def simp del: quota_step.simps)
  show ?bytes if "0 < bytes_per_sec (P f)" using earlier_clock [OF conserve(1) _ s(3)] that by simp
  show ?dgs if "0 < datagrams_per_sec (P f)" using earlier_clock [OF conserve(2) _ s(3)] that by simp
qed

lemma key_step_conserves:
  assumes inv: "key_inv P k g" and keeps: "keeps_peer (snd k) e"
    and nonneg: "0 \<le> bytes_per_sec (P (fst k))" "0 \<le> datagrams_per_sec (P (fst k))"
    and t0: "t0 \<le> quota_stamp e" and clock: "last_refill (key_bucket P k t0 g) \<le> quota_stamp e"
  defines "b \<equiv> key_bucket P k t0 g" and "b' \<equiv> key_bucket P k t0 (quota_step P g e)"
  shows "last_refill b \<le> last_refill b' \<and> last_refill b' \<le> quota_stamp e" (is ?clock)
    and "0 < bytes_per_sec (P (fst k)) \<Longrightarrow> bytes_tokens b' + bytes_spent P k g e \<le>
      bytes_tokens b + bytes_per_sec (P (fst k)) * (last_refill b' - last_refill b)"
      (is "_ \<Longrightarrow> ?bytes")
    and "0 < datagrams_per_sec (P (fst k)) \<Longrightarrow> datagram_tokens b' + datagrams_spent P k g e \<le>
      datagram_tokens b + datagrams_per_sec (P (fst k)) * (last_refill b' - last_refill b)"
      (is "_ \<Longrightarrow> ?dgs")
proof -
  obtain f p where k: "k = (f, p)" by (cases k)
  have "(\<exists>n t. e = Consume f p n t \<or> e = ConsumeDatagram f p t) \<or>
      b' = b \<and> bytes_spent P k g e = 0 \<and> datagrams_spent P k g e = 0"
  proof (cases e)
    case (Consume f' p' n t)
    then show ?thesis using key_bucket_step_other(1) [of f' p' k]
      by (cases "(f', p') = k") (simp_all add: b_def b'_def k del: quota_step.simps)
  next
    case (ConsumeDatagram f' p' t)
    then show ?thesis using key_bucket_step_other(2) [of f' p' k]
      by (cases "(f', p') = k") (simp_all add: b_def b'_def k del: quota_step.simps)
  next
    case (ClearPeer q t)
    then show ?thesis using inv keeps key_bucket_step_other(3) [of g q k]
      by (simp add: b_def b'_def key_inv_def del: quota_step.simps)
  qed
  then consider (self) n t where "e = Consume f p n t \<or> e = ConsumeDatagram f p t"
    | (other) "b' = b" "bytes_spent P k g e = 0" "datagrams_spent P k g e = 0" by blast
  then have all: "?clock \<and> (0 < bytes_per_sec (P (fst k)) \<longrightarrow> ?bytes) \<and>
      (0 < datagrams_per_sec (P (fst k)) \<longrightarrow> ?dgs)"
  proof cases
    case self
    then have "quota_stamp e = t" by auto
    then show ?thesis
      using key_self_conserves [OF inv [unfolded k] self] nonneg t0 clock
      by (simp add: k b_def b'_def)
  next
    case other
    then show ?thesis using clock by (simp add: b_def)
  qed
  then show ?clock and "0 < bytes_per_sec (P (fst k)) \<Longrightarrow> ?bytes"
    and "0 < datagrams_per_sec (P (fst k)) \<Longrightarrow> ?dgs" by blast+
qed

definition quota_rates_ok :: "(string \<Rightarrow> QuotaParams) \<Rightarrow> string \<Rightarrow> bool" where
  "quota_rates_ok P f \<longleftrightarrow> 0 \<le> bytes_per_sec (P f) \<and> 0 \<le> datagrams_per_sec (P f)"

interpretation bytes_axis: token_bucket "quota_step P" "bytes_spent P k"
    "\<lambda>g. bytes_tokens (key_bucket P k t0 g)" "\<lambda>g. last_refill (key_bucket P k t0 g)" quota_stamp
    "\<lambda>g. key_inv P k g \<and> quota_rates_ok P (fst k) \<and> 0 < bytes_per_sec (P (fst k))"
    "\<lambda>e. keeps_peer (snd k) e \<and> t0 \<le> quota_stamp e" "max 0 (bytes_per_sec (P (fst k)))" for P k t0
proof unfold_locales
  fix g
  assume g: "key_inv P k g \<and> quota_rates_ok P (fst k) \<and> 0 < bytes_per_sec (P (fst k))"
  show "0 \<le> bytes_tokens (key_bucket P k t0 g)"
    using g quota_entry_inv [of P "fst k" "snd k" g t0]
    by (simp add: key_bucket_def quota_inv_def quota_rates_ok_def)
  fix e
  assume e: "keeps_peer (snd k) e \<and> t0 \<le> quota_stamp e"
  show "key_inv P k (quota_step P g e) \<and> quota_rates_ok P (fst k) \<and> 0 < bytes_per_sec (P (fst k))"
    using g e key_inv_step by (simp add: quota_rates_ok_def)
  assume "last_refill (key_bucket P k t0 g) \<le> quota_stamp e"
  then show "last_refill (key_bucket P k t0 g) \<le> last_refill (key_bucket P k t0 (quota_step P g e)) \<and>
      last_refill (key_bucket P k t0 (quota_step P g e)) \<le> quota_stamp e"
    "bytes_tokens (key_bucket P k t0 (quota_step P g e)) + bytes_spent P k g e \<le>
      bytes_tokens (key_bucket P k t0 g) + max 0 (bytes_per_sec (P (fst k))) *
        (last_refill (key_bucket P k t0 (quota_step P g e)) - last_refill (key_bucket P k t0 g))"
    using key_step_conserves(1,2) [of P k g e t0] g e by (simp_all add: quota_rates_ok_def)
qed simp

interpretation datagram_axis: token_bucket "quota_step P" "datagrams_spent P k"
    "\<lambda>g. datagram_tokens (key_bucket P k t0 g)" "\<lambda>g. last_refill (key_bucket P k t0 g)" quota_stamp
    "\<lambda>g. key_inv P k g \<and> quota_rates_ok P (fst k) \<and> 0 < datagrams_per_sec (P (fst k))"
    "\<lambda>e. keeps_peer (snd k) e \<and> t0 \<le> quota_stamp e" "max 0 (datagrams_per_sec (P (fst k)))" for P k t0
proof unfold_locales
  fix g
  assume g: "key_inv P k g \<and> quota_rates_ok P (fst k) \<and> 0 < datagrams_per_sec (P (fst k))"
  show "0 \<le> datagram_tokens (key_bucket P k t0 g)"
    using g quota_entry_inv [of P "fst k" "snd k" g t0]
    by (simp add: key_bucket_def quota_inv_def quota_rates_ok_def)
  fix e
  assume e: "keeps_peer (snd k) e \<and> t0 \<le> quota_stamp e"
  show "key_inv P k (quota_step P g e) \<and> quota_rates_ok P (fst k) \<and> 0 < datagrams_per_sec (P (fst k))"
    using g e key_inv_step by (simp add: quota_rates_ok_def)
  assume "last_refill (key_bucket P k t0 g) \<le> quota_stamp e"
  then show "last_refill (key_bucket P k t0 g) \<le> last_refill (key_bucket P k t0 (quota_step P g e)) \<and>
      last_refill (key_bucket P k t0 (quota_step P g e)) \<le> quota_stamp e"
    "datagram_tokens (key_bucket P k t0 (quota_step P g e)) + datagrams_spent P k g e \<le>
      datagram_tokens (key_bucket P k t0 g) + max 0 (datagrams_per_sec (P (fst k))) *
        (last_refill (key_bucket P k t0 (quota_step P g e)) - last_refill (key_bucket P k t0 g))"
    using key_step_conserves(1,3) [of P k g e t0] g e by (simp_all add: quota_rates_ok_def)
qed simp

lemma bytes_axis_total: "bytes_axis.total P k g es = bytes_total P k g es"
  by (induction es arbitrary: g) auto

lemma datagram_axis_total: "datagram_axis.total P k g es = datagrams_total P k g es"
  by (induction es arbitrary: g) auto

subsection \<open>What the quotas promise\<close>

lemma from_params_nonneg:
  "quota_rates_ok (\<lambda>_. from_params params) f" "quota_rates_ok (\<lambda>_. from_params_outbound params) f"
  by (auto simp: quota_rates_ok_def from_params_def from_params_outbound_def quota_read_def Let_def)

lemma consume_capped:
  assumes "quota_inv q s" "0 < bytes_per_sec q"
  shows "bytes_tokens (snd (state_try_consume s n t)) + (if fst (state_try_consume s n t) then real n else 0) \<le> bytes_per_sec q"
    "last_refill (snd (state_try_consume s n t)) = t"
  using assms by (auto simp: quota_inv_def consume_defs)

definition last_heard :: "QuotaRegistry \<Rightarrow> string \<times> string \<Rightarrow> real \<Rightarrow> bool" where
  "last_heard g k t \<longleftrightarrow> (case hm_get g k of Some s \<Rightarrow> last_refill s \<le> t | None \<Rightarrow> True)"

lemma last_heard_step:
  assumes "hm_wf g" "last_heard g k t" "t \<le> quota_stamp e"
  shows "last_heard (quota_step P g e) k (quota_stamp e)"
proof (cases e)
  case (Consume f p n u)
  then show ?thesis using assms key_other(1) [of f p k g n "P f" u] consume_clock [of "quota_entry g f p (P f) u" u n]
    by (cases "(f, p) = k") (auto simp: last_heard_def key_self quota_entry_def quota_state_new_def split: option.splits)
next
  case (ConsumeDatagram f p u)
  then show ?thesis using assms key_other(2) [of f p k g "P f" u] datagram_clock [of "quota_entry g f p (P f) u" u]
    by (cases "(f, p) = k") (auto simp: last_heard_def key_self quota_entry_def quota_state_new_def split: option.splits)
next
  case (ClearPeer q u)
  then show ?thesis using assms by (auto simp: last_heard_def clear_peer_def coll_simps split: option.splits)
qed

lemma capped_total:
  assumes "key_inv P (f, p) g" "last_heard g (f, p) t0" "quota_rates_ok P f" "0 < bytes_per_sec (P f)"
    "list_all (keeps_peer p) es" "sorted (map quota_stamp es)" "\<forall>e \<in> set es. t0 \<le> quota_stamp e \<and> quota_stamp e \<le> t" "t0 \<le> t"
  shows "bytes_total P (f, p) g es \<le> bytes_per_sec (P f) + bytes_per_sec (P f) * (t - t0)"
  using assms
proof (induction es arbitrary: g t0)
  case (Cons e es)
  let ?r = "bytes_per_sec (P f)" and ?u = "quota_stamp e" and ?g = "quota_step P g e"
  have u: "t0 \<le> ?u" "?u \<le> t" "\<forall>e' \<in> set es. ?u \<le> quota_stamp e' \<and> quota_stamp e' \<le> t" using Cons.prems by auto
  have inv: "key_inv P (f, p) ?g" using key_inv_step [of P "(f, p)" g e] Cons.prems by (simp add: quota_rates_ok_def)
  have later: "?r * (t - ?u) \<le> ?r * (t - t0)" using u(1) Cons.prems(4) by (intro mult_left_mono) auto
  show ?case
  proof (cases "\<exists>n. e = Consume f p n ?u")
    case True
    then obtain n where e: "e = Consume f p n ?u" by blast
    define s where "s = quota_entry g f p (P f) ?u"
    have s: "quota_inv (P f) s" using quota_entry_inv Cons.prems by (simp add: s_def quota_rates_ok_def)
    have get: "hm_get ?g (f, p) = Some (snd (state_try_consume s n ?u))" by (subst e) (simp add: key_self s_def)
    note cap = consume_capped [OF s Cons.prems(4), of n ?u]
    have spent: "bytes_spent P (f, p) g e = (if fst (state_try_consume s n ?u) then real n else 0)" by (subst e) (simp add: key_self s_def)
    have bucket: "key_bucket P (f, p) ?u ?g = snd (state_try_consume s n ?u)" by (simp add: key_bucket_def quota_entry_def get)
    have "bytes_axis.total P (f, p) ?g es \<le> bytes_tokens (key_bucket P (f, p) ?u ?g) + max 0 (bytes_per_sec (P (fst (f, p)))) * (t - last_refill (key_bucket P (f, p) ?u ?g))"
      using Cons.prems u inv cap(2) by (intro bytes_axis.total_bound) (auto simp: bucket list_all_iff)
    then have "bytes_total P (f, p) ?g es \<le> bytes_tokens (snd (state_try_consume s n ?u)) + ?r * (t - ?u)"
      using cap(2) Cons.prems(4) by (simp add: bytes_axis_total bucket)
    then show ?thesis using cap(1) later unfolding bytes_total.simps spent by linarith
  next
    case False
    have "bytes_spent P (f, p) g e = 0" using False by (cases e) auto
    moreover have "last_heard ?g (f, p) ?u" using last_heard_step [of g "(f, p)" t0 e] Cons.prems u(1) by (simp add: key_inv_def)
    then have "bytes_total P (f, p) ?g es \<le> ?r + ?r * (t - ?u)" using Cons.IH [OF inv _ Cons.prems(3,4)] Cons.prems u by simp
    ultimately show ?thesis using later unfolding bytes_total.simps by linarith
  qed
qed (simp add: mult_nonneg_nonneg)

lemma quota_reachable:
  assumes "quota_rates_ok P f" "\<forall>e \<in> set pre. quota_stamp e \<le> t"
  shows "key_inv P (f, p) (foldl (quota_step P) [] pre) \<and> last_heard (foldl (quota_step P) [] pre) (f, p) t"
  using assms(2)
proof (induction pre rule: rev_induct)
  case Nil
  then show ?case by (simp add: key_inv_def last_heard_def)
next
  case (snoc e pre)
  let ?g = "foldl (quota_step P) [] pre"
  have ih: "key_inv P (f, p) ?g" "last_heard ?g (f, p) t" using snoc by simp_all
  have wf: "hm_wf ?g" using ih(1) by (simp add: key_inv_def)
  have "key_inv P (f, p) (quota_step P ?g e) \<and> last_heard (quota_step P ?g e) (f, p) t"
  proof (cases "keeps_peer p e")
    case True
    have "last_heard (quota_step P ?g e) (f, p) t"
    proof (cases e)
      case (Consume f' p' n u)
      then show ?thesis using ih snoc.prems key_other(1) [of f' p' "(f, p)" ?g n "P f'" u]
        by (cases "(f', p') = (f, p)") (auto simp: last_heard_def key_self consume_defs quota_entry_def quota_state_new_def simp del: refill_simps(3,4) split: option.splits)
    next
      case (ConsumeDatagram f' p' u)
      then show ?thesis using ih snoc.prems key_other(2) [of f' p' "(f, p)" ?g "P f'" u]
        by (cases "(f', p') = (f, p)") (auto simp: last_heard_def key_self consume_defs quota_entry_def quota_state_new_def simp del: refill_simps(3,4) split: option.splits)
    next
      case (ClearPeer q u)
      then show ?thesis using ih wf by (auto simp: last_heard_def clear_peer_def coll_simps split: option.splits)
    qed
    then show ?thesis using key_inv_step [of P "(f, p)" ?g e] ih True assms(1) by (simp add: quota_rates_ok_def)
  next
    case False
    then obtain u where "e = ClearPeer p u" by (cases e) auto
    then show ?thesis using wf quota_step_wf [OF wf, of P e] by (auto simp: key_inv_def last_heard_def clear_peer_def coll_simps split: option.splits)
  qed
  then show ?case by simp
qed

text \<open>
  C23: no peer can send faster than its quota over any interval. Take any history \<open>pre\<close> of the registry up to
  time \<open>t0\<close>, with requests of any peers for any features and with peers cleared, and after it any run within
  \<open>t0\<close> and \<open>t\<close> at non-decreasing clock readings in which one peer is not cleared. If the feature's byte rate is not
  zero (zero means unbounded), the bytes admitted for that peer and feature in the run are at most one second's
  burst plus the rate times \<open>t - t0\<close>, however long the peer had been idle before.
\<close>

theorem quota_bytes_rate_bound:
  assumes rates: "quota_rates_ok P f" "0 < bytes_per_sec (P f)"
    and history: "\<forall>e \<in> set pre. quota_stamp e \<le> t0"
    and run: "list_all (keeps_peer p) es" "sorted (map quota_stamp es)"
      "\<forall>e \<in> set es. t0 \<le> quota_stamp e \<and> quota_stamp e \<le> t" "t0 \<le> t"
  shows "bytes_total P (f, p) (foldl (quota_step P) [] pre) es \<le> bytes_per_sec (P f) + bytes_per_sec (P f) * (t - t0)"
  using capped_total [OF _ _ rates run] quota_reachable [OF rates(1) history] by blast

text \<open>After a first request and a minute of silence, a peer gets no more than a fresh one.\<close>

theorem quota_bytes_rate_bound_witness:
  "bytes_total (\<lambda>_. \<lparr>bytes_per_sec = 100, datagrams_per_sec = 10\<rparr>) (''f'', ''p'')
     (foldl (quota_step (\<lambda>_. \<lparr>bytes_per_sec = 100, datagrams_per_sec = 10\<rparr>)) [] [Consume ''f'' ''p'' 50 0])
     [Consume ''f'' ''p'' 80 60, Consume ''f'' ''q'' 90 60, Consume ''f'' ''p'' 80 61] \<le> 200"
  using quota_bytes_rate_bound [of "\<lambda>_. \<lparr>bytes_per_sec = 100, datagrams_per_sec = 10\<rparr>" "''f''" "[Consume ''f'' ''p'' 50 0]" 60 "''p''"
      "[Consume ''f'' ''p'' 80 60, Consume ''f'' ''q'' 90 60, Consume ''f'' ''p'' 80 61]" 61]
  by (simp add: quota_rates_ok_def del: bytes_total.simps quota_step.simps)

text \<open>
  The bound for datagrams, which both kinds of request spend one at a time, since an empty registry.
\<close>

theorem quota_datagrams_rate_bound:
  assumes rates: "quota_rates_ok P f" "0 < datagrams_per_sec (P f)"
    and run: "list_all (keeps_peer p) es" "sorted (map quota_stamp es)"
      "\<forall>e \<in> set es. t0 \<le> quota_stamp e \<and> quota_stamp e \<le> t" "t0 \<le> t"
  shows "datagrams_total P (f, p) [] es \<le>
    datagrams_per_sec (P f) + datagrams_per_sec (P f) * (t - t0)"
proof -
  have "datagram_axis.total P (f, p) [] es \<le> datagram_tokens (key_bucket P (f, p) t0 []) +
      max 0 (datagrams_per_sec (P (fst (f, p)))) * (t - last_refill (key_bucket P (f, p) t0 []))"
    using assms by (intro datagram_axis.total_bound)
      (auto simp: key_inv_def list_all_iff key_bucket_def quota_entry_def quota_state_new_def)
  then show ?thesis
    using rates by (simp add: datagram_axis_total key_bucket_def quota_entry_def quota_state_new_def)
qed

theorem quota_datagrams_rate_bound_witness:
  "datagrams_total (\<lambda>_. \<lparr>bytes_per_sec = 100, datagrams_per_sec = 1\<rparr>) (''f'', ''p'') []
     [Consume ''f'' ''p'' 8 0, ConsumeDatagram ''f'' ''p'' 0, Consume ''f'' ''p'' 8 2] \<le> 3"
  using quota_datagrams_rate_bound [of "\<lambda>_. \<lparr>bytes_per_sec = 100, datagrams_per_sec = 1\<rparr>" "''f''" "''p''"
      "[Consume ''f'' ''p'' 8 0, ConsumeDatagram ''f'' ''p'' 0, Consume ''f'' ''p'' 8 2]" 0 2]
  by (simp add: quota_rates_ok_def)

end
