(* ===== verification/Feature_Registry.thy ===== *)
theory Feature_Registry
  imports Channel_Tag Quota
begin

section \<open>Capability descriptors and the feature registry (\<open>descriptor.rs\<close>, \<open>module.rs\<close>, \<open>registry.rs\<close>)\<close>

text \<open>
  A registry maps a capability id to its descriptor and the module bound to it, and meters traffic
  per (feature, peer) with one quota registry per direction. Modules are trait objects: they are
  values of a type \<open>'m\<close>, their \<open>on_invoke\<close> is a parameter, and what the registry delivers to
  \<open>on_message\<close> is part of the result of the call. The free-form \<open>params\<close> of a descriptor are the
  numbers stored in them. Error texts are not modelled beyond the identifiers they quote.
\<close>

datatype AuthTier = AuthPublic | RoomMember | TrustedPeer
datatype ChannelKind = Datagram | Stream | Request

record CapabilityDescriptor =
  cap_id :: string
  version :: string
  kind :: ChannelKind
  params :: json_params
  auth :: AuthTier
  experimental :: bool

datatype FeatureError = InvalidId string | InvalidVersion string | Duplicate string
datatype ModuleError = PermissionDenied string | InvalidParams string | Internal string

definition descriptor_new :: "string \<Rightarrow> string \<Rightarrow> ChannelKind \<Rightarrow> CapabilityDescriptor" where
  "descriptor_new i v k =
     \<lparr>cap_id = i, version = v, kind = k, params = (\<lambda>_. None), auth = TrustedPeer, experimental = False\<rparr>"

subsection \<open>Descriptors\<close>

text \<open>The part of a string before the first occurrence of a character: \<open>split(c).next()\<close>.\<close>

definition before_char :: "char \<Rightarrow> string \<Rightarrow> string" where
  "before_char c s = takeWhile (\<lambda>x. x \<noteq> c) s"

definition namespace :: "CapabilityDescriptor \<Rightarrow> string" where
  "namespace d = before_char (CHR ''.'') (cap_id d)"

text \<open>\<open>str::parse::<u32>\<close>: an optional plus sign and decimal digits, below \<open>2 ^ 32\<close>.\<close>

definition is_digit :: "char \<Rightarrow> bool" where
  "is_digit c \<longleftrightarrow> 48 \<le> (of_char c :: nat) \<and> (of_char c :: nat) \<le> 57"

definition decimal :: "string \<Rightarrow> nat" where
  "decimal s = foldl (\<lambda>a c. a * 10 + (of_char c - 48)) 0 s"

definition parse_u32 :: "string \<Rightarrow> nat option" where
  "parse_u32 s =
     (let ds = (case s of c # cs \<Rightarrow> if c = CHR ''+'' then cs else s | [] \<Rightarrow> s)
      in if ds \<noteq> [] \<and> list_all is_digit ds \<and> decimal ds < 2 ^ 32 then Some (decimal ds) else None)"

definition major_version :: "CapabilityDescriptor \<Rightarrow> nat option" where
  "major_version d = parse_u32 (before_char (CHR ''.'') (version d))"

definition is_compatible_with :: "CapabilityDescriptor \<Rightarrow> CapabilityDescriptor \<Rightarrow> bool" where
  "is_compatible_with a b =
     (if cap_id a \<noteq> cap_id b then False
      else case (major_version a, major_version b) of
        (Some x, Some y) \<Rightarrow> x = y
      | _ \<Rightarrow> version a = version b)"

text \<open>
  \<open>char::is_whitespace\<close>, on the UTF-8 bytes: the encodings of the characters with the Unicode
  property White\_Space. UTF-8 is self-synchronising, so a string contains such a character exactly
  when its bytes contain the encoding.
\<close>

definition whitespace_utf8 :: "bytes list" where
  "whitespace_utf8 =
     [[9], [10], [11], [12], [13], [32], [0xC2, 0x85], [0xC2, 0xA0], [0xE1, 0x9A, 0x80],
      [0xE2, 0x80, 0x80], [0xE2, 0x80, 0x81], [0xE2, 0x80, 0x82], [0xE2, 0x80, 0x83], [0xE2, 0x80, 0x84],
      [0xE2, 0x80, 0x85], [0xE2, 0x80, 0x86], [0xE2, 0x80, 0x87], [0xE2, 0x80, 0x88], [0xE2, 0x80, 0x89],
      [0xE2, 0x80, 0x8A], [0xE2, 0x80, 0xA8], [0xE2, 0x80, 0xA9], [0xE2, 0x80, 0xAF], [0xE2, 0x81, 0x9F],
      [0xE3, 0x80, 0x80]]"

fun has_infix :: "bytes \<Rightarrow> bytes \<Rightarrow> bool" where
  "has_infix p [] = (p = [])"
| "has_infix p (b # bs) = (take (length p) (b # bs) = p \<or> has_infix p bs)"

definition contains_whitespace :: "string \<Rightarrow> bool" where
  "contains_whitespace s = list_ex (\<lambda>w. has_infix w (as_bytes s)) whitespace_utf8"

definition validate :: "CapabilityDescriptor \<Rightarrow> FeatureError + unit" where
  "validate d =
     (if cap_id d = [] then Inl (InvalidId ''empty id'')
      else if contains_whitespace (cap_id d) then Inl (InvalidId ''id must not contain whitespace'')
      else if CHR ''.'' \<notin> set (cap_id d)
      then Inl (InvalidId ''id must use reverse-DNS form (namespace.subname)'')
      else if version d = [] then Inl (InvalidVersion ''empty version'')
      else Inr ())"

subsection \<open>The registry\<close>

record 'm Entry =
  descriptor :: CapabilityDescriptor
  emodule :: "'m option"

record 'm FeatureRegistry =
  inner :: "(string, 'm Entry) hmap"
  quotas :: QuotaRegistry
  outbound_quotas :: QuotaRegistry

record InvocationContext =
  ctx_peer :: string
  ctx_params :: json_params
  channel_tag :: "u8 option"

definition registry_new :: "'m FeatureRegistry" where
  "registry_new = \<lparr>inner = [], quotas = [], outbound_quotas = []\<rparr>"

definition quota_params_for :: "CapabilityDescriptor \<Rightarrow> QuotaParams" where
  "quota_params_for d = from_params (params d)"

definition quota_params_outbound_for :: "CapabilityDescriptor \<Rightarrow> QuotaParams" where
  "quota_params_outbound_for d = from_params_outbound (params d)"

definition register :: "'m FeatureRegistry \<Rightarrow> CapabilityDescriptor \<Rightarrow> (FeatureError + unit) \<times> 'm FeatureRegistry" where
  "register g cap =
     (case validate cap of
        Inl e \<Rightarrow> (Inl e, g)
      | Inr _ \<Rightarrow>
          if hm_contains (inner g) (cap_id cap) then (Inl (Duplicate (cap_id cap)), g)
          else (Inr (), g\<lparr>inner := hm_insert (cap_id cap) \<lparr>descriptor = cap, emodule = None\<rparr> (inner g)\<rparr>))"

definition register_module ::
  "('m \<Rightarrow> CapabilityDescriptor) \<Rightarrow> 'm FeatureRegistry \<Rightarrow> 'm \<Rightarrow> (FeatureError + unit) \<times> 'm FeatureRegistry" where
  "register_module module_descriptor g m =
     (let cap = module_descriptor m
      in case validate cap of
           Inl e \<Rightarrow> (Inl e, g)
         | Inr _ \<Rightarrow>
             if hm_contains (inner g) (cap_id cap) then (Inl (Duplicate (cap_id cap)), g)
             else (Inr (), g\<lparr>inner := hm_insert (cap_id cap) \<lparr>descriptor = cap, emodule = Some m\<rparr> (inner g)\<rparr>))"

definition bind_module :: "'m FeatureRegistry \<Rightarrow> string \<Rightarrow> 'm \<Rightarrow> bool \<times> 'm FeatureRegistry" where
  "bind_module g i m =
     (case hm_get (inner g) i of
        Some e \<Rightarrow> (True, g\<lparr>inner := hm_modify i (\<lambda>e. e\<lparr>emodule := Some m\<rparr>) (inner g)\<rparr>)
      | None \<Rightarrow> (False, g))"

definition upsert :: "'m FeatureRegistry \<Rightarrow> CapabilityDescriptor \<Rightarrow> (FeatureError + unit) \<times> 'm FeatureRegistry" where
  "upsert g cap =
     (case validate cap of
        Inl e \<Rightarrow> (Inl e, g)
      | Inr _ \<Rightarrow>
          let prior = (case hm_get (inner g) (cap_id cap) of Some e \<Rightarrow> emodule e | None \<Rightarrow> None);
              m = hm_remove (cap_id cap) (inner g)
          in (Inr (), g\<lparr>inner := hm_insert (cap_id cap) \<lparr>descriptor = cap, emodule = prior\<rparr> m\<rparr>))"

definition registry_remove :: "'m FeatureRegistry \<Rightarrow> string \<Rightarrow> CapabilityDescriptor option \<times> 'm FeatureRegistry" where
  "registry_remove g i =
     (map_option descriptor (hm_get (inner g) i), g\<lparr>inner := hm_remove i (inner g)\<rparr>)"

definition registry_get :: "'m FeatureRegistry \<Rightarrow> string \<Rightarrow> CapabilityDescriptor option" where
  "registry_get g i = map_option descriptor (hm_get (inner g) i)"

definition registry_module :: "'m FeatureRegistry \<Rightarrow> string \<Rightarrow> 'm option" where
  "registry_module g i = (case hm_get (inner g) i of Some e \<Rightarrow> emodule e | None \<Rightarrow> None)"

definition dispatch_invoke ::
  "('m \<Rightarrow> InvocationContext \<Rightarrow> ModuleError + unit) \<Rightarrow> 'm FeatureRegistry \<Rightarrow> string \<Rightarrow> InvocationContext \<Rightarrow>
     ModuleError + unit" where
  "dispatch_invoke on_invoke g i ctx =
     (case registry_module g i of
        None \<Rightarrow> Inl (Internal (''no module bound to '' @ i))
      | Some m \<Rightarrow> on_invoke m ctx)"

text \<open>
  The boolean the code returns, and the message it handed to the module.
\<close>

definition dispatch_message ::
  "real \<Rightarrow> 'm FeatureRegistry \<Rightarrow> string \<Rightarrow> string \<Rightarrow> bytes \<Rightarrow>
     (bool \<times> ('m \<times> string \<times> bytes) option) \<times> 'm FeatureRegistry" where
  "dispatch_message now g i source payload =
     (case hm_get (inner g) i of
        None \<Rightarrow> ((False, None), g)
      | Some e \<Rightarrow>
          (case emodule e of
             None \<Rightarrow> ((False, None), g)
           | Some m \<Rightarrow>
               let (ok, q) = try_consume (quotas g) i source (length payload) (quota_params_for (descriptor e)) now;
                   g = g\<lparr>quotas := q\<rparr>
               in if \<not> ok then ((False, None), g) else ((True, Some (m, source, payload)), g)))"

definition dispatch_invoke_datagram ::
  "('m \<Rightarrow> InvocationContext \<Rightarrow> ModuleError + unit) \<Rightarrow> real \<Rightarrow> 'm FeatureRegistry \<Rightarrow> string \<Rightarrow> string \<Rightarrow>
     json_params \<Rightarrow> tag_registry \<Rightarrow> (ModuleError + u8) \<times> 'm FeatureRegistry \<times> tag_registry" where
  "dispatch_invoke_datagram on_invoke now g i peer ps tags =
     (case hm_get (inner g) i of
        None \<Rightarrow> (Inl (Internal (''no feature registered for '' @ i)), g, tags)
      | Some e \<Rightarrow>
          let d = descriptor e
          in if kind d \<noteq> Datagram then (Inl (InvalidParams i), g, tags)
             else
               let (ok, q) = try_consume_datagram (quotas g) i peer (quota_params_for d) now;
                   g = g\<lparr>quotas := q\<rparr>
               in if \<not> ok then (Inl (Internal (''datagram quota exceeded for '' @ i)), g, tags)
                  else
                    (case tag_bind tags i of
                       (Inl err, tags) \<Rightarrow> (Inl (Internal ''tag allocation failed''), g, tags)
                     | (Inr tag, tags) \<Rightarrow>
                         let ctx = \<lparr>ctx_peer = peer, ctx_params = ps, channel_tag = Some tag\<rparr>
                         in (case dispatch_invoke on_invoke g i ctx of
                               Inr _ \<Rightarrow> (Inr tag, g, tags)
                             | Inl err \<Rightarrow> (Inl err, g, snd (tag_release tags i)))))"

definition clear_peer_quotas :: "'m FeatureRegistry \<Rightarrow> string \<Rightarrow> 'm FeatureRegistry" where
  "clear_peer_quotas g peer_id = g\<lparr>quotas := clear_peer (quotas g) peer_id\<rparr>"

definition gate_inbound_through_feature ::
  "real \<Rightarrow> 'm FeatureRegistry \<Rightarrow> string \<Rightarrow> string \<Rightarrow> nat \<Rightarrow> bool \<times> 'm FeatureRegistry" where
  "gate_inbound_through_feature now g feature_id peer_id byte_count =
     (case hm_get (inner g) feature_id of
        None \<Rightarrow> (True, g)
      | Some e \<Rightarrow>
          let (ok, q) = try_consume (quotas g) feature_id peer_id byte_count (quota_params_for (descriptor e)) now
          in (ok, g\<lparr>quotas := q\<rparr>))"

definition gate_inbound_fanout_through_feature ::
  "real \<Rightarrow> 'm FeatureRegistry \<Rightarrow> string \<Rightarrow> string \<Rightarrow> nat \<Rightarrow> bool \<times> 'm FeatureRegistry" where
  "gate_inbound_fanout_through_feature now g feature_id peer_id byte_count =
     (case hm_get (inner g) feature_id of
        None \<Rightarrow> (True, g)
      | Some e \<Rightarrow>
          let (ok, q) = try_consume (quotas g) feature_id peer_id byte_count
                          (quota_params_outbound_for (descriptor e)) now
          in (ok, g\<lparr>quotas := q\<rparr>))"

definition gate_through_feature ::
  "real \<Rightarrow> 'm FeatureRegistry \<Rightarrow> string \<Rightarrow> string \<Rightarrow> nat \<Rightarrow> bool \<times> 'm FeatureRegistry" where
  "gate_through_feature now g feature_id peer_id byte_count =
     (case hm_get (inner g) feature_id of
        None \<Rightarrow> (True, g)
      | Some e \<Rightarrow>
          let (ok, q) = try_consume (outbound_quotas g) feature_id peer_id byte_count
                          (quota_params_outbound_for (descriptor e)) now
          in (ok, g\<lparr>outbound_quotas := q\<rparr>))"

definition clear_peer_outbound_quotas :: "'m FeatureRegistry \<Rightarrow> string \<Rightarrow> 'm FeatureRegistry" where
  "clear_peer_outbound_quotas g peer_id = g\<lparr>outbound_quotas := clear_peer (outbound_quotas g) peer_id\<rparr>"

subsection \<open>Tags are not leaked\<close>

lemma tag_release_bound:
  assumes "tag_for g f = Some t"
  shows "tag_for (snd (tag_release g f)) = (tag_for g)(f := None)"
    and "feature_for (snd (tag_release g f)) = (feature_for g)(t := None)"
  using assms by (auto simp: tag_release_def tag_for_def feature_for_def fun_eq_iff coll_simps)

text \<open>
  Invoking a datagram feature never leaks or loses a channel tag. From any reachable state of
  the tag registry, a failed invocation - unknown feature, wrong kind, quota, no tag left, or the
  module's own refusal - leaves every binding as it was; a successful one has bound exactly one
  new tag, a dynamic one, to the feature, and the module has accepted the call with that tag.
\<close>

theorem invoke_datagram_tags:
  "let tags = foldl tag_step tag_registry_new ops;
       (res, g', tags') = dispatch_invoke_datagram on_invoke now g i peer ps tags
   in inner g' = inner g \<and> outbound_quotas g' = outbound_quotas g \<and>
      (case res of
         Inl err \<Rightarrow> tag_for tags' = tag_for tags \<and> feature_for tags' = feature_for tags
       | Inr t \<Rightarrow> tag_for tags i = None \<and> t \<in> {DYNAMIC_TAG_START .. DYNAMIC_TAG_END} \<and>
           tag_for tags' = (tag_for tags)(i \<mapsto> t) \<and> feature_for tags' = (feature_for tags)(t \<mapsto> i) \<and>
           (\<exists>e m. hm_get (inner g) i = Some e \<and> kind (descriptor e) = Datagram \<and> emodule e = Some m \<and>
              on_invoke m \<lparr>ctx_peer = peer, ctx_params = ps, channel_tag = Some t\<rparr> = Inr ()))"
proof -
  define tags where "tags = foldl tag_step tag_registry_new ops"
  have inv: "tag_inv tags" unfolding tags_def by (rule tags.inv_reachable)
  note spec = tag_bind_inv_spec [OF inv, of i]
  let ?P = "\<lambda>res g' tags'. inner g' = inner g \<and> outbound_quotas g' = outbound_quotas g \<and>
      (case res of
         Inl err \<Rightarrow> tag_for tags' = tag_for tags \<and> feature_for tags' = feature_for tags
       | Inr t \<Rightarrow> tag_for tags i = None \<and> t \<in> {DYNAMIC_TAG_START .. DYNAMIC_TAG_END} \<and>
           tag_for tags' = (tag_for tags)(i \<mapsto> t) \<and> feature_for tags' = (feature_for tags)(t \<mapsto> i) \<and>
           (\<exists>e m. hm_get (inner g) i = Some e \<and> kind (descriptor e) = Datagram \<and> emodule e = Some m \<and>
              on_invoke m \<lparr>ctx_peer = peer, ctx_params = ps, channel_tag = Some t\<rparr> = Inr ()))"
  have main: "?P (fst r) (fst (snd r)) (snd (snd r))"
    if r: "r = dispatch_invoke_datagram on_invoke now g i peer ps tags" for r
  proof (cases "hm_get (inner g) i")
    case None
    then show ?thesis using r by (simp add: dispatch_invoke_datagram_def)
  next
    case (Some e)
    let ?q = "try_consume_datagram (quotas g) i peer (quota_params_for (descriptor e)) now"
    let ?g = "g\<lparr>quotas := snd ?q\<rparr>"
    show ?thesis
    proof (cases "kind (descriptor e) = Datagram \<and> fst ?q")
      case False
      then show ?thesis using r Some by (auto simp: dispatch_invoke_datagram_def Let_def case_prod_beta)
    next
      case True
      obtain b tags1 where b: "tag_bind tags i = (b, tags1)" by fastforce
      show ?thesis
      proof (cases b)
        case (Inl err)
        then show ?thesis
          using r Some True b spec by (simp add: dispatch_invoke_datagram_def Let_def case_prod_beta)
      next
        case (Inr t)
        have s: "tag_for tags i = None" "feature_for tags t = None" "t \<in> {DYNAMIC_TAG_START .. DYNAMIC_TAG_END}"
          "tag_for tags1 = (tag_for tags)(i \<mapsto> t)" "feature_for tags1 = (feature_for tags)(t \<mapsto> i)"
          using spec b Inr by simp_all
        have rel: "tag_for (snd (tag_release tags1 i)) = tag_for tags" "feature_for (snd (tag_release tags1 i)) = feature_for tags"
          using tag_release_bound [of tags1 i t] s by (simp_all add: fun_eq_iff)
        let ?ctx = "\<lparr>ctx_peer = peer, ctx_params = ps, channel_tag = Some t\<rparr>"
        have "r = (case dispatch_invoke on_invoke ?g i ?ctx of Inr _ \<Rightarrow> (Inr t, ?g, tags1)
            | Inl err \<Rightarrow> (Inl err, ?g, snd (tag_release tags1 i)))"
          using r Some True b Inr by (simp add: dispatch_invoke_datagram_def Let_def case_prod_beta)
        moreover have "dispatch_invoke on_invoke ?g i ?ctx =
            (case emodule e of None \<Rightarrow> Inl (Internal (''no module bound to '' @ i)) | Some m \<Rightarrow> on_invoke m ?ctx)"
          using Some by (simp add: dispatch_invoke_def registry_module_def)
        ultimately show ?thesis
          using s rel Some True by (auto split: option.splits sum.splits)
      qed
    qed
  qed
  show ?thesis unfolding Let_def tags_def [symmetric] case_prod_beta by (rule main [OF refl])
qed

subsection \<open>What is registered\<close>

lemma validate_okD:
  "validate d = Inr () \<Longrightarrow> cap_id d \<noteq> [] \<and> CHR ''.'' \<in> set (cap_id d) \<and>
     \<not> contains_whitespace (cap_id d) \<and> version d \<noteq> []"
  by (simp add: validate_def split: if_splits)

datatype 'm registry_op =
    RegisterCapOp CapabilityDescriptor
  | RegisterModuleOp 'm
  | BindModuleOp string 'm
  | UpsertOp CapabilityDescriptor
  | RemoveCapOp string
  | MessageOp real string string bytes
  | GateInOp real string string nat
  | GateFanoutOp real string string nat
  | GateOutOp real string string nat
  | ClearOp string

fun registry_step :: "('m \<Rightarrow> CapabilityDescriptor) \<Rightarrow> 'm FeatureRegistry \<Rightarrow> 'm registry_op \<Rightarrow> 'm FeatureRegistry" where
  "registry_step md g (RegisterCapOp cap) = snd (register g cap)"
| "registry_step md g (RegisterModuleOp m) = snd (register_module md g m)"
| "registry_step md g (BindModuleOp i m) = snd (bind_module g i m)"
| "registry_step md g (UpsertOp cap) = snd (upsert g cap)"
| "registry_step md g (RemoveCapOp i) = snd (registry_remove g i)"
| "registry_step md g (MessageOp now i s p) = snd (dispatch_message now g i s p)"
| "registry_step md g (GateInOp now f p n) = snd (gate_inbound_through_feature now g f p n)"
| "registry_step md g (GateFanoutOp now f p n) = snd (gate_inbound_fanout_through_feature now g f p n)"
| "registry_step md g (GateOutOp now f p n) = snd (gate_through_feature now g f p n)"
| "registry_step md g (ClearOp p) = clear_peer_outbound_quotas (clear_peer_quotas g p) p"

definition registry_inv :: "'m FeatureRegistry \<Rightarrow> bool" where
  "registry_inv g \<longleftrightarrow> hm_wf (inner g) \<and>
     (\<forall>i e. hm_get (inner g) i = Some e \<longrightarrow> cap_id (descriptor e) = i \<and> validate (descriptor e) = Inr ())"

lemma inner_gates [simp]:
  "inner (snd (dispatch_message now g i s p)) = inner g"
  "inner (snd (gate_inbound_through_feature now g i s n)) = inner g"
  "inner (snd (gate_inbound_fanout_through_feature now g i s n)) = inner g"
  "inner (snd (gate_through_feature now g i s n)) = inner g"
  by (simp_all add: dispatch_message_def gate_inbound_through_feature_def gate_inbound_fanout_through_feature_def
      gate_through_feature_def Let_def case_prod_beta split: option.splits)

lemma registry_inv_insert:
  assumes "registry_inv g" "validate cap = Inr ()"
  shows "registry_inv (g\<lparr>inner := hm_insert (cap_id cap) \<lparr>descriptor = cap, emodule = m\<rparr> (inner g)\<rparr>)"
  using assms unfolding registry_inv_def
  by (simp add: hm_get_insert hm_wf_insert)

lemma registry_inv_remove: "registry_inv g \<Longrightarrow> registry_inv (g\<lparr>inner := hm_remove i (inner g)\<rparr>)"
  unfolding registry_inv_def by (simp add: hm_get_remove hm_wf_remove)

lemma registry_inv_inner: "registry_inv g \<Longrightarrow> inner g' = inner g \<Longrightarrow> registry_inv g'"
  by (simp add: registry_inv_def)

lemma registry_inv_bind: "registry_inv g \<Longrightarrow> registry_inv (snd (bind_module g i m))"
  unfolding registry_inv_def bind_module_def
  by (auto simp: hm_get_modify hm_wf_modify split: option.splits if_splits)

lemma registry_inv_upsert:
  assumes "registry_inv g"
  shows "registry_inv (snd (upsert g cap))"
proof (cases "validate cap")
  case (Inr u)
  have "registry_inv (g\<lparr>inner := hm_remove (cap_id cap) (inner g)\<rparr>)" using assms by (rule registry_inv_remove)
  from registry_inv_insert [OF this, of cap] Inr show ?thesis by (simp add: upsert_def Let_def)
qed (simp add: upsert_def assms)

lemma registry_step_inv: "registry_inv g \<Longrightarrow> registry_inv (registry_step md g op)"
proof (cases op)
  case (RegisterCapOp cap)
  assume "registry_inv g"
  then show ?thesis using RegisterCapOp
    by (cases "validate cap") (simp_all add: register_def registry_inv_insert)
next
  case (RegisterModuleOp m)
  assume "registry_inv g"
  then show ?thesis using RegisterModuleOp
    by (cases "validate (md m)") (simp_all add: register_module_def Let_def registry_inv_insert)
next
  case (ClearOp p)
  assume "registry_inv g"
  then show ?thesis using ClearOp
    by (simp add: registry_inv_def clear_peer_quotas_def clear_peer_outbound_quotas_def)
qed (simp_all add: registry_inv_bind registry_inv_upsert registry_inv_remove registry_remove_def registry_inv_inner [OF _ inner_gates(1)] registry_inv_inner [OF _ inner_gates(2)] registry_inv_inner [OF _ inner_gates(3)] registry_inv_inner [OF _ inner_gates(4)])

interpretation registry: invariant_system registry_new "registry_step md" registry_inv for md
proof unfold_locales
  show "registry_inv registry_new" by (simp add: registry_inv_def registry_new_def)
qed (rule registry_step_inv)

text \<open>
  What a registry advertises is well-formed. After any operations every entry is stored under
  the id of its own descriptor, each id once, and its descriptor passed validation: a non-empty
  id with a dot and no whitespace, and a non-empty version.
\<close>

theorem registry_wellformed:
  "let g = foldl (registry_step md) registry_new ops
   in distinct (hm_keys (inner g)) \<and>
      set (inner g) \<subseteq> {(i, e). cap_id (descriptor e) = i \<and> i \<noteq> [] \<and> CHR ''.'' \<in> set i \<and>
        \<not> contains_whitespace i \<and> version (descriptor e) \<noteq> []}"
proof -
  define g where "g = foldl (registry_step md) registry_new ops"
  have inv: "registry_inv g" unfolding g_def by (rule registry.inv_reachable)
  then have wf: "hm_wf (inner g)" by (simp add: registry_inv_def)
  have ent: "cap_id (descriptor e) = i" "validate (descriptor e) = Inr ()" if "(i, e) \<in> set (inner g)" for i e
    using inv that wf by (simp_all add: registry_inv_def hm_get_in)
  have "set (inner g) \<subseteq> {(i, e). cap_id (descriptor e) = i \<and> i \<noteq> [] \<and> CHR ''.'' \<in> set i \<and>
        \<not> contains_whitespace i \<and> version (descriptor e) \<noteq> []}"
  proof (intro subsetI, clarify)
    fix i e assume "(i, e) \<in> set (inner g)"
    from ent(1) [OF this] validate_okD [OF ent(2) [OF this]]
    show "cap_id (descriptor e) = i \<and> i \<noteq> [] \<and> CHR ''.'' \<in> set i \<and>
        \<not> contains_whitespace i \<and> version (descriptor e) \<noteq> []" by simp
  qed
  then show ?thesis
    using wf unfolding Let_def g_def [symmetric] by (simp add: hm_wf_def hm_keys_def)
qed

subsection \<open>The fan-out gate shares the inbound bucket\<close>

text \<open>
  The doc comment of \<open>gate_inbound_fanout_through_feature\<close> says that it uses the bucket of
  \<open>gate_inbound_through_feature\<close>, \<open>metered at the outbound rate\<close>. The bucket keeps the rates it
  was created with, so this holds only when the fan-out gate is the first to touch it: after the
  inbound gate has created the bucket, a message above the inbound byte rate is refused by the
  fan-out gate at every later time, although it is within the outbound rate and a fresh bucket
  would take it.
\<close>

theorem fanout_gate_rate_divergence:
  fixes now later :: real and g :: "'m FeatureRegistry"
  assumes "hm_get (inner g) f = Some e" "hm_get (quotas g) (f, p) = None"
    and "params (descriptor e) ''quota_bytes_per_sec'' = Some b"
    and "params (descriptor e) ''quota_bytes_per_sec_outbound'' = Some b'"
    and "params (descriptor e) ''quota_datagrams_per_sec'' = Some 0"
    and "params (descriptor e) ''quota_datagrams_per_sec_outbound'' = None"
    and "1 \<le> b" "b < real n" "real n \<le> b'"
  shows "fst (gate_inbound_fanout_through_feature later g f p n) \<and>
    \<not> fst (gate_inbound_fanout_through_feature later (snd (gate_inbound_through_feature now g f p m)) f p n)"
proof -
  have pin: "quota_params_for (descriptor e) = \<lparr>bytes_per_sec = b, datagrams_per_sec = 0\<rparr>"
    using assms by (simp add: quota_params_for_def from_params_def quota_read_def)
  have pout: "quota_params_outbound_for (descriptor e) = \<lparr>bytes_per_sec = b', datagrams_per_sec = 0\<rparr>"
    using assms pin by (simp add: quota_params_outbound_for_def quota_params_for_def from_params_outbound_def
        quota_read_def Let_def)
  define s where "s = snd (state_try_consume (quota_state_new \<lparr>bytes_per_sec = b, datagrams_per_sec = 0\<rparr> now) m now)"
  have s: "qparams s = \<lparr>bytes_per_sec = b, datagrams_per_sec = 0\<rparr>"
    by (simp add: s_def state_try_consume_def refill_def quota_state_new_def is_unbounded_def Let_def)
  have "quotas (snd (gate_inbound_through_feature now g f p m)) = hm_insert (f, p) s (quotas g)"
    using assms pin by (simp add: gate_inbound_through_feature_def try_consume_def quota_entry_def s_def case_prod_beta Let_def)
  then have "fst (gate_inbound_fanout_through_feature later (snd (gate_inbound_through_feature now g f p m)) f p n) =
      fst (state_try_consume s n later)"
    using assms by (simp add: gate_inbound_fanout_through_feature_def try_consume_def quota_entry_def
        hm_get_insert case_prod_beta Let_def)
  also have "\<not> \<dots>"
    using s assms by (simp add: state_try_consume_def refill_def is_unbounded_def Let_def)
  finally have "\<not> fst (gate_inbound_fanout_through_feature later (snd (gate_inbound_through_feature now g f p m)) f p n)" .
  moreover have "fst (gate_inbound_fanout_through_feature later g f p n)"
    using assms pout by (simp add: gate_inbound_fanout_through_feature_def try_consume_def quota_entry_def
        state_try_consume_def refill_def quota_state_new_def is_unbounded_def case_prod_beta Let_def)
  ultimately show ?thesis by simp
qed

definition video_descriptor :: CapabilityDescriptor where
  "video_descriptor = (descriptor_new ''core.video.v1'' ''1.0'' Datagram)
     \<lparr>params := [''quota_bytes_per_sec'' \<mapsto> 100, ''quota_bytes_per_sec_outbound'' \<mapsto> 400,
        ''quota_datagrams_per_sec'' \<mapsto> 0]\<rparr>"

definition video_registry :: "unit FeatureRegistry" where
  "video_registry = snd (register registry_new video_descriptor)"

theorem fanout_gate_rate_divergence_witness:
  "fst (gate_inbound_fanout_through_feature 5 video_registry ''core.video.v1'' ''node'' 300) \<and>
   \<not> fst (gate_inbound_fanout_through_feature 5
       (snd (gate_inbound_through_feature 1 video_registry ''core.video.v1'' ''node'' 50)) ''core.video.v1'' ''node'' 300)"
proof (rule fanout_gate_rate_divergence [where b = 100 and b' = 400])
  have v: "validate video_descriptor = Inr ()" by code_simp
  have c: "cap_id video_descriptor = ''core.video.v1''" by (simp add: video_descriptor_def descriptor_new_def)
  show "hm_get (inner video_registry) ''core.video.v1'' = Some \<lparr>descriptor = video_descriptor, emodule = None\<rparr>"
    by (simp add: video_registry_def register_def v c registry_new_def hm_get_def)
  show "hm_get (quotas video_registry) (''core.video.v1'', ''node'') = None"
    by (simp add: video_registry_def register_def v registry_new_def)
qed (simp_all add: video_descriptor_def)

end
