(* ===== verification/Video_Codec.thy ===== *)
theory Video_Codec
  imports Prelude
begin

section \<open>Video codec identity and negotiation (\<open>video_codec.rs\<close>)\<close>

text \<open>
  The codec byte of the fragment header and the rules by which two peers, or the sender of a
  room, choose a codec. A codec set is the slice the code passes, a list; the JSON array
  \<open>params.codecs\<close> is the list of its string entries.
\<close>

datatype VideoCodec = H264 | Vp8 | Vp9 | Stub

fun as_wire :: "VideoCodec \<Rightarrow> u8" where
  "as_wire H264 = 0x01"
| "as_wire Vp8 = 0x02"
| "as_wire Vp9 = 0x03"
| "as_wire Stub = 0xFF"

definition from_wire :: "u8 \<Rightarrow> VideoCodec option" where
  "from_wire b =
     (if b = 0x01 then Some H264
      else if b = 0x02 then Some Vp8
      else if b = 0x03 then Some Vp9
      else if b = 0xFF then Some Stub
      else None)"

fun as_str :: "VideoCodec \<Rightarrow> string" where
  "as_str H264 = ''h264''"
| "as_str Vp8 = ''vp8''"
| "as_str Vp9 = ''vp9''"
| "as_str Stub = ''stub''"

definition codec_parse :: "string \<Rightarrow> VideoCodec option" where
  "codec_parse s =
     (if s = ''h264'' then Some H264
      else if s = ''vp8'' then Some Vp8
      else if s = ''vp9'' then Some Vp9
      else if s = ''stub'' then Some Stub
      else None)"

definition PREFERENCE :: "VideoCodec list" where
  "PREFERENCE = [H264, Vp9, Vp8, Stub]"

definition ROOM_PREFERENCE :: "VideoCodec list" where
  "ROOM_PREFERENCE = [Vp9, Vp8, H264, Stub]"

definition negotiate :: "VideoCodec list \<Rightarrow> VideoCodec list \<Rightarrow> VideoCodec option" where
  "negotiate local remote = find (\<lambda>c. c \<in> set local \<and> c \<in> set remote) PREFERENCE"

definition negotiate_preferring ::
  "VideoCodec list \<Rightarrow> VideoCodec list \<Rightarrow> VideoCodec option \<Rightarrow> VideoCodec option" where
  "negotiate_preferring local remote preferred =
     (case preferred of
        Some want \<Rightarrow>
          if want \<in> set local \<and> want \<in> set remote then Some want else negotiate local remote
      | None \<Rightarrow> negotiate local remote)"

definition pick_in_order ::
  "VideoCodec list \<Rightarrow> VideoCodec list \<Rightarrow> VideoCodec option \<Rightarrow> VideoCodec option" where
  "pick_in_order order available preferred =
     (case preferred of
        Some want \<Rightarrow>
          if want \<in> set available then Some want else find (\<lambda>c. c \<in> set available) order
      | None \<Rightarrow> find (\<lambda>c. c \<in> set available) order)"

definition best_available :: "VideoCodec list \<Rightarrow> VideoCodec option \<Rightarrow> VideoCodec option" where
  "best_available available preferred = pick_in_order PREFERENCE available preferred"

definition best_for_room :: "VideoCodec list \<Rightarrow> VideoCodec option \<Rightarrow> VideoCodec option" where
  "best_for_room available preferred = pick_in_order ROOM_PREFERENCE available preferred"

definition advertised_codecs :: "VideoCodec list \<Rightarrow> VideoCodec list" where
  "advertised_codecs available = filter (\<lambda>c. c \<noteq> Stub) available"

definition codec_names :: "VideoCodec list \<Rightarrow> string list" where
  "codec_names codecs = map as_str codecs"

definition codecs_from_params :: "string list option \<Rightarrow> VideoCodec list" where
  "codecs_from_params entries =
     (case entries of Some arr \<Rightarrow> List.map_filter codec_parse arr | None \<Rightarrow> [])"

lemma from_as_wire [simp]: "from_wire (as_wire c) = Some c"
  by (cases c) (simp_all add: from_wire_def)

lemma as_from_wire: "from_wire b = Some c \<Longrightarrow> as_wire c = b"
  by (auto simp: from_wire_def split: if_splits)

lemma parse_as_str [simp]: "codec_parse (as_str c) = Some c"
  by (cases c) (simp_all add: codec_parse_def)

lemma codecs_from_names [simp]: "codecs_from_params (Some (codec_names cs)) = cs"
  by (induction cs) (simp_all add: codecs_from_params_def codec_names_def List.map_filter_def)

lemma codec_in_preference [simp]: "c \<in> set PREFERENCE" "c \<in> set ROOM_PREFERENCE"
  by (cases c; simp add: PREFERENCE_def ROOM_PREFERENCE_def)+

lemma negotiate_None_iff: "negotiate l r = None \<longleftrightarrow> set l \<inter> set r = {}"
  by (auto simp: negotiate_def find_None_iff)

text \<open>
  Codec negotiation is sound and needs no further message. Two peers that exchange their
  advertised lists as \<open>params.codecs\<close> and negotiate, each from its own side, reach the same
  answer; it is a codec both can run, it is never the test stub, it is the first common one of the
  preference order, and there is none exactly when the advertised sets are disjoint.
\<close>

theorem negotiate_agreement:
  "let at_a = negotiate a (codecs_from_params (Some (codec_names (advertised_codecs b))));
       at_b = negotiate b (codecs_from_params (Some (codec_names (advertised_codecs a))))
   in at_a = at_b \<and> at_a = find (\<lambda>c. c \<in> set a \<inter> set b - {Stub}) PREFERENCE \<and>
      (at_a = None \<longleftrightarrow> set a \<inter> set b \<subseteq> {Stub})"
proof -
  have common: "negotiate l (codecs_from_params (Some (codec_names (advertised_codecs r)))) =
      find (\<lambda>c. c \<in> set l \<inter> set r - {Stub}) PREFERENCE" for l r
    by (auto simp: negotiate_def advertised_codecs_def intro!: arg_cong2 [of _ _ _ _ find])
  have "find (\<lambda>c. c \<in> set a \<inter> set b - {Stub}) PREFERENCE = None \<longleftrightarrow> set a \<inter> set b \<subseteq> {Stub}"
    by (auto simp: find_None_iff)
  then show ?thesis unfolding common Let_def by (simp add: Int_commute)
qed

end
