(* ===== verification/Device_Routes.thy ===== *)
theory Device_Routes
  imports Prelude
begin

section \<open>Endpoint-aware routing table (\<open>device.rs\<close>)\<close>

text \<open>
  One live connection per endpoint of an identity: the legacy slot \<open>None\<close> and up to eight device
  slots. The table is keyed by \<open>identity_key\<close>, which re-encodes a key so that padded and unpadded
  spellings meet. The base64 engines are the \<open>base64\<close> crate's: they are the fields of the record
  \<open>b64\<close>, a parameter of every operation. A \<open>BTreeMap\<close> is an association list with distinct
  keys.
\<close>

record b64 =
  no_pad_decode :: "string \<Rightarrow> bytes option"
  url_safe_encode :: "bytes \<Rightarrow> string"

type_synonym DeviceId = bytes

definition MAX_LIVE_DEVICE_ROUTES :: nat where "MAX_LIVE_DEVICE_ROUTES = 8"

definition identity_key :: "b64 \<Rightarrow> string \<Rightarrow> string" where
  "identity_key e identity =
     (let bare = trim_end_matches (CHR ''='') identity
      in case no_pad_decode e bare of
           Some bs \<Rightarrow> if length bs = 32 then url_safe_encode e bs else identity
         | None \<Rightarrow> identity)"

datatype DeviceRouteLimit = DeviceRouteLimit

type_synonym 't endpoint_slots = "(DeviceId option, 't) hmap"
type_synonym 't DeviceRoutes = "(string, 't endpoint_slots) hmap"

definition slots :: "'t DeviceRoutes \<Rightarrow> string \<Rightarrow> 't endpoint_slots" where
  "slots r k = (case hm_get r k of Some m \<Rightarrow> m | None \<Rightarrow> [])"

definition routes_default :: "'t DeviceRoutes" where
  "routes_default = []"

definition routes_insert :: "b64 \<Rightarrow> 't DeviceRoutes \<Rightarrow> string \<Rightarrow> 't \<Rightarrow> 't option \<times> 't DeviceRoutes" where
  "routes_insert e r identity sender =
     (let k = identity_key e identity; m = slots r k
      in (hm_get m None, hm_insert k (hm_insert None sender m) r))"

text \<open>
  The identity's entry exists after \<open>entry(..).or_default()\<close> even when the registration is
  refused.
\<close>

definition register_device ::
  "b64 \<Rightarrow> 't DeviceRoutes \<Rightarrow> string \<Rightarrow> DeviceId \<Rightarrow> 't \<Rightarrow> (DeviceRouteLimit + 't option) \<times> 't DeviceRoutes" where
  "register_device e r identity device sender =
     (let k = identity_key e identity; m = slots r k
      in if \<not> hm_contains m (Some device) \<and>
            length (filter (\<lambda>d. d \<noteq> None) (hm_keys m)) \<ge> MAX_LIVE_DEVICE_ROUTES
         then (Inl DeviceRouteLimit, hm_insert k m r)
         else (Inr (hm_get m (Some device)), hm_insert k (hm_insert (Some device) sender m) r))"

definition get_endpoint :: "b64 \<Rightarrow> 't DeviceRoutes \<Rightarrow> string \<Rightarrow> DeviceId option \<Rightarrow> 't option" where
  "get_endpoint e r identity device =
     (case hm_get r (identity_key e identity) of Some m \<Rightarrow> hm_get m device | None \<Rightarrow> None)"

definition routes_get :: "b64 \<Rightarrow> 't DeviceRoutes \<Rightarrow> string \<Rightarrow> 't option" where
  "routes_get e r identity = get_endpoint e r identity None"

definition routes_len :: "'t DeviceRoutes \<Rightarrow> nat" where
  "routes_len r = sum_list (map length (hm_values r))"

definition routes_iter :: "'t DeviceRoutes \<Rightarrow> (string \<times> DeviceId option \<times> 't) list" where
  "routes_iter r = concat (map (\<lambda>(k, m). map (\<lambda>(d, v). (k, d, v)) m) r)"

definition remove_endpoint_if ::
  "b64 \<Rightarrow> 't DeviceRoutes \<Rightarrow> string \<Rightarrow> DeviceId option \<Rightarrow> ('t \<Rightarrow> bool) \<Rightarrow> bool \<times> 't DeviceRoutes" where
  "remove_endpoint_if e r identity device matches =
     (let k = identity_key e identity
      in case hm_get r k of
           None \<Rightarrow> (False, r)
         | Some m \<Rightarrow>
             (case hm_get m device of
                None \<Rightarrow> (False, r)
              | Some v \<Rightarrow>
                  if \<not> matches v then (False, r)
                  else
                    let m = hm_remove device m
                    in (True, if m = [] then hm_remove k r else hm_insert k m r)))"

definition routes_remove :: "b64 \<Rightarrow> 't DeviceRoutes \<Rightarrow> string \<Rightarrow> 't option \<times> 't DeviceRoutes" where
  "routes_remove e r identity =
     (let k = identity_key e identity
      in case hm_get r k of
           None \<Rightarrow> (None, r)
         | Some m \<Rightarrow>
             let m' = hm_remove None m
             in (hm_get m None, if m' = [] then hm_remove k r else hm_insert k m' r))"

definition routes_contains_key :: "b64 \<Rightarrow> 't DeviceRoutes \<Rightarrow> string \<Rightarrow> bool" where
  "routes_contains_key e r identity = hm_contains r (identity_key e identity)"

definition endpoints :: "b64 \<Rightarrow> 't DeviceRoutes \<Rightarrow> string \<Rightarrow> (DeviceId option \<times> 't) list" where
  "endpoints e r identity = slots r (identity_key e identity)"

text \<open>A write through \<open>get_endpoint_mut\<close>: the stored connection, when there is one, is updated in place.\<close>

definition get_endpoint_mut :: "b64 \<Rightarrow> 't DeviceRoutes \<Rightarrow> string \<Rightarrow> DeviceId option \<Rightarrow> ('t \<Rightarrow> 't) \<Rightarrow> 't DeviceRoutes" where
  "get_endpoint_mut e r identity device f = hm_modify (identity_key e identity) (hm_modify device f) r"

subsection \<open>Lookups after each operation\<close>

text \<open>The table as a partial map from an identity key and a slot to a connection.\<close>

definition slot_at :: "'t DeviceRoutes \<Rightarrow> string \<Rightarrow> DeviceId option \<Rightarrow> 't option" where
  "slot_at r k d = hm_get (slots r k) d"

lemma get_endpoint_slot: "get_endpoint e r i d = slot_at r (identity_key e i) d"
  by (simp add: get_endpoint_def slot_at_def slots_def split: option.splits)

lemma hm_remove_singleton: "hm_remove y m = [] \<Longrightarrow> z \<noteq> y \<Longrightarrow> hm_get m z = None"
  by (metis hm_get_Nil hm_get_remove)

lemma slot_at_default [simp]: "slot_at routes_default k d = None"
  by (simp add: slot_at_def slots_def routes_default_def)

lemma slot_at_insert [coll_simps]:
  "slot_at (snd (routes_insert e r i v)) k x =
     (if k = identity_key e i \<and> x = None then Some v else slot_at r k x)"
  by (auto simp: routes_insert_def slot_at_def slots_def Let_def coll_simps split: option.splits)

lemma slot_at_register [coll_simps]:
  "slot_at (snd (register_device e r i d v)) k x =
     (if k = identity_key e i \<and> x = Some d \<and> \<not> isl (fst (register_device e r i d v))
      then Some v else slot_at r k x)"
  by (auto simp: register_device_def slot_at_def slots_def Let_def coll_simps split: option.splits)

lemma fst_remove_endpoint_if:
  "fst (remove_endpoint_if e r i y f) = (case slot_at r (identity_key e i) y of Some v \<Rightarrow> f v | None \<Rightarrow> False)"
  by (auto simp: remove_endpoint_if_def slot_at_def slots_def Let_def coll_simps split: option.splits)

lemma slot_at_remove_if [coll_simps]:
  "slot_at (snd (remove_endpoint_if e r i y f)) k x =
     (if k = identity_key e i \<and> x = y \<and> (case slot_at r k x of Some v \<Rightarrow> f v | None \<Rightarrow> False)
      then None else slot_at r k x)"
  by (auto simp: remove_endpoint_if_def slot_at_def slots_def Let_def coll_simps hm_remove_singleton split: option.splits)

lemma slot_at_remove [coll_simps]:
  "slot_at (snd (routes_remove e r i)) k x =
     (if k = identity_key e i \<and> x = None then None else slot_at r k x)"
  by (auto simp: routes_remove_def slot_at_def slots_def Let_def coll_simps hm_remove_singleton split: option.splits)

lemma slot_at_mut [coll_simps]:
  "slot_at (get_endpoint_mut e r i d f) k x =
     (if k = identity_key e i \<and> x = d then map_option f (slot_at r k x) else slot_at r k x)"
  by (auto simp: get_endpoint_mut_def slot_at_def slots_def coll_simps split: option.splits)

subsection \<open>The invariant\<close>

datatype 't route_op =
    InsertOp string 't
  | RegisterOp string DeviceId 't
  | RemoveIfOp string "DeviceId option" "'t \<Rightarrow> bool"
  | RemoveOp string
  | MutOp string "DeviceId option" "'t \<Rightarrow> 't"

fun route_step :: "b64 \<Rightarrow> 't DeviceRoutes \<Rightarrow> 't route_op \<Rightarrow> 't DeviceRoutes" where
  "route_step e r (InsertOp i v) = snd (routes_insert e r i v)"
| "route_step e r (RegisterOp i d v) = snd (register_device e r i d v)"
| "route_step e r (RemoveIfOp i d f) = snd (remove_endpoint_if e r i d f)"
| "route_step e r (RemoveOp i) = snd (routes_remove e r i)"
| "route_step e r (MutOp i d f) = get_endpoint_mut e r i d f"

definition slots_inv :: "'t endpoint_slots \<Rightarrow> bool" where
  "slots_inv m \<longleftrightarrow> hm_wf m \<and> m \<noteq> [] \<and>
     length (filter (\<lambda>d. d \<noteq> None) (hm_keys m)) \<le> MAX_LIVE_DEVICE_ROUTES"

definition routes_inv :: "'t DeviceRoutes \<Rightarrow> bool" where
  "routes_inv r \<longleftrightarrow> hm_wf r \<and> (\<forall>m \<in> snd ` set r. slots_inv m)"

lemma devices_hm_insert_None:
  "filter (\<lambda>d. d \<noteq> None) (hm_keys (hm_insert None v m)) = filter (\<lambda>d. d \<noteq> None) (hm_keys m)"
  by (induction m) (auto simp: hm_keys_def)

lemma devices_hm_insert_le:
  "length (filter (\<lambda>d. d \<noteq> None) (hm_keys (hm_insert (Some d) v m))) \<le>
     (if hm_contains m (Some d) then 0 else 1) + length (filter (\<lambda>d. d \<noteq> None) (hm_keys m))"
  by (induction m) (auto simp: hm_keys_def hm_contains_def split: if_splits)

lemma devices_hm_remove_le:
  "length (filter P (hm_keys (hm_remove d m))) \<le> length (filter P (hm_keys m))"
  by (induction m) (auto simp: hm_keys_def hm_remove_def)

lemma hm_insert_not_Nil [simp]: "hm_insert k v m \<noteq> []"
  by (cases m) (auto split: if_splits)

lemma slots_inv_or_empty: "routes_inv r \<Longrightarrow> slots r k = [] \<or> slots_inv (slots r k)"
  by (auto simp: slots_def routes_inv_def split: option.splits dest!: hm_get_SomeD)

lemma slots_inv_insert:
  assumes "m = [] \<or> slots_inv m" and "\<And>x. d = Some x \<Longrightarrow> hm_contains m d \<or>
      length (filter (\<lambda>d. d \<noteq> None) (hm_keys m)) < MAX_LIVE_DEVICE_ROUTES"
  shows "slots_inv (hm_insert d v m)"
proof -
  have "hm_wf m" using assms(1) by (auto simp: slots_inv_def)
  moreover have "length (filter (\<lambda>d. d \<noteq> None) (hm_keys m)) \<le> MAX_LIVE_DEVICE_ROUTES"
    using assms(1) by (auto simp: slots_inv_def hm_keys_def)
  ultimately have base: "hm_wf (hm_insert d v m)"
    "length (filter (\<lambda>d. d \<noteq> None) (hm_keys m)) \<le> MAX_LIVE_DEVICE_ROUTES"
    by (simp_all add: hm_wf_insert)
  show ?thesis
  proof (cases d)
    case None
    then show ?thesis using base unfolding slots_inv_def by (simp only: devices_hm_insert_None) simp
  next
    case (Some x)
    have "(if hm_contains m (Some x) then 0 else 1) + length (filter (\<lambda>d. d \<noteq> None) (hm_keys m))
        \<le> MAX_LIVE_DEVICE_ROUTES"
      using assms(2) [OF Some] base(2) Some by auto
    from order_trans [OF devices_hm_insert_le [of x v m] this] show ?thesis
      using base(1) Some by (simp add: slots_inv_def)
  qed
qed

lemma slots_inv_remove: "slots_inv m \<Longrightarrow> hm_remove d m \<noteq> [] \<Longrightarrow> slots_inv (hm_remove d m)"
  by (auto simp: slots_inv_def hm_wf_remove intro: order_trans [OF devices_hm_remove_le])

lemma routes_inv_insert: "routes_inv r \<Longrightarrow> slots_inv m \<Longrightarrow> routes_inv (hm_insert k m r)"
  using set_hm_insert [of k m r] by (auto simp: routes_inv_def hm_wf_insert)

lemma routes_inv_remove: "routes_inv r \<Longrightarrow> routes_inv (hm_remove k r)"
  by (auto simp: routes_inv_def hm_wf_remove) (auto simp: hm_remove_def)

lemma slots_inv_modify: "slots_inv m \<Longrightarrow> slots_inv (hm_modify d f m)"
  by (auto simp: slots_inv_def hm_wf_modify hm_keys_def) (simp add: hm_modify_def)

lemma routes_inv_mut: "routes_inv r \<Longrightarrow> routes_inv (get_endpoint_mut e r i d f)"
  using hm_wf_modify [of r "identity_key e i" "hm_modify d f"] slots_inv_modify [of _ d f]
  unfolding routes_inv_def get_endpoint_mut_def
  by (fastforce simp: hm_modify_def [of "identity_key e i"])

lemma route_step_inv: "routes_inv r \<Longrightarrow> routes_inv (route_step e r op)"
proof (cases op)
  case (InsertOp i v)
  assume "routes_inv r"
  then show ?thesis
    using slots_inv_insert [OF slots_inv_or_empty [of r "identity_key e i"], of None v] InsertOp
    by (simp add: routes_insert_def Let_def routes_inv_insert)
next
  case (RegisterOp i d v)
  assume r: "routes_inv r"
  let ?m = "slots r (identity_key e i)"
  show ?thesis
  proof (cases "\<not> hm_contains ?m (Some d) \<and>
      length (filter (\<lambda>d. d \<noteq> None) (hm_keys ?m)) \<ge> MAX_LIVE_DEVICE_ROUTES")
    case True
    then have "?m \<noteq> []" by (auto simp: hm_keys_def MAX_LIVE_DEVICE_ROUTES_def)
    then show ?thesis
      using True r slots_inv_or_empty [OF r, of "identity_key e i"] RegisterOp by (auto simp: register_device_def Let_def routes_inv_insert)
  next
    case False
    then show ?thesis
      using r slots_inv_insert [OF slots_inv_or_empty [OF r], of "Some d"] RegisterOp
      by (auto simp: register_device_def Let_def not_le intro!: routes_inv_insert)
  qed
next
  case (RemoveIfOp i d f)
  assume r: "routes_inv r"
  then have "slots_inv m" if "hm_get r (identity_key e i) = Some m" for m
    using that by (force simp: routes_inv_def dest: hm_get_SomeD)
  then show ?thesis
    using r RemoveIfOp
    by (auto simp: remove_endpoint_if_def Let_def routes_inv_remove routes_inv_insert slots_inv_remove
        split: option.splits)
next
  case (RemoveOp i)
  assume r: "routes_inv r"
  then have "slots_inv m" if "hm_get r (identity_key e i) = Some m" for m
    using that by (force simp: routes_inv_def dest: hm_get_SomeD)
  then show ?thesis
    using r RemoveOp
    by (auto simp: routes_remove_def Let_def routes_inv_remove routes_inv_insert slots_inv_remove
        split: option.splits)
next
  case (MutOp i d f)
  assume "routes_inv r"
  then show ?thesis by (simp add: MutOp routes_inv_mut)
qed

interpretation routes: invariant_system routes_default "route_step e" routes_inv for e
proof unfold_locales
  show "routes_inv routes_default" by (simp add: routes_inv_def routes_default_def)
qed (rule route_step_inv)

lemma slots_length: "slots_inv m \<Longrightarrow> length m \<le> 9"
proof -
  assume m: "slots_inv m"
  have "length (filter (\<lambda>d. d = None) ds) \<le> 1" if "distinct ds" for ds :: "DeviceId option list"
    using that by (induction ds) (auto simp: filter_empty_conv, metis option.exhaust)
  then have "length (filter (\<lambda>d. d = None) (hm_keys m)) \<le> 1"
    using m unfolding slots_inv_def hm_wf_def hm_keys_def by blast
  moreover have "length (hm_keys m) = length (filter (\<lambda>d. d \<noteq> None) (hm_keys m)) + length (filter (\<lambda>d. d = None) (hm_keys m))"
    using sum_length_filter_compl [of "\<lambda>d. d \<noteq> None" "hm_keys m"] by simp
  ultimately show ?thesis using m by (simp add: slots_inv_def MAX_LIVE_DEVICE_ROUTES_def hm_keys_def)
qed

lemma identity_key_padding:
  "case no_pad_decode e (trim_end_matches (CHR ''='') s) of
     Some bs \<Rightarrow> length bs = 32 \<longrightarrow> identity_key e (s @ replicate n (CHR ''='')) = identity_key e s
   | None \<Rightarrow> True"
proof -
  have "trim_end_matches (CHR ''='') (s @ replicate n (CHR ''='')) = trim_end_matches (CHR ''='') s"
    by (induction n) (simp_all add: replicate_append_same [symmetric] flip: append_assoc)
  then show ?thesis by (simp add: identity_key_def Let_def split: option.splits)
qed

text \<open>
  After any sequence of registrations and removals an identity has at most nine live
  endpoints, eight devices and the legacy slot, no identity is present without an endpoint, and
  for a 32-byte key neither the limit nor presence can be split by padding: every spelling of the
  key with any number of trailing \<open>=\<close> has the same endpoints.
\<close>

theorem device_routes_bounded:
  "let r = foldl (route_step e) routes_default ops
   in set r \<subseteq> {(k, m). m \<noteq> [] \<and> distinct (hm_keys m) \<and> length m \<le> 9 \<and>
        length (filter (\<lambda>d. d \<noteq> None) (hm_keys m)) \<le> 8} \<and>
      {n. endpoints e r (s @ replicate n (CHR ''='')) = endpoints e r s} \<supseteq>
        (case no_pad_decode e (trim_end_matches (CHR ''='') s) of
           Some bs \<Rightarrow> (if length bs = 32 then UNIV else {}) | None \<Rightarrow> {})"
proof -
  have inv: "routes_inv (foldl (route_step e) routes_default ops)" by (rule routes.inv_reachable)
  then have "set (foldl (route_step e) routes_default ops) \<subseteq> {(k, m). m \<noteq> [] \<and> distinct (hm_keys m) \<and> length m \<le> 9 \<and>
        length (filter (\<lambda>d. d \<noteq> None) (hm_keys m)) \<le> 8}"
    by (force simp: routes_inv_def slots_inv_def MAX_LIVE_DEVICE_ROUTES_def hm_wf_def hm_keys_def
        intro: slots_length)
  then show ?thesis
    using identity_key_padding [of e s] by (auto simp: Let_def endpoints_def split: option.splits if_splits)
qed

text \<open>
  C26: the table refines a partial map from (identity key, endpoint) to connections, one slot
  per endpoint. A registration that is not refused sets exactly its own slot, a refused one
  changes no lookup; \<open>remove_endpoint_if\<close> clears exactly its own slot and only when the stored
  connection matches, so the clean-up of a replaced connection removes nothing; \<open>remove\<close> clears
  exactly the legacy slot.
\<close>

theorem device_routes_refine_map:
  "get_endpoint e (snd (routes_insert e r i v)) j x =
     (if identity_key e j = identity_key e i \<and> x = None then Some v else get_endpoint e r j x) \<and>
   get_endpoint e (snd (register_device e r i d v)) j x =
     (if identity_key e j = identity_key e i \<and> x = Some d \<and> \<not> isl (fst (register_device e r i d v))
      then Some v else get_endpoint e r j x) \<and>
   get_endpoint e (snd (remove_endpoint_if e r i y f)) j x =
     (if identity_key e j = identity_key e i \<and> x = y \<and> fst (remove_endpoint_if e r i y f)
      then None else get_endpoint e r j x) \<and>
   fst (remove_endpoint_if e r i y f) = (case get_endpoint e r i y of Some v \<Rightarrow> f v | None \<Rightarrow> False) \<and>
   get_endpoint e (snd (routes_remove e r i)) j x =
     (if identity_key e j = identity_key e i \<and> x = None then None else get_endpoint e r j x)"
  unfolding get_endpoint_slot by (auto simp: coll_simps fst_remove_endpoint_if)

end
