(* ===== verification/Fragment.thy ===== *)
theory Fragment
  imports Video_Codec
begin

unbundle bit_operations_syntax

section \<open>Video frame fragmentation and reassembly (\<open>video/fragment.rs\<close>)\<close>

text \<open>
  The sender splits a sealed frame into datagrams, the receiver puts datagrams that arrive in any
  order, duplicated, late or hostile, back together within fixed bounds of time and memory. The
  module has no clock of its own: an \<open>Instant\<close> is a number of nanoseconds and \<open>duration_since\<close>
  is natural subtraction. \<open>usize\<close> values are naturals; \<open>frame_seq\<close> keeps its 32 bits, since the
  sequence comparison is about its wrap-around.
\<close>

definition FRAGMENT_VERSION :: u8 where "FRAGMENT_VERSION = 0x03"
definition FIXED_PREFIX_LEN :: nat where "FIXED_PREFIX_LEN = 12"
definition FIXED_SUFFIX_LEN :: nat where "FIXED_SUFFIX_LEN = 8"
definition SIGNATURE_LEN :: nat where "SIGNATURE_LEN = 64"
definition MAX_SENDER_LEN :: nat where "MAX_SENDER_LEN = 64"
definition FLAG_KEYFRAME :: u8 where "FLAG_KEYFRAME = 0b00000001"
definition FLAG_HAS_SIGNATURE :: u8 where "FLAG_HAS_SIGNATURE = 0b00000010"
definition MAX_FRAGS_PER_FRAME :: u16 where "MAX_FRAGS_PER_FRAME = 512"
definition PORTABLE_MAX_DATAGRAM :: nat where "PORTABLE_MAX_DATAGRAM = 1200 - (1 + 20 + 4 + 16) - 9"
definition MAX_ENCODED_FRAME_BYTES :: nat where
  "MAX_ENCODED_FRAME_BYTES = unat MAX_FRAGS_PER_FRAME *
     (PORTABLE_MAX_DATAGRAM - 2 - (FIXED_PREFIX_LEN + 44 + FIXED_SUFFIX_LEN) - SIGNATURE_LEN) - 64"
definition MAX_PARTIAL_BYTES_PER_SENDER :: nat where "MAX_PARTIAL_BYTES_PER_SENDER = 1536 * 1024"
definition MAX_SENDERS :: nat where "MAX_SENDERS = 32"
definition MAX_IN_FLIGHT_PER_SENDER :: nat where "MAX_IN_FLIGHT_PER_SENDER = 8"
definition PARTIAL_TIMEOUT :: nat where "PARTIAL_TIMEOUT = 200 * 1000000"
definition PARTIAL_TIMEOUT_PER_FRAGMENT :: nat where "PARTIAL_TIMEOUT_PER_FRAGMENT = 2 * 1000000"
definition MONOTONIC_LAG :: u32 where "MONOTONIC_LAG = 2"
definition RESTART_BACKWARD_JUMP :: u32 where "RESTART_BACKWARD_JUMP = 256"

lemmas size_consts = FIXED_PREFIX_LEN_def FIXED_SUFFIX_LEN_def SIGNATURE_LEN_def MAX_SENDER_LEN_def

definition partial_timeout :: "nat \<Rightarrow> nat" where
  "partial_timeout frag_count = max PARTIAL_TIMEOUT (PARTIAL_TIMEOUT_PER_FRAGMENT * frag_count)"

record FragmentHeader =
  keyframe :: bool
  codec :: VideoCodec
  pts_us :: u64
  sender :: string
  frame_seq :: u32
  frag_idx :: u16
  frag_count :: u16
  signature :: "bytes option"

record ReassembledFrame =
  rf_sender :: string
  rf_frame_seq :: u32
  rf_keyframe :: bool
  rf_codec :: VideoCodec
  rf_pts_us :: u64
  rf_signature :: bytes
  rf_sealed :: bytes

definition is_stream_restart :: "u32 \<Rightarrow> FragmentHeader \<Rightarrow> bool" where
  "is_stream_restart latest hdr \<longleftrightarrow> keyframe hdr \<and> latest - frame_seq hdr > RESTART_BACKWARD_JUMP"

subsection \<open>Serialisation\<close>

definition div_ceil :: "nat \<Rightarrow> nat \<Rightarrow> nat" where
  "div_ceil a b = (a + b - 1) div b"

text \<open>The header and chunk of fragment \<open>idx\<close>: the body of the loop of \<open>fragment_frame\<close>.\<close>

definition encode_fragment ::
  "string \<Rightarrow> u32 \<Rightarrow> bool \<Rightarrow> VideoCodec \<Rightarrow> u64 \<Rightarrow> bytes \<Rightarrow> nat \<Rightarrow> nat \<Rightarrow> bytes \<Rightarrow> bytes" where
  "encode_fragment snd_id seq key cdc pts sig idx count chunk =
     (let is_first = (idx = 0);
          flags = (0 :: u8);
          flags = (if key then flags OR FLAG_KEYFRAME else flags);
          flags = (if is_first then flags OR FLAG_HAS_SIGNATURE else flags)
      in [FRAGMENT_VERSION, flags, as_wire cdc] @ be_bytes 8 (unat pts) @
         [word_of_nat (length snd_id)] @ as_bytes snd_id @ be_bytes 4 (unat seq) @
         be_bytes 2 (unat (word_of_nat idx :: u16)) @ be_bytes 2 (unat (word_of_nat count :: u16)) @
         (if is_first then sig else []) @ chunk)"

definition fragment_frame ::
  "string \<Rightarrow> u32 \<Rightarrow> bool \<Rightarrow> VideoCodec \<Rightarrow> u64 \<Rightarrow> bytes \<Rightarrow> bytes \<Rightarrow> nat \<Rightarrow> bytes list option" where
  "fragment_frame snd_id seq key cdc pts sig sealed max_payload =
     (if snd_id = [] \<or> length snd_id > MAX_SENDER_LEN then None
      else
        let base = FIXED_PREFIX_LEN + length snd_id + FIXED_SUFFIX_LEN
        in if max_payload < base + SIGNATURE_LEN then None
           else
             let chunk_cap = max_payload - (base + SIGNATURE_LEN)
             in if chunk_cap = 0 then None
                else
                  let count = max (div_ceil (length sealed) chunk_cap) 1
                  in if count > unat MAX_FRAGS_PER_FRAME then None
                     else Some (map (\<lambda>idx.
                       let start = idx * chunk_cap;
                           chunk = take (min (start + chunk_cap) (length sealed) - start)
                                     (drop start sealed)
                       in encode_fragment snd_id seq key cdc pts sig idx count chunk) [0..<count]))"

definition parse_fragment :: "bytes \<Rightarrow> (FragmentHeader \<times> bytes) option" where
  "parse_fragment buf =
     (if length buf < FIXED_PREFIX_LEN then None
      else if buf ! 0 \<noteq> FRAGMENT_VERSION then None
      else
        let flags = buf ! 1
        in case from_wire (buf ! 2) of
          None \<Rightarrow> None
        | Some cdc \<Rightarrow>
          let pts = word_of_nat (from_be (take 8 (drop 3 buf)));
              sender_len = unat (buf ! 11)
          in if sender_len = 0 \<or> sender_len > MAX_SENDER_LEN then None
             else
               let sender_end = FIXED_PREFIX_LEN + sender_len;
                   suffix_end = sender_end + FIXED_SUFFIX_LEN
               in if length buf < suffix_end then None
                  else case from_utf8 (take sender_len (drop FIXED_PREFIX_LEN buf)) of
                    None \<Rightarrow> None
                  | Some snd_id \<Rightarrow>
                    let seq = word_of_nat (from_be (take 4 (drop sender_end buf)));
                        idx = word_of_nat (from_be (take 2 (drop (sender_end + 4) buf))) :: u16;
                        count = word_of_nat (from_be (take 2 (drop (sender_end + 6) buf))) :: u16
                    in if count = 0 \<or> count > MAX_FRAGS_PER_FRAME then None
                       else if idx \<ge> count then None
                       else
                         let has_sig = (flags AND FLAG_HAS_SIGNATURE \<noteq> 0)
                         in if has_sig \<noteq> (idx = 0) then None
                            else if has_sig \<and> length buf < suffix_end + SIGNATURE_LEN then None
                            else
                              let (sig, chunk_start) =
                                (if has_sig
                                 then (Some (take SIGNATURE_LEN (drop suffix_end buf)),
                                       suffix_end + SIGNATURE_LEN)
                                 else (None, suffix_end))
                              in Some (\<lparr>keyframe = (flags AND FLAG_KEYFRAME \<noteq> 0), codec = cdc,
                                   pts_us = pts, sender = snd_id, frame_seq = seq, frag_idx = idx,
                                   frag_count = count, signature = sig\<rparr>,
                                 drop chunk_start buf))"

definition seq_newer :: "u32 \<Rightarrow> u32 \<Rightarrow> bool" where
  "seq_newer a b \<longleftrightarrow> a \<noteq> b \<and> a - b < 0x80000000"

subsection \<open>Reassembly\<close>

record PartialFrame =
  pf_keyframe :: bool
  pf_codec :: VideoCodec
  pf_pts_us :: u64
  pf_signature :: "bytes option"
  pf_chunks :: "bytes option list"
  pf_received :: nat
  pf_bytes :: nat
  pf_first_seen :: nat

record SenderState =
  partials :: "(u32, PartialFrame) hmap"
  s_bytes :: nat
  last_completed :: "u32 option"

type_synonym Reassembler = "(string, SenderState) hmap"

definition sender_default :: SenderState where
  "sender_default = \<lparr>partials = [], s_bytes = 0, last_completed = None\<rparr>"

definition reassembler_new :: Reassembler where
  "reassembler_new = []"

definition drop_partial :: "u32 \<Rightarrow> SenderState \<Rightarrow> SenderState" where
  "drop_partial seq s =
     (case hm_get (partials s) seq of
        Some p \<Rightarrow> s\<lparr>partials := hm_remove seq (partials s), s_bytes := s_bytes s - pf_bytes p\<rparr>
      | None \<Rightarrow> s)"

text \<open>\<open>min_by_key(first_seen)\<close>: the first entry, in iteration order, with the least key.\<close>

fun oldest :: "(u32, PartialFrame) hmap \<Rightarrow> u32 option" where
  "oldest [] = None"
| "oldest (p # ps) = Some (fst (foldl (\<lambda>best q.
     if pf_first_seen (snd q) < pf_first_seen (snd best) then q else best) p ps))"

definition evict_oldest :: "SenderState \<Rightarrow> SenderState" where
  "evict_oldest s = (case oldest (partials s) of Some seq \<Rightarrow> drop_partial seq s | None \<Rightarrow> s)"

definition reasm_tracked_senders :: "Reassembler \<Rightarrow> nat" where
  "reasm_tracked_senders r = length r"

definition buffered_bytes :: "Reassembler \<Rightarrow> string \<Rightarrow> nat" where
  "buffered_bytes r snd_id = (case hm_get r snd_id of Some s \<Rightarrow> s_bytes s | None \<Rightarrow> 0)"

definition reassembler_clear :: "Reassembler \<Rightarrow> Reassembler" where
  "reassembler_clear r = []"

definition drop_expired :: "nat \<Rightarrow> SenderState \<Rightarrow> SenderState" where
  "drop_expired now s =
     (let expired = map fst (filter (\<lambda>p.
            now - pf_first_seen (snd p) \<ge> partial_timeout (length (pf_chunks (snd p)))) (partials s))
      in fold drop_partial expired s)"

definition evict_expired :: "Reassembler \<Rightarrow> nat \<Rightarrow> Reassembler" where
  "evict_expired r now =
     filter (\<lambda>p. partials (snd p) \<noteq> [] \<or> last_completed (snd p) \<noteq> None)
       (map (\<lambda>p. (fst p, drop_expired now (snd p))) r)"

text \<open>The loop that sheds the oldest partial frames until the new chunk fits.\<close>

lemma oldest_in:
  assumes "oldest ps = Some seq"
  shows "seq \<in> fst ` set ps"
proof -
  let ?pick = "\<lambda>best q. if pf_first_seen (snd q) < pf_first_seen (snd best) then q else best"
  have pick: "foldl ?pick b qs \<in> insert b (set qs)" for b qs
    by (induction qs arbitrary: b) (simp, smt (verit) foldl_Cons insert_iff list.set(2))
  obtain p qs where "ps = p # qs" using assms by (cases ps) auto
  with assms pick [of p qs] show ?thesis by force
qed

lemma evict_oldest_length:
  assumes "partials s \<noteq> []"
  shows "length (partials (evict_oldest s)) < length (partials s)"
proof -
  obtain seq where seq: "oldest (partials s) = Some seq"
    using assms by (cases "partials s") auto
  then have in_s: "seq \<in> fst ` set (partials s)" by (rule oldest_in)
  then obtain p where p: "hm_get (partials s) seq = Some p"
    by (metis hm_get_None_iff not_None_eq)
  have "length (hm_remove seq (partials s)) < length (partials s)"
    using in_s by (auto simp: hm_remove_def intro!: length_filter_less)
  then show ?thesis using seq p by (simp add: evict_oldest_def drop_partial_def)
qed

function shed :: "nat \<Rightarrow> SenderState \<Rightarrow> SenderState" where
  "shed n s =
     (if s_bytes s + n > MAX_PARTIAL_BYTES_PER_SENDER \<and> length (partials s) > 1
      then shed n (evict_oldest s) else s)"
  by pat_completeness auto
termination
  by (relation "measure (\<lambda>(n, s). length (partials s))") (auto intro!: evict_oldest_length)

declare shed.simps [simp del]

text \<open>
  \<open>push\<close>, after the header is parsed and the sender's entry found, is a sequence of stages on that
  entry. Each stage either returns from \<open>push\<close> without a frame or goes on.
\<close>

definition superseded :: "SenderState \<Rightarrow> FragmentHeader \<Rightarrow> bool" where
  "superseded s hdr =
     (case last_completed s of
        None \<Rightarrow> False
      | Some l \<Rightarrow> seq_newer (l - MONOTONIC_LAG) (frame_seq hdr) \<or> frame_seq hdr = l)"

definition restarts :: "SenderState \<Rightarrow> FragmentHeader \<Rightarrow> bool" where
  "restarts s hdr =
     (case last_completed s of None \<Rightarrow> False | Some l \<Rightarrow> is_stream_restart l hdr)"

definition new_partial :: "FragmentHeader \<Rightarrow> nat \<Rightarrow> PartialFrame" where
  "new_partial hdr now =
     \<lparr>pf_keyframe = keyframe hdr, pf_codec = codec hdr, pf_pts_us = pts_us hdr,
      pf_signature = None, pf_chunks = replicate (unat (frag_count hdr)) None,
      pf_received = 0, pf_bytes = 0, pf_first_seen = now\<rparr>"

text \<open>Make room for a new partial frame, then \<open>entry(frame_seq).or_insert_with(..)\<close>.\<close>

definition open_partial :: "SenderState \<Rightarrow> FragmentHeader \<Rightarrow> nat \<Rightarrow> SenderState" where
  "open_partial s hdr now =
     (if hm_contains (partials s) (frame_seq hdr) then s
      else
        let s = (if length (partials s) \<ge> MAX_IN_FLIGHT_PER_SENDER then evict_oldest s else s)
        in s\<lparr>partials := hm_insert (frame_seq hdr) (new_partial hdr now) (partials s)\<rparr>)"

definition fits_partial :: "PartialFrame \<Rightarrow> FragmentHeader \<Rightarrow> bool" where
  "fits_partial p hdr \<longleftrightarrow>
     length (pf_chunks p) = unat (frag_count hdr) \<and> pf_codec p = codec hdr \<and>
     pf_pts_us p = pts_us hdr \<and> pf_chunks p ! unat (frag_idx hdr) = None"

definition store_chunk :: "PartialFrame \<Rightarrow> FragmentHeader \<Rightarrow> bytes \<Rightarrow> PartialFrame" where
  "store_chunk p hdr chunk =
     p\<lparr>pf_signature := (case signature hdr of Some sig \<Rightarrow> Some sig | None \<Rightarrow> pf_signature p),
       pf_bytes := pf_bytes p + length chunk,
       pf_chunks := (pf_chunks p)[unat (frag_idx hdr) := Some chunk],
       pf_received := pf_received p + 1\<rparr>"

text \<open>The loop that concatenates the chunks, which returns early at an empty slot.\<close>

fun join_chunks :: "bytes option list \<Rightarrow> bytes option" where
  "join_chunks [] = Some []"
| "join_chunks (None # cs) = None"
| "join_chunks (Some c # cs) = (case join_chunks cs of Some r \<Rightarrow> Some (c @ r) | None \<Rightarrow> None)"

definition finish_frame :: "SenderState \<Rightarrow> FragmentHeader \<Rightarrow> SenderState" where
  "finish_frame s hdr =
     (let s = drop_partial (frame_seq hdr) s;
          newer = (case last_completed s of None \<Rightarrow> True | Some l \<Rightarrow> seq_newer (frame_seq hdr) l)
      in if newer
         then
           let s = s\<lparr>last_completed := Some (frame_seq hdr)\<rparr>;
               cutoff = frame_seq hdr - MONOTONIC_LAG;
               stale = filter (\<lambda>seq. seq_newer cutoff seq) (hm_keys (partials s))
           in fold drop_partial stale s
         else s)"

definition complete_frame ::
  "SenderState \<Rightarrow> FragmentHeader \<Rightarrow> PartialFrame \<Rightarrow> ReassembledFrame option \<times> SenderState" where
  "complete_frame s hdr p =
     (if pf_received p < unat (frag_count hdr) then (None, s)
      else case pf_signature p of
        None \<Rightarrow> (None, s)
      | Some sig \<Rightarrow>
          (case join_chunks (pf_chunks p) of
             None \<Rightarrow> (None, s)
           | Some sealed \<Rightarrow>
               (Some \<lparr>rf_sender = sender hdr, rf_frame_seq = frame_seq hdr,
                  rf_keyframe = pf_keyframe p, rf_codec = pf_codec p, rf_pts_us = pf_pts_us p,
                  rf_signature = sig, rf_sealed = sealed\<rparr>,
                finish_frame s hdr)))"

definition push_sender ::
  "SenderState \<Rightarrow> FragmentHeader \<Rightarrow> bytes \<Rightarrow> nat \<Rightarrow> ReassembledFrame option \<times> SenderState" where
  "push_sender s hdr chunk now =
     (if superseded s hdr \<and> \<not> restarts s hdr then (None, s)
      else
        let s = (if superseded s hdr then sender_default else s);
            s = open_partial s hdr now
        in case hm_get (partials s) (frame_seq hdr) of
          None \<Rightarrow> (None, s)
        | Some p \<Rightarrow>
            if \<not> fits_partial p hdr then (None, s)
            else
              let s = shed (length chunk) s
              in if s_bytes s + length chunk > MAX_PARTIAL_BYTES_PER_SENDER
                 then (None, drop_partial (frame_seq hdr) s)
                 else case hm_get (partials s) (frame_seq hdr) of
                   None \<Rightarrow> (None, s)
                 | Some p \<Rightarrow>
                     let p = store_chunk p hdr chunk;
                         s = s\<lparr>partials := hm_modify (frame_seq hdr) (\<lambda>_. p) (partials s),
                               s_bytes := s_bytes s + length chunk\<rparr>
                     in complete_frame s hdr p)"

definition push :: "Reassembler \<Rightarrow> bytes \<Rightarrow> nat \<Rightarrow> ReassembledFrame option \<times> Reassembler" where
  "push r buf now =
     (case parse_fragment buf of
        None \<Rightarrow> (None, r)
      | Some (hdr, chunk) \<Rightarrow>
          let r = evict_expired r now
          in if \<not> hm_contains r (sender hdr) \<and> length r \<ge> MAX_SENDERS then (None, r)
             else
               let s = (case hm_get r (sender hdr) of Some s \<Rightarrow> s | None \<Rightarrow> sender_default);
                   (out, s) = push_sender s hdr chunk now
               in (out, hm_insert (sender hdr) s r))"

end
