(* ===== verification/Fragment_Wire.thy ===== *)
theory Fragment_Wire
  imports Fragment
begin

section \<open>The fragment wire format: sizes and round trip\<close>

text \<open>
  What \<open>fragment_frame\<close> writes is what \<open>parse_fragment\<close> reads back, and no fragment is longer
  than the datagram budget it was given.
\<close>

definition header_of ::
  "string \<Rightarrow> u32 \<Rightarrow> bool \<Rightarrow> VideoCodec \<Rightarrow> u64 \<Rightarrow> bytes \<Rightarrow> nat \<Rightarrow> nat \<Rightarrow> FragmentHeader" where
  "header_of snd_id seq key cdc pts sig idx count =
     \<lparr>keyframe = key, codec = cdc, pts_us = pts, sender = snd_id, frame_seq = seq,
      frag_idx = word_of_nat idx, frag_count = word_of_nat count,
      signature = (if idx = 0 then Some sig else None)\<rparr>"

lemma length_encode_fragment:
  "length (encode_fragment snd_id seq key cdc pts sig idx count chunk) =
     20 + length snd_id + (if idx = 0 then length sig else 0) + length chunk"
  by (simp add: encode_fragment_def Let_def)

definition frag_flags :: "bool \<Rightarrow> nat \<Rightarrow> u8" where
  "frag_flags key idx = (if key then 1 else 0) OR (if idx = 0 then 2 else 0)"

lemma frag_flags_bits [simp]:
  "(frag_flags key idx AND FLAG_KEYFRAME \<noteq> 0) = key"
  "(frag_flags key idx AND FLAG_HAS_SIGNATURE \<noteq> 0) = (idx = 0)"
  by (auto simp: frag_flags_def FLAG_KEYFRAME_def FLAG_HAS_SIGNATURE_def)

lemma encode_fragment_alt:
  "encode_fragment snd_id seq key cdc pts sig idx count chunk =
     FRAGMENT_VERSION # frag_flags key idx # as_wire cdc # be_bytes 8 (unat pts) @
     word_of_nat (length snd_id) # as_bytes snd_id @ be_bytes 4 (unat seq) @
     be_bytes 2 (unat (word_of_nat idx :: u16)) @ be_bytes 2 (unat (word_of_nat count :: u16)) @
     (if idx = 0 then sig else []) @ chunk"
  by (simp add: encode_fragment_def frag_flags_def FLAG_KEYFRAME_def FLAG_HAS_SIGNATURE_def Let_def)

lemma parse_encode_fragment:
  assumes "snd_id \<noteq> []" "length snd_id \<le> MAX_SENDER_LEN" "utf8_valid (as_bytes snd_id)"
    and "idx < count" "count \<le> 512" "length sig = SIGNATURE_LEN"
  shows "parse_fragment (encode_fragment snd_id seq key cdc pts sig idx count chunk) =
    Some (header_of snd_id seq key cdc pts sig idx count, chunk)"
proof -
  define suffix where "suffix = be_bytes 4 (unat seq) @ be_bytes 2 (unat (word_of_nat idx :: u16)) @
    be_bytes 2 (unat (word_of_nat count :: u16)) @ (if idx = 0 then sig else []) @ chunk"
  define buf where "buf = encode_fragment snd_id seq key cdc pts sig idx count chunk"
  have buf: "buf = FRAGMENT_VERSION # frag_flags key idx # as_wire cdc # be_bytes 8 (unat pts) @
      word_of_nat (length snd_id) # as_bytes snd_id @ suffix"
    by (simp add: buf_def encode_fragment_alt suffix_def)
  have pre: "drop 3 buf = be_bytes 8 (unat pts) @ word_of_nat (length snd_id) # as_bytes snd_id @ suffix"
    "drop 12 buf = as_bytes snd_id @ suffix" "buf ! 11 = word_of_nat (length snd_id)"
    by (simp_all add: buf numeral_3_eq_3 nth_append drop_append nth_Cons')
  have len: "unat (word_of_nat (length snd_id) :: u8) = length snd_id"
    using assms(2) by (simp add: unat_of_nat MAX_SENDER_LEN_def)
  have suf: "drop (12 + length snd_id + k) buf = drop k suffix" for k
  proof -
    have "drop (12 + length snd_id + k) buf = drop k (drop (length snd_id) (drop 12 buf))"
      by (simp add: add.commute add.left_commute)
    then show ?thesis by (simp add: pre)
  qed
  have fields: "take 4 (drop 0 suffix) = be_bytes 4 (unat seq)"
    "take 2 (drop 4 suffix) = be_bytes 2 (unat (word_of_nat idx :: u16))"
    "take 2 (drop 6 suffix) = be_bytes 2 (unat (word_of_nat count :: u16))"
    "drop 8 suffix = (if idx = 0 then sig else []) @ chunk"
    by (simp_all add: suffix_def)
  have idx: "\<not> (word_of_nat count :: u16) \<le> word_of_nat idx" "(word_of_nat count :: u16) \<noteq> 0"
    "\<not> (word_of_nat count :: u16) > MAX_FRAGS_PER_FRAME" "(word_of_nat idx :: u16) = 0 \<longleftrightarrow> idx = 0"
    using assms(4,5)
    by (simp_all add: word_less_nat_alt word_le_nat_alt unat_of_nat MAX_FRAGS_PER_FRAME_def unat_eq_0 [symmetric]
        flip: unat_eq_zero)
  have "length buf = 20 + length snd_id + (if idx = 0 then 64 else 0) + length chunk"
    using assms(6) by (simp add: buf_def length_encode_fragment SIGNATURE_LEN_def)
  moreover have "buf ! 0 = FRAGMENT_VERSION" "buf ! Suc 0 = frag_flags key idx" "buf ! 2 = as_wire cdc"
    by (simp_all add: buf)
  moreover note suf [of 0] suf [of 4] suf [of 6] suf [of 8] suf [of 72]
  moreover have "drop 72 suffix = drop 64 (drop 8 suffix)" by simp
  ultimately show ?thesis
    using assms idx fields unfolding buf_def [symmetric] parse_fragment_def header_of_def
    by (simp add: pre len Let_def size_consts from_utf8_def add.assoc)
qed

subsection \<open>Splitting\<close>

definition frame_chunk :: "nat \<Rightarrow> bytes \<Rightarrow> nat \<Rightarrow> bytes" where
  "frame_chunk cap sealed idx = take cap (drop (idx * cap) sealed)"

lemma concat_frame_chunks: "concat (map (frame_chunk cap sealed) [0..<n]) = take (n * cap) sealed"
proof (induction n)
  case (Suc n)
  have "take (Suc n * cap) sealed = take (n * cap + cap) sealed" by (simp add: add.commute)
  with Suc show ?case by (simp only: take_add) (simp add: frame_chunk_def)
qed simp

lemma frame_chunk_slice:
  "take (min (idx * cap + cap) (length sealed) - idx * cap) (drop (idx * cap) sealed) =
     frame_chunk cap sealed idx"
  by (auto simp: frame_chunk_def min_def)

lemma div_ceil_covers: "0 < b \<Longrightarrow> a \<le> div_ceil a b * b"
proof -
  assume b: "0 < b"
  have "a + b - 1 < (a + b - 1) div b * b + b"
    using b by (metis add.commute div_mult_mod_eq mod_less_divisor nat_add_left_cancel_less)
  with b show ?thesis by (simp add: div_ceil_def)
qed

text \<open>Everything the rest of the development needs to know of a successful \<open>fragment_frame\<close>.\<close>

lemma fragment_frame_SomeE:
  assumes "fragment_frame snd_id seq key cdc pts sig sealed max_payload = Some fs"
  obtains cap count where "0 < cap" "0 < count" "count \<le> 512"
    "max_payload = 20 + length snd_id + SIGNATURE_LEN + cap"
    "snd_id \<noteq> []" "length snd_id \<le> MAX_SENDER_LEN"
    "fs = map (\<lambda>i. encode_fragment snd_id seq key cdc pts sig i count (frame_chunk cap sealed i)) [0..<count]"
    "concat (map (frame_chunk cap sealed) [0..<count]) = sealed"
proof -
  define cap where "cap = max_payload - (20 + length snd_id + SIGNATURE_LEN)"
  define count where "count = max (div_ceil (length sealed) cap) 1"
  have base: "FIXED_PREFIX_LEN + length snd_id + FIXED_SUFFIX_LEN = 20 + length snd_id"
    and maxf: "unat MAX_FRAGS_PER_FRAME = 512"
    by (simp_all add: FIXED_PREFIX_LEN_def FIXED_SUFFIX_LEN_def MAX_FRAGS_PER_FRAME_def)
  let ?fs = "map (\<lambda>i. encode_fragment snd_id seq key cdc pts sig i count (frame_chunk cap sealed i)) [0..<count]"
  have "fragment_frame snd_id seq key cdc pts sig sealed max_payload =
    (if snd_id = [] \<or> length snd_id > MAX_SENDER_LEN then None
     else if max_payload < 20 + length snd_id + SIGNATURE_LEN then None
     else if cap = 0 then None else if count > 512 then None else Some ?fs)"
    unfolding fragment_frame_def Let_def base maxf frame_chunk_slice cap_def count_def by (rule refl)
  with assms have 1: "0 < cap" "count \<le> 512" "max_payload = 20 + length snd_id + SIGNATURE_LEN + cap"
    "snd_id \<noteq> []" "length snd_id \<le> MAX_SENDER_LEN" and 2: "fs = ?fs"
    by (auto simp: cap_def split: if_splits)
  have "length sealed \<le> count * cap"
    using div_ceil_covers [OF 1(1), of "length sealed"]
    by (auto simp: count_def max_def intro: order_trans)
  then have "concat (map (frame_chunk cap sealed) [0..<count]) = sealed"
    by (simp add: concat_frame_chunks)
  with 1 2 show thesis by (intro that [of cap count]) (auto simp: count_def)
qed

lemma div_ceil_le_iff: "0 < b \<Longrightarrow> div_ceil a b \<le> n \<longleftrightarrow> a \<le> n * b"
proof
  assume b: "0 < b" and "div_ceil a b \<le> n"
  then show "a \<le> n * b" using div_ceil_covers [of b a] by (meson mult_le_mono1 order_trans)
next
  assume b: "0 < b" and "a \<le> n * b"
  then have "a + b - 1 < Suc n * b" by simp
  then have "(a + b - 1) div b < Suc n" by (simp add: less_mult_imp_div_less)
  then show "div_ceil a b \<le> n" by (simp add: div_ceil_def)
qed

text \<open>
  \<open>fragment_frame\<close> refuses a frame exactly when the sender id is empty or longer than 64
  bytes, when the datagram budget leaves no room for a byte of the frame beside the header and the
  signature, or when the frame needs more than 512 fragments. Otherwise it returns between 1 and
  512 fragments, none longer than the datagram budget.
\<close>

theorem fragment_frame_budget:
  assumes "length sig = SIGNATURE_LEN"
  shows "case fragment_frame sid seq key cdc pts sig sealed max_payload of
      None \<Rightarrow> sid = [] \<or> length sid > 64 \<or> max_payload \<le> 84 + length sid \<or>
        length sealed > 512 * (max_payload - (84 + length sid))
    | Some fs \<Rightarrow> sid \<noteq> [] \<and> length sid \<le> 64 \<and> max_payload > 84 + length sid \<and>
        length sealed \<le> 512 * (max_payload - (84 + length sid)) \<and>
        length fs \<in> {1..512} \<and> set fs \<subseteq> {b. length b \<le> max_payload}"
proof (cases "fragment_frame sid seq key cdc pts sig sealed max_payload")
  case None
  show ?thesis
  proof (rule ccontr)
    assume *: "\<not> ?thesis"
    define cap where "cap = max_payload - (84 + length sid)"
    from * None have "sid \<noteq> []" "length sid \<le> 64" "0 < cap" "length sealed \<le> 512 * cap"
      by (auto simp: cap_def)
    then have "max (div_ceil (length sealed) cap) 1 \<le> 512" by (simp add: div_ceil_le_iff mult.commute)
    moreover have "max_payload - (12 + length sid + 8 + 64) = cap" by (simp add: cap_def)
    ultimately show False
      using None \<open>sid \<noteq> []\<close> \<open>length sid \<le> 64\<close> \<open>0 < cap\<close>
      by (auto simp: fragment_frame_def Let_def size_consts MAX_FRAGS_PER_FRAME_def cap_def split: if_splits)
  qed
next
  case (Some fs)
  obtain cap count where c: "0 < cap" "0 < count" "count \<le> 512"
    "max_payload = 20 + length sid + SIGNATURE_LEN + cap" "sid \<noteq> []" "length sid \<le> MAX_SENDER_LEN"
    and fs: "fs = map (\<lambda>i. encode_fragment sid seq key cdc pts sig i count (frame_chunk cap sealed i)) [0..<count]"
    and cat: "concat (map (frame_chunk cap sealed) [0..<count]) = sealed"
    using Some by (elim fragment_frame_SomeE)
  have "length sealed \<le> count * cap"
    using cat unfolding concat_frame_chunks by (metis length_take min.cobounded2)
  then have "length sealed \<le> 512 * cap" using c(3) by (meson mult_le_mono1 order_trans)
  moreover have "set fs \<subseteq> {b. length b \<le> max_payload}"
    using c assms by (auto simp: fs length_encode_fragment frame_chunk_def)
  ultimately show ?thesis using Some c by (simp add: size_consts fs)
qed

theorem fragment_frame_budget_witness:
  "case fragment_frame ''a'' 1 True Vp8 0 (replicate 64 0) [1, 2, 3] 87 of
      None \<Rightarrow> False | Some fs \<Rightarrow> length fs = 2 \<and> set fs \<subseteq> {b. length b \<le> 87}"
proof -
  have "length (replicate 64 (0 :: u8)) = SIGNATURE_LEN" by (simp add: SIGNATURE_LEN_def)
  moreover have "map_option length (fragment_frame ''a'' 1 True Vp8 0 (replicate 64 0) [1, 2, 3] 87) = Some 2"
    by code_simp
  ultimately show ?thesis
    using fragment_frame_budget [where sig = "replicate 64 0" and sid = "''a''" and seq = 1 and key = True
        and cdc = Vp8 and pts = 0 and sealed = "[1, 2, 3]" and max_payload = 87]
    by (auto split: option.splits)
qed

end
