(* ===== verification/Fragment_Bounds.thy ===== *)
theory Fragment_Bounds
  imports Fragment
begin

section \<open>Reassembly: memory bounds and provenance\<close>

text \<open>
  The invariant of the reassembler: the counters are exact, the caps hold, and every buffered
  chunk was carried by a fragment that was really received, of the same sender, frame, codec and
  timestamp, at its own index. It is kept by every arrival, hostile or not.
\<close>

definition chunk_bytes :: "bytes option list \<Rightarrow> nat" where
  "chunk_bytes cs = sum_list (map (\<lambda>c. case c of Some b \<Rightarrow> length b | None \<Rightarrow> 0) cs)"

definition filled :: "bytes option list \<Rightarrow> nat" where
  "filled cs = length (filter (\<lambda>c. c \<noteq> None) cs)"

text \<open>\<open>carries H sid seq n cdc pts i c\<close>: some received buffer carries chunk \<open>c\<close> at index \<open>i\<close>.\<close>

definition carries ::
  "bytes set \<Rightarrow> string \<Rightarrow> u32 \<Rightarrow> nat \<Rightarrow> VideoCodec \<Rightarrow> u64 \<Rightarrow> nat \<Rightarrow> bytes \<Rightarrow> bytes option \<Rightarrow> bool" where
  "carries H sid seq n cdc pts i c sig \<longleftrightarrow>
     (\<exists>b \<in> H. \<exists>h. parse_fragment b = Some (h, c) \<and> sender h = sid \<and> frame_seq h = seq \<and>
        codec h = cdc \<and> pts_us h = pts \<and> unat (frag_idx h) = i \<and> unat (frag_count h) = n \<and>
        signature h = sig)"

definition partial_inv :: "bytes set \<Rightarrow> string \<Rightarrow> u32 \<Rightarrow> PartialFrame \<Rightarrow> bool" where
  "partial_inv H sid seq p \<longleftrightarrow>
     0 < length (pf_chunks p) \<and> length (pf_chunks p) \<le> 512 \<and>
     pf_bytes p = chunk_bytes (pf_chunks p) \<and> pf_received p = filled (pf_chunks p) \<and>
     (\<forall>i c. i < length (pf_chunks p) \<and> pf_chunks p ! i = Some c \<longrightarrow>
        carries H sid seq (length (pf_chunks p)) (pf_codec p) (pf_pts_us p) i c
          (if i = 0 then pf_signature p else None)) \<and>
     (pf_chunks p ! 0 = None \<longrightarrow> pf_signature p = None)"

definition bytes_of :: "(u32, PartialFrame) hmap \<Rightarrow> nat" where
  "bytes_of ps = sum_list (map (\<lambda>q. pf_bytes (snd q)) ps)"

definition sender_inv :: "bytes set \<Rightarrow> string \<Rightarrow> SenderState \<Rightarrow> bool" where
  "sender_inv H sid s \<longleftrightarrow> hm_wf (partials s) \<and> length (partials s) \<le> MAX_IN_FLIGHT_PER_SENDER \<and>
     s_bytes s = bytes_of (partials s) \<and> s_bytes s \<le> MAX_PARTIAL_BYTES_PER_SENDER \<and>
     (\<forall>seq p. (seq, p) \<in> set (partials s) \<longrightarrow> partial_inv H sid seq p)"

definition reasm_inv :: "bytes set \<Rightarrow> Reassembler \<Rightarrow> bool" where
  "reasm_inv H r \<longleftrightarrow> hm_wf r \<and> length r \<le> MAX_SENDERS \<and>
     (\<forall>sid s. (sid, s) \<in> set r \<longrightarrow> sender_inv H sid s)"

lemma carries_mono: "carries H sid seq n cdc pts i c sig \<Longrightarrow> H \<subseteq> H' \<Longrightarrow> carries H' sid seq n cdc pts i c sig"
  unfolding carries_def by blast

lemma partial_inv_mono: "partial_inv H sid seq p \<Longrightarrow> H \<subseteq> H' \<Longrightarrow> partial_inv H' sid seq p"
  unfolding partial_inv_def using carries_mono by blast

lemma sender_inv_mono: "sender_inv H sid s \<Longrightarrow> H \<subseteq> H' \<Longrightarrow> sender_inv H' sid s"
  unfolding sender_inv_def using partial_inv_mono by blast

subsection \<open>Dropping partial frames\<close>

text \<open>Dropping keeps the invariant, and only removes entries.\<close>

lemma drop_partial_inv:
  assumes "sender_inv H sid s"
  shows "sender_inv H sid (drop_partial seq s)"
    and "set (partials (drop_partial seq s)) \<subseteq> set (partials s)"
    and "last_completed (drop_partial seq s) = last_completed s"
proof -
  show "sender_inv H sid (drop_partial seq s)"
  proof (cases "hm_get (partials s) seq")
    case None
    then show ?thesis using assms by (simp add: drop_partial_def)
  next
    case (Some p)
    then have "bytes_of (partials s) = pf_bytes p + bytes_of (hm_remove seq (partials s))"
      using assms sum_hm_remove [of "partials s" seq p "\<lambda>q. pf_bytes (snd q)"]
      by (simp add: sender_inv_def bytes_of_def)
    moreover have "length (hm_remove seq (partials s)) \<le> MAX_IN_FLIGHT_PER_SENDER"
      using assms length_hm_remove_le [of seq "partials s"] by (simp add: sender_inv_def)
    ultimately show ?thesis
      using assms Some by (auto simp: drop_partial_def sender_inv_def hm_wf_remove)
        (auto simp: hm_remove_def)
  qed
qed (auto simp: drop_partial_def hm_remove_def split: option.splits)

lemma fold_drop_inv:
  assumes "sender_inv H sid s"
  shows "sender_inv H sid (fold drop_partial seqs s)"
    and "last_completed (fold drop_partial seqs s) = last_completed s"
  using assms by (induction seqs arbitrary: s) (auto simp: drop_partial_inv)

lemma evict_oldest_inv:
  assumes "sender_inv H sid s"
  shows "sender_inv H sid (evict_oldest s)" "last_completed (evict_oldest s) = last_completed s"
  using assms by (auto simp: evict_oldest_def drop_partial_inv split: option.splits)

lemma shed_inv:
  "sender_inv H sid s \<Longrightarrow>
     sender_inv H sid (shed n s) \<and> last_completed (shed n s) = last_completed s"
proof (induction n s rule: shed.induct)
  case (1 n s)
  then show ?case
    by (subst (1 2) shed.simps) (auto simp: evict_oldest_inv)
qed

lemma drop_expired_inv: "sender_inv H sid s \<Longrightarrow> sender_inv H sid (drop_expired now s)"
  by (simp add: drop_expired_def Let_def fold_drop_inv)

lemma evict_expired_inv: "reasm_inv H r \<Longrightarrow> reasm_inv H (evict_expired r now)"
proof -
  assume r: "reasm_inv H r"
  have "map fst (map (\<lambda>p. (fst p, drop_expired now (snd p))) r) = map fst r" by simp
  then have "hm_wf (map (\<lambda>p. (fst p, drop_expired now (snd p))) r)"
    using r by (simp add: reasm_inv_def hm_wf_def comp_def)
  then have "hm_wf (evict_expired r now)" unfolding evict_expired_def by (rule hm_wf_filter)
  moreover have "length (evict_expired r now) \<le> MAX_SENDERS"
    using r length_filter_le [of _ "map (\<lambda>p. (fst p, drop_expired now (snd p))) r"]
    unfolding evict_expired_def reasm_inv_def by (metis (no_types) length_map order_trans)
  ultimately show ?thesis
    using r by (auto simp: reasm_inv_def evict_expired_def drop_expired_inv)
qed

subsection \<open>Storing a chunk\<close>

lemma sender_default_inv: "sender_inv H sid sender_default"
  by (simp add: sender_inv_def sender_default_def bytes_of_def MAX_IN_FLIGHT_PER_SENDER_def)

lemma filled_replicate [simp]: "filled (replicate n None) = 0" "chunk_bytes (replicate n None) = 0"
  by (simp_all add: filled_def chunk_bytes_def sum_list_replicate)

lemma new_partial_inv:
  "0 < unat (frag_count hdr) \<Longrightarrow> unat (frag_count hdr) \<le> 512 \<Longrightarrow>
     partial_inv H sid seq (new_partial hdr now)"
  by (auto simp: partial_inv_def new_partial_def)

lemma open_partial_inv:
  assumes inv: "sender_inv H sid s" and cnt: "0 < unat (frag_count hdr)" "unat (frag_count hdr) \<le> 512"
  shows "sender_inv H sid (open_partial s hdr now)"
    and "last_completed (open_partial s hdr now) = last_completed s"
    and "hm_contains (partials (open_partial s hdr now)) (frame_seq hdr)"
proof -
  define s1 where "s1 = (if length (partials s) \<ge> MAX_IN_FLIGHT_PER_SENDER then evict_oldest s else s)"
  have s1: "sender_inv H sid s1" "last_completed s1 = last_completed s"
    using inv by (auto simp: s1_def evict_oldest_inv)
  have small: "length (partials s1) < MAX_IN_FLIGHT_PER_SENDER"
  proof (cases "length (partials s) \<ge> MAX_IN_FLIGHT_PER_SENDER")
    case True
    then have "partials s \<noteq> []" by (auto simp: MAX_IN_FLIGHT_PER_SENDER_def)
    with True inv show ?thesis
      using evict_oldest_length [of s] by (simp add: s1_def sender_inv_def)
  qed (simp add: s1_def)
  have absent: "frame_seq hdr \<notin> fst ` set (partials s1)" if "\<not> hm_contains (partials s) (frame_seq hdr)"
    using that drop_partial_inv(2) [OF inv]
    by (auto simp: s1_def evict_oldest_def hm_contains_def split: option.splits)
  show "last_completed (open_partial s hdr now) = last_completed s"
    "hm_contains (partials (open_partial s hdr now)) (frame_seq hdr)"
    using s1 by (auto simp: open_partial_def Let_def s1_def [symmetric] coll_simps)
  show "sender_inv H sid (open_partial s hdr now)"
  proof (cases "hm_contains (partials s) (frame_seq hdr)")
    case True
    then show ?thesis using inv by (simp add: open_partial_def)
  next
    case False
    let ?ps = "hm_insert (frame_seq hdr) (new_partial hdr now) (partials s1)"
    have "bytes_of ?ps = bytes_of (partials s1)"
      using sum_hm_insert_new [OF absent [OF False]]
      by (simp add: bytes_of_def new_partial_def)
    moreover have "length ?ps \<le> MAX_IN_FLIGHT_PER_SENDER"
      using small length_hm_insert_le [of "frame_seq hdr" "new_partial hdr now" "partials s1"] by simp
    moreover have "partial_inv H sid seq p" if "(seq, p) \<in> set ?ps" for seq p
      using that set_hm_insert [of "frame_seq hdr" "new_partial hdr now" "partials s1"] s1(1)
        new_partial_inv [OF cnt] by (auto simp: sender_inv_def)
    ultimately show ?thesis
      using False s1(1) by (simp add: open_partial_def Let_def s1_def [symmetric] sender_inv_def hm_wf_insert)
  qed
qed

lemma parse_fragment_header:
  assumes "parse_fragment b = Some (h, c)"
  shows "0 < unat (frag_count h)" "unat (frag_count h) \<le> 512" "unat (frag_idx h) < unat (frag_count h)"
    and "(signature h = None) = (unat (frag_idx h) \<noteq> 0)"
  using assms
  by (auto simp: parse_fragment_def Let_def MAX_FRAGS_PER_FRAME_def word_less_nat_alt word_le_nat_alt
      unat_gt_0 unat_eq_0 simp del: neq0_conv split: if_splits option.splits)

lemma filled_update: "i < length cs \<Longrightarrow> cs ! i = None \<Longrightarrow> filled (cs[i := Some c]) = Suc (filled cs)"
  by (induction cs arbitrary: i) (auto simp: filled_def nth_Cons split: nat.splits)

lemma chunk_bytes_update:
  "i < length cs \<Longrightarrow> cs ! i = None \<Longrightarrow> chunk_bytes (cs[i := Some c]) = chunk_bytes cs + length c"
  by (induction cs arbitrary: i) (auto simp: chunk_bytes_def nth_Cons split: nat.splits)

lemma store_chunk_inv:
  assumes p: "partial_inv H (sender h) (frame_seq h) p" and fit: "fits_partial p h"
    and b: "b \<in> H" "parse_fragment b = Some (h, c)"
  shows "partial_inv H (sender h) (frame_seq h) (store_chunk p h c)"
proof -
  let ?p = "store_chunk p h c" and ?i = "unat (frag_idx h)"
  note hd = parse_fragment_header [OF b(2)]
  have i: "?i < length (pf_chunks p)" "pf_chunks p ! ?i = None" and len: "length (pf_chunks p) = unat (frag_count h)"
    and meta: "pf_codec p = codec h" "pf_pts_us p = pts_us h"
    using fit hd by (auto simp: fits_partial_def)
  have new: "carries H (sender h) (frame_seq h) (length (pf_chunks p)) (pf_codec p) (pf_pts_us p) ?i c (signature h)"
    unfolding carries_def using b len meta by auto
  have "carries H (sender h) (frame_seq h) (length (pf_chunks ?p)) (pf_codec ?p) (pf_pts_us ?p) j d
      (if j = 0 then pf_signature ?p else None)"
    if "j < length (pf_chunks ?p)" "pf_chunks ?p ! j = Some d" for j d
  proof (cases "j = ?i")
    case True
    with that i new hd(4) show ?thesis by (auto simp: store_chunk_def split: option.splits)
  next
    case False
    have "j < length (pf_chunks p)" "pf_chunks p ! j = Some d"
      using that False by (auto simp: store_chunk_def)
    then have "carries H (sender h) (frame_seq h) (length (pf_chunks p)) (pf_codec p) (pf_pts_us p) j d
        (if j = 0 then pf_signature p else None)"
      using p by (simp add: partial_inv_def)
    moreover have "j = 0 \<Longrightarrow> signature h = None" using False hd(4) by auto
    ultimately show ?thesis by (auto simp: store_chunk_def split: if_splits)
  qed
  moreover have "pf_signature ?p = None" if "pf_chunks ?p ! 0 = None"
  proof -
    have "?i \<noteq> 0"
    proof
      assume "?i = 0"
      then show False using that i by (simp add: store_chunk_def)
    qed
    then show ?thesis using that hd(4) p by (simp add: store_chunk_def partial_inv_def)
  qed
  ultimately show ?thesis
    using p i unfolding partial_inv_def
    by (auto simp: store_chunk_def filled_update chunk_bytes_update)
qed

lemma sub_get:
  assumes "hm_wf m" "hm_wf m'" "set m' \<subseteq> set m" "hm_get m' k = Some v"
  shows "hm_get m k = Some v"
  using assms by (metis hm_get_in subsetD)

lemma shed_subset:
  assumes "sender_inv H sid s"
  shows "set (partials (shed n s)) \<subseteq> set (partials s)"
  using assms
proof (induction n s rule: shed.induct)
  case (1 n s)
  have "set (partials (evict_oldest s)) \<subseteq> set (partials s)"
    using "1.prems" by (auto simp: evict_oldest_def split: option.splits dest!: subsetD [OF drop_partial_inv(2)])
  with 1 show ?case by (subst shed.simps) (auto simp: evict_oldest_inv)
qed

lemma modify_inv:
  assumes s: "sender_inv H (sender h) s" and b: "b \<in> H" "parse_fragment b = Some (h, c)"
    and room: "s_bytes s + length c \<le> MAX_PARTIAL_BYTES_PER_SENDER"
    and p: "hm_get (partials s) (frame_seq h) = Some p" "fits_partial p h"
  shows "sender_inv H (sender h) (s\<lparr>partials := hm_modify (frame_seq h) (\<lambda>_. store_chunk p h c) (partials s),
           s_bytes := s_bytes s + length c\<rparr>)"
    and "partial_inv H (sender h) (frame_seq h) (store_chunk p h c)"
proof -
  have "(frame_seq h, p) \<in> set (partials s)"
    using p s by (simp add: hm_get_in sender_inv_def)
  then have pinv: "partial_inv H (sender h) (frame_seq h) p" using s by (simp add: sender_inv_def)
  show st: "partial_inv H (sender h) (frame_seq h) (store_chunk p h c)"
    by (rule store_chunk_inv [OF pinv p(2) b])
  have "bytes_of (hm_modify (frame_seq h) (\<lambda>_. store_chunk p h c) (partials s)) + pf_bytes p
      = bytes_of (partials s) + (pf_bytes p + length c)"
    using sum_hm_modify [of "partials s" "frame_seq h" p "\<lambda>q. pf_bytes (snd q)" "\<lambda>_. store_chunk p h c"] s p
    by (simp add: bytes_of_def sender_inv_def store_chunk_def)
  moreover have "partial_inv H (sender h) seq q"
    if "(seq, q) \<in> set (hm_modify (frame_seq h) (\<lambda>_. store_chunk p h c) (partials s))" for seq q
    using that s st by (auto simp: hm_modify_def sender_inv_def split: if_splits)
  ultimately show "sender_inv H (sender h) (s\<lparr>partials := hm_modify (frame_seq h) (\<lambda>_. store_chunk p h c) (partials s),
           s_bytes := s_bytes s + length c\<rparr>)"
    using s room by (simp add: sender_inv_def hm_wf_modify)
qed

subsection \<open>Completing a frame\<close>

lemma join_chunks_Some: "join_chunks cs = Some r \<longleftrightarrow> (\<exists>ds. cs = map Some ds \<and> r = concat ds)"
proof (induction cs arbitrary: r rule: join_chunks.induct)
  case (3 c cs)
  show ?case
  proof
    assume "join_chunks (Some c # cs) = Some r"
    then obtain r' where "join_chunks cs = Some r'" "r = c @ r'" by (auto split: option.splits)
    with 3 obtain ds where "cs = map Some ds" "r' = concat ds" by blast
    with \<open>r = c @ r'\<close> show "\<exists>ds. Some c # cs = map Some ds \<and> r = concat ds"
      by (intro exI [of _ "c # ds"]) simp
  next
    assume "\<exists>ds. Some c # cs = map Some ds \<and> r = concat ds"
    then obtain es where es: "Some c # cs = map Some es" "r = concat es" by (elim exE conjE) (rule that)
    then obtain ds where "es = c # ds" "cs = map Some ds" by (cases es) auto
    moreover from this have "join_chunks cs = Some (concat ds)" using 3 [of "concat ds"] by blast
    ultimately show "join_chunks (Some c # cs) = Some r" using es(2) by simp
  qed
qed auto

text \<open>
  \<open>assembled H f\<close>: the frame is the concatenation, in index order, of chunks that received buffers
  carried for this sender, sequence number, codec, timestamp and fragment count, and its
  signature is the one fragment 0 carried.
\<close>

definition assembled :: "bytes set \<Rightarrow> ReassembledFrame \<Rightarrow> bool" where
  "assembled H f \<longleftrightarrow>
     (\<exists>ds. 0 < length ds \<and> length ds \<le> 512 \<and> rf_sealed f = concat ds \<and>
        length (rf_sealed f) \<le> MAX_PARTIAL_BYTES_PER_SENDER \<and>
        (\<forall>i < length ds. carries H (rf_sender f) (rf_frame_seq f) (length ds) (rf_codec f) (rf_pts_us f)
           i (ds ! i) (if i = 0 then Some (rf_signature f) else None)))"

lemma chunk_bytes_map_Some: "chunk_bytes (map Some ds) = length (concat ds)"
  by (induction ds) (auto simp: chunk_bytes_def)

lemma finish_frame_inv: "sender_inv H sid s \<Longrightarrow> sender_inv H sid (finish_frame s h)"
proof -
  assume s: "sender_inv H sid s"
  have "sender_inv H sid (s'\<lparr>last_completed := l\<rparr>) = sender_inv H sid s'" for s' l
    by (simp add: sender_inv_def)
  then show ?thesis using s by (auto simp: finish_frame_def Let_def fold_drop_inv drop_partial_inv)
qed

lemma pf_bytes_le:
  assumes "(seq, p) \<in> set ps"
  shows "pf_bytes p \<le> bytes_of ps"
proof -
  have "pf_bytes p \<in> set (map (\<lambda>q. pf_bytes (snd q)) ps)" using assms by force
  then show ?thesis unfolding bytes_of_def by (simp add: member_le_sum_list)
qed

lemma complete_frame_inv:
  assumes s: "sender_inv H (sender h) s" and p: "partial_inv H (sender h) (frame_seq h) p"
    and len: "length (pf_chunks p) = unat (frag_count h)"
    and mem: "hm_get (partials s) (frame_seq h) = Some p"
  shows "sender_inv H (sender h) (snd (complete_frame s h p))"
    and "\<And>f. fst (complete_frame s h p) = Some f \<Longrightarrow> assembled H f \<and> rf_sender f = sender h"
proof -
  show "sender_inv H (sender h) (snd (complete_frame s h p))"
    using s by (auto simp: complete_frame_def finish_frame_inv split: option.splits)
  fix f assume "fst (complete_frame s h p) = Some f"
  then obtain sig ds where f: "pf_signature p = Some sig" "pf_chunks p = map Some ds"
    "f = \<lparr>rf_sender = sender h, rf_frame_seq = frame_seq h, rf_keyframe = pf_keyframe p,
          rf_codec = pf_codec p, rf_pts_us = pf_pts_us p, rf_signature = sig, rf_sealed = concat ds\<rparr>"
    by (auto simp: complete_frame_def join_chunks_Some split: option.splits if_splits)
  have "(frame_seq h, p) \<in> set (partials s)" using mem s by (simp add: hm_get_in sender_inv_def)
  then have "pf_bytes p \<le> MAX_PARTIAL_BYTES_PER_SENDER"
    using pf_bytes_le s by (fastforce simp: sender_inv_def)
  then have "length (concat ds) \<le> MAX_PARTIAL_BYTES_PER_SENDER"
    using p f(2) by (simp add: partial_inv_def chunk_bytes_map_Some)
  moreover have "carries H (sender h) (frame_seq h) (length ds) (pf_codec p) (pf_pts_us p) i (ds ! i)
      (if i = 0 then Some sig else None)" if "i < length ds" for i
  proof -
    have "carries H (sender h) (frame_seq h) (length (pf_chunks p)) (pf_codec p) (pf_pts_us p) i (ds ! i)
        (if i = 0 then pf_signature p else None)"
      using p f that unfolding partial_inv_def by simp
    then show ?thesis using f by (cases "i = 0") simp_all
  qed
  moreover have "0 < length ds" "length ds \<le> 512" using p f(2) by (auto simp: partial_inv_def)
  ultimately show "assembled H f \<and> rf_sender f = sender h"
    unfolding assembled_def f(3) ReassembledFrame.select_convs
    by (intro conjI exI [of _ ds] allI impI refl) assumption+
qed

subsection \<open>An arrival\<close>

lemma push_sender_inv:
  assumes s: "sender_inv H (sender h) s" and b: "b \<in> H" "parse_fragment b = Some (h, c)"
  shows "sender_inv H (sender h) (snd (push_sender s h c now))"
    and "fst (push_sender s h c now) = Some f \<Longrightarrow> assembled H f"
proof -
  note cnt = parse_fragment_header [OF b(2)]
  define s1 where "s1 = open_partial (if superseded s h then sender_default else s) h now"
  define s2 where "s2 = shed (length c) s1"
  have s1: "sender_inv H (sender h) s1"
    using s cnt by (auto simp: s1_def open_partial_inv sender_default_inv)
  then have s2: "sender_inv H (sender h) s2" "set (partials s2) \<subseteq> set (partials s1)"
    using shed_inv shed_subset by (auto simp: s2_def)
  define fin where "fin p = complete_frame (s2\<lparr>partials := hm_modify (frame_seq h) (\<lambda>_. store_chunk p h c) (partials s2),
      s_bytes := s_bytes s2 + length c\<rparr>) h (store_chunk p h c)" for p
  have step: "push_sender s h c now \<in> {(None, s), (None, s1), (None, s2), (None, drop_partial (frame_seq h) s2)} \<or>
      (\<exists>p. hm_get (partials s2) (frame_seq h) = Some p \<and> fits_partial p h \<and>
         s_bytes s2 + length c \<le> MAX_PARTIAL_BYTES_PER_SENDER \<and> push_sender s h c now = fin p)"
  proof -
    have "hm_get (partials s1) (frame_seq h) = Some p" if "hm_get (partials s2) (frame_seq h) = Some p" for p
      using sub_get [OF _ _ s2(2) that] s1 s2(1) by (simp add: sender_inv_def)
    then show ?thesis
      unfolding push_sender_def Let_def s1_def [symmetric] s2_def [symmetric] fin_def
      by (auto split: option.splits)
  qed
  have fin: "sender_inv H (sender h) (snd (fin p)) \<and> (fst (fin p) = Some f \<longrightarrow> assembled H f)"
    if p: "hm_get (partials s2) (frame_seq h) = Some p" "fits_partial p h"
      "s_bytes s2 + length c \<le> MAX_PARTIAL_BYTES_PER_SENDER" for p f
  proof -
    have "length (pf_chunks (store_chunk p h c)) = unat (frag_count h)"
      using p(2) by (simp add: store_chunk_def fits_partial_def)
    then show ?thesis
      using complete_frame_inv [OF modify_inv [OF s2(1) b p(3,1,2)]] p(1)
      unfolding fin_def by (auto simp: hm_get_modify)
  qed
  show "sender_inv H (sender h) (snd (push_sender s h c now))"
    using step fin s s1 s2(1) drop_partial_inv(1) [OF s2(1)] by auto
  show "fst (push_sender s h c now) = Some f \<Longrightarrow> assembled H f"
    using step fin by auto
qed

lemma push_inv:
  assumes r: "reasm_inv H r" and b: "b \<in> H"
  shows "reasm_inv H (snd (push r b now))"
    and "fst (push r b now) = Some f \<Longrightarrow> assembled H f"
proof -
  consider "parse_fragment b = None"
    | h c where "parse_fragment b = Some (h, c)" by fastforce
  then have both: "reasm_inv H (snd (push r b now)) \<and> (fst (push r b now) = Some f \<longrightarrow> assembled H f)"
  proof cases
    case 1
    then show ?thesis using r by (simp add: push_def)
  next
    case (2 h c)
    let ?r = "evict_expired r now"
    let ?s = "case hm_get ?r (sender h) of Some s \<Rightarrow> s | None \<Rightarrow> sender_default"
    have r': "reasm_inv H ?r" by (rule evict_expired_inv [OF r])
    have s: "sender_inv H (sender h) ?s"
      using r' by (auto simp: sender_default_inv reasm_inv_def split: option.splits dest: hm_get_SomeD)
    show ?thesis
    proof (cases "\<not> hm_contains ?r (sender h) \<and> length ?r \<ge> MAX_SENDERS")
      case True
      then show ?thesis using r' 2 by (simp add: push_def)
    next
      case False
      let ?s' = "snd (push_sender ?s h c now)"
      have eq: "push r b now = (fst (push_sender ?s h c now), hm_insert (sender h) ?s' ?r)"
        using False 2 by (auto simp: push_def Let_def split: prod.splits)
      have "length (hm_insert (sender h) ?s' ?r) \<le> MAX_SENDERS"
        using False r' length_hm_insert [of "sender h" ?s' ?r]
        by (auto simp: reasm_inv_def split: if_splits)
      moreover have "sender_inv H k v" if "(k, v) \<in> set (hm_insert (sender h) ?s' ?r)" for k v
        using that set_hm_insert [of "sender h" ?s' ?r] r' push_sender_inv(1) [OF s b 2]
        by (auto simp: reasm_inv_def)
      ultimately have "reasm_inv H (hm_insert (sender h) ?s' ?r)"
        using r' by (simp add: reasm_inv_def hm_wf_insert)
      then show ?thesis using eq push_sender_inv(2) [OF s b 2] by simp
    qed
  qed
  then show "reasm_inv H (snd (push r b now))"
    and "fst (push r b now) = Some f \<Longrightarrow> assembled H f" by auto
qed

subsection \<open>Runs\<close>

text \<open>The datagrams handed to \<open>push\<close>, what it has delivered, and the reassembler.\<close>

record fragment_run =
  arrived :: "bytes set"
  delivered :: "ReassembledFrame list"
  reasm :: Reassembler

datatype fragment_op = Push bytes nat | Clear

definition fragment_start :: fragment_run where
  "fragment_start = \<lparr>arrived = {}, delivered = [], reasm = reassembler_new\<rparr>"

fun fragment_step :: "fragment_run \<Rightarrow> fragment_op \<Rightarrow> fragment_run" where
  "fragment_step g (Push b now) =
     (let (out, r) = push (reasm g) b now
      in \<lparr>arrived = insert b (arrived g),
          delivered = delivered g @ (case out of Some f \<Rightarrow> [f] | None \<Rightarrow> []), reasm = r\<rparr>)"
| "fragment_step g Clear = g\<lparr>reasm := reassembler_clear (reasm g)\<rparr>"

definition run_inv :: "fragment_run \<Rightarrow> bool" where
  "run_inv g \<longleftrightarrow> reasm_inv (arrived g) (reasm g) \<and> (\<forall>f \<in> set (delivered g). assembled (arrived g) f)"

lemma reasm_inv_mono: "reasm_inv H r \<Longrightarrow> H \<subseteq> H' \<Longrightarrow> reasm_inv H' r"
  unfolding reasm_inv_def using sender_inv_mono by blast

lemma assembled_mono: "assembled H f \<Longrightarrow> H \<subseteq> H' \<Longrightarrow> assembled H' f"
  unfolding assembled_def by (meson carries_mono)

lemma run_inv_step: "run_inv g \<Longrightarrow> run_inv (fragment_step g op)"
proof (cases op)
  case (Push b now)
  assume g: "run_inv g"
  let ?H = "insert b (arrived g)"
  have r: "reasm_inv ?H (reasm g)"
    using g reasm_inv_mono [of "arrived g" _ ?H] by (simp add: run_inv_def subset_insertI)
  have old: "assembled ?H f" if "f \<in> set (delivered g)" for f
    using g that assembled_mono [of "arrived g" _ ?H] by (simp add: run_inv_def subset_insertI)
  show ?thesis
    using push_inv [OF r, of b now] old Push
    by (auto simp: run_inv_def Let_def split: prod.splits option.splits)
qed (simp add: run_inv_def reassembler_clear_def reasm_inv_def)

interpretation reassembly: invariant_system fragment_start fragment_step run_inv
proof unfold_locales
  show "run_inv fragment_start"
    by (simp add: run_inv_def fragment_start_def reassembler_new_def reasm_inv_def)
qed (rule run_inv_step)

text \<open>
  C21: memory of the reassembler is bounded whatever datagrams arrive: after any sequence of
  arrivals, at any times, it tracks at most 32 senders, at most 8 partial frames of each, at most
  512 slots per partial frame and at most 1536 KiB of chunks per sender, and the byte counter it
  decides with is exactly the number of bytes buffered.
\<close>

theorem reassembler_memory_bounded:
  "let r = reasm (foldl fragment_step fragment_start ops)
   in reasm_tracked_senders r \<le> 32 \<and>
      set r \<subseteq> {(sid, s). length (partials s) \<le> 8 \<and> s_bytes s \<le> 1536 * 1024 \<and>
         s_bytes s = (\<Sum>(seq, p) \<leftarrow> partials s. length (concat [c. Some c \<leftarrow> pf_chunks p])) \<and>
         set (partials s) \<subseteq> {(seq, p). length (pf_chunks p) \<le> 512}}"
proof -
  define r where "r = reasm (foldl fragment_step fragment_start ops)"
  have inv: "\<exists>H. reasm_inv H r"
    using reassembly.inv_reachable unfolding r_def run_inv_def by blast
  then obtain H where H: "reasm_inv H r" by blast
  have bytes: "chunk_bytes cs = length (concat [c. Some c \<leftarrow> cs])" for cs
  proof (induction cs)
    case (Cons c cs)
    then show ?case by (cases c) (simp_all add: chunk_bytes_def)
  qed (simp add: chunk_bytes_def)
  have sum: "bytes_of ps = (\<Sum>(seq, p) \<leftarrow> ps. length (concat [c. Some c \<leftarrow> pf_chunks p]))"
    if "\<forall>seq p. (seq, p) \<in> set ps \<longrightarrow> partial_inv H sid seq p" for ps sid
  proof -
    have "pf_bytes p = length (concat [c. Some c \<leftarrow> pf_chunks p])" if "(seq, p) \<in> set ps" for seq p
      using that \<open>\<forall>seq p. (seq, p) \<in> set ps \<longrightarrow> partial_inv H sid seq p\<close> bytes
      unfolding partial_inv_def by metis
    then show ?thesis
      unfolding bytes_of_def by (intro arg_cong [where f = sum_list] map_cong) auto
  qed
  have "length (partials s) \<le> 8 \<and> s_bytes s \<le> 1536 * 1024 \<and>
      s_bytes s = (\<Sum>(seq, p) \<leftarrow> partials s. length (concat [c. Some c \<leftarrow> pf_chunks p])) \<and>
      set (partials s) \<subseteq> {(seq, p). length (pf_chunks p) \<le> 512}" if "(sid, s) \<in> set r" for sid s
  proof -
    have s: "sender_inv H sid s" using H that by (simp add: reasm_inv_def)
    then have all: "\<forall>seq p. (seq, p) \<in> set (partials s) \<longrightarrow> partial_inv H sid seq p"
      by (simp add: sender_inv_def)
    have "length (partials s) \<le> 8 \<and> s_bytes s \<le> 1536 * 1024 \<and> s_bytes s = bytes_of (partials s)"
      using s by (simp add: sender_inv_def MAX_IN_FLIGHT_PER_SENDER_def MAX_PARTIAL_BYTES_PER_SENDER_def)
    moreover have "set (partials s) \<subseteq> {(seq, p). length (pf_chunks p) \<le> 512}"
      using all by (auto simp: partial_inv_def)
    ultimately show ?thesis using sum [OF all] by metis
  qed
  moreover have "reasm_tracked_senders r \<le> 32" using H by (simp add: reasm_inv_def reasm_tracked_senders_def MAX_SENDERS_def)
  ultimately show ?thesis unfolding Let_def r_def [symmetric] by blast
qed

text \<open>
  No frame is made up. Every frame \<open>push\<close> has delivered is the concatenation, in index order
  and without a gap, of the chunks of fragments that really arrived, all of them for that sender,
  sequence number, codec, timestamp and fragment count, and its signature is the one its
  fragment 0 carried: a fragment of another frame or sender never gets in.
\<close>

theorem reassembled_frame_provenance:
  "let g = foldl fragment_step fragment_start ops in set (delivered g) \<subseteq> {f. assembled (arrived g) f}"
  using reassembly.inv_reachable by (auto simp: run_inv_def Let_def)

end
