(* ===== verification/Fragment_Roundtrip.thy ===== *)
theory Fragment_Roundtrip
  imports Fragment_Wire Fragment_Bounds
begin

section \<open>Reassembly: fragments in any order give the frame back\<close>

text \<open>
  One frame, its fragments arriving in any order and with duplicates, into a reassembler that
  is in a reachable state. The state of the sender's entry is a function of the set of indices
  received so far; each arrival adds one index, and the arrival that makes the set full returns
  the frame.
\<close>

record sent =
  x_sid :: string
  x_seq :: u32
  x_key :: bool
  x_cdc :: VideoCodec
  x_pts :: u64
  x_sig :: bytes
  x_cap :: nat
  x_count :: nat
  x_sealed :: bytes

definition x_chunk :: "sent \<Rightarrow> nat \<Rightarrow> bytes" where
  "x_chunk x i = frame_chunk (x_cap x) (x_sealed x) i"

definition x_header :: "sent \<Rightarrow> nat \<Rightarrow> FragmentHeader" where
  "x_header x i = header_of (x_sid x) (x_seq x) (x_key x) (x_cdc x) (x_pts x) (x_sig x) i (x_count x)"

definition x_frame :: "sent \<Rightarrow> ReassembledFrame" where
  "x_frame x = \<lparr>rf_sender = x_sid x, rf_frame_seq = x_seq x, rf_keyframe = x_key x, rf_codec = x_cdc x,
     rf_pts_us = x_pts x, rf_signature = x_sig x, rf_sealed = x_sealed x\<rparr>"

definition x_ok :: "sent \<Rightarrow> bool" where
  "x_ok x \<longleftrightarrow> 0 < x_count x \<and> x_count x \<le> 512 \<and>
     length (x_sealed x) \<le> MAX_PARTIAL_BYTES_PER_SENDER \<and>
     concat (map (x_chunk x) [0..<x_count x]) = x_sealed x"

definition x_bytes :: "sent \<Rightarrow> nat set \<Rightarrow> nat" where
  "x_bytes x S = (\<Sum>i\<in>S. length (x_chunk x i))"

definition partial_of :: "sent \<Rightarrow> nat \<Rightarrow> nat set \<Rightarrow> PartialFrame" where
  "partial_of x t0 S =
     \<lparr>pf_keyframe = x_key x, pf_codec = x_cdc x, pf_pts_us = x_pts x,
      pf_signature = (if 0 \<in> S then Some (x_sig x) else None),
      pf_chunks = map (\<lambda>i. if i \<in> S then Some (x_chunk x i) else None) [0..<x_count x],
      pf_received = card S, pf_bytes = x_bytes x S, pf_first_seen = t0\<rparr>"

definition mid :: "sent \<Rightarrow> nat \<Rightarrow> u32 option \<Rightarrow> nat set \<Rightarrow> SenderState" where
  "mid x t0 l S = \<lparr>partials = [(x_seq x, partial_of x t0 S)], s_bytes = x_bytes x S, last_completed = l\<rparr>"

definition quiet :: "u32 option \<Rightarrow> SenderState" where
  "quiet l = \<lparr>partials = [], s_bytes = 0, last_completed = l\<rparr>"

text \<open>The sequence number comes after the last completed one, close enough not to be stale.\<close>

definition follows :: "u32 option \<Rightarrow> u32 \<Rightarrow> bool" where
  "follows l seq = (case l of None \<Rightarrow> True
     | Some k \<Rightarrow> seq_newer seq k \<and> \<not> seq_newer (k - MONOTONIC_LAG) seq)"

lemma x_header_simps [simp]:
  "sender (x_header x i) = x_sid x" "frame_seq (x_header x i) = x_seq x"
  "keyframe (x_header x i) = x_key x" "codec (x_header x i) = x_cdc x" "pts_us (x_header x i) = x_pts x"
  "signature (x_header x i) = (if i = 0 then Some (x_sig x) else None)"
  "x_ok x \<Longrightarrow> unat (frag_count (x_header x i)) = x_count x"
  "x_ok x \<Longrightarrow> i < x_count x \<Longrightarrow> unat (frag_idx (x_header x i)) = i"
  by (simp_all add: x_header_def header_of_def x_ok_def unat_of_nat)

lemma x_bytes_le:
  assumes "x_ok x" "S \<subseteq> {0..<x_count x}"
  shows "x_bytes x S \<le> MAX_PARTIAL_BYTES_PER_SENDER"
proof -
  have "x_bytes x S \<le> (\<Sum>i\<in>{0..<x_count x}. length (x_chunk x i))"
    unfolding x_bytes_def by (rule sum_mono2) (use assms(2) in auto)
  also have "\<dots> = length (concat (map (x_chunk x) [0..<x_count x]))"
    by (simp add: length_concat comp_def interv_sum_list_conv_sum_set_nat)
  also have "\<dots> \<le> MAX_PARTIAL_BYTES_PER_SENDER" using assms(1) by (simp add: x_ok_def)
  finally show ?thesis .
qed

lemma x_bytes_insert: "finite S \<Longrightarrow> i \<notin> S \<Longrightarrow> x_bytes x (insert i S) = x_bytes x S + length (x_chunk x i)"
  by (simp add: x_bytes_def)

lemma store_partial_of:
  assumes "x_ok x" "i < x_count x" "finite S" "i \<notin> S"
  shows "store_chunk (partial_of x t0 S) (x_header x i) (x_chunk x i) = partial_of x t0 (insert i S)"
  using assms
  by (auto simp: store_chunk_def partial_of_def x_bytes_insert nth_list_update intro!: nth_equalityI)

lemma open_quiet: "x_ok x \<Longrightarrow> open_partial (quiet l) (x_header x i) now = mid x now l {}"
  by (simp add: open_partial_def quiet_def mid_def new_partial_def partial_of_def x_bytes_def
      hm_contains_def MAX_IN_FLIGHT_PER_SENDER_def map_replicate_const)

lemma open_mid: "open_partial (mid x t0 l S) (x_header x i) now = mid x t0 l S"
  by (simp add: open_partial_def mid_def hm_contains_def)

lemma finish_mid:
  assumes "follows l (x_seq x)"
  shows "finish_frame (mid x t0 l S) (x_header x i) = quiet (Some (x_seq x))"
  using assms
  by (auto simp: finish_frame_def mid_def drop_partial_def hm_get_def hm_remove_def quiet_def Let_def
      follows_def partial_of_def hm_keys_def split: option.splits)

lemma complete_mid:
  assumes x: "x_ok x" "follows l (x_seq x)" and S: "S \<subseteq> {0..<x_count x}"
  shows "complete_frame (mid x t0 l S) (x_header x i) (partial_of x t0 S) =
    (if S = {0..<x_count x} then (Some (x_frame x), quiet (Some (x_seq x))) else (None, mid x t0 l S))"
proof (cases "S = {0..<x_count x}")
  case True
  have "join_chunks (map (\<lambda>i. Some (x_chunk x i)) [0..<x_count x]) = Some (x_sealed x)"
    using x(1) unfolding join_chunks_Some x_ok_def
    by (intro exI [of _ "map (x_chunk x) [0..<x_count x]"]) simp
  moreover have "pf_chunks (partial_of x t0 S) = map (\<lambda>i. Some (x_chunk x i)) [0..<x_count x]"
    using True by (simp add: partial_of_def)
  ultimately have "join_chunks (pf_chunks (partial_of x t0 S)) = Some (x_sealed x)" by simp
  moreover have "0 \<in> S" "card S = x_count x" using x(1) True by (auto simp: x_ok_def)
  ultimately show ?thesis
    using x True by (simp add: complete_frame_def partial_of_def finish_mid x_frame_def)
next
  case False
  then have "card S < x_count x" using S by (metis card_atLeastLessThan finite_atLeastLessThan
        minus_nat.diff_0 psubsetI psubset_card_mono)
  then show ?thesis using x False by (simp add: complete_frame_def partial_of_def)
qed

lemma not_superseded: "follows l (x_seq x) \<Longrightarrow> last_completed s = l \<Longrightarrow> \<not> superseded s (x_header x i)"
  by (auto simp: follows_def superseded_def seq_newer_def split: option.splits)

lemma push_sender_mid:
  assumes x: "x_ok x" "follows l (x_seq x)" and S: "S \<subset> {0..<x_count x}" and i: "i < x_count x"
    and s: "open_partial s (x_header x i) now = mid x t0 l S" "last_completed s = l"
  shows "push_sender s (x_header x i) (x_chunk x i) now =
     (if i \<in> S then (None, mid x t0 l S)
      else if insert i S = {0..<x_count x} then (Some (x_frame x), quiet (Some (x_seq x)))
      else (None, mid x t0 l (insert i S)))"
proof -
  have ns: "\<not> superseded s (x_header x i)" by (rule not_superseded [OF x(2) s(2)])
  have get: "hm_get (partials (mid x t0 l S)) (x_seq x) = Some (partial_of x t0 S)" for S
    by (simp add: mid_def hm_get_def)
  have fits: "fits_partial (partial_of x t0 S) (x_header x i) = (i \<notin> S)"
    using x(1) i by (simp add: fits_partial_def partial_of_def)
  show ?thesis
  proof (cases "i \<in> S")
    case True
    then show ?thesis using ns s fits get by (simp add: push_sender_def Let_def)
  next
    case False
    have fin: "finite S" using S finite_subset by blast
    have sub: "insert i S \<subseteq> {0..<x_count x}" using S i by auto
    have room: "s_bytes (mid x t0 l S) + length (x_chunk x i) \<le> MAX_PARTIAL_BYTES_PER_SENDER"
      using x_bytes_le [OF x(1) sub] by (simp add: mid_def x_bytes_insert [OF fin False])
    then have noshed: "shed (length (x_chunk x i)) (mid x t0 l S) = mid x t0 l S"
      by (subst shed.simps) simp
    have upd: "mid x t0 l S\<lparr>partials := hm_modify (x_seq x) (\<lambda>_. partial_of x t0 (insert i S)) (partials (mid x t0 l S)),
        s_bytes := s_bytes (mid x t0 l S) + length (x_chunk x i)\<rparr> = mid x t0 l (insert i S)"
      by (simp add: mid_def hm_modify_def x_bytes_insert [OF fin False])
    have "push_sender s (x_header x i) (x_chunk x i) now =
        complete_frame (mid x t0 l (insert i S)) (x_header x i) (partial_of x t0 (insert i S))"
      using ns s fits get False room store_partial_of [OF x(1) i fin False]
      by (simp add: push_sender_def Let_def noshed upd)
    also have "\<dots> = (if insert i S = {0..<x_count x} then (Some (x_frame x), quiet (Some (x_seq x)))
        else (None, mid x t0 l (insert i S)))" by (rule complete_mid [OF x sub])
    finally show ?thesis using False by simp
  qed
qed

lemma push_sender_done:
  "push_sender (quiet (Some (x_seq x))) (x_header x i) c now = (None, quiet (Some (x_seq x)))"
  by (simp add: push_sender_def superseded_def restarts_def quiet_def is_stream_restart_def
      RESTART_BACKWARD_JUMP_def)

subsection \<open>Arrivals at the reassembler\<close>

lemma hm_get_evict_expired:
  assumes "hm_wf r"
  shows "hm_get (evict_expired r now) k =
    (case hm_get r k of None \<Rightarrow> None
     | Some s \<Rightarrow> let s' = drop_expired now s
                in if partials s' \<noteq> [] \<or> last_completed s' \<noteq> None then Some s' else None)"
proof -
  let ?m = "map (\<lambda>p. (fst p, drop_expired now (snd p))) r"
  have wf: "hm_wf ?m" using assms by (simp add: hm_wf_def comp_def)
  have m: "hm_get ?m k = map_option (drop_expired now) (hm_get r k)"
    by (induction r) (auto simp: hm_get_def)
  have "evict_expired r now = hm_retain (\<lambda>_ s. partials s \<noteq> [] \<or> last_completed s \<noteq> None) ?m"
    by (simp add: evict_expired_def hm_retain_def case_prod_beta)
  then show ?thesis using m by (simp add: hm_get_retain [OF wf] Let_def split: option.splits)
qed

lemma drop_expired_quiet [simp]: "drop_expired now (quiet l) = quiet l"
  by (simp add: drop_expired_def quiet_def)

lemma drop_expired_mid:
  "now - t0 < partial_timeout (x_count x) \<Longrightarrow> drop_expired now (mid x t0 l S) = mid x t0 l S"
  by (simp add: drop_expired_def mid_def partial_of_def)

text \<open>\<open>holds x t0 l S r\<close>: of frame \<open>x\<close>, exactly the fragments in \<open>S\<close> have arrived.\<close>

definition holds :: "sent \<Rightarrow> nat \<Rightarrow> u32 option \<Rightarrow> nat set \<Rightarrow> Reassembler \<Rightarrow> bool" where
  "holds x t0 l S r \<longleftrightarrow> hm_wf r \<and>
     (if S = {0..<x_count x} then hm_get r (x_sid x) = Some (quiet (Some (x_seq x)))
      else if S = {} then
        (if l = None then hm_get r (x_sid x) = None \<and> length r < MAX_SENDERS
         else hm_get r (x_sid x) = Some (quiet l))
      else hm_get r (x_sid x) = Some (mid x t0 l S))"

lemma push_holds:
  assumes x: "x_ok x" "follows l (x_seq x)" and r: "holds x t0 l S r" and S: "S \<subseteq> {0..<x_count x}"
    and i: "i < x_count x" and b: "parse_fragment b = Some (x_header x i, x_chunk x i)"
    and t: "now - t0 < partial_timeout (x_count x)" "S = {} \<Longrightarrow> now = t0"
  shows "holds x t0 l (insert i S) (snd (push r b now))"
    and "fst (push r b now) =
      (if S \<noteq> {0..<x_count x} \<and> insert i S = {0..<x_count x} then Some (x_frame x) else None)"
proof -
  let ?r = "evict_expired r now" and ?full = "{0..<x_count x}"
  have wf: "hm_wf r" using r by (simp add: holds_def)
  have wf': "hm_wf ?r"
    unfolding evict_expired_def by (rule hm_wf_filter) (use wf in \<open>simp add: hm_wf_def comp_def\<close>)
  have len: "length ?r \<le> length r"
    unfolding evict_expired_def by (rule order_trans [OF length_filter_le]) simp
  let ?s = "if S = ?full then quiet (Some (x_seq x)) else if S = {} then quiet l else mid x t0 l S"
  have ne: "{} \<noteq> ?full" using x by (auto simp: x_ok_def)
  have get: "hm_get ?r (x_sid x) = (if S = {} \<and> l = None then None else Some ?s)"
  proof -
    consider "S = ?full" | "S = {}" "l = None" | "S = {}" "l \<noteq> None" | "S \<noteq> ?full" "S \<noteq> {}" by blast
    then show ?thesis
    proof cases
      case 4
      then have "hm_get r (x_sid x) = Some (mid x t0 l S)" using r by (simp add: holds_def)
      then show ?thesis
        using 4 by (simp add: hm_get_evict_expired [OF wf] Let_def drop_expired_mid [OF t(1)])
          (simp add: mid_def)
    qed (use r ne in \<open>simp_all add: hm_get_evict_expired [OF wf] holds_def Let_def\<close>,
         simp_all add: quiet_def)
  qed
  have default: "quiet None = sender_default" by (simp add: quiet_def sender_default_def)
  have cap: "hm_contains ?r (x_sid x) \<or> length ?r < MAX_SENDERS"
  proof (cases "S = {} \<and> l = None")
    case True
    then show ?thesis using r len ne by (simp add: holds_def split: if_splits)
  next
    case False
    then have "hm_get ?r (x_sid x) \<noteq> None" unfolding get by auto
    then show ?thesis by (simp add: hm_contains_def hm_get_None_iff)
  qed
  define s where "s = ?s"
  have st: "(case hm_get ?r (x_sid x) of Some s \<Rightarrow> s | None \<Rightarrow> sender_default) = s"
    using get default ne by (auto simp: s_def)
  have push: "push r b now = (let (out, s) = push_sender s (x_header x i) (x_chunk x i) now
      in (out, hm_insert (x_sid x) s ?r))"
    using cap st by (auto simp: push_def b Let_def)
  have ins: "insert i S = S" if "S = ?full" using that i by auto
  have ps: "push_sender s (x_header x i) (x_chunk x i) now =
     (if S = ?full then (None, quiet (Some (x_seq x)))
      else if i \<in> S then (None, mid x t0 l S)
      else if insert i S = ?full then (Some (x_frame x), quiet (Some (x_seq x)))
      else (None, mid x t0 l (insert i S)))"
  proof (cases "S = ?full")
    case True
    then show ?thesis by (simp add: s_def push_sender_done)
  next
    case False
    then have "S \<subset> ?full" using S by blast
    moreover have "open_partial s (x_header x i) now = mid x t0 l S"
      using False t(2) by (auto simp: s_def open_quiet [OF x(1)] open_mid)
    moreover have "last_completed s = l" using False by (auto simp: s_def quiet_def mid_def)
    ultimately show ?thesis using push_sender_mid [OF x _ i] False by simp
  qed
  show "holds x t0 l (insert i S) (snd (push r b now))"
    using ins wf' unfolding push ps
    by (auto simp: Let_def holds_def coll_simps insert_absorb intro: hm_wf_insert)
  show "fst (push r b now) = (if S \<noteq> ?full \<and> insert i S = ?full then Some (x_frame x) else None)"
    using ins unfolding push ps by (auto simp: Let_def insert_absorb)
qed

lemma run_holds:
  assumes x: "x_ok x" "follows l (x_seq x)"
    and frags: "\<And>i. i < x_count x \<Longrightarrow> parse_fragment (frags ! i) = Some (x_header x i, x_chunk x i)"
  shows "holds x t0 l S (reasm g) \<Longrightarrow> S \<subseteq> {0..<x_count x} \<Longrightarrow> fst ` set evs \<subseteq> {0..<x_count x} \<Longrightarrow>
     snd ` set evs \<subseteq> {t. t - t0 < partial_timeout (x_count x)} \<Longrightarrow> (S = {} \<Longrightarrow> evs \<noteq> [] \<Longrightarrow> snd (hd evs) = t0) \<Longrightarrow>
     (let g' = foldl fragment_step g (map (\<lambda>(i, t). Push (frags ! i) t) evs)
      in holds x t0 l (S \<union> fst ` set evs) (reasm g') \<and>
         delivered g' = delivered g @
           (if S \<noteq> {0..<x_count x} \<and> S \<union> fst ` set evs = {0..<x_count x} then [x_frame x] else []))"
proof (induction evs arbitrary: g S)
  case Nil
  then show ?case by simp
next
  case (Cons e evs)
  obtain i t where e: "e = (i, t)" by fastforce
  have i: "i < x_count x" and t: "t - t0 < partial_timeout (x_count x)" "S = {} \<Longrightarrow> t = t0"
    using Cons.prems e by auto
  let ?g = "fragment_step g (Push (frags ! i) t)"
  note p = push_holds [OF x Cons.prems(1,2) i frags [OF i] t]
  have g: "holds x t0 l (insert i S) (reasm ?g)"
    "delivered ?g = delivered g @ (if S \<noteq> {0..<x_count x} \<and> insert i S = {0..<x_count x} then [x_frame x] else [])"
    using p unfolding fragment_step.simps Let_def case_prod_beta by simp_all
  let ?F = "{0..<x_count x}"
  have un: "S \<union> fst ` set (e # evs) = insert i S \<union> fst ` set evs" using e by auto
  have sub: "insert i S \<subseteq> ?F" "fst ` set evs \<subseteq> ?F" "snd ` set evs \<subseteq> {t. t - t0 < partial_timeout (x_count x)}"
    using Cons.prems(2-4) i by auto
  define g' where "g' = foldl fragment_step ?g (map (\<lambda>(i, t). Push (frags ! i) t) evs)"
  have IH: "holds x t0 l (insert i S \<union> fst ` set evs) (reasm g')"
    "delivered g' = delivered ?g @ (if insert i S \<noteq> ?F \<and> insert i S \<union> fst ` set evs = ?F then [x_frame x] else [])"
    using Cons.IH [OF g(1) sub] unfolding g'_def [symmetric] by (simp_all add: Let_def)
  have "S = ?F \<Longrightarrow> insert i S = ?F" "insert i S = ?F \<Longrightarrow> insert i S \<union> fst ` set evs = ?F"
    using i sub(2) by auto
  then have "delivered g' = delivered g @ (if S \<noteq> ?F \<and> insert i S \<union> fst ` set evs = ?F then [x_frame x] else [])"
    unfolding IH(2) g(2) by (cases "S = ?F"; cases "insert i S = ?F") simp_all
  moreover have "foldl fragment_step g (map (\<lambda>(i, t). Push (frags ! i) t) (e # evs)) = g'"
    unfolding g'_def e by simp
  ultimately show ?case unfolding un Let_def using IH(1) by simp
qed

subsection \<open>One frame, and a stream of frames\<close>

text \<open>
  A frame as the sender hands it over, and the arrivals of its fragments at the receiver as
  pairs of an index and a time: every index arrives at least once, none later than the timeout
  after the first arrival.
\<close>

record outgoing =
  o_keyframe :: bool
  o_codec :: VideoCodec
  o_pts_us :: u64
  o_signature :: bytes
  o_sealed :: bytes
  o_arrivals :: "(nat \<times> nat) list"

definition o_fragments :: "string \<Rightarrow> u32 \<Rightarrow> nat \<Rightarrow> outgoing \<Rightarrow> bytes list option" where
  "o_fragments sid seq max_payload q =
     fragment_frame sid seq (o_keyframe q) (o_codec q) (o_pts_us q) (o_signature q) (o_sealed q) max_payload"

definition o_frame :: "string \<Rightarrow> u32 \<Rightarrow> outgoing \<Rightarrow> ReassembledFrame" where
  "o_frame sid seq q =
     \<lparr>rf_sender = sid, rf_frame_seq = seq, rf_keyframe = o_keyframe q, rf_codec = o_codec q,
      rf_pts_us = o_pts_us q, rf_signature = o_signature q, rf_sealed = o_sealed q\<rparr>"

definition o_ops :: "bytes list \<Rightarrow> outgoing \<Rightarrow> fragment_op list" where
  "o_ops frags q = map (\<lambda>(i, t). Push (frags ! i) t) (o_arrivals q)"

definition o_arrives :: "outgoing \<Rightarrow> nat \<Rightarrow> bool" where
  "o_arrives q n \<longleftrightarrow> length (o_signature q) = SIGNATURE_LEN \<and>
     length (o_sealed q) \<le> MAX_PARTIAL_BYTES_PER_SENDER \<and>
     set (map fst (o_arrivals q)) = set [0..<n] \<and>
     list_all (\<lambda>(i, t). t - snd (hd (o_arrivals q)) < partial_timeout n) (o_arrivals q)"

definition idle :: "Reassembler \<Rightarrow> string \<Rightarrow> u32 option \<Rightarrow> bool" where
  "idle r sid l \<longleftrightarrow>
     (if l = None then hm_get r sid = None \<and> length r < MAX_SENDERS else hm_get r sid = Some (quiet l))"

lemma frame_roundtrip:
  assumes frags: "o_fragments sid seq mp q = Some frags" and utf8: "utf8_valid (as_bytes sid)"
    and q: "o_arrives q (length frags)" and l: "follows l seq"
    and g: "run_inv g" "idle (reasm g) sid l"
  shows "delivered (foldl fragment_step g (o_ops frags q)) = delivered g @ [o_frame sid seq q]"
    and "idle (reasm (foldl fragment_step g (o_ops frags q))) sid (Some seq)"
proof -
  obtain cap count where c: "0 < count" "count \<le> 512" "sid \<noteq> []" "length sid \<le> MAX_SENDER_LEN"
    and fs: "frags = map (\<lambda>i. encode_fragment sid seq (o_keyframe q) (o_codec q) (o_pts_us q) (o_signature q)
        i count (frame_chunk cap (o_sealed q) i)) [0..<count]"
    and cat: "concat (map (frame_chunk cap (o_sealed q)) [0..<count]) = o_sealed q"
    using frags unfolding o_fragments_def by (elim fragment_frame_SomeE)
  define x where "x = \<lparr>x_sid = sid, x_seq = seq, x_key = o_keyframe q, x_cdc = o_codec q, x_pts = o_pts_us q,
    x_sig = o_signature q, x_cap = cap, x_count = count, x_sealed = o_sealed q\<rparr>"
  have n: "length frags = count" by (simp add: fs)
  have "x_chunk x = frame_chunk cap (o_sealed q)" by (rule ext) (simp add: x_chunk_def x_def)
  then have ok: "x_ok x" using c cat q by (simp add: x_ok_def o_arrives_def) (simp add: x_def)
  have parse: "parse_fragment (frags ! i) = Some (x_header x i, x_chunk x i)" if "i < x_count x" for i
    using that parse_encode_fragment c utf8 q fs
    by (simp add: x_def x_header_def x_chunk_def o_arrives_def)
  have full: "fst ` set (o_arrivals q) = {0..<x_count x}"
    using q n by (simp add: o_arrives_def x_def)
  have "o_arrivals q \<noteq> []" using full c by (auto simp: x_def)
  have start: "holds x t0 l {} (reasm g)" for t0
    using g c by (auto simp: holds_def idle_def x_def run_inv_def reasm_inv_def)
  have times: "snd ` set (o_arrivals q) \<subseteq> {t. t - snd (hd (o_arrivals q)) < partial_timeout (x_count x)}"
    using q n by (auto simp: o_arrives_def list_all_iff x_def)
  have "follows l (x_seq x)" using l by (simp add: x_def)
  from run_holds [OF ok this parse start empty_subsetI _ times] full
  have run: "holds x (snd (hd (o_arrivals q))) l {0..<x_count x} (reasm (foldl fragment_step g (o_ops frags q)))"
    "delivered (foldl fragment_step g (o_ops frags q)) = delivered g @ (if {} \<noteq> {0..<x_count x} then [x_frame x] else [])"
    by (simp_all add: Let_def o_ops_def)
  then show "delivered (foldl fragment_step g (o_ops frags q)) = delivered g @ [o_frame sid seq q]"
    using c by (auto simp: x_def x_frame_def o_frame_def)
  show "idle (reasm (foldl fragment_step g (o_ops frags q))) sid (Some seq)"
    using run(1) by (simp add: holds_def idle_def x_def)
qed

lemma follows_next: "follows (Some k) (k + 1)"
proof -
  have "k - 2 - (k + 1) = (- 3 :: u32)" by simp
  moreover have "\<not> (- 3 :: u32) < 0x80000000" by simp
  ultimately show ?thesis by (simp add: follows_def seq_newer_def MONOTONIC_LAG_def)
qed

text \<open>A stream: frames numbered consecutively, modulo \<open>2 ^ 32\<close>, each arriving before the next one.\<close>

fun stream_ops :: "string \<Rightarrow> u32 \<Rightarrow> nat \<Rightarrow> outgoing list \<Rightarrow> fragment_op list option" where
  "stream_ops sid seq mp [] = Some []"
| "stream_ops sid seq mp (q # qs) =
     (case o_fragments sid seq mp q of
        None \<Rightarrow> None
      | Some frags \<Rightarrow>
          if o_arrives q (length frags)
          then map_option (\<lambda>ops. o_ops frags q @ ops) (stream_ops sid (seq + 1) mp qs) else None)"

fun stream_frames :: "string \<Rightarrow> u32 \<Rightarrow> outgoing list \<Rightarrow> ReassembledFrame list" where
  "stream_frames sid seq [] = []"
| "stream_frames sid seq (q # qs) = o_frame sid seq q # stream_frames sid (seq + 1) qs"

lemma stream_roundtrip:
  "stream_ops sid seq mp qs = Some ops \<Longrightarrow> utf8_valid (as_bytes sid) \<Longrightarrow> follows l seq \<Longrightarrow>
     run_inv g \<Longrightarrow> idle (reasm g) sid l \<Longrightarrow>
     delivered (foldl fragment_step g ops) = delivered g @ stream_frames sid seq qs"
proof (induction qs arbitrary: seq l g ops)
  case (Cons q qs)
  obtain frags ops' where f: "o_fragments sid seq mp q = Some frags" "o_arrives q (length frags)"
    and ops: "stream_ops sid (seq + 1) mp qs = Some ops'" "ops = o_ops frags q @ ops'"
    using Cons.prems(1) by (auto split: option.splits if_splits)
  note fr = frame_roundtrip [OF f(1) Cons.prems(2) f(2) Cons.prems(3,4,5)]
  have "run_inv (foldl fragment_step g (o_ops frags q))" by (rule reassembly.inv_run [OF Cons.prems(4)])
  from Cons.IH [OF ops(1) Cons.prems(2) follows_next this fr(2)] fr(1) ops(2) show ?case by simp
qed simp

text \<open>
  C1: what the sender fragments, the receiver reassembles. From any reachable state of the
  reassembler in which the sender is new and the table has room, a stream of frames numbered
  consecutively (across the 32-bit wrap too) and arriving one frame after the other is delivered
  completely, in order, each frame exactly once and equal to what was sent, whatever the order in which
  the fragments within a frame arrive and however many of them are duplicated, provided none arrives
  later than the timeout. Fragments of different frames are not interleaved here: a frame that a later
  one overtakes can be dropped.
\<close>

theorem video_stream_roundtrip:
  assumes "stream_ops sid seq max_payload qs = Some ops" and "utf8_valid (as_bytes sid)"
    and "g = foldl fragment_step fragment_start before"
    and "hm_get (reasm g) sid = None" and "reasm_tracked_senders (reasm g) < MAX_SENDERS"
  shows "delivered (foldl fragment_step g ops) = delivered g @ stream_frames sid seq qs"
proof -
  have "run_inv g" using assms(3) reassembly.inv_reachable by simp
  moreover have "idle (reasm g) sid None" using assms(4,5) by (simp add: idle_def reasm_tracked_senders_def)
  ultimately show ?thesis using stream_roundtrip [OF assms(1,2), of None g] by (simp add: follows_def)
qed

definition witness_frame1 :: outgoing where
  "witness_frame1 = \<lparr>o_keyframe = True, o_codec = Vp9, o_pts_us = 7, o_signature = replicate 64 5,
     o_sealed = [1, 2, 3, 4, 5], o_arrivals = [(2, 10), (0, 20), (2, 25), (1, 150)]\<rparr>"

definition witness_frame2 :: outgoing where
  "witness_frame2 = \<lparr>o_keyframe = False, o_codec = Vp9, o_pts_us = 8, o_signature = replicate 64 6,
     o_sealed = [9], o_arrivals = [(0, 300), (0, 301)]\<rparr>"

lemma witness_stream_ops: "stream_ops ''a'' 0xFFFFFFFF 87 [witness_frame1, witness_frame2] \<noteq> None"
proof -
  note frag_defs = o_fragments_def fragment_frame_def Let_def size_consts div_ceil_def MAX_FRAGS_PER_FRAME_def
  have 1: "map_option length (o_fragments ''a'' 0xFFFFFFFF 87 witness_frame1) = Some 3"
    by (simp add: witness_frame1_def frag_defs)
  have 2: "map_option length (o_fragments ''a'' (0xFFFFFFFF + 1) 87 witness_frame2) = Some 1"
    by (simp add: witness_frame2_def frag_defs)
  note defs = o_arrives_def SIGNATURE_LEN_def MAX_PARTIAL_BYTES_PER_SENDER_def partial_timeout_def
    PARTIAL_TIMEOUT_def PARTIAL_TIMEOUT_PER_FRAGMENT_def
  have "o_arrives witness_frame1 3" by (simp add: witness_frame1_def defs) auto
  moreover have "o_arrives witness_frame2 1" by (simp add: witness_frame2_def defs)
  ultimately show ?thesis using 1 2 by (auto split: option.splits)
qed

text \<open>Two frames across the wrap of the sequence number, fragments reordered and duplicated.\<close>

theorem video_stream_roundtrip_witness:
  "delivered (foldl fragment_step fragment_start
       (the (stream_ops ''a'' 0xFFFFFFFF 87 [witness_frame1, witness_frame2]))) =
     stream_frames ''a'' 0xFFFFFFFF [witness_frame1, witness_frame2]"
proof -
  have "utf8_valid (as_bytes ''a'')" by code_simp
  moreover have "hm_get (reasm fragment_start) ''a'' = None" "reasm_tracked_senders (reasm fragment_start) < MAX_SENDERS"
    "delivered fragment_start = []"
    by (simp_all add: fragment_start_def reassembler_new_def reasm_tracked_senders_def MAX_SENDERS_def)
  ultimately show ?thesis
    using video_stream_roundtrip [where sid = "''a''" and seq = "0xFFFFFFFF" and max_payload = 87
        and qs = "[witness_frame1, witness_frame2]" and g = fragment_start and before = "[]"]
      witness_stream_ops by (auto simp del: stream_ops.simps stream_frames.simps)
qed

end
