(* ===== verification/Sfu_Room.thy ===== *)
theory Sfu_Room
  imports Device_Routes
begin

section \<open>One SFU room (\<open>sfu.rs\<close>, \<open>SFURoom\<close>)\<close>

text \<open>
  A room keeps what each endpoint of a member does (\<open>device_members\<close>) and derives from it who is
  a voice participant and who only reads the chat. The wall clock read by \<open>now_secs\<close> and the
  random nonce of \<open>generate_nonce_hex\<close> are arguments; scores and clocks are exact reals.
\<close>

subsection \<open>Key spelling (\<open>crypto.rs\<close>)\<close>

definition normalize_public_id :: "string \<Rightarrow> string" where
  "normalize_public_id s =
     (let bare = trim_end_matches (CHR ''='') s
      in if length bare \<noteq> 43 then s else bare @ ''='')"

definition normalize_peer_id :: "string \<Rightarrow> string" where
  "normalize_peer_id peer_id = normalize_public_id peer_id"

lemma normalize_public_id_idem [simp]: "normalize_public_id (normalize_public_id s) = normalize_public_id s"
  by (auto simp: normalize_public_id_def Let_def)

lemma normalize_peer_id_idem [simp]: "normalize_peer_id (normalize_peer_id s) = normalize_peer_id s"
  by (simp add: normalize_peer_id_def)

subsection \<open>State\<close>

definition MAX_ROOM_SIZE :: nat where "MAX_ROOM_SIZE = 32"
definition MAX_ACTIVE_SPEAKERS :: nat where "MAX_ACTIVE_SPEAKERS = 5"
definition SPEAKER_SCORE_HALF_LIFE_SECS :: real where "SPEAKER_SCORE_HALF_LIFE_SECS = 2"
definition SPEAKER_SILENCE_SECS :: real where "SPEAKER_SILENCE_SECS = 6 / 10"

text \<open>\<open>f64::MAX\<close>, where the scan for the weakest speaker starts.\<close>

definition F64_MAX :: real where "F64_MAX = (2 - 1 / 2 ^ 52) * 2 ^ 1023"

datatype RoomType = Public | Private

record DeviceMembership =
  voice :: bool
  chat :: bool

definition membership_default :: DeviceMembership where
  "membership_default = \<lparr>voice = False, chat = False\<rparr>"

record SpeakerScore =
  score :: real
  last_active :: real

record InviteToken =
  created_by :: string
  uses :: nat
  max_uses :: nat

record SFURoom =
  room_id :: string
  room_name :: string
  room_type :: RoomType
  creator_id :: string
  invite_policy :: string
  participants :: "(string, u8) hmap"
  speaker_scores :: "(string, SpeakerScore) hmap"
  active_speakers :: "string list"
  subscribers :: "string list"
  device_members :: "(string \<times> DeviceId option, DeviceMembership) hmap"
  allowed :: "string list"
  invite_tokens :: "(string, InviteToken) hmap"
  empty_since :: "real option"
  next_index :: u8

definition normalize_invite_policy :: "string \<Rightarrow> string" where
  "normalize_invite_policy policy = (if policy = ''members'' then ''members'' else ''owner'')"

definition room_new :: "string \<Rightarrow> string \<Rightarrow> RoomType \<Rightarrow> string \<Rightarrow> SFURoom" where
  "room_new rid name typ creator =
     \<lparr>room_id = rid, room_name = name, room_type = typ, creator_id = normalize_peer_id creator,
      invite_policy = ''owner'', participants = [], speaker_scores = [], active_speakers = [],
      subscribers = [], device_members = [], allowed = [], invite_tokens = [], empty_since = None,
      next_index = 1\<rparr>"

subsection \<open>Queries\<close>

definition is_unused :: "SFURoom \<Rightarrow> bool" where
  "is_unused r \<longleftrightarrow> participants r = [] \<and> subscribers r = []"

definition is_public :: "SFURoom \<Rightarrow> bool" where
  "is_public r \<longleftrightarrow> room_type r = Public"

definition is_peer_allowed :: "SFURoom \<Rightarrow> string \<Rightarrow> bool" where
  "is_peer_allowed r peer_id =
     (let peer_id = normalize_peer_id peer_id
      in is_public r \<or> peer_id \<in> set (allowed r) \<or> creator_id r = peer_id \<or>
         hm_contains (participants r) peer_id)"

definition is_invite_eligible_member :: "SFURoom \<Rightarrow> string \<Rightarrow> bool" where
  "is_invite_eligible_member r peer_id =
     (let peer_id = normalize_peer_id peer_id
      in creator_id r = peer_id \<or> peer_id \<in> set (allowed r) \<or>
         hm_contains (participants r) peer_id \<or> peer_id \<in> set (subscribers r))"

definition participant_count :: "SFURoom \<Rightarrow> nat" where
  "participant_count r = length (participants r)"

definition is_full :: "SFURoom \<Rightarrow> bool" where
  "is_full r \<longleftrightarrow> length (participants r) \<ge> MAX_ROOM_SIZE"

definition participant_ids :: "SFURoom \<Rightarrow> string list" where
  "participant_ids r = hm_keys (participants r)"

definition chat_endpoints :: "SFURoom \<Rightarrow> (string \<times> DeviceId option) list" where
  "chat_endpoints r = map fst (filter (\<lambda>p. voice (snd p) \<or> chat (snd p)) (device_members r))"

definition chat_delivery_endpoints ::
  "SFURoom \<Rightarrow> string \<Rightarrow> DeviceId option \<Rightarrow> (string \<times> DeviceId option) list" where
  "chat_delivery_endpoints r sender source_device =
     (let sender = normalize_peer_id sender
      in filter (\<lambda>p. fst p \<noteq> sender \<or> snd p \<noteq> source_device) (chat_endpoints r))"

definition chat_recipient_ids :: "SFURoom \<Rightarrow> string list" where
  "chat_recipient_ids r = hm_keys (participants r) @ subscribers r"

subsection \<open>Membership\<close>

definition mark_in_use :: "SFURoom \<Rightarrow> SFURoom" where
  "mark_in_use r = r\<lparr>empty_since := None\<rparr>"

definition mark_unused_if_empty :: "real \<Rightarrow> SFURoom \<Rightarrow> SFURoom" where
  "mark_unused_if_empty now r =
     (if is_unused r
      then r\<lparr>empty_since := Some (case empty_since r of Some t \<Rightarrow> t | None \<Rightarrow> now)\<rparr> else r)"

definition allow_peer :: "SFURoom \<Rightarrow> string \<Rightarrow> SFURoom" where
  "allow_peer r peer_id = r\<lparr>allowed := hs_insert (normalize_peer_id peer_id) (allowed r)\<rparr>"

definition add_participant :: "SFURoom \<Rightarrow> string \<Rightarrow> bool \<times> SFURoom" where
  "add_participant r peer_id =
     (let peer_id = normalize_peer_id peer_id
      in if hm_contains (participants r) peer_id then (True, r)
         else if is_full r then (False, r)
         else
           let idx = next_index r;
               r = r\<lparr>next_index := max (next_index r + 1) 1\<rparr>;
               r = r\<lparr>participants := hm_insert peer_id idx (participants r)\<rparr>;
               r = r\<lparr>subscribers := hs_remove peer_id (subscribers r)\<rparr>
           in (True, mark_in_use r))"

definition forget_speaker :: "string \<Rightarrow> SFURoom \<Rightarrow> SFURoom" where
  "forget_speaker peer_id r =
     r\<lparr>speaker_scores := hm_remove peer_id (speaker_scores r),
       active_speakers := filter (\<lambda>s. s \<noteq> peer_id) (active_speakers r)\<rparr>"

definition remove_participant :: "real \<Rightarrow> SFURoom \<Rightarrow> string \<Rightarrow> bool \<times> SFURoom" where
  "remove_participant now r peer_id =
     (let peer_id = normalize_peer_id peer_id;
          removed = hm_contains (participants r) peer_id;
          r = r\<lparr>participants := hm_remove peer_id (participants r)\<rparr>
      in (removed, if removed then forget_speaker peer_id (mark_unused_if_empty now r) else r))"

definition subscribe :: "SFURoom \<Rightarrow> string \<Rightarrow> SFURoom" where
  "subscribe r peer_id =
     (let peer_id = normalize_peer_id peer_id
      in if \<not> hm_contains (participants r) peer_id
         then mark_in_use (r\<lparr>subscribers := hs_insert peer_id (subscribers r)\<rparr>) else r)"

definition unsubscribe :: "real \<Rightarrow> SFURoom \<Rightarrow> string \<Rightarrow> SFURoom" where
  "unsubscribe now r peer_id =
     (let peer_id = normalize_peer_id peer_id
      in if peer_id \<in> set (subscribers r)
         then mark_unused_if_empty now (r\<lparr>subscribers := hs_remove peer_id (subscribers r)\<rparr>) else r)"

definition remove_peer_entirely :: "real \<Rightarrow> SFURoom \<Rightarrow> string \<Rightarrow> bool \<times> SFURoom" where
  "remove_peer_entirely now r peer_id =
     (let peer_id = normalize_peer_id peer_id;
          r = r\<lparr>device_members := hm_retain (\<lambda>k _. fst k \<noteq> peer_id) (device_members r)\<rparr>;
          was_participant = hm_contains (participants r) peer_id;
          r = r\<lparr>participants := hm_remove peer_id (participants r)\<rparr>;
          was_subscriber = (peer_id \<in> set (subscribers r));
          r = r\<lparr>subscribers := hs_remove peer_id (subscribers r)\<rparr>;
          r = (if was_participant then forget_speaker peer_id r else r);
          r = (if was_participant \<or> was_subscriber then mark_unused_if_empty now r else r)
      in (was_participant \<or> was_subscriber, r))"

definition has_voice :: "SFURoom \<Rightarrow> string \<Rightarrow> bool" where
  "has_voice r peer_id = list_ex (\<lambda>p. fst (fst p) = peer_id \<and> voice (snd p)) (device_members r)"

definition has_chat :: "SFURoom \<Rightarrow> string \<Rightarrow> bool" where
  "has_chat r peer_id = list_ex (\<lambda>p. fst (fst p) = peer_id \<and> chat (snd p)) (device_members r)"

definition device_count :: "SFURoom \<Rightarrow> string \<Rightarrow> nat" where
  "device_count r peer_id =
     length (filter (\<lambda>k. fst k = peer_id \<and> snd k \<noteq> None) (hm_keys (device_members r)))"

text \<open>The last part of \<open>set_device_membership\<close>: the rosters follow the endpoints.\<close>

definition sync_rosters :: "real \<Rightarrow> SFURoom \<Rightarrow> string \<Rightarrow> SFURoom" where
  "sync_rosters now r peer_id =
     (let voice = has_voice r peer_id;
          chat = has_chat r peer_id;
          r = (if voice then snd (add_participant r peer_id) else snd (remove_participant now r peer_id))
      in if chat \<and> \<not> voice then subscribe r peer_id else unsubscribe now r peer_id)"

definition set_device_membership ::
  "real \<Rightarrow> SFURoom \<Rightarrow> string \<Rightarrow> DeviceId option \<Rightarrow> bool option \<Rightarrow> bool option \<Rightarrow> bool \<times> SFURoom" where
  "set_device_membership now r peer_id device v c =
     (let peer_id = normalize_peer_id peer_id;
          key = (peer_id, device);
          membership = (case hm_get (device_members r) key of Some m \<Rightarrow> m | None \<Rightarrow> membership_default)
      in if v = Some True \<and> \<not> hm_contains (participants r) peer_id \<and> is_full r then (False, r)
         else if \<not> hm_contains (device_members r) key \<and> device \<noteq> None \<and>
                 device_count r peer_id \<ge> MAX_LIVE_DEVICE_ROUTES then (False, r)
         else
           let membership = (case v of Some b \<Rightarrow> membership\<lparr>voice := b\<rparr> | None \<Rightarrow> membership);
               membership = (case c of Some b \<Rightarrow> membership\<lparr>chat := b\<rparr> | None \<Rightarrow> membership);
               r = r\<lparr>device_members :=
                      (if voice membership \<or> chat membership
                       then hm_insert key membership (device_members r)
                       else hm_remove key (device_members r))\<rparr>
           in (True, sync_rosters now r peer_id))"

subsection \<open>Active speakers\<close>

definition decay :: "real \<Rightarrow> SpeakerScore \<Rightarrow> real" where
  "decay now s = score s * (1 / 2) powr (max (now - last_active s) 0 / SPEAKER_SCORE_HALF_LIFE_SECS)"

definition effective :: "SpeakerScore \<Rightarrow> real \<Rightarrow> real" where
  "effective s now = decay now s"

definition eff_of :: "SFURoom \<Rightarrow> real \<Rightarrow> string \<Rightarrow> real" where
  "eff_of r now s = (case hm_get (speaker_scores r) s of Some e \<Rightarrow> effective e now | None \<Rightarrow> 0)"

definition bump_score :: "SFURoom \<Rightarrow> string \<Rightarrow> real \<Rightarrow> SFURoom" where
  "bump_score r sender now =
     (let e = (case hm_get (speaker_scores r) sender of
                 Some e \<Rightarrow> e | None \<Rightarrow> \<lparr>score = 0, last_active = now\<rparr>)
      in r\<lparr>speaker_scores := hm_insert sender \<lparr>score = decay now e + 1, last_active = now\<rparr> (speaker_scores r)\<rparr>)"

definition drop_silent :: "SFURoom \<Rightarrow> real \<Rightarrow> SFURoom" where
  "drop_silent r now =
     (let scores = hm_retain (\<lambda>_ s. now - last_active s \<le> SPEAKER_SILENCE_SECS) (speaker_scores r)
      in r\<lparr>speaker_scores := scores, active_speakers := filter (hm_contains scores) (active_speakers r)\<rparr>)"

text \<open>The scan for the weakest active speaker: index and score, from index \<open>i\<close> on.\<close>

fun weakest :: "(string \<Rightarrow> real) \<Rightarrow> string list \<Rightarrow> nat \<Rightarrow> nat \<times> real \<Rightarrow> nat \<times> real" where
  "weakest eff [] i best = best"
| "weakest eff (x # xs) i best =
     weakest eff xs (Suc i) (if eff x < snd best then (i, eff x) else best)"

definition note_audio_should_forward :: "SFURoom \<Rightarrow> string \<Rightarrow> real \<Rightarrow> bool \<times> SFURoom" where
  "note_audio_should_forward r sender now =
     (let r = drop_silent (bump_score r sender now) now
      in if list_ex (\<lambda>s. s = sender) (active_speakers r) then (True, r)
         else if length (active_speakers r) < MAX_ACTIVE_SPEAKERS
         then (True, r\<lparr>active_speakers := active_speakers r @ [sender]\<rparr>)
         else
           let sender_eff = eff_of r now sender;
               (weakest_idx, weakest_eff) = weakest (eff_of r now) (active_speakers r) 0 (0, F64_MAX)
           in if sender_eff > weakest_eff
              then (True, r\<lparr>active_speakers := (active_speakers r)[weakest_idx := sender]\<rparr>)
              else (False, r))"

subsection \<open>Invite tokens\<close>

definition generate_invite_token :: "SFURoom \<Rightarrow> string \<Rightarrow> string \<Rightarrow> nat \<Rightarrow> string \<times> SFURoom" where
  "generate_invite_token r token who n =
     (token, r\<lparr>invite_tokens := hm_insert token \<lparr>created_by = who, uses = 0, max_uses = n\<rparr> (invite_tokens r)\<rparr>)"

definition reregister_invite_token :: "SFURoom \<Rightarrow> string \<Rightarrow> string \<Rightarrow> bool \<times> SFURoom" where
  "reregister_invite_token r token who =
     (if token = [] then (False, r)
      else (True, r\<lparr>invite_tokens := hm_insert token \<lparr>created_by = who, uses = 0, max_uses = 0\<rparr> (invite_tokens r)\<rparr>))"

definition validate_and_consume_token :: "SFURoom \<Rightarrow> string \<Rightarrow> string \<Rightarrow> bool \<times> SFURoom" where
  "validate_and_consume_token r token peer_id =
     (case hm_get (invite_tokens r) token of
        None \<Rightarrow> (False, r)
      | Some it \<Rightarrow>
          if max_uses it > 0 \<and> uses it \<ge> max_uses it then (False, r)
          else
            let it = (if max_uses it > 0 then it\<lparr>uses := uses it + 1\<rparr> else it);
                r = r\<lparr>invite_tokens := hm_modify token (\<lambda>_. it) (invite_tokens r)\<rparr>;
                r = r\<lparr>allowed := hs_insert (normalize_peer_id peer_id) (allowed r)\<rparr>;
                r = (if max_uses it > 0 \<and> uses it \<ge> max_uses it
                     then r\<lparr>invite_tokens := hm_remove token (invite_tokens r)\<rparr> else r)
            in (True, r))"

end
