(* ===== verification/Sfu_Room_Inv.thy ===== *)
theory Sfu_Room_Inv
  imports Sfu_Room
begin

section \<open>The invariant of a room\<close>

text \<open>
  The derived rosters agree with the endpoints, the room is never over its size, endpoint and
  speaker limits, a used room has no idle stamp, and in a private room everybody present was
  admitted.
\<close>

definition rosters_ok :: "SFURoom \<Rightarrow> bool" where
  "rosters_ok r \<longleftrightarrow>
     (\<forall>i. hm_contains (participants r) i = has_voice r i) \<and>
     (\<forall>i. i \<in> set (subscribers r) \<longleftrightarrow> has_chat r i \<and> \<not> has_voice r i)"

definition endpoints_ok :: "SFURoom \<Rightarrow> bool" where
  "endpoints_ok r \<longleftrightarrow> hm_wf (device_members r) \<and>
     (\<forall>k m. (k, m) \<in> set (device_members r) \<longrightarrow> normalize_peer_id (fst k) = fst k \<and> (voice m \<or> chat m)) \<and>
     (\<forall>i. device_count r i \<le> MAX_LIVE_DEVICE_ROUTES)"

definition sizes_ok :: "SFURoom \<Rightarrow> bool" where
  "sizes_ok r \<longleftrightarrow> hm_wf (participants r) \<and> distinct (subscribers r) \<and>
     length (participants r) \<le> MAX_ROOM_SIZE \<and> (is_unused r \<or> empty_since r = None)"

definition speakers_ok :: "SFURoom \<Rightarrow> bool" where
  "speakers_ok r \<longleftrightarrow> hm_wf (speaker_scores r) \<and> distinct (active_speakers r) \<and>
     length (active_speakers r) \<le> MAX_ACTIVE_SPEAKERS \<and>
     set (active_speakers r) \<subseteq> set (hm_keys (speaker_scores r))"

definition present :: "SFURoom \<Rightarrow> string set" where
  "present r = set (hm_keys (participants r)) \<union> set (subscribers r)"

definition admitted_ok :: "SFURoom \<Rightarrow> bool" where
  "admitted_ok r \<longleftrightarrow> is_public r \<or> present r \<subseteq> set (allowed r) \<union> {creator_id r, ''''}"

definition room_inv :: "SFURoom \<Rightarrow> bool" where
  "room_inv r \<longleftrightarrow> rosters_ok r \<and> endpoints_ok r \<and> sizes_ok r \<and> speakers_ok r \<and> admitted_ok r"

lemmas room_parts = rosters_ok_def endpoints_ok_def sizes_ok_def speakers_ok_def admitted_ok_def

text \<open>The fields no membership operation touches.\<close>

definition same_card :: "SFURoom \<Rightarrow> SFURoom \<Rightarrow> bool" where
  "same_card r r' \<longleftrightarrow> room_id r' = room_id r \<and> room_name r' = room_name r \<and> room_type r' = room_type r \<and>
     creator_id r' = creator_id r \<and> invite_policy r' = invite_policy r \<and> allowed r' = allowed r \<and>
     invite_tokens r' = invite_tokens r"

lemma same_card_refl [simp]: "same_card r r"
  by (simp add: same_card_def)

lemma same_card_trans: "same_card a b \<Longrightarrow> same_card b c \<Longrightarrow> same_card a c"
  by (simp add: same_card_def)

lemma room_new_inv: "room_inv (room_new rid name typ c)"
  by (simp add: room_inv_def room_parts room_new_def has_voice_def has_chat_def device_count_def
      hm_contains_def hm_keys_def is_unused_def present_def)

subsection \<open>The roster operations\<close>

lemma mark_simps [simp]:
  "participants (mark_unused_if_empty now r) = participants r"
  "subscribers (mark_unused_if_empty now r) = subscribers r"
  "device_members (mark_unused_if_empty now r) = device_members r"
  "speaker_scores (mark_unused_if_empty now r) = speaker_scores r"
  "active_speakers (mark_unused_if_empty now r) = active_speakers r"
  "same_card r (mark_unused_if_empty now r)"
  "empty_since (mark_unused_if_empty now r) = None \<longleftrightarrow> \<not> is_unused r \<and> empty_since r = None"
  by (simp_all add: mark_unused_if_empty_def same_card_def)

lemma mark_in_use_simps [simp]:
  "participants (mark_in_use r) = participants r" "subscribers (mark_in_use r) = subscribers r"
  "device_members (mark_in_use r) = device_members r" "speaker_scores (mark_in_use r) = speaker_scores r"
  "active_speakers (mark_in_use r) = active_speakers r" "same_card r (mark_in_use r)"
  "empty_since (mark_in_use r) = None"
  by (simp_all add: mark_in_use_def same_card_def)

lemma forget_simps [simp]:
  "participants (forget_speaker p r) = participants r" "subscribers (forget_speaker p r) = subscribers r"
  "device_members (forget_speaker p r) = device_members r" "same_card r (forget_speaker p r)"
  "empty_since (forget_speaker p r) = empty_since r"
  by (simp_all add: forget_speaker_def same_card_def)

lemma hm_fst_remove [simp]: "fst ` set (hm_remove k m) = fst ` set m - {k}"
  by (auto simp: hm_remove_def)

lemma hs_remove_Nil [simp]: "hs_remove p xs = [] \<longleftrightarrow> set xs \<subseteq> {p}"
  by (auto simp: hs_remove_def filter_empty_conv)

lemma hm_contains_remove [simp]: "hm_contains (hm_remove k m) i \<longleftrightarrow> i \<noteq> k \<and> hm_contains m i"
  by (auto simp: hm_contains_def hm_remove_def)

lemma hm_contains_insert [simp]: "hm_contains (hm_insert k v m) i \<longleftrightarrow> i = k \<or> hm_contains m i"
  by (simp add: hm_contains_iff hm_get_insert)

lemma hm_contains_keys: "hm_contains m k \<longleftrightarrow> k \<in> set (hm_keys m)"
  by (simp add: hm_contains_def hm_keys_def)

lemma speakers_ok_forget: "speakers_ok r \<Longrightarrow> speakers_ok (forget_speaker p r)"
  by (auto simp: speakers_ok_def forget_speaker_def hm_wf_remove
      intro: order_trans [OF length_filter_le])

lemma add_participant_facts:
  assumes p: "normalize_peer_id p = p" and room: "hm_contains (participants r) p \<or> \<not> is_full r"
  defines "r' \<equiv> snd (add_participant r p)"
  shows "hm_contains (participants r') i \<longleftrightarrow> i = p \<or> hm_contains (participants r) i"
    and "i \<noteq> p \<Longrightarrow> i \<in> set (subscribers r') \<longleftrightarrow> i \<in> set (subscribers r)"
    and "device_members r' = device_members r" "same_card r r'"
    and "sizes_ok r \<Longrightarrow> sizes_ok r'" "speakers_ok r \<Longrightarrow> speakers_ok r'"
  using assms
  by (auto simp: add_participant_def Let_def sizes_ok_def speakers_ok_def is_full_def hm_wf_insert
      distinct_hs_remove length_hm_insert mark_in_use_def same_card_def)

lemma remove_participant_facts:
  fixes now :: real and r :: SFURoom
  assumes p: "normalize_peer_id p = p"
  defines "r' \<equiv> snd (remove_participant now r p)"
  shows "hm_contains (participants r') i \<longleftrightarrow> i \<noteq> p \<and> hm_contains (participants r) i"
    and "subscribers r' = subscribers r"
    and "device_members r' = device_members r" "same_card r r'"
    and "sizes_ok r \<Longrightarrow> sizes_ok r'" "speakers_ok r \<Longrightarrow> speakers_ok r'"
proof -
  let ?q = "r\<lparr>participants := hm_remove p (participants r)\<rparr>"
  have r': "r' = (if hm_contains (participants r) p then forget_speaker p (mark_unused_if_empty now ?q) else ?q)"
    using p by (simp add: r'_def remove_participant_def Let_def)
  show "hm_contains (participants r') i \<longleftrightarrow> i \<noteq> p \<and> hm_contains (participants r) i"
    "subscribers r' = subscribers r" "device_members r' = device_members r"
    by (auto simp: r')
  show "same_card r r'"
    by (simp add: r' same_card_def forget_speaker_def mark_unused_if_empty_def)
  show "speakers_ok r \<Longrightarrow> speakers_ok r'"
    by (auto simp: r' intro!: speakers_ok_forget) (auto simp: speakers_ok_def)
  show "sizes_ok r'" if s: "sizes_ok r"
  proof (cases "hm_contains (participants r) p")
    case True
    have "length (hm_remove p (participants r)) \<le> MAX_ROOM_SIZE"
      using s length_hm_remove_le [of p "participants r"] by (simp add: sizes_ok_def)
    moreover have "empty_since r = None"
      using True s by (auto simp: sizes_ok_def is_unused_def)
    moreover have "is_unused r' \<longleftrightarrow> is_unused ?q" by (simp add: r' is_unused_def)
    ultimately show ?thesis
      using s True by (auto simp: sizes_ok_def r' hm_wf_remove)
  next
    case False
    then have "hm_remove p (participants r) = participants r"
      by (simp add: hm_remove_absent hm_contains_def)
    then show ?thesis using s False by (simp add: r')
  qed
qed

lemma subscribe_facts:
  assumes p: "normalize_peer_id p = p" and out: "\<not> hm_contains (participants r) p"
  shows "set (subscribers (subscribe r p)) = insert p (set (subscribers r))"
    and "participants (subscribe r p) = participants r"
    and "device_members (subscribe r p) = device_members r" "same_card r (subscribe r p)"
    and "sizes_ok r \<Longrightarrow> sizes_ok (subscribe r p)" "speakers_ok r \<Longrightarrow> speakers_ok (subscribe r p)"
  using assms
  by (auto simp: subscribe_def Let_def sizes_ok_def speakers_ok_def distinct_hs_insert
      mark_in_use_def same_card_def)

lemma unsubscribe_facts:
  assumes p: "normalize_peer_id p = p"
  shows "set (subscribers (unsubscribe now r p)) = set (subscribers r) - {p}"
    and "participants (unsubscribe now r p) = participants r"
    and "device_members (unsubscribe now r p) = device_members r" "same_card r (unsubscribe now r p)"
    and "sizes_ok r \<Longrightarrow> sizes_ok (unsubscribe now r p)" "speakers_ok r \<Longrightarrow> speakers_ok (unsubscribe now r p)"
  using assms
  by (auto simp: unsubscribe_def Let_def sizes_ok_def speakers_ok_def distinct_hs_remove
      mark_unused_if_empty_def same_card_def is_unused_def)

lemma sync_rosters_facts:
  fixes now :: real
  assumes p: "normalize_peer_id p = p" and room: "has_voice r p \<longrightarrow> hm_contains (participants r) p \<or> \<not> is_full r"
  defines "r' \<equiv> sync_rosters now r p"
  shows "hm_contains (participants r') i \<longleftrightarrow> (if i = p then has_voice r p else hm_contains (participants r) i)"
    and "i \<in> set (subscribers r') \<longleftrightarrow> (if i = p then has_chat r p \<and> \<not> has_voice r p else i \<in> set (subscribers r))"
    and "device_members r' = device_members r" "same_card r r'"
    and "sizes_ok r \<Longrightarrow> sizes_ok r'" "speakers_ok r \<Longrightarrow> speakers_ok r'"
proof -
  define q where "q = (if has_voice r p then snd (add_participant r p) else snd (remove_participant now r p))"
  have q: "hm_contains (participants q) j \<longleftrightarrow> (if j = p then has_voice r p else hm_contains (participants r) j)"
    "j \<noteq> p \<Longrightarrow> j \<in> set (subscribers q) \<longleftrightarrow> j \<in> set (subscribers r)"
    "device_members q = device_members r" "same_card r q"
    "sizes_ok r \<Longrightarrow> sizes_ok q" "speakers_ok r \<Longrightarrow> speakers_ok q" for j
    using add_participant_facts [OF p, of r] remove_participant_facts [OF p, where r = r and now = now] room by (auto simp: q_def)
  have r': "r' = (if has_chat r p \<and> \<not> has_voice r p then subscribe q p else unsubscribe now q p)"
    by (simp add: r'_def sync_rosters_def q_def Let_def)
  have out: "\<not> hm_contains (participants q) p" if "\<not> has_voice r p" using that q(1) by simp
  note facts = subscribe_facts [OF p out] unsubscribe_facts [OF p, where r = q and now = now]
  show "hm_contains (participants r') i \<longleftrightarrow> (if i = p then has_voice r p else hm_contains (participants r) i)"
    using facts(2,8) q(1) by (simp add: r')
  show "i \<in> set (subscribers r') \<longleftrightarrow> (if i = p then has_chat r p \<and> \<not> has_voice r p else i \<in> set (subscribers r))"
    using facts(1,7) q(2) by (auto simp: r')
  show "device_members r' = device_members r" using facts(3,9) q(3) by (simp add: r')
  show "same_card r r'" using facts(4,10) q(4) by (auto simp: r' intro: same_card_trans)
  show "sizes_ok r \<Longrightarrow> sizes_ok r'" using facts(5,11) q(5) by (simp add: r')
  show "speakers_ok r \<Longrightarrow> speakers_ok r'" using facts(6,12) q(6) by (simp add: r')
qed

subsection \<open>Changing an endpoint\<close>

text \<open>What a call asks for, and when the room takes it.\<close>

definition wanted :: "SFURoom \<Rightarrow> string \<times> DeviceId option \<Rightarrow> bool option \<Rightarrow> bool option \<Rightarrow> DeviceMembership" where
  "wanted r key v c =
     (let m = (case hm_get (device_members r) key of Some m \<Rightarrow> m | None \<Rightarrow> membership_default)
      in \<lparr>voice = (case v of Some b \<Rightarrow> b | None \<Rightarrow> voice m), chat = (case c of Some b \<Rightarrow> b | None \<Rightarrow> chat m)\<rparr>)"

definition takes :: "SFURoom \<Rightarrow> string \<times> DeviceId option \<Rightarrow> bool option \<Rightarrow> bool" where
  "takes r key v \<longleftrightarrow>
     (v = Some True \<longrightarrow> hm_contains (participants r) (fst key) \<or> \<not> is_full r) \<and>
     (hm_contains (device_members r) key \<or> snd key = None \<or> device_count r (fst key) < MAX_LIVE_DEVICE_ROUTES)"

definition with_endpoint :: "SFURoom \<Rightarrow> string \<times> DeviceId option \<Rightarrow> DeviceMembership \<Rightarrow> SFURoom" where
  "with_endpoint r key m =
     r\<lparr>device_members := (if voice m \<or> chat m then hm_insert key m (device_members r)
                          else hm_remove key (device_members r))\<rparr>"

lemma set_device_membership_eq:
  "set_device_membership now r p d v c =
     (let key = (normalize_peer_id p, d)
      in if takes r key v
         then (True, sync_rosters now (with_endpoint r key (wanted r key v c)) (normalize_peer_id p))
         else (False, r))"
proof -
  have upd: "(case c of Some b \<Rightarrow> (case v of Some b \<Rightarrow> m\<lparr>voice := b\<rparr> | None \<Rightarrow> m)\<lparr>chat := b\<rparr>
        | None \<Rightarrow> (case v of Some b \<Rightarrow> m\<lparr>voice := b\<rparr> | None \<Rightarrow> m)) =
      \<lparr>voice = (case v of Some b \<Rightarrow> b | None \<Rightarrow> voice m), chat = (case c of Some b \<Rightarrow> b | None \<Rightarrow> chat m)\<rparr>"
    for m :: DeviceMembership
    by (cases m; cases v; cases c) simp_all
  let ?k = "(normalize_peer_id p, d)"
  let ?full = "v = Some True \<and> \<not> hm_contains (participants r) (normalize_peer_id p) \<and> is_full r"
  let ?many = "\<not> hm_contains (device_members r) ?k \<and> d \<noteq> None \<and>
    MAX_LIVE_DEVICE_ROUTES \<le> device_count r (normalize_peer_id p)"
  have takes: "takes r ?k v \<longleftrightarrow> \<not> ?full \<and> \<not> ?many" by (auto simp: takes_def not_le)
  show ?thesis
    unfolding set_device_membership_def Let_def upd with_endpoint_def takes wanted_def
    by (cases ?full; cases ?many) (simp_all only: simp_thms if_True if_False)
qed

lemma has_voice_get:
  "hm_wf (device_members r) \<Longrightarrow> has_voice r i \<longleftrightarrow> (\<exists>d m. hm_get (device_members r) (i, d) = Some m \<and> voice m)"
  by (auto simp: has_voice_def list_ex_iff hm_get_in) force+

lemma has_chat_get:
  "hm_wf (device_members r) \<Longrightarrow> has_chat r i \<longleftrightarrow> (\<exists>d m. hm_get (device_members r) (i, d) = Some m \<and> chat m)"
  by (auto simp: has_chat_def list_ex_iff hm_get_in) force+

lemma get_with_endpoint:
  "hm_get (device_members (with_endpoint r key m)) k =
     (if k = key then (if voice m \<or> chat m then Some m else None) else hm_get (device_members r) k)"
  by (simp add: with_endpoint_def coll_simps)

lemma with_endpoint_simps [simp]:
  "participants (with_endpoint r key m) = participants r" "subscribers (with_endpoint r key m) = subscribers r"
  "same_card r (with_endpoint r key m)" "sizes_ok (with_endpoint r key m) = sizes_ok r"
  "speakers_ok (with_endpoint r key m) = speakers_ok r" "is_full (with_endpoint r key m) = is_full r"
  by (simp_all add: with_endpoint_def same_card_def sizes_ok_def speakers_ok_def is_unused_def is_full_def)

lemma wf_with_endpoint: "hm_wf (device_members r) \<Longrightarrow> hm_wf (device_members (with_endpoint r key m))"
  by (simp add: with_endpoint_def hm_wf_insert hm_wf_remove)

lemma filter_keys_insert:
  "length (filter P (hm_keys (hm_insert k v m))) =
     length (filter P (hm_keys m)) + (if hm_contains m k \<or> \<not> P k then 0 else 1)"
  by (induction m) (auto simp: hm_keys_def hm_contains_def image_iff, force+)

lemma endpoints_ok_with:
  assumes "endpoints_ok r" "takes r key v" "normalize_peer_id (fst key) = fst key"
  shows "endpoints_ok (with_endpoint r key m)"
proof -
  have "device_count (with_endpoint r key m) i \<le> MAX_LIVE_DEVICE_ROUTES" for i
  proof (cases "voice m \<or> chat m")
    case True
    then show ?thesis
      using assms(1,2) unfolding endpoints_ok_def takes_def
      by (auto simp: device_count_def with_endpoint_def filter_keys_insert)
  next
    case False
    then show ?thesis
      using assms(1) devices_hm_remove_le [of "\<lambda>k. fst k = i \<and> snd k \<noteq> None" key "device_members r"]
      unfolding endpoints_ok_def device_count_def with_endpoint_def by (simp add: order_trans)
  qed
  moreover have "normalize_peer_id (fst k) = fst k \<and> (voice e \<or> chat e)"
    if "(k, e) \<in> set (device_members (with_endpoint r key m))" for k e
  proof -
    have "(k, e) = (key, m) \<and> (voice m \<or> chat m) \<or> (k, e) \<in> set (device_members r)"
      using that set_hm_insert [of key m "device_members r"]
      by (auto simp: with_endpoint_def hm_remove_def split: if_splits)
    then show ?thesis using assms(1,3) unfolding endpoints_ok_def by blast
  qed
  ultimately show ?thesis
    using assms(1) by (simp add: endpoints_ok_def wf_with_endpoint)
qed

lemma has_with_endpoint_other:
  assumes "hm_wf (device_members r)" "i \<noteq> fst key"
  shows "has_voice (with_endpoint r key m) i = has_voice r i" "has_chat (with_endpoint r key m) i = has_chat r i"
proof -
  have "(i, d) \<noteq> key" for d using assms(2) by (cases key) auto
  then show "has_voice (with_endpoint r key m) i = has_voice r i" "has_chat (with_endpoint r key m) i = has_chat r i"
    using assms(1) by (simp_all add: has_voice_get has_chat_get wf_with_endpoint get_with_endpoint)
qed

lemma has_voice_with_endpoint_old:
  assumes wf: "hm_wf (device_members r)" and v: "v \<noteq> Some True"
    and h: "has_voice (with_endpoint r key (wanted r key v c)) i"
  shows "has_voice r i"
proof -
  obtain d m where m: "hm_get (device_members (with_endpoint r key (wanted r key v c))) (i, d) = Some m" "voice m"
    using h wf by (auto simp: has_voice_get wf_with_endpoint)
  show ?thesis
  proof (cases "(i, d) = key")
    case True
    with m have "voice (wanted r key v c)" by (simp add: get_with_endpoint split: if_splits)
    with v have "voice (case hm_get (device_members r) key of Some m \<Rightarrow> m | None \<Rightarrow> membership_default)"
      by (cases v) (auto simp: wanted_def Let_def)
    then show ?thesis
      using True wf by (auto simp: has_voice_get membership_default_def split: option.splits)
  next
    case False
    with m wf show ?thesis by (auto simp: has_voice_get get_with_endpoint)
  qed
qed

lemma has_chat_with_endpoint_old:
  assumes wf: "hm_wf (device_members r)" and c: "c \<noteq> Some True"
    and h: "has_chat (with_endpoint r key (wanted r key v c)) i"
  shows "has_chat r i"
proof -
  obtain d m where m: "hm_get (device_members (with_endpoint r key (wanted r key v c))) (i, d) = Some m" "chat m"
    using h wf by (auto simp: has_chat_get wf_with_endpoint)
  show ?thesis
  proof (cases "(i, d) = key")
    case True
    with m have "chat (wanted r key v c)" by (simp add: get_with_endpoint split: if_splits)
    with c have "chat (case hm_get (device_members r) key of Some m \<Rightarrow> m | None \<Rightarrow> membership_default)"
      by (cases c) (auto simp: wanted_def Let_def)
    then show ?thesis
      using True wf by (auto simp: has_chat_get membership_default_def split: option.splits)
  next
    case False
    with m wf show ?thesis by (auto simp: has_chat_get get_with_endpoint)
  qed
qed

lemma present_iff: "rosters_ok r \<Longrightarrow> i \<in> present r \<longleftrightarrow> has_voice r i \<or> has_chat r i"
  by (auto simp: rosters_ok_def present_def hm_contains_def)

text \<open>
  What \<open>set_device_membership\<close> does to a room in good state when it takes the request: exactly
  the one endpoint changes, the rosters follow, everything else stays.
\<close>

lemma set_device_membership_takes:
  fixes now :: real and c :: "bool option"
  assumes inv: "room_inv r" and tk: "takes r (normalize_peer_id p, d) v"
  defines "key \<equiv> (normalize_peer_id p, d)"
  defines "r' \<equiv> snd (set_device_membership now r p d v c)"
  shows "fst (set_device_membership now r p d v c)"
    and "hm_get (device_members r') k = (if k = key then
          (if voice (wanted r key v c) \<or> chat (wanted r key v c) then Some (wanted r key v c) else None)
          else hm_get (device_members r) k)"
    and "same_card r r'" "rosters_ok r'" "endpoints_ok r'" "sizes_ok r'" "speakers_ok r'"
proof -
  let ?n = "normalize_peer_id p" and ?q = "with_endpoint r key (wanted r key v c)"
  have parts: "rosters_ok r" "endpoints_ok r" "sizes_ok r" "speakers_ok r" using inv by (simp_all add: room_inv_def)
  have wf: "hm_wf (device_members r)" using parts(2) by (simp add: endpoints_ok_def)
  have r': "r' = sync_rosters now ?q ?n" and ok: "fst (set_device_membership now r p d v c)"
    using tk by (simp_all add: r'_def key_def set_device_membership_eq Let_def)
  show "fst (set_device_membership now r p d v c)" by (rule ok)
  have room: "has_voice ?q ?n \<longrightarrow> hm_contains (participants ?q) ?n \<or> \<not> is_full ?q"
  proof (cases "v = Some True")
    case True
    then show ?thesis using tk by (auto simp: takes_def key_def)
  next
    case False
    from has_voice_with_endpoint_old [OF wf False] parts(1) show ?thesis by (auto simp: rosters_ok_def)
  qed
  note sync = sync_rosters_facts [OF normalize_peer_id_idem room, where now = now]
  show "hm_get (device_members r') k = (if k = key then
          (if voice (wanted r key v c) \<or> chat (wanted r key v c) then Some (wanted r key v c) else None)
          else hm_get (device_members r) k)"
    unfolding r' sync(3) by (rule get_with_endpoint)
  show "same_card r r'" unfolding r' by (rule same_card_trans [OF _ sync(4)]) simp_all
  show "sizes_ok r'" "speakers_ok r'" unfolding r' using sync(5,6) parts by simp_all
  have hv: "has_voice r' i = has_voice ?q i" "has_chat r' i = has_chat ?q i" for i
    unfolding r' has_voice_def has_chat_def sync(3) by simp_all
  show "endpoints_ok r'"
  proof -
    have "endpoints_ok ?q"
      using endpoints_ok_with [OF parts(2) tk, of "wanted r key v c"] unfolding key_def by simp
    then show ?thesis unfolding r' endpoints_ok_def device_count_def sync(3) by blast
  qed
  show "rosters_ok r'"
  proof -
    have "(hm_contains (participants r') i = has_voice ?q i) \<and>
        (i \<in> set (subscribers r') \<longleftrightarrow> has_chat ?q i \<and> \<not> has_voice ?q i)" for i
    proof (cases "i = ?n")
      case True
      then show ?thesis unfolding r' sync(1,2) by simp
    next
      case False
      then have "has_voice ?q i = has_voice r i" "has_chat ?q i = has_chat r i"
        using has_with_endpoint_other [OF wf, of i key] by (simp_all add: key_def)
      then show ?thesis using False parts(1) unfolding r' sync(1,2) by (simp add: rosters_ok_def)
    qed
    then show ?thesis unfolding rosters_ok_def hv by blast
  qed
qed

lemma set_device_membership_inv:
  assumes inv: "room_inv r" and adm: "v = Some True \<or> c = Some True \<Longrightarrow> is_peer_allowed r p"
  shows "room_inv (snd (set_device_membership now r p d v c))"
    and "same_card r (snd (set_device_membership now r p d v c))"
proof -
  let ?r = "snd (set_device_membership now r p d v c)" and ?n = "normalize_peer_id p"
  have "room_inv ?r \<and> same_card r ?r"
  proof (cases "takes r (?n, d) v")
    case False
    then show ?thesis using inv by (simp add: set_device_membership_eq Let_def)
  next
    case True
    note f = set_device_membership_takes [OF inv True, where now = now and c = c]
    have wf: "hm_wf (device_members r)" and ros: "rosters_ok r"
      using inv by (simp_all add: room_inv_def endpoints_ok_def)
    have wf': "hm_wf (device_members ?r)" using f(5) by (simp add: endpoints_ok_def)
    have old: "i \<in> present r" if i: "i \<in> present ?r" "i \<noteq> ?n \<or> \<not> (v = Some True \<or> c = Some True)" for i
    proof -
      let ?q = "with_endpoint r (?n, d) (wanted r (?n, d) v c)"
      have "has_voice ?q i \<or> has_chat ?q i"
        using i(1) wf wf' unfolding present_iff [OF f(4)]
        by (auto simp: has_voice_get has_chat_get wf_with_endpoint get_with_endpoint f(2))
      then show ?thesis
        using i(2) has_with_endpoint_other [OF wf, of i "(?n, d)"]
          has_voice_with_endpoint_old [OF wf] has_chat_with_endpoint_old [OF wf]
        unfolding present_iff [OF ros] by (metis fst_conv)
    qed
    have "admitted_ok ?r"
    proof (cases "is_public r")
      case True
      then show ?thesis using f(3) by (simp add: admitted_ok_def is_public_def same_card_def)
    next
      case False
      then have sub: "present r \<subseteq> set (allowed r) \<union> {creator_id r, ''''}"
        using inv by (simp add: room_inv_def admitted_ok_def)
      have "?n \<in> set (allowed r) \<union> {creator_id r, ''''}" if "v = Some True \<or> c = Some True"
        using adm [OF that] False sub by (auto simp: is_peer_allowed_def Let_def present_def hm_contains_def)
      then have "present ?r \<subseteq> set (allowed r) \<union> {creator_id r, ''''}" using old sub by blast
      then show ?thesis using f(3) by (simp add: admitted_ok_def same_card_def)
    qed
    then show ?thesis using f by (simp add: room_inv_def)
  qed
  then show "room_inv ?r" "same_card r ?r" by simp_all
qed

lemma remove_peer_entirely_inv:
  assumes inv: "room_inv r"
  shows "room_inv (snd (remove_peer_entirely now r p))"
    and "same_card r (snd (remove_peer_entirely now r p))"
    and "present (snd (remove_peer_entirely now r p)) = present r - {normalize_peer_id p}"
    and "fst (remove_peer_entirely now r p) \<longleftrightarrow> normalize_peer_id p \<in> present r"
proof -
  let ?n = "normalize_peer_id p"
  let ?a = "r\<lparr>device_members := hm_retain (\<lambda>k _. fst k \<noteq> ?n) (device_members r),
      participants := hm_remove ?n (participants r), subscribers := hs_remove ?n (subscribers r)\<rparr>"
  let ?b = "if hm_contains (participants r) ?n then forget_speaker ?n ?a else ?a"
  define r' where "r' = (if ?n \<in> present r then mark_unused_if_empty now ?b else ?b)"
  have eq: "remove_peer_entirely now r p = (?n \<in> present r, r')"
    by (simp add: remove_peer_entirely_def Let_def r'_def present_def hm_contains_def)
  have fields: "device_members r' = device_members ?a" "participants r' = participants ?a"
    "subscribers r' = subscribers ?a" "same_card r r'"
    by (auto simp: r'_def same_card_def forget_speaker_def mark_unused_if_empty_def)
  have hv: "has_voice r' i \<longleftrightarrow> i \<noteq> ?n \<and> has_voice r i" "has_chat r' i \<longleftrightarrow> i \<noteq> ?n \<and> has_chat r i" for i
    by (auto simp: has_voice_def has_chat_def fields hm_retain_def list_ex_iff) force+
  have pres: "present r' = present r - {?n}" by (auto simp: present_def fields)
  have ros: "rosters_ok r'" using inv by (auto simp: room_inv_def rosters_ok_def hv fields)
  have "device_count r' i \<le> device_count r i" for i
    unfolding device_count_def fields hm_keys_def hm_retain_def
    by (simp add: filter_map length_filter_conv_card comp_def) (rule card_mono, auto)
  then have ends: "endpoints_ok r'"
    using inv unfolding room_inv_def endpoints_ok_def
    by (auto simp: fields hm_retain_def hm_wf_filter) (meson order_trans)
  have spk: "speakers_ok r'"
    using inv speakers_ok_forget [of ?a ?n] by (auto simp: r'_def room_inv_def speakers_ok_def)
  have siz: "sizes_ok r'"
  proof (cases "?n \<in> present r")
    case True
    then have "empty_since r = None" using inv by (auto simp: room_inv_def sizes_ok_def is_unused_def present_def)
    then have "is_unused r' \<or> empty_since r' = None" using True by (auto simp: r'_def is_unused_def)
    then show ?thesis
      using inv length_hm_remove_le [of ?n "participants r"]
      by (auto simp: room_inv_def sizes_ok_def fields hm_wf_remove distinct_hs_remove)
  next
    case False
    then have "hm_remove ?n (participants r) = participants r" "hs_remove ?n (subscribers r) = subscribers r"
      by (auto simp: present_def hm_remove_absent hs_remove_def filter_id_conv)
    then show ?thesis using inv False by (auto simp: r'_def present_def hm_contains_def room_inv_def sizes_ok_def is_unused_def)
  qed
  have "admitted_ok r'"
    using inv pres fields(4) by (auto simp: room_inv_def admitted_ok_def is_public_def same_card_def)
  with ros ends siz spk have "room_inv r'" by (simp add: room_inv_def)
  then show "room_inv (snd (remove_peer_entirely now r p))"
    "same_card r (snd (remove_peer_entirely now r p))"
    "present (snd (remove_peer_entirely now r p)) = present r - {?n}"
    "fst (remove_peer_entirely now r p) \<longleftrightarrow> ?n \<in> present r"
    using eq fields(4) pres by simp_all
qed

subsection \<open>Speakers and tokens\<close>

text \<open>Audio bookkeeping touches nothing but the two speaker fields.\<close>

definition same_members :: "SFURoom \<Rightarrow> SFURoom \<Rightarrow> bool" where
  "same_members r r' \<longleftrightarrow> participants r' = participants r \<and> subscribers r' = subscribers r \<and>
     device_members r' = device_members r \<and> empty_since r' = empty_since r"

lemma room_inv_cong:
  assumes "room_inv r" "same_members r r'" "same_card r r'" "speakers_ok r'"
  shows "room_inv r'"
  using assms
  by (simp add: room_inv_def room_parts same_members_def same_card_def has_voice_def has_chat_def
      device_count_def present_def is_unused_def is_public_def)

lemma weakest_le_start: "snd (weakest eff xs i b) \<le> snd b"
proof (induction xs arbitrary: i b)
  case (Cons y ys)
  have "snd (if eff y < snd b then (i, eff y) else b) \<le> snd b" by simp
  then show ?case unfolding weakest.simps by (rule order_trans [OF Cons.IH])
qed simp

lemma weakest_le: "x \<in> set xs \<Longrightarrow> snd (weakest eff xs i b) \<le> eff x"
proof (induction xs arbitrary: i b)
  case (Cons y ys)
  have "snd (weakest eff ys (Suc i) (if eff y < snd b then (i, eff y) else b)) \<le> eff y"
    by (rule order_trans [OF weakest_le_start]) simp
  then show ?case using Cons.IH Cons.prems unfolding weakest.simps by (cases "x = y") simp_all
qed simp

lemma weakest_index: "fst b < n \<Longrightarrow> i + length xs \<le> n \<Longrightarrow> fst (weakest eff xs i b) < n"
  by (induction xs arbitrary: i b) auto

lemma drop_silent_bump:
  fixes sender :: string and now :: real
  assumes "speakers_ok r"
  defines "q \<equiv> drop_silent (bump_score r sender now) now"
  shows "speakers_ok q" "hm_contains (speaker_scores q) sender" "same_members r q" "same_card r q"
proof -
  let ?s = "speaker_scores (bump_score r sender now)"
  let ?keep = "\<lambda>_ s. now - last_active s \<le> SPEAKER_SILENCE_SECS"
  have wf: "hm_wf ?s" using assms(1) by (simp add: speakers_ok_def bump_score_def Let_def hm_wf_insert)
  have wf': "hm_wf (hm_retain ?keep ?s)" using wf by (simp add: hm_retain_def hm_wf_filter)
  have "hm_get ?s sender = Some \<lparr>score = decay now (case hm_get (speaker_scores r) sender of
      Some e \<Rightarrow> e | None \<Rightarrow> \<lparr>score = 0, last_active = now\<rparr>) + 1, last_active = now\<rparr>"
    by (simp add: bump_score_def Let_def hm_get_insert)
  then show "hm_contains (speaker_scores q) sender"
    using wf by (simp add: q_def drop_silent_def Let_def hm_contains_iff hm_get_retain SPEAKER_SILENCE_SECS_def)
  show "same_members r q" "same_card r q"
    by (simp_all add: q_def drop_silent_def bump_score_def Let_def same_members_def same_card_def)
  have "active_speakers (bump_score r sender now) = active_speakers r" by (simp add: bump_score_def Let_def)
  then show "speakers_ok q"
    using assms(1) wf' order_trans [OF length_filter_le, of "active_speakers r" MAX_ACTIVE_SPEAKERS]
    by (auto simp: q_def drop_silent_def Let_def speakers_ok_def hm_contains_def)
qed

lemma note_audio_facts:
  fixes sender :: string and now :: real
  assumes "speakers_ok r"
  defines "q \<equiv> drop_silent (bump_score r sender now) now"
  defines "r' \<equiv> snd (note_audio_should_forward r sender now)"
  shows "speakers_ok r'" "same_members r r'" "same_card r r'"
    and "fst (note_audio_should_forward r sender now) \<longleftrightarrow> sender \<in> set (active_speakers r')"
    and "speaker_scores r' = speaker_scores q"
    and "\<not> fst (note_audio_should_forward r sender now) \<Longrightarrow>
           length (active_speakers r') = MAX_ACTIVE_SPEAKERS \<and>
           (\<forall>a \<in> set (active_speakers r'). eff_of r' now sender \<le> eff_of r' now a)"
proof -
  note d = drop_silent_bump [OF assms(1), of sender now, folded q_def]
  obtain w e where we: "weakest (eff_of q now) (active_speakers q) 0 (0, F64_MAX) = (w, e)" by fastforce
  have le: "e \<le> eff_of q now a" if "a \<in> set (active_speakers q)" for a
    using weakest_le [OF that, of "eff_of q now" 0 "(0, F64_MAX)"] we by simp
  have w: "w < MAX_ACTIVE_SPEAKERS" if "\<not> length (active_speakers q) < MAX_ACTIVE_SPEAKERS"
    using that d(1) weakest_index [of "(0, F64_MAX)" MAX_ACTIVE_SPEAKERS 0 "active_speakers q" "eff_of q now"] we
    by (simp add: speakers_ok_def MAX_ACTIVE_SPEAKERS_def)
  have cases: "note_audio_should_forward r sender now =
     (if sender \<in> set (active_speakers q) then (True, q)
      else if length (active_speakers q) < MAX_ACTIVE_SPEAKERS
      then (True, q\<lparr>active_speakers := active_speakers q @ [sender]\<rparr>)
      else if e < eff_of q now sender then (True, q\<lparr>active_speakers := (active_speakers q)[w := sender]\<rparr>)
      else (False, q))"
    unfolding note_audio_should_forward_def q_def [symmetric] Let_def we prod.case
    by (simp add: list_ex_iff)
  have full: "length (active_speakers q) = MAX_ACTIVE_SPEAKERS" if "\<not> length (active_speakers q) < MAX_ACTIVE_SPEAKERS"
    using that d(1) by (simp add: speakers_ok_def)
  have sub: "set ((active_speakers q)[w := sender]) \<subseteq> insert sender (set (active_speakers q))"
    by (rule set_update_subset_insert)
  have spk: "sender \<in> set (hm_keys (speaker_scores q))" using d(2) by (simp add: hm_contains_def)
  show "same_members r r'" "same_card r r'" "speaker_scores r' = speaker_scores q"
    using d(3,4) unfolding r'_def cases by (simp_all add: same_members_def same_card_def)
  show "fst (note_audio_should_forward r sender now) \<longleftrightarrow> sender \<in> set (active_speakers r')"
    using w full unfolding r'_def cases by (auto intro!: set_update_memI)
  show "speakers_ok r'"
  proof -
    have "distinct ((active_speakers q)[w := sender])" if "sender \<notin> set (active_speakers q)"
      using that d(1) by (simp add: speakers_ok_def distinct_list_update)
    then show ?thesis
      using d(1) spk sub unfolding r'_def cases by (auto simp: speakers_ok_def)
  qed
  show "length (active_speakers r') = MAX_ACTIVE_SPEAKERS \<and>
      (\<forall>a \<in> set (active_speakers r'). eff_of r' now sender \<le> eff_of r' now a)"
    if "\<not> fst (note_audio_should_forward r sender now)"
    using that le full unfolding r'_def cases by (auto split: if_splits) fastforce
qed

lemma note_audio_inv: "room_inv r \<Longrightarrow> room_inv (snd (note_audio_should_forward r sender now))"
  by (rule room_inv_cong) (auto simp: room_inv_def note_audio_facts)

lemma token_inv:
  "room_inv r \<Longrightarrow> room_inv (snd (generate_invite_token r tok who n))"
  "room_inv r \<Longrightarrow> room_inv (snd (reregister_invite_token r tok who))"
  "room_inv r \<Longrightarrow> room_inv (snd (validate_and_consume_token r tok p))"
  "room_inv r \<Longrightarrow> room_inv (allow_peer r p)"
  by (auto simp: generate_invite_token_def reregister_invite_token_def validate_and_consume_token_def
      allow_peer_def Let_def room_inv_def room_parts has_voice_def has_chat_def device_count_def
      present_def is_unused_def is_public_def split: option.splits)

lemma mark_unused_inv: "room_inv r \<Longrightarrow> room_inv (mark_unused_if_empty now r)"
  by (auto simp: mark_unused_if_empty_def room_inv_def room_parts has_voice_def has_chat_def
      device_count_def present_def is_unused_def is_public_def)

end
