(* ===== verification/Sfu_Manager.thy ===== *)
theory Sfu_Manager
  imports Sfu_Room_Inv
begin

section \<open>All SFU rooms of a node (\<open>sfu.rs\<close>, \<open>SFURoomManager\<close>)\<close>

text \<open>
  The manager owns the rooms and is what the signalling handlers call. The hash of
  \<open>derive_room_id\<close> is the \<open>sha2\<close> crate's and a parameter; the wall clock and the random invite
  token of a call are arguments of its model. A reference that a call returns is the room it
  refers to.
\<close>

definition DEFAULT_ROOM_ID :: string where "DEFAULT_ROOM_ID = ''default''"
definition DEFAULT_ROOM_NAME :: string where "DEFAULT_ROOM_NAME = ''Public Voice/Chat Room''"

type_synonym SFURoomManager = "(string, SFURoom) hmap"

datatype InviteMint = MintOk string | RoomNotFound | NotAuthorized

definition derive_room_id :: "(bytes \<Rightarrow> string) \<Rightarrow> string \<Rightarrow> string \<Rightarrow> string" where
  "derive_room_id sha256_hex creator_pub_id name =
     take 16 (sha256_hex (as_bytes (creator_pub_id @ '':'' @ name)))"

definition manager_new :: SFURoomManager where
  "manager_new =
     hm_insert DEFAULT_ROOM_ID ((room_new DEFAULT_ROOM_ID DEFAULT_ROOM_NAME Public '''')\<lparr>empty_since := None\<rparr>) []"

definition create_room_with_policy ::
  "(bytes \<Rightarrow> string) \<Rightarrow> real \<Rightarrow> SFURoomManager \<Rightarrow> string option \<Rightarrow> string \<Rightarrow> RoomType \<Rightarrow> string \<Rightarrow> string \<Rightarrow>
     (SFURoom \<times> bool) option \<times> SFURoomManager" where
  "create_room_with_policy sha256_hex now m rid name typ creator policy =
     (let i = (case rid of Some i \<Rightarrow> i | None \<Rightarrow> derive_room_id sha256_hex creator name)
      in if hm_contains m i then (map_option (\<lambda>r. (r, False)) (hm_get m i), m)
         else
           let r = room_new i name typ creator;
               r = r\<lparr>invite_policy := normalize_invite_policy policy\<rparr>;
               r = mark_unused_if_empty now r;
               m = hm_insert i r m
           in (map_option (\<lambda>r. (r, True)) (hm_get m i), m))"

definition create_room ::
  "(bytes \<Rightarrow> string) \<Rightarrow> real \<Rightarrow> SFURoomManager \<Rightarrow> string option \<Rightarrow> string \<Rightarrow> RoomType \<Rightarrow> string \<Rightarrow>
     (SFURoom \<times> bool) option \<times> SFURoomManager" where
  "create_room sha256_hex now m rid name typ creator =
     create_room_with_policy sha256_hex now m rid name typ creator ''owner''"

definition gc_keeps :: "real \<Rightarrow> real \<Rightarrow> string \<Rightarrow> SFURoom \<Rightarrow> bool" where
  "gc_keeps now idle_secs i r =
     (if i = DEFAULT_ROOM_ID \<or> creator_id r = [] then True
      else case empty_since r of None \<Rightarrow> True | Some t \<Rightarrow> now - t < idle_secs)"

definition gc_idle_rooms :: "SFURoomManager \<Rightarrow> real \<Rightarrow> real \<Rightarrow> string list \<times> SFURoomManager" where
  "gc_idle_rooms m now idle_secs =
     (map fst (filter (\<lambda>(i, r). \<not> gc_keeps now idle_secs i r) m), hm_retain (gc_keeps now idle_secs) m)"

definition join_room_endpoint ::
  "real \<Rightarrow> SFURoomManager \<Rightarrow> string \<Rightarrow> DeviceId option \<Rightarrow> string \<Rightarrow> (bool \<times> string list) \<times> SFURoomManager" where
  "join_room_endpoint now m peer_id device rid =
     (let peer_id = normalize_peer_id peer_id
      in case hm_get m rid of
           None \<Rightarrow> ((False, []), m)
         | Some r \<Rightarrow>
             if \<not> is_peer_allowed r peer_id then ((False, []), m)
             else
               let (ok, r) = set_device_membership now r peer_id device (Some True) None
               in ((ok, participant_ids r), hm_insert rid r m))"

definition join_room :: "real \<Rightarrow> SFURoomManager \<Rightarrow> string \<Rightarrow> string \<Rightarrow> (bool \<times> string list) \<times> SFURoomManager" where
  "join_room now m peer_id rid = join_room_endpoint now m peer_id None rid"

definition classify_join_denial :: "SFURoomManager \<Rightarrow> string \<Rightarrow> string \<Rightarrow> string" where
  "classify_join_denial m peer_id rid =
     (let peer_id = normalize_peer_id peer_id
      in case hm_get m rid of
           None \<Rightarrow> ''room_absent''
         | Some r \<Rightarrow> if \<not> is_peer_allowed r peer_id then ''not_allowed''
                     else if is_full r then ''room_full'' else ''join_failed'')"

definition is_endpoint_in_voice :: "SFURoomManager \<Rightarrow> string \<Rightarrow> DeviceId option \<Rightarrow> string \<Rightarrow> bool" where
  "is_endpoint_in_voice m peer_id device rid =
     (case hm_get m rid of
        None \<Rightarrow> False
      | Some r \<Rightarrow>
          (case hm_get (device_members r) (normalize_peer_id peer_id, device) of
             None \<Rightarrow> False | Some membership \<Rightarrow> voice membership))"

definition leave_room_endpoint ::
  "real \<Rightarrow> SFURoomManager \<Rightarrow> string \<Rightarrow> DeviceId option \<Rightarrow> string \<Rightarrow> string list \<times> SFURoomManager" where
  "leave_room_endpoint now m peer_id device rid =
     (case hm_get m rid of
        None \<Rightarrow> ([], m)
      | Some r \<Rightarrow>
          let r = snd (set_device_membership now r peer_id device (Some False) None);
              r = mark_unused_if_empty now r;
              m = hm_insert rid r m
          in (participant_ids r,
              if is_unused r \<and> creator_id r = [] \<and> rid \<noteq> DEFAULT_ROOM_ID then hm_remove rid m else m))"

definition leave_room :: "real \<Rightarrow> SFURoomManager \<Rightarrow> string \<Rightarrow> string \<Rightarrow> string list \<times> SFURoomManager" where
  "leave_room now m peer_id rid = leave_room_endpoint now m peer_id None rid"

text \<open>One round of the loop of \<open>remove_peer_from_all\<close>.\<close>

definition remove_peer_from_room ::
  "real \<Rightarrow> string \<Rightarrow> string \<Rightarrow> (string \<times> string list) list \<times> SFURoomManager \<Rightarrow>
     (string \<times> string list) list \<times> SFURoomManager" where
  "remove_peer_from_room now peer_id rid acc =
     (case hm_get (snd acc) rid of
        None \<Rightarrow> acc
      | Some r \<Rightarrow>
          let (was_present, r) = remove_peer_entirely now r peer_id;
              m = hm_insert rid r (snd acc)
          in if was_present
             then (fst acc @ [(rid, participant_ids r)],
                   if is_unused r \<and> creator_id r = [] \<and> rid \<noteq> DEFAULT_ROOM_ID then hm_remove rid m else m)
             else (fst acc, m))"

definition remove_peer_from_all ::
  "real \<Rightarrow> SFURoomManager \<Rightarrow> string \<Rightarrow> (string \<times> string list) list \<times> SFURoomManager" where
  "remove_peer_from_all now m peer_id =
     (let peer_id = normalize_peer_id peer_id;
          room_ids = map fst (filter (\<lambda>(i, r). hm_contains (participants r) peer_id \<or>
            peer_id \<in> set (subscribers r)) m)
      in fold (remove_peer_from_room now peer_id) room_ids ([], m))"

definition remove_endpoint_from_all ::
  "real \<Rightarrow> SFURoomManager \<Rightarrow> string \<Rightarrow> DeviceId option \<Rightarrow> string list \<times> SFURoomManager" where
  "remove_endpoint_from_all now m peer_id device =
     (let peer_id = normalize_peer_id peer_id;
          has = (\<lambda>r. hm_contains (device_members r) (peer_id, device))
      in (map fst (filter (\<lambda>(i, r). has r) m),
          map (\<lambda>(i, r). (i, if has r
            then snd (set_device_membership now r peer_id device (Some False) (Some False)) else r)) m))"

definition audio_forward_targets ::
  "SFURoomManager \<Rightarrow> string \<Rightarrow> string \<Rightarrow> real \<Rightarrow> string list option \<times> SFURoomManager" where
  "audio_forward_targets m rid sender now =
     (case hm_get m rid of
        None \<Rightarrow> (None, m)
      | Some r \<Rightarrow>
          let (fwd, r) = note_audio_should_forward r sender now
          in (if fwd then Some (participant_ids r) else None, hm_insert rid r m))"

definition subscribed_room_ids :: "SFURoomManager \<Rightarrow> string list" where
  "subscribed_room_ids m = map fst (filter (\<lambda>(i, r). \<not> is_unused r) m)"

definition durable_room_descriptors ::
  "SFURoomManager \<Rightarrow> (string \<times> string \<times> RoomType \<times> string \<times> string) list" where
  "durable_room_descriptors m =
     map (\<lambda>r. (room_id r, room_name r, room_type r, creator_id r, invite_policy r))
       (filter (\<lambda>r. room_id r \<noteq> DEFAULT_ROOM_ID \<and> creator_id r \<noteq> []) (hm_values m))"

definition get_chat_recipients :: "SFURoomManager \<Rightarrow> string \<Rightarrow> string list" where
  "get_chat_recipients m rid = (case hm_get m rid of Some r \<Rightarrow> chat_recipient_ids r | None \<Rightarrow> [])"

definition is_chat_sender :: "SFURoomManager \<Rightarrow> string \<Rightarrow> string \<Rightarrow> bool" where
  "is_chat_sender m rid peer_id =
     (let peer_id = normalize_peer_id peer_id
      in case hm_get m rid of
           None \<Rightarrow> False
         | Some r \<Rightarrow> hm_contains (participants r) peer_id \<or> peer_id \<in> set (subscribers r))"

definition is_room_authorized_peer :: "SFURoomManager \<Rightarrow> string \<Rightarrow> bool" where
  "is_room_authorized_peer m peer_id = list_ex (\<lambda>r. is_invite_eligible_member r peer_id) (hm_values m)"

definition subscribe_endpoint ::
  "real \<Rightarrow> SFURoomManager \<Rightarrow> string \<Rightarrow> DeviceId option \<Rightarrow> string \<Rightarrow> bool \<times> SFURoomManager" where
  "subscribe_endpoint now m peer_id device rid =
     (case hm_get m rid of
        None \<Rightarrow> (False, m)
      | Some r \<Rightarrow>
          if is_peer_allowed r peer_id
          then let (ok, r) = set_device_membership now r peer_id device None (Some True)
               in (ok, hm_insert rid r m)
          else (False, m))"

definition mgr_subscribe :: "real \<Rightarrow> SFURoomManager \<Rightarrow> string \<Rightarrow> string \<Rightarrow> bool \<times> SFURoomManager" where
  "mgr_subscribe now m peer_id rid = subscribe_endpoint now m peer_id None rid"

definition unsubscribe_endpoint ::
  "real \<Rightarrow> SFURoomManager \<Rightarrow> string \<Rightarrow> DeviceId option \<Rightarrow> string \<Rightarrow> SFURoomManager" where
  "unsubscribe_endpoint now m peer_id device rid =
     (case hm_get m rid of
        None \<Rightarrow> m
      | Some r \<Rightarrow> hm_insert rid (snd (set_device_membership now r peer_id device None (Some False))) m)"

definition mgr_unsubscribe :: "real \<Rightarrow> SFURoomManager \<Rightarrow> string \<Rightarrow> string \<Rightarrow> SFURoomManager" where
  "mgr_unsubscribe now m peer_id rid = unsubscribe_endpoint now m peer_id None rid"

definition validate_room_invite :: "SFURoomManager \<Rightarrow> string \<Rightarrow> string \<Rightarrow> string \<Rightarrow> bool \<times> SFURoomManager" where
  "validate_room_invite m rid token peer_id =
     (case hm_get m rid of
        None \<Rightarrow> (False, m)
      | Some r \<Rightarrow> let (ok, r) = validate_and_consume_token r token peer_id in (ok, hm_insert rid r m))"

definition mgr_allow_peer :: "SFURoomManager \<Rightarrow> string \<Rightarrow> string \<Rightarrow> bool \<times> SFURoomManager" where
  "mgr_allow_peer m rid peer_id =
     (case hm_get m rid of None \<Rightarrow> (False, m) | Some r \<Rightarrow> (True, hm_insert rid (allow_peer r peer_id) m))"

definition adopt_creator_if_empty :: "SFURoomManager \<Rightarrow> string \<Rightarrow> string \<Rightarrow> bool \<times> SFURoomManager" where
  "adopt_creator_if_empty m rid owner_pub =
     (if owner_pub = [] then (False, m)
      else case hm_get m rid of
        Some r \<Rightarrow> if creator_id r = [] then (True, hm_insert rid (r\<lparr>creator_id := owner_pub\<rparr>) m) else (False, m)
      | None \<Rightarrow> (False, m))"

definition mgr_generate_invite_token ::
  "SFURoomManager \<Rightarrow> string \<Rightarrow> string \<Rightarrow> string \<Rightarrow> string option \<times> SFURoomManager" where
  "mgr_generate_invite_token m rid who nonce =
     (case hm_get m rid of
        None \<Rightarrow> (None, m)
      | Some r \<Rightarrow> let (t, r) = generate_invite_token r nonce who 1 in (Some t, hm_insert rid r m))"

definition mgr_reregister_invite_token ::
  "SFURoomManager \<Rightarrow> string \<Rightarrow> string \<Rightarrow> string \<Rightarrow> bool \<times> SFURoomManager" where
  "mgr_reregister_invite_token m rid token who =
     (case hm_get m rid of
        None \<Rightarrow> (False, m)
      | Some r \<Rightarrow> let (ok, r) = reregister_invite_token r token who in (ok, hm_insert rid r m))"

definition generate_invite_token_checked ::
  "SFURoomManager \<Rightarrow> string \<Rightarrow> string \<Rightarrow> string \<Rightarrow> InviteMint \<times> SFURoomManager" where
  "generate_invite_token_checked m rid requester nonce =
     (case hm_get m rid of
        None \<Rightarrow> (RoomNotFound, m)
      | Some r \<Rightarrow>
          if creator_id r = [] then (NotAuthorized, m)
          else if \<not> (creator_id r = requester \<or>
                     invite_policy r = ''members'' \<and> is_invite_eligible_member r requester)
          then (NotAuthorized, m)
          else let (t, r) = generate_invite_token r nonce requester 1 in (MintOk t, hm_insert rid r m))"

end
