(* ===== verification/Sfu_Properties.thy ===== *)
theory Sfu_Properties
  imports Sfu_Manager
begin

section \<open>What holds of every history of the SFU\<close>

text \<open>
  The calls that the signalling handlers and timers make, in any order and at any times, as a
  transition system, its invariant, and the properties that rest on it.
\<close>

datatype sfu_op =
    CreateOp real "string option" string RoomType string string
  | GcOp real real
  | JoinOp real string "DeviceId option" string
  | LeaveOp real string "DeviceId option" string
  | DropPeerOp real string
  | DropEndpointOp real string "DeviceId option"
  | AudioOp string string real
  | SubscribeOp real string "DeviceId option" string
  | UnsubscribeOp real string "DeviceId option" string
  | ValidateOp string string string
  | AllowOp string string
  | AdoptOp string string
  | MintOp string string string
  | ReseedOp string string string
  | CheckedMintOp string string string

fun sfu_step :: "(bytes \<Rightarrow> string) \<Rightarrow> SFURoomManager \<Rightarrow> sfu_op \<Rightarrow> SFURoomManager" where
  "sfu_step sha m (CreateOp now rid name typ creator policy) =
     snd (create_room_with_policy sha now m rid name typ creator policy)"
| "sfu_step sha m (GcOp now idle) = snd (gc_idle_rooms m now idle)"
| "sfu_step sha m (JoinOp now p d rid) = snd (join_room_endpoint now m p d rid)"
| "sfu_step sha m (LeaveOp now p d rid) = snd (leave_room_endpoint now m p d rid)"
| "sfu_step sha m (DropPeerOp now p) = snd (remove_peer_from_all now m p)"
| "sfu_step sha m (DropEndpointOp now p d) = snd (remove_endpoint_from_all now m p d)"
| "sfu_step sha m (AudioOp rid s now) = snd (audio_forward_targets m rid s now)"
| "sfu_step sha m (SubscribeOp now p d rid) = snd (subscribe_endpoint now m p d rid)"
| "sfu_step sha m (UnsubscribeOp now p d rid) = unsubscribe_endpoint now m p d rid"
| "sfu_step sha m (ValidateOp rid tok p) = snd (validate_room_invite m rid tok p)"
| "sfu_step sha m (AllowOp rid p) = snd (mgr_allow_peer m rid p)"
| "sfu_step sha m (AdoptOp rid owner) = snd (adopt_creator_if_empty m rid owner)"
| "sfu_step sha m (MintOp rid who nonce) = snd (mgr_generate_invite_token m rid who nonce)"
| "sfu_step sha m (ReseedOp rid tok who) = snd (mgr_reregister_invite_token m rid tok who)"
| "sfu_step sha m (CheckedMintOp rid who nonce) = snd (generate_invite_token_checked m rid who nonce)"

definition mgr_inv :: "SFURoomManager \<Rightarrow> bool" where
  "mgr_inv m \<longleftrightarrow> hm_wf m \<and> hm_contains m DEFAULT_ROOM_ID \<and>
     (\<forall>i r. (i, r) \<in> set m \<longrightarrow> room_inv r \<and> room_id r = i)"

lemma mgr_inv_get: "mgr_inv m \<Longrightarrow> hm_get m i = Some r \<Longrightarrow> room_inv r \<and> room_id r = i"
  by (auto simp: mgr_inv_def dest: hm_get_SomeD)

lemma mgr_inv_insert: "mgr_inv m \<Longrightarrow> room_inv r \<Longrightarrow> room_id r = i \<Longrightarrow> mgr_inv (hm_insert i r m)"
  using set_hm_insert [of i r m] by (auto simp: mgr_inv_def hm_wf_insert)

lemma mgr_inv_remove: "mgr_inv m \<Longrightarrow> i \<noteq> DEFAULT_ROOM_ID \<Longrightarrow> mgr_inv (hm_remove i m)"
  by (auto simp: mgr_inv_def hm_wf_remove) (auto simp: hm_remove_def)

lemma same_card_id: "same_card r r' \<Longrightarrow> room_id r' = room_id r"
  by (simp add: same_card_def)

text \<open>A call that changes one room keeps the invariant when it keeps the room's.\<close>

lemma mgr_inv_update:
  assumes "mgr_inv m" "hm_get m i = Some r" "room_inv r \<Longrightarrow> room_inv r'" "room_id r' = room_id r"
  shows "mgr_inv (hm_insert i r' m)"
  using assms mgr_inv_get mgr_inv_insert by metis

lemma token_ids [simp]:
  "room_id (snd (generate_invite_token r t who n)) = room_id r"
  "room_id (snd (reregister_invite_token r t who)) = room_id r"
  "room_id (snd (validate_and_consume_token r t p)) = room_id r"
  "room_id (allow_peer r p) = room_id r"
  by (auto simp: generate_invite_token_def reregister_invite_token_def validate_and_consume_token_def
      allow_peer_def Let_def split: option.splits)

lemma create_inv: "mgr_inv m \<Longrightarrow> mgr_inv (snd (create_room_with_policy sha now m rid name typ c pol))"
proof -
  assume m: "mgr_inv m"
  have "room_inv (mark_unused_if_empty now ((room_new i name typ c)\<lparr>invite_policy := p\<rparr>))" for i p
    by (rule mark_unused_inv) (simp add: room_inv_def room_parts room_new_def has_voice_def has_chat_def
        device_count_def hm_contains_def hm_keys_def is_unused_def present_def)
  then show ?thesis
    using m by (auto simp: create_room_with_policy_def Let_def intro!: mgr_inv_insert)
      (auto simp: mark_unused_if_empty_def room_new_def)
qed

lemma gc_inv: "mgr_inv m \<Longrightarrow> mgr_inv (snd (gc_idle_rooms m now idle))"
  by (auto simp: mgr_inv_def gc_idle_rooms_def hm_retain_def hm_wf_filter hm_contains_def gc_keeps_def)

lemma set_device_update:
  assumes "mgr_inv m" "hm_get m i = Some r" "v = Some True \<or> c = Some True \<Longrightarrow> is_peer_allowed r p"
  shows "mgr_inv (hm_insert i (snd (set_device_membership now r p d v c)) m)"
  using assms(1,2)
proof (rule mgr_inv_update)
  assume "room_inv r"
  then show "room_inv (snd (set_device_membership now r p d v c))" using set_device_membership_inv(1) assms(3) by blast
next
  have "room_inv r" using mgr_inv_get [OF assms(1,2)] by simp
  then show "room_id (snd (set_device_membership now r p d v c)) = room_id r"
    using set_device_membership_inv(2) assms(3) same_card_id by blast
qed

lemma join_inv: "mgr_inv m \<Longrightarrow> mgr_inv (snd (join_room_endpoint now m p d rid))"
  by (auto simp: join_room_endpoint_def Let_def case_prod_beta intro: set_device_update split: option.splits)

lemma subscribe_inv: "mgr_inv m \<Longrightarrow> mgr_inv (snd (subscribe_endpoint now m p d rid))"
  by (auto simp: subscribe_endpoint_def Let_def case_prod_beta intro: set_device_update split: option.splits)

lemma unsubscribe_inv: "mgr_inv m \<Longrightarrow> mgr_inv (unsubscribe_endpoint now m p d rid)"
  by (auto simp: unsubscribe_endpoint_def intro: set_device_update split: option.splits)

lemma leave_inv:
  assumes m: "mgr_inv m"
  shows "mgr_inv (snd (leave_room_endpoint now m p d rid))"
proof (cases "hm_get m rid")
  case None
  then show ?thesis using m by (simp add: leave_room_endpoint_def)
next
  case (Some r)
  let ?r = "mark_unused_if_empty now (snd (set_device_membership now r p d (Some False) None))"
  have r: "room_inv r" using mgr_inv_get [OF m Some] by simp
  have "mgr_inv (hm_insert rid ?r m)"
  proof (rule mgr_inv_update [OF m Some])
    show "room_inv ?r"
      using set_device_membership_inv(1) [OF r, of "Some False" None p now d] by (simp add: mark_unused_inv)
    show "room_id ?r = room_id r"
      using set_device_membership_inv(2) [OF r, of "Some False" None p now d] mark_simps(6)
      by (simp add: same_card_def)
  qed
  then show ?thesis using Some by (auto simp: leave_room_endpoint_def Let_def mgr_inv_remove)
qed

lemma drop_peer_inv: "mgr_inv m \<Longrightarrow> mgr_inv (snd (remove_peer_from_all now m p))"
proof -
  have one: "mgr_inv (snd (remove_peer_from_room now q rid acc))" if "mgr_inv (snd acc)" for q rid acc
  proof (cases "hm_get (snd acc) rid")
    case None
    then show ?thesis using that by (simp add: remove_peer_from_room_def)
  next
    case (Some r)
    have r: "room_inv r" using mgr_inv_get [OF that Some] by simp
    have "mgr_inv (hm_insert rid (snd (remove_peer_entirely now r q)) (snd acc))"
      by (rule mgr_inv_update [OF that Some])
        (use remove_peer_entirely_inv [OF r] same_card_id in auto)
    then show ?thesis
      using Some that by (auto simp: remove_peer_from_room_def Let_def case_prod_beta mgr_inv_remove)
  qed
  have "mgr_inv (snd acc) \<Longrightarrow> mgr_inv (snd (fold (remove_peer_from_room now q) ids acc))" for q ids acc
    by (induction ids arbitrary: acc) (simp_all add: one)
  then show "mgr_inv m \<Longrightarrow> mgr_inv (snd (remove_peer_from_all now m p))"
    by (simp add: remove_peer_from_all_def Let_def)
qed

lemma drop_endpoint_inv:
  assumes m: "mgr_inv m"
  shows "mgr_inv (snd (remove_endpoint_from_all now m p d))"
proof -
  define f where "f r = (if hm_contains (device_members r) (normalize_peer_id p, d)
    then snd (set_device_membership now r (normalize_peer_id p) d (Some False) (Some False)) else r)" for r
  have snd: "snd (remove_endpoint_from_all now m p d) = map (\<lambda>(i, r). (i, f r)) m"
    by (simp add: remove_endpoint_from_all_def Let_def f_def)
  have keys: "map fst (map (\<lambda>(i, r). (i, f r)) m) = map fst m" by (simp add: case_prod_beta)
  have "room_inv (f r) \<and> room_id (f r) = i" if "(i, r) \<in> set m" for i r
    using that m set_device_membership_inv [of r "Some False" "Some False"]
    by (auto simp: mgr_inv_def same_card_def f_def)
  then show ?thesis
    using m unfolding snd mgr_inv_def hm_wf_def hm_contains_def keys by auto
qed

lemma audio_inv: "mgr_inv m \<Longrightarrow> mgr_inv (snd (audio_forward_targets m rid s now))"
proof (cases "hm_get m rid")
  case (Some r)
  assume m: "mgr_inv m"
  have "speakers_ok r" using mgr_inv_get [OF m Some] by (simp add: room_inv_def)
  then have "mgr_inv (hm_insert rid (snd (note_audio_should_forward r s now)) m)"
    by (intro mgr_inv_update [OF m Some]) (auto simp: note_audio_inv same_card_id note_audio_facts)
  then show ?thesis using Some by (simp add: audio_forward_targets_def case_prod_beta)
qed (simp add: audio_forward_targets_def)

lemma adopt_inv: "mgr_inv m \<Longrightarrow> mgr_inv (snd (adopt_creator_if_empty m rid owner))"
  by (auto simp: adopt_creator_if_empty_def intro!: mgr_inv_update split: option.splits)
    (auto simp: room_inv_def room_parts has_voice_def has_chat_def device_count_def present_def
      is_unused_def is_public_def)

lemma sfu_step_inv: "mgr_inv m \<Longrightarrow> mgr_inv (sfu_step sha m op)"
  by (cases op)
    (auto simp: create_inv gc_inv join_inv leave_inv drop_peer_inv drop_endpoint_inv audio_inv subscribe_inv
      unsubscribe_inv adopt_inv validate_room_invite_def mgr_allow_peer_def mgr_generate_invite_token_def
      mgr_reregister_invite_token_def generate_invite_token_checked_def case_prod_beta
      intro!: mgr_inv_update token_inv split: option.splits)

interpretation sfu: invariant_system manager_new "sfu_step sha" mgr_inv for sha
proof unfold_locales
  have "(room_new DEFAULT_ROOM_ID DEFAULT_ROOM_NAME Public '''')\<lparr>empty_since := None\<rparr> =
      room_new DEFAULT_ROOM_ID DEFAULT_ROOM_NAME Public ''''" by (simp add: room_new_def)
  then show "mgr_inv manager_new"
    by (simp add: manager_new_def mgr_inv_def room_new_inv hm_wf_def hm_contains_def) (simp add: room_new_def)
qed (rule sfu_step_inv)

subsection \<open>Rosters\<close>

text \<open>
  C28: after any history of calls the lobby exists, and in every room the rosters are exactly what
  the endpoints do: a contact is a voice participant when one of its devices is in voice, receives
  chat when one of its devices is in voice or chat, and is listed once; no room has more than 32
  participants, more than eight devices of a contact or more than five active speakers, and a room
  with somebody in it carries no idle stamp.
\<close>

theorem sfu_rosters_exact:
  "let m = foldl (sfu_step sha) manager_new ops
   in hm_contains m DEFAULT_ROOM_ID \<and>
      set m \<subseteq> {(i, r). room_id r = i \<and>
        set (participant_ids r) = {c. \<exists>d e. hm_get (device_members r) (c, d) = Some e \<and> voice e} \<and>
        set (chat_recipient_ids r) = {c. \<exists>d. hm_get (device_members r) (c, d) \<noteq> None} \<and>
        distinct (chat_recipient_ids r) \<and> participant_count r \<le> 32 \<and>
        range (device_count r) \<subseteq> {..8} \<and> length (active_speakers r) \<le> 5 \<and>
        (is_unused r \<or> empty_since r = None)}"
proof -
  define m where "m = foldl (sfu_step sha) manager_new ops"
  have inv: "mgr_inv m" unfolding m_def by (rule sfu.inv_reachable)
  have room: "set (participant_ids r) = {c. \<exists>d e. hm_get (device_members r) (c, d) = Some e \<and> voice e} \<and>
        set (chat_recipient_ids r) = {c. \<exists>d. hm_get (device_members r) (c, d) \<noteq> None} \<and>
        distinct (chat_recipient_ids r) \<and> participant_count r \<le> 32 \<and>
        range (device_count r) \<subseteq> {..8} \<and> length (active_speakers r) \<le> 5 \<and>
        (is_unused r \<or> empty_since r = None)" if "room_inv r" for r
  proof -
    have parts: "rosters_ok r" "endpoints_ok r" "sizes_ok r" "speakers_ok r" using that by (simp_all add: room_inv_def)
    then have wf: "hm_wf (device_members r)" by (simp add: endpoints_ok_def)
    have voices: "set (participant_ids r) = {c. has_voice r c}"
      using parts(1) by (auto simp: participant_ids_def rosters_ok_def hm_contains_def)
    have chats: "set (chat_recipient_ids r) = {c. has_voice r c \<or> has_chat r c}"
      using present_iff [OF parts(1)] by (auto simp: chat_recipient_ids_def present_def)
    have some: "has_voice r c \<or> has_chat r c \<longleftrightarrow> (\<exists>d. hm_get (device_members r) (c, d) \<noteq> None)" for c
      using parts(2) unfolding has_voice_get [OF wf] has_chat_get [OF wf] endpoints_ok_def
      by (metis hm_get_SomeD option.distinct(1) option.exhaust)
    have "distinct (chat_recipient_ids r)"
      using parts(1,3) by (auto simp: chat_recipient_ids_def sizes_ok_def hm_wf_def hm_keys_def
          rosters_ok_def hm_contains_def)
    moreover have "participant_count r \<le> 32" "is_unused r \<or> empty_since r = None"
      using parts(3) by (simp_all add: participant_count_def sizes_ok_def MAX_ROOM_SIZE_def)
    moreover have "range (device_count r) \<subseteq> {..8}"
      using parts(2) by (auto simp: endpoints_ok_def MAX_LIVE_DEVICE_ROUTES_def)
    moreover have "length (active_speakers r) \<le> 5"
      using parts(4) by (simp add: speakers_ok_def MAX_ACTIVE_SPEAKERS_def)
    ultimately show ?thesis unfolding voices chats some unfolding has_voice_get [OF wf] by simp
  qed
  have rooms: "room_inv r \<and> room_id r = i" if "(i, r) \<in> set m" for i r
    using inv that by (simp add: mgr_inv_def)
  have "hm_contains m DEFAULT_ROOM_ID" using inv by (simp add: mgr_inv_def)
  then show ?thesis unfolding Let_def m_def [symmetric]
  proof (intro conjI subsetI, goal_cases)
    case (2 x)
    then obtain i r where "x = (i, r)" "(i, r) \<in> set m" by (cases x) auto
    with rooms [of i r] room [of r] show ?case by (simp only: mem_Collect_eq prod.case simp_thms)
  qed
qed

subsection \<open>Who gets into a private room\<close>

text \<open>
  \<open>admitted ops i\<close>: the contacts that were let into room \<open>i\<close>, by a grant or by presenting a
  token that had been issued for the room.
\<close>

definition issued :: "sfu_op list \<Rightarrow> string \<Rightarrow> string set" where
  "issued ops i = {t. \<exists>who. MintOp i who t \<in> set ops \<or> ReseedOp i t who \<in> set ops \<or> CheckedMintOp i who t \<in> set ops}"

definition admitted :: "sfu_op list \<Rightarrow> string \<Rightarrow> string set" where
  "admitted ops i = {normalize_peer_id p | p. AllowOp i p \<in> set ops \<or>
     (\<exists>t. ValidateOp i t p \<in> set ops \<and> t \<in> issued ops i)}"

text \<open>A property of the grants and tokens of every room, which most calls leave alone.\<close>

definition cards :: "(string \<Rightarrow> string list \<Rightarrow> (string, InviteToken) hmap \<Rightarrow> bool) \<Rightarrow> SFURoomManager \<Rightarrow> bool" where
  "cards Q m \<longleftrightarrow> (\<forall>i r. hm_get m i = Some r \<longrightarrow> Q i (allowed r) (invite_tokens r))"

lemma cards_insert: "cards Q m \<Longrightarrow> Q i (allowed r) (invite_tokens r) \<Longrightarrow> cards Q (hm_insert i r m)"
  by (simp add: cards_def coll_simps)

lemma cards_get: "cards Q m \<Longrightarrow> hm_get m i = Some r \<Longrightarrow> Q i (allowed r) (invite_tokens r)"
  by (simp add: cards_def)

lemma cards_same:
  assumes "cards Q m" "hm_get m i = Some r" "same_card r r'"
  shows "cards Q (hm_insert i r' m)"
  using cards_get [OF assms(1,2)] assms(3) by (intro cards_insert [OF assms(1)]) (simp add: same_card_def)

lemma cards_remove: "cards Q m \<Longrightarrow> cards Q (hm_remove i m)"
  by (simp add: cards_def coll_simps)

lemma cards_leave:
  assumes m: "mgr_inv m" and b: "cards Q m"
  shows "cards Q (snd (leave_room_endpoint now m p d rid))"
proof (cases "hm_get m rid")
  case (Some r)
  have "room_inv r" using mgr_inv_get [OF m Some] by simp
  then have "same_card r (mark_unused_if_empty now (snd (set_device_membership now r p d (Some False) None)))"
    using set_device_membership_inv(2) [of r "Some False" None p now d] same_card_trans mark_simps(6) by blast
  then show ?thesis
    using Some cards_same [OF b Some] cards_remove by (auto simp: leave_room_endpoint_def Let_def)
qed (simp add: leave_room_endpoint_def b)

lemma cards_drop_peer:
  assumes "mgr_inv m" "cards Q m"
  shows "cards Q (snd (remove_peer_from_all now m p))"
proof -
  have one: "cards Q (snd (remove_peer_from_room now q rid acc)) \<and> mgr_inv (snd (remove_peer_from_room now q rid acc))"
    if "mgr_inv (snd acc)" "cards Q (snd acc)" for q rid acc
  proof (cases "hm_get (snd acc) rid")
    case (Some r)
    have r: "room_inv r" "room_id r = rid" using mgr_inv_get [OF that(1) Some] by simp_all
    let ?r = "snd (remove_peer_entirely now r q)"
    have "mgr_inv (hm_insert rid ?r (snd acc))"
      by (rule mgr_inv_update [OF that(1) Some]) (use remove_peer_entirely_inv [OF r(1)] same_card_id in auto)
    moreover have "cards Q (hm_insert rid ?r (snd acc))"
      by (rule cards_same [OF that(2) Some]) (rule remove_peer_entirely_inv(2) [OF r(1)])
    ultimately show ?thesis
      using Some by (auto simp: remove_peer_from_room_def Let_def case_prod_beta mgr_inv_remove cards_remove)
  qed (simp add: remove_peer_from_room_def that)
  have "mgr_inv (snd acc) \<Longrightarrow> cards Q (snd acc) \<Longrightarrow>
      cards Q (snd (fold (remove_peer_from_room now q) ids acc))" for q ids acc
    by (induction ids arbitrary: acc) (simp_all add: one)
  then show ?thesis using assms by (simp add: remove_peer_from_all_def Let_def)
qed

lemma cards_drop_endpoint:
  assumes m: "mgr_inv m" and b: "cards Q m"
  shows "cards Q (snd (remove_endpoint_from_all now m p d))"
proof -
  define f where "f r = (if hm_contains (device_members r) (normalize_peer_id p, d)
    then snd (set_device_membership now r (normalize_peer_id p) d (Some False) (Some False)) else r)" for r
  have snd: "snd (remove_endpoint_from_all now m p d) = map (\<lambda>(i, r). (i, f r)) m"
    by (simp add: remove_endpoint_from_all_def Let_def f_def)
  have get: "hm_get (map (\<lambda>(i, r). (i, f r)) m) i = map_option f (hm_get m i)" for i
    by (induction m) (auto simp: hm_get_def)
  have "same_card r (f r)" if "hm_get m i = Some r" for i r
    using mgr_inv_get [OF m that] set_device_membership_inv(2) [of r "Some False" "Some False"] by (simp add: f_def)
  then have "allowed (f r) = allowed r \<and> invite_tokens (f r) = invite_tokens r" if "hm_get m i = Some r" for i r
    using that by (auto simp: same_card_def)
  note kept = this
  show ?thesis unfolding snd cards_def get
  proof (intro allI impI)
    fix i r' assume "map_option f (hm_get m i) = Some r'"
    then obtain r where r: "hm_get m i = Some r" "r' = f r" by auto
    with kept [OF r(1)] cards_get [OF b r(1)] show "Q i (allowed r') (invite_tokens r')" by simp
  qed
qed

lemma cards_device:
  assumes m: "mgr_inv m" and b: "cards Q m"
  shows "cards Q (snd (join_room_endpoint now m p d rid))"
    "cards Q (snd (subscribe_endpoint now m p d rid))"
    "cards Q (unsubscribe_endpoint now m p d rid)"
    "cards Q (snd (audio_forward_targets m rid s now))"
proof -
  note same = cards_same [OF b]
  have dev: "same_card r (snd (set_device_membership now r p d v c))"
    if "hm_get m i = Some r" "v = Some True \<or> c = Some True \<Longrightarrow> is_peer_allowed r p" for i r now p d v c
    using set_device_membership_inv(2) mgr_inv_get [OF m that(1)] that(2) by blast
  show "cards Q (snd (join_room_endpoint now m p d rid))"
    using b by (auto simp: join_room_endpoint_def Let_def case_prod_beta intro!: same dev split: option.splits)
  show "cards Q (snd (subscribe_endpoint now m p d rid))"
    using b by (auto simp: subscribe_endpoint_def Let_def case_prod_beta intro!: same dev split: option.splits)
  show "cards Q (unsubscribe_endpoint now m p d rid)"
    using b by (auto simp: unsubscribe_endpoint_def intro!: same dev split: option.splits)
  have "same_card r (snd (note_audio_should_forward r s now))" if "hm_get m rid = Some r" for r
    using mgr_inv_get [OF m that] note_audio_facts(3) by (simp add: room_inv_def)
  then show "cards Q (snd (audio_forward_targets m rid s now))"
    using b by (auto simp: audio_forward_targets_def case_prod_beta intro!: same split: option.splits)
qed

lemma cards_rooms:
  assumes m: "mgr_inv m" and b: "cards Q m" and new: "\<And>i. Q i [] []"
  shows "cards Q (snd (create_room_with_policy sha now m rid name ty c pol))"
    "cards Q (snd (gc_idle_rooms m now idle))"
    "cards Q (snd (adopt_creator_if_empty m i owner))"
proof -
  have "allowed (mark_unused_if_empty now ((room_new i name ty c)\<lparr>invite_policy := q\<rparr>)) = []"
    "invite_tokens (mark_unused_if_empty now ((room_new i name ty c)\<lparr>invite_policy := q\<rparr>)) = []" for i q
    by (simp_all add: mark_unused_if_empty_def room_new_def)
  then show "cards Q (snd (create_room_with_policy sha now m rid name ty c pol))"
    using b new by (auto simp: create_room_with_policy_def Let_def intro!: cards_insert)
  have "hm_wf m" using m by (simp add: mgr_inv_def)
  then show "cards Q (snd (gc_idle_rooms m now idle))"
    using b by (auto simp: gc_idle_rooms_def cards_def hm_get_retain split: option.splits if_splits)
  have "cards Q (hm_insert i (r\<lparr>creator_id := owner\<rparr>) m)" if "hm_get m i = Some r" for r
    using b that by (intro cards_insert [OF b]) (simp_all add: cards_def)
  then show "cards Q (snd (adopt_creator_if_empty m i owner))"
    using b by (auto simp: adopt_creator_if_empty_def split: option.splits)
qed

definition card_bound :: "sfu_op list \<Rightarrow> SFURoomManager \<Rightarrow> bool" where
  "card_bound ops =
     cards (\<lambda>i a ts. set a \<subseteq> admitted ops i \<and> set (hm_keys ts) \<subseteq> issued ops i)"

lemma card_bound_mono: "card_bound ops m \<Longrightarrow> set ops \<subseteq> set ops' \<Longrightarrow> card_bound ops' m"
proof -
  assume sub: "set ops \<subseteq> set ops'" and b: "card_bound ops m"
  have "issued ops i \<subseteq> issued ops' i" for i using sub by (auto simp: issued_def)
  moreover from this have "admitted ops i \<subseteq> admitted ops' i" for i using sub by (auto simp: admitted_def) blast
  ultimately show ?thesis using b by (simp add: card_bound_def cards_def) (meson order_trans)
qed

lemma card_bound_tokens:
  assumes "card_bound ops m" "hm_get m i = Some r"
  shows "t \<in> issued ops i \<Longrightarrow> card_bound ops (hm_insert i (snd (generate_invite_token r t who n)) m)"
    and "t \<in> issued ops i \<Longrightarrow> card_bound ops (hm_insert i (snd (reregister_invite_token r t who)) m)"
    and "(t \<in> issued ops i \<Longrightarrow> normalize_peer_id p \<in> admitted ops i) \<Longrightarrow>
           card_bound ops (hm_insert i (snd (validate_and_consume_token r t p)) m)"
    and "normalize_peer_id p \<in> admitted ops i \<Longrightarrow> card_bound ops (hm_insert i (allow_peer r p) m)"
proof -
  have r: "set (allowed r) \<subseteq> admitted ops i" "set (hm_keys (invite_tokens r)) \<subseteq> issued ops i"
    using assms unfolding card_bound_def by (auto dest: cards_get)
  have keys: "fst ` set (hm_insert t x ts) = insert t (fst ` set ts)" for x and ts :: "(string, InviteToken) hmap"
    by (simp add: set_fst_hm_insert)
  have keys': "fst ` set (hm_modify t g ts) = fst ` set ts" for g and ts :: "(string, InviteToken) hmap"
    by (metis fst_hm_modify list.set_map)
  have ins: "card_bound ops (hm_insert i r' m)"
    if "set (allowed r') \<subseteq> admitted ops i" "set (hm_keys (invite_tokens r')) \<subseteq> issued ops i" for r'
    using assms(1) that unfolding card_bound_def by (intro cards_insert) simp_all
  show "t \<in> issued ops i \<Longrightarrow> card_bound ops (hm_insert i (snd (generate_invite_token r t who n)) m)"
    using r by (intro ins) (simp_all add: generate_invite_token_def keys)
  show "t \<in> issued ops i \<Longrightarrow> card_bound ops (hm_insert i (snd (reregister_invite_token r t who)) m)"
    using r by (intro ins) (simp_all add: reregister_invite_token_def keys)
  show "normalize_peer_id p \<in> admitted ops i \<Longrightarrow> card_bound ops (hm_insert i (allow_peer r p) m)"
    using r by (intro ins) (simp_all add: allow_peer_def)
  show "card_bound ops (hm_insert i (snd (validate_and_consume_token r t p)) m)"
    if adm: "t \<in> issued ops i \<Longrightarrow> normalize_peer_id p \<in> admitted ops i"
  proof (cases "hm_get (invite_tokens r) t")
    case None
    then show ?thesis using r by (auto simp: validate_and_consume_token_def intro!: ins)
  next
    case (Some it)
    then have "t \<in> issued ops i" using r(2) by (force dest: hm_get_SomeD)
    with adm have "normalize_peer_id p \<in> admitted ops i" by blast
    then show ?thesis
      using r Some by (auto simp: validate_and_consume_token_def Let_def keys'
          intro!: ins)
  qed
qed

lemma card_bound_step:
  assumes m: "mgr_inv m" and old: "card_bound ops m"
  shows "card_bound (ops @ [op]) (sfu_step sha m op)"
proof -
  let ?ops = "ops @ [op]"
  have b: "card_bound ?ops m" by (rule card_bound_mono [OF old]) auto
  show ?thesis
  proof (cases op)
    case (ValidateOp rid t p)
    then have "t \<in> issued ?ops rid \<Longrightarrow> normalize_peer_id p \<in> admitted ?ops rid" by (auto simp: admitted_def)
    then show ?thesis
      using b ValidateOp card_bound_tokens(3) [OF b]
      by (auto simp: validate_room_invite_def case_prod_beta split: option.splits)
  next
    case (AllowOp rid p)
    then have "normalize_peer_id p \<in> admitted ?ops rid" by (auto simp: admitted_def)
    then show ?thesis
      using b AllowOp card_bound_tokens(4) [OF b] by (auto simp: mgr_allow_peer_def split: option.splits)
  next
    case (MintOp rid who t)
    then have "t \<in> issued ?ops rid" by (auto simp: issued_def)
    then show ?thesis
      using b MintOp card_bound_tokens(1) [OF b]
      by (auto simp: mgr_generate_invite_token_def case_prod_beta split: option.splits)
  next
    case (ReseedOp rid t who)
    then have "t \<in> issued ?ops rid" by (auto simp: issued_def)
    then show ?thesis
      using b ReseedOp card_bound_tokens(2) [OF b]
      by (auto simp: mgr_reregister_invite_token_def case_prod_beta split: option.splits)
  next
    case (CheckedMintOp rid who t)
    then have "t \<in> issued ?ops rid" by (auto simp: issued_def)
    then show ?thesis
      using b CheckedMintOp card_bound_tokens(1) [OF b]
      by (auto simp: generate_invite_token_checked_def case_prod_beta split: option.splits)
  qed (use b cards_leave [OF m] cards_drop_peer [OF m] cards_drop_endpoint [OF m] cards_device [OF m]
      cards_rooms [OF m] in \<open>simp_all add: card_bound_def hm_keys_def\<close>)
qed

lemma card_bound_reachable: "card_bound ops (foldl (sfu_step sha) manager_new ops)"
proof (induction ops rule: rev_induct)
  case Nil
  show ?case by (auto simp: card_bound_def cards_def manager_new_def room_new_def hm_get_def hm_keys_def)
next
  case (snoc op ops)
  then show ?case using card_bound_step [OF sfu.inv_reachable] by simp
qed

text \<open>
  C27: a private room stays private. Whoever is in a private room, in voice or only reading the
  chat, is the room's creator or was admitted to this room before: by an explicit grant or by
  presenting an invite token that had been issued for this room. (The empty string, which is no
  key, counts as the creator of a room without one.)
\<close>

theorem private_room_admission:
  "set (foldl (sfu_step sha) manager_new ops) \<subseteq>
     {(i, r). room_type r = Public \<or> set (chat_recipient_ids r) \<subseteq> {creator_id r, ''''} \<union> admitted ops i}"
proof
  fix x assume "x \<in> set (foldl (sfu_step sha) manager_new ops)"
  moreover obtain i r where x: "x = (i, r)" by (cases x)
  ultimately have ir: "(i, r) \<in> set (foldl (sfu_step sha) manager_new ops)" by simp
  let ?m = "foldl (sfu_step sha) manager_new ops"
  have m: "mgr_inv ?m" by (rule sfu.inv_reachable)
  then have get: "hm_get ?m i = Some r" using ir by (simp add: mgr_inv_def hm_get_in)
  have "set (allowed r) \<subseteq> admitted ops i" using card_bound_reachable get unfolding card_bound_def by (auto dest: cards_get)
  moreover have "is_public r \<or> present r \<subseteq> set (allowed r) \<union> {creator_id r, ''''}"
    using mgr_inv_get [OF m get] by (simp add: room_inv_def admitted_ok_def)
  ultimately show "x \<in> {(i, r). room_type r = Public \<or>
      set (chat_recipient_ids r) \<subseteq> {creator_id r, ''''} \<union> admitted ops i}"
    unfolding x by (auto simp: is_public_def present_def chat_recipient_ids_def)
qed

end
