(* ===== verification/Sfu_Calls.thy ===== *)
theory Sfu_Calls
  imports Sfu_Properties
begin

section \<open>What the single calls of the SFU do\<close>

text \<open>
  Joining, leaving, collecting idle rooms, forwarding audio, and redeeming invites, each from any
  state a history of calls can reach.
\<close>

subsection \<open>Idle rooms\<close>

text \<open>
  The idle collector is safe and exact. In any reachable state it removes exactly the rooms,
  other than the lobby, that have a creator and whose idle stamp is at least \<open>idle_secs\<close> old;
  every room it removes has neither a voice participant nor a chat subscriber; it reports what it
  removed, and every other room stays as it was.
\<close>

theorem gc_idle_rooms_safe:
  "let m = foldl (sfu_step sha) manager_new ops; (removed, m') = gc_idle_rooms m now idle_secs
   in (\<forall>i. hm_get m' i = (if i \<in> set removed then None else hm_get m i)) \<and>
      hm_contains m' DEFAULT_ROOM_ID \<and>
      set removed = {i. \<exists>r t. hm_get m i = Some r \<and> i \<noteq> DEFAULT_ROOM_ID \<and> creator_id r \<noteq> [] \<and>
        empty_since r = Some t \<and> idle_secs \<le> now - t \<and> chat_recipient_ids r = []}"
proof -
  define m where "m = foldl (sfu_step sha) manager_new ops"
  have inv: "mgr_inv m" unfolding m_def by (rule sfu.inv_reachable)
  then have wf: "hm_wf m" by (simp add: mgr_inv_def)
  have empty: "chat_recipient_ids r = []" if "hm_get m i = Some r" "empty_since r = Some t" for i r t
    using mgr_inv_get [OF inv that(1)] that(2)
    by (auto simp: room_inv_def sizes_ok_def is_unused_def chat_recipient_ids_def hm_keys_def)
  have removed: "set (fst (gc_idle_rooms m now idle_secs)) = {i. \<exists>r. hm_get m i = Some r \<and> \<not> gc_keeps now idle_secs i r}"
    using wf by (force simp: gc_idle_rooms_def hm_get_in)
  have drop: "\<not> gc_keeps now idle_secs i r \<longleftrightarrow> i \<noteq> DEFAULT_ROOM_ID \<and> creator_id r \<noteq> [] \<and>
      (\<exists>t. empty_since r = Some t \<and> idle_secs \<le> now - t)" for i r
    by (auto simp: gc_keeps_def split: option.splits)
  have "hm_get (snd (gc_idle_rooms m now idle_secs)) i =
      (if i \<in> set (fst (gc_idle_rooms m now idle_secs)) then None else hm_get m i)" for i
    unfolding removed by (auto simp: gc_idle_rooms_def hm_get_retain [OF wf] split: option.splits)
  moreover have "hm_contains (snd (gc_idle_rooms m now idle_secs)) DEFAULT_ROOM_ID"
    using gc_inv [OF inv] by (simp add: mgr_inv_def)
  moreover have "set (fst (gc_idle_rooms m now idle_secs)) =
      {i. \<exists>r t. hm_get m i = Some r \<and> i \<noteq> DEFAULT_ROOM_ID \<and> creator_id r \<noteq> [] \<and>
        empty_since r = Some t \<and> idle_secs \<le> now - t \<and> chat_recipient_ids r = []}"
    unfolding removed drop using empty by blast
  ultimately show ?thesis unfolding Let_def m_def [symmetric] case_prod_beta by blast
qed

subsection \<open>Joining and leaving\<close>

lemma is_peer_allowed_normalize [simp]: "is_peer_allowed r (normalize_peer_id p) = is_peer_allowed r p"
  by (simp add: is_peer_allowed_def)

lemma hm_insert_same: "hm_get m i = Some r \<Longrightarrow> hm_get (hm_insert i r m) j = hm_get m j"
  by (simp add: coll_simps)

text \<open>
  Joining. In any reachable state a join succeeds exactly when the room exists, the contact is
  allowed in, the room has a place (or the contact is already in voice), and the contact has a
  device slot left (or the endpoint is already known, or is the legacy one). On success the
  endpoint is in voice and the reply lists the contact among the participants of the room; on
  failure nothing changes.
\<close>

theorem join_room_endpoint_spec:
  "let m = foldl (sfu_step sha) manager_new ops; ((ok, members), m') = join_room_endpoint now m p d rid;
       n = normalize_peer_id p
   in (ok \<longleftrightarrow> (\<exists>r. hm_get m rid = Some r \<and> is_peer_allowed r p \<and>
         (n \<in> set (participant_ids r) \<or> participant_count r < 32) \<and>
         (hm_contains (device_members r) (n, d) \<or> d = None \<or> device_count r n < 8))) \<and>
      (if ok
       then is_endpoint_in_voice m' p d rid \<and> n \<in> set members \<and>
         map_option participant_ids (hm_get m' rid) = Some members
       else (\<forall>i. hm_get m' i = hm_get m i))"
proof -
  define m where "m = foldl (sfu_step sha) manager_new ops"
  define n where "n = normalize_peer_id p"
  have inv: "mgr_inv m" unfolding m_def by (rule sfu.inv_reachable)
  have nn: "normalize_peer_id n = n" by (simp add: n_def)
  obtain ok members m' where j: "join_room_endpoint now m p d rid = ((ok, members), m')" by (metis surj_pair)
  have takes: "takes r (n, d) (Some True) \<longleftrightarrow> (n \<in> set (participant_ids r) \<or> participant_count r < 32) \<and>
      (hm_contains (device_members r) (n, d) \<or> d = None \<or> device_count r n < 8)" for r
    by (auto simp: takes_def participant_ids_def participant_count_def is_full_def MAX_ROOM_SIZE_def
        MAX_LIVE_DEVICE_ROUTES_def hm_contains_def)
  have "(ok \<longleftrightarrow> (\<exists>r. hm_get m rid = Some r \<and> is_peer_allowed r p \<and> takes r (n, d) (Some True))) \<and>
      (if ok then is_endpoint_in_voice m' p d rid \<and> n \<in> set members \<and>
         map_option participant_ids (hm_get m' rid) = Some members
       else (\<forall>i. hm_get m' i = hm_get m i))"
  proof (cases "hm_get m rid")
    case None
    then show ?thesis using j by (auto simp: join_room_endpoint_def Let_def)
  next
    case (Some r)
    have r: "room_inv r" using mgr_inv_get [OF inv Some] by simp
    consider "\<not> is_peer_allowed r p" | "is_peer_allowed r p" "\<not> takes r (n, d) (Some True)"
      | "is_peer_allowed r p" "takes r (n, d) (Some True)" by blast
    then show ?thesis
    proof cases
      case 1
      then show ?thesis using j Some by (auto simp: join_room_endpoint_def Let_def)
    next
      case 2
      then have "set_device_membership now r n d (Some True) None = (False, r)"
        by (simp add: set_device_membership_eq nn)
      moreover have "is_peer_allowed r n" using 2(1) by (simp add: n_def)
      ultimately show ?thesis
        using j Some 2 by (auto simp: join_room_endpoint_def Let_def n_def [symmetric] hm_insert_same)
    next
      case 3
      let ?r = "snd (set_device_membership now r n d (Some True) None)"
      note f = set_device_membership_takes [OF r, of n d "Some True", unfolded nn, OF 3(2), where now = now and c = None]
      have eq: "ok" "members = participant_ids ?r" "m' = hm_insert rid ?r m"
        using j Some 3(1) f(1) by (auto simp: join_room_endpoint_def Let_def n_def [symmetric] nn
            case_prod_beta is_peer_allowed_normalize [of r p, folded n_def])
      have get: "hm_get (device_members ?r) (n, d) = Some (wanted r (n, d) (Some True) None)"
        and v: "voice (wanted r (n, d) (Some True) None)"
        using f(2) [of "(n, d)"] by (simp_all add: wanted_def Let_def)
      have "hm_wf (device_members ?r)" using f(5) by (simp add: endpoints_ok_def)
      then have "has_voice ?r n" using get v by (auto simp: has_voice_get)
      then have "n \<in> set members"
        using f(4) eq(2) by (auto simp: rosters_ok_def participant_ids_def hm_contains_def)
      moreover have "is_endpoint_in_voice m' p d rid"
        using get v by (simp add: is_endpoint_in_voice_def eq(3) hm_get_insert n_def)
      ultimately show ?thesis using eq 3 Some by (simp add: hm_get_insert)
    qed
  qed
  then show ?thesis unfolding Let_def m_def [symmetric] n_def [symmetric] j prod.case takes .
qed

lemma set_device_other:
  assumes "room_inv r" "v = Some True \<or> c = Some True \<Longrightarrow> is_peer_allowed r p" "k \<noteq> (normalize_peer_id p, d)"
  shows "hm_get (device_members (snd (set_device_membership now r p d v c))) k = hm_get (device_members r) k"
proof (cases "takes r (normalize_peer_id p, d) v")
  case True
  from set_device_membership_takes(2) [OF assms(1) True] assms(3) show ?thesis by simp
qed (simp add: set_device_membership_eq Let_def)

lemma unused_no_endpoint:
  assumes "room_inv r" "is_unused r"
  shows "hm_get (device_members r) k = None"
proof (rule ccontr)
  assume "hm_get (device_members r) k \<noteq> None"
  then obtain e where e: "hm_get (device_members r) (fst k, snd k) = Some e" by auto
  have wf: "hm_wf (device_members r)" "rosters_ok r" using assms(1) by (simp_all add: room_inv_def endpoints_ok_def)
  have "voice e \<or> chat e"
    using hm_get_SomeD [OF e] assms(1) unfolding room_inv_def endpoints_ok_def by blast
  then have "has_voice r (fst k) \<or> has_chat r (fst k)" using e unfolding has_voice_get [OF wf(1)] has_chat_get [OF wf(1)] by blast
  then show False
    using assms(2) present_iff [OF wf(2)] by (auto simp: is_unused_def present_def hm_keys_def)
qed

lemma voice_insert:
  assumes "hm_get m rid = Some r" "(normalize_peer_id q, e, i) \<noteq> (n, d, rid)"
    "\<And>k. k \<noteq> (n, d) \<Longrightarrow> hm_get (device_members r') k = hm_get (device_members r) k"
  shows "is_endpoint_in_voice (hm_insert rid r' m) q e i = is_endpoint_in_voice m q e i"
  using assms(1,2) assms(3) [of "(normalize_peer_id q, e)"] by (auto simp: is_endpoint_in_voice_def hm_get_insert)

lemma device_other:
  assumes inv: "mgr_inv m" and r: "hm_get m rid = Some r" and allowed: "v = Some True \<or> c = Some True \<Longrightarrow> is_peer_allowed r p"
    and n: "normalize_peer_id p' = n" "normalize_peer_id p = n" and k: "k \<noteq> (n, d)"
  shows "hm_get (device_members (snd (set_device_membership now r p' d v c))) k = hm_get (device_members r) k"
proof -
  have "room_inv r" using mgr_inv_get [OF inv r] by simp
  then show ?thesis using set_device_other [of r v c p' k d now] allowed n k by (metis is_peer_allowed_normalize)
qed

lemma voice_other:
  assumes inv: "mgr_inv m" and ne: "(normalize_peer_id q, e, i) \<noteq> (normalize_peer_id p, d, rid)"
  shows "is_endpoint_in_voice (snd (join_room_endpoint now m p d rid)) q e i = is_endpoint_in_voice m q e i"
    "is_endpoint_in_voice (snd (subscribe_endpoint now m p d rid)) q e i = is_endpoint_in_voice m q e i"
    "is_endpoint_in_voice (unsubscribe_endpoint now m p d rid) q e i = is_endpoint_in_voice m q e i"
  by (auto simp: join_room_endpoint_def subscribe_endpoint_def unsubscribe_endpoint_def Let_def case_prod_beta
      intro!: voice_insert [OF _ ne] device_other [OF inv, where p = p] split: option.splits)

text \<open>After leaving, the endpoint of a room is gone or only reads the chat.\<close>

lemma leave_own:
  assumes inv: "room_inv r"
  shows "case hm_get (device_members (snd (set_device_membership now r p d (Some False) None))) (normalize_peer_id p, d) of
    None \<Rightarrow> True | Some e \<Rightarrow> \<not> voice e"
proof (cases "takes r (normalize_peer_id p, d) (Some False)")
  case True
  from set_device_membership_takes(2) [OF inv True, of now None "(normalize_peer_id p, d)"]
  show ?thesis by (simp add: wanted_def Let_def)
next
  case False
  then have "hm_get (device_members r) (normalize_peer_id p, d) = None" by (auto simp: takes_def hm_contains_iff)
  then show ?thesis using False by (simp add: set_device_membership_eq)
qed

lemma leave_voice:
  assumes inv: "mgr_inv m"
  shows "is_endpoint_in_voice (snd (leave_room_endpoint now m p d rid)) q e i =
    (if (normalize_peer_id q, e, i) = (normalize_peer_id p, d, rid) then False else is_endpoint_in_voice m q e i)"
proof (cases "hm_get m rid")
  case None
  then show ?thesis by (auto simp: leave_room_endpoint_def is_endpoint_in_voice_def)
next
  case (Some r)
  let ?s = "snd (set_device_membership now r p d (Some False) None)"
  let ?r = "mark_unused_if_empty now ?s"
  have room: "room_inv r" using mgr_inv_get [OF inv Some] by simp
  have dev: "device_members ?r = device_members ?s" by simp
  have inv': "room_inv ?r" using set_device_membership_inv(1) [OF room, of "Some False" None p now d] by (simp add: mark_unused_inv)
  have kept: "is_endpoint_in_voice (hm_insert rid ?r m) q e i =
      (if (normalize_peer_id q, e, i) = (normalize_peer_id p, d, rid) then False else is_endpoint_in_voice m q e i)"
  proof (cases "(normalize_peer_id q, e, i) = (normalize_peer_id p, d, rid)")
    case True
    then show ?thesis using leave_own [OF room, of now p d] by (simp add: is_endpoint_in_voice_def hm_get_insert split: option.splits)
  next
    case False
    have "is_endpoint_in_voice (hm_insert rid ?r m) q e i = is_endpoint_in_voice m q e i"
      by (rule voice_insert [OF Some False], unfold dev, rule device_other [OF inv Some, where p = p]) simp_all
    then show ?thesis unfolding if_not_P [OF False] .
  qed
  have "is_endpoint_in_voice (hm_remove rid (hm_insert rid ?r m)) q e i = is_endpoint_in_voice (hm_insert rid ?r m) q e i" if "is_unused ?r"
    using unused_no_endpoint [OF inv' that] by (simp add: is_endpoint_in_voice_def hm_get_insert hm_get_remove)
  moreover have "snd (leave_room_endpoint now m p d rid) =
      (if is_unused ?r \<and> creator_id ?r = [] \<and> rid \<noteq> DEFAULT_ROOM_ID
       then hm_remove rid (hm_insert rid ?r m) else hm_insert rid ?r m)"
    using Some by (simp add: leave_room_endpoint_def Let_def)
  ultimately show ?thesis using kept by presburger
qed

text \<open>
  Endpoints do not interfere. In any reachable state, joining, leaving, subscribing and
  unsubscribing with one device of a contact in one room leave it unchanged whether any other
  endpoint - another device of the same contact, another contact, or any endpoint in another
  room - is in voice; after leaving, the endpoint itself is not in voice.
\<close>

theorem endpoint_isolation:
  "let m = foldl (sfu_step sha) manager_new ops; n = normalize_peer_id p
   in {(q, e, i). (normalize_peer_id q, e, i) \<noteq> (n, d, rid)} \<subseteq>
        {(q, e, i). let v = is_endpoint_in_voice m q e i
          in is_endpoint_in_voice (snd (join_room_endpoint now m p d rid)) q e i = v \<and>
             is_endpoint_in_voice (snd (leave_room_endpoint now m p d rid)) q e i = v \<and>
             is_endpoint_in_voice (snd (subscribe_endpoint now m p d rid)) q e i = v \<and>
             is_endpoint_in_voice (unsubscribe_endpoint now m p d rid) q e i = v} \<and>
      \<not> is_endpoint_in_voice (snd (leave_room_endpoint now m p d rid)) p d rid"
proof -
  define m where "m = foldl (sfu_step sha) manager_new ops"
  have inv: "mgr_inv m" unfolding m_def by (rule sfu.inv_reachable)
  show ?thesis unfolding m_def [symmetric] Let_def by (auto simp: voice_other [OF inv] leave_voice [OF inv])
qed

subsection \<open>Audio\<close>

text \<open>
  The active-speaker gate. In any reachable state an audio frame for an existing room either
  goes to exactly the room's voice participants, and its sender is then one of at most five
  distinct active speakers, or it is shed, and then there are exactly five active speakers, each
  with an activity score at least the sender's. The gate changes no membership.
\<close>

theorem audio_gate_spec:
  "let m = foldl (sfu_step sha) manager_new ops; (out, m') = audio_forward_targets m rid sender now
   in case hm_get m rid of
        None \<Rightarrow> out = None \<and> m' = m
      | Some r \<Rightarrow> (\<exists>r'. hm_get m' rid = Some r' \<and> participants r' = participants r \<and>
          device_members r' = device_members r \<and> distinct (active_speakers r') \<and>
          (if sender \<in> set (active_speakers r')
           then out = Some (participant_ids r) \<and> length (active_speakers r') \<le> 5
           else out = None \<and> length (active_speakers r') = 5 \<and>
             set (active_speakers r') \<subseteq> {a. eff_of r' now sender \<le> eff_of r' now a}))"
proof -
  define m where "m = foldl (sfu_step sha) manager_new ops"
  have inv: "mgr_inv m" unfolding m_def by (rule sfu.inv_reachable)
  show ?thesis
  proof (cases "hm_get m rid")
    case None
    then show ?thesis by (simp add: m_def [symmetric] audio_forward_targets_def)
  next
    case (Some r)
    have spk: "speakers_ok r" using mgr_inv_get [OF inv Some] by (simp add: room_inv_def)
    let ?f = "fst (note_audio_should_forward r sender now)" and ?r = "snd (note_audio_should_forward r sender now)"
    note f = note_audio_facts [OF spk, of sender now]
    have eq: "audio_forward_targets m rid sender now =
        (if ?f then Some (participant_ids ?r) else None, hm_insert rid ?r m)"
      using Some by (simp add: audio_forward_targets_def case_prod_beta)
    have ids: "participant_ids ?r = participant_ids r" using f(2) by (simp add: participant_ids_def same_members_def)
    have "participants ?r = participants r \<and> device_members ?r = device_members r \<and> distinct (active_speakers ?r) \<and>
        length (active_speakers ?r) \<le> 5"
      using f(1,2) by (simp add: same_members_def speakers_ok_def MAX_ACTIVE_SPEAKERS_def)
    then show ?thesis
      unfolding Let_def m_def [symmetric] eq prod.case Some option.case
      by (intro exI [of _ ?r]) (use f(4,6) ids in \<open>auto simp: hm_get_insert MAX_ACTIVE_SPEAKERS_def\<close>)
  qed
qed

subsection \<open>Invites\<close>

text \<open>How often the token of a room has been redeemed in a history, and what is left of it.\<close>

fun redeemed :: "(bytes \<Rightarrow> string) \<Rightarrow> string \<Rightarrow> string \<Rightarrow> SFURoomManager \<Rightarrow> sfu_op list \<Rightarrow> nat" where
  "redeemed sha rid tok m [] = 0"
| "redeemed sha rid tok m (op # ops) =
     (case op of
        ValidateOp i t p \<Rightarrow> if i = rid \<and> t = tok \<and> fst (validate_room_invite m i t p) then 1 else 0
      | _ \<Rightarrow> 0) + redeemed sha rid tok (sfu_step sha m op) ops"

definition reissues :: "string \<Rightarrow> string \<Rightarrow> sfu_op \<Rightarrow> bool" where
  "reissues rid tok op =
     (case op of
        MintOp i who t \<Rightarrow> i = rid \<and> t = tok
      | ReseedOp i t who \<Rightarrow> i = rid \<and> t = tok
      | CheckedMintOp i who t \<Rightarrow> i = rid \<and> t = tok
      | _ \<Rightarrow> False)"

text \<open>\<open>uses_left rid tok k\<close>: the token is gone, or it is limited and has at most \<open>k\<close> uses left.\<close>

definition limited :: "string \<Rightarrow> nat \<Rightarrow> (string, InviteToken) hmap \<Rightarrow> bool" where
  "limited tok k ts = (case hm_get ts tok of None \<Rightarrow> True | Some it \<Rightarrow> 0 < max_uses it \<and> max_uses it \<le> k + uses it)"

definition uses_left :: "string \<Rightarrow> string \<Rightarrow> nat \<Rightarrow> SFURoomManager \<Rightarrow> bool" where
  "uses_left rid tok k = cards (\<lambda>i a ts. i \<noteq> rid \<or> limited tok k ts)"

lemma uses_left_update:
  assumes "uses_left rid tok k m" "hm_get m i = Some r"
    "i = rid \<Longrightarrow> limited tok k (invite_tokens r) \<Longrightarrow> limited tok k' (invite_tokens r')" "k \<le> k'"
  shows "uses_left rid tok k' (hm_insert i r' m)"
proof -
  have "cards (\<lambda>i a ts. i \<noteq> rid \<or> limited tok k' ts) m"
    using assms(1,4) by (auto simp: uses_left_def cards_def limited_def split: option.splits)
  then show ?thesis
    using cards_get [OF assms(1) [unfolded uses_left_def] assms(2)] assms(3)
    unfolding uses_left_def by (intro cards_insert) auto
qed

lemma limited_tokens:
  "t \<noteq> tok \<Longrightarrow> limited tok k (invite_tokens (snd (generate_invite_token r t who n))) = limited tok k (invite_tokens r)"
  "t \<noteq> tok \<Longrightarrow> limited tok k (invite_tokens (snd (reregister_invite_token r t who))) = limited tok k (invite_tokens r)"
  "t \<noteq> tok \<Longrightarrow> limited tok k (invite_tokens (snd (validate_and_consume_token r t p))) = limited tok k (invite_tokens r)"
  "invite_tokens (allow_peer r p) = invite_tokens r"
  by (auto simp: limited_def generate_invite_token_def reregister_invite_token_def validate_and_consume_token_def
      allow_peer_def Let_def coll_simps split: option.splits)

lemma limited_validate:
  assumes "limited tok k (invite_tokens r)"
  shows "limited tok (k - (if fst (validate_and_consume_token r tok p) then 1 else 0))
           (invite_tokens (snd (validate_and_consume_token r tok p))) \<and>
         (fst (validate_and_consume_token r tok p) \<longrightarrow> 0 < k)"
  using assms
  by (auto simp: limited_def validate_and_consume_token_def Let_def coll_simps split: option.splits if_splits)

lemma uses_left_step:
  assumes m: "mgr_inv m" and u: "uses_left rid tok k m" and op: "\<not> reissues rid tok op"
  defines "took \<equiv> (case op of
        ValidateOp i t p \<Rightarrow> if i = rid \<and> t = tok \<and> fst (validate_room_invite m i t p) then 1 else (0 :: nat)
      | _ \<Rightarrow> 0)"
  shows "uses_left rid tok (k - took) (sfu_step sha m op) \<and> took \<le> k"
proof (cases op)
  case (ValidateOp i t p)
  show ?thesis
  proof (cases "hm_get m i")
    case None
    then show ?thesis using u ValidateOp by (simp add: validate_room_invite_def took_def)
  next
    case (Some r)
    let ?ok = "fst (validate_and_consume_token r t p)" and ?r = "snd (validate_and_consume_token r t p)"
    have eq: "validate_room_invite m i t p = (?ok, hm_insert i ?r m)"
      using Some by (simp add: validate_room_invite_def case_prod_beta)
    show ?thesis
    proof (cases "i = rid \<and> t = tok")
      case False
      have "uses_left rid tok k (hm_insert i ?r m)"
        by (rule uses_left_update [OF u Some]) (use False limited_tokens(3) in auto)
      then show ?thesis using False ValidateOp eq by (auto simp: took_def)
    next
      case True
      have lim: "limited tok k (invite_tokens r)"
        using cards_get [OF u [unfolded uses_left_def] Some] True by simp
      note v = limited_validate [OF lim, of p]
      have "cards (\<lambda>i a ts. i \<noteq> rid \<or> limited tok (k - took) ts) (hm_insert i ?r m)"
      proof -
        have "hm_get (hm_insert i ?r m) j = Some r' \<Longrightarrow> j = rid \<Longrightarrow> r' = ?r" for j r'
          using True by (auto simp: hm_get_insert)
        then show ?thesis using v True ValidateOp eq by (auto simp: cards_def took_def)
      qed
      then show ?thesis using v True ValidateOp eq by (auto simp: uses_left_def took_def)
    qed
  qed
next
  case (CreateOp now i name ty c pol)
  have "limited tok k []" for k by (simp add: limited_def)
  then show ?thesis
    using CreateOp u cards_rooms(1) [OF m] by (simp add: uses_left_def took_def)
next
  case (GcOp now idle)
  have "limited tok k []" for k by (simp add: limited_def)
  then show ?thesis using GcOp u cards_rooms(2) [OF m] by (simp add: uses_left_def took_def)
next
  case (AdoptOp i owner)
  have "limited tok k []" for k by (simp add: limited_def)
  then show ?thesis using AdoptOp u cards_rooms(3) [OF m] by (simp add: uses_left_def took_def)
next
  case (MintOp i who t)
  then have "uses_left rid tok k (hm_insert i (snd (generate_invite_token r t who 1)) m)" if "hm_get m i = Some r" for r
    using that op limited_tokens(1) by (intro uses_left_update [OF u that]) (auto simp: reissues_def)
  then show ?thesis
    using u MintOp by (auto simp: mgr_generate_invite_token_def case_prod_beta took_def split: option.splits)
next
  case (CheckedMintOp i who t)
  then have "uses_left rid tok k (hm_insert i (snd (generate_invite_token r t who 1)) m)" if "hm_get m i = Some r" for r
    using that op limited_tokens(1) by (intro uses_left_update [OF u that]) (auto simp: reissues_def)
  then show ?thesis
    using u CheckedMintOp by (auto simp: generate_invite_token_checked_def case_prod_beta took_def split: option.splits)
next
  case (ReseedOp i t who)
  then have "uses_left rid tok k (hm_insert i (snd (reregister_invite_token r t who)) m)" if "hm_get m i = Some r" for r
    using that op limited_tokens(2) by (intro uses_left_update [OF u that]) (auto simp: reissues_def)
  then show ?thesis
    using u ReseedOp by (auto simp: mgr_reregister_invite_token_def case_prod_beta took_def split: option.splits)
next
  case (AllowOp i p)
  have "uses_left rid tok k (hm_insert i (allow_peer r p) m)" if "hm_get m i = Some r" for r
    by (intro uses_left_update [OF u that]) (auto simp: limited_tokens(4))
  then show ?thesis using u AllowOp by (auto simp: mgr_allow_peer_def took_def split: option.splits)
qed (use u cards_leave [OF m] cards_drop_peer [OF m] cards_drop_endpoint [OF m] cards_device [OF m]
    in \<open>simp_all add: uses_left_def took_def\<close>)

lemma redeemed_le:
  "mgr_inv m \<Longrightarrow> uses_left rid tok k m \<Longrightarrow> list_all (\<lambda>op. \<not> reissues rid tok op) ops \<Longrightarrow>
     redeemed sha rid tok m ops \<le> k"
proof (induction ops arbitrary: m k)
  case (Cons op ops)
  define took where "took = (case op of
        ValidateOp i t p \<Rightarrow> if i = rid \<and> t = tok \<and> fst (validate_room_invite m i t p) then 1 else (0 :: nat)
      | _ \<Rightarrow> 0)"
  have op: "\<not> reissues rid tok op" using Cons.prems(3) by simp
  note step = uses_left_step [OF Cons.prems(1,2) op, of sha, folded took_def]
  have "redeemed sha rid tok (sfu_step sha m op) ops \<le> k - took"
    using Cons.IH [OF sfu_step_inv [OF Cons.prems(1)] conjunct1 [OF step]] Cons.prems(3) by simp
  then show ?case using step unfolding redeemed.simps took_def [symmetric] by linarith
qed simp

text \<open>
  A minted invite works once. Take any reachable state in which an invite for a room is minted
  through the checked call, and any later history that does not mint or re-seed that same token
  again: the token is redeemed at most once in it, whoever presents it and whatever happens
  between.
\<close>

theorem minted_invite_single_use:
  assumes "m = foldl (sfu_step sha) manager_new before"
    and "generate_invite_token_checked m rid requester tok = (MintOk tok, m')"
    and "list_all (\<lambda>op. \<not> reissues rid tok op) later"
  shows "redeemed sha rid tok m' later \<le> 1"
proof -
  have inv: "mgr_inv m" unfolding assms(1) by (rule sfu.inv_reachable)
  have "mgr_inv m'" using sfu_step_inv [OF inv, of sha "CheckedMintOp rid requester tok"] assms(2) by simp
  moreover obtain r where r: "hm_get m rid = Some r" "m' = hm_insert rid (snd (generate_invite_token r tok requester 1)) m"
    using assms(2) by (auto simp: generate_invite_token_checked_def case_prod_beta split: option.splits if_splits)
  have "uses_left rid tok 1 m'"
    unfolding uses_left_def cards_def r(2)
    by (auto simp: hm_get_insert limited_def generate_invite_token_def)
  ultimately show ?thesis using redeemed_le assms(3) by blast
qed

text \<open>A private room, an invite minted by its owner, presented by two peers: one redemption.\<close>

theorem minted_invite_single_use_witness:
  "let sha = (\<lambda>_. []); m = foldl (sfu_step sha) manager_new [CreateOp 0 (Some ''r'') ''n'' Private ''alice'' ''owner''];
       m' = snd (generate_invite_token_checked m ''r'' ''alice'' ''t'')
   in redeemed sha ''r'' ''t'' m' [ValidateOp ''r'' ''t'' ''bob'', ValidateOp ''r'' ''t'' ''eve''] \<le> 1 \<and>
      fst (validate_room_invite m' ''r'' ''t'' ''bob'')"
proof -
  let ?m = "foldl (sfu_step (\<lambda>_. [])) manager_new [CreateOp 0 (Some ''r'') ''n'' Private ''alice'' ''owner'']"
  have "fst (generate_invite_token_checked ?m ''r'' ''alice'' ''t'') = MintOk ''t''" by code_simp
  then have mint: "generate_invite_token_checked ?m ''r'' ''alice'' ''t'' =
      (MintOk ''t'', snd (generate_invite_token_checked ?m ''r'' ''alice'' ''t''))" by (metis prod.collapse)
  have ops: "list_all (\<lambda>op. \<not> reissues ''r'' ''t'' op) [ValidateOp ''r'' ''t'' ''bob'', ValidateOp ''r'' ''t'' ''eve'']"
    by (simp add: reissues_def)
  have ok: "fst (validate_room_invite (snd (generate_invite_token_checked ?m ''r'' ''alice'' ''t'')) ''r'' ''t'' ''bob'')"
    by code_simp
  show ?thesis
    unfolding Let_def by (intro conjI minted_invite_single_use [OF refl mint ops] ok)
qed

text \<open>
  Key spelling and room ownership. For every 43-character key without padding: a private room
  that adopts this spelling of its proven owner does not admit the owner, under either spelling
  (the adopted key is stored as it came while every check compares the padded form); and the
  creator of a room who asks for an invite under the unpadded spelling is refused under the
  owner policy, although the room was created under that very spelling.
\<close>

theorem creator_spelling_divergence:
  assumes "length k = 43" "trim_end_matches (CHR ''='') k = k" "rid \<noteq> DEFAULT_ROOM_ID"
  shows "let m = snd (create_room_with_policy sha now manager_new (Some rid) name Private '''' policy);
             (adopted, m1) = adopt_creator_if_empty m rid k;
             m2 = snd (create_room_with_policy sha now manager_new (Some rid) name Private k ''owner'')
         in adopted \<and>
            \<not> fst (fst (join_room now m1 k rid)) \<and> \<not> fst (fst (join_room now m1 (k @ ''='') rid)) \<and>
            fst (generate_invite_token_checked m2 rid k nonce) = NotAuthorized \<and>
            fst (generate_invite_token_checked m2 rid (k @ ''='') nonce) = MintOk nonce"
proof -
  have n: "normalize_peer_id k = k @ ''=''" "normalize_peer_id (k @ ''='') = k @ ''=''"
    using assms(1,2) trim_end_matches_snoc [of "CHR ''=''" k]
    by (simp_all add: normalize_peer_id_def normalize_public_id_def Let_def)
  have e: "normalize_peer_id '''' = ''''"
    by (simp add: normalize_peer_id_def normalize_public_id_def trim_end_matches_def)
  have ne: "k \<noteq> k @ ''=''" "k \<noteq> []" using assms(1) by auto
  have get: "hm_get manager_new rid = None" using assms(3) by (simp add: manager_new_def hm_get_def)
  note defs = create_room_with_policy_def adopt_creator_if_empty_def join_room_def join_room_endpoint_def
    generate_invite_token_checked_def generate_invite_token_def is_peer_allowed_def is_public_def
    mark_unused_if_empty_def room_new_def normalize_invite_policy_def Let_def hm_contains_iff hm_get_insert
  show ?thesis using n e ne get by (simp add: defs)
qed

theorem creator_spelling_divergence_witness:
  "let k = replicate 43 (CHR ''A''); m = snd (create_room_with_policy (\<lambda>_. []) 0 manager_new (Some ''r'') ''n'' Private '''' ''owner'');
       (adopted, m1) = adopt_creator_if_empty m ''r'' k
   in adopted \<and> \<not> fst (fst (join_room 0 m1 k ''r''))"
proof -
  have "length (replicate 43 (CHR ''A'')) = 43" by simp
  moreover have "trim_end_matches (CHR ''='') (replicate 43 (CHR ''A'')) = replicate 43 (CHR ''A'')" by code_simp
  moreover have "''r'' \<noteq> DEFAULT_ROOM_ID" by (simp add: DEFAULT_ROOM_ID_def)
  ultimately show ?thesis
    using creator_spelling_divergence [of "replicate 43 (CHR ''A'')" "''r''" "\<lambda>_. []" 0 "''n''" "''owner''"]
    by (simp only: Let_def case_prod_beta simp_thms)
qed

end
