(* ===== verification/Wire.thy ===== *)
theory Wire
  imports Prelude
begin

section \<open>Datagram and command framing of the relay (\<open>wire.rs\<close>)\<close>

text \<open>
  Values of \<open>serde_json\<close> as a datatype; the serialiser and the parser of that crate are the
  parameters \<open>to_vec\<close> and \<open>from_slice\<close>. Numbers are integers: the relay's commands hold no others.
\<close>

datatype json = JNull | JBool bool | JNum int | JStr string | JArr "json list" | JObj "(string \<times> json) list"

text \<open>\<open>Value::get(key)\<close> and \<open>Value::as_str\<close>.\<close>

fun json_get :: "json \<Rightarrow> string \<Rightarrow> json option" where
  "json_get (JObj kvs) k = map_of kvs k"
| "json_get _ k = None"

fun json_as_str :: "json \<Rightarrow> string option" where
  "json_as_str (JStr s) = Some s"
| "json_as_str _ = None"

definition BROADCAST_INDEX :: u8 where "BROADCAST_INDEX = 0xFF"

text \<open>\<open>json.len() as u32\<close> wraps above \<open>2 ^ 32\<close>.\<close>

definition encode_relay_cmd :: "(json \<Rightarrow> bytes) \<Rightarrow> json \<Rightarrow> bytes" where
  "encode_relay_cmd to_vec cmd =
     (let js = to_vec cmd in be_bytes 4 (length js mod 2 ^ 32) @ js)"

definition decode_relay_cmd :: "(bytes \<Rightarrow> json option) \<Rightarrow> bytes \<Rightarrow> (json \<times> nat) option" where
  "decode_relay_cmd from_slice buf =
     (if length buf < 4 then None
      else
        let len = from_be (take 4 buf)
        in if length buf < 4 + len then None
           else case from_slice (take len (drop 4 buf)) of
                  None \<Rightarrow> None
                | Some val \<Rightarrow> Some (val, 4 + len))"

definition parse_datagram :: "bytes \<Rightarrow> (u8 \<times> bytes) option" where
  "parse_datagram data = (case data of [] \<Rightarrow> None | b # bs \<Rightarrow> Some (b, bs))"

definition build_forwarded_datagram :: "u8 \<Rightarrow> bytes \<Rightarrow> bytes" where
  "build_forwarded_datagram sender_index payload = sender_index # payload"

lemma parse_build [simp]: "parse_datagram (build_forwarded_datagram i p) = Some (i, p)"
  by (simp add: parse_datagram_def build_forwarded_datagram_def)

subsection \<open>A command stream decodes to the commands it was built from\<close>

text \<open>The reader of a command stream: decode from the front until the buffer is used up.\<close>

function decode_stream :: "(bytes \<Rightarrow> json option) \<Rightarrow> bytes \<Rightarrow> json list option" where
  "decode_stream from_slice buf =
     (if buf = [] then Some []
      else case decode_relay_cmd from_slice buf of
             None \<Rightarrow> None
           | Some (val, n) \<Rightarrow> map_option ((#) val) (decode_stream from_slice (drop n buf)))"
  by pat_completeness auto
termination
  by (relation "measure (length \<circ> snd)")
    (auto simp: decode_relay_cmd_def Let_def split: if_splits option.splits)

declare decode_stream.simps [simp del]

lemma decode_encode_relay_cmd:
  assumes "from_slice (to_vec c) = Some c" and "length (to_vec c) < 2 ^ 32"
  shows "decode_relay_cmd from_slice (encode_relay_cmd to_vec c @ rest) = Some (c, length (encode_relay_cmd to_vec c))"
proof -
  have "from_be (be_bytes 4 (length (to_vec c))) = length (to_vec c)"
    using assms(2) by (intro from_be_bytes) simp
  then show ?thesis
    using assms by (simp add: decode_relay_cmd_def encode_relay_cmd_def Let_def)
qed

text \<open>
  Length-prefixed framing is self-delimiting. When the serialiser's output parses back and
  fits in 32 bits, the concatenation of any commands decodes to exactly those commands, in order,
  with nothing left over; and a proper prefix of one encoded command is never decoded as a
  command.
\<close>

theorem relay_cmd_stream_roundtrip:
  assumes "\<forall>c \<in> set cmds. from_slice (to_vec c) = Some c \<and> length (to_vec c) < 2 ^ 32"
  shows "decode_stream from_slice (concat (map (encode_relay_cmd to_vec) cmds)) = Some cmds \<and>
    (\<forall>c \<in> set cmds. \<forall>n < length (encode_relay_cmd to_vec c).
       decode_relay_cmd from_slice (take n (encode_relay_cmd to_vec c)) = None)"
proof
  show "decode_stream from_slice (concat (map (encode_relay_cmd to_vec) cmds)) = Some cmds"
    using assms
  proof (induction cmds)
    case Nil
    then show ?case by (simp add: decode_stream.simps)
  next
    case (Cons c cmds)
    have "decode_relay_cmd from_slice (encode_relay_cmd to_vec c @ concat (map (encode_relay_cmd to_vec) cmds)) =
        Some (c, length (encode_relay_cmd to_vec c))"
      using Cons.prems by (intro decode_encode_relay_cmd) auto
    moreover have "encode_relay_cmd to_vec c \<noteq> []"
      by (metis encode_relay_cmd_def append_is_Nil_conv be_bytes.simps(2) eval_nat_numeral(2) not_Cons_self2 snoc_eq_iff_butlast)
    ultimately have "decode_stream from_slice (encode_relay_cmd to_vec c @ concat (map (encode_relay_cmd to_vec) cmds)) =
        map_option ((#) c) (decode_stream from_slice (concat (map (encode_relay_cmd to_vec) cmds)))"
      by (subst decode_stream.simps) simp
    then show ?case using Cons by simp
  qed
  show "\<forall>c \<in> set cmds. \<forall>n < length (encode_relay_cmd to_vec c).
       decode_relay_cmd from_slice (take n (encode_relay_cmd to_vec c)) = None"
  proof (intro ballI allI impI)
    fix c n assume c: "c \<in> set cmds" and n: "n < length (encode_relay_cmd to_vec c)"
    have "from_be (be_bytes 4 (length (to_vec c))) = length (to_vec c)"
      using assms c by (intro from_be_bytes) simp
    then show "decode_relay_cmd from_slice (take n (encode_relay_cmd to_vec c)) = None"
      using assms c n by (auto simp: decode_relay_cmd_def encode_relay_cmd_def Let_def)
  qed
qed

theorem relay_cmd_stream_roundtrip_witness:
  "decode_stream (\<lambda>b. if b = [1, 2] then Some JNull else None)
     (concat (map (encode_relay_cmd (\<lambda>_. [1, 2])) [JNull, JNull])) = Some [JNull, JNull]"
  using relay_cmd_stream_roundtrip [of "[JNull, JNull]" "\<lambda>b. if b = [1, 2] then Some JNull else None" "\<lambda>_. [1, 2]"]
  by simp

end
