(* ===== verification/Relay.thy ===== *)
theory Relay
  imports Wire Feature_Registry Sfu_Room Channel_Frame
begin

section \<open>The datagram relay (\<open>relay.rs\<close>)\<close>

text \<open>
  The relay keeps one \<open>RelayState\<close> behind a lock; every operation below takes the state and
  returns it updated, with what it sends as a list of \<open>relay_out\<close>. A \<open>quinn::Connection\<close> is its
  \<open>stable_id\<close>; whether a datagram could be sent on it (\<open>sends\<close>) and whether it has closed
  (\<open>is_closed\<close>) are parameters, as are the base64 engines of the routing table and the JSON parser.
  TLS, the accept loop and the stream hooks are I/O and not modelled.
\<close>

type_synonym conn = nat

definition MAX_PEERS :: nat where "MAX_PEERS = 255"

record RelayPeer =
  peer_index :: u8
  connection :: conn
  peer_room_id :: "string option"
  bytes_relayed :: u64
  remote_addr :: string

record RelayState =
  allowed :: "string list"
  portal_allowed :: "string list"
  peers :: "RelayPeer DeviceRoutes"
  index_to_peer :: "(u8, string \<times> DeviceId option) hmap"
  device_routing_ready :: bool
  relay_rooms :: "(string, string list) hmap"
  room_assignments :: "string DeviceRoutes"
  game_sessions :: "(string, string list) hmap"
  peer_game_session :: "(string, string) hmap"
  video_subs :: "(string, string list) hmap"
  next_index :: u8
  total_bytes_relayed :: u64

datatype RelayCmd =
    Welcome u8
  | PeerJoined string "DeviceId option" u8
  | PeerLeft string "DeviceId option"
  | RelayErrorCmd string

datatype relay_out =
    SendDatagram conn bytes
  | SendCmd conn RelayCmd
  | CloseConn conn string
  | RoomAudioBridge string u8 string bytes
  | GameRelayBridge string string bytes
  | RoomVideoBridge string string bytes

definition relay_new :: "bool \<Rightarrow> RelayState" where
  "relay_new ready =
     \<lparr>allowed = [], portal_allowed = [], peers = routes_default, index_to_peer = [],
      device_routing_ready = ready, relay_rooms = [], room_assignments = routes_default,
      game_sessions = [], peer_game_session = [], video_subs = [], next_index = 1,
      total_bytes_relayed = 0\<rparr>"

definition bare :: "string \<Rightarrow> string" where
  "bare s = trim_end_matches (CHR ''='') s"

subsection \<open>Membership tables\<close>

text \<open>
  The three shapes in which the code edits a table of member sets:
  \<open>entry(k).or_default().insert(p)\<close>, the removal of one member that drops the set when it becomes
  empty, and \<open>retain\<close> with the removal inside.
\<close>

definition add_member :: "string \<Rightarrow> string \<Rightarrow> (string, string list) hmap \<Rightarrow> (string, string list) hmap" where
  "add_member k p m = hm_insert k (hs_insert p (case hm_get m k of Some ms \<Rightarrow> ms | None \<Rightarrow> [])) m"

definition drop_member :: "string \<Rightarrow> string \<Rightarrow> (string, string list) hmap \<Rightarrow> (string, string list) hmap" where
  "drop_member k p m =
     (case hm_get m k of
        None \<Rightarrow> m
      | Some ms \<Rightarrow> let ms = hs_remove p ms in if ms = [] then hm_remove k m else hm_insert k ms m)"

definition purge_member :: "string \<Rightarrow> (string, string list) hmap \<Rightarrow> (string, string list) hmap" where
  "purge_member p m = filter (\<lambda>(k, ms). ms \<noteq> []) (map (\<lambda>(k, ms). (k, hs_remove p ms)) m)"

definition members_of :: "(string, string list) hmap \<Rightarrow> string \<Rightarrow> string list" where
  "members_of m k = (case hm_get m k of Some ms \<Rightarrow> ms | None \<Rightarrow> [])"

subsection \<open>Video subscriptions\<close>

definition set_video_subscriptions :: "RelayState \<Rightarrow> string \<Rightarrow> string list \<Rightarrow> RelayState" where
  "set_video_subscriptions st subscriber senders =
     (let key = normalize_public_id subscriber;
          s = remdups (map normalize_public_id senders)
      in st\<lparr>video_subs := hm_insert key s (video_subs st)\<rparr>)"

definition wants_video :: "RelayState \<Rightarrow> string \<Rightarrow> string \<Rightarrow> bool" where
  "wants_video st recipient sender =
     (case hm_get (video_subs st) (normalize_public_id recipient) of
        Some s \<Rightarrow> normalize_public_id sender \<in> set s
      | None \<Rightarrow> True)"

subsection \<open>Datagram indices\<close>

definition index_succ :: "u8 \<Rightarrow> u8" where
  "index_succ i = (if i = 254 then 1 else i + 1)"

text \<open>
  The search loop, with fuel: \<open>None\<close> is a loop that has not ended. Each round looks at one
  index, and there are 254 of them, so 255 rounds are enough (\<open>alloc_loop_total\<close>).
\<close>

fun alloc_loop :: "nat \<Rightarrow> (u8 \<Rightarrow> bool) \<Rightarrow> u8 \<Rightarrow> u8 \<Rightarrow> (u8 option \<times> u8) option" where
  "alloc_loop 0 used start next = None"
| "alloc_loop (Suc fuel) used start next =
     (if \<not> used next then Some (Some next, index_succ next)
      else
        let next = index_succ next
        in if next = start then Some (None, next) else alloc_loop fuel used start next)"

definition allocate_index :: "RelayState \<Rightarrow> u8 option \<times> RelayState" where
  "allocate_index st =
     (case alloc_loop 255 (hm_contains (index_to_peer st)) (next_index st) (next_index st) of
        Some (r, n) \<Rightarrow> (r, st\<lparr>next_index := n\<rparr>)
      | None \<Rightarrow> (None, st))"

subsection \<open>Removal\<close>

definition remove_assignment :: "b64 \<Rightarrow> RelayState \<Rightarrow> string \<Rightarrow> DeviceId option \<Rightarrow> RelayState" where
  "remove_assignment e st peer_id device =
     st\<lparr>room_assignments := snd (remove_endpoint_if e (room_assignments st) peer_id device (\<lambda>_. True))\<rparr>"

definition remove_identity_membership :: "b64 \<Rightarrow> RelayState \<Rightarrow> string \<Rightarrow> RelayState" where
  "remove_identity_membership e st peer_id =
     (let devices = map fst (endpoints e (room_assignments st) peer_id);
          st = foldl (\<lambda>st d. remove_assignment e st peer_id d) st devices;
          st = st\<lparr>video_subs := hm_remove (normalize_public_id peer_id) (video_subs st)\<rparr>;
          st = st\<lparr>relay_rooms := purge_member peer_id (relay_rooms st)\<rparr>
      in case hm_get (peer_game_session st) peer_id of
           Some session_id \<Rightarrow>
             st\<lparr>peer_game_session := hm_remove peer_id (peer_game_session st),
                game_sessions := drop_member session_id peer_id (game_sessions st)\<rparr>
         | None \<Rightarrow> st\<lparr>game_sessions := purge_member peer_id (game_sessions st)\<rparr>)"

definition in_room :: "string \<Rightarrow> RelayPeer \<Rightarrow> bool" where
  "in_room room p \<longleftrightarrow> peer_room_id p = Some room"

definition remove_endpoint :: "b64 \<Rightarrow> RelayState \<Rightarrow> string \<Rightarrow> DeviceId option \<Rightarrow> RelayState" where
  "remove_endpoint e st peer_id device =
     (let st = remove_assignment e st peer_id device
      in case get_endpoint e (peers st) peer_id device of
           None \<Rightarrow> st
         | Some peer \<Rightarrow>
             let st = st\<lparr>peers := snd (remove_endpoint_if e (peers st) peer_id device (\<lambda>_. True)),
                        index_to_peer := hm_remove (peer_index peer) (index_to_peer st)\<rparr>;
                 st = (case peer_room_id peer of
                         None \<Rightarrow> st
                       | Some room \<Rightarrow>
                           if list_ex (\<lambda>(_, p). in_room room p) (endpoints e (peers st) peer_id) then st
                           else st\<lparr>relay_rooms := drop_member room peer_id (relay_rooms st)\<rparr>)
             in if routes_contains_key e (peers st) peer_id then st
                else remove_identity_membership e st peer_id)"

definition remove_peer :: "b64 \<Rightarrow> RelayState \<Rightarrow> string \<Rightarrow> RelayState" where
  "remove_peer e st peer_id =
     (let devices = map fst (endpoints e (peers st) peer_id);
          st = foldl (\<lambda>st d. remove_endpoint e st peer_id d) st devices
      in remove_identity_membership e st peer_id)"

subsection \<open>Authorization\<close>

definition allow_peer :: "RelayState \<Rightarrow> string \<Rightarrow> RelayState" where
  "allow_peer st peer_id = st\<lparr>allowed := hs_insert (bare peer_id) (allowed st)\<rparr>"

definition allow_peer_update :: "RelayState \<Rightarrow> string \<Rightarrow> RelayState" where
  "allow_peer_update st peer_id =
     (let normalized = bare peer_id
      in st\<lparr>portal_allowed := hs_remove normalized (portal_allowed st),
            allowed := hs_insert normalized (allowed st)\<rparr>)"

definition allow_portal_peer :: "RelayState \<Rightarrow> string \<Rightarrow> RelayState" where
  "allow_portal_peer st peer_id = st\<lparr>portal_allowed := hs_insert (bare peer_id) (portal_allowed st)\<rparr>"

definition clear_quotas :: "'m FeatureRegistry \<Rightarrow> string \<Rightarrow> 'm FeatureRegistry" where
  "clear_quotas g peer_id = clear_peer_outbound_quotas (clear_peer_quotas g peer_id) peer_id"

definition revoke_peer ::
  "b64 \<Rightarrow> RelayState \<Rightarrow> 'm FeatureRegistry \<Rightarrow> string \<Rightarrow> relay_out list \<times> RelayState \<times> 'm FeatureRegistry" where
  "revoke_peer e st features peer_id =
     (let normalized = bare peer_id;
          st = st\<lparr>allowed := hs_remove normalized (allowed st)\<rparr>;
          outs = map (\<lambda>(_, p). CloseConn (connection p) ''revoked'') (endpoints e (peers st) normalized);
          st = remove_peer e st normalized
      in (outs, st, clear_quotas features normalized))"

subsection \<open>Rooms\<close>

text \<open>
  What \<open>notify_room_peer_joined\<close> sends: the new endpoint to every other endpoint of the room, and
  every one of them to the new endpoint.
\<close>

definition room_endpoints :: "b64 \<Rightarrow> RelayState \<Rightarrow> string list \<Rightarrow> (string \<times> DeviceId option \<times> RelayPeer) list" where
  "room_endpoints e st members =
     concat (map (\<lambda>m. map (\<lambda>(d, p). (m, d, p)) (endpoints e (peers st) m)) members)"

definition notify_room_peer_joined :: "b64 \<Rightarrow> RelayState \<Rightarrow> string \<Rightarrow> DeviceId option \<Rightarrow> u8 \<Rightarrow> relay_out list" where
  "notify_room_peer_joined e st peer_id device idx =
     (case get_endpoint e (peers st) peer_id device of
        None \<Rightarrow> []
      | Some peer \<Rightarrow>
          (case peer_room_id peer of
             None \<Rightarrow> []
           | Some room \<Rightarrow>
               (case hm_get (relay_rooms st) room of
                  None \<Rightarrow> []
                | Some members \<Rightarrow>
                    concat (map (\<lambda>(m, d, p).
                        if (m = peer_id \<and> d = device) \<or> \<not> in_room room p then []
                        else [SendCmd (connection p) (PeerJoined peer_id device idx),
                              SendCmd (connection peer) (PeerJoined m d (peer_index p))])
                      (room_endpoints e st members)))))"

definition notify_room_peer_left :: "b64 \<Rightarrow> RelayState \<Rightarrow> string \<Rightarrow> DeviceId option \<Rightarrow> string \<Rightarrow> relay_out list" where
  "notify_room_peer_left e st peer_id device room =
     (case hm_get (relay_rooms st) room of
        None \<Rightarrow> []
      | Some members \<Rightarrow>
          concat (map (\<lambda>(m, d, p).
              if (m \<noteq> peer_id \<or> d \<noteq> device) \<and> in_room room p
              then [SendCmd (connection p) (PeerLeft peer_id device)] else [])
            (room_endpoints e st members)))"

definition assign_room ::
  "b64 \<Rightarrow> string DeviceRoutes \<Rightarrow> string \<Rightarrow> DeviceId option \<Rightarrow> string \<Rightarrow> (DeviceRouteLimit + string option) \<times> string DeviceRoutes" where
  "assign_room e r peer_id device room =
     (case device of
        Some d \<Rightarrow> register_device e r peer_id d room
      | None \<Rightarrow> map_prod Inr id (routes_insert e r peer_id room))"

definition relay_join_room_endpoint ::
  "b64 \<Rightarrow> RelayState \<Rightarrow> string \<Rightarrow> DeviceId option \<Rightarrow> string \<Rightarrow> relay_out list \<times> RelayState" where
  "relay_join_room_endpoint e st peer_id device room =
     (let peer_id = bare peer_id
      in case assign_room e (room_assignments st) peer_id device room of
           (Inl _, a) \<Rightarrow> ([], st\<lparr>room_assignments := a\<rparr>)
         | (Inr _, a) \<Rightarrow>
             let st = st\<lparr>room_assignments := a\<rparr>;
                 peer = get_endpoint e (peers st) peer_id device;
                 old_room = (case peer of Some p \<Rightarrow> peer_room_id p | None \<Rightarrow> None);
                 st = (case old_room of
                         None \<Rightarrow> st
                       | Some old \<Rightarrow>
                           if list_ex (\<lambda>(d, p). d \<noteq> device \<and> in_room old p) (endpoints e (peers st) peer_id) then st
                           else st\<lparr>relay_rooms := drop_member old peer_id (relay_rooms st)\<rparr>);
                 st = st\<lparr>peers := get_endpoint_mut e (peers st) peer_id device (\<lambda>p. p\<lparr>peer_room_id := Some room\<rparr>),
                        relay_rooms := add_member room peer_id (relay_rooms st)\<rparr>
             in (case peer of
                   Some p \<Rightarrow> notify_room_peer_joined e st peer_id device (peer_index p)
                 | None \<Rightarrow> [], st))"

definition relay_leave_room_endpoint :: "b64 \<Rightarrow> RelayState \<Rightarrow> string \<Rightarrow> DeviceId option \<Rightarrow> RelayState" where
  "relay_leave_room_endpoint e st peer_id device =
     (let peer_id = bare peer_id;
          taken = (case get_endpoint e (peers st) peer_id device of Some p \<Rightarrow> peer_room_id p | None \<Rightarrow> None);
          st = st\<lparr>peers := get_endpoint_mut e (peers st) peer_id device (\<lambda>p. p\<lparr>peer_room_id := None\<rparr>)\<rparr>;
          room = (case taken of
                    Some r \<Rightarrow> Some r
                  | None \<Rightarrow> (case device of
                               Some d \<Rightarrow> get_endpoint e (room_assignments st) peer_id (Some d)
                             | None \<Rightarrow> None));
          st = remove_assignment e st peer_id device
      in case room of
           None \<Rightarrow> st
         | Some room \<Rightarrow>
             if list_ex (\<lambda>(_, p). in_room room p) (endpoints e (peers st) peer_id) then st
             else st\<lparr>relay_rooms := drop_member room peer_id (relay_rooms st)\<rparr>)"

definition get_room_peers :: "RelayState \<Rightarrow> string \<Rightarrow> string list" where
  "get_room_peers st room = members_of (relay_rooms st) room"

subsection \<open>Game sessions\<close>

definition join_game_session :: "RelayState \<Rightarrow> string \<Rightarrow> string \<Rightarrow> RelayState" where
  "join_game_session st peer_id session_id =
     (let peer_id = bare peer_id
      in if session_id = [] \<or> length session_id > 128 then st
         else
           let st = (case hm_get (peer_game_session st) peer_id of
                       None \<Rightarrow> st
                     | Some old \<Rightarrow>
                         let st = st\<lparr>peer_game_session := hm_remove peer_id (peer_game_session st)\<rparr>
                         in if old \<noteq> session_id
                            then st\<lparr>game_sessions := drop_member old peer_id (game_sessions st)\<rparr> else st)
           in st\<lparr>game_sessions := add_member session_id peer_id (game_sessions st),
                 peer_game_session := hm_insert peer_id session_id (peer_game_session st)\<rparr>)"

definition leave_game_session :: "RelayState \<Rightarrow> string \<Rightarrow> RelayState" where
  "leave_game_session st peer_id =
     (let peer_id = bare peer_id
      in case hm_get (peer_game_session st) peer_id of
           None \<Rightarrow> st
         | Some session_id \<Rightarrow>
             st\<lparr>peer_game_session := hm_remove peer_id (peer_game_session st),
                game_sessions := drop_member session_id peer_id (game_sessions st)\<rparr>)"

definition active_game_sessions :: "RelayState \<Rightarrow> string list" where
  "active_game_sessions st = map fst (filter (\<lambda>(_, ms). ms \<noteq> []) (game_sessions st))"

definition game_session_members :: "RelayState \<Rightarrow> string \<Rightarrow> string list" where
  "game_session_members st session_id = members_of (game_sessions st) session_id"

subsection \<open>Connections\<close>

datatype connect_result = Unavailable | NotAllowed | Full | NoIndices | DeviceLimit | Connected u8

text \<open>The block of \<open>handle_connection\<close> that holds the write lock: it registers the endpoint or refuses it.\<close>

definition prior_room :: "b64 \<Rightarrow> RelayState \<Rightarrow> string \<Rightarrow> DeviceId option \<Rightarrow> string option" where
  "prior_room e st peer_id device =
     (case get_endpoint e (peers st) peer_id device of Some p \<Rightarrow> peer_room_id p | None \<Rightarrow> None)"

definition drop_replaced :: "b64 \<Rightarrow> RelayState \<Rightarrow> string \<Rightarrow> DeviceId option \<Rightarrow> relay_out list \<times> RelayState" where
  "drop_replaced e st peer_id device =
     (case get_endpoint e (peers st) peer_id device of
        None \<Rightarrow> ([], st)
      | Some old \<Rightarrow>
          let st' = st\<lparr>index_to_peer := hm_remove (peer_index old) (index_to_peer st),
                       peers := snd (remove_endpoint_if e (peers st) peer_id device (\<lambda>_. True))\<rparr>
          in ([CloseConn (connection old) ''reconnected''],
              case peer_room_id old of
                Some room \<Rightarrow> st'\<lparr>relay_rooms := add_member room peer_id (relay_rooms st')\<rparr>
              | None \<Rightarrow> st'))"

definition existing_room :: "b64 \<Rightarrow> RelayState \<Rightarrow> string option \<Rightarrow> string \<Rightarrow> DeviceId option \<Rightarrow> string option" where
  "existing_room e st prior peer_id device =
     (case prior of
        Some r \<Rightarrow> Some r
      | None \<Rightarrow>
          (case get_endpoint e (room_assignments st) peer_id device of
             Some r \<Rightarrow> Some r
           | None \<Rightarrow>
               if device = None then map_option fst (find (\<lambda>(_, ms). peer_id \<in> set ms) (relay_rooms st))
               else None))"

definition register_connection ::
  "b64 \<Rightarrow> RelayState \<Rightarrow> string \<Rightarrow> DeviceId option \<Rightarrow> conn \<Rightarrow> string \<Rightarrow> connect_result \<times> relay_out list \<times> RelayState" where
  "register_connection e st peer_id device conn addr =
     (if get_endpoint e (peers st) peer_id device = None \<and>
         (routes_len (peers st) \<ge> MAX_PEERS \<or>
          (device \<noteq> None \<and>
           length (filter (\<lambda>(d, _). d \<noteq> None) (endpoints e (peers st) peer_id)) \<ge> MAX_LIVE_DEVICE_ROUTES))
      then (Full, [CloseConn conn ''full''], st)
      else
        let prior = prior_room e st peer_id device;
            (outs, st) = drop_replaced e st peer_id device
        in case allocate_index st of
             (None, st) \<Rightarrow> (NoIndices, outs, st)
           | (Some idx, st) \<Rightarrow>
               let room = existing_room e st prior peer_id device;
                   st = st\<lparr>index_to_peer := hm_insert idx (peer_id, device) (index_to_peer st)\<rparr>;
                   peer = \<lparr>peer_index = idx, connection = conn, peer_room_id = room, bytes_relayed = 0,
                           remote_addr = addr\<rparr>
               in (case device of
                     Some d \<Rightarrow>
                       (case register_device e (peers st) peer_id d peer of
                          (Inl _, ps) \<Rightarrow> (DeviceLimit, outs, st\<lparr>peers := ps\<rparr>)
                        | (Inr _, ps) \<Rightarrow> (Connected idx, outs, st\<lparr>peers := ps\<rparr>))
                   | None \<Rightarrow> (Connected idx, outs, st\<lparr>peers := snd (routes_insert e (peers st) peer_id peer)\<rparr>)))"

text \<open>
  \<open>handle_connection\<close> up to its loops. \<open>welcome_ok\<close> is whether the welcome command could be
  written; when it could not, the function returns with the endpoint registered.
\<close>

definition accept_connection ::
  "b64 \<Rightarrow> RelayState \<Rightarrow> string \<Rightarrow> DeviceId option \<Rightarrow> conn \<Rightarrow> string \<Rightarrow> bool \<Rightarrow> connect_result \<times> relay_out list \<times> RelayState" where
  "accept_connection e st peer_id device conn addr welcome_ok =
     (if device \<noteq> None \<and> \<not> device_routing_ready st
      then (Unavailable, [CloseConn conn ''device_routing_unavailable''], st)
      else
        let full = (peer_id \<in> set (allowed st));
            portal_only = (\<not> full \<and> peer_id \<in> set (portal_allowed st))
        in if \<not> full \<and> \<not> portal_only
           then (NotAllowed, [SendCmd conn (RelayErrorCmd ''not_allowed''), CloseConn conn ''not_allowed''], st)
           else
             case register_connection e st peer_id device conn addr of
               (Connected idx, outs, st) \<Rightarrow>
                 (Connected idx,
                  outs @ (if \<not> welcome_ok then []
                          else SendCmd conn (Welcome idx) #
                               (if portal_only then [] else notify_room_peer_joined e st peer_id device idx)), st)
             | r \<Rightarrow> r)"

definition disconnect ::
  "b64 \<Rightarrow> RelayState \<Rightarrow> 'm FeatureRegistry \<Rightarrow> string \<Rightarrow> DeviceId option \<Rightarrow> conn \<Rightarrow>
     relay_out list \<times> RelayState \<times> 'm FeatureRegistry" where
  "disconnect e st features peer_id device conn =
     (case get_endpoint e (peers st) peer_id device of
        None \<Rightarrow> ([], st, features)
      | Some p \<Rightarrow>
          if connection p \<noteq> conn then ([], st, features)
          else
            let st = remove_endpoint e st peer_id device;
                features = (if routes_contains_key e (peers st) peer_id then features else clear_quotas features peer_id)
            in (case peer_room_id p of
                  Some room \<Rightarrow> notify_room_peer_left e st peer_id device room
                | None \<Rightarrow> [], st, features))"

definition cleanup_stale_peers ::
  "b64 \<Rightarrow> (conn \<Rightarrow> bool) \<Rightarrow> RelayState \<Rightarrow> 'm FeatureRegistry \<Rightarrow> RelayState \<times> 'm FeatureRegistry" where
  "cleanup_stale_peers e is_closed st features =
     (let stale = map (\<lambda>(k, d, _). (bare k, d)) (filter (\<lambda>(_, _, p). is_closed (connection p)) (routes_iter (peers st)))
      in foldl (\<lambda>(st, features) (i, d).
            let st = remove_endpoint e st i d
            in (st, if routes_contains_key e (peers st) i then features else clear_quotas features i))
          (st, features) stale)"

text \<open>A signaling stream is served only while the connection is the registered one of a fully authorised peer.\<close>

definition stream_full_access :: "b64 \<Rightarrow> RelayState \<Rightarrow> string \<Rightarrow> DeviceId option \<Rightarrow> conn \<Rightarrow> bool" where
  "stream_full_access e st peer device conn \<longleftrightarrow>
     peer \<in> set (allowed st) \<and>
     (case get_endpoint e (peers st) peer device of Some p \<Rightarrow> connection p = conn | None \<Rightarrow> False)"

subsection \<open>Forwarding\<close>

definition relay_datagram_feature :: "bytes \<Rightarrow> string \<times> nat" where
  "relay_datagram_feature payload =
     (case payload of
        [] \<Rightarrow> (''game.relay.v1'', 0)
      | b # _ \<Rightarrow>
          (case feature_for_fixed_tag b of
             Some fid \<Rightarrow> (fid, length payload)
           | None \<Rightarrow> (''game.relay.v1'', length payload)))"

definition room_id_from_room_audio_payload :: "(string \<Rightarrow> json option) \<Rightarrow> bytes \<Rightarrow> string option" where
  "room_id_from_room_audio_payload from_str payload =
     (if length payload < 2 then None
      else case from_utf8 (drop 1 payload) of
             None \<Rightarrow> None
           | Some s \<Rightarrow>
               (case from_str s of
                  None \<Rightarrow> None
                | Some v \<Rightarrow>
                    (case json_get v ''payload'' of
                       None \<Rightarrow> None
                     | Some p \<Rightarrow>
                         (case json_get p ''room_id'' of
                            None \<Rightarrow> None
                          | Some r \<Rightarrow>
                              (case json_as_str r of
                                 None \<Rightarrow> None
                               | Some s \<Rightarrow> if s = [] then None else Some s)))))"

text \<open>What the operations need of the outside: the clock of the quotas and the outcome of a send.\<close>

record relay_env =
  engines :: b64
  clock :: real
  sends :: "conn \<Rightarrow> bytes \<Rightarrow> bool"
  parse_json :: "string \<Rightarrow> json option"
  has_audio_bridge :: bool
  has_game_bridge :: bool
  has_video_bridge :: bool

definition try_forward_datagram ::
  "relay_env \<Rightarrow> 'm FeatureRegistry \<Rightarrow> string \<Rightarrow> string \<Rightarrow> bytes \<Rightarrow> RelayPeer \<Rightarrow> bool \<times> 'm FeatureRegistry" where
  "try_forward_datagram env features feature_id recipient fwd member =
     (let (ok, features) = gate_through_feature (clock env) features feature_id recipient (length fwd)
      in if \<not> ok then (False, features) else (sends env (connection member) fwd, features))"

text \<open>The forwarding loop over a list of recipients: the connections reached, and the registry with its buckets charged.\<close>

fun forward_to ::
  "relay_env \<Rightarrow> string \<Rightarrow> bytes \<Rightarrow> (string \<times> DeviceId option \<times> RelayPeer) list \<Rightarrow> 'm FeatureRegistry \<Rightarrow>
     conn list \<times> 'm FeatureRegistry" where
  "forward_to env feature_id fwd [] features = ([], features)"
| "forward_to env feature_id fwd ((m, d, p) # rs) features =
     (let (sent, features) = try_forward_datagram env features feature_id m fwd p;
          (cs, features) = forward_to env feature_id fwd rs features
      in (if sent then connection p # cs else cs, features))"

definition send_feature_datagram ::
  "relay_env \<Rightarrow> (conn \<Rightarrow> bool) \<Rightarrow> RelayState \<Rightarrow> 'm FeatureRegistry \<Rightarrow> string \<Rightarrow> string \<Rightarrow> bytes \<Rightarrow>
     bool option \<times> conn list \<times> 'm FeatureRegistry" where
  "send_feature_datagram env is_closed st features recipient feature_id fwd =
     (let recipient = bare recipient;
          live = filter (\<lambda>(_, p). \<not> is_closed (connection p)) (endpoints (engines env) (peers st) recipient);
          (cs, features) = forward_to env feature_id fwd (map (\<lambda>(d, p). (recipient, d, p)) live) features
      in (if live = [] then None else Some (cs \<noteq> []), cs, features))"

definition send_room_datagram ::
  "relay_env \<Rightarrow> (conn \<Rightarrow> bool) \<Rightarrow> RelayState \<Rightarrow> 'm FeatureRegistry \<Rightarrow> string \<Rightarrow> bytes \<Rightarrow>
     bool option \<times> conn list \<times> 'm FeatureRegistry" where
  "send_room_datagram env is_closed st features recipient fwd =
     send_feature_datagram env is_closed st features recipient ''room.audio.sfu'' fwd"

definition forward_replicated_room_video ::
  "relay_env \<Rightarrow> RelayState \<Rightarrow> 'm FeatureRegistry \<Rightarrow> string \<Rightarrow> string \<Rightarrow> bytes \<Rightarrow> relay_out list \<times> 'm FeatureRegistry" where
  "forward_replicated_room_video env st features room sender payload =
     (if payload = [] \<or> room = [] then ([], features)
      else
        let fwd = build_forwarded_datagram BROADCAST_INDEX payload
        in case hm_get (relay_rooms st) room of
             None \<Rightarrow> ([], features)
           | Some members \<Rightarrow>
               let rs = filter (\<lambda>(m, d, p). bare m \<noteq> bare sender \<and> in_room room p \<and> wants_video st m sender)
                          (room_endpoints (engines env) st members);
                   (cs, features) = forward_to env ''room.video.sfu'' fwd rs features
               in (map (\<lambda>c. SendDatagram c fwd) cs, features))"

definition add_relayed :: "b64 \<Rightarrow> RelayState \<Rightarrow> string \<Rightarrow> DeviceId option \<Rightarrow> nat \<Rightarrow> RelayState" where
  "add_relayed e st from_peer from_device relayed =
     (if relayed > 0
      then st\<lparr>total_bytes_relayed := total_bytes_relayed st + word_of_nat relayed,
              peers := get_endpoint_mut e (peers st) from_peer from_device
                         (\<lambda>p. p\<lparr>bytes_relayed := bytes_relayed p + word_of_nat relayed\<rparr>)\<rparr>
      else st)"

text \<open>The room-audio branch: heal a missing room from the payload, then hand the frame to the bridge.\<close>

definition room_audio_handoff ::
  "relay_env \<Rightarrow> RelayState \<Rightarrow> string \<Rightarrow> DeviceId option \<Rightarrow> RelayPeer \<Rightarrow> bytes \<Rightarrow> relay_out list \<times> RelayState" where
  "room_audio_handoff env st from_peer from_device from_p payload =
     (let payload_room = room_id_from_room_audio_payload (parse_json env) payload;
          room = (case payload_room of Some r \<Rightarrow> Some r | None \<Rightarrow> peer_room_id from_p);
          st = (case (peer_room_id from_p, payload_room) of
                  (None, Some rid) \<Rightarrow>
                    st\<lparr>peers := get_endpoint_mut (engines env) (peers st) from_peer from_device
                                  (\<lambda>p. p\<lparr>peer_room_id := Some rid\<rparr>),
                       relay_rooms := add_member rid from_peer (relay_rooms st)\<rparr>
                | _ \<Rightarrow> st)
      in (case room of
            Some r \<Rightarrow> [RoomAudioBridge from_peer (peer_index from_p) r payload]
          | None \<Rightarrow> [], st))"

text \<open>The recipients of a broadcast in the sender's room, and of a game-session broadcast.\<close>

definition room_recipients ::
  "b64 \<Rightarrow> RelayState \<Rightarrow> string \<Rightarrow> string \<Rightarrow> DeviceId option \<Rightarrow> RelayPeer \<Rightarrow> (string \<times> DeviceId option \<times> RelayPeer) list" where
  "room_recipients e st feature_id from_peer from_device from_p =
     (case peer_room_id from_p of
        None \<Rightarrow> []
      | Some room \<Rightarrow>
          filter (\<lambda>(m, d, p). \<not> ((m = from_peer \<and> d = from_device) \<or> \<not> in_room room p) \<and>
                    \<not> (feature_id = ''room.video.sfu'' \<and> \<not> wants_video st m from_peer))
            (room_endpoints e st (members_of (relay_rooms st) room)))"

definition game_recipients ::
  "b64 \<Rightarrow> RelayState \<Rightarrow> string list \<Rightarrow> string \<Rightarrow> DeviceId option \<Rightarrow> (string \<times> DeviceId option \<times> RelayPeer) list" where
  "game_recipients e st members from_peer from_device =
     filter (\<lambda>(m, d, p). \<not> (m = from_peer \<and> d = from_device)) (room_endpoints e st members)"

definition direct_recipient ::
  "b64 \<Rightarrow> RelayState \<Rightarrow> u8 \<Rightarrow> RelayPeer \<Rightarrow> (string \<times> DeviceId option \<times> RelayPeer) list" where
  "direct_recipient e st target_idx from_p =
     (case hm_get (index_to_peer st) target_idx of
        None \<Rightarrow> []
      | Some (tp, td) \<Rightarrow>
          (case get_endpoint e (peers st) tp td of
             None \<Rightarrow> []
           | Some target \<Rightarrow>
               (case (peer_room_id from_p, peer_room_id target) of
                  (Some a, Some b) \<Rightarrow> if a = b then [(tp, td, target)] else []
                | _ \<Rightarrow> [])))"

definition handle_datagram ::
  "relay_env \<Rightarrow> RelayState \<Rightarrow> 'm FeatureRegistry \<Rightarrow> string \<Rightarrow> DeviceId option \<times> conn \<Rightarrow> bytes \<Rightarrow>
     relay_out list \<times> RelayState \<times> 'm FeatureRegistry" where
  "handle_datagram env st features from_peer endpoint data =
     (let (from_device, connection_id) = endpoint
      in case parse_datagram data of
           None \<Rightarrow> ([], st, features)
         | Some (target_idx, payload) \<Rightarrow>
             let (feature_id, quota_bytes) = relay_datagram_feature payload;
                 (ok, features) = (if quota_bytes > 0
                    then gate_inbound_through_feature (clock env) features feature_id from_peer quota_bytes
                    else (True, features))
             in if \<not> ok then ([], st, features)
                else case get_endpoint (engines env) (peers st) from_peer from_device of
                  None \<Rightarrow> ([], st, features)
                | Some from_p \<Rightarrow>
                    if connection from_p \<noteq> connection_id then ([], st, features)
                    else if target_idx = BROADCAST_INDEX \<and> feature_id = ''room.audio.sfu'' \<and> has_audio_bridge env
                    then let (outs, st) = room_audio_handoff env st from_peer from_device from_p payload
                         in (outs, st, features)
                    else
                      let fwd = build_forwarded_datagram (peer_index from_p) payload;
                          game = (if target_idx = BROADCAST_INDEX \<and> feature_id = ''game.relay.v1''
                                  then case hm_get (peer_game_session st) from_peer of
                                         None \<Rightarrow> None
                                       | Some s \<Rightarrow> map_option (Pair s) (hm_get (game_sessions st) s)
                                  else None)
                      in case game of
                           Some (session_id, members) \<Rightarrow>
                             let (cs, features) = forward_to env feature_id fwd
                                   (game_recipients (engines env) st members from_peer from_device) features
                             in (map (\<lambda>c. SendDatagram c fwd) cs @
                                   (if has_game_bridge env then [GameRelayBridge session_id from_peer payload] else []),
                                 add_relayed (engines env) st from_peer from_device (length cs * length fwd), features)
                         | None \<Rightarrow>
                             let rs = (if target_idx = BROADCAST_INDEX
                                       then room_recipients (engines env) st feature_id from_peer from_device from_p
                                       else direct_recipient (engines env) st target_idx from_p);
                                 (cs, features) = forward_to env feature_id fwd rs features;
                                 video = (if target_idx = BROADCAST_INDEX \<and> feature_id = ''room.video.sfu'' \<and>
                                             has_video_bridge env
                                          then case peer_room_id from_p of
                                                 Some room \<Rightarrow> [RoomVideoBridge room from_peer payload]
                                               | None \<Rightarrow> []
                                          else [])
                             in (map (\<lambda>c. SendDatagram c fwd) cs @ video,
                                 add_relayed (engines env) st from_peer from_device (length cs * length fwd), features))"

text \<open>The datagram loop of \<open>handle_connection\<close>: only a peer with full access is forwarded.\<close>

definition on_datagram ::
  "relay_env \<Rightarrow> RelayState \<Rightarrow> 'm FeatureRegistry \<Rightarrow> string \<Rightarrow> DeviceId option \<times> conn \<Rightarrow> bytes \<Rightarrow>
     relay_out list \<times> RelayState \<times> 'm FeatureRegistry" where
  "on_datagram env st features peer endpoint data =
     (if peer \<in> set (allowed st) then handle_datagram env st features peer endpoint data
      else ([], st, features))"

end
