(* ===== verification/Relay_Inv.thy ===== *)
theory Relay_Inv
  imports Relay
begin

section \<open>The relay's tables are consistent\<close>

text \<open>
  The index table and the routing table are two views of the same set of endpoints. The invariant
  \<open>index_ok\<close> says so, \<open>relay_inv\<close> adds the bounds on indices, and \<open>relay_step\<close> gathers the
  operations whose interleavings are quantified over.
\<close>

subsection \<open>The allocation loop\<close>

definition live_index :: "u8 \<Rightarrow> bool" where
  "live_index i \<longleftrightarrow> 1 \<le> i \<and> i \<le> 254"

definition nth_index :: "nat \<Rightarrow> nat \<Rightarrow> u8" where
  "nth_index s j = word_of_nat ((s + j) mod 254 + 1)"

lemma unat_nth_index: "unat (nth_index s j) = (s + j) mod 254 + 1"
proof -
  have "(s + j) mod 254 + 1 < 256"
    using mod_less_divisor [of 254 "s + j"] by linarith
  then show ?thesis unfolding nth_index_def by (simp only: unat_of_nat) simp
qed

lemma live_index_unat: "live_index i \<longleftrightarrow> 1 \<le> unat i \<and> unat i \<le> 254"
  by (simp add: live_index_def word_le_nat_alt)

lemma live_nth_index: "live_index (nth_index s j)"
proof -
  have "(s + j) mod 254 < 254" by simp
  then show ?thesis unfolding live_index_unat unat_nth_index by linarith
qed

lemma live_index_nth: "live_index i \<Longrightarrow> \<exists>s < 254. i = nth_index s 0"
  by (intro exI [of _ "unat i - 1"]) (auto simp: live_index_unat nth_index_def)

lemma index_succ_nth: "index_succ (nth_index s j) = nth_index s (Suc j)"
proof (cases "(s + j) mod 254 = 253")
  case True
  then have "(s + Suc j) mod 254 = 0" by (simp add: mod_Suc)
  with True have "nth_index s j = 254" "nth_index s (Suc j) = 1"
    by (simp_all add: nth_index_def)
  then show ?thesis by (simp add: index_succ_def)
next
  case False
  then have m: "(s + Suc j) mod 254 = Suc ((s + j) mod 254)" by (simp add: mod_Suc)
  have "nth_index s j \<noteq> 254"
  proof
    assume "nth_index s j = 254"
    then have "unat (nth_index s j) = 254" by simp
    with False show False by (simp add: unat_nth_index)
  qed
  then show ?thesis
    unfolding index_succ_def nth_index_def m by (simp add: ac_simps)
qed

lemma nth_index_eq_start:
  assumes "nth_index s j = nth_index s 0" "j \<le> 254" "0 < j"
  shows "j = 254"
proof (rule ccontr)
  assume "j \<noteq> 254"
  have "(s + j) mod 254 = s mod 254"
    using arg_cong [OF assms(1), of unat] unfolding unat_nth_index by simp
  then have "254 dvd j" by (metis add_diff_cancel_left' le_add1 mod_eq_dvd_iff_nat)
  then show False using \<open>j \<noteq> 254\<close> assms(2,3) by (auto dest: dvd_imp_le)
qed

lemma alloc_loop_total:
  "j < 254 \<Longrightarrow> 254 - j \<le> fuel \<Longrightarrow>
   \<exists>r n. alloc_loop fuel used (nth_index s 0) (nth_index s j) = Some (r, n) \<and> live_index n \<and>
     (case r of Some i \<Rightarrow> \<not> used i \<and> live_index i | None \<Rightarrow> (\<forall>i \<in> {j ..< 254}. used (nth_index s i)))"
proof (induction fuel arbitrary: j)
  case (Suc fuel)
  show ?case
  proof (cases "used (nth_index s j)")
    case False
    then show ?thesis by (simp add: live_nth_index index_succ_nth)
  next
    case used: True
    show ?thesis
    proof (cases "Suc j = 254")
      case True
      then have "nth_index s (Suc j) = nth_index s 0" by (simp add: nth_index_def)
      moreover have "{j ..< 254} = {j}" using True by auto
      ultimately show ?thesis using used True live_nth_index [of s 0] by (simp add: index_succ_nth)
    next
      case False
      then have "nth_index s (Suc j) \<noteq> nth_index s 0"
        using nth_index_eq_start [of s "Suc j"] Suc.prems by auto
      moreover have "{j ..< 254} = insert j {Suc j ..< 254}" using Suc.prems by auto
      moreover obtain r n where "alloc_loop fuel used (nth_index s 0) (nth_index s (Suc j)) = Some (r, n)" "live_index n"
        "case r of Some i \<Rightarrow> \<not> used i \<and> live_index i | None \<Rightarrow> (\<forall>i \<in> {Suc j ..< 254}. used (nth_index s i))"
      proof -
        have "Suc j < 254" "254 - Suc j \<le> fuel" using Suc.prems False by linarith+
        from Suc.IH [OF this] that show thesis by blast
      qed
      ultimately show ?thesis using used by (auto simp: index_succ_nth split: option.splits)
    qed
  qed
qed simp

lemma nth_index_surj:
  assumes "live_index i" "s < 254"
  shows "\<exists>j \<in> {0 ..< 254}. i = nth_index s j"
proof -
  obtain t where t: "t < 254" "i = nth_index t 0" using live_index_nth [OF assms(1)] by auto
  have "nth_index s ((t + 254 - s) mod 254) = nth_index t 0"
    using assms(2) t(1) by (simp add: nth_index_def mod_simps)
  then show ?thesis using t by (intro bexI [of _ "(t + 254 - s) mod 254"]) auto
qed

lemma allocate_index_spec:
  assumes "live_index (next_index st)"
  shows "\<exists>r n. allocate_index st = (r, st\<lparr>next_index := n\<rparr>) \<and> live_index n \<and>
    (case r of Some i \<Rightarrow> \<not> hm_contains (index_to_peer st) i \<and> live_index i
     | None \<Rightarrow> (\<forall>i. live_index i \<longrightarrow> hm_contains (index_to_peer st) i))"
proof -
  obtain s where s: "s < 254" "next_index st = nth_index s 0" using live_index_nth [OF assms] by auto
  obtain r n where r: "alloc_loop 255 (hm_contains (index_to_peer st)) (next_index st) (next_index st) = Some (r, n)"
    "live_index n" "case r of Some i \<Rightarrow> \<not> hm_contains (index_to_peer st) i \<and> live_index i
       | None \<Rightarrow> (\<forall>i \<in> {0 ..< 254}. hm_contains (index_to_peer st) (nth_index s i))"
    using alloc_loop_total [of 0 255 "hm_contains (index_to_peer st)" s] s by auto
  then show ?thesis
    using nth_index_surj [OF _ s(1)] by (fastforce simp: allocate_index_def split: option.splits)
qed

subsection \<open>Indices and endpoints\<close>

definition index_ok :: "b64 \<Rightarrow> (u8, string \<times> DeviceId option) hmap \<Rightarrow> RelayPeer DeviceRoutes \<Rightarrow> bool" where
  "index_ok e ix ps \<longleftrightarrow> hm_wf ix \<and> routes_inv ps \<and>
     (\<forall>i p d. hm_get ix i = Some (p, d) \<longrightarrow> live_index i \<and>
        (\<exists>peer. slot_at ps (identity_key e p) d = Some peer \<and> peer_index peer = i)) \<and>
     (\<forall>k d peer. slot_at ps k d = Some peer \<longrightarrow>
        (\<exists>p. identity_key e p = k \<and> hm_get ix (peer_index peer) = Some (p, d)))"

lemma index_ok_mut:
  assumes "index_ok e ix ps" "\<And>p. peer_index (f p) = peer_index p"
  shows "index_ok e ix (get_endpoint_mut e ps i d f)"
  using assms unfolding index_ok_def
  by (auto simp: slot_at_mut routes_inv_mut) (metis option.simps(9))+

lemma index_ok_remove:
  assumes ok: "index_ok e ix ps" and old: "slot_at ps (identity_key e p) d = Some old"
  shows "index_ok e (hm_remove (peer_index old) ix) (snd (remove_endpoint_if e ps p d (\<lambda>_. True)))"
proof -
  have inv: "routes_inv (snd (remove_endpoint_if e ps p d (\<lambda>_. True)))"
    using route_step_inv [of ps e "RemoveIfOp p d (\<lambda>_. True)"] ok by (simp add: index_ok_def)
  obtain q where q: "identity_key e q = identity_key e p" "hm_get ix (peer_index old) = Some (q, d)"
    using ok old unfolding index_ok_def by blast
  have one: "identity_key e p' = identity_key e p \<and> d' = d \<longrightarrow> i = peer_index old"
    if "hm_get ix i = Some (p', d')" for i p' d'
    using ok old that unfolding index_ok_def by force
  have two: "peer_index peer \<noteq> peer_index old"
    if "slot_at ps k d' = Some peer" "k \<noteq> identity_key e p \<or> d' \<noteq> d" for k d' peer
    using ok q that unfolding index_ok_def by force
  show ?thesis
    using ok inv one two old unfolding index_ok_def
    by (auto simp: slot_at_remove_if hm_get_remove hm_wf_remove split: if_splits)
qed

lemma index_ok_add:
  assumes ok: "index_ok e ix ps" and new: "slot_at ps (identity_key e p) d = None"
    and idx: "live_index (peer_index peer)" "\<not> hm_contains ix (peer_index peer)"
    and ps': "routes_inv ps'" "\<And>k x. slot_at ps' k x = (if k = identity_key e p \<and> x = d then Some peer else slot_at ps k x)"
  shows "index_ok e (hm_insert (peer_index peer) (p, d) ix) ps'"
proof -
  have fresh: "hm_get ix (peer_index peer) = None" using idx(2) unfolding hm_contains_iff by blast
  have other: "peer_index q \<noteq> peer_index peer" if "slot_at ps k x = Some q" for k x q
    using ok that fresh unfolding index_ok_def by force
  have fwd: "live_index i \<and> (\<exists>q. slot_at ps' (identity_key e p') d' = Some q \<and> peer_index q = i)"
    if i: "hm_get (hm_insert (peer_index peer) (p, d) ix) i = Some (p', d')" for i p' d'
  proof (cases "i = peer_index peer")
    case True
    then show ?thesis using i idx(1) by (simp add: hm_get_insert ps'(2))
  next
    case False
    then have "hm_get ix i = Some (p', d')" using i by (simp add: hm_get_insert)
    then obtain q where "live_index i" "slot_at ps (identity_key e p') d' = Some q" "peer_index q = i"
      using ok unfolding index_ok_def by blast
    then show ?thesis using new by (auto simp: ps'(2))
  qed
  have bwd: "\<exists>p'. identity_key e p' = k \<and> hm_get (hm_insert (peer_index peer) (p, d) ix) (peer_index q) = Some (p', x)"
    if q: "slot_at ps' k x = Some q" for k x q
  proof (cases "k = identity_key e p \<and> x = d")
    case True
    then show ?thesis using q by (auto simp: ps'(2) hm_get_insert)
  next
    case False
    then have s: "slot_at ps k x = Some q" using q by (auto simp: ps'(2))
    then show ?thesis using other [OF s] ok unfolding index_ok_def by (auto simp: hm_get_insert)
  qed
  show ?thesis
    using ok fwd bwd ps'(1) unfolding index_ok_def by (simp add: hm_wf_insert)
qed

subsection \<open>What each operation leaves alone\<close>

lemma remove_assignment_simps [simp]:
  "peers (remove_assignment e st p d) = peers st"
  "index_to_peer (remove_assignment e st p d) = index_to_peer st"
  "next_index (remove_assignment e st p d) = next_index st"
  "game_sessions (remove_assignment e st p d) = game_sessions st"
  "peer_game_session (remove_assignment e st p d) = peer_game_session st"
  "relay_rooms (remove_assignment e st p d) = relay_rooms st"
  "allowed (remove_assignment e st p d) = allowed st"
  "portal_allowed (remove_assignment e st p d) = portal_allowed st"
  by (simp_all add: remove_assignment_def)

lemma foldl_keeps: "(\<And>s x. g (f s x) = g s) \<Longrightarrow> g (foldl f s xs) = g s"
  by (induction xs arbitrary: s) auto

lemma foldl_inv: "P s \<Longrightarrow> (\<And>s x. P s \<Longrightarrow> P (f s x)) \<Longrightarrow> P (foldl f s xs)"
  by (induction xs arbitrary: s) auto

lemma remove_identity_membership_simps [simp]:
  "peers (remove_identity_membership e st p) = peers st"
  "index_to_peer (remove_identity_membership e st p) = index_to_peer st"
  "next_index (remove_identity_membership e st p) = next_index st"
  "allowed (remove_identity_membership e st p) = allowed st"
  "portal_allowed (remove_identity_membership e st p) = portal_allowed st"
  by (auto simp: remove_identity_membership_def Let_def foldl_keeps [of peers] foldl_keeps [of index_to_peer]
      foldl_keeps [of next_index] foldl_keeps [of allowed] foldl_keeps [of portal_allowed] split: option.splits)

lemma remove_endpoint_simps [simp]:
  "next_index (remove_endpoint e st p d) = next_index st"
  "allowed (remove_endpoint e st p d) = allowed st"
  "portal_allowed (remove_endpoint e st p d) = portal_allowed st"
  by (auto simp: remove_endpoint_def Let_def split: option.splits)

lemma remove_endpoint_peers:
  "peers (remove_endpoint e st p d) = snd (remove_endpoint_if e (peers st) p d (\<lambda>_. True))"
  "index_to_peer (remove_endpoint e st p d) =
     (case get_endpoint e (peers st) p d of
        None \<Rightarrow> index_to_peer st | Some old \<Rightarrow> hm_remove (peer_index old) (index_to_peer st))"
  by (auto simp: remove_endpoint_def Let_def get_endpoint_def remove_endpoint_if_def split: option.splits)

lemma notify_only_outputs: "snd (relay_join_room_endpoint e st p d r) =
   (let p = bare p; (res, a) = assign_room e (room_assignments st) p d r;
        st1 = st\<lparr>room_assignments := a\<rparr>;
        old = prior_room e st p d
    in case res of
         Inl _ \<Rightarrow> st1
       | Inr _ \<Rightarrow>
           st1\<lparr>peers := get_endpoint_mut e (peers st) p d (\<lambda>x. x\<lparr>peer_room_id := Some r\<rparr>),
               relay_rooms := add_member r p
                 (case old of
                    None \<Rightarrow> relay_rooms st
                  | Some o' \<Rightarrow> if list_ex (\<lambda>(d', x). d' \<noteq> d \<and> in_room o' x) (endpoints e (peers st) p) then relay_rooms st
                              else drop_member o' p (relay_rooms st))\<rparr>)"
  by (auto simp: relay_join_room_endpoint_def prior_room_def Let_def split: prod.splits sum.splits option.splits)

subsection \<open>Steps\<close>

text \<open>
  One operation of the relay server. The environment of a datagram (clock, outcome of sends,
  bridges) may differ from step to step; the base64 engines are fixed.
\<close>

datatype relay_op =
    ConnectOp string "DeviceId option" conn string bool
  | DisconnectOp string "DeviceId option" conn
  | DatagramOp relay_env string "DeviceId option" conn bytes
  | CleanupOp "conn \<Rightarrow> bool"
  | AllowOp string
  | AllowUpdateOp string
  | AllowPortalOp string
  | RevokeOp string
  | JoinRoomOp string "DeviceId option" string
  | LeaveRoomOp string "DeviceId option"
  | JoinGameOp string string
  | LeaveGameOp string
  | VideoSubsOp string "string list"

fun relay_step :: "b64 \<Rightarrow> RelayState \<times> 'm FeatureRegistry \<Rightarrow> relay_op \<Rightarrow> RelayState \<times> 'm FeatureRegistry" where
  "relay_step e (st, g) (ConnectOp p d c a ok) = (snd (snd (accept_connection e st p d c a ok)), g)"
| "relay_step e (st, g) (DisconnectOp p d c) = snd (disconnect e st g p d c)"
| "relay_step e (st, g) (DatagramOp env p d c data) = snd (on_datagram (env\<lparr>engines := e\<rparr>) st g p (d, c) data)"
| "relay_step e (st, g) (CleanupOp cl) = cleanup_stale_peers e cl st g"
| "relay_step e (st, g) (AllowOp p) = (allow_peer st p, g)"
| "relay_step e (st, g) (AllowUpdateOp p) = (allow_peer_update st p, g)"
| "relay_step e (st, g) (AllowPortalOp p) = (allow_portal_peer st p, g)"
| "relay_step e (st, g) (RevokeOp p) = snd (revoke_peer e st g p)"
| "relay_step e (st, g) (JoinRoomOp p d r) = (snd (relay_join_room_endpoint e st p d r), g)"
| "relay_step e (st, g) (LeaveRoomOp p d) = (relay_leave_room_endpoint e st p d, g)"
| "relay_step e (st, g) (JoinGameOp p s) = (join_game_session st p s, g)"
| "relay_step e (st, g) (LeaveGameOp p) = (leave_game_session st p, g)"
| "relay_step e (st, g) (VideoSubsOp p ss) = (set_video_subscriptions st p ss, g)"

definition relay_inv :: "b64 \<Rightarrow> RelayState \<Rightarrow> bool" where
  "relay_inv e st \<longleftrightarrow> index_ok e (index_to_peer st) (peers st) \<and> live_index (next_index st)"

lemma relay_inv_cong:
  "relay_inv e st \<Longrightarrow> peers st' = peers st \<Longrightarrow> index_to_peer st' = index_to_peer st \<Longrightarrow>
   next_index st' = next_index st \<Longrightarrow> relay_inv e st'"
  by (simp add: relay_inv_def)

lemma relay_inv_mut:
  "relay_inv e st \<Longrightarrow> (\<And>p. peer_index (f p) = peer_index p) \<Longrightarrow>
   peers st' = get_endpoint_mut e (peers st) i d f \<Longrightarrow> index_to_peer st' = index_to_peer st \<Longrightarrow>
   next_index st' = next_index st \<Longrightarrow> relay_inv e st'"
  by (simp add: relay_inv_def index_ok_mut)

lemma relay_inv_remove_endpoint:
  assumes "relay_inv e st"
  shows "relay_inv e (remove_endpoint e st p d)"
proof (cases "get_endpoint e (peers st) p d")
  case None
  then have "snd (remove_endpoint_if e (peers st) p d (\<lambda>_. True)) = peers st"
    by (auto simp: remove_endpoint_if_def get_endpoint_def Let_def split: option.splits)
  with None assms show ?thesis by (simp add: relay_inv_def remove_endpoint_peers)
next
  case (Some old)
  with assms index_ok_remove [of e "index_to_peer st" "peers st" p d old] show ?thesis
    by (simp add: relay_inv_def remove_endpoint_peers get_endpoint_slot)
qed

lemma relay_inv_remove_peer: "relay_inv e st \<Longrightarrow> relay_inv e (remove_peer e st p)"
  unfolding remove_peer_def Let_def
  by (rule relay_inv_cong [OF foldl_inv [where P = "relay_inv e"]]) (auto intro: relay_inv_remove_endpoint)

lemma device_count_endpoints:
  "length (filter (\<lambda>(d, _). d \<noteq> None) (endpoints e r i)) =
   length (filter (\<lambda>d. d \<noteq> None) (hm_keys (slots r (identity_key e i))))"
  by (simp add: endpoints_def hm_keys_def filter_map o_def case_prod_unfold)

lemma register_device_ok:
  assumes "get_endpoint e r i (Some d) \<noteq> None \<or>
    length (filter (\<lambda>(d, _). d \<noteq> None) (endpoints e r i)) < MAX_LIVE_DEVICE_ROUTES"
  shows "\<not> isl (fst (register_device e r i d v))"
  using assms unfolding device_count_endpoints
  by (auto simp: register_device_def Let_def get_endpoint_slot slot_at_def hm_contains_iff)

lemma slots_remove_if:
  "slots (snd (remove_endpoint_if e r i d f)) (identity_key e i) =
     (if fst (remove_endpoint_if e r i d f) then hm_remove d (slots r (identity_key e i)) else slots r (identity_key e i))"
  by (auto simp: remove_endpoint_if_def slots_def Let_def coll_simps split: option.splits)

lemma hm_keys_remove: "hm_keys (hm_remove d m) = filter (\<lambda>x. x \<noteq> d) (hm_keys m)"
  by (simp add: hm_keys_def hm_remove_def filter_map o_def)

lemma devices_after_remove:
  assumes inv: "routes_inv r" and at: "slot_at r (identity_key e i) (Some d) = Some v"
  shows "length (filter (\<lambda>(d, _). d \<noteq> None) (endpoints e (snd (remove_endpoint_if e r i (Some d) (\<lambda>_. True))) i)) < MAX_LIVE_DEVICE_ROUTES"
proof -
  let ?ks = "hm_keys (slots r (identity_key e i))"
  have "Some d \<in> set ?ks" using at by (force simp: slot_at_def hm_get_def dest: map_of_SomeD)
  then have "length (filter (\<lambda>x. x \<noteq> Some d) (filter (\<lambda>x. x \<noteq> None) ?ks)) < length (filter (\<lambda>x. x \<noteq> None) ?ks)"
    by (intro length_filter_less [of "Some d"]) auto
  also have "\<dots> \<le> MAX_LIVE_DEVICE_ROUTES"
    using slots_inv_or_empty [OF inv, of "identity_key e i"] by (auto simp: slots_inv_def hm_keys_def)
  finally show ?thesis
    unfolding device_count_endpoints
    using at by (simp add: slots_remove_if fst_remove_endpoint_if hm_keys_remove conj_commute)
qed

lemma drop_replaced_inv:
  assumes "relay_inv e st"
  shows "relay_inv e (snd (drop_replaced e st p d))"
    and "slot_at (peers (snd (drop_replaced e st p d))) (identity_key e p) d = None"
    and "next_index (snd (drop_replaced e st p d)) = next_index st"
proof -
  consider "get_endpoint e (peers st) p d = None" | old where "get_endpoint e (peers st) p d = Some old" by fastforce
  then have "relay_inv e (snd (drop_replaced e st p d)) \<and>
      slot_at (peers (snd (drop_replaced e st p d))) (identity_key e p) d = None \<and>
      next_index (snd (drop_replaced e st p d)) = next_index st"
  proof cases
    case 1
    then show ?thesis using assms by (simp add: drop_replaced_def get_endpoint_slot)
  next
    case (2 old)
    then have "index_ok e (hm_remove (peer_index old) (index_to_peer st))
        (snd (remove_endpoint_if e (peers st) p d (\<lambda>_. True)))"
      using assms by (intro index_ok_remove) (simp_all add: relay_inv_def get_endpoint_slot)
    then show ?thesis
      using 2 assms by (auto simp: drop_replaced_def relay_inv_def get_endpoint_slot slot_at_remove_if Let_def split: option.splits)
  qed
  then show "relay_inv e (snd (drop_replaced e st p d))"
    and "slot_at (peers (snd (drop_replaced e st p d))) (identity_key e p) d = None"
    and "next_index (snd (drop_replaced e st p d)) = next_index st" by auto
qed

lemma drop_replaced_room:
  assumes inv: "relay_inv e st"
    and room: "\<not> (get_endpoint e (peers st) p d = None \<and>
         (routes_len (peers st) \<ge> MAX_PEERS \<or>
          (d \<noteq> None \<and>
           length (filter (\<lambda>(d, _). d \<noteq> None) (endpoints e (peers st) p)) \<ge> MAX_LIVE_DEVICE_ROUTES)))"
    and d: "d = Some x"
  shows "length (filter (\<lambda>(d, _). d \<noteq> None) (endpoints e (peers (snd (drop_replaced e st p d))) p)) < MAX_LIVE_DEVICE_ROUTES"
proof (cases "get_endpoint e (peers st) p d")
  case None
  then show ?thesis using room d by (auto simp: drop_replaced_def)
next
  case (Some old)
  then have "peers (snd (drop_replaced e st p d)) = snd (remove_endpoint_if e (peers st) p d (\<lambda>_. True))"
    by (simp add: drop_replaced_def Let_def split: option.splits)
  then show ?thesis
    using devices_after_remove [of "peers st" e p x old] inv Some d
    by (simp add: relay_inv_def index_ok_def get_endpoint_slot)
qed

lemma register_connection_inv:
  assumes inv: "relay_inv e st"
  shows "relay_inv e (snd (snd (register_connection e st p d c a)))"
    and "fst (register_connection e st p d c a) \<noteq> DeviceLimit"
proof -
  let ?full = "get_endpoint e (peers st) p d = None \<and>
         (routes_len (peers st) \<ge> MAX_PEERS \<or>
          (d \<noteq> None \<and>
           length (filter (\<lambda>(d, _). d \<noteq> None) (endpoints e (peers st) p)) \<ge> MAX_LIVE_DEVICE_ROUTES))"
  obtain outs st1 where dr: "drop_replaced e st p d = (outs, st1)" by fastforce
  have st1: "relay_inv e st1" "slot_at (peers st1) (identity_key e p) d = None"
    using drop_replaced_inv [OF inv, of p d] dr by simp_all
  obtain r n where al: "allocate_index st1 = (r, st1\<lparr>next_index := n\<rparr>)" "live_index n"
    "case r of Some i \<Rightarrow> \<not> hm_contains (index_to_peer st1) i \<and> live_index i
     | None \<Rightarrow> (\<forall>i. live_index i \<longrightarrow> hm_contains (index_to_peer st1) i)"
    using allocate_index_spec [of st1] st1 by (auto simp: relay_inv_def)
  have "relay_inv e (snd (snd (register_connection e st p d c a))) \<and> fst (register_connection e st p d c a) \<noteq> DeviceLimit"
  proof (cases "?full \<or> r = None")
    case True
    then show ?thesis using inv dr al st1 by (auto simp: register_connection_def relay_inv_def Let_def)
  next
    case False
    then obtain i where r: "r = Some i" by auto
    then have i: "\<not> hm_contains (index_to_peer st1) i" "live_index i" using al by simp_all
    define peer where "peer = \<lparr>peer_index = i, connection = c,
      peer_room_id = existing_room e (st1\<lparr>next_index := n\<rparr>) (prior_room e st p d) p d, bytes_relayed = 0, remote_addr = a\<rparr>"
    have add: "index_ok e (hm_insert i (p, d) (index_to_peer st1)) ps'"
      if "routes_inv ps'" "\<And>k x. slot_at ps' k x = (if k = identity_key e p \<and> x = d then Some peer else slot_at (peers st1) k x)" for ps'
      using index_ok_add [of e "index_to_peer st1" "peers st1" p d peer, OF _ st1(2) _ _ that] st1(1) i
      by (simp add: relay_inv_def peer_def)
    have ri: "routes_inv (peers st1)" using st1(1) by (simp add: relay_inv_def index_ok_def)
    show ?thesis
    proof (cases d)
      case None
      have "routes_inv (snd (routes_insert e (peers st1) p peer))"
        using route_step_inv [OF ri, of e "InsertOp p peer"] by simp
      from add [OF this] have "index_ok e (hm_insert i (p, d) (index_to_peer st1)) (snd (routes_insert e (peers st1) p peer))"
        by (simp add: slot_at_insert None)
      then show ?thesis using False dr al r None by (auto simp: register_connection_def relay_inv_def Let_def peer_def)
    next
      case (Some x)
      have "\<not> isl (fst (register_device e (peers st1) p x peer))"
      proof (rule register_device_ok)
        have "\<not> ?full" using False by blast
        from drop_replaced_room [OF inv this Some]
        show "get_endpoint e (peers st1) p (Some x) \<noteq> None \<or>
            length (filter (\<lambda>(d, _). d \<noteq> None) (endpoints e (peers st1) p)) < MAX_LIVE_DEVICE_ROUTES"
          unfolding dr by simp
      qed
      then obtain y ps' where reg: "register_device e (peers st1) p x peer = (Inr y, ps')"
        by (cases "register_device e (peers st1) p x peer") (auto simp: isl_def, metis sum.exhaust)
      have "routes_inv ps'"
        using route_step_inv [OF ri, of e "RegisterOp p x peer"] reg by simp
      from add [OF this] have "index_ok e (hm_insert i (p, d) (index_to_peer st1)) ps'"
        using slot_at_register [of e "peers st1" p x peer] reg by (simp add: Some)
      then show ?thesis using False dr al r Some reg by (auto simp: register_connection_def relay_inv_def Let_def peer_def)
    qed
  qed
  then show "relay_inv e (snd (snd (register_connection e st p d c a)))"
    and "fst (register_connection e st p d c a) \<noteq> DeviceLimit" by auto
qed

lemma accept_connection_state:
  "snd (snd (accept_connection e st p d c a ok)) \<in> {st, snd (snd (register_connection e st p d c a))}"
  by (auto simp: accept_connection_def Let_def split: connect_result.splits prod.splits)

lemma relay_inv_cleanup:
  assumes "relay_inv e st"
  shows "relay_inv e (fst (cleanup_stale_peers e cl st g))"
  unfolding cleanup_stale_peers_def Let_def
  by (rule foldl_inv [where P = "\<lambda>s. relay_inv e (fst s)"])
    (auto simp: assms relay_inv_remove_endpoint split: prod.splits)

lemma relay_inv_add_relayed: "relay_inv e st \<Longrightarrow> relay_inv e (add_relayed e st p d n)"
  unfolding add_relayed_def
  by (auto intro: relay_inv_mut [of e st "\<lambda>x. x\<lparr>bytes_relayed := bytes_relayed x + word_of_nat n\<rparr>" _ p d])

lemma relay_inv_handoff:
  "relay_inv (engines env) st \<Longrightarrow> relay_inv (engines env) (snd (room_audio_handoff env st p d x payload))"
  by (auto simp: room_audio_handoff_def Let_def split: option.splits
      intro!: relay_inv_mut [of "engines env" st "\<lambda>p. p\<lparr>peer_room_id := Some r\<rparr>" for r])

text \<open>
  The ways a datagram can end: dropped, handed to the audio bridge, or forwarded to the endpoints
  of a game session, of the sender's room, or to one endpoint.
\<close>

inductive datagram_outcome ::
  "relay_env \<Rightarrow> RelayState \<Rightarrow> string \<Rightarrow> DeviceId option \<Rightarrow> conn \<Rightarrow> bytes \<Rightarrow> relay_out list \<Rightarrow> RelayState \<Rightarrow> bool"
  for env st p d c data where
  dropped: "datagram_outcome env st p d c data [] st"
| handoff: "\<lbrakk>parse_datagram data = Some (BROADCAST_INDEX, payload);
     get_endpoint (engines env) (peers st) p d = Some from_p; connection from_p = c\<rbrakk>
   \<Longrightarrow> datagram_outcome env st p d c data (fst (room_audio_handoff env st p d from_p payload))
        (snd (room_audio_handoff env st p d from_p payload))"
| game: "\<lbrakk>parse_datagram data = Some (BROADCAST_INDEX, payload);
     get_endpoint (engines env) (peers st) p d = Some from_p; connection from_p = c;
     hm_get (peer_game_session st) p = Some s; hm_get (game_sessions st) s = Some members;
     set cs \<subseteq> (\<lambda>(_, _, q). connection q) ` set (game_recipients (engines env) st members p d);
     set extra \<subseteq> {GameRelayBridge s p payload}\<rbrakk>
   \<Longrightarrow> datagram_outcome env st p d c data
        (map (\<lambda>x. SendDatagram x (peer_index from_p # payload)) cs @ extra) (add_relayed (engines env) st p d n)"
| room: "\<lbrakk>parse_datagram data = Some (BROADCAST_INDEX, payload);
     get_endpoint (engines env) (peers st) p d = Some from_p; connection from_p = c;
     set cs \<subseteq> (\<lambda>(_, _, q). connection q) `
       set (room_recipients (engines env) st (fst (relay_datagram_feature payload)) p d from_p);
     set extra \<subseteq> (case peer_room_id from_p of Some r \<Rightarrow> {RoomVideoBridge r p payload} | None \<Rightarrow> {})\<rbrakk>
   \<Longrightarrow> datagram_outcome env st p d c data
        (map (\<lambda>x. SendDatagram x (peer_index from_p # payload)) cs @ extra) (add_relayed (engines env) st p d n)"
| direct: "\<lbrakk>parse_datagram data = Some (t, payload); t \<noteq> BROADCAST_INDEX;
     get_endpoint (engines env) (peers st) p d = Some from_p; connection from_p = c;
     set cs \<subseteq> (\<lambda>(_, _, q). connection q) ` set (direct_recipient (engines env) st t from_p)\<rbrakk>
   \<Longrightarrow> datagram_outcome env st p d c data
        (map (\<lambda>x. SendDatagram x (peer_index from_p # payload)) cs) (add_relayed (engines env) st p d n)"

lemma forward_to_reached:
  "set (fst (forward_to env f fwd rs g)) \<subseteq> (\<lambda>(_, _, q). connection q) ` set rs"
proof (induction rs arbitrary: g)
  case (Cons r rs)
  obtain m d p where r: "r = (m, d, p)" by (cases r)
  show ?case using Cons [of "snd (try_forward_datagram env g f m fwd p)"] by (auto simp: r case_prod_beta Let_def)
qed simp

lemma handle_datagram_outcome:
  "datagram_outcome env st p d c data (fst (handle_datagram env st g p (d, c) data))
     (fst (snd (handle_datagram env st g p (d, c) data)))"
proof (cases "parse_datagram data")
  case None
  then show ?thesis by (simp add: handle_datagram_def dropped)
next
  case (Some tp)
  obtain t payload where tp: "tp = (t, payload)" by (cases tp)
  let ?f = "fst (relay_datagram_feature payload)" and ?n = "snd (relay_datagram_feature payload)"
  define gate where "gate = (if ?n > 0 then gate_inbound_through_feature (clock env) g ?f p ?n else (True, g))"
  show ?thesis
  proof (cases "fst gate \<and> (\<exists>q. get_endpoint (engines env) (peers st) p d = Some q \<and> connection q = c)")
    case False
    then show ?thesis
      using Some tp by (auto simp: handle_datagram_def gate_def case_prod_beta Let_def dropped split: option.splits)
  next
    case True
    then obtain q where q: "get_endpoint (engines env) (peers st) p d = Some q" "connection q = c" and ok: "fst gate" by auto
    let ?fwd = "peer_index q # payload"
    define gm where "gm = (if t = BROADCAST_INDEX \<and> ?f = ''game.relay.v1''
        then case hm_get (peer_game_session st) p of None \<Rightarrow> None
             | Some s \<Rightarrow> map_option (Pair s) (hm_get (game_sessions st) s) else None)"
    define aud where "aud \<longleftrightarrow> t = BROADCAST_INDEX \<and> ?f = ''room.audio.sfu'' \<and> has_audio_bridge env"
    note h = handle_datagram_def case_prod_beta Let_def Some tp q ok
      gate_def [symmetric] gm_def [symmetric] aud_def [symmetric] build_forwarded_datagram_def
    consider (audio) "aud"
      | (game) s ms where "gm = Some (s, ms)" "\<not> aud"
      | (none) "gm = None" "\<not> aud"
      by (cases gm) auto
    then show ?thesis
    proof cases
      case audio
      have "handle_datagram env st g p (d, c) data =
          (let (outs, st) = room_audio_handoff env st p d q payload in (outs, st, snd gate))"
        using audio by (simp add: h)
      then show ?thesis using handoff [of data payload env st p d q c] audio q Some tp by (simp add: aud_def case_prod_beta Let_def)
    next
      case (game s ms)
      then have g: "t = BROADCAST_INDEX" "hm_get (peer_game_session st) p = Some s" "hm_get (game_sessions st) s = Some ms"
        by (auto simp: gm_def split: if_splits option.splits)
      define rs where "rs = forward_to env ?f ?fwd (game_recipients (engines env) st ms p d) (snd gate)"
      have e: "handle_datagram env st g p (d, c) data =
          (map (\<lambda>c. SendDatagram c ?fwd) (fst rs) @ (if has_game_bridge env then [GameRelayBridge s p payload] else []),
           add_relayed (engines env) st p d (length (fst rs) * length ?fwd), snd rs)"
        using game by (simp add: h rs_def)
      have reach: "set (fst rs) \<subseteq> (\<lambda>(_, _, q). connection q) ` set (game_recipients (engines env) st ms p d)"
        unfolding rs_def by (rule forward_to_reached)
      show ?thesis unfolding e fst_conv snd_conv
        by (rule datagram_outcome.game [OF _ q g(2,3) reach]) (auto simp: Some tp g(1))
    next
      case none
      define rcp where "rcp = (if t = BROADCAST_INDEX then room_recipients (engines env) st ?f p d q
          else direct_recipient (engines env) st t q)"
      define rs where "rs = forward_to env ?f ?fwd rcp (snd gate)"
      define vid where "vid = (if t = BROADCAST_INDEX \<and> ?f = ''room.video.sfu'' \<and> has_video_bridge env
          then case peer_room_id q of Some room \<Rightarrow> [RoomVideoBridge room p payload] | None \<Rightarrow> [] else [])"
      have e: "handle_datagram env st g p (d, c) data =
          (map (\<lambda>c. SendDatagram c ?fwd) (fst rs) @ vid,
           add_relayed (engines env) st p d (length (fst rs) * length ?fwd), snd rs)"
        using none by (simp add: h rs_def rcp_def vid_def)
      have reach: "set (fst rs) \<subseteq> (\<lambda>(_, _, q). connection q) ` set rcp"
        unfolding rs_def by (rule forward_to_reached)
      show ?thesis
      proof (cases "t = BROADCAST_INDEX")
        case True
        then have "set (fst rs) \<subseteq> (\<lambda>(_, _, q). connection q) ` set (room_recipients (engines env) st ?f p d q)"
          using reach by (simp add: rcp_def)
        moreover have "vid = [] \<or> (\<exists>r. peer_room_id q = Some r \<and> vid = [RoomVideoBridge r p payload])"
          by (auto simp: vid_def split: option.splits)
        then have "set vid \<subseteq> (case peer_room_id q of Some r \<Rightarrow> {RoomVideoBridge r p payload} | None \<Rightarrow> {})"
          by auto
        ultimately show ?thesis
          unfolding e fst_conv snd_conv using True by - (rule room [OF _ q], simp_all add: Some tp)
      next
        case False
        then have "set (fst rs) \<subseteq> (\<lambda>(_, _, q). connection q) ` set (direct_recipient (engines env) st t q)" "vid = []"
          using reach by (simp_all add: rcp_def vid_def)
        then show ?thesis
          unfolding e fst_conv snd_conv using direct [OF _ False q, of data payload "fst rs"] Some tp by simp
      qed
    qed
  qed
qed

lemma relay_inv_handle_datagram:
  "relay_inv (engines env) st \<Longrightarrow> relay_inv (engines env) (fst (snd (handle_datagram env st g p (d, c) data)))"
  using handle_datagram_outcome [of env st p d c data g]
  by cases (auto simp: relay_inv_handoff relay_inv_add_relayed)

lemma relay_join_parts:
  "relay_inv e st \<Longrightarrow> relay_inv e (snd (relay_join_room_endpoint e st p d r))"
  unfolding notify_only_outputs
  by (auto simp: Let_def case_prod_beta split: sum.splits
      intro: relay_inv_cong [of e st] relay_inv_mut [of e st "\<lambda>x. x\<lparr>peer_room_id := Some r\<rparr>" _ "bare p" d])

lemma relay_inv_leave: "relay_inv e st \<Longrightarrow> relay_inv e (relay_leave_room_endpoint e st p d)"
  by (rule relay_inv_mut [of e st "\<lambda>x. x\<lparr>peer_room_id := None\<rparr>" _ "bare p" d])
    (auto simp: relay_leave_room_endpoint_def Let_def split: option.splits)

lemma relay_inv_games:
  "relay_inv e st \<Longrightarrow> relay_inv e (join_game_session st p s)"
  "relay_inv e st \<Longrightarrow> relay_inv e (leave_game_session st p)"
  by (auto simp: join_game_session_def leave_game_session_def Let_def relay_inv_def split: option.splits)

lemma relay_inv_auth:
  "relay_inv e st \<Longrightarrow> relay_inv e (allow_peer st p)"
  "relay_inv e st \<Longrightarrow> relay_inv e (allow_peer_update st p)"
  "relay_inv e st \<Longrightarrow> relay_inv e (allow_portal_peer st p)"
  "relay_inv e st \<Longrightarrow> relay_inv e (set_video_subscriptions st p ss)"
  by (simp_all add: relay_inv_def allow_peer_def allow_peer_update_def allow_portal_peer_def
      set_video_subscriptions_def Let_def)

lemma relay_inv_disconnect: "relay_inv e st \<Longrightarrow> relay_inv e (fst (snd (disconnect e st g p d c)))"
  by (auto simp: disconnect_def Let_def relay_inv_remove_endpoint split: option.splits)

lemma relay_step_inv: "relay_inv e (fst s) \<Longrightarrow> relay_inv e (fst (relay_step e s op))"
proof -
  obtain st g where s: "s = (st, g)" by (cases s)
  assume "relay_inv e (fst s)"
  then have inv: "relay_inv e st" by (simp add: s)
  show ?thesis
  proof (cases op)
    case (ConnectOp p d c a ok)
    then show ?thesis
      using accept_connection_state [of e st p d c a ok] register_connection_inv(1) [OF inv, of p d c a] inv
      by (auto simp: s)
  next
    case (DatagramOp env p d c data)
    then show ?thesis
      using relay_inv_handle_datagram [of "env\<lparr>engines := e\<rparr>" st g p d c data] inv
      by (simp add: s on_datagram_def)
  next
    case (RevokeOp p)
    have "relay_inv e (st\<lparr>allowed := hs_remove (bare p) (allowed st)\<rparr>)" using inv by (simp add: relay_inv_def)
    from relay_inv_remove_peer [OF this] show ?thesis by (simp add: s RevokeOp revoke_peer_def Let_def)
  qed (use inv in \<open>simp_all add: s relay_inv_disconnect relay_inv_cleanup relay_join_parts relay_inv_leave relay_inv_games
      relay_inv_auth\<close>)
qed

interpretation relay: invariant_system "(relay_new ready, g)" "relay_step e" "\<lambda>s. relay_inv e (fst s)" for ready g e
proof unfold_locales
  show "relay_inv e (fst (relay_new ready, g))"
    by (simp add: relay_inv_def relay_new_def index_ok_def routes_inv_def routes_default_def slot_at_def slots_def
        live_index_def word_le_nat_alt hm_wf_def)
qed (rule relay_step_inv)

end
