(* ===== verification/Relay_Properties.thy ===== *)
theory Relay_Properties
  imports Relay_Inv
begin

section \<open>What the relay promises\<close>

text \<open>
  The properties of the relay: its index table, admission of connections, who a datagram can
  reach, game sessions and revocation, and two states in which rooms do not behave as the code's
  comments say.
\<close>

subsection \<open>Every endpoint has one index\<close>

lemma routes_iter_slot:
  assumes "routes_inv r"
  shows "(k, d, v) \<in> set (routes_iter r) \<longleftrightarrow> slot_at r k d = Some v"
proof -
  have wf: "hm_wf r" and m: "\<And>k m. (k, m) \<in> set r \<Longrightarrow> hm_wf m"
    using assms by (force simp: routes_inv_def slots_inv_def)+
  have "(k, d, v) \<in> set (routes_iter r) \<longleftrightarrow> (\<exists>m. (k, m) \<in> set r \<and> (d, v) \<in> set m)"
    by (force simp: routes_iter_def)
  also have "\<dots> \<longleftrightarrow> (\<exists>m. hm_get r k = Some m \<and> hm_get m d = Some v)"
    using wf m by (metis hm_get_in)
  finally show ?thesis by (auto simp: slot_at_def slots_def split: option.splits)
qed

lemma distinct_routes_iter:
  assumes "routes_inv r"
  shows "distinct (map (\<lambda>(k, d, v). (k, d)) (routes_iter r))"
proof -
  have "distinct (map fst r)" "\<forall>m \<in> snd ` set r. distinct (map fst m)"
    using assms by (auto simp: routes_inv_def slots_inv_def hm_wf_def)
  then show ?thesis
  proof (induction r)
    case (Cons km r)
    obtain k m where km: "km = (k, m)" by (cases km)
    have "distinct (map (\<lambda>(d, v). (k, d)) m)"
      using Cons.prems(2) by (force simp: km distinct_map inj_on_def)
    moreover have "map (\<lambda>(k, d, v). (k, d)) (routes_iter (km # r)) =
        map (\<lambda>(d, v). (k, d)) m @ map (\<lambda>(k, d, v). (k, d)) (routes_iter r)"
      by (simp add: routes_iter_def km o_def case_prod_unfold)
    moreover have "k \<notin> fst ` set (map (\<lambda>(k, d, v). (k, d)) (routes_iter r))"
      using Cons.prems(1) by (force simp: routes_iter_def km)
    ultimately show ?case using Cons km by (auto simp: image_iff subset_iff)
  qed (simp add: routes_iter_def)
qed

lemma length_routes_iter: "length (routes_iter r) = routes_len r"
  by (simp add: routes_iter_def routes_len_def length_concat o_def case_prod_unfold hm_values_def)

lemma distinct_indices:
  assumes "index_ok e ix ps"
  shows "distinct (map (\<lambda>(k, d, q). peer_index q) (routes_iter ps))"
proof -
  have inv: "routes_inv ps" using assms by (simp add: index_ok_def)
  have "inj_on (\<lambda>(k, d, q). peer_index q) (set (routes_iter ps))"
  proof (rule inj_onI)
    fix x y
    assume xy: "x \<in> set (routes_iter ps)" "y \<in> set (routes_iter ps)"
      "(\<lambda>(k, d, q). peer_index q) x = (\<lambda>(k, d, q). peer_index q) y"
    obtain k d q k' d' q' where x: "x = (k, d, q)" and y: "y = (k', d', q')" by (cases x; cases y)
    with xy have eq: "peer_index q = peer_index q'" by simp
    from xy x y have s: "slot_at ps k d = Some q" "slot_at ps k' d' = Some q'" using inv by (simp_all add: routes_iter_slot)
    then obtain p p' where "identity_key e p = k" "hm_get ix (peer_index q) = Some (p, d)"
        "identity_key e p' = k'" "hm_get ix (peer_index q') = Some (p', d')"
      using assms unfolding index_ok_def by metis
    then have "k = k'" "d = d'" using eq by auto
    then show "x = y" using s x y by simp
  qed
  moreover have "distinct (routes_iter ps)" using distinct_routes_iter [OF inv] by (simp add: distinct_map)
  ultimately show ?thesis by (simp add: distinct_map)
qed

lemma live_index_set: "{i. live_index i} = {1 .. 254}"
  by (auto simp: live_index_def)

lemma card_live_index: "card {1 .. 254 :: u8} \<le> 254"
proof -
  have "unat ` {1 .. 254 :: u8} \<subseteq> {1 .. 254}" by (auto simp: word_le_nat_alt)
  then have "card (unat ` {1 .. 254 :: u8}) \<le> card {1 .. 254 :: nat}" by (intro card_mono) auto
  moreover have "inj_on unat {1 .. 254 :: u8}" by (rule inj_onI) (rule unsigned_word_eqI)
  ultimately show ?thesis by (simp add: card_image)
qed

lemma indices_live:
  assumes "index_ok e ix ps"
  shows "(\<lambda>(k, d, q). peer_index q) ` set (routes_iter ps) \<subseteq> {1 .. 254}"
proof clarify
  fix k d q assume "(k, d, q) \<in> set (routes_iter ps)"
  then have "slot_at ps k d = Some q" using assms by (simp add: routes_iter_slot index_ok_def)
  then have "live_index (peer_index q)" using assms unfolding index_ok_def by blast
  then show "peer_index q \<in> {1 .. 254}" by (simp add: live_index_def)
qed

lemma routes_len_le_254:
  assumes "index_ok e ix ps"
  shows "routes_len ps \<le> 254"
proof -
  let ?ids = "map (\<lambda>(k, d, q). peer_index q) (routes_iter ps)"
  have "length ?ids = card (set ?ids)" using distinct_indices [OF assms] by (simp only: distinct_card)
  also have "\<dots> \<le> card {1 .. 254 :: u8}"
    using indices_live [OF assms] by (intro card_mono) auto
  finally show ?thesis using card_live_index by (simp add: length_routes_iter)
qed

text \<open>
  The datagram indices name endpoints one to one. After any interleaving of connections,
  reconnections, disconnections, datagrams, clean-ups, joins, leaves and revocations, the index
  table holds exactly the indices of the registered endpoints, each for the endpoint that carries
  it; no two endpoints share an index, every index is between 1 and 254, so it is never the
  broadcast index, and there are at most 254 endpoints.
\<close>

theorem relay_index_table:
  "let st = fst (foldl (relay_step e) (relay_new ready, g) ops)
   in (\<lambda>(i, p, d). (identity_key e p, d, i)) ` set (index_to_peer st) =
        (\<lambda>(k, d, q). (k, d, peer_index q)) ` set (routes_iter (peers st)) \<and>
      distinct (map (\<lambda>(k, d, q). peer_index q) (routes_iter (peers st))) \<and>
      (\<lambda>(k, d, q). peer_index q) ` set (routes_iter (peers st)) \<subseteq> {1 .. 254} - {BROADCAST_INDEX} \<and>
      routes_len (peers st) \<le> 254"
proof -
  define st where "st = fst (foldl (relay_step e) (relay_new ready, g) ops)"
  have ok: "index_ok e (index_to_peer st) (peers st)"
    using relay.inv_reachable [of e ready g ops] by (simp add: st_def relay_inv_def)
  then have wf: "hm_wf (index_to_peer st)" and inv: "routes_inv (peers st)" by (simp_all add: index_ok_def)
  have "(\<lambda>(i, p, d). (identity_key e p, d, i)) ` set (index_to_peer st) \<subseteq>
        (\<lambda>(k, d, q). (k, d, peer_index q)) ` set (routes_iter (peers st))"
  proof clarify
    fix i p d assume "(i, p, d) \<in> set (index_to_peer st)"
    then have "hm_get (index_to_peer st) i = Some (p, d)" using wf by (simp add: hm_get_in)
    then obtain q where "slot_at (peers st) (identity_key e p) d = Some q" "peer_index q = i"
      using ok unfolding index_ok_def by blast
    then show "(identity_key e p, d, i) \<in> (\<lambda>(k, d, q). (k, d, peer_index q)) ` set (routes_iter (peers st))"
      using inv by (force simp: routes_iter_slot intro!: image_eqI [of _ _ "(identity_key e p, d, q)"])
  qed
  moreover have "(\<lambda>(k, d, q). (k, d, peer_index q)) ` set (routes_iter (peers st)) \<subseteq>
        (\<lambda>(i, p, d). (identity_key e p, d, i)) ` set (index_to_peer st)"
  proof clarify
    fix k d q assume "(k, d, q) \<in> set (routes_iter (peers st))"
    then obtain p where "identity_key e p = k" "hm_get (index_to_peer st) (peer_index q) = Some (p, d)"
      using ok inv unfolding index_ok_def by (metis routes_iter_slot)
    then show "(k, d, peer_index q) \<in> (\<lambda>(i, p, d). (identity_key e p, d, i)) ` set (index_to_peer st)"
      using wf by (force simp: hm_get_in)
  qed
  moreover have "{1 .. 254} - {BROADCAST_INDEX} = {1 .. 254}" by (auto simp: BROADCAST_INDEX_def word_le_nat_alt)
  ultimately show ?thesis
    unfolding Let_def st_def [symmetric]
    using distinct_indices [OF ok] indices_live [OF ok] routes_len_le_254 [OF ok] by auto
qed

subsection \<open>Admission of a connection\<close>

lemma register_connection_connected:
  assumes inv: "relay_inv e st"
  shows "case register_connection e st p d c a of
      (Connected i, outs, st') \<Rightarrow>
        \<not> hm_contains (hm_remove (case get_endpoint e (peers st) p d of Some q \<Rightarrow> peer_index q | None \<Rightarrow> 0) (index_to_peer st)) i \<and>
        (\<exists>q. get_endpoint e (peers st') p d = Some q \<and> peer_index q = i \<and> connection q = c) \<and>
        {(k, x). k \<noteq> identity_key e p \<or> x \<noteq> d} \<subseteq> {(k, x). slot_at (peers st') k x = slot_at (peers st) k x}
    | (NoIndices, outs, st') \<Rightarrow> get_endpoint e (peers st) p d = None \<and> {1 .. 254} \<subseteq> set (hm_keys (index_to_peer st))
    | _ \<Rightarrow> True"
proof -
  obtain outs st1 where dr: "drop_replaced e st p d = (outs, st1)" by fastforce
  have st1: "relay_inv e st1" using drop_replaced_inv [OF inv, of p d] dr by simp
  have ps1: "slot_at (peers st1) k x = (if k = identity_key e p \<and> x = d then None else slot_at (peers st) k x)" for k x
    using dr by (auto simp: drop_replaced_def get_endpoint_slot Let_def slot_at_remove_if split: option.splits)
  have ix1: "hm_get (index_to_peer st1) i = (if Some i = map_option peer_index (get_endpoint e (peers st) p d) then None
      else hm_get (index_to_peer st) i)" for i
    using dr by (auto simp: drop_replaced_def Let_def hm_get_remove split: option.splits)
  obtain r n where al: "allocate_index st1 = (r, st1\<lparr>next_index := n\<rparr>)" "live_index n"
    "case r of Some i \<Rightarrow> \<not> hm_contains (index_to_peer st1) i \<and> live_index i
     | None \<Rightarrow> (\<forall>i. live_index i \<longrightarrow> hm_contains (index_to_peer st1) i)"
    using allocate_index_spec [of st1] st1 by (auto simp: relay_inv_def)
  show ?thesis
  proof (cases r)
    case None
    have "get_endpoint e (peers st) p d = None"
    proof (rule ccontr)
      assume "get_endpoint e (peers st) p d \<noteq> None"
      then obtain q where q: "get_endpoint e (peers st) p d = Some q" by auto
      then have "live_index (peer_index q)"
        using inv unfolding relay_inv_def index_ok_def get_endpoint_slot by blast
      then have "hm_contains (index_to_peer st1) (peer_index q)" using al None by simp
      then show False using ix1 [of "peer_index q"] q by (simp add: hm_contains_iff)
    qed
    moreover have "{1 .. 254} \<subseteq> set (hm_keys (index_to_peer st))"
    proof
      fix i :: u8 assume "i \<in> {1 .. 254}"
      then have "hm_contains (index_to_peer st1) i" using al None by (simp add: live_index_def)
      then show "i \<in> set (hm_keys (index_to_peer st))"
        unfolding hm_keys_iff hm_contains_iff using ix1 [of i] by (simp split: if_splits)
    qed
    ultimately show ?thesis using None al dr by (auto simp: register_connection_def Let_def)
  next
    case (Some i)
    then have i: "hm_get (index_to_peer st1) i = None"
      using al by (cases "hm_get (index_to_peer st1) i") (auto simp: hm_contains_iff)
    have fresh: "\<not> hm_contains (hm_remove (case get_endpoint e (peers st) p d of Some q \<Rightarrow> peer_index q | None \<Rightarrow> 0)
        (index_to_peer st)) i"
      using i ix1 [of i] by (auto simp: hm_contains_iff hm_get_remove split: option.splits if_splits)
    define q where "q = \<lparr>peer_index = i, connection = c,
      peer_room_id = existing_room e (st1\<lparr>next_index := n\<rparr>) (prior_room e st p d) p d, bytes_relayed = 0, remote_addr = a\<rparr>"
    have "fst (register_connection e st p d c a) = Full \<or>
      fst (register_connection e st p d c a) = DeviceLimit \<or>
      fst (register_connection e st p d c a) = Connected i \<and>
      slot_at (peers (snd (snd (register_connection e st p d c a)))) =
        (\<lambda>k x. if k = identity_key e p \<and> x = d then Some q else slot_at (peers st) k x)"
    proof (cases d)
      case None
      then show ?thesis using Some al dr ps1
        by (auto simp: register_connection_def Let_def slot_at_insert fun_eq_iff q_def)
    next
      case d: (Some x)
      obtain y ps' where reg: "register_device e (peers st1) p x q = (y, ps')" by fastforce
      then show ?thesis using Some al dr ps1 d slot_at_register [of e "peers st1" p x q]
        by (cases y) (auto simp: register_connection_def Let_def fun_eq_iff q_def)
    qed
    moreover have "connection q = c" "peer_index q = i" by (simp_all add: q_def)
    ultimately show ?thesis
      using fresh by (cases "register_connection e st p d c a") (auto simp: get_endpoint_slot)
  qed
qed

text \<open>
  Admission. In every reachable state a connection is registered only for a peer with full or
  portal access; it then holds a valid index of its own under its endpoint, and no other endpoint
  has changed. A refusal for want of an index happens only to a new endpoint when all 254 indices
  are taken, so a reconnection always succeeds; the device registration after the capacity check
  never fails, so no index is ever leaked by it; \<open>full\<close> is only ever answered to a ninth device,
  because the limit of 255 peers lies above the number of indices.
\<close>

theorem relay_admission:
  "let st = fst (foldl (relay_step e) (relay_new ready, g) ops);
       (res, outs, st') = accept_connection e st p d c a ok
   in case res of
        Connected i \<Rightarrow> p \<in> set (allowed st) \<union> set (portal_allowed st) \<and> i \<in> {1 .. 254} \<and>
          (\<exists>q. get_endpoint e (peers st') p d = Some q \<and> peer_index q = i \<and> connection q = c) \<and>
          {(k, x). (k, x) \<noteq> (identity_key e p, d)} \<subseteq> {(k, x). slot_at (peers st') k x = slot_at (peers st) k x}
      | NoIndices \<Rightarrow> get_endpoint e (peers st) p d = None \<and> {1 .. 254} \<subseteq> set (hm_keys (index_to_peer st))
      | DeviceLimit \<Rightarrow> False
      | Full \<Rightarrow> st' = st \<and> get_endpoint e (peers st) p d = None \<and> d \<noteq> None \<and>
          length (filter (\<lambda>(x, _). x \<noteq> None) (endpoints e (peers st) p)) = 8
      | NotAllowed \<Rightarrow> st' = st \<and> p \<notin> set (allowed st) \<union> set (portal_allowed st)
      | Unavailable \<Rightarrow> st' = st \<and> d \<noteq> None \<and> \<not> device_routing_ready st"
proof -
  define st where "st = fst (foldl (relay_step e) (relay_new ready, g) ops)"
  have inv: "relay_inv e st" using relay.inv_reachable [of e ready g ops] by (simp add: st_def)
  obtain res outs st' where reg: "register_connection e st p d c a = (res, outs, st')" by (cases "register_connection e st p d c a")
  have ok': "index_ok e (index_to_peer st) (peers st)" "relay_inv e st'" "res \<noteq> DeviceLimit"
    using inv register_connection_inv [OF inv, of p d c a] reg by (simp_all add: relay_inv_def)
  have con: "i \<in> {1 .. 254} \<and> (\<exists>q. get_endpoint e (peers st') p d = Some q \<and> peer_index q = i \<and> connection q = c) \<and>
      {(k, x). (k, x) \<noteq> (identity_key e p, d)} \<subseteq> {(k, x). slot_at (peers st') k x = slot_at (peers st) k x}"
    if "res = Connected i" for i
  proof -
    have c: "\<exists>q. get_endpoint e (peers st') p d = Some q \<and> peer_index q = i \<and> connection q = c"
      "{(k, x). k \<noteq> identity_key e p \<or> x \<noteq> d} \<subseteq> {(k, x). slot_at (peers st') k x = slot_at (peers st) k x}"
      using register_connection_connected [OF inv, of p d c a] reg that by auto
    then have "live_index i" using ok'(2) unfolding relay_inv_def index_ok_def get_endpoint_slot by blast
    then show ?thesis using c by (auto simp: live_index_def)
  qed
  have noi: "get_endpoint e (peers st) p d = None \<and> {1 .. 254} \<subseteq> set (hm_keys (index_to_peer st))" if "res = NoIndices"
    using register_connection_connected [OF inv, of p d c a] reg that by simp
  have full: "st' = st \<and> get_endpoint e (peers st) p d = None \<and> d \<noteq> None \<and>
      length (filter (\<lambda>(x, _). x \<noteq> None) (endpoints e (peers st) p)) = 8" if "res = Full"
  proof -
    have f: "st' = st \<and> get_endpoint e (peers st) p d = None \<and> (routes_len (peers st) \<ge> 255 \<or> d \<noteq> None \<and>
        length (filter (\<lambda>(x, _). x \<noteq> None) (endpoints e (peers st) p)) \<ge> 8)"
      using reg that
      by (auto simp: register_connection_def MAX_PEERS_def MAX_LIVE_DEVICE_ROUTES_def Let_def
          split: if_splits option.splits prod.splits sum.splits)
    have "length (filter (\<lambda>(x, _). x \<noteq> None) (endpoints e (peers st) p)) \<le> 8"
      using slots_inv_or_empty [of "peers st" "identity_key e p"] ok'(1)
      unfolding device_count_endpoints by (auto simp: index_ok_def slots_inv_def MAX_LIVE_DEVICE_ROUTES_def hm_keys_def)
    moreover have "\<not> routes_len (peers st) \<ge> 255" using routes_len_le_254 [OF ok'(1)] by simp
    ultimately show ?thesis using f by auto
  qed
  have "res \<noteq> NotAllowed \<and> res \<noteq> Unavailable"
    using reg by (auto simp: register_connection_def Let_def split: if_splits option.splits prod.splits sum.splits)
  then show ?thesis
    unfolding Let_def st_def [symmetric] accept_connection_def reg
    using con noi full ok'(3) by (cases res) auto
qed

subsection \<open>Who a datagram reaches\<close>

definition same_room :: "RelayPeer \<Rightarrow> RelayPeer \<Rightarrow> bool" where
  "same_room q t \<longleftrightarrow> (\<exists>r. peer_room_id q = Some r \<and> peer_room_id t = Some r)"

definition same_game :: "RelayState \<Rightarrow> string \<Rightarrow> string \<Rightarrow> bool" where
  "same_game st p m \<longleftrightarrow> (\<exists>s. hm_get (peer_game_session st) p = Some s \<and> m \<in> set (members_of (game_sessions st) s))"

lemma room_endpoints_iff:
  "(m, d, q) \<in> set (room_endpoints e st ms) \<longleftrightarrow> m \<in> set ms \<and> (d, q) \<in> set (endpoints e (peers st) m)"
  by (force simp: room_endpoints_def)

lemma room_recipients_same_room:
  "(m, d', t) \<in> set (room_recipients e st f p d q) \<Longrightarrow>
   (d', t) \<in> set (endpoints e (peers st) m) \<and> (m, d') \<noteq> (p, d) \<and> same_room q t"
  by (cases "peer_room_id q") (auto simp: room_recipients_def room_endpoints_iff same_room_def in_room_def)

lemma direct_recipient_same_room:
  "(m, d', t) \<in> set (direct_recipient e st i q) \<Longrightarrow> (d', t) \<in> set (endpoints e (peers st) m) \<and> same_room q t"
proof -
  assume m: "(m, d', t) \<in> set (direct_recipient e st i q)"
  then obtain r where "hm_get (index_to_peer st) i = Some (m, d')" and t: "get_endpoint e (peers st) m d' = Some t"
    and "peer_room_id q = Some r" "peer_room_id t = Some r"
    unfolding direct_recipient_def
    by (cases "hm_get (index_to_peer st) i"; cases "get_endpoint e (peers st) m d'"; cases "peer_room_id q"; cases "peer_room_id t")
      (auto split: option.splits if_splits)
  moreover have "(d', t) \<in> set (endpoints e (peers st) m)"
    using hm_get_SomeD [of "slots (peers st) (identity_key e m)" d' t] t
    by (simp add: endpoints_def get_endpoint_slot slot_at_def)
  ultimately show ?thesis by (auto simp: same_room_def)
qed

lemma game_recipients_same_game:
  "(m, d', t) \<in> set (game_recipients e st ms p d) \<Longrightarrow>
   (d', t) \<in> set (endpoints e (peers st) m) \<and> (m, d') \<noteq> (p, d) \<and> m \<in> set ms"
  by (auto simp: game_recipients_def room_endpoints_iff)

text \<open>What a datagram of endpoint \<open>(p, d)\<close> on connection \<open>c\<close> may cause.\<close>

definition permitted_output ::
  "b64 \<Rightarrow> RelayState \<Rightarrow> string \<Rightarrow> DeviceId option \<Rightarrow> RelayPeer \<Rightarrow> bytes \<Rightarrow> relay_out \<Rightarrow> bool" where
  "permitted_output e st p d q data out =
     (case out of
        SendDatagram c' bs \<Rightarrow> bs = peer_index q # tl data \<and>
          (\<exists>m d' t. (d', t) \<in> set (endpoints e (peers st) m) \<and> connection t = c' \<and>
             (if hd data = BROADCAST_INDEX then (m, d') \<noteq> (p, d) \<and> (same_room q t \<or> same_game st p m)
              else same_room q t))
      | RoomAudioBridge p' i r bs \<Rightarrow> p' = p \<and> i = peer_index q \<and> bs = tl data
      | GameRelayBridge s p' bs \<Rightarrow> p' = p \<and> bs = tl data \<and> hm_get (peer_game_session st) p = Some s
      | RoomVideoBridge r p' bs \<Rightarrow> p' = p \<and> bs = tl data \<and> peer_room_id q = Some r
      | _ \<Rightarrow> False)"

lemma permitted_broadcastI:
  assumes "(d', t) \<in> set (endpoints e (peers st) m)" "(m, d') \<noteq> (p, d)" "same_room q t \<or> same_game st p m"
  shows "permitted_output e st p d q (BROADCAST_INDEX # payload) (SendDatagram (connection t) (peer_index q # payload))"
  using assms unfolding permitted_output_def relay_out.case list.sel if_P [OF refl] by blast

lemma reachedE:
  assumes "set cs \<subseteq> (\<lambda>(_, _, q). connection q) ` set rs" "x \<in> set cs"
  obtains m d t where "(m, d, t) \<in> set rs" "connection t = x"
  using assms by fastforce

lemma outcome_permitted:
  assumes "datagram_outcome env st p d c data outs st'"
  shows "set outs \<subseteq> {out. data \<noteq> [] \<and> (\<exists>q. get_endpoint (engines env) (peers st) p d = Some q \<and> connection q = c \<and>
    permitted_output (engines env) st p d q data out)}"
  using assms
proof cases
  case dropped
  then show ?thesis by simp
next
  case (handoff payload q)
  have "outs = [] \<or> (\<exists>r. outs = [RoomAudioBridge p (peer_index q) r payload])"
    using handoff by (auto simp: room_audio_handoff_def Let_def split: option.splits)
  moreover have "data = BROADCAST_INDEX # payload" using handoff by (auto simp: parse_datagram_def split: list.splits)
  ultimately show ?thesis using handoff by (auto simp: permitted_output_def)
next
  case (game payload q s members cs extra n)
  have data: "data = BROADCAST_INDEX # payload" using game by (auto simp: parse_datagram_def split: list.splits)
  have "permitted_output (engines env) st p d q data (SendDatagram x (peer_index q # payload))" if x: "x \<in> set cs" for x
  proof -
    obtain m d' t where m: "(m, d', t) \<in> set (game_recipients (engines env) st members p d)" "connection t = x"
      by (rule reachedE [OF game(8) x])
    have "same_game st p m"
      using game_recipients_same_game [OF m(1)] game(6,7) by (simp add: same_game_def members_of_def)
    then show ?thesis
      using m game_recipients_same_game permitted_broadcastI data by metis
  qed
  then show ?thesis using game data by (auto simp: permitted_output_def)
next
  case (room payload q cs extra n)
  have data: "data = BROADCAST_INDEX # payload" using room by (auto simp: parse_datagram_def split: list.splits)
  have "permitted_output (engines env) st p d q data (SendDatagram x (peer_index q # payload))" if x: "x \<in> set cs" for x
  proof -
    obtain m d' t where "(m, d', t) \<in> set (room_recipients (engines env) st (fst (relay_datagram_feature payload)) p d q)"
      "connection t = x" by (rule reachedE [OF room(6) x])
    then show ?thesis
      using room_recipients_same_room permitted_broadcastI data by metis
  qed
  moreover have "permitted_output (engines env) st p d q data out" if "out \<in> set extra" for out
    using that room data by (auto simp: permitted_output_def split: option.splits)
  ultimately show ?thesis using room data by auto
next
  case (direct i payload q cs n)
  have data: "data = i # payload" using direct by (auto simp: parse_datagram_def split: list.splits)
  have "permitted_output (engines env) st p d q data (SendDatagram x (peer_index q # payload))" if x: "x \<in> set cs" for x
  proof -
    obtain m d' t where "(m, d', t) \<in> set (direct_recipient (engines env) st i q)" "connection t = x"
      by (rule reachedE [OF direct(7) x])
    with direct_recipient_same_room [OF this(1)] show ?thesis using data direct by (auto simp: permitted_output_def)
  qed
  then show ?thesis using direct data by auto
qed


end
