(* ===== verification/Relay_Games.thy ===== *)
theory Relay_Games
  imports Relay_Inv
begin

section \<open>Game sessions and revocation\<close>

text \<open>
  The two tables of game sessions, session to members and member to session, are inverse to each
  other in every reachable state; revocation removes every trace of an identity except its portal
  access; and two states in which the room tables do not say what the comments say.
\<close>

subsection \<open>Tables of member sets\<close>

lemma members_of_add [coll_simps]:
  "members_of (add_member k p m) k' = (if k' = k then hs_insert p (members_of m k) else members_of m k')"
  by (simp add: add_member_def members_of_def hm_get_insert)

lemma set_members_of_drop [coll_simps]:
  "set (members_of (drop_member k p m) k') = (if k' = k then set (members_of m k) - {p} else set (members_of m k'))"
proof (cases "hm_get m k")
  case (Some ms)
  have "set (hs_remove p ms) = set ms - {p}" by simp
  then show ?thesis
    using Some by (cases "hs_remove p ms = []") (auto simp: drop_member_def members_of_def hm_get_insert hm_get_remove Let_def)
qed (simp add: drop_member_def members_of_def)

lemma members_of_purge [coll_simps]:
  assumes "hm_wf m"
  shows "members_of (purge_member p m) k = hs_remove p (members_of m k)"
  using assms
proof (induction m)
  case Nil
  then show ?case by (simp add: purge_member_def members_of_def hs_remove_def)
next
  case (Cons kv m)
  obtain k' ms where kv: "kv = (k', ms)" by (cases kv)
  have "k' \<notin> fst ` set m" "hm_wf m" using Cons.prems by (auto simp: hm_wf_def kv)
  moreover have "hm_get (purge_member p m) k' = None"
    using calculation by (force simp: hm_get_None_iff purge_member_def)
  ultimately show ?case
    using Cons.IH by (auto simp: kv purge_member_def members_of_def hm_get_def hs_remove_def)
qed

definition table_ok :: "(string, string list) hmap \<Rightarrow> bool" where
  "table_ok m \<longleftrightarrow> hm_wf m \<and> (\<forall>ms \<in> snd ` set m. ms \<noteq> [] \<and> distinct ms)"

lemma table_okD: "table_ok m \<Longrightarrow> hm_get m k = Some ms \<Longrightarrow> ms \<noteq> [] \<and> distinct ms"
  unfolding table_ok_def by (metis hm_get_SomeD image_eqI snd_conv)

lemma table_ok_insert: "table_ok m \<Longrightarrow> ms \<noteq> [] \<Longrightarrow> distinct ms \<Longrightarrow> table_ok (hm_insert k ms m)"
  using set_hm_insert [of k ms m] by (force simp: table_ok_def hm_wf_insert)

lemma table_ok_remove: "table_ok m \<Longrightarrow> table_ok (hm_remove k m)"
  by (auto simp: table_ok_def hm_wf_remove) (auto simp: hm_remove_def)

lemma table_ok_add: "table_ok m \<Longrightarrow> table_ok (add_member k p m)"
  unfolding add_member_def
  by (rule table_ok_insert) (auto simp: hs_insert_def distinct_hs_insert split: option.splits dest: table_okD)

lemma table_ok_drop: "table_ok m \<Longrightarrow> table_ok (drop_member k p m)"
  by (auto simp: drop_member_def Let_def table_ok_remove distinct_hs_remove split: option.splits
      intro!: table_ok_insert dest: table_okD)

lemma table_ok_purge: "table_ok m \<Longrightarrow> table_ok (purge_member p m)"
proof -
  assume m: "table_ok m"
  have "hm_wf (map (\<lambda>(k, ms). (k, hs_remove p ms)) m)" using m by (simp add: table_ok_def hm_wf_def case_prod_unfold o_def)
  then have "hm_wf (purge_member p m)" unfolding purge_member_def by (rule hm_wf_filter)
  then show ?thesis using m by (fastforce simp: table_ok_def purge_member_def intro: distinct_hs_remove)
qed

subsection \<open>Game sessions\<close>

definition games_ok :: "(string, string list) hmap \<Rightarrow> (string, string) hmap \<Rightarrow> bool" where
  "games_ok gs pgs \<longleftrightarrow> table_ok gs \<and> hm_wf pgs \<and> (\<forall>p s. p \<in> set (members_of gs s) \<longleftrightarrow> hm_get pgs p = Some s)"

definition games_inv :: "RelayState \<Rightarrow> bool" where
  "games_inv st \<longleftrightarrow> games_ok (game_sessions st) (peer_game_session st)"

lemma games_ok_leave:
  assumes "games_ok gs pgs" "hm_get pgs p = Some s"
  shows "games_ok (drop_member s p gs) (hm_remove p pgs)"
  using assms by (auto simp: games_ok_def table_ok_drop hm_wf_remove set_members_of_drop hm_get_remove)

lemma games_ok_purge:
  assumes "games_ok gs pgs" "hm_get pgs p = None"
  shows "games_ok (purge_member p gs) pgs"
proof -
  have "hm_wf gs" using assms by (simp add: games_ok_def table_ok_def)
  then show ?thesis using assms by (auto simp: games_ok_def table_ok_purge members_of_purge)
qed

lemma games_ok_join:
  assumes "games_ok gs pgs" "hm_get pgs p = None"
  shows "games_ok (add_member s p gs) (hm_insert p s pgs)"
  using assms by (auto simp: games_ok_def table_ok_add hm_wf_insert members_of_add hm_get_insert)

lemma games_inv_join: "games_inv st \<Longrightarrow> games_inv (join_game_session st p s)"
proof (cases "s = [] \<or> length s > 128")
  case True
  assume "games_inv st"
  with True show ?thesis by (simp add: join_game_session_def Let_def)
next
  case False
  assume st: "games_inv st"
  show ?thesis
  proof (cases "hm_get (peer_game_session st) (bare p)")
    case None
    then show ?thesis using st False games_ok_join [of _ _ "bare p" s] by (simp add: games_inv_def join_game_session_def Let_def)
  next
    case (Some old)
    have left: "games_ok (drop_member old (bare p) (game_sessions st)) (hm_remove (bare p) (peer_game_session st))"
      using st Some by (simp add: games_inv_def games_ok_leave)
    show ?thesis
    proof (cases "old = s")
      case True
      have "bare p \<in> set (members_of (game_sessions st) s)" using st Some True by (auto simp: games_inv_def games_ok_def)
      then have "games_ok (add_member s (bare p) (game_sessions st))
          (hm_insert (bare p) s (hm_remove (bare p) (peer_game_session st)))"
        using st Some True
        by (auto simp: games_inv_def games_ok_def table_ok_add hm_wf_insert hm_wf_remove members_of_add hm_get_insert hm_get_remove)
      then show ?thesis using False Some True by (simp add: games_inv_def join_game_session_def Let_def)
    next
      case False': False
      then show ?thesis
        using games_ok_join [OF left, of "bare p" s] False Some by (simp add: games_inv_def join_game_session_def Let_def hm_get_remove)
    qed
  qed
qed

lemma games_inv_leave: "games_inv st \<Longrightarrow> games_inv (leave_game_session st p)"
  by (auto simp: games_inv_def leave_game_session_def Let_def games_ok_leave split: option.splits)

lemma games_inv_membership: "games_inv st \<Longrightarrow> games_inv (remove_identity_membership e st p)"
  by (auto simp: games_inv_def remove_identity_membership_def Let_def foldl_keeps [of game_sessions]
      foldl_keeps [of peer_game_session] games_ok_leave games_ok_purge split: option.splits)

lemma games_inv_cong:
  "games_inv st \<Longrightarrow> game_sessions st' = game_sessions st \<Longrightarrow> peer_game_session st' = peer_game_session st \<Longrightarrow> games_inv st'"
  by (simp add: games_inv_def)

lemma games_inv_remove_endpoint: "games_inv st \<Longrightarrow> games_inv (remove_endpoint e st p d)"
proof -
  assume st: "games_inv st"
  have "games_inv (remove_assignment e st p d)" using st by (simp add: games_inv_def)
  then show ?thesis
    unfolding remove_endpoint_def Let_def
    by (auto split: option.splits intro!: games_inv_membership intro: games_inv_cong)
qed

lemma games_inv_remove_peer: "games_inv st \<Longrightarrow> games_inv (remove_peer e st p)"
  unfolding remove_peer_def Let_def
  by (rule games_inv_membership, rule foldl_inv [where P = games_inv]) (auto intro: games_inv_remove_endpoint)

lemma games_inv_datagram: "games_inv st \<Longrightarrow> games_inv (fst (snd (handle_datagram env st g p (d, c) data)))"
  using handle_datagram_outcome [of env st p d c data g]
  by cases (auto simp: games_inv_def add_relayed_def room_audio_handoff_def Let_def split: option.splits)

lemma games_allocate: "game_sessions (snd (allocate_index st)) = game_sessions st"
  "peer_game_session (snd (allocate_index st)) = peer_game_session st"
  by (auto simp: allocate_index_def split: option.splits)

lemma games_drop_replaced: "game_sessions (snd (drop_replaced e st p d)) = game_sessions st"
  "peer_game_session (snd (drop_replaced e st p d)) = peer_game_session st"
  by (auto simp: drop_replaced_def Let_def split: option.splits)

lemma games_register:
  "game_sessions (snd (snd (register_connection e st p d c a))) = game_sessions st \<and>
   peer_game_session (snd (snd (register_connection e st p d c a))) = peer_game_session st"
proof -
  obtain outs st1 where dr: "drop_replaced e st p d = (outs, st1)" by fastforce
  obtain r st2 where al: "allocate_index st1 = (r, st2)" by fastforce
  have "game_sessions st2 = game_sessions st" "peer_game_session st2 = peer_game_session st"
    using games_drop_replaced [of e st p d] games_allocate [of st1] dr al by simp_all
  then show ?thesis
    using dr al by (auto simp: register_connection_def Let_def split: option.splits prod.splits sum.splits)
qed

lemma games_inv_connect: "games_inv st \<Longrightarrow> games_inv (snd (snd (accept_connection e st p d c a ok)))"
  using accept_connection_state [of e st p d c a ok] games_register [of e st p d c a]
  by (auto intro: games_inv_cong)

lemma games_inv_cleanup: "games_inv st \<Longrightarrow> games_inv (fst (cleanup_stale_peers e cl st g))"
  unfolding cleanup_stale_peers_def Let_def
  by (rule foldl_inv [where P = "\<lambda>s. games_inv (fst s)"]) (auto simp: games_inv_remove_endpoint split: prod.splits)

lemma games_inv_rooms:
  "games_inv st \<Longrightarrow> games_inv (snd (relay_join_room_endpoint e st p d r))"
  "games_inv st \<Longrightarrow> games_inv (relay_leave_room_endpoint e st p d)"
  by (auto simp: games_inv_def notify_only_outputs relay_leave_room_endpoint_def Let_def case_prod_beta
      split: sum.splits option.splits)

lemma games_inv_disconnect: "games_inv st \<Longrightarrow> games_inv (fst (snd (disconnect e st g p d c)))"
  by (auto simp: disconnect_def Let_def games_inv_remove_endpoint split: option.splits)

lemma games_inv_auth:
  "games_inv st \<Longrightarrow> games_inv (allow_peer st p)"
  "games_inv st \<Longrightarrow> games_inv (allow_peer_update st p)"
  "games_inv st \<Longrightarrow> games_inv (allow_portal_peer st p)"
  "games_inv st \<Longrightarrow> games_inv (set_video_subscriptions st p ss)"
  "games_inv st \<Longrightarrow> games_inv (st\<lparr>allowed := xs\<rparr>)"
  by (simp_all add: games_inv_def allow_peer_def allow_peer_update_def allow_portal_peer_def
      set_video_subscriptions_def Let_def)

lemma games_step_inv: "games_inv (fst s) \<Longrightarrow> games_inv (fst (relay_step e s op))"
proof -
  obtain st g where s: "s = (st, g)" by (cases s)
  assume "games_inv (fst s)"
  then have "games_inv st" by (simp add: s)
  then show ?thesis
    by (cases op) (simp_all add: s games_inv_connect games_inv_disconnect games_inv_datagram on_datagram_def
        games_inv_cleanup games_inv_auth games_inv_rooms games_inv_join games_inv_leave revoke_peer_def Let_def
        games_inv_remove_peer)
qed

interpretation games: invariant_system "(relay_new ready, g)" "relay_step e" "\<lambda>s. games_inv (fst s)" for ready g e
  by unfold_locales
    (simp add: games_inv_def games_ok_def table_ok_def relay_new_def hm_wf_def members_of_def, rule games_step_inv)

text \<open>
  A peer is in at most one game session, and the two session tables agree. After any
  operations of the relay, the members of the sessions are exactly what the peers' own entries
  say, no session is kept without members, and every member is listed once.
\<close>

theorem game_sessions_partition:
  "let st = fst (foldl (relay_step e) (relay_new ready, g) ops)
   in {(p, s). p \<in> set (game_session_members st s)} = set (peer_game_session st) \<and>
      distinct (hm_keys (peer_game_session st)) \<and>
      set (hm_keys (game_sessions st)) = set (active_game_sessions st) \<and>
      list_all (\<lambda>(s, ms). distinct ms) (game_sessions st)"
proof -
  define st where "st = fst (foldl (relay_step e) (relay_new ready, g) ops)"
  have inv: "games_ok (game_sessions st) (peer_game_session st)"
    using games.inv_reachable [of e ready g ops] by (simp add: st_def games_inv_def)
  then have wf: "hm_wf (peer_game_session st)" and tab: "table_ok (game_sessions st)" by (simp_all add: games_ok_def)
  have "{(p, s). p \<in> set (game_session_members st s)} = set (peer_game_session st)"
    using inv wf by (auto simp: games_ok_def game_session_members_def hm_get_in)
  moreover have "set (hm_keys (game_sessions st)) = set (active_game_sessions st)"
    using tab by (force simp: table_ok_def active_game_sessions_def)
  moreover have "list_all (\<lambda>(s, ms). distinct ms) (game_sessions st)"
    using tab by (force simp: table_ok_def list_all_iff)
  ultimately show ?thesis
    unfolding Let_def st_def [symmetric] using wf by (simp add: hm_wf_def hm_keys_def)
qed

subsection \<open>Revocation\<close>

lemma slot_at_remove_endpoints:
  "slot_at (peers (foldl (\<lambda>st d. remove_endpoint e st p d) st ds)) k x =
     (if k = identity_key e p \<and> x \<in> set ds then None else slot_at (peers st) k x)"
  by (induction ds arbitrary: st) (auto simp: remove_endpoint_peers slot_at_remove_if split: option.splits)

lemma slots_Nil_iff: "slots r k = [] \<longleftrightarrow> (\<forall>x. slot_at r k x = None)"
proof
  assume "\<forall>x. slot_at r k x = None"
  then have "fst ` set (slots r k) = {}" by (auto simp: slot_at_def hm_get_None_iff)
  then show "slots r k = []" by simp
qed (simp add: slot_at_def)

lemma endpoints_remove_peer: "endpoints e (peers (remove_peer e st p)) p = []"
  by (auto simp: endpoints_def slots_Nil_iff remove_peer_def Let_def slot_at_remove_endpoints)
    (auto simp: slot_at_def hm_get_None_iff)

lemma purged: "p \<notin> \<Union> (set ` snd ` set (purge_member p m))"
  by (auto simp: purge_member_def)

lemma rooms_membership_removed: "p \<notin> \<Union> (set ` snd ` set (relay_rooms (remove_identity_membership e st p)))"
  unfolding remove_identity_membership_def Let_def using purged [of p]
  by (auto simp del: UN_iff split: option.splits)

lemma session_membership_removed: "hm_get (peer_game_session (remove_identity_membership e st p)) p = None"
  by (auto simp: remove_identity_membership_def Let_def foldl_keeps [of peer_game_session] hm_get_remove split: option.splits)

lemma remove_peer_simps [simp]:
  "allowed (remove_peer e st p) = allowed st" "portal_allowed (remove_peer e st p) = portal_allowed st"
  by (simp_all add: remove_peer_def Let_def foldl_keeps [of allowed] foldl_keeps [of portal_allowed])

text \<open>
  Revocation is complete. From every reachable state, revoking a peer closes each of its
  connections and leaves it without full access, without an endpoint, in no room and in no game
  session; the index table names it nowhere, and a datagram still arriving from it causes nothing.
  Its portal access, if it had any, is kept.
\<close>

theorem revoke_peer_complete:
  "let st = fst (foldl (relay_step e) (relay_new ready, g) ops); q = bare p;
       (outs, st', g') = revoke_peer e st g1 p
   in outs = map (\<lambda>(_, x). CloseConn (connection x) ''revoked'') (endpoints e (peers st) q) \<and>
      q \<notin> set (allowed st') \<and> portal_allowed st' = portal_allowed st \<and>
      endpoints e (peers st') q = [] \<and>
      identity_key e q \<notin> (\<lambda>(i, m, d). identity_key e m) ` set (index_to_peer st') \<and>
      q \<notin> \<Union> (set ` snd ` set (relay_rooms st')) \<and>
      q \<notin> \<Union> (set ` snd ` set (game_sessions st')) \<and>
      on_datagram env st' g2 q (d, c) data = ([], st', g2)"
proof -
  define st where "st = fst (foldl (relay_step e) (relay_new ready, g) ops)"
  define st0 where "st0 = st\<lparr>allowed := hs_remove (bare p) (allowed st)\<rparr>"
  define st' where "st' = remove_peer e st0 (bare p)"
  have "relay_inv e st0" "games_inv st0"
    using relay.inv_reachable [of e ready g ops] games.inv_reachable [of e ready g ops]
    by (simp_all add: st_def st0_def relay_inv_def games_inv_def)
  then have inv: "relay_inv e st'" "games_inv st'"
    by (simp_all add: st'_def relay_inv_remove_peer games_inv_remove_peer)
  have ends: "endpoints e (peers st') (bare p) = []" by (simp add: st'_def endpoints_remove_peer)
  have na: "bare p \<notin> set (allowed st')" by (simp add: st'_def st0_def)
  have ix: "identity_key e (bare p) \<notin> (\<lambda>(i, m, d). identity_key e m) ` set (index_to_peer st')"
  proof
    assume "identity_key e (bare p) \<in> (\<lambda>(i, m, d). identity_key e m) ` set (index_to_peer st')"
    then obtain i m d where "(i, m, d) \<in> set (index_to_peer st')" "identity_key e m = identity_key e (bare p)" by auto
    then obtain x where "slot_at (peers st') (identity_key e (bare p)) d = Some x"
      using inv(1) unfolding relay_inv_def index_ok_def by (metis hm_get_in)
    then show False using ends by (simp add: endpoints_def slot_at_def)
  qed
  have rooms: "bare p \<notin> \<Union> (set ` snd ` set (relay_rooms st'))"
    unfolding st'_def remove_peer_def Let_def by (rule rooms_membership_removed)
  have "hm_get (peer_game_session st') (bare p) = None"
    unfolding st'_def remove_peer_def Let_def by (rule session_membership_removed)
  then have games: "bare p \<notin> set (members_of (game_sessions st') s)" for s
    using inv(2) by (simp add: games_inv_def games_ok_def)
  have "hm_wf (game_sessions st')" using inv(2) by (simp add: games_inv_def games_ok_def table_ok_def)
  then have "bare p \<notin> set ms" if "(s, ms) \<in> set (game_sessions st')" for s ms
    using games [of s] that by (simp add: members_of_def flip: hm_get_in)
  then have games': "bare p \<notin> \<Union> (set ` snd ` set (game_sessions st'))" by auto
  have rev: "revoke_peer e st g1 p =
      (map (\<lambda>(_, x). CloseConn (connection x) ''revoked'') (endpoints e (peers st) (bare p)), st', clear_quotas g1 (bare p))"
    by (simp add: revoke_peer_def Let_def st'_def st0_def)
  show ?thesis
    unfolding Let_def st_def [symmetric] rev prod.case
    using na ends ix rooms games' by (simp add: on_datagram_def) (simp add: st'_def st0_def)
qed

subsection \<open>Where rooms do not behave as described\<close>

text \<open>
  A sibling device's leave removes a device from a room it is in. Two devices of one identity
  join a room over signaling before either has a relay connection, and one of them leaves; the
  membership of the identity goes although the other device's assignment stays. When that device
  connects, it is registered in the room and believes to be in it, but the room has no members:
  a broadcast of the room never reaches it.
\<close>

theorem sibling_leave_orphans_device:
  assumes "d1 \<noteq> d2"
  shows "let st = relay_new True;
      st = snd (relay_join_room_endpoint e st p (Some d1) r);
      st = snd (relay_join_room_endpoint e st p (Some d2) r);
      st = relay_leave_room_endpoint e st p (Some d1);
      (res, _, st) = accept_connection e (allow_peer st p) (bare p) (Some d2) c a True
    in res = Connected 1 \<and> map_option peer_room_id (get_endpoint e (peers st) (bare p) (Some d2)) = Some (Some r) \<and>
       get_room_peers st r = []"
proof -
  let ?k = "identity_key e (bare p)" and ?b = "bare p"
  define s0 where "s0 = relay_new True"
  have j1: "snd (relay_join_room_endpoint e s0 p (Some d1) r) =
      s0\<lparr>room_assignments := [(?k, [(Some d1, r)])], relay_rooms := [(r, [?b])]\<rparr>"
    by (simp add: s0_def relay_new_def relay_join_room_endpoint_def assign_room_def register_device_def slots_def
        routes_default_def Let_def MAX_LIVE_DEVICE_ROUTES_def hm_keys_def get_endpoint_def get_endpoint_mut_def
        hm_modify_def add_member_def hs_insert_def)
  have j2: "snd (relay_join_room_endpoint e (s0\<lparr>room_assignments := [(?k, [(Some d1, r)])], relay_rooms := [(r, [?b])]\<rparr>) p (Some d2) r) =
      s0\<lparr>room_assignments := [(?k, [(Some d1, r), (Some d2, r)])], relay_rooms := [(r, [?b])]\<rparr>"
    using assms
    by (simp add: s0_def relay_new_def relay_join_room_endpoint_def assign_room_def register_device_def slots_def
        routes_default_def Let_def MAX_LIVE_DEVICE_ROUTES_def hm_keys_def get_endpoint_def get_endpoint_mut_def
        hm_modify_def add_member_def hs_insert_def hm_get_def)
  have l: "relay_leave_room_endpoint e (s0\<lparr>room_assignments := [(?k, [(Some d1, r), (Some d2, r)])], relay_rooms := [(r, [?b])]\<rparr>) p (Some d1) =
      s0\<lparr>room_assignments := [(?k, [(Some d2, r)])], relay_rooms := []\<rparr>"
    using assms
    by (simp add: s0_def relay_new_def relay_leave_room_endpoint_def remove_assignment_def remove_endpoint_if_def slots_def
        routes_default_def Let_def get_endpoint_def get_endpoint_mut_def endpoints_def
        hm_modify_def drop_member_def hs_remove_def hm_get_def hm_remove_def)
  have al: "alloc_loop 255 used 1 1 = Some (Some 1, 2)" if "\<not> used 1" for used :: "u8 \<Rightarrow> bool"
    using alloc_loop.simps(2) [of 254 used 1 1] that by (simp add: index_succ_def)
  show ?thesis
    unfolding Let_def s0_def [symmetric] j1 j2 l
    by (simp add: s0_def relay_new_def allow_peer_def accept_connection_def register_connection_def hs_insert_def
        get_endpoint_def routes_default_def routes_len_def MAX_PEERS_def endpoints_def slots_def drop_replaced_def
        prior_room_def allocate_index_def al existing_room_def register_device_def MAX_LIVE_DEVICE_ROUTES_def hm_keys_def
        hm_values_def hm_get_def get_room_peers_def members_of_def Let_def)
qed

theorem sibling_leave_orphans_device_witness:
  "\<exists>e. let st = relay_new True;
      st = snd (relay_join_room_endpoint e st ''alice'' (Some [1]) ''lobby'');
      st = snd (relay_join_room_endpoint e st ''alice'' (Some [2]) ''lobby'');
      st = relay_leave_room_endpoint e st ''alice'' (Some [1]);
      (res, _, st) = accept_connection e (allow_peer st ''alice'') (bare ''alice'') (Some [2]) 7 ''addr'' True
    in res = Connected 1 \<and> map_option peer_room_id (get_endpoint e (peers st) (bare ''alice'') (Some [2])) = Some (Some ''lobby'') \<and>
       get_room_peers st ''lobby'' = []"
  by (rule exI [of _ "\<lparr>no_pad_decode = \<lambda>_. None, url_safe_encode = \<lambda>_. []\<rparr>"], rule sibling_leave_orphans_device) simp

text \<open>
  A peer with full access can put itself in any room. A connected endpoint that is in no room
  and sends one room-audio broadcast becomes a member of whatever room the unverified JSON of the
  frame names, with its endpoint assigned there; no admission of the room is consulted. Until
  then the same-room check refuses its direct datagrams to that room's members.
\<close>

theorem audio_heal_joins_any_room:
  assumes "p \<in> set (allowed st)" "has_audio_bridge env"
    and "get_endpoint (engines env) (peers st) p d = Some q" "connection q = c" "peer_room_id q = None"
    and "room_id_from_room_audio_payload (parse_json env) (ROOM_AUDIO_TAG # body) = Some r"
    and "hm_get (inner g) ''room.audio.sfu'' = None"
  shows "let (outs, st', g') = on_datagram env st g p (d, c) (BROADCAST_INDEX # ROOM_AUDIO_TAG # body)
    in outs = [RoomAudioBridge p (peer_index q) r (ROOM_AUDIO_TAG # body)] \<and>
       p \<in> set (get_room_peers st' r) \<and>
       map_option peer_room_id (get_endpoint (engines env) (peers st') p d) = Some (Some r) \<and>
       direct_recipient (engines env) st i q = []"
proof -
  have f: "relay_datagram_feature (ROOM_AUDIO_TAG # body) = (''room.audio.sfu'', Suc (length body))"
    by (simp add: relay_datagram_feature_def feature_for_fixed_tag_def ROOM_AUDIO_TAG_def CONTROL_TAG_def AUDIO_TAG_def
        CHAT_TAG_def FILE_TAG_def GAME_RELAY_TAG_def VIDEO_TAG_def ROOM_VIDEO_TAG_def CONTENT_AUDIO_TAG_def ROOM_CONTENT_AUDIO_TAG_def)
  have "direct_recipient (engines env) st i q = []"
    using assms(5) by (auto simp: direct_recipient_def split: option.splits)
  moreover have "on_datagram env st g p (d, c) (BROADCAST_INDEX # ROOM_AUDIO_TAG # body) =
      (fst (room_audio_handoff env st p d q (ROOM_AUDIO_TAG # body)), snd (room_audio_handoff env st p d q (ROOM_AUDIO_TAG # body)), g)"
    using assms f
    by (simp add: on_datagram_def handle_datagram_def parse_datagram_def gate_inbound_through_feature_def Let_def case_prod_beta)
  ultimately show ?thesis
    using assms by (simp add: room_audio_handoff_def Let_def get_room_peers_def members_of_add get_endpoint_slot slot_at_mut)
qed

definition heal_env :: relay_env where
  "heal_env = \<lparr>engines = \<lparr>no_pad_decode = \<lambda>_. None, url_safe_encode = \<lambda>_. []\<rparr>, clock = 0, sends = \<lambda>_ _. True,
     parse_json = \<lambda>_. Some (JObj [(''payload'', JObj [(''room_id'', JStr ''vip'')])]),
     has_audio_bridge = True, has_game_bridge = False, has_video_bridge = False\<rparr>"

definition heal_peer :: RelayPeer where
  "heal_peer = \<lparr>peer_index = 1, connection = 7, peer_room_id = None, bytes_relayed = 0, remote_addr = []\<rparr>"

definition heal_state :: RelayState where
  "heal_state = (relay_new True)\<lparr>allowed := [''mallory''], peers := [(''mallory'', [(None, heal_peer)])],
     index_to_peer := [(1, ''mallory'', None)]\<rparr>"

theorem audio_heal_joins_any_room_witness:
  "let (outs, st', g') = on_datagram heal_env heal_state (registry_new :: unit FeatureRegistry) ''mallory'' (None, 7)
       (BROADCAST_INDEX # ROOM_AUDIO_TAG # [32])
   in outs = [RoomAudioBridge ''mallory'' (peer_index heal_peer) ''vip'' (ROOM_AUDIO_TAG # [32])] \<and>
      ''mallory'' \<in> set (get_room_peers st' ''vip'') \<and>
      map_option peer_room_id (get_endpoint (engines heal_env) (peers st') ''mallory'' None) = Some (Some ''vip'') \<and>
      direct_recipient (engines heal_env) heal_state 2 heal_peer = []"
proof (rule audio_heal_joins_any_room)
  show "get_endpoint (engines heal_env) (peers heal_state) ''mallory'' None = Some heal_peer"
    by (simp add: heal_env_def heal_state_def get_endpoint_def identity_key_def hm_get_def)
  show "room_id_from_room_audio_payload (parse_json heal_env) (ROOM_AUDIO_TAG # [32]) = Some ''vip''"
    by (simp add: room_id_from_room_audio_payload_def from_utf8_def heal_env_def)
qed (simp_all add: heal_env_def heal_state_def heal_peer_def registry_new_def)

end
