(* ===== verification/Group_Key.thy ===== *)
theory Group_Key
  imports Prelude "HOL-Library.List_Lexorder" "HOL-Library.Char_ord"
begin

section \<open>Group keys of a room (\<open>group_key.rs\<close>) and the policy around them (\<open>room_session.rs\<close>)\<close>

text \<open>
  A room's members seal voice, video, chat and files under an epoch key that one elected member
  mints and hands out. The random keys and the clock are arguments; AES-GCM and HKDF are the
  \<open>aes_gcm\<close> and \<open>hkdf\<close> crates and enter as the fields of the record \<open>primitives\<close>. Epochs are
  bytes and wrap. A \<open>BTreeMap\<close> is an association list with distinct keys; its first key is the
  minimum.
\<close>

record primitives =
  gcm_encrypt :: "bytes \<Rightarrow> bytes \<Rightarrow> bytes \<Rightarrow> bytes \<Rightarrow> bytes option"
  gcm_decrypt :: "bytes \<Rightarrow> bytes \<Rightarrow> bytes \<Rightarrow> bytes \<Rightarrow> bytes option"
  hkdf_expand :: "bytes \<Rightarrow> bytes \<Rightarrow> bytes option"

definition VOICE_NONCE_LEN :: nat where "VOICE_NONCE_LEN = 12"
definition VOICE_HEADER_LEN :: nat where "VOICE_HEADER_LEN = 1 + VOICE_NONCE_LEN"
definition GROUP_KEY_LEN :: nat where "GROUP_KEY_LEN = 32"
definition MAX_RETAINED_EPOCHS :: nat where "MAX_RETAINED_EPOCHS = 4"

subsection \<open>Per-conversation state\<close>

record GroupState =
  current :: u8
  seen_high :: "u8 option"
  current_since :: "real option"
  keys :: "(u8, bytes) hmap"

definition group_default :: GroupState where
  "group_default = \<lparr>current = 0, seen_high = None, current_since = None, keys = []\<rparr>"

definition note_seen :: "GroupState \<Rightarrow> u8 \<Rightarrow> GroupState" where
  "note_seen s epoch =
     s\<lparr>seen_high := Some (case seen_high s of Some high \<Rightarrow> if high \<ge> epoch then high else epoch | None \<Rightarrow> epoch)\<rparr>"

fun first_key :: "(u8, bytes) hmap \<Rightarrow> u8 option" where
  "first_key [] = None"
| "first_key ((e, _) # m) = Some (case first_key m of Some e' \<Rightarrow> min e e' | None \<Rightarrow> e)"

lemma first_key_Some: "first_key m = Some e \<longleftrightarrow> m \<noteq> [] \<and> e = Min (fst ` set m)"
proof (induction m arbitrary: e)
  case (Cons p m)
  show ?case
  proof (cases "m = []")
    case False
    then have "first_key m = Some (Min (fst ` set m))" using Cons [of "Min (fst ` set m)"] by simp
    then show ?thesis using False by (cases p) auto
  qed (cases p, auto)
qed simp

text \<open>The loop at the end of \<open>install\<close>: drop the lowest-numbered epoch until four are left.\<close>

function drop_oldest :: "(u8, bytes) hmap \<Rightarrow> (u8, bytes) hmap" where
  "drop_oldest m =
     (if length m > MAX_RETAINED_EPOCHS
      then case first_key m of Some oldest \<Rightarrow> drop_oldest (hm_remove oldest m) | None \<Rightarrow> m
      else m)"
  by pat_completeness auto
termination
proof (relation "measure length")
  fix m :: "(u8, bytes) hmap" and e
  assume "first_key m = Some e"
  then have "m \<noteq> []" "e \<in> fst ` set m" by (auto simp: first_key_Some intro: Min_in)
  then show "(hm_remove e m, m) \<in> measure length"
    by (auto simp: hm_remove_def intro!: length_filter_less)
qed simp

declare drop_oldest.simps [simp del]

definition state_install :: "GroupState \<Rightarrow> u8 \<Rightarrow> bytes \<Rightarrow> real \<Rightarrow> GroupState" where
  "state_install s epoch key now =
     (let s = s\<lparr>keys := hm_insert epoch key (keys s)\<rparr>;
          s = (if current s \<noteq> epoch \<or> current_since s = None then s\<lparr>current_since := Some now\<rparr> else s);
          s = note_seen (s\<lparr>current := epoch\<rparr>) epoch
      in s\<lparr>keys := drop_oldest (keys s)\<rparr>)"

definition has_keys :: "GroupState \<Rightarrow> bool" where
  "has_keys s \<longleftrightarrow> keys s \<noteq> []"

definition next_epoch :: "GroupState \<Rightarrow> u8" where
  "next_epoch s =
     (let floor = (case seen_high s of Some high \<Rightarrow> if high \<ge> current s then high else current s
                   | None \<Rightarrow> current s)
      in floor + 1)"

subsection \<open>All conversations\<close>

type_synonym SenderKeysGroup = "(string, GroupState) hmap"

definition group_of :: "SenderKeysGroup \<Rightarrow> string \<Rightarrow> GroupState" where
  "group_of g conv_id = (case hm_get g conv_id of Some s \<Rightarrow> s | None \<Rightarrow> group_default)"

definition new_owner_epoch :: "SenderKeysGroup \<Rightarrow> string \<Rightarrow> bytes \<Rightarrow> real \<Rightarrow> (u8 \<times> bytes) \<times> SenderKeysGroup" where
  "new_owner_epoch g conv_id key now =
     (let epoch = (case hm_get g conv_id of Some s \<Rightarrow> next_epoch s | None \<Rightarrow> 0);
          s = group_default\<lparr>seen_high := (case hm_get g conv_id of Some s \<Rightarrow> seen_high s | None \<Rightarrow> None)\<rparr>;
          s = state_install s epoch key now
      in ((epoch, key), hm_insert conv_id s g))"

definition note_observed_epoch :: "SenderKeysGroup \<Rightarrow> string \<Rightarrow> u8 \<Rightarrow> SenderKeysGroup" where
  "note_observed_epoch g conv_id epoch = hm_insert conv_id (note_seen (group_of g conv_id) epoch) g"

definition is_behind :: "SenderKeysGroup \<Rightarrow> string \<Rightarrow> bool" where
  "is_behind g conv_id =
     (case hm_get g conv_id of
        None \<Rightarrow> False
      | Some s \<Rightarrow> (case seen_high s of Some high \<Rightarrow> \<not> hm_contains (keys s) high | None \<Rightarrow> False))"

definition rotate_key :: "SenderKeysGroup \<Rightarrow> string \<Rightarrow> bytes \<Rightarrow> real \<Rightarrow> (u8 \<times> bytes) \<times> SenderKeysGroup" where
  "rotate_key g conv_id key now =
     (case hm_get g conv_id of
        None \<Rightarrow> new_owner_epoch g conv_id key now
      | Some s \<Rightarrow>
          let next = next_epoch s
          in ((next, key), hm_insert conv_id (state_install s next key now) g))"

definition group_install :: "SenderKeysGroup \<Rightarrow> string \<Rightarrow> u8 \<Rightarrow> bytes \<Rightarrow> real \<Rightarrow> SenderKeysGroup" where
  "group_install g conv_id epoch key now =
     hm_insert conv_id (state_install (group_of g conv_id) epoch key now) g"

definition has_key :: "SenderKeysGroup \<Rightarrow> string \<Rightarrow> bool" where
  "has_key g conv_id = True"

definition has_real_key :: "SenderKeysGroup \<Rightarrow> string \<Rightarrow> bool" where
  "has_real_key g conv_id = (case hm_get g conv_id of Some s \<Rightarrow> has_keys s | None \<Rightarrow> False)"

definition current_epoch_age :: "SenderKeysGroup \<Rightarrow> string \<Rightarrow> real \<Rightarrow> real option" where
  "current_epoch_age g conv_id now =
     (case hm_get g conv_id of
        None \<Rightarrow> None
      | Some s \<Rightarrow> if has_keys s then map_option (\<lambda>since. max 0 (now - since)) (current_since s) else None)"

definition forget_group :: "SenderKeysGroup \<Rightarrow> string \<Rightarrow> SenderKeysGroup" where
  "forget_group g conv_id = hm_remove conv_id g"

definition ROOM_KEY_INFO :: string where "ROOM_KEY_INFO = ''doubleslash-room-key/v1''"

definition deterministic_room_key :: "primitives \<Rightarrow> string \<Rightarrow> bytes" where
  "deterministic_room_key prm conv_id =
     (let info = as_bytes ROOM_KEY_INFO @ as_bytes ''|'' @ as_bytes conv_id
      in case hkdf_expand prm (as_bytes conv_id) info of Some k \<Rightarrow> k | None \<Rightarrow> replicate 32 0)"

definition current_epoch :: "SenderKeysGroup \<Rightarrow> string \<Rightarrow> u8" where
  "current_epoch g conv_id =
     (case hm_get g conv_id of Some s \<Rightarrow> if has_keys s then current s else 0 | None \<Rightarrow> 0)"

definition epoch_key :: "primitives \<Rightarrow> SenderKeysGroup \<Rightarrow> string \<Rightarrow> u8 \<Rightarrow> bytes option" where
  "epoch_key prm g conv_id epoch =
     (if has_real_key g conv_id then hm_get (keys (group_of g conv_id)) epoch
      else if epoch = 0 then Some (deterministic_room_key prm conv_id) else None)"

subsection \<open>Frame and body codecs\<close>

definition aesgcm_encrypt :: "primitives \<Rightarrow> bytes \<Rightarrow> bytes \<Rightarrow> bytes \<Rightarrow> bytes \<Rightarrow> (bytes \<times> bytes) option" where
  "aesgcm_encrypt prm nonce key plaintext aad =
     (if length key \<noteq> 32 then None
      else map_option (\<lambda>ct. (nonce, ct)) (gcm_encrypt prm key nonce aad plaintext))"

definition aesgcm_decrypt :: "primitives \<Rightarrow> bytes \<Rightarrow> bytes \<Rightarrow> bytes \<Rightarrow> bytes \<Rightarrow> bytes option" where
  "aesgcm_decrypt prm key nonce ciphertext aad =
     (if length key \<noteq> 32 then None
      else if length nonce \<noteq> 12 then None
      else gcm_decrypt prm key nonce aad ciphertext)"

definition length_prefixed :: "string \<Rightarrow> bytes" where
  "length_prefixed s = be_bytes 4 (length s mod 2 ^ 32) @ as_bytes s"

definition voice_aad :: "string \<Rightarrow> string \<Rightarrow> u64 \<Rightarrow> bytes" where
  "voice_aad conv_id sender sequence =
     length_prefixed conv_id @ length_prefixed sender @ be_bytes 8 (unat sequence)"

datatype MediaKind = Voice | Video | ContentAudio

definition media_aad :: "MediaKind \<Rightarrow> string \<Rightarrow> string \<Rightarrow> u64 \<Rightarrow> bytes" where
  "media_aad mk conv_id sender sequence =
     voice_aad conv_id sender sequence @
       (case mk of Voice \<Rightarrow> [] | Video \<Rightarrow> [0x02] | ContentAudio \<Rightarrow> [0x03])"

definition chat_aad :: "string \<Rightarrow> string \<Rightarrow> string \<Rightarrow> bytes" where
  "chat_aad conv_id sender message_id = concat (map length_prefixed [conv_id, sender, message_id])"

definition file_chunk_aad :: "string \<Rightarrow> string \<Rightarrow> string \<Rightarrow> u64 \<Rightarrow> bytes" where
  "file_chunk_aad conv_id sender transfer_id chunk_index =
     concat (map length_prefixed [conv_id, sender, transfer_id]) @ be_bytes 8 (unat chunk_index)"

text \<open>\<open>&dyn GroupKeySource\<close> is the pair of its methods.\<close>

record key_source =
  src_current_epoch :: "string \<Rightarrow> u8"
  src_epoch_key :: "string \<Rightarrow> u8 \<Rightarrow> bytes option"

definition seal_with :: "primitives \<Rightarrow> bytes \<Rightarrow> key_source \<Rightarrow> string \<Rightarrow> bytes \<Rightarrow> bytes \<Rightarrow> (u8 \<times> bytes) option" where
  "seal_with prm nonce ks conv_id aad plaintext =
     (let epoch = src_current_epoch ks conv_id
      in case src_epoch_key ks conv_id epoch of
           None \<Rightarrow> None
         | Some key \<Rightarrow>
             map_option (\<lambda>(n, ct). (epoch, n @ ct)) (aesgcm_encrypt prm nonce key plaintext aad))"

definition open_with :: "primitives \<Rightarrow> key_source \<Rightarrow> string \<Rightarrow> bytes \<Rightarrow> u8 \<Rightarrow> bytes \<Rightarrow> bytes option" where
  "open_with prm ks conv_id aad epoch sealed =
     (if length sealed < VOICE_NONCE_LEN then None
      else case src_epoch_key ks conv_id epoch of
             None \<Rightarrow> None
           | Some key \<Rightarrow> aesgcm_decrypt prm key (take VOICE_NONCE_LEN sealed) (drop VOICE_NONCE_LEN sealed) aad)"

definition seal_media_frame ::
  "primitives \<Rightarrow> bytes \<Rightarrow> key_source \<Rightarrow> MediaKind \<Rightarrow> string \<Rightarrow> string \<Rightarrow> u64 \<Rightarrow> bytes \<Rightarrow> bytes option" where
  "seal_media_frame prm nonce ks mk conv_id sender sequence plaintext =
     map_option (\<lambda>(epoch, sealed). epoch # sealed)
       (seal_with prm nonce ks conv_id (media_aad mk conv_id sender sequence) plaintext)"

definition open_media_frame ::
  "primitives \<Rightarrow> key_source \<Rightarrow> MediaKind \<Rightarrow> string \<Rightarrow> string \<Rightarrow> u64 \<Rightarrow> bytes \<Rightarrow> bytes option" where
  "open_media_frame prm ks mk conv_id sender sequence frame =
     (if length frame < VOICE_HEADER_LEN then None
      else open_with prm ks conv_id (media_aad mk conv_id sender sequence) (hd frame) (tl frame))"

definition seal_voice_frame ::
  "primitives \<Rightarrow> bytes \<Rightarrow> key_source \<Rightarrow> string \<Rightarrow> string \<Rightarrow> u64 \<Rightarrow> bytes \<Rightarrow> bytes option" where
  "seal_voice_frame prm nonce ks conv_id sender sequence opus = seal_media_frame prm nonce ks Voice conv_id sender sequence opus"

definition open_voice_frame :: "primitives \<Rightarrow> key_source \<Rightarrow> string \<Rightarrow> string \<Rightarrow> u64 \<Rightarrow> bytes \<Rightarrow> bytes option" where
  "open_voice_frame prm ks conv_id sender sequence frame = open_media_frame prm ks Voice conv_id sender sequence frame"

definition media_frame_epoch :: "bytes \<Rightarrow> u8 option" where
  "media_frame_epoch frame = (if length frame < VOICE_HEADER_LEN then None else Some (hd frame))"

definition seal_chat_body ::
  "primitives \<Rightarrow> bytes \<Rightarrow> key_source \<Rightarrow> string \<Rightarrow> string \<Rightarrow> string \<Rightarrow> bytes \<Rightarrow> (u8 \<times> bytes) option" where
  "seal_chat_body prm nonce ks conv_id sender message_id body =
     seal_with prm nonce ks conv_id (chat_aad conv_id sender message_id) body"

definition open_chat_body ::
  "primitives \<Rightarrow> key_source \<Rightarrow> string \<Rightarrow> string \<Rightarrow> string \<Rightarrow> u8 \<Rightarrow> bytes \<Rightarrow> bytes option" where
  "open_chat_body prm ks conv_id sender message_id epoch sealed =
     open_with prm ks conv_id (chat_aad conv_id sender message_id) epoch sealed"

definition seal_file_chunk ::
  "primitives \<Rightarrow> bytes \<Rightarrow> key_source \<Rightarrow> string \<Rightarrow> string \<Rightarrow> string \<Rightarrow> u64 \<Rightarrow> bytes \<Rightarrow> (u8 \<times> bytes) option" where
  "seal_file_chunk prm nonce ks conv_id sender transfer_id chunk_index data =
     seal_with prm nonce ks conv_id (file_chunk_aad conv_id sender transfer_id chunk_index) data"

definition open_file_chunk ::
  "primitives \<Rightarrow> key_source \<Rightarrow> string \<Rightarrow> string \<Rightarrow> string \<Rightarrow> u64 \<Rightarrow> u8 \<Rightarrow> bytes \<Rightarrow> bytes option" where
  "open_file_chunk prm ks conv_id sender transfer_id chunk_index epoch sealed =
     open_with prm ks conv_id (file_chunk_aad conv_id sender transfer_id chunk_index) epoch sealed"

definition sender_keys :: "primitives \<Rightarrow> SenderKeysGroup \<Rightarrow> key_source" where
  "sender_keys prm g = \<lparr>src_current_epoch = current_epoch g, src_epoch_key = epoch_key prm g\<rparr>"

subsection \<open>The key-source contract\<close>

text \<open>
  What the codecs rely on in a \<open>GroupKeySource\<close>: with no distributed key the epoch is zero and only
  that epoch has a key, the fallback. The codecs' round trip is proved for every such source.
\<close>

locale group_key_source =
  fixes src :: key_source and real_key :: "string \<Rightarrow> bool"
  assumes fallback_epoch: "\<not> real_key c \<Longrightarrow> src_current_epoch src c = 0"
    and fallback_key: "\<not> real_key c \<Longrightarrow> (src_epoch_key src c e \<noteq> None) = (e = 0)"
begin

lemma open_seal:
  assumes "seal_with prm nonce src c aad pt = Some (e, sealed)" "length nonce = 12"
    and "\<And>k ct. gcm_encrypt prm k nonce aad pt = Some ct \<Longrightarrow> gcm_decrypt prm k nonce aad ct = Some pt"
    and "src_epoch_key dst c e = src_epoch_key src c e"
  shows "open_with prm dst c aad e sealed = Some pt"
  using assms
  by (auto simp: seal_with_def open_with_def aesgcm_encrypt_def aesgcm_decrypt_def Let_def VOICE_NONCE_LEN_def
      split: option.splits if_splits)

lemma seal_epoch: "seal_with prm nonce src c aad pt = Some (e, sealed) \<Longrightarrow> e = src_current_epoch src c"
  by (auto simp: seal_with_def Let_def split: option.splits)

lemma seal_fallback: "\<not> real_key c \<Longrightarrow> seal_with prm nonce src c aad pt = Some (e, sealed) \<Longrightarrow> e = 0"
  using seal_epoch fallback_epoch by metis

end

interpretation sk: group_key_source "sender_keys prm g" "has_real_key g" for prm g
  by unfold_locales
    (auto simp: sender_keys_def has_real_key_def current_epoch_def epoch_key_def split: option.splits)

subsection \<open>Which epochs are retained\<close>

definition above :: "u8 set \<Rightarrow> u8 \<Rightarrow> u8 set" where
  "above E e = {e' \<in> E. e < e'}"

definition top4 :: "u8 set \<Rightarrow> u8 set" where
  "top4 E = {e \<in> E. card (above E e) < 4}"

lemma drop_oldest_le: "length m \<le> 4 \<Longrightarrow> drop_oldest m = m"
  by (subst drop_oldest.simps) (simp add: MAX_RETAINED_EPOCHS_def)

lemma drop_oldest_five:
  assumes "length m = 5" "hm_wf m"
  shows "drop_oldest m = hm_remove (Min (fst ` set m)) m"
proof -
  have ne: "m \<noteq> []" using assms(1) by auto
  then have f: "first_key m = Some (Min (fst ` set m))" by (simp add: first_key_Some)
  have "Min (fst ` set m) \<in> fst ` set m" using ne by (intro Min_in) auto
  then have "Suc (length (hm_remove (Min (fst ` set m)) m)) = length m"
    using assms(2) by (intro length_hm_remove) (simp_all add: hm_contains_def)
  then show ?thesis
    by (subst drop_oldest.simps) (simp add: MAX_RETAINED_EPOCHS_def assms(1) f drop_oldest_le)
qed

lemma above_insert: "finite E \<Longrightarrow> card (above (insert e E) x) = card (above E x) + (if x < e \<and> e \<notin> E then 1 else 0)"
proof -
  assume "finite E"
  then have "finite (above E x)" by (simp add: above_def)
  moreover have "above (insert e E) x = (if x < e then insert e (above E x) else above E x)"
    by (auto simp: above_def)
  ultimately show ?thesis by (auto simp: card_insert_if above_def)
qed

lemma top4_mono_above: "finite E \<Longrightarrow> x \<in> E \<Longrightarrow> y \<in> E \<Longrightarrow> x < y \<Longrightarrow> card (above E y) < card (above E x)"
  by (rule psubset_card_mono) (auto simp: above_def)

lemma card_top4: "finite E \<Longrightarrow> card (top4 E) \<le> 4"
proof -
  assume fin: "finite E"
  have "inj_on (\<lambda>e. card (above E e)) (top4 E)"
    using top4_mono_above [OF fin] by (intro linorder_inj_onI') (auto simp: top4_def, fastforce)
  then have "card (top4 E) = card ((\<lambda>e. card (above E e)) ` top4 E)" by (simp add: card_image)
  also have "\<dots> \<le> card {..<4 :: nat}" by (rule card_mono) (auto simp: top4_def)
  finally show ?thesis by simp
qed

lemma top4_small: "finite S \<Longrightarrow> card S \<le> 4 \<Longrightarrow> top4 S = S"
proof -
  assume S: "finite S" "card S \<le> 4"
  have "card (above S x) < 4" if "x \<in> S" for x
  proof -
    have "above S x \<subset> S" using that by (auto simp: above_def)
    then have "card (above S x) < card S" by (rule psubset_card_mono [OF S(1)])
    then show ?thesis using S(2) by simp
  qed
  then show ?thesis by (auto simp: top4_def)
qed

lemma top4_five:
  assumes "finite S" "card S = 5"
  shows "top4 S = S - {Min S}"
proof -
  have ne: "S \<noteq> {}" using assms by auto
  have "above S (Min S) = S - {Min S}"
    using assms(1) by (auto simp: above_def less_le)
  then have min: "card (above S (Min S)) = 4" using assms ne by (simp add: card_Diff_singleton)
  have "card (above S x) < 4" if "x \<in> S" "x \<noteq> Min S" for x
  proof -
    have "above S x \<subset> S - {Min S}"
    proof
      show "above S x \<subseteq> S - {Min S}" using assms(1) Min_le [of S x] that by (auto simp: above_def not_less [symmetric])
      show "above S x \<noteq> S - {Min S}" using that by (auto simp: above_def)
    qed
    then have "card (above S x) < card (S - {Min S})" by (rule psubset_card_mono [rotated]) (use assms in simp)
    then show ?thesis using assms ne by (simp add: card_Diff_singleton)
  qed
  then show ?thesis using min ne assms(1) by (auto simp: top4_def)
qed

lemma above_top4: "finite E \<Longrightarrow> card (above (top4 E) x) = min 4 (card (above E x))"
proof (induction arbitrary: x rule: finite_linorder_min_induct)
  case empty
  then show ?case by (simp add: above_def top4_def)
next
  case (insert b A)
  have bA: "above A b = A" "above (top4 A) b = top4 A" using insert(2) by (auto simp: above_def top4_def)
  have c: "card (top4 A) = min 4 (card A)" using insert(3) [of b] bA by simp
  have nb: "b \<notin> A" using insert(2) by auto
  have ab: "above (insert b A) y = (if y < b then insert b A else above A y)" for y
    using insert(2) by (auto simp: above_def dest: order.strict_trans)
  have t: "top4 (insert b A) = (if card A < 4 then insert b (top4 A) else top4 A)"
    using insert(2) nb bA(1) by (auto simp: top4_def ab dest: order.asym)
  show ?case
  proof (cases "x < b")
    case True
    then have "above (top4 (insert b A)) x = top4 (insert b A)"
      using insert(2) by (auto simp: above_def top4_def dest: order.strict_trans)
    moreover have "card (top4 (insert b A)) = min 4 (Suc (card A))"
      using t c nb insert(1) by (auto simp: card_insert_if top4_def)
    ultimately show ?thesis using True insert(1) nb by (simp add: ab)
  next
    case False
    then have "above (top4 (insert b A)) x = above (top4 A) x" by (auto simp: t above_def)
    then show ?thesis using insert(3) [of x] False by (simp add: ab)
  qed
qed

lemma top4_insert_top4:
  assumes "finite E"
  shows "top4 (insert e (top4 E)) = top4 (insert e E)"
proof -
  have fin: "finite (top4 E)" using assms by (simp add: top4_def)
  have sub: "top4 E \<subseteq> E" by (auto simp: top4_def)
  have iff: "card (above (insert e (top4 E)) x) < 4 \<longleftrightarrow> card (above (insert e E) x) < 4" for x
  proof (cases "e \<in> E \<and> e \<notin> top4 E")
    case True
    then have "card (above E e) \<ge> 4" by (auto simp: top4_def)
    moreover have "above E e \<subseteq> above E x" if "x < e" using that by (auto simp: above_def)
    ultimately have "card (above E x) \<ge> 4" if "x < e"
      using that card_mono [of "above E x" "above E e"] assms by (auto simp: above_def intro: order_trans)
    then show ?thesis
      using True above_top4 [OF assms, of x] by (auto simp: above_insert [OF assms] above_insert [OF fin])
  next
    case False
    then have "e \<in> E \<longleftrightarrow> e \<in> top4 E" using sub by auto
    then show ?thesis
      using above_top4 [OF assms, of x] by (auto simp: above_insert [OF assms] above_insert [OF fin])
  qed
  have "card (above (insert e E) x) \<ge> card (above E x)" for x
    by (simp add: above_insert [OF assms])
  then have "x \<in> top4 E \<or> x = e" if "x \<in> top4 (insert e E)" for x
    using that by (auto simp: top4_def intro: le_less_trans)
  then show ?thesis using iff sub by (auto simp: top4_def [of "insert e (top4 E)"] top4_def [of "insert e E"])
qed

lemma drop_oldest_top4:
  assumes "hm_wf m" "length m \<le> 5"
  shows "hm_wf (drop_oldest m)"
    and "hm_get (drop_oldest m) x = (if x \<in> top4 (fst ` set m) then hm_get m x else None)"
proof -
  have card: "card (fst ` set m) = length m"
    using length_hm_card [OF assms(1)] by simp
  have none: "x \<notin> fst ` set m \<Longrightarrow> hm_get m x = None" by (simp add: hm_get_None_iff)
  have "hm_wf (drop_oldest m) \<and> hm_get (drop_oldest m) x = (if x \<in> top4 (fst ` set m) then hm_get m x else None)"
  proof (cases "length m = 5")
    case True
    then show ?thesis
      using assms card none drop_oldest_five [OF True assms(1)] top4_five [of "fst ` set m"]
      by (auto simp: hm_wf_remove hm_get_remove)
  next
    case False
    then have "length m \<le> 4" using assms(2) by simp
    then show ?thesis using assms card none drop_oldest_le [of m] top4_small [of "fst ` set m"] by auto
  qed
  then show "hm_wf (drop_oldest m)"
    and "hm_get (drop_oldest m) x = (if x \<in> top4 (fst ` set m) then hm_get m x else None)" by simp_all
qed

end
