(* ===== verification/Group_Key_Props.thy ===== *)
theory Group_Key_Props
  imports Group_Key
begin

section \<open>Properties of group keys\<close>

text \<open>
  Which epoch keys a member holds after any key deliveries, that frames in flight across a rekey
  still open, what rotation does up to and beyond the last epoch number, and that associated data
  determines what it was built from.
\<close>

abbreviation install_all :: "GroupState \<Rightarrow> (u8 \<times> bytes \<times> real) list \<Rightarrow> GroupState" where
  "install_all s hist \<equiv> foldl (\<lambda>s (e, k, t). state_install s e k t) s hist"

definition delivered :: "(u8 \<times> bytes \<times> real) list \<Rightarrow> u8 \<Rightarrow> bytes option" where
  "delivered hist = map_of (rev (map (\<lambda>(e, k, t). (e, k)) hist))"

lemma delivered_snoc: "delivered (hist @ [(e, k, t)]) x = (if x = e then Some k else delivered hist x)"
  by (simp add: delivered_def)

lemma delivered_None_iff: "delivered hist y = None \<longleftrightarrow> y \<notin> set (map fst hist)"
  by (force simp: delivered_def map_of_eq_None_iff)

lemma keys_install: "keys (state_install s e k t) = drop_oldest (hm_insert e k (keys s))"
  by (simp add: state_install_def note_seen_def Let_def)

lemma install_all_keys:
  "hm_wf (keys (install_all group_default hist)) \<and>
   hm_get (keys (install_all group_default hist)) x =
     (if x \<in> top4 (set (map fst hist)) then delivered hist x else None)"
proof (induction hist arbitrary: x rule: rev_induct)
  case Nil
  then show ?case by (simp add: group_default_def hm_wf_def top4_def)
next
  case (snoc h hist)
  obtain e k t where h: "h = (e, k, t)" by (cases h)
  let ?m = "keys (install_all group_default hist)" and ?E = "set (map fst hist)"
  have wf: "hm_wf ?m" using snoc by blast
  have fin: "finite ?E" by simp
  have del: "delivered hist y \<noteq> None \<longleftrightarrow> y \<in> ?E" for y
    by (simp add: delivered_None_iff)
  have dom: "fst ` set ?m = top4 ?E"
  proof -
    have "y \<in> fst ` set ?m \<longleftrightarrow> hm_get ?m y \<noteq> None" for y by (simp add: hm_get_None_iff)
    also have "\<dots> y \<longleftrightarrow> y \<in> top4 ?E" for y
      using snoc [of y] del [of y] by (auto simp: top4_def)
    finally show ?thesis by blast
  qed
  have "length ?m = card (top4 ?E)"
    using length_hm_card [OF wf] dom by simp
  then have len: "length (hm_insert e k ?m) \<le> 5"
    using card_top4 [OF fin] length_hm_insert_le [of e k ?m] by linarith
  have wf': "hm_wf (hm_insert e k ?m)" using wf by (rule hm_wf_insert)
  have dom': "fst ` set (hm_insert e k ?m) = insert e (top4 ?E)" using dom by (simp add: set_fst_hm_insert)
  have "top4 (fst ` set (hm_insert e k ?m)) = top4 (set (map fst (hist @ [h])))"
    unfolding dom' using top4_insert_top4 [OF fin, of e] by (simp add: h)
  moreover have "hm_get (hm_insert e k ?m) x = delivered (hist @ [h]) x" if "x \<in> top4 (insert e (top4 ?E))"
  proof -
    have "x = e \<or> x \<in> top4 ?E" using that unfolding top4_def [of "insert e (top4 ?E)"] by blast
    then show ?thesis using snoc [of x] by (auto simp: hm_get_insert delivered_snoc h)
  qed
  ultimately show ?case
    using drop_oldest_top4 [OF wf' len] dom' by (simp add: h keys_install)
qed

lemma current_install_all: "hist \<noteq> [] \<Longrightarrow> current (install_all group_default hist) = fst (last hist)"
  by (induction hist rule: rev_induct) (auto simp: state_install_def note_seen_def Let_def)

lemma seen_install_all: "hist \<noteq> [] \<Longrightarrow> seen_high (install_all group_default hist) = Some (Max (set (map fst hist)))"
proof (induction hist rule: rev_induct)
  case (snoc h hist)
  obtain e k t where h: "h = (e, k, t)" by (cases h)
  show ?case
  proof (cases "hist = []")
    case True
    then show ?thesis by (simp add: h state_install_def note_seen_def group_default_def Let_def)
  next
    case False
    then have "Max (set (map fst (hist @ [h]))) = max e (Max (set (map fst hist)))"
      by (simp add: h)
    then show ?thesis using snoc.IH [OF False]
      by (simp add: h state_install_def note_seen_def Let_def max_def)
  qed
qed simp

text \<open>
  A member holds exactly the four highest epochs it was ever given. After any sequence of key
  deliveries, in any order, the key of an epoch is the last one delivered for it when fewer than
  four higher epochs have been delivered, and otherwise there is none; the epoch used for sealing
  is the one delivered last.
\<close>

theorem retained_epochs:
  "let s = foldl (\<lambda>s (e, k, t). state_install s e k t) group_default hist; E = fst ` set hist
   in hm_get (keys s) = (\<lambda>e. if e \<in> E \<and> card {e' \<in> E. e < e'} < 4
        then map_of (rev (map (\<lambda>(e, k, t). (e, k)) hist)) e else None) \<and>
      length (keys s) \<le> 4 \<and>
      current s = (case rev hist of [] \<Rightarrow> 0 | h # _ \<Rightarrow> fst h)"
proof -
  let ?s = "install_all group_default hist" and ?E = "set (map fst hist)"
  have wf: "hm_wf (keys ?s)" using install_all_keys by blast
  have get: "hm_get (keys ?s) e = (if e \<in> top4 ?E then delivered hist e else None)" for e
    using install_all_keys by blast
  have "y \<in> fst ` set (keys ?s) \<Longrightarrow> y \<in> top4 ?E" for y
    using get [of y] hm_get_None_iff [of "keys ?s" y] by (auto split: if_splits)
  then have "card (fst ` set (keys ?s)) \<le> card (top4 ?E)" by (intro card_mono) (auto simp: top4_def)
  moreover have "length (keys ?s) = card (fst ` set (keys ?s))"
    by (rule length_hm_card [OF wf])
  ultimately have "length (keys ?s) \<le> 4" using card_top4 [of ?E] by simp
  moreover have "current ?s = (case rev hist of [] \<Rightarrow> 0 | h # _ \<Rightarrow> fst h)"
    using current_install_all [of hist]
    by (cases hist rule: rev_cases) (simp_all add: group_default_def)
  ultimately show ?thesis
    unfolding Let_def using get by (simp add: fun_eq_iff top4_def above_def delivered_def)
qed

subsection \<open>Frames in flight across a rekey\<close>

lemma group_install_all:
  "hm_get (foldl (\<lambda>g (e, k, t). group_install g c e k t) [] hist) c =
     (if hist = [] then None else Some (install_all group_default hist))"
  by (induction hist rule: rev_induct) (auto simp: group_install_def group_of_def hm_get_insert hm_get_Cons)

lemma epoch_key_install_all:
  assumes "delivered hist e = Some k" "e \<in> top4 (set (map fst hist))"
  shows "epoch_key prm (foldl (\<lambda>g (e, k, t). group_install g c e k t) [] hist) c e = Some k"
proof -
  have ne: "hist \<noteq> []" using assms(1) by (auto simp: delivered_def)
  have "hm_get (keys (install_all group_default hist)) e = Some k" using install_all_keys [of hist e] assms by simp
  then show ?thesis
    using ne by (auto simp: epoch_key_def has_real_key_def has_keys_def group_of_def group_install_all)
qed

text \<open>
  C30: a rekey does not lose frames in flight. A media frame sealed by any member under its current
  epoch opens, to the very plaintext, at every member that was given the same key for that epoch,
  whatever other keys it was given, as long as fewer than four of all the epochs it was ever given for the
  conversation, before that key or after it, are higher; the primitive is only assumed to decrypt what it encrypted.
\<close>

theorem in_flight_frame_opens:
  assumes gcm: "\<forall>k ct. gcm_encrypt prm k nonce (media_aad mk conv_id sender seq) pt = Some ct \<longrightarrow>
      gcm_decrypt prm k nonce (media_aad mk conv_id sender seq) ct = Some pt"
    and nonce: "length nonce = 12"
    and sealed: "seal_media_frame prm nonce (sender_keys prm g) mk conv_id sender seq pt = Some frame"
    and key: "epoch_key prm g conv_id (current_epoch g conv_id) = Some k"
    and given: "map_of (rev (map (\<lambda>(e, k, t). (e, k)) hist)) (current_epoch g conv_id) = Some k"
    and recent: "card {e' \<in> fst ` set hist. current_epoch g conv_id < e'} < 4"
  shows "open_media_frame prm (sender_keys prm (foldl (\<lambda>g (e, k, t). group_install g conv_id e k t) [] hist))
      mk conv_id sender seq frame = Some pt"
proof -
  let ?aad = "media_aad mk conv_id sender seq" and ?e = "current_epoch g conv_id"
  let ?dst = "sender_keys prm (foldl (\<lambda>g (e, k, t). group_install g conv_id e k t) [] hist)"
  obtain e s where s: "seal_with prm nonce (sender_keys prm g) conv_id ?aad pt = Some (e, s)" "frame = e # s"
    using sealed by (auto simp: seal_media_frame_def)
  have e: "e = ?e" using sk.seal_epoch [OF s(1)] by (simp add: sender_keys_def)
  have "?e \<in> fst ` set hist"
    using given by (force dest: map_of_SomeD)
  then have "?e \<in> top4 (set (map fst hist))" using recent by (simp add: top4_def above_def)
  then have "epoch_key prm (foldl (\<lambda>g (e, k, t). group_install g conv_id e k t) [] hist) conv_id ?e = Some k"
    using given by (intro epoch_key_install_all) (simp_all add: delivered_def)
  then have "open_with prm ?dst conv_id ?aad e s = Some pt"
    using key e gcm by (intro sk.open_seal [OF s(1) nonce]) (simp_all add: sender_keys_def)
  moreover have "12 \<le> length s"
    using s(1) nonce by (auto simp: seal_with_def aesgcm_encrypt_def Let_def split: option.splits if_splits)
  ultimately show ?thesis
    using s(2) by (simp add: open_media_frame_def VOICE_HEADER_LEN_def VOICE_NONCE_LEN_def)
qed

definition plain_primitives :: primitives where
  "plain_primitives = \<lparr>gcm_encrypt = \<lambda>k n a p. Some p, gcm_decrypt = \<lambda>k n a c. Some c, hkdf_expand = \<lambda>i j. None\<rparr>"

definition witness_key :: bytes where "witness_key = replicate 32 7"

theorem in_flight_frame_opens_witness:
  "open_media_frame plain_primitives
     (sender_keys plain_primitives (foldl (\<lambda>g (e, k, t). group_install g ''room'' e k t) []
        [(1, witness_key, 0), (2, [], 1), (3, [], 2)])) Video ''room'' ''alice'' 9 (1 # replicate 12 0 @ [5, 6]) = Some [5, 6]"
proof -
  let ?g = "[(''room'', \<lparr>current = 1, seen_high = None, current_since = None, keys = [(1, witness_key)]\<rparr>)]"
  have cur: "current_epoch ?g ''room'' = 1" by (simp add: current_epoch_def hm_get_def has_keys_def)
  have key: "epoch_key plain_primitives ?g ''room'' 1 = Some witness_key"
    by (simp add: epoch_key_def has_real_key_def has_keys_def hm_get_def group_of_def)
  have enc: "aesgcm_encrypt plain_primitives n witness_key p a = Some (n, p)" for n p a
    by (simp add: aesgcm_encrypt_def plain_primitives_def witness_key_def)
  have sealed: "seal_media_frame plain_primitives (replicate 12 0) (sender_keys plain_primitives ?g) Video ''room'' ''alice'' 9 [5, 6] =
      Some (1 # replicate 12 0 @ [5, 6])"
    by (simp add: seal_media_frame_def seal_with_def sender_keys_def cur key enc Let_def)
  have "{e' \<in> fst ` set [(1 :: u8, witness_key, 0 :: real), (2, [], 1), (3, [], 2)]. 1 < e'} = {2, 3}" by auto
  then show ?thesis
    by (intro in_flight_frame_opens [OF _ _ sealed]) (simp_all add: cur key, simp_all add: plain_primitives_def)
qed

subsection \<open>Rotation\<close>

lemma next_epoch_install_all:
  assumes "hist \<noteq> []"
  shows "next_epoch (install_all group_default hist) = Max (set (map fst hist)) + 1"
proof -
  have "fst (last hist) \<le> Max (set (map fst hist))" using assms by (intro Max_ge) auto
  then show ?thesis
    using seen_install_all [OF assms] current_install_all [OF assms] by (simp add: next_epoch_def)
qed

definition rotation_epoch :: "nat \<Rightarrow> u8" where
  "rotation_epoch n = (if n \<le> 255 then word_of_nat n else 0)"

lemma unat_rotation_epoch: "n \<le> 255 \<Longrightarrow> unat (rotation_epoch n) = n"
  by (simp add: rotation_epoch_def unat_of_nat)

lemma Max_rotation: "Max (rotation_epoch ` {..n}) = rotation_epoch (min n 255)"
proof (rule Max_eqI)
  fix y assume "y \<in> rotation_epoch ` {..n}"
  then obtain j where j: "j \<le> n" "y = rotation_epoch j" by auto
  show "y \<le> rotation_epoch (min n 255)"
  proof (cases "j \<le> 255")
    case True
    then show ?thesis using j by (simp add: word_le_nat_alt unat_rotation_epoch)
  qed (simp add: j(2) rotation_epoch_def)
qed auto

lemma rotation_succ: "rotation_epoch (min n 255) + 1 = rotation_epoch (Suc n)"
proof (cases "n < 255")
  case False
  then have "min n 255 = 255" by simp
  then show ?thesis using False by (simp add: rotation_epoch_def)
qed (simp add: rotation_epoch_def)

lemma rotate_key_get:
  "hm_get g c = Some s \<Longrightarrow> hm_get (snd (rotate_key g c k t)) c = Some (state_install s (next_epoch s) k t)"
  by (simp add: rotate_key_def Let_def hm_get_insert)

lemma rotations_state:
  fixes k :: bytes and ks :: "(bytes \<times> real) list"
  shows "\<exists>hist. hm_get (foldl (\<lambda>g (k, t). snd (rotate_key g c k t)) (snd (new_owner_epoch [] c k t)) ks) c =
      Some (install_all group_default hist) \<and> map fst hist = map rotation_epoch [0 ..< Suc (length ks)] \<and>
      map (fst \<circ> snd) hist = k # map fst ks"
proof (induction ks rule: rev_induct)
  case Nil
  have "group_default\<lparr>seen_high := None\<rparr> = group_default" by (simp add: group_default_def)
  then show ?case
    by (intro exI [of _ "[(0, k, t)]"]) (simp add: new_owner_epoch_def rotation_epoch_def hm_get_def)
next
  case (snoc x ks)
  obtain k' t' where x: "x = (k', t')" by (cases x)
  obtain hist where h: "hm_get (foldl (\<lambda>g (k, t). snd (rotate_key g c k t)) (snd (new_owner_epoch [] c k t)) ks) c =
      Some (install_all group_default hist)" "map fst hist = map rotation_epoch [0 ..< Suc (length ks)]"
      "map (fst \<circ> snd) hist = k # map fst ks" using snoc.IH by (elim exE conjE)
  have ne: "hist \<noteq> []" using h(3) by auto
  have "set (map fst hist) = rotation_epoch ` {..length ks}"
    unfolding h(2) set_map set_upt atLeast0LessThan lessThan_Suc_atMost ..
  then have "next_epoch (install_all group_default hist) = rotation_epoch (Suc (length ks))"
    unfolding next_epoch_install_all [OF ne] using Max_rotation [of "length ks"] rotation_succ [of "length ks"] by argo
  then have g: "hm_get (foldl (\<lambda>g (k, t). snd (rotate_key g c k t)) (snd (new_owner_epoch [] c k t)) (ks @ [x])) c =
      Some (install_all group_default (hist @ [(rotation_epoch (Suc (length ks)), k', t')]))"
    using rotate_key_get [OF h(1), of k' t'] by (simp add: x)
  have "map fst (hist @ [(rotation_epoch (Suc (length ks)), k', t')]) = map rotation_epoch [0 ..< Suc (length (ks @ [x]))]"
    unfolding map_append h(2) by simp
  moreover have "map (fst \<circ> snd) (hist @ [(rotation_epoch (Suc (length ks)), k', t')]) = k # map fst (ks @ [x])"
    unfolding map_append h(3) by (simp add: x)
  ultimately show ?case using g by (intro exI conjI)
qed

lemma last_rotation_retained: "rotation_epoch (min n 255) \<in> top4 (rotation_epoch ` {..n})"
proof -
  have "above (rotation_epoch ` {..n}) (rotation_epoch (min n 255)) = {}"
    using Max_ge [of "rotation_epoch ` {..n}"] Max_rotation [of n] by (auto simp: above_def not_less [symmetric])
  then show ?thesis by (simp add: top4_def)
qed

lemma wrapped_epoch_dropped:
  assumes "\<not> n \<le> 255"
  shows "0 \<notin> top4 (rotation_epoch ` {..n})"
proof -
  have "x \<in> rotation_epoch ` {..n}" for x
    using assms unat_bound [of x] by (intro image_eqI [of _ _ "unat x"]) (simp_all add: rotation_epoch_def)
  then have "{1, 2, 3, 4} \<subseteq> above (rotation_epoch ` {..n}) 0" by (simp add: above_def)
  then have "card {1, 2, 3, 4 :: u8} \<le> card (above (rotation_epoch ` {..n}) 0)"
    by (rule card_mono [rotated]) (simp add: above_def)
  then show ?thesis by (simp add: top4_def)
qed

text \<open>A rotated group: its epoch, whether it has keys, and which key each epoch has.\<close>

lemma rotated_group:
  fixes k :: bytes and ks :: "(bytes \<times> real) list" and c :: string and t :: real
  defines "g \<equiv> foldl (\<lambda>g (k, t). snd (rotate_key g c k t)) (snd (new_owner_epoch [] c k t)) ks" and "n \<equiv> length ks"
  shows "current_epoch g c = rotation_epoch n" "has_real_key g c"
    "n \<le> 255 \<Longrightarrow> epoch_key prm g c (rotation_epoch n) = Some (last (k # map fst ks))"
    "x \<notin> top4 (rotation_epoch ` {..n}) \<Longrightarrow> epoch_key prm g c x = None"
proof -
  obtain hist where g: "hm_get g c = Some (install_all group_default hist)"
    and epochs: "map fst hist = map rotation_epoch [0 ..< Suc n]" and ks: "map (fst \<circ> snd) hist = k # map fst ks"
    using rotations_state [of c k t ks] unfolding g_def n_def by (elim exE conjE)
  have ne: "hist \<noteq> []" using ks by auto
  then obtain hist' e' k' t' where hist: "hist = hist' @ [(e', k', t')]" by (metis rev_exhaust prod_cases3)
  have e': "e' = rotation_epoch n" using arg_cong [OF epochs, of last] by (simp add: hist)
  have k': "k' = last (k # map fst ks)" using arg_cong [OF ks, of last] by (simp add: hist)
  have E: "set (map fst hist) = rotation_epoch ` {..n}"
    unfolding epochs set_map set_upt atLeast0LessThan lessThan_Suc_atMost ..
  let ?s = "install_all group_default hist"
  have get: "hm_get (keys ?s) y = (if y \<in> top4 (rotation_epoch ` {..n}) then delivered hist y else None)" for y
    using install_all_keys [of hist y] E by simp
  have "delivered hist y \<noteq> None" if "y \<in> rotation_epoch ` {..n}" for y
    using that unfolding E [symmetric] delivered_None_iff by blast
  then have "hm_get (keys ?s) (rotation_epoch (min n 255)) \<noteq> None"
    using get last_rotation_retained [of n] by (auto simp: top4_def)
  then have real: "has_keys ?s" by (auto simp: has_keys_def)
  have key: "epoch_key prm g c y = hm_get (keys ?s) y" for y
    using g real by (simp add: epoch_key_def has_real_key_def group_of_def)
  show "current_epoch g c = rotation_epoch n"
    using g real current_install_all [OF ne] by (simp add: current_epoch_def hist e')
  show "has_real_key g c" using g real by (simp add: has_real_key_def)
  show "epoch_key prm g c (rotation_epoch n) = Some (last (k # map fst ks))" if "n \<le> 255"
    using that get last_rotation_retained [of n] key k' by (simp add: hist e' delivered_snoc)
  show "epoch_key prm g c x = None" if "x \<notin> top4 (rotation_epoch ` {..n})" using that get key by simp
qed

text \<open>
  Rotation works until the epoch number wraps and never again after. From a fresh group, the
  n-th rotation mints epoch n with the new key current, for up to 255 rotations. From the 256th on
  the minted epoch is 0, the eviction of the lowest-numbered epoch drops exactly that key, and the
  member can no longer seal: the current epoch has no key, whatever the number of further
  rotations.
\<close>

theorem rotation_until_wrap:
  fixes k :: bytes and ks :: "(bytes \<times> real) list"
  shows "let g = foldl (\<lambda>g (k, t). snd (rotate_key g c k t)) (snd (new_owner_epoch [] c k t)) ks; e = current_epoch g c
    in if length ks \<le> 255
       then e = word_of_nat (length ks) \<and> epoch_key prm g c e = Some (last (k # map fst ks))
       else e = 0 \<and> has_real_key g c \<and> epoch_key prm g c e = None \<and>
         seal_media_frame prm nonce (sender_keys prm g) mk c sender seq pt = None"
proof (cases "length ks \<le> 255")
  case True
  then show ?thesis using rotated_group(1,3) [where c = c and ks = ks and k = k and t = t] by (simp add: Let_def rotation_epoch_def)
next
  case False
  then show ?thesis
    using rotated_group [where c = c and ks = ks and k = k and t = t] wrapped_epoch_dropped [OF False]
    by (simp add: Let_def rotation_epoch_def seal_media_frame_def seal_with_def sender_keys_def)
qed

text \<open>
  A keyer that has seen epoch 255 and retains four keys, neither 0 nor 255 among their epochs. The epoch after 255 is
  0 again, and the key installed for it is the oldest of five.
\<close>

definition wedged :: "GroupState \<Rightarrow> bool" where
  "wedged s \<longleftrightarrow> seen_high s = Some 255 \<and> hm_wf (keys s) \<and> length (keys s) = 4 \<and> \<not> hm_contains (keys s) 0 \<and> \<not> hm_contains (keys s) 255"

lemma wedged_next: "wedged s \<Longrightarrow> next_epoch s = 0"
proof -
  have "(x :: u8) \<le> 255" for x using unat_bound [of x] by (simp add: word_le_nat_alt)
  then show "wedged s \<Longrightarrow> next_epoch s = 0" by (simp add: next_epoch_def wedged_def)
qed

lemma wedged_install:
  assumes "wedged s"
  shows "wedged (state_install s 0 k t) \<and> current (state_install s 0 k t) = 0 \<and> has_keys (state_install s 0 k t)"
proof -
  let ?m = "hm_insert 0 k (keys s)" and ?s = "state_install s 0 k t"
  have s: "hm_wf (keys s)" "length (keys s) = 4" "\<not> hm_contains (keys s) 0" "\<not> hm_contains (keys s) 255" using assms by (simp_all add: wedged_def)
  have len: "length ?m = 5" using s(2,3) by (simp add: length_hm_insert)
  have wf: "hm_wf ?m" using s(1) by (rule hm_wf_insert)
  have "Min (fst ` set ?m) = 0" by (rule Min_eqI) (auto simp: set_fst_hm_insert word_le_nat_alt)
  then have keys: "keys ?s = hm_remove 0 ?m" using drop_oldest_five [OF len wf] by (simp add: keys_install)
  have "Suc (length (hm_remove 0 ?m)) = length ?m" by (rule length_hm_remove [OF wf]) (simp add: hm_contains_iff hm_get_insert)
  moreover have "\<not> hm_contains (hm_remove 0 ?m) 0" "\<not> hm_contains (hm_remove 0 ?m) 255"
    using s(4) by (simp_all only: hm_contains_iff) (simp_all add: hm_get_remove hm_get_insert)
  moreover have "seen_high ?s = Some 255" "current ?s = 0" using assms by (simp_all add: wedged_def state_install_def note_seen_def Let_def)
  ultimately show ?thesis using len hm_wf_remove [OF wf] by (auto simp: wedged_def has_keys_def keys)
qed

lemma wedged_rotate:
  assumes "hm_get g c = Some s" "wedged s"
  shows "fst (fst (rotate_key g c k t)) = 0"
    "\<exists>s'. hm_get (snd (rotate_key g c k t)) c = Some s' \<and> wedged s' \<and> current s' = 0 \<and> has_keys s'"
  using assms wedged_install [OF assms(2), of k t] by (simp_all add: rotate_key_def wedged_next hm_get_insert Let_def)

lemma wedged_rotations:
  "hm_get g c = Some s \<Longrightarrow> wedged s \<Longrightarrow> \<exists>s'. hm_get (foldl (\<lambda>g (k, t). snd (rotate_key g c k t)) g ks) c = Some s' \<and> wedged s'"
proof (induction ks arbitrary: g s)
  case (Cons x ks)
  then show ?case using wedged_rotate(2) [of g c s "fst x" "snd x"] by (auto simp: case_prod_beta)
qed simp

text \<open>
  C31: one frame can wedge a keyer. Let a member retain four epoch keys of a room, none for epoch 0 and none for
  epoch 255, and be shown a frame of the room under epoch 255 that it cannot open. From then on, however often it
  mints a new key, each rotation mints epoch 0 and drops that key at once: its current epoch is one for
  which it has no key itself, and it still counts as behind, which is what makes the elected keyer rotate.
\<close>

theorem forged_epoch_wedges_keyer:
  assumes "hm_get g c = Some s" "hm_wf (keys s)" "length (keys s) = 4" "\<not> hm_contains (keys s) 0" "\<not> hm_contains (keys s) 255"
  shows "let g1 = note_observed_epoch g c 255; gn = foldl (\<lambda>g (k, t). snd (rotate_key g c k t)) g1 ks; ((e, k'), g') = rotate_key gn c k t
    in is_behind gn c \<and> e = 0 \<and> k' = k \<and> current_epoch g' c = 0 \<and> epoch_key prm g' c 0 = None \<and> is_behind g' c"
proof -
  have top: "x \<ge> (255 :: u8) \<longleftrightarrow> x = 255" for x :: u8
    using unat_bound [of x] by (auto simp: word_le_nat_alt word_unat_eq_iff)
  have "wedged (note_seen s 255)" using assms by (auto simp: wedged_def note_seen_def top split: option.splits)
  moreover have "hm_get (note_observed_epoch g c 255) c = Some (note_seen s 255)"
    by (simp add: note_observed_epoch_def group_of_def assms(1) hm_get_insert)
  ultimately obtain sn where n: "hm_get (foldl (\<lambda>g (k, t). snd (rotate_key g c k t)) (note_observed_epoch g c 255) ks) c = Some sn" "wedged sn"
    using wedged_rotations by blast
  let ?gn = "foldl (\<lambda>g (k, t). snd (rotate_key g c k t)) (note_observed_epoch g c 255) ks"
  obtain s' where s': "hm_get (snd (rotate_key ?gn c k t)) c = Some s'" "wedged s'" "current s' = 0" "has_keys s'"
    using wedged_rotate(2) [OF n] by blast
  have "snd (fst (rotate_key ?gn c k t)) = k" using n(1) by (simp add: rotate_key_def Let_def)
  then show ?thesis unfolding Let_def using wedged_rotate(1) [OF n, of k t] n s'
    by (simp add: case_prod_beta is_behind_def wedged_def current_epoch_def epoch_key_def has_real_key_def group_of_def hm_contains_def hm_get_None_iff)
qed

definition busy_group :: SenderKeysGroup where
  "busy_group = [(''room'', \<lparr>current = 5, seen_high = Some 5, current_since = Some 0,
     keys = [(2, []), (3, []), (4, []), (5, [])]\<rparr>)]"

theorem forged_epoch_wedges_keyer_witness:
  "let g1 = note_observed_epoch busy_group ''room'' 255; gn = foldl (\<lambda>g (k, t). snd (rotate_key g ''room'' k t)) g1 [([1], 9), ([2], 10)];
       ((e, k'), g') = rotate_key gn ''room'' [3] 11
   in is_behind gn ''room'' \<and> e = 0 \<and> k' = [3] \<and> current_epoch g' ''room'' = 0 \<and> epoch_key plain_primitives g' ''room'' 0 = None \<and> is_behind g' ''room''"
  by (rule forged_epoch_wedges_keyer [where s = "\<lparr>current = 5, seen_high = Some 5, current_since = Some 0,
       keys = [(2, []), (3, []), (4, []), (5, [])]\<rparr>"])
    (simp_all add: busy_group_def hm_get_Cons hm_wf_def hm_contains_def)

subsection \<open>Associated data\<close>

lemma be_bytes_inj: "x < 256 ^ n \<Longrightarrow> y < 256 ^ n \<Longrightarrow> be_bytes n x = be_bytes n y \<Longrightarrow> x = y"
  by (metis from_be_bytes)

lemma as_bytes_inj: "as_bytes s = as_bytes t \<Longrightarrow> s = t"
  by (metis string_of_as_bytes)

lemma length_prefixed_inj:
  assumes "length_prefixed s @ x = length_prefixed t @ y" "length s < 2 ^ 32" "length t < 2 ^ 32"
  shows "s = t \<and> x = y"
proof -
  have "be_bytes 4 (length s) @ as_bytes s @ x = be_bytes 4 (length t) @ as_bytes t @ y"
    using assms by (simp add: length_prefixed_def)
  then have "be_bytes 4 (length s) = be_bytes 4 (length t)" and r: "as_bytes s @ x = as_bytes t @ y"
    by (simp_all add: append_eq_append_conv)
  then have "length s = length t" using assms(2,3) by (intro be_bytes_inj [of _ 4]) simp_all
  then have "as_bytes s = as_bytes t \<and> x = y" using r by (simp add: append_eq_append_conv)
  then show ?thesis by (auto dest: as_bytes_inj)
qed

lemma from_be_snoc: "from_be (bs @ [b]) = from_be bs * 256 + unat b"
  by (simp add: from_be_def)

lemma be_bytes_from_be: "be_bytes (length bs) (from_be bs) = bs"
proof (induction bs rule: rev_induct)
  case (snoc b bs)
  have "unat b < 256" using unat_bound [of b] by simp
  then show ?case using snoc by (simp add: from_be_snoc)
qed simp

lemma from_be_less: "from_be bs < 256 ^ length bs"
proof (induction bs rule: rev_induct)
  case (snoc b bs)
  have "unat b < 256" using unat_bound [of b] by simp
  with snoc show ?case by (simp add: from_be_snoc)
qed (simp add: from_be_def)

lemma be_bytes_u64_inj: "be_bytes 8 (unat (x :: u64)) = be_bytes 8 (unat y) \<longleftrightarrow> x = y"
  using unat_bound [of x] unat_bound [of y] be_bytes_inj [of "unat x" 8 "unat y"]
  by (auto simp: word_unat_eq_iff)

lemma voice_aad_eq:
  assumes "length c < 2 ^ 32" "length s < 2 ^ 32" "length c' < 2 ^ 32" "length s' < 2 ^ 32"
  shows "voice_aad c s n @ x = voice_aad c' s' n' @ y \<longleftrightarrow> c = c' \<and> s = s' \<and> n = n' \<and> x = y"
proof
  assume "voice_aad c s n @ x = voice_aad c' s' n' @ y"
  then have "length_prefixed c @ length_prefixed s @ be_bytes 8 (unat n) @ x =
      length_prefixed c' @ length_prefixed s' @ be_bytes 8 (unat n') @ y" by (simp add: voice_aad_def)
  then have "c = c'" "length_prefixed s @ be_bytes 8 (unat n) @ x = length_prefixed s' @ be_bytes 8 (unat n') @ y"
    using length_prefixed_inj assms by blast+
  moreover from this(2) have "s = s'" "be_bytes 8 (unat n) @ x = be_bytes 8 (unat n') @ y"
    using length_prefixed_inj assms by blast+
  ultimately show "c = c' \<and> s = s' \<and> n = n' \<and> x = y"
    by (simp add: append_eq_append_conv be_bytes_u64_inj)
qed simp

lemma three_prefixed_eq:
  assumes "length a < 2 ^ 32" "length b < 2 ^ 32" "length c < 2 ^ 32" "length a' < 2 ^ 32" "length b' < 2 ^ 32" "length c' < 2 ^ 32"
  shows "chat_aad a b c @ x = chat_aad a' b' c' @ y \<longleftrightarrow> a = a' \<and> b = b' \<and> c = c' \<and> x = y"
proof
  assume "chat_aad a b c @ x = chat_aad a' b' c' @ y"
  then have e: "length_prefixed a @ length_prefixed b @ length_prefixed c @ x =
      length_prefixed a' @ length_prefixed b' @ length_prefixed c' @ y" by (simp add: chat_aad_def)
  then have 1: "a = a'" "length_prefixed b @ length_prefixed c @ x = length_prefixed b' @ length_prefixed c' @ y"
    using length_prefixed_inj assms by blast+
  then have 2: "b = b'" "length_prefixed c @ x = length_prefixed c' @ y"
    using length_prefixed_inj assms by blast+
  then show "a = a' \<and> b = b' \<and> c = c' \<and> x = y" using 1 length_prefixed_inj assms by blast
qed simp

lemma file_chunk_aad_chat: "file_chunk_aad a b c i = chat_aad a b c @ be_bytes 8 (unat i)"
  by (simp add: file_chunk_aad_def chat_aad_def)

lemma voice_chat_overlap:
  assumes "length m < 2 ^ 32"
  shows "voice_aad c s n = chat_aad c s m \<longleftrightarrow> length m = 4 \<and> n = word_of_nat (from_be (be_bytes 4 4 @ as_bytes m))"
proof -
  have eq: "voice_aad c s n = chat_aad c s m \<longleftrightarrow> be_bytes 8 (unat n) = be_bytes 4 (length m) @ as_bytes m"
    using assms by (simp add: voice_aad_def chat_aad_def length_prefixed_def)
  let ?b = "be_bytes 4 4 @ as_bytes m"
  have "be_bytes 8 (unat n) = ?b \<longleftrightarrow> n = word_of_nat (from_be ?b)" if "length m = 4"
  proof -
    have l: "length ?b = 8" using that by simp
    have b: "be_bytes 8 (from_be ?b) = ?b" using be_bytes_from_be [of ?b] unfolding l .
    have lt: "from_be ?b < 2 ^ 64" using from_be_less [of ?b] unfolding l by simp
    then have u: "unat (word_of_nat (from_be ?b) :: u64) = from_be ?b" by (simp add: unat_of_nat)
    show ?thesis
    proof
      assume "be_bytes 8 (unat n) = ?b"
      then have "be_bytes 8 (unat n) = be_bytes 8 (unat (word_of_nat (from_be ?b) :: u64))" using b u by simp
      then show "n = word_of_nat (from_be ?b)" using be_bytes_u64_inj by blast
    next
      assume "n = word_of_nat (from_be ?b)"
      then show "be_bytes 8 (unat n) = ?b" using b u by simp
    qed
  qed
  moreover have "length m = 4" if "be_bytes 8 (unat n) = be_bytes 4 (length m) @ as_bytes m"
    using arg_cong [OF that, of length] by simp
  ultimately show ?thesis unfolding eq by auto
qed

text \<open>
  Associated data pins down what it was built from. For fields below four gigabytes, the
  associated data of a media frame determines its kind, conversation, sender and sequence number;
  that of a chat body and of a file chunk determine all of their fields, and a chat body never
  shares it with a file chunk. Voice and chat are not separated in the same way: they share it
  exactly when the message id has four bytes and the sequence number spells its length and bytes.
\<close>

theorem aad_determines_fields:
  assumes "length c < 2 ^ 32" "length s < 2 ^ 32" "length m < 2 ^ 32"
    and "length c' < 2 ^ 32" "length s' < 2 ^ 32" "length m' < 2 ^ 32"
  shows "(media_aad mk c s n = media_aad mk' c' s' n' \<longleftrightarrow> (mk, c, s, n) = (mk', c', s', n')) \<and>
    (chat_aad c s m = chat_aad c' s' m' \<longleftrightarrow> (c, s, m) = (c', s', m')) \<and>
    (file_chunk_aad c s m n = file_chunk_aad c' s' m' n' \<longleftrightarrow> (c, s, m, n) = (c', s', m', n')) \<and>
    chat_aad c s m \<noteq> file_chunk_aad c' s' m' n' \<and>
    (media_aad Voice c s n = chat_aad c s m \<longleftrightarrow> length m = 4 \<and> n = word_of_nat (from_be (be_bytes 4 4 @ as_bytes m)))"
proof (intro conjI)
  show "media_aad mk c s n = media_aad mk' c' s' n' \<longleftrightarrow> (mk, c, s, n) = (mk', c', s', n')"
    unfolding media_aad_def using assms by (subst voice_aad_eq) (auto split: MediaKind.splits)
  show "chat_aad c s m = chat_aad c' s' m' \<longleftrightarrow> (c, s, m) = (c', s', m')"
    using three_prefixed_eq [OF assms, of "[]" "[]"] by simp
  show "file_chunk_aad c s m n = file_chunk_aad c' s' m' n' \<longleftrightarrow> (c, s, m, n) = (c', s', m', n')"
    unfolding file_chunk_aad_chat using three_prefixed_eq [OF assms] by (auto simp: be_bytes_u64_inj)
  have "be_bytes 8 (unat n') \<noteq> []" by (metis length_be_bytes list.size(3) zero_neq_numeral)
  then show "chat_aad c s m \<noteq> file_chunk_aad c' s' m' n'"
    unfolding file_chunk_aad_chat using three_prefixed_eq [OF assms, of "[]"] by auto
  show "media_aad Voice c s n = chat_aad c s m \<longleftrightarrow> length m = 4 \<and> n = word_of_nat (from_be (be_bytes 4 4 @ as_bytes m))"
    using voice_chat_overlap [OF assms(3)] by (simp add: media_aad_def)
qed

theorem aad_determines_fields_witness:
  "media_aad Voice ''r'' ''a'' 5 \<noteq> media_aad Video ''r'' ''a'' 5"
  using aad_determines_fields [of "''r''" "''a''" "''m''" "''r''" "''a''" "''m''" Voice 5 Video 5] by simp

end
