(* ===== verification/Room_Session.thy ===== *)
theory Room_Session
  imports Group_Key
begin

section \<open>Room policy of a client (\<open>room_session.rs\<close>)\<close>

text \<open>
  The decisions the connection manager takes about a room, as pure functions: who keys the room,
  which offered epochs are accepted, when to mint, request or reseal a key, how membership
  snapshots are merged and how a room moves to another cluster node. Durations are milliseconds.
\<close>

definition GROUP_KEY_RETRY_INTERVAL_MS :: nat where "GROUP_KEY_RETRY_INTERVAL_MS = 750"
definition GROUP_KEY_MAX_ATTEMPTS :: nat where "GROUP_KEY_MAX_ATTEMPTS = 16"
definition GROUP_KEY_REQUEST_BASE_MS :: nat where "GROUP_KEY_REQUEST_BASE_MS = 3000"
definition GROUP_KEY_REQUEST_MAX_MS :: nat where "GROUP_KEY_REQUEST_MAX_MS = 60000"
definition MAX_EPOCH_ADVANCE :: u8 where "MAX_EPOCH_ADVANCE = 64"

definition bare_id :: "string \<Rightarrow> string" where
  "bare_id s = trim_end_matches (CHR ''='') s"

definition is_elected_keyer :: "string list \<Rightarrow> string \<Rightarrow> bool" where
  "is_elected_keyer members me =
     (let me_bare = bare_id me
      in list_ex (\<lambda>m. bare_id m = me_bare) members \<and> \<not> list_ex (\<lambda>m. bare_id m < me_bare) members)"

text \<open>\<open>Iterator::min_by\<close>: the first of the least elements.\<close>

fun elected_keyer_for :: "string list \<Rightarrow> string option" where
  "elected_keyer_for [] = None"
| "elected_keyer_for (m # ms) =
     (case elected_keyer_for ms of
        None \<Rightarrow> Some m
      | Some w \<Rightarrow> if bare_id w < bare_id m then Some w else Some m)"

definition group_key_request_backoff :: "nat \<Rightarrow> nat" where
  "group_key_request_backoff attempts =
     (let shifted = min (GROUP_KEY_REQUEST_BASE_MS * 2 ^ min attempts 16) (2 ^ 64 - 1)
      in min shifted GROUP_KEY_REQUEST_MAX_MS)"

definition accept_group_key_epoch :: "bool \<Rightarrow> u8 \<Rightarrow> u8 \<Rightarrow> bool" where
  "accept_group_key_epoch has_real cur offered =
     (if \<not> has_real then True else offered - cur \<le> MAX_EPOCH_ADVANCE)"

definition group_key_distribution_window :: nat where
  "group_key_distribution_window = GROUP_KEY_RETRY_INTERVAL_MS * GROUP_KEY_MAX_ATTEMPTS"

definition should_reseal_to_lagging_member :: "u8 \<Rightarrow> u8 \<Rightarrow> nat \<Rightarrow> bool" where
  "should_reseal_to_lagging_member member_epoch room_epoch epoch_age =
     (let behind = room_epoch - member_epoch
      in behind \<noteq> 0 \<and> behind \<le> MAX_EPOCH_ADVANCE \<and> epoch_age \<ge> group_key_distribution_window)"

definition should_mint_first_room_key :: "bool \<Rightarrow> bool \<Rightarrow> nat \<Rightarrow> bool" where
  "should_mint_first_room_key is_elected has_real other_member_count \<longleftrightarrow>
     is_elected \<and> \<not> has_real \<and> other_member_count > 0"

definition may_send_room_e2e_content :: "bool \<Rightarrow> bool" where
  "may_send_room_e2e_content has_real = has_real"

definition room_scope_key :: "string \<Rightarrow> string \<Rightarrow> string" where
  "room_scope_key supernode_id room_id = supernode_id @ '':'' @ room_id"

definition should_track_pending_materialize :: "bool \<Rightarrow> string option \<Rightarrow> bool" where
  "should_track_pending_materialize materialize_only room_id \<longleftrightarrow>
     materialize_only \<and> (case room_id of Some s \<Rightarrow> s \<noteq> [] | None \<Rightarrow> False)"

definition should_auto_join_on_room_created :: "bool \<Rightarrow> bool \<Rightarrow> bool \<Rightarrow> bool" where
  "should_auto_join_on_room_created denied room_id_empty materialize_only \<longleftrightarrow>
     \<not> denied \<and> \<not> room_id_empty \<and> \<not> materialize_only"

definition should_use_private_room_invite :: "bool \<Rightarrow> bool \<Rightarrow> bool \<Rightarrow> bool \<Rightarrow> bool" where
  "should_use_private_room_invite already_admitted is_private is_creator has_invite_token \<longleftrightarrow>
     is_private \<and> \<not> is_creator \<and> has_invite_token"

definition ends_with :: "string \<Rightarrow> string \<Rightarrow> bool" where
  "ends_with s suffix \<longleftrightarrow> length suffix \<le> length s \<and> drop (length s - length suffix) s = suffix"

definition union_members_for_room :: "(string, string list) hmap \<Rightarrow> string \<Rightarrow> string list" where
  "union_members_for_room snapshots room_id =
     (let suffix = '':'' @ room_id
      in foldl (\<lambda>u (key, members). if ends_with key suffix then foldl (\<lambda>u m. hs_insert m u) u members else u)
           [] snapshots)"

definition roster_gained :: "string list \<Rightarrow> string list \<Rightarrow> bool" where
  "roster_gained before after =
     (let known = map bare_id before in list_ex (\<lambda>m. bare_id m \<notin> set known) after)"

datatype FailoverPlan = NoPlan | Fanout "string list" "(string \<times> string) list"

definition plan_cluster_failover :: "(string \<times> string) list \<Rightarrow> (string \<Rightarrow> bool option) \<Rightarrow> FailoverPlan" where
  "plan_cluster_failover targets session =
     (if targets = [] then NoPlan
      else Fanout (map fst (filter (\<lambda>(i, _). session i = Some True) targets))
             (filter (\<lambda>(i, _). session i \<noteq> Some True) targets))"

subsection \<open>One keyer per room\<close>

lemma is_elected_keyer_Min:
  "is_elected_keyer members me \<longleftrightarrow> members \<noteq> [] \<and> bare_id me = Min (bare_id ` set members)"
proof (cases "members = []")
  case False
  have "bare_id me = Min (bare_id ` set members) \<longleftrightarrow>
      bare_id me \<in> bare_id ` set members \<and> (\<forall>x \<in> bare_id ` set members. bare_id me \<le> x)"
    using False by (intro eq_Min_iff) auto
  also have "\<dots> \<longleftrightarrow> is_elected_keyer members me"
    unfolding is_elected_keyer_def Let_def list_ex_iff image_iff ball_simps not_less [symmetric] by metis
  finally show ?thesis using False by simp
qed (simp add: is_elected_keyer_def)

lemma elected_keyer_for_Min:
  "elected_keyer_for ms = Some w \<Longrightarrow> w \<in> set ms \<and> bare_id w = Min (bare_id ` set ms)"
proof (induction ms arbitrary: w)
  case (Cons m ms)
  show ?case
  proof (cases "elected_keyer_for ms")
    case None
    then have "ms = []" by (cases ms) (auto split: option.splits if_splits)
    then show ?thesis using Cons.prems by simp
  next
    case (Some v)
    then have "ms \<noteq> []" by auto
    then have "Min (bare_id ` set (m # ms)) = min (bare_id m) (bare_id v)"
      using Cons.IH [OF Some] by simp
    then show ?thesis using Cons.IH [OF Some] Cons.prems Some by (auto simp del: Min_insert simp: min_def not_less split: if_splits)
  qed
qed simp

lemma elected_keyer_for_None: "elected_keyer_for ms = None \<longleftrightarrow> ms = []"
  by (cases ms) (auto split: option.splits)

text \<open>
  A membership snapshot elects exactly one keyer. A node is elected exactly when its identity
  is the least of the members' identities, whatever order and whichever padding the snapshot
  spells them in; so two nodes with the same members agree, no two identities are ever both
  elected, and a non-empty snapshot elects someone. \<open>elected_keyer_for\<close> names that identity, in
  the spelling of the snapshot.
\<close>

theorem keyer_election:
  "(is_elected_keyer members me \<longleftrightarrow> members \<noteq> [] \<and> bare_id me = Min (bare_id ` set members)) \<and>
   {bare_id m | m. is_elected_keyer members m} =
     (case elected_keyer_for members of None \<Rightarrow> {} | Some w \<Rightarrow> {bare_id w}) \<and>
   (case elected_keyer_for members of None \<Rightarrow> members = [] | Some w \<Rightarrow> w \<in> set members)"
proof (cases "elected_keyer_for members")
  case None
  then show ?thesis using is_elected_keyer_Min by (auto simp: elected_keyer_for_None)
next
  case (Some w)
  then have "members \<noteq> []" by auto
  then have "{bare_id m | m. is_elected_keyer members m} = {bare_id w}"
    using elected_keyer_for_Min [OF Some] unfolding is_elected_keyer_Min by (auto intro: exI [of _ w])
  then show ?thesis using elected_keyer_for_Min [OF Some] Some by (simp add: is_elected_keyer_Min)
qed

subsection \<open>Policy lemmas\<close>

text \<open>A reseal is only sent when the member would accept it, and never for the epoch it is on.\<close>

lemma reseal_is_accepted:
  "should_reseal_to_lagging_member m r age \<Longrightarrow> accept_group_key_epoch True m r \<and> m \<noteq> r"
  by (auto simp: should_reseal_to_lagging_member_def accept_group_key_epoch_def Let_def)

lemma backoff_bounds:
  "GROUP_KEY_REQUEST_BASE_MS \<le> group_key_request_backoff n \<and> group_key_request_backoff n \<le> GROUP_KEY_REQUEST_MAX_MS"
proof -
  have "(3000 :: nat) \<le> 3000 * 2 ^ min n 16" by simp
  then show ?thesis
    by (simp add: group_key_request_backoff_def GROUP_KEY_REQUEST_BASE_MS_def GROUP_KEY_REQUEST_MAX_MS_def Let_def)
qed

lemma foldl_hs_insert: "set (foldl (\<lambda>u m. hs_insert m u) u ms) = set u \<union> set ms"
  by (induction ms arbitrary: u) auto

lemma set_union_members:
  "x \<in> set (union_members_for_room snapshots room_id) \<longleftrightarrow>
     (\<exists>key members. (key, members) \<in> set snapshots \<and> ends_with key ('':'' @ room_id) \<and> x \<in> set members)"
proof -
  have "x \<in> set (foldl (\<lambda>u (key, members). if ends_with key s then foldl (\<lambda>u m. hs_insert m u) u members else u) u snapshots) \<longleftrightarrow>
      x \<in> set u \<or> (\<exists>key members. (key, members) \<in> set snapshots \<and> ends_with key s \<and> x \<in> set members)" for u s
  proof (induction snapshots arbitrary: u)
    case (Cons km snapshots)
    show ?case by (cases km) (use Cons in \<open>auto simp: foldl_hs_insert split: if_splits\<close>)
  qed simp
  then show ?thesis by (simp add: union_members_for_room_def)
qed

end
