(* ===== verification/Merkle.thy ===== *)
theory Merkle
  imports Prelude
begin

section \<open>Merkle tree hashing of a Space (\<open>space.rs\<close>)\<close>

text \<open>
  The RFC 6962 tree of \<open>doubleslash-client/src/space.rs\<close> (mirrored byte for byte in the
  supernode crate): the split point, the root of a list of leaf hashes, the audit path of a leaf
  and the fold of an audit path back to a root. SHA-256 is the parameter \<open>sha\<close>; a \<open>[u8; 32]\<close>
  is a byte list. Slice lengths are below \<open>2 ^ 63\<close>, so the shift in \<open>largest_pow2_below\<close> does
  not overflow and \<open>nat\<close> is exact. The locale \<open>inclusion_scheme\<close> is what the proofs of
  \<open>Space\<close> rely on.
\<close>

subsection \<open>Tree hashing\<close>

definition interior_input :: "bytes \<Rightarrow> bytes \<Rightarrow> bytes" where
  "interior_input left right = 1 # left @ right"

definition interior_hash :: "(bytes \<Rightarrow> bytes) \<Rightarrow> bytes \<Rightarrow> bytes \<Rightarrow> bytes" where
  "interior_hash sha left right = sha (interior_input left right)"

text \<open>The loop \<open>while k << 1 < n { k <<= 1 }\<close>; \<open>k\<close> is never zero.\<close>

function pow2_loop :: "nat \<Rightarrow> nat \<Rightarrow> nat" where
  "pow2_loop k n = (if 0 < k \<and> 2 * k < n then pow2_loop (2 * k) n else k)"
  by auto
termination by (relation "measure (\<lambda>(k, n). n - k)") auto

declare pow2_loop.simps [simp del]

definition largest_pow2_below :: "nat \<Rightarrow> nat" where
  "largest_pow2_below n = pow2_loop 1 n"

lemma pow2_loop_spec: "k = 2 ^ i \<Longrightarrow> k < n \<Longrightarrow> \<exists>j. pow2_loop k n = 2 ^ j \<and> 2 ^ j < n \<and> n \<le> 2 * 2 ^ j"
proof (induction k n arbitrary: i rule: pow2_loop.induct)
  case (1 k n)
  show ?case
  proof (cases "2 * k < n")
    case True
    then show ?thesis using "1.IH" [of "Suc i"] "1.prems" by (subst pow2_loop.simps) auto
  next
    case False
    then show ?thesis using "1.prems" by (subst pow2_loop.simps) auto
  qed
qed

lemma largest_pow2_below_spec:
  "2 \<le> n \<Longrightarrow> \<exists>j. largest_pow2_below n = 2 ^ j \<and> 2 ^ j < n \<and> n \<le> 2 * 2 ^ j"
  unfolding largest_pow2_below_def by (rule pow2_loop_spec [of 1 0]) auto

lemma largest_pow2_below_bounds:
  assumes "2 \<le> n" shows "0 < largest_pow2_below n" "largest_pow2_below n < n"
  using largest_pow2_below_spec [OF assms] by auto

lemma split_shorter [termination_simp]:
  assumes "2 \<le> n"
  shows "largest_pow2_below n < n" "\<not> n \<le> largest_pow2_below n" "n - largest_pow2_below n < n"
  using largest_pow2_below_bounds [OF assms] by auto

text \<open>Both halves of a tree of at most \<open>2 ^ Suc d\<close> leaves have at most \<open>2 ^ d\<close>.\<close>

lemma largest_pow2_below_halves:
  assumes "2 \<le> n" "n \<le> 2 ^ Suc d"
  shows "largest_pow2_below n \<le> 2 ^ d" "n - largest_pow2_below n \<le> 2 ^ d"
proof -
  obtain j where j: "largest_pow2_below n = 2 ^ j" "2 ^ j < n" "n \<le> 2 * 2 ^ j"
    using largest_pow2_below_spec [OF assms(1)] by blast
  have "(2::nat) ^ j < 2 ^ Suc d" using j(2) assms(2) by linarith
  then have "j < Suc d" by (rule power_less_imp_less_exp [rotated]) simp
  then have "(2::nat) ^ j \<le> 2 ^ d" by (intro power_increasing) auto
  then show "largest_pow2_below n \<le> 2 ^ d" "n - largest_pow2_below n \<le> 2 ^ d"
    using j by linarith+
qed

lemma length_ge2: "ls \<noteq> [] \<Longrightarrow> length ls \<noteq> Suc 0 \<Longrightarrow> 2 \<le> length ls" "\<not> length ls \<le> Suc 0 \<Longrightarrow> 2 \<le> length ls"
  by (cases ls; cases "tl ls"; auto)+

function merkle_root :: "(bytes \<Rightarrow> bytes) \<Rightarrow> bytes list \<Rightarrow> bytes" where
  "merkle_root sha leaves =
     (if length leaves = 0 then sha []
      else if length leaves = 1 then leaves ! 0
      else let k = largest_pow2_below (length leaves) in
        interior_hash sha (merkle_root sha (take k leaves)) (merkle_root sha (drop k leaves)))"
  by auto
termination
  by (relation "measure (\<lambda>(sha, ls). length ls)") (auto simp: min_def split_shorter length_ge2)

function audit_path :: "(bytes \<Rightarrow> bytes) \<Rightarrow> nat \<Rightarrow> bytes list \<Rightarrow> bytes list" where
  "audit_path sha m leaves =
     (if length leaves \<le> 1 then []
      else let k = largest_pow2_below (length leaves) in
        if m < k then audit_path sha m (take k leaves) @ [merkle_root sha (drop k leaves)]
        else audit_path sha (m - k) (drop k leaves) @ [merkle_root sha (take k leaves)])"
  by auto
termination
  by (relation "measure (\<lambda>(sha, m, ls). length ls)") (auto simp: min_def split_shorter length_ge2)

text \<open>\<open>split_last\<close> takes the sibling nearest the root off the end of the path.\<close>

function root_from_audit :: "(bytes \<Rightarrow> bytes) \<Rightarrow> bytes \<Rightarrow> nat \<Rightarrow> nat \<Rightarrow> bytes list \<Rightarrow> bytes option" where
  "root_from_audit sha leaf m n path =
     (if n = 0 \<or> n \<le> m then None
      else if n = 1 then (if path = [] then Some leaf else None)
      else if path = [] then None
      else let top = last path; rest = butlast path; k = largest_pow2_below n in
        if m < k
        then (case root_from_audit sha leaf m k rest of
                Some left \<Rightarrow> Some (interior_hash sha left top) | None \<Rightarrow> None)
        else (case root_from_audit sha leaf (m - k) (n - k) rest of
                Some right \<Rightarrow> Some (interior_hash sha top right) | None \<Rightarrow> None))"
  by auto
termination
  by (relation "measure (\<lambda>(sha, leaf, m, n, path). length path)") auto

declare merkle_root.simps [simp del] audit_path.simps [simp del] root_from_audit.simps [simp del]

text \<open>The recursion of the tree functions at an interior node, split at \<open>k\<close>.\<close>

lemma merkle_root_node:
  "2 \<le> length ls \<Longrightarrow> k = largest_pow2_below (length ls) \<Longrightarrow>
   merkle_root sha ls = interior_hash sha (merkle_root sha (take k ls)) (merkle_root sha (drop k ls))"
  by (subst merkle_root.simps) (auto simp: Let_def)

lemma audit_path_node:
  "2 \<le> length ls \<Longrightarrow> k = largest_pow2_below (length ls) \<Longrightarrow>
   audit_path sha m ls =
     (if m < k then audit_path sha m (take k ls) @ [merkle_root sha (drop k ls)]
      else audit_path sha (m - k) (drop k ls) @ [merkle_root sha (take k ls)])"
  by (subst audit_path.simps) (auto simp: Let_def)

lemma root_from_audit_node:
  "2 \<le> n \<Longrightarrow> m < n \<Longrightarrow> k = largest_pow2_below n \<Longrightarrow>
   root_from_audit sha leaf m n path = Some h \<longleftrightarrow> path \<noteq> [] \<and>
     (if m < k then \<exists>l. root_from_audit sha leaf m k (butlast path) = Some l \<and> h = interior_hash sha l (last path)
      else \<exists>r. root_from_audit sha leaf (m - k) (n - k) (butlast path) = Some r \<and> h = interior_hash sha (last path) r)"
  by (subst root_from_audit.simps) (auto simp: Let_def split: option.splits)

lemma root_from_audit_index: "root_from_audit sha leaf m n path = Some h \<Longrightarrow> m < n"
  by (subst (asm) root_from_audit.simps) (auto split: if_splits)

subsection \<open>Audit paths fold back to the root\<close>

lemma audit_path_complete:
  "m < length ls \<Longrightarrow> root_from_audit sha (ls ! m) m (length ls) (audit_path sha m ls) = Some (merkle_root sha ls)"
proof (induction sha m ls rule: audit_path.induct)
  case (1 sha m ls)
  show ?case
  proof (cases "length ls \<le> 1")
    case True
    then have "m = 0" "length ls = 1" using "1.prems" by auto
    then show ?thesis by (simp add: root_from_audit.simps audit_path.simps merkle_root.simps)
  next
    case False
    define k where "k = largest_pow2_below (length ls)"
    have n: "2 \<le> length ls" using False by simp
    have "k < length ls" unfolding k_def using largest_pow2_below_bounds(2) [OF n] .
    then show ?thesis
      using "1.IH" [OF False k_def] "1.prems"
      by (simp add: root_from_audit_node [OF n _ k_def] audit_path_node [OF n k_def] merkle_root_node [OF n k_def] min_def)
  qed
qed

lemma audit_path_depth: "length ls \<le> 2 ^ d \<Longrightarrow> length (audit_path sha m ls) \<le> d"
proof (induction sha m ls arbitrary: d rule: audit_path.induct)
  case (1 sha m ls)
  show ?case
  proof (cases "length ls \<le> 1")
    case True
    then show ?thesis by (simp add: audit_path.simps)
  next
    case False
    define k where "k = largest_pow2_below (length ls)"
    have n: "2 \<le> length ls" using False by simp
    obtain d' where d: "d = Suc d'" using False "1.prems" by (cases d) auto
    have "length (take k ls) \<le> 2 ^ d'" "length (drop k ls) \<le> 2 ^ d'"
      using largest_pow2_below_halves [OF n, of d'] "1.prems" by (auto simp: d k_def min_def)
    then show ?thesis using "1.IH" [OF False k_def, of d'] by (simp add: audit_path_node [OF n k_def] d)
  qed
qed

lemma merkle_root_sized:
  "(\<And>x. length (sha x) = 32) \<Longrightarrow> \<forall>l\<in>set ls. length l = 32 \<Longrightarrow> length (merkle_root sha ls) = 32"
  by (cases "2 \<le> length ls")
    (simp add: merkle_root_node interior_hash_def, subst merkle_root.simps, auto simp: interior_hash_def Let_def)

lemma halves_sized:
  "\<forall>l\<in>set ls. length l = (32::nat) \<Longrightarrow> (\<forall>l\<in>set (take k ls). length l = 32) \<and> (\<forall>l\<in>set (drop k ls). length l = 32)"
  by (meson in_set_takeD in_set_dropD)

lemma audit_path_sized:
  "(\<And>x. length (sha x) = 32) \<Longrightarrow> \<forall>l\<in>set ls. length l = 32 \<Longrightarrow> \<forall>h\<in>set (audit_path sha m ls). length h = 32"
proof (induction sha m ls rule: audit_path.induct)
  case (1 sha m ls)
  show ?case
  proof (cases "length ls \<le> 1")
    case True
    then show ?thesis by (simp add: audit_path.simps)
  next
    case False
    define k where "k = largest_pow2_below (length ls)"
    have n: "2 \<le> length ls" using False by simp
    have "\<forall>l\<in>set (take k ls). length l = 32" "\<forall>l\<in>set (drop k ls). length l = 32"
      using halves_sized "1.prems"(2) by blast+
    then show ?thesis using "1.IH" [OF False k_def _ "1.prems"(1)] merkle_root_sized [OF "1.prems"(1)]
      by (auto simp: audit_path_node [OF n k_def])
  qed
qed

subsection \<open>A path that folds to the root carries the leaf of its position\<close>

text \<open>The inputs hashed at interior nodes by the owner and by a verifier.\<close>

function root_inputs :: "(bytes \<Rightarrow> bytes) \<Rightarrow> bytes list \<Rightarrow> bytes list" where
  "root_inputs sha leaves =
     (if length leaves \<le> 1 then []
      else let k = largest_pow2_below (length leaves) in
        interior_input (merkle_root sha (take k leaves)) (merkle_root sha (drop k leaves))
          # root_inputs sha (take k leaves) @ root_inputs sha (drop k leaves))"
  by auto
termination
  by (relation "measure (\<lambda>(sha, ls). length ls)") (auto simp: min_def split_shorter length_ge2)

function audit_inputs :: "(bytes \<Rightarrow> bytes) \<Rightarrow> bytes \<Rightarrow> nat \<Rightarrow> nat \<Rightarrow> bytes list \<Rightarrow> bytes list" where
  "audit_inputs sha leaf m n path =
     (if n \<le> 1 \<or> path = [] then []
      else let top = last path; rest = butlast path; k = largest_pow2_below n in
        if m < k
        then (case root_from_audit sha leaf m k rest of Some left \<Rightarrow> [interior_input left top] | None \<Rightarrow> [])
               @ audit_inputs sha leaf m k rest
        else (case root_from_audit sha leaf (m - k) (n - k) rest of Some right \<Rightarrow> [interior_input top right] | None \<Rightarrow> [])
               @ audit_inputs sha leaf (m - k) (n - k) rest)"
  by auto
termination
  by (relation "measure (\<lambda>(sha, leaf, m, n, path). length path)") auto

declare root_inputs.simps [simp del] audit_inputs.simps [simp del]

lemma root_inputs_node:
  "2 \<le> length ls \<Longrightarrow> k = largest_pow2_below (length ls) \<Longrightarrow>
   set (root_inputs sha ls) = insert (interior_input (merkle_root sha (take k ls)) (merkle_root sha (drop k ls)))
     (set (root_inputs sha (take k ls)) \<union> set (root_inputs sha (drop k ls)))"
  by (subst root_inputs.simps) (simp add: Let_def)

lemma audit_inputs_node:
  assumes "2 \<le> n" "k = largest_pow2_below n" "path \<noteq> []"
  shows "m < k \<Longrightarrow> root_from_audit sha leaf m k (butlast path) = Some l \<Longrightarrow>
      set (audit_inputs sha leaf m n path) =
        insert (interior_input l (last path)) (set (audit_inputs sha leaf m k (butlast path)))"
    and "\<not> m < k \<Longrightarrow> root_from_audit sha leaf (m - k) (n - k) (butlast path) = Some r \<Longrightarrow>
      set (audit_inputs sha leaf m n path) =
        insert (interior_input (last path) r) (set (audit_inputs sha leaf (m - k) (n - k) (butlast path)))"
  using assms by (subst audit_inputs.simps, simp add: Let_def)+

lemma interior_input_inj:
  "length l = length l' \<Longrightarrow> interior_input l r = interior_input l' r' \<longleftrightarrow> l = l' \<and> r = r'"
  by (simp add: interior_input_def)

lemma interior_input_injD:
  assumes "interior_hash sha l r = interior_hash sha l' r'" "inj_on sha A"
    and "interior_input l r \<in> A" "interior_input l' r' \<in> A" "length l = length l'"
  shows "l = l'" "r = r'"
  using inj_onD [OF assms(2) _ assms(3,4)] assms(1,5) by (auto simp: interior_hash_def interior_input_inj)

lemma root_from_audit_sized:
  assumes "\<And>x. length (sha x) = 32" "length leaf = 32" "root_from_audit sha leaf m n path = Some h"
  shows "length h = 32"
  using assms(3) by (subst (asm) root_from_audit.simps)
    (use assms(1,2) in \<open>auto simp: interior_hash_def Let_def split: if_splits option.splits\<close>)

lemma root_from_audit_sound:
  assumes "\<And>x. length (sha x) = 32" "length leaf = 32"
    and "root_from_audit sha leaf m (length ls) path = Some (merkle_root sha ls)"
    and "\<forall>l\<in>set ls. length l = 32" "\<forall>h\<in>set path. length h = 32"
    and "inj_on sha (set (root_inputs sha ls) \<union> set (audit_inputs sha leaf m (length ls) path))"
  shows "leaf = ls ! m"
  using assms
proof (induction sha ls arbitrary: m path rule: root_inputs.induct)
  case (1 sha ls)
  note m = root_from_audit_index [OF "1.prems"(3)]
  show ?case
  proof (cases "length ls \<le> 1")
    case True
    then have "m = 0" "length ls = 1" using m by auto
    then show ?thesis using "1.prems"(3)
      by (subst (asm) root_from_audit.simps) (auto simp: merkle_root.simps split: if_splits)
  next
    case False
    define k where "k = largest_pow2_below (length ls)"
    have n: "2 \<le> length ls" using False by simp
    have k: "0 < k" "k < length ls" unfolding k_def using largest_pow2_below_bounds [OF n] by auto
    let ?L = "merkle_root sha (take k ls)" and ?R = "merkle_root sha (drop k ls)"
    have sized: "\<forall>l\<in>set (take k ls). length l = 32" "\<forall>l\<in>set (drop k ls). length l = 32"
      using halves_sized "1.prems"(4) by blast+
    have lens: "length ?L = 32" "length ?R = 32"
      using merkle_root_sized [OF "1.prems"(1)] sized by auto
    note fold = "1.prems"(3) [unfolded root_from_audit_node [OF n m k_def] merkle_root_node [OF n k_def]]
    have path: "path \<noteq> []" "\<forall>h\<in>set (butlast path). length h = 32" "length (last path) = 32"
      using fold "1.prems"(5) by (auto dest: in_set_butlastD)
    note audit = audit_inputs_node [OF n k_def path(1)] and queried = root_inputs_node [OF n k_def]
    show ?thesis
    proof (cases "m < k")
      case True
      then obtain l where l: "root_from_audit sha leaf m k (butlast path) = Some l"
        and eq: "interior_hash sha l (last path) = interior_hash sha ?L ?R"
        using fold by auto
      have "l = ?L"
        using root_from_audit_sized [OF "1.prems"(1,2) l] lens
        by (intro interior_input_injD(1) [OF eq "1.prems"(6)]) (auto simp: queried audit(1) [OF True l])
      moreover have "inj_on sha (set (root_inputs sha (take k ls)) \<union> set (audit_inputs sha leaf m k (butlast path)))"
        by (rule inj_on_subset [OF "1.prems"(6)]) (auto simp: queried audit(1) [OF True l])
      ultimately show ?thesis
        using "1.IH"(1) [OF False k_def "1.prems"(1,2), of m "butlast path"] l sized(1) k path(2) True by simp
    next
      case False
      then obtain r where r: "root_from_audit sha leaf (m - k) (length ls - k) (butlast path) = Some r"
        and eq: "interior_hash sha (last path) r = interior_hash sha ?L ?R"
        using fold by auto
      have "r = ?R"
        using path(3) lens
        by (intro interior_input_injD(2) [OF eq "1.prems"(6)]) (auto simp: queried audit(2) [OF False r])
      moreover have "inj_on sha (set (root_inputs sha (drop k ls)) \<union>
          set (audit_inputs sha leaf (m - k) (length ls - k) (butlast path)))"
        by (rule inj_on_subset [OF "1.prems"(6)]) (auto simp: queried audit(2) [OF False r])
      ultimately show ?thesis
        using "1.IH"(2) [OF \<open>\<not> length ls \<le> 1\<close> k_def "1.prems"(1,2), of "m - k" "butlast path"] r sized(2) k path(2) False m by simp
    qed
  qed
qed

subsection \<open>The contract of the tree\<close>

text \<open>
  What a client of the tree relies on: an audit path checks against the root, is no deeper than
  the logarithm of the number of leaves, and a path that checks at a position carries the leaf of
  that position, when no two of the inputs hashed on the way collide.
\<close>

locale inclusion_scheme =
  fixes sha :: "bytes \<Rightarrow> bytes"
    and root :: "bytes list \<Rightarrow> bytes"
    and prove_leaf :: "nat \<Rightarrow> bytes list \<Rightarrow> bytes list"
    and fold_path :: "bytes \<Rightarrow> nat \<Rightarrow> nat \<Rightarrow> bytes list \<Rightarrow> bytes option"
    and owner_inputs :: "bytes list \<Rightarrow> bytes list"
    and verifier_inputs :: "bytes \<Rightarrow> nat \<Rightarrow> nat \<Rightarrow> bytes list \<Rightarrow> bytes list"
  assumes complete: "m < length ls \<Longrightarrow> fold_path (ls ! m) m (length ls) (prove_leaf m ls) = Some (root ls)"
    and depth: "length ls \<le> 2 ^ d \<Longrightarrow> length (prove_leaf m ls) \<le> d"
    and sized: "(\<And>x. length (sha x) = 32) \<Longrightarrow> \<forall>l\<in>set ls. length l = 32 \<Longrightarrow>
      (\<forall>h\<in>set (prove_leaf m ls). length h = 32) \<and> length (root ls) = 32"
    and sound: "(\<And>x. length (sha x) = 32) \<Longrightarrow> length leaf = 32 \<Longrightarrow>
      fold_path leaf m (length ls) path = Some (root ls) \<Longrightarrow>
      \<forall>l\<in>set ls. length l = 32 \<Longrightarrow> \<forall>h\<in>set path. length h = 32 \<Longrightarrow>
      inj_on sha (set (owner_inputs ls) \<union> set (verifier_inputs leaf m (length ls) path)) \<Longrightarrow> leaf = ls ! m"
begin

text \<open>Lists of records are committed to through the hash of a record's encoding.\<close>

lemma records_complete:
  assumes "m < length xs" "length xs \<le> 2 ^ d"
  shows "fold_path (f (xs ! m)) m (length xs) (prove_leaf m (map f xs)) = Some (root (map f xs))"
    and "length (prove_leaf m (map f xs)) \<le> d"
  using complete [of m "map f xs"] depth [of "map f xs" d m] assms by simp_all

lemma records_sound:
  assumes sha: "\<And>x. length (sha x) = 32"
    and fold: "fold_path (sha (enc x)) m (length xs) path = Some (root (map (\<lambda>x. sha (enc x)) xs))"
    and path: "\<forall>h\<in>set path. length h = 32" and m: "m < length xs"
    and enc: "inj_on enc (insert x (set xs))"
    and inj: "inj_on sha (enc ` insert x (set xs) \<union> set (owner_inputs (map (\<lambda>x. sha (enc x)) xs))
      \<union> set (verifier_inputs (sha (enc x)) m (length xs) path))"
  shows "x = xs ! m"
proof -
  have "sha (enc x) = map (\<lambda>x. sha (enc x)) xs ! m"
    by (rule sound [of _ _ "map (\<lambda>x. sha (enc x)) xs" path])
      (use sha fold path in \<open>auto intro!: inj_on_subset [OF inj]\<close>)
  then have "sha (enc x) = sha (enc (xs ! m))" using m by simp
  then have "enc x = enc (xs ! m)" by (rule inj_onD [OF inj]) (use m in auto)
  then show ?thesis by (rule inj_onD [OF enc]) (use m in auto)
qed

end

interpretation rfc6962: inclusion_scheme sha "merkle_root sha" "audit_path sha" "root_from_audit sha"
    "root_inputs sha" "audit_inputs sha" for sha
proof unfold_locales
  fix ls :: "bytes list" and m
  assume "\<And>x. length (sha x) = 32" "\<forall>l\<in>set ls. length l = 32"
  then show "(\<forall>h\<in>set (audit_path sha m ls). length h = 32) \<and> length (merkle_root sha ls) = 32"
    using audit_path_sized merkle_root_sized by blast
next
  fix leaf m ls path
  assume "\<And>x. length (sha x) = 32" "length leaf = 32"
    "root_from_audit sha leaf m (length ls) path = Some (merkle_root sha ls)"
    "\<forall>l\<in>set ls. length l = 32" "\<forall>h\<in>set path. length h = 32"
    "inj_on sha (set (root_inputs sha ls) \<union> set (audit_inputs sha leaf m (length ls) path))"
  then show "leaf = ls ! m" by (rule root_from_audit_sound)
qed (use audit_path_complete audit_path_depth in blast)+

end
