(* ===== verification/Space.thy ===== *)
theory Space
  imports Merkle "HOL-Library.List_Lexorder" "HOL-Library.Char_ord"
begin

section \<open>Signed Spaces and inclusion proofs (\<open>space.rs\<close>)\<close>

text \<open>
  The authenticated room tree: node records, the owner's mutable view with its epoch, the signed
  root, inclusion proofs and admission grants. SHA-256, Ed25519, the hex and base64 codecs and
  \<open>serde_json::to_vec\<close> are other crates and are the fields of the record \<open>space_prims\<close>. A
  \<open>BTreeMap\<close> built for a signature is its list of entries in key order. Strings compare by
  their bytes, as in Rust.
\<close>

record space_prims =
  sha256 :: "bytes \<Rightarrow> bytes"
  hex_encode :: "bytes \<Rightarrow> string"
  hex_decode :: "string \<Rightarrow> bytes option"
  json_to_vec :: "(string \<times> json_value) list \<Rightarrow> bytes option"
  url_safe_encode :: "bytes \<Rightarrow> string"
  url_safe_decode :: "string \<Rightarrow> bytes option"
  url_safe_no_pad_decode :: "string \<Rightarrow> bytes option"
  dalek_verify :: "bytes \<Rightarrow> bytes \<Rightarrow> bytes \<Rightarrow> bool"

definition SPACE_LEAF_LABEL :: string where "SPACE_LEAF_LABEL = ''doubleslash-space-leaf-v1''"
definition SPACE_ROOT_LABEL :: string where "SPACE_ROOT_LABEL = ''doubleslash-space-root-v1''"
definition SPACE_GRANT_LABEL :: string where "SPACE_GRANT_LABEL = ''doubleslash-space-grant-v1''"
definition MAX_PROOF_DEPTH :: nat where "MAX_PROOF_DEPTH = 32"
definition SPACE_SCHEMA :: u32 where "SPACE_SCHEMA = 1"

text \<open>\<open>BTreeMap\<close> entries in key order, serialised; a failure gives the empty vector.\<close>

definition sorted_json :: "space_prims \<Rightarrow> (string \<times> json_value) list \<Rightarrow> bytes" where
  "sorted_json prm m = (case json_to_vec prm (sort_key fst m) of Some b \<Rightarrow> b | None \<Rightarrow> [])"

subsection \<open>Crypto wrappers (\<open>crypto.rs\<close>)\<close>

definition b64url_decode :: "space_prims \<Rightarrow> string \<Rightarrow> bytes option" where
  "b64url_decode prm s = (case url_safe_decode prm s of Some b \<Rightarrow> Some b | None \<Rightarrow> url_safe_no_pad_decode prm s)"

definition sha256_hex :: "space_prims \<Rightarrow> bytes \<Rightarrow> string" where
  "sha256_hex prm data = hex_encode prm (sha256 prm data)"

text \<open>\<open>dalek_verify\<close> stands for parsing the key and checking the signature.\<close>

definition ed25519_verify :: "space_prims \<Rightarrow> bytes \<Rightarrow> bytes \<Rightarrow> bytes \<Rightarrow> bool" where
  "ed25519_verify prm public_key signature data =
     (if length public_key \<noteq> 32 then False
      else if length signature \<noteq> 64 then False
      else dalek_verify prm public_key data signature)"

subsection \<open>Node records\<close>

record SpaceNode =
  sn_node_id :: string
  sn_parent_id :: string
  sn_kind :: string
  sn_name :: string
  sn_node_type :: string
  sn_owner_pub :: string
  sn_invite_policy :: string
  sn_inherit :: bool
  sn_key_commit :: string

definition canonical_json :: "space_prims \<Rightarrow> SpaceNode \<Rightarrow> bytes" where
  "canonical_json prm n = sorted_json prm
     [(''node_id'', JStr (sn_node_id n)), (''parent_id'', JStr (sn_parent_id n)), (''kind'', JStr (sn_kind n)),
      (''name'', JStr (sn_name n)), (''node_type'', JStr (sn_node_type n)), (''owner_pub'', JStr (sn_owner_pub n)),
      (''invite_policy'', JStr (sn_invite_policy n)), (''inherit'', JBool (sn_inherit n)),
      (''key_commit'', JStr (sn_key_commit n))]"

definition leaf_input :: "space_prims \<Rightarrow> SpaceNode \<Rightarrow> bytes" where
  "leaf_input prm n = 0 # as_bytes SPACE_LEAF_LABEL @ as_bytes ''|'' @ canonical_json prm n"

definition leaf_hash :: "space_prims \<Rightarrow> SpaceNode \<Rightarrow> bytes" where
  "leaf_hash prm n = sha256 prm (leaf_input prm n)"

text \<open>The slice \<open>[..16]\<close> panics on a shorter string; SHA-256 in hex has 64 characters.\<close>

definition derive_node_id :: "space_prims \<Rightarrow> string \<Rightarrow> string \<Rightarrow> string \<Rightarrow> string" where
  "derive_node_id prm parent_id owner_pub name =
     take 16 (sha256_hex prm (as_bytes (parent_id @ '':'' @ owner_pub @ '':'' @ name)))"

subsection \<open>Signed roots, inclusion proofs and grants\<close>

record SignedSpaceRoot =
  sr_schema :: u32
  sr_space_id :: string
  sr_epoch :: u64
  sr_root_hash :: string
  sr_node_count :: u32
  sr_issued_at :: u64
  sr_signer :: string
  sr_signature :: string

definition root_signing_bytes :: "space_prims \<Rightarrow> SignedSpaceRoot \<Rightarrow> bytes" where
  "root_signing_bytes prm r = as_bytes SPACE_ROOT_LABEL @ as_bytes ''|'' @ sorted_json prm
     [(''schema'', JNum (unat (sr_schema r))), (''space_id'', JStr (sr_space_id r)), (''epoch'', JNum (unat (sr_epoch r))),
      (''root_hash'', JStr (sr_root_hash r)), (''node_count'', JNum (unat (sr_node_count r))),
      (''issued_at'', JNum (unat (sr_issued_at r))), (''signer'', JStr (sr_signer r))]"

definition root_verify :: "space_prims \<Rightarrow> SignedSpaceRoot \<Rightarrow> bool" where
  "root_verify prm r =
     (case (b64url_decode prm (sr_signer r), b64url_decode prm (sr_signature r)) of
        (Some pk, Some sig) \<Rightarrow> ed25519_verify prm pk sig (root_signing_bytes prm r)
      | _ \<Rightarrow> False)"

record SpaceInclusionProof =
  ip_schema :: u32
  ip_node :: SpaceNode
  ip_leaf_index :: u32
  ip_path :: "string list"
  ip_epoch :: u64

definition decode_hash :: "space_prims \<Rightarrow> string \<Rightarrow> bytes option" where
  "decode_hash prm s = (case hex_decode prm s of Some b \<Rightarrow> if length b = 32 then Some b else None | None \<Rightarrow> None)"

text \<open>\<open>iter().map(decode_hash).collect::<Option<Vec<_>>>()\<close>\<close>

fun decode_path :: "space_prims \<Rightarrow> string list \<Rightarrow> bytes list option" where
  "decode_path prm [] = Some []"
| "decode_path prm (s # ss) =
     (case decode_hash prm s of None \<Rightarrow> None
      | Some h \<Rightarrow> (case decode_path prm ss of None \<Rightarrow> None | Some hs \<Rightarrow> Some (h # hs)))"

definition verify_against :: "space_prims \<Rightarrow> SpaceInclusionProof \<Rightarrow> SignedSpaceRoot \<Rightarrow> bool" where
  "verify_against prm p sroot =
     (if ip_epoch p \<noteq> sr_epoch sroot then False
      else if length (ip_path p) > MAX_PROOF_DEPTH then False
      else let n = unat (sr_node_count sroot); m = unat (ip_leaf_index p) in
        if n \<le> m then False
        else case decode_path prm (ip_path p) of None \<Rightarrow> False
        | Some path \<Rightarrow>
            (case root_from_audit (sha256 prm) (leaf_hash prm (ip_node p)) m n path of
               Some computed \<Rightarrow> hex_encode prm computed = sr_root_hash sroot
             | None \<Rightarrow> False))"

record SpaceGrant =
  sg_schema :: u32
  sg_node_id :: string
  sg_epoch :: u64
  sg_grantee_pub :: string
  sg_expires_at :: u64
  sg_signature :: string

definition grant_signing_bytes :: "space_prims \<Rightarrow> SpaceGrant \<Rightarrow> bytes" where
  "grant_signing_bytes prm g = as_bytes SPACE_GRANT_LABEL @ as_bytes ''|'' @ sorted_json prm
     [(''schema'', JNum (unat (sg_schema g))), (''node_id'', JStr (sg_node_id g)), (''epoch'', JNum (unat (sg_epoch g))),
      (''grantee_pub'', JStr (sg_grantee_pub g)), (''expires_at'', JNum (unat (sg_expires_at g)))]"

definition grant_verify :: "space_prims \<Rightarrow> SpaceGrant \<Rightarrow> string \<Rightarrow> bool" where
  "grant_verify prm g owner_pub =
     (case (b64url_decode prm owner_pub, b64url_decode prm (sg_signature g)) of
        (Some pk, Some sig) \<Rightarrow> ed25519_verify prm pk sig (grant_signing_bytes prm g)
      | _ \<Rightarrow> False)"

subsection \<open>The owner's view\<close>

record Space =
  sp_space_id :: string
  sp_owner_pub :: string
  sp_epoch :: u64
  sp_nodes :: "SpaceNode list"

definition new_server :: "space_prims \<Rightarrow> string \<Rightarrow> string \<Rightarrow> Space" where
  "new_server prm owner_pub server_name =
     (let space_id = derive_node_id prm '''' owner_pub server_name in
      \<lparr>sp_space_id = space_id, sp_owner_pub = owner_pub, sp_epoch = 0,
       sp_nodes = [\<lparr>sn_node_id = space_id, sn_parent_id = '''', sn_kind = ''server'', sn_name = server_name,
         sn_node_type = ''public'', sn_owner_pub = owner_pub, sn_invite_policy = ''owner'', sn_inherit = False,
         sn_key_commit = ''''\<rparr>]\<rparr>)"

text \<open>The first node with the id is replaced in place; otherwise the node is pushed.\<close>

fun put_node :: "SpaceNode \<Rightarrow> SpaceNode list \<Rightarrow> SpaceNode list" where
  "put_node node [] = [node]"
| "put_node node (n # ns) = (if sn_node_id n = sn_node_id node then node # ns else n # put_node node ns)"

definition upsert_node :: "Space \<Rightarrow> SpaceNode \<Rightarrow> string \<times> Space" where
  "upsert_node s node = (sn_node_id node, s\<lparr>sp_nodes := put_node node (sp_nodes s), sp_epoch := sp_epoch s + 1\<rparr>)"

definition remove_node :: "Space \<Rightarrow> string \<Rightarrow> bool \<times> Space" where
  "remove_node s node_id =
     (let kept = filter (\<lambda>n. sn_node_id n \<noteq> node_id) (sp_nodes s);
          removed = length kept \<noteq> length (sp_nodes s)
      in (removed, s\<lparr>sp_nodes := kept, sp_epoch := if removed then sp_epoch s + 1 else sp_epoch s\<rparr>))"

definition sorted_nodes :: "Space \<Rightarrow> SpaceNode list" where
  "sorted_nodes s = sort_key sn_node_id (sp_nodes s)"

definition sorted_leaves :: "space_prims \<Rightarrow> Space \<Rightarrow> bytes list" where
  "sorted_leaves prm s = map (leaf_hash prm) (sorted_nodes s)"

definition root_hash :: "space_prims \<Rightarrow> Space \<Rightarrow> string" where
  "root_hash prm s = hex_encode prm (merkle_root (sha256 prm) (sorted_leaves prm s))"

definition signed_root :: "space_prims \<Rightarrow> (bytes \<Rightarrow> bytes) \<Rightarrow> Space \<Rightarrow> u64 \<Rightarrow> SignedSpaceRoot" where
  "signed_root prm sign s issued_at =
     (let root = \<lparr>sr_schema = SPACE_SCHEMA, sr_space_id = sp_space_id s, sr_epoch = sp_epoch s,
                  sr_root_hash = root_hash prm s, sr_node_count = word_of_nat (length (sp_nodes s)),
                  sr_issued_at = issued_at, sr_signer = sp_owner_pub s, sr_signature = ''''\<rparr>;
          sig = sign (root_signing_bytes prm root)
      in root\<lparr>sr_signature := url_safe_encode prm sig\<rparr>)"

fun position :: "('a \<Rightarrow> bool) \<Rightarrow> 'a list \<Rightarrow> nat option" where
  "position P [] = None"
| "position P (x # xs) = (if P x then Some 0 else map_option Suc (position P xs))"

definition prove_node :: "space_prims \<Rightarrow> Space \<Rightarrow> string \<Rightarrow> SpaceInclusionProof option" where
  "prove_node prm s node_id =
     (let sorted = sorted_nodes s in
      case position (\<lambda>n. sn_node_id n = node_id) sorted of None \<Rightarrow> None
      | Some idx \<Rightarrow>
          (let leaves = map (leaf_hash prm) sorted;
               path = map (hex_encode prm) (audit_path (sha256 prm) idx leaves)
           in Some \<lparr>ip_schema = SPACE_SCHEMA, ip_node = sorted ! idx, ip_leaf_index = word_of_nat idx,
                    ip_path = path, ip_epoch = sp_epoch s\<rparr>))"

definition grant_node :: "space_prims \<Rightarrow> (bytes \<Rightarrow> bytes) \<Rightarrow> Space \<Rightarrow> string \<Rightarrow> string \<Rightarrow> u64 \<Rightarrow> SpaceGrant" where
  "grant_node prm sign s node_id grantee_pub expires_at =
     (let grant = \<lparr>sg_schema = SPACE_SCHEMA, sg_node_id = node_id, sg_epoch = sp_epoch s,
                   sg_grantee_pub = grantee_pub, sg_expires_at = expires_at, sg_signature = ''''\<rparr>;
          sig = sign (grant_signing_bytes prm grant)
      in grant\<lparr>sg_signature := url_safe_encode prm sig\<rparr>)"

text \<open>The editing calls of an owner's session.\<close>

datatype space_op = Upsert SpaceNode | Remove string

fun space_step :: "Space \<Rightarrow> space_op \<Rightarrow> Space" where
  "space_step s (Upsert n) = snd (upsert_node s n)"
| "space_step s (Remove i) = snd (remove_node s i)"

subsection \<open>Node ids stay distinct, so the leaf order depends on the node set only\<close>

definition ids_distinct :: "Space \<Rightarrow> bool" where
  "ids_distinct s \<longleftrightarrow> distinct (map sn_node_id (sp_nodes s))"

lemma ids_put_node: "sn_node_id ` set (put_node n ns) = insert (sn_node_id n) (sn_node_id ` set ns)"
  by (induction n ns rule: put_node.induct) (simp_all add: insert_commute)

lemma distinct_put_node: "distinct (map sn_node_id ns) \<Longrightarrow> distinct (map sn_node_id (put_node n ns))"
  by (induction n ns rule: put_node.induct) (auto simp: ids_put_node)

lemma ids_distinct_step: "ids_distinct s \<Longrightarrow> ids_distinct (space_step s op)"
  by (cases op) (simp_all add: ids_distinct_def upsert_node_def remove_node_def Let_def distinct_put_node distinct_map_filter)

lemma ids_distinct_new: "ids_distinct (new_server prm owner name)"
  by (simp add: ids_distinct_def new_server_def Let_def)

interpretation owner_session: invariant_system "new_server prm owner name" space_step ids_distinct for prm owner name
  by unfold_locales (use ids_distinct_step ids_distinct_new in blast)+

lemma distinct_sorted_key_unique:
  fixes f :: "'a \<Rightarrow> 'b::linorder"
  assumes "set xs = set ys" "distinct (map f xs)" "distinct (map f ys)"
  shows "sort_key f xs = sort_key f ys"
proof -
  have d: "distinct (map f (sort_key f xs))" "distinct (map f (sort_key f ys))"
    using assms(2,3) by (auto simp: distinct_map)
  have "map f (sort_key f xs) = map f (sort_key f ys)"
    using d assms(1) by (intro sorted_distinct_set_unique) auto
  then show ?thesis using assms(1) d(1) by (intro map_inj_on [of f]) (simp_all add: distinct_map)
qed

lemma position_Some: "position P xs = Some i \<Longrightarrow> i < length xs \<and> P (xs ! i)"
  by (induction P xs arbitrary: i rule: position.induct) (auto split: if_splits)

lemma position_ex: "x \<in> set xs \<Longrightarrow> P x \<Longrightarrow> \<exists>i. position P xs = Some i"
  by (induction P xs rule: position.induct) auto

lemma position_None: "position P xs = None \<longleftrightarrow> (\<forall>x\<in>set xs. \<not> P x)"
  by (induction P xs rule: position.induct) auto

lemma decode_path_encoded:
  assumes "\<And>b. hex_decode prm (hex_encode prm b) = Some b"
  shows "\<forall>h\<in>set hs. length h = 32 \<Longrightarrow> decode_path prm (map (hex_encode prm) hs) = Some hs"
  by (induction hs) (simp_all add: decode_hash_def assms)

lemma decode_hash_sized: "decode_hash prm s = Some h \<Longrightarrow> length h = 32"
  by (simp add: decode_hash_def split: option.splits if_splits)

lemma decode_path_sized: "decode_path prm ss = Some hs \<Longrightarrow> \<forall>h\<in>set hs. length h = 32"
proof (induction ss arbitrary: hs)
  case (Cons s ss)
  then obtain h hs' where "decode_hash prm s = Some h" "decode_path prm ss = Some hs'" "hs = h # hs'"
    by (auto split: option.splits)
  then show ?case using Cons.IH decode_hash_sized by simp
qed simp

lemma verify_against_iff:
  "verify_against prm p r \<longleftrightarrow> ip_epoch p = sr_epoch r \<and> length (ip_path p) \<le> 32 \<and>
     unat (ip_leaf_index p) < unat (sr_node_count r) \<and>
     (\<exists>path h. decode_path prm (ip_path p) = Some path \<and> hex_encode prm h = sr_root_hash r \<and>
        root_from_audit (sha256 prm) (leaf_hash prm (ip_node p)) (unat (ip_leaf_index p)) (unat (sr_node_count r)) path = Some h)"
  by (cases "decode_path prm (ip_path p)")
    (simp_all add: verify_against_def MAX_PROOF_DEPTH_def Let_def not_le not_less conj_commute split: option.split)

end
