(* ===== verification/Space_Props.thy ===== *)
theory Space_Props
  imports Space
begin

section \<open>What a Space proof is worth\<close>

text \<open>
  The properties of the authenticated room tree: every node of an owner's Space can be proven
  against the root the owner signs, a proof that verifies shows a node the owner listed, and the
  root depends on the set of nodes alone.
\<close>

text \<open>
  Two owner sessions that end with the same set of nodes have the same root, whatever the
  order in which nodes were added, replaced and removed; the root is a digest of the set.
\<close>

theorem space_root_of_set:
  assumes "set (sp_nodes (foldl space_step (new_server prm owner name) ops)) =
    set (sp_nodes (foldl space_step (new_server prm owner name) ops'))"
  shows "root_hash prm (foldl space_step (new_server prm owner name) ops) =
    root_hash prm (foldl space_step (new_server prm owner name) ops')"
  using distinct_sorted_key_unique [OF assms, of sn_node_id] owner_session.inv_reachable [of prm owner name]
  by (simp add: root_hash_def sorted_leaves_def sorted_nodes_def ids_distinct_def)

lemma prove_node_listed:
  assumes "ids_distinct s" "n \<in> set (sp_nodes s)"
  obtains i where "position (\<lambda>n'. sn_node_id n' = sn_node_id n) (sorted_nodes s) = Some i"
    "i < length (sp_nodes s)" "sorted_nodes s ! i = n"
proof -
  have mem: "n \<in> set (sorted_nodes s)" using assms(2) by (simp add: sorted_nodes_def)
  then obtain i where i: "position (\<lambda>n'. sn_node_id n' = sn_node_id n) (sorted_nodes s) = Some i"
    using position_ex [of n "sorted_nodes s" "\<lambda>n'. sn_node_id n' = sn_node_id n"] by auto
  note at = position_Some [OF i]
  have "inj_on sn_node_id (set (sorted_nodes s))"
    using assms(1) by (simp add: ids_distinct_def sorted_nodes_def distinct_map)
  then have "sorted_nodes s ! i = n"
    using at mem by (auto dest: inj_onD)
  then show ?thesis using that [OF i] at by (simp add: sorted_nodes_def)
qed

lemma signed_root_fields [simp]:
  "sr_epoch (signed_root prm sign s t) = sp_epoch s" "sr_root_hash (signed_root prm sign s t) = root_hash prm s"
  "sr_node_count (signed_root prm sign s t) = word_of_nat (length (sp_nodes s))"
  "sr_signer (signed_root prm sign s t) = sp_owner_pub s"
  by (simp_all add: signed_root_def Let_def)

lemma signed_root_verifies:
  assumes "b64url_decode prm (sp_owner_pub s) = Some pk" "length pk = 32"
    and "\<And>b. url_safe_decode prm (url_safe_encode prm b) = Some b"
    and "\<And>b. length (sign b) = 64 \<and> dalek_verify prm pk b (sign b)"
  shows "root_verify prm (signed_root prm sign s t)"
  using assms by (simp add: root_verify_def signed_root_def Let_def b64url_decode_def [of _ "url_safe_encode _ _"]
      ed25519_verify_def root_signing_bytes_def)

lemma unat_u32: "x < 2 ^ 32 \<Longrightarrow> unat (word_of_nat x :: u32) = x"
  by (simp add: unat_of_nat)

lemma leaf_hash_sized: "(\<And>x. length (sha256 prm x) = 32) \<Longrightarrow> \<forall>l\<in>set (map (leaf_hash prm) ns). length l = 32"
  by (simp add: leaf_hash_def)

lemma verify_proven:
  assumes few: "length (sp_nodes s) < 2 ^ 32" and i: "i < length (sp_nodes s)"
    and sha: "\<And>x. length (sha256 prm x) = 32" and hex: "\<And>b. hex_decode prm (hex_encode prm b) = Some b"
    and p: "ip_node p = sorted_nodes s ! i" "ip_leaf_index p = word_of_nat i" "ip_epoch p = sp_epoch s"
      "ip_path p = map (hex_encode prm) (audit_path (sha256 prm) i (map (leaf_hash prm) (sorted_nodes s)))"
  shows "length (ip_path p) \<le> 32 \<and> verify_against prm p (signed_root prm sign s t)"
proof -
  have len: "length (sorted_nodes s) = length (sp_nodes s)" by (simp add: sorted_nodes_def)
  have bound: "length (sorted_nodes s) \<le> 2 ^ 32" and i': "i < length (sorted_nodes s)" using few i len by simp_all
  note fold = rfc6962.records_complete [OF i' bound, of "sha256 prm" "leaf_hash prm"]
  have "decode_path prm (ip_path p) = Some (audit_path (sha256 prm) i (map (leaf_hash prm) (sorted_nodes s)))"
    unfolding p using rfc6962.sized [of "sha256 prm", OF sha leaf_hash_sized [OF sha]] by (intro decode_path_encoded [OF hex]) blast
  then show ?thesis
    using fold few i p len by (simp add: verify_against_iff unat_u32 root_hash_def sorted_leaves_def)
qed

text \<open>
  C32: every listed node can be proven. After any owner session over fewer than \<open>2 ^ 32\<close> nodes, the
  root the owner signs verifies, and for every node of the Space \<open>prove\<close> gives a proof that carries
  exactly that node, is within the depth bound, and verifies against that root. For an id that is
  not listed there is no proof.
\<close>

theorem space_proof_complete:
  assumes s: "s = foldl space_step (new_server prm owner name) ops" and few: "length (sp_nodes s) < 2 ^ 32"
    and sha: "\<And>x. length (sha256 prm x) = 32"
    and hex: "\<And>b. hex_decode prm (hex_encode prm b) = Some b"
    and b64: "\<And>b. url_safe_decode prm (url_safe_encode prm b) = Some b"
    and key: "b64url_decode prm (sp_owner_pub s) = Some pk" "length pk = 32"
    and sign: "\<And>b. length (sign b) = 64 \<and> dalek_verify prm pk b (sign b)"
  shows "root_verify prm (signed_root prm sign s t) \<and>
    (case find (\<lambda>n. sn_node_id n = i) (sp_nodes s) of None \<Rightarrow> prove_node prm s i = None
     | Some n \<Rightarrow> (case prove_node prm s i of None \<Rightarrow> False
         | Some p \<Rightarrow> ip_node p = n \<and> length (ip_path p) \<le> 32 \<and> verify_against prm p (signed_root prm sign s t)))"
proof (cases "find (\<lambda>n. sn_node_id n = i) (sp_nodes s)")
  case None
  then have "position (\<lambda>n. sn_node_id n = i) (sorted_nodes s) = None"
    by (auto simp: position_None find_None_iff sorted_nodes_def)
  then show ?thesis
    using None signed_root_verifies [OF key b64 sign] by (simp add: prove_node_def)
next
  case (Some n)
  then have n: "n \<in> set (sp_nodes s)" "sn_node_id n = i" by (auto simp: find_Some_iff)
  have "ids_distinct s" unfolding s by (rule owner_session.inv_reachable)
  then obtain j where j: "position (\<lambda>n'. sn_node_id n' = i) (sorted_nodes s) = Some j"
    "j < length (sp_nodes s)" "sorted_nodes s ! j = n"
    using prove_node_listed n by metis
  then obtain p where p: "prove_node prm s i = Some p" "ip_node p = sorted_nodes s ! j" "ip_leaf_index p = word_of_nat j"
    "ip_epoch p = sp_epoch s" "ip_path p = map (hex_encode prm) (audit_path (sha256 prm) j (map (leaf_hash prm) (sorted_nodes s)))"
    by (simp add: prove_node_def Let_def)
  then show ?thesis
    using Some signed_root_verifies [OF key b64 sign] verify_proven [OF few j(2) sha hex p(2-5)] j(3) by simp
qed

text \<open>
  C33: only listed nodes can be proven. When a proof verifies against a root that carries the owner's
  root hash, node count and epoch, the node it shows is the node at that position of the owner's
  list; the hypotheses are that the hashes are 32 bytes and that, on the finitely many inputs
  hashed by the owner and by this verification, SHA-256 and the canonical encoding do not
  collide.
\<close>

theorem space_proof_sound:
  assumes few: "length (sp_nodes s) < 2 ^ 32"
    and sha: "\<And>x. length (sha256 prm x) = 32"
    and hex: "\<And>b. hex_decode prm (hex_encode prm b) = Some b"
    and ok: "verify_against prm p (signed_root prm sign s t)"
    and json: "inj_on (canonical_json prm) (insert (ip_node p) (set (sp_nodes s)))"
    and no_collision: "inj_on (sha256 prm) (leaf_input prm ` insert (ip_node p) (set (sp_nodes s)) \<union>
      set (root_inputs (sha256 prm) (sorted_leaves prm s)) \<union>
      (case decode_path prm (ip_path p) of None \<Rightarrow> {} | Some path \<Rightarrow> set (audit_inputs (sha256 prm)
         (leaf_hash prm (ip_node p)) (unat (ip_leaf_index p)) (length (sp_nodes s)) path)))"
  shows "ip_epoch p = sp_epoch s \<and> unat (ip_leaf_index p) < length (sp_nodes s) \<and>
    ip_node p = sorted_nodes s ! unat (ip_leaf_index p) \<and> ip_node p \<in> set (sp_nodes s)"
proof -
  let ?m = "unat (ip_leaf_index p)"
  have len: "length (sorted_nodes s) = length (sp_nodes s)" "set (sorted_nodes s) = set (sp_nodes s)"
    by (simp_all add: sorted_nodes_def)
  obtain path h where path: "decode_path prm (ip_path p) = Some path"
    and h: "root_from_audit (sha256 prm) (leaf_hash prm (ip_node p)) ?m (length (sp_nodes s)) path = Some h"
    and eq: "hex_encode prm h = root_hash prm s" and m: "?m < length (sp_nodes s)" and epoch: "ip_epoch p = sp_epoch s"
    using ok unfolding verify_against_iff signed_root_fields unat_u32 [OF few] by blast
  have "h = merkle_root (sha256 prm) (sorted_leaves prm s)"
    using eq hex unfolding root_hash_def by (metis option.inject)
  moreover have "inj_on (leaf_input prm) (insert (ip_node p) (set (sorted_nodes s)))"
    using json unfolding len leaf_input_def inj_on_def by simp
  ultimately have "ip_node p = sorted_nodes s ! ?m"
    using h m len path no_collision decode_path_sized [OF path]
    by (intro rfc6962.records_sound [where sha = "sha256 prm" and enc = "leaf_input prm" and path = path, OF sha])
      (simp_all add: sorted_leaves_def leaf_hash_def [abs_def] o_def)
  then show ?thesis using epoch m len by (metis nth_mem)
qed

subsection \<open>A small Space\<close>

text \<open>Stand-ins for the other crates: a tagged suffix for the hash, one-field JSON, plain codecs.\<close>

definition toy_sha :: "bytes \<Rightarrow> bytes" where
  "toy_sha x = (case x of [] \<Rightarrow> replicate 32 0 | b # r \<Rightarrow> b # drop (length r) (replicate 31 0 @ r))"

definition toy_prims :: space_prims where
  "toy_prims = \<lparr>sha256 = toy_sha, hex_encode = string_of_bytes, hex_decode = (\<lambda>s. Some (as_bytes s)),
     json_to_vec = (\<lambda>m. case map_of m ''node_id'' of Some (JStr s) \<Rightarrow> Some (as_bytes s) | _ \<Rightarrow> None),
     url_safe_encode = string_of_bytes, url_safe_decode = (\<lambda>s. Some (as_bytes s)),
     url_safe_no_pad_decode = (\<lambda>s. None), dalek_verify = (\<lambda>pk data sig. sig = replicate 64 1)\<rparr>"

definition toy_node :: "string \<Rightarrow> SpaceNode" where
  "toy_node i = \<lparr>sn_node_id = i, sn_parent_id = ''s'', sn_kind = ''room'', sn_name = i, sn_node_type = ''private'',
     sn_owner_pub = ''o'', sn_invite_policy = [], sn_inherit = False, sn_key_commit = []\<rparr>"

definition toy_space :: Space where
  "toy_space = \<lparr>sp_space_id = ''s'', sp_owner_pub = ''o'', sp_epoch = 3, sp_nodes = [toy_node ''b'', toy_node ''a'']\<rparr>"

lemma toy_sha_sized: "length (toy_sha x) = 32"
  by (auto simp: toy_sha_def split: list.split)

lemma toy_fields [simp]:
  "sha256 toy_prims = toy_sha" "hex_encode toy_prims = string_of_bytes" "hex_decode toy_prims s = Some (as_bytes s)"
  "url_safe_encode toy_prims = string_of_bytes" "url_safe_decode toy_prims s = Some (as_bytes s)"
  "dalek_verify toy_prims pk data sig \<longleftrightarrow> sig = replicate 64 1"
  by (simp_all add: toy_prims_def)

lemma toy_json: "canonical_json toy_prims n = as_bytes (sn_node_id n)"
  by (simp add: canonical_json_def sorted_json_def toy_prims_def)

lemma toy_sorted: "sorted_nodes toy_space = [toy_node ''a'', toy_node ''b'']"
  by (simp add: sorted_nodes_def toy_space_def toy_node_def)

definition toy_history :: "space_op list" where
  "toy_history = [Upsert (toy_node ''a''), Upsert (toy_node ''b'')]"

definition toy_history' :: "space_op list" where
  "toy_history' = [Upsert (toy_node ''b''), Upsert (toy_node ''c''), Upsert (toy_node ''a''), Remove ''c'']"

lemma toy_server_id: "sn_node_id (hd (sp_nodes (new_server toy_prims owner name))) = string_of_bytes (take 16 (toy_sha (as_bytes ('':'' @ owner @ '':'' @ name))))"
  by (simp add: new_server_def derive_node_id_def sha256_hex_def string_of_bytes_def take_map Let_def)

lemma toy_server_nodes:
  "sp_nodes (new_server toy_prims owner name) = [hd (sp_nodes (new_server toy_prims owner name))]"
  "length (sn_node_id (hd (sp_nodes (new_server toy_prims owner name)))) = 16"
  by (simp add: new_server_def Let_def)
    (simp add: toy_server_id toy_sha_sized string_of_bytes_def)

lemma toy_histories:
  "sp_nodes (foldl space_step (new_server toy_prims owner name) toy_history) =
     [hd (sp_nodes (new_server toy_prims owner name)), toy_node ''a'', toy_node ''b'']"
  "sp_nodes (foldl space_step (new_server toy_prims owner name) toy_history') =
     [hd (sp_nodes (new_server toy_prims owner name)), toy_node ''b'', toy_node ''a'']"
proof -
  define sv where "sv = hd (sp_nodes (new_server toy_prims owner name))"
  have id: "sn_node_id sv \<noteq> [x]" for x using toy_server_nodes(2) [of owner name] by (auto simp: sv_def)
  have sv: "sp_nodes (new_server toy_prims owner name) = [sv]" using toy_server_nodes(1) by (simp add: sv_def)
  show "sp_nodes (foldl space_step (new_server toy_prims owner name) toy_history) = [hd (sp_nodes (new_server toy_prims owner name)), toy_node ''a'', toy_node ''b'']"
    "sp_nodes (foldl space_step (new_server toy_prims owner name) toy_history') = [hd (sp_nodes (new_server toy_prims owner name)), toy_node ''b'', toy_node ''a'']"
    using id by (simp_all add: sv toy_history_def toy_history'_def upsert_node_def remove_node_def Let_def toy_node_def)
qed

theorem space_root_of_set_witness:
  "root_hash toy_prims (foldl space_step (new_server toy_prims ''o'' ''n'') toy_history) =
   root_hash toy_prims (foldl space_step (new_server toy_prims ''o'' ''n'') toy_history')"
  by (rule space_root_of_set) (auto simp: toy_histories)

theorem space_proof_complete_witness:
  "let owner = replicate 32 CHR ''k''; s = foldl space_step (new_server toy_prims owner ''n'') toy_history;
       r = signed_root toy_prims (\<lambda>_. replicate 64 1) s 7
   in root_verify toy_prims r \<and>
      (case prove_node toy_prims s ''b'' of None \<Rightarrow> False
       | Some p \<Rightarrow> ip_node p = toy_node ''b'' \<and> length (ip_path p) \<le> 32 \<and> verify_against toy_prims p r)"
proof -
  let ?owner = "replicate 32 CHR ''k''"
  let ?s = "foldl space_step (new_server toy_prims ?owner ''n'') toy_history"
  have "sn_node_id (hd (sp_nodes (new_server toy_prims ?owner ''n''))) \<noteq> ''b''"
    using toy_server_nodes(2) [of ?owner "''n''"] by auto
  then have find: "find (\<lambda>n. sn_node_id n = ''b'') (sp_nodes ?s) = Some (toy_node ''b'')"
    by (simp add: toy_histories toy_node_def)
  have owner: "sp_owner_pub ?s = ?owner"
    by (simp add: toy_history_def upsert_node_def new_server_def Let_def)
  have "root_verify toy_prims (signed_root toy_prims (\<lambda>_. replicate 64 1) ?s 7) \<and>
    (case find (\<lambda>n. sn_node_id n = ''b'') (sp_nodes ?s) of None \<Rightarrow> prove_node toy_prims ?s ''b'' = None
     | Some n \<Rightarrow> (case prove_node toy_prims ?s ''b'' of None \<Rightarrow> False
         | Some p \<Rightarrow> ip_node p = n \<and> length (ip_path p) \<le> 32 \<and>
             verify_against toy_prims p (signed_root toy_prims (\<lambda>_. replicate 64 1) ?s 7)))"
    by (rule space_proof_complete [OF refl, where pk = "as_bytes ?owner"])
      (simp_all add: toy_histories toy_sha_sized owner b64url_decode_def)
  then show ?thesis by (simp add: Let_def find)
qed

definition toy_proof :: SpaceInclusionProof where
  "toy_proof = \<lparr>ip_schema = 1, ip_node = toy_node ''b'', ip_leaf_index = 1,
     ip_path = [string_of_bytes (leaf_hash toy_prims (toy_node ''a''))], ip_epoch = 3\<rparr>"

lemma toy_leaf_input: "leaf_input toy_prims (toy_node i) = 0 # as_bytes SPACE_LEAF_LABEL @ as_bytes ''|'' @ as_bytes i"
  by (simp add: leaf_input_def toy_json toy_node_def)

lemma toy_leaf_hash: "leaf_hash toy_prims (toy_node i) = toy_sha (leaf_input toy_prims (toy_node i))"
  by (simp add: leaf_hash_def)

lemma two_leaves:
  "largest_pow2_below 2 = Suc 0" "merkle_root sha [l, r] = sha (interior_input l r)"
  "root_from_audit sha r (Suc 0) 2 [l] = Some (sha (interior_input l r))"
  "root_inputs sha [l, r] = [interior_input l r]" "audit_inputs sha r (Suc 0) 2 [l] = [interior_input l r]"
proof -
  show k: "largest_pow2_below 2 = Suc 0" by (simp add: largest_pow2_below_def pow2_loop.simps)
  show "merkle_root sha [l, r] = sha (interior_input l r)"
    using k by (simp add: merkle_root_node numeral_2_eq_2 interior_hash_def merkle_root.simps)
  show "root_from_audit sha r (Suc 0) 2 [l] = Some (sha (interior_input l r))"
    using k by (simp add: root_from_audit_node root_from_audit.simps interior_hash_def)
  show "root_inputs sha [l, r] = [interior_input l r]"
    using k by (simp add: root_inputs.simps numeral_2_eq_2 merkle_root.simps Let_def)
  show "audit_inputs sha r (Suc 0) 2 [l] = [interior_input l r]"
    using k by (simp add: audit_inputs.simps root_from_audit.simps Let_def)
qed

theorem space_proof_sound_witness:
  "ip_epoch toy_proof = sp_epoch toy_space \<and> unat (ip_leaf_index toy_proof) < length (sp_nodes toy_space) \<and>
   ip_node toy_proof = sorted_nodes toy_space ! unat (ip_leaf_index toy_proof) \<and> ip_node toy_proof \<in> set (sp_nodes toy_space)"
proof (rule space_proof_sound [where prm = toy_prims and sign = "\<lambda>_. []" and t = 0])
  let ?la = "leaf_input toy_prims (toy_node ''a'')" and ?lb = "leaf_input toy_prims (toy_node ''b'')"
  let ?in = "interior_input (toy_sha ?la) (toy_sha ?lb)"
  have sizes: "length (sp_nodes toy_space) = 2" "ip_leaf_index toy_proof = 1" "set (sp_nodes toy_space) = {toy_node ''a'', toy_node ''b''}"
    by (auto simp: toy_space_def toy_proof_def)
  have path: "decode_path toy_prims (ip_path toy_proof) = Some [toy_sha ?la]"
    by (simp add: toy_proof_def decode_hash_def toy_leaf_hash toy_sha_sized)
  have leaves: "sorted_leaves toy_prims toy_space = [toy_sha ?la, toy_sha ?lb]"
    by (simp add: sorted_leaves_def toy_sorted toy_leaf_hash)
  show "length (sp_nodes toy_space) < 2 ^ 32" by (simp add: sizes)
  show "length (sha256 toy_prims x) = 32" for x by (simp add: toy_sha_sized)
  show "hex_decode toy_prims (hex_encode toy_prims b) = Some b" for b by simp
  show "verify_against toy_prims toy_proof (signed_root toy_prims (\<lambda>_. []) toy_space 0)"
    unfolding verify_against_iff
    using two_leaves(3) [of toy_sha "toy_sha ?lb" "toy_sha ?la"]
    by (intro conjI exI [of _ "[toy_sha ?la]"] exI [of _ "toy_sha ?in"] path)
      (simp_all add: toy_proof_def toy_space_def root_hash_def leaves [unfolded toy_space_def] two_leaves toy_leaf_hash)
  have nodes: "insert (ip_node toy_proof) (set (sp_nodes toy_space)) = {toy_node ''a'', toy_node ''b''}"
    by (auto simp: sizes toy_proof_def)
  show "inj_on (canonical_json toy_prims) (insert (ip_node toy_proof) (set (sp_nodes toy_space)))"
    unfolding nodes by (simp add: toy_json toy_node_def as_bytes_def byte_of_char_def)
  have distinct: "toy_sha ?la \<noteq> toy_sha ?lb" "toy_sha ?in \<noteq> toy_sha ?la" "toy_sha ?in \<noteq> toy_sha ?lb"
    by (simp_all add: toy_leaf_input toy_sha_def interior_input_def as_bytes_def byte_of_char_def)
  have "inj_on toy_sha {?la, ?lb, ?in}" using distinct by auto
  moreover have "leaf_hash toy_prims (ip_node toy_proof) = toy_sha ?lb" by (simp add: toy_proof_def toy_leaf_hash)
  ultimately show "inj_on (sha256 toy_prims) (leaf_input toy_prims ` insert (ip_node toy_proof) (set (sp_nodes toy_space)) \<union>
      set (root_inputs (sha256 toy_prims) (sorted_leaves toy_prims toy_space)) \<union>
      (case decode_path toy_prims (ip_path toy_proof) of None \<Rightarrow> {} | Some path \<Rightarrow> set (audit_inputs (sha256 toy_prims)
         (leaf_hash toy_prims (ip_node toy_proof)) (unat (ip_leaf_index toy_proof)) (length (sp_nodes toy_space)) path)))"
    unfolding nodes path leaves by (simp add: sizes two_leaves insert_commute)
qed

end
