(* ===== verification/File_Delta.thy ===== *)
theory File_Delta
  imports Prelude
begin

section \<open>Compression and deltas of file payloads (\<open>file_transfer.rs\<close>)\<close>

text \<open>
  A small file is sent compressed, or as a delta against a version the receiver already has. The
  delta is a stream of COPY and INSERT opcodes found with a window index over the old file. Zlib
  is the \<open>flate2\<close> crate: \<open>zlib_enc\<close> is \<open>ZlibEncoder\<close> at level 6, \<open>zlib_read z n\<close> what reading
  at most \<open>n\<close> bytes from a \<open>ZlibDecoder\<close> gives. SHA-256, hex and standard base64 are the other
  fields of \<open>xfer_prims\<close>. An offset into a buffer is modelled by the rest of the buffer.
\<close>

record xfer_prims =
  zlib_enc :: "bytes \<Rightarrow> string + bytes"
  zlib_read :: "bytes \<Rightarrow> nat \<Rightarrow> string + bytes"
  sha256_digest :: "bytes \<Rightarrow> bytes"
  hex_of :: "bytes \<Rightarrow> string"
  b64_encode :: "bytes \<Rightarrow> string"
  b64_decode :: "string \<Rightarrow> bytes option"

definition INLINE_MAX :: nat where "INLINE_MAX = 8 * 1024 * 1024"
definition MAX_DELTA_BYTES :: nat where "MAX_DELTA_BYTES = 2 * INLINE_MAX"
definition COMPRESSION_THRESHOLD :: nat where "COMPRESSION_THRESHOLD = 1024"
definition DELTA_MAGIC :: bytes where "DELTA_MAGIC = as_bytes ''CDv1''"
definition WINDOW :: nat where "WINDOW = 16"

subsection \<open>Compression\<close>

definition zlib_compress :: "xfer_prims \<Rightarrow> bytes \<Rightarrow> string + bytes" where
  "zlib_compress prm data = zlib_enc prm data"

definition compress_data :: "xfer_prims \<Rightarrow> bytes \<Rightarrow> bytes \<times> bool" where
  "compress_data prm data =
     (if length data < COMPRESSION_THRESHOLD then (data, False)
      else case zlib_compress prm data of
        Inr compressed \<Rightarrow> if length compressed < length data * 9 div 10 then (compressed, True) else (data, False)
      | Inl _ \<Rightarrow> (data, False))"

definition zlib_decompress :: "xfer_prims \<Rightarrow> bytes \<Rightarrow> nat \<Rightarrow> string + bytes" where
  "zlib_decompress prm data limit =
     (case zlib_read prm data (limit + 1) of
        Inl e \<Rightarrow> Inl e
      | Inr out \<Rightarrow> if length out > limit
          then Inl (''decompressed output exceeds '' @ show_dec limit @ '' bytes'') else Inr out)"

subsection \<open>Opcodes\<close>

definition write_copy :: "bytes \<Rightarrow> u32 \<Rightarrow> u32 \<Rightarrow> bytes" where
  "write_copy buf src len = buf @ [0] @ be_bytes 4 (unat src) @ be_bytes 4 (unat len)"

definition write_insert :: "bytes \<Rightarrow> bytes \<Rightarrow> bytes" where
  "write_insert buf seg =
     (if seg = [] then buf
      else buf @ [1] @ be_bytes 4 (unat (word_of_nat (length seg) :: u32)) @ seg)"

function match_loop :: "bytes \<Rightarrow> nat \<Rightarrow> bytes \<Rightarrow> nat \<Rightarrow> nat \<Rightarrow> nat \<Rightarrow> nat" where
  "match_loop old src new dst mx n =
     (if n < mx \<and> old ! (src + n) = new ! (dst + n) then match_loop old src new dst mx (n + 1) else n)"
  by auto
termination by (relation "measure (\<lambda>(_, _, _, _, mx, n). mx - n)") auto

declare match_loop.simps [simp del]

definition extend_match :: "bytes \<Rightarrow> nat \<Rightarrow> bytes \<Rightarrow> nat \<Rightarrow> nat" where
  "extend_match old src new dst = match_loop old src new dst (min (length old - src) (length new - dst)) 0"

text \<open>\<open>idx.entry(&old[i..i + WINDOW]).or_insert(i)\<close> for each window of the old file.\<close>

definition add_window :: "bytes \<Rightarrow> (bytes, u32) hmap \<Rightarrow> nat \<Rightarrow> (bytes, u32) hmap" where
  "add_window old idx i =
     (let key = take WINDOW (drop i old)
      in if hm_contains idx key then idx else hm_insert key (word_of_nat i) idx)"

definition window_index :: "bytes \<Rightarrow> (bytes, u32) hmap" where
  "window_index old =
     (if length old \<ge> WINDOW then foldl (add_window old) [] [0 ..< length old - WINDOW + 1] else [])"

function diff_loop :: "(bytes, u32) hmap \<Rightarrow> bytes \<Rightarrow> bytes \<Rightarrow> nat \<Rightarrow> nat \<Rightarrow> bytes \<Rightarrow> bytes" where
  "diff_loop idx old new pending_start j buf =
     (if j + WINDOW \<le> length new
      then case hm_get idx (take WINDOW (drop j new)) of
             Some src \<Rightarrow>
               (let mlen = extend_match old (unat src) new j in
                if mlen \<ge> WINDOW
                then let buf = (if pending_start < j
                                then write_insert buf (take (j - pending_start) (drop pending_start new)) else buf);
                         buf = write_copy buf src (word_of_nat mlen)
                     in diff_loop idx old new (j + mlen) (j + mlen) buf
                else diff_loop idx old new pending_start (j + 1) buf)
           | None \<Rightarrow> diff_loop idx old new pending_start (j + 1) buf
      else if pending_start < length new then write_insert buf (drop pending_start new) else buf)"
  by auto
termination
  by (relation "measure (\<lambda>(_, _, new, _, j, _). length new - j)") (auto simp: WINDOW_def)

declare diff_loop.simps [simp del]

definition diff_opcodes :: "bytes \<Rightarrow> bytes \<Rightarrow> bytes" where
  "diff_opcodes old new =
     (if old = new then write_copy [] 0 (word_of_nat (length new))
      else diff_loop (window_index old) old new 0 0 [])"

definition create_delta :: "xfer_prims \<Rightarrow> bytes \<Rightarrow> bytes \<Rightarrow> bytes option" where
  "create_delta prm old new =
     (case zlib_compress prm (diff_opcodes old new) of Inl _ \<Rightarrow> None
      | Inr compressed \<Rightarrow>
          (let delta = DELTA_MAGIC @ compressed in
           case zlib_compress prm new of Inl _ \<Rightarrow> None
           | Inr full_compressed \<Rightarrow> if length delta < length full_compressed then Some delta else None))"

subsection \<open>Applying a delta\<close>

function apply_loop :: "bytes \<Rightarrow> bytes \<Rightarrow> bytes \<Rightarrow> string + bytes" where
  "apply_loop old raw out =
     (case raw of [] \<Rightarrow> Inr out
      | tag # rest \<Rightarrow>
          if tag = 0 then
            if length rest < 8 then Inl ''truncated COPY''
            else let src = from_be (take 4 rest); len = from_be (take 4 (drop 4 rest)) in
              if src + len > length old then Inl ''COPY out of range''
              else if length out + len > INLINE_MAX then Inl ''delta output exceeds INLINE_MAX''
              else apply_loop old (drop 8 rest) (out @ take len (drop src old))
          else if tag = 1 then
            if length rest < 4 then Inl ''truncated INSERT''
            else let len = from_be (take 4 rest) in
              if 4 + len > length rest then Inl ''INSERT past end''
              else if length out + len > INLINE_MAX then Inl ''delta output exceeds INLINE_MAX''
              else apply_loop old (drop (4 + len) rest) (out @ take len (drop 4 rest))
          else Inl (''Unknown opcode: '' @ show_dec (unat tag)))"
  by auto
termination by (relation "measure (\<lambda>(_, raw, _). length raw)") auto

declare apply_loop.simps [simp del]

definition apply_delta :: "xfer_prims \<Rightarrow> bytes \<Rightarrow> bytes \<Rightarrow> string + bytes" where
  "apply_delta prm old delta =
     (if length delta < length DELTA_MAGIC \<or> take 4 delta \<noteq> DELTA_MAGIC then Inl ''Invalid delta magic''
      else case zlib_decompress prm (drop 4 delta) MAX_DELTA_BYTES of
        Inl e \<Rightarrow> Inl e
      | Inr raw \<Rightarrow> if raw = [] then Inl ''Empty delta opcode stream'' else apply_loop old raw [])"

subsection \<open>What the matcher finds\<close>

lemma match_loop_spec:
  assumes "n \<le> mx" "\<forall>k<n. old ! (src + k) = new ! (dst + k)"
  shows "match_loop old src new dst mx n \<le> mx \<and>
    (\<forall>k<match_loop old src new dst mx n. old ! (src + k) = new ! (dst + k)) \<and>
    (\<forall>w. w \<le> mx \<and> (\<forall>k<w. old ! (src + k) = new ! (dst + k)) \<longrightarrow> w \<le> match_loop old src new dst mx n)"
  using assms
proof (induction old src new dst mx n rule: match_loop.induct)
  case (1 old src new dst mx n)
  show ?case
  proof (cases "n < mx \<and> old ! (src + n) = new ! (dst + n)")
    case True
    then have "\<forall>k<n + 1. old ! (src + k) = new ! (dst + k)"
      using "1.prems" by (auto simp: less_Suc_eq)
    then show ?thesis using "1.IH" [OF True] True by (simp add: match_loop.simps [of _ _ _ _ _ n])
  next
    case False
    have "w \<le> n" if "w \<le> mx" "\<forall>k<w. old ! (src + k) = new ! (dst + k)" for w
      using that False by (metis le_less_trans not_le)
    then show ?thesis using "1.prems" False by (auto simp: match_loop.simps [of _ _ _ _ _ n])
  qed
qed

lemma extend_match_spec:
  assumes "src \<le> length old" "dst \<le> length new"
  shows "src + extend_match old src new dst \<le> length old" "dst + extend_match old src new dst \<le> length new"
    and "take (extend_match old src new dst) (drop src old) = take (extend_match old src new dst) (drop dst new)"
    and "src + w \<le> length old \<Longrightarrow> dst + w \<le> length new \<Longrightarrow> take w (drop src old) = take w (drop dst new) \<Longrightarrow>
      w \<le> extend_match old src new dst"
proof -
  note spec = match_loop_spec [of 0 "min (length old - src) (length new - dst)" old src new dst, folded extend_match_def]
  show bounds: "src + extend_match old src new dst \<le> length old" "dst + extend_match old src new dst \<le> length new"
    using spec assms by auto
  show "take (extend_match old src new dst) (drop src old) = take (extend_match old src new dst) (drop dst new)"
    using spec bounds by (intro nth_equalityI) auto
  assume w: "src + w \<le> length old" "dst + w \<le> length new" "take w (drop src old) = take w (drop dst new)"
  have "old ! (src + k) = new ! (dst + k)" if "k < w" for k
    using arg_cong [OF w(3), of "\<lambda>xs. xs ! k"] w(1,2) that by simp
  then show "w \<le> extend_match old src new dst" using spec w(1,2) by (metis add_le_imp_le_diff add.commute min.boundedI zero_le less_nat_zero_code)
qed

lemma window_index_sound:
  assumes "length old < 2 ^ 32" "hm_get (window_index old) key = Some src"
  shows "unat src + WINDOW \<le> length old \<and> take WINDOW (drop (unat src) old) = key"
proof -
  have "hm_get (foldl (add_window old) [] is) key = Some src \<Longrightarrow> \<forall>i\<in>set is. i + WINDOW \<le> length old \<Longrightarrow>
      unat src + WINDOW \<le> length old \<and> take WINDOW (drop (unat src) old) = key" for "is"
  proof (induction "is" rule: rev_induct)
    case (snoc i "is")
    have "unat (word_of_nat i :: u32) = i" using snoc.prems(2) assms(1) by (simp add: unat_of_nat)
    then show ?case using snoc
      by (auto simp: add_window_def Let_def hm_get_insert split: if_splits)
  qed simp
  moreover have "WINDOW \<le> length old" "hm_get (foldl (add_window old) [] [0 ..< length old - WINDOW + 1]) key = Some src"
    using assms(2) by (simp_all add: window_index_def del: upt_Suc split: if_splits)
  ultimately show ?thesis by (metis atLeastLessThan_iff le_diff_conv2 less_Suc_eq_le set_upt Suc_eq_plus1)
qed

subsection \<open>Opcodes decode to what was encoded\<close>

lemma from_be_unat_u32 [simp]: "from_be (be_bytes 4 (unat (w :: u32))) = unat w"
  using unat_bound [of w] by (simp add: from_be_bytes)

lemma apply_loop_copy:
  assumes "unat src + unat len \<le> length old"
  shows "apply_loop old (write_copy [] src len @ raw) out =
    (if length out + unat len > INLINE_MAX then Inl ''delta output exceeds INLINE_MAX''
     else apply_loop old raw (out @ take (unat len) (drop (unat src) old)))"
  using assms by (subst apply_loop.simps) (simp add: write_copy_def Let_def)

lemma apply_loop_insert:
  assumes "length seg < 2 ^ 32" "length out + length seg \<le> INLINE_MAX"
  shows "apply_loop old (write_insert [] seg @ raw) out = apply_loop old raw (out @ seg)"
proof (cases "seg = []")
  case False
  have "unat (word_of_nat (length seg) :: u32) = length seg" "from_be (be_bytes 4 (length seg)) = length seg"
    using assms(1) by (simp_all add: unat_of_nat from_be_bytes)
  then show ?thesis using assms(2) False by (subst apply_loop.simps) (simp add: write_insert_def Let_def)
qed (simp add: write_insert_def)

lemma write_append:
  "write_copy buf src len = buf @ write_copy [] src len" "write_insert buf seg = buf @ write_insert [] seg"
  by (simp_all add: write_copy_def write_insert_def)

text \<open>One turn of the loop, with the accumulated buffer in front.\<close>

lemma diff_loop_append: "diff_loop idx old new p j buf = buf @ diff_loop idx old new p j []"
proof (induction "length new - j" arbitrary: p j buf rule: less_induct)
  case less
  show ?case
  proof (cases "j + WINDOW \<le> length new")
    case True
    have IH: "diff_loop idx old new p' j' b = b @ diff_loop idx old new p' j' []" if "j < j'" for p' j' b
      by (rule less) (use that True in \<open>simp add: WINDOW_def\<close>)
    show ?thesis
    proof (cases "\<exists>src. hm_get idx (take WINDOW (drop j new)) = Some src \<and> WINDOW \<le> extend_match old (unat src) new j")
      case found: True
      then obtain src where src: "hm_get idx (take WINDOW (drop j new)) = Some src"
        "WINDOW \<le> extend_match old (unat src) new j" by blast
      define m where "m = extend_match old (unat src) new j"
      define buf' where "buf' = (\<lambda>b. write_copy (if p < j then write_insert b (take (j - p) (drop p new)) else b)
        src (word_of_nat m))"
      have eq: "diff_loop idx old new p j b = diff_loop idx old new (j + m) (j + m) (buf' b)" for b
        using True src by (simp add: diff_loop.simps [of idx old new p j b] m_def buf'_def Let_def)
      have "buf' buf = buf @ buf' []" by (simp add: buf'_def write_copy_def write_insert_def)
      moreover have "j < j + m" using src(2) by (simp add: m_def WINDOW_def)
      ultimately show ?thesis unfolding eq using IH [of "j + m"] by (metis append_assoc)
    next
      case False
      then have "diff_loop idx old new p j b = diff_loop idx old new p (j + 1) b" for b
        using True by (auto simp: diff_loop.simps [of idx old new p j b] Let_def split: option.split)
      then show ?thesis using IH [of "j + 1"] by (metis less_add_one)
    qed
  next
    case False
    then show ?thesis by (simp add: diff_loop.simps [of idx old new p j] write_append(2) [of buf])
  qed
qed

text \<open>The opcodes reproduce the new file behind what is already out, in little more than its size.\<close>

lemma diff_loop_correct:
  assumes "length old < 2 ^ 32" "length new \<le> INLINE_MAX" "p \<le> j" "j \<le> length new"
  shows "apply_loop old (diff_loop (window_index old) old new p j []) (take p new) = Inr new \<and>
    length (diff_loop (window_index old) old new p j []) \<le> length new - p + 5"
  using assms(3,4)
proof (induction "length new - j" arbitrary: p j rule: less_induct)
  case less
  let ?idx = "window_index old"
  have small: "length new < 2 ^ 32" using assms(2) by (simp add: INLINE_MAX_def)
  have ins: "apply_loop old (write_insert [] (take k (drop p new)) @ raw) (take p new) = apply_loop old raw (take (p + k) new)"
    if "p + k \<le> length new" for k raw
    using that assms(2) small by (subst apply_loop_insert) (auto simp: take_add min_def)
  show ?case
  proof (cases "j + WINDOW \<le> length new")
    case True
    show ?thesis
    proof (cases "\<exists>src. hm_get ?idx (take WINDOW (drop j new)) = Some src \<and> WINDOW \<le> extend_match old (unat src) new j")
      case found: True
      then obtain src where src: "hm_get ?idx (take WINDOW (drop j new)) = Some src"
        and wide: "WINDOW \<le> extend_match old (unat src) new j" by blast
      define m where "m = extend_match old (unat src) new j"
      have "unat src \<le> length old" using window_index_sound [OF assms(1) src] by simp
      note match = extend_match_spec [OF this less.prems(2), folded m_def]
      have m: "unat (word_of_nat m :: u32) = m" using match(1) assms(1) by (simp add: unat_of_nat)
      define rest where "rest = diff_loop ?idx old new (j + m) (j + m) []"
      have eq: "diff_loop ?idx old new p j [] =
          write_insert [] (take (j - p) (drop p new)) @ write_copy [] src (word_of_nat m) @ rest"
        using True src wide less.prems unfolding rest_def
        by (subst diff_loop.simps)
          (simp add: Let_def m_def [symmetric] diff_loop_append [of _ _ _ _ _ "write_copy _ _ _"] write_append(1) [of "write_insert _ _"]
            write_insert_def [of "[]" "[]"])
      have IH: "apply_loop old rest (take (j + m) new) = Inr new" "length rest \<le> length new - (j + m) + 5"
        unfolding rest_def using less.hyps [of "j + m" "j + m"] match(2) True wide by (auto simp: m_def [symmetric] WINDOW_def)
      have "apply_loop old (write_copy [] src (word_of_nat m) @ rest) (take j new) = apply_loop old rest (take (j + m) new)"
        using match(1,2,3) assms(2) by (subst apply_loop_copy) (auto simp: m take_add min_def)
      moreover have "length (write_insert [] (take (j - p) (drop p new))) \<le> 5 + (j - p)"
        "length (write_copy [] src (word_of_nat m)) = 9"
        using less.prems by (auto simp: write_insert_def write_copy_def)
      ultimately show ?thesis
        unfolding eq using IH ins [of "j - p"] less.prems match(2) wide by (simp add: m_def [symmetric] WINDOW_def)
    next
      case False
      then have eq: "diff_loop ?idx old new p j [] = diff_loop ?idx old new p (j + 1) []"
        using True by (subst diff_loop.simps) (auto simp: Let_def split: option.split)
      show ?thesis unfolding eq
        by (rule less.hyps) (use True less.prems in \<open>auto simp: WINDOW_def\<close>)
    qed
  next
    case False
    then have eq: "diff_loop ?idx old new p j [] = write_insert [] (take (length new - p) (drop p new))"
      by (subst diff_loop.simps) (simp add: write_insert_def)
    show ?thesis unfolding eq
      using ins [of "length new - p" "[]"] less.prems by (auto simp: apply_loop.simps [of _ "[]"] write_insert_def)
  qed
qed

lemma diff_opcodes_correct:
  assumes "length old < 2 ^ 32" "length new \<le> INLINE_MAX"
  shows "apply_loop old (diff_opcodes old new) [] = Inr new" "length (diff_opcodes old new) \<le> length new + 9"
proof -
  have "unat (word_of_nat (length new) :: u32) = length new" if "old = new"
    using assms(1) that by (simp add: unat_of_nat)
  then show "apply_loop old (diff_opcodes old new) [] = Inr new"
    using diff_loop_correct [OF assms, of 0 0] assms(2) apply_loop_copy [of 0 "word_of_nat (length new)" old "[]" "[]"]
    by (auto simp: diff_opcodes_def apply_loop.simps [of _ "[]"])
  show "length (diff_opcodes old new) \<le> length new + 9"
    using diff_loop_correct [OF assms, of 0 0] by (auto simp: diff_opcodes_def write_copy_def)
qed

lemma delta_applies:
  assumes zlib: "\<And>d z n. zlib_enc prm d = Inr z \<Longrightarrow> zlib_read prm z n = Inr (take n d)"
    and "length old < 2 ^ 32" "length new \<le> INLINE_MAX"
    and delta: "create_delta prm old new = Some delta"
  shows "apply_delta prm old delta = Inr new"
proof -
  let ?ops = "diff_opcodes old new"
  obtain z full where z: "zlib_enc prm ?ops = Inr z" "zlib_enc prm new = Inr full" "delta = DELTA_MAGIC @ z"
    and smaller: "length DELTA_MAGIC + length z < length full"
    using delta by (auto simp: create_delta_def zlib_compress_def Let_def split: sum.splits if_splits)
  note ops = diff_opcodes_correct [OF assms(2,3)]
  have nonempty: "?ops \<noteq> []"
  proof
    assume "?ops = []"
    then have "new = []" using ops(1) by (simp add: apply_loop.simps)
    then show False using z smaller \<open>?ops = []\<close> by simp
  qed
  have "zlib_decompress prm z MAX_DELTA_BYTES = Inr ?ops"
    using zlib [OF z(1)] ops(2) assms(3) by (simp add: zlib_decompress_def MAX_DELTA_BYTES_def INLINE_MAX_def)
  then show ?thesis using ops(1) nonempty
    by (simp add: apply_delta_def z(3) DELTA_MAGIC_def as_bytes_def)
qed

text \<open>
  C34: a delta reproduces the new file. When \<open>create_delta\<close> answers with a delta for a file of at
  most 8 MiB against an old version below four gigabytes, \<open>apply_delta\<close> on the same old version
  gives exactly the new file, within the bounds that guard against hostile deltas; zlib is only
  assumed to return what it compressed.
\<close>

theorem delta_roundtrip:
  assumes zlib: "\<And>d z n. zlib_enc prm d = Inr z \<Longrightarrow> zlib_read prm z n = Inr (take n d)"
    and "length old < 2 ^ 32" "length new \<le> INLINE_MAX"
    and delta: "create_delta prm old new = Some delta"
  shows "apply_delta prm old delta = Inr new"
  by (rule delta_applies [OF assms])

text \<open>A zlib that stores: one marker byte and the data, doubled when it does not start with zero.\<close>

definition toy_zlib :: xfer_prims where
  "toy_zlib = \<lparr>zlib_enc = (\<lambda>d. Inr (if take 1 d = [0] then 0 # d else 1 # d @ d @ d)),
     zlib_read = (\<lambda>z n. case z of [] \<Rightarrow> Inl ''eof'' | t # r \<Rightarrow> Inr (take n (if t = 0 then r else take (length r div 3) r))),
     sha256_digest = id, hex_of = string_of_bytes, b64_encode = string_of_bytes, b64_decode = (\<lambda>s. Some (as_bytes s))\<rparr>"

lemma toy_zlib_inverse: "zlib_enc toy_zlib d = Inr z \<Longrightarrow> zlib_read toy_zlib z n = Inr (take n d)"
proof -
  have "(length d + (length d + length d)) div 3 = length d" by linarith
  then show "zlib_enc toy_zlib d = Inr z \<Longrightarrow> zlib_read toy_zlib z n = Inr (take n d)"
    by (auto simp: toy_zlib_def min_def)
qed

theorem delta_roundtrip_witness:
  "let old = replicate 20 7; new = replicate 18 7 @ [1, 2] in
   apply_delta toy_zlib old (the (create_delta toy_zlib old new)) = Inr new"
proof -
  let ?old = "replicate 20 7 :: bytes" and ?new = "replicate 18 7 @ [1, 2] :: bytes"
  have "create_delta toy_zlib ?old ?new \<noteq> None" by code_simp
  then obtain d where "create_delta toy_zlib ?old ?new = Some d" by blast
  then show ?thesis
    using delta_roundtrip [of toy_zlib ?old ?new d, OF toy_zlib_inverse] by (simp add: Let_def INLINE_MAX_def)
qed

text \<open>No delta, however crafted, expands beyond the inline limit.\<close>

lemma apply_loop_bounded: "apply_loop old raw out = Inr r \<Longrightarrow> length out \<le> INLINE_MAX \<Longrightarrow> length r \<le> INLINE_MAX"
proof (induction old raw out rule: apply_loop.induct)
  case (1 old raw out)
  show ?case
  proof (cases raw)
    case Nil
    then show ?thesis using "1.prems" by (simp add: apply_loop.simps [of old "[]" out])
  next
    case (Cons tag rest)
    have len: "length (take len (drop k xs)) \<le> len" for len k and xs :: bytes by simp
    show ?thesis
    proof (cases "tag = 0")
      case True
      then show ?thesis
        using "1.prems" "1.IH"(1) [OF Cons True] Cons
        by (auto simp: apply_loop.simps [of old "0 # rest" out] Let_def split: if_splits)
    next
      case False
      then show ?thesis
        using "1.prems" "1.IH"(2) [OF Cons False] Cons
        by (auto simp: apply_loop.simps [of old "tag # rest" out] Let_def split: if_splits)
    qed
  qed
qed

end
