(* ===== verification/File_Names.thy ===== *)
theory File_Names
  imports Prelude
begin

section \<open>Names of received files (\<open>file_transfer.rs\<close>)\<close>

text \<open>
  A sender names the file it offers; the receiver stores it under the last component of that name
  after cleaning it, and never over an existing file. Paths are strings, \<open>dir.join(name)\<close> of a
  relative name puts a slash between, and whether a path exists is a parameter. \<open>download_dir\<close> is
  the operating system's answer and a parameter too.
\<close>

definition is_sep :: "char \<Rightarrow> bool" where
  "is_sep c \<longleftrightarrow> c = CHR ''/'' \<or> c = CHR 0x5C"

definition trim_end :: "(char \<Rightarrow> bool) \<Rightarrow> string \<Rightarrow> string" where
  "trim_end P s = rev (dropWhile P (rev s))"

text \<open>\<open>rsplit(seps).next()\<close> is the part behind the last separator, \<open>split(c).next()\<close> the part before the first.\<close>

definition last_part :: "(char \<Rightarrow> bool) \<Rightarrow> string \<Rightarrow> string" where
  "last_part P s = rev (takeWhile (\<lambda>c. \<not> P c) (rev s))"

definition first_part :: "char \<Rightarrow> string \<Rightarrow> string" where
  "first_part c s = takeWhile (\<lambda>x. x \<noteq> c) s"

definition to_ascii_upper :: "char \<Rightarrow> char" where
  "to_ascii_upper c = (if 97 \<le> (of_char c :: nat) \<and> (of_char c :: nat) \<le> 122 then char_of (of_char c - 32 :: nat) else c)"

definition eq_ignore_ascii_case :: "string \<Rightarrow> string \<Rightarrow> bool" where
  "eq_ignore_ascii_case a b \<longleftrightarrow> map to_ascii_upper a = map to_ascii_upper b"

definition RESERVED :: "string list" where
  "RESERVED = [''CON'', ''PRN'', ''AUX'', ''NUL'', ''COM1'', ''COM2'', ''COM3'', ''COM4'', ''COM5'', ''COM6'', ''COM7'',
     ''COM8'', ''COM9'', ''LPT1'', ''LPT2'', ''LPT3'', ''LPT4'', ''LPT5'', ''LPT6'', ''LPT7'', ''LPT8'', ''LPT9'']"

definition is_reserved_device_name :: "string \<Rightarrow> bool" where
  "is_reserved_device_name stem = list_ex (eq_ignore_ascii_case stem) RESERVED"

definition safe_file_name :: "string \<Rightarrow> string" where
  "safe_file_name rel_path =
     (let base = last_part is_sep (trim_end is_sep rel_path);
          base = first_part CHR '':'' base;
          base = trim_end (\<lambda>c. c = CHR ''.'' \<or> c = CHR '' '') base
      in if base = [] \<or> base = ''.'' \<or> base = ''..'' then ''received_file''
         else if is_reserved_device_name (first_part CHR ''.'' base) then ''_'' @ base
         else base)"

definition path_join :: "string \<Rightarrow> string \<Rightarrow> string" where
  "path_join dir name = dir @ ''/'' @ name"

definition part_file_path :: "string \<Rightarrow> string \<Rightarrow> string \<Rightarrow> string" where
  "part_file_path download_dir rel_path transfer_id =
     path_join download_dir (safe_file_name rel_path @ ''.'' @ transfer_id @ ''.part'')"

text \<open>
  \<open>Path::file_stem\<close> and \<open>Path::extension\<close> of a single component: split at the last dot, unless
  there is none or it is the first character.
\<close>

definition stem_and_ext :: "string \<Rightarrow> string \<times> string option" where
  "stem_and_ext name =
     (let ext = last_part (\<lambda>c. c = CHR ''.'') name; before = take (length name - length ext - 1) name
      in if CHR ''.'' \<notin> set name \<or> before = [] \<or> name = ''..'' then (name, None) else (before, Some ext))"

definition numbered_name :: "string \<Rightarrow> nat \<Rightarrow> string" where
  "numbered_name name n =
     (case stem_and_ext name of
        (stem, Some e) \<Rightarrow> stem @ '' ('' @ show_dec n @ '').'' @ e
      | (stem, None) \<Rightarrow> stem @ '' ('' @ show_dec n @ '')'')"

definition unique_dest_path :: "(string \<Rightarrow> bool) \<Rightarrow> string \<Rightarrow> string \<Rightarrow> string" where
  "unique_dest_path exists dir file_name =
     (if \<not> exists (path_join dir file_name) then path_join dir file_name
      else case find (\<lambda>n. \<not> exists (path_join dir (numbered_name file_name n))) [1 ..< 10000] of
        Some n \<Rightarrow> path_join dir (numbered_name file_name n)
      | None \<Rightarrow> path_join dir file_name)"

subsection \<open>What a cleaned name looks like\<close>

lemma set_trim_end: "set (trim_end P s) \<subseteq> set s"
  unfolding trim_end_def using set_dropWhileD by fastforce

lemma trim_end_last: "trim_end P s \<noteq> [] \<Longrightarrow> \<not> P (last (trim_end P s))"
  by (simp add: trim_end_def last_rev hd_dropWhile)

lemma first_part_absent: "c \<notin> set (first_part c s)"
  by (auto simp: first_part_def dest: set_takeWhileD)

lemma set_first_part: "set (first_part c s) \<subseteq> set s"
  by (auto simp: first_part_def dest: set_takeWhileD)

lemma last_part_absent: "x \<in> set (last_part P s) \<Longrightarrow> \<not> P x"
  by (auto simp: last_part_def dest: set_takeWhileD)

lemma underscore_not_reserved: "\<not> is_reserved_device_name (CHR ''_'' # s)"
proof -
  have "to_ascii_upper CHR ''_'' = CHR ''_''" by (simp add: to_ascii_upper_def)
  moreover have "to_ascii_upper c = c" if "c \<in> set ''CPANL''" for c using that by (auto simp: to_ascii_upper_def)
  ultimately show ?thesis
    by (simp add: is_reserved_device_name_def eq_ignore_ascii_case_def RESERVED_def)
qed

text \<open>A name is safe in a directory when it is one component that every platform takes literally.\<close>

definition literal_component :: "string \<Rightarrow> bool" where
  "literal_component s \<longleftrightarrow> s \<noteq> [] \<and> s \<noteq> ''.'' \<and> s \<noteq> ''..'' \<and> \<not> list_ex is_sep s \<and> CHR '':'' \<notin> set s \<and>
     last s \<noteq> CHR ''.'' \<and> last s \<noteq> CHR '' '' \<and> \<not> is_reserved_device_name (first_part CHR ''.'' s)"

lemma safe_file_name_literal: "literal_component (safe_file_name rel_path)"
proof -
  let ?ends = "\<lambda>c. c = CHR ''.'' \<or> c = CHR '' ''"
  define b1 where "b1 = first_part CHR '':'' (last_part is_sep (trim_end is_sep rel_path))"
  define b where "b = trim_end ?ends b1"
  have sub: "set b \<subseteq> set b1" "set b1 \<subseteq> set (last_part is_sep (trim_end is_sep rel_path))"
    unfolding b_def b1_def by (rule set_trim_end, rule set_first_part)
  have seps: "\<not> list_ex is_sep b" using sub last_part_absent by (fastforce simp: list_ex_iff)
  have colon: "CHR '':'' \<notin> set b" using sub(1) first_part_absent [of "CHR '':''"] unfolding b1_def by blast
  have ends: "b \<noteq> [] \<Longrightarrow> last b \<noteq> CHR ''.'' \<and> last b \<noteq> CHR '' ''"
    unfolding b_def using trim_end_last [of ?ends b1] by blast
  have eq: "safe_file_name rel_path =
      (if b = [] then ''received_file'' else if is_reserved_device_name (first_part CHR ''.'' b) then ''_'' @ b else b)"
    using ends by (auto simp: safe_file_name_def Let_def b_def [symmetric] b1_def [symmetric])
  have fallback: "literal_component ''received_file''"
    by (simp add: literal_component_def is_sep_def first_part_def is_reserved_device_name_def RESERVED_def eq_ignore_ascii_case_def)
  show ?thesis
  proof (cases "b = []")
    case True
    then show ?thesis using eq fallback by simp
  next
    case False
    then show ?thesis
      unfolding eq using seps colon ends underscore_not_reserved
      by (auto simp: literal_component_def is_sep_def first_part_def)
  qed
qed

lemma show_dec_no_sep: "\<not> list_ex is_sep (show_dec n)"
proof -
  have "\<not> is_sep (char_of (48 + d :: nat))" if "d < 10" for d
  proof
    assume "is_sep (char_of (48 + d))"
    then have "of_char (char_of (48 + d) :: char) = (of_char CHR ''/'' :: nat) \<or> of_char (char_of (48 + d) :: char) = (of_char CHR 0x5C :: nat)"
      unfolding is_sep_def by metis
    then show False using that by (simp add: of_char_of)
  qed
  then show ?thesis using show_dec_digits [of _ n] by (fastforce simp: list_ex_iff)
qed

lemma stem_and_ext_set:
  "set (fst (stem_and_ext s)) \<subseteq> set s" "snd (stem_and_ext s) = Some e \<Longrightarrow> set e \<subseteq> set s"
proof -
  have "set (last_part P s) \<subseteq> set s" for P using set_takeWhileD [of _ _ "rev s"] by (auto simp: last_part_def)
  then show "set (fst (stem_and_ext s)) \<subseteq> set s" "snd (stem_and_ext s) = Some e \<Longrightarrow> set e \<subseteq> set s"
    by (auto simp: stem_and_ext_def Let_def dest: in_set_takeD split: if_splits)
qed

lemma numbered_name_component:
  assumes "\<not> list_ex is_sep s"
  shows "\<not> list_ex is_sep (numbered_name s n)" "CHR ''('' \<in> set (numbered_name s n)"
proof -
  obtain stem ext where se: "stem_and_ext s = (stem, ext)" by (cases "stem_and_ext s")
  have "\<not> list_ex is_sep stem" "ext = Some e \<Longrightarrow> \<not> list_ex is_sep e" for e
    using stem_and_ext_set [of s] se assms by (auto simp: list_ex_iff)
  then show "\<not> list_ex is_sep (numbered_name s n)" "CHR ''('' \<in> set (numbered_name s n)"
    using show_dec_no_sep [of n] by (auto simp: numbered_name_def se is_sep_def split: option.split)
qed

text \<open>
  The cleaned name is one component that means itself; the destination is that name or a numbered variant of it
  directly in the directory, and it exists already only when the name and all 9999 numbered variants do.
\<close>

lemma dest_path_placed:
  "literal_component (safe_file_name rel) \<and>
   (\<exists>name. unique_dest_path ex dir (safe_file_name rel) = path_join dir name \<and>
      (name = safe_file_name rel \<or> (\<exists>n. name = numbered_name (safe_file_name rel) n)) \<and>
      \<not> list_ex is_sep name \<and> name \<notin> {[], ''.'', ''..''}) \<and>
   (ex (unique_dest_path ex dir f) \<longleftrightarrow>
      insert (path_join dir f) ((\<lambda>n. path_join dir (numbered_name f n)) ` {1..<10000}) \<subseteq> Collect ex)"
proof -
  note lit = safe_file_name_literal [of rel]
  have base: "\<not> list_ex is_sep (safe_file_name rel)" "safe_file_name rel \<notin> {[], ''.'', ''..''}"
    using lit by (auto simp: literal_component_def)
  have num: "\<not> list_ex is_sep (numbered_name (safe_file_name rel) n)" "numbered_name (safe_file_name rel) n \<notin> {[], ''.'', ''..''}" for n
    using numbered_name_component [OF base(1), of n] by auto
  have "\<exists>name. unique_dest_path ex dir (safe_file_name rel) = path_join dir name \<and>
      (name = safe_file_name rel \<or> (\<exists>n. name = numbered_name (safe_file_name rel) n)) \<and>
      \<not> list_ex is_sep name \<and> name \<notin> {[], ''.'', ''..''}"
  proof (cases "ex (path_join dir (safe_file_name rel))")
    case True
    then show ?thesis
      by (cases "find (\<lambda>n. \<not> ex (path_join dir (numbered_name (safe_file_name rel) n))) [1 ..< 10000]")
        (use base num in \<open>auto simp only: unique_dest_path_def option.case not_True_eq_False if_False\<close>)
  next
    case False
    then show ?thesis using base by (auto simp: unique_dest_path_def)
  qed
  moreover have "ex (unique_dest_path ex dir f) \<longleftrightarrow>
      insert (path_join dir f) ((\<lambda>n. path_join dir (numbered_name f n)) ` {1..<10000}) \<subseteq> Collect ex"
  proof (cases "find (\<lambda>n. \<not> ex (path_join dir (numbered_name f n))) [1 ..< 10000]")
    case None
    then have "ex (path_join dir (numbered_name f n))" if "n \<in> {1..<10000}" for n
      using that by (auto simp: find_None_iff)
    then show ?thesis unfolding unique_dest_path_def None by auto
  next
    case (Some n)
    then have "n \<in> {1..<10000}" "\<not> ex (path_join dir (numbered_name f n))"
      by (auto simp: find_Some_iff dest: nth_mem)
    then show ?thesis unfolding unique_dest_path_def Some by (auto dest!: subsetD [of _ _ "path_join dir (numbered_name f n)"])
  qed
  ultimately show ?thesis using lit by blast
qed

end
