(* ===== verification/File_Transfer.thy ===== *)
theory File_Transfer
  imports File_Delta File_Names
begin

section \<open>The file transfer manager (\<open>file_transfer.rs\<close>)\<close>

text \<open>
  Offers, chunks, completion and retry of file transfers between two peers or in a room. The
  manager is synchronous: each call returns the events the caller should act on. Files are the
  entries of \<open>disk\<close>, and what the operating system answers to a call (the time, a fresh id,
  whether a read, write, resize, rename or removal fails) is the record \<open>io\<close> given to it; the
  clock is read once per call. An open \<open>.part\<close> file is written through its path. A call that
  panics has the value \<open>None\<close>. Sizes and counts are \<open>nat\<close>: they stay far below \<open>2 ^ 64\<close>.
\<close>

subsection \<open>Constants\<close>

definition CHUNK_SIZE :: nat where "CHUNK_SIZE = 65536"
definition MAX_TRANSFER_SIZE :: nat where "MAX_TRANSFER_SIZE = 4 * 1024 * 1024 * 1024"
definition TRANSFER_RETAIN_SECS :: real where "TRANSFER_RETAIN_SECS = 300"
definition ROOM_FILE_CHUNK_BUDGET :: nat where "ROOM_FILE_CHUNK_BUDGET = 8"
definition STALL_BACKOFF_BASE_SECS :: real where "STALL_BACKOFF_BASE_SECS = 1 / 10"
definition STALL_BACKOFF_MAX_SECS :: real where "STALL_BACKOFF_MAX_SECS = 5"
definition STALL_GIVE_UP_SECS :: real where "STALL_GIVE_UP_SECS = 120"
definition OFFER_TTL_SECS :: real where "OFFER_TTL_SECS = 3600"
definition TRANSFER_IDLE_SECS :: real where "TRANSFER_IDLE_SECS = 3600"
definition PULL_ANSWER_TIMEOUT_SECS :: real where "PULL_ANSWER_TIMEOUT_SECS = 30"
definition MAX_AUTO_RESUME :: nat where "MAX_AUTO_RESUME = 3"
definition INTERRUPTED_REASON :: string where "INTERRUPTED_REASON = ''Interrupted. Tap Retry to resume.''"

subsection \<open>The environment of a call\<close>

type_synonym disk = "(string, bytes) hmap"

record io =
  now :: real
  new_uuid :: string
  download_dir :: string
  os_error :: string
  read_ok :: "nat \<Rightarrow> bool"
  open_ok :: bool
  write_fault :: "nat option"
  set_len_ok :: bool
  stat_ok :: bool
  rename_ok :: bool
  remove_ok :: bool

text \<open>\<open>seek\<close> and \<open>write_all\<close>: a gap is filled with zeros. A failing write stops after some bytes.\<close>

definition write_at :: "nat \<Rightarrow> bytes \<Rightarrow> bytes \<Rightarrow> bytes" where
  "write_at offset data f =
     (if data = [] then f
      else take offset (f @ replicate (offset - length f) 0) @ data @ drop (offset + length data) f)"

definition set_len :: "nat \<Rightarrow> bytes \<Rightarrow> bytes" where
  "set_len n f = take n (f @ replicate (n - length f) 0)"

definition remove_file :: "io \<Rightarrow> string \<Rightarrow> disk \<Rightarrow> disk" where
  "remove_file e path d = (if remove_ok e then hm_remove path d else d)"

subsection \<open>Transfer states\<close>

datatype TransferState = Pending | Transferring | Verifying | Complete | Failed | Rejected | Cancelled

fun is_terminal :: "TransferState \<Rightarrow> bool" where
  "is_terminal Complete = True"
| "is_terminal Failed = True"
| "is_terminal Rejected = True"
| "is_terminal Cancelled = True"
| "is_terminal _ = False"

fun state_as_str :: "TransferState \<Rightarrow> string" where
  "state_as_str Pending = ''pending''"
| "state_as_str Transferring = ''transferring''"
| "state_as_str Verifying = ''verifying''"
| "state_as_str Complete = ''complete''"
| "state_as_str Failed = ''failed''"
| "state_as_str Rejected = ''rejected''"
| "state_as_str Cancelled = ''cancelled''"

subsection \<open>Outbound transfers\<close>

datatype TransferSource = Inline bytes | FilePath string nat

fun payload_len :: "TransferSource \<Rightarrow> nat" where
  "payload_len (Inline d) = length d"
| "payload_len (FilePath _ len) = len"

fun source_is_streaming :: "TransferSource \<Rightarrow> bool" where
  "source_is_streaming (FilePath _ _) = True"
| "source_is_streaming (Inline _) = False"

text \<open>\<open>read_exact\<close> fails on a file that has become shorter or has vanished.\<close>

definition read_chunk :: "io \<Rightarrow> disk \<Rightarrow> TransferSource \<Rightarrow> nat \<Rightarrow> bytes option" where
  "read_chunk e d src index =
     (let offset = index * CHUNK_SIZE; total = payload_len src in
      if offset \<ge> total \<and> \<not> (total = 0 \<and> index = 0) then None
      else let want = min CHUNK_SIZE (total - offset) in
        case src of
          Inline data \<Rightarrow> Some (take want (drop offset data))
        | FilePath path _ \<Rightarrow>
            (case hm_get d path of None \<Rightarrow> None
             | Some f \<Rightarrow> if read_ok e index \<and> offset + want \<le> length f then Some (take want (drop offset f)) else None))"

record OutboundTransfer =
  o_transfer_id :: string
  o_peer_id :: string
  o_rel_path :: string
  o_source :: TransferSource
  o_sha256 :: string
  o_total_chunks :: nat
  o_chunks_sent :: nat
  o_state :: TransferState
  o_purpose :: string
  o_compressed :: bool
  o_is_delta :: bool
  o_created_at :: real
  o_last_progress_at :: real
  o_to :: string
  o_finished_at :: "real option"
  o_stall_count :: nat
  o_stalled_since :: "real option"
  o_retry_after :: real

definition outbound_progress :: "OutboundTransfer \<Rightarrow> real" where
  "outbound_progress x = (if o_total_chunks x = 0 then 0 else real (o_chunks_sent x) / real (o_total_chunks x))"

subsection \<open>Inbound transfers\<close>

datatype TransferSink =
    Memory "(nat, bytes) hmap"
  | PartFile (file_open: bool) (part_path: string) (part_received: "bool list") (part_count: nat)

fun received_count :: "TransferSink \<Rightarrow> nat" where
  "received_count (Memory m) = length m"
| "received_count (PartFile _ _ _ count) = count"

datatype ChunkStored = New | Duplicate | StoreFailed

record InboundTransfer =
  i_transfer_id :: string
  i_peer_id :: string
  i_room_id :: string
  i_supernode_id :: string
  i_rel_path :: string
  i_expected_sha256 :: string
  i_expected_size :: nat
  i_total_chunks :: nat
  i_state :: TransferState
  i_purpose :: string
  i_compressed :: bool
  i_is_delta :: bool
  i_base_sha256 :: string
  i_created_at :: real
  i_last_progress_at :: real
  i_finished_at :: "real option"
  i_pull_requested_at :: "real option"
  i_resume_attempts :: nat
  i_resumable :: bool
  i_sink :: TransferSink
  i_complete_requested :: bool

definition inbound_new :: "io \<Rightarrow> string \<Rightarrow> string \<Rightarrow> string \<Rightarrow> string \<Rightarrow> string \<Rightarrow> string \<Rightarrow> nat \<Rightarrow> nat \<Rightarrow>
    string \<Rightarrow> bool \<Rightarrow> bool \<Rightarrow> string \<Rightarrow> TransferSink \<Rightarrow> InboundTransfer" where
  "inbound_new e transfer_id peer_id room_id supernode_id rel_path expected_sha256 expected_size total_chunks
     purpose compressed is_delta base_sha256 sink =
     (let auto_accept = (purpose = ''update'') in
      \<lparr>i_transfer_id = transfer_id, i_peer_id = peer_id, i_room_id = room_id, i_supernode_id = supernode_id,
       i_rel_path = rel_path, i_expected_sha256 = expected_sha256, i_expected_size = expected_size,
       i_total_chunks = total_chunks, i_state = (if auto_accept then Transferring else Pending),
       i_purpose = purpose, i_compressed = compressed, i_is_delta = is_delta, i_base_sha256 = base_sha256,
       i_created_at = now e, i_last_progress_at = now e, i_finished_at = None,
       i_pull_requested_at = (if auto_accept then Some (now e) else None), i_resume_attempts = 0,
       i_resumable = False, i_sink = sink, i_complete_requested = False\<rparr>)"

definition inbound_is_streaming :: "InboundTransfer \<Rightarrow> bool" where
  "inbound_is_streaming x = (case i_sink x of PartFile _ _ _ _ \<Rightarrow> True | Memory _ \<Rightarrow> False)"

text \<open>The write goes to the file behind the open handle; a removed file takes it and is gone.\<close>

definition write_part :: "io \<Rightarrow> string \<Rightarrow> nat \<Rightarrow> bytes \<Rightarrow> disk \<Rightarrow> disk" where
  "write_part e path offset data d =
     hm_modify path (write_at offset (case write_fault e of None \<Rightarrow> data | Some k \<Rightarrow> take k data)) d"

definition store_chunk :: "io \<Rightarrow> disk \<Rightarrow> InboundTransfer \<Rightarrow> nat \<Rightarrow> bytes \<Rightarrow> ChunkStored \<times> InboundTransfer \<times> disk" where
  "store_chunk e d x index data =
     (if index \<ge> i_total_chunks x then (StoreFailed, x, d)
      else case i_sink x of
        Memory chunks \<Rightarrow>
          if hm_contains chunks index then (Duplicate, x, d)
          else (New, x\<lparr>i_sink := Memory (hm_insert index data chunks)\<rparr>, d)
      | PartFile file path received count \<Rightarrow>
          if (if index < length received then received ! index else True) then (Duplicate, x, d)
          else if \<not> file then (StoreFailed, x, d)
          else let d' = write_part e path (index * CHUNK_SIZE) data d in
            if write_fault e \<noteq> None then (StoreFailed, x, d')
            else (New, x\<lparr>i_sink := PartFile file path (received[index := True]) (count + 1)\<rparr>, d'))"

definition first_missing :: "InboundTransfer \<Rightarrow> nat option" where
  "first_missing x =
     (case i_sink x of
        Memory chunks \<Rightarrow> find (\<lambda>i. \<not> hm_contains chunks i) [0 ..< i_total_chunks x]
      | PartFile _ _ received _ \<Rightarrow> find (\<lambda>i. \<not> received ! i) [0 ..< length received])"

definition is_stalled :: "InboundTransfer \<Rightarrow> real \<Rightarrow> bool" where
  "is_stalled x t =
     (if i_resumable x \<or> i_state x \<noteq> Transferring then False
      else if first_missing x = None then False
      else case i_pull_requested_at x of None \<Rightarrow> False
        | Some requested \<Rightarrow> t - max requested (i_last_progress_at x) \<ge> PULL_ANSWER_TIMEOUT_SECS)"

definition chunks_received :: "InboundTransfer \<Rightarrow> nat" where
  "chunks_received x = received_count (i_sink x)"

definition inbound_progress_of :: "InboundTransfer \<Rightarrow> real" where
  "inbound_progress_of x = (if i_total_chunks x = 0 then 0 else real (chunks_received x) / real (i_total_chunks x))"

definition reassemble :: "InboundTransfer \<Rightarrow> bytes" where
  "reassemble x =
     (case i_sink x of
        PartFile _ _ _ _ \<Rightarrow> []
      | Memory chunks \<Rightarrow>
          concat (map (\<lambda>i. case hm_get chunks i of Some c \<Rightarrow> c | None \<Rightarrow> []) [0 ..< i_total_chunks x]))"

subsection \<open>Events\<close>

datatype MessageType = FileTransferOffer | FileTransferAccept | FileTransferReject | FileTransferChunk
  | FileTransferComplete | FileTransferAck | FileTransferError

datatype TransferPayload = Bytes bytes | SavedAt string nat

fun transfer_payload_len :: "TransferPayload \<Rightarrow> nat" where
  "transfer_payload_len (Bytes b) = length b"
| "transfer_payload_len (SavedAt _ len) = len"

definition payload_is_empty :: "TransferPayload \<Rightarrow> bool" where
  "payload_is_empty p \<longleftrightarrow> transfer_payload_len p = 0"

datatype TransferEvent =
    EvOffered string string string nat string
  | EvProgress string real
  | EvComplete (ev_tid: string) (ev_peer: string) (ev_room: string) (ev_supernode: string) (ev_purpose: string)
      (ev_payload: TransferPayload) (ev_rel_path: string)
  | EvFailed string string
  | EvStateChanged string string
  | EvHashFile string string
  | EvSendMessage string MessageType "(string \<times> json_value) list"

record PullResume =
  pr_transfer_id :: string
  pr_peer_id :: string
  pr_room_id :: string
  pr_supernode_id :: string
  pr_from_chunk :: nat
  pr_attempt :: nat

datatype InboundStall = Resume PullResume | GiveUp string string

record FileTransferManager =
  outbound :: "(string, OutboundTransfer) hmap"
  inbound :: "(string, InboundTransfer) hmap"
  old_data_store :: "(string, bytes) hmap"
  revoked :: "(string, real) hmap"
  disk :: disk

definition manager_new :: FileTransferManager where
  "manager_new = \<lparr>outbound = [], inbound = [], old_data_store = [], revoked = [], disk = []\<rparr>"

subsection \<open>Emitting chunks\<close>

definition progress_is_reportable :: "nat \<Rightarrow> nat \<Rightarrow> bool" where
  "progress_is_reportable sent n =
     (if n = 0 then False else if sent \<ge> n then True else sent mod max (n div 100) 1 = 0)"

definition to_field :: "OutboundTransfer \<Rightarrow> (string \<times> json_value) list" where
  "to_field x = (if o_to x = [] then [] else [(''to'', JStr (o_to x))])"

definition chunk_message :: "xfer_prims \<Rightarrow> OutboundTransfer \<Rightarrow> nat \<Rightarrow> bytes \<Rightarrow> TransferEvent" where
  "chunk_message prm x i chunk = EvSendMessage (o_peer_id x) FileTransferChunk
     ([(''transfer_id'', JStr (o_transfer_id x)), (''chunk_index'', JNum i), (''data'', JStr (b64_encode prm chunk))] @ to_field x)"

definition complete_message :: "OutboundTransfer \<Rightarrow> TransferEvent" where
  "complete_message x = EvSendMessage (o_peer_id x) FileTransferComplete
     ([(''transfer_id'', JStr (o_transfer_id x))] @ to_field x)"

text \<open>The loop of \<open>next_chunk_events\<close>; the first component tells that a read failed.\<close>

fun chunk_loop :: "xfer_prims \<Rightarrow> io \<Rightarrow> disk \<Rightarrow> nat \<Rightarrow> OutboundTransfer \<Rightarrow> TransferEvent list \<Rightarrow>
    bool \<times> TransferEvent list \<times> OutboundTransfer" where
  "chunk_loop prm e d 0 x evs = (False, evs, x)"
| "chunk_loop prm e d (Suc budget) x evs =
     (if o_chunks_sent x < o_total_chunks x
      then case read_chunk e d (o_source x) (o_chunks_sent x) of
        None \<Rightarrow> (True, evs @ [EvFailed (o_transfer_id x) ''source file unreadable''],
                 x\<lparr>o_state := Failed, o_finished_at := Some (now e)\<rparr>)
      | Some chunk \<Rightarrow>
          (let evs = evs @ [chunk_message prm x (o_chunks_sent x) chunk];
               x = x\<lparr>o_chunks_sent := o_chunks_sent x + 1\<rparr>;
               evs = evs @ (if progress_is_reportable (o_chunks_sent x) (o_total_chunks x)
                 then [EvProgress (o_transfer_id x) (real (o_chunks_sent x) / real (o_total_chunks x))] else [])
           in chunk_loop prm e d budget x evs)
      else (False, evs, x))"

definition next_chunk_events :: "xfer_prims \<Rightarrow> io \<Rightarrow> disk \<Rightarrow> OutboundTransfer \<Rightarrow> nat \<Rightarrow>
    (TransferEvent list \<times> bool) \<times> OutboundTransfer" where
  "next_chunk_events prm e d x budget =
     (case chunk_loop prm e d budget x [] of
        (True, evs, x) \<Rightarrow> ((evs, True), x)
      | (False, evs, x) \<Rightarrow>
          (let done = o_chunks_sent x \<ge> o_total_chunks x
           in ((if done then evs @ [complete_message x] else evs, done), x)))"

definition build_chunk_events :: "xfer_prims \<Rightarrow> io \<Rightarrow> disk \<Rightarrow> OutboundTransfer \<Rightarrow> TransferEvent list \<times> OutboundTransfer" where
  "build_chunk_events prm e d x =
     (case next_chunk_events prm e d x (o_total_chunks x) of ((evs, _), x) \<Rightarrow> (evs, x))"

subsection \<open>Offers\<close>

record OfferMeta =
  om_transfer_id :: string
  om_original_sha :: string
  om_original_size :: nat
  om_payload_len :: nat
  om_purpose :: string
  om_compressed :: bool
  om_is_delta :: bool
  om_base_sha256 :: string

record PreparedOffer =
  po_source :: TransferSource
  po_meta :: OfferMeta

definition prepared_size :: "PreparedOffer \<Rightarrow> nat" where
  "prepared_size offer = om_original_size (po_meta offer)"

definition xfer_sha256_hex :: "xfer_prims \<Rightarrow> bytes \<Rightarrow> string" where
  "xfer_sha256_hex prm data = hex_of prm (sha256_digest prm data)"

definition new_transfer_id :: "io \<Rightarrow> string option \<Rightarrow> string" where
  "new_transfer_id e transfer_id = (case transfer_id of Some t \<Rightarrow> t | None \<Rightarrow> take 16 (new_uuid e))"

definition prepare_inline_offer :: "xfer_prims \<Rightarrow> io \<Rightarrow> bytes \<Rightarrow> string \<Rightarrow> bytes option \<Rightarrow> string option \<Rightarrow>
    string + PreparedOffer" where
  "prepare_inline_offer prm e data purpose old_data transfer_id =
     (if length data > INLINE_MAX
      then Inl (''File too large for the in-memory path ('' @ show_dec (length data) @ '' bytes, max '' @
             show_dec INLINE_MAX @ ''); use offer_file_from_path'')
      else
        let (payload, compressed, is_delta, base) =
              (case old_data of
                 Some old \<Rightarrow>
                   (case create_delta prm old data of
                      Some delta \<Rightarrow> (delta, False, True, xfer_sha256_hex prm old)
                    | None \<Rightarrow> (case compress_data prm data of (c, flag) \<Rightarrow> (c, flag, False, [])))
               | None \<Rightarrow> (case compress_data prm data of (c, flag) \<Rightarrow> (c, flag, False, [])))
        in Inr \<lparr>po_source = Inline payload,
             po_meta = \<lparr>om_transfer_id = new_transfer_id e transfer_id, om_original_sha = xfer_sha256_hex prm data,
               om_original_size = length data, om_payload_len = length payload, om_purpose = purpose,
               om_compressed = compressed, om_is_delta = is_delta, om_base_sha256 = base\<rparr>\<rparr>)"

text \<open>The hash pass reads the whole file.\<close>

definition sha256_hex_file :: "xfer_prims \<Rightarrow> io \<Rightarrow> disk \<Rightarrow> string \<Rightarrow> string + string" where
  "sha256_hex_file prm e d path =
     (case hm_get d path of
        None \<Rightarrow> Inl (''Cannot open '' @ path @ '': '' @ os_error e)
      | Some f \<Rightarrow> if read_ok e 0 then Inr (xfer_sha256_hex prm f) else Inl (''Read failed on '' @ path @ '': '' @ os_error e))"

definition prepare_path_offer :: "xfer_prims \<Rightarrow> io \<Rightarrow> disk \<Rightarrow> string \<Rightarrow> string \<Rightarrow> string option \<Rightarrow> string + PreparedOffer" where
  "prepare_path_offer prm e d path purpose transfer_id =
     (case hm_get d path of
        None \<Rightarrow> Inl (''Cannot stat '' @ path @ '': '' @ os_error e)
      | Some f \<Rightarrow>
          if length f > MAX_TRANSFER_SIZE
          then Inl (''File too large ('' @ show_dec (length f) @ '' bytes, max '' @ show_dec MAX_TRANSFER_SIZE @ '')'')
          else case sha256_hex_file prm e d path of
            Inl err \<Rightarrow> Inl err
          | Inr sha \<Rightarrow> Inr \<lparr>po_source = FilePath path (length f),
              po_meta = \<lparr>om_transfer_id = new_transfer_id e transfer_id, om_original_sha = sha,
                om_original_size = length f, om_payload_len = length f, om_purpose = purpose, om_compressed = False,
                om_is_delta = False, om_base_sha256 = []\<rparr>\<rparr>)"

definition div_ceil :: "nat \<Rightarrow> nat \<Rightarrow> nat" where
  "div_ceil a b = (a + b - 1) div b"

definition offer_message :: "string \<Rightarrow> string \<Rightarrow> nat \<Rightarrow> OfferMeta \<Rightarrow> TransferEvent" where
  "offer_message peer_id rel_path total_chunks m = EvSendMessage peer_id FileTransferOffer
     [(''transfer_id'', JStr (om_transfer_id m)), (''rel_path'', JStr rel_path), (''sha256'', JStr (om_original_sha m)),
      (''size'', JNum (om_original_size m)), (''payload_size'', JNum (om_payload_len m)), (''total_chunks'', JNum total_chunks),
      (''purpose'', JStr (om_purpose m)), (''compressed'', JBool (om_compressed m)), (''is_delta'', JBool (om_is_delta m)),
      (''base_sha256'', JStr (om_base_sha256 m))]"

definition insert_offer :: "xfer_prims \<Rightarrow> io \<Rightarrow> FileTransferManager \<Rightarrow> string \<Rightarrow> string \<Rightarrow> TransferSource \<Rightarrow> OfferMeta \<Rightarrow> bool \<Rightarrow>
    (string \<times> TransferEvent list) \<times> FileTransferManager" where
  "insert_offer prm e m peer_id rel_path src meta auto_push =
     (let total_chunks = max (div_ceil (om_payload_len meta) CHUNK_SIZE) 1;
          tid = om_transfer_id meta;
          x = \<lparr>o_transfer_id = tid, o_peer_id = peer_id, o_rel_path = rel_path, o_source = src, o_sha256 = om_original_sha meta,
               o_total_chunks = total_chunks, o_chunks_sent = 0, o_state = Pending, o_purpose = om_purpose meta,
               o_compressed = om_compressed meta, o_is_delta = om_is_delta meta, o_created_at = now e,
               o_last_progress_at = now e, o_to = [], o_finished_at = None, o_stall_count = 0, o_stalled_since = None,
               o_retry_after = 0\<rparr>;
          (evs, x) = (if auto_push then build_chunk_events prm e (disk m) (x\<lparr>o_state := Transferring\<rparr>) else ([], x))
      in ((tid, offer_message peer_id rel_path total_chunks meta # evs), m\<lparr>outbound := hm_insert tid x (outbound m)\<rparr>))"

definition insert_prepared :: "xfer_prims \<Rightarrow> io \<Rightarrow> FileTransferManager \<Rightarrow> string \<Rightarrow> string \<Rightarrow> PreparedOffer \<Rightarrow> bool \<Rightarrow>
    (string \<times> TransferEvent list) \<times> FileTransferManager" where
  "insert_prepared prm e m peer_id rel_path offer auto_push =
     insert_offer prm e m peer_id rel_path (po_source offer) (po_meta offer) auto_push"

definition offer_file_with_id :: "xfer_prims \<Rightarrow> io \<Rightarrow> FileTransferManager \<Rightarrow> string \<Rightarrow> string \<Rightarrow> bytes \<Rightarrow> string \<Rightarrow> bytes option \<Rightarrow>
    bool \<Rightarrow> string option \<Rightarrow> string + (string \<times> TransferEvent list) \<times> FileTransferManager" where
  "offer_file_with_id prm e m peer_id rel_path data purpose old_data auto_push transfer_id =
     (case prepare_inline_offer prm e data purpose old_data transfer_id of
        Inl err \<Rightarrow> Inl err
      | Inr offer \<Rightarrow> Inr (insert_prepared prm e m peer_id rel_path offer auto_push))"

definition offer_file :: "xfer_prims \<Rightarrow> io \<Rightarrow> FileTransferManager \<Rightarrow> string \<Rightarrow> string \<Rightarrow> bytes \<Rightarrow> string \<Rightarrow> bytes option \<Rightarrow>
    bool \<Rightarrow> string + (string \<times> TransferEvent list) \<times> FileTransferManager" where
  "offer_file prm e m peer_id rel_path data purpose old_data auto_push =
     offer_file_with_id prm e m peer_id rel_path data purpose old_data auto_push None"

definition offer_file_from_path_with_id :: "xfer_prims \<Rightarrow> io \<Rightarrow> FileTransferManager \<Rightarrow> string \<Rightarrow> string \<Rightarrow> string \<Rightarrow> string \<Rightarrow>
    bool \<Rightarrow> string option \<Rightarrow> string + (string \<times> TransferEvent list) \<times> FileTransferManager" where
  "offer_file_from_path_with_id prm e m peer_id rel_path path purpose auto_push transfer_id =
     (case prepare_path_offer prm e (disk m) path purpose transfer_id of
        Inl err \<Rightarrow> Inl err
      | Inr offer \<Rightarrow> Inr (insert_prepared prm e m peer_id rel_path offer auto_push))"

definition offer_file_from_path :: "xfer_prims \<Rightarrow> io \<Rightarrow> FileTransferManager \<Rightarrow> string \<Rightarrow> string \<Rightarrow> string \<Rightarrow> string \<Rightarrow>
    bool \<Rightarrow> string + (string \<times> TransferEvent list) \<times> FileTransferManager" where
  "offer_file_from_path prm e m peer_id rel_path path purpose auto_push =
     offer_file_from_path_with_id prm e m peer_id rel_path path purpose auto_push None"

definition set_old_file_data :: "FileTransferManager \<Rightarrow> string \<Rightarrow> bytes \<Rightarrow> FileTransferManager" where
  "set_old_file_data m rel_path data = m\<lparr>old_data_store := hm_insert rel_path data (old_data_store m)\<rparr>"

definition get_old_data :: "FileTransferManager \<Rightarrow> string \<Rightarrow> bytes option" where
  "get_old_data m rel_path = hm_get (old_data_store m) rel_path"

end
