(* ===== verification/File_Manager.thy ===== *)
theory File_Manager
  imports File_Transfer
begin

section \<open>Operations of the file transfer manager (\<open>file_transfer.rs\<close>)\<close>

text \<open>
  The calls of \<open>FileTransferManager\<close>: sending, receiving, completion, retry and collection. A
  query returns its answer; an operation returns its events with the new manager, and an
  operation that can panic returns them as an option.
\<close>

subsection \<open>Sending\<close>

definition offer_was_withdrawn :: "io \<Rightarrow> FileTransferManager \<Rightarrow> string \<Rightarrow> bool" where
  "offer_was_withdrawn e m tid \<longleftrightarrow> hm_contains (revoked m) tid \<or>
     (case hm_get (outbound m) tid of Some x \<Rightarrow> now e - o_created_at x \<ge> OFFER_TTL_SECS | None \<Rightarrow> False)"

definition has_outbound :: "FileTransferManager \<Rightarrow> string \<Rightarrow> bool" where
  "has_outbound m tid = hm_contains (outbound m) tid"

definition put_outbound :: "FileTransferManager \<Rightarrow> string \<Rightarrow> OutboundTransfer \<Rightarrow> FileTransferManager" where
  "put_outbound m tid x = m\<lparr>outbound := hm_insert tid x (outbound m)\<rparr>"

definition put_inbound :: "FileTransferManager \<Rightarrow> string \<Rightarrow> InboundTransfer \<Rightarrow> FileTransferManager" where
  "put_inbound m tid x = m\<lparr>inbound := hm_insert tid x (inbound m)\<rparr>"

definition live_again :: "io \<Rightarrow> OutboundTransfer \<Rightarrow> OutboundTransfer" where
  "live_again e x = x\<lparr>o_state := Transferring, o_last_progress_at := now e, o_finished_at := None,
     o_stall_count := 0, o_stalled_since := None, o_retry_after := 0\<rparr>"

definition restart_outbound :: "xfer_prims \<Rightarrow> io \<Rightarrow> disk \<Rightarrow> OutboundTransfer \<Rightarrow> string \<Rightarrow> nat \<Rightarrow> nat \<Rightarrow>
    TransferEvent list \<times> OutboundTransfer" where
  "restart_outbound prm e d x requester from_chunk budget =
     (let x = live_again e (x\<lparr>o_chunks_sent := min from_chunk (o_total_chunks x), o_to := requester\<rparr>)
      in case next_chunk_events prm e d x budget of ((evs, _), x) \<Rightarrow> (evs, x))"

definition start_stream_from :: "xfer_prims \<Rightarrow> io \<Rightarrow> FileTransferManager \<Rightarrow> string \<Rightarrow> string \<Rightarrow> nat \<Rightarrow> nat \<Rightarrow>
    TransferEvent list \<times> FileTransferManager" where
  "start_stream_from prm e m tid requester from_chunk budget =
     (if offer_was_withdrawn e m tid then ([], m)
      else case hm_get (outbound m) tid of None \<Rightarrow> ([], m)
      | Some x \<Rightarrow> (case restart_outbound prm e (disk m) x requester from_chunk budget of
          (evs, x) \<Rightarrow> (evs, put_outbound m tid x)))"

definition start_stream_for :: "xfer_prims \<Rightarrow> io \<Rightarrow> FileTransferManager \<Rightarrow> string \<Rightarrow> string \<Rightarrow> nat \<Rightarrow>
    TransferEvent list \<times> FileTransferManager" where
  "start_stream_for prm e m tid requester budget =
     (if offer_was_withdrawn e m tid then ([], m)
      else case hm_get (outbound m) tid of None \<Rightarrow> ([], m)
      | Some x \<Rightarrow> (case restart_outbound prm e (disk m) x requester 0 budget of
          (evs, x) \<Rightarrow> (evs, put_outbound m tid x)))"

definition pump_stream :: "xfer_prims \<Rightarrow> io \<Rightarrow> FileTransferManager \<Rightarrow> string \<Rightarrow> nat \<Rightarrow>
    (TransferEvent list \<times> bool) \<times> FileTransferManager" where
  "pump_stream prm e m tid budget =
     (case hm_get (outbound m) tid of None \<Rightarrow> (([], True), m)
      | Some x \<Rightarrow>
          if o_state x \<noteq> Transferring then (([], True), m)
          else case next_chunk_events prm e (disk m) x budget of (r, x) \<Rightarrow> (r, put_outbound m tid x))"

definition inbound_route :: "FileTransferManager \<Rightarrow> string \<Rightarrow> (string \<times> string \<times> string) option" where
  "inbound_route m tid = map_option (\<lambda>x. (i_peer_id x, i_room_id x, i_supernode_id x)) (hm_get (inbound m) tid)"

definition outbound_route :: "FileTransferManager \<Rightarrow> string \<Rightarrow> (string \<times> string) option" where
  "outbound_route m tid = map_option (\<lambda>x. (o_peer_id x, [])) (hm_get (outbound m) tid)"

definition revoke_outbound :: "io \<Rightarrow> FileTransferManager \<Rightarrow> string \<Rightarrow> bool \<times> FileTransferManager" where
  "revoke_outbound e m tid =
     (if hm_contains (outbound m) tid
      then (True, m\<lparr>outbound := hm_remove tid (outbound m), revoked := hm_insert tid (now e) (revoked m)\<rparr>)
      else (False, m))"

definition active_outbound_streams :: "io \<Rightarrow> FileTransferManager \<Rightarrow> string list" where
  "active_outbound_streams e m =
     map fst (filter (\<lambda>(_, x). o_state x = Transferring \<and> o_retry_after x \<le> now e) (outbound m))"

definition U32_MAX :: nat where "U32_MAX = 2 ^ 32 - 1"

definition note_send_stalled :: "io \<Rightarrow> FileTransferManager \<Rightarrow> string \<Rightarrow> string option \<times> FileTransferManager" where
  "note_send_stalled e m tid =
     (case hm_get (outbound m) tid of None \<Rightarrow> (None, m)
      | Some x \<Rightarrow>
          (let since = (case o_stalled_since x of Some t \<Rightarrow> t | None \<Rightarrow> now e);
               x = x\<lparr>o_stalled_since := Some since, o_stall_count := min (o_stall_count x + 1) U32_MAX\<rparr>
           in if now e - since \<ge> STALL_GIVE_UP_SECS
              then (Some ''no transport available to send on'',
                    put_outbound m tid (x\<lparr>o_state := Failed, o_finished_at := Some (now e)\<rparr>))
              else let steps = min (o_stall_count x) 16 - 1;
                       backoff = min (STALL_BACKOFF_BASE_SECS * 2 ^ steps) STALL_BACKOFF_MAX_SECS
                in (None, put_outbound m tid (x\<lparr>o_retry_after := now e + backoff\<rparr>))))"

definition note_send_progress :: "io \<Rightarrow> FileTransferManager \<Rightarrow> string \<Rightarrow> FileTransferManager" where
  "note_send_progress e m tid =
     (case hm_get (outbound m) tid of None \<Rightarrow> m
      | Some x \<Rightarrow> put_outbound m tid
          (x\<lparr>o_last_progress_at := now e, o_stall_count := 0, o_stalled_since := None, o_retry_after := 0\<rparr>))"

definition unsend_chunks :: "FileTransferManager \<Rightarrow> string \<Rightarrow> nat \<Rightarrow> FileTransferManager" where
  "unsend_chunks m tid n =
     (case hm_get (outbound m) tid of None \<Rightarrow> m
      | Some x \<Rightarrow>
          (let x = x\<lparr>o_chunks_sent := o_chunks_sent x - n\<rparr>;
               x = (if o_state x = Complete then x\<lparr>o_state := Transferring, o_finished_at := None\<rparr> else x)
           in put_outbound m tid x))"

definition mark_outbound_complete :: "io \<Rightarrow> FileTransferManager \<Rightarrow> string \<Rightarrow> FileTransferManager" where
  "mark_outbound_complete e m tid =
     (case hm_get (outbound m) tid of None \<Rightarrow> m
      | Some x \<Rightarrow> put_outbound m tid (x\<lparr>o_state := Complete, o_finished_at := Some (now e)\<rparr>))"

definition on_transfer_accepted_from :: "xfer_prims \<Rightarrow> io \<Rightarrow> FileTransferManager \<Rightarrow> string \<Rightarrow> nat option \<Rightarrow>
    TransferEvent list \<times> FileTransferManager" where
  "on_transfer_accepted_from prm e m tid resume_from =
     (if offer_was_withdrawn e m tid then ([], m)
      else case hm_get (outbound m) tid of None \<Rightarrow> ([], m)
      | Some x \<Rightarrow>
          if resume_from = None \<and> o_state x \<noteq> Pending then ([], m)
          else let x = (case resume_from of Some from \<Rightarrow> x\<lparr>o_chunks_sent := min from (o_total_chunks x)\<rparr> | None \<Rightarrow> x);
                   x = live_again e x;
                   (chunk_evs, x) =
                     (if source_is_streaming (o_source x)
                      then (case next_chunk_events prm e (disk m) x ROOM_FILE_CHUNK_BUDGET of ((evs, _), x) \<Rightarrow> (evs, x))
                      else build_chunk_events prm e (disk m) x)
               in (EvStateChanged tid ''transferring'' # chunk_evs, put_outbound m tid x))"

definition on_transfer_accepted :: "xfer_prims \<Rightarrow> io \<Rightarrow> FileTransferManager \<Rightarrow> string \<Rightarrow> TransferEvent list \<times> FileTransferManager" where
  "on_transfer_accepted prm e m tid = on_transfer_accepted_from prm e m tid None"

definition on_transfer_rejected :: "FileTransferManager \<Rightarrow> string \<Rightarrow> TransferEvent list \<times> FileTransferManager" where
  "on_transfer_rejected m tid =
     (case hm_get (outbound m) tid of None \<Rightarrow> ([], m)
      | Some x \<Rightarrow> ([EvFailed tid ''rejected by peer'', EvStateChanged tid ''rejected''],
                   put_outbound m tid (x\<lparr>o_state := Rejected\<rparr>)))"

definition on_transfer_ack :: "io \<Rightarrow> FileTransferManager \<Rightarrow> string \<Rightarrow> TransferEvent list \<times> FileTransferManager" where
  "on_transfer_ack e m tid =
     (case hm_get (outbound m) tid of None \<Rightarrow> ([], m)
      | Some x \<Rightarrow>
          (let payload = (case o_source x of FilePath path len \<Rightarrow> SavedAt path len | Inline d \<Rightarrow> SavedAt [] (length d))
           in ([EvComplete tid (o_peer_id x) [] [] (o_purpose x) payload (o_rel_path x), EvStateChanged tid ''complete''],
               put_outbound m tid (x\<lparr>o_state := Complete, o_finished_at := Some (now e)\<rparr>))))"

definition on_transfer_error :: "FileTransferManager \<Rightarrow> string \<Rightarrow> string \<Rightarrow> TransferEvent list \<times> FileTransferManager" where
  "on_transfer_error m tid reason =
     (case hm_get (outbound m) tid of None \<Rightarrow> ([], m)
      | Some x \<Rightarrow> ([EvFailed tid reason, EvStateChanged tid ''failed''], put_outbound m tid (x\<lparr>o_state := Failed\<rparr>)))"

subsection \<open>Receiving an offer\<close>

definition reject_message :: "string \<Rightarrow> string \<Rightarrow> string \<Rightarrow> TransferEvent" where
  "reject_message peer_id tid reason =
     EvSendMessage peer_id FileTransferReject [(''transfer_id'', JStr tid), (''reason'', JStr reason)]"

definition open_part_file :: "io \<Rightarrow> string \<Rightarrow> string \<Rightarrow> disk \<Rightarrow> (string \<times> disk) option" where
  "open_part_file e rel_path tid d =
     (if open_ok e then let path = part_file_path (download_dir e) rel_path tid in Some (path, hm_insert path [] d) else None)"

definition on_offer_received_with_room :: "io \<Rightarrow> FileTransferManager \<Rightarrow> string \<Rightarrow> string \<Rightarrow> string \<Rightarrow> string \<Rightarrow> string \<Rightarrow> string \<Rightarrow>
    nat \<Rightarrow> nat \<Rightarrow> string \<Rightarrow> bool \<Rightarrow> bool \<Rightarrow> string \<Rightarrow> TransferEvent list \<times> FileTransferManager" where
  "on_offer_received_with_room e m peer_id room_id supernode_id tid rel_path sha256 file_size total_chunks purpose
     compressed is_delta base_sha256 =
     (if file_size > MAX_TRANSFER_SIZE then ([reject_message peer_id tid ''file_too_large''], m)
      else let max_chunks = max (div_ceil file_size CHUNK_SIZE) 1 + 1 in
        if total_chunks = 0 \<or> total_chunks > max_chunks then ([reject_message peer_id tid ''invalid_chunk_count''], m)
        else let
          sink = (if file_size > INLINE_MAX \<and> \<not> compressed \<and> \<not> is_delta
                  then (case open_part_file e rel_path tid (disk m) of
                          Some (path, d) \<Rightarrow> Inr (PartFile True path (replicate total_chunks False) 0, d)
                        | None \<Rightarrow> Inl ''storage_unavailable'')
                  else if file_size > INLINE_MAX then Inl ''file_too_large''
                  else Inr (Memory [], disk m))
        in case sink of
          Inl reason \<Rightarrow> ([reject_message peer_id tid reason], m)
        | Inr (sink, d) \<Rightarrow>
            (let x = inbound_new e tid peer_id room_id supernode_id rel_path sha256 file_size total_chunks purpose compressed
                       is_delta base_sha256 sink
             in (EvOffered tid peer_id rel_path file_size purpose #
                   (if purpose = ''update'' then [EvSendMessage peer_id FileTransferAccept [(''transfer_id'', JStr tid)]] else []),
                 put_inbound (m\<lparr>disk := d\<rparr>) tid x)))"

definition on_offer_received :: "io \<Rightarrow> FileTransferManager \<Rightarrow> string \<Rightarrow> string \<Rightarrow> string \<Rightarrow> string \<Rightarrow> nat \<Rightarrow> nat \<Rightarrow> string \<Rightarrow> bool \<Rightarrow> bool \<Rightarrow>
    string \<Rightarrow> TransferEvent list \<times> FileTransferManager" where
  "on_offer_received e m peer_id tid rel_path sha256 file_size total_chunks purpose compressed is_delta base_sha256 =
     on_offer_received_with_room e m peer_id [] [] tid rel_path sha256 file_size total_chunks purpose compressed is_delta base_sha256"

definition has_inbound :: "FileTransferManager \<Rightarrow> string \<Rightarrow> bool" where
  "has_inbound m tid = hm_contains (inbound m) tid"

definition accept_transfer :: "io \<Rightarrow> FileTransferManager \<Rightarrow> string \<Rightarrow> TransferEvent list \<times> FileTransferManager" where
  "accept_transfer e m tid =
     (case hm_get (inbound m) tid of None \<Rightarrow> ([], m)
      | Some x \<Rightarrow>
          if i_state x \<noteq> Pending then ([], m)
          else ([EvStateChanged tid ''transferring'',
                 EvSendMessage (i_peer_id x) FileTransferAccept [(''transfer_id'', JStr tid)]],
                put_inbound m tid (x\<lparr>i_state := Transferring, i_last_progress_at := now e, i_pull_requested_at := Some (now e)\<rparr>)))"

definition accept_transfer_locally :: "io \<Rightarrow> FileTransferManager \<Rightarrow> string \<Rightarrow> TransferEvent list \<times> FileTransferManager" where
  "accept_transfer_locally e m tid =
     (case hm_get (inbound m) tid of None \<Rightarrow> ([], m)
      | Some x \<Rightarrow>
          if i_state x \<noteq> Pending then ([], m)
          else ([EvStateChanged tid ''transferring''],
                put_inbound m tid (x\<lparr>i_state := Transferring, i_pull_requested_at := Some (now e), i_last_progress_at := now e\<rparr>)))"

definition reject_transfer :: "FileTransferManager \<Rightarrow> string \<Rightarrow> string \<Rightarrow> TransferEvent list \<times> FileTransferManager" where
  "reject_transfer m tid reason =
     (case hm_get (inbound m) tid of None \<Rightarrow> ([], m)
      | Some x \<Rightarrow> ([EvStateChanged tid ''rejected'', reject_message (i_peer_id x) tid reason],
                   put_inbound m tid (x\<lparr>i_state := Rejected\<rparr>)))"

definition cancel_outbound :: "FileTransferManager \<Rightarrow> string \<Rightarrow> TransferEvent list \<times> FileTransferManager" where
  "cancel_outbound m tid =
     (case hm_get (outbound m) tid of None \<Rightarrow> ([], m)
      | Some x \<Rightarrow>
          if o_state x = Pending \<or> o_state x = Transferring
          then ([EvFailed tid ''cancelled'', EvStateChanged tid ''cancelled''], put_outbound m tid (x\<lparr>o_state := Cancelled\<rparr>))
          else ([], m))"

definition error_message :: "string \<Rightarrow> string \<Rightarrow> string \<Rightarrow> TransferEvent" where
  "error_message peer_id tid reason =
     EvSendMessage peer_id FileTransferError [(''transfer_id'', JStr tid), (''reason'', JStr reason)]"

definition cancel_transfer :: "FileTransferManager \<Rightarrow> string \<Rightarrow> TransferEvent list \<times> FileTransferManager" where
  "cancel_transfer m tid =
     (case hm_get (inbound m) tid of None \<Rightarrow> cancel_outbound m tid
      | Some x \<Rightarrow>
          (case i_state x of
             Pending \<Rightarrow> reject_transfer m tid ''cancelled''
           | Transferring \<Rightarrow> ([EvFailed tid ''cancelled'', EvStateChanged tid ''cancelled'', error_message (i_peer_id x) tid ''cancelled''],
                              put_inbound m tid (x\<lparr>i_state := Cancelled\<rparr>))
           | Verifying \<Rightarrow> ([EvFailed tid ''cancelled'', EvStateChanged tid ''cancelled'', error_message (i_peer_id x) tid ''cancelled''],
                           put_inbound m tid (x\<lparr>i_state := Cancelled\<rparr>))
           | _ \<Rightarrow> cancel_outbound m tid))"

definition discard_inbound :: "io \<Rightarrow> FileTransferManager \<Rightarrow> string \<Rightarrow> FileTransferManager" where
  "discard_inbound e m tid =
     (case hm_get (inbound m) tid of None \<Rightarrow> m
      | Some x \<Rightarrow>
          (let m = m\<lparr>inbound := hm_remove tid (inbound m)\<rparr>
           in case i_sink x of PartFile _ path _ _ \<Rightarrow> m\<lparr>disk := remove_file e path (disk m)\<rparr> | Memory _ \<Rightarrow> m))"

subsection \<open>Receiving chunks\<close>

definition fail_inbound :: "io \<Rightarrow> FileTransferManager \<Rightarrow> string \<Rightarrow> string \<Rightarrow> TransferEvent list \<times> FileTransferManager" where
  "fail_inbound e m tid reason =
     (case hm_get (inbound m) tid of None \<Rightarrow> ([], m)
      | Some x \<Rightarrow>
          (let x = x\<lparr>i_state := Failed, i_resumable := False, i_finished_at := Some (now e)\<rparr>;
               (x, d) = (case i_sink x of
                   PartFile _ path received count \<Rightarrow> (x\<lparr>i_sink := PartFile False path received count\<rparr>, remove_file e path (disk m))
                 | Memory _ \<Rightarrow> (x, disk m))
           in ([EvFailed tid reason, EvStateChanged tid ''failed'', error_message (i_peer_id x) tid reason],
               put_inbound (m\<lparr>disk := d\<rparr>) tid x)))"

text \<open>
  \<open>&s[..16]\<close> panics when the string is shorter or byte 16 is inside a character;
  \<open>&s[..16.min(s.len())]\<close> only in the latter case.
\<close>

definition slice16 :: "string \<Rightarrow> string option" where
  "slice16 s = (if length s < 16 \<or> (16 < length s \<and> utf8_cont (byte_of_char (s ! 16))) then None else Some (take 16 s))"

definition slice16_min :: "string \<Rightarrow> string option" where
  "slice16_min s = (if length s < 16 then Some s else slice16 s)"

definition ELLIPSIS :: string where "ELLIPSIS = string_of_bytes [0xE2, 0x80, 0xA6]"

definition mismatch_reason :: "string \<Rightarrow> string \<Rightarrow> string" where
  "mismatch_reason a b = ''hash mismatch: '' @ a @ ELLIPSIS @ '' vs '' @ b @ ELLIPSIS"

definition ack_events :: "InboundTransfer \<Rightarrow> string \<Rightarrow> TransferPayload \<Rightarrow> TransferEvent list" where
  "ack_events x tid payload =
     [EvSendMessage (i_peer_id x) FileTransferAck [(''transfer_id'', JStr tid)],
      EvComplete tid (i_peer_id x) (i_room_id x) (i_supernode_id x) (i_purpose x) payload (i_rel_path x),
      EvStateChanged tid ''complete'']"

definition finish_streaming :: "io \<Rightarrow> FileTransferManager \<Rightarrow> string \<Rightarrow> TransferEvent list \<times> FileTransferManager" where
  "finish_streaming e m tid =
     (case hm_get (inbound m) tid of None \<Rightarrow> ([], m)
      | Some x \<Rightarrow>
          (case i_sink x of Memory _ \<Rightarrow> ([], m)
           | PartFile file path received count \<Rightarrow>
               if \<not> file then ([], m)
               else let x = x\<lparr>i_sink := PartFile False path received count\<rparr>; m = put_inbound m tid x in
                 if \<not> set_len_ok e then fail_inbound e m tid (''finalize failed: '' @ os_error e)
                 else let m = m\<lparr>disk := hm_modify path (set_len (i_expected_size x)) (disk m)\<rparr> in
                   case (if stat_ok e then hm_get (disk m) path else None) of
                     None \<Rightarrow> fail_inbound e m tid (''cannot stat received file: '' @ os_error e)
                   | Some f \<Rightarrow>
                       if length f \<noteq> i_expected_size x
                       then fail_inbound e m tid (''size mismatch: '' @ show_dec (length f) @ '' vs '' @ show_dec (i_expected_size x))
                       else ([EvStateChanged tid (state_as_str Verifying), EvHashFile tid path],
                             put_inbound m tid (x\<lparr>i_state := Verifying, i_last_progress_at := now e\<rparr>))))"

text \<open>Decompression and delta of an inline payload: the error text or the file.\<close>

definition decode_inline :: "xfer_prims \<Rightarrow> FileTransferManager \<Rightarrow> InboundTransfer \<Rightarrow> string + bytes" where
  "decode_inline prm m x =
     (case (if i_compressed x then zlib_decompress prm (reassemble x) INLINE_MAX else Inr (reassemble x)) of
        Inl err \<Rightarrow> Inl (''decompression failed: '' @ err)
      | Inr assembled \<Rightarrow>
          if i_is_delta x
          then case hm_get (old_data_store m) (i_rel_path x) of
              None \<Rightarrow> Inl (''delta requires old file data for '' @ i_rel_path x)
            | Some old \<Rightarrow> (case apply_delta prm old assembled of Inl err \<Rightarrow> Inl (''delta apply failed: '' @ err) | Inr d \<Rightarrow> Inr d)
          else Inr assembled)"

definition finish_inbound :: "xfer_prims \<Rightarrow> io \<Rightarrow> FileTransferManager \<Rightarrow> string \<Rightarrow> (TransferEvent list \<times> FileTransferManager) option" where
  "finish_inbound prm e m tid =
     (case hm_get (inbound m) tid of None \<Rightarrow> Some ([], m)
      | Some x \<Rightarrow>
          if i_state x \<noteq> Transferring \<or> chunks_received x \<noteq> i_total_chunks x then Some ([], m)
          else if inbound_is_streaming x then Some (finish_streaming e m tid)
          else let x = x\<lparr>i_state := Verifying\<rparr>; m = put_inbound m tid x in
            case decode_inline prm m x of
              Inl reason \<Rightarrow> Some (fail_inbound e m tid reason)
            | Inr assembled \<Rightarrow>
                if length assembled \<noteq> i_expected_size x
                then Some (fail_inbound e m tid (''size mismatch: '' @ show_dec (length assembled) @ '' vs '' @ show_dec (i_expected_size x)))
                else let actual_hash = xfer_sha256_hex prm assembled in
                  if actual_hash \<noteq> i_expected_sha256 x
                  then case (slice16 actual_hash, slice16 (i_expected_sha256 x)) of
                      (Some a, Some b) \<Rightarrow> Some (fail_inbound e m tid (mismatch_reason a b))
                    | _ \<Rightarrow> None
                  else Some (ack_events x tid (Bytes assembled),
                             put_inbound m tid (x\<lparr>i_state := Complete, i_finished_at := Some (now e)\<rparr>)))"

definition heal :: "InboundTransfer \<Rightarrow> InboundTransfer" where
  "heal x = x\<lparr>i_state := Transferring, i_resumable := False, i_finished_at := None\<rparr>"

definition receiving :: "InboundTransfer \<Rightarrow> bool" where
  "receiving x \<longleftrightarrow> i_state x = Transferring \<or> (i_state x = Failed \<and> i_resumable x)"

definition on_chunk_bytes_received :: "xfer_prims \<Rightarrow> io \<Rightarrow> FileTransferManager \<Rightarrow> string \<Rightarrow> nat \<Rightarrow> bytes \<Rightarrow>
    (TransferEvent list \<times> FileTransferManager) option" where
  "on_chunk_bytes_received prm e m tid chunk_index chunk =
     (case hm_get (inbound m) tid of None \<Rightarrow> Some ([], m)
      | Some x \<Rightarrow>
          if \<not> receiving x then Some ([], m)
          else if chunk_index \<ge> i_total_chunks x
          then Some (fail_inbound e m tid (''chunk_index '' @ show_dec chunk_index @ '' out of range''))
          else let was_holding = (i_state x = Failed) in
            case store_chunk e (disk m) x chunk_index chunk of
              (StoreFailed, x, d) \<Rightarrow> Some ([], put_inbound (m\<lparr>disk := d\<rparr>) tid x)
            | (Duplicate, x, d) \<Rightarrow>
                (let x = x\<lparr>i_pull_requested_at := Some (now e)\<rparr> in
                 if \<not> was_holding then Some ([], put_inbound m tid x)
                 else let x = (heal x)\<lparr>i_resume_attempts := 0\<rparr>
                   in Some ([EvProgress tid (inbound_progress_of x), EvStateChanged tid ''transferring''], put_inbound m tid x))
            | (New, x, d) \<Rightarrow>
                (let x = x\<lparr>i_last_progress_at := now e, i_resume_attempts := 0\<rparr>;
                     x = (if was_holding then heal x else x);
                     m = put_inbound (m\<lparr>disk := d\<rparr>) tid x
                 in if i_complete_requested x \<and> chunks_received x = i_total_chunks x then finish_inbound prm e m tid
                    else if was_holding \<or> progress_is_reportable (chunks_received x) (i_total_chunks x)
                    then Some ([EvProgress tid (inbound_progress_of x)], m)
                    else Some ([], m)))"

definition on_chunk_received :: "xfer_prims \<Rightarrow> io \<Rightarrow> FileTransferManager \<Rightarrow> string \<Rightarrow> nat \<Rightarrow> string \<Rightarrow>
    (TransferEvent list \<times> FileTransferManager) option" where
  "on_chunk_received prm e m tid chunk_index data_b64 =
     (case b64_decode prm data_b64 of
        None \<Rightarrow> Some (fail_inbound e m tid ''invalid base64 chunk'')
      | Some chunk \<Rightarrow> on_chunk_bytes_received prm e m tid chunk_index chunk)"

definition on_complete_received :: "xfer_prims \<Rightarrow> io \<Rightarrow> FileTransferManager \<Rightarrow> string \<Rightarrow>
    (TransferEvent list \<times> FileTransferManager) option" where
  "on_complete_received prm e m tid =
     (case hm_get (inbound m) tid of None \<Rightarrow> Some ([], m)
      | Some x \<Rightarrow>
          if \<not> receiving x then Some ([], m)
          else let x = (if i_state x = Failed then (heal x)\<lparr>i_resume_attempts := 0\<rparr> else x) in
            if chunks_received x \<noteq> i_total_chunks x then Some ([], put_inbound m tid (x\<lparr>i_complete_requested := True\<rparr>))
            else finish_inbound prm e (put_inbound m tid x) tid)"

definition parent_dir :: "string \<Rightarrow> string" where
  "parent_dir p = take (length p - length (last_part (\<lambda>c. c = CHR ''/'') p) - 1) p"

definition promote_part_file :: "io \<Rightarrow> string \<Rightarrow> string \<Rightarrow> disk \<Rightarrow> (string \<times> disk) option" where
  "promote_part_file e part rel_path d =
     (let dest = unique_dest_path (hm_contains d) (parent_dir part) (safe_file_name rel_path) in
      case hm_get d part of None \<Rightarrow> None
      | Some f \<Rightarrow> if rename_ok e then Some (dest, hm_insert dest f (hm_remove part d)) else None)"

definition on_file_hashed :: "io \<Rightarrow> FileTransferManager \<Rightarrow> string \<Rightarrow> string + string \<Rightarrow> (TransferEvent list \<times> FileTransferManager) option" where
  "on_file_hashed e m tid actual =
     (case hm_get (inbound m) tid of None \<Rightarrow> Some ([], m)
      | Some x \<Rightarrow>
          (case i_sink x of Memory _ \<Rightarrow> Some ([], m)
           | PartFile _ path _ _ \<Rightarrow>
               if i_state x \<noteq> Verifying then Some ([], m)
               else case actual of
                 Inl err \<Rightarrow> Some (fail_inbound e m tid err)
               | Inr h \<Rightarrow>
                   if h \<noteq> i_expected_sha256 x
                   then case (slice16_min h, slice16_min (i_expected_sha256 x)) of
                       (Some a, Some b) \<Rightarrow> Some (fail_inbound e m tid (mismatch_reason a b))
                     | _ \<Rightarrow> None
                   else case promote_part_file e path (i_rel_path x) (disk m) of
                     None \<Rightarrow> Some (fail_inbound e m tid (''could not save received file: '' @ os_error e))
                   | Some (final_path, d) \<Rightarrow>
                       Some (ack_events x tid (SavedAt final_path (i_expected_size x)),
                             put_inbound (m\<lparr>disk := d\<rparr>) tid (x\<lparr>i_state := Complete, i_finished_at := Some (now e)\<rparr>))))"

subsection \<open>Stalls, retry and collection\<close>

definition pull_resume :: "InboundTransfer \<Rightarrow> string \<Rightarrow> nat \<Rightarrow> PullResume" where
  "pull_resume x tid attempt =
     \<lparr>pr_transfer_id = tid, pr_peer_id = i_peer_id x, pr_room_id = i_room_id x, pr_supernode_id = i_supernode_id x,
      pr_from_chunk = (case first_missing x of Some i \<Rightarrow> i | None \<Rightarrow> 0), pr_attempt = attempt\<rparr>"

text \<open>The body of the loop for one quiet transfer.\<close>

definition stall_one :: "real \<Rightarrow> string \<Rightarrow> InboundTransfer \<Rightarrow> InboundStall \<times> InboundTransfer" where
  "stall_one t tid x =
     (if i_resume_attempts x \<ge> MAX_AUTO_RESUME
      then (GiveUp tid INTERRUPTED_REASON, x\<lparr>i_state := Failed, i_resumable := True, i_finished_at := None\<rparr>)
      else let x = x\<lparr>i_resume_attempts := min (i_resume_attempts x + 1) U32_MAX\<rparr>
        in (Resume (pull_resume x tid (i_resume_attempts x)),
            x\<lparr>i_pull_requested_at := Some t, i_last_progress_at := t\<rparr>))"

definition take_stalled_inbound :: "io \<Rightarrow> FileTransferManager \<Rightarrow> InboundStall list \<times> FileTransferManager" where
  "take_stalled_inbound e m =
     (let due = map fst (filter (\<lambda>(_, x). is_stalled x (now e)) (inbound m))
      in foldl (\<lambda>(out, m) tid.
           case hm_get (inbound m) tid of None \<Rightarrow> (out, m)
           | Some x \<Rightarrow> (case stall_one (now e) tid x of (s, x) \<Rightarrow> (out @ [s], put_inbound m tid x))) ([], m) due)"

definition arm_retry :: "io \<Rightarrow> FileTransferManager \<Rightarrow> string \<Rightarrow> PullResume option \<times> FileTransferManager" where
  "arm_retry e m tid =
     (case hm_get (inbound m) tid of None \<Rightarrow> (None, m)
      | Some x \<Rightarrow>
          if i_state x \<noteq> Failed \<or> \<not> i_resumable x then (None, m)
          else let x = (heal x)\<lparr>i_resume_attempts := 0, i_pull_requested_at := Some (now e), i_last_progress_at := now e\<rparr>
            in (Some (pull_resume x tid 0), put_inbound m tid x))"

definition inbound_progress :: "FileTransferManager \<Rightarrow> string \<Rightarrow> real option" where
  "inbound_progress m tid = map_option inbound_progress_of (hm_get (inbound m) tid)"

definition stamp_outbound :: "real \<Rightarrow> OutboundTransfer \<Rightarrow> OutboundTransfer" where
  "stamp_outbound t x = (if o_finished_at x = None \<and> is_terminal (o_state x) then x\<lparr>o_finished_at := Some t\<rparr> else x)"

definition stamp_inbound :: "real \<Rightarrow> InboundTransfer \<Rightarrow> InboundTransfer" where
  "stamp_inbound t x =
     (if i_finished_at x = None \<and> is_terminal (i_state x) \<and> \<not> i_resumable x then x\<lparr>i_finished_at := Some t\<rparr> else x)"

definition keep_outbound :: "real \<Rightarrow> OutboundTransfer \<Rightarrow> bool" where
  "keep_outbound t x =
     (case (o_source x, o_finished_at x) of
        (_, None) \<Rightarrow> if o_state x = Transferring then t - o_last_progress_at x < TRANSFER_IDLE_SECS
                     else t - o_created_at x < OFFER_TTL_SECS
      | (Inline _, Some f) \<Rightarrow> t - f < TRANSFER_RETAIN_SECS
      | (FilePath _ _, Some _) \<Rightarrow> t - o_created_at x < OFFER_TTL_SECS)"

definition keep_inbound :: "real \<Rightarrow> InboundTransfer \<Rightarrow> bool" where
  "keep_inbound t x =
     (case i_finished_at x of
        Some f \<Rightarrow> t - f < TRANSFER_RETAIN_SECS
      | None \<Rightarrow> if i_state x = Transferring \<or> i_state x = Verifying \<or> i_resumable x
                then t - i_last_progress_at x < TRANSFER_IDLE_SECS
                else t - i_created_at x < OFFER_TTL_SECS)"

definition gc :: "io \<Rightarrow> FileTransferManager \<Rightarrow> nat \<times> FileTransferManager" where
  "gc e m =
     (let t = now e;
          before = length (outbound m) + length (inbound m);
          outs = map (\<lambda>(k, x). (k, stamp_outbound t x)) (outbound m);
          ins = map (\<lambda>(k, x). (k, stamp_inbound t x)) (inbound m);
          expired = map fst (filter (\<lambda>(_, x). \<not> keep_outbound t x) outs);
          outs = hm_retain (\<lambda>_. keep_outbound t) outs;
          rev' = hm_retain (\<lambda>_ t0. t - t0 < OFFER_TTL_SECS) (foldl (\<lambda>r k. hm_insert k t r) (revoked m) expired);
          orphaned = concat (map (\<lambda>(_, x). case i_sink x of
              PartFile _ path _ _ \<Rightarrow> if hm_contains (disk m) path then [path] else [] | Memory _ \<Rightarrow> [])
            (filter (\<lambda>(_, x). \<not> keep_inbound t x) ins));
          ins = hm_retain (\<lambda>_. keep_inbound t) ins;
          d = foldl (\<lambda>d path. remove_file e path d) (disk m) orphaned
      in (before - (length outs + length ins),
          m\<lparr>outbound := outs, inbound := ins, revoked := rev', disk := d\<rparr>))"

end
