(* ===== verification/File_Wire.thy ===== *)
theory File_Wire
  imports File_Manager
begin

section \<open>File messages on the wire (\<open>inbound.rs\<close>)\<close>

text \<open>
  How the connection manager turns a signed file message into a call of the manager: the arms
  \<open>FileTransferOffer\<close> to \<open>FileTransferError\<close> of its dispatch. The quota gate of the file feature
  is the parameter \<open>gate\<close> (sender and probe length); sending the events on is not modelled, they
  are the result. A JSON object is a list of entries, \<open>None\<close> is a panic.
\<close>

definition get_str :: "(string \<times> json_value) list \<Rightarrow> string \<Rightarrow> string option" where
  "get_str p k = (case map_of p k of Some (JStr s) \<Rightarrow> Some s | _ \<Rightarrow> None)"

definition get_u64 :: "(string \<times> json_value) list \<Rightarrow> string \<Rightarrow> nat option" where
  "get_u64 p k = (case map_of p k of Some (JNum n) \<Rightarrow> Some n | _ \<Rightarrow> None)"

definition get_bool :: "(string \<times> json_value) list \<Rightarrow> string \<Rightarrow> bool option" where
  "get_bool p k = (case map_of p k of Some (JBool b) \<Rightarrow> Some b | _ \<Rightarrow> None)"

definition unwrap_or :: "'a option \<Rightarrow> 'a \<Rightarrow> 'a" where
  "unwrap_or x d = (case x of Some a \<Rightarrow> a | None \<Rightarrow> d)"

type_synonym call_result = "(TransferEvent list \<times> FileTransferManager) option"

definition handle_offer :: "(string \<Rightarrow> nat \<Rightarrow> bool) \<Rightarrow> io \<Rightarrow> FileTransferManager \<Rightarrow> string \<Rightarrow> (string \<times> json_value) list \<Rightarrow> call_result" where
  "handle_offer gate e m sender p =
     (if \<not> gate sender 0 then Some ([], m)
      else case (get_str p ''transfer_id'', get_str p ''sha256'', get_u64 p ''size'') of
        (Some tid, Some sha, Some file_size) \<Rightarrow>
          if tid = [] \<or> sha = [] then Some ([], m)
          else Some (on_offer_received e m sender tid (unwrap_or (get_str p ''rel_path'') []) sha file_size
            (unwrap_or (get_u64 p ''total_chunks'') 1) (unwrap_or (get_str p ''purpose'') ''file'')
            (unwrap_or (get_bool p ''compressed'') False) (unwrap_or (get_bool p ''is_delta'') False)
            (unwrap_or (get_str p ''base_sha256'') []))
      | _ \<Rightarrow> Some ([], m))"

definition handle_accept :: "xfer_prims \<Rightarrow> io \<Rightarrow> FileTransferManager \<Rightarrow> string \<Rightarrow> (string \<times> json_value) list \<Rightarrow> call_result" where
  "handle_accept prm e m sender p =
     (let tid = unwrap_or (get_str p ''transfer_id'') [] in
      if \<not> has_outbound m tid \<or> offer_was_withdrawn e m tid
      then if \<not> offer_was_withdrawn e m tid then Some ([], m)
           else Some ([error_message sender tid ''no longer shared''], m)
      else Some (on_transfer_accepted_from prm e m tid (get_u64 p ''resume_from'')))"

definition handle_chunk :: "xfer_prims \<Rightarrow> (string \<Rightarrow> nat \<Rightarrow> bool) \<Rightarrow> io \<Rightarrow> FileTransferManager \<Rightarrow> string \<Rightarrow>
    (string \<times> json_value) list \<Rightarrow> call_result" where
  "handle_chunk prm gate e m sender p =
     (let tid = unwrap_or (get_str p ''transfer_id'') []; idx = unwrap_or (get_u64 p ''chunk_index'') 0;
          data = unwrap_or (get_str p ''data'') []
      in if \<not> has_inbound m tid \<and> \<not> gate sender (length data) then Some ([], m)
         else on_chunk_received prm e m tid idx data)"

fun handle_file_message :: "xfer_prims \<Rightarrow> (string \<Rightarrow> nat \<Rightarrow> bool) \<Rightarrow> io \<Rightarrow> FileTransferManager \<Rightarrow> string \<Rightarrow> MessageType \<Rightarrow>
    (string \<times> json_value) list \<Rightarrow> call_result" where
  "handle_file_message prm gate e m sender FileTransferOffer p = handle_offer gate e m sender p"
| "handle_file_message prm gate e m sender FileTransferAccept p = handle_accept prm e m sender p"
| "handle_file_message prm gate e m sender FileTransferReject p =
     Some (on_transfer_rejected m (unwrap_or (get_str p ''transfer_id'') []))"
| "handle_file_message prm gate e m sender FileTransferChunk p = handle_chunk prm gate e m sender p"
| "handle_file_message prm gate e m sender FileTransferComplete p =
     on_complete_received prm e m (unwrap_or (get_str p ''transfer_id'') [])"
| "handle_file_message prm gate e m sender FileTransferAck p =
     Some (on_transfer_ack e m (unwrap_or (get_str p ''transfer_id'') []))"
| "handle_file_message prm gate e m sender FileTransferError p =
     Some (on_transfer_error m (unwrap_or (get_str p ''transfer_id'') []) (unwrap_or (get_str p ''reason'') ''unknown''))"

text \<open>Messages delivered one after the other; a panic ends the process.\<close>

fun deliver_all :: "xfer_prims \<Rightarrow> (string \<Rightarrow> nat \<Rightarrow> bool) \<Rightarrow> FileTransferManager \<Rightarrow> string \<Rightarrow>
    (io \<times> MessageType \<times> (string \<times> json_value) list) list \<Rightarrow> call_result" where
  "deliver_all prm gate m sender [] = Some ([], m)"
| "deliver_all prm gate m sender ((e, t, p) # ms) =
     (case handle_file_message prm gate e m sender t p of None \<Rightarrow> None
      | Some (evs, m) \<Rightarrow>
          (case deliver_all prm gate m sender ms of None \<Rightarrow> None | Some (evs', m') \<Rightarrow> Some (evs @ evs', m')))"

fun sent_messages :: "TransferEvent list \<Rightarrow> (MessageType \<times> (string \<times> json_value) list) list" where
  "sent_messages [] = []"
| "sent_messages (EvSendMessage _ t p # evs) = (t, p) # sent_messages evs"
| "sent_messages (_ # evs) = sent_messages evs"

subsection \<open>What a sender emits\<close>

definition payload_chunk :: "bytes \<Rightarrow> nat \<Rightarrow> bytes" where
  "payload_chunk payload i = take CHUNK_SIZE (drop (i * CHUNK_SIZE) payload)"

lemma concat_chunks: "concat (map (payload_chunk p) [0 ..< n]) = take (n * CHUNK_SIZE) p"
  by (induction n) (simp_all add: payload_chunk_def add.commute flip: take_add)

lemma chunks_cover: "length p \<le> max (div_ceil (length p) CHUNK_SIZE) 1 * CHUNK_SIZE"
proof -
  have "length p \<le> div_ceil (length p) CHUNK_SIZE * CHUNK_SIZE"
    unfolding div_ceil_def CHUNK_SIZE_def by simp
  also have "\<dots> \<le> max (div_ceil (length p) CHUNK_SIZE) 1 * CHUNK_SIZE" by (intro mult_right_mono) simp_all
  finally show ?thesis .
qed

lemma concat_all_chunks:
  "concat (map (payload_chunk p) [0 ..< max (div_ceil (length p) CHUNK_SIZE) 1]) = p"
  using chunks_cover [of p] by (simp add: concat_chunks)

lemma chunk_start: "i < max (div_ceil n CHUNK_SIZE) 1 \<Longrightarrow> i * CHUNK_SIZE < n \<or> n = 0 \<and> i = 0"
  unfolding div_ceil_def CHUNK_SIZE_def by (cases "n = 0") (auto simp: max_def less_Suc_eq_le split: if_splits)

lemma sent_messages_append [simp]: "sent_messages (evs @ evs') = sent_messages evs @ sent_messages evs'"
  by (induction evs rule: sent_messages.induct) simp_all

definition chunk_fields :: "xfer_prims \<Rightarrow> OutboundTransfer \<Rightarrow> bytes \<Rightarrow> nat \<Rightarrow> MessageType \<times> (string \<times> json_value) list" where
  "chunk_fields prm x p i = (FileTransferChunk,
     [(''transfer_id'', JStr (o_transfer_id x)), (''chunk_index'', JNum i), (''data'', JStr (b64_encode prm (payload_chunk p i)))] @ to_field x)"

definition complete_fields :: "OutboundTransfer \<Rightarrow> MessageType \<times> (string \<times> json_value) list" where
  "complete_fields x = (FileTransferComplete, [(''transfer_id'', JStr (o_transfer_id x))] @ to_field x)"

text \<open>One pump turn: the next chunks in order, then COMPLETE once the last one is out.\<close>

lemma chunk_loop_spec:
  assumes "\<And>i. i < o_total_chunks x \<Longrightarrow> read_chunk e d (o_source x) i = Some (payload_chunk p i)"
    and "o_chunks_sent x \<le> o_total_chunks x"
  shows "\<exists>evs'. chunk_loop prm e d b x evs = (False, evs @ evs', x\<lparr>o_chunks_sent := min (o_chunks_sent x + b) (o_total_chunks x)\<rparr>) \<and>
    sent_messages evs' = map (chunk_fields prm x p) [o_chunks_sent x ..< min (o_chunks_sent x + b) (o_total_chunks x)]"
  using assms
proof (induction b arbitrary: x evs)
  case 0
  then show ?case by (simp add: min_def)
next
  case (Suc b)
  show ?case
  proof (cases "o_chunks_sent x < o_total_chunks x")
    case True
    let ?k = "o_chunks_sent x" and ?x = "x\<lparr>o_chunks_sent := o_chunks_sent x + 1\<rparr>"
    let ?m = "min (Suc (?k + b)) (o_total_chunks x)"
    define step where "step = chunk_message prm x ?k (payload_chunk p ?k) # (if progress_is_reportable (?k + 1) (o_total_chunks x)
      then [EvProgress (o_transfer_id x) (real (?k + 1) / real (o_total_chunks x))] else [])"
    have loop: "chunk_loop prm e d (Suc b) x evs = chunk_loop prm e d b ?x (evs @ step)"
      using True Suc.prems(1) by (simp add: step_def Let_def)
    obtain evs' where IH: "chunk_loop prm e d b ?x (evs @ step) = (False, (evs @ step) @ evs', x\<lparr>o_chunks_sent := ?m\<rparr>)"
      "sent_messages evs' = map (chunk_fields prm ?x p) [Suc ?k ..< ?m]"
      using Suc.IH [of ?x "evs @ step"] Suc.prems True by auto
    have "chunk_fields prm ?x p = chunk_fields prm x p" by (simp add: chunk_fields_def to_field_def fun_eq_iff)
    moreover have "sent_messages step = [chunk_fields prm x p ?k]"
      by (simp add: step_def chunk_message_def chunk_fields_def)
    moreover have "[?k ..< ?m] = ?k # [Suc ?k ..< ?m]" using True by (simp add: upt_conv_Cons)
    ultimately show ?thesis using loop IH by (intro exI [of _ "step @ evs'"]) simp
  next
    case False
    then show ?thesis using Suc.prems by (auto simp: min_def)
  qed
qed

lemma next_chunk_events_spec:
  assumes "\<And>i. i < o_total_chunks x \<Longrightarrow> read_chunk e d (o_source x) i = Some (payload_chunk p i)"
    and "o_chunks_sent x \<le> o_total_chunks x"
  shows "\<exists>evs. let k = min (o_chunks_sent x + b) (o_total_chunks x); done = (k = o_total_chunks x) in
    next_chunk_events prm e d x b = ((evs, done), x\<lparr>o_chunks_sent := k\<rparr>) \<and>
    sent_messages evs = map (chunk_fields prm x p) [o_chunks_sent x ..< k] @ (if done then [complete_fields x] else [])"
proof -
  let ?k = "min (o_chunks_sent x + b) (o_total_chunks x)"
  obtain evs where evs: "chunk_loop prm e d b x [] = (False, evs, x\<lparr>o_chunks_sent := ?k\<rparr>)"
    "sent_messages evs = map (chunk_fields prm x p) [o_chunks_sent x ..< ?k]"
    using chunk_loop_spec [OF assms, of prm b "[]"] by auto
  then show ?thesis
    by (intro exI [of _ "if ?k = o_total_chunks x then evs @ [complete_message (x\<lparr>o_chunks_sent := ?k\<rparr>)] else evs"])
      (auto simp: next_chunk_events_def Let_def complete_message_def complete_fields_def to_field_def min_def)
qed

lemma read_inline: "i < max (div_ceil (length p) CHUNK_SIZE) 1 \<Longrightarrow> read_chunk e d (Inline p) i = Some (payload_chunk p i)"
  using chunk_start [of i "length p"] by (auto simp: read_chunk_def payload_chunk_def Let_def min_def)

lemma read_file:
  "hm_get d path = Some f \<Longrightarrow> read_ok e i \<Longrightarrow> i < max (div_ceil (length f) CHUNK_SIZE) 1 \<Longrightarrow>
   read_chunk e d (FilePath path (length f)) i = Some (payload_chunk f i)"
  using chunk_start [of i "length f"] by (auto simp: read_chunk_def payload_chunk_def Let_def min_def)

end
