(* ===== verification/File_Roundtrip.thy ===== *)
theory File_Roundtrip
  imports File_Wire
begin

section \<open>A small file arrives, whatever the network does to the order\<close>

text \<open>
  The receiving side of an inline transfer under any sequence of its chunk and COMPLETE messages,
  with reordering and repetition, and from it the round trip from the sender's call to the
  receiver's completion event.
\<close>

definition offer_of :: "InboundTransfer \<Rightarrow> (string \<times> string \<times> string \<times> string) \<times> (string \<times> nat \<times> nat) \<times> string \<times> bool \<times> bool" where
  "offer_of x = ((i_peer_id x, i_room_id x, i_supernode_id x, i_rel_path x),
     (i_expected_sha256 x, i_expected_size x, i_total_chunks x), i_purpose x, i_compressed x, i_is_delta x)"

text \<open>The chunks in \<open>S\<close> are stored, and \<open>c\<close> tells whether COMPLETE has been seen.\<close>

definition collecting :: "bytes \<Rightarrow> InboundTransfer \<Rightarrow> string \<Rightarrow> FileTransferManager \<Rightarrow> nat set \<Rightarrow> bool \<Rightarrow> bool" where
  "collecting p x0 tid m S c \<longleftrightarrow>
     (\<exists>x ch. hm_get (inbound m) tid = Some x \<and> i_state x = Transferring \<and> i_sink x = Memory ch \<and> hm_wf ch \<and>
        fst ` set ch = S \<and> (\<forall>i\<in>S. hm_get ch i = Some (payload_chunk p i)) \<and> i_complete_requested x = c \<and>
        offer_of x = offer_of x0 \<and> S \<subseteq> {..<i_total_chunks x0} \<and> \<not> (c \<and> S = {..<i_total_chunks x0}))"

definition finished :: "string \<Rightarrow> FileTransferManager \<Rightarrow> bool" where
  "finished tid m \<longleftrightarrow> (\<exists>x. hm_get (inbound m) tid = Some x \<and> i_state x = Complete)"

fun is_completion :: "TransferEvent \<Rightarrow> bool" where
  "is_completion (EvComplete _ _ _ _ _ _ _) = True"
| "is_completion _ = False"

text \<open>A delivery that belongs to the transfer: one of its chunks, or COMPLETE.\<close>

definition chunk_of :: "xfer_prims \<Rightarrow> bytes \<Rightarrow> string \<Rightarrow> nat \<Rightarrow> MessageType \<times> (string \<times> json_value) list \<Rightarrow> bool" where
  "chunk_of prm p tid i msg \<longleftrightarrow> fst msg = FileTransferChunk \<and> get_str (snd msg) ''transfer_id'' = Some tid \<and>
     get_u64 (snd msg) ''chunk_index'' = Some i \<and> get_str (snd msg) ''data'' = Some (b64_encode prm (payload_chunk p i))"

definition complete_of :: "string \<Rightarrow> MessageType \<times> (string \<times> json_value) list \<Rightarrow> bool" where
  "complete_of tid msg \<longleftrightarrow> fst msg = FileTransferComplete \<and> get_str (snd msg) ''transfer_id'' = Some tid"

lemma inbound_new_fields [simp]:
  "i_peer_id (inbound_new e tid peer room sn rel sha sz n purpose cmp dlt base sink) = peer"
  "i_room_id (inbound_new e tid peer room sn rel sha sz n purpose cmp dlt base sink) = room"
  "i_supernode_id (inbound_new e tid peer room sn rel sha sz n purpose cmp dlt base sink) = sn"
  "i_rel_path (inbound_new e tid peer room sn rel sha sz n purpose cmp dlt base sink) = rel"
  "i_expected_sha256 (inbound_new e tid peer room sn rel sha sz n purpose cmp dlt base sink) = sha"
  "i_expected_size (inbound_new e tid peer room sn rel sha sz n purpose cmp dlt base sink) = sz"
  "i_total_chunks (inbound_new e tid peer room sn rel sha sz n purpose cmp dlt base sink) = n"
  "i_purpose (inbound_new e tid peer room sn rel sha sz n purpose cmp dlt base sink) = purpose"
  "i_compressed (inbound_new e tid peer room sn rel sha sz n purpose cmp dlt base sink) = cmp"
  "i_is_delta (inbound_new e tid peer room sn rel sha sz n purpose cmp dlt base sink) = dlt"
  "i_sink (inbound_new e tid peer room sn rel sha sz n purpose cmp dlt base sink) = sink"
  "i_complete_requested (inbound_new e tid peer room sn rel sha sz n purpose cmp dlt base sink) = False"
  "i_resumable (inbound_new e tid peer room sn rel sha sz n purpose cmp dlt base sink) = False"
  "i_transfer_id (inbound_new e tid peer room sn rel sha sz n purpose cmp dlt base sink) = tid"
  "i_finished_at (inbound_new e tid peer room sn rel sha sz n purpose cmp dlt base sink) = None"
  "i_created_at (inbound_new e tid peer room sn rel sha sz n purpose cmp dlt base sink) = now e"
  "i_last_progress_at (inbound_new e tid peer room sn rel sha sz n purpose cmp dlt base sink) = now e"
  "i_resume_attempts (inbound_new e tid peer room sn rel sha sz n purpose cmp dlt base sink) = 0"
  "i_state (inbound_new e tid peer room sn rel sha sz n purpose cmp dlt base sink) = (if purpose = ''update'' then Transferring else Pending)"
  by (simp_all add: inbound_new_def Let_def)

lemma chunk_fields_of: "chunk_of prm p (o_transfer_id x) i (chunk_fields prm x p i)"
  by (simp add: chunk_of_def chunk_fields_def get_str_def get_u64_def)

lemma complete_fields_of: "complete_of (o_transfer_id x) (complete_fields x)"
  by (simp add: complete_of_def complete_fields_def get_str_def)

lemma inbound_put [simp]:
  "hm_get (inbound (put_inbound m tid x)) tid' = (if tid' = tid then Some x else hm_get (inbound m) tid')"
  "old_data_store (put_inbound m tid x) = old_data_store m" "disk (put_inbound m tid x) = disk m"
  "outbound (put_inbound m tid x) = outbound m"
  by (simp_all add: put_inbound_def hm_get_insert)

lemma handle_chunk_of:
  assumes "chunk_of prm p tid i msg" "hm_get (inbound m) tid = Some x" "b64_decode prm (b64_encode prm (payload_chunk p i)) = Some (payload_chunk p i)"
  shows "handle_file_message prm gate e m sender (fst msg) (snd msg) = on_chunk_bytes_received prm e m tid i (payload_chunk p i)"
  using assms by (simp add: chunk_of_def handle_chunk_def unwrap_or_def on_chunk_received_def has_inbound_def hm_contains_iff)

lemma handle_complete_of:
  "complete_of tid msg \<Longrightarrow> handle_file_message prm gate e m sender (fst msg) (snd msg) = on_complete_received prm e m tid"
  by (simp add: complete_of_def unwrap_or_def)

text \<open>Nothing more happens to a finished transfer.\<close>

lemma finished_stable:
  assumes "finished tid m" "b64_decode prm (b64_encode prm (payload_chunk p i)) = Some (payload_chunk p i)"
    and "chunk_of prm p tid i msg \<or> complete_of tid msg"
  shows "handle_file_message prm gate e m sender (fst msg) (snd msg) = Some ([], m)"
  using assms(3)
proof
  assume c: "chunk_of prm p tid i msg"
  show ?thesis using assms(1,2) handle_chunk_of [OF c]
    by (auto simp: finished_def on_chunk_bytes_received_def receiving_def)
next
  assume "complete_of tid msg"
  then show ?thesis using assms(1)
    by (auto simp: handle_complete_of finished_def on_complete_received_def receiving_def)
qed

lemma hm_card_full:
  assumes "hm_wf ch" "fst ` set ch \<subseteq> {..<n}"
  shows "length ch = n \<longleftrightarrow> fst ` set ch = {..<n}"
  unfolding length_hm_card [OF assms(1)] using card_subset_eq [OF finite_lessThan assms(2)] by (metis card_lessThan)

lemma reassemble_full:
  assumes "i_sink x = Memory ch" "\<forall>i\<in>{..<i_total_chunks x}. hm_get ch i = Some (payload_chunk p i)"
    and "i_total_chunks x = max (div_ceil (length p) CHUNK_SIZE) 1"
  shows "reassemble x = p"
proof -
  have "reassemble x = concat (map (payload_chunk p) [0 ..< i_total_chunks x])"
    using assms(1,2) by (auto simp: reassemble_def intro!: arg_cong [where f = concat])
  then show ?thesis using concat_all_chunks [of p] by (simp add: assms(3))
qed

lemma decode_inline_put: "decode_inline prm (put_inbound m tid y) x = decode_inline prm m x"
  by (simp only: decode_inline_def inbound_put)

lemma finish_collected:
  assumes x: "hm_get (inbound m) tid = Some x" "i_state x = Transferring" "i_sink x = Memory ch" "hm_wf ch"
    and full: "fst ` set ch = {..<i_total_chunks x}" "\<forall>i\<in>{..<i_total_chunks x}. hm_get ch i = Some (payload_chunk p i)"
    and total: "i_total_chunks x = max (div_ceil (length p) CHUNK_SIZE) 1"
    and dec: "\<And>y. reassemble y = p \<Longrightarrow> offer_of y = offer_of x \<Longrightarrow> decode_inline prm m y = Inr data"
    and data: "i_expected_size x = length data" "i_expected_sha256 x = xfer_sha256_hex prm data"
  shows "\<exists>m'. finish_inbound prm e m tid = Some (ack_events x tid (Bytes data), m') \<and> finished tid m'"
proof -
  let ?x = "x\<lparr>i_state := Verifying\<rparr>"
  have n: "chunks_received x = i_total_chunks x"
    using hm_card_full [OF x(4), of "i_total_chunks x"] full(1) x(3) by (simp add: chunks_received_def)
  have "reassemble ?x = p" by (rule reassemble_full [of _ ch]) (use x full total in auto)
  then have "decode_inline prm m ?x = Inr data" by (rule dec) (simp add: offer_of_def)
  then have "decode_inline prm (put_inbound m tid ?x) ?x = Inr data" by (simp only: decode_inline_put)
  then show ?thesis
    using x n data by (simp add: finish_inbound_def inbound_is_streaming_def Let_def ack_events_def finished_def)
qed

subsection \<open>One delivery\<close>

lemma collectingE:
  assumes "collecting p x0 tid m S c"
  obtains x ch where "hm_get (inbound m) tid = Some x" "i_state x = Transferring" "i_sink x = Memory ch" "hm_wf ch"
    "fst ` set ch = S" "\<forall>i\<in>S. hm_get ch i = Some (payload_chunk p i)" "i_complete_requested x = c"
    "offer_of x = offer_of x0" "S \<subseteq> {..<i_total_chunks x0}" "\<not> (c \<and> S = {..<i_total_chunks x0})"
  using assms unfolding collecting_def by (elim exE conjE) (rule that)

lemma offer_of_eqD:
  "offer_of x = offer_of y \<Longrightarrow> i_peer_id x = i_peer_id y \<and> i_room_id x = i_room_id y \<and> i_supernode_id x = i_supernode_id y \<and>
     i_rel_path x = i_rel_path y \<and> i_expected_sha256 x = i_expected_sha256 y \<and> i_expected_size x = i_expected_size y \<and>
     i_total_chunks x = i_total_chunks y \<and> i_purpose x = i_purpose y \<and> i_compressed x = i_compressed y \<and> i_is_delta x = i_is_delta y"
  by (simp add: offer_of_def)

lemma ack_events_cong: "offer_of x = offer_of y \<Longrightarrow> ack_events x tid pl = ack_events y tid pl"
  by (drule offer_of_eqD) (simp add: ack_events_def)

text \<open>A chunk the receiver has not got yet, and one it has.\<close>

lemma on_chunk_new:
  fixes c :: bytes and e :: io
  assumes x: "hm_get (inbound m) tid = Some x" "i_state x = Transferring" "i_sink x = Memory ch"
    and i: "i < i_total_chunks x" "\<not> hm_contains ch i"
  defines "x' \<equiv> x\<lparr>i_sink := Memory (hm_insert i c ch), i_last_progress_at := now e, i_resume_attempts := 0\<rparr>"
  shows "on_chunk_bytes_received prm e m tid i c =
    (if i_complete_requested x \<and> Suc (length ch) = i_total_chunks x then finish_inbound prm e (put_inbound m tid x') tid
     else Some (if progress_is_reportable (Suc (length ch)) (i_total_chunks x) then [EvProgress tid (inbound_progress_of x')] else [],
       put_inbound m tid x'))"
  using assms by (simp add: on_chunk_bytes_received_def receiving_def store_chunk_def Let_def chunks_received_def length_hm_insert)

lemma on_chunk_dup:
  assumes "hm_get (inbound m) tid = Some x" "i_state x = Transferring" "i_sink x = Memory ch" "i < i_total_chunks x" "hm_contains ch i"
  shows "on_chunk_bytes_received prm e m tid i c = Some ([], put_inbound m tid (x\<lparr>i_pull_requested_at := Some (now e)\<rparr>))"
  using assms by (simp add: on_chunk_bytes_received_def receiving_def store_chunk_def Let_def)

text \<open>What a receiver needs to know about the offer for the transfer to succeed.\<close>

definition honest_offer :: "xfer_prims \<Rightarrow> bytes \<Rightarrow> bytes \<Rightarrow> InboundTransfer \<Rightarrow> (string, bytes) hmap \<Rightarrow> bool" where
  "honest_offer prm p data x0 os \<longleftrightarrow>
     i_total_chunks x0 = max (div_ceil (length p) CHUNK_SIZE) 1 \<and> i_expected_size x0 = length data \<and>
     i_expected_sha256 x0 = xfer_sha256_hex prm data \<and>
     (\<forall>m y. old_data_store m = os \<longrightarrow> reassemble y = p \<longrightarrow> offer_of y = offer_of x0 \<longrightarrow> decode_inline prm m y = Inr data)"

lemma finish_collecting:
  assumes honest: "honest_offer prm p data x0 (old_data_store m)"
    and x: "hm_get (inbound m) tid = Some x" "i_state x = Transferring" "i_sink x = Memory ch" "hm_wf ch" "offer_of x = offer_of x0"
    and full: "fst ` set ch = {..<i_total_chunks x0}" "\<forall>i\<in>{..<i_total_chunks x0}. hm_get ch i = Some (payload_chunk p i)"
  shows "\<exists>m'. finish_inbound prm e m tid = Some (ack_events x0 tid (Bytes data), m') \<and> finished tid m'"
proof -
  note offer = offer_of_eqD [OF x(5)]
  have "\<exists>m'. finish_inbound prm e m tid = Some (ack_events x tid (Bytes data), m') \<and> finished tid m'"
    by (rule finish_collected [OF x(1-4)]) (use honest full offer x(5) in \<open>auto simp: honest_offer_def\<close>)
  then show ?thesis using ack_events_cong [OF x(5)] by simp
qed

lemma collecting_chunk:
  assumes "collecting p x0 tid m S c" "honest_offer prm p data x0 (old_data_store m)" "i < i_total_chunks x0"
  shows "\<exists>evs m'. on_chunk_bytes_received prm e m tid i (payload_chunk p i) = Some (evs, m') \<and>
    (if c \<and> insert i S = {..<i_total_chunks x0} then evs = ack_events x0 tid (Bytes data) \<and> finished tid m'
     else filter is_completion evs = [] \<and> collecting p x0 tid m' (insert i S) c \<and> old_data_store m' = old_data_store m)"
  using assms(1)
proof (rule collectingE)
  fix x ch
  assume x: "hm_get (inbound m) tid = Some x" "i_state x = Transferring" "i_sink x = Memory ch"
    and ch: "hm_wf ch" "fst ` set ch = S" "\<forall>i\<in>S. hm_get ch i = Some (payload_chunk p i)"
    and c: "i_complete_requested x = c" and off: "offer_of x = offer_of x0"
    and S: "S \<subseteq> {..<i_total_chunks x0}" "\<not> (c \<and> S = {..<i_total_chunks x0})"
  have total: "i_total_chunks x = i_total_chunks x0" using offer_of_eqD [OF off] by simp
  have i: "i < i_total_chunks x" using assms(3) total by simp
  show ?thesis
  proof (cases "i \<in> S")
    case True
    then have "hm_contains ch i" using ch(2) by (auto simp: hm_contains_def)
    note dup = on_chunk_dup [OF x i this, of prm e "payload_chunk p i"]
    have "insert i S = S" using True by auto
    moreover have "collecting p x0 tid (put_inbound m tid (x\<lparr>i_pull_requested_at := Some (now e)\<rparr>)) S c"
      unfolding collecting_def using x ch c off S
      by (intro exI [of _ "x\<lparr>i_pull_requested_at := Some (now e)\<rparr>"] exI [of _ ch]) (simp add: offer_of_def)
    ultimately show ?thesis using dup S(2) by auto
  next
    case False
    then have fresh: "\<not> hm_contains ch i" using ch(2) by (auto simp: hm_contains_def)
    let ?ch = "hm_insert i (payload_chunk p i) ch"
    let ?x = "x\<lparr>i_sink := Memory ?ch, i_last_progress_at := now e, i_resume_attempts := 0\<rparr>"
    note step = on_chunk_new [OF x i fresh, of prm e "payload_chunk p i"]
    have ch': "hm_wf ?ch" "fst ` set ?ch = insert i S" "\<forall>j\<in>insert i S. hm_get ?ch j = Some (payload_chunk p j)"
      using ch by (auto simp: hm_wf_insert set_fst_hm_insert hm_get_insert)
    have sub: "insert i S \<subseteq> {..<i_total_chunks x0}" using S(1) assms(3) by simp
    have len: "Suc (length ch) = i_total_chunks x \<longleftrightarrow> insert i S = {..<i_total_chunks x0}"
      using hm_card_full [OF ch'(1), of "i_total_chunks x0"] sub fresh total by (simp add: ch'(2) length_hm_insert)
    have off': "offer_of ?x = offer_of x0" using off by (simp add: offer_of_def)
    show ?thesis
    proof (cases "c \<and> insert i S = {..<i_total_chunks x0}")
      case True
      have "\<exists>m'. finish_inbound prm e (put_inbound m tid ?x) tid = Some (ack_events x0 tid (Bytes data), m') \<and> finished tid m'"
        by (rule finish_collecting [where x = ?x and ch = ?ch and p = p]) (use assms(2) x ch' off' True in simp_all)
      then show ?thesis using step True len c by auto
    next
      case False
      have "collecting p x0 tid (put_inbound m tid ?x) (insert i S) c"
        unfolding collecting_def using x ch' c off' sub False
        by (intro exI [of _ ?x] exI [of _ ?ch]) simp
      then show ?thesis using step False len c by auto
    qed
  qed
qed

lemma collecting_complete:
  assumes "collecting p x0 tid m S c" "honest_offer prm p data x0 (old_data_store m)"
  shows "\<exists>evs m'. on_complete_received prm e m tid = Some (evs, m') \<and>
    (if S = {..<i_total_chunks x0} then evs = ack_events x0 tid (Bytes data) \<and> finished tid m'
     else filter is_completion evs = [] \<and> collecting p x0 tid m' S True \<and> old_data_store m' = old_data_store m)"
  using assms(1)
proof (rule collectingE)
  fix x ch
  assume x: "hm_get (inbound m) tid = Some x" "i_state x = Transferring" "i_sink x = Memory ch"
    and ch: "hm_wf ch" "fst ` set ch = S" "\<forall>i\<in>S. hm_get ch i = Some (payload_chunk p i)"
    and off: "offer_of x = offer_of x0" and S: "S \<subseteq> {..<i_total_chunks x0}"
  have total: "i_total_chunks x = i_total_chunks x0" using offer_of_eqD [OF off] by simp
  have len: "chunks_received x = i_total_chunks x \<longleftrightarrow> S = {..<i_total_chunks x0}"
    using hm_card_full [OF ch(1), of "i_total_chunks x0"] S x(3) total by (simp add: chunks_received_def ch(2))
  have same: "hm_get (inbound (put_inbound m tid x)) tid = Some x" by simp
  show ?thesis
  proof (cases "S = {..<i_total_chunks x0}")
    case True
    have "\<exists>m'. finish_inbound prm e (put_inbound m tid x) tid = Some (ack_events x0 tid (Bytes data), m') \<and> finished tid m'"
      by (rule finish_collecting [where x = x and ch = ch and p = p]) (use assms(2) x ch off True in simp_all)
    then show ?thesis using x len True by (auto simp: on_complete_received_def receiving_def Let_def)
  next
    case False
    have "collecting p x0 tid (put_inbound m tid (x\<lparr>i_complete_requested := True\<rparr>)) S True"
      unfolding collecting_def using x ch off S False
      by (intro exI [of _ "x\<lparr>i_complete_requested := True\<rparr>"] exI [of _ ch]) (simp add: offer_of_def)
    then show ?thesis using x len False by (auto simp: on_complete_received_def receiving_def Let_def)
  qed
qed

subsection \<open>Any delivery order\<close>

text \<open>The messages \<open>ms\<close> are chunks and COMPLETE of the transfer; together with \<open>S\<close> and \<open>c\<close> they cover it.\<close>

lemma finished_run:
  assumes "\<And>b. b64_decode prm (b64_encode prm b) = Some b" "finished tid m"
    and "\<forall>d\<in>set ms. (\<exists>i. chunk_of prm p tid i (snd d)) \<or> complete_of tid (snd d)"
  shows "deliver_all prm gate m sender ms = Some ([], m)"
  using assms(3)
proof (induction ms)
  case (Cons d ms)
  obtain e t q where d: "d = (e, t, q)" by (cases d)
  obtain i where "chunk_of prm p tid i (t, q) \<or> complete_of tid (t, q)" using Cons.prems d by auto
  then have "handle_file_message prm gate e m sender t q = Some ([], m)"
    using finished_stable [OF assms(2) assms(1), of p i "(t, q)"] by simp
  then show ?case using Cons d by simp
qed simp

lemma collecting_run:
  assumes b64: "\<And>b. b64_decode prm (b64_encode prm b) = Some b"
    and "collecting p x0 tid m S c" "honest_offer prm p data x0 (old_data_store m)"
    and "\<forall>d\<in>set ms. (\<exists>i<i_total_chunks x0. chunk_of prm p tid i (snd d)) \<or> complete_of tid (snd d)"
    and "{..<i_total_chunks x0} \<subseteq> S \<union> {i. \<exists>d\<in>set ms. chunk_of prm p tid i (snd d)}"
    and "c \<or> (\<exists>d\<in>set ms. complete_of tid (snd d))"
  shows "\<exists>evs m'. deliver_all prm gate m sender ms = Some (evs, m') \<and>
    filter is_completion evs = filter is_completion (ack_events x0 tid (Bytes data)) \<and> finished tid m'"
  using assms(2-)
proof (induction ms arbitrary: m S c)
  case Nil
  then show ?case by (auto simp: collecting_def)
next
  case (Cons d ms)
  obtain e t q where d: "d = (e, t, q)" by (cases d)
  let ?n = "i_total_chunks x0"
  have known: "\<forall>d\<in>set ms. (\<exists>i. chunk_of prm p tid i (snd d)) \<or> complete_of tid (snd d)" using Cons.prems(3) by auto
  have ended: "\<exists>evs' m''. deliver_all prm gate m sender (d # ms) = Some (evs', m'') \<and>
      filter is_completion evs' = filter is_completion (ack_events x0 tid (Bytes data)) \<and> finished tid m''"
    if "handle_file_message prm gate e m sender t q = Some (ack_events x0 tid (Bytes data), m')" "finished tid m'" for m'
    using that finished_run [OF b64 that(2) known] d by simp
  have go_on: ?case
    if "handle_file_message prm gate e m sender t q = Some (evs, m')" "filter is_completion evs = []"
      "collecting p x0 tid m' S' c'" "old_data_store m' = old_data_store m"
      "{..<?n} \<subseteq> S' \<union> {i. \<exists>d\<in>set ms. chunk_of prm p tid i (snd d)}" "c' \<or> (\<exists>d\<in>set ms. complete_of tid (snd d))" for evs m' S' c'
    using that(1,2,4) Cons.IH [OF that(3) _ _ that(5,6)] Cons.prems(2,3) d by auto
  have "(\<exists>i<?n. chunk_of prm p tid i (t, q)) \<or> complete_of tid (t, q)" using Cons.prems(3) d by auto
  then show ?case
  proof (elim disjE exE conjE)
    fix i
    assume i: "i < ?n" and chunk: "chunk_of prm p tid i (t, q)"
    have not_complete: "\<not> complete_of tid (t, q)" and same: "\<And>j. chunk_of prm p tid j (t, q) \<Longrightarrow> j = i"
      using chunk by (auto simp: chunk_of_def complete_of_def)
    obtain x where "hm_get (inbound m) tid = Some x" using Cons.prems(1) by (auto simp: collecting_def)
    then have eq: "handle_file_message prm gate e m sender t q = on_chunk_bytes_received prm e m tid i (payload_chunk p i)"
      using handle_chunk_of [OF chunk _ b64, of m x] by simp
    obtain evs m' where step: "on_chunk_bytes_received prm e m tid i (payload_chunk p i) = Some (evs, m')"
      "if c \<and> insert i S = {..<?n} then evs = ack_events x0 tid (Bytes data) \<and> finished tid m'
       else filter is_completion evs = [] \<and> collecting p x0 tid m' (insert i S) c \<and> old_data_store m' = old_data_store m"
      using collecting_chunk [OF Cons.prems(1,2) i, of e] by blast
    have cover: "{..<?n} \<subseteq> insert i S \<union> {i. \<exists>d\<in>set ms. chunk_of prm p tid i (snd d)}"
      "c \<or> (\<exists>d\<in>set ms. complete_of tid (snd d))"
      using Cons.prems(4,5) same not_complete d by auto
    show ?case
    proof (cases "c \<and> insert i S = {..<?n}")
      case True
      then show ?thesis using step eq by (intro ended) auto
    next
      case False
      then show ?thesis using step eq cover by (intro go_on [of evs m' "insert i S" c]) auto
    qed
  next
    assume compl: "complete_of tid (t, q)"
    have eq: "handle_file_message prm gate e m sender t q = on_complete_received prm e m tid"
      using handle_complete_of [OF compl] by simp
    obtain evs m' where step: "on_complete_received prm e m tid = Some (evs, m')"
      "if S = {..<?n} then evs = ack_events x0 tid (Bytes data) \<and> finished tid m'
       else filter is_completion evs = [] \<and> collecting p x0 tid m' S True \<and> old_data_store m' = old_data_store m"
      using collecting_complete [OF Cons.prems(1,2), of e] by blast
    have "\<not> chunk_of prm p tid j (t, q)" for j using compl by (simp add: chunk_of_def complete_of_def)
    then have cover: "{..<?n} \<subseteq> S \<union> {i. \<exists>d\<in>set ms. chunk_of prm p tid i (snd d)}"
      using Cons.prems(4) d by auto
    show ?case
    proof (cases "S = {..<?n}")
      case True
      then show ?thesis using step eq by (intro ended) auto
    next
      case False
      then show ?thesis using step eq cover by (intro go_on [of evs m' S True]) auto
    qed
  qed
qed

subsection \<open>The whole exchange\<close>

text \<open>
  The sender offers the file, the receiver is shown the OFFER and its user accepts, the sender
  handles the ACCEPT, and the messages it then sends reach the receiver as \<open>shuffle\<close> says. The
  result is the receiver's events; \<open>None\<close> when a step does not answer as it should.
\<close>

definition inline_session :: "xfer_prims \<Rightarrow> (string \<Rightarrow> nat \<Rightarrow> bool) \<Rightarrow> io \<Rightarrow> io \<Rightarrow> io \<Rightarrow> io \<Rightarrow> FileTransferManager \<Rightarrow> FileTransferManager \<Rightarrow>
    string \<Rightarrow> string \<Rightarrow> string \<Rightarrow> bytes \<Rightarrow> string \<Rightarrow> bytes option \<Rightarrow> string \<Rightarrow>
    ((MessageType \<times> (string \<times> json_value) list) list \<Rightarrow> (io \<times> MessageType \<times> (string \<times> json_value) list) list) \<Rightarrow>
    TransferEvent list option" where
  "inline_session prm gate e1 e2 e3 e4 ms mr sender receiver rel data purpose old tid shuffle =
     (case offer_file_with_id prm e1 ms receiver rel data purpose old False (Some tid) of
        Inl _ \<Rightarrow> None
      | Inr ((_, offer_evs), ms) \<Rightarrow>
          (case deliver_all prm gate mr sender (map (Pair e2) (sent_messages offer_evs)) of None \<Rightarrow> None
           | Some (_, mr) \<Rightarrow>
               (case accept_transfer e3 mr tid of (accept_evs, mr) \<Rightarrow>
                  (case deliver_all prm gate ms receiver (map (Pair e4) (sent_messages accept_evs)) of None \<Rightarrow> None
                   | Some (chunk_evs, ms) \<Rightarrow>
                       map_option fst (deliver_all prm gate mr sender (shuffle (sent_messages chunk_evs)))))))"

text \<open>What \<open>prepare_inline_offer\<close> puts into an offer decodes to the file.\<close>

lemma prepared_payload:
  assumes zlib: "\<forall>d z n. zlib_enc prm d = Inr z \<longrightarrow> zlib_read prm z n = Inr (take n d)"
    and size: "\<forall>d z. zlib_enc prm d = Inr z \<longrightarrow> length z \<le> length d + CHUNK_SIZE"
    and prep: "prepare_inline_offer prm e data purpose old tid = Inr offer"
  obtains p where "po_source offer = Inline p" "om_payload_len (po_meta offer) = length p" "length p \<le> length data + CHUNK_SIZE"
    "length data \<le> INLINE_MAX" "om_original_size (po_meta offer) = length data"
    "om_original_sha (po_meta offer) = xfer_sha256_hex prm data" "om_purpose (po_meta offer) = purpose"
    "om_transfer_id (po_meta offer) = new_transfer_id e tid"
    "om_compressed (po_meta offer) \<Longrightarrow> \<not> om_is_delta (po_meta offer) \<and> zlib_decompress prm p INLINE_MAX = Inr data"
    "om_is_delta (po_meta offer) \<Longrightarrow> \<exists>od. old = Some od \<and> create_delta prm od data = Some p"
    "\<not> om_compressed (po_meta offer) \<Longrightarrow> \<not> om_is_delta (po_meta offer) \<Longrightarrow> p = data"
proof -
  have small: "length data \<le> INLINE_MAX" using prep by (auto simp: prepare_inline_offer_def split: if_splits)
  have comp: "(flag \<longrightarrow> zlib_decompress prm c INLINE_MAX = Inr data \<and> length c \<le> length data) \<and> (\<not> flag \<longrightarrow> c = data)"
    if "compress_data prm data = (c, flag)" for c flag
    using that zlib small
    by (auto simp: compress_data_def zlib_compress_def zlib_decompress_def split: if_splits sum.splits)
  have delta: "length d \<le> length data + CHUNK_SIZE" if "create_delta prm od data = Some d" for od d
    using that size by (force simp: create_delta_def zlib_compress_def Let_def split: sum.splits if_splits)
  show ?thesis
  proof (cases "\<exists>od d. old = Some od \<and> create_delta prm od data = Some d")
    case True
    then obtain od' d where od: "old = Some od'" "create_delta prm od' data = Some d" by blast
    show ?thesis
      by (rule that [of d]) (use prep od small delta [OF od(2)] in \<open>auto simp: prepare_inline_offer_def Let_def split: if_splits\<close>)
  next
    case False
    obtain c flag where cf: "compress_data prm data = (c, flag)" by (cases "compress_data prm data")
    have offer: "po_source offer = Inline c" "po_meta offer = \<lparr>om_transfer_id = new_transfer_id e tid,
        om_original_sha = xfer_sha256_hex prm data, om_original_size = length data, om_payload_len = length c,
        om_purpose = purpose, om_compressed = flag, om_is_delta = False, om_base_sha256 = []\<rparr>"
      using prep False cf small by (auto simp: prepare_inline_offer_def Let_def not_less split: option.splits)
    show ?thesis
      by (rule that [of c]) (use offer small comp [OF cf] in \<open>auto intro: le_trans\<close>)
  qed
qed

lemma handle_offer_message:
  assumes "gate sender 0" "om_transfer_id m0 \<noteq> []" "om_original_sha m0 \<noteq> []"
  shows "deliver_all prm gate mr sender (map (Pair e) (sent_messages [offer_message peer rel n m0])) =
    Some (on_offer_received e mr sender (om_transfer_id m0) rel (om_original_sha m0) (om_original_size m0) n (om_purpose m0)
      (om_compressed m0) (om_is_delta m0) (om_base_sha256 m0))"
  using assms by (simp add: offer_message_def handle_offer_def get_str_def get_u64_def get_bool_def unwrap_or_def split: prod.split)

lemma on_offer_inline:
  assumes "file_size \<le> INLINE_MAX" "0 < n" "n \<le> max (div_ceil file_size CHUNK_SIZE) 1 + 1"
  shows "\<exists>evs. on_offer_received e m peer tid rel sha file_size n purpose cmp dlt base =
    (evs, put_inbound m tid (inbound_new e tid peer [] [] rel sha file_size n purpose cmp dlt base (Memory [])))"
  using assms by (simp add: on_offer_received_def on_offer_received_with_room_def Let_def MAX_TRANSFER_SIZE_def INLINE_MAX_def)

lemma chunk_count_bound:
  assumes "a \<le> b + CHUNK_SIZE"
  shows "max (div_ceil a CHUNK_SIZE) 1 \<le> max (div_ceil b CHUNK_SIZE) 1 + 1"
proof -
  have "div_ceil a CHUNK_SIZE \<le> (b + CHUNK_SIZE - 1 + CHUNK_SIZE) div CHUNK_SIZE"
    unfolding div_ceil_def by (rule div_le_mono) (use assms in \<open>simp add: CHUNK_SIZE_def\<close>)
  also have "\<dots> = div_ceil b CHUNK_SIZE + 1" unfolding div_ceil_def by (simp add: CHUNK_SIZE_def)
  finally show ?thesis by simp
qed

text \<open>The sender's side of an accepted inline offer.\<close>

lemma accepted_inline:
  assumes "hm_get (outbound m) tid = Some x" "o_source x = Inline p" "o_state x = Pending" "o_chunks_sent x = 0"
    "o_total_chunks x = max (div_ceil (length p) CHUNK_SIZE) 1" "\<not> offer_was_withdrawn e m tid"
  shows "\<exists>evs m'. deliver_all prm gate m peer [(e, FileTransferAccept, [(''transfer_id'', JStr tid)])] = Some (evs, m') \<and>
    sent_messages evs = map (chunk_fields prm x p) [0 ..< o_total_chunks x] @ [complete_fields x]"
proof -
  let ?x = "live_again e x"
  have fields: "o_total_chunks ?x = o_total_chunks x" "o_source ?x = Inline p" "o_chunks_sent ?x = 0"
    using assms by (simp_all add: live_again_def)
  obtain evs where evs: "next_chunk_events prm e (disk m) ?x (o_total_chunks ?x) = ((evs, True), ?x\<lparr>o_chunks_sent := o_total_chunks x\<rparr>)"
    "sent_messages evs = map (chunk_fields prm ?x p) [0 ..< o_total_chunks x] @ [complete_fields ?x]"
    using next_chunk_events_spec [of ?x e "disk m" p "o_total_chunks ?x" prm] read_inline [of _ p e "disk m"] assms(5)
    by (auto simp: fields Let_def)
  have same: "chunk_fields prm ?x p = chunk_fields prm x p" "complete_fields ?x = complete_fields x"
    by (simp_all add: live_again_def chunk_fields_def complete_fields_def to_field_def fun_eq_iff)
  have "has_outbound m tid" using assms(1) by (simp add: has_outbound_def hm_contains_iff)
  moreover have "on_transfer_accepted_from prm e m tid None =
      (EvStateChanged tid ''transferring'' # evs, put_outbound m tid (?x\<lparr>o_chunks_sent := o_total_chunks x\<rparr>))"
    using assms evs(1) by (simp add: on_transfer_accepted_from_def fields build_chunk_events_def)
  ultimately show ?thesis
    using assms(6) evs(2) same by (simp add: handle_accept_def get_str_def get_u64_def unwrap_or_def Let_def)
qed

text \<open>The payload an offer announces decodes to the file at a receiver with the same old version.\<close>

lemma prepared_honest:
  assumes x0: "i_total_chunks x0 = max (div_ceil (length p) CHUNK_SIZE) 1" "i_expected_size x0 = length data"
      "i_expected_sha256 x0 = xfer_sha256_hex prm data" "i_rel_path x0 = rel"
    and compr: "i_compressed x0 \<Longrightarrow> \<not> i_is_delta x0 \<and> zlib_decompress prm p INLINE_MAX = Inr data"
    and delta: "i_is_delta x0 \<Longrightarrow> \<exists>od. hm_get os rel = Some od \<and> apply_delta prm od p = Inr data"
    and plain: "\<not> i_compressed x0 \<Longrightarrow> \<not> i_is_delta x0 \<Longrightarrow> p = data"
  shows "honest_offer prm p data x0 os"
proof -
  have "decode_inline prm m y = Inr data" if "old_data_store m = os" "reassemble y = p" "offer_of y = offer_of x0" for m y
  proof -
    have y: "i_compressed y = i_compressed x0" "i_is_delta y = i_is_delta x0" "i_rel_path y = rel"
      using offer_of_eqD [OF that(3)] x0(4) by simp_all
    show ?thesis using compr delta plain that(1,2)
      by (cases "i_is_delta x0"; cases "i_compressed x0") (auto simp: decode_inline_def y)
  qed
  then show ?thesis using x0 by (simp add: honest_offer_def)
qed

text \<open>All messages of the sender, however they are shuffled and repeated.\<close>

lemma shuffled_run:
  assumes b64: "\<And>b. b64_decode prm (b64_encode prm b) = Some b"
    and start: "collecting p x0 tid m {} False" and honest: "honest_offer prm p data x0 (old_data_store m)"
    and members: "snd ` set ms = chunk_fields prm xo p ` {..<i_total_chunks x0} \<union> {complete_fields xo}" and xo: "o_transfer_id xo = tid"
  shows "\<exists>evs m'. deliver_all prm gate m sender ms = Some (evs, m') \<and>
    filter is_completion evs = filter is_completion (ack_events x0 tid (Bytes data)) \<and> finished tid m'"
proof (rule collecting_run [OF b64 start honest])
  have chunk: "chunk_of prm p tid i (chunk_fields prm xo p i)" "complete_of tid (complete_fields xo)" for i
    using chunk_fields_of [of prm p xo i] complete_fields_of [of xo] xo by simp_all
  show "\<forall>d\<in>set ms. (\<exists>i<i_total_chunks x0. chunk_of prm p tid i (snd d)) \<or> complete_of tid (snd d)"
  proof
    fix d
    assume "d \<in> set ms"
    then have "snd d \<in> chunk_fields prm xo p ` {..<i_total_chunks x0} \<union> {complete_fields xo}" using members by blast
    then show "(\<exists>i<i_total_chunks x0. chunk_of prm p tid i (snd d)) \<or> complete_of tid (snd d)" using chunk by auto
  qed
  have "\<exists>d\<in>set ms. chunk_of prm p tid i (snd d)" if "i < i_total_chunks x0" for i
  proof -
    have "chunk_fields prm xo p i \<in> snd ` set ms" using members that by blast
    then show ?thesis using chunk(1) [of i] by (metis imageE)
  qed
  then show "{..<i_total_chunks x0} \<subseteq> {} \<union> {i. \<exists>d\<in>set ms. chunk_of prm p tid i (snd d)}" by auto
  have "complete_fields xo \<in> snd ` set ms" using members by blast
  then show "False \<or> (\<exists>d\<in>set ms. complete_of tid (snd d))" using chunk(2) by (fastforce simp: image_iff)
qed

text \<open>
  A small file arrives intact. When a user offers a file of at most 8 MiB, whole, compressed or
  as a delta against a version the receiver has too, and the receiver accepts in time, then
  delivering the sender's messages in any order and any number of times ends in exactly one
  completion, with the sender's bytes. Assumed are that zlib and base64 invert themselves, that
  zlib adds at most a chunk, and that the offer passes the receiver's quota.
\<close>

theorem inline_file_arrives:
  assumes zlib: "\<And>d z n. zlib_enc prm d = Inr z \<Longrightarrow> zlib_read prm z n = Inr (take n d)"
    and zlib_size: "\<And>d z. zlib_enc prm d = Inr z \<Longrightarrow> length z \<le> length d + CHUNK_SIZE"
    and b64: "\<And>b. b64_decode prm (b64_encode prm b) = Some b"
    and small: "length data \<le> INLINE_MAX"
    and old: "old = None \<or> (\<exists>od. old = Some od \<and> length od < 2 ^ 32 \<and> get_old_data mr rel = Some od)"
    and ids: "tid \<noteq> []" "xfer_sha256_hex prm data \<noteq> []" "purpose \<noteq> ''update''" "gate sender 0"
    and fresh: "\<not> hm_contains (revoked ms) tid" "now e4 - now e1 < OFFER_TTL_SECS"
    and delivered: "\<And>msgs. snd ` set (shuffle msgs) = set msgs"
  shows "map_option (filter is_completion)
      (inline_session prm gate e1 e2 e3 e4 ms mr sender receiver rel data purpose old tid shuffle) =
    Some [EvComplete tid sender [] [] purpose (Bytes data) rel]"
proof -
  have "prepare_inline_offer prm e1 data purpose old (Some tid) \<noteq> Inl err" for err
    using small by (simp add: prepare_inline_offer_def Let_def not_less split: prod.split)
  then obtain offer where prep: "prepare_inline_offer prm e1 data purpose old (Some tid) = Inr offer"
    by (metis sum.exhaust)
  have zl: "\<forall>d z n. zlib_enc prm d = Inr z \<longrightarrow> zlib_read prm z n = Inr (take n d)" using zlib by blast
  have zs: "\<forall>d z. zlib_enc prm d = Inr z \<longrightarrow> length z \<le> length d + CHUNK_SIZE" using zlib_size by blast
  obtain p where p: "po_source offer = Inline p" "om_payload_len (po_meta offer) = length p" "length p \<le> length data + CHUNK_SIZE"
    "om_original_size (po_meta offer) = length data" "om_original_sha (po_meta offer) = xfer_sha256_hex prm data"
    "om_purpose (po_meta offer) = purpose" "om_transfer_id (po_meta offer) = tid"
    and compr: "om_compressed (po_meta offer) \<Longrightarrow> \<not> om_is_delta (po_meta offer) \<and> zlib_decompress prm p INLINE_MAX = Inr data"
    and delta: "om_is_delta (po_meta offer) \<Longrightarrow> \<exists>od. old = Some od \<and> create_delta prm od data = Some p"
    and plain: "\<not> om_compressed (po_meta offer) \<Longrightarrow> \<not> om_is_delta (po_meta offer) \<Longrightarrow> p = data"
    by (rule prepared_payload [OF zl zs prep]) (rule that; (assumption | simp add: new_transfer_id_def))
  define n where "n = max (div_ceil (length p) CHUNK_SIZE) 1"
  have n: "0 < n" "n \<le> max (div_ceil (length data) CHUNK_SIZE) 1 + 1"
    using chunk_count_bound [OF p(3)] by (simp_all add: n_def)
  obtain xo ms1 where offered: "offer_file_with_id prm e1 ms receiver rel data purpose old False (Some tid) =
      Inr ((tid, [offer_message receiver rel n (po_meta offer)]), ms1)"
    and xo: "hm_get (outbound ms1) tid = Some xo" "o_source xo = Inline p" "o_state xo = Pending" "o_chunks_sent xo = 0"
      "o_total_chunks xo = n" "o_created_at xo = now e1" "o_transfer_id xo = tid" and rev: "revoked ms1 = revoked ms"
    using p by (simp add: offer_file_with_id_def prep insert_prepared_def insert_offer_def Let_def n_def hm_get_insert)
  define x0 where "x0 = inbound_new e2 tid sender [] [] rel (xfer_sha256_hex prm data) (length data) n purpose
    (om_compressed (po_meta offer)) (om_is_delta (po_meta offer)) (om_base_sha256 (po_meta offer)) (Memory [])"
  obtain oevs where shown: "deliver_all prm gate mr sender (map (Pair e2) (sent_messages [offer_message receiver rel n (po_meta offer)])) =
      Some (oevs, put_inbound mr tid x0)"
    using handle_offer_message [of gate sender "po_meta offer" prm mr e2 receiver rel n] on_offer_inline [OF small n] p ids
    unfolding x0_def by fastforce
  define x1 where "x1 = x0\<lparr>i_state := Transferring, i_last_progress_at := now e3, i_pull_requested_at := Some (now e3)\<rparr>"
  have x0: "i_state x0 = Pending" "i_sink x0 = Memory []" "\<not> i_complete_requested x0" "i_total_chunks x0 = n"
    using ids by (simp_all add: x0_def)
  define mr2 where "mr2 = put_inbound (put_inbound mr tid x0) tid x1"
  obtain aevs where accepted: "accept_transfer e3 (put_inbound mr tid x0) tid = (aevs, mr2)"
    and amsgs: "sent_messages aevs = [(FileTransferAccept, [(''transfer_id'', JStr tid)])]"
    using x0 by (simp add: accept_transfer_def x1_def mr2_def)
  have "\<not> offer_was_withdrawn e4 ms1 tid" using fresh xo rev by (simp add: offer_was_withdrawn_def)
  then obtain cevs ms2 where sent: "deliver_all prm gate ms1 receiver (map (Pair e4) (sent_messages aevs)) = Some (cevs, ms2)"
    and msgs: "sent_messages cevs = map (chunk_fields prm xo p) [0 ..< n] @ [complete_fields xo]"
    using accepted_inline [OF xo(1-4), of e4 prm gate receiver] xo(5) amsgs by (auto simp: n_def)
  have start: "collecting p x0 tid mr2 {} False"
    unfolding collecting_def using x0 by (intro exI [of _ x1] exI [of _ "[]"]) (simp add: mr2_def x1_def offer_of_def)
  have delta': "\<exists>od. hm_get (old_data_store mr2) rel = Some od \<and> apply_delta prm od p = Inr data" if "om_is_delta (po_meta offer)"
    using old delta [OF that] delta_applies [of prm _ data p, OF zlib] small by (auto simp: get_old_data_def mr2_def)
  have honest: "honest_offer prm p data x0 (old_data_store mr2)"
    by (rule prepared_honest [where rel = rel]) (use compr delta' plain in \<open>simp_all add: x0_def n_def\<close>)
  have "snd ` set (shuffle (sent_messages cevs)) = chunk_fields prm xo p ` {..<i_total_chunks x0} \<union> {complete_fields xo}"
    using delivered [of "sent_messages cevs"] by (auto simp: msgs x0(4))
  from shuffled_run [OF b64 start honest this xo(7)]
  have "\<exists>evs m'. deliver_all prm gate mr2 sender (shuffle (sent_messages cevs)) = Some (evs, m') \<and>
      filter is_completion evs = filter is_completion (ack_events x0 tid (Bytes data)) \<and> finished tid m'" .
  moreover have "filter is_completion (ack_events x0 tid (Bytes data)) = [EvComplete tid sender [] [] purpose (Bytes data) rel]"
    by (simp add: ack_events_def x0_def)
  ultimately show ?thesis
    by (auto simp: inline_session_def offered shown accepted sent simp del: sent_messages.simps deliver_all.simps)
qed

definition plain_prims :: xfer_prims where
  "plain_prims = \<lparr>zlib_enc = Inr, zlib_read = (\<lambda>z n. Inr (take n z)), sha256_digest = id, hex_of = string_of_bytes,
     b64_encode = string_of_bytes, b64_decode = (\<lambda>s. Some (as_bytes s))\<rparr>"

definition quiet_io :: io where
  "quiet_io = \<lparr>now = 100, new_uuid = ''uuid'', download_dir = ''/dl'', os_error = ''error'', read_ok = (\<lambda>_. True), open_ok = True,
     write_fault = None, set_len_ok = True, stat_ok = True, rename_ok = True, remove_ok = True\<rparr>"

theorem inline_file_arrives_witness:
  "map_option (filter is_completion) (inline_session plain_prims (\<lambda>_ _. True) quiet_io quiet_io quiet_io quiet_io manager_new manager_new
     ''alice'' ''bob'' ''docs/a.txt'' [1, 2, 3] ''file'' None ''t1'' (\<lambda>msgs. map (Pair quiet_io) (rev msgs @ msgs))) =
   Some [EvComplete ''t1'' ''alice'' [] [] ''file'' (Bytes [1, 2, 3]) ''docs/a.txt'']"
  by (rule inline_file_arrives)
    (auto simp: plain_prims_def quiet_io_def manager_new_def CHUNK_SIZE_def INLINE_MAX_def OFFER_TTL_SECS_def
      xfer_sha256_hex_def image_Un image_image)

end
