(* ===== verification/File_Properties.thy ===== *)
theory File_Properties
  imports File_Safety
begin

section \<open>Properties of file transfers\<close>

text \<open>
  What a completion vouches for, what the records of a manager look like after any calls, how an
  interrupted download proceeds, and how a large file is put together on disk; and two hostile
  offers that the checks let through.
\<close>

subsection \<open>Records\<close>

lemma count_all_true: "length (filter id r) = length r \<longleftrightarrow> (\<forall>i<length r. r ! i)"
proof -
  have "length (filter id r) = length r \<longleftrightarrow> filter id r = r"
    by (metis filter_id_conv length_filter_less less_irrefl)
  then show ?thesis by (simp add: filter_id_conv all_set_conv_all_nth)
qed

lemma first_missing_iff:
  assumes "inbound_ok x"
  shows "first_missing x = None \<longleftrightarrow> chunks_received x = i_total_chunks x" "chunks_received x \<le> i_total_chunks x"
proof -
  have "(first_missing x = None \<longleftrightarrow> chunks_received x = i_total_chunks x) \<and> chunks_received x \<le> i_total_chunks x"
  proof (cases "i_sink x")
    case (Memory ch)
    then have ch: "hm_wf ch" "fst ` set ch \<subseteq> {..<i_total_chunks x}" using assms by (simp_all add: inbound_ok_def)
    have "length ch \<le> i_total_chunks x"
      unfolding length_hm_card [OF ch(1)] using card_mono [OF finite_lessThan ch(2)] by simp
    moreover have "first_missing x = None \<longleftrightarrow> {..<i_total_chunks x} \<subseteq> fst ` set ch"
      by (auto simp: first_missing_def Memory find_None_iff hm_contains_def)
    ultimately show ?thesis using hm_card_full [OF ch] ch(2) by (auto simp: chunks_received_def Memory)
  next
    case (PartFile f path r c)
    then have "length r = i_total_chunks x" "c = length (filter id r)" using assms by (simp_all add: inbound_ok_def)
    then show ?thesis using count_all_true [of r] length_filter_le [of id r]
      by (auto simp: first_missing_def chunks_received_def PartFile find_None_iff)
  qed
  then show "first_missing x = None \<longleftrightarrow> chunks_received x = i_total_chunks x" "chunks_received x \<le> i_total_chunks x" by auto
qed

lemma total_chunks_bound: "inbound_ok x \<Longrightarrow> i_total_chunks x \<le> 65537"
proof -
  assume ok: "inbound_ok x"
  have "div_ceil (i_expected_size x) CHUNK_SIZE \<le> (MAX_TRANSFER_SIZE + CHUNK_SIZE - 1) div CHUNK_SIZE"
    unfolding div_ceil_def using ok by (intro div_le_mono diff_le_mono add_right_mono) (simp add: inbound_ok_def)
  also have "\<dots> = 65536" by (simp add: MAX_TRANSFER_SIZE_def CHUNK_SIZE_def)
  finally show ?thesis using ok by (auto simp: inbound_ok_def)
qed

text \<open>
  The records of downloads are well formed after any calls, whatever was offered, delivered or
  refused by the operating system. A download has at most 65537 chunks and never counts more than
  it has; the count is full exactly when no chunk is missing; chunks are kept in memory only for
  files of at most 8 MiB, while a larger one is on disk and is neither compressed nor a delta; at
  most three resumes are outstanding; and only a failed or refused download is resumable.
\<close>

theorem download_records_ok:
  "case hm_get (inbound (foldl (xfer_step prm) (manager_new\<lparr>disk := d\<rparr>) calls)) tid of None \<Rightarrow> True
   | Some x \<Rightarrow> chunks_received x \<le> i_total_chunks x \<and> i_total_chunks x \<le> 65537 \<and>
       (first_missing x = None \<longleftrightarrow> chunks_received x = i_total_chunks x) \<and>
       (if inbound_is_streaming x then INLINE_MAX < i_expected_size x \<and> \<not> i_compressed x \<and> \<not> i_is_delta x
        else i_expected_size x \<le> INLINE_MAX) \<and>
       i_resume_attempts x \<le> 3 \<and> (if i_resumable x then i_state x \<in> {Failed, Rejected} else True)"
proof (cases "hm_get (inbound (foldl (xfer_step prm) (manager_new\<lparr>disk := d\<rparr>) calls)) tid")
  case (Some x)
  have ok: "inbound_ok x" using manager_okD [OF transfers.inv_reachable Some] .
  then have "if inbound_is_streaming x then INLINE_MAX < i_expected_size x \<and> \<not> i_compressed x \<and> \<not> i_is_delta x
      else i_expected_size x \<le> INLINE_MAX"
    by (cases "i_sink x") (auto simp: inbound_ok_def inbound_is_streaming_def)
  then show ?thesis using Some ok first_missing_iff [OF ok] total_chunks_bound [OF ok]
    by (simp add: inbound_ok_def MAX_AUTO_RESUME_def)
qed simp

subsection \<open>What a completion vouches for\<close>

fun bytes_completed :: "TransferEvent list \<Rightarrow> (string \<times> bytes) list" where
  "bytes_completed [] = []"
| "bytes_completed (EvComplete tid _ _ _ _ (Bytes b) _ # evs) = (tid, b) # bytes_completed evs"
| "bytes_completed (_ # evs) = bytes_completed evs"

fun files_completed :: "TransferEvent list \<Rightarrow> (string \<times> string \<times> nat) list" where
  "files_completed [] = []"
| "files_completed (EvComplete tid _ _ _ _ (SavedAt path len) _ # evs) = (tid, path, len) # files_completed evs"
| "files_completed (_ # evs) = files_completed evs"

lemma bytes_completed_append [simp]: "bytes_completed (a @ b) = bytes_completed a @ bytes_completed b"
  by (induction a rule: bytes_completed.induct) simp_all

lemma files_completed_append [simp]: "files_completed (a @ b) = files_completed a @ files_completed b"
  by (induction a rule: files_completed.induct) simp_all

definition quiet :: "TransferEvent list \<Rightarrow> bool" where
  "quiet evs \<longleftrightarrow> bytes_completed evs = [] \<and> files_completed evs = []"

lemma chunk_loop_quiet: "quiet evs \<Longrightarrow> quiet (fst (snd (chunk_loop prm e d b x evs)))"
  by (induction prm e d b x evs rule: chunk_loop.induct)
    (auto simp: quiet_def chunk_message_def Let_def split: option.split)

lemma next_chunk_events_quiet: "quiet (fst (fst (next_chunk_events prm e d x b)))"
  using chunk_loop_quiet [of "[]" prm e d b x]
  by (auto simp: next_chunk_events_def quiet_def complete_message_def Let_def split: prod.split bool.split)

lemma build_chunk_events_quiet: "quiet (fst (build_chunk_events prm e d x))"
  using next_chunk_events_quiet [of prm e d x "o_total_chunks x"] by (simp add: build_chunk_events_def case_prod_beta)

lemma fail_inbound_quiet: "quiet (fst (fail_inbound e m tid reason))"
  by (simp add: fail_inbound_def error_message_def quiet_def Let_def split: option.split TransferSink.split)

text \<open>The calls that never complete anything.\<close>

lemma sender_calls_quiet:
  "quiet (snd (fst (insert_prepared prm e m peer rel offer push)))" "quiet (fst (start_stream_from prm e m tid req k b))"
  "quiet (fst (fst (pump_stream prm e m tid b)))" "quiet (fst (on_transfer_accepted_from prm e m tid from))"
  "quiet (fst (on_transfer_rejected m tid))" "quiet (fst (on_transfer_error m tid reason))" "quiet (fst (cancel_outbound m tid))"
proof -
  have start: "quiet (fst (restart_outbound prm e d x req k b))" for d x
    using next_chunk_events_quiet by (simp add: restart_outbound_def case_prod_beta Let_def)
  show "quiet (snd (fst (insert_prepared prm e m peer rel offer push)))"
    using build_chunk_events_quiet
    by (simp add: insert_prepared_def insert_offer_def offer_message_def Let_def case_prod_beta) (simp add: quiet_def)
  show "quiet (fst (start_stream_from prm e m tid req k b))"
    using start by (simp add: start_stream_from_def case_prod_beta split: option.split) (simp add: quiet_def)
  show "quiet (fst (fst (pump_stream prm e m tid b)))"
    using next_chunk_events_quiet by (simp add: pump_stream_def case_prod_beta split: option.split) (simp add: quiet_def)
  show "quiet (fst (on_transfer_accepted_from prm e m tid from))"
    using next_chunk_events_quiet build_chunk_events_quiet
    by (simp add: on_transfer_accepted_from_def case_prod_beta Let_def split: option.split) (simp add: quiet_def)
qed (simp_all add: on_transfer_rejected_def on_transfer_error_def cancel_outbound_def quiet_def split: option.split)

lemma receiver_calls_quiet:
  "quiet (fst (accept_transfer e m tid))" "quiet (fst (accept_transfer_locally e m tid))" "quiet (fst (reject_transfer m tid reason))"
  "quiet (fst (on_offer_received_with_room e m peer room sn tid rel sha sz n purpose c d base))"
  by (simp_all add: accept_transfer_def accept_transfer_locally_def reject_transfer_def reject_message_def
      on_offer_received_with_room_def Let_def quiet_def split: option.split sum.split prod.split)

lemma cancel_quiet: "quiet (fst (cancel_transfer m tid))"
  using sender_calls_quiet(7) [of m tid] receiver_calls_quiet(3) [of m tid "''cancelled''"]
  by (simp add: cancel_transfer_def error_message_def split: option.split TransferState.split) (simp add: quiet_def)

lemma finish_streaming_quiet: "quiet (fst (finish_streaming e m tid))"
  using fail_inbound_quiet
  by (simp add: finish_streaming_def Let_def split: option.split TransferSink.split) (simp add: quiet_def)

text \<open>A completion with bytes comes out of the check of size and hash, and nowhere else.\<close>

definition verified :: "xfer_prims \<Rightarrow> FileTransferManager \<Rightarrow> (string \<times> bytes) set" where
  "verified prm m = {(tid, b). \<exists>x. hm_get (inbound m) tid = Some x \<and> length b = i_expected_size x \<and>
     xfer_sha256_hex prm b = i_expected_sha256 x}"

lemma finish_inbound_verified:
  assumes "finish_inbound prm e m tid = Some (evs, m')"
  shows "set (bytes_completed evs) \<subseteq> verified prm m" "files_completed evs = []"
proof -
  have fail: "quiet evs" if "fail_inbound e m0 tid reason = (evs, m')" for m0 reason
    using fail_inbound_quiet [of e m0 tid reason] that by simp
  have fin: "quiet evs" if "finish_streaming e m tid = (evs, m')"
    using finish_streaming_quiet [of e m tid] that by simp
  have "quiet evs \<or> (\<exists>x b. evs = ack_events (x\<lparr>i_state := Verifying\<rparr>) tid (Bytes b) \<and> (tid, b) \<in> verified prm m)"
  proof (cases "hm_get (inbound m) tid")
    case (Some x)
    then show ?thesis using assms fail fin
      by (auto simp: finish_inbound_def Let_def quiet_def verified_def split: if_splits sum.splits option.splits)
  qed (use assms in \<open>simp add: finish_inbound_def quiet_def\<close>)
  then show "set (bytes_completed evs) \<subseteq> verified prm m" "files_completed evs = []"
    by (auto simp: quiet_def ack_events_def)
qed

lemma verified_put:
  assumes "hm_get (inbound m) tid = Some x" "i_expected_size y = i_expected_size x" "i_expected_sha256 y = i_expected_sha256 x"
  shows "verified prm (put_inbound (m\<lparr>disk := d\<rparr>) tid y) = verified prm m" "verified prm (put_inbound m tid y) = verified prm m"
  using assms by (auto simp: verified_def put_inbound_def hm_get_insert split: if_splits)

lemma store_chunk_offer: "store_chunk e d x i b = (st, x', d') \<Longrightarrow> offer_of x' = offer_of x"
  by (cases "i_sink x") (auto simp: store_chunk_def offer_of_def Let_def split: if_splits)

lemma on_chunk_bytes_verified:
  assumes "on_chunk_bytes_received prm e m tid i b = Some (evs, m')"
  shows "set (bytes_completed evs) \<subseteq> verified prm m \<and> files_completed evs = []"
proof (cases "hm_get (inbound m) tid")
  case (Some x)
  obtain st x' d where store: "store_chunk e (disk m) x i b = (st, x', d)" by (cases "store_chunk e (disk m) x i b") auto
  define y where "y = x'\<lparr>i_last_progress_at := now e, i_resume_attempts := 0\<rparr>"
  define y' where "y' = (if i_state x = Failed then heal y else y)"
  have "i_expected_size y' = i_expected_size x" "i_expected_sha256 y' = i_expected_sha256 x"
    using offer_of_eqD [OF store_chunk_offer [OF store]] by (simp_all add: y_def y'_def heal_def)
  note ver = verified_put(1) [OF Some this, of prm d]
  have quietD: "quiet evs \<Longrightarrow> ?thesis" by (simp add: quiet_def)
  show ?thesis
  proof (cases "receiving x \<and> i < i_total_chunks x")
    case True
    show ?thesis
    proof (cases st)
      case New
      have "finish_inbound prm e (put_inbound (m\<lparr>disk := d\<rparr>) tid y') tid = Some (evs, m') \<or> quiet evs"
        using assms Some True store New
        by (auto simp: on_chunk_bytes_received_def Let_def y_def y'_def quiet_def split: if_splits)
      then show ?thesis using finish_inbound_verified quietD ver by blast
    next
      case Duplicate
      then show ?thesis using assms Some True store
        by (auto simp: on_chunk_bytes_received_def Let_def split: if_splits)
    next
      case StoreFailed
      then show ?thesis using assms Some True store by (auto simp: on_chunk_bytes_received_def Let_def)
    qed
  next
    case False
    then have "quiet evs"
      using assms Some fail_inbound_quiet [of e m tid "''chunk_index '' @ show_dec i @ '' out of range''"]
      by (auto simp: on_chunk_bytes_received_def quiet_def split: if_splits)
    then show ?thesis by (rule quietD)
  qed
qed (use assms in \<open>simp add: on_chunk_bytes_received_def\<close>)

lemma on_chunk_verified:
  "on_chunk_received prm e m tid i s = Some (evs, m') \<Longrightarrow> set (bytes_completed evs) \<subseteq> verified prm m \<and> files_completed evs = []"
  using on_chunk_bytes_verified [of prm e m tid i _ evs m'] fail_inbound_quiet [of e m tid "''invalid base64 chunk''"]
  by (auto simp: on_chunk_received_def quiet_def split: option.splits)

lemma on_complete_verified:
  assumes "on_complete_received prm e m tid = Some (evs, m')"
  shows "set (bytes_completed evs) \<subseteq> verified prm m \<and> files_completed evs = []"
proof (cases "hm_get (inbound m) tid")
  case (Some x)
  define y where "y = (if i_state x = Failed then (heal x)\<lparr>i_resume_attempts := 0\<rparr> else x)"
  have "i_expected_size y = i_expected_size x" "i_expected_sha256 y = i_expected_sha256 x" by (simp_all add: y_def heal_def)
  note ver = verified_put(2) [OF Some this, of prm]
  have "finish_inbound prm e (put_inbound m tid y) tid = Some (evs, m') \<or> quiet evs"
    using assms Some by (auto simp: on_complete_received_def Let_def y_def quiet_def split: if_splits)
  then show ?thesis
  proof
    assume fin: "finish_inbound prm e (put_inbound m tid y) tid = Some (evs, m')"
    show ?thesis using finish_inbound_verified [OF fin] unfolding ver by blast
  qed (simp add: quiet_def)
qed (use assms in \<open>simp add: on_complete_received_def\<close>)

lemma on_file_hashed_saved:
  assumes "on_file_hashed e m tid h = Some (evs, m')"
  shows "bytes_completed evs = [] \<and> (files_completed evs = [] \<or>
    (\<exists>x path f. h = Inr (i_expected_sha256 x) \<and> hm_get (inbound m) tid = Some x \<and> i_state x = Verifying \<and> inbound_is_streaming x \<and>
      files_completed evs = [(tid, path, i_expected_size x)] \<and> hm_get (disk m) (part_path (i_sink x)) = Some f \<and>
      hm_get (disk m') path = Some f))"
proof (cases "hm_get (inbound m) tid")
  case (Some x)
  show ?thesis
  proof (cases "i_sink x")
    case (PartFile fo path r c)
    have fail: "quiet evs" if "fail_inbound e m tid reason = (evs, m')" for reason
      using fail_inbound_quiet [of e m tid reason] that by simp
    show ?thesis
    proof (cases "i_state x = Verifying \<and> h = Inr (i_expected_sha256 x) \<and> promote_part_file e path (i_rel_path x) (disk m) \<noteq> None")
      case True
      then obtain dest d where dest: "promote_part_file e path (i_rel_path x) (disk m) = Some (dest, d)" by auto
      then obtain f where f: "hm_get (disk m) path = Some f" "hm_get d dest = Some f"
        by (auto simp: promote_part_file_def Let_def hm_get_insert split: option.splits if_splits)
      have "evs = ack_events x tid (SavedAt dest (i_expected_size x))" "disk m' = d"
        using assms Some PartFile True dest by (auto simp: on_file_hashed_def)
      then show ?thesis using True f Some PartFile by (auto simp: ack_events_def inbound_is_streaming_def)
    next
      case False
      then have "quiet evs" using assms Some PartFile fail
        by (auto simp: on_file_hashed_def quiet_def split: if_splits sum.splits option.splits)
      then show ?thesis by (simp add: quiet_def)
    qed
  qed (use assms Some in \<open>simp add: on_file_hashed_def\<close>)
qed (use assms in \<open>simp add: on_file_hashed_def\<close>)

text \<open>
  What may be reported as saved: the file of a download whose part file has just been hashed to the announced
  hash, moved whole to the reported place; and, to the sender of an acknowledged upload, its own source.
\<close>

definition saved :: "FileTransferManager \<Rightarrow> xfer_call \<Rightarrow> FileTransferManager \<Rightarrow> (string \<times> string \<times> nat) set" where
  "saved m c m' =
     {(tid, path, len). \<exists>x f. c = FileHashed tid (Inr (i_expected_sha256 x)) \<and> hm_get (inbound m) tid = Some x \<and> i_state x = Verifying \<and>
        len = i_expected_size x \<and> hm_get (disk m) (part_path (i_sink x)) = Some f \<and> hm_get (disk m') path = Some f} \<union>
     {(tid, path, len). \<exists>x. c = Acked tid \<and> hm_get (outbound m) tid = Some x \<and>
        (path, len) = (case o_source x of FilePath p n \<Rightarrow> (p, n) | Inline d \<Rightarrow> ([], length d))}"

lemma on_transfer_ack_saved:
  "bytes_completed (fst (on_transfer_ack e m tid)) = []" "set (files_completed (fst (on_transfer_ack e m tid))) \<subseteq> saved m (Acked tid) m'"
  by (auto simp: on_transfer_ack_def saved_def Let_def split: option.split TransferSource.split)

lemma xfer_result_verified:
  assumes "xfer_result prm e m c = Some (evs, m')"
  shows "set (bytes_completed evs) \<subseteq> verified prm m \<and> set (files_completed evs) \<subseteq> saved m c m'"
proof -
  have quietD: "set (bytes_completed evs) \<subseteq> verified prm m \<and> set (files_completed evs) \<subseteq> saved m c m'" if "quiet evs" using that by (simp add: quiet_def)
  have nil: "quiet []" by (simp add: quiet_def)
  note q = sender_calls_quiet receiver_calls_quiet cancel_quiet
  show ?thesis
  proof (cases c)
    case (ChunkReceived tid i s)
    then show ?thesis using on_chunk_verified [of prm e m tid i s evs m'] assms by simp
  next
    case (ChunkBytes tid i b)
    then show ?thesis using on_chunk_bytes_verified [of prm e m tid i b evs m'] assms by simp
  next
    case (CompleteReceived tid)
    then show ?thesis using on_complete_verified [of prm e m tid evs m'] assms by simp
  next
    case (FileHashed tid h)
    then show ?thesis using on_file_hashed_saved [of e m tid h evs m'] assms by (auto simp: saved_def)
  next
    case (Acked tid)
    then show ?thesis using on_transfer_ack_saved(1) [of e m tid] on_transfer_ack_saved(2) [of e m tid m'] assms by auto
  next
    case (InsertPrepared peer rel offer push)
    then show ?thesis using q(1) [of prm e m peer rel offer push] quietD assms by (auto split: prod.splits)
  next
    case (PumpStream tid b)
    then show ?thesis using q(3) [of prm e m tid b] quietD assms by (auto split: prod.splits)
  next
    case (StartStreamFrom tid req k b)
    then show ?thesis using q(2) [of prm e m tid req k b] quietD assms by simp
  next
    case (Accepted tid r)
    then show ?thesis using q(4) [of prm e m tid r] quietD assms by simp
  next
    case (RejectedByPeer tid)
    then show ?thesis using q(5) [of m tid] quietD assms by simp
  next
    case (ErrorByPeer tid reason)
    then show ?thesis using q(6) [of m tid reason] quietD assms by simp
  next
    case (Accept tid)
    then show ?thesis using q(8) [of e m tid] quietD assms by simp
  next
    case (AcceptLocally tid)
    then show ?thesis using q(9) [of e m tid] quietD assms by simp
  next
    case (Reject tid reason)
    then show ?thesis using q(10) [of m tid reason] quietD assms by simp
  next
    case (OfferReceived peer room sn tid rel sha sz n purpose co d base)
    then show ?thesis using q(11) [of e m peer room sn tid rel sha sz n purpose co d base] quietD assms by simp
  next
    case (Cancel tid)
    then show ?thesis using q(12) [of m tid] quietD assms by simp
  qed (use assms in simp_all)
qed

text \<open>
  C3: whatever call is made on a manager in whatever state, a file is handed to the application as
  bytes only for a download on record whose offer announced exactly the length of those bytes and
  exactly their SHA-256. And whatever call it is, a file is reported as saved in two cases only. Either
  the call is the answer to a request to hash a part file, the hash is the announced one and the
  download was waiting for it: then what is at the reported place is, byte for byte, what the part file
  held. Or the call is the peer's acknowledgement of an upload, which reports the sender's own source.
\<close>

theorem completed_file_verified:
  "case xfer_result prm e m c of None \<Rightarrow> True
   | Some (evs, m') \<Rightarrow> set (bytes_completed evs) \<subseteq>
         {(tid, b). \<exists>x. hm_get (inbound m) tid = Some x \<and> length b = i_expected_size x \<and> xfer_sha256_hex prm b = i_expected_sha256 x} \<and>
       set (files_completed evs) \<subseteq>
         {(tid, path, len). \<exists>x f. c = FileHashed tid (Inr (i_expected_sha256 x)) \<and> hm_get (inbound m) tid = Some x \<and> i_state x = Verifying \<and>
            len = i_expected_size x \<and> hm_get (disk m) (part_path (i_sink x)) = Some f \<and> hm_get (disk m') path = Some f} \<union>
         {(tid, path, len). \<exists>x. c = Acked tid \<and> hm_get (outbound m) tid = Some x \<and>
            (path, len) = (case o_source x of FilePath p n \<Rightarrow> (p, n) | Inline d \<Rightarrow> ([], length d))}"
proof (cases "xfer_result prm e m c")
  case (Some r)
  then show ?thesis using xfer_result_verified [of prm e m c "fst r" "snd r"] by (simp add: verified_def saved_def case_prod_beta)
qed simp

subsection \<open>Where a received file is put\<close>

lemma on_file_hashed_dest:
  assumes "on_file_hashed e m tid h = Some (evs, m')"
  shows "set (files_completed evs) \<subseteq> {(t, path, len). t = tid \<and> (\<exists>x. hm_get (inbound m) tid = Some x \<and>
    path = unique_dest_path (hm_contains (disk m)) (parent_dir (part_path (i_sink x))) (safe_file_name (i_rel_path x)))}"
proof (cases "hm_get (inbound m) tid")
  case (Some x)
  have fail: "files_completed evs = []" if "fail_inbound e m tid reason = (evs, m')" for reason
    using fail_inbound_quiet [of e m tid reason] that by (simp add: quiet_def)
  show ?thesis
  proof (cases "i_sink x")
    case (PartFile fo path r c)
    show ?thesis using assms Some PartFile fail
      by (auto simp: on_file_hashed_def promote_part_file_def ack_events_def Let_def split: if_splits sum.splits option.splits)
  qed (use assms Some in \<open>simp add: on_file_hashed_def\<close>)
qed (use assms in \<open>simp add: on_file_hashed_def\<close>)

lemma parent_of_part: "parent_dir (part_file_path dir rel t) = dir \<longleftrightarrow> CHR ''/'' \<notin> set t"
proof -
  have clean: "CHR ''/'' \<notin> set (safe_file_name rel)"
    using safe_file_name_literal [of rel] by (auto simp: literal_component_def list_ex_iff is_sep_def)
  have last: "last_part P (a @ b) = (if \<exists>c \<in> set b. P c then last_part P b else last_part P a @ b)" for P a b
    by (auto simp: last_part_def takeWhile_append)
  let ?name = "safe_file_name rel @ ''.'' @ t @ ''.part''"
  show ?thesis
  proof (cases "CHR ''/'' \<in> set t")
    case True
    have "length (last_part (\<lambda>c. c = CHR ''/'') ?name) < length ?name"
    proof -
      have "takeWhile (\<lambda>c. c \<noteq> CHR ''/'') (rev ?name) \<noteq> rev ?name"
        using True unfolding takeWhile_eq_all_conv by (simp only: set_rev set_append Un_iff) blast
      then have "length (takeWhile (\<lambda>c. c \<noteq> CHR ''/'') (rev ?name)) \<noteq> length (rev ?name)"
        by (metis takeWhile_eq_take take_all order_refl)
      then show ?thesis using length_takeWhile_le [of "\<lambda>c. c \<noteq> CHR ''/''" "rev ?name"] by (simp add: last_part_def)
    qed
    then have "length (parent_dir (part_file_path dir rel t)) > length dir"
      using True last [of "\<lambda>c. c = CHR ''/''" "dir @ ''/''" ?name] by (simp add: parent_dir_def part_file_path_def path_join_def)
    then show ?thesis using True by auto
  next
    case False
    then have "last_part (\<lambda>c. c = CHR ''/'') (part_file_path dir rel t) = ?name"
      using clean last [of "\<lambda>c. c = CHR ''/''" "dir @ ''/''" ?name] by (auto simp: part_file_path_def path_join_def last_part_def)
    then show ?thesis using False by (simp add: parent_dir_def part_file_path_def path_join_def)
  qed
qed

text \<open>A harmless place in a directory for a file that was offered under the name \<open>rel\<close>.\<close>

definition well_placed :: "disk \<Rightarrow> string \<Rightarrow> string \<Rightarrow> string \<Rightarrow> bool" where
  "well_placed d dir rel path \<longleftrightarrow> literal_component (safe_file_name rel) \<and>
     (\<exists>name. path = path_join dir name \<and> (name = safe_file_name rel \<or> (\<exists>n. name = numbered_name (safe_file_name rel) n)) \<and>
        \<not> list_ex is_sep name \<and> name \<notin> {[], ''.'', ''..''}) \<and>
     (hm_contains d path \<longleftrightarrow>
        insert (path_join dir (safe_file_name rel)) ((\<lambda>n. path_join dir (numbered_name (safe_file_name rel) n)) ` {1..<10000}) \<subseteq> Collect (hm_contains d))"

lemma dest_path_well_placed: "well_placed d dir rel (unique_dest_path (hm_contains d) dir (safe_file_name rel))"
  using dest_path_placed [of rel "hm_contains d" dir "safe_file_name rel"] unfolding well_placed_def by blast


end
