(* ===== verification/File_Streaming.thy ===== *)
theory File_Streaming
  imports File_Properties
begin

section \<open>A large file is put together on disk\<close>

text \<open>
  A download above the inline limit is written chunk by chunk into a \<open>.part\<close> file. The part file
  is right on the chunks that are marked as received, whatever else happened to it: chunks in any
  order and repeated, writes that stopped half way, stalls, give-ups and retries in between.
\<close>

subsection \<open>Writes into the part file\<close>

lemma length_write_at: "length (write_at off data f) = (if data = [] then length f else max (length f) (off + length data))"
  by (auto simp: write_at_def max_def min_def)

lemma nth_write_at:
  assumes "k < length (write_at off data f)"
  shows "write_at off data f ! k =
    (if off \<le> k \<and> k < off + length data then data ! (k - off) else if k < length f then f ! k else 0)"
proof (cases "data = []")
  case False
  then have "k < max (length f) (off + length data)" using assms by (simp add: length_write_at)
  moreover have "length (take off (f @ replicate (off - length f) 0)) = off" by simp
  ultimately show ?thesis using False by (auto simp: write_at_def nth_append)
qed (use assms in \<open>auto simp: write_at_def\<close>)

text \<open>The part file \<open>f\<close> of the file \<open>p\<close> is right on the chunks in \<open>S\<close>, and never longer than \<open>p\<close>.\<close>

definition part_ok :: "bytes \<Rightarrow> nat set \<Rightarrow> bytes \<Rightarrow> bool" where
  "part_ok p S f \<longleftrightarrow> length f \<le> length p \<and>
     (\<forall>k<length p. k div CHUNK_SIZE \<in> S \<longrightarrow> k < length f \<and> f ! k = p ! k)"

lemma chunk_size_pos: "0 < CHUNK_SIZE" by (simp add: CHUNK_SIZE_def)

lemma part_ok_empty: "part_ok p {} []" by (simp add: part_ok_def)

lemma part_ok_full:
  assumes "part_ok p {..<max (div_ceil (length p) CHUNK_SIZE) 1} f"
  shows "f = p"
proof -
  have "k div CHUNK_SIZE < max (div_ceil (length p) CHUNK_SIZE) 1" if "k < length p" for k
    using that chunks_cover [of p] chunk_size_pos by (simp add: less_mult_imp_div_less)
  then have all: "k < length f \<and> f ! k = p ! k" if "k < length p" for k using assms that by (simp add: part_ok_def)
  have "length f = length p" using assms all [of "length f"] by (cases "length f < length p") (auto simp: part_ok_def)
  then show ?thesis using all by (intro nth_equalityI) auto
qed

lemma div_outside: "k div CHUNK_SIZE \<noteq> i \<Longrightarrow> \<not> (i * CHUNK_SIZE \<le> k \<and> k < i * CHUNK_SIZE + CHUNK_SIZE)"
  using div_nat_eqI [of CHUNK_SIZE i k] by (auto simp: mult.commute)

lemma part_ok_write:
  assumes ok: "part_ok p S f" and i: "i \<notin> S"
  shows "part_ok p S (write_at (i * CHUNK_SIZE) (take n (payload_chunk p i)) f)"
    and "part_ok p (insert i S) (write_at (i * CHUNK_SIZE) (payload_chunk p i) f)"
proof -
  let ?off = "i * CHUNK_SIZE"
  have len: "?off + length c \<le> length p \<or> c = []" "length c \<le> CHUNK_SIZE" if "c = take n (payload_chunk p i)" for c n
    using that by (auto simp: payload_chunk_def)
  have keep: "part_ok p S (write_at ?off c f)" if c: "c = take n (payload_chunk p i)" for c n
    unfolding part_ok_def
  proof (intro conjI allI impI)
    show "length (write_at ?off c f) \<le> length p" using len(1) [OF c] ok by (auto simp: length_write_at part_ok_def)
    fix k
    assume k: "k < length p" "k div CHUNK_SIZE \<in> S"
    then have f: "k < length f" "f ! k = p ! k" using ok by (auto simp: part_ok_def)
    then show "k < length (write_at ?off c f)" by (simp add: length_write_at less_max_iff_disj)
    have "k div CHUNK_SIZE \<noteq> i" using k(2) i by auto
    then show "write_at ?off c f ! k = p ! k"
      using f len(2) [OF c] div_outside [of k i] by (subst nth_write_at) (auto simp: length_write_at)
  qed
  show "part_ok p S (write_at ?off (take n (payload_chunk p i)) f)" by (rule keep) simp
  let ?c = "payload_chunk p i"
  have c: "?c = take (length ?c) ?c" by simp
  have "k < length (write_at ?off ?c f) \<and> write_at ?off ?c f ! k = p ! k" if k: "k < length p" "k div CHUNK_SIZE = i" for k
  proof -
    have "?off \<le> k" "k < ?off + CHUNK_SIZE"
      using k(2) div_mult_mod_eq [of k CHUNK_SIZE] mod_less_divisor [OF chunk_size_pos, of k] by auto
    then have "k < ?off + length ?c" "?c ! (k - ?off) = p ! k" using k(1) by (auto simp: payload_chunk_def)
    then show ?thesis using \<open>?off \<le> k\<close> by (subst nth_write_at) (auto simp: length_write_at)
  qed
  then show "part_ok p (insert i S) (write_at ?off ?c f)" using keep [OF c] by (auto simp: part_ok_def)
qed

subsection \<open>Downloads in progress\<close>

text \<open>The chunks in \<open>S\<close> are in the part file; \<open>c\<close> tells whether COMPLETE has been seen.\<close>

definition assembling :: "bytes \<Rightarrow> InboundTransfer \<Rightarrow> string \<Rightarrow> string \<Rightarrow> FileTransferManager \<Rightarrow> nat set \<Rightarrow> bool \<Rightarrow> bool" where
  "assembling p x0 path tid m S c \<longleftrightarrow> manager_ok m \<and>
     (\<exists>x r k f. hm_get (inbound m) tid = Some x \<and> receiving x \<and> i_sink x = PartFile True path r k \<and>
        {i. i < length r \<and> r ! i} = S \<and> i_complete_requested x = c \<and> offer_of x = offer_of x0 \<and>
        \<not> (c \<and> S = {..<i_total_chunks x0}) \<and> hm_get (disk m) path = Some f \<and> part_ok p S f)"

text \<open>All of it is there and its hash has been asked for.\<close>

definition assembled :: "bytes \<Rightarrow> InboundTransfer \<Rightarrow> string \<Rightarrow> string \<Rightarrow> FileTransferManager \<Rightarrow> bool" where
  "assembled p x0 path tid m \<longleftrightarrow> manager_ok m \<and>
     (\<exists>x r k. hm_get (inbound m) tid = Some x \<and> i_state x = Verifying \<and> i_sink x = PartFile False path r k \<and>
        offer_of x = offer_of x0 \<and> hm_get (disk m) path = Some p)"

lemma assemblingE:
  assumes "assembling p x0 path tid m S c"
  obtains x r k f where "hm_get (inbound m) tid = Some x" "receiving x" "i_sink x = PartFile True path r k"
    "{i. i < length r \<and> r ! i} = S" "i_complete_requested x = c" "offer_of x = offer_of x0"
    "\<not> (c \<and> S = {..<i_total_chunks x0})" "hm_get (disk m) path = Some f" "part_ok p S f"
    "manager_ok m" "length r = i_total_chunks x0" "k = i_total_chunks x0 \<longleftrightarrow> S = {..<i_total_chunks x0}"
proof -
  from assms obtain x r k f where *: "hm_get (inbound m) tid = Some x" "receiving x" "i_sink x = PartFile True path r k"
    "{i. i < length r \<and> r ! i} = S" "i_complete_requested x = c" "offer_of x = offer_of x0"
    "\<not> (c \<and> S = {..<i_total_chunks x0})" "hm_get (disk m) path = Some f" "part_ok p S f" "manager_ok m"
    unfolding assembling_def by blast
  have "length r = i_total_chunks x \<and> k = length (filter id r)"
    using manager_okD [OF *(10,1)] *(3) by (simp add: inbound_ok_def)
  then have r: "length r = i_total_chunks x0" "k = length (filter id r)" using offer_of_eqD [OF *(6)] by auto
  then have "k = i_total_chunks x0 \<longleftrightarrow> S = {..<i_total_chunks x0}" using count_all_true [of r] *(4) by auto
  then show ?thesis using that * r(1) by blast
qed

text \<open>What a download of the file \<open>p\<close> was announced as.\<close>

definition announces :: "xfer_prims \<Rightarrow> InboundTransfer \<Rightarrow> bytes \<Rightarrow> bool" where
  "announces prm x0 p \<longleftrightarrow> i_total_chunks x0 = max (div_ceil (length p) CHUNK_SIZE) 1 \<and> i_expected_size x0 = length p \<and>
     i_expected_sha256 x0 = xfer_sha256_hex prm p"

fun asks_hash :: "TransferEvent \<Rightarrow> bool" where
  "asks_hash (EvHashFile _ _) = True"
| "asks_hash _ = False"

lemma finish_assembling:
  assumes x: "hm_get (inbound m) tid = Some x" "i_state x = Transferring" "i_sink x = PartFile True path r k"
      "k = i_total_chunks x" "offer_of x = offer_of x0" "announces prm x0 p"
    and f: "hm_get (disk m) path = Some f" "part_ok p {..<i_total_chunks x} f"
    and io: "set_len_ok e" "stat_ok e" and ok: "manager_ok m"
  shows "\<exists>evs m'. finish_inbound prm e m tid = Some (evs, m') \<and> filter asks_hash evs = [EvHashFile tid path] \<and>
    assembled p x0 path tid m'"
proof -
  have off: "i_total_chunks x = max (div_ceil (length p) CHUNK_SIZE) 1" "i_expected_size x = length p"
    using offer_of_eqD [OF x(5)] x(6) by (simp_all add: announces_def)
  have "f = p" using f(2) off(1) by (simp add: part_ok_full)
  then have f': "set_len (i_expected_size x) f = p" using off by (simp add: set_len_def)
  define y where "y = x\<lparr>i_sink := PartFile False path r k, i_state := Verifying, i_last_progress_at := now e\<rparr>"
  define m' where "m' = put_inbound ((put_inbound m tid (x\<lparr>i_sink := PartFile False path r k\<rparr>))\<lparr>disk := hm_modify path (set_len (i_expected_size x)) (disk m)\<rparr>) tid y"
  have stream: "finish_streaming e m tid = ([EvStateChanged tid (state_as_str Verifying), EvHashFile tid path], m')"
    using x f io off f' by (simp add: finish_streaming_def Let_def hm_get_modify m'_def y_def)
  then have fin: "finish_inbound prm e m tid = Some ([EvStateChanged tid (state_as_str Verifying), EvHashFile tid path], m')"
    using x by (simp add: finish_inbound_def chunks_received_def inbound_is_streaming_def)
  have "manager_ok m'" by (rule finish_inbound_ok [OF ok fin])
  then have "assembled p x0 path tid m'"
    unfolding assembled_def using x f f'
    by (intro conjI exI [of _ y] exI [of _ r] exI [of _ k]) (simp_all add: m'_def y_def hm_get_modify offer_of_def)
  then show ?thesis using fin by simp
qed

text \<open>A delivered chunk: repeated, lost in a failed write, or stored.\<close>

lemma on_chunk_part_dup:
  assumes "hm_get (inbound m) tid = Some x" "receiving x" "i_sink x = PartFile True path r k" "i < i_total_chunks x" "i < length r" "r ! i"
  shows "\<exists>evs y. on_chunk_bytes_received prm e m tid i b = Some (evs, put_inbound m tid y) \<and> filter asks_hash evs = [] \<and>
    receiving y \<and> i_sink y = i_sink x \<and> i_complete_requested y = i_complete_requested x \<and> offer_of y = offer_of x"
  using assms
  by (auto simp: on_chunk_bytes_received_def store_chunk_def Let_def heal_def offer_of_def receiving_def)

lemma on_chunk_part_fault:
  assumes "hm_get (inbound m) tid = Some x" "receiving x" "i_sink x = PartFile True path r k" "i < i_total_chunks x" "i < length r" "\<not> r ! i"
    and "write_fault e = Some n"
  shows "on_chunk_bytes_received prm e m tid i b =
    Some ([], put_inbound (m\<lparr>disk := hm_modify path (write_at (i * CHUNK_SIZE) (take n b)) (disk m)\<rparr>) tid x)"
  using assms by (simp add: on_chunk_bytes_received_def store_chunk_def write_part_def Let_def)

lemma on_chunk_part_new:
  fixes b :: bytes
  assumes "hm_get (inbound m) tid = Some x" "receiving x" "i_sink x = PartFile True path r k" "i < i_total_chunks x" "i < length r" "\<not> r ! i"
    and "write_fault e = None" "inbound_ok x"
  defines "m1 \<equiv> m\<lparr>disk := hm_modify path (write_at (i * CHUNK_SIZE) b) (disk m)\<rparr>"
  shows "\<exists>y. inbound_ok y \<and> i_state y = Transferring \<and> i_sink y = PartFile True path (r[i := True]) (k + 1) \<and>
    i_complete_requested y = i_complete_requested x \<and> offer_of y = offer_of x \<and>
    (\<exists>evs. on_chunk_bytes_received prm e m tid i b =
       (if i_complete_requested x \<and> k + 1 = i_total_chunks x then finish_inbound prm e (put_inbound m1 tid y) tid
        else Some (evs, put_inbound m1 tid y)) \<and> filter asks_hash evs = [])"
proof -
  define y0 where "y0 = x\<lparr>i_sink := PartFile True path (r[i := True]) (k + 1), i_last_progress_at := now e, i_resume_attempts := 0\<rparr>"
  define y where "y = (if i_state x = Failed then heal y0 else y0)"
  have y: "i_state y = Transferring" "i_sink y = PartFile True path (r[i := True]) (k + 1)"
    "i_complete_requested y = i_complete_requested x" "offer_of y = offer_of x" "i_total_chunks y = i_total_chunks x"
    using assms(2) by (auto simp: y_def y0_def heal_def receiving_def offer_of_def)
  have store: "store_chunk e (disk m) x i b = (New, x\<lparr>i_sink := PartFile True path (r[i := True]) (k + 1)\<rparr>, disk m1)"
    using assms by (simp add: store_chunk_def write_part_def Let_def)
  have "inbound_ok y"
    using store_chunk_ok [OF assms(8) store] by (simp add: y_def y0_def inbound_ok_heal inbound_ok_resume)
  have m1: "m\<lparr>disk := disk m1\<rparr> = m1" by (simp add: m1_def)
  have eq: "on_chunk_bytes_received prm e m tid i b =
     (if i_complete_requested y \<and> chunks_received y = i_total_chunks y then finish_inbound prm e (put_inbound m1 tid y) tid
      else if i_state x = Failed \<or> progress_is_reportable (chunks_received y) (i_total_chunks y)
      then Some ([EvProgress tid (inbound_progress_of y)], put_inbound m1 tid y) else Some ([], put_inbound m1 tid y))"
    using assms(1,2,4) store m1 by (simp add: on_chunk_bytes_received_def Let_def y_def y0_def)
  let ?evs = "if i_state x = Failed \<or> progress_is_reportable (chunks_received y) (i_total_chunks y) then [EvProgress tid (inbound_progress_of y)] else []"
  have "on_chunk_bytes_received prm e m tid i b =
      (if i_complete_requested x \<and> k + 1 = i_total_chunks x then finish_inbound prm e (put_inbound m1 tid y) tid
       else Some (?evs, put_inbound m1 tid y))" "filter asks_hash ?evs = []"
    unfolding eq using y by (simp_all add: chunks_received_def)
  then show ?thesis using y \<open>inbound_ok y\<close> by blast
qed

lemma assembling_chunk:
  assumes "assembling p x0 path tid m S c" "announces prm x0 p" "i < i_total_chunks x0" "set_len_ok e" "stat_ok e"
  defines "S' \<equiv> (if write_fault e = None then insert i S else S)"
  shows "\<exists>evs m'. on_chunk_bytes_received prm e m tid i (payload_chunk p i) = Some (evs, m') \<and>
    (if c \<and> S' = {..<i_total_chunks x0} then filter asks_hash evs = [EvHashFile tid path] \<and> assembled p x0 path tid m'
     else filter asks_hash evs = [] \<and> assembling p x0 path tid m' S' c)"
  using assms(1)
proof (rule assemblingE)
  fix x r k f
  assume x: "hm_get (inbound m) tid = Some x" "receiving x" "i_sink x = PartFile True path r k"
    and S: "{i. i < length r \<and> r ! i} = S" and c: "i_complete_requested x = c" and off: "offer_of x = offer_of x0"
    and go: "\<not> (c \<and> S = {..<i_total_chunks x0})" and f: "hm_get (disk m) path = Some f" "part_ok p S f" and ok: "manager_ok m"
    and n: "length r = i_total_chunks x0"
  have i: "i < i_total_chunks x" "i < length r" using assms(3) n offer_of_eqD [OF off] by simp_all
  consider "r ! i" | k where "\<not> r ! i" "write_fault e = Some k" | "\<not> r ! i" "write_fault e = None" by fastforce
  then show ?thesis
  proof cases
    case 1
    obtain evs y where dup: "on_chunk_bytes_received prm e m tid i (payload_chunk p i) = Some (evs, put_inbound m tid y)" "filter asks_hash evs = []"
      "receiving y" "i_sink y = i_sink x" "i_complete_requested y = c" "offer_of y = offer_of x0"
      using on_chunk_part_dup [OF x i 1, of prm e "payload_chunk p i"] c off by auto
    have "S' = S" using 1 i(2) S by (auto simp: S'_def)
    moreover have "assembling p x0 path tid (put_inbound m tid y) S c"
      unfolding assembling_def using dup x S go f on_chunk_bytes_ok [OF ok dup(1)]
      by (intro conjI exI [of _ y] exI [of _ r] exI [of _ k] exI [of _ f]) simp_all
    ultimately show ?thesis using dup go by auto
  next
    case 2
    note step = on_chunk_part_fault [OF x i 2, of prm "payload_chunk p i"]
    have "i \<notin> S" using 2 S by auto
    note part = part_ok_write(1) [OF f(2) this, of k]
    have "assembling p x0 path tid (put_inbound (m\<lparr>disk := hm_modify path (write_at (i * CHUNK_SIZE) (take k (payload_chunk p i))) (disk m)\<rparr>) tid x) S c"
      unfolding assembling_def using x S c off go f part on_chunk_bytes_ok [OF ok step]
      by (intro conjI exI [of _ x] exI [of _ r]) (auto simp: hm_get_modify)
    moreover have "S' = S" using 2 by (simp add: S'_def)
    ultimately show ?thesis using step go by auto
  next
    case 3
    let ?m1 = "m\<lparr>disk := hm_modify path (write_at (i * CHUNK_SIZE) (payload_chunk p i)) (disk m)\<rparr>"
    have "i \<notin> S" using 3 S by auto
    note part = part_ok_write(2) [OF f(2) this]
    obtain y evs where inb: "inbound_ok y" and y: "i_state y = Transferring" "i_sink y = PartFile True path (r[i := True]) (k + 1)"
      "i_complete_requested y = c" "offer_of y = offer_of x"
      and step: "on_chunk_bytes_received prm e m tid i (payload_chunk p i) =
       (if i_complete_requested x \<and> k + 1 = i_total_chunks x then finish_inbound prm e (put_inbound ?m1 tid y) tid
        else Some (evs, put_inbound ?m1 tid y))" "filter asks_hash evs = []"
      using on_chunk_part_new [OF x i 3 manager_okD [OF ok x(1)], of prm "payload_chunk p i"] c by auto
    have S': "S' = insert i S" "{j. j < length (r[i := True]) \<and> r[i := True] ! j} = insert i S"
      using 3 S i(2) by (auto simp: S'_def nth_list_update)
    have total: "i_total_chunks y = i_total_chunks x0" using offer_of_eqD [OF y(4)] offer_of_eqD [OF off] by simp
    have "k + 1 = length (filter id (r[i := True]))" using inb y(2) by (simp add: inbound_ok_def)
    then have full: "k + 1 = i_total_chunks x0 \<longleftrightarrow> insert i S = {..<i_total_chunks x0}"
      using count_all_true [of "r[i := True]"] S'(2) n by auto
    have ok': "manager_ok (put_inbound ?m1 tid y)" using ok inb by (simp add: manager_ok_put manager_ok_disk)
    have disk: "hm_get (disk (put_inbound ?m1 tid y)) path = Some (write_at (i * CHUNK_SIZE) (payload_chunk p i) f)"
      using f(1) by (simp add: hm_get_modify)
    show ?thesis
    proof (cases "c \<and> insert i S = {..<i_total_chunks x0}")
      case True
      have "\<exists>evs m'. finish_inbound prm e (put_inbound ?m1 tid y) tid = Some (evs, m') \<and>
          filter asks_hash evs = [EvHashFile tid path] \<and> assembled p x0 path tid m'"
        by (rule finish_assembling [OF _ y(1,2) _ _ assms(2) disk _ assms(4,5) ok'])
          (use y off part total full True in \<open>simp_all\<close>)
      then show ?thesis using step True full c S' total offer_of_eqD [OF off] by auto
    next
      case False
      have "assembling p x0 path tid (put_inbound ?m1 tid y) (insert i S) c"
        unfolding assembling_def using ok' y off S'(2) False disk part
        by (intro conjI exI [of _ y] exI [of _ "r[i := True]"] exI [of _ "k + 1"]) (auto simp: receiving_def)
      then show ?thesis using step False full c S' offer_of_eqD [OF off] by auto
    qed
  qed
qed

lemma assembling_complete:
  assumes "assembling p x0 path tid m S c" "announces prm x0 p" "set_len_ok e" "stat_ok e"
  shows "\<exists>evs m'. on_complete_received prm e m tid = Some (evs, m') \<and>
    (if S = {..<i_total_chunks x0} then filter asks_hash evs = [EvHashFile tid path] \<and> assembled p x0 path tid m'
     else filter asks_hash evs = [] \<and> assembling p x0 path tid m' S True)"
  using assms(1)
proof (rule assemblingE)
  fix x r k f
  assume x: "hm_get (inbound m) tid = Some x" "receiving x" "i_sink x = PartFile True path r k"
    and S: "{i. i < length r \<and> r ! i} = S" and c: "i_complete_requested x = c" and off: "offer_of x = offer_of x0"
    and f: "hm_get (disk m) path = Some f" "part_ok p S f" and ok: "manager_ok m"
    and n: "length r = i_total_chunks x0" "k = i_total_chunks x0 \<longleftrightarrow> S = {..<i_total_chunks x0}"
  define y where "y = (if i_state x = Failed then (heal x)\<lparr>i_resume_attempts := 0\<rparr> else x)"
  have y: "i_state y = Transferring" "i_sink y = PartFile True path r k" "offer_of y = offer_of x0"
    using x off by (auto simp: y_def heal_def receiving_def offer_of_def)
  have total: "i_total_chunks y = i_total_chunks x0" using offer_of_eqD [OF y(3)] by simp
  have "inbound_ok y" using manager_okD [OF ok x(1)] by (simp add: y_def inbound_ok_heal inbound_ok_resume)
  then have ok': "manager_ok (put_inbound m tid y)" "manager_ok (put_inbound m tid (y\<lparr>i_complete_requested := True\<rparr>))"
    using ok by (simp_all add: manager_ok_put)
  have step: "on_complete_received prm e m tid =
      (if S = {..<i_total_chunks x0} then finish_inbound prm e (put_inbound m tid y) tid
       else Some ([], put_inbound m tid (y\<lparr>i_complete_requested := True\<rparr>)))"
    using x y total n(2) by (simp add: on_complete_received_def Let_def y_def [symmetric] chunks_received_def)
  show ?thesis
  proof (cases "S = {..<i_total_chunks x0}")
    case True
    have "\<exists>evs m'. finish_inbound prm e (put_inbound m tid y) tid = Some (evs, m') \<and>
        filter asks_hash evs = [EvHashFile tid path] \<and> assembled p x0 path tid m'"
      by (rule finish_assembling [OF _ y(1,2) _ y(3) assms(2) _ _ assms(3,4) ok'(1)]) (use f n total True in \<open>simp_all\<close>)
    then show ?thesis using step True by simp
  next
    case False
    have "assembling p x0 path tid (put_inbound m tid (y\<lparr>i_complete_requested := True\<rparr>)) S True"
      unfolding assembling_def using ok' y S False f
      by (intro conjI exI [of _ "y\<lparr>i_complete_requested := True\<rparr>"] exI [of _ r] exI [of _ k] exI [of _ f]) (auto simp: receiving_def offer_of_def)
    then show ?thesis using step False by simp
  qed
qed

subsection \<open>Stalls and retries\<close>

definition stall_step :: "real \<Rightarrow> InboundStall list \<times> FileTransferManager \<Rightarrow> string \<Rightarrow> InboundStall list \<times> FileTransferManager" where
  "stall_step t = (\<lambda>(out, m) tid. case hm_get (inbound m) tid of None \<Rightarrow> (out, m)
     | Some x \<Rightarrow> (case stall_one t tid x of (s, x) \<Rightarrow> (out @ [s], put_inbound m tid x)))"

lemma stall_fold:
  assumes "distinct due"
  shows "hm_get (inbound (snd (foldl (stall_step t) (out, m) due))) tid =
      (if tid \<in> set due then map_option (\<lambda>x. snd (stall_one t tid x)) (hm_get (inbound m) tid) else hm_get (inbound m) tid) \<and>
    disk (snd (foldl (stall_step t) (out, m) due)) = disk m \<and>
    fst (foldl (stall_step t) (out, m) due) =
      out @ concat (map (\<lambda>k. case hm_get (inbound m) k of None \<Rightarrow> [] | Some x \<Rightarrow> [fst (stall_one t k x)]) due)"
  using assms
proof (induction due arbitrary: out m)
  case (Cons k due)
  obtain out' m' where s: "stall_step t (out, m) k = (out', m')" by (cases "stall_step t (out, m) k")
  have m': "hm_get (inbound m') j = (if j = k then map_option (\<lambda>x. snd (stall_one t k x)) (hm_get (inbound m) k) else hm_get (inbound m) j)"
    "disk m' = disk m" "out' = out @ (case hm_get (inbound m) k of None \<Rightarrow> [] | Some x \<Rightarrow> [fst (stall_one t k x)])" for j
    using s by (auto simp: stall_step_def split: option.splits prod.splits)
  have rest: "map (\<lambda>k. case hm_get (inbound m') k of None \<Rightarrow> [] | Some x \<Rightarrow> [fst (stall_one t k x)]) due =
      map (\<lambda>k. case hm_get (inbound m) k of None \<Rightarrow> [] | Some x \<Rightarrow> [fst (stall_one t k x)]) due"
    using Cons.prems by (intro map_cong) (auto simp: m'(1))
  show ?case using Cons.IH [of out' m'] Cons.prems s by (simp add: rest) (auto simp: m')
qed simp

definition due_stalls :: "real \<Rightarrow> FileTransferManager \<Rightarrow> (string \<times> InboundTransfer) list" where
  "due_stalls t m = filter (\<lambda>(_, x). is_stalled x t) (inbound m)"

lemma take_stalled_spec:
  assumes "hm_wf (inbound m)"
  shows "hm_get (inbound (snd (take_stalled_inbound e m))) tid =
      map_option (\<lambda>x. if is_stalled x (now e) then snd (stall_one (now e) tid x) else x) (hm_get (inbound m) tid)"
    and "disk (snd (take_stalled_inbound e m)) = disk m"
    and "fst (take_stalled_inbound e m) = map (\<lambda>(k, x). fst (stall_one (now e) k x)) (due_stalls (now e) m)"
proof -
  let ?due = "map fst (due_stalls (now e) m)"
  have eq: "take_stalled_inbound e m = foldl (stall_step (now e)) ([], m) ?due"
    by (simp add: take_stalled_inbound_def stall_step_def due_stalls_def)
  have dist: "distinct ?due" using assms by (simp add: due_stalls_def hm_wf_def distinct_map_filter)
  note fold = stall_fold [OF dist, of "now e" "[]" m]
  have get: "hm_get (inbound m) k = Some x" if "(k, x) \<in> set (inbound m)" for k x
    using that assms by (simp add: hm_get_def hm_wf_def)
  have mem: "tid \<in> set ?due \<longleftrightarrow> (\<exists>x. hm_get (inbound m) tid = Some x \<and> is_stalled x (now e))"
    using get by (force simp: due_stalls_def dest: hm_get_SomeD)
  show "hm_get (inbound (snd (take_stalled_inbound e m))) tid =
      map_option (\<lambda>x. if is_stalled x (now e) then snd (stall_one (now e) tid x) else x) (hm_get (inbound m) tid)"
    unfolding eq using fold [of tid] mem by (cases "hm_get (inbound m) tid") auto
  show "disk (snd (take_stalled_inbound e m)) = disk m" unfolding eq using fold by blast
  have "map (\<lambda>k. case hm_get (inbound m) k of None \<Rightarrow> [] | Some x \<Rightarrow> [fst (stall_one (now e) k x)]) ?due =
      map (\<lambda>(k, x). [fst (stall_one (now e) k x)]) (due_stalls (now e) m)"
    using get by (auto simp: due_stalls_def)
  then have "concat (map (\<lambda>k. case hm_get (inbound m) k of None \<Rightarrow> [] | Some x \<Rightarrow> [fst (stall_one (now e) k x)]) ?due) =
      map (\<lambda>(k, x). fst (stall_one (now e) k x)) (due_stalls (now e) m)"
    by (simp only: case_prod_unfold concat_map_singleton)
  then show "fst (take_stalled_inbound e m) = map (\<lambda>(k, x). fst (stall_one (now e) k x)) (due_stalls (now e) m)"
    unfolding eq using fold by auto
qed

lemma stall_one_keeps:
  "i_sink (snd (stall_one t tid x)) = i_sink x \<and> i_complete_requested (snd (stall_one t tid x)) = i_complete_requested x \<and>
   offer_of (snd (stall_one t tid x)) = offer_of x \<and>
   (i_state x = Transferring \<longrightarrow> receiving (snd (stall_one t tid x)))"
  by (simp add: stall_one_def Let_def offer_of_def receiving_def)

lemma assembling_change:
  assumes "assembling p x0 path tid m S c" "manager_ok m'" "disk m' = disk m"
    and "\<And>x. hm_get (inbound m) tid = Some x \<Longrightarrow> receiving x \<Longrightarrow> \<exists>y. hm_get (inbound m') tid = Some y \<and> receiving y \<and>
      i_sink y = i_sink x \<and> i_complete_requested y = i_complete_requested x \<and> offer_of y = offer_of x"
  shows "assembling p x0 path tid m' S c"
  using assms unfolding assembling_def by metis

lemma assembling_stall:
  assumes a: "assembling p x0 path tid m S c"
  shows "assembling p x0 path tid (snd (take_stalled_inbound e m)) S c"
proof (rule assembling_change [OF a])
  have ok: "manager_ok m" using a by (simp add: assembling_def)
  then have wf: "hm_wf (inbound m)" by (simp add: manager_ok_def)
  show "manager_ok (snd (take_stalled_inbound e m))" using ok by (rule take_stalled_ok)
  show "disk (snd (take_stalled_inbound e m)) = disk m" by (rule take_stalled_spec(2) [OF wf])
  fix x
  assume x: "hm_get (inbound m) tid = Some x" "receiving x"
  have "is_stalled x (now e) \<Longrightarrow> i_state x = Transferring" by (simp add: is_stalled_def split: if_splits)
  then show "\<exists>y. hm_get (inbound (snd (take_stalled_inbound e m))) tid = Some y \<and> receiving y \<and> i_sink y = i_sink x \<and>
      i_complete_requested y = i_complete_requested x \<and> offer_of y = offer_of x"
    using x stall_one_keeps [of "now e" tid x] by (simp add: take_stalled_spec(1) [OF wf])
qed

lemma assembling_retry:
  assumes a: "assembling p x0 path tid m S c"
  shows "assembling p x0 path tid (snd (arm_retry e m tid)) S c"
proof (rule assembling_change [OF a])
  show "manager_ok (snd (arm_retry e m tid))" using a arm_retry_ok by (auto simp: assembling_def)
  show "disk (snd (arm_retry e m tid)) = disk m" by (simp add: arm_retry_def Let_def split: option.split)
qed (auto simp: arm_retry_def Let_def heal_def receiving_def offer_of_def)

subsection \<open>Any order of deliveries\<close>

fun xfer_run :: "xfer_prims \<Rightarrow> FileTransferManager \<Rightarrow> (io \<times> xfer_call) list \<Rightarrow> call_result" where
  "xfer_run prm m [] = Some ([], m)"
| "xfer_run prm m ((e, c) # cs) =
     (case xfer_result prm e m c of None \<Rightarrow> None
      | Some (evs, m) \<Rightarrow> (case xfer_run prm m cs of None \<Rightarrow> None | Some (evs', m') \<Rightarrow> Some (evs @ evs', m')))"

text \<open>Chunk \<open>i\<close> of the file, as raw bytes or in base64.\<close>

definition chunk_call :: "xfer_prims \<Rightarrow> bytes \<Rightarrow> string \<Rightarrow> nat \<Rightarrow> xfer_call \<Rightarrow> bool" where
  "chunk_call prm p tid i c \<longleftrightarrow>
     c = ChunkBytes tid i (payload_chunk p i) \<or> (\<exists>s. c = ChunkReceived tid i s \<and> b64_decode prm s = Some (payload_chunk p i))"

definition download_call :: "xfer_prims \<Rightarrow> bytes \<Rightarrow> string \<Rightarrow> nat \<Rightarrow> xfer_call \<Rightarrow> bool" where
  "download_call prm p tid n c \<longleftrightarrow> (\<exists>i<n. chunk_call prm p tid i c) \<or> c \<in> {CompleteReceived tid, TakeStalled, ArmRetry tid}"

lemma chunk_call_result:
  "chunk_call prm p tid i c \<Longrightarrow> xfer_result prm e m c = on_chunk_bytes_received prm e m tid i (payload_chunk p i)"
  by (auto simp: chunk_call_def on_chunk_received_def)

lemma chunk_call_unique: "chunk_call prm p tid i c \<Longrightarrow> chunk_call prm p tid j c \<Longrightarrow> i = j"
  by (auto simp: chunk_call_def)

lemma assembled_stable:
  assumes "assembled p x0 path tid m" "download_call prm p tid n c"
  shows "\<exists>m'. xfer_result prm e m c = Some ([], m') \<and> assembled p x0 path tid m'"
proof -
  obtain x r k where x: "hm_get (inbound m) tid = Some x" "i_state x = Verifying" "i_sink x = PartFile False path r k"
    "offer_of x = offer_of x0" "hm_get (disk m) path = Some p" and ok: "manager_ok m"
    using assms(1) unfolding assembled_def by blast
  then have wf: "hm_wf (inbound m)" by (simp add: manager_ok_def)
  have quiet: "\<not> receiving x" "\<not> is_stalled x t" for t using x by (simp_all add: receiving_def is_stalled_def)
  have "assembled p x0 path tid (snd (take_stalled_inbound e m))"
    using take_stalled_ok [OF ok] x quiet unfolding assembled_def
    by (simp add: take_stalled_spec [OF wf])
  then show ?thesis
    using assms(2) x quiet(1) assms(1)
    by (auto simp: download_call_def chunk_call_result on_chunk_bytes_received_def on_complete_received_def arm_retry_def)
qed

lemma assembled_run:
  "assembled p x0 path tid m \<Longrightarrow> \<forall>ec\<in>set cs. download_call prm p tid n (snd ec) \<Longrightarrow>
   \<exists>m'. xfer_run prm m cs = Some ([], m') \<and> assembled p x0 path tid m'"
proof (induction cs arbitrary: m)
  case (Cons ec cs)
  obtain m1 where "xfer_result prm (fst ec) m (snd ec) = Some ([], m1)" "assembled p x0 path tid m1"
    using assembled_stable [OF Cons.prems(1), of prm n "snd ec" "fst ec"] Cons.prems(2) by auto
  moreover from this obtain m' where "xfer_run prm m1 cs = Some ([], m')" "assembled p x0 path tid m'"
    using Cons by auto
  ultimately show ?case by (cases ec) simp
qed simp

lemma assembling_run:
  assumes "assembling p x0 path tid m S c" "announces prm x0 p"
    and "\<forall>(e, d)\<in>set cs. download_call prm p tid (i_total_chunks x0) d \<and> set_len_ok e \<and> stat_ok e"
    and "{..<i_total_chunks x0} \<subseteq> S \<union> {i. \<exists>(e, d)\<in>set cs. chunk_call prm p tid i d \<and> write_fault e = None}"
    and "c \<or> (\<exists>e. (e, CompleteReceived tid) \<in> set cs)"
  shows "\<exists>evs m'. xfer_run prm m cs = Some (evs, m') \<and> filter asks_hash evs = [EvHashFile tid path] \<and> assembled p x0 path tid m'"
  using assms
proof (induction cs arbitrary: m S c)
  case Nil
  then have "c \<and> {..<i_total_chunks x0} \<subseteq> S" by simp
  with Nil.prems(1) show ?case by (auto elim!: assemblingE)
next
  case (Cons ed cs)
  obtain e d where ed: "ed = (e, d)" by (cases ed)
  let ?n = "i_total_chunks x0"
  have later: "\<forall>ec\<in>set cs. download_call prm p tid ?n (snd ec)" using Cons.prems(3) by auto
  have ended: ?case if "xfer_result prm e m d = Some (evs, m1)" "filter asks_hash evs = [EvHashFile tid path]" "assembled p x0 path tid m1" for evs m1
    using that assembled_run [OF that(3) later] ed by auto
  have go_on: ?case if "xfer_result prm e m d = Some (evs, m1)" "filter asks_hash evs = []" "assembling p x0 path tid m1 S' c'"
      "{..<?n} \<subseteq> S' \<union> {i. \<exists>(e, d)\<in>set cs. chunk_call prm p tid i d \<and> write_fault e = None}"
      "c' \<or> (\<exists>e. (e, CompleteReceived tid) \<in> set cs)" for evs m1 S' c'
    using that(1,2) Cons.IH [OF that(3) Cons.prems(2) _ that(4,5)] Cons.prems(3) ed by auto
  have d: "download_call prm p tid ?n d" and io: "set_len_ok e" "stat_ok e" using Cons.prems(3) ed by auto
  then consider i where "i < ?n" "chunk_call prm p tid i d" | "d = CompleteReceived tid" | "d = TakeStalled" | "d = ArmRetry tid"
    unfolding download_call_def by blast
  then show ?case
  proof cases
    case (1 i)
    let ?S = "if write_fault e = None then insert i S else S"
    obtain evs m1 where step: "xfer_result prm e m d = Some (evs, m1)"
      "if c \<and> ?S = {..<?n} then filter asks_hash evs = [EvHashFile tid path] \<and> assembled p x0 path tid m1
       else filter asks_hash evs = [] \<and> assembling p x0 path tid m1 ?S c"
      using assembling_chunk [OF Cons.prems(1,2) 1(1) io] chunk_call_result [OF 1(2), of e m] by auto
    have cover: "{..<?n} \<subseteq> ?S \<union> {i. \<exists>(e, d)\<in>set cs. chunk_call prm p tid i d \<and> write_fault e = None}"
      using Cons.prems(4) chunk_call_unique [OF 1(2)] ed by auto
    have "d \<noteq> CompleteReceived tid" using 1(2) by (auto simp: chunk_call_def)
    then have last: "c \<or> (\<exists>e. (e, CompleteReceived tid) \<in> set cs)" using Cons.prems(5) ed by auto
    show ?thesis
    proof (cases "c \<and> ?S = {..<?n}")
      case True
      then show ?thesis using step(2) by (intro ended [OF step(1)]) (simp_all only: if_True)
    next
      case False
      then show ?thesis using step(2) cover last by (intro go_on [OF step(1), of ?S c]) (simp_all only: if_False)
    qed
  next
    case 2
    obtain evs m1 where step: "xfer_result prm e m d = Some (evs, m1)"
      "if S = {..<?n} then filter asks_hash evs = [EvHashFile tid path] \<and> assembled p x0 path tid m1
       else filter asks_hash evs = [] \<and> assembling p x0 path tid m1 S True"
      using assembling_complete [OF Cons.prems(1,2) io] 2 by auto
    have cover: "{..<?n} \<subseteq> S \<union> {i. \<exists>(e, d)\<in>set cs. chunk_call prm p tid i d \<and> write_fault e = None}"
      using Cons.prems(4) 2 ed by (auto simp: chunk_call_def)
    show ?thesis
    proof (cases "S = {..<?n}")
      case True
      then show ?thesis using step(2) by (intro ended [OF step(1)]) (simp_all only: if_True simp_thms)
    next
      case False
      then show ?thesis using step(2) cover by (intro go_on [OF step(1), of S True]) (simp_all only: if_False simp_thms)
    qed
  next
    case 3
    show ?thesis
      by (rule go_on [of "[]" "snd (take_stalled_inbound e m)" S c])
        (use 3 ed Cons.prems assembling_stall [OF Cons.prems(1)] in \<open>auto simp: chunk_call_def\<close>)
  next
    case 4
    show ?thesis
      by (rule go_on [of "[]" "snd (arm_retry e m tid)" S c])
        (use 4 ed Cons.prems assembling_retry [OF Cons.prems(1)] in \<open>auto simp: chunk_call_def\<close>)
  qed
qed

subsection \<open>The whole download\<close>

definition stream_offer :: "xfer_prims \<Rightarrow> bytes \<Rightarrow> string \<Rightarrow> string \<Rightarrow> string \<Rightarrow> string \<Rightarrow> string \<Rightarrow> string \<Rightarrow> xfer_call" where
  "stream_offer prm p sender room sn tid rel purpose =
     OfferReceived sender room sn tid rel (xfer_sha256_hex prm p) (length p) (max (div_ceil (length p) CHUNK_SIZE) 1) purpose False False []"

lemma stream_offer_accepted:
  assumes "manager_ok m" "INLINE_MAX < length p" "length p \<le> MAX_TRANSFER_SIZE" "open_ok eo"
  shows "\<exists>x0 evs m1 evs' m2. xfer_result prm eo m (stream_offer prm p sender room sn tid rel purpose) = Some (evs, m1) \<and>
    xfer_result prm ea m1 (Accept tid) = Some (evs', m2) \<and> filter asks_hash (evs @ evs') = [] \<and> announces prm x0 p \<and>
    assembling p x0 (part_file_path (download_dir eo) rel tid) tid m2 {} False"
proof -
  let ?path = "part_file_path (download_dir eo) rel tid" and ?n = "max (div_ceil (length p) CHUNK_SIZE) 1"
  define x0 where "x0 = inbound_new eo tid sender room sn rel (xfer_sha256_hex prm p) (length p) ?n purpose False False []
    (PartFile True ?path (replicate ?n False) 0)"
  define m1 where "m1 = put_inbound (m\<lparr>disk := hm_insert ?path [] (disk m)\<rparr>) tid x0"
  have offer: "\<exists>evs. xfer_result prm eo m (stream_offer prm p sender room sn tid rel purpose) = Some (evs, m1) \<and> filter asks_hash evs = []"
    using assms by (simp add: stream_offer_def on_offer_received_with_room_def open_part_file_def Let_def m1_def x0_def)
  have ok1: "manager_ok m1"
    using offer xfer_result_ok [OF assms(1), of prm eo "stream_offer prm p sender room sn tid rel purpose"] by auto
  have x1: "hm_get (inbound m1) tid = Some x0" "hm_get (disk m1) ?path = Some []" by (simp_all add: m1_def hm_get_insert)
  define y where "y = (if purpose = ''update'' then x0
    else x0\<lparr>i_state := Transferring, i_last_progress_at := now ea, i_pull_requested_at := Some (now ea)\<rparr>)"
  define m2 where "m2 = (if purpose = ''update'' then m1 else put_inbound m1 tid y)"
  have accept: "\<exists>evs'. xfer_result prm ea m1 (Accept tid) = Some (evs', m2) \<and> filter asks_hash evs' = []"
    using x1 by (simp add: accept_transfer_def m2_def y_def) (simp add: x0_def)
  have ok2: "manager_ok m2" using accept xfer_result_ok [OF ok1, of prm ea "Accept tid"] by auto
  have y: "hm_get (inbound m2) tid = Some y" "hm_get (disk m2) ?path = Some []" "receiving y" "\<not> i_complete_requested y"
    "i_sink y = PartFile True ?path (replicate ?n False) 0" "offer_of y = offer_of x0"
    using x1 by (simp_all add: m2_def y_def receiving_def x0_def offer_of_def)
  have "assembling p x0 ?path tid m2 {} False"
    unfolding assembling_def using ok2 y
    by (intro conjI exI [of _ y] exI [of _ "replicate ?n False"] exI [of _ 0] exI [of _ "[]"]) (auto simp: part_ok_empty)
  moreover have "announces prm x0 p" by (simp add: announces_def x0_def)
  ultimately show ?thesis using offer accept by fastforce
qed

lemma assembled_saved:
  assumes "assembled p x0 path tid m" "announces prm x0 p" "rename_ok e"
  shows "\<exists>dest evs m'. on_file_hashed e m tid (Inr (xfer_sha256_hex prm p)) = Some (evs, m') \<and>
    files_completed evs = [(tid, dest, length p)] \<and> hm_get (disk m') dest = Some p"
proof -
  obtain x r k where x: "hm_get (inbound m) tid = Some x" "i_state x = Verifying" "i_sink x = PartFile False path r k"
    "offer_of x = offer_of x0" "hm_get (disk m) path = Some p"
    using assms(1) unfolding assembled_def by blast
  have "i_expected_sha256 x = xfer_sha256_hex prm p" "i_expected_size x = length p"
    using offer_of_eqD [OF x(4)] assms(2) by (simp_all add: announces_def)
  then show ?thesis
    using x assms(3) by (auto simp: on_file_hashed_def promote_part_file_def Let_def ack_events_def hm_get_insert)
qed

text \<open>
  C2: a download above the inline limit arrives. In a client that has been through any calls before,
  let a file \<open>p\<close> of more than 8 MiB and at most 4 GiB be offered under its length and hash and be
  accepted, and let any sequence of calls for it follow in which every chunk is once written without
  a fault and COMPLETE arrives once: chunks as raw bytes or in base64, in any order and repeated, writes
  that stop half way, stalls that are found, resumed or given up, and retries. Then nothing panics,
  the hash of the part file is asked for exactly once, and when the answer is the announced hash the
  file is reported as saved with its length, at a place that holds exactly \<open>p\<close>.
\<close>

theorem large_file_arrives:
  assumes m: "m = foldl (xfer_step prm) (manager_new\<lparr>disk := d\<rparr>) history"
    and p: "INLINE_MAX < length p" "length p \<le> MAX_TRANSFER_SIZE" and io: "open_ok eo" "rename_ok eh"
    and calls: "\<forall>(e, c)\<in>set calls. download_call prm p tid (max (div_ceil (length p) CHUNK_SIZE) 1) c \<and> set_len_ok e \<and> stat_ok e"
    and every: "\<forall>i<max (div_ceil (length p) CHUNK_SIZE) 1. \<exists>(e, c)\<in>set calls. chunk_call prm p tid i c \<and> write_fault e = None"
    and complete: "\<exists>e. (e, CompleteReceived tid) \<in> set calls"
  shows "\<exists>evs m'. xfer_run prm m ((eo, stream_offer prm p sender room sn tid rel purpose) # (ea, Accept tid) # calls) = Some (evs, m') \<and>
    filter asks_hash evs = [EvHashFile tid (part_file_path (download_dir eo) rel tid)] \<and>
    (\<exists>dest evs' m''. xfer_result prm eh m' (FileHashed tid (Inr (xfer_sha256_hex prm p))) = Some (evs', m'') \<and>
      files_completed evs' = [(tid, dest, length p)] \<and> hm_get (disk m'') dest = Some p)"
proof -
  let ?path = "part_file_path (download_dir eo) rel tid"
  have ok: "manager_ok m" unfolding m by (rule transfers.inv_reachable)
  obtain x0 evs1 m1 evs2 m2 where start: "xfer_result prm eo m (stream_offer prm p sender room sn tid rel purpose) = Some (evs1, m1)"
    "xfer_result prm ea m1 (Accept tid) = Some (evs2, m2)" "filter asks_hash (evs1 @ evs2) = []"
    and x0: "announces prm x0 p" and a: "assembling p x0 ?path tid m2 {} False"
    using stream_offer_accepted [OF ok p io(1)] by blast
  have n: "i_total_chunks x0 = max (div_ceil (length p) CHUNK_SIZE) 1" using x0 by (simp add: announces_def)
  obtain evs m' where run: "xfer_run prm m2 calls = Some (evs, m')" "filter asks_hash evs = [EvHashFile tid ?path]" "assembled p x0 ?path tid m'"
    using assembling_run [OF a x0] calls every complete unfolding n by blast
  have "\<exists>dest evs' m''. xfer_result prm eh m' (FileHashed tid (Inr (xfer_sha256_hex prm p))) = Some (evs', m'') \<and>
      files_completed evs' = [(tid, dest, length p)] \<and> hm_get (disk m'') dest = Some p"
    using assembled_saved [OF run(3) x0 io(2)] by simp
  moreover have "xfer_run prm m ((eo, stream_offer prm p sender room sn tid rel purpose) # (ea, Accept tid) # calls) =
      Some (evs1 @ evs2 @ evs, m')"
    using start run by simp
  moreover have "filter asks_hash (evs1 @ evs2 @ evs) = [EvHashFile tid ?path]" using start(3) run(2) by simp
  ultimately show ?thesis by blast
qed

definition nine_mb :: bytes where
  "nine_mb = replicate 9000000 7"

definition nine_mb_calls :: "(io \<times> xfer_call) list" where
  "nine_mb_calls = (quiet_io, CompleteReceived ''t1'') #
     (quiet_io\<lparr>write_fault := Some 10\<rparr>, ChunkBytes ''t1'' 5 (payload_chunk nine_mb 5)) # (quiet_io, TakeStalled) #
     map (\<lambda>i. (quiet_io, ChunkBytes ''t1'' i (payload_chunk nine_mb i))) (rev [0 ..< 138])"

theorem large_file_arrives_witness:
  "\<exists>evs m'. xfer_run plain_prims manager_new
      ((quiet_io, stream_offer plain_prims nine_mb ''alice'' ''room'' ''sn'' ''t1'' ''movie.mp4'' ''file'') # (quiet_io, Accept ''t1'') # nine_mb_calls) =
      Some (evs, m') \<and>
    filter asks_hash evs = [EvHashFile ''t1'' (part_file_path ''/dl'' ''movie.mp4'' ''t1'')] \<and>
    (\<exists>dest evs' m''. xfer_result plain_prims quiet_io m' (FileHashed ''t1'' (Inr (xfer_sha256_hex plain_prims nine_mb))) = Some (evs', m'') \<and>
      files_completed evs' = [(''t1'', dest, 9000000)] \<and> hm_get (disk m'') dest = Some nine_mb)"
proof -
  have len: "length nine_mb = 9000000" by (simp add: nine_mb_def)
  have n: "max (div_ceil (length nine_mb) CHUNK_SIZE) 1 = 138" by (simp add: len div_ceil_def CHUNK_SIZE_def)
  have dir: "download_dir quiet_io = ''/dl''" by (simp add: quiet_io_def)
  have m: "manager_new = foldl (xfer_step plain_prims) (manager_new\<lparr>disk := []\<rparr>) []" by (simp add: manager_new_def)
  show ?thesis
    by (rule large_file_arrives [of _ _ _ _ nine_mb quiet_io quiet_io nine_mb_calls, OF m, unfolded n, unfolded len dir])
      (auto simp: INLINE_MAX_def MAX_TRANSFER_SIZE_def quiet_io_def nine_mb_calls_def download_call_def chunk_call_def)
qed

end
