(* ===== verification/File_Stalls.thy ===== *)
theory File_Stalls
  imports File_Streaming
begin

section \<open>Silent downloads and hostile offers\<close>

text \<open>
  A download whose sender has gone silent is resumed a bounded number of times and then held for the
  user, who can go on from the first missing chunk. Then two offers a hostile peer can make: one
  whose hash makes the receiving client panic, and one that replaces a download under verification.
\<close>

subsection \<open>Silence\<close>

fun poll :: "FileTransferManager \<Rightarrow> io list \<Rightarrow> InboundStall list \<times> FileTransferManager" where
  "poll m [] = ([], m)"
| "poll m (e # es) = (case take_stalled_inbound e m of (s, m) \<Rightarrow> (case poll m es of (s', m') \<Rightarrow> (s @ s', m')))"

fun stall_of :: "string \<Rightarrow> InboundStall \<Rightarrow> bool" where
  "stall_of tid (Resume r) \<longleftrightarrow> pr_transfer_id r = tid"
| "stall_of tid (GiveUp t _) \<longleftrightarrow> t = tid"

fun is_resume :: "InboundStall \<Rightarrow> bool" where
  "is_resume (Resume _) = True"
| "is_resume (GiveUp _ _) = False"

lemma stall_of_stall_one: "stall_of tid (fst (stall_one t k x)) \<longleftrightarrow> k = tid"
  by (simp add: stall_one_def Let_def pull_resume_def)

lemma filter_key_distinct:
  "distinct (map fst xs) \<Longrightarrow> (k, x) \<in> set xs \<Longrightarrow> filter (\<lambda>p. fst p = k) xs = [(k, x)]"
proof (induction xs)
  case (Cons p xs)
  have "filter (\<lambda>p. fst p = k) xs = []" if "fst p = k"
    using Cons.prems(1) that by (auto simp: filter_empty_conv image_iff)
  then show ?case using Cons by (cases "fst p = k") (auto simp: image_iff)
qed simp

lemma stalls_of_one:
  assumes "hm_wf (inbound m)"
  shows "filter (stall_of tid) (fst (take_stalled_inbound e m)) =
    (case hm_get (inbound m) tid of None \<Rightarrow> []
     | Some x \<Rightarrow> if is_stalled x (now e) then [fst (stall_one (now e) tid x)] else [])"
proof -
  let ?due = "due_stalls (now e) m"
  have "filter (stall_of tid) (fst (take_stalled_inbound e m)) = map (\<lambda>(k, x). fst (stall_one (now e) k x)) (filter (\<lambda>p. fst p = tid) ?due)"
    unfolding take_stalled_spec(3) [OF assms] filter_map
    by (intro arg_cong [where f = "map _"] filter_cong) (auto simp: stall_of_stall_one)
  moreover have dist: "distinct (map fst ?due)" using assms by (simp add: due_stalls_def hm_wf_def distinct_map_filter)
  moreover have "filter (\<lambda>p. fst p = tid) ?due = []" if "\<And>x. hm_get (inbound m) tid = Some x \<Longrightarrow> \<not> is_stalled x (now e)"
    using that assms by (auto simp: filter_empty_conv due_stalls_def hm_get_def hm_wf_def)
  moreover have "filter (\<lambda>p. fst p = tid) ?due = [(tid, x)]" if "hm_get (inbound m) tid = Some x" "is_stalled x (now e)" for x
    by (rule filter_key_distinct [OF dist]) (use that in \<open>auto simp: due_stalls_def dest: hm_get_SomeD\<close>)
  ultimately show ?thesis by (auto split: option.split)
qed

text \<open>Each resume is counted, and the count is only ever at most three.\<close>

lemma poll_resumes_bounded:
  assumes "manager_ok m" "hm_get (inbound m) tid = Some x"
  shows "length (filter is_resume (filter (stall_of tid) (fst (poll m es)))) + i_resume_attempts x \<le> MAX_AUTO_RESUME \<and>
    (\<exists>y. hm_get (inbound (snd (poll m es))) tid = Some y \<and> i_sink y = i_sink x)"
  using assms
proof (induction es arbitrary: m x)
  case (Cons e es)
  have wf: "hm_wf (inbound m)" using Cons.prems(1) by (simp add: manager_ok_def)
  obtain s m1 where s: "take_stalled_inbound e m = (s, m1)" by (cases "take_stalled_inbound e m")
  have ok1: "manager_ok m1" using take_stalled_ok [OF Cons.prems(1), of e] s by simp
  let ?y = "if is_stalled x (now e) then snd (stall_one (now e) tid x) else x"
  have get: "hm_get (inbound m1) tid = Some ?y" using take_stalled_spec(1) [OF wf, of e tid] s Cons.prems(2) by simp
  have out: "filter (stall_of tid) s = (if is_stalled x (now e) then [fst (stall_one (now e) tid x)] else [])"
    using stalls_of_one [OF wf, of tid e] s Cons.prems(2) by simp
  have sink: "i_sink ?y = i_sink x" using stall_one_keeps [of "now e" tid x] by simp
  have "length (filter is_resume (filter (stall_of tid) s)) + i_resume_attempts x \<le> i_resume_attempts ?y \<or> i_resume_attempts ?y = i_resume_attempts x \<and> filter is_resume (filter (stall_of tid) s) = []"
    using manager_okD [OF Cons.prems]
    by (auto simp: out stall_one_def Let_def inbound_ok_def MAX_AUTO_RESUME_def U32_MAX_def)
  moreover note Cons.IH [OF ok1 get]
  ultimately show ?case using s sink by (auto simp: case_prod_beta)
qed (use manager_okD [OF assms] in \<open>auto simp: inbound_ok_def dest: manager_okD\<close>)

lemma first_missing_cong: "i_sink y = i_sink x \<Longrightarrow> i_total_chunks y = i_total_chunks x \<Longrightarrow> first_missing y = first_missing x"
  by (cases "i_sink x") (simp_all add: first_missing_def)

text \<open>What one look at the stalls does to a download in progress with chunk \<open>k\<close> missing.\<close>

definition asked :: "InboundTransfer \<Rightarrow> real \<Rightarrow> InboundTransfer" where
  "asked x t = x\<lparr>i_resume_attempts := i_resume_attempts x + 1, i_pull_requested_at := Some t, i_last_progress_at := t\<rparr>"

definition given_up :: "InboundTransfer \<Rightarrow> InboundTransfer" where
  "given_up x = x\<lparr>i_state := Failed, i_resumable := True, i_finished_at := None\<rparr>"

lemma silent_poll:
  fixes e :: io
  assumes m: "manager_ok m" "hm_get (inbound m) tid = Some x"
    and x: "i_state x = Transferring" "first_missing x = Some k" "i_pull_requested_at x = Some p"
  defines "due \<equiv> max p (i_last_progress_at x) + 30 \<le> now e" and "r \<equiv> take_stalled_inbound e m"
  shows "manager_ok (snd r)"
    and "filter (stall_of tid) (fst r) =
      (if \<not> due then [] else if i_resume_attempts x < 3 then [Resume (pull_resume x tid (i_resume_attempts x + 1))] else [GiveUp tid INTERRUPTED_REASON])"
    and "hm_get (inbound (snd r)) tid = Some (if \<not> due then x else if i_resume_attempts x < 3 then asked x (now e) else given_up x)"
proof -
  have ok: "inbound_ok x" using manager_okD [OF m] .
  have wf: "hm_wf (inbound m)" using m by (simp add: manager_ok_def)
  have "\<not> i_resumable x" using inbound_ok_not_resumable [OF ok] x(1) by simp
  then have stalled: "is_stalled x (now e) \<longleftrightarrow> due" using x by (auto simp: is_stalled_def due_def PULL_ANSWER_TIMEOUT_SECS_def)
  have pull: "pull_resume (x\<lparr>i_resume_attempts := b\<rparr>) tid n = pull_resume x tid n" for b n
    using first_missing_cong [of "x\<lparr>i_resume_attempts := b\<rparr>" x] by (simp add: pull_resume_def)
  have one: "stall_one (now e) tid x = (if i_resume_attempts x < 3 then (Resume (pull_resume x tid (i_resume_attempts x + 1)), asked x (now e))
      else (GiveUp tid INTERRUPTED_REASON, given_up x))"
    using pull by (simp add: stall_one_def Let_def MAX_AUTO_RESUME_def U32_MAX_def asked_def given_up_def)
  show "manager_ok (snd r)" using take_stalled_ok [OF m(1), of e] by (simp add: r_def)
  show "filter (stall_of tid) (fst r) =
      (if \<not> due then [] else if i_resume_attempts x < 3 then [Resume (pull_resume x tid (i_resume_attempts x + 1))] else [GiveUp tid INTERRUPTED_REASON])"
    using stalls_of_one [OF wf, of tid e] m(2) stalled one by (simp add: r_def)
  show "hm_get (inbound (snd r)) tid = Some (if \<not> due then x else if i_resume_attempts x < 3 then asked x (now e) else given_up x)"
    using take_stalled_spec(1) [OF wf, of e tid] m(2) stalled one by (simp add: r_def)
qed

lemma poll_held:
  assumes "manager_ok m" "hm_get (inbound m) tid = Some y" "i_resumable y"
  shows "filter (stall_of tid) (fst (poll m es)) = [] \<and> hm_get (inbound (snd (poll m es))) tid = Some y"
  using assms
proof (induction es arbitrary: m)
  case (Cons e es)
  have wf: "hm_wf (inbound m)" using Cons.prems(1) by (simp add: manager_ok_def)
  have "\<not> is_stalled y (now e)" using Cons.prems(3) by (simp add: is_stalled_def)
  then show ?case
    using Cons.IH [of "snd (take_stalled_inbound e m)"] Cons.prems take_stalled_ok [OF Cons.prems(1), of e]
      stalls_of_one [OF wf, of tid e] take_stalled_spec(1) [OF wf, of e tid]
    by (simp add: case_prod_beta)
qed simp

text \<open>How many of the looks at times \<open>ns\<close> find a download stalled that was last heard of at \<open>t\<close>; each of them asks again.\<close>

fun overdue :: "real \<Rightarrow> real list \<Rightarrow> nat" where
  "overdue t [] = 0"
| "overdue t (n # ns) = (if t + 30 \<le> n then Suc (overdue n ns) else overdue t ns)"

text \<open>Looks at most \<open>d\<close> apart, the first at most \<open>d\<close> after \<open>t\<close>.\<close>

fun paced :: "real \<Rightarrow> real \<Rightarrow> real list \<Rightarrow> bool" where
  "paced d t [] \<longleftrightarrow> True"
| "paced d t (n # ns) \<longleftrightarrow> t \<le> n \<and> n \<le> t + d \<and> paced d n ns"

lemma overdue_paced:
  assumes "paced d u ns" "0 \<le> d" "t \<le> u" "u < t + 30" "t + real j * (30 + d) \<le> last (u # ns)"
  shows "j \<le> overdue t ns"
  using assms
proof (induction ns arbitrary: t u j)
  case Nil
  show ?case
  proof (cases j)
    case (Suc i)
    have "real (Suc i) * (30 + d) \<ge> 30" using Nil.prems(2) mult_mono [of 1 "real (Suc i)" 30 "30 + d"] by simp
    then show ?thesis using Nil.prems Suc by simp
  qed simp
next
  case (Cons n ns)
  show ?case
  proof (cases "t + 30 \<le> n")
    case True
    show ?thesis
    proof (cases j)
      case (Suc i)
      have "real (Suc i) * (30 + d) = real i * (30 + d) + (30 + d)" by (simp add: algebra_simps)
      then have "n + real i * (30 + d) \<le> last (n # ns)" using Cons.prems Suc by auto
      then have "i \<le> overdue n ns" using Cons.prems by (intro Cons.IH) auto
      then show ?thesis using True Suc by simp
    qed simp
  next
    case False
    then show ?thesis using Cons.IH [of n t j] Cons.prems by auto
  qed
qed

lemma silent_polls:
  assumes "manager_ok m" "hm_get (inbound m) tid = Some x" "i_state x = Transferring" "first_missing x = Some k" "i_pull_requested_at x = Some p"
    "4 - i_resume_attempts x \<le> overdue (max p (i_last_progress_at x)) (map now es)"
  shows "filter (stall_of tid) (fst (poll m es)) = map (\<lambda>i. Resume (pull_resume x tid i)) [i_resume_attempts x + 1 ..< 4] @ [GiveUp tid INTERRUPTED_REASON] \<and>
    (\<exists>t l. hm_get (inbound (snd (poll m es))) tid =
       Some (given_up (x\<lparr>i_resume_attempts := 3, i_pull_requested_at := Some t, i_last_progress_at := l\<rparr>)))"
  using assms
proof (induction es arbitrary: m x p)
  case Nil
  have "i_resume_attempts x \<le> 3" using manager_okD [OF Nil.prems(1,2)] by (simp add: inbound_ok_def MAX_AUTO_RESUME_def)
  then show ?case using Nil.prems(6) by simp
next
  case (Cons e es)
  let ?due = "max p (i_last_progress_at x) + 30 \<le> now e" and ?m = "snd (take_stalled_inbound e m)"
  note look = silent_poll [OF Cons.prems(1-5), of e]
  have le: "i_resume_attempts x \<le> 3" using manager_okD [OF Cons.prems(1,2)] by (simp add: inbound_ok_def MAX_AUTO_RESUME_def)
  consider "\<not> ?due" | "?due" "i_resume_attempts x < 3" | "?due" "i_resume_attempts x = 3" using le by linarith
  then show ?case
  proof cases
    case 1
    then have "hm_get (inbound ?m) tid = Some x" using look(3) by simp
    from Cons.IH [OF look(1) this Cons.prems(3-5)] 1 look(2) Cons.prems(6) show ?thesis by (simp add: case_prod_beta)
  next
    case 2
    define y where "y = asked x (now e)"
    have y: "hm_get (inbound ?m) tid = Some y" using look(3) 2 by (simp add: y_def)
    have same: "i_state y = Transferring" "first_missing y = Some k" "i_pull_requested_at y = Some (now e)" "i_last_progress_at y = now e"
      "i_resume_attempts y = i_resume_attempts x + 1" "pull_resume y tid n = pull_resume x tid n" for n
      using Cons.prems(3,4) first_missing_cong [of y x] by (simp_all add: y_def asked_def pull_resume_def)
    have "4 - i_resume_attempts y \<le> overdue (max (now e) (i_last_progress_at y)) (map now es)" using Cons.prems(6) 2 by (simp add: same)
    from Cons.IH [OF look(1) y same(1-3) this] look(2) 2 show ?thesis
      by (simp add: case_prod_beta same upt_rec [of "Suc (i_resume_attempts x)" 4] del: upt_Suc) (auto simp: y_def asked_def)
  next
    case 3
    have y: "hm_get (inbound ?m) tid = Some (given_up x)" using look(3) 3 by simp
    have "\<exists>t l. given_up x = given_up (x\<lparr>i_resume_attempts := 3, i_pull_requested_at := Some t, i_last_progress_at := l\<rparr>)"
      using 3 Cons.prems(5) by (intro exI [of _ p] exI [of _ "i_last_progress_at x"]) (cases x, simp)
    moreover have "filter (stall_of tid) (fst (poll ?m es)) = []" "hm_get (inbound (snd (poll ?m es))) tid = Some (given_up x)"
      using poll_held [OF look(1) y, of es] by (simp_all add: given_up_def)
    ultimately show ?thesis using look(2) 3 by (simp add: case_prod_beta)
  qed
qed


definition half_download :: InboundTransfer where
  "half_download = (inbound_new quiet_io ''t1'' ''alice'' [] [] ''a.txt'' ''00'' 70000 2 ''file'' False False [] (Memory [(0, [1, 2])]))
     \<lparr>i_state := Transferring, i_pull_requested_at := Some 100, i_last_progress_at := 120\<rparr>"

definition half_history :: "(io \<times> xfer_call) list" where
  "half_history = [(quiet_io, OfferReceived ''alice'' [] [] ''t1'' ''a.txt'' ''00'' 70000 2 ''file'' False False []),
     (quiet_io, Accept ''t1''), (quiet_io\<lparr>now := 120\<rparr>, ChunkBytes ''t1'' 0 [1, 2])]"

definition looks_at :: "real list \<Rightarrow> io list" where
  "looks_at = map (\<lambda>t. quiet_io\<lparr>now := t\<rparr>)"


subsection \<open>Hostile offers\<close>

text \<open>
  A peer can make the receiving client panic. An offer needs a hash, but only a non-empty one is
  asked for, and an offer marked as an update is accepted without the user. A one-byte update announced
  under a one-character hash, its chunk and COMPLETE are enough: the text of the hash mismatch
  takes the first sixteen bytes of the announced hash, and the slice is out of range. All that is
  assumed is that the quota of the file feature admits the offer, that the chunk decodes, and that
  a SHA-256 has 64 hex digits.
\<close>

theorem short_hash_panics:
  assumes "gate sender 0" "b64_decode prm s = Some [b]" "length (xfer_sha256_hex prm [b]) = 64" "tid \<noteq> []"
  shows "deliver_all prm gate m sender
    [(e1, FileTransferOffer, [(''transfer_id'', JStr tid), (''sha256'', JStr ''0''), (''size'', JNum 1), (''purpose'', JStr ''update'')]),
     (e2, FileTransferChunk, [(''transfer_id'', JStr tid), (''chunk_index'', JNum 0), (''data'', JStr s)]),
     (e3, FileTransferComplete, [(''transfer_id'', JStr tid)])] = None"
proof -
  define x where "x = inbound_new e1 tid sender [] [] [] ''0'' 1 1 ''update'' False False [] (Memory [])"
  define m1 where "m1 = put_inbound m tid x"
  have offer: "\<exists>evs. handle_file_message prm gate e1 m sender FileTransferOffer
      [(''transfer_id'', JStr tid), (''sha256'', JStr ''0''), (''size'', JNum 1), (''purpose'', JStr ''update'')] = Some (evs, m1)"
    using assms(1,4)
    by (simp add: handle_offer_def get_str_def get_u64_def get_bool_def unwrap_or_def on_offer_received_def on_offer_received_with_room_def
        MAX_TRANSFER_SIZE_def INLINE_MAX_def div_ceil_def CHUNK_SIZE_def m1_def x_def)
  define y where "y = x\<lparr>i_sink := Memory (hm_insert 0 [b] []), i_last_progress_at := now e2, i_resume_attempts := 0\<rparr>"
  have x: "hm_get (inbound m1) tid = Some x" "i_state x = Transferring" "i_sink x = Memory []" "0 < i_total_chunks x" "\<not> hm_contains [] (0 :: nat)"
    by (simp_all add: m1_def x_def hm_contains_def)
  have chunk: "\<exists>evs. handle_file_message prm gate e2 m1 sender FileTransferChunk
      [(''transfer_id'', JStr tid), (''chunk_index'', JNum 0), (''data'', JStr s)] = Some (evs, put_inbound m1 tid y)"
    using on_chunk_new [OF x, of prm e2 "[b]"] x(1) assms(2)
    by (simp add: handle_chunk_def get_str_def get_u64_def unwrap_or_def on_chunk_received_def has_inbound_def hm_contains_iff y_def)
      (simp add: x_def)
  have hash: "xfer_sha256_hex prm [b] \<noteq> ''0''" using assms(3) by auto
  have y: "i_state y = Transferring" "i_sink y = Memory [(0, [b])]" "i_total_chunks y = 1" "i_expected_size y = 1" "i_expected_sha256 y = ''0''"
    "\<not> i_compressed y" "\<not> i_is_delta y" by (simp_all add: y_def x_def)
  have "reassemble (y\<lparr>i_state := Verifying\<rparr>) = [b]" using y by (simp add: reassemble_def hm_get_def)
  then have "decode_inline prm m' (y\<lparr>i_state := Verifying\<rparr>) = Inr [b]" for m' using y by (simp add: decode_inline_def)
  then have "finish_inbound prm e3 (put_inbound (put_inbound m1 tid y) tid y) tid = None"
    using y hash
    by (simp add: finish_inbound_def chunks_received_def inbound_is_streaming_def slice16_def Let_def split: option.split)
  then have complete: "handle_file_message prm gate e3 (put_inbound m1 tid y) sender FileTransferComplete [(''transfer_id'', JStr tid)] = None"
    using y by (simp add: on_complete_received_def get_str_def unwrap_or_def receiving_def chunks_received_def Let_def)
  show ?thesis using offer chunk complete by (auto simp del: handle_file_message.simps)
qed

theorem short_hash_panics_witness:
  "deliver_all (plain_prims\<lparr>sha256_digest := \<lambda>_. replicate 64 48\<rparr>) (\<lambda>_ _. True) manager_new ''mallory''
    [(quiet_io, FileTransferOffer, [(''transfer_id'', JStr ''t''), (''sha256'', JStr ''0''), (''size'', JNum 1), (''purpose'', JStr ''update'')]),
     (quiet_io, FileTransferChunk, [(''transfer_id'', JStr ''t''), (''chunk_index'', JNum 0), (''data'', JStr ''A'')]),
     (quiet_io, FileTransferComplete, [(''transfer_id'', JStr ''t'')])] = None"
  by (rule short_hash_panics [where b = 65]) (simp_all add: plain_prims_def xfer_sha256_hex_def as_bytes_def byte_of_char_def string_of_bytes_def)

text \<open>
  The transfer id in an offer becomes part of a path unchecked. The name of the file is reduced to one
  harmless component, but the id is not: before any consent of the user, an offer of a large file
  creates (or empties) a file at a path that climbs out of the download directory.
\<close>

theorem offer_climbs_out:
  "fst (on_offer_received_with_room (e\<lparr>open_ok := True\<rparr>) m peer room sn ''x/../../../evil'' rel sha (INLINE_MAX + 1) 1 purpose False False base) =
     EvOffered ''x/../../../evil'' peer rel (INLINE_MAX + 1) purpose #
       (if purpose = ''update'' then [EvSendMessage peer FileTransferAccept [(''transfer_id'', JStr ''x/../../../evil'')]] else []) \<and>
   hm_get (disk (snd (on_offer_received_with_room (e\<lparr>open_ok := True\<rparr>) m peer room sn ''x/../../../evil'' rel sha (INLINE_MAX + 1) 1 purpose False False base)))
     (download_dir e @ ''/'' @ safe_file_name rel @ ''.x/../../../evil.part'') = Some []"
  by (simp add: on_offer_received_with_room_def open_part_file_def MAX_TRANSFER_SIZE_def INLINE_MAX_def div_ceil_def CHUNK_SIZE_def
      part_file_path_def path_join_def put_inbound_def hm_get_insert Let_def)

text \<open>
  A second offer can replace a download after its hash was computed. Names and ids are joined by dots,
  so \<open>movie.mp4\<close> with id \<open>t\<close> and \<open>movie\<close> with id \<open>mp4.t\<close> share one part file, and opening it for
  the second offer empties it. If that happens while the first download is being verified, the
  announced hash comes back for the old content, and the client reports the file as saved with the
  announced length while an empty file is what it has put in place.
\<close>

theorem verified_file_replaced:
  assumes x: "hm_get (inbound m) t = Some x" "i_state x = Verifying"
      "i_sink x = PartFile False (part_file_path (download_dir e) ''movie.mp4'' t) r k"
    and io: "open_ok e" "rename_ok e'"
  shows "\<exists>dest evs m'. xfer_result prm e' (snd (on_offer_received_with_room e m peer room sn (''mp4.'' @ t) ''movie'' sha (INLINE_MAX + 1) 1 ''file'' False False base))
      (FileHashed t (Inr (i_expected_sha256 x))) = Some (evs, m') \<and>
    files_completed evs = [(t, dest, i_expected_size x)] \<and> hm_get (disk m') dest = Some []"
proof -
  have name: "safe_file_name ''movie'' = ''movie''" "safe_file_name ''movie.mp4'' = ''movie.mp4''"
    by (simp_all add: safe_file_name_def is_reserved_device_name_def RESERVED_def eq_ignore_ascii_case_def first_part_def last_part_def
        trim_end_def is_sep_def)
  let ?path = "part_file_path (download_dir e) ''movie.mp4'' t"
  have path: "part_file_path (download_dir e) ''movie'' (''mp4.'' @ t) = ?path" by (simp add: part_file_path_def path_join_def name)
  let ?m = "snd (on_offer_received_with_room e m peer room sn (''mp4.'' @ t) ''movie'' sha (INLINE_MAX + 1) 1 ''file'' False False base)"
  have "t \<noteq> ''mp4.'' @ t" by simp
  then have "hm_get (inbound ?m) t = Some x" "hm_get (disk ?m) ?path = Some []"
    using x(1) io(1) by (simp_all add: on_offer_received_with_room_def open_part_file_def path [simplified] MAX_TRANSFER_SIZE_def INLINE_MAX_def
        div_ceil_def CHUNK_SIZE_def hm_get_insert Let_def)
  then show ?thesis
    using x io by (simp add: on_file_hashed_def promote_part_file_def ack_events_def Let_def hm_get_insert)
qed

definition checked_movie :: InboundTransfer where
  "checked_movie = (inbound_new quiet_io ''t1'' ''alice'' [] [] ''movie.mp4'' ''abc'' 9000000 138 ''file'' False False []
     (PartFile False (part_file_path ''/dl'' ''movie.mp4'' ''t1'') (replicate 138 True) 138))\<lparr>i_state := Verifying\<rparr>"

theorem verified_file_replaced_witness:
  "\<exists>dest evs m'. xfer_result plain_prims quiet_io (snd (on_offer_received_with_room quiet_io
      (manager_new\<lparr>inbound := [(''t1'', checked_movie)], disk := [(part_file_path ''/dl'' ''movie.mp4'' ''t1'', nine_mb)]\<rparr>)
      ''mallory'' [] [] (''mp4.'' @ ''t1'') ''movie'' ''0'' (INLINE_MAX + 1) 1 ''file'' False False []))
      (FileHashed ''t1'' (Inr ''abc'')) = Some (evs, m') \<and>
    files_completed evs = [(''t1'', dest, 9000000)] \<and> hm_get (disk m') dest = Some []"
  using verified_file_replaced [of "manager_new\<lparr>inbound := [(''t1'', checked_movie)], disk := [(part_file_path ''/dl'' ''movie.mp4'' ''t1'', nine_mb)]\<rparr>"
      "''t1''" checked_movie quiet_io "replicate 138 True" 138 quiet_io plain_prims "''mallory''" "[]" "[]" "''0''" "[]"]
  by (simp add: hm_get_def checked_movie_def quiet_io_def)

end
