(* ===== verification/File_Pump.thy ===== *)
theory File_Pump
  imports File_Stalls
begin

section \<open>A streaming sender finishes\<close>

text \<open>
  A file that is sent from disk leaves in bounded slices, one per turn of the pump. The turns are
  counted here: as many as there are slices, and every chunk leaves once and in order.
\<close>

text \<open>Turns of the pump until it says that it is done.\<close>

fun pump_turns :: "xfer_prims \<Rightarrow> FileTransferManager \<Rightarrow> string \<Rightarrow> nat \<Rightarrow> io list \<Rightarrow> (TransferEvent list \<times> bool) \<times> FileTransferManager" where
  "pump_turns prm m tid b [] = (([], False), m)"
| "pump_turns prm m tid b (e # es) =
     (case pump_stream prm e m tid b of ((evs, fin), m) \<Rightarrow>
        if fin then ((evs, True), m)
        else (case pump_turns prm m tid b es of ((evs', fin'), m') \<Rightarrow> ((evs @ evs', fin'), m')))"

lemma hm_get_put_outbound [simp]: "hm_get (outbound (put_outbound m tid x)) tid = Some x" "disk (put_outbound m tid x) = disk m"
  by (simp_all add: put_outbound_def hm_get_insert)

lemma chunk_fields_sent [simp]: "chunk_fields prm (x\<lparr>o_chunks_sent := k\<rparr>) = chunk_fields prm x" "complete_fields (x\<lparr>o_chunks_sent := k\<rparr>) = complete_fields x"
  by (simp_all add: chunk_fields_def complete_fields_def to_field_def fun_eq_iff)

lemma pump_turns_spec:
  assumes "hm_get (outbound m) tid = Some x" "o_state x = Transferring" "o_chunks_sent x \<le> o_total_chunks x"
    and "\<And>e i. e \<in> set es \<Longrightarrow> i < o_total_chunks x \<Longrightarrow> read_chunk e (disk m) (o_source x) i = Some (payload_chunk p i)"
    and "es \<noteq> []" "o_total_chunks x \<le> o_chunks_sent x + b * length es"
  shows "\<exists>evs m'. pump_turns prm m tid b es = ((evs, True), m') \<and>
    sent_messages evs = map (chunk_fields prm x p) [o_chunks_sent x ..< o_total_chunks x] @ [complete_fields x] \<and>
    hm_get (outbound m') tid = Some (x\<lparr>o_chunks_sent := o_total_chunks x\<rparr>)"
  using assms
proof (induction es arbitrary: m x)
  case (Cons e es)
  let ?k = "min (o_chunks_sent x + b) (o_total_chunks x)" and ?fin = "min (o_chunks_sent x + b) (o_total_chunks x) = o_total_chunks x"
  obtain evs where step: "next_chunk_events prm e (disk m) x b = ((evs, ?fin), x\<lparr>o_chunks_sent := ?k\<rparr>)"
    "sent_messages evs = map (chunk_fields prm x p) [o_chunks_sent x ..< ?k] @ (if ?fin then [complete_fields x] else [])"
    using next_chunk_events_spec [where x = x and e = e and d = "disk m" and p = p and prm = prm and b = b] Cons.prems(3,4) by (auto simp: Let_def)
  then have pump: "pump_stream prm e m tid b = ((evs, ?fin), put_outbound m tid (x\<lparr>o_chunks_sent := ?k\<rparr>))"
    using Cons.prems(1,2) by (simp add: pump_stream_def)
  show ?case
  proof (cases ?fin)
    case True
    then show ?thesis using pump step(2) by (auto simp: put_outbound_def hm_get_insert)
  next
    case False
    let ?x = "x\<lparr>o_chunks_sent := ?k\<rparr>" and ?m = "put_outbound m tid (x\<lparr>o_chunks_sent := ?k\<rparr>)"
    have k: "?k = o_chunks_sent x + b" "o_chunks_sent x + b < o_total_chunks x" using False by auto
    have "es \<noteq> []" using k(2) Cons.prems(6) by auto
    then have "\<exists>evs' m'. pump_turns prm ?m tid b es = ((evs', True), m') \<and>
        sent_messages evs' = map (chunk_fields prm ?x p) [o_chunks_sent ?x ..< o_total_chunks ?x] @ [complete_fields ?x] \<and>
        hm_get (outbound m') tid = Some (?x\<lparr>o_chunks_sent := o_total_chunks ?x\<rparr>)"
      using Cons.prems k by (intro Cons.IH) auto
    then obtain evs' m' where rest: "pump_turns prm ?m tid b es = ((evs', True), m')"
      "sent_messages evs' = map (chunk_fields prm x p) [?k ..< o_total_chunks x] @ [complete_fields x]"
      "hm_get (outbound m') tid = Some (x\<lparr>o_chunks_sent := o_total_chunks x\<rparr>)" by auto
    have "[o_chunks_sent x ..< ?k] @ [?k ..< o_total_chunks x] = [o_chunks_sent x ..< o_total_chunks x]"
      using k upt_add_eq_append [of "o_chunks_sent x" ?k "o_total_chunks x - ?k"] by simp
    then have "map (chunk_fields prm x p) [o_chunks_sent x ..< ?k] @ map (chunk_fields prm x p) [?k ..< o_total_chunks x] =
        map (chunk_fields prm x p) [o_chunks_sent x ..< o_total_chunks x]" by (metis map_append)
    then show ?thesis using pump step(2) rest False k by simp
  qed
qed simp

text \<open>
  C37: a stream from disk ends, and the receiver of its messages misses nothing. As long as the file is as it was when
  it was offered and can be read, turns of the pump that send \<open>b\<close> chunks each, as many of them as it
  takes to cover what is left, report that the stream is done; the messages they send are the
  remaining chunks of the file, in order and each once, and then one COMPLETE; and the record has
  every chunk as sent.
\<close>

theorem pump_terminates:
  assumes x: "hm_get (outbound m) tid = Some x" "o_state x = Transferring" "o_source x = FilePath path (length p)"
      "o_total_chunks x = max (div_ceil (length p) CHUNK_SIZE) 1" "o_chunks_sent x \<le> o_total_chunks x"
    and disk: "hm_get (disk m) path = Some p" "\<forall>e\<in>set es. \<forall>i. read_ok e i"
    and turns: "es \<noteq> []" "o_total_chunks x \<le> o_chunks_sent x + b * length es"
  shows "\<exists>evs m'. pump_turns prm m tid b es = ((evs, True), m') \<and>
    sent_messages evs = map (chunk_fields prm x p) [o_chunks_sent x ..< o_total_chunks x] @ [complete_fields x] \<and>
    hm_get (outbound m') tid = Some (x\<lparr>o_chunks_sent := o_total_chunks x\<rparr>)"
  by (rule pump_turns_spec [OF x(1,2,5) _ turns]) (use x disk in \<open>simp add: read_file\<close>)

definition nine_mb_stream :: OutboundTransfer where
  "nine_mb_stream = \<lparr>o_transfer_id = ''t1'', o_peer_id = ''bob'', o_rel_path = ''movie.mp4'', o_source = FilePath ''/home/movie.mp4'' 9000000,
     o_sha256 = ''abc'', o_total_chunks = 138, o_chunks_sent = 8, o_state = Transferring, o_purpose = ''file'', o_compressed = False,
     o_is_delta = False, o_created_at = 0, o_last_progress_at = 0, o_to = [], o_finished_at = None, o_stall_count = 0,
     o_stalled_since = None, o_retry_after = 0\<rparr>"

theorem pump_terminates_witness:
  "\<exists>evs m'. pump_turns plain_prims (manager_new\<lparr>outbound := [(''t1'', nine_mb_stream)], disk := [(''/home/movie.mp4'', nine_mb)]\<rparr>) ''t1''
      ROOM_FILE_CHUNK_BUDGET (replicate 17 quiet_io) = ((evs, True), m') \<and>
    sent_messages evs = map (chunk_fields plain_prims nine_mb_stream nine_mb) [8 ..< 138] @ [complete_fields nine_mb_stream] \<and>
    hm_get (outbound m') ''t1'' = Some (nine_mb_stream\<lparr>o_chunks_sent := 138\<rparr>)"
  using pump_terminates [of "manager_new\<lparr>outbound := [(''t1'', nine_mb_stream)], disk := [(''/home/movie.mp4'', nine_mb)]\<rparr>" "''t1''"
      nine_mb_stream "''/home/movie.mp4''" nine_mb "replicate 17 quiet_io" ROOM_FILE_CHUNK_BUDGET plain_prims]
  by (simp add: nine_mb_stream_def nine_mb_def div_ceil_def CHUNK_SIZE_def hm_get_def quiet_io_def ROOM_FILE_CHUNK_BUDGET_def
      del: upt_Suc upt_rec_numeral replicate.simps)

end
