(* ===== verification/Transfer_Speed.thy ===== *)
theory Transfer_Speed
  imports Prelude Complex_Main
begin

section \<open>Throughput of a transfer (\<open>file_transfer.rs\<close>, module \<open>transfer_speed\<close>)\<close>

text \<open>
  The rate shown beside a file. A progress value is \<open>None\<close> when the float is not finite, the
  clock is in milliseconds and may go backwards; the arithmetic is exact. \<open>{:.1}\<close> of the label
  is the parameter \<open>fixed1\<close>.
\<close>

definition SPEED_WINDOW_MS :: nat where "SPEED_WINDOW_MS = 250"
definition SPEED_SMOOTH :: real where "SPEED_SMOOTH = 45 / 100"

record TransferSpeed =
  ts_size :: nat
  marked_progress :: real
  marked_at_ms :: nat
  bytes_per_sec :: real
  started :: bool

definition speed_new :: "nat \<Rightarrow> TransferSpeed" where
  "speed_new sz = \<lparr>ts_size = sz, marked_progress = 0, marked_at_ms = 0, bytes_per_sec = 0, started = False\<rparr>"

definition set_size :: "TransferSpeed \<Rightarrow> nat \<Rightarrow> TransferSpeed" where
  "set_size s sz = (if sz > 0 then s\<lparr>ts_size := sz\<rparr> else s)"

definition mark :: "TransferSpeed \<Rightarrow> real \<Rightarrow> nat \<Rightarrow> TransferSpeed" where
  "mark s progress now_ms = s\<lparr>marked_progress := progress, marked_at_ms := now_ms\<rparr>"

definition smoothed :: "real \<Rightarrow> real \<Rightarrow> real" where
  "smoothed rate instant = (if rate \<le> 0 then instant else SPEED_SMOOTH * instant + (1 - SPEED_SMOOTH) * rate)"

definition observe :: "TransferSpeed \<Rightarrow> real option \<Rightarrow> nat \<Rightarrow> real \<times> TransferSpeed" where
  "observe s raw now_ms =
     (let progress = (case raw of Some p \<Rightarrow> max 0 (min p 1) | None \<Rightarrow> 0) in
      if \<not> started s then (bytes_per_sec s, mark (s\<lparr>started := True\<rparr>) progress now_ms)
      else if now_ms < marked_at_ms s \<or> progress < marked_progress s then (bytes_per_sec s, mark s progress now_ms)
      else let dt_ms = now_ms - marked_at_ms s in
        if dt_ms < SPEED_WINDOW_MS then (bytes_per_sec s, s)
        else let dt = real dt_ms / 1000;
                 gained = (progress - marked_progress s) * real (ts_size s);
                 s = mark s progress now_ms
          in if ts_size s = 0 \<or> gained \<le> 0 \<or> dt \<le> 0 then (0, s\<lparr>bytes_per_sec := 0\<rparr>)
             else let rate = smoothed (bytes_per_sec s) (gained / dt) in (rate, s\<lparr>bytes_per_sec := rate\<rparr>))"

definition format_byte_size :: "(real \<Rightarrow> string) \<Rightarrow> nat \<Rightarrow> string" where
  "format_byte_size fixed1 bytes =
     (let n = real bytes; KB = 1024; MB = KB * 1024; GB = MB * 1024 in
      if n \<ge> GB then fixed1 (n / GB) @ '' GB''
      else if n \<ge> MB then fixed1 (n / MB) @ '' MB''
      else if n \<ge> KB then fixed1 (n / KB) @ '' KB''
      else show_dec bytes @ '' B'')"

text \<open>\<open>round\<close> rounds half away from zero; the rate is positive there.\<close>

definition speed_label :: "(real \<Rightarrow> string) \<Rightarrow> TransferSpeed \<Rightarrow> string" where
  "speed_label fixed1 s =
     (if bytes_per_sec s < 1 then []
      else format_byte_size fixed1 (nat \<lfloor>bytes_per_sec s + 1 / 2\<rfloor>) @ ''/s'')"

subsection \<open>The rate is believable\<close>

definition speed_ok :: "nat \<Rightarrow> TransferSpeed \<Rightarrow> bool" where
  "speed_ok sz s \<longleftrightarrow> ts_size s = sz \<and> 0 \<le> marked_progress s \<and> marked_progress s \<le> 1 \<and>
     0 \<le> bytes_per_sec s \<and> bytes_per_sec s \<le> 4 * real sz"

lemma instant_bound:
  assumes "0 \<le> a" "p \<le> 1" "SPEED_WINDOW_MS \<le> dt_ms"
  shows "(p - a) * real sz / (real dt_ms / 1000) \<le> 4 * real sz"
proof -
  have dt: "1 / 4 \<le> real dt_ms / 1000" using assms(3) by (simp add: SPEED_WINDOW_MS_def)
  then have "4 * real sz * (1 / 4) \<le> 4 * real sz * (real dt_ms / 1000)" by (intro mult_left_mono) simp_all
  moreover have "(p - a) * real sz \<le> 1 * real sz" using assms by (intro mult_right_mono) simp_all
  ultimately have "(p - a) * real sz \<le> 4 * real sz * (real dt_ms / 1000)" by simp
  then show ?thesis using dt by (subst pos_divide_le_eq) simp_all
qed

lemma smoothed_bounds:
  "0 \<le> rate \<Longrightarrow> rate \<le> c \<Longrightarrow> 0 \<le> i \<Longrightarrow> i \<le> c \<Longrightarrow> 0 \<le> smoothed rate i \<and> smoothed rate i \<le> c"
  by (simp add: smoothed_def SPEED_SMOOTH_def)

lemma observe_ok:
  assumes s: "speed_ok sz s"
  shows "speed_ok sz (snd (observe s raw now_ms)) \<and> fst (observe s raw now_ms) = bytes_per_sec (snd (observe s raw now_ms))"
proof -
  define p where "p = (case raw of Some p \<Rightarrow> max 0 (min p 1) | None \<Rightarrow> 0)"
  have p: "0 \<le> p" "p \<le> 1" by (auto simp: p_def split: option.split)
  let ?i = "(p - marked_progress s) * real (ts_size s) / (real (now_ms - marked_at_ms s) / 1000)"
  have "0 \<le> smoothed (bytes_per_sec s) ?i \<and> smoothed (bytes_per_sec s) ?i \<le> 4 * real sz"
    if "marked_at_ms s < now_ms" "SPEED_WINDOW_MS \<le> now_ms - marked_at_ms s" "0 < (p - marked_progress s) * real (ts_size s)"
    using instant_bound [of "marked_progress s" p "now_ms - marked_at_ms s" sz] s p that
    by (intro smoothed_bounds) (simp_all add: speed_ok_def)
  then show ?thesis
    using s p by (simp add: observe_def Let_def p_def [symmetric] mark_def speed_ok_def not_le not_less)
qed

interpretation speed: invariant_system "speed_new sz" "\<lambda>s (raw, t). snd (observe s raw t)" "speed_ok sz" for sz
proof unfold_locales
  show "speed_ok sz (speed_new sz)" by (simp add: speed_ok_def speed_new_def)
  show "speed_ok sz s \<Longrightarrow> speed_ok sz (case e of (raw, t) \<Rightarrow> snd (observe s raw t))" for s e
    using observe_ok [of sz s] by (simp add: case_prod_beta)
qed

text \<open>
  The rate shown for a file of a given size is never negative and never above four times its size
  per second, whatever progress values and clock readings come in; the rate returned is the rate
  kept.
\<close>

theorem speed_bounded:
  "(let s = foldl (\<lambda>s (raw, t). snd (observe s raw t)) (speed_new sz) samples in
    0 \<le> bytes_per_sec s \<and> bytes_per_sec s \<le> 4 * real sz \<and>
    fst (observe s raw now_ms) = bytes_per_sec (snd (observe s raw now_ms)))"
  using speed.inv_reachable [of sz samples] observe_ok by (simp add: Let_def speed_ok_def)

end
