(* ===== verification/Handshake.thy ===== *)
theory Handshake
  imports Wire Space_Props "HOL-Library.Sublist"
begin

section \<open>Invites of a supernode and the invite handshake (\<open>handshake.rs\<close>)\<close>

text \<open>
  A supernode mints an invite, keeps its ephemeral X25519 secret under the invite's id and derives a
  session key with every joiner that answers it. X25519, HKDF, the random ids and key pairs, the base64
  engines and the JSON writer are other crates: the fields of \<open>hs_env\<close>, with the clock; the wrappers of
  either crate's \<open>crypto.rs\<close> around them are definitions. Timestamps are integers; a
  64-bit clock does not overflow by a lifetime. The file of the reusable invite is its content, \<open>None\<close>
  when it is missing or does not parse.
\<close>

record hs_env =
  hs_prims :: space_prims
  hs_to_vec :: "json \<Rightarrow> bytes"
  hs_sign :: "bytes \<Rightarrow> bytes"
  hs_dh :: "bytes \<Rightarrow> bytes \<Rightarrow> bytes"
  hs_dh_public :: "bytes \<Rightarrow> bytes"
  hs_hkdf :: "bytes \<Rightarrow> bytes \<Rightarrow> nat \<Rightarrow> bytes"
  hs_b64_encode :: "bytes \<Rightarrow> string"
  hs_no_pad_decode :: "string \<Rightarrow> bytes option"
  hs_nonce :: string
  hs_secret :: bytes
  hs_now :: int

text \<open>
  \<open>b64url_decode\<close> of the supernode appends padding and strips it again before it decodes. \<open>Hkdf::expand\<close>
  fails beyond 255 blocks of 32 bytes: the supernode's wrapper then panics and the client's returns the
  error, \<open>None\<close> in both.
\<close>

definition padded4 :: "string \<Rightarrow> string" where
  "padded4 s = (if length s mod 4 = 2 then s @ ''=='' else if length s mod 4 = 3 then s @ ''='' else s)"

definition hs_b64_decode :: "hs_env \<Rightarrow> string \<Rightarrow> bytes option" where
  "hs_b64_decode env s = hs_no_pad_decode env (trim_end_matches (CHR ''='') (padded4 s))"

definition hkdf_expand :: "hs_env \<Rightarrow> bytes \<Rightarrow> bytes \<Rightarrow> nat \<Rightarrow> bytes option" where
  "hkdf_expand env ikm info len = (if len \<le> 255 * 32 then Some (hs_hkdf env ikm info len) else None)"

definition hkdf_sha256 :: "hs_env \<Rightarrow> bytes \<Rightarrow> bytes \<Rightarrow> nat \<Rightarrow> bytes option" where
  "hkdf_sha256 env ikm info len = hkdf_expand env ikm info len"

definition hkdf_derive_key :: "hs_env \<Rightarrow> bytes \<Rightarrow> bytes \<Rightarrow> bytes option" where
  "hkdf_derive_key env ikm info = hkdf_expand env ikm info 32"

subsection \<open>Host names in URLs\<close>

text \<open>\<open>str::trim\<close>: the UTF-8 encodings of the characters with the Unicode property \<open>White_Space\<close>.\<close>

definition utf8_whitespace :: "string list" where
  "utf8_whitespace =
     [[CHR 0x09], [CHR 0x0A], [CHR 0x0B], [CHR 0x0C], [CHR 0x0D], [CHR 0x20], [CHR 0xC2, CHR 0x85],
      [CHR 0xC2, CHR 0xA0], [CHR 0xE1, CHR 0x9A, CHR 0x80], [CHR 0xE2, CHR 0x80, CHR 0x80],
      [CHR 0xE2, CHR 0x80, CHR 0x81], [CHR 0xE2, CHR 0x80, CHR 0x82], [CHR 0xE2, CHR 0x80, CHR 0x83],
      [CHR 0xE2, CHR 0x80, CHR 0x84], [CHR 0xE2, CHR 0x80, CHR 0x85], [CHR 0xE2, CHR 0x80, CHR 0x86],
      [CHR 0xE2, CHR 0x80, CHR 0x87], [CHR 0xE2, CHR 0x80, CHR 0x88], [CHR 0xE2, CHR 0x80, CHR 0x89],
      [CHR 0xE2, CHR 0x80, CHR 0x8A], [CHR 0xE2, CHR 0x80, CHR 0xA8], [CHR 0xE2, CHR 0x80, CHR 0xA9],
      [CHR 0xE2, CHR 0x80, CHR 0xAF], [CHR 0xE2, CHR 0x81, CHR 0x9F], [CHR 0xE3, CHR 0x80, CHR 0x80]]"

function trim_prefixes :: "string list \<Rightarrow> string \<Rightarrow> string" where
  "trim_prefixes ws s =
     (case find (\<lambda>w. w \<noteq> [] \<and> prefix w s) ws of
        Some w \<Rightarrow> trim_prefixes ws (drop (length w) s)
      | None \<Rightarrow> s)"
  by pat_completeness auto
termination
proof (relation "measure (length \<circ> snd)", goal_cases)
  case (2 ws s w)
  then have "w \<noteq> []" "prefix w s" by (auto simp: find_Some_iff)
  then show ?case using prefix_length_le [of w s] by (cases w; cases s) auto
qed simp

definition str_trim :: "string \<Rightarrow> string" where
  "str_trim s = rev (trim_prefixes (map rev utf8_whitespace) (rev (trim_prefixes utf8_whitespace s)))"

definition to_ascii_lowercase :: "char \<Rightarrow> char" where
  "to_ascii_lowercase c = (let n = (of_char c :: nat) in if 65 \<le> n \<and> n \<le> 90 then char_of (n + 32) else c)"

definition is_ascii_digit :: "char \<Rightarrow> bool" where
  "is_ascii_digit c \<longleftrightarrow> (let n = (of_char c :: nat) in 48 \<le> n \<and> n \<le> 57)"

definition is_ascii_alphanumeric :: "char \<Rightarrow> bool" where
  "is_ascii_alphanumeric c \<longleftrightarrow> is_ascii_digit c \<or> (let n = (of_char c :: nat) in 65 \<le> n \<and> n \<le> 90 \<or> 97 \<le> n \<and> n \<le> 122)"

fun split_at :: "(char \<Rightarrow> bool) \<Rightarrow> string \<Rightarrow> string \<Rightarrow> string list" where
  "split_at P acc [] = [acc]"
| "split_at P acc (c # cs) = (if P c then acc # split_at P [] cs else split_at P (acc @ [c]) cs)"

definition split_char :: "char \<Rightarrow> string \<Rightarrow> string list" where
  "split_char c s = split_at (\<lambda>d. d = c) [] s"

text \<open>
  \<open>parse::<IpAddr>\<close> on a name without a colon is the parser of dotted IPv4 literals; an IPv6 literal has
  a colon, and a name with a colon is refused by the next test of the same function.
\<close>

definition ipv4_octet :: "string \<Rightarrow> bool" where
  "ipv4_octet s \<longleftrightarrow> s \<noteq> [] \<and> length s \<le> 3 \<and> list_all is_ascii_digit s \<and> (s = ''0'' \<or> hd s \<noteq> CHR ''0'') \<and>
     foldl (\<lambda>n c. 10 * n + (of_char c - 48 :: nat)) 0 s \<le> 255"

definition is_ipv4_literal :: "string \<Rightarrow> bool" where
  "is_ipv4_literal s \<longleftrightarrow> length (split_char (CHR ''.'') s) = 4 \<and> list_all ipv4_octet (split_char (CHR ''.'') s)"

definition valid_label :: "string \<Rightarrow> bool" where
  "valid_label l \<longleftrightarrow> l \<noteq> [] \<and> length l \<le> 63 \<and> hd l \<noteq> CHR ''-'' \<and> last l \<noteq> CHR ''-'' \<and>
     list_all (\<lambda>c. is_ascii_alphanumeric c \<or> c = CHR ''-'') l"

definition normalize_advertised_hostname :: "string \<Rightarrow> string option" where
  "normalize_advertised_hostname raw =
     (let name = map to_ascii_lowercase (trim_end_matches (CHR ''.'') (str_trim raw)) in
      if name = [] \<or> length name > 253 \<or> is_ipv4_literal name then None
      else if CHR '':'' \<in> set name \<or> CHR ''/'' \<in> set name \<or> CHR ''@'' \<in> set name then None
      else if list_all valid_label (split_char (CHR ''.'') name) then Some name else None)"

fun split_once :: "string \<Rightarrow> string \<Rightarrow> (string \<times> string) option" where
  "split_once pat [] = (if pat = [] then Some ([], []) else None)"
| "split_once pat (c # cs) =
     (if prefix pat (c # cs) then Some ([], drop (length pat) (c # cs))
      else map_option (\<lambda>(a, b). (c # a, b)) (split_once pat cs))"

definition rsplit_once :: "char \<Rightarrow> string \<Rightarrow> (string \<times> string) option" where
  "rsplit_once c s = (if c \<in> set s
     then Some (rev (tl (dropWhile (\<lambda>d. d \<noteq> c) (rev s))), rev (takeWhile (\<lambda>d. d \<noteq> c) (rev s))) else None)"

definition ws_url_host :: "string \<Rightarrow> string option" where
  "ws_url_host url =
     (case split_once ''://'' url of None \<Rightarrow> None
      | Some (_, rest) \<Rightarrow>
          let authority = takeWhile (\<lambda>c. c \<notin> set ''/?#'') rest in
          if prefix ''['' authority then map_option fst (split_once '']'' (tl authority))
          else Some (case rsplit_once (CHR '':'') authority of Some (host, _) \<Rightarrow> host | None \<Rightarrow> authority))"

definition advertised_hostname :: "string list option \<Rightarrow> string option" where
  "advertised_hostname hints =
     (case hints of None \<Rightarrow> None
      | Some urls \<Rightarrow>
          (case List.map_filter (\<lambda>u. Option.bind (ws_url_host u) normalize_advertised_hostname) urls of
             [] \<Rightarrow> None | h # _ \<Rightarrow> Some h))"

subsection \<open>Invites\<close>

record InvitePayload =
  iv_inviter_peer_id :: string
  iv_inviter_identity_pub :: string
  iv_invite_id :: string
  iv_expires_at :: int
  iv_inviter_ephemeral_pub :: string
  iv_relay_hint :: "string option"
  iv_inviter_handle :: "string option"
  iv_udp_hole_punch_hint :: "string option"
  iv_lan_hint :: "string option"
  iv_is_supernode :: "bool option"
  iv_supernode_info :: "json list option"
  iv_supernode_relay_hints :: "string list option"
  iv_stun_hints :: "string list option"
  iv_turn_hints :: "string list option"
  iv_signature :: "string option"

definition opt_json :: "('a \<Rightarrow> json) \<Rightarrow> 'a option \<Rightarrow> json" where
  "opt_json f x = (case x of Some v \<Rightarrow> f v | None \<Rightarrow> JNull)"

definition json_strings :: "string list \<Rightarrow> json" where
  "json_strings xs = JArr (map Wire.JStr xs)"

definition invite_canonical_bytes :: "hs_env \<Rightarrow> InvitePayload \<Rightarrow> bytes" where
  "invite_canonical_bytes env p = hs_to_vec env (JObj
     [(''expires_at'', Wire.JNum (iv_expires_at p)), (''invite_id'', Wire.JStr (iv_invite_id p)),
      (''inviter_ephemeral_pub'', Wire.JStr (iv_inviter_ephemeral_pub p)),
      (''inviter_handle'', opt_json Wire.JStr (iv_inviter_handle p)),
      (''inviter_identity_pub'', Wire.JStr (iv_inviter_identity_pub p)),
      (''inviter_peer_id'', Wire.JStr (iv_inviter_peer_id p)),
      (''is_supernode'', opt_json Wire.JBool (iv_is_supernode p)), (''lan_hint'', opt_json Wire.JStr (iv_lan_hint p)),
      (''relay_hint'', opt_json Wire.JStr (iv_relay_hint p)), (''stun_hints'', opt_json json_strings (iv_stun_hints p)),
      (''supernode_info'', opt_json JArr (iv_supernode_info p)),
      (''supernode_relay_hints'', opt_json json_strings (iv_supernode_relay_hints p)),
      (''turn_hints'', opt_json json_strings (iv_turn_hints p)),
      (''udp_hole_punch_hint'', opt_json Wire.JStr (iv_udp_hole_punch_hint p))])"

definition invite_sign :: "hs_env \<Rightarrow> InvitePayload \<Rightarrow> InvitePayload" where
  "invite_sign env p = p\<lparr>iv_signature := Some (hs_b64_encode env (hs_sign env (invite_canonical_bytes env p)))\<rparr>"

definition invite_verify :: "hs_env \<Rightarrow> InvitePayload \<Rightarrow> bool" where
  "invite_verify env p =
     (case iv_signature p of None \<Rightarrow> False
      | Some sig_b64 \<Rightarrow>
          (case hs_b64_decode env sig_b64 of None \<Rightarrow> False
           | Some sig \<Rightarrow>
               (case hs_b64_decode env (iv_inviter_identity_pub p) of None \<Rightarrow> False
                | Some pk \<Rightarrow> ed25519_verify (hs_prims env) pk sig (invite_canonical_bytes env p))))"

record PendingInvite =
  pi_ephemeral_secret :: bytes
  pi_ephemeral_public :: bytes
  pi_expires_at :: int

record HandshakeManager =
  hk_public_id :: string
  hk_peer_id :: string
  hk_listener_url :: string
  hk_pending :: "(string, PendingInvite) hmap"
  hk_reusable_invite :: "InvitePayload option"
  hk_invite_ttl_seconds :: int
  hk_turn_hints :: "string list option"
  hk_hostname_hints :: "string list option"
  hk_node_title :: string

definition create_invite :: "hs_env \<Rightarrow> HandshakeManager \<Rightarrow> string option \<Rightarrow> InvitePayload \<times> HandshakeManager" where
  "create_invite env h handle =
     (let expires_at = (if hk_invite_ttl_seconds h < 0 then hs_now env + 100 * 365 * 86400 else hs_now env + hk_invite_ttl_seconds h);
          public = hs_dh_public env (hs_secret env);
          payload = invite_sign env
            \<lparr>iv_inviter_peer_id = hk_peer_id h, iv_inviter_identity_pub = hk_public_id h, iv_invite_id = hs_nonce env,
             iv_expires_at = expires_at, iv_inviter_ephemeral_pub = hs_b64_encode env public,
             iv_relay_hint = Some (hk_listener_url h), iv_inviter_handle = handle, iv_udp_hole_punch_hint = None,
             iv_lan_hint = None, iv_is_supernode = Some True, iv_supernode_info = None,
             iv_supernode_relay_hints = hk_hostname_hints h, iv_stun_hints = None, iv_turn_hints = hk_turn_hints h,
             iv_signature = None\<rparr>
      in (payload, h\<lparr>hk_pending := hm_insert (hs_nonce env)
            \<lparr>pi_ephemeral_secret = hs_secret env, pi_ephemeral_public = public, pi_expires_at = expires_at\<rparr> (hk_pending h)\<rparr>))"

definition get_or_create_reusable_invite :: "hs_env \<Rightarrow> HandshakeManager \<Rightarrow> string option \<Rightarrow> InvitePayload \<times> HandshakeManager" where
  "get_or_create_reusable_invite env h handle =
     (case hk_reusable_invite h of
        Some iv \<Rightarrow> (iv, h)
      | None \<Rightarrow> let (iv, h) = create_invite env h handle in (iv, h\<lparr>hk_reusable_invite := Some iv\<rparr>))"

definition restore_pending :: "hs_env \<Rightarrow> string \<Rightarrow> bytes \<Rightarrow> int \<Rightarrow> HandshakeManager \<Rightarrow> HandshakeManager" where
  "restore_pending env invite_id secret expires_at h =
     h\<lparr>hk_pending := hm_insert invite_id
       \<lparr>pi_ephemeral_secret = secret, pi_ephemeral_public = hs_dh_public env secret, pi_expires_at = expires_at\<rparr> (hk_pending h)\<rparr>"

text \<open>What the file holds: the invite and the encoded secret.\<close>

type_synonym invite_file = "(InvitePayload option \<times> string option) option"

definition save_reusable_invite :: "hs_env \<Rightarrow> HandshakeManager \<Rightarrow> bool \<Rightarrow> invite_file \<Rightarrow> invite_file" where
  "save_reusable_invite env h written f =
     (case hk_reusable_invite h of None \<Rightarrow> f
      | Some iv \<Rightarrow>
          (case hm_get (hk_pending h) (iv_invite_id iv) of None \<Rightarrow> f
           | Some pending \<Rightarrow>
               if written then Some (Some iv, Some (hs_b64_encode env (pi_ephemeral_secret pending))) else f))"

definition load_reusable_invite ::
  "hs_env \<Rightarrow> HandshakeManager \<Rightarrow> bool \<Rightarrow> invite_file \<Rightarrow> bool \<times> HandshakeManager \<times> invite_file" where
  "load_reusable_invite env h written f =
     (case f of
        Some (Some invite, Some secret_b64) \<Rightarrow>
          (case hs_b64_decode env secret_b64 of None \<Rightarrow> (False, h, f)
           | Some secret \<Rightarrow>
               if length secret \<noteq> 32 then (False, h, f)
               else
                 let address_matches = (iv_relay_hint invite = Some (hk_listener_url h));
                     saved_name = advertised_hostname (iv_supernode_relay_hints invite);
                     configured_name = advertised_hostname (hk_hostname_hints h);
                     name_matches = (configured_name \<noteq> None \<and> saved_name = configured_name)
                 in if \<not> address_matches \<and> \<not> name_matches then (False, h, f)
                    else
                      let h = restore_pending env (iv_invite_id invite) secret (iv_expires_at invite) h in
                      if address_matches \<and> iv_supernode_relay_hints invite = hk_hostname_hints h
                      then (True, h\<lparr>hk_reusable_invite := Some invite\<rparr>, f)
                      else
                        let updated = invite_sign env (invite\<lparr>iv_relay_hint := Some (hk_listener_url h),
                              iv_supernode_relay_hints := hk_hostname_hints h, iv_signature := None\<rparr>);
                            h = h\<lparr>hk_reusable_invite := Some updated\<rparr>
                        in (True, h, save_reusable_invite env h written f))
      | _ \<Rightarrow> (False, h, f))"

subsection \<open>The handshake\<close>

datatype handshake_error =
    MissingField string
  | UnknownInvite string
  | InviteExpired
  | NotBase64
  | KeyNot32Bytes
  | LowOrderPoint
  | HkdfPanic

record HandshakeAccept =
  ha_invite_id :: string
  ha_inviter_peer_id :: string
  ha_inviter_identity_pub :: string
  ha_inviter_listener :: string
  ha_inviter_quic_port :: nat
  ha_transcript_hash :: string
  ha_inviter_handle :: string

definition SESSION_KEY_INFO :: string where "SESSION_KEY_INFO = ''doubleslash-invite-session-v1''"

definition hs_field :: "json \<Rightarrow> string \<Rightarrow> string option" where
  "hs_field payload k = Option.bind (json_get payload k) json_as_str"

definition handshake_transcript :: "hs_env \<Rightarrow> HandshakeManager \<Rightarrow> string \<Rightarrow> PendingInvite \<Rightarrow> string \<Rightarrow> string \<Rightarrow> bytes" where
  "handshake_transcript env h invite_id pending eph_b64 joiner_pub = hs_to_vec env (JObj
     [(''invite_id'', Wire.JStr invite_id),
      (''inviter_ephemeral_pub'', Wire.JStr (hs_b64_encode env (pi_ephemeral_public pending))),
      (''inviter_identity_pub'', Wire.JStr (hk_public_id h)),
      (''joiner_ephemeral_pub'', Wire.JStr eph_b64), (''joiner_identity_pub'', Wire.JStr joiner_pub)])"

definition session_ikm :: "bytes \<Rightarrow> bytes \<Rightarrow> bytes" where
  "session_ikm shared transcript =
     be_bytes 4 (length shared) @ shared @ be_bytes 4 (length transcript) @ transcript"

definition process_init ::
  "hs_env \<Rightarrow> HandshakeManager \<Rightarrow> json \<Rightarrow> handshake_error + (HandshakeAccept \<times> bytes \<times> string)" where
  "process_init env h payload =
     (case hs_field payload ''invite_id'' of None \<Rightarrow> Inl (MissingField ''invite_id'')
      | Some invite_id \<Rightarrow>
     (case hm_get (hk_pending h) invite_id of None \<Rightarrow> Inl (UnknownInvite invite_id)
      | Some pending \<Rightarrow>
     if pi_expires_at pending < hs_now env then Inl InviteExpired
     else
     (case hs_field payload ''joiner_identity_pub'' of None \<Rightarrow> Inl (MissingField ''joiner_identity_pub'')
      | Some joiner_pub \<Rightarrow>
     (case hs_field payload ''joiner_peer_id'' of None \<Rightarrow> Inl (MissingField ''joiner_peer_id'')
      | Some _ \<Rightarrow>
     (case hs_field payload ''joiner_ephemeral_pub'' of None \<Rightarrow> Inl (MissingField ''joiner_ephemeral_pub'')
      | Some eph_b64 \<Rightarrow>
     (case hs_b64_decode env eph_b64 of None \<Rightarrow> Inl NotBase64
      | Some eph \<Rightarrow>
     if length eph \<noteq> 32 then Inl KeyNot32Bytes
     else
       let shared = hs_dh env (pi_ephemeral_secret pending) eph in
       if list_all (\<lambda>b. b = 0) shared then Inl LowOrderPoint
       else
         let transcript = handshake_transcript env h invite_id pending eph_b64 joiner_pub
         in (case hkdf_sha256 env (session_ikm shared transcript) (as_bytes SESSION_KEY_INFO) 32 of None \<Rightarrow> Inl HkdfPanic
             | Some session_key \<Rightarrow>
                 Inr (\<lparr>ha_invite_id = invite_id, ha_inviter_peer_id = hk_peer_id h, ha_inviter_identity_pub = hk_public_id h,
                  ha_inviter_listener = hk_listener_url h, ha_inviter_quic_port = 0, ha_transcript_hash = sha256_hex (hs_prims env) transcript,
                  ha_inviter_handle = hk_node_title h\<rparr>, session_key, joiner_pub))))))))"

definition INVITE_SESSION_KEY_INFO :: string where "INVITE_SESSION_KEY_INFO = ''doubleslash-invite-session-v1''"

text \<open>The joiner's side of the key agreement (\<open>crypto.rs\<close> of the client); \<open>None\<close> is its error.\<close>

definition derive_invite_session_key ::
  "hs_env \<Rightarrow> bytes \<Rightarrow> string \<Rightarrow> string \<Rightarrow> string \<Rightarrow> string \<Rightarrow> string \<Rightarrow> (bytes \<times> string) option" where
  "derive_invite_session_key env joiner_secret inviter_eph_b64 invite_id inviter_pub joiner_pub joiner_eph_b64 =
     (case b64url_decode (hs_prims env) inviter_eph_b64 of None \<Rightarrow> None
      | Some inv_eph \<Rightarrow>
          if length inv_eph \<noteq> 32 then None
          else
            let shared = hs_dh env joiner_secret inv_eph;
                transcript = hs_to_vec env (JObj
                  [(''invite_id'', Wire.JStr invite_id), (''inviter_ephemeral_pub'', Wire.JStr inviter_eph_b64),
                   (''inviter_identity_pub'', Wire.JStr inviter_pub), (''joiner_ephemeral_pub'', Wire.JStr joiner_eph_b64),
                   (''joiner_identity_pub'', Wire.JStr joiner_pub)]);
                ikm = be_bytes 4 (length shared) @ shared @ be_bytes 4 (length transcript) @ transcript
            in map_option (\<lambda>session_key. (session_key, sha256_hex (hs_prims env) transcript))
                 (hkdf_derive_key env ikm (as_bytes INVITE_SESSION_KEY_INFO)))"

subsection \<open>Key agreement\<close>

lemma create_invite_pending:
  assumes "create_invite env h handle = (iv, h')"
  shows "iv_invite_id iv = hs_nonce env" "iv_inviter_identity_pub iv = hk_public_id h"
    "iv_inviter_ephemeral_pub iv = hs_b64_encode env (hs_dh_public env (hs_secret env))"
    "hm_get (hk_pending h') (hs_nonce env) = Some \<lparr>pi_ephemeral_secret = hs_secret env,
       pi_ephemeral_public = hs_dh_public env (hs_secret env), pi_expires_at = iv_expires_at iv\<rparr>"
    "hk_public_id h' = hk_public_id h" "iv_relay_hint iv = Some (hk_listener_url h)"
    "iv_supernode_relay_hints iv = hk_hostname_hints h" "hk_listener_url h' = hk_listener_url h" "hk_hostname_hints h' = hk_hostname_hints h"
  using assms by (auto simp: create_invite_def Let_def invite_sign_def hm_get_insert)

text \<open>
  C25: the two ends of an invite agree. A supernode mints an invite; a joiner that knows it picks an
  ephemeral key and answers before the invite expires. The supernode then accepts, names that joiner,
  and both ends have derived the same session key and the same transcript hash, each with its own crate's
  code. It is assumed that X25519 commutes on the keys at hand and does not give the all-zero secret, that
  a public key has 32 bytes, and that either crate decodes what the supernode or the joiner has encoded.
\<close>

theorem handshake_keys_agree:
  assumes created: "create_invite env h handle = (iv, h')"
    and dh: "hs_dh env (hs_secret env) (hs_dh_public env js) = hs_dh env js (hs_dh_public env (hs_secret env))"
    and nonzero: "\<not> list_all (\<lambda>b. b = 0) (hs_dh env js (hs_dh_public env (hs_secret env)))"
    and sized: "length (hs_dh_public env js) = 32" "length (hs_dh_public env (hs_secret env)) = 32"
    and joiner_reads: "b64url_decode (hs_prims env) (iv_inviter_ephemeral_pub iv) = Some (hs_dh_public env (hs_secret env))"
    and node_reads: "hs_b64_decode env eph = Some (hs_dh_public env js)"
    and answer: "payload = JObj [(''invite_id'', Wire.JStr (iv_invite_id iv)), (''joiner_identity_pub'', Wire.JStr joiner),
      (''joiner_peer_id'', Wire.JStr pid), (''joiner_ephemeral_pub'', Wire.JStr eph)]"
    and in_time: "t \<le> iv_expires_at iv"
  shows "\<exists>acc key. process_init (env\<lparr>hs_now := t\<rparr>) h' payload = Inr (acc, key, joiner) \<and>
    derive_invite_session_key env js (iv_inviter_ephemeral_pub iv) (iv_invite_id iv) (iv_inviter_identity_pub iv) joiner eph
      = Some (key, ha_transcript_hash acc)"
  using dh nonzero sized joiner_reads node_reads in_time create_invite_pending [OF created]
  by (simp add: process_init_def answer hs_field_def derive_invite_session_key_def handshake_transcript_def session_ikm_def
      SESSION_KEY_INFO_def INVITE_SESSION_KEY_INFO_def hs_b64_decode_def hkdf_sha256_def hkdf_derive_key_def hkdf_expand_def Let_def)

subsection \<open>The reusable invite over a restart\<close>

lemma load_saved:
  assumes saved: "f = Some (Some iv, Some (hs_b64_encode env secret))"
    and codec: "hs_b64_decode env (hs_b64_encode env secret) = Some secret" "length secret = 32"
    and loaded: "load_reusable_invite env h w f = (ok, h', f')"
  shows "ok \<longleftrightarrow> iv_relay_hint iv = Some (hk_listener_url h) \<or>
      advertised_hostname (hk_hostname_hints h) \<noteq> None \<and> advertised_hostname (iv_supernode_relay_hints iv) = advertised_hostname (hk_hostname_hints h)"
    "\<not> ok \<Longrightarrow> h' = h \<and> f' = f"
    "ok \<Longrightarrow> hm_get (hk_pending h') (iv_invite_id iv) =
       Some \<lparr>pi_ephemeral_secret = secret, pi_ephemeral_public = hs_dh_public env secret, pi_expires_at = iv_expires_at iv\<rparr>"
    "ok \<Longrightarrow> hk_reusable_invite h' = Some (
       if iv_relay_hint iv = Some (hk_listener_url h) \<and> iv_supernode_relay_hints iv = hk_hostname_hints h then iv
       else invite_sign env (iv\<lparr>iv_relay_hint := Some (hk_listener_url h), iv_supernode_relay_hints := hk_hostname_hints h, iv_signature := None\<rparr>))"
  using loaded by (auto simp: saved load_reusable_invite_def codec restore_pending_def Let_def hm_get_insert split: if_splits)

lemma invite_sign_verify:
  assumes "hs_b64_decode env (hs_b64_encode env (hs_sign env (invite_canonical_bytes env p))) = Some (hs_sign env (invite_canonical_bytes env p))"
    and "hs_b64_decode env (iv_inviter_identity_pub p) = Some pk"
    and "ed25519_verify (hs_prims env) pk (hs_sign env (invite_canonical_bytes env p)) (invite_canonical_bytes env p)"
  shows "invite_verify env (invite_sign env p)"
proof -
  have "invite_canonical_bytes env (invite_sign env p) = invite_canonical_bytes env p"
    by (simp add: invite_canonical_bytes_def invite_sign_def)
  then show ?thesis using assms by (simp add: invite_verify_def invite_sign_def)
qed

text \<open>
  The operator's invite survives a restart exactly when it can still be used. A supernode mints its
  reusable invite and saves it, and a supernode with the same key and any address and host name starts
  from the file. The invite is restored exactly when the address is unchanged or both name the same host;
  then the restored supernode knows the invite id with the same secret and expiry, and the link it shows
  is the saved one when nothing changed and otherwise the same id at the new address with a signature
  that verifies. If it is not restored, nothing is changed.
\<close>

theorem reusable_invite_restart:
  assumes created: "get_or_create_reusable_invite env h0 handle = (iv, h)" "hk_reusable_invite h0 = None"
    and codec: "\<And>x. hs_b64_decode env (hs_b64_encode env x) = Some x" "length (hs_secret env) = 32"
    and identity: "hs_b64_decode env (hk_public_id h0) = Some pk" "\<And>d. ed25519_verify (hs_prims env) pk (hs_sign env d) d"
    and restarted: "load_reusable_invite env h1 w (save_reusable_invite env h True f0) = (ok, h2, f)"
  shows "(if hk_listener_url h1 = hk_listener_url h0 \<or>
             advertised_hostname (hk_hostname_hints h1) \<noteq> None \<and> advertised_hostname (hk_hostname_hints h0) = advertised_hostname (hk_hostname_hints h1)
          then ok \<and> hm_get (hk_pending h2) (iv_invite_id iv) = hm_get (hk_pending h) (iv_invite_id iv) \<and>
            (\<exists>link. hk_reusable_invite h2 = Some link \<and> iv_invite_id link = iv_invite_id iv \<and> iv_relay_hint link = Some (hk_listener_url h1) \<and>
               invite_verify env link \<and>
               (if hk_listener_url h1 = hk_listener_url h0 \<and> hk_hostname_hints h1 = hk_hostname_hints h0 then link = iv else True))
          else \<not> ok \<and> h2 = h1)"
proof -
  obtain h' where c: "create_invite env h0 handle = (iv, h')" and h: "h = h'\<lparr>hk_reusable_invite := Some iv\<rparr>"
    using created by (auto simp: get_or_create_reusable_invite_def split: prod.splits)
  note p = create_invite_pending [OF c]
  have saved: "save_reusable_invite env h True f0 = Some (Some iv, Some (hs_b64_encode env (hs_secret env)))"
    using p by (simp add: save_reusable_invite_def h)
  have load: "load_reusable_invite env h1 w (Some (Some iv, Some (hs_b64_encode env (hs_secret env)))) = (ok, h2, f)"
    using restarted by (simp add: saved)
  note l = load_saved [OF refl codec load]
  have verifies: "invite_verify env (invite_sign env q)" if "iv_inviter_identity_pub q = hk_public_id h0" for q
    using codec(1) identity that by (intro invite_sign_verify) auto
  have iv: "invite_verify env iv" using c verifies by (auto simp: create_invite_def Let_def)
  have moved: "invite_verify env (invite_sign env (iv\<lparr>iv_relay_hint := x, iv_supernode_relay_hints := y, iv_signature := None\<rparr>))" for x y
    using p by (intro verifies) simp
  show ?thesis using l p iv moved by (auto simp: h invite_sign_def)
qed

subsection \<open>A small handshake\<close>

text \<open>
  Stand-ins for the other crates: bytewise addition for X25519, a constant signature, and as codec the
  bytes themselves with a dot behind those that end in a dot or in the padding character.
\<close>

definition dot_encode :: "bytes \<Rightarrow> string" where
  "dot_encode bs = (let s = string_of_bytes bs in if s \<noteq> [] \<and> last s \<in> {CHR ''.'', CHR ''=''} then s @ ''.'' else s)"

definition dot_decode :: "string \<Rightarrow> bytes option" where
  "dot_decode s = Some (as_bytes (if s \<noteq> [] \<and> last s = CHR ''.'' then butlast s else s))"

definition small_env :: hs_env where
  "small_env = \<lparr>hs_prims = toy_prims, hs_to_vec = (\<lambda>_. []), hs_sign = (\<lambda>_. replicate 64 1), hs_dh = map2 (+), hs_dh_public = id,
     hs_hkdf = (\<lambda>ikm _ _. ikm), hs_b64_encode = dot_encode, hs_no_pad_decode = dot_decode, hs_nonce = ''n1'',
     hs_secret = replicate 32 5, hs_now = 100\<rparr>"

definition small_node :: "string \<Rightarrow> string list option \<Rightarrow> HandshakeManager" where
  "small_node url hints = \<lparr>hk_public_id = replicate 32 (CHR ''K''), hk_peer_id = ''pid'', hk_listener_url = url, hk_pending = [],
     hk_reusable_invite = None, hk_invite_ttl_seconds = 60, hk_turn_hints = None, hk_hostname_hints = hints, hk_node_title = ''Node''\<rparr>"

definition small_answer :: json where
  "small_answer = JObj [(''invite_id'', Wire.JStr ''n1''), (''joiner_identity_pub'', Wire.JStr ''alice''),
     (''joiner_peer_id'', Wire.JStr ''p''), (''joiner_ephemeral_pub'', Wire.JStr (string_of_bytes (replicate 32 7)))]"

lemma small_fields [simp]:
  "hs_prims small_env = toy_prims" "hs_dh small_env = map2 (+)" "hs_dh_public small_env = id" "hs_nonce small_env = ''n1''"
  "hs_secret small_env = replicate 32 5" "hs_b64_encode small_env = dot_encode" "hs_no_pad_decode small_env = dot_decode"
  "hs_sign small_env d = replicate 64 1" "hk_public_id (small_node url hints) = replicate 32 (CHR ''K'')"
  "hk_listener_url (small_node url hints) = url" "hk_hostname_hints (small_node url hints) = hints" "hk_reusable_invite (small_node url hints) = None"
  by (simp_all add: small_env_def small_node_def)

lemma trim_padded4: "trim_end_matches (CHR ''='') (padded4 s) = trim_end_matches (CHR ''='') s"
  using trim_end_matches_snoc [of "CHR ''=''" "s @ ''=''"] by (simp add: padded4_def)

lemma trim_end_other: "s = [] \<or> last s \<noteq> c \<Longrightarrow> trim_end_matches c s = s"
  by (cases s rule: rev_cases) (auto simp: trim_end_matches_def)

lemma small_decode [simp]: "s = [] \<or> last s \<notin> {CHR ''='', CHR ''.''} \<Longrightarrow> hs_b64_decode small_env s = Some (as_bytes s)"
  by (auto simp: hs_b64_decode_def trim_padded4 trim_end_other dot_decode_def)

lemma small_codec [simp]: "hs_b64_decode small_env (dot_encode x) = Some x"
  by (auto simp: hs_b64_decode_def trim_padded4 trim_end_other dot_decode_def dot_encode_def Let_def) (simp_all add: as_bytes_def)

lemma small_key [simp]: "dot_encode (replicate 32 5) = string_of_bytes (replicate 32 5)" by code_simp

lemma small_signature [simp]: "dot_encode (replicate 64 1) = string_of_bytes (replicate 64 1)" by code_simp

lemma small_joiner_key [simp]: "hs_b64_decode small_env (string_of_bytes (replicate 32 7)) = Some (replicate 32 7)" by code_simp

theorem handshake_keys_agree_witness:
  "\<exists>acc key. process_init (small_env\<lparr>hs_now := 160\<rparr>) (snd (create_invite small_env (small_node ''ws://a'' None) None)) small_answer
      = Inr (acc, key, ''alice'') \<and>
    derive_invite_session_key small_env (replicate 32 7) (string_of_bytes (replicate 32 5)) ''n1'' (replicate 32 (CHR ''K'')) ''alice''
      (string_of_bytes (replicate 32 7)) = Some (key, ha_transcript_hash acc)"
proof -
  have [simp]: "iv_invite_id (fst (create_invite small_env h x)) = ''n1''" "iv_inviter_identity_pub (fst (create_invite small_env h x)) = hk_public_id h"
    "iv_inviter_ephemeral_pub (fst (create_invite small_env h x)) = string_of_bytes (replicate 32 5)" for h x
    using create_invite_pending [OF prod.collapse [symmetric], of small_env h x] by simp_all
  have "iv_expires_at (fst (create_invite small_env (small_node ''ws://a'' None) None)) = 160"
    by (simp add: create_invite_def Let_def invite_sign_def small_env_def small_node_def)
  then show ?thesis
    using handshake_keys_agree [where env = small_env and h = "small_node ''ws://a'' None" and js = "replicate 32 7" and t = 160 and handle = None
        and eph = "string_of_bytes (replicate 32 7)" and joiner = "''alice''" and pid = "''p''" and payload = small_answer, OF prod.collapse [symmetric]]
    by (simp add: small_answer_def b64url_decode_def map_replicate list_all_iff)
qed

text \<open>The supernode moves to another address, and its host name finds the saved invite.\<close>

theorem reusable_invite_restart_witness:
  "let (iv, h) = get_or_create_reusable_invite small_env (small_node ''ws://10.0.0.1:1'' (Some [''ws://node.example:1''])) None;
       (ok, h2, f) = load_reusable_invite small_env (small_node ''ws://10.0.0.2:1'' (Some [''ws://Node.example:9''])) True (save_reusable_invite small_env h True None)
   in ok \<and> (\<exists>link. hk_reusable_invite h2 = Some link \<and> iv_invite_id link = ''n1'' \<and> iv_relay_hint link = Some ''ws://10.0.0.2:1'')"
proof -
  let ?h0 = "small_node ''ws://10.0.0.1:1'' (Some [''ws://node.example:1''])" and ?h1 = "small_node ''ws://10.0.0.2:1'' (Some [''ws://Node.example:9''])"
  have host: "advertised_hostname (Some [''ws://node.example:1'']) = Some ''node.example''"
    "advertised_hostname (Some [''ws://Node.example:9'']) = Some ''node.example''" by code_simp+
  obtain iv h where c: "get_or_create_reusable_invite small_env ?h0 None = (iv, h)" by (cases "get_or_create_reusable_invite small_env ?h0 None")
  obtain ok h2 f where l: "load_reusable_invite small_env ?h1 True (save_reusable_invite small_env h True None) = (ok, h2, f)"
    by (cases "load_reusable_invite small_env ?h1 True (save_reusable_invite small_env h True None)")
  have "iv_invite_id iv = ''n1''" using c by (auto simp: get_or_create_reusable_invite_def create_invite_def invite_sign_def small_env_def small_node_def Let_def)
  moreover have "length (as_bytes (replicate 32 (CHR ''K''))) = 32" by simp
  ultimately show ?thesis
    using reusable_invite_restart [OF c, of "as_bytes (replicate 32 (CHR ''K''))", OF _ _ _ _ _ l] c l host
    by (auto simp: ed25519_verify_def)
qed

end
