(* ===== verification/Cluster.thy ===== *)
theory Cluster
  imports Handshake "HOL-Library.Multiset"
begin

section \<open>Cluster membership and its signed descriptor (\<open>cluster.rs\<close>)\<close>

text \<open>
  The operator's list of the supernodes of a cluster, the queries on it, and the descriptor a member signs
  for its clients. The signer's key and the codecs are arguments, as in \<open>Space\<close>.
\<close>

record ClusterMember =
  cm_identity_pub :: string
  cm_relay_addr :: string
  cm_cluster_addr :: "string option"
  cm_ws_addr :: "string option"

definition normalized_id :: "ClusterMember \<Rightarrow> string" where
  "normalized_id m = trim_end_matches (CHR ''='') (cm_identity_pub m)"

definition norm_id :: "string \<Rightarrow> string" where
  "norm_id i = trim_end_matches (CHR ''='') i"

record ClusterConfig =
  cc_cluster_id :: string
  cc_members :: "ClusterMember list"

datatype cluster_error = EmptyClusterId | EmptyRelayAddr string | DuplicateMember string | SelfNotListed

definition cluster_contains :: "ClusterConfig \<Rightarrow> string \<Rightarrow> bool" where
  "cluster_contains c identity_pub = list_ex (\<lambda>m. normalized_id m = norm_id identity_pub) (cc_members c)"

fun check_members :: "ClusterMember list \<Rightarrow> string list \<Rightarrow> cluster_error option" where
  "check_members [] seen = None"
| "check_members (m # ms) seen =
     (if str_trim (cm_relay_addr m) = [] then Some (EmptyRelayAddr (cm_identity_pub m))
      else if normalized_id m \<in> set seen then Some (DuplicateMember (cm_identity_pub m))
      else check_members ms (normalized_id m # seen))"

definition cluster_validate :: "ClusterConfig \<Rightarrow> string \<Rightarrow> cluster_error + unit" where
  "cluster_validate c self_identity_pub =
     (if str_trim (cc_cluster_id c) = [] then Inl EmptyClusterId
      else case check_members (cc_members c) [] of
        Some e \<Rightarrow> Inl e
      | None \<Rightarrow> if cc_members c \<noteq> [] \<and> \<not> cluster_contains c self_identity_pub then Inl SelfNotListed else Inr ())"

record ClusterMembership =
  cs_config :: ClusterConfig
  cs_self_id :: string

definition membership_new :: "ClusterConfig \<Rightarrow> string \<Rightarrow> ClusterMembership" where
  "membership_new c self_identity_pub = \<lparr>cs_config = c, cs_self_id = norm_id self_identity_pub\<rparr>"

definition member_count :: "ClusterMembership \<Rightarrow> nat" where
  "member_count s = length (cc_members (cs_config s))"

definition is_member :: "ClusterMembership \<Rightarrow> string \<Rightarrow> bool" where
  "is_member s identity_pub = cluster_contains (cs_config s) identity_pub"

definition is_peer_member :: "ClusterMembership \<Rightarrow> string \<Rightarrow> bool" where
  "is_peer_member s identity_pub =
     (let i = norm_id identity_pub in i \<noteq> cs_self_id s \<and> cluster_contains (cs_config s) i)"

definition cluster_peers :: "ClusterMembership \<Rightarrow> ClusterMember list" where
  "cluster_peers s = filter (\<lambda>m. normalized_id m \<noteq> cs_self_id s) (cc_members (cs_config s))"

definition self_member :: "ClusterMembership \<Rightarrow> ClusterMember option" where
  "self_member s = find (\<lambda>m. normalized_id m = cs_self_id s) (cc_members (cs_config s))"

definition roster_canonical_bytes :: "ClusterMembership \<Rightarrow> bytes" where
  "roster_canonical_bytes s =
     as_bytes ''doubleslash-cluster-v1|'' @ as_bytes (cc_cluster_id (cs_config s)) @
     concat (map (\<lambda>i. as_bytes ''|'' @ as_bytes i) (sort (map normalized_id (cc_members (cs_config s)))))"

record SignedClusterDescriptor =
  sd_cluster_id :: string
  sd_members :: "ClusterMember list"
  sd_signer :: string
  sd_signature :: string

definition cluster_sign :: "hs_env \<Rightarrow> string \<Rightarrow> ClusterMembership \<Rightarrow> SignedClusterDescriptor" where
  "cluster_sign env public_id s =
     \<lparr>sd_cluster_id = cc_cluster_id (cs_config s), sd_members = cc_members (cs_config s), sd_signer = public_id,
      sd_signature = hs_b64_encode env (hs_sign env (roster_canonical_bytes s))\<rparr>"

definition descriptor_verify :: "hs_env \<Rightarrow> SignedClusterDescriptor \<Rightarrow> bool" where
  "descriptor_verify env d =
     (let membership = membership_new \<lparr>cc_cluster_id = sd_cluster_id d, cc_members = sd_members d\<rparr> (sd_signer d) in
      case (hs_b64_decode env (sd_signer d), hs_b64_decode env (sd_signature d)) of
        (Some pk, Some sig) \<Rightarrow> ed25519_verify (hs_prims env) pk sig (roster_canonical_bytes membership)
      | _ \<Rightarrow> False)"

subsection \<open>A validated configuration\<close>

lemma check_members_None:
  "check_members ms seen = None \<longleftrightarrow>
     distinct (map normalized_id ms) \<and> set (map normalized_id ms) \<inter> set seen = {} \<and> list_all (\<lambda>m. str_trim (cm_relay_addr m) \<noteq> []) ms"
  by (induction ms arbitrary: seen) auto

lemma norm_id_idem [simp]: "norm_id (norm_id i) = norm_id i"
  by (simp add: norm_id_def)

text \<open>
  A validated cluster configuration is a set of nodes with this node in it. When the operator's
  configuration passes validation and lists any member, no identity is listed twice in any spelling, this
  node is found as itself and is not its own peer, the peers it will dial are exactly the other members,
  and membership does not depend on how a key is padded.
\<close>

theorem validated_cluster:
  assumes valid: "cluster_validate c self = Inr ()" and listed: "cc_members c \<noteq> []"
    and s: "s = membership_new c self"
  shows "distinct (map normalized_id (cc_members c)) \<and> map_option normalized_id (self_member s) = Some (norm_id self) \<and>
    \<not> is_peer_member s self \<and> length (cluster_peers s) = member_count s - 1 \<and>
    is_peer_member s p = (norm_id p \<in> normalized_id ` set (cluster_peers s)) \<and> is_member s (norm_id p) = is_member s p"
proof -
  have d: "distinct (map normalized_id (cc_members c))" and self: "norm_id self \<in> normalized_id ` set (cc_members c)"
    using valid listed by (auto simp: cluster_validate_def check_members_None cluster_contains_def list_ex_iff split: if_splits option.splits)
      (metis imageI)
  have found: "map_option normalized_id (self_member s) = Some (norm_id self)"
  proof (cases "self_member s")
    case None
    then show ?thesis using self by (auto simp: self_member_def s membership_new_def find_None_iff)
  next
    case (Some m)
    then show ?thesis by (auto simp: self_member_def s membership_new_def find_Some_iff)
  qed
  have "length (filter (\<lambda>m. normalized_id m \<noteq> norm_id self) ms) = length ms - 1"
    if "distinct (map normalized_id ms)" "norm_id self \<in> normalized_id ` set ms" for ms
    using that
  proof (induction ms)
    case (Cons m ms)
    show ?case
    proof (cases "normalized_id m = norm_id self")
      case True
      then have "filter (\<lambda>m. normalized_id m \<noteq> norm_id self) ms = ms" using Cons.prems(1) by (auto simp: filter_id_conv) (metis imageI)
      then show ?thesis using True by simp
    next
      case False
      then show ?thesis using Cons by (cases ms) auto
    qed
  qed simp
  then have "length (cluster_peers s) = member_count s - 1"
    using d self by (simp add: cluster_peers_def member_count_def s membership_new_def)
  moreover have "is_peer_member s p \<longleftrightarrow> norm_id p \<in> normalized_id ` set (cluster_peers s)"
    by (force simp: is_peer_member_def cluster_contains_def list_ex_iff cluster_peers_def s membership_new_def Let_def)
  ultimately show ?thesis using d found
    by (simp add: is_peer_member_def is_member_def cluster_contains_def s membership_new_def Let_def)
qed

subsection \<open>The descriptor\<close>

lemma roster_bytes_perm:
  "cc_cluster_id (cs_config s) = cc_cluster_id (cs_config t) \<Longrightarrow>
   mset (map normalized_id (cc_members (cs_config s))) = mset (map normalized_id (cc_members (cs_config t))) \<Longrightarrow>
   roster_canonical_bytes s = roster_canonical_bytes t"
  using properties_for_sort [of "sort (map normalized_id (cc_members (cs_config t)))" "map normalized_id (cc_members (cs_config s))"]
  by (simp add: roster_canonical_bytes_def)

text \<open>
  A member's descriptor verifies, in any order of the members, and with any addresses. The signature
  that a member puts on its roster verifies for every descriptor with the same cluster id, the same signer
  and the same identities in whatever order; it verifies as well when the relay, cluster and signalling
  addresses of the members are replaced at will, since only the identities are signed.
\<close>

theorem descriptor_binds_identities_only:
  assumes keys: "hs_b64_decode env signer = Some pk" "\<And>x. hs_b64_decode env (hs_b64_encode env x) = Some x"
    "\<And>d. ed25519_verify (hs_prims env) pk (hs_sign env d) d"
    and same: "mset (map normalized_id ms) = mset (map normalized_id (cc_members c))"
  shows "descriptor_verify env ((cluster_sign env signer (membership_new c self))\<lparr>sd_members := ms\<rparr>)"
proof -
  have "roster_canonical_bytes (membership_new \<lparr>cc_cluster_id = cc_cluster_id c, cc_members = ms\<rparr> signer) = roster_canonical_bytes (membership_new c self)"
    using same by (intro roster_bytes_perm) (simp_all add: membership_new_def)
  then show ?thesis using keys by (simp add: descriptor_verify_def cluster_sign_def Let_def membership_new_def)
qed

definition two_nodes :: ClusterConfig where
  "two_nodes = \<lparr>cc_cluster_id = ''c'', cc_members =
     [\<lparr>cm_identity_pub = replicate 32 (CHR ''K''), cm_relay_addr = ''a:1'', cm_cluster_addr = None, cm_ws_addr = None\<rparr>,
      \<lparr>cm_identity_pub = ''B='', cm_relay_addr = ''b:1'', cm_cluster_addr = None, cm_ws_addr = None\<rparr>]\<rparr>"

theorem validated_cluster_witness:
  "cluster_validate two_nodes ''B'' = Inr () \<and> map_option normalized_id (self_member (membership_new two_nodes ''B'')) = Some ''B'' \<and>
   \<not> is_peer_member (membership_new two_nodes ''B'') ''B'' \<and> length (cluster_peers (membership_new two_nodes ''B'')) = 1"
proof -
  have v: "cluster_validate two_nodes ''B'' = Inr ()" "norm_id ''B'' = ''B''" "member_count (membership_new two_nodes ''B'') = 2" by code_simp+
  have "cc_members two_nodes \<noteq> []" by (simp add: two_nodes_def)
  from validated_cluster [OF v(1) this refl, of "''B''"] v show ?thesis by simp
qed

text \<open>The address of the second node is replaced by an attacker's.\<close>

theorem descriptor_binds_identities_only_witness:
  "let d = cluster_sign small_env (replicate 32 (CHR ''K'')) (membership_new two_nodes ''B'')
   in descriptor_verify small_env (d\<lparr>sd_members := map (\<lambda>m. m\<lparr>cm_relay_addr := ''evil:1''\<rparr>) (sd_members d)\<rparr>)"
  using descriptor_binds_identities_only [where env = small_env and signer = "replicate 32 (CHR ''K'')" and pk = "as_bytes (replicate 32 (CHR ''K''))"
      and c = two_nodes and self = "''B''" and ms = "map (\<lambda>m. m\<lparr>cm_relay_addr := ''evil:1''\<rparr>) (cc_members two_nodes)"]
  by (simp add: ed25519_verify_def cluster_sign_def membership_new_def comp_def normalized_id_def [abs_def])

end
