(* ===== verification/Cluster_Link.thy ===== *)
theory Cluster_Link
  imports Cluster
begin

section \<open>The link between the members of a cluster (\<open>cluster_link.rs\<close>)\<close>

text \<open>
  Signed messages on length-prefixed streams, the table of who subscribes to which room, and the bounded
  cache that drops a replicated frame seen before. A link is the pair of a member and the number of its
  outbound channel; what an operation writes to a channel is a list of (channel, frame) pairs. The QUIC
  connection is a list of bytes that ends when the peer closes it; the two codecs of \<open>serde_json\<close> are
  fields of \<open>link_env\<close>, and the four callbacks are events of \<open>link_event\<close>. A write to a stream or to a
  channel is taken to succeed.
\<close>

record RoomDescriptor =
  rd_room_id :: string
  rd_room_name :: string
  rd_room_type :: string
  rd_creator_id :: string
  rd_invite_policy :: string

record PeerAuthDescriptor =
  pa_identity_pub :: string
  pa_handle :: string
  pa_direct_invite :: bool
  pa_access_granted :: bool

datatype ClusterMsgKind =
    ClusterHello string
  | Subscriptions "string list"
  | Replicate string string string
  | RoomRoster "RoomDescriptor list"
  | PeerAuth PeerAuthDescriptor
  | PeerAuthRoster "PeerAuthDescriptor list"
  | VersionInfo string string string
  | SpaceRoot SignedSpaceRoot

record ClusterMsg =
  msg_kind :: ClusterMsgKind
  msg_sender :: string
  msg_signature :: string

record link_env =
  le_hs :: hs_env
  le_public_id :: string
  le_kind_json :: "ClusterMsgKind \<Rightarrow> bytes"
  le_msg_json :: "ClusterMsg \<Rightarrow> bytes"
  le_parse :: "bytes \<Rightarrow> ClusterMsg option"
  le_version :: string
  le_build_id :: string
  le_source_hash :: string

definition MAX_FRAME_BYTES :: nat where "MAX_FRAME_BYTES = 8 * 1024 * 1024"

subsection \<open>Signed messages\<close>

definition msg_signing_bytes :: "link_env \<Rightarrow> ClusterMsgKind \<Rightarrow> string \<Rightarrow> bytes" where
  "msg_signing_bytes env kind sender =
     as_bytes ''doubleslash-cluster-msg-v1|'' @ as_bytes sender @ as_bytes ''|'' @ le_kind_json env kind"

definition msg_signed :: "link_env \<Rightarrow> ClusterMsgKind \<Rightarrow> ClusterMsg" where
  "msg_signed env kind =
     \<lparr>msg_kind = kind, msg_sender = le_public_id env,
      msg_signature = hs_b64_encode (le_hs env) (hs_sign (le_hs env) (msg_signing_bytes env kind (le_public_id env)))\<rparr>"

definition msg_verify :: "link_env \<Rightarrow> ClusterMsg \<Rightarrow> bool" where
  "msg_verify env msg =
     (case (hs_b64_decode (le_hs env) (msg_sender msg), hs_b64_decode (le_hs env) (msg_signature msg)) of
        (Some pk, Some sig) \<Rightarrow>
          ed25519_verify (hs_prims (le_hs env)) pk sig (msg_signing_bytes env (msg_kind msg) (msg_sender msg))
      | _ \<Rightarrow> False)"

definition msg_encode_frame :: "link_env \<Rightarrow> ClusterMsg \<Rightarrow> bytes" where
  "msg_encode_frame env msg = (let js = le_msg_json env msg in be_bytes 4 (length js mod 2 ^ 32) @ js)"

definition signed_frame :: "link_env \<Rightarrow> ClusterMsgKind \<Rightarrow> bytes" where
  "signed_frame env kind = msg_encode_frame env (msg_signed env kind)"

subsection \<open>The cache of seen ids\<close>

record SeenCache =
  sc_set :: "string list"
  sc_order :: "string list"
  sc_cap :: nat

definition seen_new :: "nat \<Rightarrow> SeenCache" where
  "seen_new c = \<lparr>sc_set = [], sc_order = [], sc_cap = c\<rparr>"

definition insert_new :: "SeenCache \<Rightarrow> string \<Rightarrow> bool \<times> SeenCache" where
  "insert_new c i =
     (if i = [] then (True, c)
      else if i \<in> set (sc_set c) then (False, c)
      else
        let c = c\<lparr>sc_set := hs_insert i (sc_set c), sc_order := sc_order c @ [i]\<rparr> in
        (True,
         if length (sc_order c) > sc_cap c
         then (case sc_order c of [] \<Rightarrow> c | old # rest \<Rightarrow> c\<lparr>sc_order := rest, sc_set := hs_remove old (sc_set c)\<rparr>)
         else c))"

subsection \<open>The links\<close>

record PeerLink =
  pl_tx :: nat
  pl_version :: "string option"
  pl_source_hash :: "string option"

record LinkState =
  lk_peers :: "(string, PeerLink) hmap"
  lk_remote_subs :: "(string, string list) hmap"

definition link_new :: LinkState where
  "link_new = \<lparr>lk_peers = [], lk_remote_subs = []\<rparr>"

definition members_for_room :: "LinkState \<Rightarrow> string \<Rightarrow> string list" where
  "members_for_room st rid = map fst (filter (\<lambda>(_, rooms). rid \<in> set rooms) (lk_remote_subs st))"

type_synonym sent = "(nat \<times> bytes) list"

definition link_replicate :: "link_env \<Rightarrow> LinkState \<Rightarrow> string \<Rightarrow> string \<Rightarrow> string \<Rightarrow> sent" where
  "link_replicate env st rid message_id raw =
     (let targets = members_for_room st rid in
      if targets = [] then []
      else
        let frame = signed_frame env (Replicate rid message_id raw)
        in List.map_filter (\<lambda>member. map_option (\<lambda>link. (pl_tx link, frame)) (hm_get (lk_peers st) member)) targets)"

definition send_to_all_peers :: "LinkState \<Rightarrow> bytes \<Rightarrow> sent" where
  "send_to_all_peers st frame = map (\<lambda>link. (pl_tx link, frame)) (hm_values (lk_peers st))"

definition link_replicate_peer_auth :: "link_env \<Rightarrow> LinkState \<Rightarrow> string \<Rightarrow> string \<Rightarrow> bool \<Rightarrow> bool \<Rightarrow> sent" where
  "link_replicate_peer_auth env st identity_pub handle direct_invite access_granted =
     send_to_all_peers st (signed_frame env (PeerAuth \<lparr>pa_identity_pub = identity_pub, pa_handle = handle,
       pa_direct_invite = direct_invite, pa_access_granted = access_granted\<rparr>))"

definition link_replicate_space_root :: "link_env \<Rightarrow> LinkState \<Rightarrow> SignedSpaceRoot \<Rightarrow> sent" where
  "link_replicate_space_root env st r = send_to_all_peers st (signed_frame env (SpaceRoot r))"

definition connected_peer_ids :: "LinkState \<Rightarrow> string list" where
  "connected_peer_ids st = hm_keys (lk_peers st)"

definition peer_versions :: "LinkState \<Rightarrow> (string, string option \<times> string option) hmap" where
  "peer_versions st = map (\<lambda>(i, p). (i, pl_version p, pl_source_hash p)) (lk_peers st)"

definition broadcast_subscriptions :: "link_env \<Rightarrow> LinkState \<Rightarrow> string list \<Rightarrow> sent" where
  "broadcast_subscriptions env st rooms = send_to_all_peers st (signed_frame env (Subscriptions rooms))"

definition broadcast_room_roster :: "link_env \<Rightarrow> LinkState \<Rightarrow> RoomDescriptor list \<Rightarrow> sent" where
  "broadcast_room_roster env st rooms =
     (if rooms = [] then [] else send_to_all_peers st (signed_frame env (RoomRoster rooms)))"

definition broadcast_peer_auth_roster :: "link_env \<Rightarrow> LinkState \<Rightarrow> PeerAuthDescriptor list \<Rightarrow> sent" where
  "broadcast_peer_auth_roster env st ps =
     (if ps = [] then [] else send_to_all_peers st (signed_frame env (PeerAuthRoster ps)))"

text \<open>What the node holds when a link comes up or the refresh fires: the results of the four \<open>local_*\<close> closures.\<close>

record link_sources =
  ls_rooms :: "string list"
  ls_roster :: "RoomDescriptor list"
  ls_roots :: "SignedSpaceRoot list"
  ls_auth :: "PeerAuthDescriptor list"

definition refresh_tick :: "link_env \<Rightarrow> LinkState \<Rightarrow> link_sources \<Rightarrow> sent" where
  "refresh_tick env st src =
     broadcast_subscriptions env st (ls_rooms src) @ broadcast_room_roster env st (ls_roster src) @
     broadcast_peer_auth_roster env st (ls_auth src) @
     concat (map (link_replicate_space_root env st) (ls_roots src))"

text \<open>
  \<open>run_link\<close> in two steps: registering the channel with what it writes first (\<open>None\<close> sources are those of a
  node that has not called \<open>start\<close>), and the teardown after the reader has ended.
\<close>

definition greeting :: "link_env \<Rightarrow> ClusterMembership \<Rightarrow> link_sources option \<Rightarrow> ClusterMsgKind list" where
  "greeting env ms src =
     [ClusterHello (cc_cluster_id (cs_config ms)), VersionInfo (le_version env) (le_build_id env) (le_source_hash env)] @
     (case src of None \<Rightarrow> []
      | Some l \<Rightarrow> [Subscriptions (ls_rooms l)] @ (if ls_roster l = [] then [] else [RoomRoster (ls_roster l)]) @
                 map SpaceRoot (ls_roots l) @ (if ls_auth l = [] then [] else [PeerAuthRoster (ls_auth l)]))"

definition run_link_open ::
  "link_env \<Rightarrow> ClusterMembership \<Rightarrow> link_sources option \<Rightarrow> string \<Rightarrow> nat \<Rightarrow> LinkState \<Rightarrow> bytes list \<times> LinkState" where
  "run_link_open env ms src member tx st =
     (map (signed_frame env) (greeting env ms src),
      st\<lparr>lk_peers := hm_insert member \<lparr>pl_tx = tx, pl_version = None, pl_source_hash = None\<rparr> (lk_peers st)\<rparr>)"

definition run_link_close :: "string \<Rightarrow> LinkState \<Rightarrow> LinkState" where
  "run_link_close member st =
     st\<lparr>lk_peers := hm_remove member (lk_peers st), lk_remote_subs := hm_remove member (lk_remote_subs st)\<rparr>"

definition handle_incoming :: "ClusterMembership \<Rightarrow> string \<Rightarrow> string option" where
  "handle_incoming ms peer_id =
     (let peer_id = trim_end_matches (CHR ''='') peer_id in if is_peer_member ms peer_id then Some peer_id else None)"

definition dial_targets :: "link_env \<Rightarrow> ClusterMembership \<Rightarrow> (string \<times> string) list" where
  "dial_targets env ms =
     (let self_id = trim_end_matches (CHR ''='') (le_public_id env) in
      List.map_filter (\<lambda>m.
        case cm_cluster_addr m of None \<Rightarrow> None
        | Some addr \<Rightarrow> if self_id \<ge> normalized_id m then None else Some (normalized_id m, addr)) (cluster_peers ms))"

text \<open>The wait after an attempt, in seconds; \<open>True\<close> for a link that came up and closed cleanly.\<close>

definition DIAL_BACKOFF_START :: nat where "DIAL_BACKOFF_START = 1"
definition DIAL_BACKOFF_MAX :: nat where "DIAL_BACKOFF_MAX = 30"

definition dial_wait :: "bool \<Rightarrow> nat \<Rightarrow> nat \<times> nat" where
  "dial_wait clean backoff =
     (let backoff = (if clean then DIAL_BACKOFF_START else backoff) in (backoff, min (backoff * 2) DIAL_BACKOFF_MAX))"

subsection \<open>Receiving\<close>

datatype link_event =
    OnReplicate string string string
  | OnRoomRoster RoomDescriptor
  | OnPeerAuth PeerAuthDescriptor
  | OnSpaceRoot SignedSpaceRoot

fun handle_msg :: "string \<Rightarrow> ClusterMsgKind \<Rightarrow> LinkState \<Rightarrow> link_event list \<times> LinkState" where
  "handle_msg member (ClusterHello cluster_id) st = ([], st)"
| "handle_msg member (Subscriptions rooms) st =
     ([], st\<lparr>lk_remote_subs := hm_insert member (remdups rooms) (lk_remote_subs st)\<rparr>)"
| "handle_msg member (Replicate rid message_id raw) st = ([OnReplicate rid message_id raw], st)"
| "handle_msg member (RoomRoster rooms) st = (map OnRoomRoster rooms, st)"
| "handle_msg member (PeerAuth g) st = ([OnPeerAuth g], st)"
| "handle_msg member (PeerAuthRoster ps) st = (map OnPeerAuth ps, st)"
| "handle_msg member (VersionInfo version build_id source_hash) st =
     ([], st\<lparr>lk_peers := hm_modify member (\<lambda>p. p\<lparr>pl_version := Some version, pl_source_hash := Some source_hash\<rparr>) (lk_peers st)\<rparr>)"
| "handle_msg member (SpaceRoot r) st = ([OnSpaceRoot r], st)"

datatype read_end = PeerClosed | FrameOutOfBounds nat | ReadFailed

definition msg_accepted :: "link_env \<Rightarrow> ClusterMembership \<Rightarrow> string \<Rightarrow> ClusterMsg \<Rightarrow> bool" where
  "msg_accepted env ms member msg \<longleftrightarrow>
     \<not> (\<not> msg_verify env msg \<or> trim_end_matches (CHR ''='') (msg_sender msg) \<noteq> member \<or> \<not> is_peer_member ms member)"

function read_loop ::
  "link_env \<Rightarrow> ClusterMembership \<Rightarrow> string \<Rightarrow> bytes \<Rightarrow> LinkState \<Rightarrow> link_event list \<times> LinkState \<times> read_end" where
  "read_loop env ms member bs st =
     (if length bs < 4 then ([], st, PeerClosed)
      else
        let len = from_be (take 4 bs); rest = drop 4 bs in
        if len = 0 \<or> len > MAX_FRAME_BYTES then ([], st, FrameOutOfBounds len)
        else if length rest < len then ([], st, ReadFailed)
        else
          case le_parse env (take len rest) of
            None \<Rightarrow> read_loop env ms member (drop len rest) st
          | Some msg \<Rightarrow>
              if \<not> msg_accepted env ms member msg then read_loop env ms member (drop len rest) st
              else
                let (evs, st) = handle_msg member (msg_kind msg) st;
                    (later, st, e) = read_loop env ms member (drop len rest) st
                in (evs @ later, st, e))"
  by pat_completeness auto
termination by (relation "measure (\<lambda>(env, ms, member, bs, st). length bs)") auto

declare read_loop.simps [simp del]

end
