(* ===== verification/Cluster_Link_Props.thy ===== *)
theory Cluster_Link_Props
  imports Cluster_Link
begin

section \<open>What a cluster link delivers\<close>

text \<open>
  The seen cache against the history it forgets, what a link hands on of an arbitrary and of an honest
  stream, and what the teardown of a replaced link does.
\<close>

subsection \<open>The seen cache\<close>

text \<open>The ids offered to a cache one after the other, and the same on the whole history of accepted ids.\<close>

fun offer_all :: "SeenCache \<Rightarrow> string list \<Rightarrow> bool list \<times> SeenCache" where
  "offer_all c [] = ([], c)"
| "offer_all c (i # ids) = (let (ok, c) = insert_new c i; (oks, c) = offer_all c ids in (ok # oks, c))"

fun window_spec :: "nat \<Rightarrow> string list \<Rightarrow> string list \<Rightarrow> bool list" where
  "window_spec n h [] = []"
| "window_spec n h (i # ids) =
     (if i = [] then True # window_spec n h ids
      else if i \<in> set (drop (length h - n) h) then False # window_spec n h ids
      else True # window_spec n (h @ [i]) ids)"

definition seen_ok :: "nat \<Rightarrow> string list \<Rightarrow> SeenCache \<Rightarrow> bool" where
  "seen_ok n h c \<longleftrightarrow> sc_cap c = n \<and> sc_order c = drop (length h - n) h \<and> distinct (sc_order c) \<and> set (sc_set c) = set (sc_order c)"

lemma seen_ok_new: "seen_ok n [] (seen_new n)"
  by (simp add: seen_ok_def seen_new_def)

lemma seen_ok_bound: "seen_ok n h c \<Longrightarrow> length (sc_order c) \<le> n"
  by (simp add: seen_ok_def)

lemma seen_ok_insert:
  assumes "seen_ok n h c" "i \<noteq> []" "i \<notin> set (drop (length h - n) h)"
  shows "fst (insert_new c i) \<and> seen_ok n (h @ [i]) (snd (insert_new c i))"
proof (cases "length h < n")
  case True
  then show ?thesis using assms by (auto simp: seen_ok_def insert_new_def Let_def)
next
  case False
  then have k: "length h + 1 - n = Suc (length h - n)" "length (drop (length h - n) h) = n" by simp_all
  show ?thesis
  proof (cases "drop (length h - n) h")
    case Nil
    then show ?thesis using assms False k by (auto simp: seen_ok_def insert_new_def Let_def)
  next
    case (Cons old rest)
    then have "drop (Suc (length h - n)) h = rest" by (metis drop_Suc drop_tl list.sel(3) tl_drop)
    then show ?thesis using assms Cons False k by (auto simp: seen_ok_def insert_new_def Let_def)
  qed
qed

lemma offer_all_window:
  "seen_ok n h c \<Longrightarrow> \<exists>h'. fst (offer_all c ids) = window_spec n h ids \<and> seen_ok n h' (snd (offer_all c ids))"
proof (induction ids arbitrary: h c)
  case (Cons i ids)
  consider "i = []" | "i \<noteq> []" "i \<in> set (drop (length h - n) h)" | "i \<noteq> []" "i \<notin> set (drop (length h - n) h)" by blast
  then show ?case
  proof cases
    case 1
    then show ?thesis using Cons.IH [OF Cons.prems] by (auto simp: insert_new_def split: prod.splits)
  next
    case 2
    then have "insert_new c i = (False, c)" using Cons.prems by (simp add: insert_new_def seen_ok_def)
    then show ?thesis using 2 Cons.IH [OF Cons.prems] by (auto split: prod.splits)
  next
    case 3
    obtain c' where c': "insert_new c i = (True, c')" "seen_ok n (h @ [i]) c'"
      using seen_ok_insert [OF Cons.prems 3] by (cases "insert_new c i") auto
    then show ?thesis using 3 Cons.IH [OF c'(2)] by (auto split: prod.splits)
  qed
qed auto

text \<open>
  The seen cache is a window over the history. For every sequence of ids offered to a fresh cache, the
  cache answers as the specification that keeps the whole history of accepted ids: an id is refused exactly
  when it is among the last \<open>cap\<close> accepted ones, an empty id always passes, and an id never offered before
  is never refused; and whatever was offered, the cache holds at most \<open>cap\<close> ids.
\<close>

theorem seen_cache_window:
  "fst (offer_all (seen_new n) ids) = window_spec n [] ids \<and>
   length (sc_order (snd (offer_all (seen_new n) ids))) \<le> n \<and>
   card (set (sc_set (snd (offer_all (seen_new n) ids)))) \<le> n"
proof -
  obtain h where h: "fst (offer_all (seen_new n) ids) = window_spec n [] ids" "seen_ok n h (snd (offer_all (seen_new n) ids))"
    using offer_all_window [OF seen_ok_new] by blast
  then show ?thesis using seen_ok_bound [OF h(2)] card_length [of "sc_order (snd (offer_all (seen_new n) ids))"]
    by (simp add: seen_ok_def)
qed

subsection \<open>Streams\<close>

fun handle_all :: "string \<Rightarrow> ClusterMsgKind list \<Rightarrow> LinkState \<Rightarrow> link_event list \<times> LinkState" where
  "handle_all member [] st = ([], st)"
| "handle_all member (k # ks) st =
     (let (evs, st) = handle_msg member k st; (later, st) = handle_all member ks st in (evs @ later, st))"

definition carried_by :: "link_env \<Rightarrow> bytes \<Rightarrow> ClusterMsg \<Rightarrow> bool" where
  "carried_by env bs msg \<longleftrightarrow> (\<exists>pre body post. bs = pre @ body @ post \<and> le_parse env body = Some msg)"

lemma carried_by_drop: "carried_by env (drop n bs) msg \<Longrightarrow> carried_by env bs msg"
  unfolding carried_by_def by (metis append.assoc append_take_drop_id)

lemma carried_by_frame: "le_parse env (take len (drop n bs)) = Some msg \<Longrightarrow> carried_by env bs msg"
  unfolding carried_by_def by (metis append_take_drop_id)

definition frame_ready :: "bytes \<Rightarrow> bool" where
  "frame_ready bs \<longleftrightarrow> length bs \<ge> 4 \<and> 0 < from_be (take 4 bs) \<and> from_be (take 4 bs) \<le> MAX_FRAME_BYTES \<and>
     from_be (take 4 bs) \<le> length (drop 4 bs)"

definition frame_body :: "bytes \<Rightarrow> bytes" where
  "frame_body bs = take (from_be (take 4 bs)) (drop 4 bs)"

definition frame_rest :: "bytes \<Rightarrow> bytes" where
  "frame_rest bs = drop (from_be (take 4 bs)) (drop 4 bs)"

lemma frame_rest_shorter: "frame_ready bs \<Longrightarrow> length (frame_rest bs) < length bs"
  by (auto simp: frame_ready_def frame_rest_def)

lemma read_loop_stop: "\<not> frame_ready bs \<Longrightarrow> \<exists>e. read_loop env ms member bs st = ([], st, e)"
  by (subst read_loop.simps) (auto simp: frame_ready_def Let_def)

lemma read_loop_frame:
  "frame_ready bs \<Longrightarrow> read_loop env ms member bs st =
     (case le_parse env (frame_body bs) of
        Some msg \<Rightarrow>
          if msg_accepted env ms member msg
          then let (evs, st) = handle_msg member (msg_kind msg) st; (later, st, e) = read_loop env ms member (frame_rest bs) st in (evs @ later, st, e)
          else read_loop env ms member (frame_rest bs) st
      | None \<Rightarrow> read_loop env ms member (frame_rest bs) st)"
  by (subst read_loop.simps) (auto simp: frame_ready_def frame_body_def frame_rest_def Let_def split: option.splits)

lemma read_loop_sound:
  "\<exists>msgs. list_all (\<lambda>m. msg_accepted env ms member m \<and> carried_by env bs m) msgs \<and>
     handle_all member (map msg_kind msgs) st = (fst (read_loop env ms member bs st), fst (snd (read_loop env ms member bs st)))"
proof (induction bs arbitrary: st rule: measure_induct_rule [of length])
  case (less bs)
  show ?case
  proof (cases "frame_ready bs")
    case False
    then show ?thesis using read_loop_stop [of bs env ms member st] by (intro exI [of _ "[]"]) auto
  next
    case True
    note IH = less.IH [OF frame_rest_shorter [OF True]]
    have rest: "carried_by env (frame_rest bs) m \<Longrightarrow> carried_by env bs m" for m
      unfolding frame_rest_def by (blast dest: carried_by_drop)
    have skip: ?thesis if "read_loop env ms member bs st = read_loop env ms member (frame_rest bs) st"
      using IH [of st] rest that by (auto simp: list_all_iff)
    show ?thesis
    proof (cases "le_parse env (frame_body bs)")
      case None
      then show ?thesis using skip by (simp add: read_loop_frame [OF True])
    next
      case (Some msg)
      show ?thesis
      proof (cases "msg_accepted env ms member msg")
        case False
        then show ?thesis using skip Some by (simp add: read_loop_frame [OF True])
      next
        case True': True
        obtain evs st1 where h: "handle_msg member (msg_kind msg) st = (evs, st1)" by fastforce
        obtain msgs where "list_all (\<lambda>m. msg_accepted env ms member m \<and> carried_by env (frame_rest bs) m) msgs"
          "handle_all member (map msg_kind msgs) st1 =
             (fst (read_loop env ms member (frame_rest bs) st1), fst (snd (read_loop env ms member (frame_rest bs) st1)))"
          using IH [of st1] by blast
        moreover have "carried_by env bs msg" using Some unfolding frame_body_def by (rule carried_by_frame)
        ultimately show ?thesis using h Some True' rest
          by (intro exI [of _ "msg # msgs"]) (auto simp: read_loop_frame [OF True] list_all_iff split: prod.splits)
      qed
    qed
  qed
qed

lemma handle_msg_others:
  "x \<noteq> member \<Longrightarrow> hm_get (lk_peers (snd (handle_msg member k st))) x = hm_get (lk_peers st) x \<and>
    hm_get (lk_remote_subs (snd (handle_msg member k st))) x = hm_get (lk_remote_subs st) x"
  by (cases k) (simp_all add: coll_simps)

lemma handle_all_others:
  "x \<noteq> member \<Longrightarrow> hm_get (lk_peers (snd (handle_all member ks st))) x = hm_get (lk_peers st) x \<and>
    hm_get (lk_remote_subs (snd (handle_all member ks st))) x = hm_get (lk_remote_subs st) x"
  by (induction ks arbitrary: st) (simp_all add: handle_msg_others split: prod.splits, metis handle_msg_others snd_conv)

text \<open>
  C14: a link speaks only for its member. Whatever bytes arrive on the link of a member, what is handed to the
  node and what changes in the tables is the handling, in order, of messages carried in those bytes that
  name that member as sender, verify under its key, and come from a declared peer of the cluster; the entry of
  every other member is as before, and from one who is no declared peer nothing is taken at all.
\<close>

theorem link_speaks_for_its_member:
  "\<exists>msgs. list_all (\<lambda>m. carried_by env bs m \<and> msg_verify env m \<and> norm_id (msg_sender m) = member \<and> is_peer_member ms member) msgs \<and>
     (let (evs, st', e) = read_loop env ms member bs st in
      handle_all member (map msg_kind msgs) st = (evs, st') \<and>
      (\<forall>x. x = member \<or> hm_get (lk_peers st') x = hm_get (lk_peers st) x \<and>
        hm_get (lk_remote_subs st') x = hm_get (lk_remote_subs st) x))"
proof -
  obtain evs st' e where r: "read_loop env ms member bs st = (evs, st', e)" by (cases "read_loop env ms member bs st")
  obtain msgs where "list_all (\<lambda>m. msg_accepted env ms member m \<and> carried_by env bs m) msgs"
    and h: "handle_all member (map msg_kind msgs) st = (evs, st')"
    using read_loop_sound [of env ms member bs st] r by auto
  moreover have "x = member \<or> hm_get (lk_peers st') x = hm_get (lk_peers st) x \<and> hm_get (lk_remote_subs st') x = hm_get (lk_remote_subs st) x" for x
    using handle_all_others [of x member "map msg_kind msgs" st] h by auto
  ultimately show ?thesis using r by (intro exI [of _ msgs]) (auto simp: list_all_iff msg_accepted_def norm_id_def)
qed

subsection \<open>An honest stream\<close>

lemma msg_signed_accepted:
  assumes "hs_b64_decode (le_hs envr) (le_public_id envs) = Some pk"
    and "\<And>x. hs_b64_decode (le_hs envr) (hs_b64_encode (le_hs envs) x) = Some x"
    and "\<And>d. ed25519_verify (hs_prims (le_hs envr)) pk (hs_sign (le_hs envs) d) d"
    and "le_kind_json envr = le_kind_json envs"
    and "norm_id (le_public_id envs) = member" "is_peer_member ms member"
  shows "msg_accepted envr ms member (msg_signed envs k)"
  using assms by (simp add: msg_accepted_def msg_verify_def msg_signed_def msg_signing_bytes_def norm_id_def)

lemma read_loop_end [simp]: "read_loop env ms member [] st = ([], st, PeerClosed)"
  by (subst read_loop.simps) simp

lemma take_prefix4 [simp]: "take 4 (be_bytes 4 n @ bs) = be_bytes 4 n" "drop 4 (be_bytes 4 n @ bs) = bs"
  by simp_all

lemma read_loop_too_long:
  assumes "MAX_FRAME_BYTES < length js" "length js < 2 ^ 32"
  shows "read_loop env ms member (be_bytes 4 (length js mod 2 ^ 32) @ js @ bs) st = ([], st, FrameOutOfBounds (length js))"
proof -
  have "from_be (be_bytes 4 (length js)) = length js" using assms by (simp add: from_be_bytes)
  then show ?thesis using assms by (subst read_loop.simps) (simp add: Let_def)
qed

lemma frame_ready_encoded:
  assumes "0 < length js" "length js \<le> MAX_FRAME_BYTES"
  shows "frame_ready (be_bytes 4 (length js mod 2 ^ 32) @ js @ bs) \<and>
    frame_body (be_bytes 4 (length js mod 2 ^ 32) @ js @ bs) = js \<and> frame_rest (be_bytes 4 (length js mod 2 ^ 32) @ js @ bs) = bs"
proof -
  have "from_be (be_bytes 4 (length js)) = length js" "length js < 2 ^ 32" using assms by (simp_all add: from_be_bytes MAX_FRAME_BYTES_def)
  then show ?thesis using assms by (simp add: frame_ready_def frame_body_def frame_rest_def)
qed

text \<open>
  C15: what one member signs and writes is handled by the other, up to the first message over eight
  megabytes. When the receiver knows the sender as a declared peer and the codecs and signatures are
  right, the receiver handles exactly the messages before the first one whose JSON exceeds
  \<open>MAX_FRAME_BYTES\<close>, in order and each once; if there is such a message, which no sender checks for, the
  receiver ends the link there and never sees the ones behind it.
\<close>

theorem cluster_stream_delivery:
  assumes peer: "norm_id (le_public_id envs) = member" "is_peer_member ms member"
    and codec: "le_kind_json envr = le_kind_json envs"
    and key: "hs_b64_decode (le_hs envr) (le_public_id envs) = Some pk"
      "\<And>x. hs_b64_decode (le_hs envr) (hs_b64_encode (le_hs envs) x) = Some x"
      "\<And>d. ed25519_verify (hs_prims (le_hs envr)) pk (hs_sign (le_hs envs) d) d"
    and lens: "list_all (\<lambda>k. le_parse envr (le_msg_json envs (msg_signed envs k)) = Some (msg_signed envs k) \<and>
      0 < length (le_msg_json envs (msg_signed envs k)) \<and> length (le_msg_json envs (msg_signed envs k)) < 2 ^ 32) ks"
    and fit: "fit = takeWhile (\<lambda>k. length (le_msg_json envs (msg_signed envs k)) \<le> MAX_FRAME_BYTES) ks"
  shows "read_loop envr ms member (concat (map (signed_frame envs) ks)) st =
    (fst (handle_all member fit st), snd (handle_all member fit st),
     if fit = ks then PeerClosed else FrameOutOfBounds (length (le_msg_json envs (msg_signed envs (ks ! length fit)))))"
  using lens fit
proof (induction ks arbitrary: st fit)
  case (Cons k ks)
  let ?js = "le_msg_json envs (msg_signed envs k)" and ?bs = "concat (map (signed_frame envs) ks)"
  have frame: "concat (map (signed_frame envs) (k # ks)) = be_bytes 4 (length ?js mod 2 ^ 32) @ ?js @ ?bs"
    by (simp add: signed_frame_def msg_encode_frame_def Let_def)
  show ?case
  proof (cases "length ?js \<le> MAX_FRAME_BYTES")
    case False
    then show ?thesis using Cons.prems read_loop_too_long [of ?js] unfolding frame by simp
  next
    case True
    have ready: "frame_ready (be_bytes 4 (length ?js mod 2 ^ 32) @ ?js @ ?bs)"
      "frame_body (be_bytes 4 (length ?js mod 2 ^ 32) @ ?js @ ?bs) = ?js" "frame_rest (be_bytes 4 (length ?js mod 2 ^ 32) @ ?js @ ?bs) = ?bs"
      using frame_ready_encoded [of ?js ?bs] True Cons.prems by simp_all
    have "msg_accepted envr ms member (msg_signed envs k)" using msg_signed_accepted [OF key codec peer] .
    moreover have "msg_kind (msg_signed envs k) = k" by (simp add: msg_signed_def)
    ultimately show ?thesis using Cons True unfolding frame read_loop_frame [OF ready(1)] ready(2, 3)
      by (simp split: prod.splits)
  qed
qed simp

subsection \<open>A link that is replaced\<close>

lemma hm_insert_absent: "k \<notin> fst ` set m \<Longrightarrow> hm_insert k v m = m @ [(k, v)]"
  by (induction m) auto

lemma hm_remove_insert: "hm_remove k (hm_insert k v m) = hm_remove k m"
  by (induction m) (auto simp: hm_remove_def)

lemma hm_remove_idem: "k \<notin> fst ` set (hm_remove k m)"
  by (auto simp: hm_remove_def)

lemma link_replicate_targets:
  "link_replicate env st rid mid raw =
     List.map_filter (\<lambda>m. map_option (\<lambda>link. (pl_tx link, signed_frame env (Replicate rid mid raw))) (hm_get (lk_peers st) m)) (members_for_room st rid)"
  by (simp add: link_replicate_def Let_def map_filter_simps)

lemma members_for_room_iff:
  "hm_get (lk_remote_subs st) m = Some rooms \<Longrightarrow> rid \<in> set rooms \<Longrightarrow> m \<in> set (members_for_room st rid)"
  by (force simp: members_for_room_def dest: hm_get_SomeD)

lemma in_map_filter: "x \<in> set xs \<Longrightarrow> f x = Some y \<Longrightarrow> y \<in> set (List.map_filter f xs)"
  by (induction xs) (auto simp: map_filter_simps split: option.splits)

lemma map_filter_append: "List.map_filter f (xs @ ys) = List.map_filter f xs @ List.map_filter f ys"
  by (simp add: List.map_filter_def)

lemma replicate_without_link:
  "member \<notin> fst ` set (lk_peers st) \<Longrightarrow> member \<notin> fst ` set (lk_remote_subs st) \<Longrightarrow>
   link_replicate env (st\<lparr>lk_remote_subs := hm_insert member rooms (lk_remote_subs st)\<rparr>) rid mid raw = link_replicate env st rid mid raw"
  by (simp add: link_replicate_targets members_for_room_def hm_insert_absent map_filter_append map_filter_simps hm_get_None_iff [symmetric])

lemma replicate_with_link:
  "hm_get (lk_peers st) member = Some link \<Longrightarrow> hm_get (lk_remote_subs st) member = Some rooms \<Longrightarrow> rid \<in> set rooms \<Longrightarrow>
   (pl_tx link, signed_frame env (Replicate rid mid raw)) \<in> set (link_replicate env st rid mid raw)"
  unfolding link_replicate_targets by (rule in_map_filter [OF members_for_room_iff]) auto

text \<open>
  The teardown of an old link cuts the new one off. A member whose first connection died silently connects
  again, and its second link carries the frames of every room it subscribes to. When the first link then times
  out, its teardown removes the member's entry although that is the second link's: the member is no longer
  connected, and although the second link stays open and renews its subscriptions, no frame is replicated to
  it, exactly as if it had never connected.
\<close>

theorem stale_teardown_cuts_new_link:
  assumes first: "s1 = snd (run_link_open env ms src member tx_old st)" and second: "s2 = snd (run_link_open env ms src member tx_new s1)"
    and torn: "s3 = run_link_close member s2" and room: "rid \<in> set rooms"
  shows "(tx_new, signed_frame env (Replicate rid mid raw)) \<in>
       set (link_replicate env (snd (handle_msg member (Subscriptions rooms) s2)) rid mid raw) \<and>
    member \<notin> set (connected_peer_ids s3) \<and>
    link_replicate env (snd (handle_msg member (Subscriptions rooms) s3)) rid mid raw =
      link_replicate env (run_link_close member st) rid mid raw"
proof -
  have "s3 = run_link_close member st"
    by (simp add: torn second first run_link_open_def run_link_close_def hm_remove_insert)
  moreover have "member \<notin> fst ` set (lk_peers (run_link_close member st))" "member \<notin> fst ` set (lk_remote_subs (run_link_close member st))"
    by (simp_all add: run_link_close_def hm_remove_idem)
  moreover have "(tx_new, signed_frame env (Replicate rid mid raw)) \<in>
       set (link_replicate env (snd (handle_msg member (Subscriptions rooms) s2)) rid mid raw)"
    using replicate_with_link [of "snd (handle_msg member (Subscriptions rooms) s2)" member
        "\<lparr>pl_tx = tx_new, pl_version = None, pl_source_hash = None\<rparr>" "remdups rooms" rid env mid raw] room
    by (simp add: second run_link_open_def coll_simps)
  ultimately show ?thesis by (simp add: replicate_without_link connected_peer_ids_def)
qed

subsection \<open>Two members\<close>

definition small_link_env :: link_env where
  "small_link_env = \<lparr>le_hs = small_env, le_public_id = replicate 32 (CHR ''K''), le_kind_json = (\<lambda>_. []),
     le_msg_json = (\<lambda>m. case msg_kind m of Subscriptions _ \<Rightarrow> [1] | Replicate _ _ _ \<Rightarrow> [2] | _ \<Rightarrow> replicate (Suc MAX_FRAME_BYTES) 0),
     le_parse = (\<lambda>bs. let msg = (\<lambda>k. Some \<lparr>msg_kind = k, msg_sender = replicate 32 (CHR ''K''), msg_signature = string_of_bytes (replicate 64 1)\<rparr>) in
       if bs = [1] then msg (Subscriptions [''r'']) else if bs = [2] then msg (Replicate ''r'' ''m'' ''hi'') else msg (PeerAuthRoster [])),
     le_version = ''1'', le_build_id = ''b'', le_source_hash = ''h''\<rparr>"

lemma small_link_fields [simp]:
  "le_hs small_link_env = small_env" "le_public_id small_link_env = replicate 32 (CHR ''K'')"
  "msg_signed small_link_env k = \<lparr>msg_kind = k, msg_sender = replicate 32 (CHR ''K''), msg_signature = string_of_bytes (replicate 64 1)\<rparr>"
  by (simp_all add: small_link_env_def msg_signed_def)

text \<open>An oversized roster ends the link: the frame behind it is never read.\<close>

theorem cluster_stream_delivery_witness:
  "read_loop small_link_env (membership_new two_nodes ''B'') (replicate 32 (CHR ''K''))
     (concat (map (signed_frame small_link_env) [Subscriptions [''r''], PeerAuthRoster [], Replicate ''r'' ''m'' ''hi''])) link_new =
   ([], \<lparr>lk_peers = [], lk_remote_subs = [(replicate 32 (CHR ''K''), [''r''])]\<rparr>, FrameOutOfBounds (Suc MAX_FRAME_BYTES))"
proof -
  have len: "length (le_msg_json small_link_env \<lparr>msg_kind = Subscriptions rs, msg_sender = s, msg_signature = g\<rparr>) = 1"
    "length (le_msg_json small_link_env \<lparr>msg_kind = Replicate a b c, msg_sender = s, msg_signature = g\<rparr>) = 1"
    "length (le_msg_json small_link_env \<lparr>msg_kind = PeerAuthRoster ps, msg_sender = s, msg_signature = g\<rparr>) = Suc MAX_FRAME_BYTES" for rs a b c ps s g
    by (simp_all add: small_link_env_def)
  have ne: "le_msg_json small_link_env m \<noteq> []" for m by (simp add: small_link_env_def split: ClusterMsgKind.splits)
  have "norm_id (replicate 32 (CHR ''K'')) = replicate 32 (CHR ''K'')" "is_peer_member (membership_new two_nodes ''B'') (replicate 32 (CHR ''K''))"
    by code_simp+
  moreover have "le_parse small_link_env (le_msg_json small_link_env (msg_signed small_link_env k)) = Some (msg_signed small_link_env k)"
    if "k \<in> {Subscriptions [''r''], PeerAuthRoster [], Replicate ''r'' ''m'' ''hi''}" for k
    using that by (auto simp: small_link_env_def msg_signed_def)
  ultimately show ?thesis
    using cluster_stream_delivery [where envs = small_link_env and envr = small_link_env and ms = "membership_new two_nodes ''B''"
      and member = "replicate 32 (CHR ''K'')" and pk = "as_bytes (replicate 32 (CHR ''K''))" and st = link_new
      and ks = "[Subscriptions [''r''], PeerAuthRoster [], Replicate ''r'' ''m'' ''hi'']", OF _ _ refl _ _ _ _ refl]
    by (simp add: ed25519_verify_def len ne MAX_FRAME_BYTES_def link_new_def)
qed

theorem stale_teardown_cuts_new_link_witness:
  "let s2 = snd (run_link_open small_link_env (membership_new two_nodes ''B'') None ''K'' 2
         (snd (run_link_open small_link_env (membership_new two_nodes ''B'') None ''K'' 1 link_new)));
       s3 = run_link_close ''K'' s2
   in link_replicate small_link_env (snd (handle_msg ''K'' (Subscriptions [''r'']) s3)) ''r'' ''m'' ''hi'' =
      link_replicate small_link_env (run_link_close ''K'' link_new) ''r'' ''m'' ''hi''"
  using stale_teardown_cuts_new_link [where rid = "''r''" and rooms = "[''r'']" and env = small_link_env
      and mid = "''m''" and raw = "''hi''" and ms = "membership_new two_nodes ''B''" and src = None and member = "''K''"
      and tx_old = 1 and tx_new = 2 and st = link_new, OF refl refl refl] by (simp add: Let_def)

end
