(* ===== verification/Peer_Store.thy ===== *)
theory Peer_Store
  imports Sfu_Room
begin

section \<open>Trusted peers of a supernode (\<open>peer_store.rs\<close>)\<close>

text \<open>
  The supernode keeps a record per peer it has admitted, keyed by the peer's public id in canonical
  spelling, and writes all of them to one file. \<open>serde_json\<close> is the pair \<open>to_json\<close>, \<open>from_json\<close>
  between the list of records and the text of the file; \<open>None\<close> is a file that is missing or cannot be read.
\<close>

record PeerRecord =
  pr_peer_id :: string
  pr_identity_pub :: string
  pr_relay_hints :: "string list"
  pr_handle :: string
  pr_blocked :: bool
  pr_revoked :: bool
  pr_auto_connect :: bool
  pr_is_supernode :: bool
  pr_transcript_hash :: string
  pr_created_at :: real
  pr_last_seen_at :: real
  pr_quic_port :: u16

type_synonym PeerStore = "(string, PeerRecord) hmap"

definition load_peer :: "PeerStore \<Rightarrow> PeerRecord \<Rightarrow> PeerStore" where
  "load_peer s p = (let p = p\<lparr>pr_identity_pub := normalize_public_id (pr_identity_pub p)\<rparr> in hm_insert (pr_identity_pub p) p s)"

definition store_load :: "(string \<Rightarrow> PeerRecord list option) \<Rightarrow> string option \<Rightarrow> PeerStore" where
  "store_load from_json contents =
     (case contents of None \<Rightarrow> []
      | Some data \<Rightarrow> (case from_json data of None \<Rightarrow> [] | Some ps \<Rightarrow> foldl load_peer [] ps))"

definition store_save :: "(PeerRecord list \<Rightarrow> string) \<Rightarrow> PeerStore \<Rightarrow> string" where
  "store_save to_json s = to_json (hm_values s)"

definition resolve_key :: "PeerStore \<Rightarrow> string \<Rightarrow> string option" where
  "resolve_key s identity_pub =
     (let canon = normalize_public_id identity_pub; bare = trim_end_matches (CHR ''='') identity_pub in
      if hm_contains s canon then Some canon
      else if hm_contains s identity_pub then Some identity_pub
      else if bare \<noteq> identity_pub \<and> hm_contains s bare then Some bare
      else None)"

definition add_peer :: "PeerStore \<Rightarrow> PeerRecord \<Rightarrow> PeerStore" where
  "add_peer s record =
     (let record = record\<lparr>pr_identity_pub := normalize_public_id (pr_identity_pub record)\<rparr>;
          bare = trim_end_matches (CHR ''='') (pr_identity_pub record);
          s = (if bare \<noteq> pr_identity_pub record then hm_remove bare s else s)
      in hm_insert (pr_identity_pub record) record s)"

definition get_peer :: "PeerStore \<Rightarrow> string \<Rightarrow> PeerRecord option" where
  "get_peer s identity_pub = (case resolve_key s identity_pub of None \<Rightarrow> None | Some k \<Rightarrow> hm_get s k)"

definition live_record :: "PeerRecord \<Rightarrow> bool" where
  "live_record p \<longleftrightarrow> \<not> pr_revoked p \<and> \<not> pr_blocked p"

definition is_trusted :: "PeerStore \<Rightarrow> string \<Rightarrow> bool" where
  "is_trusted s identity_pub = (case get_peer s identity_pub of Some p \<Rightarrow> live_record p | None \<Rightarrow> False)"

definition store_revoke_peer :: "PeerStore \<Rightarrow> string \<Rightarrow> PeerStore" where
  "store_revoke_peer s identity_pub =
     (case resolve_key s identity_pub of None \<Rightarrow> s | Some k \<Rightarrow> hm_modify k (\<lambda>p. p\<lparr>pr_revoked := True\<rparr>) s)"

definition store_remove_peer :: "PeerStore \<Rightarrow> string \<Rightarrow> PeerStore" where
  "store_remove_peer s identity_pub = (case resolve_key s identity_pub of None \<Rightarrow> s | Some k \<Rightarrow> hm_remove k s)"

definition trusted_peer_ids :: "PeerStore \<Rightarrow> string list" where
  "trusted_peer_ids s = map fst (filter (\<lambda>(_, p). live_record p) s)"

definition touch_peer :: "real \<Rightarrow> PeerStore \<Rightarrow> string \<Rightarrow> PeerStore" where
  "touch_peer now s identity_pub =
     (case resolve_key s identity_pub of None \<Rightarrow> s | Some k \<Rightarrow> hm_modify k (\<lambda>p. p\<lparr>pr_last_seen_at := now\<rparr>) s)"

definition total_count :: "PeerStore \<Rightarrow> nat" where
  "total_count s = length s"

definition trusted_count :: "PeerStore \<Rightarrow> nat" where
  "trusted_count s = length (filter live_record (hm_values s))"

subsection \<open>Keys are canonical\<close>

definition canonical_entry :: "string \<times> PeerRecord \<Rightarrow> bool" where
  "canonical_entry kp \<longleftrightarrow> fst kp = pr_identity_pub (snd kp) \<and> normalize_public_id (fst kp) = fst kp"

definition store_ok :: "PeerStore \<Rightarrow> bool" where
  "store_ok s \<longleftrightarrow> hm_wf s \<and> list_all canonical_entry s"

lemma store_okD: "store_ok s \<Longrightarrow> hm_get s k = Some p \<Longrightarrow> k = pr_identity_pub p \<and> normalize_public_id k = k"
  using hm_get_SomeD [of s k p] by (fastforce simp: store_ok_def list_all_iff canonical_entry_def)

lemma store_ok_insert:
  assumes "store_ok s" "k = pr_identity_pub p" "normalize_public_id k = k"
  shows "store_ok (hm_insert k p s)"
proof -
  have "canonical_entry (k, p)" using assms(2,3) by (simp add: canonical_entry_def)
  then have "set (hm_insert k p s) \<subseteq> Collect canonical_entry"
    using set_hm_insert [of k p s] assms(1) by (auto simp: store_ok_def list_all_iff)
  then show ?thesis using assms(1) by (auto simp: store_ok_def list_all_iff hm_wf_insert)
qed

lemma store_ok_remove: "store_ok s \<Longrightarrow> store_ok (hm_remove k s)"
  using hm_wf_remove [of s k] by (auto simp: store_ok_def list_all_iff hm_remove_def)

lemma store_ok_modify: "store_ok s \<Longrightarrow> (\<And>p. pr_identity_pub (f p) = pr_identity_pub p) \<Longrightarrow> store_ok (hm_modify k f s)"
  using hm_wf_modify [of s k f] by (auto simp: store_ok_def list_all_iff hm_modify_def canonical_entry_def)

lemma store_ok_load_peer: "store_ok s \<Longrightarrow> store_ok (load_peer s p)"
  by (simp add: load_peer_def store_ok_insert)

lemma store_ok_load: "store_ok (store_load from_json contents)"
proof -
  have "store_ok s \<Longrightarrow> store_ok (foldl load_peer s ps)" for s ps
    by (induction ps arbitrary: s) (simp_all add: store_ok_load_peer)
  moreover have "store_ok []" by (simp add: store_ok_def)
  ultimately show ?thesis by (simp add: store_load_def split: option.split)
qed

lemma store_ok_add: "store_ok s \<Longrightarrow> store_ok (add_peer s r)"
  by (simp add: add_peer_def Let_def store_ok_insert store_ok_remove)

datatype store_op = AddPeer PeerRecord | RevokePeer string | RemovePeer string | TouchPeer real string

fun store_step :: "PeerStore \<Rightarrow> store_op \<Rightarrow> PeerStore" where
  "store_step s (AddPeer r) = add_peer s r"
| "store_step s (RevokePeer i) = store_revoke_peer s i"
| "store_step s (RemovePeer i) = store_remove_peer s i"
| "store_step s (TouchPeer t i) = touch_peer t s i"

lemma store_ok_step: "store_ok s \<Longrightarrow> store_ok (store_step s c)"
  by (cases c) (auto simp: store_ok_add store_revoke_peer_def store_remove_peer_def touch_peer_def
      store_ok_modify store_ok_remove split: option.split)

interpretation peers_file: invariant_system "store_load from_json contents" store_step store_ok for from_json contents
  by unfold_locales (rule store_ok_load, rule store_ok_step)

lemma normalize_bare:
  assumes "length (trim_end_matches (CHR ''='') i) = 43"
  shows "normalize_public_id i = trim_end_matches (CHR ''='') i @ ''=''" "normalize_public_id (trim_end_matches (CHR ''='') i) = normalize_public_id i"
  using assms by (simp_all add: normalize_public_id_def Let_def)

lemma canonical_lookup:
  assumes "store_ok s" "length (trim_end_matches (CHR ''='') i) = 43"
  shows "get_peer s i = hm_get s (normalize_public_id i)"
proof -
  let ?c = "normalize_public_id i" and ?b = "trim_end_matches (CHR ''='') i"
  have canon: "normalize_public_id k = k" if "hm_contains s k" for k
    using that assms(1) by (auto simp: hm_contains_iff dest: store_okD)
  have "i = ?c" if "hm_contains s i" using canon [OF that] by simp
  moreover have "\<not> hm_contains s ?b"
  proof
    assume "hm_contains s ?b"
    then have "?b = ?b @ ''=''" using canon [of ?b] normalize_bare [OF assms(2)] by simp
    then show False by simp
  qed
  ultimately show ?thesis
    by (auto simp: get_peer_def resolve_key_def Let_def hm_contains_iff split: option.split)
qed

text \<open>Loading the records of a canonical store gives it back.\<close>

lemma foldl_load:
  assumes "store_ok s" "fst ` set s \<inter> fst ` set t = {}"
  shows "hm_get (foldl load_peer t (hm_values s)) k = (case hm_get s k of Some p \<Rightarrow> Some p | None \<Rightarrow> hm_get t k)"
  using assms
proof (induction s arbitrary: t)
  case (Cons kp s)
  obtain k0 p where kp: "kp = (k0, p)" by (cases kp)
  have c: "k0 = pr_identity_pub p" "normalize_public_id k0 = k0" using Cons.prems(1) unfolding kp by (auto simp: store_ok_def canonical_entry_def)
  have ok: "store_ok s" and fresh: "k0 \<notin> fst ` set s" using Cons.prems(1) kp by (auto simp: store_ok_def hm_wf_def)
  have one: "load_peer t p = hm_insert k0 p t" using c by (simp add: load_peer_def)
  have "fst ` set s \<inter> fst ` set (hm_insert k0 p t) = {}" using Cons.prems(2) fresh kp by (auto simp: set_fst_hm_insert)
  note IH = Cons.IH [OF ok this]
  have "hm_get s k0 = None" using fresh by (simp add: hm_get_None_iff)
  then show ?case using IH kp by (auto simp: hm_values_def one hm_get_Cons hm_get_insert split: option.split)
qed (simp add: hm_values_def)

lemma get_peer_cong: "(\<And>k. hm_get s k = hm_get t k) \<Longrightarrow> get_peer s i = get_peer t i"
  by (simp add: get_peer_def resolve_key_def hm_contains_iff Let_def)

text \<open>
  A JSON number need not carry a binary floating-point value exactly, so the two timestamps of a record
  are left out of what a restart preserves.
\<close>

definition untimed :: "PeerRecord \<Rightarrow> PeerRecord" where
  "untimed p = p\<lparr>pr_created_at := 0, pr_last_seen_at := 0\<rparr>"

definition untimed_store :: "PeerStore \<Rightarrow> PeerStore" where
  "untimed_store s = map (map_prod id untimed) s"

lemma untimed_simps [simp]:
  "pr_identity_pub (untimed p) = pr_identity_pub p"
  "live_record (untimed p) = live_record p"
  "untimed (p\<lparr>pr_identity_pub := k\<rparr>) = (untimed p)\<lparr>pr_identity_pub := k\<rparr>"
  by (simp_all add: untimed_def live_record_def)

lemma hm_get_untimed: "hm_get (untimed_store s) k = map_option untimed (hm_get s k)"
  by (induction s) (auto simp: untimed_store_def hm_get_Cons)

lemma untimed_insert: "untimed_store (hm_insert k p s) = hm_insert k (untimed p) (untimed_store s)"
  by (induction s) (auto simp: untimed_store_def)

lemma untimed_load:
  "untimed_store (foldl load_peer t ps) = foldl load_peer (untimed_store t) (map untimed ps)"
proof (induction ps arbitrary: t)
  case (Cons p ps)
  have "untimed_store (load_peer t p) = load_peer (untimed_store t) (untimed p)"
    by (simp add: load_peer_def untimed_insert)
  then show ?case using Cons.IH by simp
qed simp

lemma untimed_ok: "store_ok s \<Longrightarrow> store_ok (untimed_store s)"
  by (auto simp: store_ok_def hm_wf_def untimed_store_def comp_def list_all_iff canonical_entry_def)

lemma get_peer_untimed: "get_peer (untimed_store s) i = map_option untimed (get_peer s i)"
  by (simp add: get_peer_def resolve_key_def hm_contains_iff hm_get_untimed Let_def split: option.split)

lemma reload_untimed:
  assumes ok: "store_ok s"
    and json: "map_option (map untimed) (from_json (to_json (hm_values s))) = Some (map untimed (hm_values s))"
  shows "hm_get (untimed_store (store_load from_json (Some (store_save to_json s)))) k = hm_get (untimed_store s) k"
proof -
  obtain ps where ps: "from_json (to_json (hm_values s)) = Some ps" and same: "map untimed ps = map untimed (hm_values s)"
    using json by auto
  have vals: "hm_values (untimed_store s) = map untimed (hm_values s)" by (simp add: hm_values_def untimed_store_def)
  have "untimed_store (store_load from_json (Some (store_save to_json s))) = foldl load_peer (untimed_store []) (hm_values (untimed_store s))"
    by (simp add: store_load_def store_save_def ps untimed_load same vals)
  moreover have "untimed_store [] = []" by (simp add: untimed_store_def)
  ultimately show ?thesis using foldl_load [OF untimed_ok [OF ok], of "[]" k] by (simp split: option.splits)
qed

lemma spelling_lookup:
  assumes "store_ok s" "length (trim_end_matches (CHR ''='') i) = 43" "b = trim_end_matches (CHR ''='') i"
  shows "get_peer s i = get_peer s b \<and> get_peer s i = get_peer s (b @ ''='')"
  using canonical_lookup [OF assms(1), of i] canonical_lookup [OF assms(1), of b] canonical_lookup [OF assms(1), of "b @ ''=''"] assms(2,3)
  by (simp add: normalize_public_id_def Let_def)

text \<open>
  C38: the store finds a peer under every spelling of its key, and survives a restart. After any
  operations on a store loaded from whatever file there was, a public key is looked up with the same
  result bare and padded, and a store written to its file and loaded again answers every lookup as
  before, so the same peers are trusted; of the serialisation it is assumed only that it reads back the
  records it has written, up to the rounding of their timestamps.
\<close>

theorem peer_store_roundtrip:
  assumes s: "s = foldl store_step (store_load from_json contents) ops"
    and json: "map_option (map untimed) (from_json (to_json (hm_values s))) = Some (map untimed (hm_values s))"
    and restarted: "s' = store_load from_json (Some (store_save to_json s))"
  shows "map_option untimed (get_peer s' i) = map_option untimed (get_peer s i) \<and> is_trusted s' i = is_trusted s i \<and>
    (if length (trim_end_matches (CHR ''='') i) = 43
     then get_peer s i = get_peer s (trim_end_matches (CHR ''='') i) \<and> get_peer s i = get_peer s (trim_end_matches (CHR ''='') i @ ''='') else True)"
proof -
  have ok: "store_ok s" unfolding s by (rule peers_file.inv_reachable)
  have "get_peer (untimed_store s') i = get_peer (untimed_store s) i"
    unfolding restarted by (rule get_peer_cong) (rule reload_untimed [where to_json = to_json and from_json = from_json, OF ok json])
  then have same: "map_option untimed (get_peer s' i) = map_option untimed (get_peer s i)" by (simp add: get_peer_untimed)
  have trusted: "is_trusted s' i = is_trusted s i"
    using arg_cong [OF same, of "map_option live_record"]
    by (cases "get_peer s' i"; cases "get_peer s i") (simp_all add: is_trusted_def)
  show ?thesis using same trusted spelling_lookup [OF ok _ refl, of i] by (cases "length (trim_end_matches (CHR ''='') i) = 43") auto
qed

definition sample_peer :: PeerRecord where
  "sample_peer = \<lparr>pr_peer_id = ''p'', pr_identity_pub = replicate 43 (CHR ''A''), pr_relay_hints = [], pr_handle = ''h'',
     pr_blocked = False, pr_revoked = False, pr_auto_connect = True, pr_is_supernode = False, pr_transcript_hash = '''',
     pr_created_at = 1, pr_last_seen_at = 1, pr_quic_port = 0\<rparr>"

text \<open>A peer added under its bare key is trusted after a restart, under either spelling.\<close>

theorem peer_store_roundtrip_witness:
  "let s = foldl store_step (store_load (\<lambda>_. Some []) None) [AddPeer sample_peer];
       saved = hm_values s; s' = store_load (\<lambda>_. Some saved) (Some (store_save (\<lambda>_. ''peers'') s))
   in is_trusted s' (replicate 43 (CHR ''A'')) \<and> is_trusted s (replicate 43 (CHR ''A'') @ ''='')"
proof -
  define s where "s = foldl store_step [] [AddPeer sample_peer]"
  have t: "is_trusted s (replicate 43 (CHR ''A''))"
    unfolding s_def by code_simp
  have b: "length (trim_end_matches (CHR ''='') (replicate 43 (CHR ''A''))) = 43" "trim_end_matches (CHR ''='') (replicate 43 (CHR ''A'')) = replicate 43 (CHR ''A'')" by code_simp+
  have s0: "s = foldl store_step (store_load (\<lambda>_. Some (hm_values s)) None) [AddPeer sample_peer]"
    by (simp add: s_def store_load_def)
  from peer_store_roundtrip [OF s0, where to_json = "\<lambda>_. ''peers''" and i = "replicate 43 (CHR ''A'')"] t b
  have "is_trusted (store_load (\<lambda>_. Some (hm_values s)) (Some (store_save (\<lambda>_. ''peers'') s))) (replicate 43 (CHR ''A''))"
    "is_trusted s (replicate 43 (CHR ''A'') @ ''='')" by (auto simp: is_trusted_def)
  moreover have "store_load (\<lambda>_. Some []) None = []" by (simp add: store_load_def)
  ultimately show ?thesis by (simp only: Let_def s_def)
qed

end
