(* ===== verification/Access.thy ===== *)
theory Access
  imports Sfu_Room
begin

section \<open>Access gates and relay tickets (\<open>access.rs\<close>, \<open>ticket.rs\<close>)\<close>

text \<open>
  A peer gets full relay access once it has passed the gate of the supernode's access mode; who has is
  kept in a \<open>GrantStore\<close>, written through to a file of its own per mode. The directory of those files is
  a map from paths to texts, \<open>serde_json\<close> is the pair \<open>to_json\<close>, \<open>from_json\<close> on \<open>GrantsFile\<close>, and the
  operating system's answer to a write is the argument \<open>written\<close>.
\<close>

datatype AccessMode = Open | Tos | Ad | Code

definition access_mode_parse :: "string \<Rightarrow> AccessMode option" where
  "access_mode_parse value =
     (if value = ''open'' then Some Open
      else if value = ''tos'' then Some Tos
      else if value = ''ad'' \<or> value = ''timer'' then Some Ad
      else if value = ''code'' \<or> value = ''access_code'' then Some Code
      else None)"

record GrantStore =
  granted :: "string list"
  gs_path :: "string option"

record GrantsFile =
  gf_version :: u32
  gf_updated_at :: real
  gf_granted :: "string list"

type_synonym grant_files = "(string, string) hmap"

definition grants_ephemeral :: GrantStore where
  "grants_ephemeral = \<lparr>granted = [], gs_path = None\<rparr>"

definition grants_load :: "(string \<Rightarrow> GrantsFile option) \<Rightarrow> grant_files \<Rightarrow> GrantStore \<Rightarrow> GrantStore" where
  "grants_load from_json fs g =
     (case gs_path g of
        None \<Rightarrow> g
      | Some path \<Rightarrow>
          (case hm_get fs path of
             None \<Rightarrow> g
           | Some data \<Rightarrow>
               (case from_json data of
                  None \<Rightarrow> g
                | Some f \<Rightarrow> foldl (\<lambda>g peer. g\<lparr>granted := hs_insert peer (granted g)\<rparr>) g (gf_granted f))))"

definition grants_new :: "(string \<Rightarrow> GrantsFile option) \<Rightarrow> grant_files \<Rightarrow> string \<Rightarrow> GrantStore" where
  "grants_new from_json fs path = grants_load from_json fs \<lparr>granted = [], gs_path = Some path\<rparr>"

definition grants_save :: "(GrantsFile \<Rightarrow> string) \<Rightarrow> real \<Rightarrow> bool \<Rightarrow> GrantStore \<Rightarrow> grant_files \<Rightarrow> grant_files" where
  "grants_save to_json now written g fs =
     (case gs_path g of
        None \<Rightarrow> fs
      | Some path \<Rightarrow>
          let f = \<lparr>gf_version = 1, gf_updated_at = now, gf_granted = granted g\<rparr>
          in if written then hm_insert path (to_json f) fs else fs)"

definition grants_contains :: "GrantStore \<Rightarrow> string \<Rightarrow> bool" where
  "grants_contains g peer_id \<longleftrightarrow> peer_id \<in> set (granted g)"

definition grants_insert ::
  "(GrantsFile \<Rightarrow> string) \<Rightarrow> real \<Rightarrow> bool \<Rightarrow> string \<Rightarrow> GrantStore \<times> grant_files \<Rightarrow> GrantStore \<times> grant_files" where
  "grants_insert to_json now written peer_id = (\<lambda>(g, fs).
     if peer_id \<in> set (granted g) then (g, fs)
     else let g = g\<lparr>granted := hs_insert peer_id (granted g)\<rparr> in (g, grants_save to_json now written g fs))"

subsection \<open>The four controllers\<close>

text \<open>The trait's default methods are the branches shared by the modes that do not override them.\<close>

datatype AccessController =
    OpenAccessController GrantStore
  | TOSAccessController GrantStore
  | AdGateAccessController GrantStore
  | CodeGateAccessController string GrantStore

fun grants_of :: "AccessController \<Rightarrow> GrantStore" where
  "grants_of (OpenAccessController g) = g"
| "grants_of (TOSAccessController g) = g"
| "grants_of (AdGateAccessController g) = g"
| "grants_of (CodeGateAccessController code g) = g"

fun set_grants :: "GrantStore \<Rightarrow> AccessController \<Rightarrow> AccessController" where
  "set_grants g (OpenAccessController _) = OpenAccessController g"
| "set_grants g (TOSAccessController _) = TOSAccessController g"
| "set_grants g (AdGateAccessController _) = AdGateAccessController g"
| "set_grants g (CodeGateAccessController code _) = CodeGateAccessController code g"

definition check_access :: "AccessController \<Rightarrow> string \<Rightarrow> bool" where
  "check_access ac peer_id = grants_contains (grants_of ac) peer_id"

definition on_peer_granted ::
  "(GrantsFile \<Rightarrow> string) \<Rightarrow> real \<Rightarrow> bool \<Rightarrow> string \<Rightarrow> AccessController \<times> grant_files \<Rightarrow> AccessController \<times> grant_files" where
  "on_peer_granted to_json now written peer_id = (\<lambda>(ac, fs).
     let (g, fs) = grants_insert to_json now written peer_id (grants_of ac, fs) in (set_grants g ac, fs))"

definition check_code :: "string \<Rightarrow> string \<Rightarrow> bool" where
  "check_code code submitted \<longleftrightarrow> code \<noteq> [] \<and> submitted = code"

fun check_submission :: "AccessController \<Rightarrow> string option \<Rightarrow> bool" where
  "check_submission (CodeGateAccessController code _) submitted =
     (case submitted of Some c \<Rightarrow> check_code code c | None \<Rightarrow> False)"
| "check_submission _ _ = True"

definition portal_entry_path :: "AccessController \<Rightarrow> string" where
  "portal_entry_path ac = ''/access.html''"

fun mode_name :: "AccessController \<Rightarrow> string" where
  "mode_name (OpenAccessController _) = ''open''"
| "mode_name (TOSAccessController _) = ''tos''"
| "mode_name (AdGateAccessController _) = ''ad''"
| "mode_name (CodeGateAccessController _ _) = ''code''"

definition grants_path :: "string \<Rightarrow> AccessMode \<Rightarrow> string" where
  "grants_path data_dir mode =
     data_dir @ ''/'' @
     (case mode of
        Open \<Rightarrow> ''access_grants_open.json'' | Tos \<Rightarrow> ''access_grants_tos.json''
      | Ad \<Rightarrow> ''access_grants_ad.json'' | Code \<Rightarrow> ''access_grants_code.json'')"

definition create_access_controller ::
  "(string \<Rightarrow> GrantsFile option) \<Rightarrow> grant_files \<Rightarrow> AccessMode \<Rightarrow> string \<Rightarrow> string \<Rightarrow> AccessController" where
  "create_access_controller from_json fs mode code data_dir =
     (let g = grants_new from_json fs (grants_path data_dir mode) in
      case mode of
        Open \<Rightarrow> OpenAccessController g
      | Tos \<Rightarrow> TOSAccessController g
      | Ad \<Rightarrow> AdGateAccessController g
      | Code \<Rightarrow> CodeGateAccessController code g)"

subsection \<open>Relay tickets\<close>

text \<open>
  \<open>show_f64\<close> is Rust's \<open>Display\<close> of a float, \<open>sign\<close> the signing of bytes with the supernode's key and
  \<open>verify_sig\<close> its verification; the clock is an argument.
\<close>

definition TICKET_TTL_S :: real where "TICKET_TTL_S = 3600"
definition RENEWAL_WINDOW_S :: real where "RENEWAL_WINDOW_S = 600"

record RelayTicket =
  tk_peer_id :: string
  tk_relay_host :: string
  tk_relay_port :: u16
  tk_expires_at :: real
  tk_signature :: bytes

definition ticket_canonical_bytes :: "(real \<Rightarrow> string) \<Rightarrow> (u16 \<Rightarrow> string) \<Rightarrow> RelayTicket \<Rightarrow> string" where
  "ticket_canonical_bytes show_f64 show_u16 t =
     tk_peer_id t @ '':'' @ tk_relay_host t @ '':'' @ show_u16 (tk_relay_port t) @ '':'' @ show_f64 (tk_expires_at t)"

definition ticket_create ::
  "(real \<Rightarrow> string) \<Rightarrow> (u16 \<Rightarrow> string) \<Rightarrow> (string \<Rightarrow> bytes) \<Rightarrow> real \<Rightarrow> string \<Rightarrow> string \<Rightarrow> u16 \<Rightarrow> RelayTicket" where
  "ticket_create show_f64 show_u16 sign now peer_id relay_host relay_port =
     (let ticket = \<lparr>tk_peer_id = peer_id, tk_relay_host = relay_host, tk_relay_port = relay_port,
                    tk_expires_at = now + TICKET_TTL_S, tk_signature = []\<rparr>
      in ticket\<lparr>tk_signature := sign (ticket_canonical_bytes show_f64 show_u16 ticket)\<rparr>)"

definition ticket_verify ::
  "(real \<Rightarrow> string) \<Rightarrow> (u16 \<Rightarrow> string) \<Rightarrow> (string \<Rightarrow> bytes \<Rightarrow> bool) \<Rightarrow> RelayTicket \<Rightarrow> bool" where
  "ticket_verify show_f64 show_u16 verify_sig t =
     (if length (tk_signature t) \<noteq> 64 then False
      else verify_sig (ticket_canonical_bytes show_f64 show_u16 t) (tk_signature t))"

definition ticket_is_expired :: "real \<Rightarrow> RelayTicket \<Rightarrow> bool" where
  "ticket_is_expired now t \<longleftrightarrow> tk_expires_at t < now"

definition ticket_needs_renewal :: "real \<Rightarrow> RelayTicket \<Rightarrow> bool" where
  "ticket_needs_renewal now t \<longleftrightarrow> tk_expires_at t - now \<le> RENEWAL_WINDOW_S"

subsection \<open>Grants and their file\<close>

definition loaded_grants :: "(string \<Rightarrow> GrantsFile option) \<Rightarrow> grant_files \<Rightarrow> string \<Rightarrow> string set" where
  "loaded_grants from_json fs path =
     (case hm_get fs path of None \<Rightarrow> {} | Some data \<Rightarrow> (case from_json data of None \<Rightarrow> {} | Some f \<Rightarrow> set (gf_granted f)))"

lemma foldl_grant:
  "set (granted (foldl (\<lambda>g peer. g\<lparr>granted := hs_insert peer (granted g)\<rparr>) g ps)) = set (granted g) \<union> set ps"
  "gs_path (foldl (\<lambda>g peer. g\<lparr>granted := hs_insert peer (granted g)\<rparr>) g ps) = gs_path g"
  by (induction ps arbitrary: g) (auto simp: hs_insert_def)

lemma grants_new_set [simp]:
  "set (granted (grants_new from_json fs path)) = loaded_grants from_json fs path"
  "gs_path (grants_new from_json fs path) = Some path"
  by (auto simp: grants_new_def grants_load_def loaded_grants_def foldl_grant split: option.split)

lemma grants_of_create [simp]:
  "grants_of (create_access_controller from_json fs mode code dir) = grants_new from_json fs (grants_path dir mode)"
  by (cases mode) (simp_all add: create_access_controller_def Let_def)

lemma grants_of_set [simp]: "grants_of (set_grants g ac) = g"
  by (cases ac) simp_all

lemma grants_path_inj [simp]: "grants_path dir mode = grants_path dir mode' \<longleftrightarrow> mode = mode'"
  by (cases mode; cases mode') (simp_all add: grants_path_def)

definition file_follows :: "(string \<Rightarrow> GrantsFile option) \<Rightarrow> string \<Rightarrow> AccessController \<times> grant_files \<Rightarrow> bool" where
  "file_follows from_json path s \<longleftrightarrow>
     gs_path (grants_of (fst s)) = Some path \<and> set (granted (grants_of (fst s))) = loaded_grants from_json (snd s) path"

lemma on_peer_granted_follows:
  assumes json: "\<And>f. map_option gf_granted (from_json (to_json f)) = Some (gf_granted f)"
    and s: "file_follows from_json path s" and s': "s' = on_peer_granted to_json now True peer s"
  shows "file_follows from_json path s' \<and>
    loaded_grants from_json (snd s') q = (if q = path then insert peer (loaded_grants from_json (snd s) q) else loaded_grants from_json (snd s) q)"
proof -
  obtain ac fs where [simp]: "s = (ac, fs)" by (cases s)
  have [simp]: "gs_path (grants_of ac) = Some path" and same: "set (granted (grants_of ac)) = loaded_grants from_json fs path"
    using s by (simp_all add: file_follows_def)
  let ?g = "(grants_of ac)\<lparr>granted := hs_insert peer (granted (grants_of ac))\<rparr>"
  let ?f = "\<lparr>gf_version = 1, gf_updated_at = now, gf_granted = granted ?g\<rparr>"
  have [simp]: "set (hs_insert peer xs) = insert peer (set xs)" for xs :: "string list" by (auto simp: hs_insert_def)
  have reads: "loaded_grants from_json (hm_insert path (to_json ?f) fs) q = (if q = path then set (granted ?g) else loaded_grants from_json fs q)" for q
    using json [of ?f] by (auto simp: loaded_grants_def hm_get_insert)
  show ?thesis
  proof (cases "peer \<in> set (granted (grants_of ac))")
    case True
    then have "s' = s" using s' by (cases ac) (simp_all add: on_peer_granted_def grants_insert_def)
    then show ?thesis using s True same by auto
  next
    case False
    then have "s' = (set_grants ?g ac, hm_insert path (to_json ?f) fs)"
      using s' by (simp add: on_peer_granted_def grants_insert_def grants_save_def Let_def)
    then show ?thesis using reads same by (simp add: file_follows_def)
  qed
qed

lemma grant_run_follows:
  assumes json: "\<And>f. map_option gf_granted (from_json (to_json f)) = Some (gf_granted f)"
    and "file_follows from_json path s" "s' = foldl (\<lambda>s (now, peer). on_peer_granted to_json now True peer s) s grants"
  shows "loaded_grants from_json (snd s') q = (if q = path then snd ` set grants \<union> loaded_grants from_json (snd s) q else loaded_grants from_json (snd s) q)"
  using assms(2,3)
proof (induction grants arbitrary: s)
  case (Cons c grants)
  obtain now peer where c: "c = (now, peer)" by (cases c)
  note one = on_peer_granted_follows [where path = path and from_json = from_json and to_json = to_json, OF json Cons.prems(1) refl, of now peer q]
  show ?case using Cons.IH [OF conjunct1 [OF one]] one Cons.prems(2) c by auto
qed simp

text \<open>
  Grants survive a restart and stay with their gate. Peers are granted access one after the other,
  each grant written to the gate's file, and the supernode is started again, in any access mode and with
  any access code: a peer then has access exactly when the file of that mode admitted it before, or it
  was granted access and the mode is the one it was granted in. Of the serialisation it is assumed only
  that it reads back the grants it has written.
\<close>

theorem grants_survive_restart:
  assumes json: "\<And>f. map_option gf_granted (from_json (to_json f)) = Some (gf_granted f)"
    and started: "ac = create_access_controller from_json fs mode code dir"
    and run: "(ac', fs') = foldl (\<lambda>s (now, peer). on_peer_granted to_json now True peer s) (ac, fs) grants"
  shows "check_access (create_access_controller from_json fs' mode' code' dir) p \<longleftrightarrow>
    check_access (create_access_controller from_json fs mode' code'' dir) p \<or> mode' = mode \<and> p \<in> snd ` set grants"
proof -
  have "file_follows from_json (grants_path dir mode) (ac, fs)" by (simp add: file_follows_def started)
  from grant_run_follows [where from_json = from_json and to_json = to_json, OF json this run]
  show ?thesis by (auto simp: check_access_def grants_contains_def)
qed

text \<open>A concrete serialisation of the grants: every character escaped, every entry ended by a period.\<close>

definition enc_grant :: "string \<Rightarrow> string" where
  "enc_grant s = concat (map (\<lambda>c. [CHR ''x'', c]) s) @ ''.''"

fun dec_grants :: "string \<Rightarrow> string \<Rightarrow> string list" where
  "dec_grants acc (x # c # r) = (if x = CHR ''x'' then dec_grants (acc @ [c]) r else acc # dec_grants [] (c # r))"
| "dec_grants acc [x] = [acc]"
| "dec_grants acc [] = []"

definition enc_file :: "GrantsFile \<Rightarrow> string" where
  "enc_file f = concat (map enc_grant (gf_granted f))"

definition dec_file :: "string \<Rightarrow> GrantsFile option" where
  "dec_file t = Some \<lparr>gf_version = 1, gf_updated_at = 0, gf_granted = dec_grants [] t\<rparr>"

lemma dec_enc_file: "map_option gf_granted (dec_file (enc_file f)) = Some (gf_granted f)"
proof -
  have "dec_grants acc (''.'' @ r) = acc # dec_grants [] r" for acc r by (cases r) simp_all
  then have one: "dec_grants acc (enc_grant s @ r) = (acc @ s) # dec_grants [] r" for acc s r
    by (induction s arbitrary: acc) (simp_all add: enc_grant_def)
  have "dec_grants [] (concat (map enc_grant gs)) = gs" for gs by (induction gs) (simp_all add: one)
  then show ?thesis by (simp add: dec_file_def enc_file_def)
qed

theorem grants_survive_restart_witness:
  "let s = foldl (\<lambda>s (now, peer). on_peer_granted enc_file now True peer s)
         (create_access_controller dec_file [] Code ''secret'' ''/d'', []) [(1, ''alice'')]
   in check_access (create_access_controller dec_file (snd s) Code ''other'' ''/d'') ''alice'' \<and>
      \<not> check_access (create_access_controller dec_file (snd s) Open '''' ''/d'') ''alice''"
  using grants_survive_restart [where from_json = dec_file and to_json = enc_file, OF dec_enc_file refl prod.collapse,
      where fs = "[]" and mode = Code and code = "''secret''" and dir = "''/d''" and grants = "[(1, ''alice'')]" and p = "''alice''"]
  by (simp add: Let_def check_access_def grants_contains_def loaded_grants_def)

end
