(* ===== verification/Supernode_State.thy ===== *)
theory Supernode_State
  imports Relay Sfu_Manager Space Peer_Store Access Handshake "HOL-Library.Product_Lexorder" "HOL-Library.Option_ord"
begin

section \<open>The supernode: state, admission and tickets (\<open>main.rs\<close>, \<open>SupernodeState\<close>)\<close>

text \<open>
  The supernode ties the components together: who is trusted (\<open>Peer_Store\<close>), who has passed the gate
  (\<open>Access\<close>), the rooms (\<open>Sfu_Manager\<close>), the relay (\<open>Relay\<close>) and the signed Space roots (\<open>Space\<close>).
  A method takes the state and returns it updated with what it sends, as a list of \<open>sn_out\<close>. What a
  call reads of the outside world is its \<open>sn_env\<close>: the clock, the random nonce, the codecs, the
  operating system's answer to a write, and which peers have a signalling socket. A log line is not
  modelled; neither is the content of \<open>SUPERNODE_INFO\<close>, \<open>VERSION_ANNOUNCE\<close> and \<open>BUILD_ATTESTATION\<close>.
  A \<open>write()\<close> of a lock is taken for the length of one operation, so operations do not interleave.
\<close>

record sn_env =
  ev_prims :: space_prims
  ev_b64 :: b64
  ev_now :: real
  ev_now_secs :: u64
  ev_nonce :: string
  ev_written :: bool
  ev_connected :: "string \<Rightarrow> bool"
  ev_grants_json :: "GrantsFile \<Rightarrow> string"
  ev_peers_json :: "PeerRecord list \<Rightarrow> string"
  ev_show_f64 :: "real \<Rightarrow> string"
  ev_show_u16 :: "u16 \<Rightarrow> string"
  ev_sign :: "string \<Rightarrow> bytes"
  ev_parse :: "string \<Rightarrow> json option"
  ev_proof :: "json \<Rightarrow> SpaceInclusionProof option"
  ev_root :: "json \<Rightarrow> SignedSpaceRoot option"
  ev_grant :: "json \<Rightarrow> SpaceGrant option"
  ev_hs :: hs_env

text \<open>
  The codecs of the supernode's own \<open>crypto.rs\<close>: \<open>b64url_decode\<close> appends the padding only to strip it
  again and decodes without padding.
\<close>

definition supernode_prims :: "sn_env \<Rightarrow> space_prims" where
  "supernode_prims env = (ev_prims env)\<lparr>url_safe_decode := \<lambda>_. None,
     url_safe_no_pad_decode := \<lambda>s. url_safe_no_pad_decode (ev_prims env) (trim_end_matches (CHR ''='') (padded4 s))\<rparr>"

definition derive_peer_id :: "sn_env \<Rightarrow> bytes \<Rightarrow> string" where
  "derive_peer_id env pub_key = sha256_hex (ev_prims env) pub_key"

record SpaceRootStore =
  roots :: "(string, SignedSpaceRoot) hmap"
  equivocations :: "(string, u32) hmap"

record PunchRegistration =
  registered_at :: real
  punch_endpoints :: "(string, string) hmap"

record SfuRoomCreationPolicy =
  allow_public :: bool
  allow_private :: bool

record 'm SupernodeState =
  st_peers :: PeerStore
  st_peers_file :: "string option"
  st_handshake :: HandshakeManager
  st_relay :: "RelayState option"
  st_sfu :: "SFURoomManager option"
  st_access :: AccessController
  st_grant_files :: grant_files
  st_ticket_expiry :: "(string, real) hmap"
  st_mailbox :: "(string, string) hmap"
  st_mailbox_file :: "(string \<times> string \<times> real) list option"
  st_punches :: "(string \<times> string, PunchRegistration) hmap"
  st_features :: "'m FeatureRegistry"
  st_room_policy :: SfuRoomCreationPolicy
  st_clustered :: bool
  st_space_roots :: SpaceRootStore
  st_room_list_dirty :: bool
  st_external_host :: "string option"
  st_relay_port :: u16

record room_entry =
  re_room_id :: string
  re_name :: string
  re_member_count :: nat
  re_chat_count :: nat
  re_participant_ids :: "string list"
  re_room_type :: RoomType
  re_creator_id :: string
  re_is_default :: bool

record room_created =
  rc_room_id :: string
  rc_room_name :: string
  rc_room_type :: RoomType
  rc_denied :: "string option"
  rc_invite_token :: "string option"

datatype invite_result =
    InviteAnswer bool string RoomType nat
  | TokenMinted string
  | MintRefused string

datatype sn_out =
    RelayGranted string RelayTicket bool string
  | SupernodeInfo string
  | CapabilityAnnounce string
  | VersionAnnounce string
  | BuildAttestation string
  | SfuRoomList string "room_entry list"
  | SfuMembers string string "string list" "string list" "(string \<times> DeviceId option \<times> bool) list"
  | SfuPeerJoined string string string
  | SfuPeerLeft string string string
  | SfuJoinResult string string string
  | SfuRoomCreated string room_created
  | SfuRoomInviteResult string string invite_result
  | GameRelayJoined string string string
  | RelayRevoke string string
  | InviteHandshakeAccept string HandshakeAccept
  | InviteHandshakeReject string handshake_error
  | WelcomePeers string "PeerRecord list"
  | PunchReady string string string string real bool
  | ForwardRaw string string
  | GossipSpaceRoot SignedSpaceRoot
  | GossipPeerAuth string string bool bool
  | Relayed relay_out

type_synonym 'm sn_res = "sn_out list \<times> 'm SupernodeState"

definition and_then :: "'m sn_res \<Rightarrow> ('m SupernodeState \<Rightarrow> 'm sn_res) \<Rightarrow> 'm sn_res" where
  "and_then r f = (let (out1, s) = r; (out2, s) = f s in (out1 @ out2, s))"

text \<open>\<open>if let Some(ref relay) = self.relay { ... }\<close> and the same for the rooms.\<close>

definition with_relay :: "(RelayState \<Rightarrow> relay_out list \<times> RelayState) \<Rightarrow> 'm SupernodeState \<Rightarrow> 'm sn_res" where
  "with_relay f s =
     (case st_relay s of None \<Rightarrow> ([], s)
      | Some r \<Rightarrow> let (outs, r) = f r in (map Relayed outs, s\<lparr>st_relay := Some r\<rparr>))"

definition with_rooms :: "(SFURoomManager \<Rightarrow> SFURoomManager) \<Rightarrow> 'm SupernodeState \<Rightarrow> 'm SupernodeState" where
  "with_rooms f s = s\<lparr>st_sfu := map_option f (st_sfu s)\<rparr>"

definition save_peers :: "sn_env \<Rightarrow> 'm SupernodeState \<Rightarrow> 'm SupernodeState" where
  "save_peers env s = (if ev_written env then s\<lparr>st_peers_file := Some (store_save (ev_peers_json env) (st_peers s))\<rparr> else s)"

subsection \<open>Signed Space roots\<close>

definition roots_default :: SpaceRootStore where
  "roots_default = \<lparr>roots = [], equivocations = []\<rparr>"

definition roots_accept :: "space_prims \<Rightarrow> SpaceRootStore \<Rightarrow> SignedSpaceRoot \<Rightarrow> bool \<times> SpaceRootStore" where
  "roots_accept prm st r =
     (if \<not> root_verify prm r then (False, st)
      else
        let store = (True, st\<lparr>roots := hm_insert (sr_space_id r) r (roots st)\<rparr>) in
        case hm_get (roots st) (sr_space_id r) of
          None \<Rightarrow> store
        | Some old \<Rightarrow>
            if sr_signer old \<noteq> sr_signer r then (False, st)
            else if sr_epoch r = sr_epoch old \<and> sr_root_hash r \<noteq> sr_root_hash old then
              (let n = (case hm_get (equivocations st) (sr_space_id r) of Some n \<Rightarrow> n | None \<Rightarrow> 0)
               in (False, st\<lparr>equivocations := hm_insert (sr_space_id r) (n + 1) (equivocations st)\<rparr>))
            else if sr_epoch r \<le> sr_epoch old then (False, st)
            else store)"

definition roots_get :: "SpaceRootStore \<Rightarrow> string \<Rightarrow> SignedSpaceRoot option" where
  "roots_get st space_id = hm_get (roots st) space_id"

definition roots_all :: "SpaceRootStore \<Rightarrow> SignedSpaceRoot list" where
  "roots_all st = hm_values (roots st)"

definition equivocation_count :: "SpaceRootStore \<Rightarrow> u32" where
  "equivocation_count st = sum_list (hm_values (equivocations st))"

definition space_admission_ok ::
  "space_prims \<Rightarrow> SignedSpaceRoot \<Rightarrow> SpaceInclusionProof \<Rightarrow> SpaceGrant option \<Rightarrow> string \<Rightarrow> string \<Rightarrow> u64 \<Rightarrow> bool" where
  "space_admission_ok prm sroot proof grant sender rid now =
     (if sn_node_id (ip_node proof) \<noteq> rid \<or> \<not> verify_against prm proof sroot then False
      else if sn_node_type (ip_node proof) \<noteq> ''private'' then True
      else case grant of None \<Rightarrow> False
      | Some g \<Rightarrow>
          if \<not> grant_verify prm g (sr_signer sroot) \<or> sg_node_id g \<noteq> rid \<or>
             trim_end_matches (CHR ''='') (sg_grantee_pub g) \<noteq> trim_end_matches (CHR ''='') sender \<or>
             sg_epoch g > sr_epoch sroot
          then False
          else sg_expires_at g = 0 \<or> now \<le> sg_expires_at g)"

subsection \<open>Trust markers and access\<close>

definition ROOM_GUEST_TRANSCRIPT_MARKER :: string where
  "ROOM_GUEST_TRANSCRIPT_MARKER = ''room-guest''"

definition REPLICATED_DIRECT_INVITE_MARKER :: string where
  "REPLICATED_DIRECT_INVITE_MARKER = ''replicated-direct-invite''"

definition is_direct_invite_transcript :: "string \<Rightarrow> bool" where
  "is_direct_invite_transcript transcript_hash \<longleftrightarrow> transcript_hash \<noteq> [] \<and> transcript_hash \<noteq> ROOM_GUEST_TRANSCRIPT_MARKER"

definition pad_base64url :: "string \<Rightarrow> string" where
  "pad_base64url s = (if length s mod 4 = 0 then s else s @ replicate (4 - length s mod 4) (CHR ''=''))"

definition is_direct_invite_peer :: "'m SupernodeState \<Rightarrow> string \<Rightarrow> bool" where
  "is_direct_invite_peer s peer_id =
     (case get_peer (st_peers s) peer_id of None \<Rightarrow> False
      | Some p \<Rightarrow> \<not> pr_revoked p \<and> \<not> pr_blocked p \<and> is_direct_invite_transcript (pr_transcript_hash p))"

definition check_peer_access :: "'m SupernodeState \<Rightarrow> string \<Rightarrow> bool" where
  "check_peer_access s peer_id =
     (if mode_name (st_access s) = ''open'' then
        (case get_peer (st_peers s) peer_id of
           None \<Rightarrow> False
         | Some p \<Rightarrow>
             if pr_revoked p \<or> pr_blocked p then False
             else if pr_transcript_hash p = ROOM_GUEST_TRANSCRIPT_MARKER then check_access (st_access s) peer_id
             else True)
      else check_access (st_access s) peer_id)"

definition grant_access :: "sn_env \<Rightarrow> string \<Rightarrow> 'm SupernodeState \<Rightarrow> 'm SupernodeState" where
  "grant_access env identity_pub s =
     (let (ac, fs) = on_peer_granted (ev_grants_json env) (ev_now env) (ev_written env) identity_pub (st_access s, st_grant_files s)
      in s\<lparr>st_access := ac, st_grant_files := fs\<rparr>)"

subsection \<open>Tickets\<close>

definition issue_ticket :: "sn_env \<Rightarrow> string \<Rightarrow> bool \<Rightarrow> 'm SupernodeState \<Rightarrow> 'm sn_res" where
  "issue_ticket env peer_pub portal_only s =
     (case st_relay s of None \<Rightarrow> ([], s)
      | Some relay \<Rightarrow>
          let external = (case st_external_host s of Some h \<Rightarrow> h | None \<Rightarrow> ''0.0.0.0'');
              ticket = ticket_create (ev_show_f64 env) (ev_show_u16 env) (ev_sign env) (ev_now env) peer_pub external (st_relay_port s);
              relay = (if portal_only then allow_portal_peer relay peer_pub else allow_peer_update relay peer_pub);
              s = s\<lparr>st_relay := Some relay\<rparr>;
              s = s\<lparr>st_ticket_expiry := hm_insert peer_pub (tk_expires_at ticket) (st_ticket_expiry s)\<rparr>
          in ([RelayGranted peer_pub ticket portal_only (mode_name (st_access s)), SupernodeInfo peer_pub], s))"

definition issue_relay_ticket :: "sn_env \<Rightarrow> string \<Rightarrow> 'm SupernodeState \<Rightarrow> 'm sn_res" where
  "issue_relay_ticket env peer_pub = issue_ticket env peer_pub False"

definition issue_portal_ticket :: "sn_env \<Rightarrow> string \<Rightarrow> 'm SupernodeState \<Rightarrow> 'm sn_res" where
  "issue_portal_ticket env peer_pub = issue_ticket env peer_pub True"

definition issue_ticket_for_access_state :: "sn_env \<Rightarrow> string \<Rightarrow> 'm SupernodeState \<Rightarrow> 'm sn_res" where
  "issue_ticket_for_access_state env peer_pub s =
     (if check_peer_access s peer_pub then issue_relay_ticket env peer_pub s else issue_portal_ticket env peer_pub s)"

definition renew_one :: "sn_env \<Rightarrow> string \<times> real \<Rightarrow> 'm SupernodeState \<Rightarrow> 'm sn_res" where
  "renew_one env pe s =
     (if \<not> ev_connected env (fst pe) then ([], s)
      else if snd pe - ev_now env > RENEWAL_WINDOW_S then ([], s)
      else issue_ticket_for_access_state env (fst pe) s)"

definition check_ticket_renewals :: "sn_env \<Rightarrow> 'm SupernodeState \<Rightarrow> 'm sn_res" where
  "check_ticket_renewals env s = foldl (\<lambda>r pe. and_then r (renew_one env pe)) ([], s) (st_ticket_expiry s)"

subsection \<open>Trust\<close>

definition announce_capabilities_to :: "string \<Rightarrow> 'm SupernodeState \<Rightarrow> 'm sn_res" where
  "announce_capabilities_to identity_pub s = ([CapabilityAnnounce identity_pub], s)"

definition replicate_peer_auth :: "string \<Rightarrow> 'm SupernodeState \<Rightarrow> 'm sn_res" where
  "replicate_peer_auth identity_pub s =
     (if \<not> st_clustered s then ([], s)
      else
        let (handle, direct_invite) =
              (case get_peer (st_peers s) identity_pub of
                 Some p \<Rightarrow> (pr_handle p, is_direct_invite_transcript (pr_transcript_hash p))
               | None \<Rightarrow> ([], False));
            access_granted = check_access (st_access s) identity_pub
        in ([GossipPeerAuth identity_pub handle direct_invite access_granted], s))"

definition replay_endpoint_updates :: "string \<Rightarrow> 'm SupernodeState \<Rightarrow> 'm sn_res" where
  "replay_endpoint_updates target s =
     (map (\<lambda>(_, raw). ForwardRaw target raw)
        (filter (\<lambda>(sender_id, _). sender_id \<noteq> target \<and> is_trusted (st_peers s) sender_id) (st_mailbox s)), s)"

definition on_endpoint_update :: "sn_env \<Rightarrow> string \<Rightarrow> string \<Rightarrow> 'm SupernodeState \<Rightarrow> 'm SupernodeState" where
  "on_endpoint_update env sender raw s =
     (let s = s\<lparr>st_mailbox := hm_insert sender raw (st_mailbox s)\<rparr>
      in if ev_written env then s\<lparr>st_mailbox_file := Some (map (\<lambda>(p, raw). (p, raw, ev_now env)) (st_mailbox s))\<rparr> else s)"

definition on_peer_trusted :: "sn_env \<Rightarrow> string \<Rightarrow> 'm SupernodeState \<Rightarrow> 'm sn_res" where
  "on_peer_trusted env identity_pub s =
     and_then (and_then (and_then (announce_capabilities_to identity_pub s) (replicate_peer_auth identity_pub))
       (issue_ticket_for_access_state env identity_pub)) (replay_endpoint_updates identity_pub)"

definition new_peer_record :: "sn_env \<Rightarrow> string \<Rightarrow> string \<Rightarrow> string \<Rightarrow> PeerRecord" where
  "new_peer_record env identity_pub handle transcript =
     \<lparr>pr_peer_id = (case b64url_decode (supernode_prims env) identity_pub of Some b \<Rightarrow> derive_peer_id env b | None \<Rightarrow> []),
      pr_identity_pub = identity_pub, pr_relay_hints = [], pr_handle = handle, pr_blocked = False, pr_revoked = False,
      pr_auto_connect = False, pr_is_supernode = False, pr_transcript_hash = transcript,
      pr_created_at = ev_now env, pr_last_seen_at = ev_now env, pr_quic_port = 0\<rparr>"

definition ensure_relay_for_room_guest :: "sn_env \<Rightarrow> string \<Rightarrow> 'm SupernodeState \<Rightarrow> 'm sn_res" where
  "ensure_relay_for_room_guest env peer_pub s =
     (if \<not> is_trusted (st_peers s) peer_pub then
        (let s = s\<lparr>st_peers := add_peer (st_peers s) (new_peer_record env peer_pub [] ROOM_GUEST_TRANSCRIPT_MARKER)\<rparr>;
             s = save_peers env s
         in on_peer_trusted env peer_pub s)
      else issue_ticket_for_access_state env peer_pub s)"

definition on_peer_revoked :: "sn_env \<Rightarrow> string \<Rightarrow> 'm SupernodeState \<Rightarrow> 'm sn_res" where
  "on_peer_revoked env identity_pub s =
     (let (outs, s) =
            (case st_relay s of None \<Rightarrow> ([], s)
             | Some r \<Rightarrow> let (outs, r, features) = revoke_peer (ev_b64 env) r (st_features s) identity_pub
                         in (map Relayed outs, s\<lparr>st_relay := Some r, st_features := features\<rparr>));
          s = s\<lparr>st_ticket_expiry := hm_remove identity_pub (st_ticket_expiry s)\<rparr>;
          s = with_rooms (\<lambda>m. snd (remove_peer_from_all (ev_now env) m identity_pub)) s
      in (outs @ [RelayRevoke identity_pub ''trust_revoked''], s))"

definition grant_portal_access :: "sn_env \<Rightarrow> string \<Rightarrow> string option \<Rightarrow> 'm SupernodeState \<Rightarrow> bool \<times> 'm sn_res" where
  "grant_portal_access env relay_peer_id submitted s =
     (let identity_pub = pad_base64url relay_peer_id in
      if \<not> is_trusted (st_peers s) identity_pub then (False, [], s)
      else if \<not> check_submission (st_access s) submitted then (False, [], s)
      else (True, and_then (issue_relay_ticket env identity_pub (grant_access env identity_pub s)) (replicate_peer_auth identity_pub)))"

definition portal_access_status :: "'m SupernodeState \<Rightarrow> string \<Rightarrow> bool \<times> string \<times> bool \<times> bool \<times> string" where
  "portal_access_status s relay_peer_id =
     (let identity_pub = pad_base64url relay_peer_id;
          direct_invite = is_direct_invite_peer s identity_pub;
          granted = check_peer_access s identity_pub;
          mode = mode_name (st_access s)
      in (granted, mode, direct_invite, \<not> granted, portal_entry_path (st_access s)))"

definition get_rooms_for_peer :: "SFURoomManager \<Rightarrow> string \<Rightarrow> room_entry list" where
  "get_rooms_for_peer m peer_id =
     map (\<lambda>r. \<lparr>re_room_id = room_id r, re_name = room_name r, re_member_count = participant_count r,
               re_chat_count = length (chat_recipient_ids r), re_participant_ids = participant_ids r,
               re_room_type = room_type r, re_creator_id = creator_id r, re_is_default = (room_id r = DEFAULT_ROOM_ID)\<rparr>)
       (filter (\<lambda>r. is_public r \<or> is_peer_allowed r peer_id) (hm_values m))"

definition send_room_list :: "string \<Rightarrow> 'm SupernodeState \<Rightarrow> 'm sn_res" where
  "send_room_list target s =
     (case st_sfu s of None \<Rightarrow> ([], s) | Some m \<Rightarrow> ([SfuRoomList target (get_rooms_for_peer m target)], s))"

definition broadcast_room_list :: "'m SupernodeState \<Rightarrow> 'm SupernodeState" where
  "broadcast_room_list s = s\<lparr>st_room_list_dirty := True\<rparr>"

definition broadcast_room_list_now :: "string list \<Rightarrow> 'm SupernodeState \<Rightarrow> 'm sn_res" where
  "broadcast_room_list_now online s =
     (case st_sfu s of None \<Rightarrow> ([], s)
      | Some m \<Rightarrow> (map (\<lambda>p. SfuRoomList p (get_rooms_for_peer m p)) (filter (is_trusted (st_peers s)) online), s))"

definition signaling_peer_connected :: "sn_env \<Rightarrow> string \<Rightarrow> bool" where
  "signaling_peer_connected env identity_pub =
     (if ev_connected env identity_pub then True
      else
        let bare = trim_end_matches (CHR ''='') identity_pub in
        if bare \<noteq> identity_pub \<and> ev_connected env bare then True
        else let padded = normalize_public_id identity_pub in padded \<noteq> identity_pub \<and> ev_connected env padded)"

definition refresh_connected_replicated_peer :: "sn_env \<Rightarrow> string \<Rightarrow> 'm SupernodeState \<Rightarrow> 'm sn_res" where
  "refresh_connected_replicated_peer env identity_pub s =
     and_then (and_then (announce_capabilities_to identity_pub s) (issue_ticket_for_access_state env identity_pub)) (send_room_list identity_pub)"

definition store_peer_auth :: "sn_env \<Rightarrow> string \<Rightarrow> string \<Rightarrow> bool \<Rightarrow> 'm SupernodeState \<Rightarrow> bool \<times> 'm SupernodeState" where
  "store_peer_auth env identity_pub handle direct_invite s =
     (let transcript = (if direct_invite then REPLICATED_DIRECT_INVITE_MARKER else ROOM_GUEST_TRANSCRIPT_MARKER) in
      case get_peer (st_peers s) identity_pub of
        Some p \<Rightarrow>
          let renamed = (handle \<noteq> [] \<and> pr_handle p \<noteq> handle);
              p = (if renamed then p\<lparr>pr_handle := handle\<rparr> else p);
              upgraded = (direct_invite \<and> \<not> is_direct_invite_transcript (pr_transcript_hash p));
              p = (if upgraded then p\<lparr>pr_transcript_hash := transcript\<rparr> else p)
          in (upgraded, if renamed \<or> upgraded then save_peers env (s\<lparr>st_peers := add_peer (st_peers s) p\<rparr>) else s)
      | None \<Rightarrow> (True, save_peers env (s\<lparr>st_peers := add_peer (st_peers s) (new_peer_record env identity_pub handle transcript)\<rparr>)))"

definition apply_peer_auth :: "sn_env \<Rightarrow> string \<Rightarrow> string \<Rightarrow> bool \<Rightarrow> bool \<Rightarrow> 'm SupernodeState \<Rightarrow> 'm sn_res" where
  "apply_peer_auth env identity_pub handle direct_invite access_granted s =
     (let identity_pub = normalize_public_id identity_pub;
          s = (if access_granted \<and> \<not> check_access (st_access s) identity_pub then grant_access env identity_pub s else s);
          (newly_or_upgraded, s) = store_peer_auth env identity_pub handle direct_invite s;
          full = check_peer_access s identity_pub;
          s = s\<lparr>st_relay := map_option (\<lambda>r. if full then Relay.allow_peer r identity_pub else allow_portal_peer r identity_pub) (st_relay s)\<rparr>
      in if newly_or_upgraded \<and> signaling_peer_connected env identity_pub
         then refresh_connected_replicated_peer env identity_pub s else ([], s))"

subsection \<open>Rooms\<close>

definition room_type_of :: "string \<Rightarrow> RoomType" where
  "room_type_of t = (if t = ''public'' then Public else Private)"

definition local_allow_room_peer :: "sn_env \<Rightarrow> string \<Rightarrow> string \<Rightarrow> string \<Rightarrow> string \<Rightarrow> 'm SupernodeState \<Rightarrow> 'm SupernodeState" where
  "local_allow_room_peer env rid name rtype peer s =
     with_rooms (\<lambda>m.
       let m = snd (create_room (sha256_hex (ev_prims env)) (ev_now env) m (Some rid) name (room_type_of rtype) [])
       in snd (mgr_allow_peer m rid peer)) s"

definition apply_room_roster :: "sn_env \<Rightarrow> string \<times> string \<times> string \<times> string \<times> string \<Rightarrow> 'm SupernodeState \<Rightarrow> 'm SupernodeState" where
  "apply_room_roster env desc s =
     (let (rid, name, rtype, creator, policy) = desc in
      with_rooms (\<lambda>m. snd (create_room_with_policy (sha256_hex (ev_prims env)) (ev_now env) m (Some rid) name (room_type_of rtype) creator policy)) s)"

definition accept_and_gossip_space_root :: "sn_env \<Rightarrow> SignedSpaceRoot \<Rightarrow> 'm SupernodeState \<Rightarrow> bool \<times> 'm sn_res" where
  "accept_and_gossip_space_root env r s =
     (let (accepted, st) = roots_accept (supernode_prims env) (st_space_roots s) r;
          s = s\<lparr>st_space_roots := st\<rparr>
      in (accepted, if accepted \<and> st_clustered s then [GossipSpaceRoot r] else [], s))"

definition materialize_proven :: "sn_env \<Rightarrow> string \<Rightarrow> SpaceNode \<Rightarrow> 'm SupernodeState \<Rightarrow> 'm SupernodeState" where
  "materialize_proven env rid node s =
     with_rooms (\<lambda>m.
       let rt = (if sn_node_type node = ''private'' then Private else Public);
           m = snd (create_room_with_policy (sha256_hex (ev_prims env)) (ev_now env) m (Some rid) (sn_name node) rt [] (sn_invite_policy node))
       in snd (adopt_creator_if_empty m rid (sn_owner_pub node))) s"

definition try_space_admission :: "sn_env \<Rightarrow> string \<Rightarrow> string \<Rightarrow> json \<Rightarrow> 'm SupernodeState \<Rightarrow> bool \<times> 'm sn_res" where
  "try_space_admission env sender rid payload s =
     (case Option.bind (json_get payload ''space_proof'') (ev_proof env) of
        None \<Rightarrow> (False, [], s)
      | Some proof \<Rightarrow>
          if sn_node_id (ip_node proof) \<noteq> rid then (False, [], s)
          else
            (case Option.bind (json_get payload ''space_root'') (ev_root env) of
               None \<Rightarrow> (False, [], s)
             | Some carried \<Rightarrow>
                 let (_, outs, s) = accept_and_gossip_space_root env carried s in
                 (case roots_get (st_space_roots s) (sr_space_id carried) of
                    None \<Rightarrow> (False, outs, s)
                  | Some sroot \<Rightarrow>
                      if \<not> verify_against (supernode_prims env) proof sroot then (False, outs, s)
                      else
                        let rtype = (if sn_node_type (ip_node proof) = ''private'' then ''private'' else ''public'');
                            s = materialize_proven env rid (ip_node proof) s;
                            grant = Option.bind (json_get payload ''space_grant'') (ev_grant env)
                        in if \<not> space_admission_ok (supernode_prims env) sroot proof grant sender rid (ev_now_secs env)
                           then (False, outs, s)
                           else (True, outs, local_allow_room_peer env rid (sn_name (ip_node proof)) rtype sender s))))"

definition device_roster :: "SFURoom \<Rightarrow> (string \<times> DeviceId option \<times> bool) list" where
  "device_roster r = map (\<lambda>((i, d), st). (i, d, voice st)) (sort_key fst (device_members r))"

definition broadcast_sfu_members :: "string \<Rightarrow> 'm SupernodeState \<Rightarrow> 'm sn_res" where
  "broadcast_sfu_members rid s =
     (case st_sfu s of None \<Rightarrow> ([], s)
      | Some m \<Rightarrow>
          let members = (case hm_get m rid of Some r \<Rightarrow> participant_ids r | None \<Rightarrow> []);
              devices = (case hm_get m rid of Some r \<Rightarrow> device_roster r | None \<Rightarrow> []);
              chat_members = get_chat_recipients m rid
          in (map (\<lambda>p. SfuMembers p rid members chat_members devices) chat_members, s))"

end
