(* ===== verification/Supernode.thy ===== *)
theory Supernode
  imports Supernode_State
begin

section \<open>The message handlers of the supernode (\<open>main.rs\<close>, \<open>SupernodeHandler\<close>)\<close>

text \<open>
  Each handler below is the whole method of the same name on a message that the signalling layer has
  already authenticated: its sender is the peer that signed it. The room chat, audio, file and video
  broadcasts and the invite handshake are handled elsewhere.
\<close>

record SignalingMessage =
  sm_sender :: string
  sm_source_device :: "DeviceId option"
  sm_payload :: json

definition payload_str :: "json \<Rightarrow> string \<Rightarrow> string option" where
  "payload_str p k = Option.bind (json_get p k) json_as_str"

definition payload_or :: "json \<Rightarrow> string \<Rightarrow> string \<Rightarrow> string" where
  "payload_or p k d = (case payload_str p k of Some v \<Rightarrow> v | None \<Rightarrow> d)"

text \<open>\<open>.filter(|s| !s.is_empty())\<close>\<close>

definition nonempty :: "string option \<Rightarrow> string option" where
  "nonempty x = (case x of Some [] \<Rightarrow> None | y \<Rightarrow> y)"

text \<open>\<open>serde_json::from_value::<RoomType>\<close>: the two variants in lower case.\<close>

definition de_room_type :: "json \<Rightarrow> RoomType option" where
  "de_room_type v =
     (if v = Wire.JStr ''public'' then Some Public else if v = Wire.JStr ''private'' then Some Private else None)"

subsection \<open>Hole punching\<close>

definition get_peer_remote_addr :: "b64 \<Rightarrow> RelayState \<Rightarrow> string \<Rightarrow> string option" where
  "get_peer_remote_addr e r peer_id =
     (case endpoints e (peers r) (bare peer_id) of [] \<Rightarrow> None | (_, p) # _ \<Rightarrow> Some (remote_addr p))"

definition observed_addr :: "sn_env \<Rightarrow> 'm SupernodeState \<Rightarrow> string \<Rightarrow> string option" where
  "observed_addr env s peer_id = (case st_relay s of None \<Rightarrow> None | Some r \<Rightarrow> get_peer_remote_addr (ev_b64 env) r peer_id)"

definition strip_prefix :: "string \<Rightarrow> string \<Rightarrow> string option" where
  "strip_prefix pre s = (if take (length pre) s = pre then Some (drop (length pre) s) else None)"

definition resolve_punch_endpoint :: "sn_env \<Rightarrow> 'm SupernodeState \<Rightarrow> string \<Rightarrow> string option" where
  "resolve_punch_endpoint env s peer_id =
     (case observed_addr env s peer_id of
        Some addr \<Rightarrow> Some addr
      | None \<Rightarrow>
          (case hm_get (st_mailbox s) peer_id of None \<Rightarrow> None
           | Some raw \<Rightarrow>
               (case ev_parse env raw of None \<Rightarrow> None
                | Some msg \<Rightarrow>
                    (case Option.bind (Option.bind (json_get msg ''payload'') (\<lambda>p. json_get p ''listener'')) json_as_str of
                       None \<Rightarrow> None
                     | Some listener \<Rightarrow>
                         (case strip_prefix ''ws://'' listener of Some rest \<Rightarrow> Some rest | None \<Rightarrow> Some listener)))))"

definition send_punch_ready :: "sn_env \<Rightarrow> string \<Rightarrow> string \<Rightarrow> string \<Rightarrow> string \<Rightarrow> bool \<Rightarrow> sn_out list" where
  "send_punch_ready env peer_a peer_b ep_a ep_b verified =
     (let punch_at = ev_now env + 1 / 2
      in [PunchReady peer_a peer_b ep_b ep_a punch_at verified, PunchReady peer_b peer_a ep_a ep_b punch_at verified])"

definition try_relay_punch_for_room :: "sn_env \<Rightarrow> string \<Rightarrow> string \<Rightarrow> 'm SupernodeState \<Rightarrow> 'm sn_res" where
  "try_relay_punch_for_room env new_peer rid s =
     (case st_relay s of None \<Rightarrow> ([], s)
      | Some relay \<Rightarrow>
          (case resolve_punch_endpoint env s new_peer of None \<Rightarrow> ([], s)
           | Some new_ep \<Rightarrow>
               let new_norm = normalize_peer_id new_peer in
               (concat (map (\<lambda>other.
                  let other_norm = normalize_peer_id other in
                  if other_norm = new_norm then []
                  else case resolve_punch_endpoint env s other of None \<Rightarrow> []
                    | Some other_ep \<Rightarrow> send_punch_ready env new_norm other_norm new_ep other_ep False)
                 (get_room_peers relay rid)), s)))"

definition handle_punch_register_msg :: "sn_env \<Rightarrow> string \<Rightarrow> string \<Rightarrow> string \<Rightarrow> 'm SupernodeState \<Rightarrow> 'm sn_res" where
  "handle_punch_register_msg env sender target_peer sender_endpoint s =
     (let sender = normalize_peer_id sender; target_peer = normalize_peer_id target_peer in
      if \<not> is_trusted (st_peers s) sender then ([], s)
      else if \<not> is_trusted (st_peers s) target_peer then ([], s)
      else
        let pair_key = (if sender < target_peer then (sender, target_peer) else (target_peer, sender));
            entry = (case hm_get (st_punches s) pair_key of
                       Some r \<Rightarrow> r | None \<Rightarrow> \<lparr>registered_at = ev_now env, punch_endpoints = []\<rparr>);
            effective = (case observed_addr env s sender of Some a \<Rightarrow> a | None \<Rightarrow> sender_endpoint);
            entry = entry\<lparr>punch_endpoints := hm_insert sender effective (punch_endpoints entry)\<rparr>;
            punches = hm_insert pair_key entry (st_punches s)
        in if hm_contains (punch_endpoints entry) sender \<and> hm_contains (punch_endpoints entry) target_peer
           then
             let ep_a = (case hm_get (punch_endpoints entry) (fst pair_key) of Some x \<Rightarrow> x | None \<Rightarrow> []);
                 ep_b = (case hm_get (punch_endpoints entry) (snd pair_key) of Some x \<Rightarrow> x | None \<Rightarrow> [])
             in (send_punch_ready env (fst pair_key) (snd pair_key) ep_a ep_b True, s\<lparr>st_punches := hm_remove pair_key punches\<rparr>)
           else ([], s\<lparr>st_punches := filter (\<lambda>(_, info). \<not> ev_now env - registered_at info > 30) punches\<rparr>))"

definition handle_punch_register :: "sn_env \<Rightarrow> SignalingMessage \<Rightarrow> 'm SupernodeState \<Rightarrow> 'm sn_res" where
  "handle_punch_register env msg s =
     (let target = payload_or (sm_payload msg) ''target_peer'' []; endpoint = payload_or (sm_payload msg) ''sender_endpoint'' []
      in if target = [] \<or> endpoint = [] then ([], s) else handle_punch_register_msg env (sm_sender msg) target endpoint s)"

subsection \<open>Connections\<close>

definition on_peer_connected :: "sn_env \<Rightarrow> string \<Rightarrow> 'm SupernodeState \<Rightarrow> 'm sn_res" where
  "on_peer_connected env identity_pub s =
     (if \<not> is_trusted (st_peers s) identity_pub then ([], s)
      else
        let s = s\<lparr>st_peers := touch_peer (ev_now env) (st_peers s) identity_pub\<rparr> in
        and_then (and_then (on_peer_trusted env identity_pub s)
          (\<lambda>s. ([VersionAnnounce identity_pub, BuildAttestation identity_pub], s))) (send_room_list identity_pub))"

definition announce_departure :: "string \<Rightarrow> string \<times> string list \<Rightarrow> 'm SupernodeState \<Rightarrow> 'm sn_res" where
  "announce_departure identity_pub rm s =
     and_then (map (\<lambda>member. SfuPeerLeft member identity_pub (fst rm)) (snd rm), s) (broadcast_sfu_members (fst rm))"

definition on_peer_disconnected :: "sn_env \<Rightarrow> string \<Rightarrow> 'm SupernodeState \<Rightarrow> 'm sn_res" where
  "on_peer_disconnected env identity_pub s =
     (let s = s\<lparr>st_features := clear_quotas (st_features s) identity_pub\<rparr> in
      case st_sfu s of None \<Rightarrow> ([], s)
      | Some m \<Rightarrow>
          let (left_rooms, m) = remove_peer_from_all (ev_now env) m identity_pub;
              s = s\<lparr>st_sfu := Some m\<rparr>
          in if left_rooms = [] then ([], s)
             else and_then (foldl (\<lambda>r rm. and_then r (announce_departure identity_pub rm)) ([], s) left_rooms)
                    (\<lambda>s. ([], broadcast_room_list s)))"

definition on_endpoint_disconnected :: "sn_env \<Rightarrow> string \<Rightarrow> DeviceId option \<Rightarrow> 'm SupernodeState \<Rightarrow> 'm sn_res" where
  "on_endpoint_disconnected env identity_pub device s =
     and_then (with_relay (\<lambda>r. ([], relay_leave_room_endpoint (ev_b64 env) r identity_pub device)) s)
       (\<lambda>s. case st_sfu s of None \<Rightarrow> ([], s)
            | Some m \<Rightarrow>
                let (rids, m) = remove_endpoint_from_all (ev_now env) m identity_pub device;
                    s = s\<lparr>st_sfu := Some m\<rparr>
                in and_then (foldl (\<lambda>r rid. and_then r (broadcast_sfu_members rid)) ([], s) rids)
                     (\<lambda>s. ([], if rids = [] then s else broadcast_room_list s)))"

subsection \<open>Relay tickets and game sessions\<close>

definition handle_relay_request :: "sn_env \<Rightarrow> SignalingMessage \<Rightarrow> 'm SupernodeState \<Rightarrow> 'm sn_res" where
  "handle_relay_request env msg s =
     (let trusted = is_trusted (st_peers s) (sm_sender msg);
          room_authorized = (case st_sfu s of None \<Rightarrow> False | Some m \<Rightarrow> is_room_authorized_peer m (sm_sender msg))
      in if trusted \<or> room_authorized then
           (if room_authorized \<and> \<not> trusted then ensure_relay_for_room_guest env (sm_sender msg) s
            else issue_ticket_for_access_state env (sm_sender msg) s)
         else ([], s))"

definition handle_game_relay_join :: "sn_env \<Rightarrow> SignalingMessage \<Rightarrow> 'm SupernodeState \<Rightarrow> 'm sn_res" where
  "handle_game_relay_join env msg s =
     (let field = (case json_get (sm_payload msg) ''room'' of Some v \<Rightarrow> Some v | None \<Rightarrow> json_get (sm_payload msg) ''room_id'');
          room = (case Option.bind field json_as_str of Some r \<Rightarrow> r | None \<Rightarrow> ''default'');
          session_id = (if strip_prefix ''game:'' room \<noteq> None then room else ''game:'' @ room)
      in if \<not> is_trusted (st_peers s) (sm_sender msg) then ([], s)
         else and_then (with_relay (\<lambda>r. ([], join_game_session r (sm_sender msg) session_id)) s)
                (\<lambda>s. ([GameRelayJoined (sm_sender msg) room session_id], s)))"

definition handle_game_relay_leave :: "SignalingMessage \<Rightarrow> 'm SupernodeState \<Rightarrow> 'm sn_res" where
  "handle_game_relay_leave msg s = with_relay (\<lambda>r. ([], leave_game_session r (sm_sender msg))) s"

subsection \<open>Joining and leaving rooms\<close>

definition room_creator :: "SFURoomManager \<Rightarrow> string \<Rightarrow> string" where
  "room_creator m rid = (case hm_get m rid of Some r \<Rightarrow> creator_id r | None \<Rightarrow> [])"

definition join_with_token :: "SignalingMessage \<Rightarrow> string \<Rightarrow> SFURoomManager \<Rightarrow> SFURoomManager" where
  "join_with_token msg rid m =
     (case nonempty (payload_str (sm_payload msg) ''invite_token'') of
        None \<Rightarrow> m
      | Some token \<Rightarrow>
          let creator = room_creator m rid;
              created_by = (if creator = [] then sm_sender msg else creator);
              (ok, m) = mgr_reregister_invite_token m rid token created_by
          in if ok then snd (mgr_allow_peer m rid (sm_sender msg)) else m)"

definition sfu_join :: "sn_env \<Rightarrow> SignalingMessage \<Rightarrow> string \<Rightarrow> SFURoomManager \<Rightarrow> (bool \<times> string list) \<times> SFURoomManager" where
  "sfu_join env msg rid m =
     (case sm_source_device msg of
        Some d \<Rightarrow> join_room_endpoint (ev_now env) m (sm_sender msg) (Some d) rid
      | None \<Rightarrow> join_room (ev_now env) m (sm_sender msg) rid)"

definition after_join :: "sn_env \<Rightarrow> SignalingMessage \<Rightarrow> string \<Rightarrow> string list \<Rightarrow> SFURoomManager \<Rightarrow> 'm SupernodeState \<Rightarrow> 'm sn_res" where
  "after_join env msg rid members m s =
     (let chat_members = get_chat_recipients m rid;
          devices = (case hm_get m rid of Some r \<Rightarrow> device_roster r | None \<Rightarrow> [])
      in and_then (and_then (and_then (and_then (and_then (and_then
        (with_relay (\<lambda>r. relay_join_room_endpoint (ev_b64 env) r (sm_sender msg) (sm_source_device msg) rid) s)
        (\<lambda>s. ([SfuMembers (sm_sender msg) rid members chat_members devices], s)))
        (\<lambda>s. (map (\<lambda>member. SfuPeerJoined member (sm_sender msg) rid) (filter (\<lambda>member. member \<noteq> sm_sender msg) members), s)))
        (broadcast_sfu_members rid))
        (ensure_relay_for_room_guest env (sm_sender msg)))
        (\<lambda>s. ([], broadcast_room_list s)))
        (try_relay_punch_for_room env (sm_sender msg) rid))"

definition handle_sfu_join :: "sn_env \<Rightarrow> SignalingMessage \<Rightarrow> 'm SupernodeState \<Rightarrow> 'm sn_res" where
  "handle_sfu_join env msg s =
     (if st_sfu s = None then ([], s)
      else
        let rid = payload_or (sm_payload msg) ''room_id'' DEFAULT_ROOM_ID;
            (_, outs, s) = try_space_admission env (sm_sender msg) rid (sm_payload msg) s;
            s = with_rooms (join_with_token msg rid) s
        in case st_sfu s of None \<Rightarrow> (outs, s)
           | Some m \<Rightarrow>
               let ((ok, members), m) = sfu_join env msg rid m;
                   s = s\<lparr>st_sfu := Some m\<rparr>
               in and_then (outs, s)
                    (if ok then after_join env msg rid members m
                     else (\<lambda>s. ([SfuJoinResult (sm_sender msg) rid (classify_join_denial m (sm_sender msg) rid)], s))))"

definition canonical_peer_id :: "sn_env \<Rightarrow> string \<Rightarrow> string" where
  "canonical_peer_id env relay_cn =
     (case url_safe_no_pad_decode (ev_prims env) relay_cn of Some b \<Rightarrow> url_safe_encode (ev_prims env) b | None \<Rightarrow> relay_cn)"

definition handle_sfu_leave :: "sn_env \<Rightarrow> SignalingMessage \<Rightarrow> 'm SupernodeState \<Rightarrow> 'm sn_res" where
  "handle_sfu_leave env msg s =
     (case st_sfu s of None \<Rightarrow> ([], s)
      | Some m \<Rightarrow>
          let rid = payload_or (sm_payload msg) ''room_id'' DEFAULT_ROOM_ID in
          if \<not> is_endpoint_in_voice m (sm_sender msg) (sm_source_device msg) rid then ([], s)
          else
            let (remaining, m) =
                  (case sm_source_device msg of
                     Some d \<Rightarrow> leave_room_endpoint (ev_now env) m (sm_sender msg) (Some d) rid
                   | None \<Rightarrow> leave_room (ev_now env) m (sm_sender msg) rid);
                s = s\<lparr>st_sfu := Some m\<rparr>;
                still = list_ex (\<lambda>p. canonical_peer_id env p = canonical_peer_id env (sm_sender msg)) remaining
            in and_then (and_then (and_then
                 (with_relay (\<lambda>r. ([], relay_leave_room_endpoint (ev_b64 env) r (sm_sender msg) (sm_source_device msg))) s)
                 (\<lambda>s. (if still then [] else map (\<lambda>member. SfuPeerLeft member (sm_sender msg) rid) remaining, s)))
                 (broadcast_sfu_members rid))
                 (\<lambda>s. ([], broadcast_room_list s)))"

definition handle_sfu_room_list :: "SignalingMessage \<Rightarrow> 'm SupernodeState \<Rightarrow> 'm sn_res" where
  "handle_sfu_room_list msg s = send_room_list (sm_sender msg) s"

definition handle_sfu_subscribe :: "sn_env \<Rightarrow> SignalingMessage \<Rightarrow> 'm SupernodeState \<Rightarrow> 'm sn_res" where
  "handle_sfu_subscribe env msg s =
     (case st_sfu s of None \<Rightarrow> ([], s)
      | Some m \<Rightarrow>
          let rid = payload_or (sm_payload msg) ''room_id'' [] in
          if rid = [] then ([], s)
          else
            let (ok, m) =
                  (case sm_source_device msg of
                     Some d \<Rightarrow> subscribe_endpoint (ev_now env) m (sm_sender msg) (Some d) rid
                   | None \<Rightarrow> mgr_subscribe (ev_now env) m (sm_sender msg) rid);
                s = s\<lparr>st_sfu := Some m\<rparr>
            in if ok then broadcast_sfu_members rid s else ([], s))"

definition handle_sfu_unsubscribe :: "sn_env \<Rightarrow> SignalingMessage \<Rightarrow> 'm SupernodeState \<Rightarrow> 'm sn_res" where
  "handle_sfu_unsubscribe env msg s =
     (case st_sfu s of None \<Rightarrow> ([], s)
      | Some m \<Rightarrow>
          let rid = payload_or (sm_payload msg) ''room_id'' [] in
          if rid = [] then ([], s)
          else
            let m =
                  (case sm_source_device msg of
                     Some d \<Rightarrow> unsubscribe_endpoint (ev_now env) m (sm_sender msg) (Some d) rid
                   | None \<Rightarrow> mgr_unsubscribe (ev_now env) m (sm_sender msg) rid)
            in broadcast_sfu_members rid (s\<lparr>st_sfu := Some m\<rparr>))"

definition MAX_VIDEO_SUBSCRIPTIONS :: nat where "MAX_VIDEO_SUBSCRIPTIONS = 32"

fun json_as_array :: "json \<Rightarrow> json list option" where
  "json_as_array (JArr xs) = Some xs"
| "json_as_array _ = None"

definition handle_sfu_video_subscribe :: "SignalingMessage \<Rightarrow> 'm SupernodeState \<Rightarrow> 'm sn_res" where
  "handle_sfu_video_subscribe msg s =
     (case (st_sfu s, st_relay s) of
        (Some m, Some r) \<Rightarrow>
          let rid = payload_or (sm_payload msg) ''room_id'' DEFAULT_ROOM_ID in
          if \<not> is_chat_sender m rid (sm_sender msg) then ([], s)
          else
            (case Option.bind (json_get (sm_payload msg) ''senders'') json_as_array of None \<Rightarrow> ([], s)
             | Some xs \<Rightarrow>
                 let senders = take MAX_VIDEO_SUBSCRIPTIONS (filter (\<lambda>x. x \<noteq> []) (List.map_filter json_as_str xs))
                 in ([], s\<lparr>st_relay := Some (set_video_subscriptions r (sm_sender msg) senders)\<rparr>))
      | _ \<Rightarrow> ([], s))"

subsection \<open>Creating rooms and redeeming invites\<close>

definition deny_reason_for_new_room :: "SfuRoomCreationPolicy \<Rightarrow> bool \<Rightarrow> string option" where
  "deny_reason_for_new_room policy public =
     (if public \<and> \<not> allow_public policy then Some ''public_rooms_disabled''
      else if \<not> public \<and> \<not> allow_private policy then Some ''private_rooms_disabled''
      else None)"

definition readmit_private ::
  "sn_env \<Rightarrow> SignalingMessage \<Rightarrow> string \<Rightarrow> string option \<Rightarrow> SFURoom \<Rightarrow> bool \<Rightarrow> SFURoomManager \<Rightarrow> string option \<times> SFURoomManager" where
  "readmit_private env msg creator client_token room created_new m =
     (let is_creator = (sm_sender msg = creator_id room \<or> sm_sender msg = creator);
          (admitted, invite_token, m) =
            (case client_token of None \<Rightarrow> (False, None, m)
             | Some tok \<Rightarrow>
                 let (reseeded, m) = mgr_reregister_invite_token m (room_id room) tok
                       (if creator_id room = [] then creator else creator_id room)
                 in if reseeded then (True, Some tok, snd (mgr_allow_peer m (room_id room) (sm_sender msg))) else (False, None, m))
      in if \<not> admitted \<and> (is_creator \<or> created_new) then
           (let m = snd (mgr_allow_peer m (room_id room) (sm_sender msg))
            in if created_new \<and> invite_token = None then mgr_generate_invite_token m (room_id room) creator (ev_nonce env)
               else (invite_token, m))
         else (invite_token, m))"

definition handle_sfu_room_create :: "sn_env \<Rightarrow> SignalingMessage \<Rightarrow> 'm SupernodeState \<Rightarrow> 'm sn_res" where
  "handle_sfu_room_create env msg s =
     (case st_sfu s of None \<Rightarrow> ([], s)
      | Some m \<Rightarrow>
          let p = sm_payload msg;
              name = payload_or p ''room_name'' ''Room'';
              rtype = (case Option.bind (json_get p ''room_type'') de_room_type of Some t \<Rightarrow> t | None \<Rightarrow> Public);
              rid = payload_str p ''room_id'';
              creator = (case nonempty (payload_str p ''creator_id'') of Some c \<Rightarrow> c | None \<Rightarrow> sm_sender msg);
              policy = payload_or p ''invite_policy'' ''owner'';
              sha = sha256_hex (ev_prims env);
              resolved_id = (case rid of Some i \<Rightarrow> i | None \<Rightarrow> derive_room_id sha creator name);
              denied = (if hm_get m resolved_id = None \<and> resolved_id \<noteq> DEFAULT_ROOM_ID
                        then deny_reason_for_new_room (st_room_policy s) (rtype = Public) else None)
          in case denied of
               Some reason \<Rightarrow>
                 ([SfuRoomCreated (sm_sender msg) \<lparr>rc_room_id = [], rc_room_name = name, rc_room_type = rtype,
                     rc_denied = Some reason, rc_invite_token = None\<rparr>], s)
             | None \<Rightarrow>
                 let client_token = nonempty (payload_str p ''invite_token'') in
                 (case create_room_with_policy sha (ev_now env) m rid name rtype creator policy of
                    (None, m) \<Rightarrow> ([], s\<lparr>st_sfu := Some m\<rparr>)
                  | (Some (room, created_new), m) \<Rightarrow>
                      let (invite_token, m) =
                            (if rtype = Private then readmit_private env msg creator client_token room created_new m else (None, m))
                      in ([SfuRoomCreated (sm_sender msg) \<lparr>rc_room_id = room_id room, rc_room_name = room_name room,
                             rc_room_type = rtype, rc_denied = None, rc_invite_token = invite_token\<rparr>],
                          s\<lparr>st_sfu := Some m\<rparr>)))"

definition redeem_room_invite :: "SignalingMessage \<Rightarrow> string \<Rightarrow> string \<Rightarrow> SFURoomManager \<Rightarrow> bool \<times> SFURoomManager" where
  "redeem_room_invite msg rid token m =
     (let creator = room_creator m rid;
          created_by = (if creator = [] then sm_sender msg else creator);
          m = snd (mgr_reregister_invite_token m rid token created_by)
      in validate_room_invite m rid token (sm_sender msg))"

definition handle_sfu_room_invite :: "sn_env \<Rightarrow> SignalingMessage \<Rightarrow> 'm SupernodeState \<Rightarrow> 'm sn_res" where
  "handle_sfu_room_invite env msg s =
     (case st_sfu s of None \<Rightarrow> ([], s)
      | Some m0 \<Rightarrow>
          let rid = payload_or (sm_payload msg) ''room_id'' [];
              token = payload_or (sm_payload msg) ''invite_token'' [];
              already_member = (case hm_get m0 rid of Some r \<Rightarrow> is_peer_allowed r (sm_sender msg) | None \<Rightarrow> False);
              (by_proof, outs, s) = try_space_admission env (sm_sender msg) rid (sm_payload msg) s;
              m = (case st_sfu s of Some m \<Rightarrow> m | None \<Rightarrow> []);
              (by_token, m) = (if \<not> by_proof \<and> token \<noteq> [] then redeem_room_invite msg rid token m else (False, m));
              s = s\<lparr>st_sfu := Some m\<rparr>;
              valid = (by_proof \<or> by_token \<or> already_member)
          in case hm_get m rid of None \<Rightarrow> (outs, s)
             | Some r \<Rightarrow>
                 and_then (outs @ [SfuRoomInviteResult (sm_sender msg) rid
                     (InviteAnswer valid (room_name r) (room_type r) (participant_count r))], s)
                   (if valid then ensure_relay_for_room_guest env (sm_sender msg) else (\<lambda>s. ([], s))))"

definition handle_sfu_invite_generate :: "sn_env \<Rightarrow> SignalingMessage \<Rightarrow> 'm SupernodeState \<Rightarrow> 'm sn_res" where
  "handle_sfu_invite_generate env msg s =
     (case st_sfu s of None \<Rightarrow> ([], s)
      | Some m \<Rightarrow>
          let rid = payload_or (sm_payload msg) ''room_id'' [];
              (result, m) = generate_invite_token_checked m rid (sm_sender msg) (ev_nonce env);
              answer = (case result of MintOk token \<Rightarrow> TokenMinted token
                        | NotAuthorized \<Rightarrow> MintRefused ''not_room_creator'' | RoomNotFound \<Rightarrow> MintRefused ''room_not_found'')
          in ([SfuRoomInviteResult (sm_sender msg) rid answer], s\<lparr>st_sfu := Some m\<rparr>))"

definition handle_space_root_announce :: "sn_env \<Rightarrow> SignalingMessage \<Rightarrow> 'm SupernodeState \<Rightarrow> 'm sn_res" where
  "handle_space_root_announce env msg s =
     (case Option.bind (json_get (sm_payload msg) ''root'') (ev_root env) of None \<Rightarrow> ([], s)
      | Some r \<Rightarrow>
          if trim_end_matches (CHR ''='') (sr_signer r) \<noteq> trim_end_matches (CHR ''='') (sm_sender msg) then ([], s)
          else snd (accept_and_gossip_space_root env r s))"

subsection \<open>The invite handshake\<close>

fun json_as_u64 :: "json \<Rightarrow> nat option" where
  "json_as_u64 (Wire.JNum n) = (if 0 \<le> n \<and> n < 2 ^ 64 then Some (nat n) else None)"
| "json_as_u64 _ = None"

definition handshake_record :: "sn_env \<Rightarrow> json \<Rightarrow> HandshakeAccept \<Rightarrow> string \<Rightarrow> PeerRecord" where
  "handshake_record env p accept_payload joiner_pub =
     (let listener = payload_or p ''joiner_listener'' [] in
      \<lparr>pr_peer_id = payload_or p ''joiner_peer_id'' [], pr_identity_pub = joiner_pub,
       pr_relay_hints = (if listener = [] then [] else [listener]), pr_handle = payload_or p ''joiner_handle'' [],
       pr_blocked = False, pr_revoked = False, pr_auto_connect = False, pr_is_supernode = False,
       pr_transcript_hash = ha_transcript_hash accept_payload, pr_created_at = ev_now env, pr_last_seen_at = ev_now env,
       pr_quic_port = (case Option.bind (json_get p ''joiner_quic_port'') json_as_u64 of Some n \<Rightarrow> word_of_nat n | None \<Rightarrow> 0)\<rparr>)"

text \<open>The welcome names each trusted peer; of a record it carries the id, key, handle and the two flags.\<close>

definition handle_handshake_init :: "sn_env \<Rightarrow> SignalingMessage \<Rightarrow> 'm SupernodeState \<Rightarrow> 'm sn_res" where
  "handle_handshake_init env msg s =
     (case process_init (ev_hs env) (st_handshake s) (sm_payload msg) of
        Inl e \<Rightarrow> ([InviteHandshakeReject (sm_sender msg) e], s)
      | Inr (accept_payload, _, joiner_pub) \<Rightarrow>
          let s = save_peers env (s\<lparr>st_peers := add_peer (st_peers s) (handshake_record env (sm_payload msg) accept_payload joiner_pub)\<rparr>)
          in and_then (and_then (and_then (and_then
               ([InviteHandshakeAccept joiner_pub accept_payload], s)
               (on_peer_trusted env joiner_pub))
               (\<lambda>s. ([VersionAnnounce joiner_pub, BuildAttestation joiner_pub], s)))
               (send_room_list joiner_pub))
               (\<lambda>s. ([WelcomePeers joiner_pub (List.map_filter (get_peer (st_peers s)) (trusted_peer_ids (st_peers s)))], s)))"

end
