(* ===== verification/Supernode_Start.thy ===== *)
theory Supernode_Start
  imports Supernode
begin

section \<open>Start of a supernode (\<open>main.rs\<close>)\<close>

text \<open>
  What \<open>main\<close> makes of its files and its configuration before it serves anyone: the peer store, the access gate, the
  relay with the trusted peers on its list, empty rooms, the handshake manager with the address it advertises, the
  mailbox of endpoints, and the reusable invite. The configuration, the feature registry and the room policy read
  from the manifest, and the JSON readers are fields of a record; failures of the listeners end the program and
  are not modelled.
\<close>

subsection \<open>The advertised name and the handshake manager\<close>

datatype HostnameLookup = Dns | Dddns

definition for_name :: "string \<Rightarrow> HostnameLookup option \<Rightarrow> HostnameLookup" where
  "for_name name configured =
     (case configured of Some l \<Rightarrow> l | None \<Rightarrow> if suffix ''.doubleslash.space'' name then Dddns else Dns)"

definition hostname_signaling_url :: "(u16 \<Rightarrow> string) \<Rightarrow> string \<Rightarrow> u16 \<Rightarrow> string option" where
  "hostname_signaling_url show_u16 hostname port =
     (case normalize_advertised_hostname hostname of None \<Rightarrow> None
      | Some name \<Rightarrow> if port = 0 then None else Some (''ws://'' @ name @ '':'' @ show_u16 port))"

definition hostname_hint :: "(u16 \<Rightarrow> string) \<Rightarrow> string \<Rightarrow> HostnameLookup option \<Rightarrow> u16 \<Rightarrow> string option" where
  "hostname_hint show_u16 hostname lookup port =
     (case normalize_advertised_hostname hostname of None \<Rightarrow> None
      | Some name \<Rightarrow>
          (case for_name name lookup of
             Dns \<Rightarrow> hostname_signaling_url show_u16 name port
           | Dddns \<Rightarrow> if CHR ''.'' \<in> set name then Some (''dddns://'' @ name) else None))"

definition handshake_new :: "string \<Rightarrow> string \<Rightarrow> string \<Rightarrow> int \<Rightarrow> HandshakeManager" where
  "handshake_new public_id peer_id listener_url invite_ttl_seconds =
     \<lparr>hk_public_id = public_id, hk_peer_id = peer_id, hk_listener_url = listener_url, hk_pending = [], hk_reusable_invite = None,
      hk_invite_ttl_seconds = invite_ttl_seconds, hk_turn_hints = None, hk_hostname_hints = None, hk_node_title = ''Supernode''\<rparr>"

subsection \<open>The mailbox of endpoints\<close>

definition ENDPOINT_MAX_AGE_S :: real where "ENDPOINT_MAX_AGE_S = 86400"

definition load_endpoint_mailbox :: "real \<Rightarrow> (string \<times> string \<times> real) list option \<Rightarrow> (string, string) hmap" where
  "load_endpoint_mailbox now entries =
     (case entries of None \<Rightarrow> []
      | Some es \<Rightarrow> foldl (\<lambda>m (peer_id, raw, stored_at).
          if peer_id = [] \<or> raw = [] then m
          else if now - stored_at > ENDPOINT_MAX_AGE_S then m
          else hm_insert peer_id raw m) [] es)"

subsection \<open>The state a supernode starts with\<close>

record 'm boot =
  bo_now :: real
  bo_peers_parse :: "string \<Rightarrow> PeerRecord list option"
  bo_grants_parse :: "string \<Rightarrow> GrantsFile option"
  bo_mode :: AccessMode
  bo_code :: string
  bo_data_dir :: string
  bo_public_id :: string
  bo_peer_id :: string
  bo_show_u16 :: "u16 \<Rightarrow> string"
  bo_signaling_port :: u16
  bo_invite_ttl_seconds :: int
  bo_web_title :: string
  bo_hostname :: "string option"
  bo_hostname_lookup :: "HostnameLookup option"
  bo_features :: "'m FeatureRegistry"
  bo_device_routing :: bool
  bo_room_policy :: SfuRoomCreationPolicy
  bo_sfu_enabled :: bool
  bo_clustered :: bool
  bo_external_host :: "string option"
  bo_relay_port :: u16

definition start_handshake :: "'m boot \<Rightarrow> HandshakeManager" where
  "start_handshake b =
     (let listener_host = (case bo_external_host b of Some host \<Rightarrow> host | None \<Rightarrow> ''0.0.0.0'');
          listener_url = ''ws://'' @ listener_host @ '':'' @ bo_show_u16 b (bo_signaling_port b);
          handshake = (handshake_new (bo_public_id b) (bo_peer_id b) listener_url (bo_invite_ttl_seconds b))\<lparr>hk_node_title := bo_web_title b\<rparr>;
          handshake = (if listener_host \<noteq> ''0.0.0.0''
            then handshake\<lparr>hk_turn_hints := Some [''turn:'' @ listener_host @ '':'' @ bo_show_u16 b (bo_relay_port b)]\<rparr> else handshake)
      in handshake\<lparr>hk_hostname_hints := map_option (\<lambda>url. [url])
           (Option.bind (bo_hostname b) (\<lambda>name. hostname_hint (bo_show_u16 b) name (bo_hostname_lookup b) (bo_signaling_port b)))\<rparr>)"

definition start_up :: "'m boot \<Rightarrow> string option \<Rightarrow> grant_files \<Rightarrow> (string \<times> string \<times> real) list option \<Rightarrow> 'm SupernodeState" where
  "start_up b peers_file grant_files mailbox_file =
     (let peer_store = store_load (bo_peers_parse b) peers_file;
          access_controller = create_access_controller (bo_grants_parse b) grant_files (bo_mode b) (bo_code b) (bo_data_dir b);
          relay = foldl Relay.allow_peer (relay_new (bo_device_routing b)) (trusted_peer_ids peer_store);
          sfu = (if bo_sfu_enabled b then Some manager_new else None)
      in \<lparr>st_peers = peer_store, st_peers_file = peers_file, st_handshake = start_handshake b, st_relay = Some relay, st_sfu = sfu,
          st_access = access_controller, st_grant_files = grant_files, st_ticket_expiry = [],
          st_mailbox = load_endpoint_mailbox (bo_now b) mailbox_file, st_mailbox_file = mailbox_file, st_punches = [],
          st_features = bo_features b, st_room_policy = bo_room_policy b, st_clustered = bo_clustered b, st_space_roots = roots_default,
          st_room_list_dirty = False, st_external_host = bo_external_host b, st_relay_port = bo_relay_port b\<rparr>)"

text \<open>The reusable invite: restored from its file, or else minted and saved.\<close>

definition start_invite :: "hs_env \<Rightarrow> bool \<Rightarrow> invite_file \<Rightarrow> string \<Rightarrow> HandshakeManager \<Rightarrow> HandshakeManager \<times> invite_file" where
  "start_invite env written f web_title hs =
     (let (ok, hs, f) = load_reusable_invite env hs written f in
      if ok then (hs, f)
      else let (_, hs) = get_or_create_reusable_invite env hs (Some web_title) in (hs, save_reusable_invite env hs written f))"

subsection \<open>What the start leaves\<close>

lemma allowed_fold: "set (RelayState.allowed (foldl Relay.allow_peer r ps)) = bare ` set ps \<union> set (RelayState.allowed r)"
  by (induction ps arbitrary: r) (auto simp: Relay.allow_peer_def hs_insert_def)

lemma start_up_relay:
  "st_relay (start_up b pf gf mf) = Some (foldl Relay.allow_peer (relay_new (bo_device_routing b)) (trusted_peer_ids (store_load (bo_peers_parse b) pf)))"
  by (simp add: start_up_def Let_def)

lemma start_up_allowed:
  "set (case st_relay (start_up b pf gf mf) of Some r \<Rightarrow> RelayState.allowed r | None \<Rightarrow> []) = bare ` set (trusted_peer_ids (store_load (bo_peers_parse b) pf))"
  by (simp add: start_up_relay allowed_fold) (simp add: relay_new_def)

lemma start_up_code:
  "bo_mode b = Code \<Longrightarrow> st_access (start_up b pf gf mf) =
     CodeGateAccessController (bo_code b) (grants_new (bo_grants_parse b) gf (grants_path (bo_data_dir b) Code))"
  by (simp add: start_up_def create_access_controller_def Let_def)

text \<open>
  The program prints its reusable invite right after the start, with an \<open>unwrap\<close> that cannot fail: whatever the
  file holds, there is an invite, and its secret is pending under the invite's id.
\<close>

theorem start_invite_pending:
  assumes "start_invite env written f web_title (start_handshake b) = (hs, f')"
  obtains iv pending where "hk_reusable_invite hs = Some iv" "hm_get (hk_pending hs) (iv_invite_id iv) = Some pending"
    "pi_expires_at pending = iv_expires_at iv"
proof -
  have fresh: "hk_reusable_invite (start_handshake b) = None" by (simp add: start_handshake_def handshake_new_def Let_def)
  obtain ok h g where l: "load_reusable_invite env (start_handshake b) written f = (ok, h, g)" by (metis prod_cases3)
  show ?thesis
  proof (cases ok)
    case True
    then have "hs = h" using assms by (simp add: start_invite_def l)
    then show ?thesis using that l True
      by (auto simp: load_reusable_invite_def restore_pending_def invite_sign_def hm_get_insert Let_def split: option.splits if_splits prod.splits)
  next
    case False
    then have h: "h = start_handshake b" using l by (auto simp: load_reusable_invite_def Let_def split: option.splits if_splits prod.splits)
    obtain iv h2 where c: "create_invite env h (Some web_title) = (iv, h2)" by fastforce
    then have "hs = h2\<lparr>hk_reusable_invite := Some iv\<rparr>"
      using assms False fresh by (simp add: start_invite_def l h get_or_create_reusable_invite_def)
    then show ?thesis using that [of iv] create_invite_pending [OF c] by simp
  qed
qed

end
