(* ===== verification/Supernode_Gate.thy ===== *)
theory Supernode_Gate
  imports Supernode_Start
begin

section \<open>The access gate over everything a supernode does\<close>

text \<open>
  Every call the outside world can make on the supernode's model, as one step: messages of peers, socket
  events, the portal, cluster gossip and the renewal timer, each in an environment of its own. The gate is
  then an invariant of these steps.
\<close>

datatype sn_call =
    Connected string
  | Disconnected string
  | EndpointGone string "DeviceId option"
  | HandshakeInit SignalingMessage
  | SfuJoin SignalingMessage
  | SfuLeave SignalingMessage
  | SfuListRooms SignalingMessage
  | SfuSubscribe SignalingMessage
  | SfuUnsubscribe SignalingMessage
  | SfuVideoSubscribe SignalingMessage
  | SfuCreate SignalingMessage
  | SfuInvite SignalingMessage
  | SfuInviteGenerate SignalingMessage
  | RootAnnounce SignalingMessage
  | RelayRequest SignalingMessage
  | GameJoin SignalingMessage
  | GameLeave SignalingMessage
  | PunchRegister SignalingMessage
  | EndpointUpdate string string
  | PortalGrant string "string option"
  | PeerAuthIn string string bool bool
  | RosterIn "string \<times> string \<times> string \<times> string \<times> string"
  | RootIn SignedSpaceRoot
  | RenewTickets

fun sn_run :: "sn_env \<Rightarrow> sn_call \<Rightarrow> 'm SupernodeState \<Rightarrow> 'm sn_res" where
  "sn_run env (Connected p) s = on_peer_connected env p s"
| "sn_run env (Disconnected p) s = on_peer_disconnected env p s"
| "sn_run env (EndpointGone p d) s = on_endpoint_disconnected env p d s"
| "sn_run env (HandshakeInit m) s = handle_handshake_init env m s"
| "sn_run env (SfuJoin m) s = handle_sfu_join env m s"
| "sn_run env (SfuLeave m) s = handle_sfu_leave env m s"
| "sn_run env (SfuListRooms m) s = handle_sfu_room_list m s"
| "sn_run env (SfuSubscribe m) s = handle_sfu_subscribe env m s"
| "sn_run env (SfuUnsubscribe m) s = handle_sfu_unsubscribe env m s"
| "sn_run env (SfuVideoSubscribe m) s = handle_sfu_video_subscribe m s"
| "sn_run env (SfuCreate m) s = handle_sfu_room_create env m s"
| "sn_run env (SfuInvite m) s = handle_sfu_room_invite env m s"
| "sn_run env (SfuInviteGenerate m) s = handle_sfu_invite_generate env m s"
| "sn_run env (RootAnnounce m) s = handle_space_root_announce env m s"
| "sn_run env (RelayRequest m) s = handle_relay_request env m s"
| "sn_run env (GameJoin m) s = handle_game_relay_join env m s"
| "sn_run env (GameLeave m) s = handle_game_relay_leave m s"
| "sn_run env (PunchRegister m) s = handle_punch_register env m s"
| "sn_run env (EndpointUpdate p raw) s = ([], on_endpoint_update env p raw s)"
| "sn_run env (PortalGrant p sub) s = snd (grant_portal_access env p sub s)"
| "sn_run env (PeerAuthIn p h d g) s = apply_peer_auth env p h d g s"
| "sn_run env (RosterIn desc) s = ([], apply_room_roster env desc s)"
| "sn_run env (RootIn r) s = snd (accept_and_gossip_space_root env r s)"
| "sn_run env RenewTickets s = check_ticket_renewals env s"

definition sn_step :: "'m SupernodeState \<Rightarrow> sn_env \<times> sn_call \<Rightarrow> 'm SupernodeState" where
  "sn_step s c = snd (sn_run (fst c) (snd c) s)"

subsection \<open>What a call leaves alone\<close>

lemma snd_and_then [simp]: "snd (and_then r f) = snd (f (snd r))"
  by (simp add: and_then_def split: prod.split)

definition same_gate :: "'m SupernodeState \<Rightarrow> 'm SupernodeState \<Rightarrow> bool" where
  "same_gate s t \<longleftrightarrow> st_access t = st_access s \<and> map_option RelayState.allowed (st_relay t) = map_option RelayState.allowed (st_relay s)"

lemma same_gate_refl [simp, intro]: "same_gate s s"
  by (simp add: same_gate_def)

lemma same_gate_trans [trans]: "same_gate s t \<Longrightarrow> same_gate t u \<Longrightarrow> same_gate s u"
  by (simp add: same_gate_def)

lemma same_gate_updates [simp]:
  "same_gate s (t\<lparr>st_peers := x\<rparr>) = same_gate s t" "same_gate s (t\<lparr>st_peers_file := f\<rparr>) = same_gate s t"
  "same_gate s (t\<lparr>st_sfu := y\<rparr>) = same_gate s t"
  "same_gate s (t\<lparr>st_room_list_dirty := b\<rparr>) = same_gate s t" "same_gate s (t\<lparr>st_features := g\<rparr>) = same_gate s t"
  "same_gate s (t\<lparr>st_punches := q\<rparr>) = same_gate s t" "same_gate s (t\<lparr>st_space_roots := z\<rparr>) = same_gate s t"
  "same_gate s (t\<lparr>st_mailbox := mb\<rparr>) = same_gate s t" "same_gate s (t\<lparr>st_mailbox_file := mf\<rparr>) = same_gate s t"
  by (simp_all add: same_gate_def)

lemma allowed_relay_ops [simp]:
  "RelayState.allowed (relay_leave_room_endpoint e r p d) = RelayState.allowed r"
  "RelayState.allowed (snd (relay_join_room_endpoint e r p d rid)) = RelayState.allowed r"
  "RelayState.allowed (join_game_session r p sid) = RelayState.allowed r"
  "RelayState.allowed (leave_game_session r p) = RelayState.allowed r"
  "RelayState.allowed (set_video_subscriptions r p xs) = RelayState.allowed r"
  "RelayState.allowed (allow_portal_peer r p) = RelayState.allowed r"
  by (auto simp: relay_leave_room_endpoint_def relay_join_room_endpoint_def join_game_session_def leave_game_session_def
      set_video_subscriptions_def allow_portal_peer_def remove_assignment_def Let_def split: option.splits prod.splits sum.splits)

lemma same_gate_with_relay:
  "(\<And>r. RelayState.allowed (snd (f r)) = RelayState.allowed r) \<Longrightarrow> same_gate s (snd (with_relay f t)) = same_gate s t"
  by (auto simp: with_relay_def Let_def case_prod_beta same_gate_def split: option.split)

lemma same_gate_small [simp]:
  "same_gate s (with_rooms f t) = same_gate s t" "same_gate s (save_peers env t) = same_gate s t"
  "same_gate s (broadcast_room_list t) = same_gate s t" "same_gate s (on_endpoint_update env p raw t) = same_gate s t"
  by (simp_all add: with_rooms_def save_peers_def broadcast_room_list_def on_endpoint_update_def Let_def)

lemma snd_sends [simp]:
  "snd (send_room_list p t) = t" "snd (broadcast_sfu_members rid t) = t" "snd (announce_capabilities_to p t) = t"
  "snd (replicate_peer_auth p t) = t" "snd (replay_endpoint_updates p t) = t" "snd (try_relay_punch_for_room env p rid t) = t"
  "snd (announce_departure p rm t) = t"
  by (simp_all add: send_room_list_def broadcast_sfu_members_def announce_capabilities_to_def replicate_peer_auth_def
      replay_endpoint_updates_def try_relay_punch_for_room_def announce_departure_def Let_def split: option.split prod.split)

lemma snd_foldl_sends:
  "(\<And>x t. snd (f x t) = t) \<Longrightarrow> snd (foldl (\<lambda>r x. and_then r (f x)) r xs) = snd r"
  by (induction xs arbitrary: r) simp_all

lemma same_gate_admission [simp]: "same_gate s (snd (snd (try_space_admission env p rid payload t))) = same_gate s t"
  by (auto simp: try_space_admission_def accept_and_gossip_space_root_def materialize_proven_def local_allow_room_peer_def Let_def
      case_prod_beta split: option.split)

lemma same_gate_punch: "same_gate s (snd (handle_punch_register env msg t)) = same_gate s t"
  by (simp add: handle_punch_register_def handle_punch_register_msg_def Let_def)

subsection \<open>The code gate\<close>

definition gated :: "string \<Rightarrow> string set \<Rightarrow> 'm SupernodeState \<Rightarrow> bool" where
  "gated code S s \<longleftrightarrow>
     (\<exists>g. st_access s = CodeGateAccessController code g \<and> bare ` set (granted g) \<subseteq> S) \<and>
     (case st_relay s of None \<Rightarrow> True | Some r \<Rightarrow> set (RelayState.allowed r) \<subseteq> S)"

lemma gated_same: "same_gate s t \<Longrightarrow> gated code S s \<Longrightarrow> gated code S t"
  by (cases "st_relay s"; cases "st_relay t") (auto simp: same_gate_def gated_def)

lemma gated_mono: "gated code S s \<Longrightarrow> S \<subseteq> T \<Longrightarrow> gated code T s"
  by (fastforce simp: gated_def split: option.splits)

lemma gated_access: "gated code S s \<Longrightarrow> check_peer_access s p \<Longrightarrow> bare p \<in> S"
  by (auto simp: gated_def check_peer_access_def check_access_def grants_contains_def)

lemma gated_ticket:
  assumes "gated code S s" "portal_only \<or> bare p \<in> S"
  shows "gated code S (snd (issue_ticket env p portal_only s))"
  using assms by (auto simp: gated_def issue_ticket_def Let_def allow_peer_update_def hs_insert_def split: option.splits)

lemma gated_for_access: "gated code S s \<Longrightarrow> gated code S (snd (issue_ticket_for_access_state env p s))"
  by (simp add: issue_ticket_for_access_state_def issue_relay_ticket_def issue_portal_ticket_def gated_ticket gated_access)

lemma gated_trusted: "gated code S s \<Longrightarrow> gated code S (snd (on_peer_trusted env p s))"
  by (simp add: on_peer_trusted_def gated_for_access)

lemma gated_update [simp]:
  "gated code S (s\<lparr>st_peers := x\<rparr>) = gated code S s" "gated code S (s\<lparr>st_sfu := y\<rparr>) = gated code S s"
  "gated code S (save_peers env s) = gated code S s" "gated code S (with_rooms f s) = gated code S s"
  "gated code S (broadcast_room_list s) = gated code S s" "gated code S (s\<lparr>st_features := g\<rparr>) = gated code S s"
  by (simp_all add: gated_def save_peers_def with_rooms_def broadcast_room_list_def)

lemma gated_guest: "gated code S s \<Longrightarrow> gated code S (snd (ensure_relay_for_room_guest env p s))"
  by (simp add: ensure_relay_for_room_guest_def gated_trusted gated_for_access Let_def)

lemma gated_with_relay:
  "(\<And>r. RelayState.allowed (snd (f r)) = RelayState.allowed r) \<Longrightarrow> gated code S s \<Longrightarrow> gated code S (snd (with_relay f s))"
  using same_gate_with_relay [of f s s] gated_same by blast

lemma gated_admission: "gated code S s \<Longrightarrow> gated code S (snd (snd (try_space_admission env p rid payload s)))"
  using gated_same same_gate_admission by blast

lemma gated_grant: "gated code S s \<Longrightarrow> bare p \<in> S \<Longrightarrow> gated code S (grant_access env p s)"
  by (auto simp: gated_def grant_access_def on_peer_granted_def grants_insert_def Let_def hs_insert_def)

text \<open>The peers a call takes through the gate: with the right code, or on the word of a cluster member.\<close>

fun passes :: "string \<Rightarrow> sn_call \<Rightarrow> string set" where
  "passes code (PortalGrant p (Some c)) = (if check_code code c then {bare (pad_base64url p)} else {})"
| "passes code (PeerAuthIn p h d True) = {bare (normalize_public_id p)}"
| "passes code _ = {}"

lemma gated_join: "gated code S s \<Longrightarrow> gated code S (snd (handle_sfu_join env msg s))"
  using gated_admission [of code S s env "sm_sender msg" _ "sm_payload msg"]
  by (auto simp: handle_sfu_join_def after_join_def Let_def case_prod_beta gated_guest gated_with_relay split: option.split)

lemma gated_invite: "gated code S s \<Longrightarrow> gated code S (snd (handle_sfu_room_invite env msg s))"
  using gated_admission [of code S s env "sm_sender msg" _ "sm_payload msg"]
  by (auto simp: handle_sfu_room_invite_def Let_def case_prod_beta gated_guest split: option.split)

lemma gated_portal:
  assumes "gated code S s" "passes code (PortalGrant p sub) \<subseteq> S"
  shows "gated code S (snd (snd (grant_portal_access env p sub s)))"
proof -
  have "bare (pad_base64url p) \<in> S" if "check_submission (st_access s) sub"
    using that assms by (auto simp: gated_def split: option.splits)
  then show ?thesis using assms(1)
    by (simp add: grant_portal_access_def Let_def issue_relay_ticket_def gated_ticket gated_grant)
qed

lemma gated_peer_auth:
  assumes "gated code S s" "passes code (PeerAuthIn p h d g) \<subseteq> S"
  shows "gated code S (snd (apply_peer_auth env p h d g s))"
proof -
  let ?p = "normalize_public_id p"
  define s1 where "s1 = (if g \<and> \<not> check_access (st_access s) ?p then grant_access env ?p s else s)"
  have s1: "gated code S s1" using assms by (cases g) (auto simp: s1_def gated_grant)
  define s2 where "s2 = snd (store_peer_auth env ?p h d s1)"
  have "same_gate s1 s2" by (simp add: s2_def store_peer_auth_def Let_def split: option.split)
  then have s2: "gated code S s2" using s1 gated_same by blast
  define s3 where "s3 = s2\<lparr>st_relay := map_option (\<lambda>r. if check_peer_access s2 ?p then Relay.allow_peer r ?p else allow_portal_peer r ?p) (st_relay s2)\<rparr>"
  have s3: "gated code S s3"
    using s2 gated_access [OF s2, of ?p] by (auto simp: s3_def gated_def Relay.allow_peer_def hs_insert_def split: option.splits)
  have "snd (apply_peer_auth env p h d g s) = (if fst (store_peer_auth env ?p h d s1) \<and> signaling_peer_connected env ?p
      then snd (refresh_connected_replicated_peer env ?p s3) else s3)"
    by (simp add: apply_peer_auth_def Let_def case_prod_beta s1_def s2_def s3_def)
  then show ?thesis using s3 by (simp add: refresh_connected_replicated_peer_def gated_for_access)
qed

lemma gated_renew_all:
  "gated code S (snd r) \<Longrightarrow> gated code S (snd (foldl (\<lambda>r pe. and_then r (renew_one env pe)) r xs))"
  by (induction xs arbitrary: r) (simp_all add: renew_one_def gated_for_access)

lemma gated_renewals: "gated code S s \<Longrightarrow> gated code S (snd (check_ticket_renewals env s))"
  by (simp add: check_ticket_renewals_def gated_renew_all)

lemma gated_sockets:
  "gated code S s \<Longrightarrow> gated code S (snd (on_peer_connected env p s))"
  "gated code S s \<Longrightarrow> gated code S (snd (on_peer_disconnected env p s))"
  "gated code S s \<Longrightarrow> gated code S (snd (on_endpoint_disconnected env p d s))"
  by (auto simp: on_peer_connected_def on_peer_disconnected_def on_endpoint_disconnected_def Let_def case_prod_beta gated_trusted
      snd_foldl_sends gated_with_relay split: option.split)

lemma gated_rooms:
  "gated code S s \<Longrightarrow> gated code S (snd (handle_sfu_leave env msg s))"
  "gated code S s \<Longrightarrow> gated code S (snd (handle_sfu_room_list msg s))"
  "gated code S s \<Longrightarrow> gated code S (snd (handle_sfu_subscribe env msg s))"
  "gated code S s \<Longrightarrow> gated code S (snd (handle_sfu_unsubscribe env msg s))"
  "gated code S s \<Longrightarrow> gated code S (snd (handle_sfu_room_create env msg s))"
  "gated code S s \<Longrightarrow> gated code S (snd (handle_sfu_invite_generate env msg s))"
  by (auto simp: handle_sfu_leave_def handle_sfu_room_list_def handle_sfu_subscribe_def handle_sfu_unsubscribe_def
      handle_sfu_room_create_def handle_sfu_invite_generate_def Let_def case_prod_beta gated_with_relay split: option.split prod.split)

lemma gated_video: "gated code S s \<Longrightarrow> gated code S (snd (handle_sfu_video_subscribe msg s))"
  by (auto simp: handle_sfu_video_subscribe_def gated_def Let_def split: option.split)

lemma gated_others:
  "gated code S s \<Longrightarrow> gated code S (snd (handle_handshake_init env msg s))"
  "gated code S s \<Longrightarrow> gated code S (snd (handle_relay_request env msg s))"
  "gated code S s \<Longrightarrow> gated code S (snd (handle_game_relay_join env msg s))"
  "gated code S s \<Longrightarrow> gated code S (snd (handle_game_relay_leave msg s))"
  by (auto simp: handle_handshake_init_def handle_relay_request_def handle_game_relay_join_def handle_game_relay_leave_def Let_def
      case_prod_beta gated_trusted gated_guest gated_for_access gated_with_relay split: sum.split)

lemma gated_roots:
  "gated code S s \<Longrightarrow> gated code S (snd (handle_space_root_announce env msg s))"
  "gated code S s \<Longrightarrow> gated code S (snd (snd (accept_and_gossip_space_root env r s)))"
  "gated code S s \<Longrightarrow> gated code S (snd (handle_punch_register env msg s))"
  "gated code S s \<Longrightarrow> gated code S (on_endpoint_update env p raw s)"
  using gated_same [of s] same_gate_punch [of s env msg s]
  by (auto simp: handle_space_root_announce_def accept_and_gossip_space_root_def Let_def case_prod_beta split: option.split)

lemmas gated_calls = gated_join gated_invite gated_renewals gated_sockets gated_rooms gated_video gated_others gated_roots

lemma gated_step:
  assumes "gated code S s" "passes code (snd c) \<subseteq> S"
  shows "gated code S (sn_step s c)"
proof -
  obtain env call where c: "c = (env, call)" by (cases c)
  have "gated code S (snd (sn_run env call s))"
    using assms c by (cases call) (simp_all add: gated_calls gated_portal gated_peer_auth apply_room_roster_def case_prod_beta del: passes.simps)
  then show ?thesis by (simp add: sn_step_def c)
qed

lemma gated_run:
  "gated code S s \<Longrightarrow> (\<Union>c \<in> set hist. passes code (snd c)) \<subseteq> S \<Longrightarrow> gated code S (foldl sn_step s hist)"
  by (induction hist arbitrary: s) (simp_all add: gated_step)


subsection \<open>The gate and a restart\<close>

lemma loaded_peer:
  assumes "from_json data = Some rs" "p \<in> set rs" "live_record p" "distinct (map (\<lambda>r. normalize_public_id (pr_identity_pub r)) rs)"
  shows "normalize_public_id (pr_identity_pub p) \<in> set (trusted_peer_ids (store_load from_json (Some data)))"
proof -
  have "hm_get (foldl load_peer s rs) (normalize_public_id (pr_identity_pub p)) = Some (p\<lparr>pr_identity_pub := normalize_public_id (pr_identity_pub p)\<rparr>)" for s
    using assms(2,4)
  proof (induction rs arbitrary: s)
    case (Cons r rs)
    have other: "hm_get (foldl load_peer s rs) k = hm_get s k" if "k \<notin> (\<lambda>r. normalize_public_id (pr_identity_pub r)) ` set rs" for s k
      using that by (induction rs arbitrary: s) (auto simp: load_peer_def Let_def hm_get_insert)
    show ?case
    proof (cases "p \<in> set rs")
      case False
      then have p: "p = r" "normalize_public_id (pr_identity_pub r) \<notin> (\<lambda>r. normalize_public_id (pr_identity_pub r)) ` set rs" using Cons.prems by auto
      have "hm_get (load_peer s r) (normalize_public_id (pr_identity_pub r)) = Some (r\<lparr>pr_identity_pub := normalize_public_id (pr_identity_pub r)\<rparr>)"
        by (simp add: load_peer_def Let_def hm_get_insert)
      then show ?thesis using p other [of _ "load_peer s r"] by simp
    qed (use Cons in simp)
  qed simp
  then have "(normalize_public_id (pr_identity_pub p), p\<lparr>pr_identity_pub := normalize_public_id (pr_identity_pub p)\<rparr>) \<in> set (store_load from_json (Some data))"
    using assms(1) by (auto simp: store_load_def dest: hm_get_SomeD)
  then show ?thesis using assms(3) unfolding trusted_peer_ids_def by (force simp: live_record_def)
qed

lemma store_ids_distinct: "store_ok s \<Longrightarrow> distinct (map (\<lambda>r. normalize_public_id (pr_identity_pub r)) (hm_values s))"
proof -
  assume ok: "store_ok s"
  have "map (\<lambda>r. normalize_public_id (pr_identity_pub r)) (hm_values s) = map fst s"
    using ok by (auto simp: store_ok_def list_all_iff canonical_entry_def hm_values_def)
  then show ?thesis using ok by (simp add: store_ok_def hm_wf_def)
qed

lemma peers_file_ticket [simp]: "st_peers_file (snd (issue_ticket_for_access_state env p s)) = st_peers_file s"
  by (simp add: issue_ticket_for_access_state_def issue_relay_ticket_def issue_portal_ticket_def issue_ticket_def Let_def split: option.split)

lemma guest_saved:
  assumes "\<not> is_trusted (st_peers s) p" "ev_written env"
  shows "st_peers_file (snd (ensure_relay_for_room_guest env p s)) =
    Some (ev_peers_json env (hm_values (add_peer (st_peers s) (new_peer_record env p [] ROOM_GUEST_TRANSCRIPT_MARKER))))"
  using assms by (simp add: ensure_relay_for_room_guest_def on_peer_trusted_def save_peers_def store_save_def Let_def)

text \<open>
  A restart opens the gate. Take a supernode with a code gate and a peer it does not trust and that has no grant,
  which enters a room as a guest. The guest is recorded as a trusted peer and gets a ticket for
  the portal only, as the gate demands: the list of fully admitted peers stays as it was. When the supernode starts
  again from the files it has written, still with a code gate and with no grant for the guest, the guest is on
  that list, although the gate refuses it as before.
\<close>

theorem restart_opens_gate:
  assumes gate: "st_access s = CodeGateAccessController code g" "p \<notin> set (granted g)"
    and guest: "\<not> is_trusted (st_peers s) p" "store_ok (st_peers s)" "ev_written env"
    and s1: "s1 = snd (ensure_relay_for_room_guest env p s)" and s2: "s2 = start_up b (st_peers_file s1) grant_files mailbox_file"
    and boot: "bo_mode b = Code" "bo_peers_parse b (ev_peers_json env (hm_values (st_peers s1))) = Some (hm_values (st_peers s1))"
      "p \<notin> loaded_grants (bo_grants_parse b) grant_files (grants_path (bo_data_dir b) Code)"
  shows "map_option RelayState.allowed (st_relay s1) = map_option RelayState.allowed (st_relay s) \<and> \<not> check_peer_access s2 p \<and>
    (\<exists>r. st_relay s2 = Some r \<and> bare (normalize_public_id p) \<in> set (RelayState.allowed r))"
proof -
  define rec where "rec = new_peer_record env p [] ROOM_GUEST_TRANSCRIPT_MARKER"
  define r where "r = rec\<lparr>pr_identity_pub := normalize_public_id p\<rparr>"
  have refused: "check_peer_access (s\<lparr>st_peers := ps, st_peers_file := f\<rparr>) p = False" for ps f
    using gate by (simp add: check_peer_access_def check_access_def grants_contains_def)
  then have relay: "map_option RelayState.allowed (st_relay s1) = map_option RelayState.allowed (st_relay s)" and peers: "st_peers s1 = add_peer (st_peers s) rec"
    using guest(1,3) by (auto simp: s1 rec_def ensure_relay_for_room_guest_def on_peer_trusted_def save_peers_def issue_ticket_for_access_state_def
        issue_portal_ticket_def issue_ticket_def Let_def split: option.split)
  have ok: "store_ok (add_peer (st_peers s) rec)" by (rule store_ok_add [OF guest(2)])
  have "hm_get (add_peer (st_peers s) rec) (normalize_public_id p) = Some r"
    by (simp add: add_peer_def rec_def r_def new_peer_record_def Let_def hm_get_insert)
  then have "r \<in> set (hm_values (add_peer (st_peers s) rec))" by (force simp: hm_values_def dest: hm_get_SomeD)
  moreover have "live_record r" "pr_identity_pub r = normalize_public_id p" by (simp_all add: r_def rec_def new_peer_record_def live_record_def)
  moreover have "st_peers_file s1 = Some (ev_peers_json env (hm_values (add_peer (st_peers s) rec)))" using guest_saved [OF guest(1,3)] by (simp add: s1 rec_def)
  ultimately have "normalize_public_id p \<in> set (trusted_peer_ids (store_load (bo_peers_parse b) (st_peers_file s1)))"
    using loaded_peer [of "bo_peers_parse b" _ "hm_values (add_peer (st_peers s) rec)" r] boot(2) store_ids_distinct [OF ok] by (simp add: peers)
  then have "\<exists>r. st_relay s2 = Some r \<and> bare (normalize_public_id p) \<in> set (RelayState.allowed r)" by (simp add: s2 start_up_relay allowed_fold)
  moreover have "\<not> check_peer_access s2 p"
    using boot(1,3) by (simp add: s2 check_peer_access_def start_up_code check_access_def grants_contains_def)
  ultimately show ?thesis using relay by simp
qed

subsection \<open>A small supernode\<close>

definition small_sn_env :: sn_env where
  "small_sn_env = \<lparr>ev_prims = toy_prims, ev_b64 = \<lparr>no_pad_decode = \<lambda>_. None, b64.url_safe_encode = \<lambda>_. []\<rparr>, ev_now = 100, ev_now_secs = 100, ev_nonce = ''nonce'',
     ev_written = True, ev_connected = (\<lambda>_. False), ev_grants_json = enc_file, ev_peers_json = (\<lambda>_. ''peers''), ev_show_f64 = (\<lambda>_. ''t''),
     ev_show_u16 = (\<lambda>_. ''p''), ev_sign = (\<lambda>_. []), ev_parse = (\<lambda>_. None), ev_proof = (\<lambda>_. None), ev_root = (\<lambda>_. None),
     ev_grant = (\<lambda>_. None), ev_hs = small_env\<rparr>"

definition small_sn :: "AccessController \<Rightarrow> PeerStore \<Rightarrow> SFURoomManager \<Rightarrow> unit SupernodeState" where
  "small_sn ac store rooms = \<lparr>st_peers = store, st_peers_file = None, st_handshake = small_node ''ws://a'' None,
     st_relay = Some (relay_new True), st_sfu = Some rooms, st_access = ac, st_grant_files = [], st_ticket_expiry = [],
     st_mailbox = [], st_mailbox_file = None, st_punches = [], st_features = registry_new,
     st_room_policy = \<lparr>allow_public = False, allow_private = True\<rparr>, st_clustered = False, st_space_roots = roots_default,
     st_room_list_dirty = False, st_external_host = None, st_relay_port = 3478\<rparr>"

definition small_boot :: "(string \<Rightarrow> PeerRecord list option) \<Rightarrow> unit boot" where
  "small_boot parse = \<lparr>bo_now = 0, bo_peers_parse = parse, bo_grants_parse = (\<lambda>_. None), bo_mode = Code, bo_code = ''secret'', bo_data_dir = ''/data'',
     bo_public_id = replicate 32 (CHR ''K''), bo_peer_id = ''pid'', bo_show_u16 = (\<lambda>_. ''1''), bo_signaling_port = 1, bo_invite_ttl_seconds = 60,
     bo_web_title = ''Node'', bo_hostname = None, bo_hostname_lookup = None, bo_features = registry_new, bo_device_routing = True,
     bo_room_policy = \<lparr>allow_public = False, allow_private = True\<rparr>, bo_sfu_enabled = True, bo_clustered = False, bo_external_host = None, bo_relay_port = 3478\<rparr>"


text \<open>Bob enters a room of a supernode whose code he does not know, and the supernode is restarted.\<close>

lemma restart_opens_gate_example:
  "let s1 = snd (ensure_relay_for_room_guest small_sn_env ''bob'' (start_up (small_boot (\<lambda>_. None)) None [] None));
       s2 = start_up (small_boot (\<lambda>_. Some (hm_values (st_peers s1)))) (st_peers_file s1) [] None
   in \<not> check_peer_access s2 ''bob'' \<and> (\<exists>r. st_relay s2 = Some r \<and> bare (normalize_public_id ''bob'') \<in> set (RelayState.allowed r))"
proof -
  let ?s = "start_up (small_boot (\<lambda>_. None)) None [] None"
  have "st_access ?s = CodeGateAccessController ''secret'' (grants_new (\<lambda>_. None) [] (grants_path ''/data'' Code))" "bo_mode (small_boot f) = Code"
    "''bob'' \<notin> set (granted (grants_new (\<lambda>_. None) [] (grants_path ''/data'' Code)))" "\<not> is_trusted (st_peers ?s) ''bob''" "store_ok (st_peers ?s)" for f
    by (simp_all add: start_up_code small_boot_def loaded_grants_def start_up_def store_load_def Let_def is_trusted_def store_ok_def hm_wf_def get_peer_def create_access_controller_def split: option.split)
  from restart_opens_gate [OF this(1,3,4,5) _ refl refl this(2)] show ?thesis
    by (simp add: Let_def small_boot_def small_sn_env_def loaded_grants_def)
qed

end
