(* ===== verification/Supernode_Admission.thy ===== *)
theory Supernode_Admission
  imports Supernode_Gate
begin

section \<open>Who gets into a room\<close>

text \<open>
  What the room handlers of the supernode decide about admission, composed down to the room's roster and
  the trust store.
\<close>

subsection \<open>Joining a room one is allowed in\<close>

lemma voice_join:
  assumes "\<not> is_full r"
  shows "fst (set_device_membership now r p None (Some True) None)"
    "hm_contains (participants (snd (set_device_membership now r p None (Some True) None))) (normalize_peer_id p)"
    "same_card r (snd (set_device_membership now r p None (Some True) None))"
proof -
  let ?n = "normalize_peer_id p"
  let ?q = "with_endpoint r (?n, None) (wanted r (?n, None) (Some True) None)"
  have takes: "takes r (?n, None) (Some True)" using assms by (simp add: takes_def)
  have eq: "set_device_membership now r p None (Some True) None = (True, sync_rosters now ?q ?n)"
    using takes by (simp add: set_device_membership_eq Let_def)
  have voice: "voice (wanted r (?n, None) (Some True) None)" by (simp add: wanted_def Let_def)
  have "((?n, None), wanted r (?n, None) (Some True) None) \<in> set (device_members ?q)"
    using hm_get_SomeD [of "device_members ?q"] voice by (simp add: get_with_endpoint)
  then have hv: "has_voice ?q ?n" using voice by (force simp: has_voice_def list_ex_iff)
  have room: "has_voice ?q ?n \<longrightarrow> hm_contains (participants ?q) ?n \<or> \<not> is_full ?q" using assms by simp
  note facts = sync_rosters_facts [where now = now, OF normalize_peer_id_idem room]
  show "fst (set_device_membership now r p None (Some True) None)" by (simp add: eq)
  show "hm_contains (participants (snd (set_device_membership now r p None (Some True) None))) ?n"
    using facts(1) hv by (simp add: eq)
  show "same_card r (snd (set_device_membership now r p None (Some True) None))"
    using facts(4) same_card_trans [OF with_endpoint_simps(3)] by (simp add: eq)
qed

lemma rooms_kept [simp]:
  "st_sfu (snd (issue_ticket env p b s)) = st_sfu s" "st_sfu (snd (issue_ticket_for_access_state env p s)) = st_sfu s"
  "st_sfu (save_peers env s) = st_sfu s" "st_sfu (broadcast_room_list s) = st_sfu s" "st_sfu (snd (with_relay f s)) = st_sfu s"
  by (simp_all add: issue_ticket_def issue_ticket_for_access_state_def issue_relay_ticket_def issue_portal_ticket_def save_peers_def
      broadcast_room_list_def with_relay_def Let_def case_prod_beta split: option.split)

lemma rooms_kept_guest [simp]: "st_sfu (snd (ensure_relay_for_room_guest env p s)) = st_sfu s"
  by (simp add: ensure_relay_for_room_guest_def on_peer_trusted_def Let_def)

lemma peers_kept [simp]:
  "st_peers (snd (issue_ticket env p b s)) = st_peers s" "st_peers (snd (issue_ticket_for_access_state env p s)) = st_peers s"
  "st_peers (save_peers env s) = st_peers s" "st_peers (broadcast_room_list s) = st_peers s" "st_peers (snd (with_relay f s)) = st_peers s"
  by (simp_all add: issue_ticket_def issue_ticket_for_access_state_def issue_relay_ticket_def issue_portal_ticket_def save_peers_def
      broadcast_room_list_def with_relay_def Let_def case_prod_beta split: option.split)

lemma get_added: "get_peer (add_peer st rec) (pr_identity_pub rec) = Some (rec\<lparr>pr_identity_pub := normalize_public_id (pr_identity_pub rec)\<rparr>)"
  by (simp add: get_peer_def resolve_key_def add_peer_def Let_def hm_contains_iff hm_get_insert)

lemma trusted_added: "live_record rec \<Longrightarrow> is_trusted (add_peer st rec) (pr_identity_pub rec)"
  by (simp add: is_trusted_def get_added live_record_def)

text \<open>Room admission trusts: afterwards the peer is trusted, whatever the store said before.\<close>

lemma guest_trusted: "is_trusted (st_peers (snd (ensure_relay_for_room_guest env p s))) p"
proof (cases "is_trusted (st_peers s) p")
  case False
  have "is_trusted (add_peer (st_peers s) (new_peer_record env p [] ROOM_GUEST_TRANSCRIPT_MARKER)) p"
    using trusted_added [of "new_peer_record env p [] ROOM_GUEST_TRANSCRIPT_MARKER"] by (simp add: live_record_def new_peer_record_def)
  then show ?thesis using False by (simp add: ensure_relay_for_room_guest_def on_peer_trusted_def Let_def)
qed (simp add: ensure_relay_for_room_guest_def)

lemma after_join_keeps: "st_sfu (snd (after_join env msg rid members m s)) = st_sfu s"
  by (simp add: after_join_def Let_def)

lemma after_join_trusts: "is_trusted (st_peers (snd (after_join env msg rid members m s))) (sm_sender msg)"
  by (simp add: after_join_def Let_def guest_trusted)

text \<open>A join after the Space fields have been looked at, once the room lets the sender in.\<close>

lemma join_admitted:
  assumes adm: "try_space_admission env (sm_sender msg) rid (sm_payload msg) s = (b, outs, s1)"
    and sfu: "st_sfu s \<noteq> None" "st_sfu s1 = Some m" and dev: "sm_source_device msg = None"
    and rid: "payload_or (sm_payload msg) ''room_id'' DEFAULT_ROOM_ID = rid"
    and r: "hm_get (join_with_token msg rid m) rid = Some r" "is_peer_allowed r (normalize_peer_id (sm_sender msg))" "\<not> is_full r"
    and s': "s' = snd (handle_sfu_join env msg s)"
  shows "\<exists>m' r'. st_sfu s' = Some m' \<and> hm_get m' rid = Some r' \<and> same_card r r' \<and>
      hm_contains (participants r') (normalize_peer_id (sm_sender msg)) \<and> is_trusted (st_peers s') (sm_sender msg)"
proof -
  define d where "d = set_device_membership (ev_now env) r (sm_sender msg) None (Some True) None"
  have norm: "set_device_membership (ev_now env) r (normalize_peer_id (sm_sender msg)) None (Some True) None = d"
    by (simp add: d_def set_device_membership_def)
  note v = voice_join [OF r(3), of "ev_now env" "sm_sender msg", folded d_def]
  have join: "sfu_join env msg rid (join_with_token msg rid m) = ((True, participant_ids (snd d)), hm_insert rid (snd d) (join_with_token msg rid m))"
    using v(1) r by (simp add: sfu_join_def dev join_room_def join_room_endpoint_def norm Let_def case_prod_beta)
  let ?s2 = "s1\<lparr>st_sfu := Some (hm_insert rid (snd d) (join_with_token msg rid m))\<rparr>"
  have "s' = snd (after_join env msg rid (participant_ids (snd d)) (hm_insert rid (snd d) (join_with_token msg rid m)) ?s2)"
    using s' sfu by (simp add: handle_sfu_join_def rid adm with_rooms_def join Let_def)
  then show ?thesis using v by (auto simp: after_join_keeps after_join_trusts hm_get_insert)
qed

lemma no_admission: "json_get payload ''space_proof'' = None \<Longrightarrow> try_space_admission env p rid payload s = (False, [], s)"
  by (simp add: try_space_admission_def)

lemma no_token: "nonempty (payload_str (sm_payload msg) ''invite_token'') = None \<Longrightarrow> join_with_token msg rid m = m"
  by (simp add: join_with_token_def)

lemma join_with_made_up_token:
  assumes "hm_get m rid = Some r" "nonempty (payload_str (sm_payload msg) ''invite_token'') = Some tok" "tok \<noteq> []"
  shows "\<exists>r1. hm_get (join_with_token msg rid m) rid = Some r1 \<and> participants r1 = participants r \<and>
    normalize_peer_id (sm_sender msg) \<in> set (Sfu_Room.allowed r1) \<and> room_type r1 = room_type r"
  using assms by (auto simp: join_with_token_def mgr_reregister_invite_token_def reregister_invite_token_def mgr_allow_peer_def
      Sfu_Room.allow_peer_def hs_insert_def hm_get_insert Let_def)

text \<open>
  C20: any invite token opens any room. Let a room with a free place exist, of whatever type and with
  whatever list of allowed peers and tokens, and let any peer, trusted, unknown or blocked, send a join
  for it that names no source device and carries a token of its own invention. The peer is then a voice participant of the room and
  a trusted peer of the supernode. The check that only the room's creator mints invites, meant to keep a
  peer from inviting itself, is thereby void.
\<close>

theorem made_up_token_joins:
  assumes sfu: "st_sfu s = Some m" and room: "hm_get m rid = Some r" "participant_count r < MAX_ROOM_SIZE"
    and msg: "msg = \<lparr>sm_sender = p, sm_source_device = None, sm_payload = JObj [(''room_id'', Wire.JStr rid), (''invite_token'', Wire.JStr tok)]\<rparr>"
    and tok: "tok \<noteq> []"
  shows "\<exists>m' r'. st_sfu (snd (handle_sfu_join env msg s)) = Some m' \<and> hm_get m' rid = Some r' \<and> room_type r' = room_type r \<and>
    hm_contains (participants r') (normalize_peer_id p) \<and> is_trusted (st_peers (snd (handle_sfu_join env msg s))) p"
proof -
  have fields: "payload_or (sm_payload msg) ''room_id'' DEFAULT_ROOM_ID = rid" "json_get (sm_payload msg) ''space_proof'' = None"
    "nonempty (payload_str (sm_payload msg) ''invite_token'') = Some tok" "sm_source_device msg = None" "sm_sender msg = p"
    using tok by (simp_all add: msg payload_or_def payload_str_def nonempty_def split: list.split)
  from join_with_made_up_token [OF room(1) fields(3) tok] obtain r1 where
    r1: "hm_get (join_with_token msg rid m) rid = Some r1" "participants r1 = participants r"
      "normalize_peer_id p \<in> set (Sfu_Room.allowed r1)" "room_type r1 = room_type r" by (auto simp: fields(5))
  have "is_peer_allowed r1 (normalize_peer_id p)" "\<not> is_full r1"
    using r1 room(2) by (simp_all add: is_peer_allowed_def is_full_def participant_count_def)
  from join_admitted [OF no_admission [OF fields(2)] _ sfu fields(4,1) r1(1) this [folded fields(5)] refl] sfu
  show ?thesis using r1(4) by (fastforce simp: fields(5) same_card_def)
qed

definition vip_room :: SFURoom where
  "vip_room = (room_new ''vip'' ''VIP'' Private ''owner'')\<lparr>invite_tokens := [(''real'', \<lparr>created_by = ''owner'', uses = 0, max_uses = 1\<rparr>)]\<rparr>"

definition vip_sn :: "unit SupernodeState" where
  "vip_sn = small_sn (OpenAccessController grants_ephemeral) [] [(''vip'', vip_room)]"

lemma vip_simps [simp]:
  "st_sfu vip_sn = Some [(''vip'', vip_room)]" "hm_get [(''vip'', vip_room)] ''vip'' = Some vip_room" "participant_count vip_room = 0"
  "room_type vip_room = Private" "room_id vip_room = ''vip''" "participants vip_room = []"
  by (simp_all add: vip_sn_def small_sn_def vip_room_def room_new_def participant_count_def hm_get_Cons)

theorem made_up_token_joins_witness:
  "\<exists>m' r'. st_sfu (snd (handle_sfu_join small_sn_env \<lparr>sm_sender = ''mallory'', sm_source_device = None,
      sm_payload = JObj [(''room_id'', Wire.JStr ''vip''), (''invite_token'', Wire.JStr ''x'')]\<rparr> vip_sn)) = Some m' \<and>
    hm_get m' ''vip'' = Some r' \<and> room_type r' = Private \<and> hm_contains (participants r') (normalize_peer_id ''mallory'')"
  using made_up_token_joins [where s = vip_sn and m = "[(''vip'', vip_room)]" and rid = "''vip''" and r = vip_room and p = "''mallory''" and tok = "''x''" and env = small_sn_env, OF _ _ _ refl]
  by (simp add: MAX_ROOM_SIZE_def) blast

subsection \<open>Creating a room that exists\<close>

lemma readmit_default_creator:
  assumes "hm_get m (room_id r) = Some r"
  shows "\<exists>r1. hm_get (snd (readmit_private env msg (sm_sender msg) None r False m)) (room_id r) = Some r1 \<and> participants r1 = participants r \<and>
    normalize_peer_id (sm_sender msg) \<in> set (Sfu_Room.allowed r1) \<and> room_type r1 = room_type r"
  using assms by (simp add: readmit_private_def mgr_allow_peer_def Sfu_Room.allow_peer_def hs_insert_def hm_get_insert)

text \<open>
  Knowing a room's id is enough to enter it. Let a room with a free place exist under its id, and let
  any peer ask the supernode to create a private room of that id, naming neither a creator nor a token,
  and then join. The peer counts as the creator of its own request and is put on the list of the existing
  room, and the join makes it a voice participant.
\<close>

theorem room_id_alone_admits:
  assumes sfu: "st_sfu s = Some m" and room: "hm_get m rid = Some r" "room_id r = rid" "participant_count r < MAX_ROOM_SIZE"
    and create: "create = \<lparr>sm_sender = p, sm_source_device = None, sm_payload = JObj [(''room_id'', Wire.JStr rid), (''room_type'', Wire.JStr ''private'')]\<rparr>"
    and join: "join = \<lparr>sm_sender = p, sm_source_device = None, sm_payload = JObj [(''room_id'', Wire.JStr rid)]\<rparr>"
    and s': "s' = snd (handle_sfu_join env' join (snd (handle_sfu_room_create env create s)))"
  shows "\<exists>m' r'. st_sfu s' = Some m' \<and> hm_get m' rid = Some r' \<and> room_type r' = room_type r \<and> hm_contains (participants r') (normalize_peer_id p)"
proof -
  let ?s1 = "snd (handle_sfu_room_create env create s)"
  have made: "create_room_with_policy sha now m (Some rid) name t c pol = (Some (r, False), m)" for sha now name t c pol
    using room by (simp add: create_room_with_policy_def hm_contains_iff Let_def)
  have s1: "st_sfu ?s1 = Some (snd (readmit_private env create p None r False m))"
    using sfu room(1) by (simp add: handle_sfu_room_create_def create payload_str_def payload_or_def nonempty_def de_room_type_def made case_prod_beta Let_def)
  from readmit_default_creator [of m r env create] room obtain r1 where
    r1: "hm_get (snd (readmit_private env create p None r False m)) rid = Some r1" "participants r1 = participants r"
      "normalize_peer_id p \<in> set (Sfu_Room.allowed r1)" "room_type r1 = room_type r" by (auto simp: create)
  have fields: "payload_or (sm_payload join) ''room_id'' DEFAULT_ROOM_ID = rid" "json_get (sm_payload join) ''space_proof'' = None"
    "nonempty (payload_str (sm_payload join) ''invite_token'') = None" "sm_source_device join = None" "sm_sender join = p"
    by (simp_all add: join payload_or_def payload_str_def nonempty_def)
  have "is_peer_allowed r1 (normalize_peer_id p)" "\<not> is_full r1"
    using r1 room(3) by (simp_all add: is_peer_allowed_def is_full_def participant_count_def)
  from join_admitted [OF no_admission [OF fields(2)] _ s1 fields(4,1) _ this [folded fields(5)] s'] s1 r1(1)
  show ?thesis using r1(4) by (fastforce simp: fields(5) same_card_def no_token [OF fields(3)])
qed

theorem room_id_alone_admits_witness:
  "let s' = snd (handle_sfu_join small_sn_env \<lparr>sm_sender = ''mallory'', sm_source_device = None, sm_payload = JObj [(''room_id'', Wire.JStr ''vip'')]\<rparr>
       (snd (handle_sfu_room_create small_sn_env \<lparr>sm_sender = ''mallory'', sm_source_device = None,
          sm_payload = JObj [(''room_id'', Wire.JStr ''vip''), (''room_type'', Wire.JStr ''private'')]\<rparr> vip_sn)))
   in \<exists>m' r'. st_sfu s' = Some m' \<and> hm_get m' ''vip'' = Some r' \<and> room_type r' = Private \<and> hm_contains (participants r') (normalize_peer_id ''mallory'')"
  using room_id_alone_admits [where s = vip_sn and m = "[(''vip'', vip_room)]" and rid = "''vip''" and r = vip_room and p = "''mallory''"
      and env = small_sn_env and env' = small_sn_env, OF _ _ _ _ refl refl refl]
  by (simp add: MAX_ROOM_SIZE_def)

subsection \<open>Entry by proof\<close>

lemma roots_accept_fresh:
  assumes "root_verify prm rt" "hm_get (roots st) (sr_space_id rt) = None"
  shows "roots_accept prm st rt = (True, st\<lparr>roots := hm_insert (sr_space_id rt) rt (roots st)\<rparr>)"
  using assms by (simp add: roots_accept_def)

lemma proven_room_kept:
  assumes "st_sfu s = Some m" "hm_get m rid = Some r"
  shows "\<exists>m1 r1. st_sfu (materialize_proven env rid node s) = Some m1 \<and> hm_get m1 rid = Some r1 \<and> participants r1 = participants r \<and>
    room_type r1 = room_type r"
  using assms by (auto simp: materialize_proven_def with_rooms_def create_room_with_policy_def adopt_creator_if_empty_def hm_contains_iff
      hm_get_insert Let_def)

lemma local_allow_existing:
  assumes "st_sfu s = Some m" "hm_get m rid = Some r"
  shows "\<exists>m1 r1. st_sfu (local_allow_room_peer env rid name t p s) = Some m1 \<and> hm_get m1 rid = Some r1 \<and> participants r1 = participants r \<and>
    room_type r1 = room_type r \<and> normalize_peer_id p \<in> set (Sfu_Room.allowed r1)"
  using assms by (auto simp: local_allow_room_peer_def with_rooms_def create_room_def create_room_with_policy_def mgr_allow_peer_def
      Sfu_Room.allow_peer_def hs_insert_def hm_contains_iff hm_get_insert Let_def)

lemma forged_admission:
  assumes sfu: "st_sfu s = Some m" "hm_get m rid = Some r"
    and payload: "Option.bind (json_get payload ''space_proof'') (ev_proof env) = Some pf" "Option.bind (json_get payload ''space_root'') (ev_root env) = Some rt"
    and rt: "root_verify (supernode_prims env) rt" "hm_get (roots (st_space_roots s)) (sr_space_id rt) = None"
    and pf: "verify_against (supernode_prims env) pf rt" "sn_node_id (ip_node pf) = rid" "sn_node_type (ip_node pf) \<noteq> ''private''"
  shows "\<exists>outs s1 m1 r1. try_space_admission env p rid payload s = (True, outs, s1) \<and> st_sfu s1 = Some m1 \<and> hm_get m1 rid = Some r1 \<and>
    participants r1 = participants r \<and> room_type r1 = room_type r \<and> normalize_peer_id p \<in> set (Sfu_Room.allowed r1)"
proof -
  let ?s0 = "s\<lparr>st_space_roots := (st_space_roots s)\<lparr>roots := hm_insert (sr_space_id rt) rt (roots (st_space_roots s))\<rparr>\<rparr>"
  let ?s1 = "materialize_proven env rid (ip_node pf) ?s0"
  let ?s2 = "local_allow_room_peer env rid (sn_name (ip_node pf)) ''public'' p ?s1"
  have acc: "accept_and_gossip_space_root env rt s = (True, if st_clustered s then [GossipSpaceRoot rt] else [], ?s0)"
    by (simp add: accept_and_gossip_space_root_def roots_accept_fresh [OF rt])
  have held: "roots_get (st_space_roots ?s0) (sr_space_id rt) = Some rt" by (simp add: roots_get_def hm_get_insert)
  have ok: "space_admission_ok (supernode_prims env) rt pf g p rid now" for g now using pf by (simp add: space_admission_ok_def)
  have "try_space_admission env p rid payload s = (True, if st_clustered s then [GossipSpaceRoot rt] else [], ?s2)"
    by (simp only: try_space_admission_def payload option.case acc Let_def prod.case held pf(1,2) ok pf(3) simp_thms if_False if_True)
  moreover obtain m1 r1 where "st_sfu ?s1 = Some m1" "hm_get m1 rid = Some r1" "participants r1 = participants r" "room_type r1 = room_type r"
    using proven_room_kept [of ?s0 m rid r env "ip_node pf"] sfu by auto
  ultimately show ?thesis using local_allow_existing [of ?s1 m1 rid r1 env "sn_name (ip_node pf)" "''public''" p] by auto
qed

text \<open>
  A self-made Space opens any room. Nothing ties the id of a Space, or the id of a room in it, to the
  key that signs its root. Let a room with a free place exist, and let a peer sign a root of its own
  invention under a Space id the supernode has not seen, which commits to a public node whose id is that
  room's. Its join with this root and proof makes it a voice participant of the existing room, even a
  private one.
\<close>

theorem forged_space_admits:
  assumes sfu: "st_sfu s = Some m" and room: "hm_get m rid = Some r" "participant_count r < MAX_ROOM_SIZE"
    and rt: "root_verify (supernode_prims env) rt" "hm_get (roots (st_space_roots s)) (sr_space_id rt) = None"
    and pf: "verify_against (supernode_prims env) pf rt" "sn_node_id (ip_node pf) = rid" "sn_node_type (ip_node pf) = ''public''"
    and msg: "msg = \<lparr>sm_sender = p, sm_source_device = None,
      sm_payload = JObj [(''room_id'', Wire.JStr rid), (''space_proof'', pj), (''space_root'', rj)]\<rparr>"
    and parsed: "ev_proof env pj = Some pf" "ev_root env rj = Some rt"
  shows "\<exists>m' r'. st_sfu (snd (handle_sfu_join env msg s)) = Some m' \<and> hm_get m' rid = Some r' \<and> room_type r' = room_type r \<and>
    hm_contains (participants r') (normalize_peer_id p)"
proof -
  have fields: "payload_or (sm_payload msg) ''room_id'' DEFAULT_ROOM_ID = rid" "sm_source_device msg = None" "sm_sender msg = p"
    "nonempty (payload_str (sm_payload msg) ''invite_token'') = None"
    by (simp_all add: msg payload_or_def payload_str_def nonempty_def)
  have "Option.bind (json_get (sm_payload msg) ''space_proof'') (ev_proof env) = Some pf"
    "Option.bind (json_get (sm_payload msg) ''space_root'') (ev_root env) = Some rt" by (simp_all add: msg parsed)
  from forged_admission [OF sfu room(1) this rt pf(1,2), of p] pf(3) obtain outs s1 m1 r1 where
    adm: "try_space_admission env p rid (sm_payload msg) s = (True, outs, s1)" "st_sfu s1 = Some m1"
    and r1: "hm_get m1 rid = Some r1" "participants r1 = participants r" "room_type r1 = room_type r" "normalize_peer_id p \<in> set (Sfu_Room.allowed r1)"
    by auto
  have "is_peer_allowed r1 (normalize_peer_id p)" "\<not> is_full r1"
    using r1 room(2) by (simp_all add: is_peer_allowed_def is_full_def participant_count_def)
  from join_admitted [OF adm(1) [folded fields(3)] _ adm(2) fields(2,1) _ this [folded fields(3)] refl] sfu r1(1)
  show ?thesis using r1(3) by (fastforce simp: fields(3) same_card_def no_token [OF fields(4)])
qed

subsection \<open>Blocks and identities\<close>

text \<open>
  Joining the public room lifts a block. Let the default room be public with a free place, and let a
  peer whose record is blocked or revoked send an empty join. The supernode replaces the record by a fresh
  one, and the peer is trusted again.
\<close>

theorem join_lifts_block:
  assumes sfu: "st_sfu s = Some m" and room: "hm_get m DEFAULT_ROOM_ID = Some r" "room_type r = Public" "participant_count r < MAX_ROOM_SIZE"
    and blocked: "get_peer (st_peers s) p = Some rec" "pr_blocked rec \<or> pr_revoked rec"
    and msg: "msg = \<lparr>sm_sender = p, sm_source_device = None, sm_payload = JObj []\<rparr>"
  shows "\<not> is_trusted (st_peers s) p \<and> is_trusted (st_peers (snd (handle_sfu_join env msg s))) p"
proof -
  have fields: "payload_or (sm_payload msg) ''room_id'' DEFAULT_ROOM_ID = DEFAULT_ROOM_ID" "json_get (sm_payload msg) ''space_proof'' = None"
    "nonempty (payload_str (sm_payload msg) ''invite_token'') = None" "sm_source_device msg = None" "sm_sender msg = p"
    by (simp_all add: msg payload_or_def payload_str_def nonempty_def)
  have "is_peer_allowed r (normalize_peer_id p)" "\<not> is_full r"
    using room by (simp_all add: is_peer_allowed_def is_public_def is_full_def participant_count_def)
  from join_admitted [OF no_admission [OF fields(2)] _ sfu fields(4,1) _ this [folded fields(5)] refl] sfu room(1)
  have "is_trusted (st_peers (snd (handle_sfu_join env msg s))) p" by (auto simp: fields(5) no_token [OF fields(3)])
  then show ?thesis using blocked by (auto simp: is_trusted_def live_record_def)
qed

text \<open>
  The invite handshake never looks at who sends it. Whenever the supernode accepts a handshake for
  some key, the outcome is the same for every sender of the message, that key is trusted afterwards, and
  this also when its record was blocked or revoked before: the holder of an invite can vouch for, rename
  and unblock any identity.
\<close>

theorem handshake_sender_unchecked:
  assumes "process_init (ev_hs env) (st_handshake s) (sm_payload msg) = Inr (acc, key, joiner)"
  shows "handle_handshake_init env (msg\<lparr>sm_sender := anyone\<rparr>) s = handle_handshake_init env msg s \<and>
    is_trusted (st_peers (snd (handle_handshake_init env msg s))) joiner \<and>
    map_option pr_handle (get_peer (st_peers (snd (handle_handshake_init env msg s))) joiner) = Some (payload_or (sm_payload msg) ''joiner_handle'' [])"
proof -
  define rec where "rec = handshake_record env (sm_payload msg) acc joiner"
  have rec: "pr_identity_pub rec = joiner" "live_record rec" "pr_handle rec = payload_or (sm_payload msg) ''joiner_handle'' []"
    by (simp_all add: rec_def handshake_record_def live_record_def Let_def)
  have store: "st_peers (snd (handle_handshake_init env msg s)) = add_peer (st_peers s) rec"
    using assms by (simp add: handle_handshake_init_def on_peer_trusted_def rec_def)
  have "handle_handshake_init env (msg\<lparr>sm_sender := anyone\<rparr>) s = handle_handshake_init env msg s"
    using assms by (simp add: handle_handshake_init_def)
  then show ?thesis using store rec trusted_added [of rec "st_peers s"] get_added [of "st_peers s" rec] by simp
qed

subsection \<open>Concrete runs\<close>

definition forge_prims :: space_prims where
  "forge_prims = toy_prims\<lparr>url_safe_no_pad_decode := \<lambda>s. Some (as_bytes s)\<rparr>"

definition forged_node :: SpaceNode where
  "forged_node = (toy_node ''vip'')\<lparr>sn_node_type := ''public''\<rparr>"

definition forged_root :: SignedSpaceRoot where
  "forged_root = \<lparr>sr_schema = 1, sr_space_id = ''mine'', sr_epoch = 1, sr_root_hash = hex_encode forge_prims (leaf_hash forge_prims forged_node),
     sr_node_count = 1, sr_issued_at = 0, sr_signer = replicate 32 (CHR ''M''), sr_signature = string_of_bytes (replicate 64 1)\<rparr>"

definition forged_proof :: SpaceInclusionProof where
  "forged_proof = \<lparr>ip_schema = 1, ip_node = forged_node, ip_leaf_index = 0, ip_path = [], ip_epoch = 1\<rparr>"

definition forge_env :: sn_env where
  "forge_env = small_sn_env\<lparr>ev_prims := forge_prims, ev_proof := \<lambda>_. Some forged_proof, ev_root := \<lambda>_. Some forged_root\<rparr>"

lemma forged_verifies:
  "root_verify (supernode_prims forge_env) forged_root" "verify_against (supernode_prims forge_env) forged_proof forged_root"
  by code_simp+

text \<open>Mallory signs a Space with a public node called like the private room.\<close>

theorem forged_space_admits_witness:
  "\<exists>m' r'. st_sfu (snd (handle_sfu_join forge_env \<lparr>sm_sender = ''mallory'', sm_source_device = None,
      sm_payload = JObj [(''room_id'', Wire.JStr ''vip''), (''space_proof'', JNull), (''space_root'', JNull)]\<rparr> vip_sn)) = Some m' \<and>
    hm_get m' ''vip'' = Some r' \<and> room_type r' = Private \<and> hm_contains (participants r') (normalize_peer_id ''mallory'')"
  using forged_space_admits [where s = vip_sn and m = "[(''vip'', vip_room)]" and rid = "''vip''" and r = vip_room and env = forge_env and rt = forged_root
      and pf = forged_proof and p = "''mallory''" and pj = JNull and rj = JNull, OF _ _ _ _ _ _ _ _ refl] forged_verifies
  by (simp add: MAX_ROOM_SIZE_def vip_sn_def small_sn_def roots_default_def forged_proof_def forged_node_def toy_node_def forge_env_def)

theorem join_lifts_block_witness:
  "let s = small_sn (OpenAccessController grants_ephemeral) [(''bob'', sample_peer\<lparr>pr_identity_pub := ''bob'', pr_blocked := True\<rparr>)] manager_new;
       msg = \<lparr>sm_sender = ''bob'', sm_source_device = None, sm_payload = JObj []\<rparr>
   in \<not> is_trusted (st_peers s) ''bob'' \<and> is_trusted (st_peers (snd (handle_sfu_join small_sn_env msg s))) ''bob''"
proof -
  let ?rec = "sample_peer\<lparr>pr_identity_pub := ''bob'', pr_blocked := True\<rparr>"
  have "get_peer [(''bob'', ?rec)] ''bob'' = Some ?rec"
    by (simp add: get_peer_def resolve_key_def normalize_public_id_def trim_end_matches_def hm_contains_iff hm_get_Cons)
  then show ?thesis
    using join_lifts_block [where s = "small_sn (OpenAccessController grants_ephemeral) [(''bob'', ?rec)] manager_new" and m = manager_new and p = "''bob''"
        and rec = ?rec and env = small_sn_env, OF _ _ _ _ _ _ refl]
    by (simp add: small_sn_def manager_new_def hm_get_Cons room_new_def participant_count_def MAX_ROOM_SIZE_def)
qed

text \<open>Mallory answers an invite in the name of Alice.\<close>

theorem handshake_sender_unchecked_witness:
  "let s = (small_sn (OpenAccessController grants_ephemeral) [] manager_new)\<lparr>st_handshake := snd (create_invite small_env (small_node ''ws://a'' None) None)\<rparr>
   in is_trusted (st_peers (snd (handle_handshake_init small_sn_env \<lparr>sm_sender = ''mallory'', sm_source_device = None, sm_payload = small_answer\<rparr> s))) ''alice''"
proof -
  let ?s = "(small_sn (OpenAccessController grants_ephemeral) [] manager_new)\<lparr>st_handshake := snd (create_invite small_env (small_node ''ws://a'' None) None)\<rparr>"
  let ?m = "\<lparr>sm_sender = ''mallory'', sm_source_device = None, sm_payload = small_answer\<rparr>"
  have "map_sum id (snd \<circ> snd) (process_init small_env (snd (create_invite small_env (small_node ''ws://a'' None) None)) small_answer) = Inr ''alice''"
    by code_simp
  then obtain acc key where "process_init small_env (snd (create_invite small_env (small_node ''ws://a'' None) None)) small_answer = Inr (acc, key, ''alice'')"
    by (cases "process_init small_env (snd (create_invite small_env (small_node ''ws://a'' None) None)) small_answer") auto
  then have "process_init (ev_hs small_sn_env) (st_handshake ?s) (sm_payload ?m) = Inr (acc, key, ''alice'')" by (simp add: small_sn_env_def)
  from handshake_sender_unchecked [OF this] show ?thesis by (simp add: Let_def)
qed

end
