(* ===== verification/Supernode_Sync.thy ===== *)
theory Supernode_Sync
  imports Supernode_Admission
begin

section \<open>Signed roots and hole punching over a supernode's life\<close>

text \<open>
  What a supernode promises about the Space roots it holds, whatever is sent to it, and what two peers get
  that register for a hole punch.
\<close>

subsection \<open>Space roots\<close>

definition advances :: "SpaceRootStore \<Rightarrow> SpaceRootStore \<Rightarrow> bool" where
  "advances st st' \<longleftrightarrow> (\<forall>sid r. hm_get (roots st) sid = Some r \<longrightarrow>
     (\<exists>r'. hm_get (roots st') sid = Some r' \<and> sr_signer r' = sr_signer r \<and> (r' = r \<or> sr_epoch r < sr_epoch r')))"

lemma advances_refl [simp, intro]: "advances st st"
  by (auto simp: advances_def)

lemma advances_trans:
  assumes ab: "advances a b" and bc: "advances b c"
  shows "advances a c"
  unfolding advances_def
proof (intro allI impI)
  fix sid r
  assume "hm_get (roots a) sid = Some r"
  with ab obtain r1 where r1: "hm_get (roots b) sid = Some r1" "sr_signer r1 = sr_signer r" "r1 = r \<or> sr_epoch r < sr_epoch r1"
    unfolding advances_def by blast
  with bc obtain r2 where r2: "hm_get (roots c) sid = Some r2" "sr_signer r2 = sr_signer r1" "r2 = r1 \<or> sr_epoch r1 < sr_epoch r2"
    unfolding advances_def by blast
  from r1 r2 show "\<exists>r'. hm_get (roots c) sid = Some r' \<and> sr_signer r' = sr_signer r \<and> (r' = r \<or> sr_epoch r < sr_epoch r')"
    by (intro exI [of _ r2]) (auto dest: order_less_trans)
qed

lemma accept_advances: "advances st (snd (roots_accept prm st r))"
  by (auto simp: advances_def roots_accept_def Let_def hm_get_insert not_le split: option.split)

lemma admission_advances: "advances (st_space_roots s) (st_space_roots (snd (snd (try_space_admission env p rid payload s))))"
  by (auto simp: try_space_admission_def accept_and_gossip_space_root_def materialize_proven_def local_allow_room_peer_def with_rooms_def
      Let_def case_prod_beta accept_advances split: option.split)

lemma roots_kept [simp]:
  "st_space_roots (snd (issue_ticket env p b s)) = st_space_roots s" "st_space_roots (snd (issue_ticket_for_access_state env p s)) = st_space_roots s"
  "st_space_roots (save_peers env s) = st_space_roots s" "st_space_roots (broadcast_room_list s) = st_space_roots s"
  "st_space_roots (snd (with_relay f s)) = st_space_roots s" "st_space_roots (with_rooms g s) = st_space_roots s"
  "st_space_roots (grant_access env p s) = st_space_roots s"
  by (simp_all add: issue_ticket_def issue_ticket_for_access_state_def issue_relay_ticket_def issue_portal_ticket_def save_peers_def
      broadcast_room_list_def with_relay_def with_rooms_def grant_access_def Let_def case_prod_beta split: option.split)

lemma roots_kept_trust [simp]:
  "st_space_roots (snd (on_peer_trusted env p s)) = st_space_roots s" "st_space_roots (snd (ensure_relay_for_room_guest env p s)) = st_space_roots s"
  by (simp_all add: on_peer_trusted_def ensure_relay_for_room_guest_def Let_def)

lemma roots_kept_renew_all [simp]: "st_space_roots (snd (foldl (\<lambda>r pe. and_then r (renew_one env pe)) r xs)) = st_space_roots (snd r)"
  by (induction xs arbitrary: r) (simp_all add: renew_one_def)

lemma roots_kept_peer_auth [simp]: "st_space_roots (snd (apply_peer_auth env p h d g s)) = st_space_roots s"
  by (simp add: apply_peer_auth_def store_peer_auth_def refresh_connected_replicated_peer_def Let_def case_prod_beta split: option.split)

lemma join_advances: "advances (st_space_roots s) (st_space_roots (snd (handle_sfu_join env msg s)))"
  using admission_advances [of s env "sm_sender msg" _ "sm_payload msg"]
  by (auto simp: handle_sfu_join_def after_join_def Let_def case_prod_beta split: option.split)

lemma invite_advances: "advances (st_space_roots s) (st_space_roots (snd (handle_sfu_room_invite env msg s)))"
  using admission_advances [of s env "sm_sender msg" _ "sm_payload msg"]
  by (auto simp: handle_sfu_room_invite_def Let_def case_prod_beta split: option.split)

lemma roots_kept_sockets:
  "st_space_roots (snd (on_peer_connected env p s)) = st_space_roots s" "st_space_roots (snd (on_peer_disconnected env p s)) = st_space_roots s"
  "st_space_roots (snd (on_endpoint_disconnected env p d s)) = st_space_roots s" "st_space_roots (snd (handle_handshake_init env m s)) = st_space_roots s"
  by (simp_all add: on_peer_connected_def on_peer_disconnected_def on_endpoint_disconnected_def handle_handshake_init_def snd_foldl_sends
      Let_def case_prod_beta split: option.split sum.split)

lemma roots_kept_rooms:
  "st_space_roots (snd (handle_sfu_leave env m s)) = st_space_roots s" "st_space_roots (snd (handle_sfu_room_list m s)) = st_space_roots s"
  "st_space_roots (snd (handle_sfu_subscribe env m s)) = st_space_roots s" "st_space_roots (snd (handle_sfu_unsubscribe env m s)) = st_space_roots s"
  "st_space_roots (snd (handle_sfu_video_subscribe m s)) = st_space_roots s"
  "st_space_roots (snd (handle_sfu_invite_generate env m s)) = st_space_roots s"
  by (simp_all add: handle_sfu_leave_def handle_sfu_room_list_def handle_sfu_subscribe_def handle_sfu_unsubscribe_def handle_sfu_video_subscribe_def
      handle_sfu_invite_generate_def Let_def case_prod_beta split: option.split)

lemma roots_kept_create: "st_space_roots (snd (handle_sfu_room_create env m s)) = st_space_roots s"
  by (simp add: handle_sfu_room_create_def Let_def case_prod_beta split: option.split prod.split)

lemma roots_kept_others:
  "st_space_roots (snd (handle_relay_request env m s)) = st_space_roots s"
  "st_space_roots (snd (handle_game_relay_join env m s)) = st_space_roots s" "st_space_roots (snd (handle_game_relay_leave m s)) = st_space_roots s"
  "st_space_roots (snd (handle_punch_register env m s)) = st_space_roots s" "st_space_roots (on_endpoint_update env p raw s) = st_space_roots s"
  "st_space_roots (snd (snd (grant_portal_access env p sub s))) = st_space_roots s" "st_space_roots (apply_room_roster env desc s) = st_space_roots s"
  "st_space_roots (snd (check_ticket_renewals env s)) = st_space_roots s"
  by (simp_all add: handle_relay_request_def handle_game_relay_join_def handle_game_relay_leave_def handle_punch_register_def
      handle_punch_register_msg_def on_endpoint_update_def grant_portal_access_def issue_relay_ticket_def apply_room_roster_def
      check_ticket_renewals_def Let_def case_prod_beta)

lemmas roots_kept_calls = roots_kept_sockets roots_kept_rooms roots_kept_create roots_kept_others

lemma step_advances: "advances (st_space_roots s) (st_space_roots (sn_step s c))"
proof -
  obtain env call where c: "c = (env, call)" by (cases c)
  have "advances (st_space_roots s) (st_space_roots (snd (sn_run env call s)))"
    by (cases call) (auto simp: roots_kept_calls join_advances invite_advances handle_space_root_announce_def accept_and_gossip_space_root_def
        accept_advances Let_def case_prod_beta split: option.split)
  then show ?thesis by (simp add: sn_step_def c)
qed

lemma run_advances: "advances (st_space_roots s) (st_space_roots (foldl sn_step s hist))"
proof (induction hist arbitrary: s)
  case (Cons c hist)
  show ?case using advances_trans [OF step_advances Cons.IH] by simp
qed simp

text \<open>
  C24: a Space keeps its signer and only moves forward. Once the supernode holds a root of a Space, then
  whatever messages, cluster gossip and socket events follow, it holds a root of that Space with the same
  signer, and this is either the very same root or one of a strictly later epoch; in particular a second
  root of the same epoch never replaces the first.
\<close>

theorem space_root_pinned:
  assumes "hm_get (roots (st_space_roots s)) sid = Some r"
  shows "\<exists>r'. hm_get (roots (st_space_roots (foldl sn_step s hist))) sid = Some r' \<and> sr_signer r' = sr_signer r \<and>
    (if sr_epoch r' \<le> sr_epoch r then r' = r else True)"
  using run_advances [of s hist] assms unfolding advances_def by (metis not_le)

subsection \<open>Hole punching\<close>

lemma punch_first:
  assumes trusted: "is_trusted (st_peers s) (normalize_peer_id a)" "is_trusted (st_peers s) (normalize_peer_id b)"
    and differ: "normalize_peer_id a \<noteq> normalize_peer_id b"
    and fresh: "hm_get (st_punches s) (min (normalize_peer_id a) (normalize_peer_id b), max (normalize_peer_id a) (normalize_peer_id b)) = None"
  shows "handle_punch_register_msg env a b ea s =
    ([], s\<lparr>st_punches := filter (\<lambda>(_, info). \<not> ev_now env - registered_at info > 30)
        (hm_insert (min (normalize_peer_id a) (normalize_peer_id b), max (normalize_peer_id a) (normalize_peer_id b))
          \<lparr>registered_at = ev_now env, punch_endpoints = [(normalize_peer_id a, case observed_addr env s (normalize_peer_id a) of Some x \<Rightarrow> x | None \<Rightarrow> ea)]\<rparr>
          (st_punches s))\<rparr>)"
  using assms by (auto simp: handle_punch_register_msg_def Let_def min_def max_def hm_contains_iff hm_get_Cons)

text \<open>The two endpoints a registration leaves for a pair, in either order of registration.\<close>

lemma punch_second:
  assumes trusted: "is_trusted (st_peers s) (normalize_peer_id a)" "is_trusted (st_peers s) (normalize_peer_id b)"
    and pair: "k = (min (normalize_peer_id a) (normalize_peer_id b), max (normalize_peer_id a) (normalize_peer_id b))"
    and differ: "normalize_peer_id a \<noteq> normalize_peer_id b"
    and waiting: "hm_get (st_punches s) k = Some info" "punch_endpoints info = [(normalize_peer_id a, xa)]"
    and xb: "xb = (case observed_addr env s (normalize_peer_id b) of Some x \<Rightarrow> x | None \<Rightarrow> eb)"
  shows "set (fst (handle_punch_register_msg env b a eb s)) =
      {PunchReady (normalize_peer_id a) (normalize_peer_id b) xb xa (ev_now env + 1 / 2) True,
       PunchReady (normalize_peer_id b) (normalize_peer_id a) xa xb (ev_now env + 1 / 2) True} \<and>
    hm_get (st_punches (snd (handle_punch_register_msg env b a eb s))) k = None"
proof -
  let ?a = "normalize_peer_id a" and ?b = "normalize_peer_id b"
  have key: "(if ?b < ?a then (?b, ?a) else (?a, ?b)) = k" using differ by (auto simp: pair min_def max_def)
  have xb': "(case observed_addr env s ?b of Some x \<Rightarrow> x | None \<Rightarrow> eb) = xb" by (simp add: xb)
  have keys: "k = (?a, ?b) \<or> k = (?b, ?a)" by (auto simp: pair min_def max_def)
  have "handle_punch_register_msg env b a eb s =
      (send_punch_ready env (fst k) (snd k) (if fst k = ?a then xa else xb) (if snd k = ?a then xa else xb) True,
       s\<lparr>st_punches := hm_remove k (hm_insert k (info\<lparr>punch_endpoints := hm_insert ?b xb (punch_endpoints info)\<rparr>) (st_punches s))\<rparr>)"
    using trusted differ keys
    by (auto simp: handle_punch_register_msg_def Let_def key xb' waiting hm_contains_iff hm_get_Cons)
  then show ?thesis using keys differ by (auto simp: send_punch_ready_def hm_get_remove Let_def)
qed

lemma hm_get_retained: "hm_get m k = Some v \<Longrightarrow> P k v \<Longrightarrow> hm_get (hm_retain P m) k = Some v"
  by (induction m) (auto simp: hm_retain_def hm_get_Cons split: if_splits)

text \<open>
  Two peers that ask for each other are told to punch, once. Two trusted peers register for each
  other, each spelling the keys as it likes and in either order. The first registration sends nothing; the
  second sends each of the two the other's address, its own and the same moment, marked as verified, and
  leaves nothing pending. The address is the one the relay observes for a peer, and what the peer claims
  only if the relay sees none.
\<close>

theorem punch_rendezvous:
  assumes trusted: "is_trusted (st_peers s) (normalize_peer_id a)" "is_trusted (st_peers s) (normalize_peer_id b)"
    and differ: "normalize_peer_id a \<noteq> normalize_peer_id b"
    and pair: "k = (min (normalize_peer_id a) (normalize_peer_id b), max (normalize_peer_id a) (normalize_peer_id b))"
    and fresh: "hm_get (st_punches s) k = None"
    and spelling: "normalize_peer_id a' = normalize_peer_id a" "normalize_peer_id b' = normalize_peer_id b"
    and first: "handle_punch_register_msg env1 a b' ea s = (out1, s1)"
    and second: "handle_punch_register_msg env2 b a' eb s1 = (out2, s2)"
    and xa: "xa = (case observed_addr env1 s (normalize_peer_id a) of Some x \<Rightarrow> x | None \<Rightarrow> ea)"
    and xb: "xb = (case observed_addr env2 s (normalize_peer_id b) of Some x \<Rightarrow> x | None \<Rightarrow> eb)"
  shows "out1 = [] \<and> hm_get (st_punches s2) k = None \<and> set out2 =
      {PunchReady (normalize_peer_id a) (normalize_peer_id b) xb xa (ev_now env2 + 1 / 2) True,
       PunchReady (normalize_peer_id b) (normalize_peer_id a) xa xb (ev_now env2 + 1 / 2) True}"
proof -
  let ?info = "\<lparr>registered_at = ev_now env1, punch_endpoints = [(normalize_peer_id a, xa)]\<rparr>"
  let ?all = "hm_insert k ?info (st_punches s)"
  have s1: "out1 = []" "s1 = s\<lparr>st_punches := filter (\<lambda>(_, info). \<not> ev_now env1 - registered_at info > 30) ?all\<rparr>"
    using punch_first [of s a b' env1 ea] first trusted differ fresh by (simp_all add: spelling pair xa)
  have "hm_get (hm_retain (\<lambda>_ info. \<not> ev_now env1 - registered_at info > 30) ?all) k = Some ?info"
    by (intro hm_get_retained) (simp_all add: hm_get_insert)
  then have waiting: "hm_get (st_punches s1) k = Some ?info" by (simp add: s1 hm_retain_def case_prod_unfold)
  have obs: "observed_addr env2 s1 p = observed_addr env2 s p" for p by (simp add: s1 observed_addr_def)
  have "is_trusted (st_peers s1) (normalize_peer_id a')" "is_trusted (st_peers s1) (normalize_peer_id b)"
    using trusted by (simp_all add: s1 spelling)
  from punch_second [OF this, where k = k and info = ?info and xa = xa and xb = xb and env = env2 and eb = eb] waiting second s1(1) show ?thesis
    by (simp add: spelling pair differ obs xb)
qed

subsection \<open>Concrete runs\<close>

text \<open>A second signer announces a later root of a Space that is held already.\<close>

theorem space_root_pinned_witness:
  "\<exists>r'. hm_get (roots (st_space_roots (foldl sn_step (vip_sn\<lparr>st_space_roots := \<lparr>roots = [(''mine'', forged_root)], equivocations = []\<rparr>\<rparr>)
      [(forge_env, RootIn (forged_root\<lparr>sr_signer := replicate 32 (CHR ''X''), sr_epoch := 9\<rparr>))]))) ''mine'' = Some r' \<and>
    sr_signer r' = replicate 32 (CHR ''M'')"
  using space_root_pinned [where s = "vip_sn\<lparr>st_space_roots := \<lparr>roots = [(''mine'', forged_root)], equivocations = []\<rparr>\<rparr>" and sid = "''mine''" and r = forged_root
      and hist = "[(forge_env, RootIn (forged_root\<lparr>sr_signer := replicate 32 (CHR ''X''), sr_epoch := 9\<rparr>))]"]
  by (auto simp: hm_get_Cons forged_root_def)

definition punch_sn :: "unit SupernodeState" where
  "punch_sn = small_sn (OpenAccessController grants_ephemeral)
     [(''a'', sample_peer\<lparr>pr_identity_pub := ''a''\<rparr>), (''b'', sample_peer\<lparr>pr_identity_pub := ''b''\<rparr>)] manager_new"

theorem punch_rendezvous_witness:
  "let (out1, s1) = handle_punch_register_msg small_sn_env ''a'' ''b'' ''1.1.1.1:1'' punch_sn;
       (out2, s2) = handle_punch_register_msg small_sn_env ''b'' ''a'' ''2.2.2.2:2'' s1
   in out1 = [] \<and> set out2 = {PunchReady ''a'' ''b'' ''2.2.2.2:2'' ''1.1.1.1:1'' (100 + 1 / 2) True, PunchReady ''b'' ''a'' ''1.1.1.1:1'' ''2.2.2.2:2'' (100 + 1 / 2) True}"
proof -
  have n: "normalize_peer_id ''a'' = ''a''" "normalize_peer_id ''b'' = ''b''" by code_simp+
  have t: "is_trusted (st_peers punch_sn) ''a''" "is_trusted (st_peers punch_sn) ''b''" by code_simp+
  have obs: "observed_addr small_sn_env punch_sn p = None" for p
    by (simp add: observed_addr_def punch_sn_def small_sn_def relay_new_def get_peer_remote_addr_def endpoints_def routes_default_def slots_def hm_get_def)
  have now: "ev_now small_sn_env = 100" "st_punches punch_sn = []" by (simp_all add: small_sn_env_def punch_sn_def small_sn_def)
  obtain out1 s1 where f: "handle_punch_register_msg small_sn_env ''a'' ''b'' ''1.1.1.1:1'' punch_sn = (out1, s1)" by (cases "handle_punch_register_msg small_sn_env ''a'' ''b'' ''1.1.1.1:1'' punch_sn")
  obtain out2 s2 where g: "handle_punch_register_msg small_sn_env ''b'' ''a'' ''2.2.2.2:2'' s1 = (out2, s2)" by (cases "handle_punch_register_msg small_sn_env ''b'' ''a'' ''2.2.2.2:2'' s1")
  from punch_rendezvous [OF _ _ _ refl _ _ _ f g refl refl] show ?thesis using t by (simp add: f g n obs now)
qed

end
