(* ===== verification/Supernode_Broadcast.thy ===== *)
theory Supernode_Broadcast
  imports Supernode Cluster_Link
begin

section \<open>Room traffic and its replication (\<open>main.rs\<close>)\<close>

text \<open>
  The handlers that fan a client's chat, file, audio and video-state message out to a room, the copies sent
  to the other members of the cluster and the delivery of such copies, and the callbacks a cluster link
  is started with. \<open>RoomNode\<close> adds to the supernode's state the fields only these operations use. What is sent
  is a list of \<open>room_out\<close>: \<open>ToEndpoint\<close> and \<open>ToPeer\<close> are the two sends of the signalling server, \<open>ToConn\<close> a
  datagram on a relay connection and \<open>ToMember\<close> a frame on the channel of a cluster link.
\<close>

record RoomMessage = SignalingMessage +
  sm_timestamp :: real
  sm_signature :: "string option"

record bc_env =
  bc_sn :: sn_env
  bc_link :: link_env
  bc_relay :: relay_env
  bc_is_closed :: "conn \<Rightarrow> bool"
  bc_type_ok :: "json \<Rightarrow> bool"
  bc_device :: "json \<Rightarrow> DeviceId option option"
  bc_as_f64 :: "json \<Rightarrow> real option"
  bc_show_f64 :: "real \<Rightarrow> string"
  bc_std_encode :: "bytes \<Rightarrow> string"
  bc_std_decode :: "string \<Rightarrow> bytes option"
  bc_to_string :: "json \<Rightarrow> string"

record 'm RoomNode =
  nd_state :: "'m SupernodeState"
  nd_link :: "LinkState option"
  nd_seen :: SeenCache
  nd_game_seq :: u64
  nd_video_seq :: u64

datatype room_out =
    ToEndpoint string "DeviceId option" string
  | ToPeer string string
  | ToConn conn bytes
  | ToMember nat bytes
  | FromNode sn_out

type_synonym 'm node_res = "room_out list \<times> 'm RoomNode"

text \<open>The body of a \<open>for\<close> loop over a list.\<close>

fun run_each :: "('a \<Rightarrow> 's \<Rightarrow> 'o list \<times> 's) \<Rightarrow> 'a list \<Rightarrow> 's \<Rightarrow> 'o list \<times> 's" where
  "run_each f [] nd = ([], nd)"
| "run_each f (x # xs) nd = (let (out, nd) = f x nd; (later, nd) = run_each f xs nd in (out @ later, nd))"

definition set_features :: "'m RoomNode \<Rightarrow> 'm FeatureRegistry \<Rightarrow> 'm RoomNode" where
  "set_features nd g = nd\<lparr>nd_state := (nd_state nd)\<lparr>st_features := g\<rparr>\<rparr>"

text \<open>\<open>if self.features.gate_through_feature(...) { send }\<close>\<close>

definition send_gated :: "bc_env \<Rightarrow> string \<Rightarrow> string \<Rightarrow> nat \<Rightarrow> room_out \<Rightarrow> 'm RoomNode \<Rightarrow> 'm node_res" where
  "send_gated env feature_id peer n out nd =
     (let (ok, g) = gate_through_feature (clock (bc_relay env)) (st_features (nd_state nd)) feature_id peer n
      in (if ok then [out] else [], set_features nd g))"

definition gate_in :: "bc_env \<Rightarrow> string \<Rightarrow> string \<Rightarrow> nat \<Rightarrow> 'm RoomNode \<Rightarrow> bool \<times> 'm RoomNode" where
  "gate_in env feature_id peer n nd =
     (let (ok, g) = gate_inbound_through_feature (clock (bc_relay env)) (st_features (nd_state nd)) feature_id peer n
      in (ok, set_features nd g))"

definition chained :: "'m node_res \<Rightarrow> ('m RoomNode \<Rightarrow> 'm node_res) \<Rightarrow> 'm node_res" where
  "chained r f = (let (out, nd) = r; (later, nd) = f nd in (out @ later, nd))"

subsection \<open>Messages\<close>

text \<open>\<open>.map(serde_json::from_value).transpose()?.flatten()\<close> on an optional device field.\<close>

definition de_device :: "bc_env \<Rightarrow> json option \<Rightarrow> DeviceId option option" where
  "de_device env v = (case v of None \<Rightarrow> Some None | Some j \<Rightarrow> bc_device env j)"

definition from_json :: "bc_env \<Rightarrow> string \<Rightarrow> RoomMessage option" where
  "from_json env raw =
     (case ev_parse (bc_sn env) raw of
        Some (JObj obj) \<Rightarrow>
          let v = JObj obj in
          (case json_get v ''type'' of None \<Rightarrow> None
           | Some t \<Rightarrow>
               if \<not> bc_type_ok env t then None
               else case (de_device env (json_get v ''source_device''), de_device env (json_get v ''target_device'')) of
                 (Some source_device, Some target_device) \<Rightarrow>
                   if target_device \<noteq> None \<and> payload_str v ''target'' = None then None
                   else Some \<lparr>sm_sender = payload_or v ''sender'' [], sm_source_device = source_device,
                      sm_payload = (case json_get v ''payload'' of Some p \<Rightarrow> p | None \<Rightarrow> JObj []),
                      sm_timestamp = (case Option.bind (json_get v ''timestamp'') (bc_as_f64 env) of Some t \<Rightarrow> t | None \<Rightarrow> 0),
                      sm_signature = payload_str v ''signature''\<rparr>
               | _ \<Rightarrow> None)
      | _ \<Rightarrow> None)"

definition is_room_frame_author :: "string \<Rightarrow> string \<Rightarrow> bool" where
  "is_room_frame_author recipient sender = (if sender = [] then False else normalize_peer_id recipient = normalize_peer_id sender)"

definition sfu_audio_opus_byte_count :: "bc_env \<Rightarrow> RoomMessage \<Rightarrow> nat" where
  "sfu_audio_opus_byte_count env msg =
     (case Option.bind (payload_str (sm_payload msg) ''audio'') (url_safe_decode (ev_prims (bc_sn env))) of
        Some v \<Rightarrow> length v | None \<Rightarrow> 0)"

definition audio_replication_id :: "RoomMessage \<Rightarrow> string" where
  "audio_replication_id msg =
     (case nonempty (sm_signature msg) of
        Some sig \<Rightarrow> ''a:'' @ sig
      | None \<Rightarrow>
          let room = payload_or (sm_payload msg) ''room_id'' [];
              seq = (case Option.bind (json_get (sm_payload msg) ''seq'') json_as_u64 of Some n \<Rightarrow> n | None \<Rightarrow> 0)
          in ''a:'' @ room @ '':'' @ sm_sender msg @ '':'' @ show_dec seq)"

definition show_bool :: "bool \<Rightarrow> string" where
  "show_bool b = (if b then ''true'' else ''false'')"

definition video_state_replication_id :: "bc_env \<Rightarrow> RoomMessage \<Rightarrow> string" where
  "video_state_replication_id env msg =
     (case nonempty (sm_signature msg) of
        Some sig \<Rightarrow> ''v:'' @ sig
      | None \<Rightarrow>
          let active = (json_get (sm_payload msg) ''active'' = Some (Wire.JBool True))
          in ''v:'' @ sm_sender msg @ '':'' @ bc_show_f64 env (sm_timestamp msg) @ '':'' @ show_bool active)"

datatype ReplicatedKind = KindAudio | KindVideoState | KindRoomVideo | KindChat

definition kind_of :: "bc_env \<Rightarrow> string \<Rightarrow> ReplicatedKind" where
  "kind_of env raw =
     (let wire_type = Option.bind (ev_parse (bc_sn env) raw) (\<lambda>v. payload_str v ''type'') in
      if wire_type = Some ''sfu_audio'' then KindAudio
      else if wire_type = Some ''sfu_video_state'' then KindVideoState
      else if wire_type = Some ''room_video_datagram'' then KindRoomVideo
      else KindChat)"

definition room_video_replication_message :: "bc_env \<Rightarrow> string \<Rightarrow> u64 \<Rightarrow> string \<Rightarrow> bytes \<Rightarrow> string \<times> string" where
  "room_video_replication_message env node_public_id seq sender payload =
     (let message_id = ''rv:'' @ node_public_id @ '':'' @ show_dec (unat seq) in
      (message_id, bc_to_string env (JObj [(''type'', Wire.JStr ''room_video_datagram''), (''sender'', Wire.JStr sender),
         (''message_id'', Wire.JStr message_id), (''payload_b64'', Wire.JStr (bc_std_encode env payload))])))"

definition room_video_payload_from_replication :: "bc_env \<Rightarrow> string \<Rightarrow> (string \<times> bytes) option" where
  "room_video_payload_from_replication env raw =
     (case ev_parse (bc_sn env) raw of None \<Rightarrow> None
      | Some v \<Rightarrow>
          (case payload_str v ''sender'' of None \<Rightarrow> None
           | Some sender \<Rightarrow>
               (case Option.bind (payload_str v ''payload_b64'') (bc_std_decode env) of None \<Rightarrow> None
                | Some payload \<Rightarrow> if payload = [] \<or> sender = [] then None else Some (sender, payload))))"

definition sfu_chat_byte_count :: "RoomMessage \<Rightarrow> nat" where
  "sfu_chat_byte_count msg = length (payload_or (sm_payload msg) ''body'' [])"

datatype FileMessageType = SfuFileOffer | SfuFileRequest | SfuFileRevoke | SfuFileChunk | SfuFileComplete

definition file_payload_bypasses_quota :: "FileMessageType \<Rightarrow> bool" where
  "file_payload_bypasses_quota mt \<longleftrightarrow> mt = SfuFileChunk \<or> mt = SfuFileComplete"

definition sfu_file_inbound_byte_count :: "RoomMessage \<Rightarrow> FileMessageType \<Rightarrow> nat" where
  "sfu_file_inbound_byte_count msg mt =
     (if mt = SfuFileChunk then length (payload_or (sm_payload msg) ''data'' []) else 64)"

definition file_frame_endpoints ::
  "(string \<times> DeviceId option) list \<Rightarrow> string \<Rightarrow> DeviceId option \<Rightarrow> string option \<Rightarrow> (string \<times> DeviceId option) list" where
  "file_frame_endpoints eps sender source_device to =
     filter (\<lambda>(peer, _). case to of None \<Rightarrow> True | Some t \<Rightarrow> is_room_frame_author peer t)
       (filter (\<lambda>(peer, device). \<not> (is_room_frame_author peer sender \<and> device = source_device)) eps)"

subsection \<open>Copies to the cluster\<close>

definition replicate_frame :: "bc_env \<Rightarrow> string \<Rightarrow> string \<Rightarrow> string \<Rightarrow> 'm RoomNode \<Rightarrow> 'm node_res" where
  "replicate_frame env rid message_id raw nd =
     (case nd_link nd of None \<Rightarrow> ([], nd)
      | Some link \<Rightarrow> (map (\<lambda>(tx, frame). ToMember tx frame) (link_replicate (bc_link env) link rid message_id raw), nd))"

definition replicate_room_chat :: "bc_env \<Rightarrow> string \<Rightarrow> RoomMessage \<Rightarrow> string \<Rightarrow> 'm RoomNode \<Rightarrow> 'm node_res" where
  "replicate_room_chat env rid msg raw nd = replicate_frame env rid (payload_or (sm_payload msg) ''message_id'' []) raw nd"

definition replicate_room_audio :: "bc_env \<Rightarrow> string \<Rightarrow> RoomMessage \<Rightarrow> string \<Rightarrow> 'm RoomNode \<Rightarrow> 'm node_res" where
  "replicate_room_audio env rid msg raw nd = replicate_frame env rid (audio_replication_id msg) raw nd"

definition replicate_game_datagram :: "bc_env \<Rightarrow> string \<Rightarrow> string \<Rightarrow> bytes \<Rightarrow> 'm RoomNode \<Rightarrow> 'm node_res" where
  "replicate_game_datagram env session_id sender payload nd =
     (case nd_link nd of None \<Rightarrow> ([], nd)
      | Some _ \<Rightarrow>
          let seq = nd_game_seq nd;
              nd = nd\<lparr>nd_game_seq := seq + 1\<rparr>;
              message_id = ''game:'' @ le_public_id (bc_link env) @ '':'' @ show_dec (unat seq);
              raw = bc_to_string env (JObj [(''type'', Wire.JStr ''game_relay_datagram''), (''sender'', Wire.JStr sender),
                (''session_id'', Wire.JStr session_id), (''message_id'', Wire.JStr message_id),
                (''payload_b64'', Wire.JStr (bc_std_encode env payload))])
          in replicate_frame env session_id message_id raw nd)"

definition replicate_room_video :: "bc_env \<Rightarrow> string \<Rightarrow> string \<Rightarrow> bytes \<Rightarrow> 'm RoomNode \<Rightarrow> 'm node_res" where
  "replicate_room_video env rid sender payload nd =
     (if payload = [] \<or> rid = [] then ([], nd)
      else case nd_link nd of None \<Rightarrow> ([], nd)
      | Some _ \<Rightarrow>
          let seq = nd_video_seq nd;
              nd = nd\<lparr>nd_video_seq := seq + 1\<rparr>;
              (message_id, raw) = room_video_replication_message env (le_public_id (bc_link env)) seq sender payload
          in replicate_frame env rid message_id raw nd)"

subsection \<open>Delivery on this node\<close>

definition deliver_room_chat :: "bc_env \<Rightarrow> string \<Rightarrow> RoomMessage \<Rightarrow> string \<Rightarrow> 'm RoomNode \<Rightarrow> 'm node_res" where
  "deliver_room_chat env rid msg raw nd =
     (case st_sfu (nd_state nd) of None \<Rightarrow> ([], nd)
      | Some m \<Rightarrow>
          let eps = (case hm_get m rid of Some r \<Rightarrow> chat_delivery_endpoints r (sm_sender msg) (sm_source_device msg) | None \<Rightarrow> [])
          in run_each (\<lambda>(peer, device). send_gated env ''room.chat.v1'' peer (length raw) (ToEndpoint peer device raw)) eps nd)"

definition deliver_video_state :: "string \<Rightarrow> string \<Rightarrow> string \<Rightarrow> 'm RoomNode \<Rightarrow> 'm node_res" where
  "deliver_video_state rid sender raw nd =
     (case st_sfu (nd_state nd) of None \<Rightarrow> ([], nd)
      | Some m \<Rightarrow> (map (\<lambda>peer. ToPeer peer raw) (filter (\<lambda>peer. \<not> is_room_frame_author peer sender) (get_chat_recipients m rid)), nd))"

text \<open>\<open>relay.send_room_datagram\<close> or, when the peer has no relay connection, the signalling socket.\<close>

definition send_datagram_or_ws :: "bc_env \<Rightarrow> bytes \<Rightarrow> string \<Rightarrow> string \<Rightarrow> 'm RoomNode \<Rightarrow> 'm node_res" where
  "send_datagram_or_ws env fwd raw peer nd =
     (let ws = send_gated env ''room.audio.sfu'' peer (length raw) (ToPeer peer raw) in
      case st_relay (nd_state nd) of None \<Rightarrow> ws nd
      | Some relay \<Rightarrow>
          let (res, cs, g) = send_room_datagram (bc_relay env) (bc_is_closed env) relay (st_features (nd_state nd)) peer fwd;
              nd = set_features nd g
          in case res of Some _ \<Rightarrow> (map (\<lambda>c. ToConn c fwd) cs, nd) | None \<Rightarrow> ws nd)"

definition seen_first :: "string \<Rightarrow> ('m RoomNode \<Rightarrow> 'm node_res) \<Rightarrow> 'm RoomNode \<Rightarrow> 'm node_res" where
  "seen_first message_id f nd =
     (let (fresh, c) = insert_new (nd_seen nd) message_id; nd = nd\<lparr>nd_seen := c\<rparr> in if \<not> fresh then ([], nd) else f nd)"

definition deliver_replicated_game_datagram :: "bc_env \<Rightarrow> string \<Rightarrow> string \<Rightarrow> string \<Rightarrow> 'm RoomNode \<Rightarrow> 'm node_res" where
  "deliver_replicated_game_datagram env session_id message_id raw = seen_first message_id (\<lambda>nd.
     case st_relay (nd_state nd) of None \<Rightarrow> ([], nd)
     | Some relay \<Rightarrow>
         (case ev_parse (bc_sn env) raw of None \<Rightarrow> ([], nd)
          | Some v \<Rightarrow>
              let sender = payload_or v ''sender'' [] in
              (case Option.bind (payload_str v ''payload_b64'') (bc_std_decode env) of None \<Rightarrow> ([], nd)
               | Some payload \<Rightarrow>
                   let fwd = build_forwarded_datagram BROADCAST_INDEX payload in
                   run_each (\<lambda>member nd.
                     if trim_end_matches (CHR ''='') member = trim_end_matches (CHR ''='') sender then ([], nd)
                     else
                       let (res, cs, g) = send_feature_datagram (bc_relay env) (bc_is_closed env) relay (st_features (nd_state nd))
                             member ''game.relay.v1'' fwd
                       in (map (\<lambda>c. ToConn c fwd) cs, set_features nd g)) (game_session_members relay session_id) nd)))"

definition deliver_replicated_chat :: "bc_env \<Rightarrow> string \<Rightarrow> string \<Rightarrow> string \<Rightarrow> 'm RoomNode \<Rightarrow> 'm node_res" where
  "deliver_replicated_chat env rid message_id raw = seen_first message_id (\<lambda>nd.
     case from_json env raw of None \<Rightarrow> ([], nd) | Some msg \<Rightarrow> deliver_room_chat env rid msg raw nd)"

definition sender_of :: "bc_env \<Rightarrow> string \<Rightarrow> string" where
  "sender_of env raw = (case from_json env raw of Some m \<Rightarrow> sm_sender m | None \<Rightarrow> [])"

definition deliver_replicated_audio :: "bc_env \<Rightarrow> string \<Rightarrow> string \<Rightarrow> string \<Rightarrow> 'm RoomNode \<Rightarrow> 'm node_res" where
  "deliver_replicated_audio env rid message_id raw = seen_first message_id (\<lambda>nd.
     case st_sfu (nd_state nd) of None \<Rightarrow> ([], nd)
     | Some m \<Rightarrow>
         let sender = sender_of env raw;
             recipients = (case hm_get m rid of Some r \<Rightarrow> participant_ids r | None \<Rightarrow> []);
             fwd = build_forwarded_datagram BROADCAST_INDEX (ROOM_AUDIO_TAG # as_bytes raw)
         in run_each (\<lambda>peer nd. if is_room_frame_author peer sender then ([], nd) else send_datagram_or_ws env fwd raw peer nd) recipients nd)"

definition deliver_replicated_video_state :: "bc_env \<Rightarrow> string \<Rightarrow> string \<Rightarrow> string \<Rightarrow> 'm RoomNode \<Rightarrow> 'm node_res" where
  "deliver_replicated_video_state env rid message_id raw = seen_first message_id (deliver_video_state rid (sender_of env raw) raw)"

definition deliver_replicated_room_video :: "bc_env \<Rightarrow> string \<Rightarrow> string \<Rightarrow> string \<Rightarrow> 'm RoomNode \<Rightarrow> 'm node_res" where
  "deliver_replicated_room_video env rid message_id raw = seen_first message_id (\<lambda>nd.
     case st_relay (nd_state nd) of None \<Rightarrow> ([], nd)
     | Some relay \<Rightarrow>
         (case room_video_payload_from_replication env raw of None \<Rightarrow> ([], nd)
          | Some (sender, payload) \<Rightarrow>
              let (outs, g) = forward_replicated_room_video (bc_relay env) relay (st_features (nd_state nd)) rid sender payload
              in (map (\<lambda>r. FromNode (Relayed r)) outs, set_features nd g)))"

definition deliver_replicated_room_frame :: "bc_env \<Rightarrow> string \<Rightarrow> string \<Rightarrow> string \<Rightarrow> 'm RoomNode \<Rightarrow> 'm node_res" where
  "deliver_replicated_room_frame env rid message_id raw =
     (if take 5 rid = ''game:'' then deliver_replicated_game_datagram env rid message_id raw
      else case kind_of env raw of
        KindAudio \<Rightarrow> deliver_replicated_audio env rid message_id raw
      | KindVideoState \<Rightarrow> deliver_replicated_video_state env rid message_id raw
      | KindRoomVideo \<Rightarrow> deliver_replicated_room_video env rid message_id raw
      | KindChat \<Rightarrow> deliver_replicated_chat env rid message_id raw)"

subsection \<open>The handlers\<close>

definition room_of :: "RoomMessage \<Rightarrow> string" where
  "room_of msg = payload_or (sm_payload msg) ''room_id'' DEFAULT_ROOM_ID"

definition handle_sfu_broadcast :: "bc_env \<Rightarrow> RoomMessage \<Rightarrow> string \<Rightarrow> FileMessageType \<Rightarrow> 'm RoomNode \<Rightarrow> 'm node_res" where
  "handle_sfu_broadcast env msg raw mt nd =
     (case st_sfu (nd_state nd) of None \<Rightarrow> ([], nd)
      | Some m \<Rightarrow>
          let payload_bytes = sfu_file_inbound_byte_count msg mt in
          if payload_bytes = 0 then ([], nd)
          else
            let (within_quota, nd) = gate_in env ''room.file.v1'' (sm_sender msg) payload_bytes nd in
            if \<not> within_quota \<and> \<not> file_payload_bypasses_quota mt then ([], nd)
            else if \<not> is_chat_sender m (room_of msg) (sm_sender msg) then ([], nd)
            else
              let eps = (case hm_get m (room_of msg) of Some r \<Rightarrow> chat_endpoints r | None \<Rightarrow> []);
                  to = payload_str (sm_payload msg) ''to'';
                  targets = file_frame_endpoints eps (sm_sender msg) (sm_source_device msg) to
              in if targets = [] \<and> to \<noteq> None then ([], nd)
                 else run_each (\<lambda>(peer, device) nd.
                   if file_payload_bypasses_quota mt then ([ToEndpoint peer device raw], nd)
                   else send_gated env ''room.file.v1'' peer (length raw) (ToEndpoint peer device raw) nd) targets nd)"

definition handle_sfu_audio_broadcast :: "bc_env \<Rightarrow> RoomMessage \<Rightarrow> string \<Rightarrow> 'm RoomNode \<Rightarrow> 'm node_res" where
  "handle_sfu_audio_broadcast env msg raw nd =
     (case st_sfu (nd_state nd) of None \<Rightarrow> ([], nd)
      | Some m \<Rightarrow>
          let opus_bytes = sfu_audio_opus_byte_count env msg in
          if opus_bytes = 0 then ([], nd)
          else
            let (ok, nd) = gate_in env ''room.audio.sfu'' (sm_sender msg) opus_bytes nd in
            if \<not> ok then ([], nd)
            else
              let (targets, m) = audio_forward_targets m (room_of msg) (sm_sender msg) (ev_now (bc_sn env));
                  nd = nd\<lparr>nd_state := (nd_state nd)\<lparr>st_sfu := Some m\<rparr>\<rparr>
              in case targets of None \<Rightarrow> ([], nd)
                 | Some recipients \<Rightarrow>
                     chained
                       (run_each (\<lambda>peer nd. if peer = sm_sender msg then ([], nd)
                          else send_gated env ''room.audio.sfu'' peer (length raw) (ToPeer peer raw) nd) recipients nd)
                       (replicate_room_audio env (room_of msg) msg raw))"

definition handle_sfu_chat_broadcast :: "bc_env \<Rightarrow> RoomMessage \<Rightarrow> string \<Rightarrow> 'm RoomNode \<Rightarrow> 'm node_res" where
  "handle_sfu_chat_broadcast env msg raw nd =
     (case st_sfu (nd_state nd) of None \<Rightarrow> ([], nd)
      | Some m \<Rightarrow>
          let body_bytes = sfu_chat_byte_count msg in
          if body_bytes = 0 then ([], nd)
          else
            let (ok, nd) = gate_in env ''room.chat.v1'' (sm_sender msg) body_bytes nd in
            if \<not> ok then ([], nd)
            else if \<not> (case hm_get m (room_of msg) of None \<Rightarrow> False
              | Some r \<Rightarrow> list_ex (\<lambda>(peer, device). is_room_frame_author peer (sm_sender msg) \<and> device = sm_source_device msg) (chat_endpoints r))
            then ([], nd)
            else chained (deliver_room_chat env (room_of msg) msg raw nd) (replicate_room_chat env (room_of msg) msg raw))"

definition handle_sfu_video_state :: "bc_env \<Rightarrow> RoomMessage \<Rightarrow> string \<Rightarrow> 'm RoomNode \<Rightarrow> 'm node_res" where
  "handle_sfu_video_state env msg raw nd =
     (case st_sfu (nd_state nd) of None \<Rightarrow> ([], nd)
      | Some m \<Rightarrow>
          if \<not> is_chat_sender m (room_of msg) (sm_sender msg) then ([], nd)
          else chained (deliver_video_state (room_of msg) (sm_sender msg) raw nd)
                 (replicate_frame env (room_of msg) (video_state_replication_id env msg) raw))"

definition handle_sfu_video_keyframe_request :: "RoomMessage \<Rightarrow> string \<Rightarrow> 'm RoomNode \<Rightarrow> 'm node_res" where
  "handle_sfu_video_keyframe_request msg raw nd =
     (case st_sfu (nd_state nd) of None \<Rightarrow> ([], nd)
      | Some m \<Rightarrow>
          (case nonempty (payload_str (sm_payload msg) ''target_peer'') of None \<Rightarrow> ([], nd)
           | Some target \<Rightarrow>
               if \<not> is_chat_sender m (room_of msg) (sm_sender msg) then ([], nd)
               else case find (\<lambda>peer. is_room_frame_author peer target) (get_chat_recipients m (room_of msg)) of
                 None \<Rightarrow> ([], nd)
               | Some peer \<Rightarrow> ([ToPeer peer raw], nd)))"

text \<open>
  The hook that fans a room-audio datagram of the relay out. The relay calls it only with a frame that starts
  with \<open>ROOM_AUDIO_TAG\<close>, so \<open>inner[1..]\<close> does not panic.
\<close>

definition room_audio_bridge :: "bc_env \<Rightarrow> string \<Rightarrow> u8 \<Rightarrow> string \<Rightarrow> bytes \<Rightarrow> 'm RoomNode \<Rightarrow> 'm node_res" where
  "room_audio_bridge env from_peer sender_index rid frame nd =
     (case (st_sfu (nd_state nd), st_relay (nd_state nd)) of
        (Some m, Some _) \<Rightarrow>
          (case from_utf8 (drop 1 frame) of None \<Rightarrow> ([], nd)
           | Some raw \<Rightarrow>
               let fwd = build_forwarded_datagram sender_index frame;
                   from_peer = pad_base64url from_peer;
                   (targets, m) = audio_forward_targets m rid from_peer (ev_now (bc_sn env));
                   nd = nd\<lparr>nd_state := (nd_state nd)\<lparr>st_sfu := Some m\<rparr>\<rparr>
               in case targets of None \<Rightarrow> ([], nd)
                  | Some members \<Rightarrow>
                      chained
                        (run_each (\<lambda>member nd. if member = from_peer then ([], nd) else send_datagram_or_ws env fwd raw member nd) members nd)
                        (\<lambda>nd. case from_json env raw of None \<Rightarrow> ([], nd) | Some parsed \<Rightarrow> replicate_room_audio env rid parsed raw nd))
      | _ \<Rightarrow> ([], nd))"

definition MAX_HELLO_CHALLENGE_LEN :: nat where "MAX_HELLO_CHALLENGE_LEN = 128"

definition hello_proof_payload :: "RoomMessage \<Rightarrow> json option" where
  "hello_proof_payload hello =
     (case payload_str (sm_payload hello) ''challenge'' of None \<Rightarrow> None
      | Some c \<Rightarrow> if c \<noteq> [] \<and> length c \<le> MAX_HELLO_CHALLENGE_LEN then Some (JObj [(''challenge'', Wire.JStr c)]) else None)"

subsection \<open>The callbacks of the cluster link\<close>

definition from_state :: "'m sn_res \<Rightarrow> 'm RoomNode \<Rightarrow> 'm node_res" where
  "from_state r nd = (map FromNode (fst r), nd\<lparr>nd_state := snd r\<rparr>)"

fun on_link_event :: "bc_env \<Rightarrow> link_event \<Rightarrow> 'm RoomNode \<Rightarrow> 'm node_res" where
  "on_link_event env (OnReplicate rid message_id raw) nd = deliver_replicated_room_frame env rid message_id raw nd"
| "on_link_event env (OnRoomRoster d) nd =
     from_state ([], apply_room_roster (bc_sn env) (rd_room_id d, rd_room_name d, rd_room_type d, rd_creator_id d, rd_invite_policy d) (nd_state nd)) nd"
| "on_link_event env (OnPeerAuth g) nd =
     from_state (apply_peer_auth (bc_sn env) (pa_identity_pub g) (pa_handle g) (pa_direct_invite g) (pa_access_granted g) (nd_state nd)) nd"
| "on_link_event env (OnSpaceRoot r) nd =
     from_state ([], (nd_state nd)\<lparr>st_space_roots := snd (roots_accept (supernode_prims (bc_sn env)) (st_space_roots (nd_state nd)) r)\<rparr>) nd"

definition room_type_name :: "RoomType \<Rightarrow> string" where
  "room_type_name t = (case t of Public \<Rightarrow> ''public'' | Private \<Rightarrow> ''private'')"

definition local_rooms :: "'m SupernodeState \<Rightarrow> string list" where
  "local_rooms s =
     (case st_sfu s of Some m \<Rightarrow> subscribed_room_ids m | None \<Rightarrow> []) @
     (case st_relay s of Some r \<Rightarrow> active_game_sessions r | None \<Rightarrow> [])"

definition local_room_roster :: "'m SupernodeState \<Rightarrow> RoomDescriptor list" where
  "local_room_roster s =
     (case st_sfu s of None \<Rightarrow> []
      | Some m \<Rightarrow> map (\<lambda>(rid, name, rt, creator, policy). \<lparr>rd_room_id = rid, rd_room_name = name, rd_room_type = room_type_name rt,
          rd_creator_id = creator, rd_invite_policy = policy\<rparr>) (durable_room_descriptors m))"

text \<open>The bytes of one link: the frames are read, and the callbacks run on the node.\<close>

definition receive_link :: "bc_env \<Rightarrow> ClusterMembership \<Rightarrow> string \<Rightarrow> bytes \<Rightarrow> 'm RoomNode \<Rightarrow> 'm node_res" where
  "receive_link env ms member bs nd =
     (case nd_link nd of None \<Rightarrow> ([], nd)
      | Some link \<Rightarrow>
          let (evs, link, e) = read_loop (bc_link env) ms member bs link
          in run_each (on_link_event env) evs (nd\<lparr>nd_link := Some link\<rparr>))"

definition local_peer_auth_roster :: "'m SupernodeState \<Rightarrow> PeerAuthDescriptor list" where
  "local_peer_auth_roster s =
     map (\<lambda>p. \<lparr>pa_identity_pub = pr_identity_pub p, pa_handle = pr_handle p,
            pa_direct_invite = is_direct_invite_transcript (pr_transcript_hash p),
            pa_access_granted = check_access (st_access s) (pr_identity_pub p)\<rparr>)
       (filter (\<lambda>p. \<not> pr_revoked p \<and> \<not> pr_blocked p) (hm_values (st_peers s)))"

definition link_sources_of :: "'m SupernodeState \<Rightarrow> link_sources" where
  "link_sources_of s = \<lparr>ls_rooms = local_rooms s, ls_roster = local_room_roster s, ls_roots = roots_all (st_space_roots s),
     ls_auth = local_peer_auth_roster s\<rparr>"

text \<open>The arms of \<open>on_message\<close> for room traffic.\<close>

datatype room_traffic = SfuChat | SfuAudio | SfuVideoState | SfuVideoKeyframeRequest | SfuFile FileMessageType

fun on_room_message :: "bc_env \<Rightarrow> room_traffic \<Rightarrow> RoomMessage \<Rightarrow> string \<Rightarrow> 'm RoomNode \<Rightarrow> 'm node_res" where
  "on_room_message env SfuChat msg raw nd = handle_sfu_chat_broadcast env msg raw nd"
| "on_room_message env SfuVideoState msg raw nd = handle_sfu_video_state env msg raw nd"
| "on_room_message env SfuVideoKeyframeRequest msg raw nd = handle_sfu_video_keyframe_request msg raw nd"
| "on_room_message env SfuAudio msg raw nd = handle_sfu_audio_broadcast env msg raw nd"
| "on_room_message env (SfuFile mt) msg raw nd = handle_sfu_broadcast env msg raw mt nd"

end
