(* ===== verification/Room_Traffic.thy ===== *)
theory Room_Traffic
  imports Supernode_Broadcast Supernode_Gate Cluster_Link_Props
begin

section \<open>Where room traffic goes\<close>

text \<open>
  Chat, files and camera state stay among the members of the room; audio does not ask who is a member. File
  payload is never held back by a quota. Nothing a cluster link brings in goes out on one again, and the ids
  by which replicated frames are recognised are shared by all rooms.
\<close>

subsection \<open>Loops and gates\<close>

lemma run_each_Cons [simp]:
  "run_each f (x # xs) nd = (fst (f x nd) @ fst (run_each f xs (snd (f x nd))), snd (run_each f xs (snd (f x nd))))"
  by (simp add: case_prod_beta)

declare run_each.simps(2) [simp del]

lemma run_each_out:
  "(\<And>x nd. x \<in> set xs \<Longrightarrow> list_all P (fst (f x nd))) \<Longrightarrow> list_all P (fst (run_each f xs nd))"
  by (induction xs arbitrary: nd) simp_all

lemma run_each_keeps: "(\<And>x nd. x \<in> set xs \<Longrightarrow> g (snd (f x nd)) = g nd) \<Longrightarrow> g (snd (run_each f xs nd)) = g nd"
  by (induction xs arbitrary: nd) simp_all

lemma run_each_pure: "(\<And>x nd. x \<in> set xs \<Longrightarrow> f x nd = (h x, nd)) \<Longrightarrow> run_each f xs nd = (concat (map h xs), nd)"
  by (induction xs arbitrary: nd) auto

lemma set_features_simps [simp]:
  "nd_link (set_features nd g) = nd_link nd" "nd_seen (set_features nd g) = nd_seen nd"
  "st_sfu (nd_state (set_features nd g)) = st_sfu (nd_state nd)" "st_relay (nd_state (set_features nd g)) = st_relay (nd_state nd)"
  "st_features (nd_state (set_features nd g)) = g"
  by (simp_all add: set_features_def)

lemma send_gated_out: "set (fst (send_gated env f p n out nd)) \<subseteq> {out}"
  by (auto simp: send_gated_def split: prod.splits if_splits)

lemma gate_in_simps [simp]:
  "nd_link (snd (gate_in env f p n nd)) = nd_link nd" "st_sfu (nd_state (snd (gate_in env f p n nd))) = st_sfu (nd_state nd)"
  by (simp_all add: gate_in_def split: prod.splits)

lemma replicate_frame_out:
  "x \<in> set (fst (replicate_frame env rid mid raw nd)) \<Longrightarrow>
   \<exists>tx. x = ToMember tx (signed_frame (bc_link env) (Replicate rid mid raw))"
  by (auto simp: replicate_frame_def link_replicate_targets map_filter_def split: option.splits)

lemma snd_replicate_frame [simp]: "snd (replicate_frame env rid mid raw nd) = nd"
  by (simp add: replicate_frame_def split: option.splits)

lemma fst_chained: "fst (chained r f) = fst r @ fst (f (snd r))"
  by (simp add: chained_def split: prod.splits)

lemma snd_chained: "snd (chained r f) = snd (f (snd r))"
  by (simp add: chained_def split: prod.splits)

lemma snd_replicate_audio [simp]: "snd (replicate_room_audio env rid msg raw nd) = nd"
  by (simp add: replicate_room_audio_def)

subsection \<open>Rooms\<close>

text \<open>What a handler may send for a message: the message itself, to the room it names and to the cluster.\<close>

definition within_room :: "link_env \<Rightarrow> SFURoom \<Rightarrow> RoomMessage \<Rightarrow> string \<Rightarrow> room_out \<Rightarrow> bool" where
  "within_room env r msg raw out =
     (case out of
        ToEndpoint p d x \<Rightarrow> x = raw \<and> (p, d) \<in> set (chat_endpoints r) \<and> (p, d) \<noteq> (normalize_peer_id (sm_sender msg), sm_source_device msg)
      | ToPeer p x \<Rightarrow> x = raw \<and> p \<in> set (chat_recipient_ids r)
      | ToMember tx f \<Rightarrow> \<exists>mid. f = signed_frame env (Replicate (room_of msg) mid raw)
      | _ \<Rightarrow> False)"

definition room_member :: "SFURoom \<Rightarrow> RoomMessage \<Rightarrow> bool" where
  "room_member r msg \<longleftrightarrow> normalize_peer_id (sm_sender msg) \<in> set (chat_recipient_ids r) \<or>
     (\<exists>p. (p, sm_source_device msg) \<in> set (chat_endpoints r) \<and> normalize_peer_id p = normalize_peer_id (sm_sender msg))"

lemma chat_sender_room:
  "is_chat_sender m rid p \<longleftrightarrow> (\<exists>r. hm_get m rid = Some r \<and> normalize_peer_id p \<in> set (chat_recipient_ids r))"
  by (auto simp: is_chat_sender_def chat_recipient_ids_def hm_contains_def Let_def image_iff split: option.splits)

lemma chat_within:
  assumes "st_sfu (nd_state nd) = Some m" "x \<in> set (fst (handle_sfu_chat_broadcast env msg raw nd))"
  shows "\<exists>r. hm_get m (room_of msg) = Some r \<and> room_member r msg \<and> within_room (bc_link env) r msg raw x"
proof -
  obtain ok nd1 where g: "gate_in env ''room.chat.v1'' (sm_sender msg) (sfu_chat_byte_count msg) nd = (ok, nd1)" by fastforce
  have sfu: "st_sfu (nd_state nd1) = Some m" using gate_in_simps(2) [of env "''room.chat.v1''" "sm_sender msg" "sfu_chat_byte_count msg" nd] g assms(1) by simp
  obtain r where r: "hm_get m (room_of msg) = Some r"
    and member: "list_ex (\<lambda>(peer, device). is_room_frame_author peer (sm_sender msg) \<and> device = sm_source_device msg) (chat_endpoints r)"
    and x: "x \<in> set (fst (deliver_room_chat env (room_of msg) msg raw nd1)) \<or>
      x \<in> set (fst (replicate_room_chat env (room_of msg) msg raw (snd (deliver_room_chat env (room_of msg) msg raw nd1))))"
    using assms g by (auto simp: handle_sfu_chat_broadcast_def Let_def fst_chained split: if_splits option.splits)
  have "list_all (within_room (bc_link env) r msg raw) (fst (deliver_room_chat env (room_of msg) msg raw nd1))"
    unfolding deliver_room_chat_def sfu by (simp add: r Let_def, rule run_each_out)
      (auto simp: list_all_iff chat_delivery_endpoints_def Let_def within_room_def dest!: subsetD [OF send_gated_out])
  then have "within_room (bc_link env) r msg raw x"
    using x by (auto simp: list_all_iff replicate_room_chat_def within_room_def dest!: replicate_frame_out)
  then show ?thesis using r member by (auto simp: room_member_def list_ex_iff is_room_frame_author_def split: if_splits)
qed

lemma file_within:
  assumes "st_sfu (nd_state nd) = Some m" "x \<in> set (fst (handle_sfu_broadcast env msg raw mt nd))" "sm_sender msg \<noteq> []"
  shows "\<exists>r. hm_get m (room_of msg) = Some r \<and> room_member r msg \<and> within_room (bc_link env) r msg raw x"
proof -
  obtain ok nd1 where g: "gate_in env ''room.file.v1'' (sm_sender msg) (sfu_file_inbound_byte_count msg mt) nd = (ok, nd1)" by fastforce
  let ?send = "\<lambda>(peer, device) nd. if file_payload_bypasses_quota mt then ([ToEndpoint peer device raw], nd)
                   else send_gated env ''room.file.v1'' peer (length raw) (ToEndpoint peer device raw) nd"
  obtain r where r: "hm_get m (room_of msg) = Some r" "normalize_peer_id (sm_sender msg) \<in> set (chat_recipient_ids r)"
    and x: "x \<in> set (fst (run_each ?send (file_frame_endpoints (chat_endpoints r) (sm_sender msg) (sm_source_device msg)
      (payload_str (sm_payload msg) ''to'')) nd1))"
    using assms g by (auto simp: handle_sfu_broadcast_def Let_def chat_sender_room split: if_splits option.splits)
  have "list_all (within_room (bc_link env) r msg raw) (fst (run_each ?send
      (file_frame_endpoints (chat_endpoints r) (sm_sender msg) (sm_source_device msg) (payload_str (sm_payload msg) ''to'')) nd1))"
    using assms(3) by (intro run_each_out)
      (auto simp: list_all_iff file_frame_endpoints_def within_room_def is_room_frame_author_def split: if_splits dest!: subsetD [OF send_gated_out])
  then show ?thesis using x r by (auto simp: list_all_iff room_member_def)
qed

lemma video_within:
  assumes "st_sfu (nd_state nd) = Some m"
    "x \<in> set (fst (handle_sfu_video_state env msg raw nd)) \<or> x \<in> set (fst (handle_sfu_video_keyframe_request msg raw nd))"
  shows "\<exists>r. hm_get m (room_of msg) = Some r \<and> room_member r msg \<and> within_room (bc_link env) r msg raw x"
  using assms
  by (auto simp: handle_sfu_video_state_def handle_sfu_video_keyframe_request_def fst_chained deliver_video_state_def chat_sender_room
      get_chat_recipients_def within_room_def room_member_def find_Some_iff split: option.splits if_splits dest!: replicate_frame_out)

text \<open>
  C5: chat, files and camera announcements stay in the room. Whatever a handler sends for such a message,
  the message is from a member of the room it names and goes out unchanged: to an endpoint of that room other
  than the one it came from, to a member of that room, or to other supernodes as a copy for that same room.
\<close>

theorem room_traffic_stays_in_room:
  assumes "st_sfu (nd_state nd) = Some m" "sm_sender msg \<noteq> []" "k \<noteq> SfuAudio"
    "x \<in> set (fst (on_room_message env k msg raw nd))"
  shows "\<exists>r. hm_get m (room_of msg) = Some r \<and> room_member r msg \<and> within_room (bc_link env) r msg raw x"
  using assms chat_within [of nd m x env msg raw] file_within [of nd m x env msg raw] video_within [of nd m x env msg raw]
  by (cases k) auto

subsection \<open>File payload\<close>

text \<open>
  File payload is never held back by a quota. Whatever the buckets hold, a chunk or a completion that a
  member sends goes once to every endpoint it is meant for, in the order of the room's table, and the outbound
  buckets, on which the offers and revocations to the same peers depend, are untouched.
\<close>

theorem file_payload_never_dropped:
  assumes sfu: "st_sfu (nd_state nd) = Some m" and room: "hm_get m (room_of msg) = Some r"
    and member: "is_chat_sender m (room_of msg) (sm_sender msg)" and payload: "file_payload_bypasses_quota mt"
    and bytes: "mt = SfuFileChunk \<Longrightarrow> payload_or (sm_payload msg) ''data'' [] \<noteq> []"
  shows "fst (handle_sfu_broadcast env msg raw mt nd) =
      map (\<lambda>(p, d). ToEndpoint p d raw)
        (file_frame_endpoints (chat_endpoints r) (sm_sender msg) (sm_source_device msg) (payload_str (sm_payload msg) ''to'')) \<and>
    outbound_quotas (st_features (nd_state (snd (handle_sfu_broadcast env msg raw mt nd)))) = outbound_quotas (st_features (nd_state nd))"
proof -
  obtain ok nd1 where g: "gate_in env ''room.file.v1'' (sm_sender msg) (sfu_file_inbound_byte_count msg mt) nd = (ok, nd1)" by fastforce
  have out: "outbound_quotas (st_features (nd_state nd1)) = outbound_quotas (st_features (nd_state nd))"
    using g by (auto simp: gate_in_def gate_inbound_through_feature_def Let_def split: prod.splits option.splits)
  have "sfu_file_inbound_byte_count msg mt \<noteq> 0" using bytes by (simp add: sfu_file_inbound_byte_count_def)
  moreover have "run_each (\<lambda>(peer, device) nd. if file_payload_bypasses_quota mt then ([ToEndpoint peer device raw], nd)
                   else send_gated env ''room.file.v1'' peer (length raw) (ToEndpoint peer device raw) nd) ts nd1 =
    (map (\<lambda>(p, d). ToEndpoint p d raw) ts, nd1)" for ts
    using payload by (induction ts) auto
  ultimately show ?thesis using sfu room member payload g out by (auto simp: handle_sfu_broadcast_def Let_def)
qed

subsection \<open>Audio\<close>

lemma gate_other:
  "p \<noteq> q \<Longrightarrow> fst (gate_through_feature now (snd (gate_through_feature now g f q n)) f p k) = fst (gate_through_feature now g f p k)"
  by (auto simp: gate_through_feature_def try_consume_def quota_entry_def Let_def coll_simps split: prod.splits option.splits)

lemma gate_after_inbound:
  "fst (gate_through_feature now (snd (gate_inbound_through_feature now g f q n)) f p k) = fst (gate_through_feature now g f p k)"
  by (auto simp: gate_through_feature_def gate_inbound_through_feature_def try_consume_def Let_def split: prod.splits option.splits)

lemma send_gated_peer:
  "send_gated env f p n x nd = (if fst (gate_through_feature (clock (bc_relay env)) (st_features (nd_state nd)) f p n) then [x] else [],
     set_features nd (snd (gate_through_feature (clock (bc_relay env)) (st_features (nd_state nd)) f p n)))"
  by (simp add: send_gated_def case_prod_beta)

lemma audio_fan_out:
  assumes "p \<in> set ps" "distinct ps" "p \<noteq> s"
    "fst (gate_through_feature (clock (bc_relay env)) (st_features (nd_state nd)) f p (length raw))"
  shows "ToPeer p raw \<in> set (fst (run_each (\<lambda>peer nd. if peer = s then ([], nd)
     else send_gated env f peer (length raw) (ToPeer peer raw) nd) ps nd))"
  using assms
proof (induction ps arbitrary: nd)
  case (Cons q ps)
  show ?case
  proof (cases "p = q")
    case True
    then show ?thesis using Cons.prems by (simp add: send_gated_peer)
  next
    case False
    then show ?thesis using Cons by (simp add: send_gated_peer gate_other)
  qed
qed simp

lemma free_slot_forwards:
  assumes "length (active_speakers (drop_silent (bump_score r s now) now)) < MAX_ACTIVE_SPEAKERS"
  shows "\<exists>r1. note_audio_should_forward r s now = (True, r1) \<and> s \<in> set (active_speakers r1) \<and> participants r1 = participants r"
proof -
  define q where "q = drop_silent (bump_score r s now) now"
  have "participants q = participants r" by (simp add: q_def drop_silent_def bump_score_def Let_def)
  then show ?thesis using assms by (auto simp: note_audio_should_forward_def Let_def list_ex_iff simp flip: q_def)
qed

text \<open>
  Audio asks for no membership. A peer that has never joined a room sends an audio frame naming it over
  its signalling socket: while a speaker slot is free, the frame goes to every participant whose bucket has
  room for it, and the outsider takes a slot of the room's active speakers.
\<close>

theorem outsider_audio_forwarded:
  assumes sfu: "st_sfu (nd_state nd) = Some m" and room: "hm_get m (room_of msg) = Some r" "hm_wf (participants r)"
    and outsider: "\<not> is_chat_sender m (room_of msg) (sm_sender msg)"
    and frame: "sfu_audio_opus_byte_count env msg > 0"
    and inbound: "fst (gate_in env ''room.audio.sfu'' (sm_sender msg) (sfu_audio_opus_byte_count env msg) nd)"
    and free: "length (active_speakers (drop_silent (bump_score r (sm_sender msg) (ev_now (bc_sn env))) (ev_now (bc_sn env)))) < MAX_ACTIVE_SPEAKERS"
    and victim: "p \<in> set (participant_ids r)" "p \<noteq> sm_sender msg"
      "fst (gate_through_feature (clock (bc_relay env)) (st_features (nd_state nd)) ''room.audio.sfu'' p (length raw))"
  shows "ToPeer p raw \<in> set (fst (on_room_message env SfuAudio msg raw nd)) \<and>
    (\<exists>m' r'. st_sfu (nd_state (snd (on_room_message env SfuAudio msg raw nd))) = Some m' \<and> hm_get m' (room_of msg) = Some r' \<and>
      sm_sender msg \<in> set (active_speakers r'))"
proof -
  let ?now = "ev_now (bc_sn env)"
  obtain nd1 where g: "gate_in env ''room.audio.sfu'' (sm_sender msg) (sfu_audio_opus_byte_count env msg) nd = (True, nd1)"
    using inbound by (cases "gate_in env ''room.audio.sfu'' (sm_sender msg) (sfu_audio_opus_byte_count env msg) nd") auto
  obtain r1 where r1: "note_audio_should_forward r (sm_sender msg) ?now = (True, r1)" "sm_sender msg \<in> set (active_speakers r1)"
    "participants r1 = participants r"
    using free_slot_forwards [OF free] by blast
  define nd2 where "nd2 = nd1\<lparr>nd_state := (nd_state nd1)\<lparr>st_sfu := Some (hm_insert (room_of msg) r1 m)\<rparr>\<rparr>"
  let ?send = "\<lambda>peer nd. if peer = sm_sender msg then ([], nd) else send_gated env ''room.audio.sfu'' peer (length raw) (ToPeer peer raw) nd"
  have targets: "audio_forward_targets m (room_of msg) (sm_sender msg) ?now = (Some (participant_ids r1), hm_insert (room_of msg) r1 m)"
    using room r1 by (simp add: audio_forward_targets_def)
  have eq: "on_room_message env SfuAudio msg raw nd =
      chained (run_each ?send (participant_ids r1) nd2) (replicate_room_audio env (room_of msg) msg raw)"
    using sfu frame g targets by (simp add: handle_sfu_audio_broadcast_def Let_def nd2_def)
  have "st_features (nd_state nd2) = snd (gate_inbound_through_feature (clock (bc_relay env)) (st_features (nd_state nd)) ''room.audio.sfu''
      (sm_sender msg) (sfu_audio_opus_byte_count env msg))"
    using g by (auto simp: nd2_def gate_in_def split: prod.splits)
  then have "ToPeer p raw \<in> set (fst (run_each ?send (participant_ids r1) nd2))"
    using victim room r1 by (intro audio_fan_out) (simp_all add: gate_after_inbound participant_ids_def hm_keys_def hm_wf_def)
  moreover have "st_sfu (nd_state (snd (run_each ?send (participant_ids r1) nd2))) = st_sfu (nd_state nd2)"
    by (rule run_each_keeps [where g = "\<lambda>nd. st_sfu (nd_state nd)"]) (simp add: send_gated_peer)
  ultimately show ?thesis using r1(2) unfolding eq fst_chained snd_chained snd_replicate_audio
    by (simp add: nd2_def coll_simps)
qed

subsection \<open>Copies of the cluster\<close>

definition to_cluster :: "room_out \<Rightarrow> bool" where
  "to_cluster out = (case out of ToMember _ _ \<Rightarrow> True | FromNode (GossipSpaceRoot _) \<Rightarrow> True | FromNode (GossipPeerAuth _ _ _ _) \<Rightarrow> True | _ \<Rightarrow> False)"

definition stays_local :: "room_out list \<Rightarrow> bool" where
  "stays_local outs \<longleftrightarrow> list_all (\<lambda>out. \<not> to_cluster out) outs"

lemma stays_local_simps [simp]:
  "stays_local []" "stays_local (xs @ ys) \<longleftrightarrow> stays_local xs \<and> stays_local ys"
  "stays_local (map (\<lambda>c. ToConn c fwd) cs)" "stays_local (map (\<lambda>p. ToPeer p raw) ps)" "stays_local (map (\<lambda>r. FromNode (Relayed r)) rs)"
  by (auto simp: stays_local_def list_all_iff to_cluster_def)

lemma run_each_local: "(\<And>x nd. stays_local (fst (f x nd))) \<Longrightarrow> stays_local (fst (run_each f xs nd))"
  unfolding stays_local_def by (rule run_each_out)

lemma send_gated_local: "\<not> to_cluster out \<Longrightarrow> stays_local (fst (send_gated env f p n out nd))"
  by (simp add: send_gated_peer stays_local_def)

lemma seen_first_local: "(\<And>nd. stays_local (fst (f nd))) \<Longrightarrow> stays_local (fst (seen_first mid f nd))"
  by (simp add: seen_first_def Let_def split: prod.splits)

lemma deliver_frame_local: "stays_local (fst (deliver_replicated_room_frame env rid mid raw nd))"
proof -
  have "stays_local (fst (send_datagram_or_ws env fwd raw p nd))" for fwd p nd
    by (auto simp: send_datagram_or_ws_def Let_def to_cluster_def intro!: send_gated_local split: option.splits prod.splits)
  then show ?thesis
    by (auto simp: deliver_replicated_room_frame_def deliver_replicated_game_datagram_def deliver_replicated_audio_def
        deliver_replicated_video_state_def deliver_replicated_room_video_def deliver_replicated_chat_def deliver_room_chat_def
        deliver_video_state_def to_cluster_def Let_def case_prod_beta
        intro!: seen_first_local run_each_local send_gated_local split: option.splits ReplicatedKind.splits)
qed

lemma apply_peer_auth_local: "stays_local (map FromNode (fst (apply_peer_auth env i h d a s)))"
  by (auto simp: apply_peer_auth_def refresh_connected_replicated_peer_def and_then_def announce_capabilities_to_def issue_ticket_for_access_state_def
      issue_relay_ticket_def issue_portal_ticket_def issue_ticket_def send_room_list_def Let_def stays_local_def to_cluster_def
      split: prod.splits option.splits)


subsection \<open>Ids chosen by a client\<close>

lemma seen_after:
  assumes "nd_seen nd = snd (offer_all (seen_new n) ids)" "0 < n" "i \<noteq> []"
  shows "i \<in> set (sc_set (snd (insert_new (nd_seen nd) i)))"
proof -
  obtain h where h: "seen_ok n h (nd_seen nd)" using offer_all_window [OF seen_ok_new] assms(1) by metis
  show ?thesis
  proof (cases "i \<in> set (drop (length h - n) h)")
    case True
    then show ?thesis using h assms(3) by (simp add: insert_new_def seen_ok_def)
  next
    case False
    then have "set (sc_set (snd (insert_new (nd_seen nd) i))) = set (drop (length (h @ [i]) - n) (h @ [i]))"
      using seen_ok_insert [OF h assms(3)] by (simp add: seen_ok_def)
    then show ?thesis using assms(2) by (cases "length h < n") auto
  qed
qed

lemma seen_first_seen:
  "(\<And>nd. nd_seen (snd (f nd)) = nd_seen nd) \<Longrightarrow> nd_seen (snd (seen_first mid f nd)) = snd (insert_new (nd_seen nd) mid)"
  by (simp add: seen_first_def Let_def split: prod.splits)

lemma send_gated_seen [simp]: "nd_seen (snd (send_gated env f p n out nd)) = nd_seen nd"
  by (simp add: send_gated_peer)

lemma send_datagram_or_ws_seen [simp]: "nd_seen (snd (send_datagram_or_ws env fwd raw p nd)) = nd_seen nd"
  by (simp add: send_datagram_or_ws_def Let_def case_prod_beta split: option.splits)

lemma deliver_frame_seen: "nd_seen (snd (deliver_replicated_room_frame env rid mid raw nd)) = snd (insert_new (nd_seen nd) mid)"
  by (auto simp: deliver_replicated_room_frame_def deliver_replicated_game_datagram_def deliver_replicated_audio_def
      deliver_replicated_video_state_def deliver_replicated_room_video_def deliver_replicated_chat_def deliver_room_chat_def
      deliver_video_state_def Let_def case_prod_beta
      intro!: seen_first_seen run_each_keeps [where g = nd_seen] split: option.splits ReplicatedKind.splits)

lemma seen_first_drops: "i \<noteq> [] \<Longrightarrow> i \<in> set (sc_set (nd_seen nd)) \<Longrightarrow> seen_first i f nd = ([], nd)"
  by (simp add: seen_first_def insert_new_def)

lemma deliver_frame_drops: "i \<noteq> [] \<Longrightarrow> i \<in> set (sc_set (nd_seen nd)) \<Longrightarrow> deliver_replicated_room_frame env rid i raw nd = ([], nd)"
  by (simp add: deliver_replicated_room_frame_def deliver_replicated_game_datagram_def deliver_replicated_audio_def
      deliver_replicated_video_state_def deliver_replicated_room_video_def deliver_replicated_chat_def seen_first_drops split: ReplicatedKind.splits)

text \<open>
  A chat message can be sent in place of someone's video. The id under which a chat message is replicated
  is the one its author wrote into it, the ids of video fragments are counted, and one cache serves all rooms. A
  member of any room who sends a chat message under the id of a fragment to come has it replicated under that
  id; the receiving node then drops the fragment, in whatever room it is, and its state does not change.
\<close>

theorem chat_id_blocks_video:
  assumes chosen: "payload_or (sm_payload msg) ''message_id'' [] = fst (room_video_replication_message env node seq sender payload)"
    and cache: "nd_seen nd = snd (offer_all (seen_new n) ids)" "0 < n"
    and sent: "x \<in> set (fst (replicate_room_chat enva (room_of msg) msg raw nda))"
    and arrives: "snd (on_link_event envb (OnReplicate (room_of msg) (payload_or (sm_payload msg) ''message_id'' []) raw) nd) = nd1"
  shows "(\<exists>tx. x = ToMember tx (signed_frame (bc_link enva) (Replicate (room_of msg) (payload_or (sm_payload msg) ''message_id'' []) raw))) \<and>
    on_link_event envb (OnReplicate rid (fst (room_video_replication_message env node seq sender payload))
      (snd (room_video_replication_message env node seq sender payload))) nd1 = ([], nd1)"
proof -
  let ?i = "fst (room_video_replication_message env node seq sender payload)"
  have i: "?i \<noteq> []" by (simp add: room_video_replication_message_def Let_def)
  have "nd_seen nd1 = snd (insert_new (nd_seen nd) ?i)" using arrives by (auto simp: chosen deliver_frame_seen)
  then have "?i \<in> set (sc_set (nd_seen nd1))" using seen_after [OF cache i] by simp
  then show ?thesis using i sent by (auto simp: deliver_frame_drops replicate_room_chat_def dest!: replicate_frame_out)
qed

subsection \<open>A small room\<close>

definition small_bc :: bc_env where
  "small_bc = \<lparr>bc_sn = small_sn_env\<lparr>ev_prims := toy_prims\<lparr>url_safe_decode := \<lambda>s. Some (as_bytes s)\<rparr>\<rparr>, bc_link = small_link_env,
     bc_relay = \<lparr>engines = \<lparr>no_pad_decode = \<lambda>_. None, b64.url_safe_encode = \<lambda>_. []\<rparr>, clock = 0, sends = \<lambda>_ _. True,
       parse_json = \<lambda>_. None, has_audio_bridge = True, has_game_bridge = True, has_video_bridge = True\<rparr>,
     bc_is_closed = (\<lambda>_. False), bc_type_ok = (\<lambda>_. True), bc_device = (\<lambda>_. Some None), bc_as_f64 = (\<lambda>_. None), bc_show_f64 = (\<lambda>_. []),
     bc_std_encode = string_of_bytes, bc_std_decode = (\<lambda>s. Some (as_bytes s)), bc_to_string = (\<lambda>_. ''json'')\<rparr>"

definition small_room :: SFURoom where
  "small_room = (room_new ''r'' ''Room'' Public [])\<lparr>participants := [(''anna'', 1), (''bert'', 2)],
     device_members := [((''anna'', None), \<lparr>voice = True, chat = False\<rparr>), ((''bert'', None), \<lparr>voice = True, chat = True\<rparr>)]\<rparr>"

definition small_room_node :: "unit RoomNode" where
  "small_room_node = \<lparr>nd_state = small_sn (CodeGateAccessController ''secret'' grants_ephemeral) [] [(''r'', small_room)],
     nd_link = Some \<lparr>lk_peers = [(''K'', \<lparr>pl_tx = 1, pl_version = None, pl_source_hash = None\<rparr>)], lk_remote_subs = [(''K'', [''r''])]\<rparr>,
     nd_seen = seen_new 16384, nd_game_seq = 0, nd_video_seq = 0\<rparr>"

definition small_msg :: "string \<Rightarrow> (string \<times> string) list \<Rightarrow> RoomMessage" where
  "small_msg sender p = \<lparr>sm_sender = sender, sm_source_device = None,
     sm_payload = JObj (map (\<lambda>(k, v). (k, Wire.JStr v)) ((''room_id'', ''r'') # p)), sm_timestamp = 0, sm_signature = Some ''sig''\<rparr>"

lemma small_msg_simps [simp]:
  "sm_sender (small_msg s p) = s" "sm_source_device (small_msg s p) = None" "room_of (small_msg s p) = ''r''"
  "payload_str (sm_payload (small_msg s [])) k = (if k = ''room_id'' then Some ''r'' else None)"
  "payload_str (sm_payload (small_msg s ((j, v) # p))) k =
     (if k = ''room_id'' then Some ''r'' else if k = j then Some v else payload_str (sm_payload (small_msg s p)) k)"
  by (auto simp: small_msg_def room_of_def payload_or_def payload_str_def)

lemma small_node_simps [simp]:
  "st_sfu (nd_state small_room_node) = Some [(''r'', small_room)]" "st_features (nd_state small_room_node) = registry_new"
  "nd_seen small_room_node = seen_new 16384"
  "hm_get [(''r'', small_room)] ''r'' = Some small_room" "participants small_room = [(''anna'', 1), (''bert'', 2)]" "subscribers small_room = []"
  "chat_endpoints small_room = [(''anna'', None), (''bert'', None)]" "chat_recipient_ids small_room = [''anna'', ''bert'']"
  by (simp_all add: small_room_node_def small_sn_def small_room_def room_new_def chat_endpoints_def hm_get_def chat_recipient_ids_def hm_keys_def)

lemma small_names [simp]: "normalize_peer_id ''anna'' = ''anna''" "normalize_peer_id ''bert'' = ''bert''" "normalize_peer_id ''mallory'' = ''mallory''"
  by code_simp+

lemma gate_unregistered [simp]:
  "gate_through_feature t registry_new f p n = (True, registry_new)" "gate_inbound_through_feature t registry_new f p n = (True, registry_new)"
  by (simp_all add: gate_through_feature_def gate_inbound_through_feature_def registry_new_def)

text \<open>Anna's chat message reaches Bert and the other node.\<close>

theorem room_traffic_stays_in_room_witness:
  "ToEndpoint ''bert'' None ''raw'' \<in> set (fst (on_room_message small_bc SfuChat (small_msg ''anna'' [(''body'', ''hi'')]) ''raw'' small_room_node)) \<and>
   (\<exists>r. hm_get [(''r'', small_room)] ''r'' = Some r \<and> room_member r (small_msg ''anna'' [(''body'', ''hi'')]) \<and>
     within_room small_link_env r (small_msg ''anna'' [(''body'', ''hi'')]) ''raw'' (ToEndpoint ''bert'' None ''raw''))"
proof -
  have "ToEndpoint ''bert'' None ''raw'' \<in> set (fst (on_room_message small_bc SfuChat (small_msg ''anna'' [(''body'', ''hi'')]) ''raw'' small_room_node))"
    by (simp add: handle_sfu_chat_broadcast_def sfu_chat_byte_count_def payload_or_def gate_in_def is_room_frame_author_def fst_chained
        deliver_room_chat_def chat_delivery_endpoints_def send_gated_peer set_features_def Let_def)
  moreover note room_traffic_stays_in_room [OF _ _ _ this, of "[(''r'', small_room)]"]
  ultimately show ?thesis by (simp add: small_bc_def)
qed

theorem file_payload_never_dropped_witness:
  "fst (handle_sfu_broadcast small_bc (small_msg ''anna'' [(''data'', ''x'')]) ''raw'' SfuFileChunk small_room_node) = [ToEndpoint ''bert'' None ''raw'']"
  using file_payload_never_dropped [of small_room_node "[(''r'', small_room)]" "small_msg ''anna'' [(''data'', ''x'')]" small_room SfuFileChunk small_bc "''raw''"]
  by (simp add: is_chat_sender_def file_payload_bypasses_quota_def file_frame_endpoints_def is_room_frame_author_def payload_or_def hm_contains_def)

text \<open>Mallory is in no room, and Anna hears her.\<close>

theorem outsider_audio_forwarded_witness:
  "ToPeer ''anna'' ''raw'' \<in> set (fst (on_room_message small_bc SfuAudio (small_msg ''mallory'' [(''audio'', ''x'')]) ''raw'' small_room_node))"
proof -
  have "active_speakers (drop_silent (bump_score small_room ''mallory'' t) t) = []" for t
    by (simp add: drop_silent_def bump_score_def small_room_def room_new_def Let_def)
  then show ?thesis
    using outsider_audio_forwarded [of small_room_node "[(''r'', small_room)]" "small_msg ''mallory'' [(''audio'', ''x'')]" small_room small_bc "''anna''" "''raw''"]
    by (simp add: is_chat_sender_def sfu_audio_opus_byte_count_def gate_in_def hm_wf_def participant_ids_def hm_keys_def MAX_ACTIVE_SPEAKERS_def
        hm_contains_def small_bc_def)
qed

theorem chat_id_blocks_video_witness:
  "let i = fst (room_video_replication_message small_bc ''K'' 7 ''bert'' [1]);
       msg = small_msg ''anna'' [(''message_id'', i)];
       nd = snd (on_link_event small_bc (OnReplicate ''r'' i ''raw'') small_room_node)
   in fst (replicate_room_chat small_bc ''r'' msg ''raw'' small_room_node) = [ToMember 1 (signed_frame small_link_env (Replicate ''r'' i ''raw''))] \<and>
      on_link_event small_bc (OnReplicate ''other'' i (snd (room_video_replication_message small_bc ''K'' 7 ''bert'' [1]))) nd = ([], nd)"
proof -
  let ?i = "fst (room_video_replication_message small_bc ''K'' 7 ''bert'' [1])"
  have sent: "fst (replicate_room_chat small_bc ''r'' (small_msg ''anna'' [(''message_id'', ?i)]) ''raw'' small_room_node) =
      [ToMember 1 (signed_frame small_link_env (Replicate ''r'' ?i ''raw''))]"
    by (simp add: replicate_room_chat_def replicate_frame_def small_room_node_def small_bc_def link_replicate_targets members_for_room_def
        map_filter_simps hm_get_def payload_or_def)
  then show ?thesis
    using chat_id_blocks_video [of "small_msg ''anna'' [(''message_id'', ?i)]" small_bc "''K''" 7 "''bert''" "[1]" small_room_node 16384 "[]"
        "ToMember 1 (signed_frame small_link_env (Replicate ''r'' ?i ''raw''))" small_bc "''raw''" small_room_node small_bc _ "''other''", OF _ _ _ _ refl]
    by (simp add: payload_or_def)
qed

end
