(* ===== verification/Protocol.thy ===== *)
theory Protocol
  imports Supernode_Broadcast
begin

section \<open>The signalling envelope (\<open>protocol.rs\<close>)\<close>

text \<open>
  The envelope of a signalling message, its canonical bytes, signing, verification and the two conversions
  to and from JSON. A message type is its name on the wire: the variants of the enum are exactly the names
  of \<open>MESSAGE_TYPES\<close>. A \<open>serde_json::Map\<close> is sorted by key. The JSON text codec and the conversion between
  \<open>f64\<close> and a JSON number are fields of \<open>wire_env\<close>.
\<close>

type_synonym MessageType = string

definition MESSAGE_TYPES :: "MessageType list" where
  "MESSAGE_TYPES =
    [''hello'', ''welcome'', ''hello_proof'', ''room_join'', ''room_leave'',
     ''room_state'', ''room_peer_joined'', ''room_peer_left'', ''room_list_request'', ''room_list_response'',
     ''invite_handshake_init'', ''invite_handshake_accept'', ''invite_handshake_reject'', ''encrypted_signal'', ''presence_update'',
     ''speaking_state'', ''chat_message'', ''chat_ack'', ''chat_typing'', ''call_request'',
     ''call_accept'', ''call_reject'', ''call_end'', ''endpoint_update'', ''handle_update'',
     ''version_announce'', ''update_offer'', ''update_accept'', ''update_reject'', ''file_transfer_offer'',
     ''file_transfer_accept'', ''file_transfer_reject'', ''file_transfer_chunk'', ''file_transfer_complete'', ''file_transfer_ack'',
     ''file_transfer_error'', ''relay_request'', ''relay_granted'', ''relay_revoke'', ''relay_payment_required'',
     ''relay_access_granted'', ''relay_access_denied'', ''supernode_info'', ''supernode_info_request'', ''punch_register'',
     ''punch_ready'', ''sfu_room_list'', ''sfu_join'', ''sfu_join_result'', ''sfu_leave'',
     ''sfu_members'', ''sfu_peer_joined'', ''sfu_peer_left'', ''sfu_offer'', ''sfu_answer'',
     ''sfu_chat'', ''sfu_file_offer'', ''sfu_file_request'', ''sfu_file_revoke'', ''sfu_file_chunk'',
     ''sfu_file_complete'', ''sfu_audio'', ''sfu_video_keyframe_request'', ''sfu_video_state'', ''sfu_video_subscribe'',
     ''space_root_announce'', ''sfu_room_create'', ''sfu_room_created'', ''sfu_room_invite'', ''sfu_room_invite_result'',
     ''sfu_room_invite_generate'', ''sfu_subscribe'', ''sfu_unsubscribe'', ''trust_request'', ''trust_accept'',
     ''peer_room_invite'', ''build_attestation'', ''attestation_response'', ''ping'', ''pong'',
     ''capability_announce'', ''capability_invoke'', ''game_relay_join'', ''game_relay_leave'', ''game_relay_joined'',
     ''error'']"

definition de_type :: "json \<Rightarrow> MessageType option" where
  "de_type v = (case v of Wire.JStr s \<Rightarrow> if s \<in> set MESSAGE_TYPES then Some s else None | _ \<Rightarrow> None)"

definition PROTOCOL_VERSION :: u32 where "PROTOCOL_VERSION = 2"

subsection \<open>The envelope\<close>

record WireMessage = RoomMessage +
  wm_type :: MessageType
  wm_target :: "string option"
  wm_target_device :: "DeviceId option"
  wm_version :: u32
  wm_timestamp_raw :: "json option"

record wire_env =
  we_prims :: space_prims
  we_to_vec :: "json \<Rightarrow> bytes"
  we_to_string :: "json \<Rightarrow> string"
  we_parse :: "string \<Rightarrow> json option"
  we_of_f64 :: "real \<Rightarrow> json"
  we_as_f64 :: "json \<Rightarrow> real option"
  we_device :: "json \<Rightarrow> DeviceId option option"
  we_b64_encode :: "bytes \<Rightarrow> string"
  we_sign :: "bytes \<Rightarrow> bytes"
  we_public_id :: string
  we_now :: real

definition b64_decode_url :: "wire_env \<Rightarrow> string \<Rightarrow> bytes option" where
  "b64_decode_url env s = url_safe_no_pad_decode (we_prims env) (trim_end_matches (CHR ''='') (padded4 s))"

definition message_new :: "wire_env \<Rightarrow> MessageType \<Rightarrow> string \<Rightarrow> json \<Rightarrow> WireMessage" where
  "message_new env mt sender payload =
     \<lparr>sm_sender = sender, sm_source_device = None, sm_payload = payload, sm_timestamp = we_now env, sm_signature = None,
      wm_type = mt, wm_target = None, wm_target_device = None, wm_version = PROTOCOL_VERSION, wm_timestamp_raw = None\<rparr>"

definition with_target :: "WireMessage \<Rightarrow> string \<Rightarrow> WireMessage" where
  "with_target m target = m\<lparr>wm_target := Some target\<rparr>"

definition device_json :: "DeviceId \<Rightarrow> json" where
  "device_json d = Wire.JArr (map (\<lambda>b. Wire.JNum (uint b)) d)"

definition opt_field :: "string \<Rightarrow> json option \<Rightarrow> (string \<times> json) list" where
  "opt_field k v = (case v of None \<Rightarrow> [] | Some j \<Rightarrow> [(k, j)])"

text \<open>\<open>BTreeMap::insert\<close>, for every field in turn.\<close>

definition sorted_object :: "(string \<times> json) list \<Rightarrow> json" where
  "sorted_object fs = JObj (sort_key fst fs)"

definition canonical_bytes :: "wire_env \<Rightarrow> WireMessage \<Rightarrow> bytes" where
  "canonical_bytes env m =
     (let ts_val = (case wm_timestamp_raw m of Some v \<Rightarrow> v | None \<Rightarrow> we_of_f64 env (sm_timestamp m)) in
      we_to_vec env (sorted_object
        ([(''payload'', sm_payload m), (''sender'', Wire.JStr (sm_sender m)), (''timestamp'', ts_val),
          (''type'', Wire.JStr (wm_type m)), (''v'', Wire.JNum (uint (wm_version m)))] @
         opt_field ''target'' (map_option Wire.JStr (wm_target m)) @
         opt_field ''source_device'' (map_option device_json (sm_source_device m)) @
         opt_field ''target_device'' (map_option device_json (wm_target_device m)))))"

definition message_sign :: "wire_env \<Rightarrow> WireMessage \<Rightarrow> WireMessage" where
  "message_sign env m = m\<lparr>sm_signature := Some (we_b64_encode env (we_sign env (canonical_bytes env m)))\<rparr>"

definition message_verify :: "wire_env \<Rightarrow> WireMessage \<Rightarrow> bool" where
  "message_verify env m =
     (if wm_target_device m \<noteq> None \<and> wm_target m = None then False
      else case sm_signature m of None \<Rightarrow> False
      | Some sig_b64 \<Rightarrow>
          (case (b64_decode_url env sig_b64, b64_decode_url env (sm_sender m)) of
             (Some sig_bytes, Some pub_bytes) \<Rightarrow> ed25519_verify (we_prims env) pub_bytes sig_bytes (canonical_bytes env m)
           | _ \<Rightarrow> False))"

definition is_fresh :: "wire_env \<Rightarrow> WireMessage \<Rightarrow> real \<Rightarrow> bool" where
  "is_fresh env m max_age_secs \<longleftrightarrow> \<bar>we_now env - sm_timestamp m\<bar> \<le> max_age_secs"

definition message_fields :: "wire_env \<Rightarrow> WireMessage \<Rightarrow> (string \<times> json) list" where
  "message_fields env m =
     [(''type'', Wire.JStr (wm_type m)), (''sender'', Wire.JStr (sm_sender m)), (''payload'', sm_payload m),
      (''timestamp'', we_of_f64 env (sm_timestamp m)), (''v'', Wire.JNum (uint (wm_version m)))] @
     opt_field ''target'' (map_option Wire.JStr (wm_target m)) @
     opt_field ''source_device'' (map_option device_json (sm_source_device m)) @
     opt_field ''target_device'' (map_option device_json (wm_target_device m)) @
     opt_field ''signature'' (map_option Wire.JStr (sm_signature m))"

definition to_json :: "wire_env \<Rightarrow> WireMessage \<Rightarrow> string" where
  "to_json env m = we_to_string env (sorted_object (message_fields env m))"

definition wire_device :: "wire_env \<Rightarrow> json option \<Rightarrow> DeviceId option option" where
  "wire_device env v = (case v of None \<Rightarrow> Some None | Some j \<Rightarrow> we_device env j)"

definition message_from_json :: "wire_env \<Rightarrow> string \<Rightarrow> WireMessage option" where
  "message_from_json env raw =
     (case we_parse env raw of
        Some (JObj obj) \<Rightarrow>
          let v = JObj obj in
          (case Option.bind (json_get v ''type'') de_type of None \<Rightarrow> None
           | Some mt \<Rightarrow>
               (case (wire_device env (json_get v ''source_device''), wire_device env (json_get v ''target_device'')) of
                  (Some source_device, Some target_device) \<Rightarrow>
                    if target_device \<noteq> None \<and> payload_str v ''target'' = None then None
                    else Some \<lparr>sm_sender = payload_or v ''sender'' [], sm_source_device = source_device,
                      sm_payload = (case json_get v ''payload'' of Some p \<Rightarrow> p | None \<Rightarrow> JObj []),
                      sm_timestamp = (case Option.bind (json_get v ''timestamp'') (we_as_f64 env) of Some t \<Rightarrow> t | None \<Rightarrow> 0),
                      sm_signature = payload_str v ''signature'', wm_type = mt, wm_target = payload_str v ''target'',
                      wm_target_device = target_device,
                      wm_version = (case Option.bind (json_get v ''v'') json_as_u64 of Some n \<Rightarrow> word_of_nat n | None \<Rightarrow> PROTOCOL_VERSION),
                      wm_timestamp_raw = json_get v ''timestamp''\<rparr>
                | _ \<Rightarrow> None))
      | _ \<Rightarrow> None)"

end
