(* ===== verification/Signaling.thy ===== *)
theory Signaling
  imports Protocol Replay_Guard
begin

section \<open>The signalling server (\<open>signaling.rs\<close>)\<close>

text \<open>
  The WebSocket server in front of the handlers: queues bounded in bytes, routes to the devices of an
  identity, authentication of frames, the life of a connection, and the signalling stream of the QUIC relay
  (\<open>handle_relay_signaling_stream\<close> of \<open>main.rs\<close>). Channels and byte counters are shared objects and live in
  a store: a \<open>PeerTx\<close> is the number of its channel, an \<open>Arc<AtomicUsize>\<close> the number of its counter. A counter
  is alive while a channel or a queued frame refers to it, which is when \<open>Weak::upgrade\<close> succeeds. What a
  connection does between two waits is one step; \<open>closed\<close> and the permit of \<open>overflow\<close> are always set
  together and are one flag. The calls to the handler are returned as a list.
\<close>

record sig_env =
  se_wire :: wire_env
  se_b64 :: b64
  se_instant :: real
  se_oversleep :: real

subsection \<open>Pacing of file frames\<close>

definition is_bulk_file_data :: "MessageType \<Rightarrow> bool" where
  "is_bulk_file_data mt \<longleftrightarrow> mt \<in> {''file_transfer_chunk'', ''file_transfer_complete'', ''sfu_file_chunk'', ''sfu_file_complete''}"

definition FILE_FRAMES_PER_SEC :: real where "FILE_FRAMES_PER_SEC = 200"
definition FILE_FRAME_BURST :: real where "FILE_FRAME_BURST = 400"

record FileFrameLimiter =
  fl_tokens :: real
  fl_last_refill :: real

definition limiter_new :: "real \<Rightarrow> FileFrameLimiter" where
  "limiter_new now = \<lparr>fl_tokens = FILE_FRAME_BURST, fl_last_refill = now\<rparr>"

definition limiter_refill :: "FileFrameLimiter \<Rightarrow> real \<Rightarrow> FileFrameLimiter" where
  "limiter_refill l now =
     (let elapsed = duration_since now (fl_last_refill l)
      in l\<lparr>fl_last_refill := now, fl_tokens := min (fl_tokens l + elapsed * FILE_FRAMES_PER_SEC) FILE_FRAME_BURST\<rparr>)"

text \<open>The instant at which the frame is admitted and the limiter; a sleep may last longer than asked for.\<close>

definition admit :: "FileFrameLimiter \<Rightarrow> real \<Rightarrow> real \<Rightarrow> real \<times> FileFrameLimiter" where
  "admit l now oversleep =
     (let l = limiter_refill l now;
          (now, l) = (if fl_tokens l < 1
             then let now = now + (1 - fl_tokens l) / FILE_FRAMES_PER_SEC + oversleep in (now, limiter_refill l now)
             else (now, l))
      in (now, l\<lparr>fl_tokens := max (fl_tokens l - 1) 0\<rparr>))"

subsection \<open>Channels bounded in bytes\<close>

definition PEER_QUEUE_MAX_BYTES :: nat where "PEER_QUEUE_MAX_BYTES = 8 * 1024 * 1024"

record QueuedFrame =
  qf_json :: string
  qf_bytes :: nat
  qf_budget :: nat

record PeerChannel =
  ch_queue :: "QueuedFrame list"
  ch_budget :: nat
  ch_closed :: bool
  ch_rx_gone :: bool

record SignalingState =
  peer_sockets :: "nat DeviceRoutes"
  peer_id_aliases :: "(string, string) hmap"
  quic_senders :: "nat DeviceRoutes"
  connected_count :: nat
  queue_budgets :: "(string, nat) hmap"
  device_routing_ready :: bool
  sg_chans :: "(nat, PeerChannel) hmap"
  sg_budgets :: "(nat, nat) hmap"
  sg_next :: nat

definition signaling_new :: "bool \<Rightarrow> SignalingState" where
  "signaling_new ready =
     \<lparr>peer_sockets = routes_default, peer_id_aliases = [], quic_senders = routes_default, connected_count = 0, queue_budgets = [],
      device_routing_ready = ready, sg_chans = [], sg_budgets = [], sg_next = 0\<rparr>"

definition budget_of :: "SignalingState \<Rightarrow> nat \<Rightarrow> nat" where
  "budget_of st b = (case hm_get (sg_budgets st) b of Some n \<Rightarrow> n | None \<Rightarrow> 0)"

definition budget_alive :: "SignalingState \<Rightarrow> nat \<Rightarrow> bool" where
  "budget_alive st b \<longleftrightarrow> list_ex (\<lambda>ch. ch_budget ch = b \<or> list_ex (\<lambda>f. qf_budget f = b) (ch_queue ch)) (hm_values (sg_chans st))"

definition peer_channel :: "SignalingState \<Rightarrow> nat \<times> SignalingState" where
  "peer_channel st =
     (let n = sg_next st in
      (n, st\<lparr>sg_chans := hm_insert n \<lparr>ch_queue = [], ch_budget = n, ch_closed = False, ch_rx_gone = False\<rparr> (sg_chans st),
             sg_budgets := hm_insert n 0 (sg_budgets st), sg_next := n + 1\<rparr>))"

definition tx_send :: "SignalingState \<Rightarrow> nat \<Rightarrow> string \<Rightarrow> bool \<times> SignalingState" where
  "tx_send st c js =
     (case hm_get (sg_chans st) c of None \<Rightarrow> (False, st)
      | Some ch \<Rightarrow>
          if ch_closed ch \<or> ch_rx_gone ch then (False, st)
          else
            let b = ch_budget ch; queued = budget_of st b in
            if queued + length js > PEER_QUEUE_MAX_BYTES
            then (False, st\<lparr>sg_chans := hm_insert c (ch\<lparr>ch_closed := True\<rparr>) (sg_chans st)\<rparr>)
            else (True, st\<lparr>sg_budgets := hm_insert b (queued + length js) (sg_budgets st),
                   sg_chans := hm_insert c (ch\<lparr>ch_queue := ch_queue ch @ [\<lparr>qf_json = js, qf_bytes = length js, qf_budget = b\<rparr>]\<rparr>) (sg_chans st)\<rparr>))"

text \<open>Dropping a frame gives its bytes back to the counter they were reserved in.\<close>

definition frame_drop :: "QueuedFrame \<Rightarrow> SignalingState \<Rightarrow> SignalingState" where
  "frame_drop f st = st\<lparr>sg_budgets := hm_insert (qf_budget f) (budget_of st (qf_budget f) - qf_bytes f) (sg_budgets st)\<rparr>"

datatype recv_result = RecvFrame string | RecvEnd | RecvPending

definition rx_recv :: "SignalingState \<Rightarrow> nat \<Rightarrow> recv_result \<times> SignalingState" where
  "rx_recv st c =
     (case hm_get (sg_chans st) c of None \<Rightarrow> (RecvEnd, st)
      | Some ch \<Rightarrow>
          if ch_closed ch then (RecvEnd, st)
          else case ch_queue ch of [] \<Rightarrow> (RecvPending, st)
          | f # fs \<Rightarrow> (RecvFrame (qf_json f), frame_drop f (st\<lparr>sg_chans := hm_insert c (ch\<lparr>ch_queue := fs\<rparr>) (sg_chans st)\<rparr>)))"

definition rx_drop :: "SignalingState \<Rightarrow> nat \<Rightarrow> SignalingState" where
  "rx_drop st c =
     (case hm_get (sg_chans st) c of None \<Rightarrow> st
      | Some ch \<Rightarrow> fold frame_drop (ch_queue ch) (st\<lparr>sg_chans := hm_insert c (ch\<lparr>ch_queue := [], ch_rx_gone := True\<rparr>) (sg_chans st)\<rparr>))"

text \<open>The last \<open>PeerTx\<close> of a channel is dropped with the connection that made it.\<close>

definition tx_drop :: "SignalingState \<Rightarrow> nat \<Rightarrow> SignalingState" where
  "tx_drop st c = (let st = rx_drop st c in st\<lparr>sg_chans := hm_remove c (sg_chans st)\<rparr>)"

definition close_channel :: "SignalingState \<Rightarrow> nat \<Rightarrow> SignalingState" where
  "close_channel st c = st\<lparr>sg_chans := hm_modify c (\<lambda>ch. ch\<lparr>ch_closed := True\<rparr>) (sg_chans st)\<rparr>"

definition bind_queue_budget :: "SignalingState \<Rightarrow> string \<Rightarrow> nat \<Rightarrow> SignalingState" where
  "bind_queue_budget st identity c =
     (let st = st\<lparr>queue_budgets := filter (\<lambda>(_, b). budget_alive st b) (queue_budgets st)\<rparr>;
          key = normalize_public_id identity;
          (b, st) = (case hm_get (queue_budgets st) key of
             Some b \<Rightarrow> (b, st)
           | None \<Rightarrow> (sg_next st, st\<lparr>sg_budgets := hm_insert (sg_next st) 0 (sg_budgets st), sg_next := sg_next st + 1\<rparr>))
      in st\<lparr>queue_budgets := hm_insert key b (queue_budgets st), sg_chans := hm_modify c (\<lambda>ch. ch\<lparr>ch_budget := b\<rparr>) (sg_chans st)\<rparr>)"

subsection \<open>Routing\<close>

definition identity_key_variants :: "string \<Rightarrow> string list" where
  "identity_key_variants identity_pub =
     (let canon = normalize_public_id identity_pub; bare = trim_end_matches (CHR ''='') identity_pub
      in [identity_pub] @ (if canon \<noteq> identity_pub then [canon] else []) @ (if bare \<noteq> identity_pub then [bare] else []))"

definition socket_for_target :: "sig_env \<Rightarrow> SignalingState \<Rightarrow> string \<Rightarrow> nat option" where
  "socket_for_target env st target =
     (case List.map_filter (routes_get (se_b64 env) (peer_sockets st)) (identity_key_variants target) of
        tx # _ \<Rightarrow> Some tx
      | [] \<Rightarrow>
          (case hm_get (peer_id_aliases st) target of None \<Rightarrow> None
           | Some canonical \<Rightarrow> routes_get (se_b64 env) (peer_sockets st) canonical))"

definition remove_peer_socket :: "sig_env \<Rightarrow> string \<Rightarrow> SignalingState \<Rightarrow> SignalingState" where
  "remove_peer_socket env key st =
     (let st = st\<lparr>peer_sockets := snd (routes_remove (se_b64 env) (peer_sockets st) key)\<rparr> in
      if \<not> routes_contains_key (se_b64 env) (peer_sockets st) key \<and> \<not> routes_contains_key (se_b64 env) (quic_senders st) key
      then st\<lparr>peer_id_aliases := hm_retain (\<lambda>_ canonical. normalize_public_id canonical \<noteq> normalize_public_id key) (peer_id_aliases st)\<rparr>
      else st)"

fun send_first :: "SignalingState \<Rightarrow> nat list \<Rightarrow> string \<Rightarrow> bool \<times> SignalingState" where
  "send_first st [] js = (False, st)"
| "send_first st (c # cs) js = (let (ok, st) = tx_send st c js in if ok then (True, st) else send_first st cs js)"

definition target_keys :: "SignalingState \<Rightarrow> string \<Rightarrow> string list" where
  "target_keys st target =
     identity_key_variants target @
     (case hm_get (peer_id_aliases st) target of None \<Rightarrow> [] | Some alias \<Rightarrow> identity_key_variants alias)"

definition send_to_endpoint :: "sig_env \<Rightarrow> SignalingState \<Rightarrow> string \<Rightarrow> DeviceId option \<Rightarrow> string \<Rightarrow> bool \<Rightarrow> bool \<times> SignalingState" where
  "send_to_endpoint env st target device js prefer_ws =
     (let keys = target_keys st target;
          paths = (if prefer_ws then [peer_sockets st, quic_senders st] else [quic_senders st, peer_sockets st])
      in send_first st (concat (map (\<lambda>routes. List.map_filter (\<lambda>key. get_endpoint (se_b64 env) routes key device) keys) paths)) js)"

fun send_all :: "sig_env \<Rightarrow> string \<Rightarrow> DeviceId option list \<Rightarrow> string \<Rightarrow> bool \<Rightarrow> SignalingState \<Rightarrow> bool \<times> SignalingState" where
  "send_all env target [] js prefer_ws st = (False, st)"
| "send_all env target (d # ds) js prefer_ws st =
     (let (ok, st) = send_to_endpoint env st target d js prefer_ws; (later, st) = send_all env target ds js prefer_ws st in (ok \<or> later, st))"

definition send_to_target :: "sig_env \<Rightarrow> SignalingState \<Rightarrow> string \<Rightarrow> DeviceId option \<Rightarrow> string \<Rightarrow> bool \<Rightarrow> bool \<times> SignalingState" where
  "send_to_target env st target device js prefer_ws =
     (let keys = target_keys st target;
          eps = (case device of Some d \<Rightarrow> [Some d]
            | None \<Rightarrow> remdups (concat (map (\<lambda>key. map fst (endpoints (se_b64 env) (peer_sockets st) key) @
                map fst (endpoints (se_b64 env) (quic_senders st) key)) keys)))
      in send_all env target eps js prefer_ws st)"

definition send_to_peer :: "sig_env \<Rightarrow> SignalingState \<Rightarrow> string \<Rightarrow> string \<Rightarrow> bool \<times> SignalingState" where
  "send_to_peer env st identity_pub js = send_to_target env st identity_pub None js False"

definition send_bootstrap_to_peer :: "sig_env \<Rightarrow> SignalingState \<Rightarrow> string \<Rightarrow> string \<Rightarrow> bool \<times> SignalingState" where
  "send_bootstrap_to_peer env st identity_pub js = send_to_target env st identity_pub None js True"

definition send_signed_reply :: "sig_env \<Rightarrow> SignalingState \<Rightarrow> WireMessage \<Rightarrow> MessageType \<Rightarrow> json \<Rightarrow> bool \<times> SignalingState" where
  "send_signed_reply env st request mt payload =
     (let w = se_wire env;
          reply = with_target (message_new w mt (we_public_id w) payload) (sm_sender request);
          reply = reply\<lparr>wm_target_device := sm_source_device request\<rparr>
      in send_to_endpoint env st (sm_sender request) (sm_source_device request) (to_json w (message_sign w reply)) False)"

definition peer_id_alias_for :: "sig_env \<Rightarrow> string \<Rightarrow> string option" where
  "peer_id_alias_for env sender =
     (case b64_decode_url (se_wire env) sender of None \<Rightarrow> None
      | Some bs \<Rightarrow> if length bs \<noteq> 32 then None else Some (sha256_hex (we_prims (se_wire env)) bs))"

definition is_peer_connected :: "sig_env \<Rightarrow> SignalingState \<Rightarrow> string \<Rightarrow> bool" where
  "is_peer_connected env st identity_pub =
     list_ex (\<lambda>key. routes_contains_key (se_b64 env) (peer_sockets st) key \<or> routes_contains_key (se_b64 env) (quic_senders st) key)
       (identity_key_variants identity_pub)"

definition ws_peer_ids :: "SignalingState \<Rightarrow> string list" where
  "ws_peer_ids st = hm_keys (peer_sockets st)"

subsection \<open>Registration on the relay's stream\<close>

definition register_quic_sender :: "sig_env \<Rightarrow> SignalingState \<Rightarrow> string \<Rightarrow> DeviceId option \<Rightarrow> nat \<Rightarrow> bool \<times> SignalingState" where
  "register_quic_sender env st identity_pub device tx =
     (if device \<noteq> None \<and> \<not> device_routing_ready st then (False, st)
      else
        let st = bind_queue_budget st identity_pub tx;
            (res, routes) = (case device of
               Some d \<Rightarrow> register_device (se_b64 env) (quic_senders st) identity_pub d tx
             | None \<Rightarrow> (let (old, r) = routes_insert (se_b64 env) (quic_senders st) identity_pub tx in (Inr old, r)));
            st = st\<lparr>quic_senders := routes\<rparr>
        in case res of Inl _ \<Rightarrow> (False, st)
           | Inr None \<Rightarrow> (True, st)
           | Inr (Some old) \<Rightarrow> (True, close_channel st old))"

definition unregister_quic_sender :: "sig_env \<Rightarrow> SignalingState \<Rightarrow> string \<Rightarrow> DeviceId option \<Rightarrow> nat \<Rightarrow> bool \<times> SignalingState" where
  "unregister_quic_sender env st identity_pub device tx =
     (let (removed, routes) = remove_endpoint_if (se_b64 env) (quic_senders st) identity_pub device (\<lambda>stored. stored = tx);
          st = st\<lparr>quic_senders := routes\<rparr>
      in (removed \<and> get_endpoint (se_b64 env) (peer_sockets st) identity_pub device = None, st))"

subsection \<open>Authentication\<close>

record SignalingServer =
  sv_state :: SignalingState
  sv_our_id :: string
  sv_guard :: replay_guard

definition server_new :: "bool \<Rightarrow> string \<Rightarrow> SignalingServer" where
  "server_new ready our_id = \<lparr>sv_state = signaling_new ready, sv_our_id = our_id, sv_guard = replay_new (Finite 300)\<rparr>"

definition MAX_MESSAGE_BYTES :: nat where "MAX_MESSAGE_BYTES = 262144"

text \<open>\<open>signature.map(|sig| replay_guard.check_and_record(..)).unwrap_or(false)\<close>\<close>

definition check_replay :: "sig_env \<Rightarrow> WireMessage \<Rightarrow> replay_guard \<Rightarrow> bool \<times> replay_guard" where
  "check_replay env m g =
     (case sm_signature m of None \<Rightarrow> (False, g) | Some sig \<Rightarrow> check_and_record_at g (sm_sender m) (as_bytes sig) (se_instant env))"

text \<open>
  How the read loop goes on. The log lines of the default level cut strings at a byte, \<open>&s[..n.min(s.len())]\<close>,
  which panics inside a character; the task then ends without its cleanup. The cuts of a sender are left out:
  a sender that verified was base64, and so is the name of a relay peer.
\<close>

datatype ws_flow = WsContinue | WsBreak | WsPanic

definition cut_panics :: "string \<Rightarrow> nat \<Rightarrow> bool" where
  "cut_panics s n \<longleftrightarrow> n < length s \<and> utf8_cont (as_bytes s ! n)"

datatype accept_result = Accepted WireMessage | Refused | AcceptPanics

definition accept_signed :: "sig_env \<Rightarrow> string \<Rightarrow> (string \<times> DeviceId option) option \<Rightarrow> SignalingServer \<Rightarrow> accept_result \<times> SignalingServer" where
  "accept_signed env raw endpoint sv =
     (if length raw > MAX_MESSAGE_BYTES then (Refused, sv)
      else case message_from_json (se_wire env) raw of None \<Rightarrow> (Refused, sv)
      | Some m \<Rightarrow>
          if \<not> message_verify (se_wire env) m \<or> \<not> is_fresh (se_wire env) m 300
          then (if cut_panics (sm_sender m) 12 then AcceptPanics else Refused, sv)
          else if (case endpoint of None \<Rightarrow> False
             | Some (identity, device) \<Rightarrow> normalize_public_id identity \<noteq> normalize_public_id (sm_sender m) \<or> device \<noteq> sm_source_device m)
          then (Refused, sv)
          else if (sm_source_device m \<noteq> None \<or> wm_target_device m \<noteq> None) \<and>
             (\<not> device_routing_ready (sv_state sv) \<or> endpoint = None \<or> sm_source_device m = None)
          then (Refused, sv)
          else
            let (fresh, g) = check_replay env m (sv_guard sv); sv = sv\<lparr>sv_guard := g\<rparr>
            in (if fresh then Accepted m else Refused, sv))"

subsection \<open>A WebSocket connection\<close>

definition RATE_MAX :: nat where "RATE_MAX = 60"
definition RATE_WINDOW_SECS :: real where "RATE_WINDOW_SECS = 10"

record WsConn =
  wc_tx :: nat
  wc_peer_id :: "string option"
  wc_device :: "DeviceId option"
  wc_rate_count :: nat
  wc_rate_window_start :: real
  wc_limiter :: FileFrameLimiter

datatype handler_call =
    OnPeerConnected string
  | OnMessage WireMessage string
  | OnEndpointDisconnected string "DeviceId option"
  | OnPeerDisconnected string

definition ws_open :: "sig_env \<Rightarrow> SignalingServer \<Rightarrow> WsConn \<times> SignalingServer" where
  "ws_open env sv =
     (let (tx, st) = peer_channel (sv_state sv) in
      (\<lparr>wc_tx = tx, wc_peer_id = None, wc_device = None, wc_rate_count = 0, wc_rate_window_start = se_instant env,
        wc_limiter = limiter_new (se_instant env)\<rparr>, sv\<lparr>sv_state := st\<rparr>))"

text \<open>The rate limiter: whether the message is dropped, and the connection.\<close>

definition ws_rate :: "sig_env \<Rightarrow> MessageType \<Rightarrow> WsConn \<Rightarrow> bool \<times> WsConn" where
  "ws_rate env mt wc =
     (if is_bulk_file_data mt then (False, wc\<lparr>wc_limiter := snd (admit (wc_limiter wc) (se_instant env) (se_oversleep env))\<rparr>)
      else if mt \<noteq> ''sfu_audio'' then
        (let wc = (if duration_since (se_instant env) (wc_rate_window_start wc) \<ge> RATE_WINDOW_SECS
                   then wc\<lparr>wc_rate_window_start := se_instant env, wc_rate_count := 0\<rparr> else wc);
             wc = wc\<lparr>wc_rate_count := wc_rate_count wc + 1\<rparr>
         in (wc_rate_count wc > RATE_MAX, wc))
      else (False, wc))"

text \<open>The checks that end the connection.\<close>

definition ws_violates :: "WireMessage \<Rightarrow> WsConn \<Rightarrow> bool \<Rightarrow> bool" where
  "ws_violates m wc ready =
     ((case wc_peer_id wc of
         Some bound \<Rightarrow> normalize_public_id bound \<noteq> normalize_public_id (sm_sender m) \<or> sm_source_device m \<noteq> wc_device wc
       | None \<Rightarrow>
           sm_source_device m \<noteq> None \<and>
           (\<not> ready \<or> wm_type m \<noteq> ''hello'' \<or> Option.bind (json_get (sm_payload m) ''device_routing'') json_as_u64 \<noteq> Some 1 \<or>
            wm_target_device m \<noteq> None)) \<or>
      (wm_target_device m \<noteq> None \<and> (sm_source_device m = None \<or> \<not> ready)))"

definition replay_exempt :: "MessageType \<Rightarrow> bool" where
  "replay_exempt mt \<longleftrightarrow> is_bulk_file_data mt \<or> mt = ''sfu_audio''"

text \<open>Registration with the first message: \<open>None\<close> when the identity has no slot left.\<close>

definition ws_register :: "sig_env \<Rightarrow> WireMessage \<Rightarrow> WsConn \<Rightarrow> SignalingState \<Rightarrow> WsConn option \<times> SignalingState" where
  "ws_register env m wc st =
     (let already_present = routes_contains_key (se_b64 env) (peer_sockets st) (sm_sender m);
          st = bind_queue_budget st (sm_sender m) (wc_tx wc);
          (res, routes) = (case sm_source_device m of
             Some d \<Rightarrow> register_device (se_b64 env) (peer_sockets st) (sm_sender m) d (wc_tx wc)
           | None \<Rightarrow> (let (old, r) = routes_insert (se_b64 env) (peer_sockets st) (sm_sender m) (wc_tx wc) in (Inr old, r)));
          st = st\<lparr>peer_sockets := routes\<rparr>
      in case res of Inl _ \<Rightarrow> (None, st)
         | Inr replaced \<Rightarrow>
             let wc = wc\<lparr>wc_peer_id := Some (sm_sender m), wc_device := sm_source_device m\<rparr>;
                 st = (case peer_id_alias_for env (sm_sender m) of
                   Some alias \<Rightarrow> st\<lparr>peer_id_aliases := hm_insert alias (sm_sender m) (peer_id_aliases st)\<rparr> | None \<Rightarrow> st);
                 st = (if already_present then st else st\<lparr>connected_count := connected_count st + 1\<rparr>);
                 st = (case replaced of Some old \<Rightarrow> close_channel st old | None \<Rightarrow> st)
             in (Some wc, st))"

text \<open>Forwarding to a target that is not this node. The flag is false when a log line panicked.\<close>

definition ws_relay :: "sig_env \<Rightarrow> string \<Rightarrow> WireMessage \<Rightarrow> string \<Rightarrow> SignalingState \<Rightarrow> bool \<times> SignalingState" where
  "ws_relay env our_id m raw st =
     (case wm_target m of None \<Rightarrow> (True, st)
      | Some target \<Rightarrow>
          if target = our_id then (True, st)
          else if device_routing_ready st then (True, snd (send_to_target env st target (wm_target_device m) raw True))
          else (\<not> cut_panics target 12,
                case socket_for_target env st target of
                  Some tx \<Rightarrow> snd (tx_send st tx raw)
                | None \<Rightarrow> st))"

text \<open>One text message.\<close>

definition ws_text ::
  "sig_env \<Rightarrow> string \<Rightarrow> WsConn \<Rightarrow> SignalingServer \<Rightarrow> handler_call list \<times> ws_flow \<times> WsConn \<times> SignalingServer" where
  "ws_text env raw wc sv =
     (if length raw > MAX_MESSAGE_BYTES then ([], WsContinue, wc, sv)
      else case message_from_json (se_wire env) raw of None \<Rightarrow> ([], WsContinue, wc, sv)
      | Some m \<Rightarrow>
          let (limited, wc) = ws_rate env (wm_type m) wc in
          if limited then ([], WsContinue, wc, sv)
          else if \<not> message_verify (se_wire env) m \<or> \<not> is_fresh (se_wire env) m 300
          then ([], if cut_panics raw 500 then WsPanic else WsContinue, wc, sv)
          else if ws_violates m wc (device_routing_ready (sv_state sv)) then ([], WsBreak, wc, sv)
          else
            let (fresh, g) = (if replay_exempt (wm_type m) then (True, sv_guard sv) else check_replay env m (sv_guard sv));
                sv = sv\<lparr>sv_guard := g\<rparr>
            in if \<not> fresh then ([], WsContinue, wc, sv)
               else
                 case (if wc_peer_id wc = None then ws_register env m wc (sv_state sv) else (Some wc, sv_state sv)) of
                   (None, st) \<Rightarrow> ([], WsBreak, wc, sv\<lparr>sv_state := st\<rparr>)
                 | (Some wc', st) \<Rightarrow>
                     (let (logged, st) = ws_relay env (sv_our_id sv) m raw st
                      in ((if wc_peer_id wc = None then [OnPeerConnected (sm_sender m)] else []) @ (if logged then [OnMessage m raw] else []),
                          if logged then WsContinue else WsPanic, wc', sv\<lparr>sv_state := st\<rparr>)))"

definition ws_cleanup :: "sig_env \<Rightarrow> WsConn \<Rightarrow> SignalingServer \<Rightarrow> handler_call list \<times> SignalingServer" where
  "ws_cleanup env wc sv =
     (let (calls, sv) =
        (case wc_peer_id wc of None \<Rightarrow> ([], sv)
         | Some pid \<Rightarrow>
             let e = se_b64 env; st = sv_state sv;
                 (removed, routes) = remove_endpoint_if e (peer_sockets st) pid (wc_device wc) (\<lambda>stored. stored = wc_tx wc);
                 st = st\<lparr>peer_sockets := routes\<rparr>;
                 endpoint_gone = (removed \<and> get_endpoint e (quic_senders st) pid (wc_device wc) = None);
                 identity_gone = (removed \<and> \<not> routes_contains_key e (peer_sockets st) pid \<and> \<not> routes_contains_key e (quic_senders st) pid);
                 st = (if removed \<and> \<not> routes_contains_key e (peer_sockets st) pid
                       then (remove_peer_socket env pid st)\<lparr>connected_count := connected_count st - 1\<rparr> else st)
             in ((if endpoint_gone then [OnEndpointDisconnected pid (wc_device wc)] else []) @
                 (if identity_gone then [OnPeerDisconnected pid] else []),
                 sv\<lparr>sv_state := st, sv_guard := (if identity_gone then forget_peer (sv_guard sv) pid else sv_guard sv)\<rparr>))
      in (calls, sv\<lparr>sv_state := tx_drop (sv_state sv) (wc_tx wc)\<rparr>))"

text \<open>The end of the task: what follows the read loop, unless the loop panicked.\<close>

definition ws_finish :: "sig_env \<Rightarrow> ws_flow \<Rightarrow> WsConn \<Rightarrow> SignalingServer \<Rightarrow> handler_call list \<times> SignalingServer" where
  "ws_finish env flow wc sv = (if flow = WsPanic then ([], sv) else ws_cleanup env wc sv)"

subsection \<open>The signalling stream of the relay\<close>

definition relay_stream_types :: "MessageType list" where
  "relay_stream_types = [''sfu_chat'', ''sfu_file_offer'', ''sfu_file_request'', ''sfu_file_revoke'', ''sfu_file_chunk'', ''sfu_file_complete'',
     ''sfu_video_subscribe'']"

definition relay_stream_open :: "sig_env \<Rightarrow> string \<Rightarrow> DeviceId option \<Rightarrow> SignalingServer \<Rightarrow> nat option \<times> SignalingServer" where
  "relay_stream_open env peer_id device sv =
     (let (tx, st) = peer_channel (sv_state sv);
          (ok, st) = register_quic_sender env st peer_id device tx
      in if ok then (Some tx, sv\<lparr>sv_state := st\<rparr>) else (None, sv\<lparr>sv_state := tx_drop st tx\<rparr>))"

definition relay_stream_frame ::
  "sig_env \<Rightarrow> string \<Rightarrow> DeviceId option \<Rightarrow> bytes \<Rightarrow> FileFrameLimiter \<Rightarrow> SignalingServer \<Rightarrow>
     handler_call list \<times> ws_flow \<times> FileFrameLimiter \<times> SignalingServer" where
  "relay_stream_frame env peer_id device buf pace sv =
     (case from_utf8 buf of None \<Rightarrow> ([], WsContinue, pace, sv)
      | Some raw \<Rightarrow>
          (case accept_signed env raw (Some (peer_id, device)) sv of
             (Refused, sv) \<Rightarrow> ([], WsContinue, pace, sv)
           | (AcceptPanics, sv) \<Rightarrow> ([], WsPanic, pace, sv)
           | (Accepted m, sv) \<Rightarrow>
               if sm_sender m \<noteq> peer_id then ([], WsContinue, pace, sv)
               else
                 let pace = (if is_bulk_file_data (wm_type m) then snd (admit pace (se_instant env) (se_oversleep env)) else pace)
                 in (if wm_type m \<in> set relay_stream_types then [OnMessage m raw] else [], WsContinue, pace, sv)))"

definition relay_stream_close :: "sig_env \<Rightarrow> string \<Rightarrow> DeviceId option \<Rightarrow> nat \<Rightarrow> SignalingServer \<Rightarrow> handler_call list \<times> SignalingServer" where
  "relay_stream_close env peer_id device tx sv =
     (let (gone, st) = unregister_quic_sender env (sv_state sv) peer_id device tx
      in ((if gone then [OnEndpointDisconnected peer_id device] @ (if is_peer_connected env st peer_id then [] else [OnPeerDisconnected peer_id]) else []),
          sv\<lparr>sv_state := tx_drop st tx\<rparr>))"

subsection \<open>The outcomes of a text message\<close>

text \<open>What a message went through when it gets past the checks of \<open>ws_text\<close>.\<close>

definition ws_passes :: "sig_env \<Rightarrow> string \<Rightarrow> WireMessage \<Rightarrow> WsConn \<Rightarrow> WsConn \<Rightarrow> SignalingServer \<Rightarrow> bool" where
  "ws_passes env raw m wc wc1 sv \<longleftrightarrow>
     length raw \<le> MAX_MESSAGE_BYTES \<and> message_from_json (se_wire env) raw = Some m \<and> ws_rate env (wm_type m) wc = (False, wc1) \<and>
     message_verify (se_wire env) m \<and> is_fresh (se_wire env) m 300 \<and> \<not> ws_violates m wc1 (device_routing_ready (sv_state sv)) \<and>
     (replay_exempt (wm_type m) \<or> fst (check_replay env m (sv_guard sv)))"

lemma ws_rate_frame [simp]:
  "wc_peer_id (snd (ws_rate env mt wc)) = wc_peer_id wc" "wc_device (snd (ws_rate env mt wc)) = wc_device wc" "wc_tx (snd (ws_rate env mt wc)) = wc_tx wc"
  by (simp_all add: ws_rate_def Let_def)

lemma ws_text_passes:
  assumes "ws_passes env raw m wc wc1 sv"
  shows "ws_text env raw wc sv =
    (let sv1 = sv\<lparr>sv_guard := (if replay_exempt (wm_type m) then sv_guard sv else snd (check_replay env m (sv_guard sv)))\<rparr> in
     case (if wc_peer_id wc1 = None then ws_register env m wc1 (sv_state sv) else (Some wc1, sv_state sv)) of
       (None, st) \<Rightarrow> ([], WsBreak, wc1, sv1\<lparr>sv_state := st\<rparr>)
     | (Some wc', st) \<Rightarrow>
         (let (logged, st) = ws_relay env (sv_our_id sv) m raw st
          in ((if wc_peer_id wc1 = None then [OnPeerConnected (sm_sender m)] else []) @ (if logged then [OnMessage m raw] else []),
              if logged then WsContinue else WsPanic, wc', sv1\<lparr>sv_state := st\<rparr>)))"
proof -
  obtain f g where "check_replay env m (sv_guard sv) = (f, g)" by fastforce
  then show ?thesis using assms by (cases "replay_exempt (wm_type m)") (auto simp: ws_text_def ws_passes_def Let_def split: prod.splits option.splits)
qed

lemma ws_text_stops:
  assumes "\<nexists>m wc1. ws_passes env raw m wc wc1 sv"
  shows "\<exists>go g wc'. ws_text env raw wc sv = ([], go, wc', sv\<lparr>sv_guard := g\<rparr>) \<and> wc_peer_id wc' = wc_peer_id wc \<and> wc_device wc' = wc_device wc"
proof (cases "length raw \<le> MAX_MESSAGE_BYTES \<and> message_from_json (se_wire env) raw \<noteq> None")
  case False
  then have "ws_text env raw wc sv = ([], WsContinue, wc, sv\<lparr>sv_guard := sv_guard sv\<rparr>)" by (auto simp: ws_text_def)
  then show ?thesis by blast
next
  case True
  then obtain m where m: "message_from_json (se_wire env) raw = Some m" by auto
  obtain limited wc1 where r: "ws_rate env (wm_type m) wc = (limited, wc1)" by fastforce
  have wc1: "wc_peer_id wc1 = wc_peer_id wc" "wc_device wc1 = wc_device wc"
    using ws_rate_frame [of env "wm_type m" wc] r by simp_all
  obtain f g where c: "check_replay env m (sv_guard sv) = (f, g)" by fastforce
  have "\<exists>go g. ws_text env raw wc sv = ([], go, wc1, sv\<lparr>sv_guard := g\<rparr>)"
  proof (cases "limited \<or> \<not> message_verify (se_wire env) m \<or> \<not> is_fresh (se_wire env) m 300 \<or> ws_violates m wc1 (device_routing_ready (sv_state sv))")
    case True': True
    have "ws_text env raw wc sv =
      ([], if limited then WsContinue
           else if \<not> message_verify (se_wire env) m \<or> \<not> is_fresh (se_wire env) m 300 then if cut_panics raw 500 then WsPanic else WsContinue
           else WsBreak, wc1, sv\<lparr>sv_guard := sv_guard sv\<rparr>)"
      using True True' m r by (auto simp: ws_text_def)
    then show ?thesis by blast
  next
    case False
    then have "\<not> replay_exempt (wm_type m)" "\<not> f" using assms True m r c by (auto simp: ws_passes_def)
    then have "ws_text env raw wc sv = ([], WsContinue, wc1, sv\<lparr>sv_guard := g\<rparr>)" using True False m r c by (simp add: ws_text_def)
    then show ?thesis by blast
  qed
  then show ?thesis using wc1 by blast
qed

end
