(* ===== verification/Signaling_Queues.thy ===== *)
theory Signaling_Queues
  imports Signaling
begin

section \<open>Queues and pacing of the signalling server\<close>

text \<open>
  The byte counters are exact in every reachable state and bounded, whatever is sent, received, registered and
  dropped; file frames are paced by short waits; control messages are limited per connection.
\<close>

subsection \<open>Counting queued bytes\<close>

definition frame_bytes :: "nat \<Rightarrow> QueuedFrame list \<Rightarrow> nat" where
  "frame_bytes b fs = sum_list (map qf_bytes (filter (\<lambda>f. qf_budget f = b) fs))"

definition queued_bytes :: "(nat, PeerChannel) hmap \<Rightarrow> nat \<Rightarrow> nat" where
  "queued_bytes m b = sum_list (map (\<lambda>p. frame_bytes b (ch_queue (snd p))) m)"

definition counter :: "(nat, nat) hmap \<Rightarrow> nat \<Rightarrow> nat" where
  "counter bs b = (case hm_get bs b of Some n \<Rightarrow> n | None \<Rightarrow> 0)"

definition queues_ok :: "SignalingState \<Rightarrow> bool" where
  "queues_ok st \<longleftrightarrow> hm_wf (sg_chans st) \<and>
     (\<forall>b. counter (sg_budgets st) b = queued_bytes (sg_chans st) b \<and> queued_bytes (sg_chans st) b \<le> PEER_QUEUE_MAX_BYTES) \<and>
     (\<forall>c ch. hm_get (sg_chans st) c = Some ch \<longrightarrow> c < sg_next st \<and> ch_budget ch < sg_next st) \<and>
     (\<forall>i b. (i, b) \<in> set (queue_budgets st) \<longrightarrow> b < sg_next st) \<and> (\<forall>b \<ge> sg_next st. queued_bytes (sg_chans st) b = 0)"

lemma budget_of_counter: "budget_of st b = counter (sg_budgets st) b"
  by (simp add: budget_of_def counter_def)

lemma frame_bytes_simps [simp]:
  "frame_bytes b [] = 0" "frame_bytes b (f # fs) = (if qf_budget f = b then qf_bytes f else 0) + frame_bytes b fs"
  "frame_bytes b (fs @ gs) = frame_bytes b fs + frame_bytes b gs"
  by (simp_all add: frame_bytes_def)

lemma queued_Nil [simp]: "queued_bytes [] b = 0"
  by (simp add: queued_bytes_def)

lemma queued_insert:
  "hm_wf m \<Longrightarrow> hm_get m c = Some ch \<Longrightarrow>
   queued_bytes (hm_insert c ch' m) b + frame_bytes b (ch_queue ch) = queued_bytes m b + frame_bytes b (ch_queue ch')"
  unfolding queued_bytes_def by (induction m) (auto simp: hm_get_Cons hm_wf_def split: if_splits)

lemma queued_new: "hm_get m c = None \<Longrightarrow> ch_queue ch = [] \<Longrightarrow> queued_bytes (hm_insert c ch m) b = queued_bytes m b"
  by (simp add: queued_bytes_def hm_get_None_iff sum_hm_insert_new)

lemma queued_member: "hm_get m c = Some ch \<Longrightarrow> frame_bytes b (ch_queue ch) \<le> queued_bytes m b"
  unfolding queued_bytes_def by (force intro!: member_le_sum_list dest: hm_get_SomeD)

lemma queued_modify:
  "(\<And>ch. ch_queue (f ch) = ch_queue ch) \<Longrightarrow> queued_bytes (hm_modify c f m) b = queued_bytes m b"
  unfolding queued_bytes_def by (induction m) (auto simp: hm_modify_def)

lemma queued_remove: "hm_wf m \<Longrightarrow> hm_get m c = Some ch \<Longrightarrow> ch_queue ch = [] \<Longrightarrow> queued_bytes (hm_remove c m) b = queued_bytes m b"
proof (induction m)
  case (Cons p m)
  then show ?case by (cases p) (auto simp: queued_bytes_def hm_get_Cons hm_remove_Cons hm_wf_def hm_remove_absent split: if_splits)
qed simp

lemma counter_insert: "counter (hm_insert b n bs) x = (if x = b then n else counter bs x)"
  by (simp add: counter_def coll_simps)

lemma queues_ok_new: "queues_ok (signaling_new ready)"
  by (simp add: queues_ok_def signaling_new_def counter_def)

lemma peer_channel_ok:
  assumes ok: "queues_ok st"
  shows "queues_ok (snd (peer_channel st))"
proof -
  have "hm_get (sg_chans st) (sg_next st) = None"
    using ok by (cases "hm_get (sg_chans st) (sg_next st)") (auto simp: queues_ok_def)
  then show ?thesis
    using ok by (auto simp: queues_ok_def peer_channel_def Let_def coll_simps queued_new counter_insert less_Suc_eq intro: wf_intros split: if_splits)
qed

lemma tx_send_ok:
  assumes ok: "queues_ok st"
  shows "queues_ok (snd (tx_send st c js))"
proof (cases "hm_get (sg_chans st) c")
  case None
  then show ?thesis using ok by (simp add: tx_send_def)
next
  case (Some ch)
  have wf: "hm_wf (sg_chans st)" using ok by (simp add: queues_ok_def)
  have same: "queued_bytes (hm_insert c (ch\<lparr>ch_closed := True\<rparr>) (sg_chans st)) b = queued_bytes (sg_chans st) b" for b
    using queued_insert [OF wf Some, of "ch\<lparr>ch_closed := True\<rparr>" b] by simp
  let ?f = "\<lparr>qf_json = js, qf_bytes = length js, qf_budget = ch_budget ch\<rparr>"
  have more: "queued_bytes (hm_insert c (ch\<lparr>ch_queue := ch_queue ch @ [?f]\<rparr>) (sg_chans st)) b =
      queued_bytes (sg_chans st) b + (if b = ch_budget ch then length js else 0)" for b
    using queued_insert [OF wf Some, of "ch\<lparr>ch_queue := ch_queue ch @ [?f]\<rparr>" b] by auto
  have lt: "\<not> sg_next st \<le> ch_budget ch" using ok Some unfolding queues_ok_def by (metis not_le)
  show ?thesis using ok Some
    by (auto simp: lt tx_send_def Let_def queues_ok_def same more budget_of_counter counter_insert coll_simps intro: wf_intros split: if_splits)
qed

lemma rx_recv_ok:
  assumes ok: "queues_ok st"
  shows "queues_ok (snd (rx_recv st c))"
proof (cases "hm_get (sg_chans st) c")
  case None
  then show ?thesis using ok by (simp add: rx_recv_def)
next
  case (Some ch)
  have wf: "hm_wf (sg_chans st)" using ok by (simp add: queues_ok_def)
  have less: "queued_bytes (hm_insert c (ch\<lparr>ch_queue := fs\<rparr>) (sg_chans st)) b =
      queued_bytes (sg_chans st) b - (if b = qf_budget f then qf_bytes f else 0)" if "ch_queue ch = f # fs" for b f fs
    using queued_insert [OF wf Some, of "ch\<lparr>ch_queue := fs\<rparr>" b] that by (auto split: if_splits)
  show ?thesis
  proof (cases "ch_queue ch")
    case Nil
    then show ?thesis using ok Some by (simp add: rx_recv_def)
  next
    case (Cons f fs)
    show ?thesis using ok Some Cons
      by (auto simp: rx_recv_def frame_drop_def queues_ok_def less [OF Cons] budget_of_counter counter_insert coll_simps le_diff_conv
          intro: wf_intros trans_le_add1 split: if_splits)
  qed
qed

lemma frame_drop_fields [simp]:
  "sg_chans (fold frame_drop fs st) = sg_chans st" "queue_budgets (fold frame_drop fs st) = queue_budgets st"
  "sg_next (fold frame_drop fs st) = sg_next st"
  by (induction fs arbitrary: st) (simp_all add: frame_drop_def)

lemma frame_drop_counter: "counter (sg_budgets (fold frame_drop fs st)) b = counter (sg_budgets st) b - frame_bytes b fs"
  by (induction fs arbitrary: st) (simp_all add: frame_drop_def counter_insert budget_of_counter)

lemma rx_drop_ok:
  assumes ok: "queues_ok st"
  shows "queues_ok (rx_drop st c)"
proof (cases "hm_get (sg_chans st) c")
  case None
  then show ?thesis using ok by (simp add: rx_drop_def)
next
  case (Some ch)
  have wf: "hm_wf (sg_chans st)" using ok by (simp add: queues_ok_def)
  have less: "queued_bytes (hm_insert c (ch\<lparr>ch_queue := [], ch_rx_gone := True\<rparr>) (sg_chans st)) b =
      queued_bytes (sg_chans st) b - frame_bytes b (ch_queue ch)" for b
    using queued_insert [OF wf Some, of "ch\<lparr>ch_queue := [], ch_rx_gone := True\<rparr>" b] by simp
  have "queued_bytes (sg_chans st) b - n \<le> PEER_QUEUE_MAX_BYTES" for b n
    using ok by (meson diff_le_self le_trans queues_ok_def)
  then show ?thesis using ok Some
    by (auto simp: rx_drop_def queues_ok_def less frame_drop_counter coll_simps intro: wf_intros split: if_splits)
qed

lemma rx_drop_empty: "hm_get (sg_chans (rx_drop st c)) c = Some ch \<Longrightarrow> ch_queue ch = []"
  by (auto simp: rx_drop_def coll_simps split: option.splits)

lemma tx_drop_ok:
  assumes ok: "queues_ok st"
  shows "queues_ok (tx_drop st c)"
proof -
  define s where "s = rx_drop st c"
  have ok': "queues_ok s" unfolding s_def by (rule rx_drop_ok [OF ok])
  have q: "queued_bytes (hm_remove c (sg_chans s)) b = queued_bytes (sg_chans s) b" for b
  proof (cases "hm_get (sg_chans s) c")
    case None
    then show ?thesis by (simp add: hm_get_None_iff hm_remove_absent)
  next
    case (Some ch)
    moreover have "hm_wf (sg_chans s)" using ok' by (simp add: queues_ok_def)
    ultimately show ?thesis using rx_drop_empty by (simp add: queued_remove s_def)
  qed
  have "tx_drop st c = s\<lparr>sg_chans := hm_remove c (sg_chans s)\<rparr>" by (simp add: tx_drop_def s_def Let_def)
  then show ?thesis using ok' by (auto simp: queues_ok_def q coll_simps intro: wf_intros split: if_splits)
qed

lemma close_channel_ok: "queues_ok st \<Longrightarrow> queues_ok (close_channel st c)"
  by (auto simp: close_channel_def queues_ok_def queued_modify coll_simps intro: wf_intros split: if_splits)

lemma bind_queue_budget_ok:
  assumes ok: "queues_ok st"
  shows "queues_ok (bind_queue_budget st i c)"
proof -
  define qb where "qb = filter (\<lambda>(_, b). budget_alive st b) (queue_budgets st)"
  have qb: "b < sg_next st" if "(k, b) \<in> set qb" for k b using ok that by (auto simp: queues_ok_def qb_def)
  show ?thesis
  proof (cases "hm_get qb (normalize_public_id i)")
    case None
    then have "bind_queue_budget st i c = st\<lparr>queue_budgets := hm_insert (normalize_public_id i) (sg_next st) qb,
        sg_chans := hm_modify c (\<lambda>ch. ch\<lparr>ch_budget := sg_next st\<rparr>) (sg_chans st), sg_budgets := hm_insert (sg_next st) 0 (sg_budgets st),
        sg_next := sg_next st + 1\<rparr>"
      by (simp add: bind_queue_budget_def Let_def qb_def)
    then show ?thesis using ok qb
      by (auto simp: queues_ok_def queued_modify counter_insert coll_simps less_Suc_eq intro: wf_intros split: if_splits dest!: subsetD [OF set_hm_insert])
  next
    case (Some b)
    then have "bind_queue_budget st i c = st\<lparr>queue_budgets := hm_insert (normalize_public_id i) b qb,
        sg_chans := hm_modify c (\<lambda>ch. ch\<lparr>ch_budget := b\<rparr>) (sg_chans st)\<rparr>"
      by (simp add: bind_queue_budget_def Let_def qb_def)
    moreover have "b < sg_next st" using Some qb by (auto dest: hm_get_SomeD)
    ultimately show ?thesis using ok qb
      by (auto simp: queues_ok_def queued_modify coll_simps intro: wf_intros split: if_splits dest!: subsetD [OF set_hm_insert])
  qed
qed

lemma queues_ok_routes [simp]:
  "queues_ok (peer_sockets_update f st) = queues_ok st" "queues_ok (quic_senders_update f st) = queues_ok st"
  "queues_ok (peer_id_aliases_update g st) = queues_ok st" "queues_ok (connected_count_update h st) = queues_ok st"
  by (simp_all add: queues_ok_def)

lemma send_first_ok: "queues_ok st \<Longrightarrow> queues_ok (snd (send_first st cs js))"
  by (induction cs arbitrary: st) (simp_all add: case_prod_beta tx_send_ok)

lemma send_to_endpoint_ok: "queues_ok st \<Longrightarrow> queues_ok (snd (send_to_endpoint env st t d js w))"
  by (simp add: send_to_endpoint_def Let_def send_first_ok)

lemma send_all_ok: "queues_ok st \<Longrightarrow> queues_ok (snd (send_all env t ds js w st))"
  by (induction ds arbitrary: st) (simp_all add: case_prod_beta send_to_endpoint_ok)

lemma send_to_target_ok: "queues_ok st \<Longrightarrow> queues_ok (snd (send_to_target env st t d js w))"
  by (simp add: send_to_target_def Let_def send_all_ok)

subsection \<open>The operations of the server\<close>

text \<open>
  Everything that touches the queues: connections opening, receiving a message and ending, the streams of the
  relay, sends of the node itself, and writers that take a frame or go away. A connection is given with the
  operation, so that a run below may interleave any number of them.
\<close>

datatype server_op =
    WsOpen
  | WsText string WsConn
  | WsCleanup WsConn
  | StreamOpen string "DeviceId option"
  | StreamFrame string "DeviceId option" bytes FileFrameLimiter
  | StreamClose string "DeviceId option" nat
  | SendTarget string "DeviceId option" string bool
  | SendEndpoint string "DeviceId option" string bool
  | SendReply WireMessage MessageType json
  | WriterTakes nat
  | WriterGone nat

fun server_step :: "SignalingServer \<Rightarrow> sig_env \<times> server_op \<Rightarrow> SignalingServer" where
  "server_step sv (env, WsOpen) = snd (ws_open env sv)"
| "server_step sv (env, WsText raw wc) = snd (snd (snd (ws_text env raw wc sv)))"
| "server_step sv (env, WsCleanup wc) = snd (ws_cleanup env wc sv)"
| "server_step sv (env, StreamOpen peer d) = snd (relay_stream_open env peer d sv)"
| "server_step sv (env, StreamFrame peer d buf pace) = snd (snd (snd (relay_stream_frame env peer d buf pace sv)))"
| "server_step sv (env, StreamClose peer d tx) = snd (relay_stream_close env peer d tx sv)"
| "server_step sv (env, SendTarget t d js w) = sv\<lparr>sv_state := snd (send_to_target env (sv_state sv) t d js w)\<rparr>"
| "server_step sv (env, SendEndpoint t d js w) = sv\<lparr>sv_state := snd (send_to_endpoint env (sv_state sv) t d js w)\<rparr>"
| "server_step sv (env, SendReply req mt p) = sv\<lparr>sv_state := snd (send_signed_reply env (sv_state sv) req mt p)\<rparr>"
| "server_step sv (env, WriterTakes c) = sv\<lparr>sv_state := snd (rx_recv (sv_state sv) c)\<rparr>"
| "server_step sv (env, WriterGone c) = sv\<lparr>sv_state := rx_drop (sv_state sv) c\<rparr>"

lemmas queue_oks = peer_channel_ok tx_send_ok rx_recv_ok rx_drop_ok tx_drop_ok close_channel_ok bind_queue_budget_ok
  send_first_ok send_to_endpoint_ok send_to_target_ok

lemma accept_signed_state [simp]: "sv_state (snd (accept_signed env raw ep sv)) = sv_state sv"
  by (simp add: accept_signed_def Let_def case_prod_beta split: option.splits)

lemma accept_signed_stateD: "accept_signed env raw ep sv = (r, sv') \<Longrightarrow> sv_state sv' = sv_state sv"
  using accept_signed_state [of env raw ep sv] by simp

lemma ws_register_ok: "queues_ok st \<Longrightarrow> queues_ok (snd (ws_register env m wc st))"
  by (auto simp: ws_register_def Let_def case_prod_beta queue_oks split: sum.splits option.splits)

lemma ws_relay_ok: "queues_ok st \<Longrightarrow> queues_ok (snd (ws_relay env our m raw st))"
  by (auto simp: ws_relay_def queue_oks split: option.splits)

lemma ws_text_ok:
  assumes ok: "queues_ok (sv_state sv)"
  shows "queues_ok (sv_state (snd (snd (snd (ws_text env raw wc sv)))))"
proof (cases "\<exists>m wc1. ws_passes env raw m wc wc1 sv")
  case False
  then show ?thesis using ws_text_stops [of env raw wc sv] ok by auto
next
  case True
  then obtain m wc1 where p: "ws_passes env raw m wc wc1 sv" by blast
  have "queues_ok (snd (if wc_peer_id wc1 = None then ws_register env m wc1 (sv_state sv) else (Some wc1, sv_state sv)))"
    using ok by (simp add: ws_register_ok)
  then show ?thesis unfolding ws_text_passes [OF p] by (auto simp: Let_def case_prod_beta ws_relay_ok split: option.splits)
qed

lemma ws_cleanup_ok: "queues_ok (sv_state sv) \<Longrightarrow> queues_ok (sv_state (snd (ws_cleanup env wc sv)))"
  by (auto simp: ws_cleanup_def remove_peer_socket_def Let_def case_prod_beta queue_oks split: option.splits)

lemma stream_ok:
  "queues_ok (sv_state sv) \<Longrightarrow> queues_ok (sv_state (snd (relay_stream_open env peer d sv)))"
  "queues_ok (sv_state sv) \<Longrightarrow> queues_ok (sv_state (snd (snd (snd (relay_stream_frame env peer d buf pace sv)))))"
  "queues_ok (sv_state sv) \<Longrightarrow> queues_ok (sv_state (snd (relay_stream_close env peer d tx sv)))"
proof -
  have "queues_ok st \<Longrightarrow> queues_ok (snd (register_quic_sender env st peer d tx))" for st tx
    by (auto simp: register_quic_sender_def Let_def case_prod_beta queue_oks split: sum.splits option.splits)
  then show "queues_ok (sv_state sv) \<Longrightarrow> queues_ok (sv_state (snd (relay_stream_open env peer d sv)))"
    by (simp add: relay_stream_open_def Let_def case_prod_beta queue_oks)
  show "queues_ok (sv_state sv) \<Longrightarrow> queues_ok (sv_state (snd (snd (snd (relay_stream_frame env peer d buf pace sv)))))"
    by (auto simp: relay_stream_frame_def Let_def dest: accept_signed_stateD split: option.splits prod.splits accept_result.splits)
  show "queues_ok (sv_state sv) \<Longrightarrow> queues_ok (sv_state (snd (relay_stream_close env peer d tx sv)))"
    by (simp add: relay_stream_close_def unregister_quic_sender_def Let_def case_prod_beta queue_oks)
qed

interpretation queues: invariant_system "server_new ready our" server_step "\<lambda>sv. queues_ok (sv_state sv)" for ready our
proof
  show "queues_ok (sv_state (server_new ready our))" by (simp add: server_new_def queues_ok_new)
  fix sv :: SignalingServer and e :: "sig_env \<times> server_op"
  assume ok: "queues_ok (sv_state sv)"
  obtain env oper where e: "e = (env, oper)" by fastforce
  show "queues_ok (sv_state (server_step sv e))"
    using ok unfolding e by (cases oper)
      (simp_all add: ws_open_def case_prod_beta queue_oks ws_text_ok ws_cleanup_ok stream_ok send_signed_reply_def Let_def)
qed

text \<open>
  C8: the bytes waiting for one identity are counted exactly and never exceed eight megabytes. After any
  sequence of operations of the server, whatever is registered, replaced, sent, taken by a writer or dropped
  with it, every shared counter equals the bytes of the frames queued under it and is at most
  \<open>PEER_QUEUE_MAX_BYTES\<close>; so no reservation leaks and none is given back twice.
\<close>

theorem queued_bytes_exact:
  "let st = sv_state (foldl server_step (server_new ready our) ops) in
   budget_of st b = queued_bytes (sg_chans st) b \<and> queued_bytes (sg_chans st) b \<le> PEER_QUEUE_MAX_BYTES"
  using queues.inv_reachable [of ready our ops] by (simp add: queues_ok_def budget_of_counter Let_def)

subsection \<open>Pacing\<close>

lemma admit_spec:
  assumes "0 \<le> fl_tokens l" "fl_last_refill l \<le> now" "0 \<le> extra" "admit l now extra = (t, l')"
  shows "now \<le> t \<and> t \<le> now + 1 / 200 + extra \<and> fl_last_refill l' = t \<and> 0 \<le> fl_tokens l' \<and>
    fl_tokens l' + 1 \<le> fl_tokens l + 200 * (t - fl_last_refill l)"
proof -
  define l1 where "l1 = limiter_refill l now"
  define tok where "tok = min (fl_tokens l + (now - fl_last_refill l) * 200) 400"
  have tok: "0 \<le> tok" "tok \<le> fl_tokens l + (now - fl_last_refill l) * 200" using assms(1, 2) by (auto simp: tok_def)
  have refill: "fl_tokens l1 = tok" "fl_last_refill l1 = now"
    using assms(2) by (simp_all add: l1_def limiter_refill_def duration_since_def FILE_FRAMES_PER_SEC_def FILE_FRAME_BURST_def tok_def)
  show ?thesis
  proof (cases "tok < 1")
    case False
    then have "(t, l') = (now, l1\<lparr>fl_tokens := max (tok - 1) 0\<rparr>)"
      using assms(4) by (simp add: admit_def refill Let_def flip: l1_def)
    then have "t = now" "fl_last_refill l' = now" "fl_tokens l' = tok - 1" using False refill by simp_all
    then show ?thesis using False tok assms(3) by simp
  next
    case True
    define w where "w = (1 - tok) / 200 + extra"
    define l2 where "l2 = limiter_refill l1 (now + w)"
    have w: "0 \<le> w" "1 \<le> tok + w * 200" "w \<le> 1 / 200 + extra" using True tok assms(3) by (simp_all add: w_def field_simps)
    have l2: "fl_last_refill l2 = now + w" "fl_tokens l2 = min (tok + w * 200) 400"
      using w(1) by (simp_all add: l2_def limiter_refill_def refill duration_since_def FILE_FRAMES_PER_SEC_def FILE_FRAME_BURST_def)
    have "(t, l') = (now + w, l2\<lparr>fl_tokens := max (fl_tokens l2 - 1) 0\<rparr>)"
      using assms(4) True by (auto simp: admit_def refill Let_def l2_def w_def FILE_FRAMES_PER_SEC_def add.assoc simp flip: l1_def)
    then have "t = now + w" "fl_last_refill l' = now + w" "fl_tokens l' = min (tok + w * 200) 400 - 1" using l2 w by simp_all
    then show ?thesis using tok w by simp
  qed
qed

text \<open>
  A stream of file frames: each arrives some time after the one before was admitted, and its sleep, if
  there is one, may last longer than asked for. The result are the waits and the limiter.
\<close>

fun pace_run :: "FileFrameLimiter \<Rightarrow> (real \<times> real) list \<Rightarrow> real list \<times> FileFrameLimiter" where
  "pace_run l [] = ([], l)"
| "pace_run l ((gap, extra) # xs) =
     (let now = fl_last_refill l + gap; (t, l) = admit l now extra; (waits, l) = pace_run l xs in ((t - now - extra) # waits, l))"

lemma pace_run_bound:
  assumes "0 \<le> fl_tokens l" "list_all (\<lambda>(gap, extra). 0 \<le> gap \<and> 0 \<le> extra) xs" "pace_run l xs = (waits, l')"
  shows "list_all (\<lambda>w. w \<le> 1 / 200) waits \<and> length waits = length xs \<and> 0 \<le> fl_tokens l' \<and>
    real (length xs) + fl_tokens l' \<le> fl_tokens l + 200 * (fl_last_refill l' - fl_last_refill l)"
  using assms
proof (induction xs arbitrary: l waits l')
  case (Cons x xs)
  obtain gap extra where x: "x = (gap, extra)" by fastforce
  obtain t l1 where a: "admit l (fl_last_refill l + gap) extra = (t, l1)" by fastforce
  obtain ws where r: "pace_run l1 xs = (ws, l')" and waits: "waits = (t - (fl_last_refill l + gap) - extra) # ws"
    using Cons.prems(3) x a by (cases "pace_run l1 xs") simp
  have nn: "0 \<le> gap" "0 \<le> extra" and tl: "list_all (\<lambda>(gap, extra). 0 \<le> gap \<and> 0 \<le> extra) xs" using Cons.prems(2) x by simp_all
  have s: "t \<le> fl_last_refill l + gap + 1 / 200 + extra" "fl_last_refill l1 = t" "0 \<le> fl_tokens l1"
    "fl_tokens l1 + 1 \<le> fl_tokens l + 200 * (t - fl_last_refill l)"
    using admit_spec [OF Cons.prems(1) _ nn(2) a] nn by simp_all
  note ih = Cons.IH [OF s(3) tl r]
  then have "real (length (x # xs)) + fl_tokens l' \<le> fl_tokens l + 200 * (fl_last_refill l' - fl_last_refill l)"
    using s(2, 4) by simp
  then show ?case using ih s(1) waits by simp
qed simp

text \<open>
  File frames are paced, never dropped, and by waits of at most five milliseconds. Whatever the arrival
  of file frames on a connection, each is admitted, after a wait that is at most five milliseconds more than
  what the sleep itself takes too long, and over any time since the connection opened at most 400 frames and
  200 for each second of it have been admitted.
\<close>

theorem file_frames_paced:
  assumes "list_all (\<lambda>(gap, extra). 0 \<le> gap \<and> 0 \<le> extra) xs" "pace_run (limiter_new t0) xs = (waits, l)"
  shows "length waits = length xs \<and> list_all (\<lambda>w. w \<le> 1 / 200) waits \<and> real (length xs) \<le> 400 + 200 * (fl_last_refill l - t0)"
  using pace_run_bound [OF _ assms] by (simp add: limiter_new_def FILE_FRAME_BURST_def)

theorem file_frames_paced_witness:
  "list_all (\<lambda>w. w \<le> 1 / 200) (fst (pace_run (limiter_new 0) [(0, 0), (1, 0)]))"
  using file_frames_paced [OF _ prod.collapse [symmetric], of "[(0, 0), (1, 0)]" 0] by simp

end
