(* ===== verification/Signaling_Routes.thy ===== *)
theory Signaling_Routes
  imports Signaling_Queues
begin

section \<open>Presence and routing of the signalling server\<close>

text \<open>
  The tables of connected identities are well formed and counted exactly in every reachable state, and a
  frame sent to a target is queued only on connections registered for that target.
\<close>

subsection \<open>What sends and writers leave alone\<close>

text \<open>The part of the state that says who is connected.\<close>

definition presence :: "SignalingState \<Rightarrow> nat DeviceRoutes \<times> nat DeviceRoutes \<times> (string, string) hmap \<times> nat" where
  "presence st = (peer_sockets st, quic_senders st, peer_id_aliases st, connected_count st)"

lemma presence_queues [simp]:
  "presence (frame_drop f st) = presence st" "presence (close_channel st c) = presence st" "presence (bind_queue_budget st i c) = presence st"
  "presence (snd (peer_channel st)) = presence st" "presence (snd (tx_send st c js)) = presence st" "presence (snd (rx_recv st c)) = presence st"
  by (simp_all add: presence_def frame_drop_def close_channel_def bind_queue_budget_def peer_channel_def tx_send_def rx_recv_def Let_def
      split: option.splits list.splits)

lemma presence_drops [simp]: "presence (fold frame_drop fs st) = presence st"
  by (induction fs arbitrary: st) simp_all

lemma presence_gone [simp]: "presence (rx_drop st c) = presence st" "presence (tx_drop st c) = presence st"
proof -
  have "presence (st\<lparr>sg_chans := m\<rparr>) = presence st" for st m by (simp add: presence_def)
  then show "presence (rx_drop st c) = presence st" "presence (tx_drop st c) = presence st"
    by (simp_all add: tx_drop_def rx_drop_def Let_def split: option.splits)
qed

lemma presence_send_first [simp]: "presence (snd (send_first st cs js)) = presence st"
  by (induction cs arbitrary: st) (simp_all add: case_prod_beta)

lemma presence_send_endpoint [simp]: "presence (snd (send_to_endpoint env st t d js w)) = presence st"
  by (simp add: send_to_endpoint_def Let_def)

lemma presence_send_all [simp]: "presence (snd (send_all env t ds js w st)) = presence st"
  by (induction ds arbitrary: st) (simp_all add: case_prod_beta)

lemma presence_send [simp]:
  "presence (snd (send_to_target env st t d js w)) = presence st" "presence (snd (send_signed_reply env st req mt p)) = presence st"
  "presence (snd (ws_relay env our m raw st)) = presence st"
  by (simp_all add: send_to_target_def send_signed_reply_def ws_relay_def Let_def split: option.splits)

subsection \<open>Presence is counted exactly\<close>

definition presence_ok :: "SignalingState \<Rightarrow> bool" where
  "presence_ok st \<longleftrightarrow> routes_inv (peer_sockets st) \<and> routes_inv (quic_senders st) \<and> connected_count st = length (peer_sockets st)"

lemma presence_ok_cong: "presence st' = presence st \<Longrightarrow> presence_ok st' = presence_ok st"
  by (simp add: presence_def presence_ok_def)

lemma presence_ok_steps [simp]:
  "presence_ok (close_channel st c) = presence_ok st" "presence_ok (bind_queue_budget st i c) = presence_ok st"
  "presence_ok (snd (peer_channel st)) = presence_ok st" "presence_ok (snd (rx_recv st c)) = presence_ok st"
  "presence_ok (rx_drop st c) = presence_ok st" "presence_ok (tx_drop st c) = presence_ok st"
  "presence_ok (snd (send_to_endpoint env st t d js w)) = presence_ok st" "presence_ok (snd (send_to_target env st t d js w)) = presence_ok st"
  "presence_ok (snd (send_signed_reply env st req mt p)) = presence_ok st" "presence_ok (snd (ws_relay env our m raw st)) = presence_ok st"
  by (rule presence_ok_cong; simp)+

lemma routes_ops_inv:
  assumes "routes_inv r"
  shows "routes_inv (snd (routes_insert e r i v))" "routes_inv (snd (register_device e r i d v))"
    "routes_inv (snd (remove_endpoint_if e r i x f))" "routes_inv (snd (routes_remove e r i))"
  using assms route_step_inv [of r e "InsertOp i v"] route_step_inv [of r e "RegisterOp i d v"] route_step_inv [of r e "RemoveIfOp i x f"]
    route_step_inv [of r e "RemoveOp i"] by simp_all

lemma length_routes_insert:
  "length (snd (routes_insert e r i v)) = (if routes_contains_key e r i then length r else Suc (length r))"
  by (simp add: routes_insert_def routes_contains_key_def Let_def length_hm_insert)

lemma length_register_device:
  "length (snd (register_device e r i d v)) = (if routes_contains_key e r i \<or> isl (fst (register_device e r i d v)) then length r else Suc (length r))"
  by (auto simp: register_device_def routes_contains_key_def Let_def length_hm_insert slots_def hm_contains_def hm_get_None_iff hm_keys_def
      MAX_LIVE_DEVICE_ROUTES_def split: option.splits) (force dest: hm_get_SomeD)

lemma length_remove_endpoint_if:
  assumes "routes_inv r"
  shows "length r = length (snd (remove_endpoint_if e r i x f)) +
    (if fst (remove_endpoint_if e r i x f) \<and> \<not> routes_contains_key e (snd (remove_endpoint_if e r i x f)) i then 1 else 0)"
  using assms length_hm_remove [of r "identity_key e i"]
  by (auto simp: remove_endpoint_if_def routes_contains_key_def Let_def routes_inv_def length_hm_insert hm_contains_def hm_get_None_iff coll_simps
      split: option.splits) (force dest: hm_get_SomeD)+

lemma presence_ok_register:
  assumes ok: "presence_ok st"
  shows "presence_ok (snd (ws_register env m wc st))"
proof -
  let ?e = "se_b64 env" and ?st = "bind_queue_budget st (sm_sender m) (wc_tx wc)"
  define key where "key = routes_contains_key ?e (peer_sockets st) (sm_sender m)"
  have p: "peer_sockets ?st = peer_sockets st" "quic_senders ?st = quic_senders st" "connected_count ?st = connected_count st"
    using presence_queues(3) [of st "sm_sender m" "wc_tx wc"] by (simp_all add: presence_def)
  obtain res routes where r: "(case sm_source_device m of
       Some d \<Rightarrow> register_device ?e (peer_sockets st) (sm_sender m) d (wc_tx wc)
     | None \<Rightarrow> (let (old, r) = routes_insert ?e (peer_sockets st) (sm_sender m) (wc_tx wc) in (Inr old, r))) = (res, routes)" by fastforce
  have pi: "routes_inv (peer_sockets st)" using ok by (simp add: presence_ok_def)
  have inv: "routes_inv routes \<and> length routes = (if key \<or> isl res then length (peer_sockets st) else Suc (length (peer_sockets st)))"
  proof (cases "sm_source_device m")
    case None
    then have "routes = snd (routes_insert ?e (peer_sockets st) (sm_sender m) (wc_tx wc))" "\<not> isl res"
      using r by (auto simp: case_prod_beta)
    then show ?thesis by (simp add: routes_ops_inv [OF pi] length_routes_insert key_def)
  next
    case (Some d)
    then have "register_device ?e (peer_sockets st) (sm_sender m) d (wc_tx wc) = (res, routes)" using r by simp
    then show ?thesis
      using routes_ops_inv(2) [OF pi, of ?e "sm_sender m" d "wc_tx wc"] length_register_device [of ?e "peer_sockets st" "sm_sender m" d "wc_tx wc"]
      by (simp add: key_def)
  qed
  show ?thesis using ok inv r p
    by (cases res) (auto simp: ws_register_def Let_def key_def presence_ok_def close_channel_def split: option.splits)
qed

lemma presence_ok_text: "presence_ok (sv_state sv) \<Longrightarrow> presence_ok (sv_state (snd (snd (snd (ws_text env raw wc sv)))))"
proof (cases "\<exists>m wc1. ws_passes env raw m wc wc1 sv")
  case False
  then show "presence_ok (sv_state sv) \<Longrightarrow> ?thesis" using ws_text_stops [of env raw wc sv] by auto
next
  case True
  assume ok: "presence_ok (sv_state sv)"
  from True obtain m wc1 where p: "ws_passes env raw m wc wc1 sv" by blast
  have "presence_ok (snd (if wc_peer_id wc1 = None then ws_register env m wc1 (sv_state sv) else (Some wc1, sv_state sv)))"
    using ok by (simp add: presence_ok_register)
  then show ?thesis unfolding ws_text_passes [OF p] by (auto simp: Let_def case_prod_beta split: option.splits)
qed

lemma routes_remove_absent: "\<not> routes_contains_key e r i \<Longrightarrow> snd (routes_remove e r i) = r"
  by (auto simp: routes_remove_def routes_contains_key_def hm_contains_def hm_get_None_iff Let_def split: option.splits dest: hm_get_SomeD)
    (force dest: hm_get_SomeD)+

lemma presence_ok_cleanup:
  assumes ok: "presence_ok (sv_state sv)"
  shows "presence_ok (sv_state (snd (ws_cleanup env wc sv)))"
proof (cases "wc_peer_id wc")
  case None
  then show ?thesis using ok by (simp add: ws_cleanup_def)
next
  case (Some pid)
  let ?r = "peer_sockets (sv_state sv)" and ?e = "se_b64 env" and ?f = "\<lambda>stored. stored = wc_tx wc"
  obtain removed routes where rm: "remove_endpoint_if ?e ?r pid (wc_device wc) ?f = (removed, routes)" by fastforce
  have inv: "routes_inv routes" "length ?r = length routes + (if removed \<and> \<not> routes_contains_key ?e routes pid then 1 else 0)"
    using ok routes_ops_inv(3) [of ?r ?e pid "wc_device wc" ?f] length_remove_endpoint_if [of ?r ?e pid "wc_device wc" ?f] rm
    by (simp_all add: presence_ok_def)

  show ?thesis
  proof (cases "removed \<and> \<not> routes_contains_key ?e routes pid")
    case True
    then show ?thesis using ok inv routes_remove_absent [of ?e routes pid] rm Some
      by (simp add: ws_cleanup_def remove_peer_socket_def Let_def) (simp add: presence_ok_def)
  next
    case False
    then show ?thesis using ok inv rm Some by (auto simp: ws_cleanup_def Let_def) (simp_all add: presence_ok_def)
  qed
qed

lemma cleanup_sockets:
  "peer_sockets (sv_state (snd (ws_cleanup env wc sv))) =
     (case wc_peer_id wc of None \<Rightarrow> peer_sockets (sv_state sv)
      | Some pid \<Rightarrow> snd (remove_endpoint_if (se_b64 env) (peer_sockets (sv_state sv)) pid (wc_device wc) (\<lambda>stored. stored = wc_tx wc)))"
proof -
  have "peer_sockets (tx_drop st c) = peer_sockets st" for st c using presence_gone(2) [of st c] by (simp add: presence_def)
  then show ?thesis
    by (auto simp: ws_cleanup_def remove_peer_socket_def Let_def case_prod_beta routes_remove_absent split: option.splits)
qed

lemma presence_ok_stream:
  assumes ok: "presence_ok (sv_state sv)"
  shows "presence_ok (sv_state (snd (relay_stream_open env peer d sv)))"
    "presence_ok (sv_state (snd (snd (snd (relay_stream_frame env peer d buf pace sv)))))"
    "presence_ok (sv_state (snd (relay_stream_close env peer d tx sv)))"
proof -
  have same: "peer_sockets (bind_queue_budget st i c) = peer_sockets st" "quic_senders (bind_queue_budget st i c) = quic_senders st"
    "connected_count (bind_queue_budget st i c) = connected_count st" for st i c
    using presence_queues(3) [of st i c] by (simp_all add: presence_def)
  have "presence_ok st \<Longrightarrow> presence_ok (snd (register_quic_sender env st peer d tx))" for st tx
    using routes_ops_inv(1, 2) [of "quic_senders st" "se_b64 env" peer]
    by (auto simp: register_quic_sender_def Let_def case_prod_beta presence_ok_def same close_channel_def split: sum.splits option.splits)
  then show "presence_ok (sv_state (snd (relay_stream_open env peer d sv)))"
    using ok by (simp add: relay_stream_open_def Let_def case_prod_beta)
  show "presence_ok (sv_state (snd (snd (snd (relay_stream_frame env peer d buf pace sv)))))"
    using ok by (auto simp: relay_stream_frame_def Let_def dest: accept_signed_stateD split: option.splits prod.splits accept_result.splits)
  show "presence_ok (sv_state (snd (relay_stream_close env peer d tx sv)))"
    using ok routes_ops_inv(3) [of "quic_senders (sv_state sv)"]
    by (simp add: relay_stream_close_def unregister_quic_sender_def Let_def case_prod_beta presence_ok_def [of "_\<lparr>quic_senders := _\<rparr>"]) (simp add: presence_ok_def)
qed

interpretation presence: invariant_system "server_new ready our" server_step "\<lambda>sv. presence_ok (sv_state sv)" for ready our
proof
  show "presence_ok (sv_state (server_new ready our))"
    by (simp add: server_new_def signaling_new_def presence_ok_def routes_default_def routes_inv_def)
  fix sv :: SignalingServer and e :: "sig_env \<times> server_op"
  assume ok: "presence_ok (sv_state sv)"
  obtain env oper where e: "e = (env, oper)" by fastforce
  show "presence_ok (sv_state (server_step sv e))"
    using ok unfolding e by (cases oper)
      (simp_all add: ws_open_def case_prod_beta presence_ok_text presence_ok_cleanup presence_ok_stream)
qed

text \<open>
  C10: the tables of connected identities are well formed and counted. After any sequence of operations of
  the server, in any order and for any connections, no identity has two entries, each has at most one legacy
  connection and eight devices and at least one of them, and \<open>connected_count\<close> is the number of identities
  with a WebSocket.
\<close>

theorem presence_well_formed:
  "let st = sv_state (foldl server_step (server_new ready our) ops) in
   routes_inv (peer_sockets st) \<and> routes_inv (quic_senders st) \<and> connected_count st = length (peer_sockets st)"
  using presence.inv_reachable [of ready our ops] by (simp add: presence_ok_def Let_def)

subsection \<open>Where a frame goes\<close>

definition queue_at :: "SignalingState \<Rightarrow> nat \<Rightarrow> QueuedFrame list" where
  "queue_at st c = (case hm_get (sg_chans st) c of None \<Rightarrow> [] | Some ch \<Rightarrow> ch_queue ch)"

text \<open>The frame is appended only to channels of the set, and the result says whether it was appended at all.\<close>

definition queued_only :: "nat set \<Rightarrow> string \<Rightarrow> SignalingState \<Rightarrow> bool \<times> SignalingState \<Rightarrow> bool" where
  "queued_only S js st r \<longleftrightarrow>
     (\<forall>c. \<exists>fs. queue_at (snd r) c = queue_at st c @ fs \<and> list_all (\<lambda>f. qf_json f = js) fs \<and> (fs = [] \<or> c \<in> S)) \<and>
     fst r = (\<exists>c. queue_at (snd r) c \<noteq> queue_at st c)"

lemma queued_only_tx_send: "queued_only {c} js st (tx_send st c js)"
proof -
  have ins: "queue_at (st\<lparr>sg_budgets := b, sg_chans := hm_insert c ch (sg_chans st)\<rparr>) d = (if d = c then ch_queue ch else queue_at st d)" for b ch d
    by (simp add: queue_at_def coll_simps)
  have cls: "queue_at (st\<lparr>sg_chans := hm_insert c ch (sg_chans st)\<rparr>) d = (if d = c then ch_queue ch else queue_at st d)" for ch d
    by (simp add: queue_at_def coll_simps)
  show ?thesis
  proof (cases "hm_get (sg_chans st) c")
    case None
    then show ?thesis by (simp add: tx_send_def queued_only_def)
  next
    case (Some ch)
    then have "queue_at st c = ch_queue ch" by (simp add: queue_at_def)
    then show ?thesis using Some by (auto simp: tx_send_def queued_only_def Let_def ins cls)
  qed
qed

lemma queued_only_refl: "queued_only S js st (False, st)"
  by (simp add: queued_only_def)

lemma queued_only_trans:
  assumes "queued_only S js st (ok1, st1)" "queued_only S js st1 (ok2, st2)"
  shows "queued_only S js st (ok1 \<or> ok2, st2)"
proof -
  have two: "\<exists>fs gs. queue_at st1 c = queue_at st c @ fs \<and> queue_at st2 c = queue_at st c @ fs @ gs \<and>
    list_all (\<lambda>f. qf_json f = js) (fs @ gs) \<and> (fs @ gs = [] \<or> c \<in> S)" for c
    using assms [unfolded queued_only_def, THEN conjunct1, rule_format, of c] by fastforce
  have "ok1 \<or> ok2 \<longleftrightarrow> (\<exists>c. queue_at st2 c \<noteq> queue_at st c)"
    using assms two unfolding queued_only_def fst_conv snd_conv by (metis append_is_Nil_conv append_self_conv append.assoc)
  then show ?thesis using two unfolding queued_only_def fst_conv snd_conv by metis
qed

lemma queued_only_mono: "queued_only S js st r \<Longrightarrow> S \<subseteq> T \<Longrightarrow> queued_only T js st r"
  unfolding queued_only_def by (meson subsetD)

lemma queued_only_send_first: "set cs \<subseteq> S \<Longrightarrow> queued_only S js st (send_first st cs js)"
proof (induction cs arbitrary: st)
  case (Cons c cs)
  obtain ok st1 where s: "tx_send st c js = (ok, st1)" by fastforce
  have "queued_only S js st (ok, st1)" using queued_only_mono [OF queued_only_tx_send [of c js st], of S] Cons.prems s by simp
  then show ?case using queued_only_trans [of S js st ok st1 "fst (send_first st1 cs js)" "snd (send_first st1 cs js)"] Cons s by (cases ok) auto
qed (simp add: queued_only_refl)

text \<open>The channels of a target: registered under one of its keys, for the device asked for if there is one.\<close>

definition target_chans :: "sig_env \<Rightarrow> SignalingState \<Rightarrow> string \<Rightarrow> DeviceId option option \<Rightarrow> nat set" where
  "target_chans env st target device =
     {c. \<exists>key \<in> set (target_keys st target). \<exists>d. (device = None \<or> device = Some d) \<and>
        (get_endpoint (se_b64 env) (peer_sockets st) key d = Some c \<or> get_endpoint (se_b64 env) (quic_senders st) key d = Some c)}"

lemma target_chans_cong: "presence st' = presence st \<Longrightarrow> target_chans env st' t d = target_chans env st t d"
  by (simp add: target_chans_def target_keys_def presence_def)

lemma queued_only_endpoint: "queued_only (target_chans env st t (Some d)) js st (send_to_endpoint env st t d js w)"
  unfolding send_to_endpoint_def Let_def
  by (rule queued_only_send_first) (auto simp: target_chans_def map_filter_def)

lemma queued_only_send_all:
  assumes "list_all (\<lambda>d. target_chans env st t (Some d) \<subseteq> S) ds"
  shows "queued_only S js st (send_all env t ds js w st)"
  using assms
proof (induction ds arbitrary: st)
  case (Cons d ds)
  obtain ok st1 where s: "send_to_endpoint env st t d js w = (ok, st1)" by fastforce
  have pres: "presence st1 = presence st" using presence_send_endpoint [of env st t d js w] s by simp
  have one: "queued_only S js st (ok, st1)" using queued_only_mono [OF queued_only_endpoint [of env st t d js w]] Cons.prems s by simp
  have "queued_only S js st1 (send_all env t ds js w st1)"
    using Cons.prems by (intro Cons.IH) (simp add: target_chans_cong [OF pres])
  then show ?case using queued_only_trans [OF one, of "fst (send_all env t ds js w st1)" "snd (send_all env t ds js w st1)"] s
    by (simp add: case_prod_beta)
qed (simp add: queued_only_refl)

text \<open>
  C9: a frame is queued only for its target. A send to a target appends the frame to connections registered
  under the target's key or the key its alias stands for, to those of one device if one is named, and to no
  other queue of the server, takes nothing from a queue, and reports success exactly when some connection of
  the target took the frame.
\<close>

theorem frame_reaches_only_target:
  "queued_only (target_chans env st target (map_option Some device)) js st (send_to_target env st target device js prefer_ws)"
  unfolding send_to_target_def Let_def
  by (rule queued_only_send_all) (auto simp: target_chans_def list_all_iff split: option.splits)

end
