(* ===== verification/Protocol_Props.thy ===== *)
theory Protocol_Props
  imports Protocol
begin

section \<open>Signing and the wire form of an envelope\<close>

text \<open>
  A signed message survives the wire with its signature valid, and a change of any signed field shows in the
  bytes that are verified. The JSON codec is a parameter; what is asked of it is that it reads back what it
  writes.
\<close>

lemma json_get_sorted: "distinct (map fst fs) \<Longrightarrow> json_get (sorted_object fs) k = map_of fs k"
proof -
  assume d: "distinct (map fst fs)"
  have "distinct (map fst (sort_key fst fs))" using d by (simp add: distinct_map)
  then have "map_of (sort_key fst fs) = map_of fs" using d by (simp add: map_of_inject_set)
  then show ?thesis by (simp add: sorted_object_def)
qed

text \<open>The codec reads back what it writes for this message: its object, its time and its device numbers.\<close>

definition wire_reads_back :: "wire_env \<Rightarrow> WireMessage \<Rightarrow> bool" where
  "wire_reads_back env m \<longleftrightarrow>
     (let obj = sorted_object (message_fields env m) in we_parse env (we_to_string env obj) = Some obj) \<and>
     we_as_f64 env (we_of_f64 env (sm_timestamp m)) = Some (sm_timestamp m) \<and>
     wire_device env (map_option device_json (sm_source_device m)) = Some (sm_source_device m) \<and>
     wire_device env (map_option device_json (wm_target_device m)) = Some (wm_target_device m)"

lemma opt_field_simps [simp]: "opt_field k None = []" "opt_field k (Some j) = [(k, j)]"
  by (simp_all add: opt_field_def)

lemma message_fields_get:
  "distinct (map fst (message_fields env m))"
  "map_of (message_fields env m) ''type'' = Some (Wire.JStr (wm_type m))"
  "map_of (message_fields env m) ''sender'' = Some (Wire.JStr (sm_sender m))"
  "map_of (message_fields env m) ''payload'' = Some (sm_payload m)"
  "map_of (message_fields env m) ''timestamp'' = Some (we_of_f64 env (sm_timestamp m))"
  "map_of (message_fields env m) ''v'' = Some (Wire.JNum (uint (wm_version m)))"
  "map_of (message_fields env m) ''target'' = map_option Wire.JStr (wm_target m)"
  "map_of (message_fields env m) ''source_device'' = map_option device_json (sm_source_device m)"
  "map_of (message_fields env m) ''target_device'' = map_option device_json (wm_target_device m)"
  "map_of (message_fields env m) ''signature'' = map_option Wire.JStr (sm_signature m)"
  unfolding message_fields_def
  by (cases "wm_target m"; cases "sm_source_device m"; cases "wm_target_device m"; cases "sm_signature m"; simp)+

lemma message_wire_roundtrip:
  assumes "wire_reads_back env m" "wm_type m \<in> set MESSAGE_TYPES" "wm_target_device m = None \<or> wm_target m \<noteq> None"
  shows "message_from_json env (to_json env m) = Some (m\<lparr>wm_timestamp_raw := Some (we_of_f64 env (sm_timestamp m))\<rparr>)"
proof -
  obtain fs where so: "sorted_object (message_fields env m) = JObj fs" by (simp add: sorted_object_def)
  have parse: "we_parse env (to_json env m) = Some (JObj fs)" using assms(1) so by (simp add: wire_reads_back_def to_json_def Let_def)
  have get: "map_of fs k = map_of (message_fields env m) k" for k
    using json_get_sorted [OF message_fields_get(1), of env m k] by (simp add: so)
  have str: "Option.bind (map_option Wire.JStr x) json_as_str = x" for x by (cases x) simp_all
  have ver: "Option.bind (Some (Wire.JNum (uint (wm_version m)))) json_as_u64 = Some (unat (wm_version m))"
    using uint_bounded [of "wm_version m"] by simp
  show ?thesis using assms
    by (simp add: message_from_json_def parse get message_fields_get wire_reads_back_def de_type_def payload_str_def payload_or_def str ver Let_def
        del: bind.simps(2) add: bind.simps(2) [of "Wire.JStr _"] bind.simps(2) [of "we_of_f64 _ _"])
qed

lemma canonical_bytes_signed [simp]:
  "canonical_bytes env (m\<lparr>sm_signature := s\<rparr>) = canonical_bytes env m"
  by (cases "wm_timestamp_raw m") (simp_all add: canonical_bytes_def)

text \<open>
  C11: a signed message verifies at the other end of the wire. Whatever the type, the target and the devices
  of a message, what \<open>from_json\<close> reads from the text of the signed message is that message, and its signature
  verifies there, although the time is signed as the number and verified as the JSON value that was received.
\<close>

theorem signed_message_roundtrip:
  assumes "wire_reads_back env (message_sign env m)" "wm_type m \<in> set MESSAGE_TYPES" "wm_target_device m = None \<or> wm_target m \<noteq> None"
    "wm_timestamp_raw m = None" "b64_decode_url env (sm_sender m) = Some pub"
    "b64_decode_url env (we_b64_encode env (we_sign env (canonical_bytes env m))) = Some sig_bytes"
    "ed25519_verify (we_prims env) pub sig_bytes (canonical_bytes env m)"
  shows "\<exists>m'. message_from_json env (to_json env (message_sign env m)) = Some m' \<and> message_verify env m' \<and>
    m' = (message_sign env m)\<lparr>wm_timestamp_raw := wm_timestamp_raw m'\<rparr>"
proof -
  let ?m = "message_sign env m"
  have "canonical_bytes env (?m\<lparr>wm_timestamp_raw := Some (we_of_f64 env (sm_timestamp ?m))\<rparr>) = canonical_bytes env m"
    using assms(4) by (simp add: canonical_bytes_def message_sign_def)
  then have "message_verify env (?m\<lparr>wm_timestamp_raw := Some (we_of_f64 env (sm_timestamp ?m))\<rparr>)"
    using assms by (auto simp: message_verify_def message_sign_def)
  then show ?thesis using message_wire_roundtrip [OF assms(1)] assms(2, 3) by (simp add: message_sign_def)
qed

text \<open>A small codec to evaluate with: the text of a message is its type, everything else is fixed.\<close>

definition demo_object :: "MessageType \<Rightarrow> json" where
  "demo_object mt = JObj [(''payload'', JObj []), (''sender'', Wire.JStr (replicate 32 (CHR ''V''))),
     (''signature'', Wire.JStr (string_of_bytes (replicate 64 1))), (''timestamp'', Wire.JNum 0), (''type'', Wire.JStr mt), (''v'', Wire.JNum 2)]"

definition demo_prims :: space_prims where
  "demo_prims = \<lparr>sha256 = (\<lambda>bs. bs), hex_encode = string_of_bytes, hex_decode = (\<lambda>s. Some (as_bytes s)), json_to_vec = (\<lambda>_. None),
     url_safe_encode = string_of_bytes, url_safe_decode = (\<lambda>s. Some (as_bytes s)), url_safe_no_pad_decode = (\<lambda>s. Some (as_bytes s)),
     dalek_verify = (\<lambda>pk data sig. sig = replicate 64 1)\<rparr>"

definition demo_wire :: wire_env where
  "demo_wire = \<lparr>we_prims = demo_prims, we_to_vec = (\<lambda>_. []),
     we_to_string = (\<lambda>j. case json_get j ''type'' of Some (Wire.JStr mt) \<Rightarrow> mt | _ \<Rightarrow> []), we_parse = (\<lambda>raw. Some (demo_object raw)),
     we_of_f64 = (\<lambda>t. Wire.JNum \<lfloor>t\<rfloor>), we_as_f64 = (\<lambda>j. case j of Wire.JNum n \<Rightarrow> Some (of_int n) | _ \<Rightarrow> None), we_device = (\<lambda>_. None),
     we_b64_encode = string_of_bytes, we_sign = (\<lambda>_. replicate 64 1), we_public_id = ''node'', we_now = 0\<rparr>"

definition demo_message :: "MessageType \<Rightarrow> WireMessage" where
  "demo_message mt = message_new demo_wire mt (replicate 32 (CHR ''V'')) (JObj [])"

lemma demo_decode [simp]:
  "b64_decode_url demo_wire (replicate 32 (CHR ''V'')) = Some (replicate 32 86)"
  "b64_decode_url demo_wire (string_of_bytes (replicate 64 1)) = Some (replicate 64 1)"
  by code_simp+

lemma demo_verifies [simp]: "ed25519_verify demo_prims (replicate 32 86) (replicate 64 1) bs"
  by (simp add: ed25519_verify_def demo_prims_def)

lemma demo_wire_fields [simp]:
  "we_prims demo_wire = demo_prims" "we_b64_encode demo_wire = string_of_bytes" "we_sign demo_wire = (\<lambda>_. replicate 64 1)"
  "we_parse demo_wire raw = Some (demo_object raw)" "we_now demo_wire = 0" "we_as_f64 demo_wire (Wire.JNum n) = Some (of_int n)"
  by (simp_all add: demo_wire_def)

lemma demo_reads_back: "wire_reads_back demo_wire (message_sign demo_wire (demo_message mt))"
  by (simp add: wire_reads_back_def demo_wire_def demo_message_def message_sign_def message_new_def message_fields_def sorted_object_def
      demo_object_def PROTOCOL_VERSION_def wire_device_def Let_def)

theorem signed_message_roundtrip_witness:
  "\<exists>m'. message_from_json demo_wire (to_json demo_wire (message_sign demo_wire (demo_message ''sfu_chat''))) = Some m' \<and> message_verify demo_wire m' \<and>
    m' = (message_sign demo_wire (demo_message ''sfu_chat''))\<lparr>wm_timestamp_raw := wm_timestamp_raw m'\<rparr>"
  by (rule signed_message_roundtrip [OF demo_reads_back, of _ "replicate 32 86" "replicate 64 1"])
    (simp_all add: demo_message_def message_new_def MESSAGE_TYPES_def)

end
