(* ===== verification/Signaling_Auth.thy ===== *)
theory Signaling_Auth
  imports Signaling_Routes Protocol_Props
begin

section \<open>Authentication on a signalling connection\<close>

text \<open>
  What a connection hands to the handler: only messages that verify, all of one identity and device, at a
  bounded rate; and what the exemption from the replay guard, the cuts of the log lines and the missing
  exemption on the relay's stream allow.
\<close>

subsection \<open>One connection, one sender\<close>

text \<open>
  The texts of one connection in order. The server found at each of them is arbitrary, since other
  connections change it in between.
\<close>

fun ws_run :: "WsConn \<Rightarrow> (sig_env \<times> string \<times> SignalingServer) list \<Rightarrow> (sig_env \<times> handler_call) list" where
  "ws_run wc [] = []"
| "ws_run wc ((env, raw, sv) # xs) =
     (let (calls, flow, wc, _) = ws_text env raw wc sv in map (Pair env) calls @ (if flow = WsContinue then ws_run wc xs else []))"

definition authentic :: "string \<Rightarrow> DeviceId option \<Rightarrow> sig_env \<times> handler_call \<Rightarrow> bool" where
  "authentic who device = (\<lambda>(env, c). case c of
     OnMessage m raw \<Rightarrow> message_from_json (se_wire env) raw = Some m \<and> message_verify (se_wire env) m \<and> is_fresh (se_wire env) m 300 \<and>
       normalize_public_id (sm_sender m) = who \<and> sm_source_device m = device
   | _ \<Rightarrow> False)"

lemma ws_register_binds:
  "ws_register env m wc st = (Some wc', st') \<Longrightarrow> wc_peer_id wc' = Some (sm_sender m) \<and> wc_device wc' = sm_source_device m"
  by (auto simp: ws_register_def Let_def split: prod.splits sum.splits)

lemma ws_text_passes_calls:
  assumes p: "ws_passes env raw m wc wc1 sv" and t: "ws_text env raw wc sv = (calls, flow, wc', sv')"
  shows "calls = [] \<and> flow = WsBreak \<or>
    calls = (if wc_peer_id wc = None then [OnPeerConnected (sm_sender m)] else []) @ (if flow = WsContinue then [OnMessage m raw] else []) \<and>
    wc_device wc' = sm_source_device m \<and> (\<exists>q. wc_peer_id wc' = Some q \<and> normalize_public_id q = normalize_public_id (sm_sender m))"
proof -
  have same: "wc_peer_id wc1 = wc_peer_id wc" "wc_device wc1 = wc_device wc"
    using p ws_rate_frame [of env "wm_type m" wc] by (simp_all add: ws_passes_def)
  obtain r st where reg: "(if wc_peer_id wc = None then ws_register env m wc1 (sv_state sv) else (Some wc1, sv_state sv)) = (r, st)" by fastforce
  have bound: "wc_device wc2 = sm_source_device m" "\<exists>q. wc_peer_id wc2 = Some q \<and> normalize_public_id q = normalize_public_id (sm_sender m)"
    if "r = Some wc2" for wc2
    using that reg ws_register_binds [of env m wc1 "sv_state sv" wc2 st] p same
    by (cases "wc_peer_id wc"; auto simp: ws_passes_def ws_violates_def)+
  obtain logged st2 where rel: "ws_relay env (sv_our_id sv) m raw st = (logged, st2)" by fastforce
  show ?thesis using t reg rel bound unfolding ws_text_passes [OF p] same
    by (cases r; cases logged) (auto simp: Let_def)
qed

lemma ws_text_stops_calls:
  assumes "\<nexists>m wc1. ws_passes env raw m wc wc1 sv" "ws_text env raw wc sv = (calls, flow, wc', sv')"
  shows "calls = [] \<and> wc_peer_id wc' = wc_peer_id wc \<and> wc_device wc' = wc_device wc"
  using ws_text_stops [OF assms(1)] assms(2) by auto

lemma ws_run_bound:
  assumes "wc_peer_id wc = Some p"
  shows "list_all (authentic (normalize_public_id p) (wc_device wc)) (ws_run wc xs)"
  using assms
proof (induction xs arbitrary: wc p)
  case (Cons x xs)
  obtain env raw sv where x: "x = (env, raw, sv)" using prod_cases3 by blast
  obtain calls flow wc' sv' where t: "ws_text env raw wc sv = (calls, flow, wc', sv')" using prod_cases4 by blast
  show ?case
  proof (cases "\<exists>m wc1. ws_passes env raw m wc wc1 sv")
    case False
    then show ?thesis using ws_text_stops_calls [OF False t] Cons.prems Cons.IH [of wc' p] x t by auto
  next
    case True
    then obtain m wc1 where pass: "ws_passes env raw m wc wc1 sv" by blast
    have m: "normalize_public_id (sm_sender m) = normalize_public_id p" "sm_source_device m = wc_device wc"
      using pass Cons.prems ws_rate_frame [of env "wm_type m" wc] by (auto simp: ws_passes_def ws_violates_def)
    have msg: "authentic (normalize_public_id p) (wc_device wc) (env, OnMessage m raw)"
      using pass m by (simp add: authentic_def ws_passes_def)
    show ?thesis using ws_text_passes_calls [OF pass t] Cons.prems Cons.IH [of wc'] x t msg m by (cases flow) auto
  qed
qed simp

lemma ws_run_unbound:
  assumes "wc_peer_id wc = None"
  shows "ws_run wc xs = [] \<or> (\<exists>env p device rest. ws_run wc xs = (env, OnPeerConnected p) # rest \<and>
    list_all (authentic (normalize_public_id p) device) rest)"
  using assms
proof (induction xs arbitrary: wc)
  case (Cons x xs)
  obtain env raw sv where x: "x = (env, raw, sv)" using prod_cases3 by blast
  obtain calls flow wc' sv' where t: "ws_text env raw wc sv = (calls, flow, wc', sv')" using prod_cases4 by blast
  show ?case
  proof (cases "\<exists>m wc1. ws_passes env raw m wc wc1 sv")
    case False
    then show ?thesis using ws_text_stops_calls [OF False t] Cons.prems Cons.IH [of wc'] x t by auto
  next
    case True
    then obtain m wc1 where pass: "ws_passes env raw m wc wc1 sv" by blast
    have msg: "authentic (normalize_public_id (sm_sender m)) (sm_source_device m) (env, OnMessage m raw)"
      using pass by (simp add: authentic_def ws_passes_def)
    from ws_text_passes_calls [OF pass t] show ?thesis
    proof
      assume "calls = [] \<and> flow = WsBreak"
      then show ?thesis using x t by simp
    next
      assume c: "calls = (if wc_peer_id wc = None then [OnPeerConnected (sm_sender m)] else []) @ (if flow = WsContinue then [OnMessage m raw] else []) \<and>
        wc_device wc' = sm_source_device m \<and> (\<exists>q. wc_peer_id wc' = Some q \<and> normalize_public_id q = normalize_public_id (sm_sender m))"
      then obtain q where q: "wc_peer_id wc' = Some q" "normalize_public_id q = normalize_public_id (sm_sender m)" by blast
      have "list_all (authentic (normalize_public_id (sm_sender m)) (sm_source_device m)) (ws_run wc' xs)"
        using ws_run_bound [OF q(1), of xs] q(2) c by simp
      then show ?thesis using x t c Cons.prems msg by (cases flow) auto
    qed
  qed
qed simp

text \<open>
  C7: a connection speaks for one identity and one device. Whatever texts arrive on it and whatever the
  rest of the server does meanwhile, the handler first learns that an identity connected, once, and after it
  gets only messages that parse from the text received, carry a valid signature, are at most 300 s off the
  clock, and have that identity and the device of the first message as their sender; otherwise it gets
  nothing.
\<close>

theorem ws_messages_authentic:
  "ws_run (fst (ws_open env0 sv0)) xs = [] \<or>
   (\<exists>env p device rest. ws_run (fst (ws_open env0 sv0)) xs = (env, OnPeerConnected p) # rest \<and>
      list_all (authentic (normalize_public_id p) device) rest)"
  by (rule ws_run_unbound) (simp add: ws_open_def case_prod_beta)

subsection \<open>The rate of control messages\<close>

definition control_type :: "MessageType \<Rightarrow> bool" where
  "control_type mt \<longleftrightarrow> \<not> is_bulk_file_data mt \<and> mt \<noteq> ''sfu_audio''"

definition control_call :: "sig_env \<times> handler_call \<Rightarrow> bool" where
  "control_call = (\<lambda>(_, c). case c of OnMessage m _ \<Rightarrow> control_type (wm_type m) | _ \<Rightarrow> False)"

text \<open>What the limiter still lets through until \<open>t\<close>: the rest of the window, and 60 for each ten seconds.\<close>

definition allowance :: "WsConn \<Rightarrow> real \<Rightarrow> real" where
  "allowance wc t = 60 - real (min 60 (wc_rate_count wc)) + 6 * (t - wc_rate_window_start wc)"

lemma ws_rate_allowance:
  assumes "ws_rate env mt wc = (limited, wc1)" "wc_rate_window_start wc \<le> se_instant env"
  shows "allowance wc1 t + (if control_type mt \<and> \<not> limited then 1 else 0) \<le> allowance wc t \<and> wc_rate_window_start wc1 \<le> se_instant env"
proof (cases "control_type mt")
  case False
  then have "wc_rate_count wc1 = wc_rate_count wc" "wc_rate_window_start wc1 = wc_rate_window_start wc"
    using assms(1) by (auto simp: ws_rate_def control_type_def split: if_splits)
  then show ?thesis using assms(2) False by (simp add: allowance_def)
next
  case True
  show ?thesis
  proof (cases "10 \<le> se_instant env - wc_rate_window_start wc")
    case reset: True
    then have "limited = False" "wc_rate_count wc1 = 1" "wc_rate_window_start wc1 = se_instant env"
      using assms True by (auto simp: ws_rate_def control_type_def RATE_WINDOW_SECS_def RATE_MAX_def duration_since_def Let_def)
    then show ?thesis using reset by (simp add: allowance_def min_def)
  next
    case False
    then have "limited = (60 < wc_rate_count wc + 1)" "wc_rate_count wc1 = wc_rate_count wc + 1" "wc_rate_window_start wc1 = wc_rate_window_start wc"
      using assms True by (auto simp: ws_rate_def control_type_def RATE_WINDOW_SECS_def RATE_MAX_def duration_since_def Let_def)
    then show ?thesis using assms(2) by (simp add: allowance_def min_def)
  qed
qed

lemma ws_register_rate:
  "ws_register env m wc st = (Some wc', st') \<Longrightarrow> wc_rate_count wc' = wc_rate_count wc \<and> wc_rate_window_start wc' = wc_rate_window_start wc"
  by (auto simp: ws_register_def Let_def split: prod.splits sum.splits)

lemma ws_text_rate:
  assumes t: "ws_text env raw wc sv = (calls, flow, wc', sv')"
  shows "calls = [] \<and> wc' = wc \<or>
    (\<exists>(m :: WireMessage) limited wc1. ws_rate env (wm_type m) wc = (limited, wc1) \<and> wc_rate_count wc' = wc_rate_count wc1 \<and>
       wc_rate_window_start wc' = wc_rate_window_start wc1 \<and>
       length (filter control_call (map (Pair env) calls)) \<le> (if control_type (wm_type m) \<and> \<not> limited then 1 else 0))"
proof (cases "length raw > MAX_MESSAGE_BYTES \<or> message_from_json (se_wire env) raw = None")
  case True
  then have "ws_text env raw wc sv = ([], WsContinue, wc, sv)" by (auto simp: ws_text_def)
  then show ?thesis using t by simp
next
  case False
  then obtain m where m: "message_from_json (se_wire env) raw = Some m" by auto
  obtain limited wc1 where r: "ws_rate env (wm_type m) wc = (limited, wc1)" by fastforce
  have a: "wc_rate_count wc' = wc_rate_count wc1 \<and> wc_rate_window_start wc' = wc_rate_window_start wc1 \<and> (limited \<longrightarrow> calls = []) \<and>
    calls \<in> {[], [OnPeerConnected (sm_sender m)], [OnMessage m raw], [OnPeerConnected (sm_sender m), OnMessage m raw]}"
    using t False m r ws_register_rate [of env m wc1]
    by (auto simp: ws_text_def Let_def split: prod.splits if_splits option.splits)
  then have "length (filter control_call (map (Pair env) calls)) \<le> (if control_type (wm_type m) \<and> \<not> limited then 1 else 0)"
    by (auto simp: control_call_def)
  then show ?thesis using r a by blast
qed

lemma ws_run_allowance:
  assumes "sorted (wc_rate_window_start wc # map (\<lambda>(env, _). se_instant env) xs)" "list_all (\<lambda>(env, _). se_instant env \<le> t) xs"
    "wc_rate_window_start wc \<le> t"
  shows "real (length (filter control_call (ws_run wc xs))) \<le> allowance wc t"
  using assms
proof (induction xs arbitrary: wc)
  case Nil
  then show ?case by (simp add: allowance_def)
next
  case (Cons x xs)
  obtain env raw sv where x: "x = (env, raw, sv)" using prod_cases3 by blast
  obtain calls flow wc' sv' where t: "ws_text env raw wc sv = (calls, flow, wc', sv')" using prod_cases4 by blast
  let ?n = "length (filter control_call (map (Pair env) calls))"
  have start: "wc_rate_window_start wc \<le> se_instant env" using Cons.prems(1) x by simp
  have step: "allowance wc' t + real ?n \<le> allowance wc t \<and> wc_rate_window_start wc' \<le> se_instant env"
    using ws_text_rate [OF t]
  proof (elim disjE exE)
    assume "calls = [] \<and> wc' = wc"
    then show ?thesis using start by simp
  next
    fix m limited wc1
    assume a: "ws_rate env (wm_type m) wc = (limited, wc1) \<and> wc_rate_count wc' = wc_rate_count wc1 \<and>
      wc_rate_window_start wc' = wc_rate_window_start wc1 \<and> ?n \<le> (if control_type (wm_type m) \<and> \<not> limited then 1 else 0)"
    then have "allowance wc' t = allowance wc1 t" by (simp add: allowance_def)
    then show ?thesis using ws_rate_allowance [of env "wm_type m" wc limited wc1 t] a start by (auto split: if_splits)
  qed
  have pre: "sorted (wc_rate_window_start wc' # map (\<lambda>(env, _). se_instant env) xs)" "list_all (\<lambda>(env, _). se_instant env \<le> t) xs"
    "wc_rate_window_start wc' \<le> t"
    using step Cons.prems x by (auto intro: order_trans)
  have "0 \<le> allowance wc' t" using pre(3) by (simp add: allowance_def)
  then show ?case using Cons.IH [OF pre] step x t by simp
qed

lemma sorted_le_last: "sorted (x # ys) \<Longrightarrow> list_all (\<lambda>y. y \<le> last (x # ys)) (x # ys)"
  by (induction ys arbitrary: x) (auto simp: list_all_iff)

text \<open>
  The rate of control messages is bounded. Of the messages that are neither file data nor room audio a
  connection hands over at most 60, and six for every second since it opened, whatever it is sent.
\<close>

theorem control_rate_bounded:
  assumes "sorted (se_instant env0 # map (\<lambda>(env, _). se_instant env) xs)"
  shows "real (length (filter control_call (ws_run (fst (ws_open env0 sv0)) xs)))
    \<le> 60 + 6 * (last (se_instant env0 # map (\<lambda>(env, _). se_instant env) xs) - se_instant env0)"
proof -
  let ?wc = "fst (ws_open env0 sv0)"
  have wc: "wc_rate_window_start ?wc = se_instant env0" "wc_rate_count ?wc = 0" by (simp_all add: ws_open_def case_prod_beta)
  show ?thesis using ws_run_allowance [of ?wc xs "last (se_instant env0 # map (\<lambda>(env, _). se_instant env) xs)"] sorted_le_last [OF assms] assms
    by (simp add: wc allowance_def list_all_iff case_prod_beta)
qed

definition demo_sig :: "real \<Rightarrow> sig_env" where
  "demo_sig t = \<lparr>se_wire = demo_wire, se_b64 = \<lparr>no_pad_decode = (\<lambda>s. Some (as_bytes s)), url_safe_encode = string_of_bytes\<rparr>,
     se_instant = t, se_oversleep = 0\<rparr>"

theorem control_rate_bounded_witness:
  "real (length (filter control_call (ws_run (fst (ws_open (demo_sig 0) (server_new True ''node'')))
     [(demo_sig 1, ''ping'', server_new True ''node''), (demo_sig 2, ''pong'', server_new True ''node'')]))) \<le> 72"
  using control_rate_bounded [of "demo_sig 0" "[(demo_sig 1, ''ping'', server_new True ''node''), (demo_sig 2, ''pong'', server_new True ''node'')]"
      "server_new True ''node''"]
  by (simp add: demo_sig_def)

subsection \<open>What the exemption from the replay guard costs\<close>

text \<open>A channel whose writer has ended: it takes no frame.\<close>

definition shut :: "SignalingState \<Rightarrow> nat \<Rightarrow> bool" where
  "shut st c \<longleftrightarrow> map_option ch_closed (hm_get (sg_chans st) c) \<noteq> Some False"

lemma shut_takes_nothing: "shut st c \<Longrightarrow> tx_send st c js = (False, st)"
  by (auto simp: shut_def tx_send_def split: option.splits)

lemma shut_close: "shut (close_channel st c) c"
  by (auto simp: shut_def close_channel_def coll_simps)

lemma shut_tx_send: "shut st c \<Longrightarrow> shut (snd (tx_send st d js)) c"
  by (auto simp: shut_def tx_send_def Let_def coll_simps split: option.splits)

lemma shut_send_first: "shut st c \<Longrightarrow> shut (snd (send_first st cs js)) c"
proof (induction cs arbitrary: st)
  case (Cons d cs)
  then show ?case using shut_tx_send [of st c d js] by (simp add: case_prod_beta)
qed simp

lemma shut_send_all: "shut st c \<Longrightarrow> shut (snd (send_all env t ds js w st)) c"
  by (induction ds arbitrary: st) (simp_all add: case_prod_beta send_to_endpoint_def Let_def shut_send_first)

lemma shut_relay: "shut st c \<Longrightarrow> shut (snd (ws_relay env our m raw st)) c"
  by (auto simp: ws_relay_def send_to_target_def Let_def shut_send_all shut_tx_send split: option.splits)

lemma ws_register_takes_over:
  assumes "sm_source_device m = None" "routes_get (se_b64 env) (peer_sockets st) (sm_sender m) = Some old"
  shows "\<exists>wc' st'. ws_register env m wc st = (Some wc', st') \<and> wc_peer_id wc' = Some (sm_sender m) \<and> wc_tx wc' = wc_tx wc \<and> shut st' old \<and>
    routes_get (se_b64 env) (peer_sockets st') (sm_sender m) = Some (wc_tx wc)"
proof -
  let ?e = "se_b64 env" and ?st = "bind_queue_budget st (sm_sender m) (wc_tx wc)"
  have p: "peer_sockets ?st = peer_sockets st" using presence_queues(3) [of st "sm_sender m" "wc_tx wc"] by (simp add: presence_def)
  have old: "fst (routes_insert ?e (peer_sockets st) (sm_sender m) (wc_tx wc)) = Some old"
    using assms(2) by (auto simp: routes_insert_def routes_get_def get_endpoint_def slots_def Let_def split: option.splits)
  have new: "routes_get ?e (snd (routes_insert ?e (peer_sockets st) (sm_sender m) (wc_tx wc))) (sm_sender m) = Some (wc_tx wc)"
    by (simp add: routes_get_def get_endpoint_slot coll_simps)
  show ?thesis using assms(1) old new p
    by (auto simp: ws_register_def Let_def case_prod_beta shut_close split: option.splits) (auto simp: close_channel_def)
qed

lemma ready_bind [simp]: "device_routing_ready (bind_queue_budget st i c) = device_routing_ready st"
  by (simp add: bind_queue_budget_def Let_def split: option.splits)

lemma ws_register_ready: "device_routing_ready (snd (ws_register env m wc st)) = device_routing_ready st"
  by (auto simp: ws_register_def Let_def case_prod_beta close_channel_def split: sum.splits option.splits)

text \<open>
  C12: a frame that was seen once takes over the socket of a client without device routing. Audio and file frames
  are not checked for replay, and the first frame of a connection registers it. Take such a frame that names no source and no
  target device, correctly signed and at most 300 s old, of an identity whose connection without a device is open:
  whoever opens another connection and sends the frame again is from then on the connection registered for that
  identity, while the identity's own connection is shut; the handler is told that the identity connected. No
  signature is made by the sender of the copy and the state of the replay guard does not matter. A client that
  has negotiated device routing names its device in every frame, and such a first frame is refused.
\<close>

theorem replayed_frame_takes_socket:
  assumes "length raw \<le> MAX_MESSAGE_BYTES" "message_from_json (se_wire env) raw = Some m" "replay_exempt (wm_type m)"
    "message_verify (se_wire env) m" "is_fresh (se_wire env) m 300" "sm_source_device m = None" "wm_target_device m = None"
    "device_routing_ready (sv_state sv)" "routes_get (se_b64 env) (peer_sockets (sv_state sv)) (sm_sender m) = Some victim"
    "\<not> shut (sv_state sv) victim"
  shows "case ws_text env raw (fst (ws_open env sv)) (snd (ws_open env sv)) of (calls, flow, wc, sv') \<Rightarrow>
    calls = [OnPeerConnected (sm_sender m), OnMessage m raw] \<and> flow = WsContinue \<and> wc_tx wc = wc_tx (fst (ws_open env sv)) \<and>
    routes_get (se_b64 env) (peer_sockets (sv_state sv')) (sm_sender m) = Some (wc_tx wc) \<and> shut (sv_state sv') victim"
proof -
  obtain wc sv1 where o: "ws_open env sv = (wc, sv1)" by fastforce
  obtain limited wc1 where r: "ws_rate env (wm_type m) wc = (limited, wc1)" by fastforce
  have wc: "wc_peer_id wc = None" and st: "presence (sv_state sv1) = presence (sv_state sv)" "device_routing_ready (sv_state sv1)"
    using o assms(8) presence_queues(4) [of "sv_state sv"] by (auto simp: ws_open_def peer_channel_def Let_def)
  have wc1: "wc_peer_id wc1 = None" "wc_tx wc1 = wc_tx wc" using ws_rate_frame [of env "wm_type m" wc] r wc by simp_all
  have "\<not> limited" using r assms(3) by (auto simp: ws_rate_def replay_exempt_def split: if_splits)
  then have pass: "ws_passes env raw m wc wc1 sv1" using assms r wc1 by (auto simp: ws_passes_def ws_violates_def)
  have "routes_get (se_b64 env) (peer_sockets (sv_state sv1)) (sm_sender m) = Some victim" using assms(9) st(1) by (simp add: presence_def)
  from ws_register_takes_over [OF assms(6) this, of wc1] wc1(2)
  obtain wc' st' where reg: "ws_register env m wc1 (sv_state sv1) = (Some wc', st')" "wc_tx wc' = wc_tx wc" "shut st' victim"
    "routes_get (se_b64 env) (peer_sockets st') (sm_sender m) = Some (wc_tx wc)" by auto
  obtain logged st2 where rel: "ws_relay env (sv_our_id sv1) m raw st' = (logged, st2)" by fastforce
  have "device_routing_ready st'" using reg(1) st(2) ws_register_ready [of env m wc1 "sv_state sv1"] by simp
  then have logged using rel by (auto simp: ws_relay_def split: option.splits if_splits)
  moreover have "shut st2 victim" using shut_relay [OF reg(3), of env "sv_our_id sv1" m raw] rel by simp
  moreover have "peer_sockets st2 = peer_sockets st'" using presence_send(3) [of env "sv_our_id sv1" m raw st'] rel by (simp add: presence_def)
  ultimately show ?thesis using reg rel o wc1(1) by (simp add: ws_text_passes [OF pass] Let_def)
qed

definition demo_received :: "MessageType \<Rightarrow> WireMessage" where
  "demo_received mt = (message_sign demo_wire (demo_message mt))\<lparr>wm_timestamp_raw := Some (Wire.JNum 0)\<rparr>"

lemma demo_received_fields [simp]:
  "wm_type (demo_received mt) = mt" "sm_sender (demo_received mt) = replicate 32 (CHR ''V'')" "sm_source_device (demo_received mt) = None"
  "wm_target (demo_received mt) = None" "wm_target_device (demo_received mt) = None" "sm_timestamp (demo_received mt) = 0"
  "sm_signature (demo_received mt) = Some (string_of_bytes (replicate 64 1))"
  by (simp_all add: demo_received_def message_sign_def demo_message_def message_new_def)

lemma demo_from_json: "mt \<in> set MESSAGE_TYPES \<Longrightarrow> message_from_json demo_wire mt = Some (demo_received mt)"
proof -
  assume "mt \<in> set MESSAGE_TYPES"
  moreover have "to_json demo_wire (message_sign demo_wire (demo_message mt)) = mt"
    by (simp add: to_json_def demo_wire_def json_get_sorted [OF message_fields_get(1)] message_fields_get message_sign_def demo_message_def message_new_def)
  moreover have "we_of_f64 demo_wire (sm_timestamp (message_sign demo_wire (demo_message mt))) = Wire.JNum 0"
    by (simp add: demo_wire_def message_sign_def demo_message_def message_new_def)
  ultimately show ?thesis using message_wire_roundtrip [OF demo_reads_back, of mt]
    by (simp add: demo_received_def) (simp add: message_sign_def demo_message_def message_new_def)
qed

lemma demo_valid: "message_verify demo_wire (demo_received mt)" "is_fresh demo_wire (demo_received mt) 300"
  by (simp_all add: message_verify_def is_fresh_def)

text \<open>A server to which one client has connected and sent an audio frame, the first of its connection.\<close>

definition demo_connected :: "(WsConn \<times> SignalingServer)" where
  "demo_connected = (case ws_text (demo_sig 0) ''sfu_audio'' (fst (ws_open (demo_sig 0) (server_new True ''node''))) (snd (ws_open (demo_sig 0) (server_new True ''node''))) of
     (_, _, wc, sv) \<Rightarrow> (wc, sv))"

lemma demo_connected_state:
  "routes_get (se_b64 (demo_sig 0)) (peer_sockets (sv_state (snd demo_connected))) (replicate 32 (CHR ''V'')) = Some (wc_tx (fst demo_connected))"
  "\<not> shut (sv_state (snd demo_connected)) (wc_tx (fst demo_connected))" "device_routing_ready (sv_state (snd demo_connected))"
proof -
  let ?env = "demo_sig 0" and ?m = "demo_received ''sfu_audio''"
  define wc sv where open1: "wc = fst (ws_open ?env (server_new True ''node''))" "sv = snd (ws_open ?env (server_new True ''node''))"
  have wc: "wc_tx wc = 0" "wc_peer_id wc = None" "ws_rate ?env ''sfu_audio'' wc = (False, wc)"
    by (simp_all add: open1 ws_open_def peer_channel_def server_new_def signaling_new_def ws_rate_def is_bulk_file_data_def Let_def)
  have sv: "peer_sockets (sv_state sv) = routes_default" "hm_get (sg_chans (sv_state sv)) 0 = Some \<lparr>ch_queue = [], ch_budget = 0, ch_closed = False, ch_rx_gone = False\<rparr>"
    "device_routing_ready (sv_state sv)" "queue_budgets (sv_state sv) = []"
    by (simp_all add: open1 ws_open_def peer_channel_def server_new_def signaling_new_def Let_def hm_get_def)
  have pass: "ws_passes ?env ''sfu_audio'' ?m wc wc sv"
    using wc sv by (simp add: ws_passes_def ws_violates_def demo_sig_def demo_from_json demo_valid MESSAGE_TYPES_def MAX_MESSAGE_BYTES_def replay_exempt_def)
  obtain wc' st where reg: "ws_register ?env ?m wc (sv_state sv) = (Some wc', st)" "wc_tx wc' = 0"
    "routes_get (se_b64 ?env) (peer_sockets st) (replicate 32 (CHR ''V'')) = Some 0" "\<not> shut st 0" "device_routing_ready st"
  proof -
    let ?st = "bind_queue_budget (sv_state sv) (replicate 32 (CHR ''V'')) 0"
    have bind: "peer_sockets ?st = routes_default" "map_option ch_closed (hm_get (sg_chans ?st) 0) = Some False" "device_routing_ready ?st"
      using sv by (simp_all add: bind_queue_budget_def Let_def coll_simps)
    have none: "fst (routes_insert (se_b64 ?env) routes_default (replicate 32 (CHR ''V'')) (0 :: nat)) = None"
      by (simp add: routes_insert_def routes_default_def slots_def Let_def coll_simps)
    have new: "routes_get (se_b64 ?env) (snd (routes_insert (se_b64 ?env) routes_default (replicate 32 (CHR ''V'')) (0 :: nat))) (replicate 32 (CHR ''V'')) = Some 0"
      by (simp add: routes_get_def get_endpoint_slot coll_simps)
    show thesis using that bind none new wc
      by (auto simp: ws_register_def Let_def case_prod_beta shut_def split: option.splits)
  qed
  have "ws_relay ?env (sv_our_id sv) ?m ''sfu_audio'' st = (True, st)" by (simp add: ws_relay_def)
  then have first: "ws_text ?env ''sfu_audio'' wc sv = ([OnPeerConnected (sm_sender ?m), OnMessage ?m ''sfu_audio''], WsContinue, wc', sv\<lparr>sv_state := st\<rparr>)"
    using reg wc by (simp add: ws_text_passes [OF pass] Let_def replay_exempt_def)
  then have eq: "demo_connected = (wc', sv\<lparr>sv_state := st\<rparr>)" by (simp add: demo_connected_def open1 [symmetric])
  show "routes_get (se_b64 (demo_sig 0)) (peer_sockets (sv_state (snd demo_connected))) (replicate 32 (CHR ''V'')) = Some (wc_tx (fst demo_connected))"
    "\<not> shut (sv_state (snd demo_connected)) (wc_tx (fst demo_connected))" "device_routing_ready (sv_state (snd demo_connected))"
    unfolding eq using reg(2-5) by simp_all
qed

text \<open>The same text on a second connection ends the first.\<close>

theorem replayed_frame_takes_socket_witness:
  "\<not> shut (sv_state (snd demo_connected)) (wc_tx (fst demo_connected)) \<and>
   (case ws_text (demo_sig 0) ''sfu_audio'' (fst (ws_open (demo_sig 0) (snd demo_connected))) (snd (ws_open (demo_sig 0) (snd demo_connected))) of (calls, flow, wc, sv') \<Rightarrow>
     calls = [OnPeerConnected (replicate 32 (CHR ''V'')), OnMessage (demo_received ''sfu_audio'') ''sfu_audio''] \<and> flow = WsContinue \<and>
     shut (sv_state sv') (wc_tx (fst demo_connected)))"
  using replayed_frame_takes_socket [of "''sfu_audio''" "demo_sig 0" "demo_received ''sfu_audio''" "snd demo_connected" "wc_tx (fst demo_connected)"] demo_connected_state
  by (auto simp: demo_sig_def demo_from_json demo_valid MESSAGE_TYPES_def MAX_MESSAGE_BYTES_def replay_exempt_def)

definition demo_server :: SignalingServer where
  "demo_server = (let sv = server_new True ''node'' in
     sv\<lparr>sv_state := (sv_state sv)\<lparr>peer_sockets := snd (routes_insert (se_b64 (demo_sig 0)) routes_default (replicate 32 (CHR ''V'')) 7), sg_next := 8\<rparr>\<rparr>)"

subsection \<open>A log line that ends a connection without its cleanup\<close>

text \<open>
  C13: a text that does not verify can leave a ghost. When the text of a registered connection parses, is not
  rate limited, does not verify and has a character across its byte 500, the log line that quotes it panics:
  the task ends with no call to the handler and no cleanup, the identity stays in the table and in the count
  of connected identities, and the end of no other connection takes it out.
\<close>

theorem log_cut_leaves_ghost:
  assumes "wc_peer_id wc = Some p" "get_endpoint (se_b64 env) (peer_sockets (sv_state sv)) p (wc_device wc) = Some (wc_tx wc)"
    "length raw \<le> MAX_MESSAGE_BYTES" "message_from_json (se_wire env) raw = Some m" "\<not> fst (ws_rate env (wm_type m) wc)"
    "\<not> message_verify (se_wire env) m" "cut_panics raw 500" "wc_tx other \<noteq> wc_tx wc"
  shows "case ws_text env raw wc sv of (calls, flow, wc', sv') \<Rightarrow>
    calls @ fst (ws_finish env flow wc' sv') = [] \<and> connected_count (sv_state (snd (ws_finish env flow wc' sv'))) = connected_count (sv_state sv) \<and>
    get_endpoint (se_b64 env) (peer_sockets (sv_state (snd (ws_cleanup env other (snd (ws_finish env flow wc' sv')))))) p (wc_device wc)
      = Some (wc_tx wc)"
proof -
  have "ws_text env raw wc sv = ([], WsPanic, snd (ws_rate env (wm_type m) wc), sv)"
    using assms(3-7) by (simp add: ws_text_def case_prod_beta)
  moreover have "get_endpoint (se_b64 env) (peer_sockets (sv_state (snd (ws_cleanup env other sv)))) p (wc_device wc) = Some (wc_tx wc)"
    using assms(2, 8) by (auto simp: cleanup_sockets get_endpoint_slot coll_simps split: option.splits)
  ultimately show ?thesis by (simp add: ws_finish_def)
qed

definition demo_text :: string where
  "demo_text = replicate 499 (CHR ''x'') @ [CHR 0xC3, CHR 0xA9]"

definition demo_unsigned :: sig_env where
  "demo_unsigned = (demo_sig 0)\<lparr>se_wire := demo_wire\<lparr>we_parse := (\<lambda>_. Some (JObj [(''type'', Wire.JStr ''ping'')]))\<rparr>\<rparr>"

definition demo_conn :: WsConn where
  "demo_conn = (fst (ws_open (demo_sig 0) demo_server))\<lparr>wc_peer_id := Some (replicate 32 (CHR ''V'')), wc_tx := 7\<rparr>"

theorem log_cut_leaves_ghost_witness:
  "case ws_text demo_unsigned demo_text demo_conn demo_server of (calls, flow, wc', sv') \<Rightarrow>
    calls @ fst (ws_finish demo_unsigned flow wc' sv') = [] \<and>
    get_endpoint (se_b64 demo_unsigned) (peer_sockets (sv_state (snd (ws_cleanup demo_unsigned (demo_conn\<lparr>wc_tx := 8\<rparr>)
      (snd (ws_finish demo_unsigned flow wc' sv')))))) (replicate 32 (CHR ''V'')) None = Some 7"
proof -
  let ?m = "\<lparr>sm_sender = [], sm_source_device = None, sm_payload = JObj [], sm_timestamp = 0, sm_signature = None, wm_type = ''ping'', wm_target = None,
    wm_target_device = None, wm_version = PROTOCOL_VERSION, wm_timestamp_raw = None\<rparr>"
  have "message_from_json (se_wire demo_unsigned) demo_text = Some ?m"
    by (simp add: demo_unsigned_def message_from_json_def de_type_def MESSAGE_TYPES_def wire_device_def payload_or_def payload_str_def Let_def)
  moreover have "cut_panics demo_text 500" by code_simp
  moreover have "\<not> fst (ws_rate demo_unsigned ''ping'' demo_conn)"
    by (simp add: ws_rate_def is_bulk_file_data_def demo_conn_def ws_open_def case_prod_beta RATE_MAX_def Let_def)
  ultimately show ?thesis
    using log_cut_leaves_ghost [of demo_conn "replicate 32 (CHR ''V'')" demo_unsigned demo_server demo_text ?m "demo_conn\<lparr>wc_tx := 8\<rparr>"]
    by (auto simp: demo_conn_def ws_open_def case_prod_beta demo_unsigned_def demo_server_def server_new_def signaling_new_def get_endpoint_slot
        coll_simps Let_def MAX_MESSAGE_BYTES_def demo_text_def message_verify_def)
qed

end
