(* ===== verification/Content_Playout.thy ===== *)
theory Content_Playout
  imports Prelude
begin

section \<open>Playout of shared audio (\<open>content_playout.rs\<close>)\<close>

text \<open>
  The reorder buffer of one peer's shared audio and the table of all of them. One tick every 20 ms plays a
  frame, conceals a missing one or does nothing; played and concealed frames carry the timeline that video is
  held against (\<open>Media_Sync\<close>). Sequence numbers and timestamps keep their width.
\<close>

definition FRAME_DURATION_US :: u64 where "FRAME_DURATION_US = 20000"
definition JITTER_DEPTH :: nat where "JITTER_DEPTH = 3"
definition MAX_BUFFERED_FRAMES :: nat where "MAX_BUFFERED_FRAMES = JITTER_DEPTH * 4"
definition RESYNC_GAP :: u32 where "RESYNC_GAP = 50"
definition MAX_CONCEALED_FRAMES :: nat where "MAX_CONCEALED_FRAMES = 20"

definition saturating_add :: "u64 \<Rightarrow> u64 \<Rightarrow> u64" where
  "saturating_add a b = (if unat a + unat b < 2 ^ 64 then a + b else - 1)"

record PendingFrame =
  pf_seq :: u32
  pf_pts_us :: u64
  pf_opus :: bytes

datatype TickAction = Play PendingFrame | Conceal u64 | Idle

record JitterBuffer =
  jb_pending :: "PendingFrame list"
  jb_next_seq :: "u32 option"
  jb_next_pts_us :: u64
  jb_concealed_streak :: nat
  jb_buffering :: bool
  jb_fill_ticks :: nat

definition jitter_default :: JitterBuffer where
  "jitter_default = \<lparr>jb_pending = [], jb_next_seq = None, jb_next_pts_us = 0, jb_concealed_streak = 0, jb_buffering = True, jb_fill_ticks = 0\<rparr>"

definition jitter_push :: "PendingFrame \<Rightarrow> JitterBuffer \<Rightarrow> JitterBuffer" where
  "jitter_push frame b =
     (if list_ex (\<lambda>f. pf_seq f = pf_seq frame) (jb_pending b) then b
      else if (case jb_next_seq b of Some next \<Rightarrow> pf_seq frame < next \<and> next - pf_seq frame < RESYNC_GAP | None \<Rightarrow> False) then b
      else
        let pending = sort_key pf_seq (jb_pending b @ [frame])
        in b\<lparr>jb_pending := drop (length pending - MAX_BUFFERED_FRAMES) pending\<rparr>)"

definition conceal :: "bool \<Rightarrow> JitterBuffer \<Rightarrow> TickAction \<times> JitterBuffer" where
  "conceal advance_seq b =
     (if jb_concealed_streak b \<ge> MAX_CONCEALED_FRAMES then (Idle, jitter_default)
      else
        let b = (if advance_seq then b\<lparr>jb_next_seq := map_option (\<lambda>s. s + 1) (jb_next_seq b)\<rparr> else b);
            pts_us = jb_next_pts_us b
        in (Conceal pts_us, b\<lparr>jb_next_pts_us := saturating_add pts_us FRAME_DURATION_US, jb_concealed_streak := jb_concealed_streak b + 1\<rparr>))"

definition start_from :: "PendingFrame \<Rightarrow> JitterBuffer \<Rightarrow> JitterBuffer" where
  "start_from frame b =
     b\<lparr>jb_pending := filter (\<lambda>f. pf_seq f \<noteq> pf_seq frame) (jb_pending b), jb_next_seq := Some (pf_seq frame + 1),
       jb_next_pts_us := saturating_add (pf_pts_us frame) FRAME_DURATION_US, jb_concealed_streak := 0\<rparr>"

definition jitter_tick :: "JitterBuffer \<Rightarrow> TickAction \<times> JitterBuffer" where
  "jitter_tick b =
     (if jb_buffering b then
        let stalled = (jb_fill_ticks b \<ge> JITTER_DEPTH \<and> jb_pending b \<noteq> []) in
        if length (jb_pending b) < JITTER_DEPTH \<and> \<not> stalled then
          let b = b\<lparr>jb_fill_ticks := jb_fill_ticks b + 1\<rparr>
          in (case jb_next_seq b of Some _ \<Rightarrow> conceal False b | None \<Rightarrow> (Idle, b))
        else
          let b = b\<lparr>jb_buffering := False, jb_fill_ticks := 0\<rparr>
          in (case jb_pending b of first # _ \<Rightarrow> (Play first, start_from first b) | [] \<Rightarrow> (Idle, b))
      else
        case jb_next_seq b of None \<Rightarrow> (Idle, b)
        | Some expected \<Rightarrow>
            (case jb_pending b of
               first # _ \<Rightarrow>
                 if pf_seq first - expected \<ge> RESYNC_GAP \<or> length (jb_pending b) > JITTER_DEPTH \<or> pf_seq first = expected
                 then (Play first, start_from first b)
                 else conceal True b
             | [] \<Rightarrow> conceal False (b\<lparr>jb_buffering := True\<rparr>)))"

definition is_idle :: "JitterBuffer \<Rightarrow> bool" where
  "is_idle b \<longleftrightarrow> jb_next_seq b = None \<and> jb_pending b = []"

subsection \<open>All peers\<close>

type_synonym ContentPlayout = "(string, JitterBuffer) hmap"

definition content_accept :: "string \<Rightarrow> PendingFrame \<Rightarrow> ContentPlayout \<Rightarrow> ContentPlayout" where
  "content_accept peer frame p =
     hm_insert peer (jitter_push frame (case hm_get p peer of Some b \<Rightarrow> b | None \<Rightarrow> jitter_default)) p"

text \<open>\<open>retain\<close> with a closure that ticks each buffer in place and collects what is to be played.\<close>

fun content_tick :: "ContentPlayout \<Rightarrow> (string \<times> TickAction) list \<times> ContentPlayout" where
  "content_tick [] = ([], [])"
| "content_tick ((peer, b) # p) =
     (let (action, b) = jitter_tick b; (out, p) = content_tick p
      in if action = Idle then (out, if is_idle b then p else (peer, b) # p) else ((peer, action) # out, (peer, b) # p))"

definition content_forget :: "string \<Rightarrow> ContentPlayout \<Rightarrow> ContentPlayout" where
  "content_forget peer p = hm_remove peer p"

definition content_clear :: "ContentPlayout \<Rightarrow> ContentPlayout" where
  "content_clear p = []"

definition tracked_peers :: "ContentPlayout \<Rightarrow> nat" where
  "tracked_peers p = length p"

subsection \<open>The buffer is bounded and ordered\<close>

definition jb_ok :: "JitterBuffer \<Rightarrow> bool" where
  "jb_ok b \<longleftrightarrow> sorted_wrt (<) (map pf_seq (jb_pending b)) \<and> length (jb_pending b) \<le> 12 \<and> jb_concealed_streak b \<le> 20 \<and>
     (jb_buffering b \<or> jb_next_seq b \<noteq> None) \<and> (jb_next_seq b = None \<longrightarrow> jb_concealed_streak b = 0)"

lemmas playout_consts = JITTER_DEPTH_def MAX_BUFFERED_FRAMES_def RESYNC_GAP_def MAX_CONCEALED_FRAMES_def

lemma jb_ok_default [simp]: "jb_ok jitter_default"
  by (simp add: jb_ok_def jitter_default_def)

lemma strict_sorted_sort_key:
  assumes "distinct (map f xs)"
  shows "sorted_wrt (<) (map f (sort_key f xs :: 'a list) :: 'b :: linorder list)"
  using assms by (simp add: strict_sorted_iff distinct_map)

lemma sorted_wrt_map_drop: "sorted_wrt P (map f xs) \<Longrightarrow> sorted_wrt P (map f (drop n xs))"
  by (metis drop_map sorted_wrt_drop)

lemma sorted_wrt_map_filter: "sorted_wrt P (map f xs) \<Longrightarrow> sorted_wrt P (map f (filter Q xs))"
  by (induction xs) auto

lemma jb_ok_push: "jb_ok b \<Longrightarrow> jb_ok (jitter_push frame b)"
proof -
  assume ok: "jb_ok b"
  have "distinct (map pf_seq (jb_pending b))" using ok by (simp add: jb_ok_def strict_sorted_iff)
  then have "distinct (map pf_seq (jb_pending b @ [frame]))" if "\<not> list_ex (\<lambda>f. pf_seq f = pf_seq frame) (jb_pending b)"
    using that by (auto simp: list_ex_iff)
  note srt = strict_sorted_sort_key [OF this]
  show ?thesis using ok sorted_wrt_map_drop [OF srt]
    by (auto simp: jitter_push_def jb_ok_def Let_def playout_consts)
qed

lemma jb_ok_start: "jb_ok b \<Longrightarrow> jb_pending b' = jb_pending b \<Longrightarrow> jb_ok (start_from f b')"
  by (auto simp: jb_ok_def start_from_def sorted_wrt_map_filter intro: order_trans [OF length_filter_le])

lemma jb_ok_conceal: "jb_ok b \<Longrightarrow> jb_next_seq b \<noteq> None \<Longrightarrow> jb_ok (snd (conceal a b))"
  by (auto simp: jb_ok_def conceal_def jitter_default_def Let_def playout_consts)

lemma start_from_fields [simp]:
  "jb_next_seq (start_from f b) = Some (pf_seq f + 1)" "jb_concealed_streak (start_from f b) = 0" "jb_buffering (start_from f b) = jb_buffering b"
  "jb_next_pts_us (start_from f b) = saturating_add (pf_pts_us f) FRAME_DURATION_US"
  by (simp_all add: start_from_def)

lemma start_from_head: "jb_ok b \<Longrightarrow> jb_pending b = f # fs \<Longrightarrow> jb_pending b' = f # fs \<Longrightarrow> jb_pending (start_from f b') = fs"
  by (auto simp: start_from_def jb_ok_def intro!: filter_True)

text \<open>The three things a tick does: play the head, conceal, or wait for the cushion before anything was played.\<close>

lemma jitter_tick_cases:
  assumes ok: "jb_ok b"
  obtains (play) f fs b' where "jb_pending b = f # fs" "jitter_tick b = (Play f, start_from f b')" "jb_pending (start_from f b') = fs"
      "jb_ok (start_from f b')" "\<not> jb_buffering b'"
    | (gap) adv b' where "jb_next_seq b \<noteq> None" "jitter_tick b = conceal adv b'" "jb_ok b'" "jb_pending b' = jb_pending b"
      "jb_next_seq b' = jb_next_seq b" "jb_concealed_streak b' = jb_concealed_streak b" "jb_next_pts_us b' = jb_next_pts_us b"
      "adv = (\<not> jb_buffering b \<and> jb_pending b \<noteq> [])"
    | (fill) "jb_next_seq b = None" "jitter_tick b = (Idle, b\<lparr>jb_fill_ticks := jb_fill_ticks b + 1\<rparr>)" "jb_pending b = [] \<or> jb_fill_ticks b < 3"
proof (cases "jb_buffering b")
  case buf: True
  let ?wait = "length (jb_pending b) < 3 \<and> \<not> (jb_fill_ticks b \<ge> 3 \<and> jb_pending b \<noteq> [])"
  show thesis
  proof (cases ?wait)
    case True
    show thesis
    proof (cases "jb_next_seq b")
      case None
      then show thesis using buf True by (intro fill) (auto simp: jitter_tick_def playout_consts)
    next
      case (Some n)
      then show thesis using buf True ok
        by (intro gap [of False "b\<lparr>jb_fill_ticks := jb_fill_ticks b + 1\<rparr>"]) (auto simp: jitter_tick_def playout_consts jb_ok_def)
    qed
  next
    case False
    then obtain f fs where p: "jb_pending b = f # fs" by (cases "jb_pending b") auto
    then show thesis using buf False jb_ok_start [OF ok, of "b\<lparr>jb_buffering := False, jb_fill_ticks := 0\<rparr>" f]
        start_from_head [OF ok p, of "b\<lparr>jb_buffering := False, jb_fill_ticks := 0\<rparr>"]
      by (intro play [of f fs "b\<lparr>jb_buffering := False, jb_fill_ticks := 0\<rparr>"]) (auto simp: jitter_tick_def playout_consts)
  qed
next
  case False
  then obtain n where n: "jb_next_seq b = Some n" using ok by (auto simp: jb_ok_def)
  show thesis
  proof (cases "jb_pending b")
    case Nil
    then show thesis using False n ok by (intro gap [of False "b\<lparr>jb_buffering := True\<rparr>"]) (auto simp: jitter_tick_def jb_ok_def)
  next
    case (Cons f fs)
    show thesis
    proof (cases "pf_seq f - n \<ge> RESYNC_GAP \<or> length (jb_pending b) > JITTER_DEPTH \<or> pf_seq f = n")
      case True
      then show thesis using False n jb_ok_start [OF ok, of b f] start_from_head [OF ok Cons Cons] Cons by (intro play [of f fs b]) (auto simp: jitter_tick_def)
    next
      case no: False
      then show thesis using False n ok Cons by (intro gap [of True b]) (auto simp: jitter_tick_def)
    qed
  qed
qed

lemma jb_ok_tick:
  assumes "jb_ok b"
  shows "jb_ok (snd (jitter_tick b))"
  using assms by (cases rule: jitter_tick_cases) (use assms in \<open>auto simp: jb_ok_conceal\<close>, auto simp: jb_ok_def)

subsection \<open>A peer that stops is forgotten\<close>

text \<open>Every tick without a new frame uses up a queued frame, a concealment or a wait for the cushion.\<close>

definition ticks_left :: "JitterBuffer \<Rightarrow> nat" where
  "ticks_left b = 21 * length (jb_pending b) + (20 - jb_concealed_streak b) + (if jb_next_seq b = None then 4 - min 3 (jb_fill_ticks b) else 0)"

lemma ticks_left_tick:
  assumes ok: "jb_ok b"
  shows "fst (jitter_tick b) = Idle \<and> is_idle (snd (jitter_tick b)) \<or> ticks_left (snd (jitter_tick b)) < ticks_left b"
  using ok
proof (cases rule: jitter_tick_cases)
  case (play f fs b')
  then show ?thesis using ok by (auto simp: ticks_left_def jb_ok_def)
next
  case (gap adv b')
  then show ?thesis using ok by (auto simp: conceal_def is_idle_def jitter_default_def ticks_left_def Let_def playout_consts jb_ok_def)
next
  case fill
  then show ?thesis using ok by (auto simp: is_idle_def ticks_left_def jb_ok_def)
qed

lemma ticks_left_bound: "jb_ok b \<Longrightarrow> ticks_left b \<le> 276"
  by (auto simp: ticks_left_def jb_ok_def)

definition playout_ok :: "ContentPlayout \<Rightarrow> bool" where
  "playout_ok p \<longleftrightarrow> hm_wf p \<and> list_all (\<lambda>(_, b). jb_ok b) p"

lemma content_tick_entries:
  assumes "playout_ok p"
  shows "playout_ok (snd (content_tick p)) \<and> set (map fst (snd (content_tick p))) \<subseteq> set (map fst p)"
proof -
  have sub: "set (map fst (snd (content_tick p))) \<subseteq> set (map fst p)" for p
  proof (induction p)
    case (Cons x p)
    then show ?case by (cases x) (auto simp: case_prod_beta Let_def)
  qed simp
  have "playout_ok p \<Longrightarrow> playout_ok (snd (content_tick p))" for p
  proof (induction p)
    case (Cons x p)
    obtain peer b where x: "x = (peer, b)" by fastforce
    have p: "peer \<notin> set (map fst p)" "jb_ok (snd (jitter_tick b))" "playout_ok (snd (content_tick p))"
      using Cons x by (auto simp: playout_ok_def hm_wf_def jb_ok_tick)
    then show ?case using sub [of p] x by (auto simp: case_prod_beta Let_def playout_ok_def hm_wf_def)
  qed simp
  then show ?thesis using assms sub by blast
qed

lemma content_tick_get:
  assumes "playout_ok p"
  shows "hm_get (snd (content_tick p)) peer =
    (case hm_get p peer of None \<Rightarrow> None
     | Some b \<Rightarrow> (let (action, b) = jitter_tick b in if action = Idle \<and> is_idle b then None else Some b))"
  using assms
proof (induction p)
  case (Cons x p)
  obtain q b where x: "x = (q, b)" by fastforce
  have "playout_ok p" "q \<notin> set (map fst p)" using Cons.prems x by (auto simp: playout_ok_def hm_wf_def)
  moreover from this have "q \<notin> set (map fst (snd (content_tick p)))" using content_tick_entries [of p] by blast
  ultimately show ?case using Cons.IH x by (auto simp: case_prod_beta Let_def hm_get_def map_of_eq_None_iff split: if_splits)
qed simp

datatype content_op = AcceptFrame string PendingFrame | ContentTick | ForgetPeer string | ClearAll

fun content_step :: "ContentPlayout \<Rightarrow> content_op \<Rightarrow> ContentPlayout" where
  "content_step p (AcceptFrame peer frame) = content_accept peer frame p"
| "content_step p ContentTick = snd (content_tick p)"
| "content_step p (ForgetPeer peer) = content_forget peer p"
| "content_step p ClearAll = content_clear p"

lemma playout_ok_get: "playout_ok p \<Longrightarrow> hm_get p peer = Some b \<Longrightarrow> jb_ok b"
  by (auto simp: playout_ok_def list_all_iff dest: hm_get_SomeD)

lemma playout_ok_insert: "playout_ok p \<Longrightarrow> jb_ok b \<Longrightarrow> playout_ok (hm_insert peer b p)"
  using set_hm_insert [of peer b p] by (auto simp: playout_ok_def list_all_iff hm_wf_insert)

interpretation playout: invariant_system "[]" content_step playout_ok
proof
  show "playout_ok []" by (simp add: playout_ok_def)
  fix p e
  assume ok: "playout_ok p"
  show "playout_ok (content_step p e)"
  proof (cases e)
    case (AcceptFrame peer frame)
    then show ?thesis using ok playout_ok_get [OF ok, of peer]
      by (auto simp: content_accept_def jb_ok_push split: option.splits intro!: playout_ok_insert)
  next
    case (ForgetPeer peer)
    then show ?thesis using ok by (auto simp: content_forget_def playout_ok_def hm_wf_remove) (auto simp: hm_remove_def list_all_iff)
  qed (use ok content_tick_entries [OF ok] in \<open>simp_all add: content_clear_def playout_ok_def\<close>)
qed

fun accepts_from :: "string \<Rightarrow> content_op \<Rightarrow> bool" where
  "accepts_from peer (AcceptFrame q _) = (q = peer)"
| "accepts_from peer _ = False"

definition peer_ticks_left :: "ContentPlayout \<Rightarrow> string \<Rightarrow> nat" where
  "peer_ticks_left p peer = (case hm_get p peer of None \<Rightarrow> 0 | Some b \<Rightarrow> Suc (ticks_left b))"

lemma peer_ticks_left_step:
  assumes ok: "playout_ok p" and "\<not> accepts_from peer e"
  shows "peer_ticks_left (content_step p e) peer \<le> peer_ticks_left p peer - (if e = ContentTick then 1 else 0)"
proof (cases e)
  case ContentTick
  show ?thesis
  proof (cases "hm_get p peer")
    case None
    then show ?thesis using ContentTick by (simp add: peer_ticks_left_def content_tick_get [OF ok])
  next
    case (Some b)
    then show ?thesis using ContentTick ticks_left_tick [OF playout_ok_get [OF ok Some]]
      by (auto simp: peer_ticks_left_def content_tick_get [OF ok] case_prod_beta Let_def)
  qed
qed (use assms in \<open>auto simp: peer_ticks_left_def content_accept_def content_forget_def content_clear_def coll_simps\<close>)

lemma peer_ticks_left_run:
  assumes "playout_ok p" "list_all (\<lambda>e. \<not> accepts_from peer e) es"
  shows "peer_ticks_left (foldl content_step p es) peer \<le> peer_ticks_left p peer - count_list es ContentTick"
  using assms
proof (induction es arbitrary: p)
  case (Cons e es)
  let ?p = "content_step p e"
  have "peer_ticks_left (foldl content_step ?p es) peer \<le> peer_ticks_left ?p peer - count_list es ContentTick"
    using Cons.prems playout.inv_step [of p e] by (intro Cons.IH) simp_all
  moreover have "peer_ticks_left ?p peer \<le> peer_ticks_left p peer - (if e = ContentTick then 1 else 0)"
    using Cons.prems by (intro peer_ticks_left_step) simp_all
  ultimately show ?case by (auto split: if_splits)
qed simp

lemma forgotten_after:
  assumes "list_all (\<lambda>e. \<not> accepts_from peer e) later" "277 \<le> count_list later ContentTick"
  shows "hm_get (foldl content_step [] (before @ later)) peer = None"
proof -
  let ?p = "foldl content_step [] before"
  have ok: "playout_ok ?p" by (rule playout.inv_reachable)
  have "peer_ticks_left ?p peer \<le> 277"
    using ticks_left_bound [OF playout_ok_get [OF ok, of peer]] by (auto simp: peer_ticks_left_def split: option.splits)
  then have "peer_ticks_left (foldl content_step ?p later) peer = 0"
    using peer_ticks_left_run [OF ok assms(1)] assms(2) by linarith
  then show ?thesis by (simp add: peer_ticks_left_def split: option.splits)
qed

text \<open>
  Every buffer is bounded, and a peer that stops sharing audio is forgotten: once 277 ticks (5.54 s) have
  passed without a frame of the peer, whatever others send meanwhile, it has no buffer and no timeline left.
\<close>

theorem stopped_sharer_forgotten:
  assumes "list_all (\<lambda>e. \<not> accepts_from peer e) later" "277 \<le> count_list later ContentTick"
  shows "hm_get (foldl content_step [] (before @ later)) peer = None \<and>
    list_all (\<lambda>(_, b). length (jb_pending b) \<le> 12) (foldl content_step [] (before @ later))"
  using forgotten_after [OF assms, of before] playout.inv_reachable [of "before @ later"] by (auto simp: playout_ok_def jb_ok_def list_all_iff)

subsection \<open>A stream that arrives in time is played completely and in order\<close>

text \<open>One list of frames arrives before each tick.\<close>

fun playout_run :: "PendingFrame list list \<Rightarrow> JitterBuffer \<Rightarrow> TickAction list \<times> JitterBuffer" where
  "playout_run [] b = ([], b)"
| "playout_run (fs # fss) b = (let (a, b) = jitter_tick (fold jitter_push fs b); (as, b) = playout_run fss b in (a # as, b))"

text \<open>
  Arrival in time, by the number of the frame in the stream: at tick \<open>i\<close> frame \<open>i\<close> has arrived, frames run at
  most eleven ahead, repeated ones are at most 49 old, and three have arrived before the first tick.
\<close>

fun timely :: "nat \<Rightarrow> nat list \<Rightarrow> nat list list \<Rightarrow> bool" where
  "timely i held [] = True"
| "timely i held (ks # kss) =
     (let held = held @ ks in
      i \<in> set held \<and> list_all (\<lambda>k. i \<le> k + 49 \<and> k < i + 12) ks \<and> (i = 0 \<longrightarrow> {1, 2} \<subseteq> set held) \<and> timely (Suc i) (filter (\<lambda>k. i < k) held) kss)"

text \<open>The buffer between ticks: the frames that have arrived and are still to be played, and where playout stands.\<close>

definition holds :: "(nat \<Rightarrow> PendingFrame) \<Rightarrow> u32 \<Rightarrow> nat \<Rightarrow> nat set \<Rightarrow> JitterBuffer \<Rightarrow> bool" where
  "holds F s i held b \<longleftrightarrow> jb_ok b \<and> held \<subseteq> {i ..< i + 12} \<and> set (jb_pending b) = F ` held \<and>
     (if i = 0 then jb_buffering b \<and> jb_next_seq b = None else \<not> jb_buffering b \<and> jb_next_seq b = Some (s + of_nat i))"

lemma seq_less:
  assumes "unat s + N < 2 ^ 32" "j < N" "k < N"
  shows "(s + of_nat j < s + of_nat k) = (j < k)" "(s + of_nat j = s + of_nat k) = (j = k)" "j \<le> k \<Longrightarrow> unat ((s + of_nat k) - (s + of_nat j) :: u32) = k - j"
proof -
  have u: "unat (s + of_nat n :: u32) = unat s + n" if "n < N" for n
    using that assms(1) by (simp add: unat_word_ariths unat_of_nat)
  show "(s + of_nat j < s + of_nat k) = (j < k)" using u [OF assms(2)] u [OF assms(3)] by (simp add: word_less_nat_alt)
  show eq: "(s + of_nat j = s + of_nat k) = (j = k)" using u [OF assms(2)] u [OF assms(3)] by (metis add_left_cancel)
  show "unat ((s + of_nat k) - (s + of_nat j) :: u32) = k - j" if "j \<le> k"
    using that u [OF assms(2)] u [OF assms(3)] by (subst unat_sub) (simp_all add: word_le_nat_alt)
qed

lemma jitter_push_frame [simp]:
  "jb_buffering (jitter_push f b) = jb_buffering b" "jb_next_seq (jitter_push f b) = jb_next_seq b"
  by (simp_all add: jitter_push_def Let_def)

lemma holds_push:
  assumes F: "\<And>k. pf_seq (F k) = s + of_nat k" and N: "unat s + N < 2 ^ 32" "i + 12 \<le> N"
    and h: "holds F s i held b" and k: "i \<le> k + 49" "k < i + 12"
  shows "holds F s i (held \<union> ({k} \<inter> {i..})) (jitter_push (F k) b)"
proof -
  have ok: "jb_ok (jitter_push (F k) b)" using h by (simp add: holds_def jb_ok_push)
  have held: "held \<subseteq> {i ..< i + 12}" and set: "set (jb_pending b) = F ` held" using h by (auto simp: holds_def)
  have seqs: "(pf_seq (F j) = pf_seq (F k)) = (j = k)" if "j < N" for j using seq_less(2) [OF N(1) that, of k] k(2) N(2) F by simp
  have pend: "set (jb_pending (jitter_push (F k) b)) = F ` (held \<union> ({k} \<inter> {i..}))"
  proof (cases "k \<in> held")
    case True
    then have "list_ex (\<lambda>f. pf_seq f = pf_seq (F k)) (jb_pending b)" using set by (auto simp: list_ex_iff)
    then show ?thesis using True set held by (auto simp: jitter_push_def)
  next
    case new: False
    have notin: "\<not> list_ex (\<lambda>f. pf_seq f = pf_seq (F k)) (jb_pending b)" using new set seqs held N(2) by (auto simp: list_ex_iff)
    show ?thesis
    proof (cases "k < i")
      case True
      then have "jb_next_seq b = Some (s + of_nat i)" using h by (auto simp: holds_def)
      moreover have "s + of_nat k < s + (of_nat i :: u32)" "unat (s + of_nat i - (s + of_nat k :: u32)) = i - k"
        using seq_less [OF N(1), of k i] True N(2) by simp_all
      moreover from this(2) have "s + of_nat i - (s + of_nat k) < RESYNC_GAP" using True k(1) by (simp add: RESYNC_GAP_def word_less_nat_alt)
      ultimately have "jitter_push (F k) b = b" using notin F by (simp add: jitter_push_def)
      then show ?thesis using True set by simp
    next
      case False
      let ?p = "sort_key pf_seq (jb_pending b @ [F k])"
      have "\<not> (case jb_next_seq b of Some next \<Rightarrow> pf_seq (F k) < next \<and> next - pf_seq (F k) < RESYNC_GAP | None \<Rightarrow> False)"
        using h False seq_less(1) [OF N(1), of k i] N(2) k(2) F by (auto simp: holds_def split: if_splits)
      then have push: "jb_pending (jitter_push (F k) b) = drop (length ?p - MAX_BUFFERED_FRAMES) ?p"
        using notin by (simp add: jitter_push_def Let_def)
      have dist: "distinct (jb_pending b)" using h by (auto simp: holds_def jb_ok_def strict_sorted_iff distinct_map)
      have "F k \<notin> set (jb_pending b)" using notin by (auto simp: list_ex_iff)
      then have "distinct (jb_pending b @ [F k])" using dist by simp
      then have "length ?p = card (set (jb_pending b @ [F k]))" by (simp only: distinct_card length_sort)
      also have "set (jb_pending b @ [F k]) = F ` (insert k held)" using set by simp
      also have "card \<dots> \<le> card {i ..< i + 12}"
        using held False k(2) by (intro order_trans [OF card_image_le card_mono]) (auto intro: finite_subset)
      finally have "length ?p \<le> MAX_BUFFERED_FRAMES" by (simp add: playout_consts)
      then show ?thesis using push set False by auto
    qed
  qed
  show ?thesis using h ok pend held k(2) by (auto simp: holds_def)
qed

lemma holds_batch:
  assumes F: "\<And>k. pf_seq (F k) = s + of_nat k" and N: "unat s + N < 2 ^ 32" "i + 12 \<le> N"
    and "holds F s i held b" "list_all (\<lambda>k. i \<le> k + 49 \<and> k < i + 12) ks"
  shows "holds F s i (held \<union> (set ks \<inter> {i..})) (fold jitter_push (map F ks) b)"
  using assms(4, 5)
proof (induction ks arbitrary: held b)
  case (Cons k ks)
  then have "holds F s i (held \<union> ({k} \<inter> {i..})) (jitter_push (F k) b)" using holds_push [of F s N i held b k] F N by simp
  from Cons.IH [OF this] Cons.prems have "holds F s i (held \<union> ({k} \<inter> {i..}) \<union> (set ks \<inter> {i..})) (fold jitter_push (map F ks) (jitter_push (F k) b))" by simp
  moreover have "held \<union> ({k} \<inter> {i..}) \<union> (set ks \<inter> {i..}) = held \<union> (set (k # ks) \<inter> {i..})" by auto
  ultimately show ?case by simp
qed simp

lemma holds_tick:
  assumes F: "\<And>k. pf_seq (F k) = s + of_nat k" and N: "unat s + N < 2 ^ 32" "i + 12 \<le> N"
    and h: "holds F s i held b" and i: "i \<in> held" "i = 0 \<longrightarrow> {1, 2} \<subseteq> held"
  shows "fst (jitter_tick b) = Play (F i) \<and> holds F s (Suc i) (held - {i}) (snd (jitter_tick b))"
proof -
  have ok: "jb_ok b" and held: "held \<subseteq> {i ..< i + 12}" and set: "set (jb_pending b) = F ` held" using h by (auto simp: holds_def)
  have Fi: "F i \<in> set (jb_pending b)" using set i by blast
  then obtain f fs where p: "jb_pending b = f # fs" by (cases "jb_pending b") auto
  have "f = F i"
  proof (rule ccontr)
    assume "f \<noteq> F i"
    then have "pf_seq f < pf_seq (F i)" using ok p Fi by (auto simp: jb_ok_def)
    moreover obtain j where "j \<in> held" "f = F j" using set p by auto
    ultimately show False using seq_less(1) [OF N(1), of j i] held N(2) F by force
  qed
  have "i < N" and small: "j < N" if "j \<in> held" for j using that held N(2) by auto
  have inj: "F j \<noteq> F l" if "j \<in> held" "l \<in> held" "j \<noteq> l" for j l
    using seq_less(2) [OF N(1) small [OF that(1)] small [OF that(2)]] that(3) F by metis
  have rest: "set fs = F ` (held - {i})"
  proof -
    have "f \<notin> set fs" using ok p by (auto simp: jb_ok_def)
    then show ?thesis using set p \<open>f = F i\<close> inj [OF _ i(1)] by auto
  qed
  have "\<exists>b'. jitter_tick b = (Play f, start_from f b') \<and> \<not> jb_buffering b' \<and> jb_pending b' = f # fs"
  proof (cases "i = 0")
    case True
    then have "F ` {0, 1, 2} \<subseteq> set (jb_pending b)" using i set by auto
    moreover have "card (F ` {0, 1, 2}) = 3" using inj True i by (subst card_image) (auto simp: inj_on_def)
    ultimately have "3 \<le> length (jb_pending b)" by (metis List.finite_set card_length card_mono order_trans)
    then show ?thesis using h True p
      by (intro exI [of _ "b\<lparr>jb_buffering := False, jb_fill_ticks := 0\<rparr>"]) (auto simp: jitter_tick_def holds_def playout_consts)
  next
    case False
    then show ?thesis using h p \<open>f = F i\<close> F by (intro exI [of _ b]) (auto simp: jitter_tick_def holds_def)
  qed
  then obtain b' where b': "jitter_tick b = (Play f, start_from f b')" "\<not> jb_buffering b'" "jb_pending b' = f # fs" by blast
  have "jb_pending (start_from f b') = fs" "jb_ok (start_from f b')"
    using start_from_head [OF ok p b'(3)] jb_ok_start [OF ok, of b' f] p b'(3) by simp_all
  moreover have "held - {i} \<subseteq> {Suc i ..< Suc i + 12}" using held by fastforce
  ultimately show ?thesis using b' \<open>f = F i\<close> rest F by (simp add: holds_def add.commute add.left_commute)
qed

lemma playout_run_timely:
  assumes F: "\<And>k. pf_seq (F k) = s + of_nat k" and N: "unat s + N < 2 ^ 32"
    and "holds F s i (set held) b" "timely i held kss" "i + length kss + 12 \<le> N"
  shows "fst (playout_run (map (map F) kss) b) = map (\<lambda>k. Play (F k)) [i ..< i + length kss]"
  using assms(3-5)
proof (induction kss arbitrary: i held b)
  case (Cons ks kss)
  let ?b = "fold jitter_push (map F ks) b" and ?held = "set held \<union> (set ks \<inter> {i..})"
  have t: "i \<in> set held \<union> set ks" "list_all (\<lambda>k. i \<le> k + 49 \<and> k < i + 12) ks" "i = 0 \<longrightarrow> {1, 2} \<subseteq> set held \<union> set ks"
    "timely (Suc i) (filter (\<lambda>k. i < k) (held @ ks)) kss"
    using Cons.prems(2) by (simp_all add: Let_def)
  have h: "holds F s i ?held ?b" using holds_batch [of F s N i "set held" b ks] F N Cons.prems t by simp
  have "i \<in> ?held" "i = 0 \<longrightarrow> {1, 2} \<subseteq> ?held" using t(1, 3) by auto
  then have tick: "fst (jitter_tick ?b) = Play (F i)" "holds F s (Suc i) (?held - {i}) (snd (jitter_tick ?b))"
    using holds_tick [of F s N i ?held ?b] F N h Cons.prems(3) by simp_all
  have "set held \<subseteq> {i..}" using Cons.prems(1) by (auto simp: holds_def)
  then have "?held - {i} = set (filter (\<lambda>k. i < k) (held @ ks))" by auto
  then have "fst (playout_run (map (map F) kss) (snd (jitter_tick ?b))) = map (\<lambda>k. Play (F k)) [Suc i ..< Suc i + length kss]"
    using Cons.IH [of "Suc i" "filter (\<lambda>k. i < k) (held @ ks)" "snd (jitter_tick ?b)"] tick(2) t(4) Cons.prems(3) by simp
  moreover have "[i ..< i + length (ks # kss)] = i # [Suc i ..< Suc i + length kss]" by (simp add: upt_conv_Cons del: upt_Suc)
  ultimately show ?case using tick(1) by (simp add: case_prod_beta Let_def del: upt_Suc)
qed simp

text \<open>
  C17: shared audio that arrives in time is played completely, once and in order. Frames may arrive in any
  order, in bursts and repeatedly; as long as each has arrived by its tick, none runs more than eleven ahead
  and three are there before the first, the ticks play exactly the frames of the stream one after another and
  conceal nothing.
\<close>

theorem timely_stream_played:
  assumes "\<And>k. pf_seq (F k) = s + of_nat k" "unat s + length kss + 12 < 2 ^ 32" "timely 0 [] kss"
  shows "fst (playout_run (map (map F) kss) jitter_default) = map (\<lambda>k. Play (F k)) [0 ..< length kss]"
  using playout_run_timely [of F s "length kss + 12" 0 "[]" jitter_default kss] assms
  by (simp add: holds_def add.assoc) (simp add: jitter_default_def jb_ok_def)

theorem timely_stream_played_witness:
  "fst (playout_run (map (map (\<lambda>k. \<lparr>pf_seq = 7 + of_nat k, pf_pts_us = 0, pf_opus = []\<rparr>)) [[2, 0, 1, 0], [], [4, 3], [1]]) jitter_default)
   = map (\<lambda>k. Play \<lparr>pf_seq = 7 + of_nat k, pf_pts_us = 0, pf_opus = []\<rparr>) [0 ..< length [[2, 0, 1, 0], [], [4, 3], [1 :: nat]]]"
proof (rule timely_stream_played [where s = 7])
  show "timely 0 [] [[2, 0, 1, 0], [], [4, 3], [1]]" by code_simp
  have "unat (7 :: u32) = 7" by (simp add: unat_eq_nat_uint)
  then show "unat (7 :: u32) + length [[2, 0, 1, 0], [], [4, 3], [1 :: nat]] + 12 < 2 ^ 32" by simp
qed simp

end
