(* ===== verification/Media_Sync.thy ===== *)
theory Media_Sync
  imports Content_Playout Replay_Guard "HOL-Library.Multiset"
begin

section \<open>Video held against the audio timeline (\<open>media_sync.rs\<close>)\<close>

text \<open>
  Every played or concealed frame of shared audio anchors its peer's timeline; decoded video frames are
  shown, held or dropped by where that timeline stands. Timestamps are \<open>u64\<close> microseconds and the two
  unchecked additions wrap, as in a release build; an \<open>Instant\<close> is a real number of seconds.
\<close>

definition LATE_TOLERANCE_US :: u64 where "LATE_TOLERANCE_US = 50000"
definition EARLY_TOLERANCE_US :: u64 where "EARLY_TOLERANCE_US = 10000"
definition MAX_QUEUED_FRAMES :: nat where "MAX_QUEUED_FRAMES = 6"
definition ANCHOR_STALE_AFTER :: real where "ANCHOR_STALE_AFTER = 4 / 10"

record PlayoutAnchor =
  pa_pts_us :: u64
  pa_at :: real

definition as_micros :: "real \<Rightarrow> u64" where
  "as_micros d = of_int \<lfloor>d * 1000000\<rfloor>"

definition extrapolate :: "PlayoutAnchor \<Rightarrow> real \<Rightarrow> u64" where
  "extrapolate a now = saturating_add (pa_pts_us a) (as_micros (duration_since now (pa_at a)))"

definition is_stale :: "PlayoutAnchor \<Rightarrow> real \<Rightarrow> bool" where
  "is_stale a now \<longleftrightarrow> duration_since now (pa_at a) \<ge> ANCHOR_STALE_AFTER"

datatype SyncDecision = Show | Hold | Drop

definition decide_against :: "u64 option \<Rightarrow> u64 \<Rightarrow> SyncDecision" where
  "decide_against audio_now_us pts_us =
     (case audio_now_us of None \<Rightarrow> Show
      | Some audio_now \<Rightarrow>
          if pts_us + LATE_TOLERANCE_US < audio_now then Drop
          else if pts_us \<le> audio_now + EARLY_TOLERANCE_US then Show
          else Hold)"

record 't QueuedFrame =
  qv_pts_us :: u64
  qv_payload :: 't

record 't VideoPlayout =
  vp_anchors :: "(string, PlayoutAnchor) hmap"
  vp_queues :: "(string, 't QueuedFrame list) hmap"

definition video_default :: "'t VideoPlayout" where
  "video_default = \<lparr>vp_anchors = [], vp_queues = []\<rparr>"

definition note_audio_played :: "string \<Rightarrow> u64 \<Rightarrow> real \<Rightarrow> 't VideoPlayout \<Rightarrow> 't VideoPlayout" where
  "note_audio_played peer pts_us instant v = v\<lparr>vp_anchors := hm_insert peer \<lparr>pa_pts_us = pts_us, pa_at = instant\<rparr> (vp_anchors v)\<rparr>"

definition audio_now_us :: "'t VideoPlayout \<Rightarrow> string \<Rightarrow> real \<Rightarrow> u64 option" where
  "audio_now_us v peer now =
     (case hm_get (vp_anchors v) peer of None \<Rightarrow> None
      | Some a \<Rightarrow> if is_stale a now then None else Some (extrapolate a now))"

definition decide :: "'t VideoPlayout \<Rightarrow> string \<Rightarrow> u64 \<Rightarrow> real \<Rightarrow> SyncDecision" where
  "decide v peer pts_us now = decide_against (audio_now_us v peer now) pts_us"

definition video_queue :: "'t VideoPlayout \<Rightarrow> string \<Rightarrow> 't QueuedFrame list" where
  "video_queue v peer = (case hm_get (vp_queues v) peer of None \<Rightarrow> [] | Some q \<Rightarrow> q)"

definition video_push :: "string \<Rightarrow> 't QueuedFrame \<Rightarrow> real \<Rightarrow> 't VideoPlayout \<Rightarrow> 't QueuedFrame list \<times> 't VideoPlayout" where
  "video_push peer frame now v =
     (let queue = sort_key qv_pts_us (video_queue v peer @ [frame]);
          queue = drop (length queue - MAX_QUEUED_FRAMES) queue;
          audio_now = audio_now_us v peer now
      in (filter (\<lambda>f. decide_against audio_now (qv_pts_us f) = Show) queue,
          v\<lparr>vp_queues := hm_insert peer (filter (\<lambda>f. decide_against audio_now (qv_pts_us f) = Hold) queue) (vp_queues v)\<rparr>))"

definition queued_len :: "'t VideoPlayout \<Rightarrow> string \<Rightarrow> nat" where
  "queued_len v peer = length (video_queue v peer)"

definition video_forget :: "string \<Rightarrow> 't VideoPlayout \<Rightarrow> 't VideoPlayout" where
  "video_forget peer v = v\<lparr>vp_anchors := hm_remove peer (vp_anchors v), vp_queues := hm_remove peer (vp_queues v)\<rparr>"

definition video_clear :: "'t VideoPlayout \<Rightarrow> 't VideoPlayout" where
  "video_clear v = video_default"

subsection \<open>The tick of shared audio (\<open>tick_playout\<close> of \<open>call_controller.rs\<close>)\<close>

definition CONTENT_DECODER_PREFIX :: string where "CONTENT_DECODER_PREFIX = CHR 0x01 # ''content:''"

definition content_decoder_key :: "string \<Rightarrow> string" where
  "content_decoder_key peer_id = CONTENT_DECODER_PREFIX @ peer_id"

definition note_action :: "real \<Rightarrow> string \<times> TickAction \<Rightarrow> 't VideoPlayout \<Rightarrow> 't VideoPlayout" where
  "note_action now = (\<lambda>(peer, action) v. case action of
     Play frame \<Rightarrow> note_audio_played peer (pf_pts_us frame) now v
   | Conceal pts_us \<Rightarrow> note_audio_played peer pts_us now v
   | Idle \<Rightarrow> v)"

definition content_slots :: "(string \<times> TickAction) list \<Rightarrow> (string \<times> bytes option) list" where
  "content_slots actions = List.map_filter (\<lambda>(peer, action). case action of
     Play frame \<Rightarrow> Some (content_decoder_key peer, Some (pf_opus frame)) | _ \<Rightarrow> None) actions"

definition tick_content ::
  "real \<Rightarrow> ContentPlayout \<Rightarrow> 't VideoPlayout option \<Rightarrow> (string \<times> bytes option) list \<times> ContentPlayout \<times> 't VideoPlayout option" where
  "tick_content now p v =
     (let (actions, p) = content_tick p in (content_slots actions, p, map_option (fold (note_action now) actions) v))"

subsection \<open>What happens to a decoded frame\<close>

text \<open>
  The audio clock of a peer in exact microseconds: the last audio played, carried forward, unless it was played
  400 ms ago or more. A frame is due from 10 ms before its time until 50 ms after it.
\<close>

definition audio_clock :: "'t VideoPlayout \<Rightarrow> string \<Rightarrow> real \<Rightarrow> nat option" where
  "audio_clock v peer now =
     (case hm_get (vp_anchors v) peer of None \<Rightarrow> None
      | Some a \<Rightarrow> if now - pa_at a \<ge> 4 / 10 then None else Some (unat (pa_pts_us a) + nat \<lfloor>max 0 (now - pa_at a) * 1000000\<rfloor>))"

definition is_due :: "nat option \<Rightarrow> nat \<Rightarrow> bool" where
  "is_due clock pts \<longleftrightarrow> (case clock of None \<Rightarrow> True | Some c \<Rightarrow> c \<le> pts + 50000 \<and> pts \<le> c + 10000)"

definition is_early :: "nat option \<Rightarrow> nat \<Rightarrow> bool" where
  "is_early clock pts \<longleftrightarrow> (case clock of None \<Rightarrow> False | Some c \<Rightarrow> c + 10000 < pts)"

definition is_late :: "nat option \<Rightarrow> nat \<Rightarrow> bool" where
  "is_late clock pts \<longleftrightarrow> (case clock of None \<Rightarrow> False | Some c \<Rightarrow> pts + 50000 < c)"

text \<open>The clock and the timestamps are far from the end of the 64-bit range.\<close>

definition no_wrap :: "nat option \<Rightarrow> 't QueuedFrame list \<Rightarrow> bool" where
  "no_wrap clock fs \<longleftrightarrow> (case clock of None \<Rightarrow> True | Some c \<Rightarrow> c + 10000 < 2 ^ 64) \<and> list_all (\<lambda>f. unat (qv_pts_us f) + 50000 < 2 ^ 64) fs"

lemma unat_plus_small: "unat (x :: u64) + unat y < 2 ^ 64 \<Longrightarrow> unat (x + y) = unat x + unat y"
  using unat_add_lem [of x y] by simp

lemma audio_now_clock:
  assumes "case audio_clock v peer now of None \<Rightarrow> True | Some c \<Rightarrow> c + 10000 < 2 ^ 64"
  shows "map_option unat (audio_now_us v peer now) = audio_clock v peer now"
proof (cases "hm_get (vp_anchors v) peer")
  case (Some a)
  show ?thesis
  proof (cases "now - pa_at a \<ge> 4 / 10")
    case False
    define n where "n = nat \<lfloor>max 0 (now - pa_at a) * 1000000\<rfloor>"
    have clock: "audio_clock v peer now = Some (unat (pa_pts_us a) + n)" using Some False by (simp add: audio_clock_def n_def)
    then have lt: "unat (pa_pts_us a) + n < 2 ^ 64" using assms by simp
    have "as_micros (duration_since now (pa_at a)) = word_of_nat n"
      by (simp add: as_micros_def duration_since_def n_def of_nat_nat max_def)
    then have "unat (as_micros (duration_since now (pa_at a))) = n" using lt by (simp add: unat_of_nat)
    then have "unat (extrapolate a now) = unat (pa_pts_us a) + n" using lt
      by (simp add: extrapolate_def saturating_add_def unat_plus_small)
    then show ?thesis using Some False clock by (simp add: audio_now_us_def is_stale_def duration_since_def ANCHOR_STALE_AFTER_def max_def)
  qed (use Some in \<open>simp add: audio_clock_def audio_now_us_def is_stale_def duration_since_def ANCHOR_STALE_AFTER_def max_def\<close>)
qed (simp add: audio_clock_def audio_now_us_def)

lemma decide_against_due:
  assumes "map_option unat a = clock" "case clock of None \<Rightarrow> True | Some c \<Rightarrow> c + 10000 < 2 ^ 64" "unat pts + 50000 < 2 ^ 64"
  shows "decide_against a pts = Show \<longleftrightarrow> is_due clock (unat pts)" "decide_against a pts = Hold \<longleftrightarrow> is_early clock (unat pts)"
    "decide_against a pts = Drop \<longleftrightarrow> is_late clock (unat pts)"
proof -
  have num: "unat LATE_TOLERANCE_US = 50000" "unat EARLY_TOLERANCE_US = 10000" by (simp_all add: LATE_TOLERANCE_US_def EARLY_TOLERANCE_US_def unat_eq_nat_uint)
  have sums: "unat (pts + LATE_TOLERANCE_US) = unat pts + 50000" "a = Some x \<Longrightarrow> unat (x + EARLY_TOLERANCE_US) = unat x + 10000" for x
    using unat_plus_small [of pts LATE_TOLERANCE_US] unat_plus_small [of x EARLY_TOLERANCE_US] assms by (auto simp: num)
  show "decide_against a pts = Show \<longleftrightarrow> is_due clock (unat pts)" "decide_against a pts = Hold \<longleftrightarrow> is_early clock (unat pts)"
    "decide_against a pts = Drop \<longleftrightarrow> is_late clock (unat pts)"
    using assms(1) sums by (auto simp: decide_against_def is_due_def is_early_def is_late_def word_less_nat_alt word_le_nat_alt split: option.splits)
qed

text \<open>
  C19: every decoded video frame is shown when it is due. When a frame is queued, the frames of its peer are put
  in the order of their timestamps and all but the newest six are shed. If the peer's last shared audio was played
  less than 400 ms ago, the audio clock is its timestamp carried forward: the frames from 10 ms
  ahead of the clock to 50 ms behind it are shown, oldest first, those further ahead are held, and those further
  behind are dropped. Otherwise all six are shown and none is held. No frame is lost or doubled in this, and
  the other peers' frames and all timelines stay as they were. The clock and the timestamps are taken to be
  more than 50 ms before the end of the 64-bit range, where the code's additions would wrap.
\<close>

theorem video_frames_accounted:
  assumes "no_wrap (audio_clock v peer now) (video_queue v peer @ [frame])"
  shows "let frames = sort_key qv_pts_us (video_queue v peer @ [frame]); newest = drop (length frames - 6) frames;
       clock = audio_clock v peer now; (out, v') = video_push peer frame now v
   in out = filter (\<lambda>f. is_due clock (unat (qv_pts_us f))) newest \<and>
      video_queue v' peer = filter (\<lambda>f. is_early clock (unat (qv_pts_us f))) newest \<and>
      mset (video_queue v peer @ [frame]) = mset (take (length frames - 6) frames) +
        mset (filter (\<lambda>f. is_late clock (unat (qv_pts_us f))) newest) + mset out + mset (video_queue v' peer) \<and>
      sorted (map qv_pts_us out) \<and> vp_anchors v' = vp_anchors v \<and> (other = peer \<or> video_queue v' other = video_queue v other)"
proof -
  define q where "q = sort_key qv_pts_us (video_queue v peer @ [frame])"
  define d where "d = drop (length q - 6) q"
  define clock where "clock = audio_clock v peer now"
  define D where "D = (\<lambda>f :: 'a QueuedFrame. decide_against (audio_now_us v peer now) (qv_pts_us f))"
  define v' where "v' = v\<lparr>vp_queues := hm_insert peer (filter (\<lambda>f. D f = Hold) d) (vp_queues v)\<rparr>"
  have push: "video_push peer frame now v = (filter (\<lambda>f. D f = Show) d, v')"
    by (simp add: video_push_def Let_def q_def d_def D_def v'_def MAX_QUEUED_FRAMES_def)
  have queue: "video_queue v' x = (if x = peer then filter (\<lambda>f. D f = Hold) d else video_queue v x)" for x
    by (simp add: v'_def video_queue_def coll_simps)
  have far: "case clock of None \<Rightarrow> True | Some c \<Rightarrow> c + 10000 < 2 ^ 64" using assms by (simp add: no_wrap_def clock_def)
  have "set d \<subseteq> set (video_queue v peer @ [frame])" using set_drop_subset [of "length q - 6" q] by (simp add: d_def q_def)
  then have pts: "unat (qv_pts_us f) + 50000 < 2 ^ 64" if "f \<in> set d" for f using that assms unfolding no_wrap_def list_all_iff by blast
  have "map_option unat (audio_now_us v peer now) = clock" using audio_now_clock [of v peer now] far by (simp add: clock_def)
  note D = decide_against_due [OF this far pts]
  have parts: "filter (\<lambda>f. D f = Show) d = filter (\<lambda>f. is_due clock (unat (qv_pts_us f))) d"
    "filter (\<lambda>f. D f = Hold) d = filter (\<lambda>f. is_early clock (unat (qv_pts_us f))) d"
    "filter (\<lambda>f. D f = Drop) d = filter (\<lambda>f. is_late clock (unat (qv_pts_us f))) d"
    using D by (auto simp: D_def intro!: filter_cong)
  have split3: "mset xs = mset (filter (\<lambda>f. D f = Drop) xs) + mset (filter (\<lambda>f. D f = Show) xs) + mset (filter (\<lambda>f. D f = Hold) xs)" for xs
  proof (induction xs)
    case (Cons x xs)
    then show ?case by (cases "D x") simp_all
  qed simp
  have "mset (video_queue v peer @ [frame]) = mset (take (length q - 6) q) + mset d"
    unfolding d_def by (metis append_take_drop_id mset_append mset_sort q_def)
  then have "mset (video_queue v peer @ [frame]) =
      mset (take (length q - 6) q) + mset (filter (\<lambda>f. D f = Drop) d) + mset (filter (\<lambda>f. D f = Show) d) + mset (filter (\<lambda>f. D f = Hold) d)"
    using split3 [of d] by (simp only: add.assoc)
  moreover have "sorted (map qv_pts_us d)" unfolding d_def q_def by (metis drop_map sorted_sort_key sorted_wrt_drop)
  then have "sorted (map qv_pts_us (filter (\<lambda>f. D f = Show) d))" by (rule sorted_filter)
  ultimately show ?thesis
    unfolding Let_def push prod.case queue q_def [symmetric] d_def [symmetric] clock_def [symmetric] by (simp add: parts v'_def)
qed

text \<open>Audio stamped 1 s was played 20 ms ago: of two frames the earlier one is due, the later one not yet.\<close>

theorem video_frames_accounted_witness:
  "let v = \<lparr>vp_anchors = [(''ann'', \<lparr>pa_pts_us = 1000000, pa_at = 5\<rparr>)], vp_queues = [(''ann'', [\<lparr>qv_pts_us = 1100000, qv_payload = ''b''\<rparr>])]\<rparr>
   in fst (video_push ''ann'' \<lparr>qv_pts_us = 1010000, qv_payload = ''a''\<rparr> (5 + 2 / 100) v) = [\<lparr>qv_pts_us = 1010000, qv_payload = ''a''\<rparr>] \<and>
      video_queue (snd (video_push ''ann'' \<lparr>qv_pts_us = 1010000, qv_payload = ''a''\<rparr> (5 + 2 / 100) v)) ''ann'' = [\<lparr>qv_pts_us = 1100000, qv_payload = ''b''\<rparr>]"
proof -
  let ?v = "\<lparr>vp_anchors = [(''ann'', \<lparr>pa_pts_us = 1000000, pa_at = 5\<rparr>)], vp_queues = [(''ann'', [\<lparr>qv_pts_us = 1100000, qv_payload = ''b''\<rparr>])]\<rparr>"
    and ?f = "\<lparr>qv_pts_us = 1010000, qv_payload = ''a''\<rparr>"
  have nums: "unat (1000000 :: u64) = 1000000" "unat (1100000 :: u64) = 1100000" "unat (1010000 :: u64) = 1010000" by (simp_all add: unat_eq_nat_uint)
  have clock: "audio_clock ?v ''ann'' (5 + 2 / 100) = Some 1020000" by (simp add: audio_clock_def hm_get_def nums)
  have queue: "video_queue ?v ''ann'' = [\<lparr>qv_pts_us = 1100000, qv_payload = ''b''\<rparr>]" by (simp add: video_queue_def hm_get_def)
  have "sort_key qv_pts_us (video_queue ?v ''ann'' @ [?f]) = [?f, \<lparr>qv_pts_us = 1100000, qv_payload = ''b''\<rparr>]" by (simp add: queue)
  then show ?thesis
    using video_frames_accounted [of ?v "''ann''" "5 + 2 / 100" ?f "''ann''"] unfolding clock
    by (simp add: no_wrap_def queue nums is_due_def is_early_def Let_def case_prod_beta)
qed

subsection \<open>Video runs free once the audio has stopped\<close>

text \<open>The receiver of shared audio and the video timeline together: what arrives, and the ticks with their instants.\<close>

datatype 't av_op = AvFrame string PendingFrame | AvTick real | AvForget string | AvClear | AvVideo string "'t QueuedFrame" real

fun av_step :: "ContentPlayout \<times> 't VideoPlayout \<Rightarrow> 't av_op \<Rightarrow> ContentPlayout \<times> 't VideoPlayout" where
  "av_step (p, v) (AvFrame peer frame) = (content_accept peer frame p, v)"
| "av_step (p, v) (AvTick now) = (let (_, p, v') = tick_content now p (Some v) in (p, the v'))"
| "av_step (p, v) (AvForget peer) = (content_forget peer p, v)"
| "av_step (p, v) AvClear = (content_clear p, v)"
| "av_step (p, v) (AvVideo peer frame now) = (p, snd (video_push peer frame now v))"

fun content_ops_of :: "'t av_op \<Rightarrow> content_op list" where
  "content_ops_of (AvFrame peer frame) = [AcceptFrame peer frame]"
| "content_ops_of (AvTick now) = [ContentTick]"
| "content_ops_of (AvForget peer) = [ForgetPeer peer]"
| "content_ops_of AvClear = [ClearAll]"
| "content_ops_of (AvVideo peer frame now) = []"

fun no_later :: "real \<Rightarrow> 't av_op \<Rightarrow> bool" where
  "no_later t (AvTick now) = (now \<le> t)"
| "no_later t _ = True"

fun av_audio :: "string \<Rightarrow> 't av_op \<Rightarrow> bool" where
  "av_audio peer (AvFrame q _) \<longleftrightarrow> q = peer"
| "av_audio peer _ \<longleftrightarrow> False"

fun av_tick :: "'t av_op \<Rightarrow> bool" where
  "av_tick (AvTick _) \<longleftrightarrow> True"
| "av_tick _ \<longleftrightarrow> False"

definition content_run :: "'t av_op list \<Rightarrow> content_op list" where
  "content_run es = concat (map content_ops_of es)"

lemma content_run_append [simp]: "content_run (a @ b) = content_run a @ content_run b"
  by (simp add: content_run_def)

lemma content_run_silent: "list_all (\<lambda>e. \<not> av_audio peer e) es \<Longrightarrow> list_all (\<lambda>e. \<not> accepts_from peer e) (content_run es)"
proof (induction es)
  case (Cons e es)
  then show ?case by (cases e) (auto simp: content_run_def)
qed (simp add: content_run_def)

lemma content_run_ticks: "count_list (content_run es) ContentTick = length (filter av_tick es)"
proof (induction es)
  case (Cons e es)
  then show ?case by (cases e) (auto simp: content_run_def)
qed (simp add: content_run_def)

lemma av_fst_step: "fst (av_step s e) = foldl content_step (fst s) (content_ops_of e)"
  by (cases s; cases e) (simp_all add: tick_content_def case_prod_beta Let_def)

lemma av_fst: "fst (foldl av_step s es) = foldl content_step (fst s) (content_run es)"
  by (induction es arbitrary: s) (simp_all add: content_run_def av_fst_step)

lemma video_push_anchors [simp]: "vp_anchors (snd (video_push peer frame now v)) = vp_anchors v"
  by (simp add: video_push_def Let_def)

lemma note_actions_none:
  "\<not> list_ex (\<lambda>(q, a). q = peer) actions \<Longrightarrow> hm_get (vp_anchors (fold (note_action now) actions v)) peer = hm_get (vp_anchors v) peer"
  by (induction actions arbitrary: v) (auto simp: note_action_def note_audio_played_def coll_simps split: TickAction.splits)

lemma note_actions_at:
  assumes "\<And>a. hm_get (vp_anchors v) peer = Some a \<Longrightarrow> pa_at a \<le> t" "now \<le> t"
    "hm_get (vp_anchors (fold (note_action now) actions v)) peer = Some a"
  shows "pa_at a \<le> t"
  using assms(1, 3)
proof (induction actions arbitrary: v)
  case (Cons x actions)
  have "pa_at a \<le> t" if "hm_get (vp_anchors (note_action now x v)) peer = Some a" for a
    using that Cons.prems(1) assms(2) by (cases x; cases "snd x") (auto simp: note_action_def note_audio_played_def coll_simps split: if_splits)
  then show ?case using Cons.IH [of "note_action now x v"] Cons.prems(2) by simp
qed simp

lemma content_tick_known: "(peer, a) \<in> set (fst (content_tick p)) \<Longrightarrow> hm_get p peer \<noteq> None"
proof (induction p)
  case (Cons x p)
  then show ?case by (cases x) (auto simp: case_prod_beta Let_def hm_get_def split: if_splits)
qed simp

lemma av_anchor_bound:
  assumes "list_all (no_later t) es" "\<And>a. hm_get (vp_anchors (snd s)) peer = Some a \<Longrightarrow> pa_at a \<le> t"
    "hm_get (vp_anchors (snd (foldl av_step s es))) peer = Some a"
  shows "pa_at a \<le> t"
  using assms
proof (induction es arbitrary: s)
  case (Cons e es)
  have "pa_at a \<le> t" if "hm_get (vp_anchors (snd (av_step s e))) peer = Some a" for a
    using that Cons.prems(1, 2) note_actions_at [of "snd s" peer t]
    by (cases s; cases e) (auto simp: tick_content_def case_prod_beta Let_def)
  then show ?case using Cons.IH [of "av_step s e"] Cons.prems by simp
qed simp

lemma av_silent_anchor:
  assumes "playout_ok (fst s)" "hm_get (fst s) peer = None" "list_all (\<lambda>e. \<not> av_audio peer e) es"
  shows "hm_get (vp_anchors (snd (foldl av_step s es))) peer = hm_get (vp_anchors (snd s)) peer"
  using assms
proof (induction es arbitrary: s)
  case (Cons e es)
  have silent: "list_all (\<lambda>e. \<not> accepts_from peer e) (content_ops_of e)" using content_run_silent [of peer "[e]"] Cons.prems(3) by (simp add: content_run_def)
  have ok: "playout_ok (fst (av_step s e))" unfolding av_fst_step by (rule playout.inv_run [OF Cons.prems(1)])
  have none: "hm_get (fst (av_step s e)) peer = None"
    using peer_ticks_left_run [OF Cons.prems(1) silent] Cons.prems(2) unfolding av_fst_step by (auto simp: peer_ticks_left_def split: option.splits)
  have "hm_get (vp_anchors (snd (av_step s e))) peer = hm_get (vp_anchors (snd s)) peer"
  proof (cases e)
    case (AvTick now)
    obtain p v where s: "s = (p, v)" by fastforce
    have "\<not> list_ex (\<lambda>(q, a). q = peer) (fst (content_tick p))" using content_tick_known [of peer _ p] Cons.prems(2) s by (auto simp: list_ex_iff)
    then show ?thesis using AvTick s by (simp add: tick_content_def case_prod_beta Let_def note_actions_none)
  qed (cases s; simp)+
  then show ?case using Cons.IH [OF ok none] Cons.prems(3) by simp
qed simp

text \<open>
  C39: video is not held against a timeline that has ended. Whatever was received and queued before, once a peer has
  sent no shared audio for 277 ticks and another 400 ms have passed, queueing a video frame of that peer shows at
  once every frame of the peer that is waiting (the newest six of them) and holds none, whatever the timestamps and
  whatever the other peers send: a share without sound after one with sound is never stuck behind the old clock.
\<close>

theorem video_runs_free:
  fixes before stop rest :: "'t av_op list"
  assumes "list_all (\<lambda>e. \<not> av_audio peer e) (stop @ rest)" "277 \<le> length (filter av_tick stop)"
    "list_all (no_later t) (before @ stop)" "t + 4 / 10 \<le> now"
  shows "let v = snd (foldl av_step ([], video_default) (before @ stop @ rest));
       frames = sort_key qv_pts_us (video_queue v peer @ [frame]); (out, v') = video_push peer frame now v
    in out = drop (length frames - 6) frames \<and> video_queue v' peer = []"
proof -
  let ?s = "foldl av_step ([], video_default) (before @ stop)"
  let ?v = "snd (foldl av_step ?s rest)"
  have "foldl content_step [] (content_run before @ content_run stop) = fst ?s" using av_fst [of "([], video_default)" "before @ stop"] by simp
  moreover have "list_all (\<lambda>e. \<not> accepts_from peer e) (content_run stop)" using assms(1) by (intro content_run_silent) simp
  ultimately have gone: "hm_get (fst ?s) peer = None" and ok: "playout_ok (fst ?s)"
    using forgotten_after [of peer "content_run stop" "content_run before"] assms(2) content_run_ticks [of stop]
      playout.inv_reachable [of "content_run before @ content_run stop"] by simp_all
  have "hm_get (vp_anchors ?v) peer = hm_get (vp_anchors (snd ?s)) peer"
    using assms(1) by (intro av_silent_anchor [OF ok gone]) simp
  moreover have "is_stale a now" if "hm_get (vp_anchors (snd ?s)) peer = Some a" for a
    using av_anchor_bound [OF assms(3) _ that] assms(4) by (auto simp: is_stale_def duration_since_def ANCHOR_STALE_AFTER_def video_default_def)
  ultimately have "audio_now_us ?v peer now = None" by (auto simp: audio_now_us_def split: option.splits)
  then show ?thesis
    by (simp add: video_push_def decide_against_def MAX_QUEUED_FRAMES_def Let_def video_queue_def coll_simps)
qed

theorem video_runs_free_witness:
  "let v = snd (foldl av_step ([], video_default :: nat VideoPlayout)
         ([AvFrame ''alice'' \<lparr>pf_seq = 7, pf_pts_us = 0, pf_opus = []\<rparr>] @ replicate 277 (AvTick 1) @ [AvTick 2]));
       frames = sort_key qv_pts_us (video_queue v ''alice'' @ [\<lparr>qv_pts_us = 5, qv_payload = 1\<rparr>]);
       (out, v') = video_push ''alice'' \<lparr>qv_pts_us = 5, qv_payload = 1\<rparr> 3 v
   in out = drop (length frames - 6) frames \<and> video_queue v' ''alice'' = []"
  by (rule video_runs_free [where t = 1]) (simp_all add: list_all_iff)

end
