(* ===== verification/Call_Audio.thy ===== *)
theory Call_Audio
  imports Media_Sync
begin

section \<open>Voice: mixing, levels and adaptation (\<open>call_controller.rs\<close>, \<open>agent_voice.rs\<close>)\<close>

text \<open>
  The functions of the call controller that need neither a device nor a codec: gains, the mix of several
  speakers, the noise gate, the decisions on jitter depth and bitrate, and the detector of utterances. PCM
  samples are integers, gains and loss are exact reals, and \<open>as u32\<close> or \<open>as i16\<close> of a float truncates.
\<close>

definition SAMPLES_PER_FRAME :: nat where "SAMPLES_PER_FRAME = 960"
definition DEFAULT_OUTGOING_BITRATE_BPS :: nat where "DEFAULT_OUTGOING_BITRATE_BPS = 128000"
definition MIN_OUTGOING_BITRATE_BPS :: nat where "MIN_OUTGOING_BITRATE_BPS = 16000"
definition MAX_OUTGOING_BITRATE_BPS :: nat where "MAX_OUTGOING_BITRATE_BPS = 192000"
definition MIN_JITTER_DEPTH :: nat where "MIN_JITTER_DEPTH = 2"
definition MAX_JITTER_DEPTH :: nat where "MAX_JITTER_DEPTH = 12"
definition JITTER_GROW_RATIO :: real where "JITTER_GROW_RATIO = 5 / 100"
definition JITTER_SHRINK_RATIO :: real where "JITTER_SHRINK_RATIO = 5 / 1000"
definition JITTER_SHRINK_STREAK :: nat where "JITTER_SHRINK_STREAK = 5"
definition MAX_UNDERRUN_GAP_FRAMES :: nat where "MAX_UNDERRUN_GAP_FRAMES = MAX_JITTER_DEPTH"
definition ROOM_AUDIO_SEQ_WINDOW :: nat where "ROOM_AUDIO_SEQ_WINDOW = 256"
definition ROOM_ABR_UNDERRUN_SIGNAL_PCT :: real where "ROOM_ABR_UNDERRUN_SIGNAL_PCT = 1"
definition MAX_PEER_VOLUME_PCT :: nat where "MAX_PEER_VOLUME_PCT = 200"

definition clamp :: "'a :: linorder \<Rightarrow> 'a \<Rightarrow> 'a \<Rightarrow> 'a" where
  "clamp lo hi x = (if x < lo then lo else if hi < x then hi else x)"

text \<open>\<open>as i16\<close> of a float: toward zero, saturating.\<close>

definition as_i16 :: "real \<Rightarrow> int" where
  "as_i16 y = clamp (- 32768) 32767 (if y < 0 then \<lceil>y\<rceil> else \<lfloor>y\<rfloor>)"

subsection \<open>Gains\<close>

record PeerMix =
  pm_muted :: bool
  pm_volume_pct :: nat

definition mix_default :: PeerMix where "mix_default = \<lparr>pm_muted = False, pm_volume_pct = 100\<rparr>"

definition is_content_decoder_key :: "string \<Rightarrow> bool" where
  "is_content_decoder_key key \<longleftrightarrow> take (length CONTENT_DECODER_PREFIX) key = CONTENT_DECODER_PREFIX"

definition mix_level :: "PeerMix option \<Rightarrow> real" where
  "mix_level m = (case m of None \<Rightarrow> 1 | Some m \<Rightarrow> if pm_muted m then 0 else real (pm_volume_pct m) / 100)"

definition resolve_mix_gain :: "string \<Rightarrow> (string, PeerMix) hmap \<Rightarrow> (string, PeerMix) hmap \<Rightarrow> string list \<Rightarrow> real" where
  "resolve_mix_gain slot peer_mix content_mix content_viewers =
     (if is_content_decoder_key slot then
        let peer = drop (length CONTENT_DECODER_PREFIX) slot
        in if peer \<notin> set content_viewers then 0 else mix_level (hm_get content_mix peer)
      else mix_level (hm_get peer_mix slot))"

subsection \<open>Mixing\<close>

definition soft_clip_sample :: "real \<Rightarrow> int" where
  "soft_clip_sample x =
     (let full = 32767; knee = 24576; a = \<bar>x\<bar>;
          y = (if a \<le> knee then x else (knee + (full - knee) * tanh ((a - knee) / (full - knee))) * sgn x)
      in as_i16 (clamp (- full) full y))"

fun add_frame :: "real list \<Rightarrow> int list \<Rightarrow> real \<Rightarrow> real list" where
  "add_frame (m # ms) (x # xs) g = (m + of_int x * g) # add_frame ms xs g"
| "add_frame ms _ g = ms"

definition mix_pcm_frames :: "(int list \<times> real) list \<Rightarrow> real \<Rightarrow> int list" where
  "mix_pcm_frames frames master_gain =
     (let len = Max (insert 0 (set (map (\<lambda>(f, _). length f) frames)));
          mix = fold (\<lambda>(f, peer_gain) mix. add_frame mix f peer_gain) frames (replicate len 0)
      in map (\<lambda>m. soft_clip_sample (m * master_gain)) mix)"

definition apply_noise_gate :: "int list \<Rightarrow> real \<Rightarrow> nat \<Rightarrow> int list \<times> real" where
  "apply_noise_gate frame noise_floor strength_idx =
     (if strength_idx = 0 \<or> frame = [] then (frame, noise_floor)
      else
        let rms = sqrt (sum_list (map (\<lambda>s. (real_of_int s)\<^sup>2) frame) / real (length frame));
            noise_floor = (if rms < noise_floor then noise_floor * (1 - 5 / 100) + rms * (5 / 100)
                           else noise_floor * (1 - 1 / 1000) + rms * (1 / 1000));
            noise_floor = max noise_floor 1;
            multiplier = (if strength_idx = 1 then 4 else if strength_idx = 2 then 8 else if strength_idx = 3 then 16 else 32);
            threshold = noise_floor * multiplier
        in (if rms < threshold
            then let gate_gain = clamp (5 / 100) 1 (sqrt (rms / threshold)) in map (\<lambda>s. as_i16 (of_int s * gate_gain)) frame
            else frame, noise_floor))"

subsection \<open>Adaptation\<close>

definition next_jitter_depth :: "nat \<Rightarrow> nat \<Rightarrow> nat \<Rightarrow> nat \<Rightarrow> nat \<times> nat" where
  "next_jitter_depth depth low_streak frames underruns =
     (if frames = 0 then (depth, low_streak)
      else
        let ratio = real underruns / real frames in
        if ratio > JITTER_GROW_RATIO \<and> depth < MAX_JITTER_DEPTH then (depth + 1, 0)
        else if ratio < JITTER_SHRINK_RATIO then
          let streak = low_streak + 1 in
          if streak \<ge> JITTER_SHRINK_STREAK \<and> depth > MIN_JITTER_DEPTH then (depth - 1, 0) else (depth, streak)
        else (depth, 0))"

definition as_u32 :: "real \<Rightarrow> nat" where
  "as_u32 y = nat (clamp 0 (2 ^ 32 - 1) \<lfloor>y\<rfloor>)"

definition next_bitrate :: "nat \<Rightarrow> nat \<Rightarrow> real \<Rightarrow> nat" where
  "next_bitrate current ceil_bps loss_pct =
     (let target = (if loss_pct > 10 then as_u32 (real current * (8 / 10))
                    else if loss_pct > 4 then current
                    else as_u32 (real current * (108 / 100)) + 1000)
      in clamp MIN_OUTGOING_BITRATE_BPS (max ceil_bps MIN_OUTGOING_BITRATE_BPS) target)"

definition next_room_bitrate :: "nat \<Rightarrow> nat \<Rightarrow> real \<Rightarrow> nat" where
  "next_room_bitrate current ceil_bps loss_pct =
     (let target = (if loss_pct > 10 then as_u32 (real current * (8 / 10))
                    else if loss_pct > 4 then as_u32 (real current * (104 / 100)) + 500
                    else as_u32 (real current * (110 / 100)) + 1000)
      in clamp MIN_OUTGOING_BITRATE_BPS (max ceil_bps MIN_OUTGOING_BITRATE_BPS) target)"

definition fec_hint_pct :: "real \<Rightarrow> nat" where
  "fec_hint_pct loss_ema = nat (clamp 0 50 (if loss_ema < 0 then \<lceil>loss_ema - 1 / 2\<rceil> else \<lfloor>loss_ema + 1 / 2\<rfloor>))"

definition update_room_loss_ema :: "real \<Rightarrow> nat \<Rightarrow> nat \<Rightarrow> real" where
  "update_room_loss_ema current_ema playout_underruns playout_frames =
     (if playout_frames = 0 then current_ema
      else if playout_underruns = 0 then max (current_ema * (50 / 100)) 0
      else
        let underrun_pct = real playout_underruns * 100 / real playout_frames in
        if underrun_pct > ROOM_ABR_UNDERRUN_SIGNAL_PCT then current_ema * (7 / 10) + underrun_pct * (3 / 10)
        else max (current_ema * (65 / 100)) 0)"

subsection \<open>Utterances of remote speakers\<close>

definition MAX_UTTERANCE_SAMPLES :: nat where "MAX_UTTERANCE_SAMPLES = 48000 * 8"
definition START_RMS :: real where "START_RMS = 400"
definition START_FRAMES :: nat where "START_FRAMES = 3"
definition END_SILENCE_FRAMES :: nat where "END_SILENCE_FRAMES = 25"

record UtterancePeer =
  up_buf :: "int list"
  up_voiced :: nat
  up_silent :: nat
  up_active :: bool

type_synonym UtteranceCollector = "(string, UtterancePeer) hmap"

definition utterance_default :: UtterancePeer where
  "utterance_default = \<lparr>up_buf = [], up_voiced = 0, up_silent = 0, up_active = False\<rparr>"

definition frame_rms :: "int list \<Rightarrow> real" where
  "frame_rms pcm = (if pcm = [] then 0 else sqrt (sum_list (map (\<lambda>s. of_int s * of_int s) pcm) / real (length pcm)))"

text \<open>\<open>u32::saturating_add(1)\<close>\<close>

definition sat_suc :: "nat \<Rightarrow> nat" where
  "sat_suc n = min (n + 1) (2 ^ 32 - 1)"

definition utterance_slot :: "int list \<Rightarrow> UtterancePeer \<Rightarrow> int list option \<times> UtterancePeer" where
  "utterance_slot pcm slot =
     (let slot = (if frame_rms pcm \<ge> START_RMS
            then let slot = slot\<lparr>up_voiced := sat_suc (up_voiced slot), up_silent := 0\<rparr>
                 in if \<not> up_active slot \<and> up_voiced slot \<ge> START_FRAMES then slot\<lparr>up_active := True, up_buf := []\<rparr> else slot
            else slot\<lparr>up_silent := sat_suc (up_silent slot), up_voiced := 0\<rparr>)
      in if \<not> up_active slot then (None, slot)
         else
           let slot = slot\<lparr>up_buf := up_buf slot @ pcm\<rparr> in
           if length (up_buf slot) \<ge> MAX_UTTERANCE_SAMPLES
           then (Some (up_buf slot), slot\<lparr>up_active := False, up_silent := 0, up_buf := []\<rparr>)
           else if up_silent slot \<ge> END_SILENCE_FRAMES
           then (if length (up_buf slot) < SAMPLES_PER_FRAME * 4 then None else Some (up_buf slot),
                 slot\<lparr>up_active := False, up_silent := 0, up_buf := []\<rparr>)
           else (None, slot))"

definition utterance_push :: "string \<Rightarrow> int list \<Rightarrow> UtteranceCollector \<Rightarrow> int list option \<times> UtteranceCollector" where
  "utterance_push peer_id pcm col =
     (if pcm = [] then (None, col)
      else
        let (out, slot) = utterance_slot pcm (case hm_get col peer_id of Some s \<Rightarrow> s | None \<Rightarrow> utterance_default)
        in (out, hm_insert peer_id slot col))"

end
