(* ===== verification/Call_Controller.thy ===== *)
theory Call_Controller
  imports Call_Audio File_Names Handshake
begin

section \<open>The call controller (\<open>call_controller.rs\<close>)\<close>

text \<open>
  The task that owns a call: its life cycle, the jitter queues of the speakers, playout, adaptation of jitter
  depth and bitrate, and the listener's preferences. Capture, the CPAL streams and the Opus codec are outside:
  what opening the devices answers, the PCM of a decoded frame and the room left in the playback ring come
  with the environment of a step. Events and commands to the connection manager are returned as a list; the
  receivers of the capture side are present exactly while a pipeline is, \<open>speak_prod\<close> is kept as a flag, and
  the state shared with the video receiver is a field that starts empty when it is handed over.
\<close>

datatype CallState = CallIdle | MicTest | Connecting | InCall | Disconnecting
datatype PeerAudioState = PaConnecting | PaConnected | PaDisconnected | PaFailed | PaClosed

definition call_state_str :: "CallState \<Rightarrow> string" where
  "call_state_str s = (case s of CallIdle \<Rightarrow> ''idle'' | MicTest \<Rightarrow> ''mic_test'' | Connecting \<Rightarrow> ''connecting'' | InCall \<Rightarrow> ''in_call''
     | Disconnecting \<Rightarrow> ''disconnecting'')"

definition peer_state_str :: "PeerAudioState \<Rightarrow> string" where
  "peer_state_str s = (case s of PaConnecting \<Rightarrow> ''connecting'' | PaConnected \<Rightarrow> ''connected'' | PaDisconnected \<Rightarrow> ''disconnected''
     | PaFailed \<Rightarrow> ''failed'' | PaClosed \<Rightarrow> ''closed'')"

type_synonym DefaultEndpointIds = "string option \<times> string option"

datatype call_out =
    StateChanged CallState
  | PeerAudioStateChanged string PeerAudioState
  | CaptureError string
  | MetricsUpdated "(string \<times> string \<times> nat) list"
  | LocalSpeakingChanged bool
  | LocalLevelChanged real
  | RemoteSpeakingChanged string bool
  | RemoteLevelChanged string real
  | OsDefaultMoved bool bool
  | RemoteUtterance string "int list"
  | ConnectDirect string string u16
  | SendAudioFrame string bytes
  | SendRoomAudio bytes
  | PlayPcm "int list"

record PeerAudioSession =
  ps_peer_id :: string
  ps_state :: PeerAudioState
  ps_jitter_depth :: nat

record AudioPipeline =
  ap_muted :: bool
  ap_noise_strength :: nat
  ap_outgoing_bitrate_bps :: nat
  ap_input_gain :: nat
  ap_output_gain :: nat
  ap_decoders :: "(string, int) hmap"
  ap_decoder_complexity :: int
  ap_peer_mix :: "(string, PeerMix) hmap"
  ap_content_mix :: "(string, PeerMix) hmap"
  ap_content_viewers :: "string list"
  ap_fec_loss_pct :: nat
  ap_ring_fill_ema :: real
  ap_opened_defaults :: DefaultEndpointIds

record call_env =
  ce_now :: real
  ce_defaults :: DefaultEndpointIds
  ce_open :: "string option \<Rightarrow> string option \<Rightarrow> string option"
  ce_decoder_new :: "string \<Rightarrow> bool"
  ce_decode :: "string \<Rightarrow> bytes option \<Rightarrow> (int list \<times> real) option"
  ce_ring_occupied :: nat
  ce_ring_capacity :: nat
  ce_agent_speaking :: bool

record 't CallController =
  cc_state :: CallState
  cc_muted :: bool
  cc_voice_activation :: bool
  cc_peers :: "(string, PeerAudioSession) hmap"
  cc_has_cm :: bool
  cc_room_mode :: bool
  cc_audio :: "AudioPipeline option"
  cc_speak_prod :: bool
  cc_local_speaking :: bool
  cc_input_device :: "string option"
  cc_output_device :: "string option"
  cc_last_os_defaults :: "DefaultEndpointIds option"
  cc_room_peer_last_audio :: "(string, real) hmap"
  cc_room_peer_last_level :: "(string, real) hmap"
  cc_peer_jitter_queues :: "(string, bytes list) hmap"
  cc_peer_playout_started :: "(string, bool) hmap"
  cc_peer_dry_slots :: "(string, nat) hmap"
  cc_peer_recent_seqs :: "(string, u64 list) hmap"
  cc_room_audio_dupes :: nat
  cc_jitter_depth :: nat
  cc_content_playout :: ContentPlayout
  cc_video_playout :: "'t VideoPlayout option"
  cc_jitter_adaptive :: bool
  cc_playout_frames :: nat
  cc_playout_underruns :: nat
  cc_jitter_low_streak :: nat
  cc_input_vol :: nat
  cc_output_vol :: nat
  cc_peer_prefs :: "(string, PeerMix) hmap"
  cc_content_prefs :: "(string, PeerMix) hmap"
  cc_content_viewers :: "string list"
  cc_noise_strength_idx :: nat
  cc_decoder_complexity :: int
  cc_outgoing_bitrate_bps :: nat
  cc_bitrate_ceiling_bps :: nat
  cc_net_loss_ema :: real
  cc_abr_warmup_ticks :: nat
  cc_agent_voice :: bool
  cc_listen_utterances :: bool
  cc_utterances :: UtteranceCollector

definition DECODER_COMPLEXITY_DEFAULT :: int where "DECODER_COMPLEXITY_DEFAULT = 5"

definition controller_new :: "bool \<Rightarrow> 't CallController" where
  "controller_new has_cm =
     \<lparr>cc_state = CallIdle, cc_muted = True, cc_voice_activation = False, cc_peers = [], cc_has_cm = has_cm, cc_room_mode = False,
      cc_audio = None, cc_speak_prod = False, cc_local_speaking = False, cc_input_device = None, cc_output_device = None,
      cc_last_os_defaults = None, cc_room_peer_last_audio = [], cc_room_peer_last_level = [], cc_peer_jitter_queues = [],
      cc_peer_playout_started = [], cc_peer_dry_slots = [], cc_peer_recent_seqs = [], cc_room_audio_dupes = 0, cc_jitter_depth = 3,
      cc_content_playout = [], cc_video_playout = None, cc_jitter_adaptive = True, cc_playout_frames = 0, cc_playout_underruns = 0,
      cc_jitter_low_streak = 0, cc_input_vol = 100, cc_output_vol = 100, cc_peer_prefs = [], cc_content_prefs = [], cc_content_viewers = [],
      cc_noise_strength_idx = 2, cc_decoder_complexity = DECODER_COMPLEXITY_DEFAULT, cc_outgoing_bitrate_bps = DEFAULT_OUTGOING_BITRATE_BPS,
      cc_bitrate_ceiling_bps = DEFAULT_OUTGOING_BITRATE_BPS, cc_net_loss_ema = 0, cc_abr_warmup_ticks = 0, cc_agent_voice = False,
      cc_listen_utterances = False, cc_utterances = []\<rparr>"

type_synonym 't cc_res = "call_out list \<times> 't CallController"

definition cc_then :: "'t cc_res \<Rightarrow> ('t CallController \<Rightarrow> 't cc_res) \<Rightarrow> 't cc_res" where
  "cc_then r f = (let (out, c) = r; (out', c) = f c in (out @ out', c))"

subsection \<open>Devices\<close>

definition owned_device_selection :: "string option \<Rightarrow> string option" where
  "owned_device_selection name =
     (case name of None \<Rightarrow> None
      | Some n \<Rightarrow> let trimmed = str_trim n in if trimmed = [] \<or> eq_ignore_ascii_case trimmed ''Default'' then None else Some trimmed)"

definition should_reopen_for_os_default :: "bool \<Rightarrow> bool \<Rightarrow> bool \<Rightarrow> bool \<Rightarrow> bool" where
  "should_reopen_for_os_default follow_input follow_output input_changed output_changed \<longleftrightarrow>
     follow_input \<and> input_changed \<or> follow_output \<and> output_changed"

subsection \<open>The pipeline\<close>

definition mix_entry :: "(PeerMix \<Rightarrow> PeerMix) \<Rightarrow> string \<Rightarrow> (string, PeerMix) hmap \<Rightarrow> (string, PeerMix) hmap" where
  "mix_entry f peer_id m = hm_insert peer_id (f (case hm_get m peer_id of Some x \<Rightarrow> x | None \<Rightarrow> mix_default)) m"

definition set_peer_muted :: "string \<Rightarrow> bool \<Rightarrow> AudioPipeline \<Rightarrow> AudioPipeline" where
  "set_peer_muted peer_id muted p = p\<lparr>ap_peer_mix := mix_entry (pm_muted_update (\<lambda>_. muted)) peer_id (ap_peer_mix p)\<rparr>"

definition set_peer_volume :: "string \<Rightarrow> nat \<Rightarrow> AudioPipeline \<Rightarrow> AudioPipeline" where
  "set_peer_volume peer_id pct p =
     p\<lparr>ap_peer_mix := mix_entry (pm_volume_pct_update (\<lambda>_. min pct MAX_PEER_VOLUME_PCT)) peer_id (ap_peer_mix p)\<rparr>"

definition set_content_muted :: "string \<Rightarrow> bool \<Rightarrow> AudioPipeline \<Rightarrow> AudioPipeline" where
  "set_content_muted peer_id muted p = p\<lparr>ap_content_mix := mix_entry (pm_muted_update (\<lambda>_. muted)) peer_id (ap_content_mix p)\<rparr>"

definition set_content_volume :: "string \<Rightarrow> nat \<Rightarrow> AudioPipeline \<Rightarrow> AudioPipeline" where
  "set_content_volume peer_id pct p = p\<lparr>ap_content_mix := mix_entry (pm_volume_pct_update (\<lambda>_. min pct 200)) peer_id (ap_content_mix p)\<rparr>"

definition set_content_viewers :: "string list \<Rightarrow> AudioPipeline \<Rightarrow> AudioPipeline" where
  "set_content_viewers peers p = p\<lparr>ap_content_viewers := remdups peers\<rparr>"

definition set_noise_strength :: "nat \<Rightarrow> AudioPipeline \<Rightarrow> AudioPipeline" where
  "set_noise_strength idx p = p\<lparr>ap_noise_strength := min idx 4\<rparr>"

definition set_outgoing_bitrate :: "nat \<Rightarrow> AudioPipeline \<Rightarrow> AudioPipeline" where
  "set_outgoing_bitrate bps p = p\<lparr>ap_outgoing_bitrate_bps := clamp MIN_OUTGOING_BITRATE_BPS MAX_OUTGOING_BITRATE_BPS bps\<rparr>"

definition set_decoder_complexity :: "int \<Rightarrow> AudioPipeline \<Rightarrow> AudioPipeline" where
  "set_decoder_complexity complexity p =
     (let complexity = clamp 0 10 complexity
      in p\<lparr>ap_decoder_complexity := complexity, ap_decoders := map (\<lambda>(k, _). (k, complexity)) (ap_decoders p)\<rparr>)"

definition set_fec_loss_pct :: "nat \<Rightarrow> AudioPipeline \<Rightarrow> AudioPipeline" where
  "set_fec_loss_pct pct p = p\<lparr>ap_fec_loss_pct := clamp 0 50 pct\<rparr>"

definition set_input_gain :: "nat \<Rightarrow> AudioPipeline \<Rightarrow> AudioPipeline" where
  "set_input_gain pct p = p\<lparr>ap_input_gain := min pct 200\<rparr>"

definition set_output_gain :: "nat \<Rightarrow> AudioPipeline \<Rightarrow> AudioPipeline" where
  "set_output_gain pct p = p\<lparr>ap_output_gain := min pct 200\<rparr>"

definition drop_decoder :: "string \<Rightarrow> AudioPipeline \<Rightarrow> AudioPipeline" where
  "drop_decoder peer_id p = p\<lparr>ap_decoders := hm_remove peer_id (ap_decoders p)\<rparr>"

definition peer_gain :: "AudioPipeline \<Rightarrow> string \<Rightarrow> real" where
  "peer_gain p peer_id = resolve_mix_gain peer_id (ap_peer_mix p) (ap_content_mix p) (ap_content_viewers p)"

definition decode_peer :: "call_env \<Rightarrow> string \<Rightarrow> bytes option \<Rightarrow> AudioPipeline \<Rightarrow> (int list \<times> real) option \<times> AudioPipeline" where
  "decode_peer env peer_id opus p =
     (if hm_contains (ap_decoders p) peer_id then (ce_decode env peer_id opus, p)
      else if ce_decoder_new env peer_id
      then (ce_decode env peer_id opus, p\<lparr>ap_decoders := hm_insert peer_id (ap_decoder_complexity p) (ap_decoders p)\<rparr>)
      else (None, p))"

definition push_inbound :: "call_env \<Rightarrow> string \<Rightarrow> bytes option \<Rightarrow> AudioPipeline \<Rightarrow> call_out list \<times> AudioPipeline" where
  "push_inbound env peer_id opus p =
     (case decode_peer env peer_id opus p of
        (None, p) \<Rightarrow> ([], p)
      | (Some (pcm, _), p) \<Rightarrow>
          let gain = real (ap_output_gain p) / 100 in
          (if ce_ring_occupied env + length pcm \<le> ce_ring_capacity env
           then [PlayPcm (map (\<lambda>s. as_i16 (clamp (- 32768) 32767 (of_int s * gain))) pcm)] else [], p))"

text \<open>The frames that decode, with their levels, the utterances they finish, and the collector.\<close>

fun decode_frames ::
  "call_env \<Rightarrow> (string \<times> bytes option) list \<Rightarrow> UtteranceCollector option \<Rightarrow> AudioPipeline \<Rightarrow>
     (string \<times> int list \<times> real) list \<times> (string \<times> int list) list \<times> UtteranceCollector option \<times> AudioPipeline" where
  "decode_frames env [] listen p = ([], [], listen, p)"
| "decode_frames env ((peer_id, opus) # frames) listen p =
     (case decode_peer env peer_id opus p of
        (None, p) \<Rightarrow> decode_frames env frames listen p
      | (Some (pcm, level), p) \<Rightarrow>
          let (utt, listen) = (case listen of
                Some col \<Rightarrow>
                  if opus \<noteq> None \<and> \<not> is_content_decoder_key peer_id
                  then let (u, col) = utterance_push peer_id pcm col in (u, Some col) else (None, listen)
              | None \<Rightarrow> (None, None));
              (decoded, finished, listen, p) = decode_frames env frames listen p
          in ((peer_id, pcm, level) # decoded, (case utt of Some u \<Rightarrow> [(peer_id, u)] | None \<Rightarrow> []) @ finished, listen, p))"

definition mix_and_play ::
  "call_env \<Rightarrow> (string \<times> bytes option) list \<Rightarrow> UtteranceCollector option \<Rightarrow> AudioPipeline \<Rightarrow>
     call_out list \<times> (string \<times> real) list \<times> (string \<times> int list) list \<times> UtteranceCollector option \<times> AudioPipeline" where
  "mix_and_play env frames listen p =
     (let (decoded, finished, listen, p) = decode_frames env frames listen p;
          levels = map (\<lambda>(peer_id, _, level). (peer_id, level)) decoded
      in if decoded = [] then ([], levels, finished, listen, p)
         else
           let gain = real (ap_output_gain p) / 100;
               mixed = mix_pcm_frames (map (\<lambda>(peer_id, pcm, _). (pcm, peer_gain p peer_id)) decoded) gain;
               ema = ap_ring_fill_ema p * (985 / 1000) + real (ce_ring_occupied env) / real (ce_ring_capacity env) * (15 / 1000);
               p = p\<lparr>ap_ring_fill_ema := ema\<rparr>
           in (if ema > 65 / 100 then []
               else if ce_ring_occupied env + length mixed \<le> ce_ring_capacity env then [PlayPcm mixed] else [],
               levels, finished, listen, p))"

definition pipeline_start :: "call_env \<Rightarrow> bool \<Rightarrow> 't CallController \<Rightarrow> string + AudioPipeline" where
  "pipeline_start env start_muted c =
     (case ce_open env (cc_input_device c) (cc_output_device c) of
        Some e \<Rightarrow> Inl e
      | None \<Rightarrow>
          Inr \<lparr>ap_muted = start_muted, ap_noise_strength = min (cc_noise_strength_idx c) 4,
            ap_outgoing_bitrate_bps = cc_outgoing_bitrate_bps c, ap_input_gain = min (cc_input_vol c) 200,
            ap_output_gain = min (cc_output_vol c) 200, ap_decoders = [], ap_decoder_complexity = clamp 0 10 (cc_decoder_complexity c),
            ap_peer_mix = [], ap_content_mix = [], ap_content_viewers = [], ap_fec_loss_pct = 10, ap_ring_fill_ema = 0,
            ap_opened_defaults =
              (if owned_device_selection (cc_input_device c) = None then fst (ce_defaults env) else None,
               if owned_device_selection (cc_output_device c) = None then snd (ce_defaults env) else None)\<rparr>)"

definition install_pipeline :: "call_env \<Rightarrow> bool \<Rightarrow> 't CallController \<Rightarrow> bool \<times> 't cc_res" where
  "install_pipeline env start_muted c =
     (case pipeline_start env start_muted c of
        Inr p \<Rightarrow>
          let p = fold (\<lambda>(peer_id, prefs) p. set_peer_volume peer_id (pm_volume_pct prefs) (set_peer_muted peer_id (pm_muted prefs) p)) (cc_peer_prefs c) p;
              p = fold (\<lambda>(peer_id, prefs) p. set_content_volume peer_id (pm_volume_pct prefs) (set_content_muted peer_id (pm_muted prefs) p))
                    (cc_content_prefs c) p;
              p = set_content_viewers (cc_content_viewers c) p
          in (True, [], c\<lparr>cc_last_os_defaults := Some (ce_defaults env), cc_audio := Some p, cc_speak_prod := True\<rparr>)
      | Inl e \<Rightarrow> (False, [CaptureError e], c\<lparr>cc_audio := None, cc_speak_prod := False\<rparr>))"

subsection \<open>The life of a call\<close>

definition set_state :: "CallState \<Rightarrow> 't CallController \<Rightarrow> 't cc_res" where
  "set_state new_state c = (if cc_state c \<noteq> new_state then ([StateChanged new_state], c\<lparr>cc_state := new_state\<rparr>) else ([], c))"

definition handle_start_audio :: "call_env \<Rightarrow> bool \<Rightarrow> 't CallController \<Rightarrow> 't cc_res" where
  "handle_start_audio env voice_activation c =
     (if cc_state c \<noteq> CallIdle then ([], c)
      else
        let c = c\<lparr>cc_voice_activation := voice_activation, cc_muted := \<not> voice_activation\<rparr>
        in cc_then (set_state Connecting c) (\<lambda>c. snd (install_pipeline env (cc_muted c) c)))"

definition restart_live_pipeline :: "call_env \<Rightarrow> 't CallController \<Rightarrow> 't cc_res" where
  "restart_live_pipeline env c =
     (if cc_audio c = None then ([], c) else snd (install_pipeline env (cc_muted c) (c\<lparr>cc_audio := None\<rparr>)))"

definition handle_os_default_change :: "call_env \<Rightarrow> bool \<Rightarrow> bool \<Rightarrow> 't CallController \<Rightarrow> 't cc_res" where
  "handle_os_default_change env input output c =
     (let now = ce_defaults env;
          prev = (case cc_last_os_defaults c of Some d \<Rightarrow> d | None \<Rightarrow> now);
          input_changed = (input \<and> fst now \<noteq> fst prev);
          output_changed = (output \<and> snd now \<noteq> snd prev);
          c = c\<lparr>cc_last_os_defaults := Some now\<rparr>
      in if \<not> input_changed \<and> \<not> output_changed then ([], c)
         else
           let follow_input = (cc_input_device c = None); follow_output = (cc_output_device c = None);
               should_reopen = (case cc_audio c of None \<Rightarrow> False
                 | Some p \<Rightarrow> should_reopen_for_os_default follow_input follow_output
                     (follow_input \<and> fst now \<noteq> fst (ap_opened_defaults p)) (follow_output \<and> snd now \<noteq> snd (ap_opened_defaults p)))
           in cc_then (if should_reopen then restart_live_pipeline env c else ([], c))
                (\<lambda>c. ([OsDefaultMoved input_changed output_changed], c)))"

definition silence_local :: "'t CallController \<Rightarrow> 't cc_res" where
  "silence_local c = (if cc_local_speaking c then ([LocalSpeakingChanged False], c\<lparr>cc_local_speaking := False\<rparr>) else ([], c))"

definition handle_stop_audio :: "'t CallController \<Rightarrow> 't cc_res" where
  "handle_stop_audio c =
     cc_then (set_state Disconnecting c)
       (\<lambda>c. cc_then (map (\<lambda>pid. PeerAudioStateChanged pid PaClosed) (hm_keys (cc_peers c)),
              c\<lparr>cc_peers := [], cc_content_playout := content_clear (cc_content_playout c), cc_audio := None, cc_speak_prod := False\<rparr>)
       (\<lambda>c. cc_then (silence_local c)
       (\<lambda>c. cc_then ([LocalLevelChanged 0], c)
       (\<lambda>c. set_state CallIdle c))))"

definition handle_start_mic_test :: "call_env \<Rightarrow> 't CallController \<Rightarrow> 't cc_res" where
  "handle_start_mic_test env c =
     (if cc_state c \<noteq> CallIdle then ([], c)
      else cc_then (set_state MicTest c)
        (\<lambda>c. let (ok, r) = install_pipeline env False c in if ok then r else cc_then r (set_state CallIdle)))"

definition handle_stop_mic_test :: "'t CallController \<Rightarrow> 't cc_res" where
  "handle_stop_mic_test c =
     (if cc_state c \<noteq> MicTest then ([], c)
      else cc_then (silence_local (c\<lparr>cc_audio := None\<rparr>))
        (\<lambda>c. cc_then ([LocalLevelChanged 0], c) (set_state CallIdle)))"

definition handle_initiate_peer :: "string \<Rightarrow> string option \<Rightarrow> u16 option \<Rightarrow> 't CallController \<Rightarrow> 't cc_res" where
  "handle_initiate_peer peer_id host port c =
     (if cc_state c \<noteq> Connecting \<and> cc_state c \<noteq> InCall then ([], c)
      else
        let c = (if hm_contains (cc_peers c) peer_id then c
                 else c\<lparr>cc_peers := hm_insert peer_id \<lparr>ps_peer_id = peer_id, ps_state = PaConnecting, ps_jitter_depth = 3\<rparr> (cc_peers c)\<rparr>)
        in (PeerAudioStateChanged peer_id PaConnecting #
            (case (host, port) of (Some h, Some p) \<Rightarrow> if cc_has_cm c then [ConnectDirect peer_id h p] else [] | _ \<Rightarrow> []), c))"

definition handle_remove_peer :: "string \<Rightarrow> 't CallController \<Rightarrow> 't cc_res" where
  "handle_remove_peer peer_id c =
     (let c = c\<lparr>cc_peer_jitter_queues := hm_remove peer_id (cc_peer_jitter_queues c),
                cc_peer_playout_started := hm_remove peer_id (cc_peer_playout_started c),
                cc_room_peer_last_level := hm_remove peer_id (cc_room_peer_last_level c),
                cc_room_peer_last_audio := hm_remove peer_id (cc_room_peer_last_audio c),
                cc_peer_dry_slots := hm_remove peer_id (cc_peer_dry_slots c),
                cc_peer_recent_seqs := hm_remove peer_id (cc_peer_recent_seqs c),
                cc_content_playout := content_forget peer_id (cc_content_playout c),
                cc_audio := map_option (drop_decoder peer_id) (cc_audio c)\<rparr>
      in if hm_contains (cc_peers c) peer_id
         then (PeerAudioStateChanged peer_id PaClosed # (if cc_has_cm c then [SendAudioFrame peer_id []] else []),
               c\<lparr>cc_peers := hm_remove peer_id (cc_peers c)\<rparr>)
         else ([], c))"

subsection \<open>Jitter queues\<close>

definition PEER_SILENCE_TIMEOUT :: real where "PEER_SILENCE_TIMEOUT = 6 / 10"

text \<open>\<open>entry(peer).or_default()\<close> of a map of queues.\<close>

definition queue_of :: "(string, 'a list) hmap \<Rightarrow> string \<Rightarrow> 'a list" where
  "queue_of m peer = (case hm_get m peer of Some q \<Rightarrow> q | None \<Rightarrow> [])"

text \<open>\<open>while q.len() > n { q.pop_front() }\<close>\<close>

definition keep_last :: "nat \<Rightarrow> 'a list \<Rightarrow> 'a list" where
  "keep_last n q = drop (length q - n) q"

definition handle_room_audio :: "real \<Rightarrow> string \<Rightarrow> u64 option \<Rightarrow> bytes \<Rightarrow> 't CallController \<Rightarrow> 't cc_res" where
  "handle_room_audio now peer_id seq opus_data c =
     (let seen = queue_of (cc_peer_recent_seqs c) peer_id in
      if (case seq of Some s \<Rightarrow> s \<in> set seen | None \<Rightarrow> False)
      then ([], c\<lparr>cc_peer_recent_seqs := hm_insert peer_id seen (cc_peer_recent_seqs c), cc_room_audio_dupes := cc_room_audio_dupes c + 1\<rparr>)
      else
        let c = (case seq of None \<Rightarrow> c
                 | Some s \<Rightarrow> c\<lparr>cc_peer_recent_seqs := hm_insert peer_id (keep_last ROOM_AUDIO_SEQ_WINDOW (seen @ [s])) (cc_peer_recent_seqs c)\<rparr>);
            was_silent = (case hm_get (cc_room_peer_last_audio c) peer_id of Some t \<Rightarrow> duration_since now t > PEER_SILENCE_TIMEOUT | None \<Rightarrow> True);
            c = c\<lparr>cc_room_peer_last_audio := hm_insert peer_id now (cc_room_peer_last_audio c)\<rparr>;
            c = (case hm_get (cc_peer_dry_slots c) peer_id of None \<Rightarrow> c
                 | Some dry \<Rightarrow>
                     let c = c\<lparr>cc_peer_dry_slots := hm_remove peer_id (cc_peer_dry_slots c)\<rparr>
                     in if dry \<le> MAX_UNDERRUN_GAP_FRAMES
                        then c\<lparr>cc_playout_frames := cc_playout_frames c + dry, cc_playout_underruns := cc_playout_underruns c + dry\<rparr> else c);
            max_depth = max (cc_jitter_depth c * 8) 16
        in (if was_silent then [RemoteSpeakingChanged peer_id True] else [],
            c\<lparr>cc_peer_jitter_queues :=
                hm_insert peer_id (keep_last max_depth (queue_of (cc_peer_jitter_queues c) peer_id @ [opus_data])) (cc_peer_jitter_queues c)\<rparr>))"

text \<open>What one peer's slot yields: nothing, a frame or a request for concealment, or that the peer is gone.\<close>

datatype voice_slot = Buffering | Slot "bytes option" | Gone

definition advance_peer :: "real \<Rightarrow> string \<Rightarrow> 't CallController \<Rightarrow> voice_slot \<times> 't CallController" where
  "advance_peer now peer_id c =
     (let recently_active = (case hm_get (cc_room_peer_last_audio c) peer_id of Some t \<Rightarrow> duration_since now t < PEER_SILENCE_TIMEOUT | None \<Rightarrow> False);
          queue = queue_of (cc_peer_jitter_queues c) peer_id;
          started = (hm_get (cc_peer_playout_started c) peer_id = Some True)
      in if \<not> started \<and> length queue < cc_jitter_depth c then (Buffering, c)
         else
           let c = (if started then c else c\<lparr>cc_peer_playout_started := hm_insert peer_id True (cc_peer_playout_started c)\<rparr>)
           in if queue = [] \<and> \<not> recently_active then (Gone, c)
              else case queue of
                f # fs \<Rightarrow> (Slot (Some f), c\<lparr>cc_peer_jitter_queues := hm_insert peer_id fs (cc_peer_jitter_queues c),
                             cc_playout_frames := cc_playout_frames c + 1\<rparr>)
              | [] \<Rightarrow> (Slot None, c\<lparr>cc_peer_dry_slots :=
                        hm_insert peer_id ((case hm_get (cc_peer_dry_slots c) peer_id of Some n \<Rightarrow> n | None \<Rightarrow> 0) + 1) (cc_peer_dry_slots c)\<rparr>))"

fun advance_peers :: "real \<Rightarrow> string list \<Rightarrow> 't CallController \<Rightarrow> (string \<times> bytes option) list \<times> string list \<times> 't CallController" where
  "advance_peers now [] c = ([], [], c)"
| "advance_peers now (p # ps) c =
     (let (slot, c) = advance_peer now p c; (to_decode, to_remove, c) = advance_peers now ps c
      in case slot of
           Buffering \<Rightarrow> (to_decode, to_remove, c)
         | Slot f \<Rightarrow> ((p, f) # to_decode, to_remove, c)
         | Gone \<Rightarrow> (to_decode, p # to_remove, c))"

definition remove_voice :: "string \<Rightarrow> 't CallController \<Rightarrow> 't CallController" where
  "remove_voice p c =
     c\<lparr>cc_peer_jitter_queues := hm_remove p (cc_peer_jitter_queues c), cc_peer_playout_started := hm_remove p (cc_peer_playout_started c),
       cc_room_peer_last_level := hm_remove p (cc_room_peer_last_level c), cc_peer_dry_slots := hm_remove p (cc_peer_dry_slots c),
       cc_peer_recent_seqs := hm_remove p (cc_peer_recent_seqs c)\<rparr>"

definition advance_voice_queues :: "real \<Rightarrow> 't CallController \<Rightarrow> (string \<times> bytes option) list \<times> string list \<times> 't CallController" where
  "advance_voice_queues now c =
     (let (to_decode, to_remove, c) = advance_peers now (hm_keys (cc_peer_jitter_queues c)) c
      in (to_decode, to_remove, fold remove_voice to_remove c))"

subsection \<open>Ticks\<close>

definition LEVEL_UPDATE_INTERVAL :: real where "LEVEL_UPDATE_INTERVAL = 1 / 10"

fun emit_levels :: "real \<Rightarrow> (string \<times> real) list \<Rightarrow> 't CallController \<Rightarrow> 't cc_res" where
  "emit_levels now [] c = ([], c)"
| "emit_levels now ((peer_id, level) # ls) c =
     (let should_emit = (case hm_get (cc_room_peer_last_level c) peer_id of Some t \<Rightarrow> duration_since now t \<ge> LEVEL_UPDATE_INTERVAL | None \<Rightarrow> True)
      in if should_emit \<and> level > 0
         then cc_then ([RemoteLevelChanged peer_id level], c\<lparr>cc_room_peer_last_level := hm_insert peer_id now (cc_room_peer_last_level c)\<rparr>)
                (emit_levels now ls)
         else emit_levels now ls c)"

definition tick_playout :: "call_env \<Rightarrow> 't CallController \<Rightarrow> 't cc_res" where
  "tick_playout env c =
     (if cc_audio c = None then ([], c)
      else
        let now = ce_now env;
            (to_decode, to_remove, c) = advance_voice_queues now c;
            c = c\<lparr>cc_audio := map_option (fold drop_decoder to_remove) (cc_audio c)\<rparr>;
            (slots, content, video) = tick_content now (cc_content_playout c) (cc_video_playout c);
            c = c\<lparr>cc_content_playout := content, cc_video_playout := video\<rparr>;
            to_decode = to_decode @ slots;
            listening = (cc_listen_utterances c \<and> \<not> ce_agent_speaking env)
        in case cc_audio c of None \<Rightarrow> ([], c)
           | Some p \<Rightarrow>
               let (played, levels, finished, col, p) = mix_and_play env to_decode (if listening then Some (cc_utterances c) else None) p;
                   c = c\<lparr>cc_audio := Some p, cc_utterances := (case col of Some u \<Rightarrow> u | None \<Rightarrow> cc_utterances c)\<rparr>
               in cc_then (played @ map (\<lambda>(peer_id, pcm). RemoteUtterance peer_id pcm) finished, c)
                    (emit_levels now (filter (\<lambda>(peer_id, _). \<not> is_content_decoder_key peer_id) levels)))"

definition adapt_jitter_buffer :: "'t CallController \<Rightarrow> 't CallController" where
  "adapt_jitter_buffer c =
     (if \<not> cc_jitter_adaptive c \<or> cc_audio c = None \<or> cc_playout_frames c = 0 then c
      else
        let (depth, streak) = next_jitter_depth (cc_jitter_depth c) (cc_jitter_low_streak c) (cc_playout_frames c) (cc_playout_underruns c)
        in c\<lparr>cc_jitter_depth := depth, cc_jitter_low_streak := streak\<rparr>)"

definition adapt_room_bitrate :: "'t CallController \<Rightarrow> 't CallController" where
  "adapt_room_bitrate c =
     (if \<not> cc_room_mode c \<or> cc_audio c = None \<or> cc_playout_frames c = 0 then c
      else if cc_abr_warmup_ticks c > 0 then c\<lparr>cc_abr_warmup_ticks := cc_abr_warmup_ticks c - 1\<rparr>
      else
        let c = c\<lparr>cc_net_loss_ema := update_room_loss_ema (cc_net_loss_ema c) (cc_playout_underruns c) (cc_playout_frames c)\<rparr>;
            new_bps = next_room_bitrate (cc_outgoing_bitrate_bps c) (cc_bitrate_ceiling_bps c) (cc_net_loss_ema c);
            c = (if new_bps \<noteq> cc_outgoing_bitrate_bps c
                 then c\<lparr>cc_outgoing_bitrate_bps := new_bps, cc_audio := map_option (set_outgoing_bitrate new_bps) (cc_audio c)\<rparr> else c)
        in c\<lparr>cc_audio := map_option (set_fec_loss_pct (fec_hint_pct (cc_net_loss_ema c))) (cc_audio c)\<rparr>)"

definition metrics_tick :: "'t CallController \<Rightarrow> 't cc_res" where
  "metrics_tick c =
     (let c = adapt_room_bitrate (adapt_jitter_buffer c);
          c = c\<lparr>cc_playout_frames := 0, cc_playout_underruns := 0\<rparr>
      in (if cc_state c \<noteq> CallIdle \<and> cc_peers c \<noteq> []
          then [MetricsUpdated (map (\<lambda>s. (ps_peer_id s, peer_state_str (ps_state s), ps_jitter_depth s)) (hm_values (cc_peers c)))] else [], c))"

definition speaking_tick :: "real \<Rightarrow> 't CallController \<Rightarrow> 't cc_res" where
  "speaking_tick now c =
     (let silent = map fst (filter (\<lambda>(_, t). duration_since now t > PEER_SILENCE_TIMEOUT) (cc_room_peer_last_audio c))
      in (map (\<lambda>p. RemoteSpeakingChanged p False) silent,
          c\<lparr>cc_room_peer_last_audio := fold hm_remove silent (cc_room_peer_last_audio c)\<rparr>))"

definition default_tick :: "call_env \<Rightarrow> 't CallController \<Rightarrow> 't cc_res" where
  "default_tick env c =
     (if cc_audio c \<noteq> None \<and> (cc_input_device c = None \<or> cc_output_device c = None) then handle_os_default_change env True True c else ([], c))"

subsection \<open>Captured audio\<close>

definition broadcast_audio_frame :: "call_env \<Rightarrow> bytes \<Rightarrow> 't CallController \<Rightarrow> 't cc_res" where
  "broadcast_audio_frame env frame c =
     (if cc_state c = MicTest
      then case cc_audio c of None \<Rightarrow> ([], c)
           | Some p \<Rightarrow> let (out, p) = push_inbound env ''__mic_test__'' (Some frame) p in (out, c\<lparr>cc_audio := Some p\<rparr>)
      else if \<not> cc_has_cm c then ([], c)
      else if cc_room_mode c then ([SendRoomAudio frame], c)
      else (map (\<lambda>p. SendAudioFrame p frame) (hm_keys (cc_peers c)), c))"

definition local_speaking :: "bool \<Rightarrow> 't CallController \<Rightarrow> 't cc_res" where
  "local_speaking s c = (if s \<noteq> cc_local_speaking c then ([LocalSpeakingChanged s], c\<lparr>cc_local_speaking := s\<rparr>) else ([], c))"

subsection \<open>Commands\<close>

datatype CallCommand =
    StartAudio bool | StopAudio | InitiatePeer string "string option" "u16 option" | RemovePeer string
  | SetMuted bool | SetNoiseSuppression bool | SetNoiseStrength nat | SetInputGain nat | SetOutputGain nat
  | SetOutgoingBitrate nat | SetPeerMuted string bool | SetPeerVolume string nat | SetContentMuted string bool
  | SetContentVolume string nat | SetContentViewers "string list" | UpdateNetworkQuality real
  | DirectAudioInbound string bytes | SetVoiceActivation bool | RoomAudioInbound string "u64 option" bytes
  | ContentAudioInbound string PendingFrame | SetJitterDepth nat | SetDecoderComplexity int | SetRoomMode
  | ClearRoomMode | SetAudioDevices "string option" "string option" | SetAgentVoice bool | SetListenUtterances bool
  | OsDefaultDeviceChanged bool bool | StartMicTest | StopMicTest | SetVideoPlayout | EnqueueSpeakPcm "int list" | TestSpeaker | Shutdown

fun set_preference :: "CallCommand \<Rightarrow> 't CallController \<Rightarrow> 't CallController" where
  "set_preference (SetPeerMuted p m) c =
     c\<lparr>cc_peer_prefs := mix_entry (pm_muted_update (\<lambda>_. m)) p (cc_peer_prefs c), cc_audio := map_option (set_peer_muted p m) (cc_audio c)\<rparr>"
| "set_preference (SetPeerVolume p pct) c =
     (let pct = min pct MAX_PEER_VOLUME_PCT
      in c\<lparr>cc_peer_prefs := mix_entry (pm_volume_pct_update (\<lambda>_. pct)) p (cc_peer_prefs c), cc_audio := map_option (set_peer_volume p pct) (cc_audio c)\<rparr>)"
| "set_preference (SetContentMuted p m) c =
     c\<lparr>cc_content_prefs := mix_entry (pm_muted_update (\<lambda>_. m)) p (cc_content_prefs c), cc_audio := map_option (set_content_muted p m) (cc_audio c)\<rparr>"
| "set_preference (SetContentVolume p pct) c =
     (let pct = min pct MAX_PEER_VOLUME_PCT
      in c\<lparr>cc_content_prefs := mix_entry (pm_volume_pct_update (\<lambda>_. pct)) p (cc_content_prefs c), cc_audio := map_option (set_content_volume p pct) (cc_audio c)\<rparr>)"
| "set_preference (SetContentViewers ps) c =
     c\<lparr>cc_content_viewers := remdups ps, cc_audio := map_option (set_content_viewers ps) (cc_audio c)\<rparr>"
| "set_preference (SetNoiseSuppression enabled) c =
     (let idx = (if \<not> enabled then 0 else if cc_noise_strength_idx c = 0 then 2 else cc_noise_strength_idx c)
      in c\<lparr>cc_noise_strength_idx := idx, cc_audio := map_option (set_noise_strength idx) (cc_audio c)\<rparr>)"
| "set_preference (SetNoiseStrength idx) c =
     c\<lparr>cc_noise_strength_idx := min idx 4, cc_audio := map_option (set_noise_strength (min idx 4)) (cc_audio c)\<rparr>"
| "set_preference (SetInputGain pct) c = c\<lparr>cc_input_vol := min pct 200, cc_audio := map_option (set_input_gain (min pct 200)) (cc_audio c)\<rparr>"
| "set_preference (SetOutputGain pct) c = c\<lparr>cc_output_vol := min pct 200, cc_audio := map_option (set_output_gain (min pct 200)) (cc_audio c)\<rparr>"
| "set_preference (SetOutgoingBitrate bps) c =
     (let clamped = clamp MIN_OUTGOING_BITRATE_BPS MAX_OUTGOING_BITRATE_BPS bps
      in c\<lparr>cc_bitrate_ceiling_bps := clamped, cc_outgoing_bitrate_bps := clamped, cc_audio := map_option (set_outgoing_bitrate clamped) (cc_audio c)\<rparr>)"
| "set_preference (SetDecoderComplexity v) c =
     (let v = clamp 0 10 v in c\<lparr>cc_decoder_complexity := v, cc_audio := map_option (set_decoder_complexity v) (cc_audio c)\<rparr>)"
| "set_preference (SetJitterDepth depth) c = c\<lparr>cc_jitter_depth := clamp MIN_JITTER_DEPTH 20 depth, cc_jitter_adaptive := False\<rparr>"
| "set_preference (SetVoiceActivation enabled) c =
     (let c = c\<lparr>cc_voice_activation := enabled\<rparr>
      in if cc_state c \<noteq> CallIdle \<and> enabled then c\<lparr>cc_muted := False, cc_audio := map_option (\<lambda>p. p\<lparr>ap_muted := False\<rparr>) (cc_audio c)\<rparr> else c)"
| "set_preference SetRoomMode c = c\<lparr>cc_room_mode := True, cc_net_loss_ema := 0, cc_abr_warmup_ticks := 6\<rparr>"
| "set_preference ClearRoomMode c = c\<lparr>cc_room_mode := False\<rparr>"
| "set_preference SetVideoPlayout c = c\<lparr>cc_video_playout := Some video_default\<rparr>"
| "set_preference (SetAgentVoice on) c = c\<lparr>cc_agent_voice := on\<rparr>"
| "set_preference (SetListenUtterances on) c = c\<lparr>cc_listen_utterances := on, cc_utterances := (if on then cc_utterances c else [])\<rparr>"
| "set_preference _ c = c"

definition update_network_quality :: "real \<Rightarrow> 't CallController \<Rightarrow> 't CallController" where
  "update_network_quality loss_pct c =
     (let c = c\<lparr>cc_net_loss_ema := cc_net_loss_ema c * (6 / 10) + max loss_pct 0 * (4 / 10)\<rparr>;
          new = next_bitrate (cc_outgoing_bitrate_bps c) (cc_bitrate_ceiling_bps c) (cc_net_loss_ema c);
          c = (if new \<noteq> cc_outgoing_bitrate_bps c
               then c\<lparr>cc_outgoing_bitrate_bps := new, cc_audio := map_option (set_outgoing_bitrate new) (cc_audio c)\<rparr> else c)
      in c\<lparr>cc_audio := map_option (set_fec_loss_pct (fec_hint_pct (cc_net_loss_ema c))) (cc_audio c)\<rparr>)"

definition set_muted :: "bool \<Rightarrow> 't CallController \<Rightarrow> 't cc_res" where
  "set_muted m c =
     (let c = c\<lparr>cc_muted := m, cc_audio := map_option (\<lambda>p. p\<lparr>ap_muted := m\<rparr>) (cc_audio c)\<rparr>
      in if m then silence_local c else ([], c))"

definition set_audio_devices :: "call_env \<Rightarrow> string option \<Rightarrow> string option \<Rightarrow> 't CallController \<Rightarrow> 't cc_res" where
  "set_audio_devices env input output c =
     (let input = owned_device_selection input; output = owned_device_selection output;
          changed = (input \<noteq> cc_input_device c \<or> output \<noteq> cc_output_device c);
          c = c\<lparr>cc_input_device := input, cc_output_device := output\<rparr>
      in if changed \<and> cc_audio c \<noteq> None then restart_live_pipeline env c else ([], c))"

fun call_command :: "call_env \<Rightarrow> CallCommand \<Rightarrow> 't CallController \<Rightarrow> 't cc_res" where
  "call_command env (StartAudio va) c = handle_start_audio env va c"
| "call_command env StopAudio c = handle_stop_audio c"
| "call_command env (InitiatePeer p h port) c = handle_initiate_peer p h port c"
| "call_command env (RemovePeer p) c = handle_remove_peer p c"
| "call_command env (SetMuted m) c = set_muted m c"
| "call_command env (UpdateNetworkQuality loss) c = ([], update_network_quality loss c)"
| "call_command env (DirectAudioInbound p opus) c = handle_room_audio (ce_now env) p None opus c"
| "call_command env (RoomAudioInbound p seq opus) c = handle_room_audio (ce_now env) p seq opus c"
| "call_command env (ContentAudioInbound p frame) c = ([], c\<lparr>cc_content_playout := content_accept p frame (cc_content_playout c)\<rparr>)"
| "call_command env (SetAudioDevices i out) c = set_audio_devices env i out c"
| "call_command env (OsDefaultDeviceChanged i out) c = handle_os_default_change env i out c"
| "call_command env StartMicTest c = handle_start_mic_test env c"
| "call_command env StopMicTest c = handle_stop_mic_test c"
| "call_command env Shutdown c = handle_stop_audio c"
| "call_command env cmd c = ([], set_preference cmd c)"

datatype call_op =
  Command CallCommand | DefaultMoved bool bool | PlayoutTick | MetricsTick | SpeakingTick | DefaultTick | Captured bytes | VadChanged bool | LevelChanged real

text \<open>The task starts from a new controller and notes the default devices of the system before its first event.\<close>

definition controller_run :: "call_env \<Rightarrow> bool \<Rightarrow> 't CallController" where
  "controller_run env has_cm = (controller_new has_cm)\<lparr>cc_last_os_defaults := Some (ce_defaults env)\<rparr>"

fun call_step :: "call_env \<Rightarrow> call_op \<Rightarrow> 't CallController \<Rightarrow> 't cc_res" where
  "call_step env (Command cmd) c = call_command env cmd c"
| "call_step env (DefaultMoved i out) c = handle_os_default_change env i out c"
| "call_step env PlayoutTick c = tick_playout env c"
| "call_step env MetricsTick c = metrics_tick c"
| "call_step env SpeakingTick c = speaking_tick (ce_now env) c"
| "call_step env DefaultTick c = default_tick env c"
| "call_step env (Captured frame) c = (if cc_audio c = None then ([], c) else broadcast_audio_frame env frame c)"
| "call_step env (VadChanged s) c = (if cc_audio c = None then ([], c) else local_speaking s c)"
| "call_step env (LevelChanged lvl) c = (if cc_audio c = None then [] else [LocalLevelChanged lvl], c)"

end
