(* ===== verification/Call_Props.thy ===== *)
theory Call_Props
  imports Call_Controller
begin

section \<open>Properties of calls\<close>

text \<open>
  Over every sequence of commands and ticks: the listener's preferences hold in the live pipeline, queues and
  rates stay in their bounds and the life cycle in its states; the bitrate recovers; and what is left over
  from one call in the next.
\<close>

named_theorems cc_simps "the handlers of the call controller"

lemmas [cc_simps] = cc_then_def case_prod_beta Let_def set_state_def silence_local_def

subsection \<open>Preferences\<close>

definition same_gains :: "AudioPipeline \<Rightarrow> 't CallController \<Rightarrow> bool" where
  "same_gains p c \<longleftrightarrow> hm_get (ap_peer_mix p) = hm_get (cc_peer_prefs c) \<and> hm_get (ap_content_mix p) = hm_get (cc_content_prefs c) \<and>
     set (ap_content_viewers p) = set (cc_content_viewers c)"

definition volumes_ok :: "(string, PeerMix) hmap \<Rightarrow> bool" where
  "volumes_ok m \<longleftrightarrow> hm_wf m \<and> list_all (\<lambda>(_, x). pm_volume_pct x \<le> 200) m"

definition prefs_ok :: "'t CallController \<Rightarrow> bool" where
  "prefs_ok c \<longleftrightarrow> volumes_ok (cc_peer_prefs c) \<and> volumes_ok (cc_content_prefs c) \<and> (case cc_audio c of None \<Rightarrow> True | Some p \<Rightarrow> same_gains p c)"

lemma hm_get_mix_entry [simp]:
  "hm_get (mix_entry f peer m) = (hm_get m)(peer \<mapsto> f (case hm_get m peer of Some x \<Rightarrow> x | None \<Rightarrow> mix_default))"
  by (auto simp: mix_entry_def coll_simps fun_eq_iff)

lemma volumes_ok_entry:
  assumes "volumes_ok m" "\<And>x. pm_volume_pct x \<le> 200 \<Longrightarrow> pm_volume_pct (f x) \<le> 200"
  shows "volumes_ok (mix_entry f peer m)"
proof -
  let ?x = "case hm_get m peer of Some x \<Rightarrow> x | None \<Rightarrow> mix_default"
  have "pm_volume_pct ?x \<le> 200" using assms(1) by (auto simp: volumes_ok_def mix_default_def list_all_iff split: option.splits dest: hm_get_SomeD)
  then show ?thesis using assms set_hm_insert [of peer "f ?x" m] unfolding mix_entry_def volumes_ok_def list_all_iff by (auto simp: hm_wf_insert)
qed

lemma hm_get_empty [simp]: "hm_get [] = Map.empty"
  by (simp add: fun_eq_iff)

lemma mix_overwritten [simp]: "x\<lparr>pm_muted := pm_muted v, pm_volume_pct := pm_volume_pct v\<rparr> = (v :: PeerMix)"
  by (cases x; cases v) simp

lemma replay_peer_prefs:
  assumes "volumes_ok m"
  shows "hm_get (ap_peer_mix (fold (\<lambda>(peer_id, prefs) p. set_peer_volume peer_id (pm_volume_pct prefs) (set_peer_muted peer_id (pm_muted prefs) p)) m p))
    = hm_get (ap_peer_mix p) ++ hm_get m"
  using assms
proof (induction m arbitrary: p)
  case (Cons x m)
  obtain k v where x: "x = (k, v)" by fastforce
  have m: "volumes_ok m" "k \<notin> fst ` set m" "pm_volume_pct v \<le> 200" using Cons.prems x by (auto simp: volumes_ok_def hm_wf_def)
  have upd: "hm_get (ap_peer_mix (set_peer_volume k (pm_volume_pct v) (set_peer_muted k (pm_muted v) p))) = (hm_get (ap_peer_mix p))(k \<mapsto> v)"
    using m(3) by (simp add: set_peer_volume_def set_peer_muted_def MAX_PEER_VOLUME_PCT_def min_def)
  show ?case using Cons.IH [OF m(1), of "set_peer_volume k (pm_volume_pct v) (set_peer_muted k (pm_muted v) p)"] m(2) x
    by (auto simp: upd fun_eq_iff map_add_def hm_get_def map_of_eq_None_iff split: option.splits)
qed simp

lemma replay_content_prefs:
  assumes "volumes_ok m"
  shows "hm_get (ap_content_mix (fold (\<lambda>(peer_id, prefs) p. set_content_volume peer_id (pm_volume_pct prefs) (set_content_muted peer_id (pm_muted prefs) p)) m p))
    = hm_get (ap_content_mix p) ++ hm_get m"
  using assms
proof (induction m arbitrary: p)
  case (Cons x m)
  obtain k v where x: "x = (k, v)" by fastforce
  have m: "volumes_ok m" "k \<notin> fst ` set m" "pm_volume_pct v \<le> 200" using Cons.prems x by (auto simp: volumes_ok_def hm_wf_def)
  have upd: "hm_get (ap_content_mix (set_content_volume k (pm_volume_pct v) (set_content_muted k (pm_muted v) p))) = (hm_get (ap_content_mix p))(k \<mapsto> v)"
    using m(3) by (simp add: set_content_volume_def set_content_muted_def min_def)
  show ?case using Cons.IH [OF m(1), of "set_content_volume k (pm_volume_pct v) (set_content_muted k (pm_muted v) p)"] m(2) x
    by (auto simp: upd fun_eq_iff map_add_def hm_get_def map_of_eq_None_iff split: option.splits)
qed simp

lemma replay_frames [simp]:
  "ap_content_mix (fold (\<lambda>(peer_id, prefs) p. set_peer_volume peer_id (pm_volume_pct prefs) (set_peer_muted peer_id (pm_muted prefs) p)) m p) = ap_content_mix p"
  "ap_peer_mix (fold (\<lambda>(peer_id, prefs) p. set_content_volume peer_id (pm_volume_pct prefs) (set_content_muted peer_id (pm_muted prefs) p)) m p) = ap_peer_mix p"
  by (induction m arbitrary: p; simp add: case_prod_beta set_peer_volume_def set_peer_muted_def set_content_volume_def set_content_muted_def)+

lemma prefs_ok_install:
  assumes "volumes_ok (cc_peer_prefs c)" "volumes_ok (cc_content_prefs c)"
  shows "prefs_ok (snd (snd (install_pipeline env m c)))"
proof (cases "pipeline_start env m c")
  case (Inl e)
  then show ?thesis using assms by (simp add: install_pipeline_def prefs_ok_def)
next
  case (Inr p)
  then have "ap_peer_mix p = []" "ap_content_mix p = []" by (auto simp: pipeline_start_def split: option.splits)
  then show ?thesis using assms Inr
    by (simp add: install_pipeline_def prefs_ok_def same_gains_def set_content_viewers_def replay_peer_prefs replay_content_prefs Let_def)
qed

text \<open>The part of a controller that the preferences are about.\<close>

definition gains :: "AudioPipeline \<Rightarrow> (string, PeerMix) hmap \<times> (string, PeerMix) hmap \<times> string list" where
  "gains p = (ap_peer_mix p, ap_content_mix p, ap_content_viewers p)"

definition prefs_part ::
  "'t CallController \<Rightarrow> ((string, PeerMix) hmap \<times> (string, PeerMix) hmap \<times> string list) \<times>
     ((string, PeerMix) hmap \<times> (string, PeerMix) hmap \<times> string list) option" where
  "prefs_part c = ((cc_peer_prefs c, cc_content_prefs c, cc_content_viewers c), map_option gains (cc_audio c))"

lemma prefs_ok_cong: "prefs_part c' = prefs_part c \<Longrightarrow> prefs_ok c' = prefs_ok c"
  by (cases "cc_audio c"; cases "cc_audio c'") (simp_all add: prefs_part_def prefs_ok_def gains_def same_gains_def)

lemma gains_setters [simp]:
  "gains (drop_decoder q p) = gains p" "gains (set_noise_strength n p) = gains p" "gains (set_outgoing_bitrate n p) = gains p"
  "gains (set_decoder_complexity i p) = gains p" "gains (set_fec_loss_pct n p) = gains p" "gains (set_input_gain n p) = gains p"
  "gains (set_output_gain n p) = gains p" "gains (p\<lparr>ap_muted := b\<rparr>) = gains p" "gains (p\<lparr>ap_ring_fill_ema := x\<rparr>) = gains p"
  "gains (p\<lparr>ap_decoders := d\<rparr>) = gains p"
  by (simp_all add: gains_def drop_decoder_def set_noise_strength_def set_outgoing_bitrate_def set_decoder_complexity_def set_fec_loss_pct_def
      set_input_gain_def set_output_gain_def Let_def)

lemma gains_drops [simp]: "gains (fold drop_decoder qs p) = gains p"
  by (induction qs arbitrary: p) simp_all

lemma gains_decode_peer [simp]: "gains (snd (decode_peer env q opus p)) = gains p"
  by (simp add: decode_peer_def)

lemma gains_decode_frames [simp]: "gains (snd (snd (snd (decode_frames env fs l p)))) = gains p"
proof (induction fs arbitrary: l p)
  case (Cons x fs)
  obtain q opus where x: "x = (q, opus)" by fastforce
  obtain r p' where d: "decode_peer env q opus p = (r, p')" by fastforce
  have "gains p' = gains p" using gains_decode_peer [of env q opus p] d by simp
  then show ?case using Cons.IH x d by (auto simp: case_prod_beta Let_def split: option.splits)
qed simp

lemma gains_mix_and_play [simp]: "gains (snd (snd (snd (snd (mix_and_play env fs l p))))) = gains p"
  by (simp add: mix_and_play_def case_prod_beta Let_def)

lemma gains_push_inbound [simp]: "gains (snd (push_inbound env q opus p)) = gains p"
proof -
  obtain r p' where d: "decode_peer env q opus p = (r, p')" by fastforce
  then show ?thesis using gains_decode_peer [of env q opus p] by (auto simp: push_inbound_def Let_def split: option.splits)
qed

lemma prefs_part_updates [simp]:
  "prefs_part (c\<lparr>cc_state := s\<rparr>) = prefs_part c" "prefs_part (c\<lparr>cc_local_speaking := b\<rparr>) = prefs_part c"
  "prefs_part (c\<lparr>cc_peers := ps\<rparr>) = prefs_part c" "prefs_part (c\<lparr>cc_peer_jitter_queues := q\<rparr>) = prefs_part c"
  "prefs_part (c\<lparr>cc_room_peer_last_level := l\<rparr>) = prefs_part c" "prefs_part (c\<lparr>cc_room_peer_last_audio := l\<rparr>) = prefs_part c"
  "prefs_part (c\<lparr>cc_peer_recent_seqs := r\<rparr>) = prefs_part c" "prefs_part (c\<lparr>cc_peer_dry_slots := d\<rparr>) = prefs_part c"
  "prefs_part (c\<lparr>cc_peer_playout_started := st\<rparr>) = prefs_part c" "prefs_part (c\<lparr>cc_content_playout := cp\<rparr>) = prefs_part c"
  "prefs_part (c\<lparr>cc_last_os_defaults := os\<rparr>) = prefs_part c"
  by (simp_all add: prefs_part_def)

lemma prefs_part_handlers [simp]:
  "prefs_part (snd (set_state s c)) = prefs_part c" "prefs_part (snd (silence_local c)) = prefs_part c"
  "prefs_part (snd (handle_initiate_peer q h pt c)) = prefs_part c" "prefs_part (snd (local_speaking b c)) = prefs_part c"
  "prefs_part (snd (speaking_tick now c)) = prefs_part c"
  by (simp_all add: set_state_def silence_local_def handle_initiate_peer_def local_speaking_def speaking_tick_def Let_def)

lemma map_gains [simp]: "(\<And>p. gains (f p) = gains p) \<Longrightarrow> map_option (gains \<circ> f) a = map_option gains a"
  by (cases a) simp_all

lemma prefs_part_remove_peer [simp]: "prefs_part (snd (handle_remove_peer q c)) = prefs_part c"
  by (simp add: handle_remove_peer_def Let_def) (simp add: prefs_part_def option.map_comp)

lemma prefs_part_room_audio [simp]: "prefs_part (snd (handle_room_audio now q s d c)) = prefs_part c"
  by (simp add: handle_room_audio_def Let_def prefs_part_def split: option.splits)

lemma prefs_part_advance_peer [simp]: "prefs_part (snd (advance_peer now q c)) = prefs_part c"
  by (simp add: advance_peer_def Let_def prefs_part_def split: list.splits)

lemma prefs_part_advance_peers [simp]: "prefs_part (snd (snd (advance_peers now qs c))) = prefs_part c"
  by (induction qs arbitrary: c) (simp_all add: case_prod_beta Let_def split: voice_slot.splits)

lemma prefs_part_remove_voice [simp]: "prefs_part (fold remove_voice qs c) = prefs_part c"
proof (induction qs arbitrary: c)
  case (Cons q qs)
  have "prefs_part (remove_voice q c) = prefs_part c" by (simp add: remove_voice_def prefs_part_def)
  then show ?case using Cons by simp
qed simp

lemma prefs_part_advance [simp]: "prefs_part (snd (snd (advance_voice_queues now c))) = prefs_part c"
  by (simp add: advance_voice_queues_def case_prod_beta Let_def)

lemma prefs_part_levels [simp]: "prefs_part (snd (emit_levels now ls c)) = prefs_part c"
proof (induction ls arbitrary: c)
  case (Cons x ls)
  then show ?case by (cases x) (simp add: cc_simps)
qed simp

lemma prefs_part_adapt [simp]:
  "prefs_part (adapt_jitter_buffer c) = prefs_part c" "prefs_part (adapt_room_bitrate c) = prefs_part c" "prefs_part (update_network_quality l c) = prefs_part c"
  by (simp_all add: adapt_jitter_buffer_def adapt_room_bitrate_def update_network_quality_def prefs_part_def case_prod_beta Let_def option.map_comp)

lemma prefs_part_metrics [simp]: "prefs_part (snd (metrics_tick c)) = prefs_part c"
proof -
  have "prefs_part (c\<lparr>cc_playout_frames := x, cc_playout_underruns := y\<rparr>) = prefs_part c" for c :: "'a CallController" and x y by (simp add: prefs_part_def)
  then show ?thesis by (simp add: metrics_tick_def Let_def)
qed

lemma prefs_part_muted [simp]: "prefs_part (snd (set_muted m c)) = prefs_part c"
  by (simp add: set_muted_def Let_def) (simp add: prefs_part_def option.map_comp)

lemma prefs_part_broadcast [simp]: "prefs_part (snd (broadcast_audio_frame env f c)) = prefs_part c"
  by (simp add: broadcast_audio_frame_def prefs_part_def case_prod_beta Let_def split: option.splits)

lemma prefs_part_tick [simp]: "prefs_part (snd (tick_playout env c)) = prefs_part c"
proof (cases "cc_audio c")
  case None
  then show ?thesis by (simp add: tick_playout_def)
next
  case (Some p)
  obtain td tr c1 where adv: "advance_voice_queues (ce_now env) c = (td, tr, c1)" by (cases "advance_voice_queues (ce_now env) c")
  have c1: "prefs_part c1 = prefs_part c" using prefs_part_advance [of "ce_now env" c] adv by simp
  then obtain p1 where p1: "cc_audio c1 = Some p1" using Some by (auto simp: prefs_part_def)
  have part: "prefs_part (c1\<lparr>cc_content_playout := a, cc_video_playout := b, cc_audio := Some q, cc_utterances := u\<rparr>) = prefs_part c1" if "gains q = gains p1" for a b q u
    using that p1 by (simp add: prefs_part_def)
  show ?thesis using Some p1 c1 by (simp add: tick_playout_def adv case_prod_beta Let_def cc_then_def part)
qed

lemma prefs_ok_no_audio: "volumes_ok (cc_peer_prefs c) \<Longrightarrow> volumes_ok (cc_content_prefs c) \<Longrightarrow> cc_audio c = None \<Longrightarrow> prefs_ok c"
  by (simp add: prefs_ok_def)

lemma prefs_ok_volumes: "prefs_ok c \<Longrightarrow> volumes_ok (cc_peer_prefs c)" "prefs_ok c \<Longrightarrow> volumes_ok (cc_content_prefs c)"
  by (simp_all add: prefs_ok_def)

lemma prefs_ok_restart: "prefs_ok c \<Longrightarrow> prefs_ok (snd (restart_live_pipeline env c))"
  by (auto simp: restart_live_pipeline_def prefs_ok_volumes intro!: prefs_ok_install)

lemma prefs_ok_start: "prefs_ok c \<Longrightarrow> prefs_ok (snd (handle_start_audio env va c))"
  by (auto simp: handle_start_audio_def cc_simps prefs_ok_volumes intro!: prefs_ok_install)

lemma prefs_ok_os_default: "prefs_ok c \<Longrightarrow> prefs_ok (snd (handle_os_default_change env i out c))"
proof -
  assume "prefs_ok c"
  then have "prefs_ok (c\<lparr>cc_last_os_defaults := d\<rparr>)" for d using prefs_ok_cong [of "c\<lparr>cc_last_os_defaults := d\<rparr>" c] by simp
  then show ?thesis by (simp add: handle_os_default_change_def cc_then_def case_prod_beta Let_def prefs_ok_restart)
qed

lemma prefs_ok_devices: "prefs_ok c \<Longrightarrow> prefs_ok (snd (set_audio_devices env i out c))"
proof -
  assume "prefs_ok c"
  then have "prefs_ok (c\<lparr>cc_input_device := x, cc_output_device := y\<rparr>)" for x y
    using prefs_ok_cong [of "c\<lparr>cc_input_device := x, cc_output_device := y\<rparr>" c] by (simp add: prefs_part_def)
  then show ?thesis by (simp add: set_audio_devices_def Let_def prefs_ok_restart)
qed

lemma prefs_ok_stop: "prefs_ok c \<Longrightarrow> prefs_ok (snd (handle_stop_audio c))"
  by (auto simp: handle_stop_audio_def cc_simps prefs_ok_volumes intro!: prefs_ok_no_audio)

lemma prefs_ok_stop_test: "prefs_ok c \<Longrightarrow> prefs_ok (snd (handle_stop_mic_test c))"
  by (auto simp: handle_stop_mic_test_def cc_simps prefs_ok_volumes intro!: prefs_ok_no_audio)

lemma prefs_ok_start_test: "prefs_ok c \<Longrightarrow> prefs_ok (snd (handle_start_mic_test env c))"
proof -
  assume ok: "prefs_ok c"
  have "prefs_ok (snd (snd (install_pipeline env m (c\<lparr>cc_state := s\<rparr>))))" for s m using ok by (simp add: prefs_ok_install prefs_ok_volumes)
  moreover have "prefs_ok (d\<lparr>cc_state := s\<rparr>)" if "prefs_ok d" for d :: "'a CallController" and s using that prefs_ok_cong [of "d\<lparr>cc_state := s\<rparr>" d] by simp
  ultimately show ?thesis using ok by (simp add: handle_start_mic_test_def cc_simps)
qed

lemma prefs_ok_preference: "prefs_ok c \<Longrightarrow> prefs_ok (set_preference cmd c)"
proof -
  assume ok: "prefs_ok c"
  have entry: "volumes_ok (mix_entry (pm_muted_update (\<lambda>_. m)) q p)" "volumes_ok (mix_entry (pm_volume_pct_update (\<lambda>_. min v MAX_PEER_VOLUME_PCT)) q p)"
    if "volumes_ok p" for m q p v
    using that by (auto intro!: volumes_ok_entry simp: MAX_PEER_VOLUME_PCT_def)
  show ?thesis
  proof (cases cmd)
    case (SetPeerMuted q m)
    then show ?thesis using ok entry by (auto simp: prefs_ok_def same_gains_def set_peer_muted_def split: option.splits)
  next
    case (SetPeerVolume q v)
    then show ?thesis using ok entry by (auto simp: prefs_ok_def same_gains_def set_peer_volume_def Let_def split: option.splits)
  next
    case (SetContentMuted q m)
    then show ?thesis using ok entry by (auto simp: prefs_ok_def same_gains_def set_content_muted_def split: option.splits)
  next
    case (SetContentVolume q v)
    then show ?thesis using ok entry by (auto simp: prefs_ok_def same_gains_def set_content_volume_def MAX_PEER_VOLUME_PCT_def Let_def min.assoc split: option.splits)
  next
    case (SetContentViewers qs)
    then show ?thesis using ok by (auto simp: prefs_ok_def same_gains_def set_content_viewers_def split: option.splits)
  qed (use ok in \<open>auto simp: prefs_part_def option.map_comp Let_def elim!: prefs_ok_cong [THEN iffD2, rotated]\<close>)
qed

lemma prefs_ok_step: "prefs_ok c \<Longrightarrow> prefs_ok (snd (call_step env e c))"
proof -
  assume ok: "prefs_ok c"
  have keeps: "prefs_ok d" if "prefs_part d = prefs_part c" for d using ok prefs_ok_cong [OF that] by simp
  have other: "prefs_ok (snd (call_command env cmd c))" for cmd
    using prefs_ok_preference [OF ok, of cmd] ok
    by (cases cmd) (auto intro: keeps prefs_ok_start prefs_ok_stop prefs_ok_devices prefs_ok_os_default prefs_ok_start_test prefs_ok_stop_test)
  show ?thesis by (cases e) (use ok other in \<open>auto intro: keeps simp: default_tick_def prefs_ok_os_default\<close>)
qed

text \<open>A run of the controller, each step with what the outside answers.\<close>

definition call_run :: "'t CallController \<Rightarrow> (call_env \<times> call_op) list \<Rightarrow> 't CallController" where
  "call_run = foldl (\<lambda>c (env, e). snd (call_step env e c))"

interpretation calls: invariant_system "controller_run env0 cm" "\<lambda>c (env, e). snd (call_step env e c)" prefs_ok for env0 cm
proof
  show "prefs_ok (controller_run env0 cm)" by (simp add: prefs_ok_def volumes_ok_def controller_run_def controller_new_def)
  show "prefs_ok (case x of (env, e) \<Rightarrow> snd (call_step env e s))" if "prefs_ok s" for s :: "'a CallController" and x
    using that prefs_ok_step by (cases x) simp
qed

text \<open>What the user has chosen, read off the commands alone, and the gain that follows from it.\<close>

type_synonym choices = "(string \<rightharpoonup> PeerMix) \<times> (string \<rightharpoonup> PeerMix) \<times> string set"

definition chosen_mix :: "(PeerMix \<Rightarrow> PeerMix) \<Rightarrow> string \<Rightarrow> (string \<rightharpoonup> PeerMix) \<Rightarrow> (string \<rightharpoonup> PeerMix)" where
  "chosen_mix f q m = m(q \<mapsto> f (case m q of Some x \<Rightarrow> x | None \<Rightarrow> mix_default))"

fun user_choice :: "call_op \<Rightarrow> choices \<Rightarrow> choices" where
  "user_choice (Command (SetPeerMuted q b)) (voices, shares, tiles) = (chosen_mix (pm_muted_update (\<lambda>_. b)) q voices, shares, tiles)"
| "user_choice (Command (SetPeerVolume q v)) (voices, shares, tiles) = (chosen_mix (pm_volume_pct_update (\<lambda>_. min v 200)) q voices, shares, tiles)"
| "user_choice (Command (SetContentMuted q b)) (voices, shares, tiles) = (voices, chosen_mix (pm_muted_update (\<lambda>_. b)) q shares, tiles)"
| "user_choice (Command (SetContentVolume q v)) (voices, shares, tiles) = (voices, chosen_mix (pm_volume_pct_update (\<lambda>_. min v 200)) q shares, tiles)"
| "user_choice (Command (SetContentViewers qs)) (voices, shares, tiles) = (voices, shares, set qs)"
| "user_choice _ ch = ch"

definition choices_of :: "call_op list \<Rightarrow> choices" where
  "choices_of es = fold user_choice es (Map.empty, Map.empty, {})"

definition chosen_gain :: "choices \<Rightarrow> string \<Rightarrow> real" where
  "chosen_gain ch slot = (case ch of (voices, shares, tiles) \<Rightarrow>
     if is_content_decoder_key slot
     then let q = drop (length CONTENT_DECODER_PREFIX) slot in if q \<in> tiles then mix_level (shares q) else 0
     else mix_level (voices slot))"

definition abs_choices :: "'t CallController \<Rightarrow> choices" where
  "abs_choices c = (hm_get (cc_peer_prefs c), hm_get (cc_content_prefs c), set (cc_content_viewers c))"

lemma abs_choices_cong: "prefs_part c' = prefs_part c \<Longrightarrow> abs_choices c' = abs_choices c"
  by (simp add: prefs_part_def abs_choices_def)

lemma abs_choices_updates [simp]:
  "abs_choices (c\<lparr>cc_state := s\<rparr>) = abs_choices c" "abs_choices (c\<lparr>cc_audio := a\<rparr>) = abs_choices c"
  "abs_choices (c\<lparr>cc_local_speaking := b\<rparr>) = abs_choices c" "abs_choices (c\<lparr>cc_last_os_defaults := d\<rparr>) = abs_choices c"
  "abs_choices (c\<lparr>cc_input_device := i, cc_output_device := out\<rparr>) = abs_choices c"
  "abs_choices (c\<lparr>cc_voice_activation := va, cc_muted := mu\<rparr>) = abs_choices c"
  "abs_choices (c\<lparr>cc_peers := ps, cc_content_playout := cp, cc_audio := a, cc_speak_prod := sp\<rparr>) = abs_choices c"
  by (simp_all add: abs_choices_def)

lemma abs_choices_install [simp]: "abs_choices (snd (snd (install_pipeline env m c))) = abs_choices c"
  by (simp add: install_pipeline_def abs_choices_def Let_def split: sum.splits)

lemma abs_choices_handlers [simp]:
  "abs_choices (snd (restart_live_pipeline env c)) = abs_choices c" "abs_choices (snd (handle_stop_audio c)) = abs_choices c"
  "abs_choices (snd (handle_start_audio env va c)) = abs_choices c" "abs_choices (snd (handle_start_mic_test env c)) = abs_choices c"
  "abs_choices (snd (handle_stop_mic_test c)) = abs_choices c"
  by (simp_all add: restart_live_pipeline_def handle_stop_audio_def handle_start_audio_def handle_start_mic_test_def handle_stop_mic_test_def cc_simps)

lemma abs_choices_reopening [simp]:
  "abs_choices (snd (handle_os_default_change env i out c)) = abs_choices c" "abs_choices (snd (set_audio_devices env i' out' c)) = abs_choices c"
  by (simp_all add: handle_os_default_change_def set_audio_devices_def cc_then_def case_prod_beta Let_def)

lemma abs_choices_preference: "abs_choices (set_preference cmd c) = user_choice (Command cmd) (abs_choices c)"
  by (cases cmd) (simp_all add: abs_choices_def chosen_mix_def MAX_PEER_VOLUME_PCT_def Let_def)

lemma abs_choices_step: "abs_choices (snd (call_step env e c)) = user_choice e (abs_choices c)"
proof -
  have keeps: "abs_choices d = abs_choices c" if "prefs_part d = prefs_part c" for d using that by (rule abs_choices_cong)
  have "abs_choices (snd (call_command env cmd c)) = user_choice (Command cmd) (abs_choices c)" for cmd
    using abs_choices_preference [of cmd c] by (cases cmd) (auto intro: keeps)
  then show ?thesis by (cases e) (auto intro: keeps simp: default_tick_def)
qed

lemma abs_choices_run: "abs_choices (call_run c es) = fold user_choice (map snd es) (abs_choices c)"
  by (induction es arbitrary: c) (simp_all add: call_run_def case_prod_beta abs_choices_step)

lemma prefs_ok_gain: "prefs_ok c \<Longrightarrow> cc_audio c = Some p \<Longrightarrow> peer_gain p slot = chosen_gain (abs_choices c) slot"
  by (simp add: prefs_ok_def same_gains_def peer_gain_def resolve_mix_gain_def chosen_gain_def abs_choices_def Let_def)

text \<open>
  C16: The listener's preferences hold in every live pipeline. Start from a new controller and run any sequence
  of commands, captured frames and ticks, with any answers of the devices and the codec: whenever a pipeline
  is live, the gain it applies to a voice or to a screen's audio is the one that follows from the commands
  with which the user muted, set volumes and opened tiles, read alone and in their order, whichever pipeline
  was live, if any, when they were given and however often the streams were reopened since.
\<close>

theorem preferences_hold:
  "case cc_audio (call_run (controller_run env0 cm) es) of
     None \<Rightarrow> True
   | Some p \<Rightarrow> \<forall>slot. peer_gain p slot = chosen_gain (choices_of (map snd es)) slot"
  (is "case cc_audio ?c of None \<Rightarrow> True | Some p \<Rightarrow> ?P p")
proof -
  have "prefs_ok ?c" unfolding call_run_def by (rule calls.inv_reachable)
  moreover have "abs_choices ?c = choices_of (map snd es)"
    using abs_choices_run [of "controller_run env0 cm" es] by (simp add: choices_of_def abs_choices_def controller_run_def controller_new_def)
  ultimately show ?thesis by (cases "cc_audio ?c") (simp_all add: prefs_ok_gain)
qed

subsection \<open>Bounds\<close>

definition queues_bounded :: "nat \<Rightarrow> (string, 'a list) hmap \<Rightarrow> bool" where
  "queues_bounded n m \<longleftrightarrow> hm_wf m \<and> list_all (\<lambda>(_, q). length q \<le> n) m"

definition call_bounds :: "'t CallController \<Rightarrow> bool" where
  "call_bounds c \<longleftrightarrow> cc_state c \<in> {CallIdle, MicTest, Connecting} \<and> 2 \<le> cc_jitter_depth c \<and> cc_jitter_depth c \<le> 20 \<and>
     16000 \<le> cc_outgoing_bitrate_bps c \<and> cc_outgoing_bitrate_bps c \<le> cc_bitrate_ceiling_bps c \<and> cc_bitrate_ceiling_bps c \<le> 192000 \<and>
     queues_bounded 160 (cc_peer_jitter_queues c) \<and> queues_bounded 256 (cc_peer_recent_seqs c) \<and> cc_playout_underruns c \<le> cc_playout_frames c"

lemma queues_bounded_get: "queues_bounded n m \<Longrightarrow> length (queue_of m q) \<le> n"
  by (auto simp: queues_bounded_def queue_of_def list_all_iff split: option.splits dest: hm_get_SomeD)

lemma queues_bounded_insert: "queues_bounded n m \<Longrightarrow> length q \<le> n \<Longrightarrow> queues_bounded n (hm_insert k q m)"
  using set_hm_insert [of k q m] by (auto simp: queues_bounded_def list_all_iff hm_wf_insert)

lemma queues_bounded_remove: "queues_bounded n m \<Longrightarrow> queues_bounded n (hm_remove k m)"
  by (auto simp: queues_bounded_def hm_wf_remove) (auto simp: hm_remove_def list_all_iff)

lemma length_keep_last [simp]: "length (keep_last n q) = min n (length q)"
  by (simp add: keep_last_def)

text \<open>The part of a controller that the bounds are about, the state apart.\<close>

definition bounds_part ::
  "'t CallController \<Rightarrow> nat \<times> nat \<times> nat \<times> (string, bytes list) hmap \<times> (string, u64 list) hmap \<times> nat \<times> nat" where
  "bounds_part c = (cc_jitter_depth c, cc_outgoing_bitrate_bps c, cc_bitrate_ceiling_bps c, cc_peer_jitter_queues c, cc_peer_recent_seqs c,
     cc_playout_frames c, cc_playout_underruns c)"

lemma call_bounds_cong:
  "bounds_part c' = bounds_part c \<Longrightarrow> cc_state c' = cc_state c \<or> cc_state c' \<in> {CallIdle, MicTest, Connecting} \<Longrightarrow> call_bounds c \<Longrightarrow> call_bounds c'"
  by (auto simp: bounds_part_def call_bounds_def)

lemma bounds_part_install [simp]:
  "bounds_part (snd (snd (install_pipeline env m c))) = bounds_part c" "cc_state (snd (snd (install_pipeline env m c))) = cc_state c"
  by (simp_all add: install_pipeline_def bounds_part_def Let_def split: sum.splits)

lemma bounds_part_updates [simp]:
  "bounds_part (c\<lparr>cc_state := s\<rparr>) = bounds_part c" "bounds_part (c\<lparr>cc_audio := a\<rparr>) = bounds_part c"
  "bounds_part (c\<lparr>cc_local_speaking := b\<rparr>) = bounds_part c" "bounds_part (c\<lparr>cc_last_os_defaults := d\<rparr>) = bounds_part c"
  "bounds_part (c\<lparr>cc_input_device := i, cc_output_device := out\<rparr>) = bounds_part c"
  "bounds_part (c\<lparr>cc_voice_activation := va, cc_muted := mu\<rparr>) = bounds_part c"
  "bounds_part (c\<lparr>cc_peers := ps, cc_content_playout := cp, cc_audio := a, cc_speak_prod := sp\<rparr>) = bounds_part c"
  by (simp_all add: bounds_part_def)

lemma bounds_restart [simp]:
  "bounds_part (snd (restart_live_pipeline env c)) = bounds_part c" "cc_state (snd (restart_live_pipeline env c)) = cc_state c"
  by (simp_all add: restart_live_pipeline_def)

lemma bounds_reopening [simp]:
  "bounds_part (snd (handle_os_default_change env i out c)) = bounds_part c" "bounds_part (snd (set_audio_devices env i' out' c)) = bounds_part c"
  "cc_state (snd (handle_os_default_change env i out c)) = cc_state c" "cc_state (snd (set_audio_devices env i' out' c)) = cc_state c"
  by (simp_all add: handle_os_default_change_def set_audio_devices_def cc_then_def case_prod_beta Let_def)

lemma bounds_life [simp]:
  "bounds_part (snd (handle_stop_audio c)) = bounds_part c" "bounds_part (snd (handle_start_audio env va c)) = bounds_part c"
  "bounds_part (snd (handle_start_mic_test env c)) = bounds_part c" "bounds_part (snd (handle_stop_mic_test c)) = bounds_part c"
  by (simp_all add: handle_stop_audio_def handle_start_audio_def handle_start_mic_test_def handle_stop_mic_test_def cc_simps)

lemma state_life:
  "cc_state (snd (handle_stop_audio c)) = CallIdle"
  "cc_state (snd (handle_start_audio env va c)) = (if cc_state c = CallIdle then Connecting else cc_state c)"
  "cc_state (snd (handle_stop_mic_test c)) = (if cc_state c = MicTest then CallIdle else cc_state c)"
  "cc_state (snd (handle_start_mic_test env c)) = (if cc_state c = CallIdle then if fst (install_pipeline env False (c\<lparr>cc_state := MicTest\<rparr>)) then MicTest else CallIdle else cc_state c)"
  by (simp_all add: handle_stop_audio_def handle_start_audio_def handle_start_mic_test_def handle_stop_mic_test_def cc_simps)

lemma bounds_plain [simp]:
  "bounds_part (snd (handle_initiate_peer q h pt c)) = bounds_part c" "cc_state (snd (handle_initiate_peer q h pt c)) = cc_state c"
  "bounds_part (snd (local_speaking b c)) = bounds_part c" "cc_state (snd (local_speaking b c)) = cc_state c"
  "bounds_part (snd (speaking_tick now c)) = bounds_part c" "cc_state (snd (speaking_tick now c)) = cc_state c"
  "bounds_part (snd (set_muted m c)) = bounds_part c" "cc_state (snd (set_muted m c)) = cc_state c"
  "bounds_part (snd (broadcast_audio_frame env f c)) = bounds_part c" "cc_state (snd (broadcast_audio_frame env f c)) = cc_state c"
  by (simp_all add: handle_initiate_peer_def local_speaking_def speaking_tick_def set_muted_def silence_local_def broadcast_audio_frame_def bounds_part_def
      case_prod_beta Let_def split: option.splits)

lemma bounds_levels [simp]: "bounds_part (snd (emit_levels now ls c)) = bounds_part c" "cc_state (snd (emit_levels now ls c)) = cc_state c"
  by (induction ls arbitrary: c) (auto simp: cc_then_def case_prod_beta Let_def bounds_part_def)

lemma call_bounds_remove: "call_bounds c \<Longrightarrow> call_bounds (snd (handle_remove_peer q c))"
  by (simp add: handle_remove_peer_def call_bounds_def queues_bounded_remove Let_def)

lemma call_bounds_room_audio:
  assumes ok: "call_bounds c"
  shows "call_bounds (snd (handle_room_audio now q s d c))"
proof -
  have seqs: "queues_bounded 256 (hm_insert q (queue_of (cc_peer_recent_seqs c) q) (cc_peer_recent_seqs c))"
    "queues_bounded 256 (hm_insert q (keep_last ROOM_AUDIO_SEQ_WINDOW (queue_of (cc_peer_recent_seqs c) q @ [x])) (cc_peer_recent_seqs c))" for x
    using ok by (auto simp: call_bounds_def ROOM_AUDIO_SEQ_WINDOW_def intro!: queues_bounded_insert queues_bounded_get)
  have queue: "queues_bounded 160 (hm_insert q (keep_last (max (cc_jitter_depth c * 8) 16) xs) (cc_peer_jitter_queues c))" for xs
    using ok by (auto simp: call_bounds_def max_def intro!: queues_bounded_insert)
  show ?thesis using ok seqs queue by (auto simp: handle_room_audio_def call_bounds_def Let_def split: option.splits)
qed

lemma call_bounds_advance_peer: "call_bounds c \<Longrightarrow> call_bounds (snd (advance_peer now q c))"
proof -
  assume ok: "call_bounds c"
  have "queues_bounded 160 (hm_insert q fs (cc_peer_jitter_queues c))" if "queue_of (cc_peer_jitter_queues c) q = f # fs" for f fs
    using ok that queues_bounded_get [of 160 "cc_peer_jitter_queues c" q] by (auto simp: call_bounds_def intro!: queues_bounded_insert)
  then show ?thesis using ok by (auto simp: advance_peer_def call_bounds_def Let_def split: list.splits)
qed

lemma call_bounds_advance: "call_bounds c \<Longrightarrow> call_bounds (snd (snd (advance_voice_queues now c)))"
proof -
  have peers: "call_bounds d \<Longrightarrow> call_bounds (snd (snd (advance_peers now qs d)))" for qs and d :: "'a CallController"
    by (induction qs arbitrary: d) (simp_all add: case_prod_beta Let_def call_bounds_advance_peer split: voice_slot.splits)
  have removed: "call_bounds d \<Longrightarrow> call_bounds (fold remove_voice qs d)" for qs and d :: "'a CallController"
  proof (induction qs arbitrary: d)
    case (Cons q qs)
    have "call_bounds (remove_voice q d)" using Cons.prems by (simp add: remove_voice_def call_bounds_def queues_bounded_remove)
    then show ?case using Cons.IH by simp
  qed simp
  assume "call_bounds c"
  then show ?thesis using peers removed by (simp add: advance_voice_queues_def case_prod_beta Let_def)
qed

lemma call_bounds_tick: "call_bounds c \<Longrightarrow> call_bounds (snd (tick_playout env c))"
proof (cases "cc_audio c")
  case (Some p)
  assume ok: "call_bounds c"
  obtain td tr c1 where adv: "advance_voice_queues (ce_now env) c = (td, tr, c1)" by (cases "advance_voice_queues (ce_now env) c")
  have c1: "call_bounds c1" using call_bounds_advance [OF ok, of "ce_now env"] adv by simp
  have "bounds_part (snd (tick_playout env c)) = bounds_part c1 \<and> cc_state (snd (tick_playout env c)) = cc_state c1"
    using Some by (simp add: tick_playout_def adv case_prod_beta Let_def cc_then_def split: option.splits) (simp add: bounds_part_def)
  then show ?thesis using call_bounds_cong [OF _ _ c1] by blast
qed (simp add: tick_playout_def)

lemma next_bitrate_bounds:
  assumes "16000 \<le> ceil_bps"
  shows "16000 \<le> next_bitrate b ceil_bps l \<and> next_bitrate b ceil_bps l \<le> ceil_bps" "16000 \<le> next_room_bitrate b ceil_bps l \<and> next_room_bitrate b ceil_bps l \<le> ceil_bps"
  using assms by (auto simp: next_bitrate_def next_room_bitrate_def clamp_def MIN_OUTGOING_BITRATE_BPS_def Let_def max_def)

lemma next_jitter_depth_bounds: "2 \<le> d \<Longrightarrow> d \<le> 20 \<Longrightarrow> 2 \<le> fst (next_jitter_depth d k f u) \<and> fst (next_jitter_depth d k f u) \<le> 20"
  by (auto simp: next_jitter_depth_def MAX_JITTER_DEPTH_def MIN_JITTER_DEPTH_def Let_def)

lemma call_bounds_quality: "call_bounds c \<Longrightarrow> call_bounds (update_network_quality l c)"
  using next_bitrate_bounds(1) [of "cc_bitrate_ceiling_bps c"] by (simp add: update_network_quality_def call_bounds_def Let_def)

lemma call_bounds_metrics:
  assumes "call_bounds c"
  shows "call_bounds (snd (metrics_tick c))"
proof -
  have jitter: "call_bounds (adapt_jitter_buffer c)"
    using assms next_jitter_depth_bounds [of "cc_jitter_depth c"] by (simp add: adapt_jitter_buffer_def call_bounds_def case_prod_beta)
  have "call_bounds (adapt_room_bitrate d)" if "call_bounds d" for d :: "'a CallController"
    using that next_bitrate_bounds(2) [of "cc_bitrate_ceiling_bps d"] by (simp add: adapt_room_bitrate_def call_bounds_def Let_def)
  then have "call_bounds (adapt_room_bitrate (adapt_jitter_buffer c))" using jitter by blast
  then show ?thesis by (simp add: metrics_tick_def call_bounds_def Let_def)
qed

lemma call_bounds_preference: "call_bounds c \<Longrightarrow> call_bounds (set_preference cmd c)"
  by (cases cmd) (auto simp: call_bounds_def clamp_def MIN_JITTER_DEPTH_def MIN_OUTGOING_BITRATE_BPS_def MAX_OUTGOING_BITRATE_BPS_def Let_def)

lemma call_bounds_step: "call_bounds c \<Longrightarrow> call_bounds (snd (call_step env e c))"
proof -
  assume ok: "call_bounds c"
  have keeps: "call_bounds d" if "bounds_part d = bounds_part c" "cc_state d = cc_state c \<or> cc_state d \<in> {CallIdle, MicTest, Connecting}" for d
    using call_bounds_cong [OF that ok] .
  have content: "call_bounds (c\<lparr>cc_content_playout := p\<rparr>)" for p by (rule keeps) (simp_all add: bounds_part_def)
  have life: "call_bounds (snd (handle_start_audio env va c))" "call_bounds (snd (handle_start_mic_test env c))" "call_bounds (snd (handle_stop_mic_test c))" for va
    by (rule keeps, simp, simp add: state_life)+
  have "call_bounds (snd (call_command env cmd c))" for cmd
    using call_bounds_preference [OF ok, of cmd] ok
    by (cases cmd) (auto intro: keeps life call_bounds_remove call_bounds_room_audio call_bounds_quality content simp: state_life)
  then show ?thesis by (cases e) (auto intro: keeps call_bounds_tick call_bounds_metrics ok simp: default_tick_def ok)
qed

interpretation call_bounds: invariant_system "controller_run env0 cm" "\<lambda>c (env, e). snd (call_step env e c)" call_bounds for env0 cm
proof
  show "call_bounds (controller_run env0 cm)" by (simp add: call_bounds_def queues_bounded_def controller_run_def controller_new_def DEFAULT_OUTGOING_BITRATE_BPS_def)
  show "call_bounds (case x of (env, e) \<Rightarrow> snd (call_step env e s))" if "call_bounds s" for s :: "'a CallController" and x
    using that call_bounds_step by (cases x) simp
qed

text \<open>
  C18: A call stays within its bounds. After any sequence of commands, captured frames and ticks, the controller
  is idle, connecting or in a microphone test, whatever the peers send: \<open>Disconnecting\<close> is entered and left within
  one stop, and no event leaves it in \<open>InCall\<close>. The jitter depth is between 2 and 20 frames, and setting it
  to \<open>d\<close> sets the nearest depth in that range, so that a depth of 1, which the settings offer, becomes 2. No speaker's queue
  holds more than 160 frames and no speaker's record of sequence numbers more than 256, the outgoing bitrate
  is between 16 kb/s and the ceiling the user set, and that ceiling at most 192 kb/s.
\<close>

theorem call_stays_in_bounds:
  "let c = call_run (controller_run env0 cm) es in
     cc_state c \<in> {CallIdle, MicTest, Connecting} \<and> 2 \<le> cc_jitter_depth c \<and> cc_jitter_depth c \<le> 20 \<and>
     cc_jitter_depth (snd (call_step env (Command (SetJitterDepth d)) c)) = max 2 (min 20 d) \<and>
     16000 \<le> cc_outgoing_bitrate_bps c \<and> cc_outgoing_bitrate_bps c \<le> cc_bitrate_ceiling_bps c \<and> cc_bitrate_ceiling_bps c \<le> 192000 \<and>
     length (queue_of (cc_peer_jitter_queues c) q) \<le> 160 \<and> length (queue_of (cc_peer_recent_seqs c) q) \<le> 256"
  (is "let c = ?c in ?P c")
proof -
  have "call_bounds ?c" unfolding call_run_def by (rule call_bounds.inv_reachable)
  then show ?thesis by (auto simp: call_bounds_def queues_bounded_get Let_def clamp_def MIN_JITTER_DEPTH_def)
qed

subsection \<open>What one call leaves to the next\<close>

lemma get_started [simp]: "hm_get (cc_peer_playout_started (snd (advance_peer now p c))) q = hm_get (cc_peer_playout_started c) q" if "p \<noteq> q"
  using that by (simp add: advance_peer_def Let_def coll_simps split: list.splits)

lemma queue_started [simp]: "queue_of (cc_peer_jitter_queues (snd (advance_peer now p c))) q = queue_of (cc_peer_jitter_queues c) q" if "p \<noteq> q"
  using that by (simp add: advance_peer_def Let_def queue_of_def coll_simps split: list.splits)

text \<open>A speaker whose playout has started yields the head of its queue in the next slot, whenever that is.\<close>

lemma started_queue_advances:
  "\<lbrakk>hm_get (cc_peer_playout_started c) q = Some True; queue_of (cc_peer_jitter_queues c) q = f # fs; q \<in> set ps\<rbrakk>
    \<Longrightarrow> (q, Some f) \<in> set (fst (advance_peers now ps c))"
proof (induction ps arbitrary: c)
  case (Cons p ps)
  show ?case
  proof (cases "p = q")
    case True
    have "fst (advance_peer now q c) = Slot (Some f)" using Cons.prems by (simp add: advance_peer_def Let_def)
    then show ?thesis using True by (simp add: case_prod_beta Let_def)
  next
    case False
    then have "(q, Some f) \<in> set (fst (advance_peers now ps (snd (advance_peer now p c))))" using Cons.IH [of "snd (advance_peer now p c)"] Cons.prems by simp
    then show ?thesis by (simp add: case_prod_beta Let_def split: voice_slot.splits)
  qed
qed simp

lemma queue_in_keys: "queue_of m q \<noteq> [] \<Longrightarrow> q \<in> set (hm_keys m)"
  by (auto simp: queue_of_def split: option.splits dest: hm_get_SomeD) (force simp: hm_keys_def dest: hm_get_SomeD)

text \<open>
  C40: Stopping a call keeps the voices it was playing. Suppose a speaker's playout has started and frames of it
  are still queued when the call is stopped. Whenever the next call starts, however much later and with
  whatever peers, the first playout tick of the new pipeline yields the oldest of those frames to the mixer.
  \<open>handle_stop_audio\<close> clears the peers and the content timelines, whose comment says that they belong to the
  session that produced them, and leaves the jitter queues and the marks of started playout.
\<close>

theorem stale_voice_replayed:
  assumes "hm_get (cc_peer_playout_started c) q = Some True" "queue_of (cc_peer_jitter_queues c) q = f # fs"
    and "ce_open env (cc_input_device c) (cc_output_device c) = None"
  shows "let c' = call_run c [(env0, Command StopAudio), (env, Command (StartAudio va))]
    in cc_audio c' \<noteq> None \<and> hm_keys (cc_peers c') = [] \<and> (q, Some f) \<in> set (fst (advance_voice_queues now c'))"
proof -
  let ?c = "call_run c [(env0, Command StopAudio), (env, Command (StartAudio va))]"
  have kept: "cc_peer_playout_started ?c = cc_peer_playout_started c" "cc_peer_jitter_queues ?c = cc_peer_jitter_queues c" "cc_peers ?c = []"
    "cc_audio ?c \<noteq> None"
    using assms(3) by (simp_all add: call_run_def handle_stop_audio_def handle_start_audio_def install_pipeline_def pipeline_start_def cc_simps)
  have "q \<in> set (hm_keys (cc_peer_jitter_queues c))" by (rule queue_in_keys) (simp add: assms(2))
  then have "(q, Some f) \<in> set (fst (advance_peers now (hm_keys (cc_peer_jitter_queues ?c)) ?c))"
    using started_queue_advances [of ?c q f fs] assms kept by simp
  then show ?thesis using kept by (simp add: advance_voice_queues_def case_prod_beta Let_def hm_keys_def)
qed

text \<open>An outside where every device opens and no frame decodes, at a given time.\<close>

definition quiet_env :: "real \<Rightarrow> call_env" where
  "quiet_env t = \<lparr>ce_now = t, ce_defaults = (Some ''mic'', Some ''speakers''), ce_open = \<lambda>_ _. None, ce_decoder_new = \<lambda>_. True,
     ce_decode = \<lambda>_ _. None, ce_ring_occupied = 0, ce_ring_capacity = 48000, ce_agent_speaking = False\<rparr>"

text \<open>A first call: the voice of \<open>ann\<close> starts to play with the third frame, and two frames are still queued.\<close>

definition first_call :: "unit CallController" where
  "first_call = call_run (controller_run (quiet_env 0) True)
     ((quiet_env 0, Command (StartAudio True)) # map (\<lambda>b. (quiet_env 1, Command (RoomAudioInbound ''ann'' None [b]))) [1, 2, 3] @ [(quiet_env 1, PlayoutTick)])"

lemma first_call_left:
  "hm_get (cc_peer_playout_started first_call) ''ann'' = Some True" "queue_of (cc_peer_jitter_queues first_call) ''ann'' = [[2], [3]]"
  "cc_input_device first_call = None" "cc_output_device first_call = None"
  by (simp_all add: first_call_def call_run_def quiet_env_def controller_run_def controller_new_def handle_start_audio_def install_pipeline_def pipeline_start_def set_content_viewers_def
      handle_room_audio_def content_tick.simps List.map_filter_def duration_since_def PEER_SILENCE_TIMEOUT_def keep_last_def queue_of_def tick_playout_def advance_voice_queues_def advance_peer_def
      tick_content_def content_slots_def mix_and_play_def decode_peer_def hm_get_def hm_keys_def hm_contains_def cc_simps)
text \<open>
  Changing a device during a microphone test mutes the test. A microphone test opens its pipeline unmuted
  whatever the controller's own mute is; when the user picks another device while it runs, the pipeline is
  reopened with the controller's mute, which is set unless a call with voice activation came before: the test
  is still on and its capture is muted.
\<close>

theorem mic_test_muted_by_device_change:
  assumes "cc_state c = CallIdle" "cc_muted c" "\<forall>i out. ce_open env i out = None" "owned_device_selection i \<noteq> cc_input_device c"
  shows "let c1 = call_run c [(env, Command StartMicTest)]; c2 = call_run c1 [(env, Command (SetAudioDevices i out))]
    in cc_state c1 = MicTest \<and> map_option ap_muted (cc_audio c1) = Some False \<and> cc_state c2 = MicTest \<and> map_option ap_muted (cc_audio c2) = Some True"
proof -
  have muted: "ap_muted (set_peer_volume q v p) = ap_muted p" "ap_muted (set_peer_muted q m p) = ap_muted p"
    "ap_muted (set_content_volume q v p) = ap_muted p" "ap_muted (set_content_muted q m p) = ap_muted p" "ap_muted (set_content_viewers qs p) = ap_muted p" for q v m p qs
    by (simp_all add: set_peer_volume_def set_peer_muted_def set_content_volume_def set_content_muted_def set_content_viewers_def)
  have replayed: "ap_muted (fold (\<lambda>(peer_id, prefs) p. set_peer_volume peer_id (pm_volume_pct prefs) (set_peer_muted peer_id (pm_muted prefs) p)) ms p) = ap_muted p"
    "ap_muted (fold (\<lambda>(peer_id, prefs) p. set_content_volume peer_id (pm_volume_pct prefs) (set_content_muted peer_id (pm_muted prefs) p)) ms p) = ap_muted p" for ms p
    by (induction ms arbitrary: p; simp add: case_prod_beta muted)+
  show ?thesis using assms
    by (simp add: call_run_def handle_start_mic_test_def set_audio_devices_def restart_live_pipeline_def install_pipeline_def pipeline_start_def cc_simps muted replayed)
qed

theorem stale_voice_replayed_witness:
  "let c' = call_run first_call [(quiet_env 60, Command StopAudio), (quiet_env 3600, Command (StartAudio True))]
   in cc_audio c' \<noteq> None \<and> hm_keys (cc_peers c') = [] \<and> (''ann'', Some [2]) \<in> set (fst (advance_voice_queues 3600 c'))"
  using stale_voice_replayed [of first_call "''ann''" "[2]" "[[3]]" "quiet_env 3600" "quiet_env 60" True 3600] first_call_left by (simp add: quiet_env_def)

theorem mic_test_muted_by_device_change_witness:
  "let c1 = call_run (controller_run (quiet_env 0) True :: unit CallController) [(quiet_env 0, Command StartMicTest)];
       c2 = call_run c1 [(quiet_env 0, Command (SetAudioDevices (Some ''headset'') None))]
   in cc_state c1 = MicTest \<and> map_option ap_muted (cc_audio c1) = Some False \<and> cc_state c2 = MicTest \<and> map_option ap_muted (cc_audio c2) = Some True"
proof (rule mic_test_muted_by_device_change)
  have "str_trim ''headset'' = ''headset''" "\<not> eq_ignore_ascii_case ''headset'' ''Default''" by code_simp+
  then show "owned_device_selection (Some ''headset'') \<noteq> cc_input_device (controller_run (quiet_env 0) True :: unit CallController)"
    by (simp add: owned_device_selection_def controller_run_def controller_new_def)
qed (simp_all add: controller_run_def controller_new_def quiet_env_def)

end
