(* ===== verification/Spec2Isabelle.thy ===== *)
theory Spec2Isabelle
  imports
    Channel_Frame
    Channel_Tag
    Replay_Guard
    Quota
    Feature_Registry
    Video_Codec
    Device_Routes
    Fragment_Roundtrip
    Fragment_Bounds
    Fragment_Wire
    Sfu_Calls
    Relay_Properties
    Relay_Games
    Wire
    Group_Key_Props
    Room_Session
    Space_Props
    File_Pump
    Transfer_Speed
    Cluster_Link_Props
    Supernode_Sync
    Room_Traffic
    Signaling_Auth
    Call_Props
begin

text \<open>
  A verification library for DoubleSlash, a peer-to-peer voice, video, chat and file program.
  Clients talk to each other directly where they can and through a \<open>supernode\<close> where they
  cannot. The crates under \<open>src/rust\<close> that carry its logic are \<open>doubleslash-features\<close>
  (vocabulary shared by client and supernode), \<open>doubleslash-supernode\<close> (relay and selective
  forwarding) and \<open>doubleslash-client\<close>.

  \<^bold>\<open>Parts and how they interact.\<close> A datagram carries a one-byte channel tag. The tag is either
  fixed (\<open>Channel_Frame\<close>) or bound at run time to a feature (\<open>Channel_Tag\<close>); features are
  registered with descriptors and served through quotas (\<open>Feature_Registry\<close>, \<open>Quota\<close>). The
  supernode admits connections, gives each a datagram index and forwards datagrams to a room, a
  game session or one peer (\<open>Relay\<close>, wire format in \<open>Wire\<close>), rejecting replayed control
  messages (\<open>Replay_Guard\<close>); which devices of which identities are in which room, and who may
  join, is kept by the SFU (\<open>Sfu_Room\<close>, \<open>Sfu_Manager\<close>) over per-identity device tables
  (\<open>Device_Routes\<close>). Clients cut video frames into datagrams and reassemble them
  (\<open>Fragment\<close>), agree on a codec (\<open>Video_Codec\<close>), and seal everything they send to a room
  under an epoch key minted by an elected member (\<open>Group_Key\<close>, \<open>Room_Session\<close>). Rooms are
  listed in an owner-signed Merkle tree (\<open>Merkle\<close>, \<open>Space\<close>). Files travel in chunks that are
  kept in a part file, verified against the announced hash and put in place under a safe name
  (\<open>File_Transfer\<close>, \<open>File_Manager\<close>, \<open>File_Wire\<close>). The supernode's handlers tie these together:
  who has shaken hands (\<open>Handshake\<close>) is trusted (\<open>Peer_Store\<close>), who has passed the gate
  (\<open>Access\<close>) gets a ticket for the relay, and a message about a room goes through the admission
  rules to the SFU and the relay (\<open>Supernode_State\<close>, \<open>Supernode\<close>); several supernodes form a
  cluster (\<open>Cluster\<close>), whose links (\<open>Cluster_Link\<close>) carry copies of the rooms' traffic
  (\<open>Supernode_Broadcast\<close>). In front of the handlers stands the signalling server (\<open>Signaling\<close>), which
  authenticates the envelopes (\<open>Protocol\<close>) that arrive on WebSockets and on the relay's stream and queues
  what goes out. On the client, the call controller (\<open>Call_Controller\<close>) queues the voices it receives, plays
  and mixes them (\<open>Call_Audio\<close>) with the audio of shared screens (\<open>Content_Playout\<close>), against which decoded
  video is held (\<open>Media_Sync\<close>).

  \<^bold>\<open>Theories.\<close>
  \<^item> \<open>Prelude\<close>: machine integers, byte codecs, UTF-8, hash maps and sets as association lists and
    duplicate-free lists, the map contract \<open>finite_map\<close>, and \<open>invariant_system\<close>, through which
    every state invariant below is obtained for all sequences of operations.
  \<^item> \<open>Channel_Frame\<close> (\<open>channel_frame.rs\<close>): encoding and classification of frames; round trip.
  \<^item> \<open>Channel_Tag\<close> (\<open>channel_tag.rs\<close>): the two-way tag table stays a bijection; what \<open>bind\<close>
    answers on every branch.
  \<^item> \<open>Replay_Guard\<close> (\<open>replay.rs\<close>): a signed message is accepted at most once within its
    window; memory per sender is bounded.
  \<^item> \<open>Quota\<close> (\<open>quota.rs\<close>): what a token bucket lets through over any interval.
  \<^item> \<open>Feature_Registry\<close> (\<open>descriptor.rs\<close>, \<open>registry.rs\<close>, \<open>module.rs\<close>): registration,
    dispatch and metering.
  \<^item> \<open>Video_Codec\<close> (\<open>video_codec.rs\<close>): negotiation.
  \<^item> \<open>Device_Routes\<close> (\<open>device.rs\<close>): the bounded table of device endpoints refines a map.
  \<^item> \<open>Fragment\<close>, \<open>Fragment_Wire\<close>, \<open>Fragment_Bounds\<close>, \<open>Fragment_Roundtrip\<close>
    (\<open>video/fragment.rs\<close>): the wire format, sizes of fragments, memory bounds of the
    reassembler under any input, provenance of what it returns, and the round trip of frames
    under reordering, duplication and other senders' traffic.
  \<^item> \<open>Sfu_Room\<close>, \<open>Sfu_Room_Inv\<close>, \<open>Sfu_Manager\<close>, \<open>Sfu_Properties\<close>, \<open>Sfu_Calls\<close>
    (\<open>sfu.rs\<close>): rooms with their rosters, invites, active speakers and idle collection.
  \<^item> \<open>Wire\<close> (\<open>wire.rs\<close>), \<open>Relay\<close>, \<open>Relay_Inv\<close>, \<open>Relay_Properties\<close>, \<open>Relay_Games\<close>
    (\<open>relay.rs\<close>): the relay's state with its cross-table invariant, admission, forwarding,
    revocation, game sessions.
  \<^item> \<open>Group_Key\<close>, \<open>Group_Key_Props\<close> (\<open>group_key.rs\<close>): epoch keys, retention, rotation,
    associated data, sealing and opening; the locale \<open>group_key_source\<close> is the trait
    \<open>GroupKeySource\<close>.
  \<^item> \<open>Room_Session\<close> (\<open>connection_manager/manager/room_session.rs\<close>): keyer election and the
    other decisions of a room session that are functions of their arguments.
  \<^item> \<open>Merkle\<close>, \<open>Space\<close>, \<open>Space_Props\<close> (\<open>space.rs\<close>): RFC 6962 hashing, signed roots,
    inclusion proofs, grants; completeness, soundness, order independence. The locale
    \<open>inclusion_scheme\<close> is what the proofs ask of the tree.
  \<^item> \<open>File_Delta\<close>, \<open>File_Names\<close>, \<open>File_Transfer\<close>, \<open>File_Manager\<close>, \<open>File_Wire\<close>
    (\<open>file_transfer.rs\<close> and its arms in \<open>inbound.rs\<close>): delta encoding, file names, one transfer in
    either direction, the manager of all transfers, and the messages of a peer.
    \<open>File_Roundtrip\<close>, \<open>File_Streaming\<close>: a file sent inline or streamed in any order of delivery
    arrives as it was. \<open>File_Safety\<close>, \<open>File_Properties\<close>: what is published was verified, and
    the records of all downloads stay consistent under every sequence of events. \<open>File_Stalls\<close>,
    \<open>File_Pump\<close>: silent senders are given up after three resumes, and the pump ends.
    \<open>Transfer_Speed\<close>: the displayed rate.
  \<^item> \<open>Peer_Store\<close> (\<open>peer_store.rs\<close>), \<open>Access\<close> (\<open>access.rs\<close>, \<open>ticket.rs\<close>), \<open>Handshake\<close>
    (\<open>handshake.rs\<close> and the joiner's side in the client's \<open>crypto.rs\<close>), \<open>Cluster\<close> (\<open>cluster.rs\<close>):
    the supernode's stores over restarts, key agreement of the two crates, the reusable invite,
    and what a signed cluster descriptor binds.
  \<^item> \<open>Supernode_State\<close>, \<open>Supernode\<close> (\<open>main.rs\<close>): the methods of \<open>SupernodeState\<close> and the
    handlers of \<open>SupernodeHandler\<close>, composed from the theories above. \<open>Supernode_Start\<close> (\<open>main\<close>,
    \<open>config.rs\<close>): the state a supernode builds from its files. \<open>Supernode_Gate\<close> collects the handlers
    as steps and shows that the access gate holds over all of them after any start, and that a restart
    admits more peers than the gate; \<open>Supernode_Admission\<close>
    shows who gets into a room, with the ways around the admission rules; \<open>Supernode_Sync\<close> shows
    that Space roots only move forward and that two peers meet for a hole punch.
  \<^item> \<open>Cluster_Link\<close>, \<open>Cluster_Link_Props\<close> (\<open>cluster_link.rs\<close>): signed messages on
    length-prefixed streams, the table of links and subscriptions, the cache of seen ids. What a link
    delivers of any stream and of an honest one, the cache as a window over its history, and the
    teardown of a replaced link.
  \<^item> \<open>Supernode_Broadcast\<close>, \<open>Room_Traffic\<close> (\<open>main.rs\<close>): the handlers of room chat, audio,
    files and camera state, their copies to the cluster and the delivery of such copies. Who gets
    what, that file payload is not dropped, that replication does not loop.
  \<^item> \<open>Protocol\<close>, \<open>Protocol_Props\<close> (\<open>protocol.rs\<close>): the signed envelope and its wire form; a signed
    message verifies where it is read.
  \<^item> \<open>Signaling\<close> (\<open>signaling.rs\<close>, \<open>handle_relay_signaling_stream\<close> of \<open>main.rs\<close>): queues bounded in
    bytes over shared counters, routes to devices, the life of a connection. \<open>Signaling_Queues\<close>: counters
    are exact and bounded, file frames are paced. \<open>Signaling_Routes\<close>: presence is counted exactly, a frame
    goes to its target only. \<open>Signaling_Auth\<close>: one connection speaks for one sender, at a bounded rate;
    what a replayed frame and a panicking log line do.
  \<^item> \<open>Content_Playout\<close> (\<open>content_playout.rs\<close>): the reorder buffer of screen audio; a timely stream is played
    complete and in order, a stopped one forgotten. \<open>Media_Sync\<close> (\<open>media_sync.rs\<close>): which video
    frames are shown, held and dropped, and that video runs free when the audio stops.
  \<^item> \<open>Call_Audio\<close>, \<open>Call_Controller\<close> (\<open>call_controller.rs\<close>, \<open>agent_voice.rs\<close>, \<open>audio_devices.rs\<close>): gains,
    mixing, adaptation; the controller with its commands and ticks. \<open>Call_Props\<close>: the listener's
    preferences hold in every pipeline, the bounds of a call, and what is left over from one call in the next.

  \<^bold>\<open>Conventions.\<close> State is a record passed and returned; an operation on \<open>&mut self\<close> returns
  its result paired with the new state. Early returns and errors are values. Integers keep their
  width where they can wrap (\<open>u8\<close> epochs and indices, \<open>u16\<close> fragment counts, \<open>u32\<close> frame ids,
  \<open>u64\<close> sequence numbers). Hash maps are association lists with distinct keys, and no theorem
  depends on their order. The operations of a component are collected in a datatype of events
  with a step function, so that a property of all reachable states quantifies over event lists;
  where the code holds a lock across a call, the call is one event. A file on disk is an entry of a
  map from paths to contents, what the operating system answers to an operation is an argument,
  and a panic is \<open>None\<close>, or \<open>WsPanic\<close> for a task of the signalling server. What an operation sends is a list of outputs beside the new state.

  \<^bold>\<open>Bounds and fuel.\<close> The search for a free datagram index (\<open>alloc_loop\<close>) has fuel 255, one
  more than the number of indices it can visit before returning to its start, so running out is
  exactly the code's \<open>None\<close>. Every other loop is structurally recursive or has its termination
  proved. The clock and the floating-point arithmetic of quotas, scores, gains and loss are exact reals.

  \<^bold>\<open>Parameters.\<close> Code of other crates is an argument: base64 and hex engines, \<open>serde_json\<close>,
  SHA-256, Ed25519, AES-GCM, HKDF, the QUIC connection (whether a datagram can be sent, how large
  it may be), random bytes and the clock, the audio devices and the Opus codec. What a theorem needs of them is a hypothesis of it.

  \<^bold>\<open>Not modelled.\<close> Sockets, TLS set-up, timers and task scheduling; the user interface; audio and
  video capture and the codecs; the statistics, web portal and listeners of \<open>main.rs\<close> and the reading of its configuration; the client's
  connection manager apart from the file messages and the decisions of \<open>Room_Session\<close>; databases;
  the Android bindings and the installer. Log lines are left out except in \<open>Signaling\<close>, although some of
  the others cut strings at a byte that need not be a character boundary as well. Interleaving is modelled at the
  granularity of the locked operations, not below it.
\<close>

end
